(* ===== verification/Prelude.thy ===== *)
theory Prelude
  imports Main "HOL-Library.Word" "HOL-Library.Log_Nat"
begin

text \<open>
  Shared vocabulary of the development: the C integer types as words, C's truncating
  division, arrays as total functions over indices (so that an access outside the declared
  bounds is visible in a statement instead of being silently dropped), the single-precision
  rounding the scheduler's weights go through, and generic facts on runs of indices, on folds
  and on machine words that the component theories use.
\<close>

unbundle bit_operations_syntax

type_synonym u8 = "8 word"
type_synonym u16 = "16 word"
type_synonym u32 = "32 word"
type_synonym u64 = "64 word"

text \<open>A C array that code indexes with a signed \<^verbatim>\<open>int\<close>.\<close>

type_synonym 'a carray = "int \<Rightarrow> 'a"

named_theorems codec_simps \<open>rewriting rules of the byte level encoders and decoders\<close>
named_theorems sched_simps \<open>frame facts of the scheduler state\<close>
named_theorems rlc_simps \<open>frame facts of the RLC entities\<close>

section \<open>C arithmetic\<close>

text \<open>C99 integer division and remainder truncate towards zero.\<close>

definition c_div :: "int \<Rightarrow> int \<Rightarrow> int" where
  "c_div a b = sgn a * sgn b * (\<bar>a\<bar> div \<bar>b\<bar>)"

definition c_mod :: "int \<Rightarrow> int \<Rightarrow> int" where
  "c_mod a b = a - b * c_div a b"

lemma c_mod_nonneg: "0 \<le> a \<Longrightarrow> 0 < b \<Longrightarrow> c_mod a b = a mod b"
proof -
  assume "0 \<le> a" "0 < b"
  then have "c_div a b = a div b" by (cases "a = 0") (simp_all add: c_div_def)
  then show ?thesis by (simp add: c_mod_def minus_mult_div_eq_mod)
qed

text \<open>The macros of \<^verbatim>\<open>common/utils/nr/nr_common.h\<close> on 32 bit operands.\<close>

definition CEILIDIV :: "u32 \<Rightarrow> u32 \<Rightarrow> u32" where
  "CEILIDIV a b = (a + b - 1) div b"

definition ROUNDIDIV :: "u32 \<Rightarrow> u32 \<Rightarrow> u32" where
  "ROUNDIDIV a b = (push_bit 1 a + b) div push_bit 1 b"

text \<open>
  \<open>floor (log2 x)\<close> of a positive 32 bit value. The double precision \<^verbatim>\<open>log2\<close> of the C
  library is exact on powers of two and separates neighbouring 32 bit integers, so its floor is
  the index of the highest set bit.
\<close>

definition floor_log2 :: "u32 \<Rightarrow> nat" where
  "floor_log2 x = floorlog 2 (unat x) - 1"

section \<open>Single precision rounding\<close>

text \<open>
  A finite C \<^verbatim>\<open>float\<close> is the rational number it denotes; an arithmetic operation on floats
  is the exact operation followed by rounding to the nearest representable value, ties to
  even. The exponent range stops at the subnormals below; the values of this program stay far
  from the overflow threshold above.
\<close>

definition rat_exponent :: "rat \<Rightarrow> int" where
  "rat_exponent x =
     (let (p, q) = quotient_of x;
          k = int (floorlog 2 (nat p)) - int (floorlog 2 (nat q));
          lo = (if 0 \<le> k then 2 ^ nat k else 1 / 2 ^ nat (- k))
      in if lo \<le> x then k else k - 1)"

definition round_half_even :: "rat \<Rightarrow> int" where
  "round_half_even m =
     (let f = \<lfloor>m\<rfloor>; r = m - of_int f
      in if r < 1 / 2 then f else if r > 1 / 2 then f + 1 else if even f then f else f + 1)"

definition fround :: "rat \<Rightarrow> rat" where
  "fround x =
     (if x = 0 then 0
      else let a = \<bar>x\<bar>; e = max (rat_exponent a - 23) (-149);
               u = (if 0 \<le> e then 2 ^ nat e else 1 / 2 ^ nat (- e))
           in sgn x * (of_int (round_half_even (a / u)) * u))"

section \<open>Runs of indices\<close>

text \<open>\<open>run P s l\<close>: the \<open>l\<close> consecutive indices from \<open>s\<close> all satisfy \<open>P\<close>.\<close>

definition run :: "(int \<Rightarrow> bool) \<Rightarrow> int \<Rightarrow> int \<Rightarrow> bool" where
  "run P s l \<longleftrightarrow> (\<forall>i. s \<le> i \<and> i < s + l \<longrightarrow> P i)"

lemma runI: "(\<And>i. s \<le> i \<Longrightarrow> i < s + l \<Longrightarrow> P i) \<Longrightarrow> run P s l"
  by (simp add: run_def)

lemma runD: "run P s l \<Longrightarrow> s \<le> i \<Longrightarrow> i < s + l \<Longrightarrow> P i"
  by (simp add: run_def)

lemma run_empty [simp]: "l \<le> 0 \<Longrightarrow> run P s l"
  by (auto simp: run_def)

lemma run_mono: "run P s l \<Longrightarrow> s \<le> s' \<Longrightarrow> s' + l' \<le> s + l \<Longrightarrow> run P s' l'"
  by (auto simp: run_def)

lemma run_extend: "run P s l \<Longrightarrow> P (s + l) \<Longrightarrow> run P s (l + 1)"
  unfolding run_def by (metis add.assoc zle_add1_eq_le order_le_less)

lemma run_snoc_iff: "0 \<le> l \<Longrightarrow> run P s (l + 1) \<longleftrightarrow> run P s l \<and> P (s + l)"
  using run_extend by (auto simp: run_def)

section \<open>Folds\<close>

lemma foldl_upt_Suc [simp]: "foldl f s [0..<Suc n] = f (foldl f s [0..<n]) n"
  by simp

lemma foldl_invariant:
  assumes "I s" and "\<And>a x. x \<in> set xs \<Longrightarrow> I a \<Longrightarrow> I (f a x)"
  shows "I (foldl f s xs)"
  using assms by (induction xs arbitrary: s) auto

lemma sum_point_update:
  fixes f g :: "nat \<Rightarrow> int"
  assumes "j < n" and "\<And>k. k \<noteq> j \<Longrightarrow> g k = f k"
  shows "(\<Sum>k<n. g k) = (\<Sum>k<n. f k) - f j + g j"
proof -
  have "(\<Sum>k<n. h k) = h j + (\<Sum>k \<in> {..<n} - {j}. h k)" for h :: "nat \<Rightarrow> int"
    using assms(1) by (intro sum.remove) auto
  moreover have "(\<Sum>k \<in> {..<n} - {j}. g k) = (\<Sum>k \<in> {..<n} - {j}. f k)"
    using assms(2) by (intro sum.cong) auto
  ultimately show ?thesis by simp
qed

section \<open>Loops that continue or return\<close>

text \<open>
  A C loop over a list whose body either goes on with the next element (at its end or by
  \<^verbatim>\<open>continue\<close>), leaves the loop by \<^verbatim>\<open>break\<close>, or returns from the function.
\<close>

datatype ('s, 'r) ctl = Continue 's | Break 's | Return 's 'r

fun for_each :: "('x \<Rightarrow> 's \<Rightarrow> ('s, 'r) ctl) \<Rightarrow> 'x list \<Rightarrow> 's \<Rightarrow> 's \<times> 'r option" where
  "for_each body [] s = (s, None)"
| "for_each body (x # xs) s =
     (case body x s of
        Continue s' \<Rightarrow> for_each body xs s'
      | Break s' \<Rightarrow> (s', None)
      | Return s' r \<Rightarrow> (s', Some r))"

primrec ctl_state :: "('s, 'r) ctl \<Rightarrow> 's" where
  "ctl_state (Continue s) = s"
| "ctl_state (Break s) = s"
| "ctl_state (Return s r) = s"

lemma for_each_invariant:
  assumes "I s" and "\<And>x s. x \<in> set xs \<Longrightarrow> I s \<Longrightarrow> I (ctl_state (body x s))"
  shows "I (fst (for_each body xs s))"
  using assms
proof (induction xs arbitrary: s)
  case (Cons x xs)
  have "I (ctl_state (body x s))" using Cons.prems by simp
  then show ?case using Cons by (cases "body x s") auto
qed simp

lemma for_each_rule:
  assumes "I s"
    and "\<And>x s. x \<in> set xs \<Longrightarrow> I s \<Longrightarrow>
           (case body x s of Continue s' \<Rightarrow> I s' | Break s' \<Rightarrow> Q s' | Return s' r \<Rightarrow> Q s')"
    and "\<And>s. I s \<Longrightarrow> Q s"
  shows "Q (fst (for_each body xs s))"
  using assms
proof (induction xs arbitrary: s)
  case (Cons x xs)
  have "case body x s of Continue s' \<Rightarrow> I s' | Break s' \<Rightarrow> Q s' | Return s' r \<Rightarrow> Q s'"
    using Cons.prems by simp
  then show ?case using Cons by (cases "body x s") auto
qed simp

text \<open>If no iteration breaks, a loop that does not return ends in a state between iterations.\<close>

lemma for_each_no_return:
  assumes "I s"
    and "\<And>x s. x \<in> set xs \<Longrightarrow> I s \<Longrightarrow> (case body x s of Continue s' \<Rightarrow> I s' | Break s' \<Rightarrow> I s' | Return s' r \<Rightarrow> True)"
    and "snd (for_each body xs s) = None"
  shows "I (fst (for_each body xs s))"
  using assms
proof (induction xs arbitrary: s)
  case (Cons x xs)
  have "case body x s of Continue s' \<Rightarrow> I s' | Break s' \<Rightarrow> I s' | Return s' r \<Rightarrow> True"
    using Cons.prems by simp
  then show ?case using Cons by (cases "body x s") auto
qed simp

text \<open>A reflexive and transitive relation between states lifts from the body to the loop.\<close>

lemma for_each_rel:
  assumes "\<And>s. R s s" and "\<And>a b c. R a b \<Longrightarrow> R b c \<Longrightarrow> R a c"
    and "\<And>x s. x \<in> set xs \<Longrightarrow> R s (ctl_state (body x s))"
  shows "R s (fst (for_each body xs s))"
  by (rule for_each_invariant [where I = "R s"]) (use assms in blast)+

end
