(* ===== verification/Mac_Primitives.thy ===== *)
theory Mac_Primitives
  imports Prelude
begin

text \<open>
  Resource primitives of the gNB MAC scheduler
  (\<^verbatim>\<open>openair2/LAYER2/NR_MAC_gNB/gNB_scheduler_primitives.c\<close>): the search for free
  resource blocks in the VRB map, the MCS adaptation rule, the marking of PDCCH resources and
  the allocation of analog beams.
\<close>

section \<open>Free blocks of the VRB map\<close>

text \<open>
  A VRB map gives, for each resource block, a bit mask of its occupied symbols. A block is
  free for a set of symbols when the two masks do not meet.
\<close>

type_synonym vrb_map_t = "u16 carray"

definition rb_free :: "vrb_map_t \<Rightarrow> u16 \<Rightarrow> int \<Rightarrow> bool" where
  "rb_free m msk i \<longleftrightarrow> m i AND msk = 0"

definition SL_to_bitmap :: "nat \<Rightarrow> nat \<Rightarrow> u16" where
  "SL_to_bitmap startSymbolIndex nrOfSymbols =
     (word_of_int ((2 ^ nrOfSymbols - 1) * 2 ^ startSymbolIndex))"

text \<open>One iteration of the loop of \<^verbatim>\<open>find_largest_free_block\<close> on
  \<open>(best_start, best_len, cur_start, cur_len)\<close>.\<close>

fun flfb_step :: "(int \<Rightarrow> bool) \<Rightarrow> int \<times> int \<times> int \<times> int \<Rightarrow> nat \<Rightarrow> int \<times> int \<times> int \<times> int" where
  "flfb_step free (best_start, best_len, cur_start, cur_len) rb =
     (if free (int rb)
      then (best_start, best_len, if cur_len = 0 then int rb else cur_start, cur_len + 1)
      else if cur_len > best_len then (cur_start, cur_len, cur_start, 0)
      else (best_start, best_len, cur_start, 0))"

definition find_largest_free_block ::
    "vrb_map_t \<Rightarrow> u16 \<Rightarrow> int \<Rightarrow> int \<Rightarrow> int \<times> int" where
  "find_largest_free_block vrb_map slbitmap bwp_start bwp_size =
     (let (best_start, best_len, cur_start, cur_len) =
            foldl (flfb_step (\<lambda>rb. rb_free vrb_map slbitmap (rb + bwp_start))) (0, 0, 0, 0)
              [0..<nat bwp_size]
      in if cur_len > best_len then (cur_start, cur_len) else (best_start, best_len))"

text \<open>The inner loop of \<^verbatim>\<open>get_rb_alloc\<close> measures a block from \<open>rbEnd\<close> on; the result is the
  first index at or after \<open>rbEnd\<close> that is the limit or occupied.\<close>

function get_rb_end :: "(int \<Rightarrow> bool) \<Rightarrow> int \<Rightarrow> int \<Rightarrow> int" where
  "get_rb_end free current_limit rbEnd =
     (if rbEnd < current_limit \<and> free rbEnd then get_rb_end free current_limit (rbEnd + 1)
      else rbEnd)"
  by pat_completeness auto
termination
  by (relation "measure (\<lambda>(_, l, e). nat (l - e))") auto

declare get_rb_end.simps [simp del]

lemma get_rb_end_ge: "rbEnd \<le> get_rb_end free l rbEnd"
  by (induction free l rbEnd rule: get_rb_end.induct) (subst get_rb_end.simps, auto)

function get_rb_alloc_loop :: "(int \<Rightarrow> bool) \<Rightarrow> int \<Rightarrow> int \<Rightarrow> int \<Rightarrow> int \<Rightarrow> (int \<times> int) option" where
  "get_rb_alloc_loop free rbSize_min rbSize_max bwpSize rbStart =
     (if rbStart + rbSize_min \<le> bwpSize then
        if \<not> free rbStart
        then get_rb_alloc_loop free rbSize_min rbSize_max bwpSize (rbStart + 1)
        else let current_limit = min (rbStart + rbSize_max) bwpSize;
                 rbEnd = get_rb_end free current_limit (rbStart + 1);
                 rbSize = rbEnd - rbStart
             in if rbSize \<ge> rbSize_min then Some (rbStart, rbSize)
                else get_rb_alloc_loop free rbSize_min rbSize_max bwpSize (rbEnd + 1)
      else None)"
  by pat_completeness auto
termination
proof (relation "measure (\<lambda>(_, mn, _, sz, s). nat (sz - mn + 1 - s))", goal_cases)
  case (3 free mn mx sz s x xa xb)
  then show ?case using get_rb_end_ge [of "s + 1" free "min (s + mx) sz"] by auto
qed auto

declare get_rb_alloc_loop.simps [simp del]

text \<open>\<open>Some (rbStart, rbSize)\<close> is the return value \<^verbatim>\<open>true\<close> with the two output parameters.\<close>

definition get_rb_alloc ::
    "int \<Rightarrow> int \<Rightarrow> int \<Rightarrow> int \<Rightarrow> vrb_map_t \<Rightarrow> u16 \<Rightarrow> (int \<times> int) option" where
  "get_rb_alloc rbSize_min rbSize_max bwpStart bwpSize vrb_map sym_mask =
     get_rb_alloc_loop (\<lambda>rb. rb_free vrb_map sym_mask (bwpStart + rb)) rbSize_min rbSize_max bwpSize 0"

subsection \<open>The largest free block\<close>

text \<open>What the loop has established before it looks at index \<open>n\<close>.\<close>

definition flfb_inv :: "(int \<Rightarrow> bool) \<Rightarrow> int \<Rightarrow> int \<times> int \<times> int \<times> int \<Rightarrow> bool" where
  "flfb_inv free n st \<longleftrightarrow>
     (case st of (bs, bl, cs, cl) \<Rightarrow>
        0 \<le> bs \<and> 0 \<le> bl \<and> bs + bl \<le> n \<and> run free bs bl \<and>
        0 \<le> cl \<and> cl \<le> n \<and> (0 < cl \<longrightarrow> cs = n - cl) \<and> run free (n - cl) cl \<and>
        (\<forall>s l. 0 \<le> s \<and> 0 \<le> l \<and> s + l = n \<and> run free s l \<longrightarrow> l \<le> cl) \<and>
        (\<forall>s l. 0 \<le> s \<and> 0 \<le> l \<and> s + l \<le> n \<and> run free s l \<longrightarrow> l \<le> max bl cl))"

lemma flfb_inv_step:
  assumes "flfb_inv free (int n) st"
  shows "flfb_inv free (int (Suc n)) (flfb_step free st n)"
proof -
  obtain bs bl cs cl where st: "st = (bs, bl, cs, cl)" by (cases st) auto
  note I = assms [unfolded flfb_inv_def st prod.case]
  show ?thesis
  proof (cases "free (int n)")
    case True
    have last: "l \<le> cl + 1" if "0 \<le> s" "0 \<le> l" "s + l = int (Suc n)" "run free s l" for s l
    proof (cases "l = 0")
      case False
      have "run free s (l - 1)" using that(4) by (rule run_mono) auto
      moreover have "\<forall>s l. 0 \<le> s \<and> 0 \<le> l \<and> s + l = int n \<and> run free s l \<longrightarrow> l \<le> cl"
        using I by blast
      moreover have "0 \<le> l - 1" "s + (l - 1) = int n" using that False by auto
      ultimately have "l - 1 \<le> cl" using that(1) by blast
      then show ?thesis by simp
    qed (use I in auto)
    have all: "l \<le> max bl (cl + 1)" if "0 \<le> s" "0 \<le> l" "s + l \<le> int (Suc n)" "run free s l" for s l
    proof (cases "s + l \<le> int n")
      case True
      with I that have "l \<le> max bl cl" by blast
      then show ?thesis by linarith
    next
      case False
      with last [of s l] that show ?thesis by force
    qed
    have "run free (int n - cl) (cl + 1)" using I True run_extend [of free "int n - cl" cl] by simp
    then show ?thesis
      using I True last all by (auto simp: flfb_inv_def st algebra_simps)
  next
    case False
    have no: "l \<le> 0" if "0 \<le> l" "s + l = int (Suc n)" "run free s l" for s l
      using runD [OF that(3), of "int n"] False that by fastforce
    have all: "l \<le> max bl cl" if "0 \<le> s" "0 \<le> l" "s + l \<le> int (Suc n)" "run free s l" for s l
      using no [of l s] that I by (cases "s + l \<le> int n") (blast, force)
    from I have "0 < cl \<Longrightarrow> 0 \<le> cs \<and> cs + cl \<le> int (Suc n) \<and> run free cs cl" by auto
    with I False no all show ?thesis by (auto simp: flfb_inv_def st)
  qed
qed

lemma flfb_inv_loop: "flfb_inv free (int n) (foldl (flfb_step free) (0, 0, 0, 0) [0..<n])"
proof (induction n)
  case 0
  show ?case by (auto simp: flfb_inv_def)
next
  case (Suc n)
  then show ?case by (simp add: flfb_inv_step del: of_nat_Suc)
qed

lemma find_largest_free_block_spec:
  assumes "find_largest_free_block m msk bs sz = (s, l)"
  shows "0 \<le> s" and "0 \<le> l" and "l \<le> max 0 sz" and "0 < l \<Longrightarrow> s + l \<le> sz"
    and "run (\<lambda>i. rb_free m msk (i + bs)) s l"
    and "\<And>s' l'. 0 \<le> s' \<Longrightarrow> s' + l' \<le> sz \<Longrightarrow> run (\<lambda>i. rb_free m msk (i + bs)) s' l' \<Longrightarrow> l' \<le> l"
proof -
  let ?free = "\<lambda>i. rb_free m msk (i + bs)"
  obtain a b c d where st: "foldl (flfb_step ?free) (0, 0, 0, 0) [0..<nat sz] = (a, b, c, d)"
    by (metis prod_cases4)
  have I: "flfb_inv ?free (int (nat sz)) (a, b, c, d)"
    using flfb_inv_loop [of ?free "nat sz"] by (simp only: st)
  note I' = I [unfolded flfb_inv_def prod.case]
  have sl: "(s, l) = (if d > b then (c, d) else (a, b))"
    using assms by (auto simp: find_largest_free_block_def st)
  show "0 \<le> s" "0 \<le> l" "l \<le> max 0 sz" "0 < l \<Longrightarrow> s + l \<le> sz" "run ?free s l"
    using I' sl by (auto split: if_splits)
  fix s' l'
  assume r: "0 \<le> s'" "s' + l' \<le> sz" "run ?free s' l'"
  show "l' \<le> l"
  proof (cases "0 \<le> l'")
    case True
    with r I' have "l' \<le> max b d" by auto
    then show ?thesis using sl by (auto split: if_splits)
  qed (use I' sl in \<open>auto split: if_splits\<close>)
qed

subsection \<open>First fit\<close>

lemma get_rb_end_run: "run free s (rbEnd - s) \<Longrightarrow> run free s (get_rb_end free l rbEnd - s)"
proof (induction free l rbEnd rule: get_rb_end.induct)
  case (1 free l e)
  show ?case
  proof (cases "e < l \<and> free e")
    case True
    have "run free s (e + 1 - s)"
      using run_extend [OF "1.prems"] True by (simp add: algebra_simps)
    with 1 True show ?thesis by (subst get_rb_end.simps) simp
  qed (subst get_rb_end.simps, use 1 in auto)
qed

lemma get_rb_end_le: "rbEnd \<le> l \<Longrightarrow> get_rb_end free l rbEnd \<le> l"
  by (induction free l rbEnd rule: get_rb_end.induct) (subst get_rb_end.simps, auto)

lemma get_rb_end_stop: "get_rb_end free l e < l \<Longrightarrow> \<not> free (get_rb_end free l e)"
proof (induction free l e rule: get_rb_end.induct)
  case (1 free l e)
  then show ?case by (subst get_rb_end.simps, subst (asm) (2) get_rb_end.simps) (auto split: if_splits)
qed

text \<open>Soundness: an answer is a free block inside the bandwidth part, of an allowed size.\<close>

lemma get_rb_alloc_loop_sound:
  assumes "get_rb_alloc_loop free mn mx sz s0 = Some (s, l)" and "1 \<le> mx" and "1 \<le> mn"
  shows "s0 \<le> s \<and> mn \<le> l \<and> l \<le> mx \<and> s + l \<le> sz \<and> run free s l"
  using assms
proof (induction free mn mx sz s0 rule: get_rb_alloc_loop.induct)
  case (1 free mn mx sz s0)
  let ?e = "get_rb_end free (min (s0 + mx) sz) (s0 + 1)"
  have ge: "s0 + 1 \<le> ?e" by (rule get_rb_end_ge)
  from "1.prems"(1) have g: "s0 + mn \<le> sz" by (subst (asm) get_rb_alloc_loop.simps) (auto split: if_splits)
  consider (occ) "\<not> free s0" | (hit) "free s0" "?e - s0 \<ge> mn" | (miss) "free s0" "?e - s0 < mn"
    by linarith
  then show ?case
  proof cases
    case occ
    with "1.prems"(1) g have "get_rb_alloc_loop free mn mx sz (s0 + 1) = Some (s, l)"
      by (subst (asm) get_rb_alloc_loop.simps) simp
    with "1.IH"(1) occ g "1.prems" show ?thesis by simp
  next
    case hit
    with "1.prems"(1) g have eq: "s = s0" "l = ?e - s0"
      by (subst (asm) get_rb_alloc_loop.simps, simp add: Let_def)+
    have "?e \<le> min (s0 + mx) sz" using g "1.prems" by (intro get_rb_end_le) auto
    moreover have "run free s0 (?e - s0)"
      by (rule get_rb_end_run) (use hit in \<open>auto simp: run_def\<close>)
    ultimately show ?thesis using hit eq by auto
  next
    case miss
    with "1.prems"(1) g have "get_rb_alloc_loop free mn mx sz (?e + 1) = Some (s, l)"
      by (subst (asm) get_rb_alloc_loop.simps) (simp add: Let_def)
    with "1.IH"(2) miss g "1.prems" have "?e + 1 \<le> s \<and> mn \<le> l \<and> l \<le> mx \<and> s + l \<le> sz \<and> run free s l"
      by (simp add: Let_def)
    with ge show ?thesis by simp
  qed
qed

text \<open>Completeness: no answer means that no free block of the minimum size exists.\<close>

lemma get_rb_alloc_loop_complete:
  assumes "get_rb_alloc_loop free mn mx sz s0 = None" and "1 \<le> mn" and "mn \<le> mx"
    and "s0 \<le> s" and "s + mn \<le> sz"
  shows "\<not> run free s mn"
  using assms
proof (induction free mn mx sz s0 rule: get_rb_alloc_loop.induct)
  case (1 free mn mx sz s0)
  let ?l = "min (s0 + mx) sz"
  let ?e = "get_rb_end free ?l (s0 + 1)"
  from 1 have g: "s0 + mn \<le> sz" by simp
  have "get_rb_alloc_loop free mn mx sz s0 \<noteq> Some (s0, ?e - s0)" using "1.prems"(1) by simp
  then have c: "\<not> free s0 \<or> ?e - s0 < mn"
    using g by (subst (asm) get_rb_alloc_loop.simps) (auto simp: Let_def split: if_splits)
  show ?case
  proof (cases "free s0")
    case False
    with "1.prems"(1) g have n: "get_rb_alloc_loop free mn mx sz (s0 + 1) = None"
      by (subst (asm) get_rb_alloc_loop.simps) simp
    show ?thesis
    proof (cases "s = s0")
      case True
      with False "1.prems" show ?thesis by (auto simp: run_def)
    next
      case False
      with "1.IH"(1) n g "1.prems" \<open>\<not> free s0\<close> show ?thesis by simp
    qed
  next
    case True
    with c have short: "?e - s0 < mn" by simp
    with "1.prems"(1) True g have n: "get_rb_alloc_loop free mn mx sz (?e + 1) = None"
      by (subst (asm) get_rb_alloc_loop.simps) (simp add: Let_def)
    show ?thesis
    proof (cases "s \<le> ?e")
      case True
      have "?e < ?l" using short "1.prems" g by auto
      then have "\<not> free ?e" by (rule get_rb_end_stop)
      moreover have "?e < s + mn" using short "1.prems" by simp
      ultimately show ?thesis using True by (auto simp: run_def)
    next
      case False
      with "1.IH"(2) n short True g "1.prems" show ?thesis by (simp add: Let_def)
    qed
  qed
qed

section \<open>PDCCH resources\<close>

record NR_sched_pdcch =
  pdcch_BWPStart :: int
  StartSymbolIndex :: nat
  RegBundleSize :: int
  InterleaverSize :: int
  ShiftIndex :: int
  DurationSymbols :: int
  n_rb :: int

definition cce_to_reg_interleaving :: "int \<Rightarrow> int \<Rightarrow> int \<Rightarrow> int \<Rightarrow> int \<Rightarrow> int \<Rightarrow> int" where
  "cce_to_reg_interleaving R k n_shift C L N_regs =
     (if R = 0 then k
      else let c = c_div k R; r = c_mod k R in c_mod (r * C + c + n_shift) (c_div N_regs L))"

text \<open>The resource blocks one REG bundle covers, in the order of the innermost loop.\<close>

definition pdcch_bundle_rbs :: "NR_sched_pdcch \<Rightarrow> int \<Rightarrow> int list" where
  "pdcch_bundle_rbs pdcch k =
     (let L = RegBundleSize pdcch; R = InterleaverSize pdcch;
          N_regs = n_rb pdcch * DurationSymbols pdcch;
          B_rb = c_div L (DurationSymbols pdcch);
          C = (if R > 0 then c_div N_regs (L * R) else 0);
          f = cce_to_reg_interleaving R k (ShiftIndex pdcch) C L N_regs
      in map (\<lambda>rb. pdcch_BWPStart pdcch + f * B_rb + rb) [0..B_rb - 1])"

definition pdcch_rbs :: "NR_sched_pdcch \<Rightarrow> int \<Rightarrow> int \<Rightarrow> int list" where
  "pdcch_rbs pdcch first_cce aggregation =
     concat (map (\<lambda>j. let L = RegBundleSize pdcch in
                       concat (map (pdcch_bundle_rbs pdcch) [c_div (6 * j) L..c_div (6 * j) L + c_div 6 L - 1]))
       [first_cce..first_cce + aggregation - 1])"

definition fill_pdcch_vrb_map :: "NR_sched_pdcch \<Rightarrow> int \<Rightarrow> int \<Rightarrow> vrb_map_t \<Rightarrow> vrb_map_t" where
  "fill_pdcch_vrb_map pdcch first_cce aggregation vrb_map =
     foldl (\<lambda>m i. m(i := m i OR SL_to_bitmap (StartSymbolIndex pdcch) (nat (DurationSymbols pdcch))))
       vrb_map (pdcch_rbs pdcch first_cce aggregation)"

section \<open>MCS adaptation\<close>

definition nr_adapt_mcs_from_bler :: "int \<Rightarrow> int \<Rightarrow> int \<Rightarrow> rat \<Rightarrow> rat \<Rightarrow> rat \<Rightarrow> int \<Rightarrow> int" where
  "nr_adapt_mcs_from_bler current_mcs min_mcs max_mcs bler bler_lower bler_upper num_sched =
     (let mcs = (if bler < bler_lower \<and> current_mcs < max_mcs \<and> num_sched > 3 then current_mcs + 1
                 else if bler > bler_upper \<or> num_sched \<le> 3 then current_mcs - 1
                 else current_mcs)
      in max min_mcs (min mcs max_mcs))"

section \<open>Analog beams\<close>

datatype nr_beam_mode_t = NO_BEAM_MODE | PRECONFIGURED_BEAM_IDX | LOPHY_BEAM_IDX

record NR_beam_info =
  beam_allocation :: "int carray carray"
  beam_duration :: int
  beams_per_period :: int
  beam_allocation_size :: int
  beam_mode :: nr_beam_mode_t

record NR_beam_alloc =
  new_beam :: bool
  idx :: int

definition get_beam_index :: "NR_beam_info \<Rightarrow> int \<Rightarrow> int \<Rightarrow> int \<Rightarrow> int" where
  "get_beam_index bi frame slot slots_per_frame =
     c_mod (c_div (frame * slots_per_frame + slot) (beam_duration bi)) (beam_allocation_size bi)"

fun beam_scan :: "int carray carray \<Rightarrow> int \<Rightarrow> int \<Rightarrow> int list \<Rightarrow> int carray carray \<times> NR_beam_alloc" where
  "beam_scan al index b [] = (al, \<lparr>new_beam = False, idx = -1\<rparr>)"
| "beam_scan al index b (i # is) =
     (if al i index = -1 then (al(i := (al i)(index := b)), \<lparr>new_beam = True, idx = i\<rparr>)
      else if al i index = b then (al, \<lparr>new_beam = False, idx = i\<rparr>)
      else beam_scan al index b is)"

definition beam_allocation_procedure ::
    "NR_beam_info \<Rightarrow> int \<Rightarrow> int \<Rightarrow> int \<Rightarrow> int \<Rightarrow> NR_beam_info \<times> NR_beam_alloc" where
  "beam_allocation_procedure bi frame slot beam_index slots_per_frame =
     (if beam_mode bi = NO_BEAM_MODE then (bi, \<lparr>new_beam = False, idx = 0\<rparr>)
      else let (al, r) = beam_scan (beam_allocation bi) (get_beam_index bi frame slot slots_per_frame)
                           beam_index [0..beams_per_period bi - 1]
           in (bi\<lparr>beam_allocation := al\<rparr>, r))"

definition get_allocated_beam :: "NR_beam_info \<Rightarrow> int \<Rightarrow> int \<Rightarrow> int \<Rightarrow> int \<Rightarrow> int" where
  "get_allocated_beam bi frame slot slots_per_frame beam_number_in_period =
     (if beam_mode bi \<noteq> NO_BEAM_MODE
      then beam_allocation bi beam_number_in_period (get_beam_index bi frame slot slots_per_frame)
      else 0)"

definition reset_beam_status ::
    "NR_beam_info \<Rightarrow> int \<Rightarrow> int \<Rightarrow> int \<Rightarrow> int \<Rightarrow> bool \<Rightarrow> NR_beam_info" where
  "reset_beam_status bi frame slot beam_index slots_per_frame nb =
     (if \<not> nb then bi
      else let index = get_beam_index bi frame slot slots_per_frame
           in bi\<lparr>beam_allocation :=
                foldl (\<lambda>al i. if al i index = beam_index then al(i := (al i)(index := -1)) else al)
                  (beam_allocation bi) [0..beams_per_period bi - 1]\<rparr>)"

subsection \<open>Properties\<close>

text \<open>Marking PDCCH resources only adds occupied symbols.\<close>

lemma word_and_or_zeroD: "(a OR b) AND c = 0 \<Longrightarrow> a AND c = (0 :: 'a::len word)"
  by (metis or.left_neutral or_eq_0_iff word_ao_dist)

lemma fill_foldl_mono:
  "rb_free (foldl (\<lambda>m i. m(i := m i OR v)) m is) msk i \<Longrightarrow> rb_free m msk i"
proof (induction "is" arbitrary: m)
  case (Cons a "is")
  then have "rb_free (m(a := m a OR v)) msk i" by simp
  then show ?case by (auto simp: rb_free_def dest: word_and_or_zeroD split: if_splits)
qed simp

lemma fill_pdcch_mono: "rb_free (fill_pdcch_vrb_map pd c a m) msk i \<Longrightarrow> rb_free m msk i"
  unfolding fill_pdcch_vrb_map_def by (rule fill_foldl_mono)

text \<open>A scan answers with an index of the list whose entry is then the beam.\<close>

lemma beam_scan_hit:
  assumes "beam_scan al index b is = (al', r)" and "idx r \<noteq> -1"
  shows "idx r \<in> set is" and "al' (idx r) index = b"
    and "\<And>i j. (i, j) \<noteq> (idx r, index) \<Longrightarrow> al' i j = al i j"
    and "new_beam r \<longleftrightarrow> al (idx r) index = -1"
    and "\<not> new_beam r \<Longrightarrow> al' = al"
  using assms by (induction al index b "is" rule: beam_scan.induct) (auto split: if_splits)

lemma beam_scan_again:
  assumes "beam_scan al index b is = (al', r)" and "idx r \<noteq> -1" and "b \<noteq> -1"
  shows "beam_scan al' index b is = (al', \<lparr>new_beam = False, idx = idx r\<rparr>)"
  using assms
proof (induction al index b "is" rule: beam_scan.induct)
  case (2 al index b i "is")
  show ?case
  proof (cases "al i index = -1 \<or> al i index = b")
    case False
    with 2 have r: "beam_scan al index b is = (al', r)" by simp
    with 2 False have "beam_scan al' index b is = (al', \<lparr>new_beam = False, idx = idx r\<rparr>)" by simp
    then show ?thesis
      using beam_scan_hit(2,3) [OF r "2.prems"(2)] False "2.prems"(3) by (cases "i = idx r") auto
  next
    case True
    with "2.prems" show ?thesis by (auto split: if_splits)
  qed
qed auto

lemma beam_scan_miss:
  assumes "beam_scan al index b is = (al', r)" and "idx r = -1" and "-1 \<notin> set is"
  shows "al' = al \<and> (\<forall>i \<in> set is. al i index \<noteq> -1 \<and> al i index \<noteq> b)"
  using assms by (induction al index b "is" rule: beam_scan.induct) (auto split: if_splits)

end
