(* ===== verification/Transport_Block.thy ===== *)
theory Transport_Block
  imports Prelude
begin

text \<open>
  Transport block sizes: the MCS tables (\<^verbatim>\<open>nr_mac_common.c\<close>), the TBS determination of
  TS 38.214 section 5.1.3.2 (\<^verbatim>\<open>nr_compute_tbs_common.c\<close>) in 32 bit unsigned arithmetic, and
  the binary search for a number of resource blocks (\<^verbatim>\<open>nr_find_nb_rb\<close> of
  \<^verbatim>\<open>gNB_scheduler_primitives.c\<close>), whose loops for transform precoding are
  \<^theory_text>\<open>partial_function\<close>s because they do not end on the argument 0.
\<close>

section \<open>MCS tables\<close>

definition Table_51311 :: "(u16 \<times> u16) list" where
  "Table_51311 = [(2, 1200), (2, 1570), (2, 1930), (2, 2510), (2, 3080), (2, 3790), (2, 4490), (2, 5260),
                  (2, 6020), (2, 6790), (4, 3400), (4, 3780), (4, 4340), (4, 4900), (4, 5530), (4, 6160),
                  (4, 6580), (6, 4380), (6, 4660), (6, 5170), (6, 5670), (6, 6160), (6, 6660), (6, 7190),
                  (6, 7720), (6, 8220), (6, 8730), (6, 9100), (6, 9480), (2, 0), (4, 0), (6, 0)]"

definition Table_51312 :: "(u16 \<times> u16) list" where
  "Table_51312 = [(2, 1200), (2, 1930), (2, 3080), (2, 4490), (2, 6020), (4, 3780), (4, 4340),
                  (4, 4900), (4, 5530), (4, 6160), (4, 6580), (6, 4660), (6, 5170), (6, 5670),
                  (6, 6160), (6, 6660), (6, 7190), (6, 7720), (6, 8220), (6, 8730), (8, 6825),
                  (8, 7110), (8, 7540), (8, 7970), (8, 8410), (8, 8850), (8, 9165), (8, 9480),
                  (2, 0), (4, 0), (6, 0), (8, 0)]"

definition Table_51313 :: "(u16 \<times> u16) list" where
  "Table_51313 = [(2, 300), (2, 400), (2, 500), (2, 640), (2, 780), (2, 990), (2, 1200), (2, 1570),
                  (2, 1930), (2, 2510), (2, 3080), (2, 3790), (2, 4490), (2, 5260), (2, 6020), (4, 3400),
                  (4, 3780), (4, 4340), (4, 4900), (4, 5530), (4, 6160), (6, 4380), (6, 4660), (6, 5170),
                  (6, 5670), (6, 6160), (6, 6660), (6, 7190), (6, 7720), (2, 0), (4, 0), (6, 0)]"

definition nr_get_Qm_dl :: "u8 \<Rightarrow> u8 \<Rightarrow> u8" where
  "nr_get_Qm_dl Imcs table_idx =
     (if table_idx = 0 then if Imcs > 31 then 0 else ucast (fst (Table_51311 ! unat Imcs))
      else if table_idx = 1 then if Imcs > 31 then 0 else ucast (fst (Table_51312 ! unat Imcs))
      else if table_idx = 2 then if Imcs > 31 then 0 else ucast (fst (Table_51313 ! unat Imcs))
      else 0)"

definition nr_get_code_rate_dl :: "u8 \<Rightarrow> u8 \<Rightarrow> u32" where
  "nr_get_code_rate_dl Imcs table_idx =
     (if table_idx = 0 then if Imcs > 31 then 0 else ucast (snd (Table_51311 ! unat Imcs))
      else if table_idx = 1 then if Imcs > 31 then 0 else ucast (snd (Table_51312 ! unat Imcs))
      else if table_idx = 2 then if Imcs > 31 then 0 else ucast (snd (Table_51313 ! unat Imcs))
      else 0)"

section \<open>Transport block size\<close>

definition Tbstable_nr :: "u32 list" where
  "Tbstable_nr =
    [24,   32,   40,   48,   56,   64,   72,   80,   88,   96,   104,  112,  120,  128,  136,  144,  152,  160,  168,
     176,  184,  192,  208,  224,  240,  256,  272,  288,  304,  320,  336,  352,  368,  384,  408,  432,  456,  480,
     504,  528,  552,  576,  608,  640,  672,  704,  736,  768,  808,  848,  888,  928,  984,  1032, 1064, 1128, 1160,
     1192, 1224, 1256, 1288, 1320, 1352, 1416, 1480, 1544, 1608, 1672, 1736, 1800, 1864, 1928, 2024, 2088, 2152, 2216,
     2280, 2408, 2472, 2536, 2600, 2664, 2728, 2792, 2856, 2976, 3104, 3240, 3368, 3496, 3624, 3752, 3824]"

definition NR_MAX_PDSCH_TBS :: u32 where
  "NR_MAX_PDSCH_TBS = 3824"

text \<open>The two branches of the computation after \<^verbatim>\<open>Ninfo\<close>, shared by the two functions below.\<close>

definition tbs_small :: "u32 \<Rightarrow> u32" where
  "tbs_small Ninfo =
     (let n = max 3 (floor_log2 Ninfo - 6);
          Np_info = max 24 (push_bit n (drop_bit n Ninfo))
      in case find (\<lambda>t. Np_info \<le> t) Tbstable_nr of None \<Rightarrow> 0 | Some t \<Rightarrow> t)"

definition tbs_segments :: "u32 \<Rightarrow> u32 \<Rightarrow> u32" where
  "tbs_segments Np_info cb =
     (let C = CEILIDIV (Np_info + 24) cb
      in push_bit 3 C * CEILIDIV (Np_info + 24) (push_bit 3 C) - 24)"

definition tbs_large :: "bool \<Rightarrow> u32 \<Rightarrow> u32" where
  "tbs_large low_rate Ninfo =
     (let n = floor_log2 (Ninfo - 24) - 5;
          Np_info = max 3840 (push_bit n (ROUNDIDIV (Ninfo - 24) (push_bit n 1)))
      in if low_rate then tbs_segments Np_info 3816
         else if Np_info > 8424 then tbs_segments Np_info 8424
         else push_bit 3 (CEILIDIV (Np_info + 24) 8) - 24)"

definition nr_compute_tbs :: "u16 \<Rightarrow> u16 \<Rightarrow> u16 \<Rightarrow> u16 \<Rightarrow> u16 \<Rightarrow> u16 \<Rightarrow> u8 \<Rightarrow> u8 \<Rightarrow> u32" where
  "nr_compute_tbs Qm R nb_rb nb_symb_sch nb_dmrs_prb nb_rb_oh tb_scaling Nl =
     (if Qm = 0 \<or> R = 0 \<or> nb_rb = 0 \<or> Nl = 0 then 0
      else let nbp_re = 12 * ucast nb_symb_sch - ucast nb_dmrs_prb - ucast nb_rb_oh :: u32;
               nb_re = min 156 nbp_re * ucast nb_rb;
               R_5 = ucast (R div 5) :: u32;
               Ninfo = drop_bit (unat tb_scaling) (drop_bit 11 (nb_re * R_5 * ucast Qm * ucast Nl))
           in if Ninfo \<le> NR_MAX_PDSCH_TBS then tbs_small Ninfo else tbs_large (R \<le> 2560) Ninfo)"

definition NPRB_LBRM :: "u16 list" where
  "NPRB_LBRM = [32, 66, 107, 135, 162, 217, 273]"

definition nr_compute_tbslbrm :: "u16 \<Rightarrow> u16 \<Rightarrow> u8 \<Rightarrow> u32" where
  "nr_compute_tbslbrm table nb_rb Nl =
     (let nb_rb_lbrm = (case find (\<lambda>x. nb_rb \<le> x) NPRB_LBRM of None \<Rightarrow> 0 | Some x \<Rightarrow> x);
          Qm = (if table = 1 then 8 else 6) :: u32;
          nb_re = 156 * ucast nb_rb_lbrm :: u32;
          Ninfo = drop_bit 10 (nb_re * 948 * Qm * ucast Nl)
      in if Ninfo \<le> NR_MAX_PDSCH_TBS then tbs_small Ninfo else tbs_large False Ninfo)"

section \<open>Number of resource blocks\<close>

partial_function (option) divide_out :: "nat \<Rightarrow> nat \<Rightarrow> nat option" where
  "divide_out k rb = (if rb mod k = 0 then divide_out k (rb div k) else Some rb)"

definition multiple_2_3_5 :: "nat \<Rightarrow> bool option" where
  "multiple_2_3_5 rb =
     Option.bind (divide_out 2 rb) (\<lambda>a. Option.bind (divide_out 3 a) (\<lambda>b.
       Option.bind (divide_out 5 b) (\<lambda>c. Some (c = 1))))"

partial_function (option) dec_to_2_3_5 :: "nat \<Rightarrow> nat option" where
  "dec_to_2_3_5 nb_rb_max =
     Option.bind (multiple_2_3_5 nb_rb_max) (\<lambda>b. if b then Some nb_rb_max else dec_to_2_3_5 (nb_rb_max - 1))"

partial_function (option) inc_to_2_3_5 :: "nat \<Rightarrow> nat option" where
  "inc_to_2_3_5 p =
     Option.bind (multiple_2_3_5 p) (\<lambda>b. if b then Some p else inc_to_2_3_5 (p + 1))"

partial_function (option) find_nb_rb_search :: "(nat \<Rightarrow> u32) \<Rightarrow> bool \<Rightarrow> u32 \<Rightarrow> nat \<Rightarrow> nat \<Rightarrow> nat option" where
  "find_nb_rb_search tbs_at tp_enabled bytes hi lo =
     (if lo + 1 < hi
      then Option.bind (if tp_enabled then inc_to_2_3_5 ((hi + lo) div 2) else Some ((hi + lo) div 2)) (\<lambda>p.
             if p = hi then Some hi
             else if bytes = tbs_at p then Some p
             else if bytes < tbs_at p then find_nb_rb_search tbs_at tp_enabled bytes p lo
             else find_nb_rb_search tbs_at tp_enabled bytes hi p)
      else Some hi)"

text \<open>
  \<^verbatim>\<open>nr_find_nb_rb\<close> over the TBS function in bytes. The result holds the return value and the
  output parameters \<^verbatim>\<open>tbs\<close> and \<^verbatim>\<open>nb_rb\<close>; \<open>None\<close> is a call that does not return.
\<close>

definition find_nb_rb :: "(nat \<Rightarrow> u32) \<Rightarrow> bool \<Rightarrow> u32 \<Rightarrow> nat \<Rightarrow> nat \<Rightarrow> (bool \<times> u32 \<times> nat) option" where
  "find_nb_rb tbs_at tp_enabled bytes nb_rb_min nb_rb_max0 =
     Option.bind (if tp_enabled then dec_to_2_3_5 nb_rb_max0 else Some nb_rb_max0) (\<lambda>nb_rb_max.
       if bytes > tbs_at nb_rb_max then Some (False, tbs_at nb_rb_max, nb_rb_max)
       else if bytes = tbs_at nb_rb_max then Some (True, tbs_at nb_rb_max, nb_rb_max)
       else if bytes \<le> tbs_at nb_rb_min then Some (True, tbs_at nb_rb_min, nb_rb_min)
       else Option.bind (find_nb_rb_search tbs_at tp_enabled bytes nb_rb_max nb_rb_min) (\<lambda>hi.
              Some (tbs_at hi \<ge> bytes \<and> hi \<le> nb_rb_max, tbs_at hi, hi)))"

text \<open>\<^verbatim>\<open>NR_PUSCH_Config__transformPrecoder_enabled\<close> is 0 and the downlink passes 1.\<close>

definition nr_find_nb_rb ::
    "u16 \<Rightarrow> u16 \<Rightarrow> int \<Rightarrow> u8 \<Rightarrow> u16 \<Rightarrow> u16 \<Rightarrow> u32 \<Rightarrow> u16 \<Rightarrow> u16 \<Rightarrow> (bool \<times> u32 \<times> nat) option" where
  "nr_find_nb_rb Qm R transform_precoding nrOfLayers nb_symb_sch nb_dmrs_prb bytes nb_rb_min nb_rb_max =
     find_nb_rb
       (\<lambda>nb_rb. drop_bit 3 (nr_compute_tbs Qm R (of_nat nb_rb) nb_symb_sch nb_dmrs_prb 0 0 nrOfLayers))
       (transform_precoding = 0) bytes (unat nb_rb_min) (unat nb_rb_max)"

section \<open>Properties\<close>

subsection \<open>A transport block is a whole number of bytes\<close>

lemma dvd8_mult: "8 dvd unat (8 * (x :: u32))"
proof -
  have "unat (8 * x) = 8 * unat x mod 2 ^ 32" by (simp add: unat_mult_lem unat_word_ariths)
  then show ?thesis by (simp add: dvd_mod)
qed

lemma dvd8_shift_minus: "8 dvd unat (push_bit 3 (x :: u32) * y - 24)"
proof -
  have "push_bit 3 x * y - 24 = 8 * (x * y - 3)" by (simp add: push_bit_eq_mult algebra_simps)
  then show ?thesis by (simp only: dvd8_mult)
qed

lemma tbs_table_dvd8: "t \<in> set Tbstable_nr \<Longrightarrow> 8 dvd unat t"
  by (auto simp: Tbstable_nr_def)

lemma tbs_small_dvd8: "8 dvd unat (tbs_small Ninfo)"
proof -
  have "find P xs = Some t \<Longrightarrow> t \<in> set xs" for P and xs :: "u32 list" and t
    by (auto simp: find_Some_iff)
  then show ?thesis
    by (auto simp: tbs_small_def Let_def tbs_table_dvd8 split: option.splits)
qed

lemma dvd8_shift: "8 dvd unat (push_bit 3 (x :: u32) - 24)"
  using dvd8_shift_minus [of x 1] by (simp only: mult_1_right)

lemma tbs_segments_dvd8: "8 dvd unat (tbs_segments Np_info cb)"
  by (simp only: tbs_segments_def Let_def dvd8_shift_minus)

lemma tbs_large_dvd8: "8 dvd unat (tbs_large b Ninfo)"
  unfolding tbs_large_def Let_def by (auto simp only: tbs_segments_dvd8 dvd8_shift split: if_split)

subsection \<open>The search for a number of resource blocks\<close>

lemma find_nb_rb_search_dl:
  assumes "lo < hi" and "tbs lo < bytes" and "bytes \<le> tbs hi"
  shows "\<exists>h. find_nb_rb_search tbs False bytes hi lo = Some h \<and> lo < h \<and> h \<le> hi \<and>
             bytes \<le> tbs h \<and> (tbs h = bytes \<or> tbs (h - 1) < bytes)"
  using assms
proof (induction "hi - lo" arbitrary: hi lo rule: less_induct)
  case less
  show ?case
  proof (cases "lo + 1 < hi")
    case False
    then have "hi - 1 = lo" using less.prems by linarith
    with False less.prems show ?thesis by (subst find_nb_rb_search.simps) auto
  next
    case True
    define p where "p = (hi + lo) div 2"
    have p: "lo < p" "p < hi" using True by (auto simp: p_def)
    have unf: "find_nb_rb_search tbs False bytes hi lo =
        (if bytes = tbs p then Some p
         else if bytes < tbs p then find_nb_rb_search tbs False bytes p lo
         else find_nb_rb_search tbs False bytes hi p)"
      using True p by (subst find_nb_rb_search.simps) (simp add: p_def)
    consider "bytes = tbs p" | "bytes < tbs p" | "tbs p < bytes" by fastforce
    then show ?thesis
    proof cases
      case 1
      with p unf show ?thesis by auto
    next
      case 2
      with less.hyps [of p lo] less.prems p unf show ?thesis by fastforce
    next
      case 3
      with less.hyps [of hi p] less.prems p unf show ?thesis by fastforce
    qed
  qed
qed

lemma find_nb_rb_dl:
  assumes "mn \<le> mx"
  shows "\<exists>ok tbs nb. find_nb_rb tbs_at False bytes mn mx = Some (ok, tbs, nb) \<and>
           mn \<le> nb \<and> nb \<le> mx \<and> tbs = tbs_at nb \<and> (ok \<longleftrightarrow> bytes \<le> tbs_at mx) \<and>
           (ok \<longrightarrow> bytes \<le> tbs) \<and> (\<not> ok \<longrightarrow> nb = mx) \<and>
           (ok \<longrightarrow> nb = mn \<or> tbs = bytes \<or> tbs_at (nb - 1) < bytes)"
proof -
  consider "tbs_at mx < bytes" | "bytes = tbs_at mx" | "bytes < tbs_at mx" "bytes \<le> tbs_at mn"
    | "bytes < tbs_at mx" "tbs_at mn < bytes" by fastforce
  then show ?thesis
  proof cases
    case 4
    then have "mn < mx" using assms by (cases "mn = mx") auto
    with 4 find_nb_rb_search_dl [of mn mx tbs_at bytes, OF _ _ less_imp_le] obtain h
      where h: "find_nb_rb_search tbs_at False bytes mx mn = Some h" "mn < h" "h \<le> mx"
        "bytes \<le> tbs_at h" "tbs_at h = bytes \<or> tbs_at (h - 1) < bytes" by auto
    with 4 show ?thesis by (auto simp: find_nb_rb_def)
  qed (use assms in \<open>auto simp: find_nb_rb_def\<close>)
qed

lemma nr_find_nb_rb_dl_range:
  assumes "unat mn \<le> unat mx"
  obtains ok t n where "nr_find_nb_rb Qm R 1 nl sy dm bytes mn mx = Some (ok, t, n)"
    and "unat mn \<le> n" and "n \<le> unat mx"
proof -
  have "nr_find_nb_rb Qm R 1 nl sy dm bytes mn mx =
      find_nb_rb (\<lambda>n. drop_bit 3 (nr_compute_tbs Qm R (of_nat n) sy dm 0 0 nl)) False bytes (unat mn) (unat mx)"
    by (simp add: nr_find_nb_rb_def)
  with find_nb_rb_dl [OF assms, of "\<lambda>n. drop_bit 3 (nr_compute_tbs Qm R (of_nat n) sy dm 0 0 nl)" bytes] that
  show thesis by metis
qed

subsection \<open>Transform precoding: the loops end\<close>

lemma divide_out_returns:
  assumes "2 \<le> k" and "1 \<le> rb"
  shows "\<exists>r. divide_out k rb = Some r \<and> 1 \<le> r \<and> r \<le> rb"
  using assms(2)
proof (induction rb rule: less_induct)
  case (less rb)
  show ?case
  proof (cases "rb mod k = 0")
    case True
    then have "1 \<le> rb div k" "rb div k < rb"
      using less.prems assms(1) by (auto simp: Suc_le_eq div_greater_zero_iff dvd_imp_le mod_eq_0_iff_dvd)
    then obtain r where "divide_out k (rb div k) = Some r" "1 \<le> r" "r \<le> rb div k"
      using less.IH by blast
    with True \<open>rb div k < rb\<close> show ?thesis by (subst divide_out.simps) auto
  next
    case False
    with less.prems show ?thesis by (subst divide_out.simps) auto
  qed
qed

lemma multiple_2_3_5_returns: "1 \<le> rb \<Longrightarrow> \<exists>b. multiple_2_3_5 rb = Some b"
  using divide_out_returns [of 2 rb] divide_out_returns [of 3] divide_out_returns [of 5]
  unfolding multiple_2_3_5_def by fastforce

lemma multiple_2_3_5_1: "multiple_2_3_5 1 = Some True"
  by (simp add: multiple_2_3_5_def divide_out.simps)

lemma dec_to_2_3_5_returns:
  "1 \<le> n \<Longrightarrow> \<exists>m. dec_to_2_3_5 n = Some m \<and> 1 \<le> m \<and> m \<le> n \<and> multiple_2_3_5 m = Some True"
proof (induction n rule: less_induct)
  case (less n)
  obtain b where b: "multiple_2_3_5 n = Some b" using multiple_2_3_5_returns less.prems by blast
  show ?case
  proof (cases b)
    case True
    with b less.prems show ?thesis by (subst dec_to_2_3_5.simps) auto
  next
    case False
    with b multiple_2_3_5_1 less.prems have "n \<noteq> 1" by auto
    then have "n - 1 < n" "1 \<le> n - 1" using less.prems by auto
    from less.IH [OF this] obtain m
      where "dec_to_2_3_5 (n - 1) = Some m" "1 \<le> m" "m \<le> n - 1" "multiple_2_3_5 m = Some True" by blast
    with False b show ?thesis by (subst dec_to_2_3_5.simps) auto
  qed
qed

lemma inc_to_2_3_5_returns:
  assumes "1 \<le> p" and "p \<le> hi" and "multiple_2_3_5 hi = Some True"
  shows "\<exists>q. inc_to_2_3_5 p = Some q \<and> p \<le> q \<and> q \<le> hi \<and> multiple_2_3_5 q = Some True"
  using assms
proof (induction "hi - p" arbitrary: p rule: less_induct)
  case less
  obtain b where b: "multiple_2_3_5 p = Some b" using multiple_2_3_5_returns less.prems by blast
  show ?case
  proof (cases b)
    case True
    with b less.prems show ?thesis by (subst inc_to_2_3_5.simps) auto
  next
    case False
    with b less.prems have "p \<noteq> hi" by auto
    with less.hyps [of "p + 1"] less.prems False b show ?thesis
      by (subst inc_to_2_3_5.simps) fastforce
  qed
qed

lemma find_nb_rb_search_returns:
  assumes "1 \<le> lo" and "lo < hi" and "multiple_2_3_5 hi = Some True"
  shows "\<exists>h. find_nb_rb_search tbs True bytes hi lo = Some h \<and> h \<le> hi"
  using assms
proof (induction "hi - lo" arbitrary: hi lo rule: less_induct)
  case less
  show ?case
  proof (cases "lo + 1 < hi")
    case False
    then show ?thesis by (subst find_nb_rb_search.simps) auto
  next
    case True
    have m: "1 \<le> (hi + lo) div 2" "(hi + lo) div 2 \<le> hi" "lo < (hi + lo) div 2"
      using True less.prems by auto
    then obtain p where p: "inc_to_2_3_5 ((hi + lo) div 2) = Some p" "lo < p" "p \<le> hi"
        "multiple_2_3_5 p = Some True"
      using inc_to_2_3_5_returns [OF m(1,2) less.prems(3)] by auto
    have unf: "find_nb_rb_search tbs True bytes hi lo =
        (if p = hi then Some hi else if bytes = tbs p then Some p
         else if bytes < tbs p then find_nb_rb_search tbs True bytes p lo
         else find_nb_rb_search tbs True bytes hi p)"
      using True p by (subst find_nb_rb_search.simps) simp
    show ?thesis
    proof (cases "p = hi")
      case True
      then show ?thesis using unf by simp
    next
      case False
      with p have "p < hi" by simp
      with less.hyps [of p lo] less.hyps [of hi p] less.prems p unf show ?thesis
        by (cases "bytes = tbs p"; cases "bytes < tbs p") fastforce+
    qed
  qed
qed

end
