(* ===== verification/Dl_Candidate.thy ===== *)
theory Dl_Candidate
  imports Mac_Primitives Transport_Block
begin

text \<open>
  The data of the downlink scheduler
  (\<^verbatim>\<open>openair2/LAYER2/NR_MAC_gNB/nr_mac_gNB.h\<close>): slice policies, the MAC instance as far as
  the downlink policies read or write it, the per UE scheduling candidates and the scheduling
  parameters; and the commit of an allocation
  (\<^verbatim>\<open>commit_alloc\<close>, \<^verbatim>\<open>nr_dl_validate_cce_pucch\<close> of \<^verbatim>\<open>gNB_scheduler_dlsch.c\<close> and the
  macro \<^verbatim>\<open>COMMIT_ALLOC\<close> of \<^verbatim>\<open>mac_proto.h\<close>).

  Functions of the MAC of this repository that the policies call and that this development does not model
  (CCE search, PUCCH scheduling, DMRS parameters, time domain tables, precoding) are the
  fields of a record \<open>mac_env\<close>, an argument of every definition that calls them. The
  uplink side of the MAC instance, which PUCCH scheduling updates, is the field \<open>mac_rest\<close>
  of an unspecified type.
\<close>

section \<open>Slices\<close>

record nssai_t =
  sst :: u8
  sd :: u32

record nr_dl_slice_policy_t =
  active :: bool
  pol_nssai :: nssai_t
  min_prb_ratio :: u8
  max_prb_ratio :: u8
  dedicated_prb_ratio :: u8

definition zero_slice_policy :: nr_dl_slice_policy_t where
  "zero_slice_policy = \<lparr>active = False, pol_nssai = \<lparr>sst = 0, sd = 0\<rparr>, min_prb_ratio = 0,
                        max_prb_ratio = 0, dedicated_prb_ratio = 0\<rparr>"

definition MAX_NUM_SLICES :: int where
  "MAX_NUM_SLICES = 1024"

section \<open>The MAC instance\<close>

record NR_bler_options =
  opt_lower :: rat
  opt_upper :: rat
  opt_min_mcs :: int
  opt_max_mcs :: int
  harq_round_max :: int

text \<open>\<open>vrb_maps b\<close> is \<^verbatim>\<open>common_channels[0].vrb_map[b]\<close>, which \<^verbatim>\<open>params.vrb_map[b]\<close> points to.\<close>

record 'm gNB_MAC_INST =
  dl_slice_policy :: "nat \<Rightarrow> nr_dl_slice_policy_t"
  dl_slice_policy_count :: int
  dl_slice_policy_enabled :: bool
  dl_slice_policy_prb_used :: "nat \<Rightarrow> u64"
  dl_slice_policy_last_log_frame :: int
  dl_bler :: NR_bler_options
  vrb_maps :: "vrb_map_t carray"
  mac_rest :: 'm

record nr_dl_sched_params =
  frame :: int
  slot :: int
  num_beams :: int
  max_num_ue :: int
  n_rb_avail :: "int carray"

section \<open>Candidates\<close>

record NR_tda_info =
  mapping_type :: int
  startSymbolIndex :: nat
  nrOfSymbols :: nat
  valid_tda :: bool

record NR_sched_pdsch =
  rbSize :: int
  rbStart :: int
  mcs :: int
  pdsch_R :: u16
  pdsch_Qm :: u8
  tb_size :: u32
  pucch_allocation :: int
  pm_index :: int
  nrOfLayers :: int
  time_domain_allocation :: int
  tda_info :: NR_tda_info

record NR_UE_info =
  rnti :: int
  ta_apply :: bool
  aggregation_level :: int
  ue_sched_pdcch :: NR_sched_pdcch
  dl_cce_fail :: u32
  available_dl_harq_head :: int
  harq_sched_pdsch :: "NR_sched_pdsch carray"
  dl_bler_mcs :: int
  UE_beam_index :: int
  BWPSize :: int
  downlinkHARQ_FeedbackDisabled_r17 :: "u8 list option"

record nr_dl_candidate =
  UE :: NR_UE_info
  is_retx :: bool
  retx_harq_pid :: int
  retx_rbSize :: int
  pending_bytes :: u32
  pending_bytes_per_lcid :: "u32 carray"
  avg_throughput :: rat
  bler :: rat
  current_mcs :: int
  max_mcs :: int
  last_num_sched :: int
  bler_updated :: bool
  mcs_table :: u8
  bwp_start :: int
  bwp_size :: int
  nssai :: nssai_t
  skipped :: bool
  scheduled :: bool
  csi_ri :: int
  csi_pm_index :: int
  sched_pdsch :: NR_sched_pdsch
  alloc_slbitmap :: u16
  alloc_beam_dir :: int
  alloc_beam_idx :: int
  alloc_new_beam :: bool
  alloc_cce_index :: int
  alloc_aggregation_level :: int
  alloc_sched_pdcch :: NR_sched_pdcch

text \<open>Stores into the \<^verbatim>\<open>uint16_t\<close> and \<^verbatim>\<open>uint8_t\<close> fields of \<^verbatim>\<open>NR_sched_pdsch_t\<close>.\<close>

definition to_u16 :: "int \<Rightarrow> int" where
  "to_u16 x = x mod 2 ^ 16"

definition to_u8 :: "int \<Rightarrow> int" where
  "to_u8 x = x mod 2 ^ 8"

section \<open>Unmodelled callees\<close>

record 'm mac_env =
  get_cce_index :: "'m gNB_MAC_INST \<Rightarrow> nr_dl_sched_params \<Rightarrow> nr_dl_candidate \<Rightarrow> int \<times> int \<times> NR_sched_pdcch"
  nr_get_pucch_resource :: "nr_dl_candidate \<Rightarrow> int \<Rightarrow> int"
  nr_acknack_scheduling :: "'m gNB_MAC_INST \<Rightarrow> nr_dl_sched_params \<Rightarrow> nr_dl_candidate \<Rightarrow> int \<Rightarrow> 'm \<times> int"
  dl_dmrs_prb :: "nr_dl_candidate \<Rightarrow> NR_tda_info \<Rightarrow> int \<Rightarrow> u16"
  get_pm_index :: "'m gNB_MAC_INST \<Rightarrow> nr_dl_candidate \<Rightarrow> int \<Rightarrow> int"
  get_dl_tda :: "'m gNB_MAC_INST \<Rightarrow> int \<Rightarrow> int"
  get_dl_tda_info :: "'m gNB_MAC_INST \<Rightarrow> nr_dl_candidate \<Rightarrow> int \<Rightarrow> NR_tda_info"

section \<open>Committing an allocation\<close>

definition get_FeedbackDisabled :: "u8 list option \<Rightarrow> int \<Rightarrow> bool" where
  "get_FeedbackDisabled cfg harq_pid =
     (case cfg of None \<Rightarrow> False
      | Some buf \<Rightarrow> bit (buf ! nat (c_div harq_pid 8)) (nat (7 - c_mod harq_pid 8)))"

text \<open>The CCE and PUCCH validation: \<open>(mac', cand', ok)\<close>.\<close>

definition nr_dl_validate_cce_pucch ::
    "'m mac_env \<Rightarrow> nr_dl_sched_params \<Rightarrow> 'm gNB_MAC_INST \<Rightarrow> nr_dl_candidate \<Rightarrow>
     'm gNB_MAC_INST \<times> nr_dl_candidate \<times> bool" where
  "nr_dl_validate_cce_pucch env params mac cand =
     (let (CCEIndex, agg_level, pdcch) = get_cce_index env mac params cand
      in if CCEIndex < 0
         then (mac, cand\<lparr>UE := (UE cand)\<lparr>dl_cce_fail := dl_cce_fail (UE cand) + 1\<rparr>\<rparr>, False)
         else let harq_pid = (if is_retx cand then retx_harq_pid cand else available_dl_harq_head (UE cand));
                  found = (\<lambda>pucch_alloc. cand\<lparr>alloc_cce_index := CCEIndex,
                             alloc_aggregation_level := agg_level,
                             sched_pdsch := (sched_pdsch cand)\<lparr>pucch_allocation := pucch_alloc\<rparr>,
                             alloc_sched_pdcch := pdcch\<rparr>)
              in if \<not> get_FeedbackDisabled (downlinkHARQ_FeedbackDisabled_r17 (UE cand)) harq_pid
                 then let r_pucch = nr_get_pucch_resource env cand CCEIndex;
                          (rest', pucch_alloc) = nr_acknack_scheduling env mac params cand r_pucch;
                          mac' = mac\<lparr>mac_rest := rest'\<rparr>
                      in if pucch_alloc < 0 then (mac', cand, False) else (mac', found pucch_alloc, True)
                 else (mac, found (-1), True))"

definition mark_vrbs :: "vrb_map_t \<Rightarrow> int \<Rightarrow> int \<Rightarrow> u16 \<Rightarrow> vrb_map_t" where
  "mark_vrbs m first n msk = foldl (\<lambda>m rb. m(first + int rb := m (first + int rb) OR msk)) m [0..<nat n]"

definition commit_alloc ::
    "'m mac_env \<Rightarrow> nr_dl_sched_params \<Rightarrow> 'm gNB_MAC_INST \<Rightarrow> nr_dl_candidate \<Rightarrow>
     'm gNB_MAC_INST \<times> nr_dl_candidate \<times> bool" where
  "commit_alloc env params mac cand0 =
     (let (mac, cand, ok) = nr_dl_validate_cce_pucch env params mac cand0
      in if \<not> ok then (mac, cand, False)
         else let beam = alloc_beam_idx cand;
                  m1 = fill_pdcch_vrb_map (alloc_sched_pdcch cand) (alloc_cce_index cand)
                         (alloc_aggregation_level cand) (vrb_maps mac beam);
                  m2 = mark_vrbs m1 (rbStart (sched_pdsch cand) + bwp_start cand)
                         (rbSize (sched_pdsch cand)) (alloc_slbitmap cand)
              in (mac\<lparr>vrb_maps := (vrb_maps mac)(beam := m2)\<rparr>, cand, True))"

text \<open>
  The state of a policy run: the MAC instance, the candidate array and the counter
  \<^verbatim>\<open>n_scheduled\<close>. \<open>commit_step\<close> is the macro \<^verbatim>\<open>COMMIT_ALLOC\<close> up to the test of
  \<^verbatim>\<open>max_num_ue\<close>; its flag is the result of \<^verbatim>\<open>commit_alloc\<close>.
\<close>

record 'm policy_state =
  st_mac :: "'m gNB_MAC_INST"
  cands :: "nr_dl_candidate list"
  n_sched :: int

definition commit_step ::
    "'m mac_env \<Rightarrow> nr_dl_sched_params \<Rightarrow> 'm policy_state \<Rightarrow> nat \<Rightarrow> int \<Rightarrow> int \<Rightarrow> int \<Rightarrow>
     'm policy_state \<times> bool" where
  "commit_step env params st j rb_start rb_size m =
     (let cand = cands st ! j;
          cand = cand\<lparr>sched_pdsch := (sched_pdsch cand)\<lparr>rbStart := to_u16 rb_start,
                       rbSize := to_u16 rb_size, mcs := to_u8 m\<rparr>\<rparr>;
          (mac', cand, ok) = commit_alloc env params (st_mac st) cand
      in if \<not> ok then (st\<lparr>st_mac := mac', cands := (cands st)[j := cand]\<rparr>, False)
         else (st\<lparr>st_mac := mac', cands := (cands st)[j := cand\<lparr>scheduled := True\<rparr>],
                  n_sched := n_sched st + 1\<rparr>, True))"

section \<open>Frame properties\<close>

lemma to_u16_id [simp]: "0 \<le> x \<Longrightarrow> x < 65536 \<Longrightarrow> to_u16 x = x"
  by (simp add: to_u16_def)

text \<open>What a commit never changes of a candidate.\<close>

definition same_static :: "nr_dl_candidate \<Rightarrow> nr_dl_candidate \<Rightarrow> bool" where
  "same_static c c' \<longleftrightarrow>
     is_retx c' = is_retx c \<and> retx_rbSize c' = retx_rbSize c \<and> pending_bytes c' = pending_bytes c \<and>
     bwp_start c' = bwp_start c \<and> bwp_size c' = bwp_size c \<and> nssai c' = nssai c \<and>
     skipped c' = skipped c \<and> alloc_slbitmap c' = alloc_slbitmap c \<and>
     alloc_beam_idx c' = alloc_beam_idx c"

lemma same_static_refl [simp]: "same_static c c"
  by (simp add: same_static_def)

lemma same_static_trans: "same_static a b \<Longrightarrow> same_static b c \<Longrightarrow> same_static a c"
  by (simp add: same_static_def)

text \<open>What a commit never changes of the MAC instance.\<close>

definition same_policies :: "'m gNB_MAC_INST \<Rightarrow> 'm gNB_MAC_INST \<Rightarrow> bool" where
  "same_policies m m' \<longleftrightarrow>
     dl_slice_policy m' = dl_slice_policy m \<and> dl_slice_policy_count m' = dl_slice_policy_count m \<and>
     dl_slice_policy_enabled m' = dl_slice_policy_enabled m"

lemma same_policies_refl [simp]: "same_policies m m"
  by (simp add: same_policies_def)

lemma same_policies_trans: "same_policies a b \<Longrightarrow> same_policies b c \<Longrightarrow> same_policies a c"
  by (simp add: same_policies_def)

lemma validate_frame:
  assumes "nr_dl_validate_cce_pucch env params mac cand = (mac', cand', ok)"
  shows "same_static cand cand'" and "same_policies mac mac'" and "vrb_maps mac' = vrb_maps mac"
    and "scheduled cand' = scheduled cand"
    and "rbStart (sched_pdsch cand') = rbStart (sched_pdsch cand)"
    and "rbSize (sched_pdsch cand') = rbSize (sched_pdsch cand)"
    and "dl_slice_policy_prb_used mac' = dl_slice_policy_prb_used mac"
  using assms
  by (auto simp: nr_dl_validate_cce_pucch_def Let_def same_static_def same_policies_def
      split: prod.splits if_splits)

lemma mark_vrbs_nth:
  "mark_vrbs m first n msk i = (if first \<le> i \<and> i < first + n then m i OR msk else m i)"
proof -
  have "foldl (\<lambda>m rb. m(first + int rb := m (first + int rb) OR msk)) m [0..<k] i =
      (if first \<le> i \<and> i < first + int k then m i OR msk else m i)" for k
    by (induction k) auto
  then show ?thesis by (auto simp: mark_vrbs_def)
qed

lemma mark_vrbs_mono: "rb_free (mark_vrbs m first n s) msk i \<Longrightarrow> rb_free m msk i"
  by (auto simp: rb_free_def mark_vrbs_nth dest: word_and_or_zeroD split: if_splits)

lemma commit_alloc_cases:
  assumes "commit_alloc env params mac cand = (mac', cand', ok)"
  obtains (refuse) "nr_dl_validate_cce_pucch env params mac cand = (mac', cand', False)" "\<not> ok"
  | (commit) mac1 m1 where "nr_dl_validate_cce_pucch env params mac cand = (mac1, cand', True)" "ok"
      "\<And>msk i. rb_free m1 msk i \<Longrightarrow> rb_free (vrb_maps mac1 (alloc_beam_idx cand')) msk i"
      "mac' = mac1\<lparr>vrb_maps := (vrb_maps mac1)(alloc_beam_idx cand' :=
                 mark_vrbs m1 (rbStart (sched_pdsch cand') + bwp_start cand')
                   (rbSize (sched_pdsch cand')) (alloc_slbitmap cand'))\<rparr>"
proof -
  obtain m1 c1 ok1 where v: "nr_dl_validate_cce_pucch env params mac cand = (m1, c1, ok1)"
    by (metis prod_cases3)
  show thesis
  proof (cases ok1)
    case False
    with assms v refuse show thesis by (auto simp: commit_alloc_def)
  next
    case True
    with assms v show thesis
      by (intro commit [of m1 "fill_pdcch_vrb_map (alloc_sched_pdcch c1) (alloc_cce_index c1)
            (alloc_aggregation_level c1) (vrb_maps m1 (alloc_beam_idx c1))"])
        (auto simp: commit_alloc_def Let_def intro: fill_pdcch_mono)
  qed
qed

lemma commit_alloc_frame:
  assumes "commit_alloc env params mac cand = (mac', cand', ok)"
  shows "same_static cand cand'" and "same_policies mac mac'"
    and "scheduled cand' = scheduled cand"
    and "rbStart (sched_pdsch cand') = rbStart (sched_pdsch cand)"
    and "rbSize (sched_pdsch cand') = rbSize (sched_pdsch cand)"
    and "dl_slice_policy_prb_used mac' = dl_slice_policy_prb_used mac"
  using assms
  by (cases rule: commit_alloc_cases; simp add: validate_frame same_policies_def; metis validate_frame same_policies_def)+

text \<open>A block is booked for symbols \<open>s\<close> when it is only free for masks that avoid \<open>s\<close>.\<close>

definition booked :: "vrb_map_t \<Rightarrow> u16 \<Rightarrow> int \<Rightarrow> bool" where
  "booked m s i \<longleftrightarrow> (\<forall>msk. rb_free m msk i \<longrightarrow> s AND msk = 0)"

text \<open>A commit only occupies more, and books the whole granted block.\<close>

lemma commit_alloc_mono:
  assumes "commit_alloc env params mac cand = (mac', cand', ok)"
    and "rb_free (vrb_maps mac' b) msk i"
  shows "rb_free (vrb_maps mac b) msk i"
  using assms(1)
proof (cases rule: commit_alloc_cases)
  case refuse
  then show ?thesis using assms(2) validate_frame(3) by metis
next
  case (commit mac1 m1)
  then show ?thesis
    using assms(2) validate_frame(3) [OF commit(1)] mark_vrbs_mono by (fastforce split: if_splits)
qed

lemma commit_alloc_books:
  assumes "commit_alloc env params mac cand = (mac', cand', True)"
  shows "run (booked (vrb_maps mac' (alloc_beam_idx cand)) (alloc_slbitmap cand))
           (rbStart (sched_pdsch cand) + bwp_start cand) (rbSize (sched_pdsch cand))"
  using assms
proof (cases rule: commit_alloc_cases)
  case (commit mac1 m1)
  have "same_static cand cand'" "rbStart (sched_pdsch cand') = rbStart (sched_pdsch cand)"
    "rbSize (sched_pdsch cand') = rbSize (sched_pdsch cand)"
    using validate_frame [OF commit(1)] by auto
  with commit show ?thesis
    by (auto simp: run_def booked_def rb_free_def mark_vrbs_nth same_static_def or.commute
        dest: word_and_or_zeroD)
qed simp

end
