(* ===== verification/Slice_Scheduler.thy ===== *)
theory Slice_Scheduler
  imports Dl_Candidate
begin

text \<open>
  The default downlink policies of the gNB MAC and the slice PRB policy
  (\<^verbatim>\<open>openair2/LAYER2/NR_MAC_gNB/gNB_scheduler_dlsch_default_policies.c\<close>): proportional fair
  ordering, the allocation loops with the budget of a slice, the policy entry points, and the
  installation of slice policies. Properties: what a call grants to a slice stays within its
  dedicated share, allocations never overlap, stay in the bandwidth part and respect the slice
  a loop works for.

  Pointers into the candidate array are indices; a pointer to a slice policy is the index of
  its array entry, \<open>None\<close> for \<^verbatim>\<open>NULL\<close>. Locking is not modelled: a function runs alone.
\<close>

section \<open>Proportional fair ordering\<close>

text \<open>\<open>qsort\<close> with a comparator; of the orders the C library may choose for equal elements
  the model takes the one that keeps the array order.\<close>

fun insert_by :: "('a \<Rightarrow> 'a \<Rightarrow> int) \<Rightarrow> 'a \<Rightarrow> 'a list \<Rightarrow> 'a list" where
  "insert_by cmp x [] = [x]"
| "insert_by cmp x (y # ys) = (if cmp x y \<le> 0 then x # y # ys else y # insert_by cmp x ys)"

definition qsort :: "('a \<Rightarrow> 'a \<Rightarrow> int) \<Rightarrow> 'a list \<Rightarrow> 'a list" where
  "qsort cmp xs = foldr (insert_by cmp) xs []"

datatype weight = Fin rat | INFINITY

fun weight_less :: "weight \<Rightarrow> weight \<Rightarrow> bool" where
  "weight_less (Fin a) (Fin b) = (a < b)"
| "weight_less (Fin a) INFINITY = True"
| "weight_less INFINITY w = False"

definition compare_weight :: "weight \<Rightarrow> weight \<Rightarrow> int" where
  "compare_weight wa wb = of_bool (weight_less wa wb) - of_bool (weight_less wb wa)"

text \<open>\<^verbatim>\<open>1e-9f\<close> is the float nearest to \<open>10 ^ -9\<close>.\<close>

definition dl_pf_weight :: "int \<Rightarrow> u8 \<Rightarrow> int \<Rightarrow> rat \<Rightarrow> rat" where
  "dl_pf_weight m table nLayers thr =
     (let Qm = ucast (nr_get_Qm_dl (word_of_int m) table) :: u16;
          R = ucast (nr_get_code_rate_dl (word_of_int m) table) :: u16;
          tbs = drop_bit 3 (nr_compute_tbs Qm R 1 10 0 0 0 (word_of_int nLayers))
      in fround (fround (of_nat (unat tbs)) / max thr (fround (1 / 10 ^ 9))))"

definition beam_weight :: "nr_dl_candidate \<Rightarrow> weight" where
  "beam_weight c =
     (if is_retx c then INFINITY
      else Fin (dl_pf_weight (current_mcs c) (mcs_table c) (nrOfLayers (sched_pdsch c)) (avg_throughput c)))"

definition rb_weight :: "nr_dl_candidate \<Rightarrow> weight" where
  "rb_weight c =
     (if is_retx c then INFINITY
      else Fin (dl_pf_weight (mcs (sched_pdsch c)) (mcs_table c) (nrOfLayers (sched_pdsch c)) (avg_throughput c)))"

definition compare_dl_pf_ptrs :: "nr_dl_candidate \<Rightarrow> nr_dl_candidate \<Rightarrow> int" where
  "compare_dl_pf_ptrs ca cb = compare_weight (beam_weight ca) (beam_weight cb)"

definition compare_dl_pf_rb_ptrs :: "nr_dl_candidate \<Rightarrow> nr_dl_candidate \<Rightarrow> int" where
  "compare_dl_pf_rb_ptrs ca cb = compare_weight (rb_weight ca) (rb_weight cb)"

definition build_pf_order :: "nr_dl_candidate list \<Rightarrow> nat list" where
  "build_pf_order cs =
     qsort (\<lambda>i j. compare_dl_pf_rb_ptrs (cs ! i) (cs ! j))
       (filter (\<lambda>i. \<not> skipped (cs ! i)) [0..<length cs])"

section \<open>Pipeline stages before the allocation\<close>

definition nr_dl_ri_pmi_select_default ::
    "'m mac_env \<Rightarrow> 'm gNB_MAC_INST \<Rightarrow> nr_dl_candidate list \<Rightarrow> nr_dl_candidate list" where
  "nr_dl_ri_pmi_select_default env mac =
     map (\<lambda>cand.
       if is_retx cand
       then let l = nrOfLayers (harq_sched_pdsch (UE cand) (retx_harq_pid cand))
            in cand\<lparr>sched_pdsch := (sched_pdsch cand)\<lparr>nrOfLayers := l,
                      pm_index := to_u16 (get_pm_index env mac cand l)\<rparr>\<rparr>
       else cand\<lparr>sched_pdsch := (sched_pdsch cand)\<lparr>nrOfLayers := to_u8 (csi_ri cand + 1),
                   pm_index := to_u16 (csi_pm_index cand)\<rparr>\<rparr>)"

definition check_dl_retx_feasibility ::
    "'m mac_env \<Rightarrow> nr_dl_candidate \<Rightarrow> NR_tda_info \<Rightarrow> int \<Rightarrow> int" where
  "check_dl_retx_feasibility env cand tda max_rbSize =
     (let orig = harq_sched_pdsch (UE cand) (retx_harq_pid cand)
      in case nr_find_nb_rb (ucast (pdsch_Qm orig)) (pdsch_R orig) 1 (word_of_int (nrOfLayers orig))
                (of_nat (nrOfSymbols tda)) (dl_dmrs_prb env cand tda (nrOfLayers orig))
                (tb_size orig) 1 (word_of_int max_rbSize) of
           None \<Rightarrow> 0
         | Some (ok, new_tbs, new_rbSize) \<Rightarrow>
             if \<not> ok \<or> new_tbs \<noteq> tb_size orig then 0 else int new_rbSize)"

text \<open>One iteration of the TDA selection: the candidate and whether it counts as valid.\<close>

definition tda_select_one ::
    "'m mac_env \<Rightarrow> 'm gNB_MAC_INST \<Rightarrow> int \<Rightarrow> nr_dl_candidate \<Rightarrow> nr_dl_candidate \<times> bool" where
  "tda_select_one env mac tda cand =
     (if skipped cand then (cand, False)
      else let info = get_dl_tda_info env mac cand tda;
               accept = (\<lambda>c. (c\<lparr>sched_pdsch := (sched_pdsch c)\<lparr>time_domain_allocation := tda, tda_info := info\<rparr>,
                              alloc_slbitmap := SL_to_bitmap (startSymbolIndex info) (nrOfSymbols info)\<rparr>, True))
           in if \<not> valid_tda info then (cand\<lparr>skipped := True\<rparr>, False)
              else if is_retx cand
              then let orig = harq_sched_pdsch (UE cand) (retx_harq_pid cand);
                       tda_changed = (startSymbolIndex info \<noteq> startSymbolIndex (tda_info orig) \<or>
                                      nrOfSymbols info \<noteq> nrOfSymbols (tda_info orig))
                   in if tda_changed
                      then let new_rbSize = check_dl_retx_feasibility env cand info (to_u16 (BWPSize (UE cand)))
                           in if new_rbSize = 0 then (cand\<lparr>skipped := True\<rparr>, False)
                              else accept (cand\<lparr>retx_rbSize := new_rbSize\<rparr>)
                      else accept cand
              else accept cand)"

text \<open>\<open>None\<close> is the fatal assertion on a missing time domain allocation.\<close>

definition nr_dl_tda_select_default ::
    "'m mac_env \<Rightarrow> 'm gNB_MAC_INST \<Rightarrow> nr_dl_candidate list \<Rightarrow> int \<Rightarrow> (nr_dl_candidate list \<times> nat) option" where
  "nr_dl_tda_select_default env mac cs slotP =
     (let tda = get_dl_tda env mac slotP
      in if tda < 0 then None
         else let rs = map (tda_select_one env mac tda) cs
              in Some (map fst rs, length (filter snd rs)))"

fun beam_select_loop ::
    "int \<Rightarrow> int \<Rightarrow> int \<Rightarrow> nat list \<Rightarrow> NR_beam_info \<Rightarrow> nr_dl_candidate list \<Rightarrow> nat \<Rightarrow>
     NR_beam_info \<times> nr_dl_candidate list \<times> nat" where
  "beam_select_loop frameP slotP spf [] bi cs n_valid = (bi, cs, n_valid)"
| "beam_select_loop frameP slotP spf (j # js) bi cs n_valid =
     (let (bi', beam) = beam_allocation_procedure bi frameP slotP (alloc_beam_dir (cs ! j)) spf
      in if idx beam < 0 then beam_select_loop frameP slotP spf js bi' (cs[j := (cs ! j)\<lparr>skipped := True\<rparr>]) n_valid
         else beam_select_loop frameP slotP spf js bi'
                (cs[j := (cs ! j)\<lparr>alloc_beam_idx := idx beam, alloc_new_beam := new_beam beam\<rparr>]) (Suc n_valid))"

definition nr_dl_beam_select_default ::
    "NR_beam_info \<Rightarrow> nr_dl_candidate list \<Rightarrow> int \<Rightarrow> int \<Rightarrow> int \<Rightarrow> NR_beam_info \<times> nr_dl_candidate list \<times> nat" where
  "nr_dl_beam_select_default bi cs frameP slotP slots_per_frame =
     beam_select_loop frameP slotP slots_per_frame
       (qsort (\<lambda>i j. compare_dl_pf_ptrs (cs ! i) (cs ! j)) (filter (\<lambda>i. \<not> skipped (cs ! i)) [0..<length cs]))
       bi cs 0"

definition mcs_select_one :: "NR_bler_options \<Rightarrow> nr_dl_candidate \<Rightarrow> nr_dl_candidate" where
  "mcs_select_one bo cand =
     (let m = (if is_retx cand then current_mcs cand
               else if harq_round_max bo = 1 then max (opt_min_mcs bo) (min (opt_max_mcs bo) (max_mcs cand))
               else if \<not> bler_updated cand then current_mcs cand
               else nr_adapt_mcs_from_bler (current_mcs cand) (opt_min_mcs bo) (max_mcs cand) (bler cand)
                      (opt_lower bo) (opt_upper bo) (last_num_sched cand));
          cand = cand\<lparr>sched_pdsch := (sched_pdsch cand)\<lparr>mcs := to_u8 m\<rparr>\<rparr>
      in if \<not> is_retx cand then cand\<lparr>UE := (UE cand)\<lparr>dl_bler_mcs := to_u8 m\<rparr>\<rparr> else cand)"

definition nr_dl_mcs_select_default ::
    "'m gNB_MAC_INST \<Rightarrow> nr_dl_candidate list \<Rightarrow> nr_dl_candidate list" where
  "nr_dl_mcs_select_default mac = map (mcs_select_one (dl_bler mac))"

section \<open>Slice policies\<close>

definition nssai_matches_policy :: "nssai_t \<Rightarrow> nssai_t \<Rightarrow> bool" where
  "nssai_matches_policy candidate policy \<longleftrightarrow> sst candidate = sst policy \<and> sd candidate = sd policy"

definition find_slice_policy :: "'m gNB_MAC_INST \<Rightarrow> nssai_t \<Rightarrow> nat option" where
  "find_slice_policy mac ns =
     (if \<not> dl_slice_policy_enabled mac then None
      else find (\<lambda>i. active (dl_slice_policy mac i) \<and> nssai_matches_policy ns (pol_nssai (dl_slice_policy mac i)))
             [0..<nat (dl_slice_policy_count mac)])"

definition find_slice_policy_index :: "'m gNB_MAC_INST \<Rightarrow> nat option \<Rightarrow> int" where
  "find_slice_policy_index mac policy =
     (case policy of None \<Rightarrow> -1
      | Some p \<Rightarrow> if int p < dl_slice_policy_count mac then int p else -1)"

text \<open>The statistics; the log lines are left out.\<close>

definition add_slice_policy_prb_stats ::
    "nr_dl_sched_params \<Rightarrow> 'm gNB_MAC_INST \<Rightarrow> nat option \<Rightarrow> int \<Rightarrow> 'm gNB_MAC_INST" where
  "add_slice_policy_prb_stats params mac policy rb_size =
     (let policy_idx = find_slice_policy_index mac policy
      in if policy_idx < 0 then mac
         else let i = nat policy_idx;
                  mac = mac\<lparr>dl_slice_policy_prb_used :=
                    (dl_slice_policy_prb_used mac)(i := dl_slice_policy_prb_used mac i + word_of_int rb_size)\<rparr>
              in if slot params \<noteq> 0 \<or> frame params = dl_slice_policy_last_log_frame mac \<or> c_mod (frame params) 100 \<noteq> 0
                 then mac else mac\<lparr>dl_slice_policy_last_log_frame := frame params\<rparr>)"

definition get_limited_free_block ::
    "'m gNB_MAC_INST \<Rightarrow> nr_dl_candidate \<Rightarrow> int \<Rightarrow> int \<times> int" where
  "get_limited_free_block mac cand rb_budget =
     (let (rb_start, max_rb_size) =
            find_largest_free_block (vrb_maps mac (alloc_beam_idx cand)) (alloc_slbitmap cand)
              (bwp_start cand) (bwp_size cand)
      in (rb_start, if rb_budget > 0 then min max_rb_size rb_budget else max_rb_size))"

section \<open>Allocation loops\<close>

definition min_rbSize :: int where
  "min_rbSize = 5"

text \<open>The number of blocks a new transmission of the candidate takes, at most \<open>max_rbSize\<close>.\<close>

definition newtx_rbSize :: "'m mac_env \<Rightarrow> nr_dl_candidate \<Rightarrow> int \<Rightarrow> int option" where
  "newtx_rbSize env cand max_rbSize =
     (let m = mcs (sched_pdsch cand);
          Qm = ucast (nr_get_Qm_dl (word_of_int m) (mcs_table cand)) :: u16;
          R = ucast (nr_get_code_rate_dl (word_of_int m) (mcs_table cand)) :: u16;
          dmrs = dl_dmrs_prb env cand (tda_info (sched_pdsch cand)) (nrOfLayers (sched_pdsch cand));
          oh = 3 * 4 + (if ta_apply (UE cand) then 2 else 0) :: u32
      in map_option (\<lambda>(ok, tbs, nb_rb). int nb_rb)
           (nr_find_nb_rb Qm R 1 (word_of_int (nrOfLayers (sched_pdsch cand)))
              (of_nat (nrOfSymbols (tda_info (sched_pdsch cand)))) dmrs (pending_bytes cand + oh)
              (word_of_int min_rbSize) (word_of_int max_rbSize)))"

text \<open>
  The body of the new transmission loop, on the state and the used budget. (\<open>newtx_rbSize\<close> is
  \<open>None\<close> only if \<^verbatim>\<open>nr_find_nb_rb\<close> did not return, which \<open>newtx_rbSize_Some\<close> below excludes.)
  The \<^verbatim>\<open>continue\<close> of the macro \<^verbatim>\<open>COMMIT_ALLOC\<close> on a failed commit is inside its
  \<^verbatim>\<open>do ... while (0)\<close> and therefore only leaves the macro: the statements after it, which count
  the blocks in the statistics and in the used budget, run for a failed commit as well.
\<close>

definition newtx_step ::
    "'m mac_env \<Rightarrow> nr_dl_sched_params \<Rightarrow> nat option \<Rightarrow> int \<Rightarrow> nat \<Rightarrow> 'm policy_state \<times> int \<Rightarrow>
     ('m policy_state \<times> int, int) ctl" where
  "newtx_step env params policy rb_budget j su =
     (let (st, used_budget) = su; cand = cands st ! j;
          remaining_budget = (if rb_budget > 0 then rb_budget - used_budget else 0)
      in if scheduled cand \<or> is_retx cand \<or> pending_bytes cand = 0 then Continue su
         else if (case policy of
                    Some p \<Rightarrow> \<not> nssai_matches_policy (nssai cand) (pol_nssai (dl_slice_policy (st_mac st) p))
                  | None \<Rightarrow> find_slice_policy (st_mac st) (nssai cand) \<noteq> None)
         then Continue su
         else if rb_budget > 0 \<and> remaining_budget < min_rbSize then Break su
         else let (rb_start, max_rbSize) = get_limited_free_block (st_mac st) cand remaining_budget
              in if max_rbSize < min_rbSize then Continue su
                 else case newtx_rbSize env cand max_rbSize of
                        None \<Rightarrow> Break su
                      | Some rb_size \<Rightarrow>
                          (let (st', ok) = commit_step env params st j rb_start rb_size (mcs (sched_pdsch cand))
                           in if ok \<and> n_sched st' \<ge> max_num_ue params then Return (st', used_budget) (n_sched st')
                              else Continue
                                (st'\<lparr>st_mac := add_slice_policy_prb_stats params (st_mac st') policy rb_size\<rparr>,
                                 used_budget + rb_size)))"

text \<open>The loop: the state and the return value, which is the used budget unless the macro
  returned \<^verbatim>\<open>*n_scheduled\<close> because \<^verbatim>\<open>max_num_ue\<close> is reached.\<close>

definition alloc_newtx_pf ::
    "'m mac_env \<Rightarrow> nr_dl_sched_params \<Rightarrow> nat list \<Rightarrow> nat option \<Rightarrow> int \<Rightarrow> 'm policy_state \<Rightarrow>
     'm policy_state \<times> int" where
  "alloc_newtx_pf env params order policy rb_budget st =
     (case for_each (newtx_step env params policy rb_budget) order (st, 0) of
        ((st', used_budget), None) \<Rightarrow> (st', used_budget)
      | ((st', used_budget), Some n) \<Rightarrow> (st', n))"

text \<open>The bodies of the two loops for retransmissions and for UEs without data.\<close>

definition retx_step ::
    "'m mac_env \<Rightarrow> nr_dl_sched_params \<Rightarrow> nat \<Rightarrow> 'm policy_state \<Rightarrow> ('m policy_state, int) ctl" where
  "retx_step env params j st =
     (let cand = cands st ! j
      in if scheduled cand \<or> \<not> is_retx cand then Continue st
         else let needed_rbs = retx_rbSize cand
              in case get_rb_alloc needed_rbs (bwp_size cand) (bwp_start cand) (bwp_size cand)
                        (vrb_maps (st_mac st) (alloc_beam_idx cand)) (alloc_slbitmap cand) of
                   None \<Rightarrow> Continue st
                 | Some (rb_start, _) \<Rightarrow>
                     (let (st', ok) = commit_step env params st j rb_start needed_rbs (mcs (sched_pdsch cand))
                      in if ok \<and> n_sched st' \<ge> max_num_ue params then Return st' (n_sched st')
                         else Continue st'))"

definition no_data_step ::
    "'m mac_env \<Rightarrow> nr_dl_sched_params \<Rightarrow> nat \<Rightarrow> 'm policy_state \<Rightarrow> ('m policy_state, int) ctl" where
  "no_data_step env params j st =
     (let cand = cands st ! j
      in if scheduled cand \<or> is_retx cand \<or> pending_bytes cand > 0 then Continue st
         else case get_rb_alloc min_rbSize (bwp_size cand) (bwp_start cand) (bwp_size cand)
                     (vrb_maps (st_mac st) (alloc_beam_idx cand)) (alloc_slbitmap cand) of
                None \<Rightarrow> Continue st
              | Some (rb_start, _) \<Rightarrow>
                  (let (st', ok) = commit_step env params st j rb_start min_rbSize (mcs (sched_pdsch cand))
                   in if ok \<and> n_sched st' \<ge> max_num_ue params then Return st' (n_sched st')
                      else Continue st'))"

definition alloc_retx_and_no_data_pf ::
    "'m mac_env \<Rightarrow> nr_dl_sched_params \<Rightarrow> nat list \<Rightarrow> 'm policy_state \<Rightarrow> 'm policy_state" where
  "alloc_retx_and_no_data_pf env params order st =
     (case for_each (retx_step env params) order st of
        (st1, Some n) \<Rightarrow> st1
      | (st1, None) \<Rightarrow> fst (for_each (no_data_step env params) order st1))"

section \<open>Policies\<close>

definition nr_dl_proportional_fair ::
    "'m mac_env \<Rightarrow> nr_dl_sched_params \<Rightarrow> 'm gNB_MAC_INST \<Rightarrow> nr_dl_candidate list \<Rightarrow> 'm policy_state" where
  "nr_dl_proportional_fair env params mac cs =
     (let order = build_pf_order cs;
          st = alloc_retx_and_no_data_pf env params order \<lparr>st_mac = mac, cands = cs, n_sched = 0\<rparr>
      in fst (alloc_newtx_pf env params order None 0 st))"

definition slice_budget :: "nr_dl_sched_params \<Rightarrow> nr_dl_slice_policy_t \<Rightarrow> int" where
  "slice_budget params policy =
     sum_list (map (\<lambda>b. c_div (n_rb_avail params b * uint (dedicated_prb_ratio policy)) 100) [0..num_beams params - 1])"

fun slice_loop ::
    "'m mac_env \<Rightarrow> nr_dl_sched_params \<Rightarrow> nat list \<Rightarrow> nat list \<Rightarrow> 'm policy_state \<Rightarrow> 'm policy_state" where
  "slice_loop env params order [] st = st"
| "slice_loop env params order (i # is) st =
     (let policy = dl_slice_policy (st_mac st) i
      in if \<not> active policy \<or> dedicated_prb_ratio policy = 0 then slice_loop env params order is st
         else let total_budget = slice_budget params policy
              in if total_budget \<le> 0 then slice_loop env params order is st
                 else slice_loop env params order is
                        (fst (alloc_newtx_pf env params order (Some i) total_budget st)))"

definition nr_dl_slice_prb_policy ::
    "'m mac_env \<Rightarrow> nr_dl_sched_params \<Rightarrow> 'm gNB_MAC_INST \<Rightarrow> nr_dl_candidate list \<Rightarrow> 'm policy_state" where
  "nr_dl_slice_prb_policy env params mac cs =
     (if \<not> dl_slice_policy_enabled mac \<or> dl_slice_policy_count mac = 0
      then nr_dl_proportional_fair env params mac cs
      else let order = build_pf_order cs;
               st = alloc_retx_and_no_data_pf env params order \<lparr>st_mac = mac, cands = cs, n_sched = 0\<rparr>;
               st = slice_loop env params order [0..<nat (dl_slice_policy_count mac)] st
           in fst (alloc_newtx_pf env params order None 0 st))"

section \<open>Installing policies\<close>

definition valid_slice_ratios :: "nr_dl_slice_policy_t \<Rightarrow> bool" where
  "valid_slice_ratios p \<longleftrightarrow>
     \<not> (min_prb_ratio p > 100 \<or> max_prb_ratio p > 100 \<or> dedicated_prb_ratio p > 100
        \<or> min_prb_ratio p > dedicated_prb_ratio p \<or> dedicated_prb_ratio p > max_prb_ratio p)"

fun set_policies_loop ::
    "nat \<Rightarrow> nr_dl_slice_policy_t list \<Rightarrow> 'm gNB_MAC_INST \<Rightarrow> 'm gNB_MAC_INST \<times> bool" where
  "set_policies_loop i [] mac = (mac, True)"
| "set_policies_loop i (p # ps) mac =
     (if \<not> valid_slice_ratios p then (mac, False)
      else set_policies_loop (Suc i) ps
             (mac\<lparr>dl_slice_policy := (dl_slice_policy mac)(i := p\<lparr>active := True\<rparr>)\<rparr>))"

text \<open>The array \<^verbatim>\<open>policies\<close> with its \<^verbatim>\<open>count\<close> is a list, so a negative count cannot arise;
  \<open>None\<close> as MAC instance is the null pointer.\<close>

definition nr_mac_set_dl_slice_policies ::
    "'m gNB_MAC_INST option \<Rightarrow> nr_dl_slice_policy_t list \<Rightarrow> 'm gNB_MAC_INST option \<times> bool" where
  "nr_mac_set_dl_slice_policies mac policies =
     (case mac of None \<Rightarrow> (None, False)
      | Some mac \<Rightarrow>
          if int (length policies) > MAX_NUM_SLICES then (Some mac, False)
          else let mac = mac\<lparr>dl_slice_policy := (\<lambda>_. zero_slice_policy),
                             dl_slice_policy_prb_used := (\<lambda>_. 0),
                             dl_slice_policy_last_log_frame := 0\<rparr>;
                   (mac, ok) = set_policies_loop 0 policies mac
               in if \<not> ok then (Some mac, False)
                  else (Some (mac\<lparr>dl_slice_policy_count := int (length policies),
                                  dl_slice_policy_enabled := policies \<noteq> []\<rparr>), True))"

definition nr_dl_lcid_alloc_default :: "nr_dl_candidate \<Rightarrow> int carray \<Rightarrow> int carray" where
  "nr_dl_lcid_alloc_default candidate lcid_alloc =
     (\<lambda>lcid. if 0 \<le> lcid \<and> lcid < 32 then sint (pending_bytes_per_lcid candidate lcid) else lcid_alloc lcid)"

end
