(* ===== verification/Slice_Safety.thy ===== *)
theory Slice_Safety
  imports Slice_Scheduler
begin

text \<open>
  Safety of the allocation policies. Every change a policy makes to the scheduler state is a
  sequence of steps of the relation \<open>sched_step\<close>: the commit of a free block of the
  candidate's bandwidth part, or an update of the slice statistics. The invariant
  \<open>alloc_inv\<close> (allocations lie in the bandwidth part, are booked in the VRB map, and two of
  them on one beam with common symbols are disjoint) is kept by each step, hence by each policy.
  The contract of the function pointer \<^verbatim>\<open>dl_rb_alloc\<close> is the locale \<open>rb_alloc_policy\<close>, and
  its client is the loop of \<^verbatim>\<open>nr_dl_schedule\<close> that calls the policy once per beam.
\<close>

section \<open>Commit steps\<close>

lemma commit_step_frame:
  assumes "commit_step env params st j s l m = (st', ok)" and "j < length (cands st)"
  shows "length (cands st') = length (cands st)"
    and "\<And>k. k \<noteq> j \<Longrightarrow> cands st' ! k = cands st ! k"
    and "same_static (cands st ! j) (cands st' ! j)"
    and "same_policies (st_mac st) (st_mac st')"
    and "scheduled (cands st' ! j) \<longleftrightarrow> ok \<or> scheduled (cands st ! j)"
    and "rbStart (sched_pdsch (cands st' ! j)) = to_u16 s"
    and "rbSize (sched_pdsch (cands st' ! j)) = to_u16 l"
    and "n_sched st' = n_sched st + of_bool ok"
    and "\<And>b msk i. rb_free (vrb_maps (st_mac st') b) msk i \<Longrightarrow> rb_free (vrb_maps (st_mac st) b) msk i"
    and "ok \<Longrightarrow> run (booked (vrb_maps (st_mac st') (alloc_beam_idx (cands st ! j))) (alloc_slbitmap (cands st ! j)))
           (to_u16 s + bwp_start (cands st ! j)) (to_u16 l)"
proof -
  define c0 where "c0 = (cands st ! j)\<lparr>sched_pdsch := (sched_pdsch (cands st ! j))
    \<lparr>rbStart := to_u16 s, rbSize := to_u16 l, mcs := to_u8 m\<rparr>\<rparr>"
  obtain mac' c ok' where a: "commit_alloc env params (st_mac st) c0 = (mac', c, ok')"
    by (metis prod_cases3)
  have static: "same_static (cands st ! j) c0" by (simp add: c0_def same_static_def)
  have res: "st' = (if ok then st\<lparr>st_mac := mac', cands := (cands st)[j := c\<lparr>scheduled := True\<rparr>], n_sched := n_sched st + 1\<rparr>
                    else st\<lparr>st_mac := mac', cands := (cands st)[j := c]\<rparr>)" "ok' = ok"
    using assms(1) a by (auto simp: commit_step_def Let_def c0_def split: if_splits)
  note f = commit_alloc_frame [OF a]
  have c: "same_static (cands st ! j) c" using static f(1) same_static_trans by blast
  show "length (cands st') = length (cands st)" "n_sched st' = n_sched st + of_bool ok"
    by (auto simp: res)
  show "cands st' ! k = cands st ! k" if "k \<noteq> j" for k using that by (auto simp: res)
  show "same_static (cands st ! j) (cands st' ! j)"
    using c assms(2) by (auto simp: res same_static_def)
  show "same_policies (st_mac st) (st_mac st')" using f(2) by (auto simp: res)
  show "scheduled (cands st' ! j) \<longleftrightarrow> ok \<or> scheduled (cands st ! j)"
    "rbStart (sched_pdsch (cands st' ! j)) = to_u16 s" "rbSize (sched_pdsch (cands st' ! j)) = to_u16 l"
    using f assms(2) by (auto simp: res c0_def)
  show "rb_free (vrb_maps (st_mac st) b) msk i" if "rb_free (vrb_maps (st_mac st') b) msk i" for b msk i
    using that commit_alloc_mono [OF a] by (auto simp: res split: if_splits)
  show "run (booked (vrb_maps (st_mac st') (alloc_beam_idx (cands st ! j))) (alloc_slbitmap (cands st ! j)))
      (to_u16 s + bwp_start (cands st ! j)) (to_u16 l)" if ok
    using commit_alloc_books [of env params "st_mac st" c0 mac' c] a that res by (simp add: c0_def)
qed

section \<open>The step relation\<close>

definition cand_free :: "'m policy_state \<Rightarrow> nr_dl_candidate \<Rightarrow> int \<Rightarrow> bool" where
  "cand_free st c i \<longleftrightarrow>
     rb_free (vrb_maps (st_mac st) (alloc_beam_idx c)) (alloc_slbitmap c) (i + bwp_start c)"

inductive sched_step :: "'m mac_env \<Rightarrow> nr_dl_sched_params \<Rightarrow> 'm policy_state \<Rightarrow> 'm policy_state \<Rightarrow> bool"
  for env params where
  commit: "\<lbrakk> j < length (cands st); \<not> scheduled (cands st ! j); 0 \<le> s; 1 \<le> l;
             s + l \<le> bwp_size (cands st ! j); run (cand_free st (cands st ! j)) s l;
             commit_step env params st j s l m = (st', ok) \<rbrakk> \<Longrightarrow> sched_step env params st st'"
| stats: "sched_step env params st (st\<lparr>st_mac := add_slice_policy_prb_stats params (st_mac st) pol n\<rparr>)"

inductive_cases sched_stepE: "sched_step env params st st'"

definition cand_wf :: "nr_dl_candidate \<Rightarrow> bool" where
  "cand_wf c \<longleftrightarrow> 0 \<le> bwp_start c \<and> 0 \<le> bwp_size c \<and> bwp_start c + bwp_size c \<le> 275 \<and>
                 (is_retx c \<longrightarrow> 1 \<le> retx_rbSize c)"

lemma same_static_wf: "same_static c c' \<Longrightarrow> cand_wf c' = cand_wf c"
  by (simp add: same_static_def cand_wf_def)

definition in_bwp :: "nr_dl_candidate \<Rightarrow> bool" where
  "in_bwp c \<longleftrightarrow> 0 \<le> rbStart (sched_pdsch c) \<and> 1 \<le> rbSize (sched_pdsch c) \<and>
                rbStart (sched_pdsch c) + rbSize (sched_pdsch c) \<le> bwp_size c"

text \<open>Two allocations share no resource block of the carrier.\<close>

definition disjoint_rbs :: "nr_dl_candidate \<Rightarrow> nr_dl_candidate \<Rightarrow> bool" where
  "disjoint_rbs c d \<longleftrightarrow>
     bwp_start c + rbStart (sched_pdsch c) + rbSize (sched_pdsch c) \<le> bwp_start d + rbStart (sched_pdsch d) \<or>
     bwp_start d + rbStart (sched_pdsch d) + rbSize (sched_pdsch d) \<le> bwp_start c + rbStart (sched_pdsch c)"

definition compatible :: "nr_dl_candidate \<Rightarrow> nr_dl_candidate \<Rightarrow> bool" where
  "compatible c d \<longleftrightarrow>
     (scheduled c \<and> scheduled d \<and> alloc_beam_idx c = alloc_beam_idx d \<and>
      alloc_slbitmap c AND alloc_slbitmap d \<noteq> 0 \<longrightarrow> disjoint_rbs c d)"

definition cand_booked :: "'m gNB_MAC_INST \<Rightarrow> nr_dl_candidate \<Rightarrow> bool" where
  "cand_booked mac c \<longleftrightarrow>
     run (booked (vrb_maps mac (alloc_beam_idx c)) (alloc_slbitmap c))
       (rbStart (sched_pdsch c) + bwp_start c) (rbSize (sched_pdsch c))"

definition alloc_inv :: "'m policy_state \<Rightarrow> bool" where
  "alloc_inv st \<longleftrightarrow>
     (\<forall>c \<in> set (cands st). cand_wf c \<and> (scheduled c \<longrightarrow> in_bwp c \<and> cand_booked (st_mac st) c)) \<and>
     (\<forall>j k. j < length (cands st) \<and> k < length (cands st) \<and> j \<noteq> k \<longrightarrow>
            compatible (cands st ! j) (cands st ! k))"

lemma compatible_sym: "compatible c d \<Longrightarrow> compatible d c"
  by (auto simp: compatible_def disjoint_rbs_def and.commute)

text \<open>A free block and a booked one with common symbols do not meet.\<close>

lemma free_booked_disjoint:
  assumes "run (\<lambda>i. rb_free m s (i + b)) a l" and "run (booked m t) x y"
    and "s AND t \<noteq> 0" and "1 \<le> l" and "1 \<le> y"
  shows "b + a + l \<le> x \<or> x + y \<le> b + a"
proof (rule ccontr)
  assume "\<not> ?thesis"
  then have i: "b + a \<le> max (b + a) x" "max (b + a) x < b + a + l" "x \<le> max (b + a) x" "max (b + a) x < x + y"
    using assms(4,5) by auto
  have "rb_free m s (max (b + a) x)"
    using runD [OF assms(1), of "max (b + a) x - b"] i by simp
  moreover have "booked m t (max (b + a) x)" using runD [OF assms(2)] i by simp
  ultimately have "t AND s = 0" by (simp add: booked_def)
  with assms(3) show False by (simp add: and.commute)
qed

lemma cand_booked_mono:
  assumes "cand_booked mac c"
    and "\<And>b msk i. rb_free (vrb_maps mac' b) msk i \<Longrightarrow> rb_free (vrb_maps mac b) msk i"
  shows "cand_booked mac' c"
  using assms by (auto simp: cand_booked_def run_def booked_def)

lemma stats_frame [sched_simps]:
  "dl_slice_policy (add_slice_policy_prb_stats params mac pol n) = dl_slice_policy mac"
  "dl_slice_policy_count (add_slice_policy_prb_stats params mac pol n) = dl_slice_policy_count mac"
  "dl_slice_policy_enabled (add_slice_policy_prb_stats params mac pol n) = dl_slice_policy_enabled mac"
  "vrb_maps (add_slice_policy_prb_stats params mac pol n) = vrb_maps mac"
  by (simp_all add: add_slice_policy_prb_stats_def Let_def)

text \<open>One commit keeps the invariant: the candidate it grants to is compatible with the others.\<close>

lemma commit_compatible:
  assumes inv: "alloc_inv st" and j: "j < length (cands st)" and k: "k < length (cands st)" "j \<noteq> k"
    and s: "0 \<le> s" "1 \<le> l" "s + l \<le> bwp_size (cands st ! j)"
    and free: "run (cand_free st (cands st ! j)) s l"
    and c: "commit_step env params st j s l m = (st', ok)"
  shows "compatible (cands st' ! j) (cands st' ! k)"
  unfolding compatible_def disjoint_rbs_def
proof (intro impI)
  let ?c = "cands st ! j" and ?c' = "cands st' ! j" and ?d = "cands st ! k"
  assume a: "scheduled ?c' \<and> scheduled (cands st' ! k) \<and> alloc_beam_idx ?c' = alloc_beam_idx (cands st' ! k) \<and>
     alloc_slbitmap ?c' AND alloc_slbitmap (cands st' ! k) \<noteq> 0"
  note f = commit_step_frame [OF c j]
  have d: "cands st' ! k = ?d" using k f(2) by metis
  have st: "alloc_beam_idx ?c' = alloc_beam_idx ?c" "alloc_slbitmap ?c' = alloc_slbitmap ?c" "bwp_start ?c' = bwp_start ?c"
    using f(3) by (auto simp: same_static_def)
  have wf: "cand_wf ?c" "cand_wf ?d" "in_bwp ?d" "cand_booked (st_mac st) ?d"
    using inv j k a d by (auto simp: alloc_inv_def)
  then have sl: "to_u16 s = s" "to_u16 l = l" using s by (auto simp: cand_wf_def)
  have "bwp_start ?c + s + l \<le> rbStart (sched_pdsch ?d) + bwp_start ?d \<or>
        rbStart (sched_pdsch ?d) + bwp_start ?d + rbSize (sched_pdsch ?d) \<le> bwp_start ?c + s"
  proof (rule free_booked_disjoint)
    show "run (\<lambda>i. rb_free (vrb_maps (st_mac st) (alloc_beam_idx ?c)) (alloc_slbitmap ?c) (i + bwp_start ?c)) s l"
      using free by (simp add: cand_free_def run_def)
    show "run (booked (vrb_maps (st_mac st) (alloc_beam_idx ?c)) (alloc_slbitmap ?d))
        (rbStart (sched_pdsch ?d) + bwp_start ?d) (rbSize (sched_pdsch ?d))"
      using wf(4) a st d by (simp add: cand_booked_def)
    show "alloc_slbitmap ?c AND alloc_slbitmap ?d \<noteq> 0" using a st d by simp
    show "1 \<le> rbSize (sched_pdsch ?d)" using wf(3) by (simp add: in_bwp_def)
  qed (rule s)
  then show "bwp_start ?c' + rbStart (sched_pdsch ?c') + rbSize (sched_pdsch ?c') \<le> bwp_start (cands st' ! k) + rbStart (sched_pdsch (cands st' ! k)) \<or>
     bwp_start (cands st' ! k) + rbStart (sched_pdsch (cands st' ! k)) + rbSize (sched_pdsch (cands st' ! k)) \<le> bwp_start ?c' + rbStart (sched_pdsch ?c')"
    by (simp add: f(6,7) sl st d algebra_simps)
qed

lemma sched_step_inv:
  assumes "sched_step env params st st'" and "alloc_inv st"
  shows "alloc_inv st'"
  using assms(1)
proof cases
  case (commit j s l m ok)
  note 1 = commit
  note f = commit_step_frame [OF 1(7,1)]
  have each: "cand_wf (cands st' ! k) \<and>
      (scheduled (cands st' ! k) \<longrightarrow> in_bwp (cands st' ! k) \<and> cand_booked (st_mac st') (cands st' ! k))"
    if "k < length (cands st)" for k
  proof (cases "k = j")
    case False
    with that assms(2) f(2) have "cand_wf (cands st' ! k)"
      "scheduled (cands st' ! k) \<longrightarrow> in_bwp (cands st' ! k) \<and> cand_booked (st_mac st) (cands st' ! k)"
      by (auto simp: alloc_inv_def)
    then show ?thesis using cand_booked_mono f(9) by blast
  next
    case True
    have wf: "cand_wf (cands st ! j)" using assms(2) 1(1) by (auto simp: alloc_inv_def)
    then have sl: "to_u16 s = s" "to_u16 l = l" using 1 by (auto simp: cand_wf_def)
    have st: "same_static (cands st ! j) (cands st' ! j)" by (rule f(3))
    have "in_bwp (cands st' ! j)" using 1 st by (simp add: in_bwp_def f(6,7) sl same_static_def)
    moreover have "scheduled (cands st' ! j) \<longrightarrow> cand_booked (st_mac st') (cands st' ! j)"
      using f(5,10) 1(2) st by (simp add: cand_booked_def f(6,7) same_static_def)
    ultimately show ?thesis using True wf same_static_wf [OF st] by simp
  qed
  have pairs: "compatible (cands st' ! a) (cands st' ! b)"
    if "a < length (cands st)" "b < length (cands st)" "a \<noteq> b" for a b
  proof -
    consider "a = j" | "b = j" | "a \<noteq> j" "b \<noteq> j" by blast
    then show ?thesis
    proof cases
      case 3
      then show ?thesis using that assms(2) f(2) by (simp add: alloc_inv_def)
    qed (use that compatible_sym commit_compatible [OF assms(2) 1(1) _ _ 1(3-7)] in blast)+
  qed
  show ?thesis
    using each pairs by (auto simp: alloc_inv_def f(1) in_set_conv_nth)
next
  case (stats pol n)
  with assms(2) show ?thesis by (auto simp: alloc_inv_def cand_booked_def sched_simps)
qed

lemma sched_steps_inv:
  assumes "(sched_step env params)\<^sup>*\<^sup>* st st'" and "alloc_inv st"
  shows "alloc_inv st'"
  using assms by (induction rule: rtranclp_induct) (auto intro: sched_step_inv)

section \<open>The loop bodies take such steps\<close>

lemma newtx_rbSize_Some:
  assumes "5 \<le> mx" and "mx \<le> 65535"
  shows "\<exists>r. newtx_rbSize env c mx = Some r \<and> 5 \<le> r \<and> r \<le> mx"
proof -
  have u: "unat (word_of_int mx :: u16) = nat mx"
    using assms by (simp add: unat_eq_nat_uint uint_word_of_int)
  have "unat (word_of_int min_rbSize :: u16) \<le> unat (word_of_int mx :: u16)"
    unfolding u using assms by (simp add: min_rbSize_def)
  then obtain ok t n where
    "nr_find_nb_rb (ucast (nr_get_Qm_dl (word_of_int (mcs (sched_pdsch c))) (mcs_table c)))
       (ucast (nr_get_code_rate_dl (word_of_int (mcs (sched_pdsch c))) (mcs_table c))) 1
       (word_of_int (nrOfLayers (sched_pdsch c))) (of_nat (nrOfSymbols (tda_info (sched_pdsch c))))
       (dl_dmrs_prb env c (tda_info (sched_pdsch c)) (nrOfLayers (sched_pdsch c)))
       (pending_bytes c + (3 * 4 + (if ta_apply (UE c) then 2 else 0)))
       (word_of_int min_rbSize) (word_of_int mx) = Some (ok, t, n)"
    and n: "unat (word_of_int min_rbSize :: u16) \<le> n" "n \<le> unat (word_of_int mx :: u16)"
    by (rule nr_find_nb_rb_dl_range)
  then have "newtx_rbSize env c mx = Some (int n)"
    unfolding newtx_rbSize_def Let_def by simp
  moreover have "5 \<le> int n" "int n \<le> mx" using n assms unfolding u by (auto simp: min_rbSize_def)
  ultimately show ?thesis by blast
qed

lemma get_limited_free_block_spec:
  assumes "get_limited_free_block mac c budget = (s, l)"
  shows "0 \<le> s" and "0 < l \<Longrightarrow> s + l \<le> bwp_size c" and "budget > 0 \<Longrightarrow> l \<le> budget"
    and "run (\<lambda>i. rb_free (vrb_maps mac (alloc_beam_idx c)) (alloc_slbitmap c) (i + bwp_start c)) s l"
proof -
  obtain s' l' where f: "find_largest_free_block (vrb_maps mac (alloc_beam_idx c)) (alloc_slbitmap c)
      (bwp_start c) (bwp_size c) = (s', l')" by fastforce
  note sp = find_largest_free_block_spec [OF f]
  have sl: "s' = s" "l = (if budget > 0 then min l' budget else l')"
    using assms by (auto simp: get_limited_free_block_def f)
  show "0 \<le> s" "0 < l \<Longrightarrow> s + l \<le> bwp_size c" "budget > 0 \<Longrightarrow> l \<le> budget"
    using sp(1,4) sl by (auto split: if_splits)
  show "run (\<lambda>i. rb_free (vrb_maps mac (alloc_beam_idx c)) (alloc_slbitmap c) (i + bwp_start c)) s l"
    using run_mono [OF sp(5), of s l] sl by auto
qed

text \<open>The cases of the new transmission body.\<close>

lemma newtx_step_cases:
  assumes "cand_wf (cands st ! j)"
  obtains (skip) "newtx_step env params policy B j (st, u) = Continue (st, u)"
  | (stop) "newtx_step env params policy B j (st, u) = Break (st, u)"
  | (grant) s l st' ok where "\<not> scheduled (cands st ! j)" "\<not> is_retx (cands st ! j)" "pending_bytes (cands st ! j) \<noteq> 0"
      "0 \<le> s" "5 \<le> l" "s + l \<le> bwp_size (cands st ! j)" "run (cand_free st (cands st ! j)) s l"
      "B > 0 \<Longrightarrow> u + l \<le> B"
      "\<And>p. policy = Some p \<Longrightarrow> nssai_matches_policy (nssai (cands st ! j)) (pol_nssai (dl_slice_policy (st_mac st) p))"
      "policy = None \<Longrightarrow> find_slice_policy (st_mac st) (nssai (cands st ! j)) = None"
      "commit_step env params st j s l (mcs (sched_pdsch (cands st ! j))) = (st', ok)"
      "newtx_step env params policy B j (st, u) =
         (if ok \<and> n_sched st' \<ge> max_num_ue params then Return (st', u) (n_sched st')
          else Continue (st'\<lparr>st_mac := add_slice_policy_prb_stats params (st_mac st') policy l\<rparr>, u + l))"
proof -
  let ?c = "cands st ! j" and ?r = "if B > 0 then B - u else 0"
  obtain s mx where b: "get_limited_free_block (st_mac st) ?c ?r = (s, mx)" by fastforce
  note sp = get_limited_free_block_spec [OF b]
  show thesis
  proof (cases "newtx_step env params policy B j (st, u) = Continue (st, u) \<or>
                newtx_step env params policy B j (st, u) = Break (st, u)")
    case True
    with skip stop show thesis by blast
  next
    case False
    then have g: "\<not> scheduled ?c" "\<not> is_retx ?c" "pending_bytes ?c \<noteq> 0"
      "\<not> (case policy of Some p \<Rightarrow> \<not> nssai_matches_policy (nssai ?c) (pol_nssai (dl_slice_policy (st_mac st) p))
           | None \<Rightarrow> find_slice_policy (st_mac st) (nssai ?c) \<noteq> None)"
      "\<not> (B > 0 \<and> ?r < min_rbSize)" "\<not> mx < min_rbSize"
      by (auto simp: newtx_step_def Let_def b split: if_splits)
    have mx: "5 \<le> mx" "s + mx \<le> bwp_size ?c" using g(6) sp(2) by (auto simp: min_rbSize_def)
    then have "mx \<le> 65535" using assms sp(1) by (auto simp: cand_wf_def)
    with mx newtx_rbSize_Some obtain l where l: "newtx_rbSize env ?c mx = Some l" "5 \<le> l" "l \<le> mx" by blast
    obtain st' ok where cs: "commit_step env params st j s l (mcs (sched_pdsch ?c)) = (st', ok)" by fastforce
    have "run (cand_free st ?c) s l" using run_mono [OF sp(4), of s l] l by (auto simp: cand_free_def run_def)
    moreover have "u + l \<le> B" if "B > 0" using sp(3) g(5) that l by (auto simp: min_rbSize_def split: if_splits)
    moreover have "newtx_step env params policy B j (st, u) =
         (if ok \<and> n_sched st' \<ge> max_num_ue params then Return (st', u) (n_sched st')
          else Continue (st'\<lparr>st_mac := add_slice_policy_prb_stats params (st_mac st') policy l\<rparr>, u + l))"
      unfolding newtx_step_def Let_def prod.case using g(1-3) g(4-6) by (simp add: b l(1) cs)
    ultimately show thesis
      using grant [of s l st' ok] g sp(1) l mx cs by (auto split: option.splits)
  qed
qed

lemma newtx_step_steps:
  assumes "j < length (cands (fst su))" and "cand_wf (cands (fst su) ! j)"
  shows "(sched_step env params)\<^sup>*\<^sup>* (fst su) (fst (ctl_state (newtx_step env params policy B j su)))"
proof -
  obtain st u where su: "su = (st, u)" by fastforce
  show ?thesis
    using assms(2) [unfolded su fst_conv]
  proof (cases rule: newtx_step_cases [where env = env and params = params and policy = policy and B = B and u = u])
    case (grant s l st' ok)
    have "sched_step env params st st'"
      using assms(1) su grant by (intro sched_step.commit) auto
    moreover have "sched_step env params st' (st'\<lparr>st_mac := add_slice_policy_prb_stats params (st_mac st') policy l\<rparr>)"
      by (rule sched_step.stats)
    ultimately show ?thesis using su grant(12) by (auto intro: rtranclp.intros)
  qed (use su in auto)
qed

lemma get_rb_alloc_free:
  assumes "get_rb_alloc mn mx (bwp_start c) (bwp_size c) (vrb_maps mac (alloc_beam_idx c)) (alloc_slbitmap c) = Some (s, l)"
    and "1 \<le> mx" and "1 \<le> mn"
  shows "0 \<le> s" and "s + mn \<le> bwp_size c"
    and "run (\<lambda>i. rb_free (vrb_maps mac (alloc_beam_idx c)) (alloc_slbitmap c) (i + bwp_start c)) s mn"
  using get_rb_alloc_loop_sound [OF assms(1) [unfolded get_rb_alloc_def] assms(2,3)]
  by (auto simp: run_def add.commute)

lemma retx_step_steps:
  assumes "j < length (cands st)" and "cand_wf (cands st ! j)"
  shows "(sched_step env params)\<^sup>*\<^sup>* st (ctl_state (retx_step env params j st))"
proof -
  let ?c = "cands st ! j"
  obtain st' ok s where c: "retx_step env params j st = Continue st \<or>
    (\<not> scheduled ?c \<and> is_retx ?c \<and> ctl_state (retx_step env params j st) = st' \<and>
     commit_step env params st j s (retx_rbSize ?c) (mcs (sched_pdsch ?c)) = (st', ok) \<and>
     (\<exists>l. get_rb_alloc (retx_rbSize ?c) (bwp_size ?c) (bwp_start ?c) (bwp_size ?c)
            (vrb_maps (st_mac st) (alloc_beam_idx ?c)) (alloc_slbitmap ?c) = Some (s, l)))"
    by (fastforce simp: retx_step_def Let_def split: option.splits prod.splits if_splits)
  then show ?thesis
  proof (elim disjE conjE exE)
    fix l
    assume a: "\<not> scheduled ?c" "is_retx ?c" "ctl_state (retx_step env params j st) = st'"
      "commit_step env params st j s (retx_rbSize ?c) (mcs (sched_pdsch ?c)) = (st', ok)"
      "get_rb_alloc (retx_rbSize ?c) (bwp_size ?c) (bwp_start ?c) (bwp_size ?c)
            (vrb_maps (st_mac st) (alloc_beam_idx ?c)) (alloc_slbitmap ?c) = Some (s, l)"
    have n: "1 \<le> retx_rbSize ?c" using assms(2) a(2) by (simp add: cand_wf_def)
    have "retx_rbSize ?c \<le> bwp_size ?c"
      using a(5) by (subst (asm) get_rb_alloc_def, subst (asm) get_rb_alloc_loop.simps) (auto split: if_splits)
    with n have "1 \<le> bwp_size ?c" by simp
    note f = get_rb_alloc_free [OF a(5) this n]
    have "sched_step env params st st'"
      using assms(1) a n f by (intro sched_step.commit) (auto simp: cand_free_def run_def)
    then show ?thesis using a(3) by auto
  qed auto
qed

lemma no_data_step_steps:
  assumes "j < length (cands st)" and "cand_wf (cands st ! j)"
  shows "(sched_step env params)\<^sup>*\<^sup>* st (ctl_state (no_data_step env params j st))"
proof -
  let ?c = "cands st ! j"
  obtain st' ok s where c: "no_data_step env params j st = Continue st \<or>
    (\<not> scheduled ?c \<and> ctl_state (no_data_step env params j st) = st' \<and>
     commit_step env params st j s min_rbSize (mcs (sched_pdsch ?c)) = (st', ok) \<and>
     (\<exists>l. get_rb_alloc min_rbSize (bwp_size ?c) (bwp_start ?c) (bwp_size ?c)
            (vrb_maps (st_mac st) (alloc_beam_idx ?c)) (alloc_slbitmap ?c) = Some (s, l)))"
    by (fastforce simp: no_data_step_def Let_def split: option.splits prod.splits if_splits)
  then show ?thesis
  proof (elim disjE conjE exE)
    fix l
    assume a: "\<not> scheduled ?c" "ctl_state (no_data_step env params j st) = st'"
      "commit_step env params st j s min_rbSize (mcs (sched_pdsch ?c)) = (st', ok)"
      "get_rb_alloc min_rbSize (bwp_size ?c) (bwp_start ?c) (bwp_size ?c)
            (vrb_maps (st_mac st) (alloc_beam_idx ?c)) (alloc_slbitmap ?c) = Some (s, l)"
    have "min_rbSize \<le> bwp_size ?c"
      using a(4) by (subst (asm) get_rb_alloc_def, subst (asm) get_rb_alloc_loop.simps) (auto split: if_splits)
    then have "1 \<le> bwp_size ?c" "(1 :: int) \<le> min_rbSize" by (auto simp: min_rbSize_def)
    note f = get_rb_alloc_free [OF a(4) this]
    have "sched_step env params st st'"
      using assms(1) a f by (intro sched_step.commit) (auto simp: cand_free_def run_def min_rbSize_def)
    then show ?thesis using a(2) by auto
  qed auto
qed

section \<open>Loops and policies\<close>

lemma sched_step_frame:
  assumes "sched_step env params st st'"
  shows "length (cands st') = length (cands st) \<and> same_policies (st_mac st) (st_mac st') \<and>
         (\<forall>k < length (cands st). same_static (cands st ! k) (cands st' ! k))"
  using assms
proof cases
  case (commit j s l m ok)
  note f = commit_step_frame [OF commit(7,1)]
  have "same_static (cands st ! k) (cands st' ! k)" for k using f(2,3) by (cases "k = j") auto
  then show ?thesis using f(1,4) by simp
qed (simp add: same_policies_def sched_simps)

lemma sched_steps_frame:
  assumes "(sched_step env params)\<^sup>*\<^sup>* st st'"
  shows "length (cands st') = length (cands st)" and "same_policies (st_mac st) (st_mac st')"
    and "\<And>k. k < length (cands st) \<Longrightarrow> same_static (cands st ! k) (cands st' ! k)"
proof -
  have "length (cands st') = length (cands st) \<and> same_policies (st_mac st) (st_mac st') \<and>
         (\<forall>k < length (cands st). same_static (cands st ! k) (cands st' ! k))"
    using assms
  proof (induction rule: rtranclp_induct)
    case (step y z)
    note f = sched_step_frame [OF step(2)]
    note ih = conjunct1 [OF step(3)] conjunct1 [OF conjunct2 [OF step(3)]] conjunct2 [OF conjunct2 [OF step(3)]]
    note fs = conjunct1 [OF f] conjunct1 [OF conjunct2 [OF f]] conjunct2 [OF conjunct2 [OF f]]
    show ?case
    proof (intro conjI allI impI)
      show "length (cands z) = length (cands st)" using ih(1) fs(1) by simp
      show "same_policies (st_mac st) (st_mac z)" by (rule same_policies_trans [OF ih(2) fs(2)])
      fix k
      assume k: "k < length (cands st)"
      then have "k < length (cands y)" using ih(1) by simp
      with k ih(3) fs(3) show "same_static (cands st ! k) (cands z ! k)"
        using same_static_trans by blast
    qed
  qed simp
  then show "length (cands st') = length (cands st)" "same_policies (st_mac st) (st_mac st')"
    "\<And>k. k < length (cands st) \<Longrightarrow> same_static (cands st ! k) (cands st' ! k)" by auto
qed

text \<open>The contract of a loop body: it moves the scheduler state by steps of the relation.\<close>

locale alloc_body =
  fixes env :: "'m mac_env" and params :: nr_dl_sched_params
    and body :: "nat \<Rightarrow> 's \<Rightarrow> ('s, int) ctl" and st_of :: "'s \<Rightarrow> 'm policy_state"
  assumes body_steps:
    "j < length (cands (st_of s)) \<Longrightarrow> cand_wf (cands (st_of s) ! j) \<Longrightarrow>
     (sched_step env params)\<^sup>*\<^sup>* (st_of s) (st_of (ctl_state (body j s)))"
begin

lemma body_inv:
  assumes "alloc_inv (st_of s)" and "j < length (cands (st_of s))"
  shows "(sched_step env params)\<^sup>*\<^sup>* (st_of s) (st_of (ctl_state (body j s)))"
    and "alloc_inv (st_of (ctl_state (body j s)))"
    and "length (cands (st_of (ctl_state (body j s)))) = length (cands (st_of s))"
proof -
  have "cand_wf (cands (st_of s) ! j)" using assms by (simp add: alloc_inv_def)
  with assms(2) show st: "(sched_step env params)\<^sup>*\<^sup>* (st_of s) (st_of (ctl_state (body j s)))"
    by (rule body_steps)
  show "alloc_inv (st_of (ctl_state (body j s)))" by (rule sched_steps_inv [OF st assms(1)])
  show "length (cands (st_of (ctl_state (body j s)))) = length (cands (st_of s))"
    by (rule sched_steps_frame(1) [OF st])
qed

lemma loop_steps:
  assumes "alloc_inv (st_of s)" and "\<forall>j \<in> set js. j < length (cands (st_of s))"
  shows "(sched_step env params)\<^sup>*\<^sup>* (st_of s) (st_of (fst (for_each body js s)))"
proof -
  let ?I = "\<lambda>t. (sched_step env params)\<^sup>*\<^sup>* (st_of s) (st_of t) \<and> alloc_inv (st_of t) \<and>
                length (cands (st_of t)) = length (cands (st_of s))"
  have "?I (fst (for_each body js s))"
  proof (rule for_each_invariant [where I = ?I])
    fix j t
    assume "j \<in> set js" and I: "?I t"
    with assms(2) have j: "j < length (cands (st_of t))" by simp
    from I have "alloc_inv (st_of t)" by simp
    note b = body_inv [OF this j]
    from I have "(sched_step env params)\<^sup>*\<^sup>* (st_of s) (st_of t)" by simp
    from rtranclp_trans [OF this b(1)] b(2,3) I show "?I (ctl_state (body j t))" by simp
  qed (use assms in simp)
  then show ?thesis by simp
qed

end

interpretation retx: alloc_body env params "retx_step env params" "\<lambda>st. st" for env params
  by unfold_locales (rule retx_step_steps)

interpretation no_data: alloc_body env params "no_data_step env params" "\<lambda>st. st" for env params
  by unfold_locales (rule no_data_step_steps)

interpretation newtx: alloc_body env params "newtx_step env params policy B" fst for env params policy B
  by unfold_locales (rule newtx_step_steps)

lemma alloc_newtx_pf_fst:
  "fst (alloc_newtx_pf env params order policy B st) =
     fst (fst (for_each (newtx_step env params policy B) order (st, 0)))"
  by (simp add: alloc_newtx_pf_def split: prod.splits option.splits)

lemma alloc_newtx_pf_steps:
  assumes "alloc_inv st" and "\<forall>j \<in> set order. j < length (cands st)"
  shows "(sched_step env params)\<^sup>*\<^sup>* st (fst (alloc_newtx_pf env params order policy B st))"
  using newtx.loop_steps [of "(st, 0)" order env params policy B] assms by (simp add: alloc_newtx_pf_fst)

lemma alloc_retx_and_no_data_pf_steps:
  assumes "alloc_inv st" and "\<forall>j \<in> set order. j < length (cands st)"
  shows "(sched_step env params)\<^sup>*\<^sup>* st (alloc_retx_and_no_data_pf env params order st)"
proof -
  obtain st1 r where r: "for_each (retx_step env params) order st = (st1, r)" by fastforce
  have s1: "(sched_step env params)\<^sup>*\<^sup>* st st1"
    using retx.loop_steps [of st order env params] assms r by simp
  then have "alloc_inv st1" "\<forall>j \<in> set order. j < length (cands st1)"
    using sched_steps_inv assms sched_steps_frame(1) by (blast, metis)
  from rtranclp_trans [OF s1 no_data.loop_steps [OF this]] s1 show ?thesis
    by (auto simp: alloc_retx_and_no_data_pf_def r split: option.splits)
qed

lemma slice_loop_steps:
  assumes "alloc_inv st" and "\<forall>j \<in> set order. j < length (cands st)"
  shows "(sched_step env params)\<^sup>*\<^sup>* st (slice_loop env params order is st)"
  using assms
proof (induction "is" arbitrary: st)
  case (Cons i "is")
  let ?st1 = "fst (alloc_newtx_pf env params order (Some i) (slice_budget params (dl_slice_policy (st_mac st) i)) st)"
  have s: "(sched_step env params)\<^sup>*\<^sup>* st ?st1" by (rule alloc_newtx_pf_steps [OF Cons.prems])
  then have "alloc_inv ?st1" "\<forall>j \<in> set order. j < length (cands ?st1)"
    using sched_steps_inv Cons.prems sched_steps_frame(1) by (blast, metis)
  with Cons s show ?case by (auto simp: Let_def intro: rtranclp_trans)
qed simp

lemma set_insert_by [simp]: "set (insert_by cmp x xs) = insert x (set xs)"
  by (induction xs) auto

lemma set_qsort [simp]: "set (qsort cmp xs) = set xs"
  by (induction xs) (auto simp: qsort_def)

lemma build_pf_order_bound: "\<forall>j \<in> set (build_pf_order cs). j < length cs"
  by (auto simp: build_pf_order_def)

text \<open>A candidate array as the collection stage hands it over.\<close>

definition fresh_cands :: "nr_dl_candidate list \<Rightarrow> bool" where
  "fresh_cands cs \<longleftrightarrow> (\<forall>c \<in> set cs. cand_wf c \<and> \<not> scheduled c)"

abbreviation start_state :: "'m gNB_MAC_INST \<Rightarrow> nr_dl_candidate list \<Rightarrow> 'm policy_state" where
  "start_state mac cs \<equiv> \<lparr>st_mac = mac, cands = cs, n_sched = 0\<rparr>"

lemma fresh_alloc_inv: "fresh_cands cs \<Longrightarrow> alloc_inv (start_state mac cs)"
  by (auto simp: fresh_cands_def alloc_inv_def compatible_def)

lemma steps_keep:
  assumes "(sched_step env params)\<^sup>*\<^sup>* st st'" and "alloc_inv st" and "\<forall>j \<in> set order. j < length (cands st)"
  shows "alloc_inv st'" and "\<forall>j \<in> set order. j < length (cands st')"
  using sched_steps_inv [OF assms(1,2)] sched_steps_frame(1) [OF assms(1)] assms(3) by auto

lemma proportional_fair_steps:
  assumes "fresh_cands cs"
  shows "(sched_step env params)\<^sup>*\<^sup>* (start_state mac cs) (nr_dl_proportional_fair env params mac cs)"
proof -
  have i: "alloc_inv (start_state mac cs)" "\<forall>j \<in> set (build_pf_order cs). j < length (cands (start_state mac cs))"
    using fresh_alloc_inv [OF assms] build_pf_order_bound by auto
  note s1 = alloc_retx_and_no_data_pf_steps [OF i]
  from alloc_newtx_pf_steps [OF steps_keep [OF s1 i]] s1 show ?thesis
    unfolding nr_dl_proportional_fair_def Let_def by (rule rtranclp_trans [rotated])
qed

lemma slice_prb_policy_steps:
  assumes "fresh_cands cs"
  shows "(sched_step env params)\<^sup>*\<^sup>* (start_state mac cs) (nr_dl_slice_prb_policy env params mac cs)"
proof (cases "\<not> dl_slice_policy_enabled mac \<or> dl_slice_policy_count mac = 0")
  case True
  then show ?thesis using proportional_fair_steps [OF assms] by (simp add: nr_dl_slice_prb_policy_def)
next
  case False
  have i: "alloc_inv (start_state mac cs)" "\<forall>j \<in> set (build_pf_order cs). j < length (cands (start_state mac cs))"
    using fresh_alloc_inv [OF assms] build_pf_order_bound by auto
  note s1 = alloc_retx_and_no_data_pf_steps [OF i]
  note i1 = steps_keep [OF s1 i]
  note s2 = slice_loop_steps [OF i1]
  note s3 = alloc_newtx_pf_steps [OF steps_keep [OF s2 i1]]
  show ?thesis
    using rtranclp_trans [OF s1 rtranclp_trans [OF s2 s3]] False
    by (simp add: nr_dl_slice_prb_policy_def Let_def)
qed

section \<open>The function pointer \<open>dl_rb_alloc\<close> and its caller\<close>

text \<open>The loop of \<^verbatim>\<open>nr_dl_schedule\<close> over the candidates sorted by beam: one call of the policy for
  each group of neighbours with the same beam. The result is the MAC instance and the array.\<close>

function rb_alloc_groups ::
    "('m mac_env \<Rightarrow> nr_dl_sched_params \<Rightarrow> 'm gNB_MAC_INST \<Rightarrow> nr_dl_candidate list \<Rightarrow> 'm policy_state) \<Rightarrow>
     'm mac_env \<Rightarrow> nr_dl_sched_params \<Rightarrow> 'm gNB_MAC_INST \<Rightarrow> nr_dl_candidate list \<Rightarrow>
     'm gNB_MAC_INST \<times> nr_dl_candidate list" where
  "rb_alloc_groups dl_rb_alloc env params mac [] = (mac, [])"
| "rb_alloc_groups dl_rb_alloc env params mac (c # cs) =
     (let same = (\<lambda>d. alloc_beam_idx d = alloc_beam_idx c);
          st = dl_rb_alloc env params mac (c # takeWhile same cs);
          (mac', rest) = rb_alloc_groups dl_rb_alloc env params (st_mac st) (dropWhile same cs)
      in (mac', cands st @ rest))"
  by pat_completeness auto
termination
  by (relation "measure (\<lambda>(_, _, _, _, cs). length cs)") (auto simp: le_imp_less_Suc length_dropWhile_le)

definition compare_beam_idx :: "nr_dl_candidate \<Rightarrow> nr_dl_candidate \<Rightarrow> int" where
  "compare_beam_idx a b = alloc_beam_idx a - alloc_beam_idx b"

definition dl_rb_alloc_stage ::
    "('m mac_env \<Rightarrow> nr_dl_sched_params \<Rightarrow> 'm gNB_MAC_INST \<Rightarrow> nr_dl_candidate list \<Rightarrow> 'm policy_state) \<Rightarrow>
     'm mac_env \<Rightarrow> nr_dl_sched_params \<Rightarrow> 'm gNB_MAC_INST \<Rightarrow> nr_dl_candidate list \<Rightarrow>
     'm gNB_MAC_INST \<times> nr_dl_candidate list" where
  "dl_rb_alloc_stage dl_rb_alloc env params mac cs =
     rb_alloc_groups dl_rb_alloc env params mac (qsort compare_beam_idx cs)"

text \<open>Beam reservations of candidates that were not scheduled are released afterwards.\<close>

definition release_beams ::
    "NR_beam_info \<Rightarrow> int \<Rightarrow> int \<Rightarrow> int \<Rightarrow> nr_dl_candidate list \<Rightarrow> NR_beam_info" where
  "release_beams bi frameP slotP slots_per_frame cs =
     foldl (\<lambda>bi c. if \<not> scheduled c \<and> \<not> skipped c
                   then reset_beam_status bi frameP slotP (alloc_beam_dir c) slots_per_frame (alloc_new_beam c)
                   else bi) bi cs"

locale rb_alloc_policy =
  fixes policy :: "'m mac_env \<Rightarrow> nr_dl_sched_params \<Rightarrow> 'm gNB_MAC_INST \<Rightarrow> nr_dl_candidate list \<Rightarrow> 'm policy_state"
  assumes policy_steps:
    "fresh_cands cs \<Longrightarrow> (sched_step env params)\<^sup>*\<^sup>* (start_state mac cs) (policy env params mac cs)"
begin

lemma policy_inv: "fresh_cands cs \<Longrightarrow> alloc_inv (policy env params mac cs)"
  by (rule sched_steps_inv [OF policy_steps fresh_alloc_inv])

lemma policy_static:
  assumes "fresh_cands cs"
  shows "length (cands (policy env params mac cs)) = length cs"
    and "k < length cs \<Longrightarrow> same_static (cs ! k) (cands (policy env params mac cs) ! k)"
  using sched_steps_frame [OF policy_steps [OF assms, of env params mac]] by auto

text \<open>All candidates of a group stay on the beam of the group.\<close>

lemma policy_beam:
  assumes "fresh_cands cs" and "\<forall>c \<in> set cs. alloc_beam_idx c = b" and "d \<in> set (cands (policy env params mac cs))"
  shows "alloc_beam_idx d = b"
proof -
  obtain k where k: "k < length (cands (policy env params mac cs))" "d = cands (policy env params mac cs) ! k"
    using assms(3) by (auto simp: in_set_conv_nth)
  with policy_static(1) [OF assms(1)] have "k < length cs" by simp
  with policy_static(2) [OF assms(1) this] assms(2) k(2) show ?thesis by (auto simp: same_static_def)
qed

definition good_result :: "nr_dl_candidate list \<Rightarrow> bool" where
  "good_result ds \<longleftrightarrow> (\<forall>d \<in> set ds. scheduled d \<longrightarrow> in_bwp d) \<and>
     (\<forall>j k. j < length ds \<and> k < length ds \<and> j \<noteq> k \<longrightarrow> compatible (ds ! j) (ds ! k))"

lemma good_result_append:
  assumes "good_result xs" and "good_result ys" and "\<And>x y. x \<in> set xs \<Longrightarrow> y \<in> set ys \<Longrightarrow> compatible x y"
  shows "good_result (xs @ ys)"
proof -
  have "compatible ((xs @ ys) ! j) ((xs @ ys) ! k)"
    if "j < length (xs @ ys)" "k < length (xs @ ys)" "j \<noteq> k" for j k
  proof (cases "j < length xs"; cases "k < length xs")
    assume n: "\<not> j < length xs" "\<not> k < length xs"
    then have "j - length xs < length ys" "k - length xs < length ys" "j - length xs \<noteq> k - length xs"
      using that by auto
    with n assms(2) show ?thesis by (simp add: good_result_def nth_append)
  next
    assume "\<not> j < length xs" "k < length xs"
    with that assms(3) [of "xs ! k" "ys ! (j - length xs)"] show ?thesis
      by (auto simp: nth_append intro: compatible_sym)
  qed (use that assms in \<open>auto simp: good_result_def nth_append\<close>)
  then show ?thesis using assms(1,2) by (auto simp: good_result_def)
qed

lemma groups_good:
  assumes "fresh_cands cs" and "sorted (map alloc_beam_idx cs)"
  shows "good_result (snd (rb_alloc_groups policy env params mac cs))"
    and "\<And>d. d \<in> set (snd (rb_alloc_groups policy env params mac cs)) \<Longrightarrow> \<exists>c \<in> set cs. alloc_beam_idx d = alloc_beam_idx c"
proof -
  have "good_result (snd (rb_alloc_groups policy env params mac cs)) \<and>
    (\<forall>d \<in> set (snd (rb_alloc_groups policy env params mac cs)). \<exists>c \<in> set cs. alloc_beam_idx d = alloc_beam_idx c)"
    using assms
  proof (induction "length cs" arbitrary: cs mac rule: less_induct)
    case less
    show ?case
    proof (cases cs)
      case Nil
      then show ?thesis by (simp add: good_result_def)
    next
      case (Cons c cs')
      let ?same = "\<lambda>d. alloc_beam_idx d = alloc_beam_idx c"
      let ?g = "c # takeWhile ?same cs'" and ?r = "dropWhile ?same cs'"
      let ?st = "policy env params mac ?g"
      let ?res = "snd (rb_alloc_groups policy env params (st_mac ?st) ?r)"
      have g: "fresh_cands ?g" "\<forall>d \<in> set ?g. alloc_beam_idx d = alloc_beam_idx c" and r: "fresh_cands ?r"
        using less.prems(1) Cons
        by (auto simp: fresh_cands_def dest: set_takeWhileD set_dropWhileD)
      have sr: "sorted (map alloc_beam_idx ?r)"
      proof -
        have "sorted (map alloc_beam_idx (takeWhile ?same cs' @ ?r))"
          using less.prems(2) Cons by simp
        then show ?thesis by (simp only: map_append sorted_append)
      qed
      have "length ?r < length cs" using Cons by (simp add: le_imp_less_Suc length_dropWhile_le)
      from less.hyps [OF this r sr] have ih: "good_result ?res"
        "\<forall>d \<in> set ?res. \<exists>c \<in> set ?r. alloc_beam_idx d = alloc_beam_idx c" by auto
      have ne: "alloc_beam_idx d \<noteq> alloc_beam_idx c" if d: "d \<in> set ?r" for d
      proof -
        obtain h t where ht: "?r = h # t" using d by (meson list.set_cases)
        then have "\<not> ?same h" by (simp add: dropWhile_eq_Cons_conv)
        moreover have "h \<in> set cs'" using ht set_dropWhileD [of h ?same cs'] by auto
        moreover have "alloc_beam_idx h \<le> alloc_beam_idx d" using sr ht d by auto
        ultimately show ?thesis using less.prems(2) Cons by fastforce
      qed
      have "good_result (cands ?st)"
        using policy_inv [OF g(1), of env params mac] by (auto simp: good_result_def alloc_inv_def)
      moreover have "compatible x y" if xy: "x \<in> set (cands ?st)" "y \<in> set ?res" for x y
      proof -
        obtain e where "e \<in> set ?r" "alloc_beam_idx y = alloc_beam_idx e" using ih(2) xy(2) by blast
        with ne [of e] policy_beam [OF g xy(1)] show ?thesis by (simp add: compatible_def)
      qed
      ultimately have "good_result (cands ?st @ ?res)" using ih(1) good_result_append by blast
      moreover have "\<exists>c \<in> set cs. alloc_beam_idx d = alloc_beam_idx c" if d: "d \<in> set (cands ?st @ ?res)" for d
      proof (cases "d \<in> set (cands ?st)")
        case True
        from policy_beam [OF g this] Cons show ?thesis by simp
      next
        case False
        with d ih(2) obtain e where "e \<in> set ?r" "alloc_beam_idx d = alloc_beam_idx e" by auto
        then show ?thesis using Cons set_dropWhileD [of e ?same cs'] by auto
      qed
      ultimately show ?thesis using Cons by (auto simp: Let_def split: prod.splits)
    qed
  qed
  then show "good_result (snd (rb_alloc_groups policy env params mac cs))"
    "\<And>d. d \<in> set (snd (rb_alloc_groups policy env params mac cs)) \<Longrightarrow> \<exists>c \<in> set cs. alloc_beam_idx d = alloc_beam_idx c"
    by auto
qed

end

interpretation slice_policy: rb_alloc_policy nr_dl_slice_prb_policy
  by unfold_locales (rule slice_prb_policy_steps)

interpretation pf_policy: rb_alloc_policy nr_dl_proportional_fair
  by unfold_locales (rule proportional_fair_steps)

lemma insert_by_sorted:
  "sorted (map alloc_beam_idx xs) \<Longrightarrow> sorted (map alloc_beam_idx (insert_by compare_beam_idx x xs))"
  by (induction xs) (auto simp: compare_beam_idx_def)

lemma qsort_beam_sorted: "sorted (map alloc_beam_idx (qsort compare_beam_idx cs))"
  by (induction cs) (auto simp: qsort_def insert_by_sorted)

lemma qsort_fresh: "fresh_cands cs \<Longrightarrow> fresh_cands (qsort cmp cs)"
  by (simp add: fresh_cands_def)

end
