(* ===== verification/Slice_Quota.thy ===== *)
theory Slice_Quota
  imports Slice_Safety
begin

text \<open>
  Quantitative properties of the slice PRB policy: the resource blocks new transmissions of a
  slice receive in one call against the dedicated share of the slice, the number of scheduled
  UEs against \<^verbatim>\<open>max_num_ue\<close>, and the installation of policies by
  \<^verbatim>\<open>nr_mac_set_dl_slice_policies\<close>.
\<close>

section \<open>Resource blocks of a slice\<close>

definition slice_newtx :: "nssai_t \<Rightarrow> nr_dl_candidate \<Rightarrow> bool" where
  "slice_newtx ns c \<longleftrightarrow> \<not> is_retx c \<and> pending_bytes c \<noteq> 0 \<and> nssai c = ns"

text \<open>The blocks granted to new transmissions of the UEs of slice \<open>ns\<close>.\<close>

definition slice_rbs :: "nssai_t \<Rightarrow> nr_dl_candidate list \<Rightarrow> int" where
  "slice_rbs ns cs =
     (\<Sum>j<length cs. if scheduled (cs ! j) \<and> slice_newtx ns (cs ! j) then rbSize (sched_pdsch (cs ! j)) else 0)"

text \<open>The budgets of the policies at the indices \<open>is\<close> that serve slice \<open>ns\<close>.\<close>

definition slice_quota :: "nr_dl_sched_params \<Rightarrow> (nat \<Rightarrow> nr_dl_slice_policy_t) \<Rightarrow> nssai_t \<Rightarrow> nat list \<Rightarrow> int" where
  "slice_quota params pols ns is =
     sum_list (map (\<lambda>i. max 0 (slice_budget params (pols i)))
       (filter (\<lambda>i. active (pols i) \<and> dedicated_prb_ratio (pols i) \<noteq> 0 \<and> pol_nssai (pols i) = ns) is))"

lemma nssai_matches_eq: "nssai_matches_policy a b \<longleftrightarrow> a = b"
  by (cases a; cases b) (simp add: nssai_matches_policy_def)

lemma commit_step_slice_rbs:
  assumes "commit_step env params st j s l m = (st', ok)" and "j < length (cands st)"
    and "\<not> scheduled (cands st ! j)"
  shows "slice_rbs ns (cands st') =
           slice_rbs ns (cands st) + (if ok \<and> slice_newtx ns (cands st ! j) then to_u16 l else 0)"
proof -
  note f = commit_step_frame [OF assms(1,2)]
  let ?f = "\<lambda>c. if scheduled c \<and> slice_newtx ns c then rbSize (sched_pdsch c) else 0"
  have "slice_newtx ns (cands st' ! j) = slice_newtx ns (cands st ! j)"
    using f(3) by (simp add: slice_newtx_def same_static_def)
  then have "?f (cands st' ! j) = (if ok \<and> slice_newtx ns (cands st ! j) then to_u16 l else 0)"
    using f(5,7) assms(3) by simp
  moreover have "(\<Sum>k<length (cands st). ?f (cands st' ! k)) =
      (\<Sum>k<length (cands st). ?f (cands st ! k)) - ?f (cands st ! j) + ?f (cands st' ! j)"
    using f(2) assms(2) by (intro sum_point_update) auto
  ultimately show ?thesis using assms(3) by (simp add: slice_rbs_def f(1))
qed

text \<open>The loop of one policy grants its slice at most the budget, and other slices nothing.\<close>

lemma newtx_loop_budget:
  assumes inv: "alloc_inv st" and order: "\<forall>j \<in> set order. j < length (cands st)" and B: "0 < B"
    and p: "pol_nssai (dl_slice_policy (st_mac st) p) = ns"
  shows "slice_rbs ns (cands (fst (alloc_newtx_pf env params order (Some p) B st))) \<le> slice_rbs ns (cands st) + B"
proof -
  let ?I = "\<lambda>(t, u). alloc_inv t \<and> length (cands t) = length (cands st) \<and> same_policies (st_mac st) (st_mac t) \<and>
              slice_rbs ns (cands t) \<le> slice_rbs ns (cands st) + u \<and> 0 \<le> u \<and> u \<le> B"
  let ?Q = "\<lambda>(t, u :: int). slice_rbs ns (cands t) \<le> slice_rbs ns (cands st) + B"
  have "?Q (fst (for_each (newtx_step env params (Some p) B) order (st, 0)))"
  proof (rule for_each_rule [where I = ?I])
    fix j and su :: "'a policy_state \<times> int"
    assume "j \<in> set order" and I: "?I su"
    obtain t u where su: "su = (t, u)" by fastforce
    have j: "j < length (cands t)" using I su order \<open>j \<in> set order\<close> by simp
    have t: "alloc_inv t" "slice_rbs ns (cands t) \<le> slice_rbs ns (cands st) + u" "0 \<le> u" "u \<le> B"
      "same_policies (st_mac st) (st_mac t)" "length (cands t) = length (cands st)" using I su by auto
    have wf: "cand_wf (cands t ! j)" using t(1) j by (simp add: alloc_inv_def)
    have bi: "alloc_inv (fst (ctl_state (newtx_step env params (Some p) B j (t, u))))"
      "length (cands (fst (ctl_state (newtx_step env params (Some p) B j (t, u))))) = length (cands t)"
      "same_policies (st_mac t) (st_mac (fst (ctl_state (newtx_step env params (Some p) B j (t, u)))))"
      using newtx.body_inv [of "(t, u)" j env params "Some p" B] t(1) j sched_steps_frame(2) by auto
    from wf show "case newtx_step env params (Some p) B j su of Continue s' \<Rightarrow> ?I s' | Break s' \<Rightarrow> ?Q s' | Return s' r \<Rightarrow> ?Q s'"
    proof (cases rule: newtx_step_cases [where env = env and params = params and policy = "Some p" and B = B and u = u])
      case (grant s l st' ok)
      have l: "to_u16 l = l" using grant(4,5,6) wf by (simp add: cand_wf_def)
      have r: "slice_rbs ns (cands st') = slice_rbs ns (cands t) + (if ok \<and> slice_newtx ns (cands t ! j) then l else 0)"
        using commit_step_slice_rbs [OF grant(11) j grant(1), of ns] l by simp
      have "nssai (cands t ! j) = ns"
        using grant(9) [of p] p t(5) by (simp add: nssai_matches_eq same_policies_def)
      then have n: "slice_newtx ns (cands t ! j)" using grant(2,3) by (simp add: slice_newtx_def)
      show ?thesis unfolding su
        using bi t r n grant(5,8,12) B same_policies_trans [OF t(5) bi(3)]
        by (cases ok; cases "n_sched st' \<ge> max_num_ue params") auto
    qed (use t B su in auto)
  qed (use inv B in auto)
  then show ?thesis by (simp add: alloc_newtx_pf_fst split: prod.splits)
qed

lemma newtx_loop_other:
  assumes inv: "alloc_inv st" and order: "\<forall>j \<in> set order. j < length (cands st)"
    and other: "\<And>p. policy = Some p \<Longrightarrow> pol_nssai (dl_slice_policy (st_mac st) p) \<noteq> ns"
      "policy = None \<Longrightarrow> find_slice_policy (st_mac st) ns \<noteq> None"
  shows "slice_rbs ns (cands (fst (alloc_newtx_pf env params order policy B st))) = slice_rbs ns (cands st)"
proof -
  let ?I = "\<lambda>(t, u :: int). alloc_inv t \<and> length (cands t) = length (cands st) \<and> same_policies (st_mac st) (st_mac t) \<and>
              slice_rbs ns (cands t) = slice_rbs ns (cands st)"
  have "?I (fst (for_each (newtx_step env params policy B) order (st, 0)))"
  proof (rule for_each_invariant [where I = ?I])
    fix j and su :: "'a policy_state \<times> int"
    assume "j \<in> set order" and I: "?I su"
    obtain t u where su: "su = (t, u)" by fastforce
    have j: "j < length (cands t)" using I su order \<open>j \<in> set order\<close> by simp
    have t: "alloc_inv t" "slice_rbs ns (cands t) = slice_rbs ns (cands st)"
      "same_policies (st_mac st) (st_mac t)" "length (cands t) = length (cands st)" using I su by auto
    have wf: "cand_wf (cands t ! j)" using t(1) j by (simp add: alloc_inv_def)
    have bi: "alloc_inv (fst (ctl_state (newtx_step env params policy B j (t, u))))"
      "length (cands (fst (ctl_state (newtx_step env params policy B j (t, u))))) = length (cands t)"
      "same_policies (st_mac t) (st_mac (fst (ctl_state (newtx_step env params policy B j (t, u)))))"
      using newtx.body_inv [of "(t, u)" j env params policy B] t(1) j sched_steps_frame(2) by auto
    have "slice_rbs ns (cands (fst (ctl_state (newtx_step env params policy B j (t, u))))) = slice_rbs ns (cands st)"
      using wf
    proof (cases rule: newtx_step_cases [where env = env and params = params and policy = policy and B = B and u = u])
      case (grant s l st' ok)
      have "find_slice_policy (st_mac t) ns = find_slice_policy (st_mac st) ns"
        "dl_slice_policy (st_mac t) = dl_slice_policy (st_mac st)"
        using t(3) by (auto simp: find_slice_policy_def same_policies_def)
      then have "nssai (cands t ! j) \<noteq> ns"
        using grant(9,10) other by (cases policy) (auto simp: nssai_matches_eq)
      then have "\<not> slice_newtx ns (cands t ! j)" by (simp add: slice_newtx_def)
      then have "slice_rbs ns (cands st') = slice_rbs ns (cands t)"
        using commit_step_slice_rbs [OF grant(11) j grant(1), of ns] by simp
      then show ?thesis using t(2) grant(12) by (cases ok; cases "n_sched st' \<ge> max_num_ue params") auto
    qed (use t in auto)
    then show "?I (ctl_state (newtx_step env params policy B j su))"
      using bi t same_policies_trans [OF t(3) bi(3)] su by (auto split: prod.splits)
  qed (use inv in auto)
  then show ?thesis by (simp add: alloc_newtx_pf_fst split: prod.splits)
qed

lemma retx_no_data_slice_rbs:
  assumes "alloc_inv st" and "\<forall>j \<in> set order. j < length (cands st)"
  shows "slice_rbs ns (cands (alloc_retx_and_no_data_pf env params order st)) = slice_rbs ns (cands st)"
proof -
  let ?I = "\<lambda>t. length (cands t) = length (cands st) \<and> slice_rbs ns (cands t) = slice_rbs ns (cands st)"
  have step: "?I t'"
    if "j \<in> set order" "?I t"
      "t' = t \<or>
       (\<exists>s l m ok. commit_step env params t j s l m = (t', ok) \<and> \<not> scheduled (cands t ! j) \<and>
          \<not> slice_newtx ns (cands t ! j))" for j t t'
  proof -
    have j: "j < length (cands t)" using that assms(2) by simp
    show ?thesis
      using that(2,3) commit_step_slice_rbs [OF _ j, where ns = ns] commit_step_frame(1) [OF _ j] by auto
  qed
  have r: "ctl_state (retx_step env params j t) = t \<or>
       (\<exists>s l m ok. commit_step env params t j s l m = (ctl_state (retx_step env params j t), ok) \<and>
          \<not> scheduled (cands t ! j) \<and> \<not> slice_newtx ns (cands t ! j))" for j t
    by (auto simp: retx_step_def Let_def slice_newtx_def split: option.splits prod.splits)
  have n: "ctl_state (no_data_step env params j t) = t \<or>
       (\<exists>s l m ok. commit_step env params t j s l m = (ctl_state (no_data_step env params j t), ok) \<and>
          \<not> scheduled (cands t ! j) \<and> \<not> slice_newtx ns (cands t ! j))" for j t
    by (auto simp: no_data_step_def Let_def slice_newtx_def word_gt_0 split: option.splits prod.splits)
  obtain st1 x where x: "for_each (retx_step env params) order st = (st1, x)" by fastforce
  have "?I (fst (for_each (retx_step env params) order st))"
  proof (rule for_each_invariant)
    show "?I (ctl_state (retx_step env params j t))" if "j \<in> set order" "?I t" for j t
      by (rule step [OF that r [of j t]])
  qed simp
  then have 1: "?I st1" by (simp add: x)
  have 2: "?I (fst (for_each (no_data_step env params) order st1))"
  proof (rule for_each_invariant)
    show "?I (ctl_state (no_data_step env params j t))" if "j \<in> set order" "?I t" for j t
      by (rule step [OF that n [of j t]])
  qed (use 1 in simp)
  show ?thesis using 1 2 by (auto simp: alloc_retx_and_no_data_pf_def x split: option.splits)
qed

lemma slice_loop_quota:
  assumes "alloc_inv st" and "\<forall>j \<in> set order. j < length (cands st)"
  shows "slice_rbs ns (cands (slice_loop env params order is st)) \<le>
           slice_rbs ns (cands st) + slice_quota params (dl_slice_policy (st_mac st)) ns is"
  using assms
proof (induction "is" arbitrary: st)
  case (Cons i "is")
  let ?p = "dl_slice_policy (st_mac st) i"
  let ?b = "slice_budget params ?p"
  let ?st1 = "fst (alloc_newtx_pf env params order (Some i) ?b st)"
  note s = alloc_newtx_pf_steps [OF Cons.prems, where env = env and params = params and policy = "Some i" and B = ?b]
  note k = steps_keep [OF s Cons.prems]
  have pol: "dl_slice_policy (st_mac ?st1) = dl_slice_policy (st_mac st)"
    using sched_steps_frame(2) [OF s] by (auto simp: same_policies_def)
  have one: "slice_rbs ns (cands ?st1) \<le> slice_rbs ns (cands st) + (if pol_nssai ?p = ns then ?b else 0)" if "0 < ?b"
    using newtx_loop_budget [OF Cons.prems that] newtx_loop_other [OF Cons.prems, of "Some i"] by auto
  show ?case
  proof (cases "active ?p \<and> dedicated_prb_ratio ?p \<noteq> 0 \<and> 0 < ?b")
    case True
    with one have "slice_rbs ns (cands ?st1) \<le> slice_rbs ns (cands st) + (if pol_nssai ?p = ns then ?b else 0)" by simp
    moreover have "slice_rbs ns (cands (slice_loop env params order is ?st1)) \<le>
        slice_rbs ns (cands ?st1) + slice_quota params (dl_slice_policy (st_mac st)) ns is"
      using Cons.IH [OF k] pol by simp
    ultimately show ?thesis using True by (auto simp: slice_quota_def Let_def)
  next
    case False
    then show ?thesis
      using Cons.IH [OF Cons.prems] by (auto simp: slice_quota_def Let_def max_def)
  qed
qed (simp add: slice_quota_def)

lemma find_slice_policy_same: "same_policies m m' \<Longrightarrow> find_slice_policy m' ns = find_slice_policy m ns"
  by (auto simp: find_slice_policy_def same_policies_def)

lemma find_slice_policy_enabled: "find_slice_policy mac ns \<noteq> None \<Longrightarrow> dl_slice_policy_enabled mac \<and> dl_slice_policy_count mac \<noteq> 0"
  by (auto simp: find_slice_policy_def split: if_splits)

lemma slice_policy_quota:
  assumes "fresh_cands cs" and "find_slice_policy mac ns \<noteq> None"
  shows "slice_rbs ns (cands (nr_dl_slice_prb_policy env params mac cs)) \<le>
           slice_quota params (dl_slice_policy mac) ns [0..<nat (dl_slice_policy_count mac)]"
proof -
  have i: "alloc_inv (start_state mac cs)" "\<forall>j \<in> set (build_pf_order cs). j < length (cands (start_state mac cs))"
    using fresh_alloc_inv [OF assms(1)] build_pf_order_bound by auto
  let ?o = "build_pf_order cs" and ?is = "[0..<nat (dl_slice_policy_count mac)]"
  let ?st1 = "alloc_retx_and_no_data_pf env params ?o (start_state mac cs)"
  let ?st2 = "slice_loop env params ?o ?is ?st1"
  note s1 = alloc_retx_and_no_data_pf_steps [OF i, of env params]
  note i1 = steps_keep [OF s1 i]
  note s2 = slice_loop_steps [OF i1, of env params ?is]
  note i2 = steps_keep [OF s2 i1]
  have pol: "same_policies mac (st_mac ?st1)" using sched_steps_frame(2) [OF s1] by simp
  have "same_policies mac (st_mac ?st2)" using sched_steps_frame(2) [OF s2] pol same_policies_trans by blast
  note same = find_slice_policy_same [OF this]
  have "slice_rbs ns (cands (fst (alloc_newtx_pf env params ?o None 0 ?st2))) = slice_rbs ns (cands ?st2)"
    using assms(2) same by (intro newtx_loop_other [OF i2]) auto
  also have "\<dots> \<le> slice_rbs ns (cands ?st1) + slice_quota params (dl_slice_policy (st_mac ?st1)) ns ?is"
    by (rule slice_loop_quota [OF i1])
  also have "slice_rbs ns (cands ?st1) = slice_rbs ns cs"
    using retx_no_data_slice_rbs [OF i, of ns env params] by simp
  also have "slice_rbs ns cs = 0" using assms(1) by (auto simp: slice_rbs_def fresh_cands_def)
  also have "dl_slice_policy (st_mac ?st1) = dl_slice_policy mac" using pol by (simp add: same_policies_def)
  finally show ?thesis
    using find_slice_policy_enabled [OF assms(2)] by (simp add: nr_dl_slice_prb_policy_def Let_def)
qed

section \<open>Number of scheduled UEs\<close>

lemma retx_step_count:
  "case retx_step env params j st of
     Continue st' \<Rightarrow> n_sched st' = n_sched st \<or> n_sched st' = n_sched st + 1 \<and> n_sched st' < max_num_ue params
   | Break st' \<Rightarrow> False | Return st' r \<Rightarrow> n_sched st' = n_sched st + 1"
  if "j < length (cands st)"
  using commit_step_frame(8) [OF _ that]
  by (auto simp: retx_step_def Let_def not_le split: option.splits prod.splits)

lemma no_data_step_count:
  "case no_data_step env params j st of
     Continue st' \<Rightarrow> n_sched st' = n_sched st \<or> n_sched st' = n_sched st + 1 \<and> n_sched st' < max_num_ue params
   | Break st' \<Rightarrow> False | Return st' r \<Rightarrow> n_sched st' = n_sched st + 1"
  if "j < length (cands st)"
  using commit_step_frame(8) [OF _ that]
  by (auto simp: no_data_step_def Let_def not_le split: option.splits prod.splits)

lemma newtx_step_count:
  "case newtx_step env params policy B j (st, u) of
     Continue (st', u') \<Rightarrow> n_sched st' = n_sched st \<or> n_sched st' = n_sched st + 1 \<and> n_sched st' < max_num_ue params
   | Break (st', u') \<Rightarrow> n_sched st' = n_sched st | Return (st', u') r \<Rightarrow> n_sched st' = n_sched st + 1"
  if "j < length (cands st)"
  using commit_step_frame(8) [OF _ that]
  by (auto simp: newtx_step_def Let_def not_le split: option.splits prod.splits)

text \<open>
  The macro \<^verbatim>\<open>COMMIT_ALLOC\<close> returns from the enclosing loop as soon as
  \<^verbatim>\<open>max_num_ue\<close> is reached, so one loop commits at most one UE beyond it.
\<close>

lemma newtx_loop_count:
  assumes inv: "alloc_inv st" and order: "\<forall>j \<in> set order. j < length (cands st)"
  shows "n_sched (fst (alloc_newtx_pf env params order policy B st)) \<le> max (n_sched st + 1) (max_num_ue params)"
proof -
  let ?I = "\<lambda>(t, u :: int). alloc_inv t \<and> length (cands t) = length (cands st) \<and>
              n_sched t \<le> max (n_sched st) (max_num_ue params - 1)"
  let ?Q = "\<lambda>(t :: 'a policy_state, u :: int). n_sched t \<le> max (n_sched st + 1) (max_num_ue params)"
  have "?Q (fst (for_each (newtx_step env params policy B) order (st, 0)))"
  proof (rule for_each_rule [where I = ?I])
    fix j and su :: "'a policy_state \<times> int"
    assume "j \<in> set order" and I: "?I su"
    obtain t u where su: "su = (t, u)" by fastforce
    have j: "j < length (cands t)" and t: "alloc_inv t" "length (cands t) = length (cands st)"
      using I su order \<open>j \<in> set order\<close> by auto
    have bi: "alloc_inv (fst (ctl_state (newtx_step env params policy B j (t, u))))"
      "length (cands (fst (ctl_state (newtx_step env params policy B j (t, u))))) = length (cands t)"
      using newtx.body_inv [of "(t, u)" j env params policy B] t(1) j sched_steps_frame(2) by auto
    show "case newtx_step env params policy B j su of Continue s' \<Rightarrow> ?I s' | Break s' \<Rightarrow> ?Q s' | Return s' r \<Rightarrow> ?Q s'"
      using newtx_step_count [OF j, where env = env and params = params and policy = policy and B = B and u = u] I bi t unfolding su
      by (auto split: ctl.splits)
  qed (use inv in auto)
  then show ?thesis by (simp add: alloc_newtx_pf_fst split: prod.splits)
qed

lemma retx_no_data_count:
  assumes inv: "alloc_inv st" and order: "\<forall>j \<in> set order. j < length (cands st)"
  shows "n_sched (alloc_retx_and_no_data_pf env params order st) \<le> max (n_sched st + 1) (max_num_ue params)"
proof -
  let ?M = "max_num_ue params"
  let ?I = "\<lambda>t. alloc_inv t \<and> length (cands t) = length (cands st) \<and> n_sched t \<le> max (n_sched st) (?M - 1)"
  let ?Q = "\<lambda>(t, r). (case r of None \<Rightarrow> ?I t | Some _ \<Rightarrow> True) \<and> n_sched t \<le> max (n_sched st + 1) ?M"
  have loop: "?Q (for_each body order t)"
    if "?I t" and count: "\<And>j t. j < length (cands t) \<Longrightarrow> (case body j t of
         Continue st' \<Rightarrow> n_sched st' = n_sched t \<or> n_sched st' = n_sched t + 1 \<and> n_sched st' < ?M
       | Break st' \<Rightarrow> False | Return st' (r :: int) \<Rightarrow> n_sched st' = n_sched t + 1)"
      and keep: "\<And>j t. alloc_inv t \<Longrightarrow> j < length (cands t) \<Longrightarrow>
         alloc_inv (ctl_state (body j t)) \<and> length (cands (ctl_state (body j t))) = length (cands t)"
    for body t
    using order \<open>?I t\<close>
  proof (induction order arbitrary: t)
    case (Cons j xs)
    have j: "j < length (cands t)" using Cons.prems by simp
    have k: "alloc_inv (ctl_state (body j t))" "length (cands (ctl_state (body j t))) = length (cands st)"
      using keep [of t j] j Cons.prems by auto
    show ?case
    proof (cases "body j t")
      case (Continue t')
      have "?I t'" using k count [OF j] Continue Cons.prems(2) by auto
      then show ?thesis using Cons.IH [of t'] Cons.prems(1) Continue by simp
    qed (use count [OF j] Cons.prems in auto)
  qed auto
  have 1: "?Q (for_each (retx_step env params) order st)"
    using inv retx_step_count retx.body_inv by (intro loop) auto
  show ?thesis
  proof (cases "for_each (retx_step env params) order st")
    case (Pair st1 x)
    show ?thesis
    proof (cases x)
      case None
      have "?Q (for_each (no_data_step env params) order st1)"
        using 1 None Pair no_data_step_count no_data.body_inv by (intro loop) auto
      then show ?thesis using Pair None by (auto simp: alloc_retx_and_no_data_pf_def split: prod.splits)
    qed (use 1 Pair in \<open>auto simp: alloc_retx_and_no_data_pf_def\<close>)
  qed
qed

lemma slice_loop_count:
  assumes "alloc_inv st" and "\<forall>j \<in> set order. j < length (cands st)" and "max_num_ue params \<le> N" "n_sched st \<le> N"
  shows "n_sched (slice_loop env params order is st) \<le> N + int (length is)"
  using assms
proof (induction "is" arbitrary: st N)
  case (Cons i "is")
  let ?b = "slice_budget params (dl_slice_policy (st_mac st) i)"
  let ?st1 = "fst (alloc_newtx_pf env params order (Some i) ?b st)"
  note s = alloc_newtx_pf_steps [OF Cons.prems(1,2), where env = env and params = params and policy = "Some i" and B = ?b]
  have "n_sched ?st1 \<le> N + 1"
    using newtx_loop_count [OF Cons.prems(1,2), of env params "Some i" ?b] Cons.prems(3,4) by simp
  then have "n_sched (slice_loop env params order is ?st1) \<le> N + 1 + int (length is)"
    using Cons.prems(3) by (intro Cons.IH steps_keep [OF s Cons.prems(1,2)]) auto
  moreover have "n_sched (slice_loop env params order is st) \<le> N + int (length is)"
    by (intro Cons.IH Cons.prems)
  ultimately show ?case by (simp add: Let_def)
qed simp

lemma proportional_fair_count:
  assumes "fresh_cands cs" and "1 \<le> max_num_ue params"
  shows "n_sched (nr_dl_proportional_fair env params mac cs) \<le> max_num_ue params + 1"
proof -
  have i: "alloc_inv (start_state mac cs)" "\<forall>j \<in> set (build_pf_order cs). j < length (cands (start_state mac cs))"
    using fresh_alloc_inv [OF assms(1)] build_pf_order_bound by auto
  note s1 = alloc_retx_and_no_data_pf_steps [OF i, of env params]
  have "n_sched (alloc_retx_and_no_data_pf env params (build_pf_order cs) (start_state mac cs)) \<le> max_num_ue params"
    using retx_no_data_count [OF i, of env params] assms(2) by simp
  then show ?thesis
    using newtx_loop_count [OF steps_keep [OF s1 i], of env params None 0]
    by (simp add: nr_dl_proportional_fair_def Let_def)
qed

lemma slice_policy_count:
  assumes "fresh_cands cs" and "1 \<le> max_num_ue params" and "0 \<le> dl_slice_policy_count mac"
  shows "n_sched (nr_dl_slice_prb_policy env params mac cs) \<le> max_num_ue params + dl_slice_policy_count mac + 1"
proof -
  have i: "alloc_inv (start_state mac cs)" "\<forall>j \<in> set (build_pf_order cs). j < length (cands (start_state mac cs))"
    using fresh_alloc_inv [OF assms(1)] build_pf_order_bound by auto
  let ?o = "build_pf_order cs" and ?is = "[0..<nat (dl_slice_policy_count mac)]"
  let ?st1 = "alloc_retx_and_no_data_pf env params ?o (start_state mac cs)"
  note s1 = alloc_retx_and_no_data_pf_steps [OF i, of env params]
  note i1 = steps_keep [OF s1 i]
  note s2 = slice_loop_steps [OF i1, of env params ?is]
  have "n_sched ?st1 \<le> max_num_ue params"
    using retx_no_data_count [OF i, of env params] assms(2) by simp
  then have "n_sched (slice_loop env params ?o ?is ?st1) \<le> max_num_ue params + dl_slice_policy_count mac"
    using slice_loop_count [OF i1, of params "max_num_ue params" env ?is] assms(3) by simp
  then have "n_sched (fst (alloc_newtx_pf env params ?o None 0 (slice_loop env params ?o ?is ?st1)))
      \<le> max_num_ue params + dl_slice_policy_count mac + 1"
    using newtx_loop_count [OF steps_keep [OF s2 i1], of env params None 0] assms(3) by linarith
  then show ?thesis
    using proportional_fair_count [OF assms(1,2), of env mac] assms(3)
    by (simp add: nr_dl_slice_prb_policy_def Let_def)
qed

section \<open>Budgets of all policies together\<close>

lemma c_div_share_le:
  assumes "0 \<le> n" and "\<forall>p \<in> set ps. 0 \<le> r p" and "sum_list (map r ps) \<le> (100 :: int)"
  shows "sum_list (map (\<lambda>p. c_div (n * r p) 100) ps) \<le> n"
proof -
  have "100 * sum_list (map (\<lambda>p. c_div (n * r p) 100) ps) \<le> n * sum_list (map r ps)"
    using assms(1,2)
  proof (induction ps)
    case (Cons p ps)
    have "0 \<le> n * r p" using Cons.prems by simp
    then have "100 * c_div (n * r p) 100 \<le> n * r p"
      by (cases "n * r p = 0") (auto simp: c_div_def sgn_if mult.commute)
    then show ?case using Cons by (simp add: distrib_left)
  qed simp
  also have "\<dots> \<le> n * 100" using assms(1,3) by (rule mult_left_mono [rotated])
  finally show ?thesis by simp
qed

text \<open>When the dedicated ratios add up to at most 100, the budgets fit the available blocks.\<close>

lemma slice_budget_sum:
  assumes "\<forall>b. 0 \<le> b \<and> b < num_beams params \<longrightarrow> 0 \<le> n_rb_avail params b"
    and "sum_list (map (uint \<circ> dedicated_prb_ratio) ps) \<le> 100"
  shows "sum_list (map (slice_budget params) ps) \<le> sum_list (map (n_rb_avail params) [0..num_beams params - 1])"
proof -
  have swap: "sum_list (map (slice_budget params) ps) =
      sum_list (map (\<lambda>b. sum_list (map (\<lambda>p. c_div (n_rb_avail params b * uint (dedicated_prb_ratio p)) 100) ps)) bs)"
    if "bs = [0..num_beams params - 1]" for bs
    unfolding slice_budget_def that [symmetric]
    by (induction ps) (simp_all add: sum_list_addf)
  have "sum_list (map (\<lambda>b. sum_list (map (\<lambda>p. c_div (n_rb_avail params b * uint (dedicated_prb_ratio p)) 100) ps)) [0..num_beams params - 1])
      \<le> sum_list (map (n_rb_avail params) [0..num_beams params - 1])"
    using assms by (intro sum_list_mono c_div_share_le) (auto simp: comp_def)
  then show ?thesis using swap [OF refl] by simp
qed

section \<open>Installing policies\<close>

lemma set_policies_loop_ok:
  assumes "\<forall>p \<in> set ps. valid_slice_ratios p"
  shows "set_policies_loop i ps mac =
    (mac\<lparr>dl_slice_policy := (\<lambda>k. if i \<le> k \<and> k < i + length ps then (ps ! (k - i))\<lparr>active := True\<rparr>
                               else dl_slice_policy mac k)\<rparr>, True)"
  using assms
proof (induction ps arbitrary: i mac)
  case (Cons p ps)
  have "(\<lambda>k. if Suc i \<le> k \<and> k < Suc i + length ps then (ps ! (k - Suc i))\<lparr>active := True\<rparr>
            else ((dl_slice_policy mac)(i := p\<lparr>active := True\<rparr>)) k) =
        (\<lambda>k. if i \<le> k \<and> k < i + length (p # ps) then ((p # ps) ! (k - i))\<lparr>active := True\<rparr> else dl_slice_policy mac k)"
    (is "?f = ?g")
  proof
    fix k
    show "?f k = ?g k"
    proof (cases "k < i")
      case False
      then obtain d where "k = i + d" using le_Suc_ex not_less by blast
      then show ?thesis by (cases d) auto
    qed simp
  qed
  then show ?case using Cons by (simp cong: if_cong)
next
  case Nil
  show ?case by (cases mac) (simp add: linorder_not_le [symmetric])
qed

lemma set_policies_loop_fail:
  assumes "\<forall>p \<in> set ps. valid_slice_ratios p" and "\<not> valid_slice_ratios q"
  shows "set_policies_loop i (ps @ q # qs) mac = (fst (set_policies_loop i ps mac), False)"
  using assms by (induction ps arbitrary: i mac) auto

end
