(* ===== verification/Dl_Scheduler_Properties.thy ===== *)
theory Dl_Scheduler_Properties
  imports Slice_Quota
begin

text \<open>
  The properties of the downlink scheduler: the slice quota, freedom from double booking, the
  number of scheduled UEs, the installation of policies, and the resource block and transport
  block primitives. A small cell (section \<open>Scenario\<close>) shows that the hypotheses can be met:
  one beam, a bandwidth part of six resource blocks and one slice policy.
\<close>

section \<open>Scenario\<close>

definition scn_nssai :: "u8 \<Rightarrow> nssai_t" where
  "scn_nssai s = \<lparr>sst = s, sd = 0\<rparr>"

definition scn_pdcch :: NR_sched_pdcch where
  "scn_pdcch = \<lparr>pdcch_BWPStart = 0, StartSymbolIndex = 0, RegBundleSize = 6, InterleaverSize = 0,
                ShiftIndex = 0, DurationSymbols = 3, n_rb = 48\<rparr>"

definition scn_tda :: NR_tda_info where
  "scn_tda = \<lparr>mapping_type = 0, startSymbolIndex = 1, nrOfSymbols = 13, valid_tda = True\<rparr>"

definition scn_pdsch :: NR_sched_pdsch where
  "scn_pdsch = \<lparr>rbSize = 0, rbStart = 0, mcs = 9, pdsch_R = 0, pdsch_Qm = 0, tb_size = 0,
                pucch_allocation = -1, pm_index = 0, nrOfLayers = 1, time_domain_allocation = 0,
                tda_info = scn_tda\<rparr>"

definition scn_UE :: "int \<Rightarrow> NR_UE_info" where
  "scn_UE r = \<lparr>rnti = r, ta_apply = False, aggregation_level = 2, ue_sched_pdcch = scn_pdcch,
               dl_cce_fail = 0, available_dl_harq_head = 0, harq_sched_pdsch = (\<lambda>_. scn_pdsch),
               dl_bler_mcs = 9, UE_beam_index = 0, BWPSize = 6, downlinkHARQ_FeedbackDisabled_r17 = None\<rparr>"

definition scn_cand :: "int \<Rightarrow> bool \<Rightarrow> u32 \<Rightarrow> u8 \<Rightarrow> nr_dl_candidate" where
  "scn_cand r retx bytes s =
     \<lparr>UE = scn_UE r, is_retx = retx, retx_harq_pid = 0, retx_rbSize = 1, pending_bytes = bytes,
      pending_bytes_per_lcid = (\<lambda>_. 0), avg_throughput = 1, bler = 0, current_mcs = 9, max_mcs = 28,
      last_num_sched = 0, bler_updated = False, mcs_table = 0, bwp_start = 0, bwp_size = 6,
      nssai = scn_nssai s, skipped = False, scheduled = False, csi_ri = 0, csi_pm_index = 0,
      sched_pdsch = scn_pdsch, alloc_slbitmap = 16382, alloc_beam_dir = 0, alloc_beam_idx = 0,
      alloc_new_beam = False, alloc_cce_index = 0, alloc_aggregation_level = 2,
      alloc_sched_pdcch = scn_pdcch\<rparr>"

definition scn_env :: "unit mac_env" where
  "scn_env = \<lparr>get_cce_index = (\<lambda>_ _ _. (0, 1, scn_pdcch)), nr_get_pucch_resource = (\<lambda>_ _. 0),
     nr_acknack_scheduling = (\<lambda>_ _ _ _. ((), 0)), dl_dmrs_prb = (\<lambda>_ _ _. 12),
     get_pm_index = (\<lambda>_ _ _. 0), get_dl_tda = (\<lambda>_ _. 0), get_dl_tda_info = (\<lambda>_ _ _. scn_tda)\<rparr>"

definition scn_policy :: "u8 \<Rightarrow> u8 \<Rightarrow> nr_dl_slice_policy_t" where
  "scn_policy s r = \<lparr>active = True, pol_nssai = scn_nssai s, min_prb_ratio = 0, max_prb_ratio = 100,
                     dedicated_prb_ratio = r\<rparr>"

definition scn_mac :: "unit gNB_MAC_INST" where
  "scn_mac = \<lparr>dl_slice_policy = (\<lambda>i. if i = 0 then scn_policy 1 60 else zero_slice_policy),
     dl_slice_policy_count = 1, dl_slice_policy_enabled = True, dl_slice_policy_prb_used = (\<lambda>_. 0),
     dl_slice_policy_last_log_frame = 0,
     dl_bler = \<lparr>opt_lower = 0, opt_upper = 1, opt_min_mcs = 0, opt_max_mcs = 28, harq_round_max = 4\<rparr>,
     vrb_maps = (\<lambda>_ _. 0), mac_rest = ()\<rparr>"

definition scn_params :: "int \<Rightarrow> nr_dl_sched_params" where
  "scn_params n = \<lparr>frame = 0, slot = 0, num_beams = 1, max_num_ue = n, n_rb_avail = (\<lambda>_. 10)\<rparr>"

definition scn_cands :: "nr_dl_candidate list" where
  "scn_cands = [scn_cand 1 True 0 1, scn_cand 2 False 10 1]"

lemma scn_fresh: "fresh_cands scn_cands"
  by (simp add: scn_cands_def scn_cand_def fresh_cands_def cand_wf_def)

lemma scn_has_policy: "find_slice_policy scn_mac (scn_nssai 1) \<noteq> None"
  by (simp add: find_slice_policy_def find_slice_policy_index_def scn_mac_def scn_policy_def
      nssai_matches_policy_def)

section \<open>Slices\<close>

text \<open>
  C1: in one call of the slice PRB policy, new transmissions of the UEs of a slice that has an
  active policy get at most the budget of the policies of that slice: the sum over the beams of the
  available resource blocks times the dedicated ratio, divided by 100.
\<close>

theorem slice_quota_respected:
  assumes "fresh_cands cs" and "find_slice_policy mac ns \<noteq> None"
  shows "slice_rbs ns (cands (nr_dl_slice_prb_policy env params mac cs)) \<le>
           slice_quota params (dl_slice_policy mac) ns [0..<nat (dl_slice_policy_count mac)]"
  by (rule slice_policy_quota [OF assms])

theorem slice_quota_respected_witness:
  "slice_rbs (scn_nssai 1) (cands (nr_dl_slice_prb_policy scn_env (scn_params 4) scn_mac scn_cands)) \<le> 6"
proof -
  have "slice_quota (scn_params 4) (dl_slice_policy scn_mac) (scn_nssai 1) [0..<nat (dl_slice_policy_count scn_mac)] = 6"
    by code_simp
  with slice_quota_respected [OF scn_fresh scn_has_policy, of scn_env "scn_params 4"] show ?thesis by simp
qed

text \<open>
  C2: the resource block allocation stage of the downlink scheduler with the slice PRB policy, run
  beam by beam on fresh candidates: every scheduled UE gets a nonempty block inside its bandwidth
  part, and two scheduled UEs on the same beam with common symbols share no resource block.
\<close>

theorem slice_stage_no_overlap:
  assumes "fresh_cands cs" and "dl_rb_alloc_stage nr_dl_slice_prb_policy env params mac cs = (mac', ds)"
  shows "(\<forall>d \<in> set ds. scheduled d \<longrightarrow> in_bwp d) \<and>
    (\<forall>j k. j < length ds \<and> k < length ds \<and> j \<noteq> k \<longrightarrow> compatible (ds ! j) (ds ! k))"
  using slice_policy.groups_good(1) [OF qsort_fresh [OF assms(1)] qsort_beam_sorted, of env params mac] assms(2)
  by (simp add: dl_rb_alloc_stage_def slice_policy.good_result_def)

theorem slice_stage_no_overlap_witness:
  "\<exists>mac' ds. dl_rb_alloc_stage nr_dl_slice_prb_policy scn_env (scn_params 4) scn_mac scn_cands = (mac', ds) \<and>
     (\<forall>d \<in> set ds. scheduled d \<longrightarrow> in_bwp d)"
proof -
  obtain mac' ds where "dl_rb_alloc_stage nr_dl_slice_prb_policy scn_env (scn_params 4) scn_mac scn_cands = (mac', ds)"
    by fastforce
  with slice_stage_no_overlap [OF scn_fresh this] show ?thesis by blast
qed

text \<open>
  The same for the proportional fair policy without slices.
\<close>

theorem pf_stage_no_overlap:
  assumes "fresh_cands cs" and "dl_rb_alloc_stage nr_dl_proportional_fair env params mac cs = (mac', ds)"
  shows "(\<forall>d \<in> set ds. scheduled d \<longrightarrow> in_bwp d) \<and>
    (\<forall>j k. j < length ds \<and> k < length ds \<and> j \<noteq> k \<longrightarrow> compatible (ds ! j) (ds ! k))"
  using pf_policy.groups_good(1) [OF qsort_fresh [OF assms(1)] qsort_beam_sorted, of env params mac] assms(2)
  by (simp add: dl_rb_alloc_stage_def pf_policy.good_result_def)

theorem pf_stage_no_overlap_witness:
  "\<exists>mac' ds. dl_rb_alloc_stage nr_dl_proportional_fair scn_env (scn_params 4) scn_mac scn_cands = (mac', ds) \<and>
     (\<forall>d \<in> set ds. scheduled d \<longrightarrow> in_bwp d)"
proof -
  obtain mac' ds where "dl_rb_alloc_stage nr_dl_proportional_fair scn_env (scn_params 4) scn_mac scn_cands = (mac', ds)"
    by fastforce
  with pf_stage_no_overlap [OF scn_fresh this] show ?thesis by blast
qed

text \<open>
  The number of UEs the slice policy schedules exceeds \<^verbatim>\<open>max_num_ue\<close> by at most one
  for each policy and one for the UEs without policy.
\<close>

theorem scheduled_ue_bound:
  assumes "fresh_cands cs" and "1 \<le> max_num_ue params" and "0 \<le> dl_slice_policy_count mac"
  shows "n_sched (nr_dl_slice_prb_policy env params mac cs) \<le> max_num_ue params + dl_slice_policy_count mac + 1"
  by (rule slice_policy_count [OF assms])

theorem scheduled_ue_bound_witness:
  "n_sched (nr_dl_slice_prb_policy scn_env (scn_params 1) scn_mac scn_cands) \<le> 3"
  using scheduled_ue_bound [OF scn_fresh, of "scn_params 1" scn_mac scn_env]
  by (simp add: scn_params_def scn_mac_def)

text \<open>
  C32: \<^verbatim>\<open>max_num_ue\<close> can be exceeded: the loop of a policy that is entered with one UE scheduled
  and \<^verbatim>\<open>max_num_ue\<close> = 1 schedules a second one.
\<close>

theorem max_num_ue_exceeded:
  "n_sched (fst (alloc_newtx_pf scn_env (scn_params 1) [0] (Some 0) 6
     \<lparr>st_mac = scn_mac, cands = [scn_cand 2 False 10 1], n_sched = 1\<rparr>)) = 2"
  by code_simp

text \<open>
  A UE for which no CCE is found is not scheduled but uses up the budget of its slice: the
  \<^verbatim>\<open>continue\<close> of \<^verbatim>\<open>COMMIT_ALLOC\<close> only leaves the \<^verbatim>\<open>do ... while (0)\<close> of the macro, so
  the blocks of the failed allocation are added to the used budget.
\<close>

theorem failed_commit_uses_budget:
  "let (st, used) = alloc_newtx_pf (scn_env\<lparr>get_cce_index := (\<lambda>_ _ _. (-1, 1, scn_pdcch))\<rparr>) (scn_params 4) [0] (Some 0) 6
     \<lparr>st_mac = scn_mac, cands = [scn_cand 2 False 10 1], n_sched = 0\<rparr>
   in n_sched st = 0 \<and> used = 5 \<and> dl_slice_policy_prb_used (st_mac st) 0 = 5"
  by code_simp

text \<open>
  When the dedicated ratios of some policies add up to at most 100, their budgets together are
  at most the resource blocks available over all beams.
\<close>

theorem slice_budgets_fit:
  assumes "\<forall>b. 0 \<le> b \<and> b < num_beams params \<longrightarrow> 0 \<le> n_rb_avail params b"
    and "sum_list (map (uint \<circ> dedicated_prb_ratio) ps) \<le> 100"
  shows "sum_list (map (slice_budget params) ps) \<le> sum_list (map (n_rb_avail params) [0..num_beams params - 1])"
  by (rule slice_budget_sum [OF assms])

theorem slice_budgets_fit_witness:
  "sum_list (map (slice_budget (scn_params 4)) [scn_policy 1 60, scn_policy 2 40]) \<le> 10"
  using slice_budgets_fit [of "scn_params 4" "[scn_policy 1 60, scn_policy 2 40]"]
  by (simp add: scn_params_def scn_policy_def upto.simps)

section \<open>Installing policies\<close>

text \<open>
  C35: \<^verbatim>\<open>nr_mac_set_dl_slice_policies\<close> with at most \<^verbatim>\<open>MAX_NUM_SLICES\<close> valid policies succeeds:
  exactly these policies are active afterwards, the statistics are reset, the count is their
  number and the policy is enabled iff there is one.
\<close>

theorem set_policies_installs:
  assumes "int (length ps) \<le> MAX_NUM_SLICES" and "\<forall>p \<in> set ps. valid_slice_ratios p"
  shows "\<exists>mac'. nr_mac_set_dl_slice_policies (Some mac) ps = (Some mac', True) \<and>
    (\<forall>k. dl_slice_policy mac' k = (if k < length ps then (ps ! k)\<lparr>active := True\<rparr> else zero_slice_policy)) \<and>
    dl_slice_policy_count mac' = int (length ps) \<and> dl_slice_policy_enabled mac' = (ps \<noteq> []) \<and>
    (\<forall>k. dl_slice_policy_prb_used mac' k = 0) \<and> vrb_maps mac' = vrb_maps mac"
  using assms by (simp add: nr_mac_set_dl_slice_policies_def Let_def set_policies_loop_ok)

theorem set_policies_installs_witness:
  "\<exists>mac'. nr_mac_set_dl_slice_policies (Some scn_mac) [scn_policy 1 60, scn_policy 2 40] = (Some mac', True) \<and>
     dl_slice_policy_count mac' = 2"
  using set_policies_installs [of "[scn_policy 1 60, scn_policy 2 40]" scn_mac]
  by (auto simp: MAX_NUM_SLICES_def scn_policy_def valid_slice_ratios_def)

text \<open>
  A rejected call of \<^verbatim>\<open>nr_mac_set_dl_slice_policies\<close> is not without effect: with the first
  invalid policy at index \<open>length ps\<close>, the valid policies before it are installed and all others
  cleared, while count and enable flag keep their old values.
\<close>

theorem set_policies_rejection_partial:
  assumes "int (length (ps @ q # qs)) \<le> MAX_NUM_SLICES" and "\<forall>p \<in> set ps. valid_slice_ratios p"
    and "\<not> valid_slice_ratios q"
  shows "\<exists>mac'. nr_mac_set_dl_slice_policies (Some mac) (ps @ q # qs) = (Some mac', False) \<and>
    (\<forall>k. dl_slice_policy mac' k = (if k < length ps then (ps ! k)\<lparr>active := True\<rparr> else zero_slice_policy)) \<and>
    dl_slice_policy_count mac' = dl_slice_policy_count mac \<and>
    dl_slice_policy_enabled mac' = dl_slice_policy_enabled mac"
  using assms by (simp add: nr_mac_set_dl_slice_policies_def Let_def set_policies_loop_fail set_policies_loop_ok)

theorem set_policies_rejection_partial_witness:
  "\<exists>mac'. nr_mac_set_dl_slice_policies (Some scn_mac) [scn_policy 2 101] = (Some mac', False) \<and>
     dl_slice_policy mac' 0 = zero_slice_policy \<and> dl_slice_policy_enabled mac'"
  using set_policies_rejection_partial [of "[]" "scn_policy 2 101" "[]" scn_mac]
  by (auto simp: MAX_NUM_SLICES_def scn_policy_def valid_slice_ratios_def scn_mac_def)

section \<open>Resource block search\<close>

text \<open>
  C32: \<^verbatim>\<open>find_largest_free_block\<close> returns a block of free resource blocks inside the bandwidth
  part, and no free block of the bandwidth part is longer.
\<close>

theorem find_largest_free_block_maximal:
  assumes "find_largest_free_block m msk bs sz = (s, l)"
  shows "0 \<le> s \<and> 0 \<le> l \<and> (0 < l \<longrightarrow> s + l \<le> sz) \<and> run (\<lambda>i. rb_free m msk (i + bs)) s l \<and>
    (\<forall>s' l'. 0 \<le> s' \<and> s' + l' \<le> sz \<and> run (\<lambda>i. rb_free m msk (i + bs)) s' l' \<longrightarrow> l' \<le> l)"
  using find_largest_free_block_spec [OF assms] by blast

theorem find_largest_free_block_maximal_witness:
  "run (\<lambda>i. rb_free ((\<lambda>_. 0)(2 := 1)) 1 (i + 0)) 3 5"
proof -
  have "find_largest_free_block ((\<lambda>_. 0)(2 := 1)) 1 0 8 = (3, 5)" by code_simp
  from find_largest_free_block_maximal [OF this] show ?thesis by blast
qed

text \<open>
  C35: \<^verbatim>\<open>get_rb_alloc\<close> finds a free block of at least the wanted and at most the maximal length
  inside the bandwidth part if there is one, and fails otherwise.
\<close>

theorem get_rb_alloc_correct:
  assumes "1 \<le> mn" and "mn \<le> mx"
  shows "case get_rb_alloc mn mx bs sz m msk of
      Some (s, l) \<Rightarrow> 0 \<le> s \<and> mn \<le> l \<and> l \<le> mx \<and> s + l \<le> sz \<and> run (\<lambda>rb. rb_free m msk (bs + rb)) s l
    | None \<Rightarrow> \<not> (\<exists>s. 0 \<le> s \<and> s + mn \<le> sz \<and> run (\<lambda>rb. rb_free m msk (bs + rb)) s mn)"
proof (cases "get_rb_alloc mn mx bs sz m msk")
  case None
  then show ?thesis
    using get_rb_alloc_loop_complete [where ?s0.0 = 0 and mn = mn and mx = mx] assms by (auto simp: get_rb_alloc_def)
next
  case (Some sl)
  obtain s l where "sl = (s, l)" by fastforce
  with Some get_rb_alloc_loop_sound [where ?s0.0 = 0 and mn = mn and mx = mx] assms show ?thesis
    by (auto simp: get_rb_alloc_def)
qed

theorem get_rb_alloc_correct_witness:
  "run (\<lambda>rb. rb_free ((\<lambda>_. 0)(1 := 1)) 1 (0 + rb)) 2 4"
proof -
  have "get_rb_alloc 3 4 0 8 ((\<lambda>_. 0)(1 := 1)) 1 = Some (2, 4)" by code_simp
  with get_rb_alloc_correct [of 3 4, where bs = 0 and sz = 8 and m = "(\<lambda>_. 0)(1 := 1)" and msk = 1] show ?thesis by simp
qed

section \<open>Transport blocks\<close>

text \<open>
  The transport block size \<^verbatim>\<open>nr_compute_tbs\<close> returns is a whole number of bytes, for every
  modulation order, code rate and allocation.
\<close>

theorem tbs_whole_bytes:
  "unat (nr_compute_tbs Qm R nb_rb nb_symb_sch nb_dmrs_prb nb_rb_oh tb_scaling Nl) mod 8 = 0"
  using tbs_small_dvd8 tbs_large_dvd8
  by (auto simp: nr_compute_tbs_def Let_def dvd_eq_mod_eq_0)

text \<open>
  For the downlink (no transform precoding) \<^verbatim>\<open>nr_find_nb_rb\<close> returns a number of resource
  blocks in the given range; it reports success exactly when the maximum carries the bytes, then the
  transport block of the returned number carries them too and, unless it fits exactly or is the
  minimum, one block less would not.
\<close>

theorem nr_find_nb_rb_downlink:
  assumes "unat mn \<le> unat mx" and "tbs = (\<lambda>n. drop_bit 3 (nr_compute_tbs Qm R (of_nat n) sy dm 0 0 nl))"
  shows "\<exists>ok t n. nr_find_nb_rb Qm R 1 nl sy dm bytes mn mx = Some (ok, t, n) \<and>
    unat mn \<le> n \<and> n \<le> unat mx \<and> t = tbs n \<and> (ok \<longleftrightarrow> bytes \<le> tbs (unat mx)) \<and>
    (ok \<longrightarrow> bytes \<le> t \<and> (n = unat mn \<or> t = bytes \<or> tbs (n - 1) < bytes)) \<and> (\<not> ok \<longrightarrow> n = unat mx)"
proof -
  from find_nb_rb_dl [OF assms(1), of tbs bytes] obtain ok t n where
    r: "find_nb_rb tbs False bytes (unat mn) (unat mx) = Some (ok, t, n)"
    and p: "unat mn \<le> n" "n \<le> unat mx" "t = tbs n" "ok \<longleftrightarrow> bytes \<le> tbs (unat mx)" "ok \<longrightarrow> bytes \<le> t"
      "\<not> ok \<longrightarrow> n = unat mx" "ok \<longrightarrow> n = unat mn \<or> t = bytes \<or> tbs (n - 1) < bytes" by blast
  have "nr_find_nb_rb Qm R 1 nl sy dm bytes mn mx = Some (ok, t, n)"
    using r by (simp add: nr_find_nb_rb_def assms(2))
  with p show ?thesis by blast
qed

theorem nr_find_nb_rb_downlink_witness:
  "\<exists>ok t n. nr_find_nb_rb 2 6790 1 1 13 12 200 5 106 = Some (ok, t, n) \<and> 5 \<le> n \<and> n \<le> 106"
  using nr_find_nb_rb_downlink [of 5 106 "\<lambda>n. drop_bit 3 (nr_compute_tbs 2 6790 (of_nat n) 13 12 0 0 1)" 2 6790 13 12 1 200]
  by auto

text \<open>
  With transform precoding, where only products of powers of 2, 3 and 5 are allowed,
  \<^verbatim>\<open>nr_find_nb_rb\<close> terminates for positive bounds.
\<close>

theorem nr_find_nb_rb_uplink_returns:
  assumes "1 \<le> unat mn" and "unat mn \<le> unat mx"
  shows "nr_find_nb_rb Qm R 0 nl sy dm bytes mn mx \<noteq> None"
proof -
  from assms obtain m where m: "dec_to_2_3_5 (unat mx) = Some m" "1 \<le> m" "multiple_2_3_5 m = Some True"
    using dec_to_2_3_5_returns [of "unat mx"] by fastforce
  have "\<exists>h. find_nb_rb_search f True bytes m (unat mn) = Some h" for f
  proof (cases "unat mn < m")
    case True
    then show ?thesis using find_nb_rb_search_returns [OF assms(1) True m(3), of f bytes] by auto
  qed (simp add: find_nb_rb_search.simps)
  then have "find_nb_rb f True bytes (unat mn) (unat mx) \<noteq> None" for f
    using m(1) by (auto simp: find_nb_rb_def dest: meta_spec [of _ f])
  then show ?thesis by (simp add: nr_find_nb_rb_def)
qed

theorem nr_find_nb_rb_uplink_returns_witness:
  "nr_find_nb_rb 2 6790 0 1 13 12 200 5 106 \<noteq> None"
  using nr_find_nb_rb_uplink_returns [of 5 106] by simp

section \<open>Beams and modulation\<close>

text \<open>
  Reserving a beam for a slot is idempotent: after a successful reservation of a beam, the same
  request gives the same entry again and reserves nothing new.
\<close>

theorem beam_allocation_idempotent:
  assumes "beam_allocation_procedure bi f s b spf = (bi', r)" and "idx r \<noteq> -1" and "b \<noteq> -1"
  shows "beam_allocation_procedure bi' f s b spf = (bi', \<lparr>new_beam = False, idx = idx r\<rparr>)"
proof (cases "beam_mode bi = NO_BEAM_MODE")
  case True
  then show ?thesis using assms(1) by (auto simp: beam_allocation_procedure_def)
next
  case False
  let ?ix = "get_beam_index bi f s spf" and ?is = "[0..beams_per_period bi - 1]"
  obtain al where al: "beam_scan (beam_allocation bi) ?ix b ?is = (al, r)" "bi' = bi\<lparr>beam_allocation := al\<rparr>"
    using assms(1) False by (auto simp: beam_allocation_procedure_def Let_def split: prod.splits)
  have "get_beam_index bi' f s spf = ?ix" by (simp add: get_beam_index_def al(2))
  with beam_scan_again [OF al(1) assms(2,3)] False al(2) show ?thesis
    by (simp add: beam_allocation_procedure_def)
qed

definition scn_beams :: NR_beam_info where
  "scn_beams = \<lparr>beam_allocation = (\<lambda>_ _. -1), beam_duration = 1, beams_per_period = 2,
                beam_allocation_size = 10, beam_mode = PRECONFIGURED_BEAM_IDX\<rparr>"

theorem beam_allocation_idempotent_witness:
  "\<exists>bi' r. beam_allocation_procedure scn_beams 0 3 7 20 = (bi', r) \<and>
     beam_allocation_procedure bi' 0 3 7 20 = (bi', \<lparr>new_beam = False, idx = 0\<rparr>)"
proof -
  obtain bi' r where r: "beam_allocation_procedure scn_beams 0 3 7 20 = (bi', r)" by fastforce
  then have "idx r = 0" by (auto simp: beam_allocation_procedure_def scn_beams_def upto.simps)
  with beam_allocation_idempotent [OF r] r show ?thesis by auto
qed

text \<open>
  A released beam can take another reservation with it. Two UEs use beam 5 through different
  entries of the same slot, because the first entry became free in between; releasing the new
  reservation also clears the older one.
\<close>

theorem beam_release_clears_other_reservation:
  "(let bi = scn_beams\<lparr>beam_allocation := (\<lambda>i j. if i = 1 \<and> j = 3 then 5 else -1)\<rparr>;
        (bi', r) = beam_allocation_procedure bi 0 3 5 20;
        bi'' = reset_beam_status bi' 0 3 5 20 (new_beam r)
    in get_allocated_beam bi 0 3 20 1 = 5 \<and> new_beam r \<and> idx r = 0 \<and> get_allocated_beam bi'' 0 3 20 1 = -1)"
  by (simp add: scn_beams_def beam_allocation_procedure_def reset_beam_status_def get_allocated_beam_def
      get_beam_index_def upto.simps c_div_def c_mod_def)

text \<open>
  The MCS adaptation stays in the configured range and moves the MCS by at most one step when
  the current one lies in the range.
\<close>

theorem mcs_adaptation_bounded:
  assumes "mn \<le> mx" and "mn \<le> cur" and "cur \<le> mx"
  shows "mn \<le> nr_adapt_mcs_from_bler cur mn mx b lo hi n \<and> nr_adapt_mcs_from_bler cur mn mx b lo hi n \<le> mx \<and>
    \<bar>nr_adapt_mcs_from_bler cur mn mx b lo hi n - cur\<bar> \<le> 1"
  using assms by (auto simp: nr_adapt_mcs_from_bler_def Let_def)

theorem mcs_adaptation_bounded_witness:
  "nr_adapt_mcs_from_bler 9 0 28 (1/20) (5/100) (15/100) 10 \<le> 28"
  using mcs_adaptation_bounded [of 0 28 9 "1/20" "5/100" "15/100" 10] by simp

end
