(* ===== verification/C_String.thy ===== *)
theory C_String
  imports Prelude
begin

text \<open>
  The part of the C library that the RC slice xApp and the gNB handler of its messages use on
  text: character tests of the C locale, \<^verbatim>\<open>strstr\<close>, \<^verbatim>\<open>strchr\<close>, \<^verbatim>\<open>strtol\<close> and
  \<^verbatim>\<open>strtoul\<close> with base 0 (64 bit \<^verbatim>\<open>long\<close>), and the decimal output of \<^verbatim>\<open>%d\<close>.

  A buffer is a list of characters followed by zero bytes, as \<^verbatim>\<open>calloc\<close> leaves them; a
  pointer into it is an index. \<open>chr_at s i\<close> is \<^verbatim>\<open>s[i]\<close>.
\<close>

section \<open>Buffers\<close>

definition NUL :: char where
  "NUL = CHR 0x00"

definition chr_at :: "string \<Rightarrow> nat \<Rightarrow> char" where
  "chr_at s i = (if i < length s then s ! i else NUL)"

text \<open>The C string that starts a buffer.\<close>

definition c_str :: "string \<Rightarrow> string" where
  "c_str s = takeWhile (\<lambda>c. c \<noteq> NUL) s"

definition isspace :: "char \<Rightarrow> bool" where
  "isspace c \<longleftrightarrow> c = CHR '' '' \<or> (9 \<le> (of_char c :: nat) \<and> (of_char c :: nat) \<le> 13)"

definition isdigit :: "char \<Rightarrow> bool" where
  "isdigit c \<longleftrightarrow> 48 \<le> (of_char c :: nat) \<and> (of_char c :: nat) \<le> 57"

lemma chr_at_bound: "chr_at s i \<noteq> NUL \<Longrightarrow> i < length s"
  by (auto simp: chr_at_def split: if_splits)

lemma c_str_no_NUL: "NUL \<notin> set (c_str s)"
  by (auto simp: c_str_def dest: set_takeWhileD)

lemma c_str_id: "NUL \<notin> set s \<Longrightarrow> c_str s = s"
  by (auto simp: c_str_def takeWhile_eq_all_conv)

section \<open>Search\<close>

definition matches_at :: "string \<Rightarrow> nat \<Rightarrow> string \<Rightarrow> bool" where
  "matches_at s i needle \<longleftrightarrow> take (length needle) (drop i s) = needle"

function strstr :: "string \<Rightarrow> nat \<Rightarrow> string \<Rightarrow> nat option" where
  "strstr s i needle =
     (if matches_at s i needle then Some i
      else if chr_at s i = NUL then None
      else strstr s (Suc i) needle)"
  by pat_completeness auto
termination
  by (relation "measure (\<lambda>(s, i, _). length s - i)") (auto dest!: chr_at_bound)

function strchr :: "string \<Rightarrow> nat \<Rightarrow> char \<Rightarrow> nat option" where
  "strchr s i c =
     (if chr_at s i = c then Some i
      else if chr_at s i = NUL then None
      else strchr s (Suc i) c)"
  by pat_completeness auto
termination
  by (relation "measure (\<lambda>(s, i, _). length s - i)") (auto dest!: chr_at_bound)

declare strstr.simps [simp del] strchr.simps [simp del]

lemma matches_at_length: "matches_at s i needle \<Longrightarrow> needle \<noteq> [] \<Longrightarrow> i + length needle \<le> length s"
  by (cases "i \<le> length s") (auto simp: matches_at_def dest: arg_cong [where f = length])

lemma strstr_Some:
  "strstr s i needle = Some j \<Longrightarrow> i \<le> j \<and> matches_at s j needle"
proof (induction s i needle rule: strstr.induct)
  case (1 s i needle)
  from "1.prems" show ?case
    by (subst (asm) strstr.simps) (auto split: if_splits dest: "1.IH")
qed

lemma strchr_Some:
  "strchr s i c = Some j \<Longrightarrow> i \<le> j \<and> chr_at s j = c \<and> (\<forall>k. i \<le> k \<and> k < j \<longrightarrow> chr_at s k \<noteq> c)"
proof (induction s i c rule: strchr.induct)
  case (1 s i c)
  show ?case
  proof (cases "chr_at s i = c")
    case True
    then show ?thesis using "1.prems" by (subst (asm) strchr.simps) auto
  next
    case False
    with "1.prems" have n: "chr_at s i \<noteq> NUL" and "strchr s (Suc i) c = Some j"
      by (subst (asm) strchr.simps, auto split: if_splits)+
    from "1.IH" [OF False n this(2)] False show ?thesis
      by (metis Suc_leD Suc_leI le_neq_implies_less)
  qed
qed

function skip_while :: "(char \<Rightarrow> bool) \<Rightarrow> string \<Rightarrow> nat \<Rightarrow> nat" where
  "skip_while P s i = (if i < length s \<and> P (s ! i) then skip_while P s (Suc i) else i)"
  by pat_completeness auto
termination
  by (relation "measure (\<lambda>(_, s, i). length s - i)") auto

declare skip_while.simps [simp del]

lemma skip_while_ge: "i \<le> skip_while P s i"
  by (induction P s i rule: skip_while.induct) (subst skip_while.simps, auto)

section \<open>Numbers\<close>

text \<open>The value of a digit, if it is one below the base.\<close>

definition digit_val :: "nat \<Rightarrow> char \<Rightarrow> nat option" where
  "digit_val base c =
     (let n = of_char c :: nat;
          v = (if 48 \<le> n \<and> n \<le> 57 then n - 48
               else if 97 \<le> n \<and> n \<le> 122 then n - 87
               else if 65 \<le> n \<and> n \<le> 90 then n - 55 else 99)
      in if v < base then Some v else None)"

fun digits_val :: "nat \<Rightarrow> nat \<Rightarrow> string \<Rightarrow> nat \<times> nat" where
  "digits_val base acc [] = (acc, 0)"
| "digits_val base acc (c # cs) =
     (case digit_val base c of
        None \<Rightarrow> (acc, 0)
      | Some v \<Rightarrow> (let (r, n) = digits_val base (base * acc + v) cs in (r, Suc n)))"

text \<open>
  The subject sequence of \<^verbatim>\<open>strtol\<close> and \<^verbatim>\<open>strtoul\<close> with base 0 on the text at \<open>i\<close>: sign,
  magnitude, and the index after it; \<open>None\<close> when there is none. A prefix \<^verbatim>\<open>0x\<close> counts
  only when a hexadecimal digit follows.
\<close>

definition subject :: "string \<Rightarrow> (bool \<times> nat \<times> nat) option" where
  "subject t =
     (let w = length (takeWhile isspace t); t1 = drop w t;
          neg = (t1 \<noteq> [] \<and> hd t1 = CHR ''-'');
          sg = (if t1 \<noteq> [] \<and> (hd t1 = CHR ''-'' \<or> hd t1 = CHR ''+'') then 1 else 0);
          t2 = drop sg t1;
          hex = (3 \<le> length t2 \<and> t2 ! 0 = CHR ''0'' \<and> (t2 ! 1 = CHR ''x'' \<or> t2 ! 1 = CHR ''X'') \<and>
                 digit_val 16 (t2 ! 2) \<noteq> None);
          base = (if hex then 16 else if t2 \<noteq> [] \<and> hd t2 = CHR ''0'' then 8 else 10);
          px = (if hex then 2 else 0);
          (v, n) = digits_val base 0 (drop px t2)
      in if n = 0 then None else Some (neg, v, w + sg + px + n))"

text \<open>Results: the value, the number of characters consumed and whether \<^verbatim>\<open>errno\<close> is \<^verbatim>\<open>ERANGE\<close>.\<close>

definition strtol :: "string \<Rightarrow> int \<times> nat \<times> bool" where
  "strtol t =
     (case subject t of
        None \<Rightarrow> (0, 0, False)
      | Some (neg, v, n) \<Rightarrow>
          (let x = (if neg then - int v else int v)
           in if x < - (2 ^ 63) then (- (2 ^ 63), n, True)
              else if x > 2 ^ 63 - 1 then (2 ^ 63 - 1, n, True)
              else (x, n, False)))"

definition strtoul :: "string \<Rightarrow> int \<times> nat \<times> bool" where
  "strtoul t =
     (case subject t of
        None \<Rightarrow> (0, 0, False)
      | Some (neg, v, n) \<Rightarrow>
          if int v > 2 ^ 64 - 1 then (2 ^ 64 - 1, n, True)
          else ((if neg then (- int v) mod 2 ^ 64 else int v), n, False))"

text \<open>The digits \<^verbatim>\<open>%d\<close> prints.\<close>

fun dec_digits :: "nat \<Rightarrow> string" where
  "dec_digits n = (if n < 10 then [char_of (48 + n)] else dec_digits (n div 10) @ [char_of (48 + n mod 10)])"

declare dec_digits.simps [simp del]

definition print_int :: "int \<Rightarrow> string" where
  "print_int x = (if x < 0 then CHR ''-'' # dec_digits (nat (- x)) else dec_digits (nat x))"

section \<open>Printed numbers are read back\<close>

lemma digit_val_digit: "d < 10 \<Longrightarrow> digit_val 10 (char_of (48 + d)) = Some d"
  by (simp add: digit_val_def)

lemma digits_val_append:
  "digits_val b acc xs = (r, length xs) \<Longrightarrow>
   digits_val b acc (xs @ ys) = (let (r', n) = digits_val b r ys in (r', length xs + n))"
proof (induction xs arbitrary: acc)
  case (Cons c cs)
  then show ?case by (auto simp: Let_def split: option.splits prod.splits)
qed (simp split: prod.splits)

lemma digits_val_dec: "digits_val 10 0 (dec_digits n) = (n, length (dec_digits n))"
proof (induction n rule: dec_digits.induct)
  case (1 n)
  show ?case
  proof (cases "n < 10")
    case True
    then show ?thesis by (subst (1 2) dec_digits.simps) (simp add: digit_val_digit)
  next
    case False
    from digits_val_append [OF "1.IH" [OF False]] False show ?thesis
      by (subst (1 2) dec_digits.simps) (simp add: digit_val_digit)
  qed
qed

lemma char_of_48: "char_of (48 :: nat) = CHR ''0''"
  using char_of_char [of "CHR ''0''"] by simp

lemma dec_digits_shape:
  "dec_digits n \<noteq> []" "set (dec_digits n) \<subseteq> (\<lambda>d. char_of (48 + d)) ` {..<10 :: nat}"
  "hd (dec_digits n) = CHR ''0'' \<longleftrightarrow> n = 0"
proof -
  have "dec_digits n \<noteq> [] \<and> set (dec_digits n) \<subseteq> (\<lambda>d. char_of (48 + d)) ` {..<10 :: nat} \<and>
    (hd (dec_digits n) = CHR ''0'' \<longleftrightarrow> n = 0)"
  proof (induction n rule: dec_digits.induct)
    case (1 n)
    show ?case
    proof (cases "n < 10")
      case True
      have "char_of (48 + n) = CHR ''0'' \<longleftrightarrow> n = 0"
      proof
        assume "char_of (48 + n) = CHR ''0''"
        then have "of_char (char_of (48 + n) :: char) = (48 :: nat)" by simp
        then show "n = 0" using True by simp
      qed (simp add: char_of_48)
      then show ?thesis using True by (auto simp: dec_digits.simps [of n])
    next
      case False
      then show ?thesis using "1.IH" [OF False] by (auto simp: dec_digits.simps [of n])
    qed
  qed
  then show "dec_digits n \<noteq> []" "set (dec_digits n) \<subseteq> (\<lambda>d. char_of (48 + d)) ` {..<10 :: nat}"
    "hd (dec_digits n) = CHR ''0'' \<longleftrightarrow> n = 0" by auto
qed

lemma digit_not_special:
  assumes "d < (10 :: nat)"
  shows "\<not> isspace (char_of (48 + d))" "char_of (48 + d) \<noteq> CHR ''-''" "char_of (48 + d) \<noteq> CHR ''+''"
    "char_of (48 + d) \<noteq> NUL"
proof -
  have o: "of_char c = 48 + d" if "char_of (48 + d) = c" for c :: char
    using assms that by auto
  show "\<not> isspace (char_of (48 + d))" using o [of "CHR '' ''"] assms by (auto simp: isspace_def)
  show "char_of (48 + d) \<noteq> CHR ''-''" "char_of (48 + d) \<noteq> CHR ''+''" "char_of (48 + d) \<noteq> NUL"
    using o [of "CHR ''-''"] o [of "CHR ''+''"] o [of NUL] by (auto simp: NUL_def)
qed

lemma subject_dec: "subject (dec_digits n) = Some (False, n, length (dec_digits n))"
proof -
  obtain c cs where t: "dec_digits n = c # cs" using dec_digits_shape(1) by (meson list.exhaust)
  then obtain d :: nat where d: "d < 10" "c = char_of (48 + d)" using dec_digits_shape(2) [of n] by auto
  note c = digit_not_special [OF d(1), folded d(2)]
  show ?thesis
  proof (cases "n = 0")
    case True
    then have "dec_digits n = ''0''" by (simp add: dec_digits.simps char_of_48)
    then show ?thesis using True by (simp add: subject_def isspace_def digit_val_def)
  next
    case False
    then have "c \<noteq> CHR ''0''" using dec_digits_shape(3) [of n] t by simp
    then show ?thesis using c digits_val_dec [of n] by (simp add: subject_def t Let_def)
  qed
qed

lemma strtoul_print:
  "0 \<le> x \<Longrightarrow> x < 2 ^ 64 \<Longrightarrow> strtoul (print_int x) = (x, length (print_int x), False)"
  by (simp add: strtoul_def print_int_def subject_dec)

lemma strtol_print:
  "0 \<le> x \<Longrightarrow> x < 2 ^ 63 \<Longrightarrow> strtol (print_int x) = (x, length (print_int x), False)"
  by (simp add: strtol_def print_int_def subject_dec)

lemma strtoul_range: "strtoul t = (v, n, e) \<Longrightarrow> 0 \<le> v \<and> v < 2 ^ 64"
  by (auto simp: strtoul_def Let_def split: option.splits if_splits prod.splits)

lemma dec_digits_no_NUL: "NUL \<notin> set (dec_digits n)"
  using dec_digits_shape(2) [of n] digit_not_special(4) by fastforce

lemma print_int_no_NUL: "NUL \<notin> set (print_int x)"
  using dec_digits_no_NUL by (auto simp: print_int_def) (simp add: NUL_def)

section \<open>A terminating zero does not matter\<close>

lemma NUL_no_digit: "b \<le> 16 \<Longrightarrow> digit_val b NUL = None"
  by (simp add: digit_val_def NUL_def)

lemma digits_val_NUL: "b \<le> 16 \<Longrightarrow> digits_val b acc (t @ [NUL]) = digits_val b acc t"
  by (induction t arbitrary: acc) (auto simp: NUL_no_digit split: option.splits)

lemma takeWhile_isspace_NUL: "takeWhile isspace (t @ [NUL]) = takeWhile isspace t"
  by (induction t) (auto simp: isspace_def NUL_def)

lemma subject_NUL: "subject (t @ [NUL]) = subject t"
proof -
  let ?w = "length (takeWhile isspace t)"
  obtain t1 where t1: "drop ?w t = t1" "drop ?w (t @ [NUL]) = t1 @ [NUL]"
    by (simp add: length_takeWhile_le)
  have sg: "(t1 @ [NUL] \<noteq> [] \<and> hd (t1 @ [NUL]) = c) = (t1 \<noteq> [] \<and> hd t1 = c)" if "c \<noteq> NUL" for c
    using that by (cases t1) auto
  let ?sg = "if t1 \<noteq> [] \<and> (hd t1 = CHR ''-'' \<or> hd t1 = CHR ''+'') then 1 else 0 :: nat"
  obtain t2 where t2: "drop ?sg t1 = t2" "drop ?sg (t1 @ [NUL]) = t2 @ [NUL]"
    by (cases t1) auto
  have nul: "CHR ''-'' \<noteq> NUL" "CHR ''+'' \<noteq> NUL" "CHR ''0'' \<noteq> NUL" by (simp_all add: NUL_def)
  have h0: "(t2 @ [NUL] \<noteq> [] \<and> hd (t2 @ [NUL]) = CHR ''0'') = (t2 \<noteq> [] \<and> hd t2 = CHR ''0'')"
    using nul(3) by (cases t2) auto
  let ?hex = "\<lambda>t. 3 \<le> length t \<and> t ! 0 = CHR ''0'' \<and> (t ! 1 = CHR ''x'' \<or> t ! 1 = CHR ''X'') \<and> digit_val 16 (t ! 2) \<noteq> None"
  have hex: "?hex (t2 @ [NUL]) = ?hex t2"
    by (cases "length t2 = 2") (auto simp: nth_append NUL_no_digit numeral_3_eq_3 not_le)
  have dv: "digits_val (if ?hex t2 then 16 else if t2 \<noteq> [] \<and> hd t2 = CHR ''0'' then 8 else 10) 0 (drop (if ?hex t2 then 2 else 0) (t2 @ [NUL]))
     = digits_val (if ?hex t2 then 16 else if t2 \<noteq> [] \<and> hd t2 = CHR ''0'' then 8 else 10) 0 (drop (if ?hex t2 then 2 else 0) t2)"
    by (cases "?hex t2") (auto simp: digits_val_NUL)
  have sg2: "(t1 @ [NUL] \<noteq> [] \<and> (hd (t1 @ [NUL]) = CHR ''-'' \<or> hd (t1 @ [NUL]) = CHR ''+'')) =
      (t1 \<noteq> [] \<and> (hd t1 = CHR ''-'' \<or> hd t1 = CHR ''+''))"
    using sg [OF nul(1)] sg [OF nul(2)] by blast
  show ?thesis
    unfolding subject_def Let_def takeWhile_isspace_NUL t1 sg [OF nul(1)] sg2 t2 hex h0 dv ..
qed

lemma strtoul_NUL: "strtoul (t @ [NUL]) = strtoul t"
  by (simp add: strtoul_def subject_NUL)

end
