(* ===== verification/Rc_Message.thy ===== *)
theory Rc_Message
  imports C_String
begin

text \<open>
  The E2SM-RC control message data of FlexRIC (\<^verbatim>\<open>flexric/src/sm/rc_sm/ie/ir\<close>) with its
  comparison, deep copy and release functions, and byte arrays
  (\<^verbatim>\<open>flexric/src/util/byte_array.c\<close>).

  C code that can abort or run into undefined behaviour returns an \<open>outcome\<close>: \<open>Abort\<close> is a
  failed \<^verbatim>\<open>assert\<close>, \<open>Fault\<close> an access through a null pointer or behind the end of an array,
  \<open>Rejected\<close> the early \<^verbatim>\<open>return false\<close> of a parser. Memory exhaustion is not modelled. Structures
  carry the size field and the array pointer separately, as in C, with \<open>None\<close> for the null
  pointer.
\<close>

section \<open>Outcomes\<close>

datatype 'a outcome = Fault | Abort | Rejected | Done 'a

primrec bind_o :: "'a outcome \<Rightarrow> ('a \<Rightarrow> 'b outcome) \<Rightarrow> 'b outcome" where
  "bind_o Fault f = Fault"
| "bind_o Abort f = Abort"
| "bind_o Rejected f = Rejected"
| "bind_o (Done x) f = f x"

definition c_assert :: "bool \<Rightarrow> 'a outcome \<Rightarrow> 'a outcome" where
  "c_assert b k = (if b then k else Abort)"

definition require :: "bool \<Rightarrow> 'a outcome \<Rightarrow> 'a outcome" where
  "require b k = (if b then k else Rejected)"

definition deref :: "'a option \<Rightarrow> 'a outcome" where
  "deref p = (case p of None \<Rightarrow> Fault | Some x \<Rightarrow> Done x)"

definition arr_nth :: "'a list option \<Rightarrow> nat \<Rightarrow> 'a outcome" where
  "arr_nth arr i = (case arr of None \<Rightarrow> Fault | Some xs \<Rightarrow> if i < length xs then Done (xs ! i) else Fault)"

lemma bind_Done: "bind_o m f = Done y \<longleftrightarrow> (\<exists>x. m = Done x \<and> f x = Done y)"
  by (cases m) auto

lemma require_simps [simp]: "require True k = k" "require False k = Rejected"
  by (simp_all add: require_def)

lemma c_assert_simps [simp]: "c_assert True k = k" "c_assert False k = Abort"
  by (simp_all add: c_assert_def)

lemma deref_simps [simp]: "deref None = Fault" "deref (Some x) = Done x"
  by (simp_all add: deref_def)

lemma arr_nth_Some [simp]: "i < length xs \<Longrightarrow> arr_nth (Some xs) i = Done (xs ! i)"
  by (simp add: arr_nth_def)

section \<open>Byte arrays\<close>

type_synonym byte_array_t = string

definition cp_str_to_ba :: "string \<Rightarrow> byte_array_t" where
  "cp_str_to_ba str = c_str str"

definition cp_ba_to_str :: "byte_array_t \<Rightarrow> string outcome" where
  "cp_ba_to_str ba = c_assert (ba \<noteq> []) (Done (ba @ [NUL]))"

definition copy_byte_array :: "byte_array_t \<Rightarrow> byte_array_t" where
  "copy_byte_array src = take (length src) src"

definition eq_byte_array :: "byte_array_t \<Rightarrow> byte_array_t \<Rightarrow> bool" where
  "eq_byte_array m0 m1 \<longleftrightarrow> length m0 = length m1 \<and> list_all2 (=) m0 m1"

text \<open>The characters of a C string are signed, the bytes of the array are not.\<close>

definition schar :: "char \<Rightarrow> int" where
  "schar c = (let n = of_char c :: int in if n \<ge> 128 then n - 256 else n)"

function cmp_loop :: "string \<Rightarrow> byte_array_t \<Rightarrow> nat \<Rightarrow> int" where
  "cmp_loop str ba pos =
     (if chr_at str pos \<noteq> NUL \<and> pos < length ba then
        (if schar (chr_at str pos) < of_char (ba ! pos) then -1
         else if schar (chr_at str pos) > of_char (ba ! pos) then 1
         else cmp_loop str ba (Suc pos))
      else if pos \<noteq> length ba then -1
      else if chr_at str pos \<noteq> NUL then 1
      else 0)"
  by pat_completeness auto
termination
  by (relation "measure (\<lambda>(_, ba, pos). length ba - pos)") auto

declare cmp_loop.simps [simp del]

definition cmp_str_ba :: "string \<Rightarrow> byte_array_t \<Rightarrow> int outcome" where
  "cmp_str_ba str ba = c_assert (ba \<noteq> []) (Done (cmp_loop str ba 0))"

section \<open>Parameter values\<close>

text \<open>A \<^verbatim>\<open>double\<close> is its bit pattern.\<close>

datatype ran_parameter_value =
    BOOLEAN_RAN_PARAMETER_VALUE bool
  | INTEGER_RAN_PARAMETER_VALUE int
  | REAL_RAN_PARAMETER_VALUE u64
  | BIT_STRING_RAN_PARAMETER_VALUE byte_array_t
  | OCTET_STRING_RAN_PARAMETER_VALUE byte_array_t
  | PRINTABLESTRING_RAN_PARAMETER_VALUE byte_array_t

definition double_isnan :: "u64 \<Rightarrow> bool" where
  "double_isnan x \<longleftrightarrow> uint x mod 2 ^ 63 > 0x7ff0000000000000"

definition double_eq :: "u64 \<Rightarrow> u64 \<Rightarrow> bool" where
  "double_eq x y \<longleftrightarrow> x = y \<or> uint x mod 2 ^ 63 = 0 \<and> uint y mod 2 ^ 63 = 0"

fun eq_ran_parameter_value :: "ran_parameter_value \<Rightarrow> ran_parameter_value \<Rightarrow> bool outcome" where
  "eq_ran_parameter_value (BOOLEAN_RAN_PARAMETER_VALUE a) (BOOLEAN_RAN_PARAMETER_VALUE b) = Done (a = b)"
| "eq_ran_parameter_value (INTEGER_RAN_PARAMETER_VALUE a) (INTEGER_RAN_PARAMETER_VALUE b) = Done (a = b)"
| "eq_ran_parameter_value (REAL_RAN_PARAMETER_VALUE a) (REAL_RAN_PARAMETER_VALUE b) =
     c_assert (\<not> double_isnan a) (c_assert (\<not> double_isnan b) (Done (double_eq a b)))"
| "eq_ran_parameter_value (BIT_STRING_RAN_PARAMETER_VALUE a) (BIT_STRING_RAN_PARAMETER_VALUE b) = Done (eq_byte_array a b)"
| "eq_ran_parameter_value (OCTET_STRING_RAN_PARAMETER_VALUE a) (OCTET_STRING_RAN_PARAMETER_VALUE b) = Done (eq_byte_array a b)"
| "eq_ran_parameter_value (PRINTABLESTRING_RAN_PARAMETER_VALUE a) (PRINTABLESTRING_RAN_PARAMETER_VALUE b) = Done (eq_byte_array a b)"
| "eq_ran_parameter_value _ _ = Done False"

fun cp_ran_parameter_value :: "ran_parameter_value \<Rightarrow> ran_parameter_value" where
  "cp_ran_parameter_value (BIT_STRING_RAN_PARAMETER_VALUE b) = BIT_STRING_RAN_PARAMETER_VALUE (copy_byte_array b)"
| "cp_ran_parameter_value (OCTET_STRING_RAN_PARAMETER_VALUE b) = OCTET_STRING_RAN_PARAMETER_VALUE (copy_byte_array b)"
| "cp_ran_parameter_value (PRINTABLESTRING_RAN_PARAMETER_VALUE b) = PRINTABLESTRING_RAN_PARAMETER_VALUE (copy_byte_array b)"
| "cp_ran_parameter_value (BOOLEAN_RAN_PARAMETER_VALUE b) = BOOLEAN_RAN_PARAMETER_VALUE b"
| "cp_ran_parameter_value (INTEGER_RAN_PARAMETER_VALUE i) = INTEGER_RAN_PARAMETER_VALUE i"
| "cp_ran_parameter_value (REAL_RAN_PARAMETER_VALUE r) = REAL_RAN_PARAMETER_VALUE r"

section \<open>Parameters, structures and lists\<close>

datatype seq_ran_param = Seq_ran_param (ran_param_id: u32) (ran_param_val: ran_param_val_type)
and ran_param_val_type =
    ELEMENT_KEY_FLAG_TRUE "ran_parameter_value option"
  | ELEMENT_KEY_FLAG_FALSE "ran_parameter_value option"
  | STRUCTURE "ran_param_struct option"
  | LIST "ran_param_list option"
and ran_param_struct = Ran_param_struct (sz_ran_param_struct: nat) (struct_arr: "seq_ran_param list option")
and ran_param_list = Ran_param_list (sz_lst_ran_param: nat) (list_arr: "lst_ran_param list option")
and lst_ran_param = Lst_ran_param (lst_struct: ran_param_struct)

record e2sm_rc_ctrl_msg_frmt_1 =
  sz_ran_param :: nat
  ran_param_arr :: "seq_ran_param list option"

text \<open>
  Comparison of two different objects. A failed comparison of two values aborts at the
  debugging assertions \<^verbatim>\<open>assert(0!=0)\<close> of \<^verbatim>\<open>eq_seq_ran_param\<close> and \<^verbatim>\<open>eq_ran_param_list\<close>.
  The loops over the arrays are \<open>eq_seqs\<close> and \<open>eq_lsts\<close>, with the number of elements left.
\<close>

definition eq_ptr :: "('a \<Rightarrow> 'a \<Rightarrow> bool outcome) \<Rightarrow> 'a option \<Rightarrow> 'a option \<Rightarrow> bool outcome" where
  "eq_ptr eq p q = (case (p, q) of (None, None) \<Rightarrow> Done True | (Some a, Some b) \<Rightarrow> eq a b | _ \<Rightarrow> Done False)"

fun eq_seq_ran_param :: "seq_ran_param \<Rightarrow> seq_ran_param \<Rightarrow> bool outcome"
  and eq_ran_param_val_type :: "ran_param_val_type \<Rightarrow> ran_param_val_type \<Rightarrow> bool outcome"
  and eq_ran_param_struct :: "ran_param_struct \<Rightarrow> ran_param_struct \<Rightarrow> bool outcome"
  and eq_seqs :: "nat \<Rightarrow> seq_ran_param list \<Rightarrow> seq_ran_param list \<Rightarrow> bool outcome"
  and eq_ran_param_list :: "ran_param_list \<Rightarrow> ran_param_list \<Rightarrow> bool outcome"
  and eq_lsts :: "nat \<Rightarrow> lst_ran_param list \<Rightarrow> lst_ran_param list \<Rightarrow> bool outcome"
  and eq_lst_ran_param :: "lst_ran_param \<Rightarrow> lst_ran_param \<Rightarrow> bool outcome"
where
  "eq_seq_ran_param (Seq_ran_param i v) (Seq_ran_param j w) =
     (if i \<noteq> j then Done False
      else bind_o (eq_ran_param_val_type v w) (\<lambda>e. c_assert e (Done True)))"
| "eq_ran_param_val_type (ELEMENT_KEY_FLAG_TRUE p) (ELEMENT_KEY_FLAG_TRUE q) = eq_ptr eq_ran_parameter_value p q"
| "eq_ran_param_val_type (ELEMENT_KEY_FLAG_FALSE p) (ELEMENT_KEY_FLAG_FALSE q) = eq_ptr eq_ran_parameter_value p q"
| "eq_ran_param_val_type (STRUCTURE (Some a)) (STRUCTURE (Some b)) = eq_ran_param_struct a b"
| "eq_ran_param_val_type (STRUCTURE None) (STRUCTURE None) = Done True"
| "eq_ran_param_val_type (LIST (Some a)) (LIST (Some b)) = eq_ran_param_list a b"
| "eq_ran_param_val_type (LIST None) (LIST None) = Done True"
| "eq_ran_param_val_type _ _ = Done False"
| "eq_ran_param_struct (Ran_param_struct m xs) (Ran_param_struct n ys) =
     (if m \<noteq> n then Done False
      else c_assert (0 < m \<and> m < 65536)
        (case (xs, ys) of (Some xs, Some ys) \<Rightarrow> eq_seqs m xs ys | _ \<Rightarrow> Fault))"
| "eq_seqs 0 xs ys = Done True"
| "eq_seqs (Suc n) (x # xs) (y # ys) = bind_o (eq_seq_ran_param x y) (\<lambda>e. if e then eq_seqs n xs ys else Done False)"
| "eq_seqs (Suc n) _ _ = Fault"
| "eq_ran_param_list (Ran_param_list m xs) (Ran_param_list n ys) =
     (if m \<noteq> n then Done False
      else case (xs, ys) of (Some xs, Some ys) \<Rightarrow> eq_lsts m xs ys | _ \<Rightarrow> if m = 0 then Done True else Fault)"
| "eq_lsts 0 xs ys = Done True"
| "eq_lsts (Suc n) (x # xs) (y # ys) = bind_o (eq_lst_ran_param x y) (\<lambda>e. c_assert e (eq_lsts n xs ys))"
| "eq_lsts (Suc n) _ _ = Fault"
| "eq_lst_ran_param (Lst_ran_param s) (Lst_ran_param t) = eq_ran_param_struct s t"

text \<open>Deep copies, with the assertion that the copy equals the source.\<close>

fun cp_seq_ran_param :: "seq_ran_param \<Rightarrow> seq_ran_param outcome"
  and cp_ran_param_val_type :: "ran_param_val_type \<Rightarrow> ran_param_val_type outcome"
  and cp_ran_param_struct :: "ran_param_struct \<Rightarrow> ran_param_struct outcome"
  and cp_seqs :: "nat \<Rightarrow> seq_ran_param list \<Rightarrow> seq_ran_param list outcome"
  and cp_ran_param_list :: "ran_param_list \<Rightarrow> ran_param_list outcome"
  and cp_lsts :: "nat \<Rightarrow> lst_ran_param list \<Rightarrow> lst_ran_param list outcome"
  and cp_lst_ran_param :: "lst_ran_param \<Rightarrow> lst_ran_param outcome"
where
  "cp_seq_ran_param (Seq_ran_param i v) =
     c_assert (i > 0) (bind_o (cp_ran_param_val_type v) (\<lambda>w. Done (Seq_ran_param i w)))"
| "cp_ran_param_val_type v =
     bind_o (case v of
         ELEMENT_KEY_FLAG_TRUE None \<Rightarrow> Abort
       | ELEMENT_KEY_FLAG_TRUE (Some x) \<Rightarrow> Done (ELEMENT_KEY_FLAG_TRUE (Some (cp_ran_parameter_value x)))
       | ELEMENT_KEY_FLAG_FALSE None \<Rightarrow> Abort
       | ELEMENT_KEY_FLAG_FALSE (Some x) \<Rightarrow> Done (ELEMENT_KEY_FLAG_FALSE (Some (cp_ran_parameter_value x)))
       | STRUCTURE None \<Rightarrow> Abort
       | STRUCTURE (Some s) \<Rightarrow> bind_o (cp_ran_param_struct s) (\<lambda>t. Done (STRUCTURE (Some t)))
       | LIST None \<Rightarrow> Abort
       | LIST (Some l) \<Rightarrow> bind_o (cp_ran_param_list l) (\<lambda>t. Done (LIST (Some t))))
       (\<lambda>dst. bind_o (eq_ran_param_val_type dst v) (\<lambda>e. c_assert e (Done dst)))"
| "cp_ran_param_struct (Ran_param_struct n xs) =
     c_assert (0 < n \<and> n < 65536)
       (case xs of None \<Rightarrow> Fault
        | Some xs \<Rightarrow> bind_o (cp_seqs n xs) (\<lambda>ys. Done (Ran_param_struct n (Some ys))))"
| "cp_seqs 0 xs = Done []"
| "cp_seqs (Suc n) [] = Fault"
| "cp_seqs (Suc n) (x # xs) = bind_o (cp_seq_ran_param x) (\<lambda>y. bind_o (cp_seqs n xs) (\<lambda>ys. Done (y # ys)))"
| "cp_ran_param_list (Ran_param_list n xs) =
     (if n = 0 then Done (Ran_param_list 0 None)
      else case xs of None \<Rightarrow> Fault
        | Some xs \<Rightarrow> bind_o (cp_lsts n xs) (\<lambda>ys. Done (Ran_param_list n (Some ys))))"
| "cp_lsts 0 xs = Done []"
| "cp_lsts (Suc n) [] = Fault"
| "cp_lsts (Suc n) (x # xs) = bind_o (cp_lst_ran_param x) (\<lambda>y. bind_o (cp_lsts n xs) (\<lambda>ys. Done (y # ys)))"
| "cp_lst_ran_param (Lst_ran_param s) =
     bind_o (cp_ran_param_struct s) (\<lambda>t.
       bind_o (eq_lst_ran_param (Lst_ran_param t) (Lst_ran_param s)) (\<lambda>e. c_assert e (Done (Lst_ran_param t))))"

text \<open>Release: only the assertions and accesses remain of it.\<close>

fun free_seq_ran_param :: "seq_ran_param \<Rightarrow> unit outcome"
  and free_ran_param_val_type :: "ran_param_val_type \<Rightarrow> unit outcome"
  and free_ran_param_struct :: "ran_param_struct \<Rightarrow> unit outcome"
  and free_seqs :: "nat \<Rightarrow> seq_ran_param list \<Rightarrow> unit outcome"
  and free_ran_param_list :: "ran_param_list \<Rightarrow> unit outcome"
  and free_lsts :: "nat \<Rightarrow> lst_ran_param list \<Rightarrow> unit outcome"
  and free_lst_ran_param :: "lst_ran_param \<Rightarrow> unit outcome"
where
  "free_seq_ran_param (Seq_ran_param i v) = c_assert (i > 0) (free_ran_param_val_type v)"
| "free_ran_param_val_type (ELEMENT_KEY_FLAG_TRUE p) = c_assert (p \<noteq> None) (Done ())"
| "free_ran_param_val_type (ELEMENT_KEY_FLAG_FALSE p) = c_assert (p \<noteq> None) (Done ())"
| "free_ran_param_val_type (STRUCTURE None) = Abort"
| "free_ran_param_val_type (STRUCTURE (Some s)) = free_ran_param_struct s"
| "free_ran_param_val_type (LIST None) = Abort"
| "free_ran_param_val_type (LIST (Some l)) = free_ran_param_list l"
| "free_ran_param_struct (Ran_param_struct n xs) =
     c_assert (0 < n \<and> n < 65536) (case xs of None \<Rightarrow> Fault | Some xs \<Rightarrow> free_seqs n xs)"
| "free_seqs 0 xs = Done ()"
| "free_seqs (Suc n) [] = Fault"
| "free_seqs (Suc n) (x # xs) = bind_o (free_seq_ran_param x) (\<lambda>_. free_seqs n xs)"
| "free_ran_param_list (Ran_param_list n xs) =
     c_assert (0 < n \<and> n < 65536) (case xs of None \<Rightarrow> Fault | Some xs \<Rightarrow> free_lsts n xs)"
| "free_lsts 0 xs = Done ()"
| "free_lsts (Suc n) [] = Fault"
| "free_lsts (Suc n) (x # xs) = bind_o (free_lst_ran_param x) (\<lambda>_. free_lsts n xs)"
| "free_lst_ran_param (Lst_ran_param s) = free_ran_param_struct s"

definition free_e2sm_rc_ctrl_msg_frmt_1 :: "e2sm_rc_ctrl_msg_frmt_1 \<Rightarrow> unit outcome" where
  "free_e2sm_rc_ctrl_msg_frmt_1 m =
     (case ran_param_arr m of None \<Rightarrow> if sz_ran_param m = 0 then Done () else Fault
      | Some xs \<Rightarrow> free_seqs (sz_ran_param m) xs)"

definition eq_e2sm_rc_ctrl_msg_frmt_1 :: "e2sm_rc_ctrl_msg_frmt_1 \<Rightarrow> e2sm_rc_ctrl_msg_frmt_1 \<Rightarrow> bool outcome" where
  "eq_e2sm_rc_ctrl_msg_frmt_1 m0 m1 =
     (if sz_ran_param m0 \<noteq> sz_ran_param m1 then Done False
      else case (ran_param_arr m0, ran_param_arr m1) of
             (Some xs, Some ys) \<Rightarrow> eq_seqs (sz_ran_param m0) xs ys
           | _ \<Rightarrow> if sz_ran_param m0 = 0 then Done True else Fault)"

definition cp_e2sm_rc_ctrl_msg_frmt_1 :: "e2sm_rc_ctrl_msg_frmt_1 \<Rightarrow> e2sm_rc_ctrl_msg_frmt_1 outcome" where
  "cp_e2sm_rc_ctrl_msg_frmt_1 m =
     c_assert (sz_ran_param m < 65536)
       (if sz_ran_param m = 0 then Done \<lparr>sz_ran_param = 0, ran_param_arr = None\<rparr>
        else case ran_param_arr m of None \<Rightarrow> Fault
          | Some xs \<Rightarrow> bind_o (cp_seqs (sz_ran_param m) xs) (\<lambda>ys.
                         Done \<lparr>sz_ran_param = sz_ran_param m, ran_param_arr = Some ys\<rparr>))"

section \<open>Copies of well-formed messages\<close>

text \<open>
  Well-formed data: sizes match the arrays and lie in the ranges the comments of the code give,
  parameter ids are positive, no pointer is null and no real value is NaN.
\<close>

fun wf_value :: "ran_parameter_value \<Rightarrow> bool" where
  "wf_value (REAL_RAN_PARAMETER_VALUE r) = (\<not> double_isnan r)"
| "wf_value _ = True"

fun wf_seq :: "seq_ran_param \<Rightarrow> bool"
  and wf_val :: "ran_param_val_type \<Rightarrow> bool"
  and wf_struct :: "ran_param_struct \<Rightarrow> bool"
  and wf_seqs :: "seq_ran_param list \<Rightarrow> bool"
  and wf_list :: "ran_param_list \<Rightarrow> bool"
  and wf_lsts :: "lst_ran_param list \<Rightarrow> bool"
  and wf_lst :: "lst_ran_param \<Rightarrow> bool"
where
  "wf_seq (Seq_ran_param i v) \<longleftrightarrow> i > 0 \<and> wf_val v"
| "wf_val (ELEMENT_KEY_FLAG_TRUE (Some v)) \<longleftrightarrow> wf_value v"
| "wf_val (ELEMENT_KEY_FLAG_FALSE (Some v)) \<longleftrightarrow> wf_value v"
| "wf_val (STRUCTURE (Some s)) \<longleftrightarrow> wf_struct s"
| "wf_val (LIST (Some l)) \<longleftrightarrow> wf_list l"
| "wf_val _ \<longleftrightarrow> False"
| "wf_struct (Ran_param_struct n (Some xs)) \<longleftrightarrow> 0 < n \<and> n < 65536 \<and> length xs = n \<and> wf_seqs xs"
| "wf_struct (Ran_param_struct n None) \<longleftrightarrow> False"
| "wf_seqs [] \<longleftrightarrow> True"
| "wf_seqs (x # xs) \<longleftrightarrow> wf_seq x \<and> wf_seqs xs"
| "wf_list (Ran_param_list n (Some xs)) \<longleftrightarrow> 0 < n \<and> n < 65536 \<and> length xs = n \<and> wf_lsts xs"
| "wf_list (Ran_param_list n None) \<longleftrightarrow> False"
| "wf_lsts [] \<longleftrightarrow> True"
| "wf_lsts (x # xs) \<longleftrightarrow> wf_lst x \<and> wf_lsts xs"
| "wf_lst (Lst_ran_param s) \<longleftrightarrow> wf_struct s"

lemma eq_byte_array_iff: "eq_byte_array a b \<longleftrightarrow> a = b"
  by (auto simp: eq_byte_array_def list.rel_eq)

lemma cp_value_id [simp]: "cp_ran_parameter_value v = v"
  by (cases v) (simp_all add: copy_byte_array_def)

lemma eq_value_refl: "wf_value v \<Longrightarrow> eq_ran_parameter_value v v = Done True"
  by (cases v) (simp_all add: eq_byte_array_iff double_eq_def)

lemma eq_refl:
  "wf_seq p \<Longrightarrow> eq_seq_ran_param p p = Done True"
  "wf_val v \<Longrightarrow> eq_ran_param_val_type v v = Done True"
  "wf_struct s \<Longrightarrow> eq_ran_param_struct s s = Done True"
  "wf_seqs xs \<Longrightarrow> eq_seqs (length xs) xs xs = Done True"
  "wf_list l \<Longrightarrow> eq_ran_param_list l l = Done True"
  "wf_lsts ys \<Longrightarrow> eq_lsts (length ys) ys ys = Done True"
  "wf_lst y \<Longrightarrow> eq_lst_ran_param y y = Done True"
  by (induction p and v and s and xs and l and ys and y
        rule: wf_seq_wf_val_wf_struct_wf_seqs_wf_list_wf_lsts_wf_lst.induct)
    (auto simp: eq_ptr_def eq_value_refl)

lemma cp_id:
  "wf_seq p \<Longrightarrow> cp_seq_ran_param p = Done p"
  "wf_val v \<Longrightarrow> cp_ran_param_val_type v = Done v"
  "wf_struct s \<Longrightarrow> cp_ran_param_struct s = Done s"
  "wf_seqs xs \<Longrightarrow> cp_seqs (length xs) xs = Done xs"
  "wf_list l \<Longrightarrow> cp_ran_param_list l = Done l"
  "wf_lsts ys \<Longrightarrow> cp_lsts (length ys) ys = Done ys"
  "wf_lst y \<Longrightarrow> cp_lst_ran_param y = Done y"
  by (induction p and v and s and xs and l and ys and y
        rule: wf_seq_wf_val_wf_struct_wf_seqs_wf_list_wf_lsts_wf_lst.induct)
    (auto simp: eq_ptr_def eq_value_refl eq_refl simp del: eq_lst_ran_param.simps)

lemma free_ok:
  "wf_seq p \<Longrightarrow> free_seq_ran_param p = Done ()"
  "wf_val v \<Longrightarrow> free_ran_param_val_type v = Done ()"
  "wf_struct s \<Longrightarrow> free_ran_param_struct s = Done ()"
  "wf_seqs xs \<Longrightarrow> free_seqs (length xs) xs = Done ()"
  "wf_list l \<Longrightarrow> free_ran_param_list l = Done ()"
  "wf_lsts ys \<Longrightarrow> free_lsts (length ys) ys = Done ()"
  "wf_lst y \<Longrightarrow> free_lst_ran_param y = Done ()"
  by (induction p and v and s and xs and l and ys and y
        rule: wf_seq_wf_val_wf_struct_wf_seqs_wf_list_wf_lsts_wf_lst.induct)
    auto

text \<open>The messages the control path handles.\<close>

definition wf_msg :: "e2sm_rc_ctrl_msg_frmt_1 \<Rightarrow> bool" where
  "wf_msg m \<longleftrightarrow> sz_ran_param m < 65536 \<and> 0 < sz_ran_param m \<and>
     (\<exists>xs. ran_param_arr m = Some xs \<and> length xs = sz_ran_param m \<and> wf_seqs xs)"

section \<open>Comparing a string with a byte array\<close>

lemma of_char_less: "(of_char c :: int) < 256"
  by (metis (no_types) of_char_mod_256 pos_mod_bound zero_less_numeral)

lemma cmp_loop_self:
  assumes "\<forall>c \<in> set str. c \<noteq> NUL \<and> (of_char c :: int) < 128"
  shows "pos \<le> length str \<Longrightarrow> cmp_loop str str pos = 0"
proof (induction "length str - pos" arbitrary: pos)
  case 0
  then show ?case by (subst cmp_loop.simps) (simp add: chr_at_def)
next
  case (Suc k)
  then have l: "pos < length str" by simp
  then have "str ! pos \<noteq> NUL" "(of_char (str ! pos) :: int) < 128" using assms by auto
  moreover have "cmp_loop str str (Suc pos) = 0" using Suc l by simp
  ultimately show ?case using l by (subst cmp_loop.simps) (simp add: chr_at_def schar_def)
qed

end
