(* ===== verification/Rc_Slice_Control.thy ===== *)
theory Rc_Slice_Control
  imports Rc_Message Slice_Quota
begin

text \<open>
  The gNB side of the RC control service style 2, slice-level PRB quota: the parser of
  \<^verbatim>\<open>RAN_FUNCTION/O-RAN/rc_ctrl_service_style_2.c\<close> and the RC control handler
  \<^verbatim>\<open>write_ctrl_rc_sm\<close> of \<^verbatim>\<open>ran_func_rc.c\<close>.
\<close>

section \<open>Parameter identifiers\<close>

definition RC_CTRL_ACTION_SLICE_LEVEL_PRB_QUOTA :: u16 where
  "RC_CTRL_ACTION_SLICE_LEVEL_PRB_QUOTA = 6"

definition RC_SLICE_PARAM_RRM_POLICY_RATIO_LIST :: u32 where "RC_SLICE_PARAM_RRM_POLICY_RATIO_LIST = 1"
definition RC_SLICE_PARAM_RRM_POLICY :: u32 where "RC_SLICE_PARAM_RRM_POLICY = 3"
definition RC_SLICE_PARAM_RRM_POLICY_MEMBER_LIST :: u32 where "RC_SLICE_PARAM_RRM_POLICY_MEMBER_LIST = 4"
definition RC_SLICE_PARAM_PLMN_IDENTITY :: u32 where "RC_SLICE_PARAM_PLMN_IDENTITY = 6"
definition RC_SLICE_PARAM_S_NSSAI :: u32 where "RC_SLICE_PARAM_S_NSSAI = 7"
definition RC_SLICE_PARAM_SST :: u32 where "RC_SLICE_PARAM_SST = 8"
definition RC_SLICE_PARAM_SD :: u32 where "RC_SLICE_PARAM_SD = 9"
definition RC_SLICE_PARAM_MIN_PRB_POLICY_RATIO :: u32 where "RC_SLICE_PARAM_MIN_PRB_POLICY_RATIO = 10"
definition RC_SLICE_PARAM_MAX_PRB_POLICY_RATIO :: u32 where "RC_SLICE_PARAM_MAX_PRB_POLICY_RATIO = 11"
definition RC_SLICE_PARAM_DEDICATED_PRB_POLICY_RATIO :: u32 where "RC_SLICE_PARAM_DEDICATED_PRB_POLICY_RATIO = 12"

lemmas rc_param_ids =
  RC_CTRL_ACTION_SLICE_LEVEL_PRB_QUOTA_def RC_SLICE_PARAM_RRM_POLICY_RATIO_LIST_def
  RC_SLICE_PARAM_RRM_POLICY_def RC_SLICE_PARAM_RRM_POLICY_MEMBER_LIST_def RC_SLICE_PARAM_PLMN_IDENTITY_def
  RC_SLICE_PARAM_S_NSSAI_def RC_SLICE_PARAM_SST_def RC_SLICE_PARAM_SD_def
  RC_SLICE_PARAM_MIN_PRB_POLICY_RATIO_def RC_SLICE_PARAM_MAX_PRB_POLICY_RATIO_def
  RC_SLICE_PARAM_DEDICATED_PRB_POLICY_RATIO_def

section \<open>The advertised control style\<close>

datatype e2sm_rc_ctrl_hdr_e = FORMAT_1_E2SM_RC_CTRL_HDR | FORMAT_2_E2SM_RC_CTRL_HDR
datatype e2sm_rc_ctrl_msg_e = FORMAT_1_E2SM_RC_CTRL_MSG | FORMAT_2_E2SM_RC_CTRL_MSG
datatype e2sm_rc_ctrl_out_e = FORMAT_1_E2SM_RC_CTRL_OUT | FORMAT_2_E2SM_RC_CTRL_OUT | FORMAT_3_E2SM_RC_CTRL_OUT

record seq_ran_param_3 =
  rp3_id :: u32
  rp3_name :: byte_array_t

record seq_ctrl_act_2 =
  act_id :: u16
  act_name :: byte_array_t
  assoc_ran_param :: "seq_ran_param_3 list"

record seq_ctrl_style =
  style_type :: u32
  style_name :: byte_array_t
  style_hdr :: e2sm_rc_ctrl_hdr_e
  style_msg :: e2sm_rc_ctrl_msg_e
  style_out :: e2sm_rc_ctrl_out_e
  seq_ctrl_act :: "seq_ctrl_act_2 list"
  ran_param_ctrl_out :: "seq_ran_param_3 list"

definition fill_rc_ctrl_style_2 :: seq_ctrl_style where
  "fill_rc_ctrl_style_2 =
     \<lparr>style_type = 2, style_name = cp_str_to_ba ''Radio Resource Allocation Control'',
      style_hdr = FORMAT_1_E2SM_RC_CTRL_HDR, style_msg = FORMAT_1_E2SM_RC_CTRL_MSG,
      style_out = FORMAT_1_E2SM_RC_CTRL_OUT,
      seq_ctrl_act =
        [\<lparr>act_id = RC_CTRL_ACTION_SLICE_LEVEL_PRB_QUOTA, act_name = cp_str_to_ba ''Slice-level PRB quota'',
          assoc_ran_param = [\<lparr>rp3_id = RC_SLICE_PARAM_RRM_POLICY_RATIO_LIST,
                              rp3_name = cp_str_to_ba ''RRM Policy Ratio List''\<rparr>]\<rparr>],
      ran_param_ctrl_out = []\<rparr>"

section \<open>Reading a policy group\<close>

fun element_value :: "ran_param_val_type \<Rightarrow> ran_parameter_value option outcome" where
  "element_value (ELEMENT_KEY_FLAG_TRUE v) = Done v"
| "element_value (ELEMENT_KEY_FLAG_FALSE v) = Done v"
| "element_value _ = Rejected"

definition get_integer_param :: "seq_ran_param \<Rightarrow> u32 \<Rightarrow> int outcome" where
  "get_integer_param param expected_id =
     require (ran_param_id param = expected_id)
       (bind_o (element_value (ran_param_val param)) (\<lambda>ran_value.
          case ran_value of
            Some (INTEGER_RAN_PARAMETER_VALUE i) \<Rightarrow> Done i
          | _ \<Rightarrow> Rejected))"

definition get_octet_uint_param :: "seq_ran_param \<Rightarrow> u32 \<Rightarrow> int outcome" where
  "get_octet_uint_param param expected_id =
     require (ran_param_id param = expected_id)
       (bind_o (element_value (ran_param_val param)) (\<lambda>ran_value.
          case ran_value of
            None \<Rightarrow> Rejected
          | Some (INTEGER_RAN_PARAMETER_VALUE i) \<Rightarrow> require (0 \<le> i \<and> i \<le> 0xffffff) (Done i)
          | Some (OCTET_STRING_RAN_PARAMETER_VALUE ba) \<Rightarrow>
              bind_o (cp_ba_to_str ba) (\<lambda>str.
                let (parsed, n, _) = strtoul str
                in require (n \<noteq> 0 \<and> chr_at str n = NUL \<and> parsed \<le> 0xffffff) (Done parsed))
          | Some _ \<Rightarrow> Rejected))"

text \<open>The structure or list behind a parameter that must have one.\<close>

definition get_struct :: "seq_ran_param \<Rightarrow> u32 \<Rightarrow> ran_param_struct outcome" where
  "get_struct p i =
     require (ran_param_id p = i)
       (case ran_param_val p of STRUCTURE (Some s) \<Rightarrow> Done s | _ \<Rightarrow> Rejected)"

definition get_list :: "seq_ran_param \<Rightarrow> u32 \<Rightarrow> ran_param_list outcome" where
  "get_list p i =
     require (ran_param_id p = i)
       (case ran_param_val p of LIST (Some l) \<Rightarrow> Done l | _ \<Rightarrow> Rejected)"

definition parse_s_nssai :: "ran_param_struct \<Rightarrow> (int \<times> int) outcome" where
  "parse_s_nssai s_nssai =
     require (sz_ran_param_struct s_nssai \<ge> 1)
      (bind_o (arr_nth (struct_arr s_nssai) 0) (\<lambda>p0.
       bind_o (get_octet_uint_param p0 RC_SLICE_PARAM_SST) (\<lambda>sst_v.
       bind_o (if sz_ran_param_struct s_nssai > 1
               then bind_o (arr_nth (struct_arr s_nssai) 1) (\<lambda>p1. get_octet_uint_param p1 RC_SLICE_PARAM_SD)
               else Done 0xffffff) (\<lambda>sd_v.
       require (sst_v \<le> 255 \<and> sd_v \<le> 0xffffff) (Done (sst_v, sd_v))))))"

definition valid_ratios :: "int \<Rightarrow> int \<Rightarrow> int \<Rightarrow> bool" where
  "valid_ratios min_ratio max_ratio dedicated_ratio \<longleftrightarrow>
     min_ratio \<ge> 0 \<and> min_ratio \<le> 100 \<and> max_ratio \<ge> 0 \<and> max_ratio \<le> 100 \<and> dedicated_ratio \<ge> 0
     \<and> dedicated_ratio \<le> 100 \<and> min_ratio \<le> dedicated_ratio \<and> dedicated_ratio \<le> max_ratio"

text \<open>The S-NSSAI of the first member of the RRM policy, parameter 0 of a group.\<close>

definition parse_rrm_policy :: "seq_ran_param \<Rightarrow> (int \<times> int) outcome" where
  "parse_rrm_policy rrm_policy =
     bind_o (get_struct rrm_policy RC_SLICE_PARAM_RRM_POLICY) (\<lambda>strct.
     require (sz_ran_param_struct strct = 1) (
     bind_o (arr_nth (struct_arr strct) 0) (\<lambda>member_list.
     bind_o (get_list member_list RC_SLICE_PARAM_RRM_POLICY_MEMBER_LIST) (\<lambda>lst.
     require (sz_lst_ran_param lst \<ge> 1) (
     bind_o (arr_nth (list_arr lst) 0) (\<lambda>member.
     require (sz_ran_param_struct (lst_struct member) = 2) (
     require (struct_arr (lst_struct member) \<noteq> None) (
     bind_o (arr_nth (struct_arr (lst_struct member)) 1) (\<lambda>s_nssai.
     bind_o (get_struct s_nssai RC_SLICE_PARAM_S_NSSAI) parse_s_nssai)))))))))"

text \<open>The ratios, parameters 1 to 3 of a group: minimum, maximum and dedicated.\<close>

definition parse_ratios :: "seq_ran_param list option \<Rightarrow> (int \<times> int \<times> int) outcome" where
  "parse_ratios params =
     bind_o (arr_nth params 1) (\<lambda>p1.
     bind_o (get_integer_param p1 RC_SLICE_PARAM_MIN_PRB_POLICY_RATIO) (\<lambda>min_ratio.
     bind_o (arr_nth params 2) (\<lambda>p2.
     bind_o (get_integer_param p2 RC_SLICE_PARAM_MAX_PRB_POLICY_RATIO) (\<lambda>max_ratio.
     bind_o (arr_nth params 3) (\<lambda>p3.
     bind_o (get_integer_param p3 RC_SLICE_PARAM_DEDICATED_PRB_POLICY_RATIO) (\<lambda>dedicated_ratio.
     require (valid_ratios min_ratio max_ratio dedicated_ratio) (
     Done (min_ratio, max_ratio, dedicated_ratio))))))))"

definition parse_slice_policy_group :: "lst_ran_param \<Rightarrow> nr_dl_slice_policy_t outcome" where
  "parse_slice_policy_group grp =
     (let params = struct_arr (lst_struct grp) in
      require (sz_ran_param_struct (lst_struct grp) = 4) (
      require (params \<noteq> None) (
      bind_o (arr_nth params 0) (\<lambda>rrm_policy.
      bind_o (parse_rrm_policy rrm_policy) (\<lambda>(sst_v, sd_v).
      bind_o (parse_ratios params) (\<lambda>(min_ratio, max_ratio, dedicated_ratio).
      Done \<lparr>active = True, pol_nssai = \<lparr>sst = word_of_int sst_v, sd = word_of_int sd_v\<rparr>,
            min_prb_ratio = word_of_int min_ratio, max_prb_ratio = word_of_int max_ratio,
            dedicated_prb_ratio = word_of_int dedicated_ratio\<rparr>))))))"

section \<open>Applying the control message\<close>

fun parse_groups :: "nat \<Rightarrow> lst_ran_param list \<Rightarrow> nr_dl_slice_policy_t list outcome" where
  "parse_groups 0 gs = Done []"
| "parse_groups (Suc n) [] = Fault"
| "parse_groups (Suc n) (g # gs) =
     bind_o (parse_slice_policy_group g) (\<lambda>p. bind_o (parse_groups n gs) (\<lambda>ps. Done (p # ps)))"

text \<open>The policies of a message, up to the call of \<^verbatim>\<open>nr_mac_set_dl_slice_policies\<close>.\<close>

definition parse_ctrl_msg :: "e2sm_rc_ctrl_msg_frmt_1 option \<Rightarrow> nr_dl_slice_policy_t list outcome" where
  "parse_ctrl_msg msg =
     (case msg of None \<Rightarrow> Rejected
      | Some msg \<Rightarrow>
          require (sz_ran_param msg = 1 \<and> ran_param_arr msg \<noteq> None)
           (bind_o (arr_nth (ran_param_arr msg) 0) (\<lambda>p.
            bind_o (get_list p RC_SLICE_PARAM_RRM_POLICY_RATIO_LIST) (\<lambda>lst.
            require (int (sz_lst_ran_param lst) \<le> MAX_NUM_SLICES)
             (case list_arr lst of
                None \<Rightarrow> if sz_lst_ran_param lst = 0 then Done [] else Fault
              | Some gs \<Rightarrow> parse_groups (sz_lst_ran_param lst) gs)))))"

text \<open>
  The result is the MAC instance and the returned flag. \<open>du\<close> says whether the build is a DU
  (\<^verbatim>\<open>NGRAN_GNB_DU\<close>); \<open>mac\<close> is \<open>None\<close> when \<^verbatim>\<open>RC.nrmac\<close> or \<^verbatim>\<open>RC.nrmac[0]\<close> is null.
\<close>

definition apply_rc_ctrl_style_2_slice_level_prb_quota ::
    "bool \<Rightarrow> 'm gNB_MAC_INST option \<Rightarrow> e2sm_rc_ctrl_msg_frmt_1 option \<Rightarrow> ('m gNB_MAC_INST option \<times> bool) outcome" where
  "apply_rc_ctrl_style_2_slice_level_prb_quota du mac msg =
     (if \<not> du then Done (mac, True)
      else case parse_ctrl_msg msg of
             Fault \<Rightarrow> Fault
           | Abort \<Rightarrow> Abort
           | Rejected \<Rightarrow> Done (mac, False)
           | Done policies \<Rightarrow>
               if mac = None then Done (mac, False)
               else Done (nr_mac_set_dl_slice_policies mac policies))"

section \<open>The control handler\<close>

record rc_ctrl_req_data =
  hdr_format :: e2sm_rc_ctrl_hdr_e
  ric_style_type :: u32
  ctrl_act_id :: u16
  msg_format :: e2sm_rc_ctrl_msg_e
  msg_frmt_1 :: e2sm_rc_ctrl_msg_frmt_1

datatype sm_ag_if_ans = CTRL_OUTCOME_SM_AG_IF_ANS_V0

text \<open>Reading the integer member of a value behind a pointer; another member is a \<open>Fault\<close>.\<close>

definition int_ran :: "ran_parameter_value option \<Rightarrow> int outcome" where
  "int_ran p = (case p of Some (INTEGER_RAN_PARAMETER_VALUE i) \<Rightarrow> Done i | _ \<Rightarrow> Fault)"

text \<open>Style 1, action 2 (QoS flow mapping): the values are checked and printed.\<close>

definition qos_flow_mapping :: "seq_ran_param list option \<Rightarrow> (int \<times> int \<times> int) outcome" where
  "qos_flow_mapping ran_param =
     bind_o (arr_nth ran_param 0) (\<lambda>p0.
     c_assert (ran_param_id p0 = 1)
      (case ran_param_val p0 of
         ELEMENT_KEY_FLAG_TRUE v0 \<Rightarrow>
           bind_o (int_ran v0) (\<lambda>drb.
           bind_o (arr_nth ran_param 1) (\<lambda>p1.
           c_assert (ran_param_id p1 = 2)
            (case ran_param_val p1 of
               LIST l \<Rightarrow>
                 bind_o (deref l) (\<lambda>l.
                 bind_o (arr_nth (list_arr l) 0) (\<lambda>lrp.
                 bind_o (arr_nth (struct_arr (lst_struct lrp)) 0) (\<lambda>q0.
                 c_assert (ran_param_id q0 = 4)
                  (case ran_param_val q0 of
                     ELEMENT_KEY_FLAG_TRUE vq \<Rightarrow>
                       bind_o (int_ran vq) (\<lambda>qfi.
                       c_assert (qfi > -1 \<and> qfi < 65)
                        (bind_o (arr_nth (struct_arr (lst_struct lrp)) 1) (\<lambda>q1.
                         c_assert (ran_param_id q1 = 5)
                          (case ran_param_val q1 of
                             ELEMENT_KEY_FLAG_FALSE vd \<Rightarrow>
                               bind_o (int_ran vd) (\<lambda>dir. c_assert (dir = 0 \<or> dir = 1) (Done (drb, qfi, dir)))
                           | _ \<Rightarrow> Abort))))
                   | _ \<Rightarrow> Abort))))
             | _ \<Rightarrow> Abort)))
       | _ \<Rightarrow> Abort))"

definition write_ctrl_rc_sm ::
    "bool \<Rightarrow> 'm gNB_MAC_INST option \<Rightarrow> rc_ctrl_req_data \<Rightarrow> ('m gNB_MAC_INST option \<times> sm_ag_if_ans) outcome" where
  "write_ctrl_rc_sm du mac ctrl =
     c_assert (hdr_format ctrl = FORMAT_1_E2SM_RC_CTRL_HDR)
      (c_assert (msg_format ctrl = FORMAT_1_E2SM_RC_CTRL_MSG)
       (if ric_style_type ctrl = 2 \<and> ctrl_act_id ctrl = RC_CTRL_ACTION_SLICE_LEVEL_PRB_QUOTA
        then bind_o (apply_rc_ctrl_style_2_slice_level_prb_quota du mac (Some (msg_frmt_1 ctrl))) (\<lambda>(mac', ok).
               Done (mac', CTRL_OUTCOME_SM_AG_IF_ANS_V0))
        else c_assert (ric_style_type ctrl = 1 \<and> ctrl_act_id ctrl = 2)
               (bind_o (qos_flow_mapping (ran_param_arr (msg_frmt_1 ctrl))) (\<lambda>_.
                  Done (mac, CTRL_OUTCOME_SM_AG_IF_ANS_V0)))))"

section \<open>Accepted policies\<close>

lemma require_Done: "require b k = Done x \<longleftrightarrow> b \<and> k = Done x"
  by (simp add: require_def)

lemma valid_ratios_words:
  assumes "valid_ratios mn mx ded"
  shows "valid_slice_ratios \<lparr>active = a, pol_nssai = n, min_prb_ratio = word_of_int mn,
           max_prb_ratio = word_of_int mx, dedicated_prb_ratio = word_of_int ded\<rparr>"
  using assms
  by (simp add: valid_ratios_def valid_slice_ratios_def word_less_def word_le_def not_less take_bit_int_eq_self
      uint_word_of_int_eq)

lemma parse_group_valid:
  assumes "parse_slice_policy_group g = Done p"
  shows "valid_slice_ratios p" and "active p"
  using assms
  by (auto simp: parse_slice_policy_group_def parse_ratios_def Let_def bind_Done require_Done valid_ratios_words)

lemma parse_groups_valid:
  "parse_groups n gs = Done ps \<Longrightarrow> length ps = n \<and> (\<forall>p \<in> set ps. valid_slice_ratios p \<and> active p)"
  by (induction n gs arbitrary: ps rule: parse_groups.induct) (auto simp: bind_Done dest: parse_group_valid)

lemma parse_ctrl_msg_valid:
  assumes "parse_ctrl_msg msg = Done ps"
  shows "int (length ps) \<le> MAX_NUM_SLICES" and "\<forall>p \<in> set ps. valid_slice_ratios p \<and> active p"
  using assms
  by (auto simp: parse_ctrl_msg_def bind_Done require_Done dest!: parse_groups_valid split: option.splits if_splits)

text \<open>What a successful installation leaves in the MAC instance.\<close>

definition installed :: "nr_dl_slice_policy_t list \<Rightarrow> 'm gNB_MAC_INST \<Rightarrow> 'm gNB_MAC_INST" where
  "installed ps mac = mac\<lparr>dl_slice_policy := (\<lambda>k. if k < length ps then (ps ! k)\<lparr>active := True\<rparr> else zero_slice_policy),
     dl_slice_policy_prb_used := (\<lambda>_. 0), dl_slice_policy_last_log_frame := 0,
     dl_slice_policy_count := int (length ps), dl_slice_policy_enabled := ps \<noteq> []\<rparr>"

lemma set_policies_ok:
  assumes "int (length ps) \<le> MAX_NUM_SLICES" and "\<forall>p \<in> set ps. valid_slice_ratios p"
  shows "nr_mac_set_dl_slice_policies (Some mac) ps = (Some (installed ps mac), True)"
  using assms
  by (simp add: nr_mac_set_dl_slice_policies_def Let_def set_policies_loop_ok installed_def cong: if_cong)

lemma apply_cases:
  assumes "apply_rc_ctrl_style_2_slice_level_prb_quota True (Some mac) msg = Done (mac', ok)"
  obtains (installed) ps where "parse_ctrl_msg msg = Done ps" "mac' = Some (installed ps mac)" "ok"
  | (rejected) "parse_ctrl_msg msg = Rejected" "mac' = Some mac" "\<not> ok"
proof (cases "parse_ctrl_msg msg")
  case (Done ps)
  from parse_ctrl_msg_valid [OF Done] have "nr_mac_set_dl_slice_policies (Some mac) ps = (Some (installed ps mac), True)"
    by (intro set_policies_ok) auto
  then show thesis using assms Done installed
    by (simp add: apply_rc_ctrl_style_2_slice_level_prb_quota_def)
qed (use assms rejected in \<open>auto simp: apply_rc_ctrl_style_2_slice_level_prb_quota_def\<close>)

section \<open>Well-formed messages cause no invalid access\<close>

definition no_fault :: "'a outcome \<Rightarrow> bool" where
  "no_fault m \<longleftrightarrow> m \<noteq> Fault"

lemma bind_no_fault: "no_fault m \<Longrightarrow> (\<And>x. m = Done x \<Longrightarrow> no_fault (f x)) \<Longrightarrow> no_fault (bind_o m f)"
  by (cases m) (auto simp: no_fault_def)

lemma require_no_fault: "(b \<Longrightarrow> no_fault k) \<Longrightarrow> no_fault (require b k)"
  by (simp add: require_def no_fault_def)

lemma Done_no_fault [simp]: "no_fault (Done x)"
  by (simp add: no_fault_def)

lemma get_no_fault:
  "no_fault (get_integer_param p i)" "no_fault (get_octet_uint_param p i)"
  "no_fault (get_struct p i)" "no_fault (get_list p i)"
  by (cases "ran_param_val p";
      auto simp: get_integer_param_def get_octet_uint_param_def get_struct_def get_list_def cp_ba_to_str_def
        c_assert_def require_def Let_def no_fault_def split: option.splits ran_parameter_value.splits prod.splits)+

lemma wf_seqs_iff: "wf_seqs xs \<longleftrightarrow> (\<forall>x \<in> set xs. wf_seq x)"
  by (induction xs) auto

lemma wf_lsts_iff: "wf_lsts xs \<longleftrightarrow> (\<forall>x \<in> set xs. wf_lst x)"
  by (induction xs) auto

lemma arr_nth_struct:
  "wf_struct s \<Longrightarrow> i < sz_ran_param_struct s \<Longrightarrow> \<exists>p. arr_nth (struct_arr s) i = Done p \<and> wf_seq p"
  by (cases s rule: wf_struct.cases) (auto simp: wf_seqs_iff)

lemma arr_nth_list:
  "wf_list l \<Longrightarrow> i < sz_lst_ran_param l \<Longrightarrow> \<exists>p. arr_nth (list_arr l) i = Done p \<and> wf_lst p"
  by (cases l rule: wf_list.cases) (auto simp: wf_lsts_iff)

lemma get_struct_wf: "wf_seq p \<Longrightarrow> get_struct p i = Done s \<Longrightarrow> wf_struct s"
  by (cases p) (auto simp: get_struct_def require_Done split: ran_param_val_type.splits option.splits)

lemma get_list_wf: "wf_seq p \<Longrightarrow> get_list p i = Done s \<Longrightarrow> wf_list s"
  by (cases p) (auto simp: get_list_def require_Done split: ran_param_val_type.splits option.splits)

lemma wf_lst_struct: "wf_lst l \<Longrightarrow> wf_struct (lst_struct l)"
  by (cases l) simp

lemma arr_no_fault:
  "wf_struct s \<Longrightarrow> i < sz_ran_param_struct s \<Longrightarrow> (\<And>p. wf_seq p \<Longrightarrow> no_fault (f p)) \<Longrightarrow>
     no_fault (bind_o (arr_nth (struct_arr s) i) f)"
  "wf_list l \<Longrightarrow> i < sz_lst_ran_param l \<Longrightarrow> (\<And>y. wf_lst y \<Longrightarrow> no_fault (g y)) \<Longrightarrow>
     no_fault (bind_o (arr_nth (list_arr l) i) g)"
  using arr_nth_struct [of s i] arr_nth_list [of l i] by auto

lemma get_bind_no_fault:
  "wf_seq p \<Longrightarrow> (\<And>s. wf_struct s \<Longrightarrow> no_fault (h s)) \<Longrightarrow> no_fault (bind_o (get_struct p j) h)"
  "wf_seq p \<Longrightarrow> (\<And>s. wf_list s \<Longrightarrow> no_fault (h' s)) \<Longrightarrow> no_fault (bind_o (get_list p j) h')"
  "(\<And>x. no_fault (k x)) \<Longrightarrow> no_fault (bind_o (get_octet_uint_param p j) k)"
  "(\<And>x. no_fault (k x)) \<Longrightarrow> no_fault (bind_o (get_integer_param p j) k)"
  by (auto intro!: bind_no_fault get_no_fault dest: get_struct_wf get_list_wf)

lemmas no_fault_intros = arr_no_fault get_bind_no_fault require_no_fault get_no_fault

lemma parse_s_nssai_no_fault: "wf_struct s \<Longrightarrow> no_fault (parse_s_nssai s)"
  unfolding parse_s_nssai_def
  by (intro no_fault_intros bind_no_fault [where m = "if _ then _ else _"]) (auto intro!: no_fault_intros)

lemma parse_rrm_policy_no_fault: "wf_seq p \<Longrightarrow> no_fault (parse_rrm_policy p)"
  unfolding parse_rrm_policy_def
  by (intro no_fault_intros parse_s_nssai_no_fault) (auto intro: wf_lst_struct)

lemma parse_ratios_no_fault: "wf_struct s \<Longrightarrow> sz_ran_param_struct s = 4 \<Longrightarrow> no_fault (parse_ratios (struct_arr s))"
  unfolding parse_ratios_def by (intro no_fault_intros) auto

lemma parse_group_no_fault: "wf_lst g \<Longrightarrow> no_fault (parse_slice_policy_group g)"
  unfolding parse_slice_policy_group_def Let_def
  by (intro no_fault_intros) (auto intro!: wf_lst_struct bind_no_fault parse_rrm_policy_no_fault parse_ratios_no_fault)

lemma parse_groups_no_fault: "wf_lsts gs \<Longrightarrow> no_fault (parse_groups (length gs) gs)"
  by (induction gs) (auto intro!: bind_no_fault parse_group_no_fault)

lemma parse_ctrl_msg_no_fault:
  assumes "wf_msg m"
  shows "no_fault (parse_ctrl_msg (Some m))"
proof -
  obtain xs where xs: "ran_param_arr m = Some xs" "length xs = sz_ran_param m" "wf_seqs xs" "0 < sz_ran_param m"
    using assms by (auto simp: wf_msg_def)
  then obtain p where p: "arr_nth (Some xs) 0 = Done p" "wf_seq p" by (auto simp: wf_seqs_iff)
  have l: "no_fault (case list_arr l of None \<Rightarrow> if sz_lst_ran_param l = 0 then Done [] else Fault
      | Some gs \<Rightarrow> parse_groups (sz_lst_ran_param l) gs)" if "wf_list l" for l
    using that by (cases l rule: wf_list.cases) (auto intro: parse_groups_no_fault)
  show ?thesis
    using p unfolding parse_ctrl_msg_def option.case xs(1)
    by (auto intro!: no_fault_intros l)
qed

end
