(* ===== verification/Slice_Xapp.thy ===== *)
theory Slice_Xapp
  imports Rc_Slice_Control
begin

text \<open>
  The slice control xApp (\<^verbatim>\<open>flexric/examples/xApp/c/rc_slice_ctrl/xapp_rc_slice_ctrl.c\<close>):
  construction of the E2SM-RC control request from slice policies, the reader of the JSON policy
  file, command line handling and the request loop.

  Pointers into the policy text are indices (theory \<open>C_String\<close>). The file system
  (\<^verbatim>\<open>read_text_file\<close>), the xApp API call that sends a control request
  (\<^verbatim>\<open>control_sm_xapp_api\<close>) and the clock are arguments of the definitions that use them.
\<close>

section \<open>Policies\<close>

record slice_policy_cfg =
  plmn :: string
  cfg_sst :: string
  cfg_sd :: string
  min_prb :: int
  max_prb :: int
  dedicated_prb :: int

section \<open>Construction of the control request\<close>

definition make_int_value :: "int \<Rightarrow> ran_parameter_value option" where
  "make_int_value value = Some (INTEGER_RAN_PARAMETER_VALUE value)"

definition make_octet_value :: "string \<Rightarrow> ran_parameter_value option" where
  "make_octet_value value = Some (OCTET_STRING_RAN_PARAMETER_VALUE (cp_str_to_ba value))"

definition make_int_param :: "u32 \<Rightarrow> int \<Rightarrow> seq_ran_param" where
  "make_int_param i value = Seq_ran_param i (ELEMENT_KEY_FLAG_FALSE (make_int_value value))"

definition make_octet_param :: "u32 \<Rightarrow> string \<Rightarrow> seq_ran_param" where
  "make_octet_param i value = Seq_ran_param i (ELEMENT_KEY_FLAG_FALSE (make_octet_value value))"

text \<open>The C code allocates the arrays and fills every entry afterwards; here they come filled.\<close>

definition make_struct_param :: "u32 \<Rightarrow> seq_ran_param list \<Rightarrow> seq_ran_param" where
  "make_struct_param i xs = Seq_ran_param i (STRUCTURE (Some (Ran_param_struct (length xs) (Some xs))))"

definition make_list_param :: "u32 \<Rightarrow> lst_ran_param list \<Rightarrow> seq_ran_param" where
  "make_list_param i xs = Seq_ran_param i (LIST (Some (Ran_param_list (length xs) (Some xs))))"

definition make_slice_policy_group :: "slice_policy_cfg \<Rightarrow> lst_ran_param" where
  "make_slice_policy_group cfg =
     (let s_nssai = make_struct_param RC_SLICE_PARAM_S_NSSAI
                      [make_octet_param RC_SLICE_PARAM_SST (cfg_sst cfg),
                       make_octet_param RC_SLICE_PARAM_SD (cfg_sd cfg)];
          member = Lst_ran_param (Ran_param_struct 2 (Some
                      [make_octet_param RC_SLICE_PARAM_PLMN_IDENTITY (plmn cfg), s_nssai]));
          member_list = make_list_param RC_SLICE_PARAM_RRM_POLICY_MEMBER_LIST [member];
          rrm_policy = make_struct_param RC_SLICE_PARAM_RRM_POLICY [member_list]
      in Lst_ran_param (Ran_param_struct 4 (Some
           [rrm_policy,
            make_int_param RC_SLICE_PARAM_MIN_PRB_POLICY_RATIO (min_prb cfg),
            make_int_param RC_SLICE_PARAM_MAX_PRB_POLICY_RATIO (max_prb cfg),
            make_int_param RC_SLICE_PARAM_DEDICATED_PRB_POLICY_RATIO (dedicated_prb cfg)])))"

definition gen_rc_slice_ctrl :: "slice_policy_cfg list \<Rightarrow> rc_ctrl_req_data" where
  "gen_rc_slice_ctrl policies =
     \<lparr>hdr_format = FORMAT_1_E2SM_RC_CTRL_HDR, ric_style_type = 2,
      ctrl_act_id = RC_CTRL_ACTION_SLICE_LEVEL_PRB_QUOTA, msg_format = FORMAT_1_E2SM_RC_CTRL_MSG,
      msg_frmt_1 = \<lparr>sz_ran_param = 1, ran_param_arr =
        Some [make_list_param RC_SLICE_PARAM_RRM_POLICY_RATIO_LIST (map make_slice_policy_group policies)]\<rparr>\<rparr>"

text \<open>Release of the request (\<^verbatim>\<open>rc_data_ie.c\<close>), without that of the UE identity.\<close>

definition free_rc_ctrl_req_data :: "rc_ctrl_req_data \<Rightarrow> unit outcome" where
  "free_rc_ctrl_req_data ctrl =
     c_assert (ctrl_act_id ctrl > 0) (free_e2sm_rc_ctrl_msg_frmt_1 (msg_frmt_1 ctrl))"

section \<open>Reading JSON\<close>

function skip_ws :: "string \<Rightarrow> nat \<Rightarrow> nat" where
  "skip_ws s p = (if chr_at s p \<noteq> NUL \<and> isspace (chr_at s p) then skip_ws s (Suc p) else p)"
  by pat_completeness auto
termination
  by (relation "measure (\<lambda>(s, p). length s - p)") (auto dest!: chr_at_bound)

function find_json_key :: "string \<Rightarrow> nat \<Rightarrow> nat \<Rightarrow> string \<Rightarrow> nat option" where
  "find_json_key s p end key =
     (let needle = CHR ''\"'' # key @ ''\"'' in
      case strstr s p needle of
        None \<Rightarrow> None
      | Some q \<Rightarrow>
          if \<not> q < end then None
          else let colon = skip_ws s (q + length needle)
               in if chr_at s colon = CHR '':'' then Some (colon + 1)
                  else find_json_key s (q + length needle) end key)"
  by pat_completeness auto
termination
proof (relation "measure (\<lambda>(s, p, _). length s - p)", goal_cases)
  case (2 s p "end" key needle q colon)
  then have "p \<le> q" "matches_at s q needle" "needle \<noteq> []" using strstr_Some by auto
  with matches_at_length [of s q needle] show ?case by (cases needle) auto
qed simp

declare skip_ws.simps [simp del] find_json_key.simps [simp del]

function scan_string :: "string \<Rightarrow> nat \<Rightarrow> nat \<Rightarrow> nat" where
  "scan_string s end q =
     (if q < end \<and> chr_at s q \<noteq> CHR ''\"'' \<and> chr_at s q \<noteq> CHR 0x5C then scan_string s end (Suc q) else q)"
  by pat_completeness auto
termination
  by (relation "measure (\<lambda>(_, e, q). e - q)") auto

declare scan_string.simps [simp del]

definition parse_json_string :: "string \<Rightarrow> nat \<Rightarrow> nat \<Rightarrow> string \<Rightarrow> nat \<Rightarrow> string option" where
  "parse_json_string s start end key out_len =
     (case find_json_key s start end key of
        None \<Rightarrow> None
      | Some p \<Rightarrow>
          (let p = skip_ws s p
           in if chr_at s p \<noteq> CHR ''\"'' then None
              else let p = p + 1; q = scan_string s end p
                   in if q \<ge> end \<or> chr_at s q \<noteq> CHR ''\"'' \<or> q - p \<ge> out_len then None
                      else Some (c_str (map (chr_at s) [p..<q]))))"

definition parse_json_int :: "string \<Rightarrow> nat \<Rightarrow> nat \<Rightarrow> string \<Rightarrow> int option" where
  "parse_json_int s start end key =
     (case find_json_key s start end key of
        None \<Rightarrow> None
      | Some p \<Rightarrow>
          (let p = skip_ws s p; (v, n, erange) = strtol (drop p s)
           in if erange \<or> n = 0 \<or> p + n > end \<or> v < - (2 ^ 31) \<or> v > 2 ^ 31 - 1 then None else Some v))"

definition parse_json_string_or_int :: "string \<Rightarrow> nat \<Rightarrow> nat \<Rightarrow> string \<Rightarrow> nat \<Rightarrow> string option" where
  "parse_json_string_or_int s start end key out_len =
     (case parse_json_string s start end key out_len of
        Some t \<Rightarrow> Some t
      | None \<Rightarrow>
          (case parse_json_int s start end key of
             None \<Rightarrow> None
           | Some v \<Rightarrow>
               (let t = print_int v; n = length t in if n > 0 \<and> n < out_len then Some t else None)))"

definition parse_uint_text :: "string \<Rightarrow> int \<Rightarrow> int option" where
  "parse_uint_text t max_v =
     (let (v, n, erange) = strtoul t
      in if erange \<or> n = 0 \<or> chr_at t n \<noteq> NUL \<or> v > max_v then None else Some v)"

definition validate_policy :: "slice_policy_cfg \<Rightarrow> bool" where
  "validate_policy p =
     (if length (plmn p) < 5 \<or> length (plmn p) > 6 then False
      else if \<not> list_all isdigit (plmn p) then False
      else if parse_uint_text (cfg_sst p) 255 = None \<or> parse_uint_text (cfg_sd p) 0xffffff = None then False
      else if min_prb p < 0 \<or> min_prb p > 100 \<or> max_prb p < 0 \<or> max_prb p > 100 \<or> dedicated_prb p < 0
              \<or> dedicated_prb p > 100 then False
      else min_prb p \<le> dedicated_prb p \<and> dedicated_prb p \<le> max_prb p)"

text \<open>One iteration of the loop of \<^verbatim>\<open>find_matching_brace\<close> on a character: the new depth and
  string flag, or \<open>None\<close> when it is the closing brace. \<open>esc\<close>: a backslash precedes.\<close>

definition brace_step :: "char \<Rightarrow> bool \<Rightarrow> int \<Rightarrow> bool \<Rightarrow> (int \<times> bool) option" where
  "brace_step c esc depth in_str =
     (if c = CHR ''\"'' \<and> \<not> esc then Some (depth, \<not> in_str)
      else if in_str then Some (depth, in_str)
      else if c = CHR ''{'' then Some (depth + 1, in_str)
      else if c = CHR ''}'' then (if depth - 1 = 0 then None else Some (depth - 1, in_str))
      else Some (depth, in_str))"

function matching_brace :: "string \<Rightarrow> nat \<Rightarrow> nat \<Rightarrow> int \<Rightarrow> bool \<Rightarrow> nat option" where
  "matching_brace s opn p depth in_str =
     (if chr_at s p = NUL then None
      else case brace_step (chr_at s p) (p \<noteq> opn \<and> chr_at s (p - 1) = CHR 0x5C) depth in_str of
             None \<Rightarrow> Some p
           | Some (depth', in_str') \<Rightarrow> matching_brace s opn (Suc p) depth' in_str')"
  by pat_completeness auto
termination
  by (relation "measure (\<lambda>(s, _, p, _). length s - p)") (auto dest!: chr_at_bound)

declare matching_brace.simps [simp del]

definition find_matching_brace :: "string \<Rightarrow> nat \<Rightarrow> nat option" where
  "find_matching_brace s opn = matching_brace s opn opn 0 False"

lemma matching_brace_ge: "matching_brace s opn p d b = Some e \<Longrightarrow> p \<le> e \<and> e < length s"
proof (induction s opn p d b rule: matching_brace.induct)
  case (1 s opn p depth in_str)
  let ?b = "brace_step (chr_at s p) (p \<noteq> opn \<and> chr_at s (p - 1) = CHR 0x5C) depth in_str"
  have n: "chr_at s p \<noteq> NUL" using "1.prems" by (simp add: matching_brace.simps [of s opn p] split: if_splits)
  then have p: "p < length s" by (rule chr_at_bound)
  show ?case
  proof (cases ?b)
    case None
    then show ?thesis using "1.prems" n p by (simp add: matching_brace.simps [of s opn p])
  next
    case (Some db)
    obtain d' b' where db: "db = (d', b')" by fastforce
    with Some n "1.prems" have "matching_brace s opn (Suc p) d' b' = Some e"
      by (simp add: matching_brace.simps [of s opn p])
    from "1.IH" [OF n Some db [symmetric] this] show ?thesis by simp
  qed
qed

section \<open>Loading the policy file\<close>

text \<open>The entry between the braces at \<open>p\<close> and \<open>end\<close>.\<close>

definition parse_policy_entry :: "string \<Rightarrow> nat \<Rightarrow> nat \<Rightarrow> slice_policy_cfg option" where
  "parse_policy_entry s p end =
     (case parse_json_string s p end ''plmn'' 8 of None \<Rightarrow> None | Some pl \<Rightarrow>
     (case parse_json_string_or_int s p end ''sst'' 8 of None \<Rightarrow> None | Some st \<Rightarrow>
     (case parse_json_string_or_int s p end ''sd'' 16 of None \<Rightarrow> None | Some sdt \<Rightarrow>
     (case parse_json_int s p end ''min_prb'' of None \<Rightarrow> None | Some mn \<Rightarrow>
     (case parse_json_int s p end ''max_prb'' of None \<Rightarrow> None | Some mx \<Rightarrow>
     (case parse_json_int s p end ''dedicated_prb'' of None \<Rightarrow> None | Some dd \<Rightarrow>
       (let cfg = \<lparr>plmn = pl, cfg_sst = st, cfg_sd = sdt, min_prb = mn, max_prb = mx, dedicated_prb = dd\<rparr>
        in if validate_policy cfg then Some cfg else None)))))))"

text \<open>The loop over the entries, with the policies read so far and the sum of their dedicated
  shares; the flag says whether the loop ended without an error.\<close>

function load_loop :: "string \<Rightarrow> nat \<Rightarrow> int \<Rightarrow> slice_policy_cfg list \<Rightarrow> slice_policy_cfg list \<times> bool" where
  "load_loop s p dedicated_sum policies =
     (case strchr s p (CHR ''{'') of
        None \<Rightarrow> (policies, True)
      | Some p \<Rightarrow>
          (case find_matching_brace s p of
             None \<Rightarrow> (policies, False)
           | Some end \<Rightarrow>
               (case parse_policy_entry s p end of
                  None \<Rightarrow> (policies, False)
                | Some cfg \<Rightarrow>
                    if dedicated_sum + dedicated_prb cfg > 100 then (policies, False)
                    else load_loop s (end + 1) (dedicated_sum + dedicated_prb cfg) (policies @ [cfg]))))"
  by pat_completeness auto
termination
proof (relation "measure (\<lambda>(s, p, _). length s - p)", goal_cases)
  case (2 s p dedicated_sum policies q "end" cfg)
  then have "p \<le> q" "q \<le> end" "end < length s"
    using strchr_Some matching_brace_ge by (auto simp: find_matching_brace_def)
  then show ?case by simp
qed simp

declare load_loop.simps [simp del]

text \<open>\<open>read_text_file\<close> gives the contents of a file, if it can be read.\<close>

definition load_policy_file :: "(string \<Rightarrow> string option) \<Rightarrow> string \<Rightarrow> slice_policy_cfg list \<times> bool" where
  "load_policy_file read_text_file path =
     (case read_text_file path of
        None \<Rightarrow> ([], False)
      | Some json \<Rightarrow>
          (case strstr json 0 (CHR ''\"'' # ''policies'' @ ''\"'') of
             None \<Rightarrow> ([], False)
           | Some list \<Rightarrow>
               (case strchr json list (CHR ''['') of
                  None \<Rightarrow> ([], False)
                | Some arr \<Rightarrow>
                    (let (policies, ok) = load_loop json (arr + 1) 0 []
                     in (policies, ok \<and> policies \<noteq> [])))))"

section \<open>Command line\<close>

definition is_fr_option :: "string \<Rightarrow> bool" where
  "is_fr_option a \<longleftrightarrow> a = ''-c'' \<or> a = ''-p'' \<or> a = ''-a'' \<or> a = ''-d'' \<or> a = ''-n''"

text \<open>The options after \<^verbatim>\<open>argv[0]\<close>: the policy file and the socket; \<open>None\<close> is an error exit.\<close>

fun parse_args :: "string list \<Rightarrow> string option \<Rightarrow> string option \<Rightarrow> (string option \<times> string option) option" where
  "parse_args [] policy_file serve_path =
     (if (policy_file = None) = (serve_path = None) then None else Some (policy_file, serve_path))"
| "parse_args (a # as) policy_file serve_path =
     (if a = ''--policy-file'' then
        (case as of [] \<Rightarrow> None | v # as' \<Rightarrow> parse_args as' (Some v) serve_path)
      else if a = ''--serve'' then
        (case as of [] \<Rightarrow> None | v # as' \<Rightarrow> parse_args as' policy_file (Some v))
      else if a = ''--once'' then parse_args as policy_file serve_path
      else if is_fr_option a then
        (case as of [] \<Rightarrow> parse_args [] policy_file serve_path | v # as' \<Rightarrow> parse_args as' policy_file serve_path)
      else None)"

text \<open>\<^verbatim>\<open>fr_argv\<close> has room for 12 pointers; a store behind it is a \<open>Fault\<close>, the error exit is
  \<open>Rejected\<close>.\<close>

fun build_args_loop :: "string list \<Rightarrow> string list \<Rightarrow> string list outcome" where
  "build_args_loop [] fr_argv = Done fr_argv"
| "build_args_loop (a # as) fr_argv =
     (if is_fr_option a then
        (case as of
           [] \<Rightarrow> Rejected
         | v # as' \<Rightarrow> if length fr_argv + 2 > 12 then Fault else build_args_loop as' (fr_argv @ [a, v]))
      else build_args_loop as fr_argv)"

definition build_flexric_args :: "string list \<Rightarrow> string list outcome" where
  "build_flexric_args argv = (case argv of [] \<Rightarrow> Fault | prog # as \<Rightarrow> build_args_loop as [prog])"

section \<open>Sending controls\<close>

record ran_function =
  rf_id :: u16
  rf_is_rc :: bool

definition SM_RC_ID :: u16 where
  "SM_RC_ID = 3"

fun find_rc_ran_function_id :: "ran_function list \<Rightarrow> u16" where
  "find_rc_ran_function_id [] = 0"
| "find_rc_ran_function_id (f # fs) =
     (if rf_id f = SM_RC_ID \<or> rf_is_rc f then rf_id f else find_rc_ran_function_id fs)"

text \<open>\<open>control st n f c\<close> is the xApp API call on node number \<open>n\<close> with the state \<open>st\<close> of the
  E2 side; it returns the new state and \<^verbatim>\<open>ans.success\<close>.\<close>

fun send_loop ::
    "('s \<Rightarrow> nat \<Rightarrow> u16 \<Rightarrow> rc_ctrl_req_data \<Rightarrow> 's \<times> bool) \<Rightarrow> slice_policy_cfg list \<Rightarrow> nat \<Rightarrow>
     ran_function list list \<Rightarrow> 's \<Rightarrow> bool \<Rightarrow> bool \<Rightarrow> ('s \<times> bool) outcome" where
  "send_loop control policies i [] st sent success = Done (st, sent \<and> success)"
| "send_loop control policies i (node # nodes) st sent success =
     (let rc_ran_function = find_rc_ran_function_id node in
      if rc_ran_function = 0 then send_loop control policies (Suc i) nodes st sent success
      else let ctrl = gen_rc_slice_ctrl policies;
               (st', ok) = control st i rc_ran_function ctrl
           in bind_o (free_rc_ctrl_req_data ctrl) (\<lambda>_.
                send_loop control policies (Suc i) nodes st' True (success \<and> ok)))"

definition send_slice_controls ::
    "('s \<Rightarrow> nat \<Rightarrow> u16 \<Rightarrow> rc_ctrl_req_data \<Rightarrow> 's \<times> bool) \<Rightarrow> slice_policy_cfg list \<Rightarrow>
     ran_function list list \<Rightarrow> 's \<Rightarrow> ('s \<times> bool) outcome" where
  "send_slice_controls control policies nodes st = send_loop control policies 0 nodes st False True"

text \<open>
  One round of the loop of \<^verbatim>\<open>serve_requests\<close>: the bytes received (none if \<^verbatim>\<open>recv\<close> fails), the
  two time stamps, and as result the E2 state, the loaded policies and the reply.
\<close>

abbreviation quoted :: "string \<Rightarrow> string" where
  "quoted t \<equiv> CHR ''\"'' # t @ [CHR ''\"'']"

definition serve_reply :: "string \<Rightarrow> bool \<Rightarrow> int \<Rightarrow> int \<Rightarrow> string" where
  "serve_reply request_id success sent_ts_ms response_ts_ms =
     ''{'' @ quoted ''request_id'' @ '':'' @ quoted request_id @
     '','' @ quoted ''success'' @ '':'' @ (if success then ''true'' else ''false'') @
     '','' @ quoted ''sent_ts_ms'' @ '':'' @ print_int sent_ts_ms @
     '','' @ quoted ''response_ts_ms'' @ '':'' @ print_int response_ts_ms @
     (if success then [] else '','' @ quoted ''error'' @ '':'' @ quoted ''RC control failed or request was invalid'') @
     ''}'' @ [CHR 0x0A]"

definition serve_request ::
    "('s \<Rightarrow> nat \<Rightarrow> u16 \<Rightarrow> rc_ctrl_req_data \<Rightarrow> 's \<times> bool) \<Rightarrow> (string \<Rightarrow> string option) \<Rightarrow>
     ran_function list list \<Rightarrow> string \<Rightarrow> int \<Rightarrow> int \<Rightarrow> 's \<times> slice_policy_cfg list \<Rightarrow>
     ('s \<times> slice_policy_cfg list \<times> string) outcome" where
  "serve_request control read_text_file nodes request sent_ts_ms response_ts_ms st_pol =
     (let (st, policies) = st_pol; len = length request;
          parsed = (if len > 0 then
                      (case parse_json_string request 0 len ''request_id'' 96 of None \<Rightarrow> None
                       | Some request_id \<Rightarrow> map_option (Pair request_id) (parse_json_string request 0 len ''policy_file'' 1024))
                    else None)
      in case parsed of
           None \<Rightarrow> Done (st, policies, serve_reply ''invalid-request'' False sent_ts_ms response_ts_ms)
         | Some (request_id, policy_file) \<Rightarrow>
             (let (policies', loaded) = load_policy_file read_text_file policy_file
              in bind_o (if loaded then send_slice_controls control policies' nodes st else Done (st, False)) (\<lambda>(st', success).
                   Done (st', policies', serve_reply request_id success sent_ts_ms response_ts_ms))))"

section \<open>Loaded policies are valid\<close>

text \<open>The strings of a configuration are C strings.\<close>

definition c_strings :: "slice_policy_cfg \<Rightarrow> bool" where
  "c_strings cfg \<longleftrightarrow> NUL \<notin> set (plmn cfg) \<and> NUL \<notin> set (cfg_sst cfg) \<and> NUL \<notin> set (cfg_sd cfg)"

lemma parse_json_string_no_NUL: "parse_json_string s p e k n = Some t \<Longrightarrow> NUL \<notin> set t"
  by (auto simp: parse_json_string_def Let_def c_str_no_NUL split: option.splits if_splits)

lemma parse_json_string_or_int_no_NUL: "parse_json_string_or_int s p e k n = Some t \<Longrightarrow> NUL \<notin> set t"
  by (auto simp: parse_json_string_or_int_def Let_def print_int_no_NUL
      dest: parse_json_string_no_NUL split: option.splits if_splits)

lemma parse_policy_entry_valid:
  assumes "parse_policy_entry s p e = Some cfg"
  shows "validate_policy cfg" and "c_strings cfg"
  using assms parse_json_string_no_NUL parse_json_string_or_int_no_NUL
  by (auto simp: parse_policy_entry_def c_strings_def Let_def split: option.splits if_splits)

lemma load_loop_valid:
  assumes "load_loop s p d acc = (ps, ok)" and "\<forall>c \<in> set acc. validate_policy c \<and> c_strings c"
    and "d = sum_list (map dedicated_prb acc)" and "d \<le> 100"
  shows "(\<forall>c \<in> set ps. validate_policy c \<and> c_strings c) \<and> sum_list (map dedicated_prb ps) \<le> 100"
  using assms
proof (induction s p d acc rule: load_loop.induct)
  case (1 s p d acc)
  show ?case
  proof (cases "strchr s p (CHR ''{'')")
    case None
    then show ?thesis using "1.prems" by (simp add: load_loop.simps [of s p])
  next
    case (Some q)
    show ?thesis
    proof (cases "find_matching_brace s q")
      case None
      then show ?thesis using "1.prems" Some by (simp add: load_loop.simps [of s p])
    next
      case e: (Some e)
      show ?thesis
      proof (cases "parse_policy_entry s q e")
        case None
        then show ?thesis using "1.prems" Some e by (simp add: load_loop.simps [of s p])
      next
        case c: (Some cfg)
        note v = parse_policy_entry_valid [OF c]
        show ?thesis
        proof (cases "d + dedicated_prb cfg > 100")
          case True
          then show ?thesis using "1.prems" Some e c by (simp add: load_loop.simps [of s p])
        next
          case False
          have "load_loop s (e + 1) (d + dedicated_prb cfg) (acc @ [cfg]) = (ps, ok)"
            using "1.prems"(1) Some e c False by (simp add: load_loop.simps [of s p])
          then show ?thesis using "1.IH" [OF Some e c False] "1.prems"(2,3) False v by simp
        qed
      qed
    qed
  qed
qed

lemma load_policy_file_valid:
  assumes "load_policy_file read_text_file path = (ps, True)"
  shows "ps \<noteq> []" "\<forall>c \<in> set ps. validate_policy c \<and> c_strings c" "sum_list (map dedicated_prb ps) \<le> 100"
proof -
  obtain json l arr where "read_text_file path = Some json" "strchr json l (CHR ''['') = Some arr"
    and l: "load_loop json (arr + 1) 0 [] = (ps, True)" "ps \<noteq> []"
    using assms by (auto simp: load_policy_file_def Let_def split: option.splits prod.splits)
  from load_loop_valid [OF l(1)] l(2)
  show "ps \<noteq> []" "\<forall>c \<in> set ps. validate_policy c \<and> c_strings c" "sum_list (map dedicated_prb ps) \<le> 100"
    by auto
qed

section \<open>The gNB reads back what the xApp sends\<close>

text \<open>The scheduler policy a configuration stands for.\<close>

definition policy_of :: "slice_policy_cfg \<Rightarrow> nr_dl_slice_policy_t" where
  "policy_of cfg =
     \<lparr>active = True,
      pol_nssai = \<lparr>sst = word_of_int (the (parse_uint_text (cfg_sst cfg) 255)),
                   sd = word_of_int (the (parse_uint_text (cfg_sd cfg) 0xffffff))\<rparr>,
      min_prb_ratio = word_of_int (min_prb cfg), max_prb_ratio = word_of_int (max_prb cfg),
      dedicated_prb_ratio = word_of_int (dedicated_prb cfg)\<rparr>"

lemma get_octet_made:
  assumes "parse_uint_text t m = Some v" and "m \<le> 0xffffff" and "NUL \<notin> set t"
  shows "get_octet_uint_param (make_octet_param i t) i = Done v"
proof -
  obtain n where st: "strtoul t = (v, n, False)" "n \<noteq> 0" "chr_at t n = NUL" "v \<le> m"
    using assms(1) by (auto simp: parse_uint_text_def Let_def split: prod.splits if_splits)
  have "t \<noteq> []" using st(1,2) by (auto simp: strtoul_def subject_def Let_def split: option.splits if_splits)
  moreover have "chr_at (t @ [NUL]) n = NUL" using st(3) by (auto simp: chr_at_def nth_append)
  ultimately show ?thesis
    using assms st c_str_id [OF assms(3)]
    by (simp add: get_octet_uint_param_def make_octet_param_def make_octet_value_def cp_str_to_ba_def
        cp_ba_to_str_def strtoul_NUL)
qed

lemma get_integer_made: "get_integer_param (make_int_param i v) i = Done v"
  by (simp add: get_integer_param_def make_int_param_def make_int_value_def)

lemma get_struct_made: "get_struct (make_struct_param i xs) i = Done (Ran_param_struct (length xs) (Some xs))"
  by (simp add: get_struct_def make_struct_param_def)

lemma get_list_made: "get_list (make_list_param i xs) i = Done (Ran_param_list (length xs) (Some xs))"
  by (simp add: get_list_def make_list_param_def)

lemma validate_policy_cases:
  assumes "validate_policy cfg"
  obtains u v where "parse_uint_text (cfg_sst cfg) 255 = Some u" "parse_uint_text (cfg_sd cfg) 0xffffff = Some v"
    "u \<le> 255" "v \<le> 0xffffff" "valid_ratios (min_prb cfg) (max_prb cfg) (dedicated_prb cfg)"
  using assms
  by (auto simp: validate_policy_def valid_ratios_def parse_uint_text_def Let_def split: if_splits prod.splits)

lemma parse_made_group:
  assumes "validate_policy cfg" and "c_strings cfg"
  shows "parse_slice_policy_group (make_slice_policy_group cfg) = Done (policy_of cfg)"
proof -
  from assms(1) obtain u v where uv: "parse_uint_text (cfg_sst cfg) 255 = Some u"
    "parse_uint_text (cfg_sd cfg) 0xffffff = Some v" "u \<le> 255" "v \<le> 0xffffff"
    and r: "valid_ratios (min_prb cfg) (max_prb cfg) (dedicated_prb cfg)"
    by (rule validate_policy_cases)
  have o: "get_octet_uint_param (make_octet_param RC_SLICE_PARAM_SST (cfg_sst cfg)) RC_SLICE_PARAM_SST = Done u"
    "get_octet_uint_param (make_octet_param RC_SLICE_PARAM_SD (cfg_sd cfg)) RC_SLICE_PARAM_SD = Done v"
    using uv assms(2) by (auto intro: get_octet_made simp: c_strings_def)
  show ?thesis
    using uv r
    by (simp add: make_slice_policy_group_def Let_def parse_slice_policy_group_def parse_rrm_policy_def
        parse_ratios_def parse_s_nssai_def get_struct_made get_list_made get_integer_made o policy_of_def)
qed

lemma parse_made_groups:
  assumes "\<forall>c \<in> set ps. validate_policy c \<and> c_strings c"
  shows "parse_groups (length ps) (map make_slice_policy_group ps) = Done (map policy_of ps)"
  using assms by (induction ps) (simp_all add: parse_made_group)

lemma parse_made_msg:
  assumes "\<forall>c \<in> set ps. validate_policy c \<and> c_strings c" and "int (length ps) \<le> MAX_NUM_SLICES"
  shows "parse_ctrl_msg (Some (msg_frmt_1 (gen_rc_slice_ctrl ps))) = Done (map policy_of ps)"
  using assms(2) parse_made_groups [OF assms(1)]
  by (simp add: parse_ctrl_msg_def gen_rc_slice_ctrl_def get_list_made)

lemma made_group_wf: "wf_lst (make_slice_policy_group cfg)"
  by (simp add: make_slice_policy_group_def Let_def make_struct_param_def make_list_param_def make_octet_param_def
      make_octet_value_def make_int_param_def make_int_value_def rc_param_ids)

lemma made_msg_wf:
  assumes "ps \<noteq> []" and "length ps < 65536"
  shows "wf_msg (msg_frmt_1 (gen_rc_slice_ctrl ps))"
  using assms made_group_wf
  by (auto simp: wf_msg_def gen_rc_slice_ctrl_def make_list_param_def wf_lsts_iff rc_param_ids)

lemma free_made:
  assumes "ps \<noteq> []" and "length ps < 65536"
  shows "free_rc_ctrl_req_data (gen_rc_slice_ctrl ps) = Done ()"
proof -
  obtain xs where xs: "ran_param_arr (msg_frmt_1 (gen_rc_slice_ctrl ps)) = Some xs"
    "length xs = sz_ran_param (msg_frmt_1 (gen_rc_slice_ctrl ps))" "wf_seqs xs"
    using made_msg_wf [OF assms] by (auto simp: wf_msg_def)
  with free_ok(4) [of xs] have "free_e2sm_rc_ctrl_msg_frmt_1 (msg_frmt_1 (gen_rc_slice_ctrl ps)) = Done ()"
    by (simp add: free_e2sm_rc_ctrl_msg_frmt_1_def)
  then show ?thesis by (simp add: free_rc_ctrl_req_data_def gen_rc_slice_ctrl_def rc_param_ids)
qed

end
