(* ===== verification/Slice_Control_Properties.thy ===== *)
theory Slice_Control_Properties
  imports Slice_Xapp
begin

text \<open>
  Properties of the slice control path, from the policy file of the xApp through the E2SM-RC control
  message to the slice policies of the MAC. A concrete policy file and MAC instance show that the
  hypotheses can be met.
\<close>

section \<open>Scenario\<close>

definition file_json :: string where
  "file_json = ''{\"policies\":[{\"plmn\":\"00101\",\"sst\":1,\"sd\":2,\"min_prb\":0,\"max_prb\":9,\"dedicated_prb\":5}]}''"

definition file_cfg :: slice_policy_cfg where
  "file_cfg = \<lparr>plmn = ''00101'', cfg_sst = ''1'', cfg_sd = ''2'', min_prb = 0, max_prb = 9, dedicated_prb = 5\<rparr>"

lemma file_search:
  "strstr file_json 0 (CHR ''\"'' # ''policies'' @ ''\"'') = Some 1" "strchr file_json 1 (CHR ''['') = Some 12"
  "strchr file_json 13 (CHR ''{'') = Some 13" "find_matching_brace file_json 13 = Some 85"
  "strchr file_json 86 (CHR ''{'') = None"
  by code_simp+

lemma file_entry:
  "parse_json_string file_json 13 85 ''plmn'' 8 = Some ''00101''"
  "parse_json_string_or_int file_json 13 85 ''sst'' 8 = Some ''1''"
  "parse_json_string_or_int file_json 13 85 ''sd'' 16 = Some ''2''"
  "parse_json_int file_json 13 85 ''min_prb'' = Some 0"
  "parse_json_int file_json 13 85 ''max_prb'' = Some 9"
  "parse_json_int file_json 13 85 ''dedicated_prb'' = Some 5"
  by code_simp+

lemma file_cfg_valid: "validate_policy file_cfg"
  by code_simp

lemma file_load: "load_policy_file (\<lambda>_. Some file_json) ''p.json'' = ([file_cfg], True)"
proof -
  have e: "parse_policy_entry file_json 13 85 = Some file_cfg"
    using file_cfg_valid by (simp add: parse_policy_entry_def file_entry Let_def file_cfg_def)
  have "load_loop file_json 86 5 [file_cfg] = ([file_cfg], True)"
    by (simp add: load_loop.simps file_search)
  then have "load_loop file_json 13 0 [] = ([file_cfg], True)"
    by (simp add: load_loop.simps [of file_json 13] file_search e) (simp add: file_cfg_def)
  then show ?thesis by (simp only: load_policy_file_def option.case file_search Let_def) simp
qed

lemma file_cfgs: "\<forall>c \<in> set [file_cfg]. validate_policy c \<and> c_strings c"
  by (rule load_policy_file_valid(2) [OF file_load])

definition idle_mac :: "unit gNB_MAC_INST" where
  "idle_mac = \<lparr>dl_slice_policy = (\<lambda>_. zero_slice_policy), dl_slice_policy_count = 0,
     dl_slice_policy_enabled = False, dl_slice_policy_prb_used = (\<lambda>_. 0), dl_slice_policy_last_log_frame = 0,
     dl_bler = \<lparr>opt_lower = 0, opt_upper = 1, opt_min_mcs = 0, opt_max_mcs = 28, harq_round_max = 4\<rparr>,
     vrb_maps = (\<lambda>_ _. 0), mac_rest = ()\<rparr>"

section \<open>From the policy file to the MAC\<close>

text \<open>
  A policy file that loads has at least one policy; every policy passed validation and the
  dedicated shares of all policies add up to at most 100.
\<close>

theorem loaded_policies_valid:
  assumes "load_policy_file read_text_file path = (ps, True)"
  shows "ps \<noteq> [] \<and> (\<forall>c \<in> set ps. validate_policy c) \<and> sum_list (map dedicated_prb ps) \<le> 100"
  using load_policy_file_valid [OF assms] by blast

theorem loaded_policies_valid_witness: "validate_policy file_cfg \<and> sum_list (map dedicated_prb [file_cfg]) \<le> 100"
  using loaded_policies_valid [OF file_load] by simp

text \<open>
  C6: the control request the xApp builds from at most \<^verbatim>\<open>MAX_NUM_SLICES\<close> validated policies is
  accepted by the gNB handler, which installs exactly these policies.
\<close>

theorem xapp_policies_installed:
  assumes "\<forall>c \<in> set ps. validate_policy c \<and> c_strings c" and "int (length ps) \<le> MAX_NUM_SLICES"
  shows "write_ctrl_rc_sm True (Some mac) (gen_rc_slice_ctrl ps) =
           Done (Some (installed (map policy_of ps) mac), CTRL_OUTCOME_SM_AG_IF_ANS_V0)"
proof -
  note p = parse_made_msg [OF assms]
  have "nr_mac_set_dl_slice_policies (Some mac) (map policy_of ps) = (Some (installed (map policy_of ps) mac), True)"
    using parse_ctrl_msg_valid [OF p] by (intro set_policies_ok) auto
  then show ?thesis
    using p by (simp add: write_ctrl_rc_sm_def apply_rc_ctrl_style_2_slice_level_prb_quota_def gen_rc_slice_ctrl_def)
qed

theorem xapp_policies_installed_witness:
  "write_ctrl_rc_sm True (Some idle_mac) (gen_rc_slice_ctrl [file_cfg]) =
     Done (Some (installed [policy_of file_cfg] idle_mac), CTRL_OUTCOME_SM_AG_IF_ANS_V0)"
  using xapp_policies_installed [OF file_cfgs, of idle_mac] by (simp add: MAX_NUM_SLICES_def)

text \<open>
  The budgets the scheduler derives from the policies of a loaded policy file never exceed the
  available resource blocks, on any number of beams.
\<close>

theorem loaded_budgets_fit:
  assumes "load_policy_file read_text_file path = (ps, True)"
    and "\<forall>b. 0 \<le> b \<and> b < num_beams params \<longrightarrow> 0 \<le> n_rb_avail params b"
  shows "sum_list (map (slice_budget params \<circ> policy_of) ps) \<le> sum_list (map (n_rb_avail params) [0..num_beams params - 1])"
proof -
  note v = load_policy_file_valid [OF assms(1)]
  have "uint (dedicated_prb_ratio (policy_of c)) = dedicated_prb c" if "c \<in> set ps" for c
    using v(2) that by (auto elim!: validate_policy_cases simp: policy_of_def valid_ratios_def uint_word_of_int)
  then have "map (uint \<circ> dedicated_prb_ratio) (map policy_of ps) = map dedicated_prb ps" by simp
  then have "sum_list (map (uint \<circ> dedicated_prb_ratio) (map policy_of ps)) \<le> 100" using v(3) by (simp only:)
  from slice_budget_sum [OF assms(2) this] show ?thesis by simp
qed

theorem loaded_budgets_fit_witness:
  "sum_list (map (slice_budget \<lparr>frame = 0, slot = 0, num_beams = 1, max_num_ue = 4, n_rb_avail = (\<lambda>_. 106)\<rparr> \<circ> policy_of) [file_cfg]) \<le> 106"
  using loaded_budgets_fit [OF file_load, of "\<lparr>frame = 0, slot = 0, num_beams = 1, max_num_ue = 4, n_rb_avail = (\<lambda>_. 106)\<rparr>"]
  by (simp add: upto.simps)

text \<open>
  C10: the handler of the slice quota control is atomic. If it reports success, exactly the policies
  of the message are installed; if it reports failure, the MAC instance is unchanged. (The
  parser rejects everything \<^verbatim>\<open>nr_mac_set_dl_slice_policies\<close> would reject half way.)
\<close>

theorem slice_control_atomic:
  assumes "apply_rc_ctrl_style_2_slice_level_prb_quota True (Some mac) msg = Done (mac', ok)"
  shows "if ok then \<exists>ps. parse_ctrl_msg msg = Done ps \<and> list_all valid_slice_ratios ps \<and> mac' = Some (installed ps mac)
         else mac' = Some mac"
  using assms
proof (cases rule: apply_cases)
  case (installed ps)
  with parse_ctrl_msg_valid(2) [OF installed(1)] show ?thesis by (auto simp: list_all_iff)
qed simp

theorem slice_control_atomic_witness:
  "(\<exists>mac'. apply_rc_ctrl_style_2_slice_level_prb_quota True (Some idle_mac) (Some (msg_frmt_1 (gen_rc_slice_ctrl [file_cfg]))) = Done (mac', True) \<and>
      mac' = Some (installed [policy_of file_cfg] idle_mac)) \<and>
   (\<exists>mac'. apply_rc_ctrl_style_2_slice_level_prb_quota True (Some idle_mac)
        (Some (msg_frmt_1 (gen_rc_slice_ctrl [file_cfg, file_cfg\<lparr>min_prb := 10\<rparr>]))) = Done (mac', False) \<and> mac' = Some idle_mac)"
proof
  let ?msg = "Some (msg_frmt_1 (gen_rc_slice_ctrl [file_cfg]))"
  have p: "parse_ctrl_msg ?msg = Done [policy_of file_cfg]"
    using parse_made_msg [OF file_cfgs] by (simp add: MAX_NUM_SLICES_def gen_rc_slice_ctrl_def)
  then have "nr_mac_set_dl_slice_policies (Some idle_mac) [policy_of file_cfg] = (Some (installed [policy_of file_cfg] idle_mac), True)"
    using parse_ctrl_msg_valid [OF p] by (intro set_policies_ok) auto
  then obtain mac' where a: "apply_rc_ctrl_style_2_slice_level_prb_quota True (Some idle_mac) ?msg = Done (mac', True)"
    using p by (simp add: apply_rc_ctrl_style_2_slice_level_prb_quota_def)
  then show "\<exists>mac'. apply_rc_ctrl_style_2_slice_level_prb_quota True (Some idle_mac) ?msg = Done (mac', True) \<and>
      mac' = Some (installed [policy_of file_cfg] idle_mac)" using slice_control_atomic [OF a] p by simp
next
  let ?msg = "Some (msg_frmt_1 (gen_rc_slice_ctrl [file_cfg, file_cfg\<lparr>min_prb := 10\<rparr>]))"
  have "parse_ctrl_msg ?msg = Rejected" by code_simp
  then obtain mac' where a: "apply_rc_ctrl_style_2_slice_level_prb_quota True (Some idle_mac) ?msg = Done (mac', False)"
    by (simp add: apply_rc_ctrl_style_2_slice_level_prb_quota_def)
  then show "\<exists>mac'. apply_rc_ctrl_style_2_slice_level_prb_quota True (Some idle_mac) ?msg = Done (mac', False) \<and> mac' = Some idle_mac"
    using slice_control_atomic [OF a] by simp
qed

text \<open>
  C34: on a message whose arrays have the sizes they announce, the parser of the slice quota control
  never reads through a null pointer or behind an array.
\<close>

theorem slice_control_no_invalid_access:
  assumes "wf_msg m"
  shows "parse_ctrl_msg (Some m) \<noteq> Fault"
  using parse_ctrl_msg_no_fault [OF assms] by (simp add: no_fault_def)

theorem slice_control_no_invalid_access_witness:
  "parse_ctrl_msg (Some (msg_frmt_1 (gen_rc_slice_ctrl [file_cfg]))) \<noteq> Fault"
  by (rule slice_control_no_invalid_access) (rule made_msg_wf; simp)

text \<open>
  An empty octet string as SST of a well-formed control message aborts the gNB, because
  \<^verbatim>\<open>cp_ba_to_str\<close> asserts a positive length before the parser can reject the value.
\<close>

theorem empty_sst_aborts:
  "let m = msg_frmt_1 (gen_rc_slice_ctrl [file_cfg\<lparr>cfg_sst := []\<rparr>])
   in wf_msg m \<and> write_ctrl_rc_sm True (Some idle_mac) (gen_rc_slice_ctrl [file_cfg\<lparr>cfg_sst := []\<rparr>]) = Abort"
proof -
  have "parse_ctrl_msg (Some (msg_frmt_1 (gen_rc_slice_ctrl [file_cfg\<lparr>cfg_sst := []\<rparr>]))) = Abort"
    by code_simp
  then show ?thesis
    using made_msg_wf [of "[file_cfg\<lparr>cfg_sst := []\<rparr>]"]
    by (simp add: Let_def write_ctrl_rc_sm_def apply_rc_ctrl_style_2_slice_level_prb_quota_def gen_rc_slice_ctrl_def)
qed

text \<open>
  The answer of \<^verbatim>\<open>write_ctrl_rc_sm\<close> does not tell whether the control was applied: a request
  with a dedicated share above the maximum is rejected with the answer of an accepted one.
\<close>

theorem control_answer_hides_rejection:
  "\<exists>ctrl. ctrl_act_id ctrl = 6 \<and>
     apply_rc_ctrl_style_2_slice_level_prb_quota True (Some idle_mac) (Some (msg_frmt_1 ctrl)) = Done (Some idle_mac, False) \<and>
     write_ctrl_rc_sm True (Some idle_mac) ctrl = Done (Some idle_mac, CTRL_OUTCOME_SM_AG_IF_ANS_V0)"
proof -
  let ?c = "gen_rc_slice_ctrl [file_cfg\<lparr>dedicated_prb := 60\<rparr>]"
  have "parse_ctrl_msg (Some (msg_frmt_1 ?c)) = Rejected" by code_simp
  then have "apply_rc_ctrl_style_2_slice_level_prb_quota True (Some idle_mac) (Some (msg_frmt_1 ?c)) = Done (Some idle_mac, False)"
    by (simp add: apply_rc_ctrl_style_2_slice_level_prb_quota_def)
  then show ?thesis
    by (intro exI [of _ ?c]) (simp add: write_ctrl_rc_sm_def, simp add: gen_rc_slice_ctrl_def rc_param_ids)
qed

section \<open>The xApp\<close>

lemma send_loop_returns:
  assumes "ps \<noteq> []" and "length ps < 65536"
  shows "\<exists>st' r. send_loop control ps i nodes st sent success = Done (st', r) \<and>
           (r \<longrightarrow> (sent \<or> (\<exists>n \<in> set nodes. find_rc_ran_function_id n \<noteq> 0)) \<and> success)"
proof (induction nodes arbitrary: i st sent success)
  case (Cons node nodes)
  obtain st' ok where c: "control st i (find_rc_ran_function_id node) (gen_rc_slice_ctrl ps) = (st', ok)" by fastforce
  show ?case
    using Cons.IH [of "Suc i" st sent success] Cons.IH [of "Suc i" st' True "success \<and> ok"] c free_made [OF assms]
    by (auto simp: Let_def)
qed simp

text \<open>
  Sending the controls never fails an assertion when releasing the request: for at least one and
  fewer than 65536 policies it returns, and it reports success only if some connected node has an RC
  RAN function.
\<close>

theorem send_slice_controls_returns:
  assumes "ps \<noteq> []" and "length ps < 65536"
  shows "\<exists>st' r. send_slice_controls control ps nodes st = Done (st', r) \<and>
           (r \<longrightarrow> (\<exists>n \<in> set nodes. find_rc_ran_function_id n \<noteq> 0))"
  using send_loop_returns [OF assms, of control 0 nodes st False True] by (auto simp: send_slice_controls_def)

theorem send_slice_controls_returns_witness:
  "\<exists>st' r. send_slice_controls (\<lambda>st _ _ _. (st, True)) [file_cfg] [[\<lparr>rf_id = 3, rf_is_rc = True\<rparr>]] () = Done (st', r)"
  using send_slice_controls_returns [of "[file_cfg]" "\<lambda>st _ _ _. (st, True)" "[[\<lparr>rf_id = 3, rf_is_rc = True\<rparr>]]" "()"]
  by auto

text \<open>
  A slice type or differentiator given as JSON number is printed and read back to the same number:
  \<^verbatim>\<open>snprintf\<close> with \<^verbatim>\<open>%d\<close> followed by \<^verbatim>\<open>parse_uint_text\<close> is the identity on the numbers
  up to the limit.
\<close>

theorem printed_number_read_back:
  assumes "0 \<le> x" and "x \<le> m" and "m < 2 ^ 64"
  shows "parse_uint_text (print_int x) m = Some x"
proof -
  have "print_int x \<noteq> []" using assms(1) dec_digits_shape(1) by (simp add: print_int_def)
  then show ?thesis using assms strtoul_print [of x] by (simp add: parse_uint_text_def chr_at_def)
qed

theorem printed_number_read_back_witness: "parse_uint_text (print_int 200) 255 = Some 200"
  using printed_number_read_back [of 200 255] by simp

lemma build_args_loop_safe:
  "length fr + 2 * length (filter is_fr_option as) \<le> 12 \<Longrightarrow> build_args_loop as fr \<noteq> Fault"
proof (induction as fr rule: build_args_loop.induct)
  case (2 a as fr)
  show ?case
  proof (cases "is_fr_option a")
    case True
    show ?thesis
    proof (cases as)
      case (Cons v as')
      have "length (filter is_fr_option as') \<le> length (filter is_fr_option as)" using Cons by simp
      with 2 True Cons show ?thesis by auto
    qed (use True in simp)
  qed (use 2 in auto)
qed simp

text \<open>
  C29: \<^verbatim>\<open>build_flexric_args\<close> stays inside its array for up to five options of the near-RT RIC
  library, and six of them, which \<^verbatim>\<open>main\<close> accepts, store behind it.
\<close>

theorem build_flexric_args_bound:
  "(\<forall>prog as. length (filter is_fr_option as) \<le> 5 \<longrightarrow> build_flexric_args (prog # as) \<noteq> Fault) \<and>
   (let as = concat (replicate 6 [''-c'', ''f'']) @ [''--policy-file'', ''p'']
    in parse_args as None None = Some (Some ''p'', None) \<and> build_flexric_args (''xapp'' # as) = Fault)"
proof -
  have "build_flexric_args (prog # as) \<noteq> Fault" if "length (filter is_fr_option as) \<le> 5" for prog as
    using that build_args_loop_safe [of "[prog]" as] by (simp add: build_flexric_args_def)
  moreover have "let as = concat (replicate 6 [''-c'', ''f'']) @ [''--policy-file'', ''p'']
    in parse_args as None None = Some (Some ''p'', None) \<and> build_flexric_args (''xapp'' # as) = Fault"
    by code_simp
  ultimately show ?thesis by blast
qed

theorem build_flexric_args_bound_witness: "build_flexric_args [''xapp'', ''-c'', ''f''] \<noteq> Fault"
proof -
  have "length (filter is_fr_option [''-c'', ''f'']) \<le> 5" by code_simp
  with build_flexric_args_bound show ?thesis by blast
qed

section \<open>E2SM-RC data\<close>

text \<open>
  A well-formed control message is copied unchanged, equals its copy and is released, without
  a failed assertion on the way.
\<close>

theorem control_message_copied:
  assumes "wf_msg m"
  shows "cp_e2sm_rc_ctrl_msg_frmt_1 m = Done m \<and> eq_e2sm_rc_ctrl_msg_frmt_1 m m = Done True \<and>
         free_e2sm_rc_ctrl_msg_frmt_1 m = Done ()"
proof -
  obtain xs where xs: "ran_param_arr m = Some xs" "length xs = sz_ran_param m" "wf_seqs xs"
    and n: "0 < sz_ran_param m" "sz_ran_param m < 65536" using assms by (auto simp: wf_msg_def)
  show ?thesis
    using xs n cp_id(4) [OF xs(3)] eq_refl(4) [OF xs(3)] free_ok(4) [OF xs(3)]
    by (simp add: cp_e2sm_rc_ctrl_msg_frmt_1_def eq_e2sm_rc_ctrl_msg_frmt_1_def free_e2sm_rc_ctrl_msg_frmt_1_def)
qed

theorem control_message_copied_witness:
  "cp_e2sm_rc_ctrl_msg_frmt_1 (msg_frmt_1 (gen_rc_slice_ctrl [file_cfg])) = Done (msg_frmt_1 (gen_rc_slice_ctrl [file_cfg]))"
  using control_message_copied [OF made_msg_wf [of "[file_cfg]"]] by simp

text \<open>
  An ASCII string equals the byte array made of it, but a string with a character above 127
  compares as smaller than its own byte array, because plain characters are signed.
\<close>

theorem cmp_str_ba_own_copy:
  "(\<forall>str. str \<noteq> [] \<and> (\<forall>c \<in> set str. c \<noteq> NUL \<and> (of_char c :: int) < 128) \<longrightarrow>
      cmp_str_ba str (cp_str_to_ba str) = Done 0) \<and>
   cmp_str_ba [CHR 0xE9] (cp_str_to_ba [CHR 0xE9]) = Done (- 1)"
proof -
  have "cmp_str_ba str (cp_str_to_ba str) = Done 0"
    if "str \<noteq> []" "\<forall>c \<in> set str. c \<noteq> NUL \<and> (of_char c :: int) < 128" for str
    using that cmp_loop_self [of str 0] c_str_id [of str] by (auto simp: cmp_str_ba_def cp_str_to_ba_def)
  moreover have "cmp_str_ba [CHR 0xE9] (cp_str_to_ba [CHR 0xE9]) = Done (- 1)" by code_simp
  ultimately show ?thesis by blast
qed

theorem cmp_str_ba_own_copy_witness: "cmp_str_ba ''RRM'' (cp_str_to_ba ''RRM'') = Done 0"
proof -
  have "''RRM'' \<noteq> [] \<and> (\<forall>c \<in> set ''RRM''. c \<noteq> NUL \<and> (of_char c :: int) < 128)" by (simp add: NUL_def)
  with cmp_str_ba_own_copy show ?thesis by blast
qed

end
