(* ===== verification/Rlc_Pdu.thy ===== *)
theory Rlc_Pdu
  imports Prelude
begin

text \<open>
  RLC PDUs (\<^verbatim>\<open>openair2/LAYER2/nr_rlc/nr_rlc_pdu.c\<close>) and SDU segments (\<^verbatim>\<open>nr_rlc_sdu.c\<close>):
  the sorted reception list, the bit level decoder and encoder of PDU headers, and segments of
  service data units. \<^verbatim>\<open>exit(1)\<close> is the result \<open>None\<close>.

  A buffer with its size is a list of bytes; linked lists are lists. Memory management (allocation,
  reference counts of shared SDUs) is not modelled.
\<close>

section \<open>Received PDUs\<close>

text \<open>\<open>pdu_data\<close> is \<open>None\<close> after the SDU has been reassembled (a null pointer in the code).\<close>

record nr_rlc_pdu =
  pdu_sn :: int
  pdu_so :: int
  pdu_size :: int
  pdu_is_first :: bool
  pdu_is_last :: bool
  pdu_data :: "u8 list option"

definition nr_rlc_new_pdu :: "int \<Rightarrow> int \<Rightarrow> bool \<Rightarrow> bool \<Rightarrow> u8 list \<Rightarrow> nr_rlc_pdu" where
  "nr_rlc_new_pdu sn so is_first is_last data =
     \<lparr>pdu_sn = sn, pdu_so = so, pdu_size = int (length data), pdu_is_first = is_first,
      pdu_is_last = is_last, pdu_data = Some data\<rparr>"

fun nr_rlc_pdu_list_add :: "(int \<Rightarrow> int \<Rightarrow> int) \<Rightarrow> nr_rlc_pdu list \<Rightarrow> nr_rlc_pdu \<Rightarrow> nr_rlc_pdu list" where
  "nr_rlc_pdu_list_add sn_compare [] pdu = [pdu]"
| "nr_rlc_pdu_list_add sn_compare (cur # rest) pdu =
     (if sn_compare (pdu_sn cur) (pdu_sn pdu) > 0 \<or> (pdu_sn cur = pdu_sn pdu \<and> pdu_so cur > pdu_so pdu)
      then pdu # cur # rest
      else cur # nr_rlc_pdu_list_add sn_compare rest pdu)"

section \<open>Decoder\<close>

record nr_rlc_pdu_decoder =
  dec_error :: bool
  dec_byte :: nat
  dec_bit :: nat
  dec_buffer :: "u8 list"

definition nr_rlc_pdu_decoder_init :: "u8 list \<Rightarrow> nr_rlc_pdu_decoder" where
  "nr_rlc_pdu_decoder_init buffer = \<lparr>dec_error = False, dec_byte = 0, dec_bit = 0, dec_buffer = buffer\<rparr>"

definition get_bit :: "nr_rlc_pdu_decoder \<Rightarrow> int \<times> nr_rlc_pdu_decoder" where
  "get_bit d =
     (if dec_byte d \<ge> length (dec_buffer d) then (0, d\<lparr>dec_error := True\<rparr>)
      else (of_bool (bit (dec_buffer d ! dec_byte d) (7 - dec_bit d)),
            if dec_bit d + 1 = 8 then d\<lparr>dec_bit := 0, dec_byte := dec_byte d + 1\<rparr>
            else d\<lparr>dec_bit := dec_bit d + 1\<rparr>))"

fun get_bits_loop :: "nat \<Rightarrow> int \<Rightarrow> nr_rlc_pdu_decoder \<Rightarrow> int \<times> nr_rlc_pdu_decoder" where
  "get_bits_loop 0 ret d = (ret, d)"
| "get_bits_loop (Suc n) ret d =
     (let (b, d') = get_bit d
      in if dec_error d' then (-1, d') else get_bits_loop n (2 * ret + b) d')"

definition nr_rlc_pdu_decoder_get_bits :: "nr_rlc_pdu_decoder \<Rightarrow> nat \<Rightarrow> (int \<times> nr_rlc_pdu_decoder) option" where
  "nr_rlc_pdu_decoder_get_bits d count = (if count > 31 then None else Some (get_bits_loop count 0 d))"

section \<open>Encoder\<close>

record nr_rlc_pdu_encoder =
  enc_byte :: nat
  enc_bit :: nat
  enc_buffer :: "u8 list"

definition nr_rlc_pdu_encoder_init :: "u8 list \<Rightarrow> nr_rlc_pdu_encoder" where
  "nr_rlc_pdu_encoder_init buffer = \<lparr>enc_byte = 0, enc_bit = 0, enc_buffer = buffer\<rparr>"

definition put_bit :: "nr_rlc_pdu_encoder \<Rightarrow> bool \<Rightarrow> nr_rlc_pdu_encoder option" where
  "put_bit e b =
     (if enc_byte e = length (enc_buffer e) then None
      else let w = push_bit 1 (enc_buffer e ! enc_byte e) OR of_bool b;
               e' = e\<lparr>enc_buffer := (enc_buffer e)[enc_byte e := w]\<rparr>
           in Some (if enc_bit e + 1 = 8 then e'\<lparr>enc_bit := 0, enc_byte := enc_byte e + 1\<rparr>
                    else e'\<lparr>enc_bit := enc_bit e + 1\<rparr>))"

fun put_bit_list :: "nr_rlc_pdu_encoder \<Rightarrow> bool list \<Rightarrow> nr_rlc_pdu_encoder option" where
  "put_bit_list e [] = Some e"
| "put_bit_list e (b # bs) = Option.bind (put_bit e b) (\<lambda>e'. put_bit_list e' bs)"

text \<open>The bits \<^verbatim>\<open>value & x\<close> for \<^verbatim>\<open>x\<close> from \<^verbatim>\<open>1 << (count - 1)\<close> down to 1.\<close>

definition msb_bits :: "int \<Rightarrow> nat \<Rightarrow> bool list" where
  "msb_bits v count = map (\<lambda>i. bit v (count - 1 - i)) [0..<count]"

definition nr_rlc_pdu_encoder_put_bits :: "nr_rlc_pdu_encoder \<Rightarrow> int \<Rightarrow> nat \<Rightarrow> nr_rlc_pdu_encoder option" where
  "nr_rlc_pdu_encoder_put_bits e v count =
     (if count > 31 then None else put_bit_list e (msb_bits v count))"

section \<open>SDU segments\<close>

text \<open>A segment with the fields of the SDU it belongs to.\<close>

record nr_rlc_sdu_segment =
  upper_layer_id :: int
  sdu_sn :: int
  sdu_data :: "u8 list"
  seg_size :: int
  seg_so :: int
  seg_is_first :: bool
  seg_is_last :: bool

definition nr_rlc_new_sdu :: "u8 list \<Rightarrow> int \<Rightarrow> nr_rlc_sdu_segment" where
  "nr_rlc_new_sdu buffer ul_id =
     \<lparr>upper_layer_id = ul_id, sdu_sn = -1, sdu_data = buffer, seg_size = int (length buffer), seg_so = 0,
      seg_is_first = True, seg_is_last = True\<rparr>"

definition nr_rlc_sdu_segment_list_append :: "nr_rlc_sdu_segment list \<Rightarrow> nr_rlc_sdu_segment \<Rightarrow> nr_rlc_sdu_segment list" where
  "nr_rlc_sdu_segment_list_append l sdu = l @ [sdu]"

section \<open>The codec on bit sequences\<close>

definition byte_bits :: "u8 \<Rightarrow> bool list" where
  "byte_bits w = map (\<lambda>i. bit w (7 - i)) [0..<8]"

definition bits_of :: "u8 list \<Rightarrow> bool list" where
  "bits_of bs = concat (map byte_bits bs)"

definition low_bits :: "nat \<Rightarrow> u8 \<Rightarrow> bool list" where
  "low_bits k w = map (\<lambda>i. bit w (k - 1 - i)) [0..<k]"

fun bits_val :: "int \<Rightarrow> bool list \<Rightarrow> int" where
  "bits_val acc [] = acc"
| "bits_val acc (b # bs) = bits_val (2 * acc + of_bool b) bs"

lemma length_byte_bits [simp]: "length (byte_bits w) = 8"
  by (simp add: byte_bits_def)

lemma length_bits_of [simp]: "length (bits_of bs) = 8 * length bs"
  by (induction bs) (simp_all add: bits_of_def)

lemma bits_of_append [simp]: "bits_of (xs @ ys) = bits_of xs @ bits_of ys"
  by (simp add: bits_of_def)

lemma nth_bits_of:
  "i < length bs \<Longrightarrow> k < 8 \<Longrightarrow> bits_of bs ! (8 * i + k) = bit (bs ! i) (7 - k)"
proof (induction bs arbitrary: i)
  case (Cons b bs)
  show ?case
  proof (cases i)
    case 0
    then show ?thesis using Cons.prems by (simp add: bits_of_def nth_append byte_bits_def)
  next
    case (Suc j)
    have "bits_of (b # bs) ! (8 * i + k) = bits_of bs ! (8 * j + k)"
      using Suc by (simp add: bits_of_def nth_append)
    then show ?thesis using Cons Suc by simp
  qed
qed simp

text \<open>What an encoder has written so far.\<close>

definition enc_bits :: "nr_rlc_pdu_encoder \<Rightarrow> bool list" where
  "enc_bits e = bits_of (take (enc_byte e) (enc_buffer e)) @
     (if enc_bit e = 0 then [] else low_bits (enc_bit e) (enc_buffer e ! enc_byte e))"

definition enc_ok :: "nr_rlc_pdu_encoder \<Rightarrow> bool" where
  "enc_ok e \<longleftrightarrow> enc_bit e < 8 \<and> enc_byte e \<le> length (enc_buffer e) \<and>
     (enc_bit e \<noteq> 0 \<longrightarrow> enc_byte e < length (enc_buffer e))"

lemma bit_shift_in:
  fixes w :: u8
  shows "bit (push_bit 1 w OR of_bool b) (Suc m) = (m < 7 \<and> bit w m)" and "bit (push_bit 1 w OR of_bool b) 0 = b"
proof -
  show "bit (push_bit 1 w OR of_bool b) (Suc m) = (m < 7 \<and> bit w m)"
    unfolding bit_or_iff bit_push_bit_iff bit_of_bool_iff by auto
  show "bit (push_bit 1 w OR of_bool b) 0 = b"
    unfolding bit_or_iff bit_push_bit_iff bit_of_bool_iff by auto
qed

lemma low_bits_push:
  assumes "k < 8"
  shows "low_bits (Suc k) (push_bit 1 w OR of_bool b) = low_bits k w @ [b]"
proof (rule nth_equalityI)
  fix i assume "i < length (low_bits (Suc k) (push_bit 1 w OR of_bool b))"
  then have i: "i \<le> k" by (simp add: low_bits_def)
  show "low_bits (Suc k) (push_bit 1 w OR of_bool b) ! i = (low_bits k w @ [b]) ! i"
  proof (cases "i = k")
    case True
    then have "low_bits (Suc k) (push_bit 1 w OR of_bool b) ! i = bit (push_bit 1 w OR of_bool b) 0"
      by (simp only: low_bits_def) (simp del: upt_Suc)
    then show ?thesis using True by (simp only: bit_shift_in) (simp add: low_bits_def nth_append)
  next
    case False
    with i assms have m: "k - i = Suc (k - 1 - i)" "k - 1 - i < 7" by auto
    have "low_bits (Suc k) (push_bit 1 w OR of_bool b) ! i = bit (push_bit 1 w OR of_bool b) (Suc (k - 1 - i))"
      using i by (simp only: low_bits_def m(1) [symmetric]) (simp del: upt_Suc)
    then show ?thesis using i False m(2) by (simp only: bit_shift_in) (simp add: low_bits_def nth_append)
  qed
qed (simp add: low_bits_def)

lemma low_bits_8: "low_bits 8 w = byte_bits w"
  by (simp add: low_bits_def byte_bits_def)

lemma put_bit_bits:
  assumes "enc_ok e" and "enc_byte e < length (enc_buffer e)"
  obtains e' where "put_bit e b = Some e'" and "enc_ok e'" and "enc_bits e' = enc_bits e @ [b]"
    and "length (enc_buffer e') = length (enc_buffer e)"
    and "8 * enc_byte e' + enc_bit e' = 8 * enc_byte e + enc_bit e + 1"
proof -
  let ?w = "push_bit 1 (enc_buffer e ! enc_byte e) OR of_bool b"
  have k: "enc_bit e < 8" using assms(1) by (simp add: enc_ok_def)
  have low: "(if enc_bit e = 0 then [] else low_bits (enc_bit e) (enc_buffer e ! enc_byte e)) @ [b] = low_bits (Suc (enc_bit e)) ?w"
    using low_bits_push [OF k, of "enc_buffer e ! enc_byte e" b] by (auto simp: low_bits_def)
  define e' where "e' = the (put_bit e b)"
  have e': "put_bit e b = Some e'" using assms(2) by (simp add: e'_def put_bit_def Let_def)
  show thesis
  proof (cases "enc_bit e = 7")
    case True
    then have r: "e' = e\<lparr>enc_buffer := (enc_buffer e)[enc_byte e := ?w], enc_bit := 0, enc_byte := enc_byte e + 1\<rparr>"
      using assms(2) by (simp add: e'_def put_bit_def Let_def)
    have "take (enc_byte e + 1) ((enc_buffer e)[enc_byte e := ?w]) = take (enc_byte e) (enc_buffer e) @ [?w]"
      using assms(2) by (simp add: take_Suc_conv_app_nth)
    then have "enc_bits e' = enc_bits e @ [b]"
      using low True by (simp add: r enc_bits_def low_bits_8) (simp add: bits_of_def)
    then show thesis using that [OF e'] assms(2) True by (auto simp: r enc_ok_def)
  next
    case False
    then have r: "e' = e\<lparr>enc_buffer := (enc_buffer e)[enc_byte e := ?w], enc_bit := enc_bit e + 1\<rparr>"
      using assms(2) k by (simp add: e'_def put_bit_def Let_def)
    have "enc_bits e' = enc_bits e @ [b]"
      using low assms(2) by (simp add: r enc_bits_def)
    then show thesis using that [OF e'] assms(2) k False by (auto simp: r enc_ok_def)
  qed
qed

text \<open>Writing bits that fit succeeds and appends them.\<close>

lemma put_bit_list_bits:
  assumes "enc_ok e" and "8 * enc_byte e + enc_bit e + length bs \<le> 8 * length (enc_buffer e)"
  shows "\<exists>e'. put_bit_list e bs = Some e' \<and> enc_ok e' \<and> enc_bits e' = enc_bits e @ bs \<and>
    length (enc_buffer e') = length (enc_buffer e) \<and>
    8 * enc_byte e' + enc_bit e' = 8 * enc_byte e + enc_bit e + length bs"
  using assms
proof (induction bs arbitrary: e)
  case (Cons b bs)
  have "enc_byte e < length (enc_buffer e)" using Cons.prems(2) by simp
  from put_bit_bits [OF Cons.prems(1) this, of b] obtain e1 where
    e1: "put_bit e b = Some e1" "enc_ok e1" "enc_bits e1 = enc_bits e @ [b]"
      "length (enc_buffer e1) = length (enc_buffer e)" "8 * enc_byte e1 + enc_bit e1 = 8 * enc_byte e + enc_bit e + 1"
    by blast
  with Cons.IH [of e1] Cons.prems(2) show ?case by auto
qed simp

lemma length_msb_bits [simp]: "length (msb_bits v n) = n"
  by (simp add: msb_bits_def)

lemma bits_val_msb: "bits_val acc (msb_bits v n) = acc * 2 ^ n + v mod 2 ^ n"
proof (induction n arbitrary: acc)
  case (Suc n)
  have "msb_bits v (Suc n) = bit v n # msb_bits v n"
    by (simp add: msb_bits_def upt_conv_Cons map_Suc_upt [symmetric] del: upt_Suc)
  moreover have "v mod 2 ^ Suc n = of_bool (bit v n) * 2 ^ n + v mod 2 ^ n"
    using take_bit_Suc_from_most [of n v] by (simp add: take_bit_eq_mod)
  ultimately show ?case using Suc.IH [of "2 * acc + of_bool (bit v n)"] by (simp add: algebra_simps)
qed (simp add: msb_bits_def)

text \<open>The position of a decoder in the bits of its buffer.\<close>

definition dec_at :: "nr_rlc_pdu_decoder \<Rightarrow> u8 list \<Rightarrow> nat \<Rightarrow> bool" where
  "dec_at d buf p \<longleftrightarrow> \<not> dec_error d \<and> dec_buffer d = buf \<and> dec_byte d = p div 8 \<and> dec_bit d = p mod 8"

lemma dec_at_init [simp]: "dec_at (nr_rlc_pdu_decoder_init buf) buf 0"
  by (simp add: dec_at_def nr_rlc_pdu_decoder_init_def)

lemma dec_at_byte: "dec_at d buf p \<Longrightarrow> dec_byte d = p div 8"
  by (simp add: dec_at_def)

lemma get_bit_at:
  assumes "dec_at d buf p" and "p < 8 * length buf"
  shows "\<exists>d'. get_bit d = (of_bool (bits_of buf ! p), d') \<and> dec_at d' buf (Suc p)"
proof -
  have b: "p div 8 < length buf" using assms(2) by auto
  have "bits_of buf ! p = bit (buf ! (p div 8)) (7 - p mod 8)"
    using nth_bits_of [OF b, of "p mod 8"] by simp
  moreover have "Suc p div 8 = (if p mod 8 + 1 = 8 then p div 8 + 1 else p div 8)"
    "Suc p mod 8 = (if p mod 8 + 1 = 8 then 0 else p mod 8 + 1)"
    by (auto simp: div_Suc mod_Suc)
  ultimately show ?thesis
    using assms(1) b by (auto simp: get_bit_def dec_at_def)
qed

lemma get_bit_end:
  assumes "dec_at d buf p" and "\<not> p < 8 * length buf"
  shows "get_bit d = (0, d\<lparr>dec_error := True\<rparr>)"
  using assms by (simp add: get_bit_def dec_at_def) linarith

text \<open>Reading bits that are there gives their value and advances the decoder; else it is an error.\<close>

lemma get_bits_loop_at:
  assumes "dec_at d buf p" and "p + n \<le> 8 * length buf"
  shows "\<exists>d'. get_bits_loop n acc d = (bits_val acc (take n (drop p (bits_of buf))), d') \<and> dec_at d' buf (p + n)"
  using assms
proof (induction n arbitrary: d p acc)
  case (Suc n)
  have p: "p < 8 * length buf" using Suc.prems(2) by simp
  from get_bit_at [OF Suc.prems(1) p] obtain d1 where d1: "get_bit d = (of_bool (bits_of buf ! p), d1)"
    "dec_at d1 buf (Suc p)" by blast
  have "\<not> dec_error d1" using d1(2) by (simp add: dec_at_def)
  moreover have "take (Suc n) (drop p (bits_of buf)) = bits_of buf ! p # take n (drop (Suc p) (bits_of buf))"
    using p by (simp add: Cons_nth_drop_Suc [symmetric])
  ultimately show ?case
    using Suc.IH [OF d1(2), of "2 * acc + of_bool (bits_of buf ! p)"] Suc.prems(2) d1(1) by auto
qed simp

lemma get_bits_at:
  assumes "dec_at d buf p" and "p + n \<le> 8 * length buf" and "n \<le> 31"
  obtains d' where "nr_rlc_pdu_decoder_get_bits d n = Some (bits_val 0 (take n (drop p (bits_of buf))), d')"
    and "dec_at d' buf (p + n)"
  using get_bits_loop_at [OF assms(1,2), of 0] assms(3) by (auto simp: nr_rlc_pdu_decoder_get_bits_def)

lemma get_bits_loop_error:
  assumes "dec_at d buf p" and "8 * length buf < p + n" and "p \<le> 8 * length buf"
  shows "dec_error (snd (get_bits_loop n acc d))"
  using assms
proof (induction n arbitrary: d p acc)
  case (Suc n)
  show ?case
  proof (cases "p < 8 * length buf")
    case True
    from get_bit_at [OF Suc.prems(1) True] obtain d1 where d1: "get_bit d = (of_bool (bits_of buf ! p), d1)"
      "dec_at d1 buf (Suc p)" by blast
    have "\<not> dec_error d1" using d1(2) by (simp add: dec_at_def)
    then show ?thesis using Suc.IH [OF d1(2)] Suc.prems True d1(1) by simp
  next
    case False
    then show ?thesis using get_bit_end [OF Suc.prems(1) False] by simp
  qed
qed simp

section \<open>The reception list\<close>

lemma pdu_list_add_set: "set (nr_rlc_pdu_list_add cmp l p) = insert p (set l)"
  by (induction l) auto

lemma pdu_list_add_sum: "sum_list (map pdu_size (nr_rlc_pdu_list_add cmp l p)) = pdu_size p + sum_list (map pdu_size l)"
  by (induction l) auto

text \<open>The value of the bits read.\<close>

lemma get_bits_loop_range:
  "get_bits_loop n acc d = (v, d') \<Longrightarrow> \<not> dec_error d' \<Longrightarrow> 0 \<le> acc \<Longrightarrow> acc * 2 ^ n \<le> v \<and> v < (acc + 1) * 2 ^ n"
proof (induction n arbitrary: acc d)
  case (Suc n)
  obtain b d1 where b: "get_bit d = (b, d1)" by force
  then have "0 \<le> b" "b \<le> 1" by (auto simp: get_bit_def split: if_splits)
  moreover have "(2 * acc + b) * 2 ^ n \<le> v \<and> v < (2 * acc + b + 1) * 2 ^ n"
    using Suc b calculation by (auto split: if_splits)
  ultimately show ?case by (cases "b = 0"; cases "b = 1") (auto simp: algebra_simps)
qed auto

end
