(* ===== verification/Rlc_Um.thy ===== *)
theory Rlc_Um
  imports Rlc_Pdu
begin

text \<open>
  The unacknowledged mode RLC entity (\<^verbatim>\<open>nr_rlc_entity_um.c\<close>): segmentation and header encoding on
  the transmitting side, the reassembly window, the reassembly timer and delivery on the receiving
  side. Calls of the callback \<^verbatim>\<open>deliver_sdu\<close> are recorded in the field \<open>um_delivered\<close>. The tail
  pointer \<^verbatim>\<open>tx_end\<close> is implicit in the list \<open>um_tx_list\<close>; time stamps for average waiting times
  are left out. A result \<open>None\<close> means \<^verbatim>\<open>exit(1)\<close> or a loop that does not end.
\<close>

section \<open>State\<close>

record nr_rlc_statistics =
  txpdu_pkts :: u32
  txpdu_bytes :: u32
  txpdu_segmented :: u32
  rxpdu_pkts :: u32
  rxpdu_bytes :: u32
  rxpdu_dd_pkts :: u32
  rxpdu_dd_bytes :: u32
  rxpdu_ow_pkts :: u32
  rxpdu_ow_bytes :: u32
  txsdu_pkts :: u32
  txsdu_bytes :: u64
  rxsdu_pkts :: u32
  rxsdu_bytes :: u64
  rxsdu_dd_pkts :: u32
  rxsdu_dd_bytes :: u32

definition zero_stats :: nr_rlc_statistics where
  "zero_stats = \<lparr>txpdu_pkts = 0, txpdu_bytes = 0, txpdu_segmented = 0, rxpdu_pkts = 0, rxpdu_bytes = 0,
     rxpdu_dd_pkts = 0, rxpdu_dd_bytes = 0, rxpdu_ow_pkts = 0, rxpdu_ow_bytes = 0, txsdu_pkts = 0,
     txsdu_bytes = 0, rxsdu_pkts = 0, rxsdu_bytes = 0, rxsdu_dd_pkts = 0, rxsdu_dd_bytes = 0\<rparr>"

record nr_rlc_entity_um =
  um_stats :: nr_rlc_statistics
  um_bstatus :: int
  um_delivered :: "u8 list list"
  um_t_reassembly :: int
  um_sn_field_length :: nat
  um_sn_modulus :: int
  um_window_size :: int
  um_rx_next_highest :: int
  um_rx_next_reassembly :: int
  um_rx_timer_trigger :: int
  um_tx_next :: int
  um_t_current :: u64
  um_t_log_buffer_full :: u64
  um_sdu_rejected :: int
  um_t_reassembly_start :: u64
  um_rx_list :: "nr_rlc_pdu list"
  um_rx_size :: int
  um_rx_maxsize :: int
  um_tx_list :: "nr_rlc_sdu_segment list"
  um_tx_size :: int
  um_tx_maxsize :: int

definition NR_SDU_MAX :: int where
  "NR_SDU_MAX = 16000"

definition new_nr_rlc_entity_um :: "int \<Rightarrow> int \<Rightarrow> int \<Rightarrow> nat \<Rightarrow> nr_rlc_entity_um option" where
  "new_nr_rlc_entity_um rx_maxsize tx_maxsize t_reassembly sn_field_length =
     (if sn_field_length = 6 \<or> sn_field_length = 12
      then Some \<lparr>um_stats = zero_stats, um_bstatus = 0, um_delivered = [], um_t_reassembly = t_reassembly,
             um_sn_field_length = sn_field_length, um_sn_modulus = 2 ^ sn_field_length,
             um_window_size = c_div (2 ^ sn_field_length) 2, um_rx_next_highest = 0, um_rx_next_reassembly = 0,
             um_rx_timer_trigger = 0, um_tx_next = 0, um_t_current = 0, um_t_log_buffer_full = 0,
             um_sdu_rejected = 0, um_t_reassembly_start = 0, um_rx_list = [], um_rx_size = 0,
             um_rx_maxsize = rx_maxsize, um_tx_list = [], um_tx_size = 0, um_tx_maxsize = tx_maxsize\<rparr>
      else None)"

definition nr_rlc_entity_um_reconfigure :: "nr_rlc_entity_um \<Rightarrow> int \<Rightarrow> nat option \<Rightarrow> nr_rlc_entity_um" where
  "nr_rlc_entity_um_reconfigure e t_reassembly sn_len =
     (let e = e\<lparr>um_t_reassembly := t_reassembly\<rparr>
      in case sn_len of None \<Rightarrow> e | Some n \<Rightarrow> e\<lparr>um_sn_field_length := n\<rparr>)"

definition compute_pdu_header_size :: "nr_rlc_entity_um \<Rightarrow> nr_rlc_sdu_segment \<Rightarrow> int" where
  "compute_pdu_header_size e sdu =
     1 + (if \<not> (seg_is_first sdu \<and> seg_is_last sdu) \<and> um_sn_field_length e = 12 then 1 else 0)
       + (if \<not> seg_is_first sdu then 2 else 0)"

section \<open>Reception\<close>

definition modulus_rx :: "nr_rlc_entity_um \<Rightarrow> int \<Rightarrow> int" where
  "modulus_rx e a =
     (let r = a - (um_rx_next_highest e - um_window_size e);
          r = (if r < 0 then r + um_sn_modulus e else r)
      in c_mod r (um_sn_modulus e))"

definition sn_compare_rx :: "nr_rlc_entity_um \<Rightarrow> int \<Rightarrow> int \<Rightarrow> int" where
  "sn_compare_rx e a b = modulus_rx e a - modulus_rx e b"

definition find_sn :: "int \<Rightarrow> nr_rlc_pdu list \<Rightarrow> nr_rlc_pdu list" where
  "find_sn sn l = dropWhile (\<lambda>p. pdu_sn p \<noteq> sn) l"

fun full_loop :: "int \<Rightarrow> int \<Rightarrow> nr_rlc_pdu list \<Rightarrow> bool" where
  "full_loop sn last_byte [] = False"
| "full_loop sn last_byte (l # ls) =
     (if pdu_sn l \<noteq> sn then False
      else if pdu_so l > last_byte + 1 then False
      else if pdu_is_last l then True
      else full_loop sn (max last_byte (pdu_so l + pdu_size l - 1)) ls)"

definition sdu_full :: "nr_rlc_pdu list \<Rightarrow> int \<Rightarrow> bool" where
  "sdu_full rx_list sn =
     (case find_sn sn rx_list of
        [] \<Rightarrow> False
      | l # ls \<Rightarrow> if pdu_data l = None then False else full_loop sn (-1) (l # ls))"

definition sdu_delivered :: "nr_rlc_pdu list \<Rightarrow> int \<Rightarrow> bool" where
  "sdu_delivered rx_list sn = (case find_sn sn rx_list of [] \<Rightarrow> False | l # _ \<Rightarrow> pdu_data l = None)"

fun missing_loop :: "int \<Rightarrow> int \<Rightarrow> nr_rlc_pdu list \<Rightarrow> bool" where
  "missing_loop sn last_byte [] = False"
| "missing_loop sn last_byte (l # ls) =
     (if pdu_sn l \<noteq> sn then False
      else if pdu_so l > last_byte + 1 then True
      else missing_loop sn (max last_byte (pdu_so l + pdu_size l - 1)) ls)"

definition sdu_has_missing_bytes :: "nr_rlc_pdu list \<Rightarrow> int \<Rightarrow> bool" where
  "sdu_has_missing_bytes rx_list sn =
     (case find_sn sn rx_list of
        [] \<Rightarrow> False
      | l # ls \<Rightarrow> if pdu_data l = None then False else missing_loop sn (-1) (l # ls))"

text \<open>One segment of the reassembly: the offset, the flag for a bad SDU and the bytes so far.\<close>

definition reassemble_step :: "int \<times> bool \<times> u8 list \<Rightarrow> nr_rlc_pdu \<Rightarrow> int \<times> bool \<times> u8 list" where
  "reassemble_step st pdu =
     (let (so, bad_sdu, sdu) = st;
          bad_sdu = (bad_sdu \<or> pdu_so pdu > so);
          len = pdu_size pdu - (so - pdu_so pdu);
          bad_sdu = (bad_sdu \<or> so + len > NR_SDU_MAX)
      in if \<not> bad_sdu \<and> len > 0
         then (so + len, bad_sdu, sdu @ take (nat len) (drop (nat (so - pdu_so pdu)) (case pdu_data pdu of None \<Rightarrow> [] | Some d \<Rightarrow> d)))
         else (so, bad_sdu, sdu))"

definition reassemble_and_deliver :: "nr_rlc_entity_um \<Rightarrow> int \<Rightarrow> nr_rlc_entity_um" where
  "reassemble_and_deliver e sn =
     (let l = um_rx_list e; rest = find_sn sn l;
          segs = takeWhile (\<lambda>p. pdu_sn p = sn) rest;
          (so, bad_sdu, sdu) = foldl reassemble_step (0, False, []) segs;
          e = e\<lparr>um_rx_list := takeWhile (\<lambda>p. pdu_sn p \<noteq> sn) l @ map (\<lambda>p. p\<lparr>pdu_data := None, pdu_size := 0\<rparr>) segs
                               @ dropWhile (\<lambda>p. pdu_sn p = sn) rest,
                um_rx_size := um_rx_size e - sum_list (map pdu_size segs)\<rparr>
      in if bad_sdu then e
         else e\<lparr>um_delivered := um_delivered e @ [sdu],
                um_stats := (um_stats e)\<lparr>txsdu_pkts := txsdu_pkts (um_stats e) + 1,
                                         txsdu_bytes := txsdu_bytes (um_stats e) + word_of_int so\<rparr>\<rparr>)"

text \<open>The loop over delivered sequence numbers; it does not end when all of them are delivered.\<close>

partial_function (option) skip_delivered :: "nr_rlc_pdu list \<Rightarrow> int \<Rightarrow> int \<Rightarrow> int option" where
  "skip_delivered rx_list m sn =
     (if sdu_delivered rx_list sn then skip_delivered rx_list m (c_mod (sn + 1) m) else Some sn)"

text \<open>Discard the head of the reception list while it is not in the reassembly window.\<close>

definition count_window_discard :: "int \<Rightarrow> nr_rlc_statistics \<Rightarrow> nr_rlc_statistics" where
  "count_window_discard n s =
     s\<lparr>rxpdu_dd_pkts := rxpdu_dd_pkts s + 1, rxpdu_dd_bytes := rxpdu_dd_bytes s + word_of_int n,
       rxpdu_ow_pkts := rxpdu_ow_pkts s + 1, rxpdu_ow_bytes := rxpdu_ow_bytes s + word_of_int n\<rparr>"

fun discard_out_of_window :: "nr_rlc_entity_um \<Rightarrow> nr_rlc_pdu list \<Rightarrow> nr_rlc_entity_um" where
  "discard_out_of_window e [] = e\<lparr>um_rx_list := []\<rparr>"
| "discard_out_of_window e (p # ps) =
     (if sn_compare_rx e (pdu_sn p) (um_rx_next_highest e) \<ge> 0
      then discard_out_of_window
             (e\<lparr>um_rx_size := um_rx_size e - pdu_size p, um_stats := count_window_discard (pdu_size p) (um_stats e)\<rparr>) ps
      else e\<lparr>um_rx_list := p # ps\<rparr>)"

text \<open>The three parts of \<^verbatim>\<open>reception_actions\<close>: the window, stopping and starting the timer.\<close>

definition reception_window :: "nr_rlc_entity_um \<Rightarrow> int \<Rightarrow> nr_rlc_entity_um option" where
  "reception_window e x =
     (if sdu_full (um_rx_list e) x then
        (let e = reassemble_and_deliver e x
         in if x = um_rx_next_reassembly e
            then map_option (\<lambda>r. e\<lparr>um_rx_next_reassembly := r\<rparr>)
                   (skip_delivered (um_rx_list e) (um_sn_modulus e) (um_rx_next_reassembly e))
            else Some e)
      else if sn_compare_rx e x (um_rx_next_highest e) \<ge> 0 then
        (let e = e\<lparr>um_rx_next_highest := c_mod (x + 1) (um_sn_modulus e)\<rparr>;
             e = discard_out_of_window e (um_rx_list e)
         in if sn_compare_rx e (um_rx_next_reassembly e) (um_rx_next_highest e) \<ge> 0
            then map_option (\<lambda>r. e\<lparr>um_rx_next_reassembly := r\<rparr>)
                   (skip_delivered (um_rx_list e) (um_sn_modulus e)
                      (c_mod (um_rx_next_highest e - um_window_size e + um_sn_modulus e) (um_sn_modulus e)))
            else Some e)
      else Some e)"

definition timer_stop :: "nr_rlc_entity_um \<Rightarrow> nr_rlc_entity_um" where
  "timer_stop e =
     (if um_t_reassembly_start e \<noteq> 0 \<and>
         (sn_compare_rx e (um_rx_timer_trigger e) (um_rx_next_reassembly e) \<le> 0 \<or>
          sn_compare_rx e (um_rx_timer_trigger e) (um_rx_next_highest e) > 0 \<or>
          (um_rx_next_highest e = c_mod (um_rx_next_reassembly e + 1) (um_sn_modulus e) \<and>
           \<not> sdu_has_missing_bytes (um_rx_list e) (um_rx_next_reassembly e)))
      then e\<lparr>um_t_reassembly_start := 0\<rparr> else e)"

definition timer_start :: "nr_rlc_entity_um \<Rightarrow> nr_rlc_entity_um" where
  "timer_start e =
     (if um_t_reassembly_start e = 0 \<and>
         (sn_compare_rx e (um_rx_next_highest e) (c_mod (um_rx_next_reassembly e + 1) (um_sn_modulus e)) > 0 \<or>
          (um_rx_next_highest e = c_mod (um_rx_next_reassembly e + 1) (um_sn_modulus e) \<and>
           sdu_has_missing_bytes (um_rx_list e) (um_rx_next_reassembly e)))
      then e\<lparr>um_t_reassembly_start := um_t_current e, um_rx_timer_trigger := um_rx_next_highest e\<rparr> else e)"

definition reception_actions :: "nr_rlc_entity_um \<Rightarrow> int \<Rightarrow> nr_rlc_entity_um option" where
  "reception_actions e x = map_option (\<lambda>e. timer_start (timer_stop e)) (reception_window e x)"

text \<open>The header of a PDU: a decoding error, a complete SDU, or a segment with the offset of its
  data.\<close>

datatype um_header = Um_error | Um_complete | Um_segment bool bool int int nat

definition read_bits :: "nr_rlc_pdu_decoder \<Rightarrow> nat \<Rightarrow> (int \<Rightarrow> nr_rlc_pdu_decoder \<Rightarrow> um_header option) \<Rightarrow> um_header option" where
  "read_bits d n k =
     (case nr_rlc_pdu_decoder_get_bits d n of
        None \<Rightarrow> None
      | Some (v, d') \<Rightarrow> if dec_error d' then Some Um_error else k v d')"

definition um_decode_header :: "nat \<Rightarrow> u8 list \<Rightarrow> um_header option" where
  "um_decode_header sn_len buffer =
     read_bits (nr_rlc_pdu_decoder_init buffer) 2 (\<lambda>si d.
       let is_first = \<not> bit si 1; is_last = \<not> bit si 0 in
       if is_first \<and> is_last then Some Um_complete
       else let sn_so = (\<lambda>d. read_bits d sn_len (\<lambda>sn d.
                   if \<not> is_first
                   then read_bits d 16 (\<lambda>so d. Some (Um_segment is_first is_last sn so (dec_byte d)))
                   else Some (Um_segment is_first is_last sn 0 (dec_byte d))))
            in if sn_len = 12 then read_bits d 2 (\<lambda>_ d. sn_so d) else sn_so d)"

definition um_discard_pdu :: "nr_rlc_entity_um \<Rightarrow> int \<Rightarrow> nr_rlc_entity_um" where
  "um_discard_pdu e n =
     e\<lparr>um_stats := (um_stats e)\<lparr>rxpdu_dd_pkts := rxpdu_dd_pkts (um_stats e) + 1,
                                rxpdu_dd_bytes := rxpdu_dd_bytes (um_stats e) + word_of_int n\<rparr>\<rparr>"

definition um_recv_segment :: "nr_rlc_entity_um \<Rightarrow> u8 list \<Rightarrow> bool \<Rightarrow> bool \<Rightarrow> int \<Rightarrow> int \<Rightarrow> nat \<Rightarrow> nr_rlc_entity_um option" where
  "um_recv_segment e buffer is_first is_last sn so off =
     (let size = int (length buffer); data_size = size - int off
      in if \<not> is_first \<and> so = 0 then Some (um_discard_pdu e size)
         else if data_size \<le> 0 then Some (um_discard_pdu e size)
         else if um_rx_size e + data_size > um_rx_maxsize e then Some (um_discard_pdu e size)
         else if sn_compare_rx e sn (um_rx_next_reassembly e) < 0 then Some (um_discard_pdu e size)
         else let e = e\<lparr>um_rx_size := um_rx_size e + data_size\<rparr>;
                  pdu = nr_rlc_new_pdu sn so is_first is_last (drop off buffer)
              in reception_actions (e\<lparr>um_rx_list := nr_rlc_pdu_list_add (sn_compare_rx e) (um_rx_list e) pdu\<rparr>) sn)"

definition nr_rlc_entity_um_recv_pdu :: "nr_rlc_entity_um \<Rightarrow> u8 list \<Rightarrow> nr_rlc_entity_um option" where
  "nr_rlc_entity_um_recv_pdu e buffer =
     (let size = int (length buffer);
          e = e\<lparr>um_stats := (um_stats e)\<lparr>rxpdu_pkts := rxpdu_pkts (um_stats e) + 1,
                                         rxpdu_bytes := rxpdu_bytes (um_stats e) + word_of_int size\<rparr>\<rparr>
      in case um_decode_header (um_sn_field_length e) buffer of
           None \<Rightarrow> None
         | Some Um_error \<Rightarrow> Some (um_discard_pdu e size)
         | Some Um_complete \<Rightarrow>
             if size < 2 then Some (um_discard_pdu e size)
             else Some (e\<lparr>um_delivered := um_delivered e @ [drop 1 buffer],
                          um_stats := (um_stats e)\<lparr>txsdu_pkts := txsdu_pkts (um_stats e) + 1,
                                                   txsdu_bytes := txsdu_bytes (um_stats e) + word_of_int (size - 1)\<rparr>\<rparr>)
         | Some (Um_segment is_first is_last sn so off) \<Rightarrow> um_recv_segment e buffer is_first is_last sn so off)"

section \<open>Transmission\<close>

text \<open>The written bytes of \<open>buffer\<close>: the header and the data of the segment.\<close>

definition put_field :: "int \<Rightarrow> nat \<Rightarrow> nr_rlc_pdu_encoder option \<Rightarrow> nr_rlc_pdu_encoder option" where
  "put_field v n e = Option.bind e (\<lambda>e. nr_rlc_pdu_encoder_put_bits e v n)"

definition serialize_sdu :: "nr_rlc_entity_um \<Rightarrow> nr_rlc_sdu_segment \<Rightarrow> u8 list \<Rightarrow> u8 list option" where
  "serialize_sdu e sdu buffer =
     (let enc = Some (nr_rlc_pdu_encoder_init buffer);
          enc = put_field (1 - of_bool (seg_is_first sdu)) 1 enc;
          enc = put_field (1 - of_bool (seg_is_last sdu)) 1 enc;
          enc = (if seg_is_first sdu \<and> seg_is_last sdu then put_field 0 6 enc
                 else put_field (sdu_sn sdu) (um_sn_field_length e)
                        (if um_sn_field_length e = 12 then put_field 0 2 enc else enc));
          enc = (if \<not> seg_is_first sdu then put_field (seg_so sdu) 16 enc else enc)
      in map_option (\<lambda>enc. take (enc_byte enc) (enc_buffer enc) @
                       take (nat (seg_size sdu)) (drop (nat (seg_so sdu)) (sdu_data sdu))) enc)"

text \<open>The shortened segment, and the new one for the rest unless there is no room.\<close>

definition resegment :: "nr_rlc_entity_um \<Rightarrow> nr_rlc_sdu_segment \<Rightarrow> int \<Rightarrow> nr_rlc_sdu_segment \<times> nr_rlc_sdu_segment option" where
  "resegment e sdu room =
     (let hdr = compute_pdu_header_size e (sdu\<lparr>seg_is_last := False\<rparr>)
      in if hdr + 1 > room then (sdu, None)
         else let over_size = hdr + seg_size sdu - room;
                  sdu' = sdu\<lparr>seg_size := seg_size sdu - over_size, seg_is_last := False\<rparr>
              in (sdu', Some (sdu\<lparr>seg_size := over_size, seg_so := seg_so sdu' + seg_size sdu', seg_is_first := False\<rparr>)))"

text \<open>The end of \<^verbatim>\<open>generate_tx_pdu\<close>, for the segment that is sent.\<close>

definition um_send_segment :: "nr_rlc_entity_um \<Rightarrow> nr_rlc_sdu_segment \<Rightarrow> u8 list \<Rightarrow> (nr_rlc_entity_um \<times> u8 list) option" where
  "um_send_segment e sdu buffer =
     (let e = (if \<not> seg_is_first sdu \<and> seg_is_last sdu
               then e\<lparr>um_tx_next := c_mod (um_tx_next e + 1) (um_sn_modulus e)\<rparr> else e)
      in map_option (\<lambda>pdu.
           (e\<lparr>um_tx_size := um_tx_size e - seg_size sdu,
              um_stats := (um_stats e)\<lparr>txpdu_pkts := txpdu_pkts (um_stats e) + 1,
                                       txpdu_bytes := txpdu_bytes (um_stats e) + word_of_int (int (length buffer))\<rparr>\<rparr>, pdu))
           (serialize_sdu e sdu buffer))"

definition um_count_segmentation :: "nr_rlc_entity_um \<Rightarrow> nr_rlc_entity_um" where
  "um_count_segmentation e = e\<lparr>um_stats := (um_stats e)\<lparr>txpdu_segmented := txpdu_segmented (um_stats e) + 2\<rparr>\<rparr>"

text \<open>The result is the entity and the bytes of the PDU; no bytes when the function returns 0. The
  counter of segmentations goes up once in \<^verbatim>\<open>resegment\<close> and once more in
  \<^verbatim>\<open>generate_tx_pdu\<close>.\<close>

definition nr_rlc_entity_um_generate_pdu :: "nr_rlc_entity_um \<Rightarrow> u8 list \<Rightarrow> (nr_rlc_entity_um \<times> u8 list) option" where
  "nr_rlc_entity_um_generate_pdu e buffer =
     (case um_tx_list e of
        [] \<Rightarrow> Some (e, [])
      | sdu # rest \<Rightarrow>
          (let size = int (length buffer); pdu_header_size = compute_pdu_header_size e sdu
           in if pdu_header_size + 1 > size then Some (e, [])
              else let sdu = sdu\<lparr>sdu_sn := um_tx_next e\<rparr>;
                       pdu_size = pdu_header_size + seg_size sdu;
                       e = e\<lparr>um_tx_list := rest, um_bstatus := um_bstatus e - pdu_size\<rparr>
                   in if pdu_size > size
                      then (case resegment e sdu size of
                              (_, None) \<Rightarrow> Some (e, [])
                            | (sdu', Some next_sdu) \<Rightarrow>
                                um_send_segment (um_count_segmentation
                                  (e\<lparr>um_tx_list := next_sdu # rest,
                                     um_bstatus := um_bstatus e + compute_pdu_header_size e next_sdu + seg_size next_sdu\<rparr>))
                                  sdu' buffer)
                      else um_send_segment e sdu buffer))"

definition nr_rlc_entity_um_buffer_status :: "nr_rlc_entity_um \<Rightarrow> int \<times> int \<times> int" where
  "nr_rlc_entity_um_buffer_status e = (0, um_bstatus e, 0)"

definition nr_rlc_entity_um_recv_sdu :: "nr_rlc_entity_um \<Rightarrow> u8 list \<Rightarrow> int \<Rightarrow> nr_rlc_entity_um option" where
  "nr_rlc_entity_um_recv_sdu e buffer sdu_id =
     (let size = int (length buffer);
          e = e\<lparr>um_stats := (um_stats e)\<lparr>rxsdu_pkts := rxsdu_pkts (um_stats e) + 1,
                                         rxsdu_bytes := rxsdu_bytes (um_stats e) + word_of_int size\<rparr>\<rparr>
      in if size > NR_SDU_MAX then None
         else let e = (if um_sdu_rejected e \<noteq> 0 \<and> um_t_current e > um_t_log_buffer_full e + 1000
                       then e\<lparr>um_sdu_rejected := 0, um_t_log_buffer_full := um_t_current e\<rparr> else e)
              in if um_tx_size e + size > um_tx_maxsize e
                 then Some (e\<lparr>um_sdu_rejected := um_sdu_rejected e + 1,
                              um_stats := (um_stats e)\<lparr>rxsdu_dd_pkts := rxsdu_dd_pkts (um_stats e) + 1,
                                                       rxsdu_dd_bytes := rxsdu_dd_bytes (um_stats e) + word_of_int size\<rparr>\<rparr>)
                 else let sdu = nr_rlc_new_sdu buffer sdu_id
                      in Some (e\<lparr>um_tx_size := um_tx_size e + size,
                                 um_tx_list := nr_rlc_sdu_segment_list_append (um_tx_list e) sdu,
                                 um_bstatus := um_bstatus e + compute_pdu_header_size e sdu + seg_size sdu\<rparr>))"

section \<open>Timer, discard and re-establishment\<close>

text \<open>Segments before \<open>rx_next_reassembly\<close> are discarded from the head of the list.\<close>

fun discard_before :: "nr_rlc_entity_um \<Rightarrow> nr_rlc_pdu list \<Rightarrow> nr_rlc_entity_um" where
  "discard_before e [] = e\<lparr>um_rx_list := []\<rparr>"
| "discard_before e (p # ps) =
     (if sn_compare_rx e (pdu_sn p) (um_rx_next_reassembly e) < 0
      then discard_before
             (e\<lparr>um_stats := (um_stats e)\<lparr>rxpdu_dd_pkts := rxpdu_dd_pkts (um_stats e) + 1,
                                         rxpdu_dd_bytes := rxpdu_dd_bytes (um_stats e) + word_of_int (pdu_size p)\<rparr>\<rparr>) ps
      else e\<lparr>um_rx_list := p # ps\<rparr>)"

definition check_t_reassembly :: "nr_rlc_entity_um \<Rightarrow> nr_rlc_entity_um option" where
  "check_t_reassembly e =
     (if um_t_reassembly_start e = 0 \<or> um_t_current e \<le> um_t_reassembly_start e + word_of_int (um_t_reassembly e)
      then Some e
      else let e = e\<lparr>um_t_reassembly_start := 0\<rparr>
           in map_option (\<lambda>r.
                let e = e\<lparr>um_rx_next_reassembly := r\<rparr>;
                    e = discard_before e (um_rx_list e)
                in if sn_compare_rx e (um_rx_next_highest e) (c_mod (um_rx_next_reassembly e + 1) (um_sn_modulus e)) > 0 \<or>
                      (um_rx_next_highest e = um_rx_next_reassembly e + 1 \<and>
                       sdu_has_missing_bytes (um_rx_list e) (um_rx_next_reassembly e))
                   then e\<lparr>um_t_reassembly_start := um_t_current e, um_rx_timer_trigger := um_rx_next_highest e\<rparr>
                   else e)
                (skip_delivered (um_rx_list e) (um_sn_modulus e) (um_rx_timer_trigger e)))"

definition nr_rlc_entity_um_set_time :: "nr_rlc_entity_um \<Rightarrow> u64 \<Rightarrow> nr_rlc_entity_um option" where
  "nr_rlc_entity_um_set_time e now = check_t_reassembly (e\<lparr>um_t_current := now\<rparr>)"

definition nr_rlc_entity_um_discard_sdu :: "nr_rlc_entity_um \<Rightarrow> int \<Rightarrow> nr_rlc_entity_um" where
  "nr_rlc_entity_um_discard_sdu e sdu_id =
     (let before = takeWhile (\<lambda>s. upper_layer_id s \<noteq> sdu_id) (um_tx_list e)
      in case dropWhile (\<lambda>s. upper_layer_id s \<noteq> sdu_id) (um_tx_list e) of
           [] \<Rightarrow> e
         | cur # rest \<Rightarrow>
             if \<not> seg_is_first cur \<or> \<not> seg_is_last cur then e
             else e\<lparr>um_tx_list := before @ rest,
                    um_bstatus := um_bstatus e - (compute_pdu_header_size e cur + seg_size cur)\<rparr>)"

definition um_clear_entity :: "nr_rlc_entity_um \<Rightarrow> nr_rlc_entity_um" where
  "um_clear_entity e =
     e\<lparr>um_rx_next_highest := 0, um_rx_next_reassembly := 0, um_rx_timer_trigger := 0, um_tx_next := 0,
       um_t_current := 0, um_t_log_buffer_full := 0, um_sdu_rejected := 0, um_t_reassembly_start := 0,
       um_rx_list := [], um_rx_size := 0, um_tx_list := [], um_tx_size := 0, um_bstatus := 0\<rparr>"

definition nr_rlc_entity_um_reestablishment :: "nr_rlc_entity_um \<Rightarrow> nr_rlc_entity_um" where
  "nr_rlc_entity_um_reestablishment e = um_clear_entity e"

definition nr_rlc_entity_um_available_tx_space :: "nr_rlc_entity_um \<Rightarrow> int" where
  "nr_rlc_entity_um_available_tx_space e = um_tx_maxsize e - um_tx_size e"

definition nr_rlc_entity_um_tx_list_occupancy :: "nr_rlc_entity_um \<Rightarrow> int" where
  "nr_rlc_entity_um_tx_list_occupancy e = um_tx_size e"

end
