(* ===== verification/Rlc_Um_Codec.thy ===== *)
theory Rlc_Um_Codec
  imports Rlc_Um
begin

text \<open>
  The header of an unacknowledged mode PDU: what \<^verbatim>\<open>serialize_sdu\<close> writes is what
  \<^verbatim>\<open>nr_rlc_entity_um_recv_pdu\<close> reads.
\<close>

definition um_header_bits :: "nat \<Rightarrow> nr_rlc_sdu_segment \<Rightarrow> bool list" where
  "um_header_bits sn_len sdu =
     [\<not> seg_is_first sdu, \<not> seg_is_last sdu] @
     (if seg_is_first sdu \<and> seg_is_last sdu then replicate 6 False
      else (if sn_len = 12 then [False, False] else []) @ msb_bits (sdu_sn sdu) sn_len) @
     (if \<not> seg_is_first sdu then msb_bits (seg_so sdu) 16 else [])"

text \<open>A segment the transmitter may send with sequence numbers of \<open>sn_len\<close> bits.\<close>

definition seg_ok :: "nat \<Rightarrow> nr_rlc_sdu_segment \<Rightarrow> bool" where
  "seg_ok sn_len sdu \<longleftrightarrow>
     (sn_len = 6 \<or> sn_len = 12) \<and> 0 \<le> sdu_sn sdu \<and> sdu_sn sdu < 2 ^ sn_len \<and>
     0 \<le> seg_so sdu \<and> seg_so sdu < 65536 \<and> 1 \<le> seg_size sdu \<and>
     seg_so sdu + seg_size sdu \<le> int (length (sdu_data sdu)) \<and>
     (seg_is_first sdu \<longleftrightarrow> seg_so sdu = 0) \<and>
     (seg_is_last sdu \<longleftrightarrow> seg_so sdu + seg_size sdu = int (length (sdu_data sdu)))"

definition seg_bytes :: "nr_rlc_sdu_segment \<Rightarrow> u8 list" where
  "seg_bytes sdu = take (nat (seg_size sdu)) (drop (nat (seg_so sdu)) (sdu_data sdu))"

lemma length_seg_bytes: "seg_ok n sdu \<Longrightarrow> int (length (seg_bytes sdu)) = seg_size sdu"
  by (auto simp: seg_ok_def seg_bytes_def)

lemma put_bit_list_append:
  "put_bit_list e (xs @ ys) = Option.bind (put_bit_list e xs) (\<lambda>e'. put_bit_list e' ys)"
  by (induction xs arbitrary: e) (auto simp: Option.bind_assoc)

lemma put_field_bits:
  "n \<le> 31 \<Longrightarrow> put_field v n (put_bit_list e bs) = put_bit_list e (bs @ msb_bits v n)"
  by (simp add: put_field_def put_bit_list_append nr_rlc_pdu_encoder_put_bits_def)

lemma msb_one: "msb_bits 1 1 = [True]" "msb_bits 1 (Suc 0) = [True]"
  by (simp_all add: msb_bits_def)

lemma msb_zero: "msb_bits 0 n = replicate n False"
  by (simp add: msb_bits_def map_replicate_const)

lemma um_header_bits_length:
  assumes "sn_len = 6 \<or> sn_len = 12" and "um_sn_field_length e = sn_len"
  shows "int (length (um_header_bits sn_len sdu)) = 8 * compute_pdu_header_size e sdu"
  using assms by (auto simp: um_header_bits_def compute_pdu_header_size_def)

lemma serialize_sdu_bits:
  assumes "sn_len = 6 \<or> sn_len = 12" and "um_sn_field_length e = sn_len"
    and "compute_pdu_header_size e sdu \<le> int (length buffer)"
  shows "\<exists>hdr. serialize_sdu e sdu buffer = Some (hdr @ seg_bytes sdu) \<and>
    int (length hdr) = compute_pdu_header_size e sdu \<and> bits_of hdr = um_header_bits sn_len sdu"
proof -
  let ?e0 = "nr_rlc_pdu_encoder_init buffer" and ?bs = "um_header_bits sn_len sdu"
  have l: "int (length ?bs) = 8 * compute_pdu_header_size e sdu" by (rule um_header_bits_length [OF assms(1,2)])
  have ok: "enc_ok ?e0" by (simp add: enc_ok_def nr_rlc_pdu_encoder_init_def)
  have room: "8 * enc_byte ?e0 + enc_bit ?e0 + length ?bs \<le> 8 * length (enc_buffer ?e0)"
    using l assms(3) by (simp add: nr_rlc_pdu_encoder_init_def)
  from put_bit_list_bits [OF ok room] obtain e1 where e1: "put_bit_list ?e0 ?bs = Some e1" "enc_ok e1"
    "enc_bits e1 = ?bs" "8 * enc_byte e1 + enc_bit e1 = length ?bs" "length (enc_buffer e1) = length buffer"
    by (auto simp: enc_bits_def nr_rlc_pdu_encoder_init_def bits_of_def)
  have b: "enc_bit e1 = 0" "int (enc_byte e1) = compute_pdu_header_size e sdu"
    using e1(2,4) l by (auto simp: enc_ok_def, presburger+)
  have "sn_len \<le> 31" using assms(1) by auto
  note f = put_field_bits put_field_bits [OF this] put_field_bits [where bs = "[]" and e = ?e0, simplified]
  have "serialize_sdu e sdu buffer = map_option (\<lambda>enc. take (enc_byte enc) (enc_buffer enc) @ seg_bytes sdu) (put_bit_list ?e0 ?bs)"
    by (cases "seg_is_first sdu"; cases "seg_is_last sdu"; cases "sn_len = 12")
      (simp_all add: serialize_sdu_def Let_def assms(2) f msb_one msb_zero um_header_bits_def seg_bytes_def
        numeral_2_eq_2 del: put_bit_list.simps)
  then have "serialize_sdu e sdu buffer = Some (take (enc_byte e1) (enc_buffer e1) @ seg_bytes sdu)"
    using e1(1) by simp
  moreover have "bits_of (take (enc_byte e1) (enc_buffer e1)) = ?bs" using e1(3) b(1) by (simp add: enc_bits_def)
  moreover have "length (take (enc_byte e1) (enc_buffer e1)) = enc_byte e1"
    using e1(2) by (simp add: enc_ok_def)
  ultimately show ?thesis using b(2) by (intro exI [of _ "take (enc_byte e1) (enc_buffer e1)"]) simp
qed

lemma read_bits_at:
  assumes "dec_at d buf p" and "p + n \<le> 8 * length buf" and "n \<le> 31"
    and "bits_val 0 (take n (drop p (bits_of buf))) = v"
  obtains d' where "dec_at d' buf (p + n)" and "\<And>k. read_bits d n k = k v d'"
proof -
  obtain d' where d': "nr_rlc_pdu_decoder_get_bits d n = Some (bits_val 0 (take n (drop p (bits_of buf))), d')"
    "dec_at d' buf (p + n)" by (rule get_bits_at [OF assms(1-3)])
  then show thesis using that [of d'] assms(4) by (simp add: read_bits_def dec_at_def)
qed

lemma bits_val_msb0: "0 \<le> v \<Longrightarrow> v < 2 ^ n \<Longrightarrow> bits_val 0 (msb_bits v n) = v"
  by (simp add: bits_val_msb)

text \<open>Decoding the header of a segment whose buffer starts with its header bits.\<close>

lemma um_decode_bits:
  assumes ok: "seg_ok sn_len sdu" and hdr: "bits_of hdr = um_header_bits sn_len sdu"
  shows "um_decode_header sn_len (hdr @ rest) =
    Some (if seg_is_first sdu \<and> seg_is_last sdu then Um_complete
          else Um_segment (seg_is_first sdu) (seg_is_last sdu) (sdu_sn sdu) (seg_so sdu) (length hdr))"
proof -
  let ?buf = "hdr @ rest" and ?f = "seg_is_first sdu" and ?l = "seg_is_last sdu"
  let ?bits = "um_header_bits sn_len sdu"
  have len: "8 * length hdr = length ?bits" using arg_cong [OF hdr, of length] by simp
  have sn: "sn_len = 6 \<or> sn_len = 12" and snr: "0 \<le> sdu_sn sdu" "sdu_sn sdu < 2 ^ sn_len"
    and so: "0 \<le> seg_so sdu" "seg_so sdu < 2 ^ 16" and fso: "?f \<longleftrightarrow> seg_so sdu = 0"
    using ok by (auto simp: seg_ok_def)
  have fit: "take n (drop p (bits_of ?buf)) = take n (drop p ?bits)" "p + n \<le> 8 * length ?buf"
    if "p + n \<le> length ?bits" for p n
    using that len by (auto simp: hdr take_append)
  have le2: "0 + 2 \<le> length ?bits" by (simp add: um_header_bits_def)
  have si: "bits_val 0 (take 2 (drop 0 ?bits)) = 2 * of_bool (\<not> ?f) + of_bool (\<not> ?l)"
    by (simp add: um_header_bits_def)
  obtain d1 where d1: "dec_at d1 ?buf (0 + 2)"
    "\<And>k. read_bits (nr_rlc_pdu_decoder_init ?buf) 2 k = k (2 * of_bool (\<not> ?f) + of_bool (\<not> ?l)) d1"
    using fit(1) [OF le2] si by (rule_tac read_bits_at [OF dec_at_init fit(2) [OF le2]]) (simp_all only:, simp_all)
  have b: "bit (2 * of_bool (\<not> ?f) + of_bool (\<not> ?l) :: int) (Suc 0) = (\<not> ?f)"
    "bit (2 * of_bool (\<not> ?f) + of_bool (\<not> ?l) :: int) 0 = (\<not> ?l)"
    by (cases ?f; cases ?l; simp add: bit_0 bit_Suc)+
  show ?thesis
  proof (cases "?f \<and> ?l")
    case True
    then show ?thesis using d1(2) b by (simp add: um_decode_header_def Let_def)
  next
    case False
    let ?p = "if sn_len = 12 then 4 else 2 :: nat"
    have bits: "?bits = [\<not> ?f, \<not> ?l] @ (if sn_len = 12 then [False, False] else []) @ msb_bits (sdu_sn sdu) sn_len @
        (if \<not> ?f then msb_bits (seg_so sdu) 16 else [])"
      using False by (auto simp: um_header_bits_def)
    then have lb: "length ?bits = ?p + sn_len + (if \<not> ?f then 16 else 0)" by simp
    obtain d2 where d2: "dec_at d2 ?buf ?p"
      "\<And>k. (if sn_len = 12 then read_bits d1 2 (\<lambda>_ d. k d) else k d1) = k d2"
    proof (cases "sn_len = 12")
      case True
      have le: "0 + 2 + 2 \<le> length ?bits" and two: "2 \<le> (31 :: nat)" using lb True by auto
      obtain d' where "dec_at d' ?buf (0 + 2 + 2)"
        "\<And>k. read_bits d1 2 k = k (bits_val 0 (take 2 (drop (0 + 2) (bits_of ?buf)))) d'"
        using read_bits_at [OF d1(1) fit(2) [OF le] two refl] by blast
      then show thesis using that [of d'] True by (simp add: eval_nat_numeral)
    next
      case F: False
      then show thesis using that [of d1] d1(1) by (simp add: eval_nat_numeral)
    qed
    have t1: "take sn_len (drop ?p ?bits) = msb_bits (sdu_sn sdu) sn_len" by (simp add: bits)
    have le3: "?p + sn_len \<le> length ?bits" using lb by simp
    have s31: "sn_len \<le> 31" using sn by auto
    obtain d3 where d3: "dec_at d3 ?buf (?p + sn_len)"
      "\<And>k. read_bits d2 sn_len k = k (sdu_sn sdu) d3"
      using fit(1) [OF le3] t1 bits_val_msb0 [OF snr]
      by (rule_tac read_bits_at [OF d2(1) fit(2) [OF le3] s31]) (simp_all only:, simp_all)
    let ?k = "\<lambda>d. read_bits d sn_len (\<lambda>sn d.
                   if \<not> ?f then read_bits d 16 (\<lambda>so d. Some (Um_segment ?f ?l sn so (dec_byte d)))
                   else Some (Um_segment ?f ?l sn 0 (dec_byte d)))"
    have "um_decode_header sn_len ?buf = (if sn_len = 12 then read_bits d1 2 (\<lambda>_ d. ?k d) else ?k d1)"
      unfolding um_decode_header_def Let_def d1(2) One_nat_def b not_not by (simp only: False if_False)
    also have "\<dots> = ?k d2" by (rule d2(2))
    finally have dec: "um_decode_header sn_len ?buf =
      (if \<not> ?f then read_bits d3 16 (\<lambda>so d. Some (Um_segment ?f ?l (sdu_sn sdu) so (dec_byte d)))
       else Some (Um_segment ?f ?l (sdu_sn sdu) 0 (dec_byte d3)))"
      by (simp only: d3(2))
    show ?thesis
    proof (cases ?f)
      case True
      then have "8 * length hdr = ?p + sn_len" using len lb by simp
      then have "dec_byte d3 = length hdr" using dec_at_byte [OF d3(1)] by simp
      then show ?thesis using dec True False fso by simp
    next
      case F: False
      have t2: "take 16 (drop (?p + sn_len) ?bits) = msb_bits (seg_so sdu) 16" using F by (simp add: bits)
      have le4: "?p + sn_len + 16 \<le> length ?bits" using lb F by simp
      obtain d4 where d4: "dec_at d4 ?buf (?p + sn_len + 16)"
        "\<And>k. read_bits d3 16 k = k (seg_so sdu) d4"
        using fit(1) [OF le4] t2 bits_val_msb0 [OF so]
        by (rule_tac read_bits_at [OF d3(1) fit(2) [OF le4]]) (simp_all only:, simp_all)
      have "8 * length hdr = ?p + sn_len + 16" using len lb F by simp
      then have "dec_byte d4 = length hdr" using dec_at_byte [OF d4(1)] by simp
      then show ?thesis using dec F d4(2) by simp
    qed
  qed
qed

text \<open>The round trip of a serialized segment.\<close>

lemma serialize_decode:
  assumes "seg_ok sn_len sdu" and "um_sn_field_length e = sn_len"
    and "compute_pdu_header_size e sdu \<le> int (length buffer)"
  obtains pdu where "serialize_sdu e sdu buffer = Some pdu"
    and "int (length pdu) = compute_pdu_header_size e sdu + seg_size sdu"
    and "um_decode_header sn_len pdu =
      Some (if seg_is_first sdu \<and> seg_is_last sdu then Um_complete
            else Um_segment (seg_is_first sdu) (seg_is_last sdu) (sdu_sn sdu) (seg_so sdu) (nat (compute_pdu_header_size e sdu)))"
    and "drop (nat (compute_pdu_header_size e sdu)) pdu = seg_bytes sdu"
proof -
  obtain hdr where h: "serialize_sdu e sdu buffer = Some (hdr @ seg_bytes sdu)"
    "int (length hdr) = compute_pdu_header_size e sdu" "bits_of hdr = um_header_bits sn_len sdu"
    using serialize_sdu_bits [OF _ assms(2,3)] assms(1) by (auto simp: seg_ok_def)
  have n: "nat (compute_pdu_header_size e sdu) = length hdr" using h(2) by simp
  show thesis
  proof (rule that [OF h(1)])
    show "int (length (hdr @ seg_bytes sdu)) = compute_pdu_header_size e sdu + seg_size sdu"
      using h(2) length_seg_bytes [OF assms(1)] by simp
    show "drop (nat (compute_pdu_header_size e sdu)) (hdr @ seg_bytes sdu) = seg_bytes sdu" by (simp add: n)
  qed (use um_decode_bits [OF assms(1) h(3)] n in simp)
qed

end
