(* ===== verification/Rlc_Um_Reception.thy ===== *)
theory Rlc_Um_Reception
  imports Rlc_Um_Codec
begin

text \<open>
  The receiving side of the unacknowledged mode entity when the segments of the SDUs arrive in the
  order of their transmission: the state of the reassembly window and of the reception list between
  two PDUs, and the effect of every kind of PDU on it.
\<close>

section \<open>Positions in the reassembly window\<close>

definition um_cfg :: "nr_rlc_entity_um \<Rightarrow> bool" where
  "um_cfg e \<longleftrightarrow> (um_sn_field_length e = 6 \<or> um_sn_field_length e = 12) \<and>
     um_sn_modulus e = 2 ^ um_sn_field_length e \<and> 2 * um_window_size e = um_sn_modulus e"

text \<open>The position of \<open>a\<close> in a window that starts \<open>w\<close> before \<open>h\<close>.\<close>

definition sn_pos :: "int \<Rightarrow> int \<Rightarrow> int \<Rightarrow> int" where
  "sn_pos w h a = (a - h + w) mod (2 * w)"

lemma um_cfg_window: "um_cfg e \<Longrightarrow> um_sn_modulus e = 2 * um_window_size e \<and> 32 \<le> um_window_size e"
  by (auto simp: um_cfg_def)

lemma modulus_rx_pos:
  assumes "um_cfg e" and "0 \<le> a" and "a < um_sn_modulus e"
    and "0 \<le> um_rx_next_highest e" and "um_rx_next_highest e < um_sn_modulus e"
  shows "modulus_rx e a = sn_pos (um_window_size e) (um_rx_next_highest e) a"
proof -
  let ?r = "a - (um_rx_next_highest e - um_window_size e)" and ?m = "um_sn_modulus e"
  have w: "?m = 2 * um_window_size e" "0 < ?m" using um_cfg_window [OF assms(1)] by auto
  then have nn: "0 \<le> (if ?r < 0 then ?r + ?m else ?r)" using assms(2-5) by auto
  have "(if ?r < 0 then ?r + ?m else ?r) mod ?m = ?r mod ?m" by auto
  then have "c_mod (if ?r < 0 then ?r + ?m else ?r) ?m = ?r mod ?m"
    using c_mod_nonneg [OF nn w(2)] by (rule back_subst [rotated])
  also have "?r mod ?m = sn_pos (um_window_size e) (um_rx_next_highest e) a"
    by (simp add: sn_pos_def w(1) algebra_simps)
  finally have "c_mod (if ?r < 0 then ?r + ?m else ?r) ?m = sn_pos (um_window_size e) (um_rx_next_highest e) a" .
  then show ?thesis by (simp only: modulus_rx_def Let_def)
qed

lemma sn_pos_self: "0 < w \<Longrightarrow> sn_pos w h h = w"
  by (simp add: sn_pos_def)

lemma sn_pos_next:
  assumes "0 < w"
  shows "sn_pos w ((n + 1) mod (2 * w)) a = (if sn_pos w n a = 0 then 2 * w - 1 else sn_pos w n a - 1)"
proof -
  have "sn_pos w ((n + 1) mod (2 * w)) a = (a - n + w - 1) mod (2 * w)"
    unfolding sn_pos_def by (metis (no_types, opaque_lifting) add.commute add_diff_eq diff_diff_eq mod_add_left_eq mod_diff_right_eq)
  also have "\<dots> = (sn_pos w n a - 1) mod (2 * w)"
    unfolding sn_pos_def by (simp add: mod_diff_left_eq)
  also have "\<dots> = (if sn_pos w n a = 0 then 2 * w - 1 else sn_pos w n a - 1)"
  proof (cases "sn_pos w n a = 0")
    case True
    then show ?thesis using assms by (simp add: zmod_minus1)
  next
    case False
    have "0 \<le> sn_pos w n a" "sn_pos w n a < 2 * w" using assms by (simp_all add: sn_pos_def)
    then show ?thesis using False by simp
  qed
  finally show ?thesis .
qed

lemma sn_pos_range: "0 < w \<Longrightarrow> 0 \<le> sn_pos w n a \<and> sn_pos w n a < 2 * w"
  by (simp add: sn_pos_def)

lemma sn_pos_inj:
  assumes "0 < w" and "0 \<le> a" "a < 2 * w" "0 \<le> b" "b < 2 * w" and "sn_pos w n a = sn_pos w n b"
  shows "a = b"
proof -
  have "(a - n + w) mod (2 * w) = (b - n + w) mod (2 * w)" using assms(6) by (simp add: sn_pos_def)
  then have "2 * w dvd a - b" by (simp add: mod_eq_dvd_iff)
  moreover have "\<bar>a - b\<bar> < \<bar>2 * w\<bar>" using assms(1-5) by auto
  ultimately show ?thesis using dvd_imp_le_int [of "a - b" "2 * w"] by auto
qed

section \<open>The reception list\<close>

text \<open>The received segments of the sequence number \<open>n\<close> with the contents \<open>cs\<close>.\<close>

fun segs :: "int \<Rightarrow> int \<Rightarrow> u8 list list \<Rightarrow> nr_rlc_pdu list" where
  "segs n so [] = []"
| "segs n so (c # cs) = nr_rlc_new_pdu n so (so = 0) False c # segs n (so + int (length c)) cs"

text \<open>Delivered segments in the order of their sequence numbers, none before the position \<open>lo\<close>.\<close>

definition delivered_list :: "int \<Rightarrow> int \<Rightarrow> int \<Rightarrow> nr_rlc_pdu list \<Rightarrow> bool" where
  "delivered_list w n lo D \<longleftrightarrow>
     (\<forall>p \<in> set D. pdu_data p = None \<and> pdu_size p = 0 \<and> 0 \<le> pdu_sn p \<and> pdu_sn p < 2 * w \<and>
        lo \<le> sn_pos w n (pdu_sn p) \<and> sn_pos w n (pdu_sn p) < w) \<and>
     sorted (map (\<lambda>p. sn_pos w n (pdu_sn p)) D)"

text \<open>
  The receiver has delivered all SDUs before the sequence number \<open>n\<close> and holds the contents
  \<open>cs\<close> of the first segments of that SDU.
\<close>

definition rx_state :: "nr_rlc_entity_um \<Rightarrow> int \<Rightarrow> u8 list list \<Rightarrow> bool" where
  "rx_state e n cs \<longleftrightarrow> um_cfg e \<and> 0 \<le> n \<and> n < um_sn_modulus e \<and> um_rx_next_reassembly e = n \<and>
     um_rx_next_highest e = (if cs = [] then n else (n + 1) mod um_sn_modulus e) \<and>
     um_t_reassembly_start e = 0 \<and> [] \<notin> set cs \<and> um_rx_size e = int (length (concat cs)) \<and>
     (\<exists>D. um_rx_list e = D @ segs n 0 cs \<and>
          delivered_list (um_window_size e) n (if cs = [] then 0 else 1) D)"

lemma segs_append: "segs n so (cs @ ds) = segs n so cs @ segs n (so + int (length (concat cs))) ds"
  by (induction cs arbitrary: so) (simp_all add: algebra_simps)

lemma segs_sn: "p \<in> set (segs n so cs) \<Longrightarrow> pdu_sn p = n"
  by (induction cs arbitrary: so) (auto simp: nr_rlc_new_pdu_def)

lemma segs_so: "p \<in> set (segs n so cs) \<Longrightarrow> so \<le> pdu_so p \<and> pdu_so p \<le> so + int (length (concat cs))"
  by (induction cs arbitrary: so) (fastforce simp: nr_rlc_new_pdu_def)+

lemma segs_size: "sum_list (map pdu_size (segs n so cs)) = int (length (concat cs))"
  by (induction cs arbitrary: so) (simp_all add: nr_rlc_new_pdu_def)

text \<open>No delivered SDU has the sequence number \<open>n\<close>.\<close>

lemma delivered_list_sn: "delivered_list w n lo D \<Longrightarrow> 0 < w \<Longrightarrow> p \<in> set D \<Longrightarrow> pdu_sn p \<noteq> n"
  by (auto simp: delivered_list_def sn_pos_self)

lemma find_sn_delivered:
  assumes "delivered_list w n lo D" and "0 < w" and "\<forall>p \<in> set L. pdu_sn p = n"
  shows "find_sn n (D @ L) = L" and "takeWhile (\<lambda>p. pdu_sn p \<noteq> n) (D @ L) = D"
proof -
  have "\<forall>p \<in> set D. pdu_sn p \<noteq> n" using delivered_list_sn [OF assms(1,2)] by blast
  then show "find_sn n (D @ L) = L" "takeWhile (\<lambda>p. pdu_sn p \<noteq> n) (D @ L) = D"
    using assms(3) by (simp_all add: find_sn_def dropWhile_append2 takeWhile_append2)
      (cases L; simp)+
qed

text \<open>A segment that is not before any other one goes to the end of the list.\<close>

lemma pdu_list_add_end:
  assumes "\<And>q. q \<in> set l \<Longrightarrow> cmp (pdu_sn q) (pdu_sn p) \<le> 0 \<and> (pdu_sn q = pdu_sn p \<longrightarrow> pdu_so q \<le> pdu_so p)"
  shows "nr_rlc_pdu_list_add cmp l p = l @ [p]"
  using assms by (induction l) fastforce+

text \<open>Contiguous segments have no gap; they are complete with the last one.\<close>

lemma missing_loop_segs: "missing_loop n (so - 1) (segs n so cs) = False"
  by (induction cs arbitrary: so) (simp_all add: nr_rlc_new_pdu_def algebra_simps max_def)

lemma full_loop_segs: "full_loop n (so - 1) (segs n so cs) = False"
  by (induction cs arbitrary: so) (simp_all add: nr_rlc_new_pdu_def algebra_simps max_def)

lemma full_loop_last:
  "full_loop n (so - 1) (segs n so cs @ [nr_rlc_new_pdu n (so + int (length (concat cs))) f True c])"
proof (induction cs arbitrary: so)
  case (Cons d cs)
  have "so + int (length (concat (d # cs))) = so + int (length d) + int (length (concat cs))" by simp
  moreover have "max (so - 1) (so + int (length d) - 1) = so + int (length d) - 1" by simp
  ultimately show ?case using Cons.IH [of "so + int (length d)"]
    by (simp only: segs.simps append_Cons full_loop.simps) (simp add: nr_rlc_new_pdu_def)
qed (simp add: nr_rlc_new_pdu_def)

lemma segs_foldl:
  assumes "so + int (length (concat cs)) \<le> NR_SDU_MAX"
  shows "[] \<notin> set cs \<Longrightarrow> foldl reassemble_step (so, False, acc) (segs n so cs) = (so + int (length (concat cs)), False, acc @ concat cs)"
  using assms by (induction cs arbitrary: so acc) (auto simp: nr_rlc_new_pdu_def reassemble_step_def Let_def algebra_simps)

section \<open>Window and timer\<close>

lemma modulus_rx_update [rlc_simps]:
  "modulus_rx (e\<lparr>um_rx_size := x\<rparr>) a = modulus_rx e a"
  "modulus_rx (e\<lparr>um_rx_list := l\<rparr>) a = modulus_rx e a"
  "modulus_rx (e\<lparr>um_stats := s\<rparr>) a = modulus_rx e a"
  "modulus_rx (e\<lparr>um_delivered := d\<rparr>) a = modulus_rx e a"
  "modulus_rx (e\<lparr>um_rx_next_reassembly := r\<rparr>) a = modulus_rx e a"
  by (simp_all add: modulus_rx_def Let_def)

lemma um_cfg_update [rlc_simps]:
  "um_cfg (e\<lparr>um_rx_size := x\<rparr>) = um_cfg e"
  "um_cfg (e\<lparr>um_rx_list := l\<rparr>) = um_cfg e"
  "um_cfg (e\<lparr>um_stats := s\<rparr>) = um_cfg e"
  "um_cfg (e\<lparr>um_delivered := d\<rparr>) = um_cfg e"
  "um_cfg (e\<lparr>um_rx_next_reassembly := r\<rparr>) = um_cfg e"
  "um_cfg (e\<lparr>um_rx_next_highest := h\<rparr>) = um_cfg e"
  by (simp_all add: um_cfg_def)

text \<open>The delivered segments that leave the window when the next SDU starts.\<close>

definition leaving :: "int \<Rightarrow> int \<Rightarrow> nr_rlc_pdu \<Rightarrow> bool" where
  "leaving w n p \<longleftrightarrow> sn_pos w n (pdu_sn p) = 0"

lemma discard_out_of_window_delivered:
  assumes "\<And>p. p \<in> set D \<Longrightarrow> pdu_size p = 0 \<and>
             (sn_compare_rx e (pdu_sn p) (um_rx_next_highest e) \<ge> 0 \<longleftrightarrow> leaving w n p)"
    and "\<And>p. p \<in> set L \<Longrightarrow> sn_compare_rx e (pdu_sn p) (um_rx_next_highest e) < 0"
  shows "\<exists>s. discard_out_of_window e (D @ L) = e\<lparr>um_rx_list := dropWhile (leaving w n) D @ L, um_stats := s\<rparr>"
  using assms
proof (induction D arbitrary: e)
  case Nil
  have "discard_out_of_window e L = e\<lparr>um_rx_list := L\<rparr>"
    using Nil.prems(2) [of "hd L"] by (cases L) simp_all
  then show ?case by (intro exI [of _ "um_stats e"]) simp
next
  case (Cons p D)
  show ?case
  proof (cases "leaving w n p")
    case True
    let ?e = "e\<lparr>um_rx_size := um_rx_size e - pdu_size p, um_stats := count_window_discard (pdu_size p) (um_stats e)\<rparr>"
    have c: "sn_compare_rx ?e a b = sn_compare_rx e a b" for a b by (simp add: sn_compare_rx_def rlc_simps)
    have h: "um_rx_next_highest ?e = um_rx_next_highest e" by simp
    have "\<exists>s. discard_out_of_window ?e (D @ L) = ?e\<lparr>um_rx_list := dropWhile (leaving w n) D @ L, um_stats := s\<rparr>"
    proof (rule Cons.IH, unfold c h)
      fix p assume "p \<in> set D"
      then show "pdu_size p = 0 \<and> (0 \<le> sn_compare_rx e (pdu_sn p) (um_rx_next_highest e)) = leaving w n p"
        using Cons.prems(1) [of p] by simp
    qed (rule Cons.prems(2))
    then show ?thesis using Cons.prems(1) [of p] True by auto
  next
    case False
    then show ?thesis using Cons.prems(1) [of p] by (auto intro!: exI [of _ "um_stats e"])
  qed
qed

lemma delivered_list_next:
  assumes "delivered_list w n 0 D" and "0 < w"
  shows "delivered_list w n 1 (dropWhile (leaving w n) D)"
proof -
  let ?f = "\<lambda>p. sn_pos w n (pdu_sn p)"
  have d: "dropWhile (leaving w n) D = drop (length (takeWhile (leaving w n) D)) D" by (rule dropWhile_eq_drop)
  have s: "sorted (map ?f (dropWhile (leaving w n) D))"
    using assms(1) unfolding d drop_map [symmetric] by (simp add: delivered_list_def sorted_wrt_drop)
  have "1 \<le> ?f p" if p: "p \<in> set (dropWhile (leaving w n) D)" for p
  proof -
    obtain q qs where q: "dropWhile (leaving w n) D = q # qs" using p by (cases "dropWhile (leaving w n) D") auto
    then have "\<not> leaving w n q" by (metis dropWhile_eq_Cons_conv)
    then have "1 \<le> ?f q" using sn_pos_range [OF assms(2), of n "pdu_sn q"] by (simp add: leaving_def)
    moreover have "?f q \<le> ?f p" using s p q by auto
    ultimately show ?thesis by simp
  qed
  then show ?thesis using s assms(1) set_dropWhileD unfolding delivered_list_def by fast
qed

lemma rx_state_cfg: "rx_state e n cs \<Longrightarrow> um_cfg e"
  by (simp add: rx_state_def)

lemma next_sn_range: "0 < m \<Longrightarrow> 0 \<le> (n + 1) mod m \<and> (n + 1) mod m < (m :: int)"
  by simp

text \<open>Comparisons with the two values the upper edge of the window can have.\<close>

lemma modulus_rx_at:
  assumes "um_cfg e" and "um_rx_next_highest e = n" and "0 \<le> n" and "n < um_sn_modulus e"
    and "0 \<le> a" and "a < um_sn_modulus e"
  shows "modulus_rx e a = sn_pos (um_window_size e) n a"
  using modulus_rx_pos [OF assms(1)] assms by simp

lemma modulus_rx_after:
  assumes "um_cfg e" and "um_rx_next_highest e = (n + 1) mod um_sn_modulus e"
    and "0 \<le> a" and "a < um_sn_modulus e"
  shows "modulus_rx e a =
    (if sn_pos (um_window_size e) n a = 0 then um_sn_modulus e - 1 else sn_pos (um_window_size e) n a - 1)"
proof -
  have w: "um_sn_modulus e = 2 * um_window_size e" "0 < um_window_size e" using um_cfg_window [OF assms(1)] by auto
  have "modulus_rx e a = sn_pos (um_window_size e) ((n + 1) mod um_sn_modulus e) a"
    using w(2) by (intro modulus_rx_at [OF assms(1,2) _ _ assms(3,4)]) (simp_all add: w(1))
  then show ?thesis using sn_pos_next [OF w(2)] by (simp add: w(1))
qed

lemma sn_pos_succ: "1 < w \<Longrightarrow> sn_pos w n ((n + 1) mod (2 * w)) = w + 1"
proof -
  assume w: "1 < w"
  have "sn_pos w n ((n + 1) mod (2 * w)) = (1 + w) mod (2 * w)"
    unfolding sn_pos_def by (metis (no_types, opaque_lifting) add.commute add_diff_cancel_left' diff_add_eq mod_add_left_eq mod_diff_left_eq)
  then show ?thesis using w by simp
qed

lemma rx_state_compare_delivered:
  assumes "rx_state e n cs" and "delivered_list (um_window_size e) n (if cs = [] then 0 else 1) D" and "q \<in> set D"
  shows "sn_compare_rx e (pdu_sn q) n < 0"
proof -
  have cfg: "um_cfg e" using assms(1) by (rule rx_state_cfg)
  then have w: "um_sn_modulus e = 2 * um_window_size e" "0 < um_window_size e" using um_cfg_window [of e] by auto
  have n: "0 \<le> n" "n < um_sn_modulus e" using assms(1) by (auto simp: rx_state_def)
  have q: "0 \<le> pdu_sn q" "pdu_sn q < um_sn_modulus e" "sn_pos (um_window_size e) n (pdu_sn q) < um_window_size e"
    "cs \<noteq> [] \<Longrightarrow> 1 \<le> sn_pos (um_window_size e) n (pdu_sn q)"
    using assms(2,3) by (auto simp: delivered_list_def w(1) split: if_splits)
  show ?thesis
  proof (cases "cs = []")
    case True
    then have h: "um_rx_next_highest e = n" using assms(1) by (simp add: rx_state_def)
    show ?thesis unfolding sn_compare_rx_def modulus_rx_at [OF cfg h n q(1,2)] modulus_rx_at [OF cfg h n n]
      using q(3) by (simp add: sn_pos_self w)
  next
    case False
    then have h: "um_rx_next_highest e = (n + 1) mod um_sn_modulus e" using assms(1) by (simp add: rx_state_def)
    show ?thesis unfolding sn_compare_rx_def modulus_rx_after [OF cfg h q(1,2)] modulus_rx_after [OF cfg h n]
      using q(3) q(4) [OF False] w(2) by (simp add: sn_pos_self)
  qed
qed

lemma rx_state_missing:
  assumes "rx_state e n cs"
  shows "\<not> sdu_has_missing_bytes (um_rx_list e) n"
proof -
  obtain D where D: "um_rx_list e = D @ segs n 0 cs"
    "delivered_list (um_window_size e) n (if cs = [] then 0 else 1) D" using assms by (auto simp: rx_state_def)
  have w: "0 < um_window_size e" using um_cfg_window [OF rx_state_cfg [OF assms]] by auto
  have "find_sn n (um_rx_list e) = segs n 0 cs"
    using find_sn_delivered(1) [OF D(2) w, of "segs n 0 cs"] segs_sn D(1) by auto
  then show ?thesis using missing_loop_segs [of n 0 cs] by (cases cs) (simp_all add: sdu_has_missing_bytes_def)
qed

text \<open>Segments that arrive in order never start the reassembly timer.\<close>

lemma rx_state_timers:
  assumes "rx_state e n cs"
  shows "timer_start (timer_stop e) = e"
proof -
  have cfg: "um_cfg e" using assms by (rule rx_state_cfg)
  then have w: "um_sn_modulus e = 2 * um_window_size e" "1 < um_window_size e" using um_cfg_window [of e] by auto
  have n: "0 \<le> n" "n < um_sn_modulus e" "um_rx_next_reassembly e = n" "um_t_reassembly_start e = 0"
    using assms by (auto simp: rx_state_def)
  have n1: "0 \<le> (n + 1) mod um_sn_modulus e" "(n + 1) mod um_sn_modulus e < um_sn_modulus e" using w by auto
  have c: "c_mod (n + 1) (um_sn_modulus e) = (n + 1) mod um_sn_modulus e" using n(1) w by (intro c_mod_nonneg) auto
  have "\<not> sn_compare_rx e (um_rx_next_highest e) ((n + 1) mod um_sn_modulus e) > 0"
  proof (cases "cs = []")
    case True
    then have h: "um_rx_next_highest e = n" using assms by (simp add: rx_state_def)
    show ?thesis unfolding sn_compare_rx_def h modulus_rx_at [OF cfg h n(1,2) n1] modulus_rx_at [OF cfg h n(1,2,1,2)]
      using w by (simp add: sn_pos_self sn_pos_succ)
  next
    case False
    then show ?thesis using assms by (simp add: rx_state_def sn_compare_rx_def)
  qed
  then show ?thesis using n(3,4) rx_state_missing [OF assms] by (simp add: timer_start_def timer_stop_def c)
qed

lemma reception_actions_state:
  "reception_window e x = Some e' \<Longrightarrow> rx_state e' n cs \<Longrightarrow> reception_actions e x = Some e'"
  using rx_state_timers by (simp add: reception_actions_def)

section \<open>Receiving segments in order\<close>

lemma rx_list_add:
  assumes "rx_state e n cs" and "um_rx_list e = D @ segs n 0 cs"
    and "delivered_list (um_window_size e) n (if cs = [] then 0 else 1) D"
    and "pdu_sn p = n" and "pdu_so p = int (length (concat cs))"
  shows "nr_rlc_pdu_list_add (sn_compare_rx e) (um_rx_list e) p = D @ segs n 0 cs @ [p]"
proof -
  have "nr_rlc_pdu_list_add (sn_compare_rx e) (um_rx_list e) p = um_rx_list e @ [p]"
  proof (rule pdu_list_add_end)
    fix q assume "q \<in> set (um_rx_list e)"
    then consider "q \<in> set D" | "q \<in> set (segs n 0 cs)" by (auto simp: assms(2))
    then show "sn_compare_rx e (pdu_sn q) (pdu_sn p) \<le> 0 \<and> (pdu_sn q = pdu_sn p \<longrightarrow> pdu_so q \<le> pdu_so p)"
    proof cases
      case 1
      then have "sn_compare_rx e (pdu_sn q) n < 0" by (rule rx_state_compare_delivered [OF assms(1,3)])
      moreover have "pdu_sn q \<noteq> n" using calculation by (auto simp: sn_compare_rx_def)
      ultimately show ?thesis using assms(4) by simp
    next
      case 2
      then show ?thesis using segs_sn [OF 2] segs_so [OF 2] assms(4,5) by (simp add: sn_compare_rx_def)
    qed
  qed
  then show ?thesis by (simp add: assms(2))
qed

text \<open>A segment that is not the last one of its SDU.\<close>

lemma window_not_full:
  assumes "delivered_list w n lo D" and "0 < w"
  shows "\<not> sdu_full (D @ segs n 0 cs) n"
proof -
  have "find_sn n (D @ segs n 0 cs) = segs n 0 cs"
    using find_sn_delivered(1) [OF assms, of "segs n 0 cs"] segs_sn by auto
  then show ?thesis using full_loop_segs [of n 0 cs] by (cases cs) (simp_all add: sdu_full_def)
qed

lemma window_first_segment:
  assumes "rx_state e n []" and "um_rx_list e = D"
    and "e' = e\<lparr>um_rx_size := int (length c), um_rx_list := D @ segs n 0 [c]\<rparr>" and "c \<noteq> []"
  shows "\<exists>s. reception_window e' n =
      Some (e'\<lparr>um_rx_next_highest := (n + 1) mod um_sn_modulus e,
               um_rx_list := dropWhile (leaving (um_window_size e) n) D @ segs n 0 [c], um_stats := s\<rparr>)"
proof -
  let ?w = "um_window_size e" and ?m = "um_sn_modulus e"
  let ?e1 = "e'\<lparr>um_rx_next_highest := (n + 1) mod ?m\<rparr>"
  have cfg: "um_cfg e" using assms(1) by (rule rx_state_cfg)
  then have w: "?m = 2 * ?w" "1 < ?w" "0 < ?w" using um_cfg_window [of e] by auto
  have n: "0 \<le> n" "n < ?m" "um_rx_next_highest e = n" "um_rx_next_reassembly e = n" "delivered_list ?w n 0 D"
    using assms(1,2) by (auto simp: rx_state_def)
  have cm: "c_mod (n + 1) ?m = (n + 1) mod ?m" using n(1) w by (intro c_mod_nonneg) auto
  have cfg1: "um_cfg ?e1" and h1: "um_rx_next_highest ?e1 = (n + 1) mod um_sn_modulus ?e1"
    using cfg by (simp_all add: assms(3) rlc_simps)
  have m1: "modulus_rx ?e1 a = (if sn_pos ?w n a = 0 then ?m - 1 else sn_pos ?w n a - 1)" if "0 \<le> a" "a < ?m" for a
    using modulus_rx_after [OF cfg1 h1, of a] that by (simp add: assms(3))
  have top: "modulus_rx ?e1 ((n + 1) mod ?m) = ?w" using w by (subst m1) (simp_all add: sn_pos_succ)
  have mw: "?w \<le> ?m - 1" using w by simp
  have dis: "\<exists>s. discard_out_of_window ?e1 (D @ segs n 0 [c]) =
      ?e1\<lparr>um_rx_list := dropWhile (leaving ?w n) D @ segs n 0 [c], um_stats := s\<rparr>"
  proof (rule discard_out_of_window_delivered)
    fix p assume p: "p \<in> set D"
    then have "pdu_size p = 0" "0 \<le> pdu_sn p" "pdu_sn p < ?m" "sn_pos ?w n (pdu_sn p) < ?w"
      using n(5) w(1) by (auto simp: delivered_list_def)
    then show "pdu_size p = 0 \<and> (0 \<le> sn_compare_rx ?e1 (pdu_sn p) (um_rx_next_highest ?e1)) = leaving ?w n p"
      using mw by (simp add: sn_compare_rx_def m1 top leaving_def)
  next
    fix p assume "p \<in> set (segs n 0 [c])"
    then have "pdu_sn p = n" by (rule segs_sn)
    then show "sn_compare_rx ?e1 (pdu_sn p) (um_rx_next_highest ?e1) < 0"
      using n(1,2) w(3) by (simp add: sn_compare_rx_def m1 top sn_pos_self)
  qed
  then obtain s where s: "discard_out_of_window ?e1 (D @ segs n 0 [c]) =
      ?e1\<lparr>um_rx_list := dropWhile (leaving ?w n) D @ segs n 0 [c], um_stats := s\<rparr>" by blast
  have nf: "\<not> sdu_full (um_rx_list e') n" using window_not_full [OF n(5) w(3), of "[c]"] by (simp add: assms(3))
  have ge: "0 \<le> sn_compare_rx e' n (um_rx_next_highest e')" using n(3) by (simp add: sn_compare_rx_def assms(3))
  have lt: "\<not> 0 \<le> sn_compare_rx (?e1\<lparr>um_rx_list := l, um_stats := s\<rparr>) n ((n + 1) mod ?m)" for l s
    using n(1,2) w(3) by (simp only: sn_compare_rx_def rlc_simps m1 top) (simp add: sn_pos_self)
  show ?thesis using nf ge s lt n(4) by (intro exI [of _ s]) (simp add: reception_window_def Let_def cm assms(3))
qed

text \<open>What an operation on the receiver leaves as it was.\<close>

definition rx_frame :: "nr_rlc_entity_um \<Rightarrow> nr_rlc_entity_um \<Rightarrow> bool" where
  "rx_frame e e' \<longleftrightarrow> um_rx_maxsize e' = um_rx_maxsize e \<and> um_sn_field_length e' = um_sn_field_length e"

lemma recv_segment_not_last:
  assumes "rx_state e n cs" and "drop off buffer = c" and "c \<noteq> []"
    and "int (length (concat cs)) + int (length c) \<le> um_rx_maxsize e"
  shows "\<exists>e'. um_recv_segment e buffer (cs = []) False n (int (length (concat cs))) off = Some e' \<and>
    rx_state e' n (cs @ [c]) \<and> um_delivered e' = um_delivered e \<and> rx_frame e e'"
proof -
  let ?so = "int (length (concat cs))" and ?w = "um_window_size e"
  obtain D where D: "um_rx_list e = D @ segs n 0 cs" "delivered_list ?w n (if cs = [] then 0 else 1) D"
    using assms(1) by (auto simp: rx_state_def)
  have st: "um_rx_next_reassembly e = n" "um_rx_size e = ?so" "[] \<notin> set cs" using assms(1) by (simp_all add: rx_state_def)
  have w: "0 < ?w" "um_sn_modulus e = 2 * ?w" using um_cfg_window [OF rx_state_cfg [OF assms(1)]] by auto
  have so: "cs \<noteq> [] \<Longrightarrow> ?so \<noteq> 0" using st(3) by (cases cs; cases "hd cs") auto
  have off: "int (length buffer) - int off = int (length c)" using assms(2,3) by auto
  let ?e1 = "e\<lparr>um_rx_size := ?so + int (length c), um_rx_list := D @ segs n 0 (cs @ [c])\<rparr>"
  have add: "nr_rlc_pdu_list_add (sn_compare_rx e) (um_rx_list e) (nr_rlc_new_pdu n ?so (cs = []) False c) = D @ segs n 0 (cs @ [c])"
    using rx_list_add [OF assms(1) D] so by (cases "cs = []") (simp_all add: segs_append nr_rlc_new_pdu_def)
  have cmp: "sn_compare_rx (e\<lparr>um_rx_size := x\<rparr>) = sn_compare_rx e" for x by (intro ext) (simp add: sn_compare_rx_def rlc_simps)
  have r: "um_recv_segment e buffer (cs = []) False n ?so off = reception_actions ?e1 n"
    using so assms(2-4) st off add by (auto simp: um_recv_segment_def Let_def sn_compare_rx_def [of e n n] cmp)
  show ?thesis
  proof (cases "cs = []")
    case True
    then obtain s where "reception_window ?e1 n = Some (?e1\<lparr>um_rx_next_highest := (n + 1) mod um_sn_modulus e,
               um_rx_list := dropWhile (leaving ?w n) D @ segs n 0 [c], um_stats := s\<rparr>)" (is "_ = Some ?e2")
      using window_first_segment [OF _ _ refl assms(3), of e n D] assms(1) D(1) by auto
    moreover have "rx_state ?e2 n (cs @ [c])"
      using assms(1,3) True delivered_list_next [OF _ w(1), of n D] D(2)
      by (auto simp: rx_state_def rlc_simps)
    ultimately show ?thesis using reception_actions_state [of ?e1 n ?e2] r by (simp add: rx_frame_def)
  next
    case False
    have "\<not> sdu_full (um_rx_list ?e1) n" using window_not_full [OF D(2) w(1), of "cs @ [c]"] by simp
    moreover have h: "um_rx_next_highest e = (n + 1) mod um_sn_modulus e" "0 \<le> n" "n < um_sn_modulus e"
      using assms(1) False by (simp_all add: rx_state_def)
    then have "sn_compare_rx e n (um_rx_next_highest e) < 0"
      using modulus_rx_after [OF rx_state_cfg [OF assms(1)] h(1)] w sn_pos_succ [of ?w n] um_cfg_window [OF rx_state_cfg [OF assms(1)]]
      by (simp add: sn_compare_rx_def sn_pos_self)
    ultimately have "reception_window ?e1 n = Some ?e1"
      by (simp add: reception_window_def sn_compare_rx_def rlc_simps)
    moreover have "rx_state ?e1 n (cs @ [c])"
      using assms(1,3) False D(2) by (auto simp: rx_state_def rlc_simps)
    ultimately show ?thesis using reception_actions_state [of ?e1 n ?e1] r by (simp add: rx_frame_def)
  qed
qed

text \<open>The last segment: the SDU is delivered and the window moves on.\<close>

definition clear_pdu :: "nr_rlc_pdu \<Rightarrow> nr_rlc_pdu" where
  "clear_pdu p = p\<lparr>pdu_data := None, pdu_size := 0\<rparr>"

lemma delivered_list_append:
  assumes "delivered_list w n 1 D" and "0 < w" and "0 \<le> n" and "n < 2 * w" and "\<forall>p \<in> set L. pdu_sn p = n"
  shows "delivered_list w ((n + 1) mod (2 * w)) 0 (D @ map clear_pdu L)"
proof -
  let ?f = "\<lambda>p. sn_pos w ((n + 1) mod (2 * w)) (pdu_sn p)"
  have D: "?f p = sn_pos w n (pdu_sn p) - 1" "1 \<le> sn_pos w n (pdu_sn p)" "sn_pos w n (pdu_sn p) < w" if "p \<in> set D" for p
    using assms(1,2) that sn_pos_next [OF assms(2), of n "pdu_sn p"] by (auto simp: delivered_list_def)
  have L: "?f p = w - 1" "pdu_sn p = n" "pdu_data p = None" "pdu_size p = 0" if "p \<in> set (map clear_pdu L)" for p
    using assms(2,5) that sn_pos_next [OF assms(2), of n n] by (auto simp: clear_pdu_def sn_pos_self)
  have eq: "map ?f D = map (\<lambda>x. x - 1) (map (\<lambda>p. sn_pos w n (pdu_sn p)) D)" using D(1) by simp
  have mono: "sorted (map (\<lambda>x :: int. x - 1) xs)" if "sorted xs" for xs
    using that by (induction xs) auto
  have "sorted (map ?f D)" unfolding eq using assms(1) by (intro mono) (simp add: delivered_list_def)
  moreover have "map ?f (map clear_pdu L) = replicate (length L) (w - 1)"
    using L(1) by (intro nth_equalityI) auto
  ultimately have "sorted (map ?f (D @ map clear_pdu L))"
    using D by (fastforce simp: sorted_append)
  moreover have "pdu_data p = None \<and> pdu_size p = 0 \<and> 0 \<le> pdu_sn p \<and> pdu_sn p < 2 * w \<and> 0 \<le> ?f p \<and> ?f p < w"
    if "p \<in> set (D @ map clear_pdu L)" for p
  proof (cases "p \<in> set D")
    case True
    then show ?thesis using D [OF True] assms(1) by (auto simp: delivered_list_def)
  next
    case False
    then show ?thesis using L [of p] that assms(2-4) by auto
  qed
  ultimately show ?thesis unfolding delivered_list_def by blast
qed

lemma sdu_delivered_append:
  assumes "delivered_list w n lo D" and "0 < w" and "L \<noteq> []" and "\<forall>p \<in> set L. pdu_sn p = n"
  shows "sdu_delivered (D @ map clear_pdu L) n"
proof -
  have "\<forall>p \<in> set (map clear_pdu L). pdu_sn p = n" using assms(4) by (auto simp: clear_pdu_def)
  then have "find_sn n (D @ map clear_pdu L) = map clear_pdu L" by (rule find_sn_delivered(1) [OF assms(1,2)])
  then show ?thesis using assms(3) by (cases L) (simp_all add: sdu_delivered_def clear_pdu_def)
qed

lemma sdu_not_delivered:
  assumes "delivered_list w n lo D" and "0 < w"
  shows "\<not> sdu_delivered D n"
  using find_sn_delivered(1) [OF assms, of "[]"] by (simp add: sdu_delivered_def)

lemma skip_delivered_one:
  assumes "sdu_delivered l n" and "\<not> sdu_delivered l (c_mod (n + 1) m)"
  shows "skip_delivered l m n = Some (c_mod (n + 1) m)"
  using assms by (subst skip_delivered.simps, simp, subst skip_delivered.simps, simp)

lemma reassemble_complete:
  assumes "um_rx_list e = D @ segs n 0 cs @ [p]" (is "_ = D @ ?L") and "delivered_list (um_window_size e) n 1 D"
    and "0 < um_window_size e" and "[] \<notin> set cs" and "p = nr_rlc_new_pdu n (int (length (concat cs))) False True c" and "c \<noteq> []"
    and "int (length (concat cs)) + int (length c) \<le> NR_SDU_MAX"
    and "um_rx_size e = int (length (concat cs)) + int (length c)"
  shows "\<exists>s. reassemble_and_deliver e n =
    e\<lparr>um_rx_list := D @ map clear_pdu (segs n 0 cs @ [p]), um_rx_size := 0,
      um_delivered := um_delivered e @ [concat cs @ c], um_stats := s\<rparr>"
proof -
  have sn: "\<forall>q \<in> set ?L. pdu_sn q = n" using segs_sn by (auto simp: assms(5) nr_rlc_new_pdu_def)
  have fo: "foldl reassemble_step (0, False, []) ?L = (int (length (concat cs)) + int (length c), False, concat cs @ c)"
    using segs_foldl [of 0 cs "[]" n] assms(4-7) by (simp add: reassemble_step_def nr_rlc_new_pdu_def)
  have tw: "takeWhile (\<lambda>q. pdu_sn q = n) ?L = ?L" "dropWhile (\<lambda>q. pdu_sn q = n) ?L = []"
    using sn by (simp_all add: takeWhile_eq_all_conv dropWhile_eq_Nil_conv)
  have sz: "sum_list (map pdu_size ?L) = int (length (concat cs)) + int (length c)"
    by (simp add: segs_size assms(5)) (simp add: nr_rlc_new_pdu_def)
  have cl: "(\<lambda>q. q\<lparr>pdu_data := None, pdu_size := 0\<rparr>) = clear_pdu" by (rule ext) (simp add: clear_pdu_def)
  show ?thesis
    unfolding reassemble_and_deliver_def Let_def assms(1) find_sn_delivered [OF assms(2,3) sn] tw fo cl sz
    by (intro exI) (simp add: assms(8))
qed

lemma recv_segment_last:
  assumes "rx_state e n cs" and "cs \<noteq> []" and "drop off buffer = c" and "c \<noteq> []"
    and "int (length (concat cs)) + int (length c) \<le> um_rx_maxsize e"
    and "int (length (concat cs)) + int (length c) \<le> NR_SDU_MAX"
  shows "\<exists>e'. um_recv_segment e buffer False True n (int (length (concat cs))) off = Some e' \<and>
    rx_state e' ((n + 1) mod um_sn_modulus e) [] \<and> um_delivered e' = um_delivered e @ [concat cs @ c] \<and> rx_frame e e'"
proof -
  let ?so = "int (length (concat cs))" and ?w = "um_window_size e" and ?m = "um_sn_modulus e"
  let ?p = "nr_rlc_new_pdu n ?so False True c" and ?n1 = "(n + 1) mod um_sn_modulus e"
  obtain D where D: "um_rx_list e = D @ segs n 0 cs" "delivered_list ?w n 1 D"
    using assms(1,2) by (auto simp: rx_state_def)
  have Dc: "delivered_list ?w n (if cs = [] then 0 else 1) D" using D(2) assms(2) by simp
  have st: "um_rx_next_reassembly e = n" "um_rx_size e = ?so" "[] \<notin> set cs" "0 \<le> n" "n < ?m"
    "um_rx_next_highest e = ?n1" "um_t_reassembly_start e = 0" "um_cfg e"
    using assms(1,2) by (simp_all add: rx_state_def)
  have w: "0 < ?w" "?m = 2 * ?w" using um_cfg_window [OF st(8)] by auto
  have so: "?so \<noteq> 0" using st(3) assms(2) by (cases cs; cases "hd cs") auto
  have off: "int (length buffer) - int off = int (length c)" using assms(3,4) by auto
  let ?L = "segs n 0 cs @ [?p]"
  let ?e1 = "e\<lparr>um_rx_size := ?so + int (length c), um_rx_list := D @ ?L\<rparr>"
  have snL: "\<forall>q \<in> set ?L. pdu_sn q = n" using segs_sn by (auto simp: nr_rlc_new_pdu_def)
  have add: "nr_rlc_pdu_list_add (sn_compare_rx e) (um_rx_list e) ?p = D @ ?L"
    by (rule rx_list_add [OF assms(1) D(1) Dc]) (simp_all add: nr_rlc_new_pdu_def)
  have cmp: "sn_compare_rx (e\<lparr>um_rx_size := x\<rparr>) = sn_compare_rx e" for x by (intro ext) (simp add: sn_compare_rx_def rlc_simps)
  have r: "um_recv_segment e buffer False True n ?so off = reception_actions ?e1 n"
    using so assms(3-5) st off add by (auto simp: um_recv_segment_def Let_def sn_compare_rx_def [of e n n] cmp)
  have fi: "find_sn n (D @ ?L) = ?L" by (rule find_sn_delivered(1) [OF D(2) w(1) snL])
  have full: "sdu_full (um_rx_list ?e1) n"
    using full_loop_last [of n 0 cs False c] assms(2) fi by (cases cs) (simp_all add: sdu_full_def nr_rlc_new_pdu_def)
  obtain s where re: "reassemble_and_deliver ?e1 n = ?e1\<lparr>um_rx_list := D @ map clear_pdu ?L, um_rx_size := 0,
      um_delivered := um_delivered ?e1 @ [concat cs @ c], um_stats := s\<rparr>" (is "_ = ?e2")
    using reassemble_complete [of ?e1 D n cs ?p c] D(2) w(1) st(3) assms(4,6) by auto
  have cm: "c_mod (n + 1) ?m = ?n1" using st(4) w by (intro c_mod_nonneg) auto
  have dl: "delivered_list ?w ?n1 0 (D @ map clear_pdu ?L)"
    unfolding w(2) by (rule delivered_list_append [OF D(2) w(1) st(4) _ snL]) (use st(5) w(2) in simp)
  have "skip_delivered (D @ map clear_pdu ?L) ?m n = Some ?n1"
    using skip_delivered_one [of "D @ map clear_pdu ?L" n ?m] sdu_delivered_append [OF D(2) w(1) _ snL] sdu_not_delivered [OF dl w(1)]
    by (simp add: cm)
  then have win: "reception_window ?e1 n = Some (?e2\<lparr>um_rx_next_reassembly := ?n1\<rparr>)" (is "_ = Some ?e3")
    unfolding reception_window_def re Let_def using full st(1) by simp
  have "rx_state ?e3 ?n1 []" using st w dl by (simp add: rx_state_def rlc_simps)
  then have "reception_actions ?e1 n = Some ?e3" by (rule reception_actions_state [OF win])
  then show ?thesis using r \<open>rx_state ?e3 ?n1 []\<close> by (intro exI [of _ ?e3]) (simp add: rx_frame_def)
qed

end
