(* ===== verification/Rlc_Link.thy ===== *)
theory Rlc_Link
  imports Rlc_Pdu
begin

text \<open>
  Two RLC entities joined by a link. The operations of an entity are the function pointers of
  \<^verbatim>\<open>nr_rlc_entity_t\<close> (\<^verbatim>\<open>nr_rlc_entity.h\<close>) that the constructors in \<^verbatim>\<open>nr_rlc_entity.c\<close>
  fill in. Data units arrive at the transmitting entity, the scheduler gives it buffers to write a
  PDU to, a PDU that is written reaches the receiving entity, and time passes at both, in any order.
\<close>

record 'e rlc_ops =
  op_recv_pdu :: "'e \<Rightarrow> u8 list \<Rightarrow> 'e option"
  op_generate_pdu :: "'e \<Rightarrow> u8 list \<Rightarrow> ('e \<times> u8 list) option"
  op_recv_sdu :: "'e \<Rightarrow> u8 list \<Rightarrow> int \<Rightarrow> 'e option"
  op_set_time :: "'e \<Rightarrow> u64 \<Rightarrow> 'e option"
  op_available_tx_space :: "'e \<Rightarrow> int"

datatype rlc_event = Sdu_arrival int "u8 list" | Tx_grant "u8 list" | Clock u64

definition link_step :: "'e rlc_ops \<Rightarrow> 'e \<times> 'e \<Rightarrow> rlc_event \<Rightarrow> ('e \<times> 'e) option" where
  "link_step ops c ev =
     (let (tx, rx) = c
      in case ev of
           Sdu_arrival i d \<Rightarrow> map_option (\<lambda>tx'. (tx', rx)) (op_recv_sdu ops tx d i)
         | Tx_grant buffer \<Rightarrow>
             Option.bind (op_generate_pdu ops tx buffer) (\<lambda>(tx', pdu).
               if pdu = [] then Some (tx', rx) else map_option (\<lambda>rx'. (tx', rx')) (op_recv_pdu ops rx pdu))
         | Clock t \<Rightarrow> Option.bind (op_set_time ops tx t) (\<lambda>tx'. map_option (\<lambda>rx'. (tx', rx')) (op_set_time ops rx t)))"

text \<open>The data units for which the transmitting entity has space when they arrive.\<close>

definition newly_accepted :: "'e rlc_ops \<Rightarrow> 'e \<Rightarrow> rlc_event \<Rightarrow> u8 list list" where
  "newly_accepted ops tx ev =
     (case ev of Sdu_arrival i d \<Rightarrow> if int (length d) \<le> op_available_tx_space ops tx then [d] else [] | _ \<Rightarrow> [])"

fun link_run :: "'e rlc_ops \<Rightarrow> 'e \<times> 'e \<Rightarrow> rlc_event list \<Rightarrow> (('e \<times> 'e) \<times> u8 list list) option" where
  "link_run ops c [] = Some (c, [])"
| "link_run ops c (ev # evs) =
     Option.bind (link_step ops c ev) (\<lambda>c'.
       map_option (\<lambda>(c'', acc). (c'', newly_accepted ops (fst c) ev @ acc)) (link_run ops c' evs))"

section \<open>The abstract link\<close>

text \<open>
  The specification: a first-in first-out queue. The state is the list of delivered data units and
  the list of pending ones; a step accepts data units at the end of the queue or delivers some
  from its front.
\<close>

inductive fifo_step :: "u8 list list \<times> u8 list list \<Rightarrow> u8 list list \<Rightarrow> u8 list list \<times> u8 list list \<Rightarrow> bool" where
  accept: "fifo_step (d, p) new (d, p @ new)"
| serve: "fifo_step (d, p) [] (d @ take k p, drop k p)"

inductive fifo_run :: "u8 list list \<times> u8 list list \<Rightarrow> u8 list list \<Rightarrow> u8 list list \<times> u8 list list \<Rightarrow> bool" where
  stop: "fifo_run s [] s"
| step: "fifo_step s a s' \<Longrightarrow> fifo_run s' b s'' \<Longrightarrow> fifo_run s (a @ b) s''"

inductive_cases fifo_stepE: "fifo_step (d, p) a (d', p')"

lemma fifo_run_order: "fifo_run s acc s' \<Longrightarrow> fst s' @ snd s' = fst s @ snd s @ acc"
proof (induction rule: fifo_run.induct)
  case (step s a s' b s'')
  have "fst s' @ snd s' = fst s @ snd s @ a" using step.hyps(1) by (cases rule: fifo_step.cases) simp_all
  then show ?case using step.IH by (metis append.assoc)
qed simp

section \<open>What an entity promises\<close>

text \<open>
  \<open>pending\<close> are the data units the transmitter has not sent completely, \<open>linked\<close> is the
  invariant of the two entities, \<open>backlog\<close> is a bound on the number of useful grants the
  transmitter needs.
\<close>

locale rlc_link =
  fixes ops :: "'e rlc_ops" and pending :: "'e \<Rightarrow> u8 list list" and delivered :: "'e \<Rightarrow> u8 list list"
    and linked :: "'e \<Rightarrow> 'e \<Rightarrow> bool" and sdu_ok :: "u8 list \<Rightarrow> bool" and grant_ok :: "nat \<Rightarrow> bool"
    and grant_useful :: "nat \<Rightarrow> bool" and backlog :: "'e \<Rightarrow> nat"
  assumes arrival: "linked tx rx \<Longrightarrow> sdu_ok d \<Longrightarrow>
      \<exists>tx'. op_recv_sdu ops tx d i = Some tx' \<and> linked tx' rx \<and>
        pending tx' = pending tx @ newly_accepted ops tx (Sdu_arrival i d)"
    and grant: "linked tx rx \<Longrightarrow> grant_ok (length b) \<Longrightarrow>
      \<exists>tx' rx'. link_step ops (tx, rx) (Tx_grant b) = Some (tx', rx') \<and> linked tx' rx' \<and>
        (\<exists>k. delivered rx' = delivered rx @ take k (pending tx) \<and> pending tx' = drop k (pending tx)) \<and>
        (grant_useful (length b) \<and> pending tx \<noteq> [] \<longrightarrow> backlog tx' < backlog tx) \<and> backlog tx' \<le> backlog tx"
    and clock: "linked tx rx \<Longrightarrow>
      \<exists>tx' rx'. link_step ops (tx, rx) (Clock t) = Some (tx', rx') \<and> linked tx' rx' \<and>
        delivered rx' = delivered rx \<and> pending tx' = pending tx"
    and no_backlog: "linked tx rx \<Longrightarrow> backlog tx = 0 \<longleftrightarrow> pending tx = []"
begin

definition event_ok :: "rlc_event \<Rightarrow> bool" where
  "event_ok ev = (case ev of Sdu_arrival i d \<Rightarrow> sdu_ok d | Tx_grant b \<Rightarrow> grant_ok (length b) | Clock t \<Rightarrow> True)"

lemma step_safe:
  assumes "linked tx rx" and "event_ok ev"
  shows "\<exists>tx' rx'. link_step ops (tx, rx) ev = Some (tx', rx') \<and> linked tx' rx' \<and>
    fifo_step (delivered rx, pending tx) (newly_accepted ops tx ev) (delivered rx', pending tx')"
proof (cases ev)
  case (Sdu_arrival i d)
  then obtain tx' where t: "op_recv_sdu ops tx d i = Some tx'" "linked tx' rx"
    "pending tx' = pending tx @ newly_accepted ops tx ev"
    using arrival [OF assms(1), of d i] assms(2) by (auto simp: event_ok_def)
  have "link_step ops (tx, rx) ev = Some (tx', rx)" using t(1) Sdu_arrival by (simp add: link_step_def)
  then show ?thesis using t(2) fifo_step.accept [of "delivered rx" "pending tx" "newly_accepted ops tx ev"]
    by (auto simp: t(3))
next
  case (Tx_grant b)
  then obtain tx' rx' k where t: "link_step ops (tx, rx) ev = Some (tx', rx')" "linked tx' rx'"
    "delivered rx' = delivered rx @ take k (pending tx)" "pending tx' = drop k (pending tx)"
    using grant [OF assms(1), of b] assms(2) by (auto simp: event_ok_def)
  have "newly_accepted ops tx ev = []" using Tx_grant by (simp add: newly_accepted_def)
  then show ?thesis using t(1,2) fifo_step.serve [of "delivered rx" "pending tx" k] by (auto simp: t(3,4))
next
  case (Clock t)
  then have "newly_accepted ops tx ev = []" by (simp add: newly_accepted_def)
  then show ?thesis using clock [OF assms(1), of t] Clock fifo_step.accept [of "delivered rx" "pending tx" "[]"] by auto
qed

text \<open>The link refines the queue.\<close>

lemma run_refines:
  assumes "linked tx rx" and "\<And>ev. ev \<in> set evs \<Longrightarrow> event_ok ev"
  shows "\<exists>tx' rx' acc. link_run ops (tx, rx) evs = Some ((tx', rx'), acc) \<and> linked tx' rx' \<and>
    fifo_run (delivered rx, pending tx) acc (delivered rx', pending tx')"
  using assms
proof (induction evs arbitrary: tx rx)
  case Nil
  then show ?case by (auto intro: fifo_run.stop)
next
  case (Cons ev evs)
  obtain tx1 rx1 where s: "link_step ops (tx, rx) ev = Some (tx1, rx1)" "linked tx1 rx1"
    "fifo_step (delivered rx, pending tx) (newly_accepted ops tx ev) (delivered rx1, pending tx1)"
    using step_safe [OF Cons.prems(1), of ev] Cons.prems(2) by auto
  obtain tx' rx' acc where r: "link_run ops (tx1, rx1) evs = Some ((tx', rx'), acc)" "linked tx' rx'"
    "fifo_run (delivered rx1, pending tx1) acc (delivered rx', pending tx')"
    using Cons.IH [OF s(2)] Cons.prems(2) by auto
  show ?case using s(1) r(1,2) fifo_run.step [OF s(3) r(3)] by auto
qed

text \<open>Nothing accepted is lost, duplicated or reordered.\<close>

lemma run_safe:
  assumes "linked tx rx" and "\<And>ev. ev \<in> set evs \<Longrightarrow> event_ok ev"
  shows "\<exists>tx' rx' acc. link_run ops (tx, rx) evs = Some ((tx', rx'), acc) \<and> linked tx' rx' \<and>
    delivered rx' @ pending tx' = delivered rx @ pending tx @ acc"
  using run_refines [OF assms(1), of evs] assms(2) by (fastforce dest: fifo_run_order)

text \<open>Enough useful grants deliver everything.\<close>

lemma run_drain:
  assumes "linked tx rx" and "\<And>b. b \<in> set bs \<Longrightarrow> grant_ok (length b) \<and> grant_useful (length b)"
    and "backlog tx \<le> length bs"
  shows "\<exists>tx' rx'. link_run ops (tx, rx) (map Tx_grant bs) = Some ((tx', rx'), []) \<and>
    pending tx' = [] \<and> delivered rx' = delivered rx @ pending tx"
  using assms
proof (induction bs arbitrary: tx rx)
  case Nil
  then show ?case using no_backlog by auto
next
  case (Cons b bs)
  obtain tx1 rx1 where g: "link_step ops (tx, rx) (Tx_grant b) = Some (tx1, rx1)" "linked tx1 rx1"
    "delivered rx1 @ pending tx1 = delivered rx @ pending tx"
    "pending tx \<noteq> [] \<longrightarrow> backlog tx1 < backlog tx" "backlog tx1 \<le> backlog tx"
    using grant [OF Cons.prems(1), of b] Cons.prems(2) [of b] by (metis append.assoc append_take_drop_id list.set_intros(1))
  have "backlog tx1 \<le> length bs"
    using g(4,5) Cons.prems(3) no_backlog [OF Cons.prems(1)] by (cases "pending tx = []") auto
  then obtain t r where "link_run ops (tx1, rx1) (map Tx_grant bs) = Some ((t, r), [])" "pending t = []"
    "delivered r = delivered rx1 @ pending tx1" using Cons.IH [OF g(2)] Cons.prems(2) by auto
  then show ?case using g(1,3) by (auto simp: newly_accepted_def)
qed

end

end
