(* ===== verification/Rlc_Tm.thy ===== *)
theory Rlc_Tm
  imports Rlc_Um Rlc_Link
begin

text \<open>
  The transparent mode RLC entity (\<^verbatim>\<open>nr_rlc_entity_tm.c\<close>): data units pass without header or
  segmentation. As for the other entities, calls of \<^verbatim>\<open>deliver_sdu\<close> are recorded in the field
  \<open>tm_delivered\<close>, and the result \<open>None\<close> is \<^verbatim>\<open>exit(1)\<close>.
\<close>

record nr_rlc_entity_tm =
  tm_stats :: nr_rlc_statistics
  tm_bstatus :: int
  tm_delivered :: "u8 list list"
  tm_t_current :: u64
  tm_t_log_buffer_full :: u64
  tm_sdu_rejected :: int
  tm_tx_list :: "nr_rlc_sdu_segment list"
  tm_tx_size :: int
  tm_tx_maxsize :: int

definition new_nr_rlc_entity_tm :: "int \<Rightarrow> nr_rlc_entity_tm" where
  "new_nr_rlc_entity_tm tx_maxsize =
     \<lparr>tm_stats = zero_stats, tm_bstatus = 0, tm_delivered = [], tm_t_current = 0, tm_t_log_buffer_full = 0,
      tm_sdu_rejected = 0, tm_tx_list = [], tm_tx_size = 0, tm_tx_maxsize = tx_maxsize\<rparr>"

definition nr_rlc_entity_tm_recv_pdu :: "nr_rlc_entity_tm \<Rightarrow> u8 list \<Rightarrow> nr_rlc_entity_tm" where
  "nr_rlc_entity_tm_recv_pdu e buffer =
     (let size = int (length buffer);
          e = e\<lparr>tm_stats := (tm_stats e)\<lparr>rxpdu_pkts := rxpdu_pkts (tm_stats e) + 1,
                                         rxpdu_bytes := rxpdu_bytes (tm_stats e) + word_of_int size\<rparr>\<rparr>;
          e = e\<lparr>tm_delivered := tm_delivered e @ [buffer]\<rparr>
      in e\<lparr>tm_stats := (tm_stats e)\<lparr>txsdu_pkts := txsdu_pkts (tm_stats e) + 1,
                                     txsdu_bytes := txsdu_bytes (tm_stats e) + word_of_int size\<rparr>\<rparr>)"

definition nr_rlc_entity_tm_generate_pdu :: "nr_rlc_entity_tm \<Rightarrow> u8 list \<Rightarrow> nr_rlc_entity_tm \<times> u8 list" where
  "nr_rlc_entity_tm_generate_pdu e buffer =
     (case tm_tx_list e of
        [] \<Rightarrow> (e, [])
      | sdu # rest \<Rightarrow>
          (let size = int (length buffer)
           in if seg_size sdu > size then (e, [])
              else (e\<lparr>tm_tx_list := rest, tm_tx_size := tm_tx_size e - seg_size sdu,
                      tm_stats := (tm_stats e)\<lparr>txpdu_pkts := txpdu_pkts (tm_stats e) + 1,
                                               txpdu_bytes := txpdu_bytes (tm_stats e) + word_of_int size\<rparr>,
                      tm_bstatus := tm_bstatus e - seg_size sdu\<rparr>,
                    take (nat (seg_size sdu)) (sdu_data sdu))))"

definition nr_rlc_entity_tm_buffer_status :: "nr_rlc_entity_tm \<Rightarrow> int \<times> int \<times> int" where
  "nr_rlc_entity_tm_buffer_status e = (0, tm_bstatus e, 0)"

definition nr_rlc_entity_tm_recv_sdu :: "nr_rlc_entity_tm \<Rightarrow> u8 list \<Rightarrow> int \<Rightarrow> nr_rlc_entity_tm option" where
  "nr_rlc_entity_tm_recv_sdu e buffer sdu_id =
     (let size = int (length buffer);
          e = e\<lparr>tm_stats := (tm_stats e)\<lparr>rxsdu_pkts := rxsdu_pkts (tm_stats e) + 1,
                                         rxsdu_bytes := rxsdu_bytes (tm_stats e) + word_of_int size\<rparr>\<rparr>
      in if size > NR_SDU_MAX then None
         else let e = (if tm_sdu_rejected e \<noteq> 0 \<and> tm_t_current e > tm_t_log_buffer_full e + 1000
                       then e\<lparr>tm_sdu_rejected := 0, tm_t_log_buffer_full := tm_t_current e\<rparr> else e)
              in if tm_tx_size e + size > tm_tx_maxsize e
                 then Some (e\<lparr>tm_sdu_rejected := tm_sdu_rejected e + 1,
                              tm_stats := (tm_stats e)\<lparr>rxsdu_dd_pkts := rxsdu_dd_pkts (tm_stats e) + 1,
                                                       rxsdu_dd_bytes := rxsdu_dd_bytes (tm_stats e) + word_of_int size\<rparr>\<rparr>)
                 else let sdu = nr_rlc_new_sdu buffer sdu_id
                      in Some (e\<lparr>tm_tx_size := tm_tx_size e + size,
                                 tm_tx_list := nr_rlc_sdu_segment_list_append (tm_tx_list e) sdu,
                                 tm_bstatus := tm_bstatus e + seg_size sdu\<rparr>))"

definition nr_rlc_entity_tm_set_time :: "nr_rlc_entity_tm \<Rightarrow> u64 \<Rightarrow> nr_rlc_entity_tm" where
  "nr_rlc_entity_tm_set_time e now = e\<lparr>tm_t_current := now\<rparr>"

definition nr_rlc_entity_tm_discard_sdu :: "nr_rlc_entity_tm \<Rightarrow> int \<Rightarrow> nr_rlc_entity_tm" where
  "nr_rlc_entity_tm_discard_sdu e sdu_id = e"

definition tm_clear_entity :: "nr_rlc_entity_tm \<Rightarrow> nr_rlc_entity_tm" where
  "tm_clear_entity e =
     e\<lparr>tm_t_current := 0, tm_t_log_buffer_full := 0, tm_sdu_rejected := 0, tm_tx_list := [], tm_tx_size := 0,
       tm_bstatus := 0\<rparr>"

definition nr_rlc_entity_tm_reestablishment :: "nr_rlc_entity_tm \<Rightarrow> nr_rlc_entity_tm" where
  "nr_rlc_entity_tm_reestablishment e = tm_clear_entity e"

definition nr_rlc_entity_tm_available_tx_space :: "nr_rlc_entity_tm \<Rightarrow> int" where
  "nr_rlc_entity_tm_available_tx_space e = tm_tx_maxsize e - tm_tx_size e"

definition nr_rlc_entity_tm_tx_list_occupancy :: "nr_rlc_entity_tm \<Rightarrow> int" where
  "nr_rlc_entity_tm_tx_list_occupancy e = tm_tx_size e"

definition tm_ops :: "nr_rlc_entity_tm rlc_ops" where
  "tm_ops = \<lparr>op_recv_pdu = (\<lambda>e b. Some (nr_rlc_entity_tm_recv_pdu e b)),
     op_generate_pdu = (\<lambda>e b. Some (nr_rlc_entity_tm_generate_pdu e b)), op_recv_sdu = nr_rlc_entity_tm_recv_sdu,
     op_set_time = (\<lambda>e t. Some (nr_rlc_entity_tm_set_time e t)),
     op_available_tx_space = nr_rlc_entity_tm_available_tx_space\<rparr>"

section \<open>The transparent mode link\<close>

definition sdu_size_ok :: "u8 list \<Rightarrow> bool" where
  "sdu_size_ok d \<longleftrightarrow> d \<noteq> [] \<and> int (length d) \<le> NR_SDU_MAX"

text \<open>Whole data units, and the two byte counts of the transmission queue.\<close>

definition tm_linked :: "nr_rlc_entity_tm \<Rightarrow> nr_rlc_entity_tm \<Rightarrow> bool" where
  "tm_linked tx rx \<longleftrightarrow>
     (\<forall>s \<in> set (tm_tx_list tx). seg_size s = int (length (sdu_data s)) \<and> sdu_size_ok (sdu_data s)) \<and>
     tm_tx_size tx = sum_list (map seg_size (tm_tx_list tx)) \<and> tm_bstatus tx = tm_tx_size tx"

lemma tm_linked_arrival:
  assumes "tm_linked tx rx" and "sdu_size_ok d"
  shows "\<exists>tx'. nr_rlc_entity_tm_recv_sdu tx d i = Some tx' \<and> tm_linked tx' rx \<and>
    map sdu_data (tm_tx_list tx') = map sdu_data (tm_tx_list tx) @ newly_accepted tm_ops tx (Sdu_arrival i d)"
  using assms by (auto simp: nr_rlc_entity_tm_recv_sdu_def Let_def tm_linked_def sdu_size_ok_def newly_accepted_def
      tm_ops_def nr_rlc_entity_tm_available_tx_space_def nr_rlc_new_sdu_def nr_rlc_sdu_segment_list_append_def)

lemma tm_linked_grant:
  assumes "tm_linked tx rx"
  shows "\<exists>tx' rx'. link_step tm_ops (tx, rx) (Tx_grant b) = Some (tx', rx') \<and> tm_linked tx' rx' \<and>
    (\<exists>k. tm_delivered rx' = tm_delivered rx @ take k (map sdu_data (tm_tx_list tx)) \<and>
         map sdu_data (tm_tx_list tx') = drop k (map sdu_data (tm_tx_list tx))) \<and>
    (NR_SDU_MAX \<le> int (length b) \<and> map sdu_data (tm_tx_list tx) \<noteq> [] \<longrightarrow> length (tm_tx_list tx') < length (tm_tx_list tx)) \<and>
    length (tm_tx_list tx') \<le> length (tm_tx_list tx)"
proof (cases "tm_tx_list tx")
  case Nil
  then show ?thesis using assms by (simp add: link_step_def tm_ops_def nr_rlc_entity_tm_generate_pdu_def)
next
  case (Cons s rest)
  then have s: "seg_size s = int (length (sdu_data s))" "sdu_data s \<noteq> []" "int (length (sdu_data s)) \<le> NR_SDU_MAX"
    using assms by (auto simp: tm_linked_def sdu_size_ok_def)
  show ?thesis
  proof (cases "seg_size s > int (length b)")
    case True
    then show ?thesis using Cons s assms
      by (auto simp: link_step_def tm_ops_def nr_rlc_entity_tm_generate_pdu_def Let_def intro!: exI [of _ "0 :: nat"])
  next
    case False
    then show ?thesis using Cons s assms
      by (auto simp: link_step_def tm_ops_def nr_rlc_entity_tm_generate_pdu_def Let_def nr_rlc_entity_tm_recv_pdu_def
          tm_linked_def intro!: exI [of _ "1 :: nat"])
  qed
qed

interpretation tm_link: rlc_link tm_ops "\<lambda>e. map sdu_data (tm_tx_list e)" tm_delivered tm_linked sdu_size_ok
  "\<lambda>_. True" "\<lambda>n. NR_SDU_MAX \<le> int n" "\<lambda>e. length (tm_tx_list e)"
proof
  fix tx rx d i assume "tm_linked tx rx" "sdu_size_ok d"
  then show "\<exists>tx'. op_recv_sdu tm_ops tx d i = Some tx' \<and> tm_linked tx' rx \<and>
      map sdu_data (tm_tx_list tx') = map sdu_data (tm_tx_list tx) @ newly_accepted tm_ops tx (Sdu_arrival i d)"
    using tm_linked_arrival by (simp add: tm_ops_def)
next
  fix tx rx t assume "tm_linked tx rx"
  then show "\<exists>tx' rx'. link_step tm_ops (tx, rx) (Clock t) = Some (tx', rx') \<and> tm_linked tx' rx' \<and>
      tm_delivered rx' = tm_delivered rx \<and> map sdu_data (tm_tx_list tx') = map sdu_data (tm_tx_list tx)"
    by (simp add: link_step_def tm_ops_def nr_rlc_entity_tm_set_time_def tm_linked_def)
qed (use tm_linked_grant in auto)

end
