(* ===== verification/Rlc_Um_Transfer.thy ===== *)
theory Rlc_Um_Transfer
  imports Rlc_Um_Reception Rlc_Tm
begin

text \<open>
  The unacknowledged mode link: the invariant of a transmitting and a receiving entity between two
  PDUs, and the interpretation of the link contract.
\<close>

definition um_ops :: "nr_rlc_entity_um rlc_ops" where
  "um_ops = \<lparr>op_recv_pdu = nr_rlc_entity_um_recv_pdu, op_generate_pdu = nr_rlc_entity_um_generate_pdu,
     op_recv_sdu = nr_rlc_entity_um_recv_sdu, op_set_time = nr_rlc_entity_um_set_time,
     op_available_tx_space = nr_rlc_entity_um_available_tx_space\<rparr>"

section \<open>The transmission queue\<close>

text \<open>The unsent rest of a data unit; only the first one of the queue may be partly sent.\<close>

definition rest_ok :: "nr_rlc_sdu_segment \<Rightarrow> bool" where
  "rest_ok s \<longleftrightarrow> seg_is_last s \<and> (seg_is_first s \<longleftrightarrow> seg_so s = 0) \<and> 0 \<le> seg_so s \<and> 1 \<le> seg_size s \<and>
     seg_so s + seg_size s = int (length (sdu_data s)) \<and> sdu_size_ok (sdu_data s)"

definition queue_ok :: "nr_rlc_sdu_segment list \<Rightarrow> bool" where
  "queue_ok l \<longleftrightarrow> (\<forall>s \<in> set l. rest_ok s) \<and> (\<forall>s \<in> set (tl l). seg_so s = 0)"

definition tx_state :: "nr_rlc_entity_um \<Rightarrow> bool" where
  "tx_state e \<longleftrightarrow> um_cfg e \<and> um_t_reassembly_start e = 0 \<and> 0 \<le> um_tx_next e \<and> um_tx_next e < um_sn_modulus e \<and>
     queue_ok (um_tx_list e) \<and> um_tx_size e = sum_list (map seg_size (um_tx_list e)) \<and>
     um_bstatus e = sum_list (map (\<lambda>s. compute_pdu_header_size e s + seg_size s) (um_tx_list e))"

text \<open>The bytes of the first data unit of the queue that were already sent.\<close>

definition sent_part :: "nr_rlc_sdu_segment list \<Rightarrow> u8 list" where
  "sent_part l = (case l of [] \<Rightarrow> [] | s # _ \<Rightarrow> take (nat (seg_so s)) (sdu_data s))"

definition um_linked :: "nat \<Rightarrow> nr_rlc_entity_um \<Rightarrow> nr_rlc_entity_um \<Rightarrow> bool" where
  "um_linked sn_len tx rx \<longleftrightarrow> tx_state tx \<and> um_sn_field_length tx = sn_len \<and> um_sn_field_length rx = sn_len \<and>
     NR_SDU_MAX \<le> um_rx_maxsize rx \<and>
     (\<exists>cs. rx_state rx (um_tx_next tx) cs \<and> concat cs = sent_part (um_tx_list tx))"

lemma queue_ok_tl: "queue_ok (s # l) \<Longrightarrow> queue_ok l"
  by (cases l) (auto simp: queue_ok_def)

lemma queue_ok_snoc: "queue_ok l \<Longrightarrow> rest_ok s \<Longrightarrow> seg_so s = 0 \<Longrightarrow> queue_ok (l @ [s])"
  by (cases l) (auto simp: queue_ok_def)

lemma sent_part_tl: "queue_ok (s # l) \<Longrightarrow> sent_part l = []"
  by (cases l) (auto simp: queue_ok_def sent_part_def)

lemma um_recv_sdu_result:
  assumes "int (length d) \<le> NR_SDU_MAX"
  shows "\<exists>st rej log. nr_rlc_entity_um_recv_sdu e d i = Some
    (let e' = e\<lparr>um_stats := st, um_sdu_rejected := rej, um_t_log_buffer_full := log\<rparr>
     in if int (length d) \<le> nr_rlc_entity_um_available_tx_space e
        then e'\<lparr>um_tx_size := um_tx_size e + int (length d), um_tx_list := um_tx_list e @ [nr_rlc_new_sdu d i],
                um_bstatus := um_bstatus e + compute_pdu_header_size e (nr_rlc_new_sdu d i) + int (length d)\<rparr>
        else e')"
proof -
  let ?st = "(um_stats e)\<lparr>rxsdu_pkts := rxsdu_pkts (um_stats e) + 1, rxsdu_bytes := rxsdu_bytes (um_stats e) + word_of_int (int (length d))\<rparr>"
  define log where "log \<longleftrightarrow> um_sdu_rejected e \<noteq> 0 \<and> um_t_current e > um_t_log_buffer_full e + 1000"
  define rej where "rej = (if log then 0 else um_sdu_rejected e)"
  define t where "t = (if log then um_t_current e else um_t_log_buffer_full e)"
  let ?e = "e\<lparr>um_stats := ?st, um_sdu_rejected := rej, um_t_log_buffer_full := t\<rparr>"
  have r: "nr_rlc_entity_um_recv_sdu e d i =
    (if um_tx_size e + int (length d) > um_tx_maxsize e
     then Some (?e\<lparr>um_sdu_rejected := rej + 1, um_stats := ?st\<lparr>rxsdu_dd_pkts := rxsdu_dd_pkts (um_stats e) + 1,
                 rxsdu_dd_bytes := rxsdu_dd_bytes (um_stats e) + word_of_int (int (length d))\<rparr>\<rparr>)
     else Some (?e\<lparr>um_tx_size := um_tx_size e + int (length d), um_tx_list := um_tx_list e @ [nr_rlc_new_sdu d i],
                um_bstatus := um_bstatus e + compute_pdu_header_size e (nr_rlc_new_sdu d i) + int (length d)\<rparr>))"
    using assms unfolding nr_rlc_entity_um_recv_sdu_def Let_def
    by (cases log) (simp_all add: log_def [symmetric] rej_def t_def compute_pdu_header_size_def nr_rlc_new_sdu_def
        nr_rlc_sdu_segment_list_append_def)
  show ?thesis
  proof (cases "um_tx_size e + int (length d) > um_tx_maxsize e")
    case True
    let ?dd = "?st\<lparr>rxsdu_dd_pkts := rxsdu_dd_pkts (um_stats e) + 1,
        rxsdu_dd_bytes := rxsdu_dd_bytes (um_stats e) + word_of_int (int (length d))\<rparr>"
    show ?thesis using r True
      by (intro exI [of _ ?dd] exI [of _ "rej + 1"] exI [of _ t]) (simp add: Let_def nr_rlc_entity_um_available_tx_space_def)
  next
    case False
    show ?thesis using r False
      by (intro exI [of _ ?st] exI [of _ rej] exI [of _ t]) (simp add: Let_def nr_rlc_entity_um_available_tx_space_def)
  qed
qed

lemma tx_state_update [rlc_simps]:
  "tx_state (e\<lparr>um_stats := s\<rparr>) = tx_state e"
  "tx_state (e\<lparr>um_sdu_rejected := r\<rparr>) = tx_state e"
  "tx_state (e\<lparr>um_t_log_buffer_full := t\<rparr>) = tx_state e"
  "tx_state (e\<lparr>um_t_current := t\<rparr>) = tx_state e"
  by (simp_all add: tx_state_def um_cfg_def compute_pdu_header_size_def)

lemma rx_state_update [rlc_simps]:
  "rx_state (e\<lparr>um_stats := s\<rparr>) n cs = rx_state e n cs"
  "rx_state (e\<lparr>um_delivered := d\<rparr>) n cs = rx_state e n cs"
  "rx_state (e\<lparr>um_t_current := t\<rparr>) n cs = rx_state e n cs"
  by (simp_all add: rx_state_def um_cfg_def)

lemma um_linked_arrival:
  assumes "um_linked n tx rx" and "sdu_size_ok d"
  shows "\<exists>tx'. nr_rlc_entity_um_recv_sdu tx d i = Some tx' \<and> um_linked n tx' rx \<and>
    map sdu_data (um_tx_list tx') = map sdu_data (um_tx_list tx) @ newly_accepted um_ops tx (Sdu_arrival i d)"
proof -
  let ?s = "nr_rlc_new_sdu d i"
  have s: "rest_ok ?s" "seg_so ?s = 0" "seg_size ?s = int (length d)" "sdu_data ?s = d"
    using assms(2) by (cases d; simp add: rest_ok_def nr_rlc_new_sdu_def sdu_size_ok_def)+
  have q: "queue_ok (um_tx_list tx @ [?s])"
    using assms(1) queue_ok_snoc s(1,2) by (simp add: um_linked_def tx_state_def)
  have sp: "sent_part (um_tx_list tx @ [?s]) = sent_part (um_tx_list tx)"
    using s(2) by (cases "um_tx_list tx") (simp_all add: sent_part_def)
  obtain st rej log where r: "nr_rlc_entity_um_recv_sdu tx d i = Some
    (let e' = tx\<lparr>um_stats := st, um_sdu_rejected := rej, um_t_log_buffer_full := log\<rparr>
     in if int (length d) \<le> nr_rlc_entity_um_available_tx_space tx
        then e'\<lparr>um_tx_size := um_tx_size tx + int (length d), um_tx_list := um_tx_list tx @ [?s],
                um_bstatus := um_bstatus tx + compute_pdu_header_size tx ?s + int (length d)\<rparr>
        else e')"
    using um_recv_sdu_result [of d tx i] assms(2) by (auto simp: sdu_size_ok_def)
  show ?thesis
  proof (cases "int (length d) \<le> nr_rlc_entity_um_available_tx_space tx")
    case False
    then show ?thesis using r assms(1) by (simp add: Let_def um_linked_def rlc_simps newly_accepted_def um_ops_def)
  next
    case True
    let ?tx = "tx\<lparr>um_stats := st, um_sdu_rejected := rej, um_t_log_buffer_full := log, um_tx_size := um_tx_size tx + int (length d),
      um_tx_list := um_tx_list tx @ [?s], um_bstatus := um_bstatus tx + compute_pdu_header_size tx ?s + int (length d)\<rparr>"
    have "tx_state tx" using assms(1) by (simp add: um_linked_def)
    then have "tx_state ?tx" using q s(3) by (auto simp: tx_state_def um_cfg_def compute_pdu_header_size_def)
    then have "um_linked n ?tx rx" using assms(1) by (simp add: um_linked_def sp)
    then show ?thesis using r True s(4) by (simp add: newly_accepted_def um_ops_def)
  qed
qed

section \<open>Sending and receiving one segment\<close>

lemma send_segment:
  assumes "seg_ok sn_len s" and "um_sn_field_length e = sn_len" and "compute_pdu_header_size e s \<le> int (length buffer)"
  obtains pdu st where "um_send_segment e s buffer = Some
      (e\<lparr>um_tx_next := (if \<not> seg_is_first s \<and> seg_is_last s then c_mod (um_tx_next e + 1) (um_sn_modulus e) else um_tx_next e),
         um_tx_size := um_tx_size e - seg_size s, um_stats := st\<rparr>, pdu)"
    and "int (length pdu) = compute_pdu_header_size e s + seg_size s"
    and "um_decode_header sn_len pdu =
      Some (if seg_is_first s \<and> seg_is_last s then Um_complete
            else Um_segment (seg_is_first s) (seg_is_last s) (sdu_sn s) (seg_so s) (nat (compute_pdu_header_size e s)))"
    and "drop (nat (compute_pdu_header_size e s)) pdu = seg_bytes s"
proof -
  let ?e = "if \<not> seg_is_first s \<and> seg_is_last s then e\<lparr>um_tx_next := c_mod (um_tx_next e + 1) (um_sn_modulus e)\<rparr> else e"
  have h: "compute_pdu_header_size ?e s = compute_pdu_header_size e s" by (simp add: compute_pdu_header_size_def)
  have fl: "um_sn_field_length ?e = sn_len" using assms(2) by simp
  obtain pdu where p: "serialize_sdu ?e s buffer = Some pdu"
    "int (length pdu) = compute_pdu_header_size e s + seg_size s"
    "um_decode_header sn_len pdu =
      Some (if seg_is_first s \<and> seg_is_last s then Um_complete
            else Um_segment (seg_is_first s) (seg_is_last s) (sdu_sn s) (seg_so s) (nat (compute_pdu_header_size e s)))"
    "drop (nat (compute_pdu_header_size e s)) pdu = seg_bytes s"
    using serialize_decode [OF assms(1), of ?e buffer, unfolded h, OF fl assms(3)] by blast
  have "um_send_segment e s buffer = Some
      (?e\<lparr>um_tx_size := um_tx_size e - seg_size s,
          um_stats := (um_stats e)\<lparr>txpdu_pkts := txpdu_pkts (um_stats e) + 1,
                                   txpdu_bytes := txpdu_bytes (um_stats e) + word_of_int (int (length buffer))\<rparr>\<rparr>, pdu)"
    using p(1) unfolding um_send_segment_def Let_def by (cases "\<not> seg_is_first s \<and> seg_is_last s") auto
  then show thesis using that [OF _ p(2-4)] by (cases "\<not> seg_is_first s \<and> seg_is_last s") auto
qed

text \<open>The first segment that is the whole data unit is delivered at once.\<close>

lemma recv_complete:
  assumes "um_decode_header (um_sn_field_length e) pdu = Some Um_complete" and "2 \<le> length pdu"
  shows "\<exists>st. nr_rlc_entity_um_recv_pdu e pdu = Some (e\<lparr>um_delivered := um_delivered e @ [drop 1 pdu], um_stats := st\<rparr>)"
  using assms by (intro exI) (simp add: nr_rlc_entity_um_recv_pdu_def Let_def)

lemma recv_segment:
  assumes "um_decode_header (um_sn_field_length e) pdu = Some (Um_segment f l sn so off)"
  shows "\<exists>st. nr_rlc_entity_um_recv_pdu e pdu = um_recv_segment (e\<lparr>um_stats := st\<rparr>) pdu f l sn so off"
  using assms by (intro exI) (simp add: nr_rlc_entity_um_recv_pdu_def Let_def)

text \<open>
  A segment \<open>s\<close> of the data unit at the head of the queue, received in the state that its
  predecessors left.
\<close>

lemma receive_segment:
  assumes "seg_ok sn_len s" and "um_sn_field_length rx = sn_len" and "NR_SDU_MAX \<le> um_rx_maxsize rx"
    and "int (length (sdu_data s)) \<le> NR_SDU_MAX" and "rx_state rx (sdu_sn s) cs" and "concat cs = take (nat (seg_so s)) (sdu_data s)"
    and "int (length pdu) = compute_pdu_header_size e s + seg_size s"
    and "um_decode_header sn_len pdu =
      Some (if seg_is_first s \<and> seg_is_last s then Um_complete
            else Um_segment (seg_is_first s) (seg_is_last s) (sdu_sn s) (seg_so s) (nat (compute_pdu_header_size e s)))"
    and "drop (nat (compute_pdu_header_size e s)) pdu = seg_bytes s"
  obtains rx' cs' where "nr_rlc_entity_um_recv_pdu rx pdu = Some rx'" and "rx_frame rx rx'"
    and "rx_state rx' (if seg_is_last s \<and> \<not> seg_is_first s then (sdu_sn s + 1) mod um_sn_modulus rx else sdu_sn s) cs'"
    and "concat cs' = (if seg_is_last s then [] else take (nat (seg_so s + seg_size s)) (sdu_data s))"
    and "um_delivered rx' = um_delivered rx @ (if seg_is_last s then [sdu_data s] else [])"
proof -
  let ?h = "nat (compute_pdu_header_size e s)" and ?c = "seg_bytes s"
  have ok: "0 \<le> seg_so s" "1 \<le> seg_size s" "seg_so s + seg_size s \<le> int (length (sdu_data s))"
    "seg_is_first s \<longleftrightarrow> seg_so s = 0" "seg_is_last s \<longleftrightarrow> seg_so s + seg_size s = int (length (sdu_data s))"
    using assms(1) by (auto simp: seg_ok_def)
  have lc: "int (length ?c) = seg_size s" by (rule length_seg_bytes [OF assms(1)])
  then have c: "?c \<noteq> []" using ok(2) by auto
  have so: "int (length (concat cs)) = seg_so s" using ok(1-3) by (simp add: assms(6))
  have ne: "[] \<notin> set cs" using assms(5) by (simp add: rx_state_def)
  have cs: "cs = [] \<longleftrightarrow> seg_is_first s" using so ne ok(4) by (cases cs; cases "hd cs") auto
  have cat: "concat cs @ ?c = take (nat (seg_so s + seg_size s)) (sdu_data s)"
    using ok(1,2) by (simp add: assms(6) seg_bytes_def take_add [symmetric] nat_add_distrib)
  have all: "seg_is_last s \<Longrightarrow> concat cs @ ?c = sdu_data s" unfolding cat using ok(5) by simp
  have fit: "int (length (concat cs)) + int (length ?c) \<le> um_rx_maxsize rx" "int (length (concat cs)) + int (length ?c) \<le> NR_SDU_MAX"
    using so lc ok(3) assms(3,4) by auto
  show thesis
  proof (cases "seg_is_first s \<and> seg_is_last s")
    case True
    then have h: "compute_pdu_header_size e s = 1" by (simp add: compute_pdu_header_size_def)
    then obtain st where "nr_rlc_entity_um_recv_pdu rx pdu = Some (rx\<lparr>um_delivered := um_delivered rx @ [drop 1 pdu], um_stats := st\<rparr>)"
      using recv_complete [of rx pdu] assms(2,7,8) True ok(2) by auto
    moreover have "drop 1 pdu = sdu_data s" using assms(9) h all True cs by simp
    ultimately show thesis using that [of _ cs] True assms(5) cs by (simp add: rx_frame_def rlc_simps)
  next
    case False
    then have "um_decode_header (um_sn_field_length rx) pdu = Some (Um_segment (seg_is_first s) (seg_is_last s) (sdu_sn s) (seg_so s) ?h)"
      unfolding assms(2,8) by (simp only: if_False)
    from recv_segment [OF this] obtain st where r: "nr_rlc_entity_um_recv_pdu rx pdu =
        um_recv_segment (rx\<lparr>um_stats := st\<rparr>) pdu (seg_is_first s) (seg_is_last s) (sdu_sn s) (seg_so s) ?h" by blast
    have rx: "rx_state (rx\<lparr>um_stats := st\<rparr>) (sdu_sn s) cs" using assms(5) by (simp add: rlc_simps)
    show thesis
    proof (cases "seg_is_last s")
      case True
      then have f: "\<not> seg_is_first s" "cs \<noteq> []" using False cs by auto
      obtain rx' where "um_recv_segment (rx\<lparr>um_stats := st\<rparr>) pdu False True (sdu_sn s) (seg_so s) ?h = Some rx'"
        "rx_state rx' ((sdu_sn s + 1) mod um_sn_modulus rx) []" "um_delivered rx' = um_delivered rx @ [concat cs @ ?c]" "rx_frame rx rx'"
        using recv_segment_last [OF rx f(2) assms(9) c] fit so by (auto simp: rx_frame_def)
      then show thesis using that [of rx' "[]"] True f r all by simp
    next
      case F: False
      obtain rx' where "um_recv_segment (rx\<lparr>um_stats := st\<rparr>) pdu (cs = []) False (sdu_sn s) (seg_so s) ?h = Some rx'"
        "rx_state rx' (sdu_sn s) (cs @ [?c])" "um_delivered rx' = um_delivered rx" "rx_frame rx rx'"
        using recv_segment_not_last [OF rx assms(9) c] fit so by (auto simp: rx_frame_def)
      then show thesis using that [of rx' "cs @ [?c]"] F r cs cat by simp
    qed
  qed
qed

section \<open>A grant\<close>

lemma tx_state_sent:
  assumes "tx_state e" and "queue_ok L" and "B = sum_list (map (\<lambda>s. compute_pdu_header_size e s + seg_size s) L)"
    and "T = sum_list (map seg_size L)" and "0 \<le> nx" and "nx < um_sn_modulus e"
  shows "tx_state (e\<lparr>um_tx_list := L, um_bstatus := B, um_stats := S, um_tx_next := nx, um_tx_size := T, um_stats := S'\<rparr>)"
  using assms by (simp add: tx_state_def um_cfg_def compute_pdu_header_size_def)

text \<open>The effect of a grant that sends the segment \<open>sg\<close> and leaves the queue \<open>L\<close>.\<close>

lemma transmit:
  assumes lk: "um_linked n tx rx" and s: "um_tx_list tx = s # rest" and sg: "seg_ok n sg"
    "sdu_data sg = sdu_data s" "seg_so sg = seg_so s" "sdu_sn sg = um_tx_next tx" "compute_pdu_header_size tx sg \<le> int (length b)"
    and gen: "nr_rlc_entity_um_generate_pdu tx b = um_send_segment (tx\<lparr>um_tx_list := L, um_bstatus := B, um_stats := S\<rparr>) sg b"
    and L: "queue_ok L" "sent_part L = (if seg_is_last sg then [] else take (nat (seg_so sg + seg_size sg)) (sdu_data s))"
    "map sdu_data L = (if seg_is_last sg then [] else [sdu_data s]) @ map sdu_data rest"
    and B: "B = sum_list (map (\<lambda>s. compute_pdu_header_size tx s + seg_size s) L)"
    and sz: "um_tx_size tx = seg_size sg + sum_list (map seg_size L)"
  shows "\<exists>tx' rx'. link_step um_ops (tx, rx) (Tx_grant b) = Some (tx', rx') \<and> um_linked n tx' rx' \<and>
    (\<exists>k. um_delivered rx' = um_delivered rx @ take k (map sdu_data (um_tx_list tx)) \<and>
         map sdu_data (um_tx_list tx') = drop k (map sdu_data (um_tx_list tx))) \<and>
    um_tx_size tx' < um_tx_size tx"
proof -
  let ?e = "tx\<lparr>um_tx_list := L, um_bstatus := B, um_stats := S\<rparr>"
  let ?nx = "if \<not> seg_is_first sg \<and> seg_is_last sg then c_mod (um_tx_next tx + 1) (um_sn_modulus tx) else um_tx_next tx"
  have t: "tx_state tx" "um_sn_field_length tx = n" "um_sn_field_length rx = n" "NR_SDU_MAX \<le> um_rx_maxsize rx"
    using lk by (simp_all add: um_linked_def)
  obtain cs where cs: "rx_state rx (sdu_sn sg) cs" "concat cs = take (nat (seg_so sg)) (sdu_data sg)"
    using lk s sg(2-4) by (auto simp: um_linked_def sent_part_def)
  have len: "int (length (sdu_data sg)) \<le> NR_SDU_MAX"
    using t(1) s sg(2) by (auto simp: tx_state_def queue_ok_def rest_ok_def sdu_size_ok_def)
  have h: "compute_pdu_header_size ?e x = compute_pdu_header_size tx x" for x by (simp add: compute_pdu_header_size_def)
  have fe: "um_sn_field_length ?e = n" and sel: "um_tx_next ?e = um_tx_next tx" "um_sn_modulus ?e = um_sn_modulus tx" "um_tx_size ?e = um_tx_size tx"
    using t(2) by simp_all
  have m: "um_sn_modulus rx = um_sn_modulus tx" "0 < um_sn_modulus tx" "0 \<le> um_tx_next tx"
    using t rx_state_cfg [OF cs(1)] by (auto simp: tx_state_def um_cfg_def)
  have cm: "c_mod (um_tx_next tx + 1) (um_sn_modulus tx) = (um_tx_next tx + 1) mod um_sn_modulus tx"
    using m by (intro c_mod_nonneg) auto
  have nx: "0 \<le> ?nx" "?nx < um_sn_modulus tx" using m t(1) by (auto simp: cm tx_state_def)
  obtain pdu st where p: "um_send_segment ?e sg b = Some (?e\<lparr>um_tx_next := ?nx, um_tx_size := um_tx_size tx - seg_size sg, um_stats := st\<rparr>, pdu)"
    (is "_ = Some (?tx, pdu)")
    "int (length pdu) = compute_pdu_header_size tx sg + seg_size sg"
    "um_decode_header n pdu =
      Some (if seg_is_first sg \<and> seg_is_last sg then Um_complete
            else Um_segment (seg_is_first sg) (seg_is_last sg) (sdu_sn sg) (seg_so sg) (nat (compute_pdu_header_size tx sg)))"
    "drop (nat (compute_pdu_header_size tx sg)) pdu = seg_bytes sg"
    using send_segment [OF sg(1) fe, of b, unfolded h, OF sg(5)] by (simp only: sel) blast
  obtain rx' cs' where r: "nr_rlc_entity_um_recv_pdu rx pdu = Some rx'" "rx_frame rx rx'"
    "rx_state rx' (if seg_is_last sg \<and> \<not> seg_is_first sg then (sdu_sn sg + 1) mod um_sn_modulus rx else sdu_sn sg) cs'"
    "concat cs' = (if seg_is_last sg then [] else take (nat (seg_so sg + seg_size sg)) (sdu_data sg))"
    "um_delivered rx' = um_delivered rx @ (if seg_is_last sg then [sdu_data sg] else [])"
    by (rule receive_segment [OF sg(1) t(3,4) len cs p(2-4)])
  have size: "1 \<le> seg_size sg" "pdu \<noteq> []" using sg(1) p(2) by (auto simp: seg_ok_def compute_pdu_header_size_def split: if_splits)
  have tx: "tx_state ?tx"
    by (rule tx_state_sent [OF t(1) L(1) B _ nx]) (use sz in simp)
  have "rx_state rx' (um_tx_next ?tx) cs'" using r(3) sg(4) m(1) cm by (auto split: if_splits)
  moreover have "concat cs' = sent_part L" using r(4) L(2) sg(2) by simp
  ultimately have "um_linked n ?tx rx'" using tx t r(2) by (auto simp: um_linked_def rx_frame_def)
  moreover have "link_step um_ops (tx, rx) (Tx_grant b) = Some (?tx, rx')"
    using gen p(1) r(1) size(2) by (simp add: link_step_def um_ops_def)
  moreover have "\<exists>k. um_delivered rx' = um_delivered rx @ take k (map sdu_data (um_tx_list tx)) \<and>
      map sdu_data L = drop k (map sdu_data (um_tx_list tx))"
    using r(5) L(3) s sg(2) by (intro exI [of _ "if seg_is_last sg then 1 else 0"]) simp
  ultimately show ?thesis using size(1) by (intro exI [of _ ?tx] exI [of _ rx']) simp
qed

lemma um_linked_grant:
  assumes lk: "um_linked n tx rx" and ok: "n = 6 \<or> length b \<noteq> 2"
  shows "\<exists>tx' rx'. link_step um_ops (tx, rx) (Tx_grant b) = Some (tx', rx') \<and> um_linked n tx' rx' \<and>
    (\<exists>k. um_delivered rx' = um_delivered rx @ take k (map sdu_data (um_tx_list tx)) \<and>
         map sdu_data (um_tx_list tx') = drop k (map sdu_data (um_tx_list tx))) \<and>
    (5 \<le> length b \<and> um_tx_list tx \<noteq> [] \<longrightarrow> um_tx_size tx' < um_tx_size tx) \<and> um_tx_size tx' \<le> um_tx_size tx"
proof (cases "um_tx_list tx")
  case Nil
  then show ?thesis using lk by (simp add: link_step_def um_ops_def nr_rlc_entity_um_generate_pdu_def)
next
  case (Cons s rest)
  let ?s = "s\<lparr>sdu_sn := um_tx_next tx\<rparr>" and ?h = "compute_pdu_header_size tx s"
  have t: "tx_state tx" "um_sn_field_length tx = n" using lk by (simp_all add: um_linked_def)
  then have n: "n = 6 \<or> n = 12" "0 \<le> um_tx_next tx" "um_tx_next tx < 2 ^ n" "queue_ok (s # rest)"
    "um_tx_size tx = seg_size s + sum_list (map seg_size rest)"
    "um_bstatus tx = ?h + seg_size s + sum_list (map (\<lambda>s. compute_pdu_header_size tx s + seg_size s) rest)"
    using Cons by (auto simp: tx_state_def um_cfg_def)
  have s: "rest_ok s" using n(4) by (simp add: queue_ok_def)
  then have h: "?h \<le> 4" "compute_pdu_header_size tx ?s = ?h"
    by (auto simp: compute_pdu_header_size_def rest_ok_def)
  consider (none) "?h + 1 > int (length b)" | (whole) "?h + 1 \<le> int (length b)" "?h + seg_size s \<le> int (length b)"
    | (part) "?h + 1 \<le> int (length b)" "?h + seg_size s > int (length b)" by linarith
  then show ?thesis
  proof cases
    case none
    then show ?thesis using lk Cons h(1)
      by (auto simp: link_step_def um_ops_def nr_rlc_entity_um_generate_pdu_def Let_def intro!: exI [of _ "0 :: nat"])
  next
    case whole
    have gen: "nr_rlc_entity_um_generate_pdu tx b =
      um_send_segment (tx\<lparr>um_tx_list := rest, um_bstatus := um_bstatus tx - (?h + seg_size s), um_stats := um_stats tx\<rparr>) ?s b"
      using whole Cons by (simp add: nr_rlc_entity_um_generate_pdu_def Let_def)
    have "seg_ok n ?s" using s n by (auto simp: seg_ok_def rest_ok_def sdu_size_ok_def NR_SDU_MAX_def)
    then show ?thesis
      using transmit [OF lk Cons _ _ _ _ _ gen queue_ok_tl [OF n(4)]] s sent_part_tl [OF n(4)] h(2) n(5,6) whole(1)
      by (auto simp: rest_ok_def)
  next
    case part
    let ?h' = "compute_pdu_header_size tx (?s\<lparr>seg_is_last := False\<rparr>)" and ?l = "int (length b)"
    let ?over = "?h' + seg_size s - ?l"
    let ?sg = "?s\<lparr>seg_size := seg_size s - ?over, seg_is_last := False\<rparr>"
    let ?nx = "?s\<lparr>seg_size := ?over, seg_so := seg_so s + (seg_size s - ?over), seg_is_first := False\<rparr>"
    let ?B = "um_bstatus tx - (?h + seg_size s) + compute_pdu_header_size tx ?nx + ?over"
    have h': "?h \<le> ?h'" "?h' + 1 \<le> ?l" "compute_pdu_header_size tx ?sg = ?h'"
      using part ok t(2) n(1) s by (auto simp: compute_pdu_header_size_def rest_ok_def)
    have e: "compute_pdu_header_size (tx\<lparr>um_tx_list := a, um_bstatus := c\<rparr>) x = compute_pdu_header_size tx x" for a c x
      by (simp add: compute_pdu_header_size_def)
    have gen: "nr_rlc_entity_um_generate_pdu tx b =
      um_send_segment (tx\<lparr>um_tx_list := ?nx # rest, um_bstatus := ?B, um_stats := um_stats (um_count_segmentation tx)\<rparr>) ?sg b"
      using part Cons h' by (simp add: nr_rlc_entity_um_generate_pdu_def Let_def resegment_def e um_count_segmentation_def)
    have sg: "seg_ok n ?sg" using s n h' part by (auto simp: seg_ok_def rest_ok_def sdu_size_ok_def NR_SDU_MAX_def)
    have nx: "rest_ok ?nx" using s h' part by (auto simp: rest_ok_def)
    then have q: "queue_ok (?nx # rest)" using n(4) by (auto simp: queue_ok_def)
    have "\<exists>tx' rx'. link_step um_ops (tx, rx) (Tx_grant b) = Some (tx', rx') \<and> um_linked n tx' rx' \<and>
      (\<exists>k. um_delivered rx' = um_delivered rx @ take k (map sdu_data (um_tx_list tx)) \<and>
         map sdu_data (um_tx_list tx') = drop k (map sdu_data (um_tx_list tx))) \<and>
      um_tx_size tx' < um_tx_size tx"
      by (rule transmit [OF lk Cons sg _ _ _ _ gen q]) (use h' n(5,6) in \<open>simp_all add: sent_part_def\<close>)
    then show ?thesis by (auto intro: less_imp_le)
  qed
qed

text \<open>Unacknowledged mode satisfies the contract of a link for either length of sequence numbers.\<close>

lemma um_linked_clock:
  assumes "um_linked n tx rx"
  shows "\<exists>tx' rx'. link_step um_ops (tx, rx) (Clock t) = Some (tx', rx') \<and> um_linked n tx' rx' \<and>
    um_delivered rx' = um_delivered rx \<and> um_tx_list tx' = um_tx_list tx"
proof -
  have "um_t_reassembly_start tx = 0" "um_t_reassembly_start rx = 0"
    using assms by (auto simp: um_linked_def tx_state_def rx_state_def)
  then have "link_step um_ops (tx, rx) (Clock t) = Some (tx\<lparr>um_t_current := t\<rparr>, rx\<lparr>um_t_current := t\<rparr>)"
    by (simp add: link_step_def um_ops_def nr_rlc_entity_um_set_time_def check_t_reassembly_def)
  moreover have "um_linked n (tx\<lparr>um_t_current := t\<rparr>) (rx\<lparr>um_t_current := t\<rparr>)"
    using assms by (simp add: um_linked_def rlc_simps)
  ultimately show ?thesis by simp
qed

lemma queue_ok_sum:
  "queue_ok l \<Longrightarrow> 0 \<le> sum_list (map seg_size l) \<and> (sum_list (map seg_size l) = 0 \<longleftrightarrow> l = [])"
proof (induction l)
  case (Cons s l)
  have "1 \<le> seg_size s" using Cons.prems by (simp add: queue_ok_def rest_ok_def)
  then show ?case using Cons.IH [OF queue_ok_tl [OF Cons.prems]] by simp
qed simp

lemma um_linked_size: "um_linked n tx rx \<Longrightarrow> 0 \<le> um_tx_size tx \<and> (um_tx_size tx = 0 \<longleftrightarrow> um_tx_list tx = [])"
  using queue_ok_sum by (simp add: um_linked_def tx_state_def)

interpretation um_link: rlc_link um_ops "\<lambda>e. map sdu_data (um_tx_list e)" um_delivered "um_linked n" sdu_size_ok
  "\<lambda>l. n = 6 \<or> l \<noteq> 2" "\<lambda>l. 5 \<le> l" "\<lambda>e. nat (um_tx_size e)" for n
proof
  fix tx rx d i assume "um_linked n tx rx" "sdu_size_ok d"
  then show "\<exists>tx'. op_recv_sdu um_ops tx d i = Some tx' \<and> um_linked n tx' rx \<and>
      map sdu_data (um_tx_list tx') = map sdu_data (um_tx_list tx) @ newly_accepted um_ops tx (Sdu_arrival i d)"
    using um_linked_arrival by (simp add: um_ops_def)
next
  fix tx rx and b :: "u8 list" assume "um_linked n tx rx" "n = 6 \<or> length b \<noteq> 2"
  then show "\<exists>tx' rx'. link_step um_ops (tx, rx) (Tx_grant b) = Some (tx', rx') \<and> um_linked n tx' rx' \<and>
      (\<exists>k. um_delivered rx' = um_delivered rx @ take k (map sdu_data (um_tx_list tx)) \<and>
         map sdu_data (um_tx_list tx') = drop k (map sdu_data (um_tx_list tx))) \<and>
      (5 \<le> length b \<and> map sdu_data (um_tx_list tx) \<noteq> [] \<longrightarrow> nat (um_tx_size tx') < nat (um_tx_size tx)) \<and>
      nat (um_tx_size tx') \<le> nat (um_tx_size tx)"
    using um_linked_grant [of n tx rx b] um_linked_size by fastforce
next
  fix tx rx t assume "um_linked n tx rx"
  then show "\<exists>tx' rx'. link_step um_ops (tx, rx) (Clock t) = Some (tx', rx') \<and> um_linked n tx' rx' \<and>
      um_delivered rx' = um_delivered rx \<and> map sdu_data (um_tx_list tx') = map sdu_data (um_tx_list tx)"
    using um_linked_clock by fastforce
next
  fix tx rx assume "um_linked n tx rx"
  then show "(nat (um_tx_size tx) = 0) = (map sdu_data (um_tx_list tx) = [])" using um_linked_size by fastforce
qed

text \<open>Two new entities are linked.\<close>

lemma um_linked_new:
  assumes "new_nr_rlc_entity_um a1 b1 c1 n = Some tx" and "new_nr_rlc_entity_um a2 b2 c2 n = Some rx" and "NR_SDU_MAX \<le> a2"
  shows "um_linked n tx rx"
proof -
  have n: "n = 6 \<or> n = 12" using assms(1) by (simp add: new_nr_rlc_entity_um_def split: if_splits)
  have w: "2 * c_div (2 ^ n) 2 = 2 ^ n" using n by (auto simp: c_div_def)
  have "tx_state tx" using assms(1) n w
    by (auto simp: new_nr_rlc_entity_um_def tx_state_def um_cfg_def queue_ok_def)
  moreover have "rx_state rx 0 []" using assms(2) n w
    by (auto simp: new_nr_rlc_entity_um_def rx_state_def um_cfg_def delivered_list_def)
  ultimately show ?thesis using assms by (auto simp: new_nr_rlc_entity_um_def um_linked_def sent_part_def split: if_splits)
qed

end
