(* ===== verification/Rlc_Um_Robust.thy ===== *)
theory Rlc_Um_Robust
  imports Rlc_Um_Reception
begin

text \<open>
  The unacknowledged mode entity under arbitrary input: the states reachable by any sequence of
  operations, with any bytes as received PDUs, and an invariant of the receiving side that bounds
  its memory and makes the loops of the reassembly end. The operations are all those of the entity, with one
  restriction: a reconfiguration may change t-Reassembly but not the length of sequence numbers.
\<close>

inductive um_reachable :: "nr_rlc_entity_um \<Rightarrow> bool" where
  new: "new_nr_rlc_entity_um rx_max tx_max t n = Some e \<Longrightarrow> 0 \<le> rx_max \<Longrightarrow> um_reachable e"
| recv_pdu: "um_reachable e \<Longrightarrow> nr_rlc_entity_um_recv_pdu e b = Some e' \<Longrightarrow> um_reachable e'"
| generate_pdu: "um_reachable e \<Longrightarrow> nr_rlc_entity_um_generate_pdu e b = Some (e', pdu) \<Longrightarrow> um_reachable e'"
| recv_sdu: "um_reachable e \<Longrightarrow> nr_rlc_entity_um_recv_sdu e d i = Some e' \<Longrightarrow> um_reachable e'"
| set_time: "um_reachable e \<Longrightarrow> nr_rlc_entity_um_set_time e now = Some e' \<Longrightarrow> um_reachable e'"
| discard_sdu: "um_reachable e \<Longrightarrow> um_reachable (nr_rlc_entity_um_discard_sdu e i)"
| reestablishment: "um_reachable e \<Longrightarrow> um_reachable (nr_rlc_entity_um_reestablishment e)"
| reconfigure: "um_reachable e \<Longrightarrow> um_reachable (nr_rlc_entity_um_reconfigure e t None)"

section \<open>The receiving side\<close>

abbreviation rx_pos :: "nr_rlc_entity_um \<Rightarrow> nr_rlc_pdu \<Rightarrow> int" where
  "rx_pos e p \<equiv> sn_pos (um_window_size e) (um_rx_next_highest e) (pdu_sn p)"

text \<open>The reception list is sorted, lies in the window, and its sizes are accounted for.\<close>

definition rx_wf :: "nr_rlc_entity_um \<Rightarrow> bool" where
  "rx_wf e \<longleftrightarrow> um_cfg e \<and> 0 \<le> um_rx_next_highest e \<and> um_rx_next_highest e < um_sn_modulus e \<and>
     0 \<le> um_rx_next_reassembly e \<and> um_rx_next_reassembly e < um_sn_modulus e \<and>
     0 \<le> um_rx_timer_trigger e \<and> um_rx_timer_trigger e < um_sn_modulus e \<and>
     (\<forall>p \<in> set (um_rx_list e). 0 \<le> pdu_sn p \<and> pdu_sn p < um_sn_modulus e \<and> 0 \<le> pdu_size p \<and> rx_pos e p < um_window_size e) \<and>
     sorted (map (rx_pos e) (um_rx_list e)) \<and>
     sum_list (map pdu_size (um_rx_list e)) \<le> um_rx_size e \<and> um_rx_size e \<le> um_rx_maxsize e"

lemma find_sn_received: "find_sn sn l = p # ps \<Longrightarrow> pdu_sn p = sn \<and> p \<in> set l"
  unfolding find_sn_def by (induction l) (auto split: if_splits)

lemma sdu_delivered_received: "sdu_delivered l sn \<Longrightarrow> \<exists>p \<in> set l. pdu_sn p = sn"
  by (auto simp: sdu_delivered_def split: list.splits dest: find_sn_received)

text \<open>The loop over delivered sequence numbers ends at one that was not received.\<close>

lemma skip_delivered_ends:
  assumes "\<forall>p \<in> set l. pdu_sn p \<noteq> h" and "0 \<le> h" "h < m" and "0 \<le> sn" "sn < m"
  shows "\<exists>r. skip_delivered l m sn = Some r \<and> 0 \<le> r \<and> r < m"
  using assms(4,5)
proof (induction "nat ((h - sn) mod m)" arbitrary: sn rule: less_induct)
  case less
  show ?case
  proof (cases "sdu_delivered l sn")
    case False
    then show ?thesis using less.prems by (subst skip_delivered.simps) simp
  next
    case True
    then have "sn \<noteq> h" using assms(1) sdu_delivered_received by blast
    let ?n = "c_mod (sn + 1) m"
    have n: "?n = (sn + 1) mod m" using less.prems by (intro c_mod_nonneg) auto
    have "\<bar>h - sn\<bar> < \<bar>m\<bar>" using assms(2,3) less.prems by auto
    then have "(h - sn) mod m \<noteq> 0" using \<open>sn \<noteq> h\<close> dvd_imp_le_int [of "h - sn" m] by (auto simp: mod_eq_0_iff_dvd)
    moreover have "(h - (sn + 1) mod m) mod m = ((h - sn) mod m - 1) mod m" by (simp add: mod_simps algebra_simps)
    moreover have "0 \<le> (h - sn) mod m" "(h - sn) mod m < m" using less.prems by auto
    ultimately have "(h - (sn + 1) mod m) mod m = (h - sn) mod m - 1" by simp
    then have "nat ((h - ?n) mod m) < nat ((h - sn) mod m)" using \<open>(h - sn) mod m \<noteq> 0\<close> \<open>0 \<le> (h - sn) mod m\<close> n by simp
    moreover have "0 \<le> ?n" "?n < m" using n less.prems by auto
    ultimately have "\<exists>r. skip_delivered l m ?n = Some r \<and> 0 \<le> r \<and> r < m" by (rule less.hyps)
    then show ?thesis using True by (subst skip_delivered.simps) simp
  qed
qed

text \<open>Insertion keeps the order.\<close>

lemma pdu_list_add_sorted:
  fixes f :: "int \<Rightarrow> int"
  assumes "sorted (map (\<lambda>p. f (pdu_sn p)) l)"
    and "\<And>q. q \<in> set l \<Longrightarrow> cmp (pdu_sn q) (pdu_sn p) = f (pdu_sn q) - f (pdu_sn p)"
  shows "sorted (map (\<lambda>p. f (pdu_sn p)) (nr_rlc_pdu_list_add cmp l p))"
  using assms
proof (induction l)
  case (Cons c l)
  have c: "cmp (pdu_sn c) (pdu_sn p) = f (pdu_sn c) - f (pdu_sn p)" using Cons.prems(2) by simp
  show ?case using Cons c by (auto simp: pdu_list_add_set)
qed simp

text \<open>Positions when the window moves up to the sequence number \<open>x\<close>.\<close>

lemma sn_pos_shift:
  assumes "0 < w" and "w \<le> sn_pos w h x"
  defines "k \<equiv> sn_pos w h x - w + 1"
  shows "sn_pos w ((x + 1) mod (2 * w)) a = (if k \<le> sn_pos w h a then sn_pos w h a - k else sn_pos w h a - k + 2 * w)"
    and "1 \<le> k" and "k \<le> w"
proof -
  have r: "0 \<le> sn_pos w h a" "sn_pos w h a < 2 * w" "sn_pos w h x < 2 * w" using sn_pos_range [OF assms(1)] by auto
  show k: "1 \<le> k" "k \<le> w" using assms(2) r(3) by (auto simp: k_def)
  have "sn_pos w ((x + 1) mod (2 * w)) a = (a - x + w - 1) mod (2 * w)"
    by (simp add: sn_pos_def mod_simps algebra_simps)
  also have "\<dots> = ((a - h + w) - (x - h + w) + (w - 1)) mod (2 * w)" by (simp add: algebra_simps)
  also have "\<dots> = ((a - h + w) mod (2 * w) - (x - h + w) mod (2 * w) + (w - 1)) mod (2 * w)"
    by (metis mod_add_left_eq mod_diff_eq)
  also have "\<dots> = (sn_pos w h a - k) mod (2 * w)" by (simp add: sn_pos_def k_def algebra_simps)
  also have "\<dots> = (if k \<le> sn_pos w h a then sn_pos w h a - k else sn_pos w h a - k + 2 * w)"
  proof (cases "k \<le> sn_pos w h a")
    case True
    then show ?thesis using r k by simp
  next
    case False
    have "(sn_pos w h a - k) mod (2 * w) = (sn_pos w h a - k + 2 * w) mod (2 * w)" by simp
    also have "\<dots> = sn_pos w h a - k + 2 * w" using False r k by (intro mod_pos_pos_trivial) auto
    finally show ?thesis using False by simp
  qed
  finally show "sn_pos w ((x + 1) mod (2 * w)) a = (if k \<le> sn_pos w h a then sn_pos w h a - k else sn_pos w h a - k + 2 * w)" .
qed

lemma discard_out_of_window_result:
  "\<exists>st. discard_out_of_window e l =
     (let P = (\<lambda>p. sn_compare_rx e (pdu_sn p) (um_rx_next_highest e) \<ge> 0)
      in e\<lparr>um_rx_list := dropWhile P l, um_rx_size := um_rx_size e - sum_list (map pdu_size (takeWhile P l)), um_stats := st\<rparr>)"
proof (induction l arbitrary: e)
  case Nil
  then show ?case by (auto simp: Let_def intro!: exI [of _ "um_stats e"])
next
  case (Cons p l)
  let ?e = "e\<lparr>um_rx_size := um_rx_size e - pdu_size p, um_stats := count_window_discard (pdu_size p) (um_stats e)\<rparr>"
  have c: "sn_compare_rx ?e a b = sn_compare_rx e a b" "um_rx_next_highest ?e = um_rx_next_highest e" for a b
    by (simp_all add: sn_compare_rx_def rlc_simps)
  show ?case
  proof (cases "sn_compare_rx e (pdu_sn p) (um_rx_next_highest e) \<ge> 0")
    case True
    then show ?thesis using Cons.IH [of ?e, unfolded c Let_def] by (auto simp: Let_def algebra_simps)
  next
    case False
    then show ?thesis by (auto simp: Let_def intro!: exI [of _ "um_stats e"])
  qed
qed

lemma sum_list_dropWhile: "sum_list (map f (dropWhile P l)) = sum_list (map f l) - (sum_list (map f (takeWhile P l)) :: int)"
  by (induction l) auto

lemma sorted_dropWhile_ge:
  fixes f :: "'a \<Rightarrow> int"
  assumes "sorted (map f l)" and "\<And>p. p \<in> set l \<Longrightarrow> P p \<longleftrightarrow> f p < k" and "p \<in> set (dropWhile P l)"
  shows "k \<le> f p"
  using assms
proof (induction l)
  case (Cons q l)
  then show ?case by (cases "P q") (fastforce simp: not_less)+
qed simp

section \<open>Headers of arbitrary bytes\<close>

lemma get_bit_range: "get_bit d = (b, d') \<Longrightarrow> 0 \<le> b \<and> b \<le> 1"
  by (auto simp: get_bit_def split: if_splits)

lemma read_bits_total: "n \<le> 31 \<Longrightarrow> (\<And>v d'. \<exists>h. k v d' = Some h) \<Longrightarrow> \<exists>h. read_bits d n k = Some h"
  by (auto simp: read_bits_def nr_rlc_pdu_decoder_get_bits_def split: prod.splits)

lemma read_bits_segment:
  assumes "read_bits d n k = Some (Um_segment f l sn so off)"
  obtains v d' where "k v d' = Some (Um_segment f l sn so off)" and "0 \<le> v" and "v < 2 ^ n"
  using assms get_bits_loop_range [of n 0 d]
  by (auto simp: read_bits_def nr_rlc_pdu_decoder_get_bits_def split: prod.splits if_splits)

lemma um_decode_header_total: "n \<le> 31 \<Longrightarrow> \<exists>h. um_decode_header n b = Some h"
  unfolding um_decode_header_def Let_def by (intro read_bits_total) (auto intro!: read_bits_total)

lemma um_decode_header_segment:
  assumes "um_decode_header n b = Some (Um_segment f l sn so off)"
  shows "0 \<le> sn \<and> sn < 2 ^ n \<and> \<not> (f \<and> l) \<and> (f \<longrightarrow> so = 0) \<and> 0 \<le> so"
proof -
  have tail: "0 \<le> sn \<and> sn < 2 ^ n \<and> (f \<longrightarrow> so = 0) \<and> 0 \<le> so \<and> f = f' \<and> l = l'"
    if "read_bits d n (\<lambda>sn d. if \<not> f' then read_bits d 16 (\<lambda>so d. Some (Um_segment f' l' sn so (dec_byte d)))
                   else Some (Um_segment f' l' sn 0 (dec_byte d))) = Some (Um_segment f l sn so off)" for d f' l'
    using that by (elim read_bits_segment) (auto split: if_splits elim!: read_bits_segment)
  show ?thesis using assms unfolding um_decode_header_def Let_def
    by (elim read_bits_segment) (auto split: if_splits elim!: read_bits_segment dest!: tail)
qed

section \<open>Reception keeps the invariant\<close>

text \<open>After the insertion of a segment with the sequence number \<open>x\<close>.\<close>

definition rx_inserted :: "nr_rlc_entity_um \<Rightarrow> int \<Rightarrow> bool" where
  "rx_inserted e x \<longleftrightarrow> um_cfg e \<and> 0 \<le> um_rx_next_highest e \<and> um_rx_next_highest e < um_sn_modulus e \<and>
     0 \<le> um_rx_next_reassembly e \<and> um_rx_next_reassembly e < um_sn_modulus e \<and>
     0 \<le> um_rx_timer_trigger e \<and> um_rx_timer_trigger e < um_sn_modulus e \<and> 0 \<le> x \<and> x < um_sn_modulus e \<and>
     (\<forall>p \<in> set (um_rx_list e). 0 \<le> pdu_sn p \<and> pdu_sn p < um_sn_modulus e \<and> 0 \<le> pdu_size p \<and>
        (rx_pos e p < um_window_size e \<or> pdu_sn p = x)) \<and>
     (sdu_full (um_rx_list e) x \<longrightarrow> sn_pos (um_window_size e) (um_rx_next_highest e) x < um_window_size e) \<and>
     sorted (map (rx_pos e) (um_rx_list e)) \<and>
     sum_list (map pdu_size (um_rx_list e)) \<le> um_rx_size e \<and> um_rx_size e \<le> um_rx_maxsize e"

lemma rx_inserted_wf:
  "rx_inserted e x \<Longrightarrow> sn_pos (um_window_size e) (um_rx_next_highest e) x < um_window_size e \<Longrightarrow> rx_wf e"
  by (auto simp: rx_inserted_def rx_wf_def)

lemma rx_wf_top:
  assumes "rx_wf e"
  shows "\<forall>p \<in> set (um_rx_list e). pdu_sn p \<noteq> um_rx_next_highest e"
proof -
  have "0 < um_window_size e" using assms um_cfg_window by (auto simp: rx_wf_def)
  then show ?thesis using assms by (auto simp: rx_wf_def sn_pos_self)
qed

lemma rx_wf_skip:
  assumes "rx_wf e" and "0 \<le> sn" and "sn < um_sn_modulus e"
  shows "\<exists>r. skip_delivered (um_rx_list e) (um_sn_modulus e) sn = Some r \<and> 0 \<le> r \<and> r < um_sn_modulus e"
  by (rule skip_delivered_ends [OF rx_wf_top [OF assms(1)]]) (use assms in \<open>simp_all add: rx_wf_def\<close>)

lemma reassemble_result:
  "\<exists>st dl. reassemble_and_deliver e sn =
     e\<lparr>um_rx_list := takeWhile (\<lambda>p. pdu_sn p \<noteq> sn) (um_rx_list e) @
          map clear_pdu (takeWhile (\<lambda>p. pdu_sn p = sn) (find_sn sn (um_rx_list e))) @
          dropWhile (\<lambda>p. pdu_sn p = sn) (find_sn sn (um_rx_list e)),
       um_rx_size := um_rx_size e - sum_list (map pdu_size (takeWhile (\<lambda>p. pdu_sn p = sn) (find_sn sn (um_rx_list e)))),
       um_delivered := dl, um_stats := st\<rparr>"
proof -
  obtain so bad sdu where f: "foldl reassemble_step (0, False, []) (takeWhile (\<lambda>p. pdu_sn p = sn) (find_sn sn (um_rx_list e))) = (so, bad, sdu)"
    by (cases "foldl reassemble_step (0, False, []) (takeWhile (\<lambda>p. pdu_sn p = sn) (find_sn sn (um_rx_list e)))") auto
  have cl: "(\<lambda>q. q\<lparr>pdu_data := None, pdu_size := 0\<rparr>) = clear_pdu" by (rule ext) (simp add: clear_pdu_def)
  show ?thesis
  proof (cases bad)
    case True
    then show ?thesis
      by (intro exI [of _ "um_stats e"] exI [of _ "um_delivered e"]) (simp add: reassemble_and_deliver_def Let_def f cl)
  next
    case False
    then show ?thesis
      by (intro exI) (simp add: reassemble_and_deliver_def Let_def f cl)
  qed
qed

lemma reassemble_wf:
  assumes "rx_wf e"
  shows "rx_wf (reassemble_and_deliver e sn)" and "um_rx_next_reassembly (reassemble_and_deliver e sn) = um_rx_next_reassembly e"
    and "um_sn_modulus (reassemble_and_deliver e sn) = um_sn_modulus e"
proof -
  let ?l = "um_rx_list e" and ?P = "\<lambda>p. pdu_sn p = sn"
  let ?A = "takeWhile (\<lambda>p. pdu_sn p \<noteq> sn) ?l" and ?S = "takeWhile ?P (find_sn sn ?l)" and ?B = "dropWhile ?P (find_sn sn ?l)"
  obtain st dl where r: "reassemble_and_deliver e sn = e\<lparr>um_rx_list := ?A @ map clear_pdu ?S @ ?B,
      um_rx_size := um_rx_size e - sum_list (map pdu_size ?S), um_delivered := dl, um_stats := st\<rparr>"
    using reassemble_result by blast
  show "um_rx_next_reassembly (reassemble_and_deliver e sn) = um_rx_next_reassembly e"
    "um_sn_modulus (reassemble_and_deliver e sn) = um_sn_modulus e" by (simp_all add: r)
  have l: "?l = ?A @ ?S @ ?B" by (simp add: find_sn_def)
  have c: "pdu_sn (clear_pdu p) = pdu_sn p" "pdu_size (clear_pdu p) = 0" for p by (simp_all add: clear_pdu_def)
  have wf: "\<forall>p \<in> set (?A @ ?S @ ?B). 0 \<le> pdu_sn p \<and> pdu_sn p < um_sn_modulus e \<and> 0 \<le> pdu_size p \<and> rx_pos e p < um_window_size e"
    "sorted (map (rx_pos e) (?A @ ?S @ ?B))" "sum_list (map pdu_size (?A @ ?S @ ?B)) \<le> um_rx_size e"
    using assms unfolding l [symmetric] by (simp_all add: rx_wf_def)
  have s0: "0 \<le> sum_list (map pdu_size ?S)" using wf(1) by (intro sum_list_nonneg) (auto dest: set_takeWhileD)
  have so: "map (rx_pos e) (?A @ map clear_pdu ?S @ ?B) = map (rx_pos e) (?A @ ?S @ ?B)"
    by (simp only: map_append map_map comp_def c)
  have "sum_list (map pdu_size (?A @ map clear_pdu ?S @ ?B)) \<le> um_rx_size e - sum_list (map pdu_size ?S)"
    using wf(3) by (simp add: c comp_def sum_list_dropWhile)
  moreover have "sorted (map (rx_pos e) (?A @ map clear_pdu ?S @ ?B))" unfolding so by (rule wf(2))
  moreover have "\<forall>p \<in> set (?A @ map clear_pdu ?S @ ?B). 0 \<le> pdu_sn p \<and> pdu_sn p < um_sn_modulus e \<and> 0 \<le> pdu_size p \<and> rx_pos e p < um_window_size e"
    using wf(1) unfolding ball_simps set_append by (auto simp: c dest: set_takeWhileD set_dropWhileD)
  ultimately show "rx_wf (reassemble_and_deliver e sn)"
    unfolding r using assms s0 by (simp only: rx_wf_def rlc_simps) simp
qed

lemma window_moved_wf:
  assumes "rx_inserted e x" and "um_window_size e \<le> sn_pos (um_window_size e) (um_rx_next_highest e) x"
  defines "e1 \<equiv> e\<lparr>um_rx_next_highest := (x + 1) mod um_sn_modulus e\<rparr>"
  shows "rx_wf (discard_out_of_window e1 (um_rx_list e))"
    and "um_window_size (discard_out_of_window e1 (um_rx_list e)) = um_window_size e"
    and "um_sn_modulus (discard_out_of_window e1 (um_rx_list e)) = um_sn_modulus e"
    and "um_rx_next_highest (discard_out_of_window e1 (um_rx_list e)) = (x + 1) mod um_sn_modulus e"
proof -
  let ?w = "um_window_size e" and ?h = "um_rx_next_highest e" and ?m = "um_sn_modulus e"
  let ?P = "\<lambda>p. sn_compare_rx e1 (pdu_sn p) (um_rx_next_highest e1) \<ge> 0" and ?l = "um_rx_list e"
  let ?k = "sn_pos ?w ?h x - ?w + 1" and ?D = "dropWhile ?P ?l"
  have cfg: "um_cfg e" "um_cfg e1" using assms(1) by (simp_all add: rx_inserted_def e1_def rlc_simps)
  have w: "0 < ?w" "?m = 2 * ?w" using um_cfg_window [OF cfg(1)] by auto
  have h1: "um_rx_next_highest e1 = (x + 1) mod ?m" "0 \<le> (x + 1) mod ?m" "(x + 1) mod ?m < ?m" "um_window_size e1 = ?w" "um_sn_modulus e1 = ?m"
    using w by (simp_all add: e1_def)
  note sh = sn_pos_shift [OF w(1) assms(2), folded w(2)]
  have mod: "modulus_rx e1 a = sn_pos ?w ((x + 1) mod ?m) a" if "0 \<le> a" "a < ?m" for a
    using modulus_rx_at [OF cfg(2) h1(1)] h1 that by simp
  obtain st where d: "discard_out_of_window e1 ?l =
      e1\<lparr>um_rx_list := ?D, um_rx_size := um_rx_size e1 - sum_list (map pdu_size (takeWhile ?P ?l)), um_stats := st\<rparr>"
    using discard_out_of_window_result [of e1 ?l] by (auto simp: Let_def)
  show "um_window_size (discard_out_of_window e1 ?l) = ?w" "um_sn_modulus (discard_out_of_window e1 ?l) = ?m"
    "um_rx_next_highest (discard_out_of_window e1 ?l) = (x + 1) mod ?m" by (simp_all add: d h1)
  have pl: "0 \<le> pdu_sn p" "pdu_sn p < ?m" "0 \<le> pdu_size p" "sn_pos ?w ?h (pdu_sn p) \<le> sn_pos ?w ?h x" if "p \<in> set ?l" for p
    using assms(1,2) that by (auto simp: rx_inserted_def)
  have P: "?P p \<longleftrightarrow> sn_pos ?w ?h (pdu_sn p) < ?k" if "p \<in> set ?l" for p
    using pl [OF that] sh h1(1-3) sn_pos_self [OF w(1), of "(x + 1) mod ?m"] sn_pos_range [OF w(1), of ?h "pdu_sn p"] w
    by (simp add: sn_compare_rx_def mod)
  have srt: "sorted (map (\<lambda>p. sn_pos ?w ?h (pdu_sn p)) ?l)" using assms(1) by (simp add: rx_inserted_def)
  have ge: "?k \<le> sn_pos ?w ?h (pdu_sn p)" if "p \<in> set ?D" for p
    using sorted_dropWhile_ge [OF srt P that] by simp
  have pos: "sn_pos ?w ((x + 1) mod ?m) (pdu_sn p) = sn_pos ?w ?h (pdu_sn p) - ?k" if "p \<in> set ?D" for p
    using ge [OF that] sh(1) by simp
  have sub: "set ?D \<subseteq> set ?l" by (auto dest: set_dropWhileD)
  have eq: "map (\<lambda>p. sn_pos ?w ((x + 1) mod ?m) (pdu_sn p)) ?D = map (\<lambda>y. y - ?k) (map (\<lambda>p. sn_pos ?w ?h (pdu_sn p)) ?D)"
    using pos by simp
  have mono: "sorted (map (\<lambda>y. y - k) ys)" if "sorted ys" for ys and k :: int
    using that by (induction ys) auto
  have "sorted (map (\<lambda>p. sn_pos ?w ?h (pdu_sn p)) ?D)"
    unfolding dropWhile_eq_drop drop_map [symmetric] using srt by (rule sorted_wrt_drop)
  then have srt': "sorted (map (\<lambda>p. sn_pos ?w ((x + 1) mod ?m) (pdu_sn p)) ?D)" unfolding eq by (rule mono)
  have el: "0 \<le> pdu_sn p \<and> pdu_sn p < ?m \<and> 0 \<le> pdu_size p \<and> sn_pos ?w ((x + 1) mod ?m) (pdu_sn p) < ?w" if "p \<in> set ?D" for p
    using pl [of p] pos [OF that] that sub by auto
  have sz: "sum_list (map pdu_size ?D) \<le> um_rx_size e - sum_list (map pdu_size (takeWhile ?P ?l))"
    using assms(1) by (simp add: sum_list_dropWhile rx_inserted_def)
  have "0 \<le> sum_list (map pdu_size (takeWhile ?P ?l))"
    using pl(3) by (intro sum_list_nonneg) (auto dest: set_takeWhileD)
  then show "rx_wf (discard_out_of_window e1 ?l)"
    unfolding d using assms(1) srt' el sz h1(2,3) cfg(2) by (simp add: rx_wf_def rx_inserted_def e1_def rlc_simps)
qed

text \<open>The comparison of \<^verbatim>\<open>sn_compare_rx\<close> with the upper edge of the window.\<close>

lemma compare_highest:
  assumes "um_cfg e" and "0 \<le> um_rx_next_highest e" and "um_rx_next_highest e < um_sn_modulus e" and "0 \<le> a" and "a < um_sn_modulus e"
  shows "0 \<le> sn_compare_rx e a (um_rx_next_highest e) \<longleftrightarrow> um_window_size e \<le> sn_pos (um_window_size e) (um_rx_next_highest e) a"
proof -
  have "0 < um_window_size e" using um_cfg_window [OF assms(1)] by simp
  then show ?thesis
    using modulus_rx_at [OF assms(1) refl assms(2,3)] assms(2-5) by (simp add: sn_compare_rx_def sn_pos_self)
qed

lemma rx_wf_next_reassembly:
  "rx_wf e \<Longrightarrow> 0 \<le> r \<Longrightarrow> r < um_sn_modulus e \<Longrightarrow> rx_wf (e\<lparr>um_rx_next_reassembly := r\<rparr>)"
  by (simp add: rx_wf_def rlc_simps)

lemma reception_window_wf:
  assumes "rx_inserted e x"
  shows "\<exists>e'. reception_window e x = Some e' \<and> rx_wf e'"
proof -
  let ?w = "um_window_size e" and ?h = "um_rx_next_highest e" and ?m = "um_sn_modulus e"
  have e: "um_cfg e" "0 \<le> ?h" "?h < ?m" "0 \<le> x" "x < ?m" "0 \<le> um_rx_next_reassembly e" "um_rx_next_reassembly e < ?m"
    using assms by (simp_all add: rx_inserted_def)
  have w: "0 < ?w" "?m = 2 * ?w" using um_cfg_window [OF e(1)] by auto
  consider (full) "sdu_full (um_rx_list e) x" | (beyond) "\<not> sdu_full (um_rx_list e) x" "?w \<le> sn_pos ?w ?h x"
    | (inside) "\<not> sdu_full (um_rx_list e) x" "sn_pos ?w ?h x < ?w" by linarith
  then show ?thesis
  proof cases
    case full
    then have wf: "rx_wf e" using assms rx_inserted_wf by (auto simp: rx_inserted_def)
    let ?e = "reassemble_and_deliver e x"
    obtain r where "skip_delivered (um_rx_list ?e) (um_sn_modulus ?e) (um_rx_next_reassembly ?e) = Some r" "0 \<le> r" "r < um_sn_modulus ?e"
      using rx_wf_skip [OF reassemble_wf(1) [OF wf, of x], of "um_rx_next_reassembly ?e"] e(6,7) reassemble_wf(2,3) [OF wf] by auto
    then have "reception_window e x = Some (if x = um_rx_next_reassembly ?e then ?e\<lparr>um_rx_next_reassembly := r\<rparr> else ?e)"
      "rx_wf (?e\<lparr>um_rx_next_reassembly := r\<rparr>)"
      using full rx_wf_next_reassembly [OF reassemble_wf(1) [OF wf]] by (auto simp: reception_window_def Let_def)
    then show ?thesis using reassemble_wf(1) [OF wf, of x] by auto
  next
    case inside
    then have "\<not> 0 \<le> sn_compare_rx e x ?h" using compare_highest [OF e(1-5)] by simp
    then show ?thesis using inside rx_inserted_wf [OF assms] by (simp add: reception_window_def)
  next
    case beyond
    let ?e1 = "e\<lparr>um_rx_next_highest := (x + 1) mod ?m\<rparr>"
    let ?e2 = "discard_out_of_window ?e1 (um_rx_list e)"
    note mv = window_moved_wf [OF assms beyond(2)]
    have ge: "0 \<le> sn_compare_rx e x ?h" using compare_highest [OF e(1-5)] beyond(2) by simp
    have cm: "c_mod (x + 1) ?m = (x + 1) mod ?m" using e(4) w by (intro c_mod_nonneg) auto
    let ?b = "um_rx_next_highest ?e2 - um_window_size ?e2 + um_sn_modulus ?e2"
    have b: "c_mod ?b (um_sn_modulus ?e2) = ?b mod ?m"
      unfolding mv(2-4) using w by (intro c_mod_nonneg) (auto simp: add_nonneg_nonneg)
    have rng: "0 \<le> c_mod ?b (um_sn_modulus ?e2)" "c_mod ?b (um_sn_modulus ?e2) < um_sn_modulus ?e2"
      unfolding b unfolding mv(3) using w by auto
    obtain r where r: "skip_delivered (um_rx_list ?e2) (um_sn_modulus ?e2) (c_mod ?b (um_sn_modulus ?e2)) = Some r" "0 \<le> r" "r < um_sn_modulus ?e2"
      using rx_wf_skip [OF mv(1) rng] by blast
    have "reception_window e x =
      (if sn_compare_rx ?e2 (um_rx_next_reassembly ?e2) (um_rx_next_highest ?e2) \<ge> 0
       then Some (?e2\<lparr>um_rx_next_reassembly := r\<rparr>) else Some ?e2)"
      using beyond(1) ge r(1) by (simp add: reception_window_def Let_def cm)
    then show ?thesis using mv(1) rx_wf_next_reassembly [OF mv(1) r(2,3)] by auto
  qed
qed

lemma um_cfg_timer [rlc_simps]:
  "um_cfg (e\<lparr>um_t_reassembly_start := t\<rparr>) = um_cfg e"
  "um_cfg (e\<lparr>um_rx_timer_trigger := x\<rparr>) = um_cfg e"
  "um_cfg (e\<lparr>um_t_current := t\<rparr>) = um_cfg e"
  by (simp_all add: um_cfg_def)

lemma timers_wf: "rx_wf e \<Longrightarrow> rx_wf (timer_start (timer_stop e))"
proof -
  have u: "rx_wf (e\<lparr>um_t_reassembly_start := a\<rparr>) = rx_wf e" for e a by (simp add: rx_wf_def rlc_simps)
  have v: "rx_wf e \<Longrightarrow> rx_wf (e\<lparr>um_t_reassembly_start := a, um_rx_timer_trigger := um_rx_next_highest e\<rparr>)" for e a
    by (simp add: rx_wf_def rlc_simps)
  assume "rx_wf e"
  then have "rx_wf (timer_stop e)" by (simp add: timer_stop_def u)
  then show ?thesis using v [of "timer_stop e" "um_t_current (timer_stop e)"] by (simp add: timer_start_def)
qed

text \<open>A single segment that carries a sequence number and no other segment of its SDU is not complete.\<close>

lemma inserted_not_full:
  assumes "\<forall>q \<in> set l. pdu_sn q \<noteq> pdu_sn p" and "\<not> pdu_is_last p \<or> pdu_so p > 0"
  shows "\<not> sdu_full (nr_rlc_pdu_list_add cmp l p) (pdu_sn p)"
proof -
  have one: "full_loop (pdu_sn p) (-1) (p # l') = False" if "\<forall>q \<in> set l'. pdu_sn q \<noteq> pdu_sn p" for l'
    using that assms(2) by (cases l') auto
  have "\<exists>l'. find_sn (pdu_sn p) (nr_rlc_pdu_list_add cmp l p) = p # l' \<and> set l' \<subseteq> set l"
    using assms(1) by (induction l) (auto simp: find_sn_def)
  then obtain l' where "find_sn (pdu_sn p) (nr_rlc_pdu_list_add cmp l p) = p # l'" "set l' \<subseteq> set l" by blast
  moreover from this have "full_loop (pdu_sn p) (-1) (p # l') = False" using assms(1) by (intro one) blast
  ultimately show ?thesis by (simp add: sdu_full_def del: full_loop.simps)
qed

lemma recv_segment_wf:
  assumes "rx_wf e" and "0 \<le> sn" and "sn < um_sn_modulus e" and "\<not> (f \<and> l)" and "f \<longrightarrow> so = 0" and "0 \<le> so"
  shows "\<exists>e'. um_recv_segment e b f l sn so off = Some e' \<and> rx_wf e'"
proof -
  let ?w = "um_window_size e" and ?h = "um_rx_next_highest e" and ?d = "int (length b) - int off"
  let ?p = "nr_rlc_new_pdu sn so f l (drop off b)"
  let ?e = "e\<lparr>um_rx_size := um_rx_size e + ?d, um_rx_list := nr_rlc_pdu_list_add (sn_compare_rx e) (um_rx_list e) ?p\<rparr>"
  have disc: "rx_wf (um_discard_pdu e (int (length b)))" using assms(1) by (simp add: um_discard_pdu_def rx_wf_def rlc_simps)
  have cmp: "sn_compare_rx (e\<lparr>um_rx_size := x\<rparr>) = sn_compare_rx e" for x by (intro ext) (simp add: sn_compare_rx_def rlc_simps)
  have wf: "um_cfg e" "0 \<le> ?h" "?h < um_sn_modulus e" "sorted (map (rx_pos e) (um_rx_list e))"
    "\<And>q. q \<in> set (um_rx_list e) \<Longrightarrow> 0 \<le> pdu_sn q \<and> pdu_sn q < um_sn_modulus e \<and> 0 \<le> pdu_size q \<and> rx_pos e q < ?w"
    "sum_list (map pdu_size (um_rx_list e)) \<le> um_rx_size e"
    using assms(1) by (auto simp: rx_wf_def)
  have "rx_inserted ?e sn" if ok: "\<not> (\<not> f \<and> so = 0)" "0 < ?d" "um_rx_size e + ?d \<le> um_rx_maxsize e"
  proof -
    have p: "pdu_sn ?p = sn" "pdu_size ?p = ?d" "pdu_so ?p = so" "pdu_is_last ?p = l"
      using ok(2) by (simp_all add: nr_rlc_new_pdu_def)
    have srt: "sorted (map (rx_pos e) (nr_rlc_pdu_list_add (sn_compare_rx e) (um_rx_list e) ?p))"
    proof (rule pdu_list_add_sorted [OF wf(4)])
      fix q assume "q \<in> set (um_rx_list e)"
      then show "sn_compare_rx e (pdu_sn q) (pdu_sn ?p) = rx_pos e q - rx_pos e ?p"
        using wf(5) [of q] modulus_rx_at [OF wf(1) refl wf(2,3)] assms(2,3) p(1) by (simp add: sn_compare_rx_def)
    qed
    have full: "sn_pos ?w ?h sn < ?w" if "sdu_full (nr_rlc_pdu_list_add (sn_compare_rx e) (um_rx_list e) ?p) sn"
    proof (rule ccontr)
      assume "\<not> sn_pos ?w ?h sn < ?w"
      then have "\<forall>q \<in> set (um_rx_list e). pdu_sn q \<noteq> pdu_sn ?p" using wf(5) p(1) by auto
      moreover have "\<not> pdu_is_last ?p \<or> pdu_so ?p > 0" using ok(1) assms(4,6) p(3,4) by auto
      ultimately show False using inserted_not_full that p(1) by fastforce
    qed
    have "sum_list (map pdu_size (um_rx_list ?e)) \<le> um_rx_size ?e"
      using wf(6) p(2) by (simp add: pdu_list_add_sum)
    moreover have "\<forall>q \<in> set (um_rx_list ?e). 0 \<le> pdu_sn q \<and> pdu_sn q < um_sn_modulus e \<and> 0 \<le> pdu_size q \<and> (rx_pos e q < ?w \<or> pdu_sn q = sn)"
      using wf(5) p(1,2) ok(2) assms(2,3) by (auto simp: pdu_list_add_set)
    ultimately show ?thesis using assms(1-3) srt full ok(3)
      by (simp add: rx_inserted_def rx_wf_def rlc_simps)
  qed
  then have act: "\<exists>e'. reception_actions ?e sn = Some e' \<and> rx_wf e'"
    if "\<not> (\<not> f \<and> so = 0)" "0 < ?d" "um_rx_size e + ?d \<le> um_rx_maxsize e"
    using reception_window_wf [of ?e sn] timers_wf that by (fastforce simp: reception_actions_def)
  show ?thesis using disc act by (auto simp: um_recv_segment_def Let_def cmp not_le not_less)
qed

lemma recv_pdu_wf:
  assumes "rx_wf e"
  shows "\<exists>e'. nr_rlc_entity_um_recv_pdu e b = Some e' \<and> rx_wf e'"
proof -
  have u: "rx_wf (e\<lparr>um_stats := s\<rparr>) = rx_wf e" "rx_wf (e\<lparr>um_delivered := d\<rparr>) = rx_wf e" for e s d
    by (simp_all add: rx_wf_def rlc_simps)
  have n: "um_sn_field_length e \<le> 31" "um_sn_modulus e = 2 ^ um_sn_field_length e" using assms by (auto simp: rx_wf_def um_cfg_def)
  obtain h where h: "um_decode_header (um_sn_field_length e) b = Some h" using um_decode_header_total [OF n(1)] by blast
  show ?thesis
  proof (cases h)
    case (Um_segment f l sn so off)
    then have s: "0 \<le> sn" "sn < um_sn_modulus e" "\<not> (f \<and> l)" "f \<longrightarrow> so = 0" "0 \<le> so"
      using um_decode_header_segment [of "um_sn_field_length e" b f l sn so off] h n(2) by simp_all
    obtain st where "nr_rlc_entity_um_recv_pdu e b = um_recv_segment (e\<lparr>um_stats := st\<rparr>) b f l sn so off"
      using h Um_segment by (auto simp: nr_rlc_entity_um_recv_pdu_def Let_def)
    then show ?thesis using recv_segment_wf [of "e\<lparr>um_stats := st\<rparr>", OF _ _ _ s(3-5)] s(1,2) assms by (simp add: u)
  qed (use h assms in \<open>auto simp: nr_rlc_entity_um_recv_pdu_def Let_def um_discard_pdu_def u\<close>)
qed

section \<open>The other operations\<close>

lemma discard_before_result:
  "\<exists>st. discard_before e l =
     e\<lparr>um_rx_list := dropWhile (\<lambda>p. sn_compare_rx e (pdu_sn p) (um_rx_next_reassembly e) < 0) l, um_stats := st\<rparr>"
proof (induction l arbitrary: e)
  case Nil
  then show ?case by (auto intro!: exI [of _ "um_stats e"])
next
  case (Cons p l)
  have c: "sn_compare_rx (e\<lparr>um_stats := s\<rparr>) a b = sn_compare_rx e a b" for s a b by (simp add: sn_compare_rx_def rlc_simps)
  show ?case
  proof (cases "sn_compare_rx e (pdu_sn p) (um_rx_next_reassembly e) < 0")
    case True
    then show ?thesis using Cons.IH [of "e\<lparr>um_stats := _\<rparr>"] by (auto simp: c)
  next
    case False
    then show ?thesis by (auto intro!: exI [of _ "um_stats e"])
  qed
qed

lemma discard_before_wf:
  assumes "rx_wf e"
  shows "rx_wf (discard_before e (um_rx_list e))" and "um_rx_size (discard_before e (um_rx_list e)) = um_rx_size e"
proof -
  let ?P = "\<lambda>p. sn_compare_rx e (pdu_sn p) (um_rx_next_reassembly e) < 0" and ?l = "um_rx_list e"
  obtain st where d: "discard_before e ?l = e\<lparr>um_rx_list := dropWhile ?P ?l, um_stats := st\<rparr>"
    using discard_before_result by blast
  show "um_rx_size (discard_before e ?l) = um_rx_size e" by (simp add: d)
  have "0 \<le> sum_list (map pdu_size (takeWhile ?P ?l))"
    using assms by (intro sum_list_nonneg) (auto simp: rx_wf_def dest: set_takeWhileD)
  then have "sum_list (map pdu_size (dropWhile ?P ?l)) \<le> um_rx_size e"
    using assms by (simp add: sum_list_dropWhile rx_wf_def)
  moreover have "sorted (map (rx_pos e) (dropWhile ?P ?l))"
    unfolding dropWhile_eq_drop drop_map [symmetric] using assms by (intro sorted_wrt_drop) (simp add: rx_wf_def)
  ultimately show "rx_wf (discard_before e ?l)"
    unfolding d using assms by (auto simp: rx_wf_def rlc_simps dest: set_dropWhileD)
qed

lemma set_time_wf:
  assumes "rx_wf e"
  shows "\<exists>e'. nr_rlc_entity_um_set_time e now = Some e' \<and> rx_wf e' \<and> um_rx_size e' = um_rx_size e"
proof -
  let ?e0 = "e\<lparr>um_t_current := now, um_t_reassembly_start := 0\<rparr>"
  have wf: "rx_wf (e\<lparr>um_t_current := now\<rparr>)" "rx_wf ?e0" using assms by (simp_all add: rx_wf_def rlc_simps)
  obtain r where r: "skip_delivered (um_rx_list e) (um_sn_modulus e) (um_rx_timer_trigger e) = Some r" "0 \<le> r" "r < um_sn_modulus e"
    using rx_wf_skip [OF assms, of "um_rx_timer_trigger e"] assms by (auto simp: rx_wf_def)
  let ?e1 = "?e0\<lparr>um_rx_next_reassembly := r\<rparr>"
  let ?e2 = "discard_before ?e1 (um_rx_list ?e1)"
  have "rx_wf ?e1" using rx_wf_next_reassembly [OF wf(2) r(2)] r(3) by simp
  note e2 = discard_before_wf [OF this]
  have t: "rx_wf (?e2\<lparr>um_t_reassembly_start := a, um_rx_timer_trigger := um_rx_next_highest ?e2\<rparr>)" for a
    using e2(1) by (simp add: rx_wf_def rlc_simps)
  have "nr_rlc_entity_um_set_time e now = Some (e\<lparr>um_t_current := now\<rparr>) \<or>
    nr_rlc_entity_um_set_time e now = Some ?e2 \<or>
    nr_rlc_entity_um_set_time e now =
      Some (?e2\<lparr>um_t_reassembly_start := um_t_current ?e2, um_rx_timer_trigger := um_rx_next_highest ?e2\<rparr>)"
    using r(1) by (simp add: nr_rlc_entity_um_set_time_def check_t_reassembly_def Let_def)
  then show ?thesis using wf(1) e2 t by (elim disjE) simp_all
qed

text \<open>What the transmitting operations leave as it was.\<close>

definition same_rx :: "nr_rlc_entity_um \<Rightarrow> nr_rlc_entity_um \<Rightarrow> bool" where
  "same_rx e e' \<longleftrightarrow> um_sn_field_length e' = um_sn_field_length e \<and> um_sn_modulus e' = um_sn_modulus e \<and>
     um_window_size e' = um_window_size e \<and> um_rx_next_highest e' = um_rx_next_highest e \<and>
     um_rx_next_reassembly e' = um_rx_next_reassembly e \<and> um_rx_timer_trigger e' = um_rx_timer_trigger e \<and>
     um_rx_list e' = um_rx_list e \<and> um_rx_size e' = um_rx_size e \<and> um_rx_maxsize e' = um_rx_maxsize e"

lemma same_rx_refl: "same_rx e e"
  by (simp add: same_rx_def)

lemma same_rx_wf: "same_rx e e' \<Longrightarrow> rx_wf e \<Longrightarrow> rx_wf e'"
proof -
  assume s: "same_rx e e'" and wf: "rx_wf e"
  have "um_cfg e' = um_cfg e" using s by (simp add: same_rx_def um_cfg_def)
  then show ?thesis using s wf unfolding same_rx_def rx_wf_def by simp
qed

lemma send_segment_same_rx: "um_send_segment e s b = Some (e', pdu) \<Longrightarrow> same_rx e e'"
  by (auto simp: um_send_segment_def Let_def same_rx_def split: if_splits)

lemma generate_pdu_same_rx:
  assumes "nr_rlc_entity_um_generate_pdu e b = Some (e', pdu)"
  shows "same_rx e e'"
proof -
  have send: "um_send_segment e1 s b = Some (e', pdu) \<Longrightarrow> same_rx e e1 \<Longrightarrow> same_rx e e'" for e1 s
    using send_segment_same_rx [of e1 s b e' pdu] by (simp add: same_rx_def)
  have same: "same_rx e (e\<lparr>um_tx_list := l, um_bstatus := c\<rparr>)"
    "same_rx e (um_count_segmentation (e\<lparr>um_tx_list := l, um_bstatus := c\<rparr>))" for l c
    by (simp_all add: same_rx_def um_count_segmentation_def)
  show ?thesis
    using assms unfolding nr_rlc_entity_um_generate_pdu_def Let_def
    by (auto split: list.splits if_splits prod.splits option.splits elim!: send intro: same same_rx_refl)
qed

lemma recv_sdu_same_rx: "nr_rlc_entity_um_recv_sdu e d i = Some e' \<Longrightarrow> same_rx e e'"
  by (auto simp: nr_rlc_entity_um_recv_sdu_def Let_def same_rx_def split: if_splits)

lemma discard_sdu_same_rx: "same_rx e (nr_rlc_entity_um_discard_sdu e i)"
  by (simp add: nr_rlc_entity_um_discard_sdu_def Let_def same_rx_def split: list.split)

lemma new_wf:
  assumes "new_nr_rlc_entity_um rx_max tx_max t n = Some e" and "0 \<le> rx_max"
  shows "rx_wf e"
proof -
  have n: "n = 6 \<or> n = 12" using assms(1) by (simp add: new_nr_rlc_entity_um_def split: if_splits)
  then have "2 * c_div (2 ^ n) 2 = 2 ^ n" by (auto simp: c_div_def)
  then show ?thesis using assms n by (auto simp: new_nr_rlc_entity_um_def rx_wf_def um_cfg_def)
qed

lemma reestablishment_wf: "rx_wf e \<Longrightarrow> 0 \<le> um_rx_maxsize e \<Longrightarrow> rx_wf (nr_rlc_entity_um_reestablishment e)"
  by (auto simp: rx_wf_def um_cfg_def nr_rlc_entity_um_reestablishment_def um_clear_entity_def)

lemma rx_wf_size: "rx_wf e \<Longrightarrow> 0 \<le> um_rx_size e \<and> 0 \<le> um_rx_maxsize e"
proof -
  assume e: "rx_wf e"
  then have "0 \<le> sum_list (map pdu_size (um_rx_list e))" by (intro sum_list_nonneg) (auto simp: rx_wf_def)
  then show ?thesis using e by (auto simp: rx_wf_def)
qed

lemma um_reachable_wf: "um_reachable e \<Longrightarrow> rx_wf e"
proof (induction rule: um_reachable.induct)
  case (recv_pdu e b e')
  then show ?case using recv_pdu_wf [of e b] by auto
next
  case (set_time e now e')
  then show ?case using set_time_wf [of e now] by auto
next
  case (reestablishment e)
  then show ?case using reestablishment_wf rx_wf_size by blast
next
  case (reconfigure e t)
  have "same_rx e (nr_rlc_entity_um_reconfigure e t None)" by (simp add: same_rx_def nr_rlc_entity_um_reconfigure_def)
  then show ?case using reconfigure.IH by (rule same_rx_wf)
qed (auto intro: new_wf same_rx_wf generate_pdu_same_rx recv_sdu_same_rx discard_sdu_same_rx)

text \<open>A grant is always served: no header is longer than its buffer.\<close>

lemma send_segment_total:
  assumes "um_sn_field_length e = 6 \<or> um_sn_field_length e = 12" and "compute_pdu_header_size e s \<le> int (length b)"
    and "compute_pdu_header_size e s + seg_size s \<le> int (length b)"
  shows "\<exists>e' pdu. um_send_segment e s b = Some (e', pdu) \<and> length pdu \<le> length b"
proof -
  let ?e = "if \<not> seg_is_first s \<and> seg_is_last s then e\<lparr>um_tx_next := c_mod (um_tx_next e + 1) (um_sn_modulus e)\<rparr> else e"
  have h: "compute_pdu_header_size ?e s = compute_pdu_header_size e s" "um_sn_field_length ?e = um_sn_field_length e"
    by (simp_all add: compute_pdu_header_size_def)
  obtain hdr where p: "serialize_sdu ?e s b = Some (hdr @ seg_bytes s)" "int (length hdr) = compute_pdu_header_size e s"
    using serialize_sdu_bits [OF _ refl, of ?e s b, unfolded h] assms(1,2) by blast
  have "length (hdr @ seg_bytes s) \<le> length b" using p(2) assms(2,3) by (auto simp: seg_bytes_def min_def)
  then show ?thesis using p(1) by (auto simp: um_send_segment_def Let_def)
qed

lemma generate_pdu_total:
  assumes "um_cfg e"
  shows "\<exists>e' pdu. nr_rlc_entity_um_generate_pdu e b = Some (e', pdu) \<and> length pdu \<le> length b"
proof (cases "um_tx_list e")
  case Nil
  then show ?thesis by (simp add: nr_rlc_entity_um_generate_pdu_def)
next
  case (Cons s rest)
  let ?h = "compute_pdu_header_size e s" and ?l = "int (length b)" and ?s = "s\<lparr>sdu_sn := um_tx_next e\<rparr>"
  let ?h' = "compute_pdu_header_size e (?s\<lparr>seg_is_last := False\<rparr>)"
  have f: "um_sn_field_length e = 6 \<or> um_sn_field_length e = 12" using assms by (simp add: um_cfg_def)
  have u: "compute_pdu_header_size (e\<lparr>um_tx_list := a, um_bstatus := c\<rparr>) x = compute_pdu_header_size e x"
    "compute_pdu_header_size (um_count_segmentation (e\<lparr>um_tx_list := a, um_bstatus := c\<rparr>)) x = compute_pdu_header_size e x"
    "compute_pdu_header_size e (y\<lparr>sdu_sn := n\<rparr>) = compute_pdu_header_size e y"
    "compute_pdu_header_size e (y\<lparr>seg_size := z\<rparr>) = compute_pdu_header_size e y"
    "um_sn_field_length (um_count_segmentation e) = um_sn_field_length e"
    for a c x y z n e by (simp_all add: compute_pdu_header_size_def um_count_segmentation_def)
  consider "?h + 1 > ?l" | "?h + 1 \<le> ?l" "?h + seg_size s \<le> ?l" | "?h + 1 \<le> ?l" "?h + seg_size s > ?l" "?h' + 1 > ?l"
    | "?h + 1 \<le> ?l" "?h + seg_size s > ?l" "?h' + 1 \<le> ?l" by linarith
  then show ?thesis
  proof cases
    case 2
    then have "nr_rlc_entity_um_generate_pdu e b = um_send_segment (e\<lparr>um_tx_list := rest, um_bstatus := um_bstatus e - (?h + seg_size s)\<rparr>) ?s b"
      using Cons by (simp add: nr_rlc_entity_um_generate_pdu_def Let_def)
    then show ?thesis using send_segment_total [of "e\<lparr>um_tx_list := rest, um_bstatus := um_bstatus e - (?h + seg_size s)\<rparr>" ?s b] 2 f
      by (simp add: u)
  next
    case 4
    let ?over = "?h' + seg_size s - ?l"
    let ?sg = "?s\<lparr>seg_size := seg_size s - ?over, seg_is_last := False\<rparr>"
    have "\<exists>e1. nr_rlc_entity_um_generate_pdu e b = um_send_segment e1 ?sg b \<and> um_sn_field_length e1 = um_sn_field_length e"
      using Cons 4 by (auto simp: nr_rlc_entity_um_generate_pdu_def Let_def resegment_def u(1) um_count_segmentation_def)
    then obtain e1 where e1: "nr_rlc_entity_um_generate_pdu e b = um_send_segment e1 ?sg b" "um_sn_field_length e1 = um_sn_field_length e"
      by blast
    have "compute_pdu_header_size e1 ?sg = ?h'" using e1(2) by (simp add: compute_pdu_header_size_def)
    then show ?thesis using send_segment_total [of e1 ?sg b] 4 f e1 by simp
  qed (use Cons in \<open>simp_all add: nr_rlc_entity_um_generate_pdu_def Let_def resegment_def u(1)\<close>)
qed

end
