(* ===== verification/Rlc_Properties.thy ===== *)
theory Rlc_Properties
  imports Rlc_Um_Transfer Rlc_Um_Robust
begin

text \<open>
  The properties of the RLC entities in unacknowledged and transparent mode, with their witnesses
  on a small scenario.
\<close>

section \<open>Scenario\<close>

definition demo_tx :: nr_rlc_entity_um where
  "demo_tx = the (new_nr_rlc_entity_um 100000 100000 100 12)"

definition demo_events :: "rlc_event list" where
  "demo_events = [Sdu_arrival 1 [1, 2, 3, 4, 5, 6, 7, 8], Tx_grant (replicate 6 0), Clock 5, Sdu_arrival 2 [9],
     Tx_grant (replicate 1 0), Tx_grant (replicate 20 0)]"

lemma demo_new: "new_nr_rlc_entity_um 100000 100000 100 12 = Some demo_tx"
  by (simp add: demo_tx_def new_nr_rlc_entity_um_def)

text \<open>
  The events the link theorems allow: data units of 1 to 16000 bytes, and any grant but one of two
  bytes when sequence numbers have 12 bits. The scheduler can give such a grant (two bytes behind the MAC
  subheader are enough for it), and the entity then loses a data unit, as the last theorem on unacknowledged
  mode about the head of the queue shows.
\<close>

definition um_event_ok :: "nat \<Rightarrow> rlc_event \<Rightarrow> bool" where
  "um_event_ok n ev = (case ev of Sdu_arrival i d \<Rightarrow> sdu_size_ok d | Tx_grant b \<Rightarrow> n = 6 \<or> length b \<noteq> 2 | Clock t \<Rightarrow> True)"

lemma demo_events_ok: "\<forall>ev \<in> set demo_events. um_event_ok 12 ev"
  by (simp add: demo_events_def um_event_ok_def sdu_size_ok_def NR_SDU_MAX_def)

lemma um_event_ok_link: "um_link.event_ok n ev = um_event_ok n ev"
  by (simp add: um_link.event_ok_def um_event_ok_def)

section \<open>Unacknowledged mode\<close>

text \<open>
  C7: over a link that loses nothing, whatever the order of data units (of 1 to 16000 bytes), grants (but
  of two bytes when sequence numbers have 12 bits) and clock ticks, two entities of the same configuration never stop, and the data units delivered so far
  followed by those still queued are exactly the accepted ones, in order: no data unit is lost,
  duplicated, reordered or changed by segmentation and reassembly.
\<close>

theorem um_in_order_delivery:
  assumes "new_nr_rlc_entity_um a1 b1 c1 n = Some tx" and "new_nr_rlc_entity_um a2 b2 c2 n = Some rx"
    and "NR_SDU_MAX \<le> a2" and "\<forall>ev \<in> set evs. um_event_ok n ev"
  shows "\<exists>tx' rx' acc. link_run um_ops (tx, rx) evs = Some ((tx', rx'), acc) \<and>
    um_delivered rx' @ map sdu_data (um_tx_list tx') = acc"
proof -
  have "um_delivered rx = []" "um_tx_list tx = []"
    using assms(1,2) by (auto simp: new_nr_rlc_entity_um_def split: if_splits)
  then show ?thesis
    using um_link.run_safe [OF um_linked_new [OF assms(1-3)], of evs] assms(4) by (fastforce simp: um_event_ok_link)
qed

theorem um_in_order_delivery_witness:
  "\<exists>tx' rx' acc. link_run um_ops (demo_tx, demo_tx) demo_events = Some ((tx', rx'), acc) \<and>
     um_delivered rx' @ map sdu_data (um_tx_list tx') = acc"
  using um_in_order_delivery [OF demo_new demo_new _ demo_events_ok] by (simp add: NR_SDU_MAX_def)

text \<open>
  Progress. After any such run, as many grants of at least five bytes as there are queued bytes
  deliver every accepted data unit and empty the queue.
\<close>

theorem um_grants_drain:
  assumes "new_nr_rlc_entity_um a1 b1 c1 n = Some tx" and "new_nr_rlc_entity_um a2 b2 c2 n = Some rx"
    and "NR_SDU_MAX \<le> a2" and "\<forall>ev \<in> set evs. um_event_ok n ev"
    and "link_run um_ops (tx, rx) evs = Some ((tx1, rx1), acc)"
    and "\<forall>b \<in> set bs. 5 \<le> length b" and "um_tx_size tx1 \<le> int (length bs)"
  shows "\<exists>tx2 rx2. link_run um_ops (tx1, rx1) (map Tx_grant bs) = Some ((tx2, rx2), []) \<and>
    um_delivered rx2 = acc \<and> um_tx_list tx2 = []"
proof -
  have e: "um_delivered rx = []" "um_tx_list tx = []"
    using assms(1,2) by (auto simp: new_nr_rlc_entity_um_def split: if_splits)
  have r: "um_linked n tx1 rx1" "um_delivered rx1 @ map sdu_data (um_tx_list tx1) = acc"
    using um_link.run_safe [OF um_linked_new [OF assms(1-3)], of evs] assms(4,5) e by (fastforce simp: um_event_ok_link)+
  have "\<And>b. b \<in> set bs \<Longrightarrow> (n = 6 \<or> length b \<noteq> 2) \<and> 5 \<le> length b" using assms(6) by fastforce
  from um_link.run_drain [OF r(1) this] assms(7) show ?thesis using r(2) by fastforce
qed

lemma demo_run:
  "link_run um_ops (demo_tx, demo_tx) [Sdu_arrival 1 [1, 2]] = Some ((the (nr_rlc_entity_um_recv_sdu demo_tx [1, 2] 1), demo_tx), [[1, 2]])"
  "um_tx_size (the (nr_rlc_entity_um_recv_sdu demo_tx [1, 2] 1)) = 2"
  by (simp_all add: link_step_def um_ops_def newly_accepted_def nr_rlc_entity_um_available_tx_space_def demo_tx_def
      new_nr_rlc_entity_um_def nr_rlc_entity_um_recv_sdu_def NR_SDU_MAX_def nr_rlc_new_sdu_def Let_def)

theorem um_grants_drain_witness:
  "\<exists>tx2 rx2. link_run um_ops (the (nr_rlc_entity_um_recv_sdu demo_tx [1, 2] 1), demo_tx) (map Tx_grant (replicate 2 (replicate 5 0))) =
      Some ((tx2, rx2), []) \<and> um_delivered rx2 = [[1, 2]] \<and> um_tx_list tx2 = []"
  using um_grants_drain [OF demo_new demo_new _ _ demo_run(1), of "replicate 2 (replicate 5 0)"] demo_run(2)
  by (simp add: NR_SDU_MAX_def um_event_ok_def sdu_size_ok_def)

text \<open>
  C21: During every run of two entities of the same configuration over a link that loses nothing (data units of 1 to 16000
  bytes, no grant of two bytes when sequence numbers have 12 bits) the buffer status reported to the scheduler is exactly the number of bytes
  needed to send every queued data unit with its header, and the space left is the
  configured maximum less the queued bytes.
\<close>

theorem um_buffer_status_exact:
  assumes "new_nr_rlc_entity_um a1 b1 c1 n = Some tx" and "new_nr_rlc_entity_um a2 b2 c2 n = Some rx"
    and "NR_SDU_MAX \<le> a2" and "\<forall>ev \<in> set evs. um_event_ok n ev"
    and "link_run um_ops (tx, rx) evs = Some ((tx1, rx1), acc)"
  shows "nr_rlc_entity_um_buffer_status tx1 =
      (0, sum_list (map (\<lambda>s. compute_pdu_header_size tx1 s + seg_size s) (um_tx_list tx1)), 0) \<and>
    nr_rlc_entity_um_available_tx_space tx1 = um_tx_maxsize tx1 - sum_list (map seg_size (um_tx_list tx1))"
proof -
  have "um_linked n tx1 rx1"
    using um_link.run_safe [OF um_linked_new [OF assms(1-3)], of evs] assms(4,5) by (fastforce simp: um_event_ok_link)
  then show ?thesis
    by (simp add: um_linked_def tx_state_def nr_rlc_entity_um_buffer_status_def nr_rlc_entity_um_available_tx_space_def)
qed

text \<open>In the scenario, after the second grant, which has no room for a byte of data, a segment and a second data unit are queued.\<close>

theorem um_buffer_status_exact_witness:
  "\<exists>tx1 rx1. link_run um_ops (demo_tx, demo_tx) (take 5 demo_events) = Some ((tx1, rx1), [[1, 2, 3, 4, 5, 6, 7, 8], [9]]) \<and>
     map seg_size (um_tx_list tx1) = [4, 1] \<and> nr_rlc_entity_um_buffer_status tx1 = (0, 10, 0) \<and>
     nr_rlc_entity_um_available_tx_space tx1 = 99995"
proof -
  have r: "map_option (\<lambda>((tx1, rx1), acc). (acc, map seg_size (um_tx_list tx1), map (compute_pdu_header_size tx1) (um_tx_list tx1), um_tx_maxsize tx1))
      (link_run um_ops (demo_tx, demo_tx) (take 5 demo_events)) = Some ([[1, 2, 3, 4, 5, 6, 7, 8], [9]], [4, 1], [4, 1], 100000)" by code_simp
  obtain tx1 rx1 acc where l: "link_run um_ops (demo_tx, demo_tx) (take 5 demo_events) = Some ((tx1, rx1), acc)"
    using r by (cases "link_run um_ops (demo_tx, demo_tx) (take 5 demo_events)") auto
  have f: "acc = [[1, 2, 3, 4, 5, 6, 7, 8], [9]]" "map seg_size (um_tx_list tx1) = [4, 1]"
    "map (compute_pdu_header_size tx1) (um_tx_list tx1) = [4, 1]" "um_tx_maxsize tx1 = 100000"
    using r unfolding l option.map prod.case option.inject prod.inject by blast+
  have "\<forall>ev \<in> set (take 5 demo_events). um_event_ok 12 ev" using demo_events_ok by (meson in_set_takeD)
  from um_buffer_status_exact [OF demo_new demo_new _ this l]
  have "nr_rlc_entity_um_buffer_status tx1 = (0, 10, 0)" "nr_rlc_entity_um_available_tx_space tx1 = 99995"
    by (simp_all add: NR_SDU_MAX_def sum_list_addf f)
  then show ?thesis using l f(1,2) by (intro exI [of _ tx1] exI [of _ rx1] conjI) simp_all
qed

text \<open>
  C11: an entity in any reachable state (any calls but a change of the length of sequence numbers), with any bytes
  received before, handles every received PDU,
  every grant and every clock tick: no fatal exit and no endless loop over delivered sequence
  numbers. A generated PDU fits its buffer.
\<close>

theorem um_never_stuck:
  assumes "um_reachable e"
  shows "(\<exists>e'. nr_rlc_entity_um_recv_pdu e b = Some e') \<and> (\<exists>e'. nr_rlc_entity_um_set_time e now = Some e') \<and>
    (\<exists>e' pdu. nr_rlc_entity_um_generate_pdu e b = Some (e', pdu) \<and> length pdu \<le> length b)"
  using um_reachable_wf [OF assms] recv_pdu_wf [of e b] set_time_wf [of e now] generate_pdu_total [of e b]
  by (auto simp: rx_wf_def)

lemma demo_reachable: "um_reachable demo_tx"
  using um_reachable.new [OF demo_new] by simp

theorem um_never_stuck_witness:
  "(\<exists>e'. nr_rlc_entity_um_recv_pdu demo_tx [255, 255, 1] = Some e') \<and> (\<exists>e'. nr_rlc_entity_um_set_time demo_tx 7 = Some e') \<and>
    (\<exists>e' pdu. nr_rlc_entity_um_generate_pdu demo_tx [255, 255, 1] = Some (e', pdu) \<and> length pdu \<le> length [255 :: u8, 255, 1])"
  by (rule um_never_stuck [OF demo_reachable])

text \<open>
  In every reachable state the bytes held in the reception list stay within the configured
  maximum, all held sequence numbers lie in the half of the number space below the upper edge of
  the window, and the list is sorted by their position in it.
\<close>

theorem um_reception_bounded:
  assumes "um_reachable e"
  shows "sum_list (map pdu_size (um_rx_list e)) \<le> um_rx_maxsize e \<and>
    (\<forall>p \<in> set (um_rx_list e). modulus_rx e (pdu_sn p) < um_window_size e) \<and>
    sorted (map (\<lambda>p. modulus_rx e (pdu_sn p)) (um_rx_list e))"
proof -
  have wf: "rx_wf e" by (rule um_reachable_wf [OF assms])
  then have m: "modulus_rx e (pdu_sn p) = rx_pos e p" if "p \<in> set (um_rx_list e)" for p
    using modulus_rx_at [of e, OF _ refl] that by (auto simp: rx_wf_def)
  then have eq: "map (\<lambda>p. modulus_rx e (pdu_sn p)) (um_rx_list e) = map (rx_pos e) (um_rx_list e)" by simp
  show ?thesis unfolding eq using wf m by (auto simp: rx_wf_def)
qed

theorem um_reception_bounded_witness:
  "sum_list (map pdu_size (um_rx_list demo_tx)) \<le> um_rx_maxsize demo_tx"
  using um_reception_bounded [OF demo_reachable] by simp

text \<open>
  Round trip of a segment through its header. A segment the transmitter may send, serialized with
  either length of sequence numbers, is decoded by the receiver to the same flags, sequence number
  and offset, and the data after the header are the bytes of the segment.
\<close>

theorem um_segment_roundtrip:
  assumes "seg_ok n s" and "um_sn_field_length e = n" and "compute_pdu_header_size e s \<le> int (length buffer)"
  shows "\<exists>pdu. serialize_sdu e s buffer = Some pdu \<and>
    um_decode_header n pdu =
      Some (if seg_is_first s \<and> seg_is_last s then Um_complete
            else Um_segment (seg_is_first s) (seg_is_last s) (sdu_sn s) (seg_so s) (nat (compute_pdu_header_size e s))) \<and>
    drop (nat (compute_pdu_header_size e s)) pdu = take (nat (seg_size s)) (drop (nat (seg_so s)) (sdu_data s))"
  using serialize_decode [OF assms] by (metis seg_bytes_def)

definition demo_segment :: nr_rlc_sdu_segment where
  "demo_segment = \<lparr>upper_layer_id = 0, sdu_sn = 300, sdu_data = [1, 2, 3, 4], seg_size = 2, seg_so = 1,
     seg_is_first = False, seg_is_last = False\<rparr>"

theorem um_segment_roundtrip_witness:
  "\<exists>pdu. serialize_sdu demo_tx demo_segment (replicate 10 0) = Some pdu \<and>
     um_decode_header 12 pdu = Some (Um_segment False False 300 1 4) \<and> drop 4 pdu = [2, 3]"
  using um_segment_roundtrip [of 12 demo_segment demo_tx "replicate 10 0"]
  by (simp add: seg_ok_def demo_segment_def demo_tx_def new_nr_rlc_entity_um_def compute_pdu_header_size_def)

text \<open>
  C35: a grant of two bytes loses a data unit. With sequence numbers of 12 bits, when the head of the
  queue is an unsegmented data unit of at least two bytes, the entity takes it from the queue and
  from the buffer status, sends nothing, and keeps its size in the count of queued bytes.
\<close>

theorem um_two_byte_grant_loses_sdu:
  assumes "um_sn_field_length e = 12" and "um_tx_list e = s # rest" and "seg_is_first s" and "seg_is_last s"
    and "2 \<le> seg_size s" and "length b = 2"
  shows "nr_rlc_entity_um_generate_pdu e b =
    Some (e\<lparr>um_tx_list := rest, um_bstatus := um_bstatus e - (1 + seg_size s)\<rparr>, [])"
  using assms by (simp add: nr_rlc_entity_um_generate_pdu_def Let_def resegment_def compute_pdu_header_size_def)

theorem um_two_byte_grant_loses_sdu_witness:
  "nr_rlc_entity_um_generate_pdu (demo_tx\<lparr>um_tx_list := [nr_rlc_new_sdu [1, 2, 3] 7], um_tx_size := 3, um_bstatus := 4\<rparr>) [0, 0] =
    Some (demo_tx\<lparr>um_tx_list := [], um_tx_size := 3, um_bstatus := 0\<rparr>, [])"
  using um_two_byte_grant_loses_sdu [of "demo_tx\<lparr>um_tx_list := [nr_rlc_new_sdu [1, 2, 3] 7], um_tx_size := 3, um_bstatus := 4\<rparr>"
      "nr_rlc_new_sdu [1, 2, 3] 7" "[]" "[0, 0]"]
  by (simp add: nr_rlc_new_sdu_def demo_tx_def new_nr_rlc_entity_um_def)

text \<open>
  Discarding a queued data unit gives no space back: it leaves the queue and the buffer status,
  but the count of queued bytes that \<^verbatim>\<open>recv_sdu\<close> compares with the maximum is unchanged.
\<close>

theorem um_discard_keeps_tx_size:
  assumes "um_tx_list e = before @ s # rest" and "\<forall>x \<in> set before. upper_layer_id x \<noteq> i" and "upper_layer_id s = i"
    and "seg_is_first s" and "seg_is_last s"
  shows "um_tx_list (nr_rlc_entity_um_discard_sdu e i) = before @ rest \<and>
    um_bstatus (nr_rlc_entity_um_discard_sdu e i) = um_bstatus e - (1 + seg_size s) \<and>
    nr_rlc_entity_um_available_tx_space (nr_rlc_entity_um_discard_sdu e i) = nr_rlc_entity_um_available_tx_space e"
proof -
  have "takeWhile (\<lambda>x. upper_layer_id x \<noteq> i) (um_tx_list e) = before"
    "dropWhile (\<lambda>x. upper_layer_id x \<noteq> i) (um_tx_list e) = s # rest"
    using assms(1-3) by (simp_all add: takeWhile_append2 dropWhile_append2)
  then show ?thesis using assms(4,5)
    by (simp add: nr_rlc_entity_um_discard_sdu_def nr_rlc_entity_um_available_tx_space_def compute_pdu_header_size_def)
qed

theorem um_discard_keeps_tx_size_witness:
  "um_tx_list (nr_rlc_entity_um_discard_sdu (demo_tx\<lparr>um_tx_list := [nr_rlc_new_sdu [1, 2, 3] 7], um_tx_size := 3\<rparr>) 7) = []"
  using um_discard_keeps_tx_size [of "demo_tx\<lparr>um_tx_list := [nr_rlc_new_sdu [1, 2, 3] 7], um_tx_size := 3\<rparr>" "[]"
      "nr_rlc_new_sdu [1, 2, 3] 7" "[]" 7]
  by (simp add: nr_rlc_new_sdu_def)

text \<open>
  The reassembly timer gives no space back: whatever segments its expiry discards, the count of
  received bytes that limits reception is unchanged.
\<close>

theorem um_timer_keeps_rx_size:
  assumes "um_reachable e" and "nr_rlc_entity_um_set_time e now = Some e'"
  shows "um_rx_size e' = um_rx_size e"
  using set_time_wf [OF um_reachable_wf [OF assms(1)], of now] assms(2) by auto

theorem um_timer_keeps_rx_size_witness:
  "um_rx_size (the (nr_rlc_entity_um_set_time demo_tx 7)) = um_rx_size demo_tx"
proof -
  have "nr_rlc_entity_um_set_time demo_tx 7 = Some (the (nr_rlc_entity_um_set_time demo_tx 7))"
    by (simp add: nr_rlc_entity_um_set_time_def check_t_reassembly_def demo_tx_def new_nr_rlc_entity_um_def)
  then show ?thesis by (rule um_timer_keeps_rx_size [OF demo_reachable])
qed

section \<open>Transparent mode\<close>

text \<open>
  In transparent mode, too, the delivered data units followed by the queued ones are the accepted
  ones in order, for any order of events with data units of 1 to 16000 bytes.
\<close>

theorem tm_in_order_delivery:
  assumes "\<forall>ev \<in> set evs. case ev of Sdu_arrival i d \<Rightarrow> sdu_size_ok d | _ \<Rightarrow> True"
  shows "\<exists>tx' rx' acc. link_run tm_ops (new_nr_rlc_entity_tm a, new_nr_rlc_entity_tm b) evs = Some ((tx', rx'), acc) \<and>
    tm_delivered rx' @ map sdu_data (tm_tx_list tx') = acc \<and>
    nr_rlc_entity_tm_buffer_status tx' = (0, sum_list (map seg_size (tm_tx_list tx')), 0)"
proof -
  have l: "tm_linked (new_nr_rlc_entity_tm a) (new_nr_rlc_entity_tm b)"
    by (simp add: tm_linked_def new_nr_rlc_entity_tm_def)
  have ok: "\<And>ev. ev \<in> set evs \<Longrightarrow> tm_link.event_ok ev"
    using assms by (auto simp: tm_link.event_ok_def split: rlc_event.splits)
  obtain tx' rx' acc where "link_run tm_ops (new_nr_rlc_entity_tm a, new_nr_rlc_entity_tm b) evs = Some ((tx', rx'), acc)"
    "tm_linked tx' rx'" "tm_delivered rx' @ map sdu_data (tm_tx_list tx') = acc"
    using tm_link.run_safe [OF l, of evs] ok by (auto simp: new_nr_rlc_entity_tm_def)
  then show ?thesis by (auto simp: tm_linked_def nr_rlc_entity_tm_buffer_status_def)
qed

theorem tm_in_order_delivery_witness:
  "\<exists>tx' rx' acc. link_run tm_ops (new_nr_rlc_entity_tm 1000, new_nr_rlc_entity_tm 1000) demo_events = Some ((tx', rx'), acc) \<and>
     tm_delivered rx' @ map sdu_data (tm_tx_list tx') = acc \<and>
     nr_rlc_entity_tm_buffer_status tx' = (0, sum_list (map seg_size (tm_tx_list tx')), 0)"
  by (rule tm_in_order_delivery) (simp add: demo_events_def sdu_size_ok_def NR_SDU_MAX_def)

end
