(* ===== verification/Snow3g.thy ===== *)
theory Snow3g
  imports Snow3g_Tables
begin

unbundle bit_operations_syntax

text \<open>
  The stream cipher SNOW 3G (\<^verbatim>\<open>openair3/SECU/snow3g.c\<close>): the keystream generator with its
  register of twice the needed size, the confidentiality function and the integrity function with
  its precomputed multiplication table. An access outside of the message is the result \<open>None\<close>.
\<close>

section \<open>State\<close>

text \<open>\<open>snow_s\<close> is the array \<^verbatim>\<open>_s\<close> of 32 words, \<open>snow_p\<close> the offset of the pointer \<^verbatim>\<open>s\<close> in it.\<close>

record snow3g_t =
  snow_s :: "u32 list"
  snow_p :: nat
  snow_r1 :: u32
  snow_r2 :: u32
  snow_r3 :: u32

definition snow_at :: "snow3g_t \<Rightarrow> nat \<Rightarrow> u32" where
  "snow_at s i = snow_s s ! (snow_p s + i)"

definition byte_of :: "nat \<Rightarrow> u32 \<Rightarrow> u32" where
  "byte_of k w = drop_bit (8 * k) w AND 0xff"

definition s1 :: "u32 \<Rightarrow> u32" where
  "s1 w = s1_t0 ! unat (byte_of 0 w) XOR s1_t1 ! unat (byte_of 1 w) XOR s1_t2 ! unat (byte_of 2 w) XOR s1_t3 ! unat (byte_of 3 w)"

definition s2 :: "u32 \<Rightarrow> u32" where
  "s2 w = s2_t0 ! unat (byte_of 0 w) XOR s2_t1 ! unat (byte_of 1 w) XOR s2_t2 ! unat (byte_of 2 w) XOR s2_t3 ! unat (byte_of 3 w)"

definition MULa :: "u32 \<Rightarrow> u32" where
  "MULa c = mula ! unat c"

definition DIVa :: "u32 \<Rightarrow> u32" where
  "DIVa c = diva ! unat c"

text \<open>The new word of the shift register, from its words 0, 2 and 11.\<close>

definition lfsr_value :: "u32 \<Rightarrow> u32 \<Rightarrow> u32 \<Rightarrow> u32" where
  "lfsr_value a0 a2 a11 =
     (let v0 = push_bit 24 (byte_of 2 a0) OR push_bit 16 (byte_of 1 a0) OR push_bit 8 (byte_of 0 a0);
          v11 = push_bit 16 (byte_of 3 a11) OR push_bit 8 (byte_of 2 a11) OR byte_of 1 a11
      in v0 XOR MULa (byte_of 3 a0) XOR a2 XOR v11 XOR DIVa (byte_of 0 a11))"

definition lfsr_push :: "snow3g_t \<Rightarrow> u32 \<Rightarrow> snow3g_t" where
  "lfsr_push s v =
     (let p = snow_p s; xs = (snow_s s)[p := v, p + 16 := v]
      in s\<lparr>snow_s := xs, snow_p := (if p + 1 = 16 then 0 else p + 1)\<rparr>)"

definition lfsr_init :: "snow3g_t \<Rightarrow> u32 \<Rightarrow> snow3g_t" where
  "lfsr_init s f = lfsr_push s (lfsr_value (snow_at s 0) (snow_at s 2) (snow_at s 11) XOR f)"

definition lfsr_keystream :: "snow3g_t \<Rightarrow> snow3g_t" where
  "lfsr_keystream s = lfsr_push s (lfsr_value (snow_at s 0) (snow_at s 2) (snow_at s 11))"

definition clock_fsm :: "snow3g_t \<Rightarrow> u32 \<times> snow3g_t" where
  "clock_fsm s =
     (let f = (snow_at s 15 + snow_r1 s) XOR snow_r2 s;
          r = snow_r2 s + (snow_r3 s XOR snow_at s 5)
      in (f, s\<lparr>snow_r3 := s2 (snow_r2 s), snow_r2 := s1 (snow_r1 s), snow_r1 := r\<rparr>))"

definition GET32 :: "u8 list \<Rightarrow> nat \<Rightarrow> u32" where
  "GET32 b i =
     push_bit 24 (ucast (b ! i)) OR push_bit 16 (ucast (b ! (i + 1))) OR push_bit 8 (ucast (b ! (i + 2))) OR ucast (b ! (i + 3))"

fun init_rounds :: "nat \<Rightarrow> snow3g_t \<Rightarrow> snow3g_t" where
  "init_rounds 0 s = s"
| "init_rounds (Suc n) s = (let (f, s') = clock_fsm s in init_rounds n (lfsr_init s' f))"

definition initial_register :: "u8 list \<Rightarrow> u8 list \<Rightarrow> u32 list" where
  "initial_register key iv_bytes =
     (let k = (\<lambda>i. GET32 key (4 * i)); iv = (\<lambda>i. GET32 iv_bytes (4 * i)); ones = 0xffffffff
      in [k 0 XOR ones, k 1 XOR ones, k 2 XOR ones, k 3 XOR ones, k 0, k 1, k 2, k 3, k 0 XOR ones,
          k 1 XOR ones XOR iv 3, k 2 XOR ones XOR iv 2, k 3 XOR ones, k 0 XOR iv 1, k 1, k 2, k 3 XOR iv 0])"

text \<open>\<open>junk\<close> is the contents of the upper half of the array, which is not initialised.\<close>

definition snow3g_init :: "u32 list \<Rightarrow> u8 list \<Rightarrow> u8 list \<Rightarrow> snow3g_t" where
  "snow3g_init junk key iv =
     (let s = \<lparr>snow_s = initial_register key iv @ junk, snow_p = 0, snow_r1 = 0, snow_r2 = 0, snow_r3 = 0\<rparr>;
          s = init_rounds 32 s
      in lfsr_keystream (snd (clock_fsm s)))"

definition generate_keystream_step :: "snow3g_t \<Rightarrow> u32 \<times> snow3g_t" where
  "generate_keystream_step s = (let (f, s') = clock_fsm s in (f XOR snow_at s' 0, lfsr_keystream s'))"

fun generate_keystream :: "nat \<Rightarrow> snow3g_t \<Rightarrow> u32 list" where
  "generate_keystream 0 s = []"
| "generate_keystream (Suc n) s = (let (w, s') = generate_keystream_step s in w # generate_keystream n s')"

section \<open>Confidentiality\<close>

definition be_bytes :: "u32 \<Rightarrow> u8 list" where
  "be_bytes w = [ucast (byte_of 3 w), ucast (byte_of 2 w), ucast (byte_of 1 w), ucast (byte_of 0 w)]"

definition snow_key :: "u8 list \<Rightarrow> u8 list" where
  "snow_key key = take 4 (drop 12 key) @ take 4 (drop 8 key) @ take 4 (drop 4 key) @ take 4 key"

definition cipher_iv :: "u32 \<Rightarrow> int \<Rightarrow> int \<Rightarrow> u8 list" where
  "cipher_iv count bearer direction =
     (let b = word_of_int (push_bit 3 bearer OR push_bit 2 direction)
      in [b, 0, 0, 0] @ be_bytes count @ [b, 0, 0, 0] @ be_bytes count)"

definition snow3g_ciphering :: "u32 list \<Rightarrow> u32 \<Rightarrow> int \<Rightarrow> int \<Rightarrow> u8 list \<Rightarrow> u8 list \<Rightarrow> u8 list" where
  "snow3g_ciphering junk count bearer direction key msg =
     (let s = snow3g_init junk (snow_key key) (cipher_iv count bearer direction);
          keystream = concat (map be_bytes (generate_keystream ((length msg + 3) div 4) s))
      in map2 (XOR) msg keystream)"

section \<open>Integrity\<close>

text \<open>The first \<open>available_bytes\<close> bytes at \<open>i\<close>, at most 8, as the upper bytes of a 64 bit word.\<close>

definition GET64 :: "u8 list \<Rightarrow> nat \<Rightarrow> nat \<Rightarrow> u64" where
  "GET64 b i available_bytes =
     foldl (\<lambda>v k. v OR push_bit (56 - 8 * k) (ucast (b ! (i + k)))) 0 [0..<available_bytes]"

definition MULx64 :: "u64 \<Rightarrow> u64 \<Rightarrow> u64" where
  "MULx64 v c = (if v AND push_bit 63 1 \<noteq> 0 then push_bit 1 v XOR c else push_bit 1 v)"

fun MULxPOW64 :: "u64 \<Rightarrow> nat \<Rightarrow> u64 \<Rightarrow> u64" where
  "MULxPOW64 v 0 c = v"
| "MULxPOW64 v (Suc i) c = MULx64 (MULxPOW64 v i c) c"

definition MUL64 :: "u64 \<Rightarrow> u64 \<Rightarrow> u64 \<Rightarrow> u64" where
  "MUL64 v p c = foldl (\<lambda>result i. if drop_bit i p AND 1 \<noteq> 0 then result XOR MULxPOW64 v i c else result) 0 [0..<64]"

text \<open>The table \<^verbatim>\<open>pm\<close>: first the entries for single bits, then the sums in every row.\<close>

definition pm_bits :: "u64 \<Rightarrow> nat \<Rightarrow> nat \<Rightarrow> u64" where
  "pm_bits p =
     foldl (\<lambda>pm i. let prev = pm ((i - 1) div 8) (2 ^ ((i - 1) mod 8));
                       v = push_bit 1 prev;
                       v = (if prev AND 0x8000000000000000 \<noteq> 0 then v XOR 0x1b else v)
                   in pm(i div 8 := (pm (i div 8))(2 ^ (i mod 8) := v)))
       ((\<lambda>_ _. 0)(0 := (\<lambda>_. 0)(1 := p))) [1..<64]"

definition pm_row :: "(nat \<Rightarrow> u64) \<Rightarrow> nat \<Rightarrow> u64" where
  "pm_row row = foldl (\<lambda>row j. foldl (\<lambda>row k. row(2 ^ j + k := row (2 ^ j) XOR row k)) row [1..<2 ^ j]) row [1..<8]"

definition pm_table :: "u64 \<Rightarrow> nat \<Rightarrow> nat \<Rightarrow> u64" where
  "pm_table p = (\<lambda>i. pm_row (pm_bits p i))"

definition mul_p :: "(nat \<Rightarrow> nat \<Rightarrow> u64) \<Rightarrow> u64 \<Rightarrow> u64" where
  "mul_p pm x =
     (let b = (\<lambda>k. unat (drop_bit (8 * k) x AND 255))
      in pm 0 (b 0) XOR pm 1 (b 1) XOR pm 2 (b 2) XOR pm 3 (b 3) XOR pm 4 (b 4) XOR pm 5 (b 5) XOR pm 6 (b 6) XOR pm 7 (b 7))"

definition integrity_iv :: "u32 \<Rightarrow> u32 \<Rightarrow> int \<Rightarrow> u8 list" where
  "integrity_iv count fresh direction =
     (let c = be_bytes count; f = be_bytes fresh; d = word_of_int (push_bit 7 (direction AND 1))
      in [f ! 0, f ! 1, f ! 2 XOR d, f ! 3] @ [c ! 0 XOR d, c ! 1, c ! 2, c ! 3] @ f @ c)"

text \<open>
  \<open>None\<close>: for an empty message, the last block is read at the offset \<open>-8\<close> of the message.
\<close>

definition snow3g_integrity_fresh :: "u32 list \<Rightarrow> u32 \<Rightarrow> u32 \<Rightarrow> int \<Rightarrow> u8 list \<Rightarrow> u8 list \<Rightarrow> u8 list option" where
  "snow3g_integrity_fresh junk count fresh direction key msg =
     (let s = snow3g_init junk (snow_key key) (integrity_iv count fresh direction);
          z = generate_keystream 5 s;
          d = (length msg * 8 + 63) div 64 + 1;
          p = push_bit 32 (ucast (z ! 0)) OR ucast (z ! 1);
          q = push_bit 32 (ucast (z ! 2)) OR ucast (z ! 3);
          pm = pm_table p;
          eval = foldl (\<lambda>eval i. mul_p pm (eval XOR GET64 msg (i * 8) 8)) 0 [0..<d - 2]
      in if d < 2 then None
         else let m = GET64 msg ((d - 2) * 8) (min 8 (length msg - (d - 2) * 8));
                  eval = mul_p pm (eval XOR m);
                  eval = eval XOR of_nat (length msg * 8);
                  eval = MUL64 eval q 0x1b;
                  eval = drop_bit 32 eval XOR ucast (z ! 4)
              in Some (be_bytes (ucast eval)))"

definition snow3g_integrity :: "u32 list \<Rightarrow> u32 \<Rightarrow> int \<Rightarrow> int \<Rightarrow> u8 list \<Rightarrow> u8 list \<Rightarrow> u8 list option" where
  "snow3g_integrity junk count bearer direction key msg =
     snow3g_integrity_fresh junk count (push_bit 27 (word_of_int bearer)) direction key msg"

end
