(* ===== verification/Pdcp.thy ===== *)
theory Pdcp
  imports Snow3g
begin

text \<open>
  The PDCP entity of 5G NR (\<^verbatim>\<open>openair2/LAYER2/nr_pdcp/nr_pdcp_entity.c\<close>, \<^verbatim>\<open>nr_pdcp_sdu.c\<close>) with its
  security functions (\<^verbatim>\<open>nr_pdcp_security_nea1.c\<close>, \<^verbatim>\<open>nr_pdcp_security_nea2.c\<close>,
  \<^verbatim>\<open>nr_pdcp_integrity_nia1.c\<close>, \<^verbatim>\<open>nr_pdcp_integrity_nia2.c\<close>). NEA1 and NIA1 are SNOW 3G; the AES
  functions of OpenSSL behind NEA2 and NIA2 (\<^verbatim>\<open>aes_128_ctr.c\<close>, \<^verbatim>\<open>aes_128_cbc_cmac.c\<close>) are parameters. Calls of \<^verbatim>\<open>deliver_sdu\<close> are recorded in
  the field \<open>pdcp_delivered\<close>. The result \<open>None\<close> is a failed assertion, \<^verbatim>\<open>exit(1)\<close> or an access outside
  of a buffer.
\<close>

section \<open>Security functions\<close>

text \<open>
  The cryptographic library: \<open>aes_ctr\<close> is AES-128 in counter mode (key, initial counter block and
  message), \<open>aes_cmac\<close> the CMAC with AES-128 (key and message). \<open>junk\<close> is the uninitialised part of
  the SNOW 3G state.
\<close>

record crypto_env =
  aes_ctr :: "u8 list \<Rightarrow> u8 list \<Rightarrow> u8 list \<Rightarrow> u8 list"
  aes_cmac :: "u8 list \<Rightarrow> u8 list \<Rightarrow> u8 list"
  junk :: "u32 list"

text \<open>
  The initialisation vectors as bytes: the COUNT in network order, then the bit fields for bearer and
  direction of \<^verbatim>\<open>data_iv8_t\<close> and \<^verbatim>\<open>data_iv16_t\<close>, then zeros.
\<close>

definition data_iv8 :: "u32 \<Rightarrow> int \<Rightarrow> int \<Rightarrow> u8 list" where
  "data_iv8 count bearer direction =
     be_bytes count @ [word_of_int (push_bit 3 (take_bit 5 bearer) OR push_bit 2 (take_bit 1 direction)), 0, 0, 0]"

definition data_iv16 :: "u32 \<Rightarrow> int \<Rightarrow> int \<Rightarrow> u8 list" where
  "data_iv16 count bearer direction = data_iv8 count bearer direction @ replicate 8 0"

definition aes_128_ctr :: "crypto_env \<Rightarrow> u8 list \<Rightarrow> u8 list \<Rightarrow> u8 list \<Rightarrow> u8 list" where
  "aes_128_ctr env key iv msg = aes_ctr env key iv msg"

definition cipher_aes_128_cbc_cmac :: "crypto_env \<Rightarrow> u8 list \<Rightarrow> u8 list \<Rightarrow> u8 list \<Rightarrow> u8 list" where
  "cipher_aes_128_cbc_cmac env key iv msg = aes_cmac env key (iv @ msg)"

definition nr_pdcp_security_nea1_cipher :: "crypto_env \<Rightarrow> u8 list \<Rightarrow> u8 list \<Rightarrow> int \<Rightarrow> u32 \<Rightarrow> int \<Rightarrow> u8 list option" where
  "nr_pdcp_security_nea1_cipher env key buffer bearer count direction =
     Some (snow3g_ciphering (junk env) count (uint (word_of_int (bearer - 1) :: u8)) (uint (word_of_int direction :: u8)) key buffer)"

definition nr_pdcp_security_nea2_cipher :: "crypto_env \<Rightarrow> u8 list \<Rightarrow> u8 list \<Rightarrow> int \<Rightarrow> u32 \<Rightarrow> int \<Rightarrow> u8 list option" where
  "nr_pdcp_security_nea2_cipher env key buffer bearer count direction =
     (if length buffer > 0 \<and> bearer > -1 \<and> bearer < 32 \<and> direction > -1 \<and> direction < 2
      then Some (aes_128_ctr env key (data_iv16 count (bearer - 1) direction) buffer) else None)"

definition nr_pdcp_integrity_nia1_integrity :: "crypto_env \<Rightarrow> u8 list \<Rightarrow> u8 list \<Rightarrow> int \<Rightarrow> u32 \<Rightarrow> int \<Rightarrow> u8 list option" where
  "nr_pdcp_integrity_nia1_integrity env key buffer bearer count direction =
     snow3g_integrity (junk env) count (uint (word_of_int (bearer - 1) :: u8)) (uint (word_of_int direction :: u8)) key buffer"

definition nr_pdcp_integrity_nia2_integrity :: "crypto_env \<Rightarrow> u8 list \<Rightarrow> u8 list \<Rightarrow> int \<Rightarrow> u32 \<Rightarrow> int \<Rightarrow> u8 list option" where
  "nr_pdcp_integrity_nia2_integrity env key buffer bearer count direction =
     (if bearer > 0 \<and> bearer < 33 then Some (take 4 (cipher_aes_128_cbc_cmac env key (data_iv8 count (bearer - 1) direction) buffer)) else None)"

text \<open>The function pointers \<^verbatim>\<open>cipher\<close> and \<^verbatim>\<open>integrity\<close> with their context: the algorithm and the key.\<close>

type_synonym security_context = "(int \<times> u8 list) option"

definition pdcp_cipher :: "crypto_env \<Rightarrow> security_context \<Rightarrow> u8 list \<Rightarrow> int \<Rightarrow> u32 \<Rightarrow> int \<Rightarrow> u8 list option" where
  "pdcp_cipher env ctx buffer bearer count direction =
     (case ctx of
        None \<Rightarrow> None
      | Some (alg, key) \<Rightarrow>
          if alg = 2 then nr_pdcp_security_nea2_cipher env key buffer bearer count direction
          else nr_pdcp_security_nea1_cipher env key buffer bearer count direction)"

definition pdcp_integrity :: "crypto_env \<Rightarrow> security_context \<Rightarrow> u8 list \<Rightarrow> int \<Rightarrow> u32 \<Rightarrow> int \<Rightarrow> u8 list option" where
  "pdcp_integrity env ctx buffer bearer count direction =
     (case ctx of
        None \<Rightarrow> None
      | Some (alg, key) \<Rightarrow>
          if alg = 2 then nr_pdcp_integrity_nia2_integrity env key buffer bearer count direction
          else nr_pdcp_integrity_nia1_integrity env key buffer bearer count direction)"

section \<open>Stored SDUs\<close>

record nr_pdcp_integrity_data =
  mi_count :: u32
  mi_mac :: "u8 list"
  mi_header_size :: int
  mi_header :: "u8 list"

definition no_integrity_data :: nr_pdcp_integrity_data where
  "no_integrity_data = \<lparr>mi_count = 0, mi_mac = [0, 0, 0, 0], mi_header_size = 0, mi_header = []\<rparr>"

record nr_pdcp_sdu =
  sdu_count :: u32
  sdu_buffer :: "u8 list"
  sdu_msg_integrity :: nr_pdcp_integrity_data

definition nr_pdcp_new_sdu :: "u32 \<Rightarrow> u8 list \<Rightarrow> nr_pdcp_integrity_data \<Rightarrow> nr_pdcp_sdu" where
  "nr_pdcp_new_sdu count buffer msg_integrity =
     \<lparr>sdu_count = count, sdu_buffer = buffer, sdu_msg_integrity = msg_integrity\<rparr>"

fun nr_pdcp_sdu_list_add :: "nr_pdcp_sdu list \<Rightarrow> nr_pdcp_sdu \<Rightarrow> nr_pdcp_sdu list" where
  "nr_pdcp_sdu_list_add [] sdu = [sdu]"
| "nr_pdcp_sdu_list_add (cur # l) sdu =
     (if sdu_count sdu < sdu_count cur then sdu # cur # l else cur # nr_pdcp_sdu_list_add l sdu)"

definition nr_pdcp_sdu_in_list :: "nr_pdcp_sdu list \<Rightarrow> u32 \<Rightarrow> bool" where
  "nr_pdcp_sdu_in_list l count = list_ex (\<lambda>s. sdu_count s = count) l"

section \<open>The entity\<close>

datatype nr_pdcp_entity_type = NR_PDCP_DRB_AM | NR_PDCP_DRB_UM | NR_PDCP_SRB

record nr_pdcp_security =
  integrity_algorithm :: int
  ciphering_algorithm :: int
  integrity_key :: "u8 list"
  ciphering_key :: "u8 list"

record nr_pdcp_statistics =
  pst_txpdu_pkts :: u32
  pst_txpdu_bytes :: u32
  pst_txpdu_sn :: u32
  pst_rxpdu_pkts :: u32
  pst_rxpdu_bytes :: u32
  pst_rxpdu_sn :: u32
  pst_rxpdu_dd_pkts :: u32
  pst_rxpdu_dd_bytes :: u32
  pst_txsdu_pkts :: u32
  pst_txsdu_bytes :: u32
  pst_rxsdu_pkts :: u32
  pst_rxsdu_bytes :: u32

record nr_pdcp_entity =
  pdcp_type :: nr_pdcp_entity_type
  pdcp_is_gnb :: bool
  pdcp_rb_id :: int
  pdcp_pdusession_id :: int
  has_sdap_rx :: bool
  has_sdap_tx :: bool
  sn_size :: int
  t_reordering :: int
  discard_timer :: int
  sn_max :: int
  window_size :: int
  tx_next :: u32
  rx_next :: u32
  rx_deliv :: u32
  rx_reord :: u32
  pdcp_t_current :: u64
  t_reordering_start :: u64
  has_ciphering :: bool
  has_integrity :: bool
  security_keys_and_algos :: nr_pdcp_security
  cipher_context :: security_context
  integrity_context :: security_context
  pdcp_rx_list :: "nr_pdcp_sdu list"
  pdcp_rx_size :: int
  pdcp_stats :: nr_pdcp_statistics
  entity_suspended :: bool
  pdcp_delivered :: "nr_pdcp_sdu list"

definition SHORT_SN_SIZE :: int where "SHORT_SN_SIZE = 12"

definition LONG_SN_SIZE :: int where "LONG_SN_SIZE = 18"

definition SHORT_PDCP_HEADER_SIZE :: int where "SHORT_PDCP_HEADER_SIZE = 2"

definition LONG_PDCP_HEADER_SIZE :: int where "LONG_PDCP_HEADER_SIZE = 3"

definition PDCP_INTEGRITY_SIZE :: int where "PDCP_INTEGRITY_SIZE = 4"

definition nr_max_pdcp_pdu_size :: "int \<Rightarrow> int" where
  "nr_max_pdcp_pdu_size sdu_size = sdu_size + LONG_PDCP_HEADER_SIZE + PDCP_INTEGRITY_SIZE"

definition pdcp_header_size :: "nr_pdcp_entity \<Rightarrow> int" where
  "pdcp_header_size e = (if sn_size e = SHORT_SN_SIZE then SHORT_PDCP_HEADER_SIZE else LONG_PDCP_HEADER_SIZE)"

definition pdcp_integrity_size :: "nr_pdcp_entity \<Rightarrow> int" where
  "pdcp_integrity_size e = (if has_integrity e \<or> pdcp_type e = NR_PDCP_SRB then PDCP_INTEGRITY_SIZE else 0)"

section \<open>Delivery\<close>

definition deliver_sdus :: "nr_pdcp_entity \<Rightarrow> nr_pdcp_sdu list \<Rightarrow> nr_pdcp_sdu list \<Rightarrow> nr_pdcp_entity" where
  "deliver_sdus e out rest =
     (let n = sum_list (map (int \<circ> length \<circ> sdu_buffer) out)
      in e\<lparr>pdcp_delivered := pdcp_delivered e @ out, pdcp_rx_list := rest, pdcp_rx_size := pdcp_rx_size e - n,
           pdcp_stats := (pdcp_stats e)\<lparr>pst_txsdu_pkts := pst_txsdu_pkts (pdcp_stats e) + of_nat (length out),
                                        pst_txsdu_bytes := pst_txsdu_bytes (pdcp_stats e) + word_of_int n\<rparr>\<rparr>)"

text \<open>The SDUs from \<open>count\<close> on up to the first gap, the rest of the list, and the COUNT after them.\<close>

fun contiguous :: "u32 \<Rightarrow> nr_pdcp_sdu list \<Rightarrow> nr_pdcp_sdu list \<times> nr_pdcp_sdu list \<times> u32" where
  "contiguous count [] = ([], [], count)"
| "contiguous count (s # l) =
     (if count = sdu_count s then (let (out, rest, c) = contiguous (count + 1) l in (s # out, rest, c))
      else ([], s # l, count))"

definition deliver_from :: "nr_pdcp_entity \<Rightarrow> u32 \<Rightarrow> nr_pdcp_entity" where
  "deliver_from e count =
     (let (out, rest, c) = contiguous count (pdcp_rx_list e) in (deliver_sdus e out rest)\<lparr>rx_deliv := c\<rparr>)"

definition deliver_all_sdus :: "nr_pdcp_entity \<Rightarrow> nr_pdcp_entity" where
  "deliver_all_sdus e = deliver_sdus e (pdcp_rx_list e) []"

section \<open>Reception\<close>

definition pdcp_discard :: "nr_pdcp_entity \<Rightarrow> int \<Rightarrow> nr_pdcp_entity" where
  "pdcp_discard e n =
     e\<lparr>pdcp_stats := (pdcp_stats e)\<lparr>pst_rxpdu_dd_pkts := pst_rxpdu_dd_pkts (pdcp_stats e) + 1,
                                    pst_rxpdu_dd_bytes := pst_rxpdu_dd_bytes (pdcp_stats e) + word_of_int n\<rparr>\<rparr>"

text \<open>The sequence number in the header; \<open>None\<close> when the header is not inside the buffer.\<close>

definition read_sn :: "nr_pdcp_entity \<Rightarrow> u8 list \<Rightarrow> int option" where
  "read_sn e buffer =
     (if int (length buffer) < pdcp_header_size e then None
      else Some (if sn_size e = SHORT_SN_SIZE
                 then push_bit 8 (uint (buffer ! 0 AND 0xf)) OR uint (buffer ! 1)
                 else push_bit 16 (uint (buffer ! 0 AND 0x3)) OR push_bit 8 (uint (buffer ! 1)) OR uint (buffer ! 2)))"

definition rcvd_count :: "nr_pdcp_entity \<Rightarrow> int \<Rightarrow> u32" where
  "rcvd_count e rcvd_sn =
     (let rx_deliv_sn = uint (rx_deliv e AND word_of_int (sn_max e));
          rx_deliv_hfn = drop_bit (nat (sn_size e)) (rx_deliv e);
          rcvd_hfn = (if rcvd_sn < rx_deliv_sn - window_size e then rx_deliv_hfn + 1
                      else if rcvd_sn \<ge> rx_deliv_sn + window_size e then rx_deliv_hfn - 1
                      else rx_deliv_hfn)
      in push_bit (nat (sn_size e)) rcvd_hfn OR word_of_int rcvd_sn)"

definition rx_direction :: "nr_pdcp_entity \<Rightarrow> int" where
  "rx_direction e = (if pdcp_is_gnb e then 0 else 1)"

definition tx_direction :: "nr_pdcp_entity \<Rightarrow> int" where
  "tx_direction e = (if pdcp_is_gnb e then 1 else 0)"

definition decipher_pdu :: "crypto_env \<Rightarrow> nr_pdcp_entity \<Rightarrow> nat \<Rightarrow> u32 \<Rightarrow> u8 list \<Rightarrow> u8 list option" where
  "decipher_pdu env e off count buffer =
     (if has_ciphering e
      then map_option (\<lambda>d. take off buffer @ d)
             (pdcp_cipher env (cipher_context e) (drop off buffer) (pdcp_rb_id e) count (rx_direction e))
      else Some buffer)"

text \<open>Whether the MAC-I at the end of the PDU is right, when integrity is active.\<close>

definition integrity_passes :: "crypto_env \<Rightarrow> nr_pdcp_entity \<Rightarrow> u32 \<Rightarrow> u8 list \<Rightarrow> bool option" where
  "integrity_passes env e count buffer =
     (if has_integrity e
      then let n = length buffer - nat (pdcp_integrity_size e)
           in map_option (\<lambda>mac. mac = drop n buffer)
                (pdcp_integrity env (integrity_context e) (take n buffer) (pdcp_rb_id e) count (rx_direction e))
      else Some True)"

definition reordering_timer :: "nr_pdcp_entity \<Rightarrow> nr_pdcp_entity" where
  "reordering_timer e =
     (let e = (if t_reordering_start e \<noteq> 0 \<and> rx_deliv e \<ge> rx_reord e then e\<lparr>t_reordering_start := 0\<rparr> else e)
      in if t_reordering_start e = 0 \<and> rx_deliv e < rx_next e
         then e\<lparr>rx_reord := rx_next e, t_reordering_start := pdcp_t_current e\<rparr> else e)"

text \<open>A PDU that passed all checks; \<open>n\<close> is the size of the PDU.\<close>

definition store_and_deliver :: "nr_pdcp_entity \<Rightarrow> nr_pdcp_sdu \<Rightarrow> int \<Rightarrow> nr_pdcp_entity" where
  "store_and_deliver e sdu n =
     (let count = sdu_count sdu;
          e = e\<lparr>pdcp_rx_list := nr_pdcp_sdu_list_add (pdcp_rx_list e) sdu,
                pdcp_rx_size := pdcp_rx_size e + (n - pdcp_header_size e)\<rparr>;
          e = (if count \<ge> rx_next e then e\<lparr>rx_next := count + 1\<rparr> else e);
          e = (if count = rx_deliv e then deliver_from e (rx_deliv e) else e)
      in reordering_timer e)"

text \<open>The integrity data handed to the upper layer, from the PDU before it is deciphered.\<close>

definition pdcp_msg_integrity :: "nr_pdcp_entity \<Rightarrow> u32 \<Rightarrow> u8 list \<Rightarrow> nr_pdcp_integrity_data" where
  "pdcp_msg_integrity e count buffer =
     (if pdcp_integrity_size e = 0 then no_integrity_data
      else \<lparr>mi_count = count, mi_mac = drop (length buffer - 4) buffer, mi_header_size = pdcp_header_size e,
            mi_header = take (nat (pdcp_header_size e)) buffer\<rparr>)"

text \<open>From the COUNT on: deciphering, the integrity check, duplicates, storing and delivery.\<close>

definition accept_pdu :: "crypto_env \<Rightarrow> nr_pdcp_entity \<Rightarrow> u32 \<Rightarrow> u8 list \<Rightarrow> nr_pdcp_entity option" where
  "accept_pdu env e count buffer =
     (let n = int (length buffer); header_size = pdcp_header_size e; integrity_size = pdcp_integrity_size e;
          sdap_header_size = (if has_sdap_rx e then 1 else 0); mi = pdcp_msg_integrity e count buffer
      in Option.bind (decipher_pdu env e (nat (header_size + sdap_header_size)) count buffer) (\<lambda>buffer.
           map_option (\<lambda>ok.
             if \<not> ok then pdcp_discard e n
             else if count < rx_deliv e \<or> nr_pdcp_sdu_in_list (pdcp_rx_list e) count then pdcp_discard e n
             else store_and_deliver e
                    (nr_pdcp_new_sdu count (drop (nat header_size) (take (nat (n - integrity_size)) buffer)) mi) n)
             (integrity_passes env e count buffer)))"

definition mark_data_pdu :: "nr_pdcp_entity \<Rightarrow> u8 list \<Rightarrow> u8 list" where
  "mark_data_pdu e buffer =
     (if pdcp_type e \<noteq> NR_PDCP_SRB \<and> buffer ! 0 AND 0x80 = 0 then buffer[0 := buffer ! 0 OR 128] else buffer)"

definition count_rx_pdu :: "nr_pdcp_entity \<Rightarrow> int \<Rightarrow> int \<Rightarrow> nr_pdcp_entity" where
  "count_rx_pdu e n rcvd_sn =
     e\<lparr>pdcp_stats := (pdcp_stats e)\<lparr>pst_rxpdu_pkts := pst_rxpdu_pkts (pdcp_stats e) + 1,
                                    pst_rxpdu_bytes := pst_rxpdu_bytes (pdcp_stats e) + word_of_int n,
                                    pst_rxpdu_sn := word_of_int rcvd_sn\<rparr>\<rparr>"

definition nr_pdcp_entity_recv_pdu :: "crypto_env \<Rightarrow> nr_pdcp_entity \<Rightarrow> u8 list \<Rightarrow> nr_pdcp_entity option" where
  "nr_pdcp_entity_recv_pdu env e buffer =
     (let n = int (length buffer)
      in if entity_suspended e then Some e
         else if n < 1 then Some e
         else let buffer = mark_data_pdu e buffer
              in Option.bind (read_sn e buffer) (\<lambda>rcvd_sn.
                   let e = count_rx_pdu e n rcvd_sn; sdap_header_size = (if has_sdap_rx e then 1 else 0)
                   in if n < pdcp_header_size e + sdap_header_size + pdcp_integrity_size e + 1 then Some (pdcp_discard e n)
                      else accept_pdu env e (rcvd_count e rcvd_sn) buffer))"

section \<open>Transmission\<close>

definition pdcp_header :: "nr_pdcp_entity \<Rightarrow> int \<Rightarrow> u8 list" where
  "pdcp_header e sn =
     (let dc_bit = (if pdcp_type e = NR_PDCP_DRB_AM \<or> pdcp_type e = NR_PDCP_DRB_UM then 0x80 else 0)
      in if sn_size e = SHORT_SN_SIZE
         then [word_of_int (dc_bit OR (drop_bit 8 sn AND 0xf)), word_of_int (sn AND 0xff)]
         else [word_of_int (dc_bit OR (drop_bit 16 sn AND 0x3)), word_of_int (drop_bit 8 sn AND 0xff), word_of_int (sn AND 0xff)])"

definition pdcp_mac :: "crypto_env \<Rightarrow> nr_pdcp_entity \<Rightarrow> u8 list \<Rightarrow> u8 list option" where
  "pdcp_mac env e msg =
     (if has_integrity e
      then pdcp_integrity env (integrity_context e) msg (pdcp_rb_id e) (tx_next e) (tx_direction e)
      else Some (replicate (nat (pdcp_integrity_size e)) 0))"

text \<open>\<open>None\<close> also for a negative length to cipher.\<close>

definition encipher_pdu :: "crypto_env \<Rightarrow> nr_pdcp_entity \<Rightarrow> nat \<Rightarrow> u8 list \<Rightarrow> u8 list option" where
  "encipher_pdu env e off buf =
     (if has_ciphering e
      then if length buf < off then None
           else map_option (\<lambda>d. take off buf @ d)
                  (pdcp_cipher env (cipher_context e) (drop off buf) (pdcp_rb_id e) (tx_next e) (tx_direction e))
      else Some buf)"

definition tx_sn :: "nr_pdcp_entity \<Rightarrow> int" where
  "tx_sn e = uint (tx_next e AND word_of_int (sn_max e))"

definition build_pdu :: "crypto_env \<Rightarrow> nr_pdcp_entity \<Rightarrow> u8 list \<Rightarrow> u8 list option" where
  "build_pdu env e buffer =
     (let hdr = pdcp_header e (tx_sn e); sdap_header_size = (if has_sdap_tx e then 1 else 0)
      in Option.bind (pdcp_mac env e (hdr @ buffer)) (\<lambda>mac.
           encipher_pdu env e (length hdr + sdap_header_size) (hdr @ buffer @ mac)))"

definition count_tx_pdu :: "nr_pdcp_entity \<Rightarrow> int \<Rightarrow> nr_pdcp_entity" where
  "count_tx_pdu e n =
     (let s = pdcp_stats e
      in e\<lparr>tx_next := tx_next e + 1,
           pdcp_stats := s\<lparr>pst_rxsdu_pkts := pst_rxsdu_pkts s + 1, pst_rxsdu_bytes := pst_rxsdu_bytes s + word_of_int n,
             pst_txpdu_pkts := pst_txpdu_pkts s + 1,
             pst_txpdu_bytes := pst_txpdu_bytes s + word_of_int (pdcp_header_size e + n + pdcp_integrity_size e),
             pst_txpdu_sn := word_of_int (tx_sn e)\<rparr>\<rparr>)"

text \<open>The result is the entity with the bytes of the PDU, or without for the return value -1.\<close>

definition nr_pdcp_entity_process_sdu ::
    "crypto_env \<Rightarrow> nr_pdcp_entity \<Rightarrow> u8 list \<Rightarrow> int \<Rightarrow> (nr_pdcp_entity \<times> u8 list option) option" where
  "nr_pdcp_entity_process_sdu env e buffer pdu_max_size =
     (let n = int (length buffer)
      in if \<not> nr_max_pdcp_pdu_size n \<le> pdu_max_size then None
         else if entity_suspended e then Some (e, None)
         else map_option (\<lambda>buf. (count_tx_pdu e n, Some buf)) (build_pdu env e buffer))"

definition nr_pdcp_entity_check_integrity ::
    "crypto_env \<Rightarrow> nr_pdcp_entity \<Rightarrow> u8 list \<Rightarrow> nr_pdcp_integrity_data \<Rightarrow> bool option" where
  "nr_pdcp_entity_check_integrity env e buffer mi =
     (if \<not> has_integrity e then Some False
      else map_option (\<lambda>mac. mac = mi_mac mi)
             (pdcp_integrity env (integrity_context e) (mi_header mi @ buffer) (pdcp_rb_id e) (mi_count mi) (rx_direction e)))"

section \<open>Configuration\<close>

definition set_integrity :: "nr_pdcp_entity \<Rightarrow> nr_pdcp_security \<Rightarrow> nr_pdcp_entity option" where
  "set_integrity e par =
     (let alg = integrity_algorithm par
      in if alg = -1 then Some e
         else if alg = 0 then Some (e\<lparr>has_integrity := False\<rparr>)
         else if alg = 2 \<or> alg = 1
         then Some (e\<lparr>has_integrity := True, integrity_context := Some (alg, integrity_key (security_keys_and_algos e))\<rparr>)
         else None)"

definition set_ciphering :: "nr_pdcp_entity \<Rightarrow> nr_pdcp_security \<Rightarrow> nr_pdcp_entity option" where
  "set_ciphering e par =
     (let alg = ciphering_algorithm par
      in if alg = -1 then Some e
         else if alg = 0 then Some (e\<lparr>has_ciphering := False\<rparr>)
         else if alg = 2 \<or> alg = 1
         then Some (e\<lparr>has_ciphering := True, cipher_context := Some (alg, ciphering_key (security_keys_and_algos e))\<rparr>)
         else None)"

definition nr_pdcp_entity_set_security :: "nr_pdcp_entity \<Rightarrow> nr_pdcp_security \<Rightarrow> nr_pdcp_entity option" where
  "nr_pdcp_entity_set_security e par =
     (let k = security_keys_and_algos e;
          k = (if integrity_algorithm par \<noteq> -1
               then k\<lparr>integrity_algorithm := integrity_algorithm par, integrity_key := take 16 (integrity_key par)\<rparr> else k);
          k = (if ciphering_algorithm par \<noteq> -1
               then k\<lparr>ciphering_algorithm := ciphering_algorithm par, ciphering_key := take 16 (ciphering_key par)\<rparr> else k)
      in Option.bind (set_integrity (e\<lparr>security_keys_and_algos := k\<rparr>) par) (\<lambda>e. set_ciphering e par))"

section \<open>Timer, suspension and re-establishment\<close>

definition check_t_reordering :: "nr_pdcp_entity \<Rightarrow> nr_pdcp_entity" where
  "check_t_reordering e =
     (if t_reordering e = -1 then e
      else if t_reordering_start e = 0 \<or> pdcp_t_current e \<le> t_reordering_start e + word_of_int (t_reordering e) then e
      else let e = e\<lparr>t_reordering_start := 0\<rparr>;
               e = deliver_sdus e (takeWhile (\<lambda>s. sdu_count s < rx_reord e) (pdcp_rx_list e))
                     (dropWhile (\<lambda>s. sdu_count s < rx_reord e) (pdcp_rx_list e));
               e = deliver_from e (rx_reord e)
           in if rx_deliv e < rx_next e then e\<lparr>rx_reord := rx_next e, t_reordering_start := pdcp_t_current e\<rparr> else e)"

definition nr_pdcp_entity_set_time :: "nr_pdcp_entity \<Rightarrow> u64 \<Rightarrow> nr_pdcp_entity" where
  "nr_pdcp_entity_set_time e now = check_t_reordering (e\<lparr>pdcp_t_current := now\<rparr>)"

definition nr_pdcp_entity_suspend :: "nr_pdcp_entity \<Rightarrow> nr_pdcp_entity" where
  "nr_pdcp_entity_suspend e =
     (let e = e\<lparr>tx_next := 0\<rparr>;
          e = (if t_reordering_start e \<noteq> 0 then deliver_all_sdus (e\<lparr>t_reordering_start := 0\<rparr>) else e)
      in e\<lparr>rx_next := 0, rx_deliv := 0, entity_suspended := True\<rparr>)"

definition free_rx_list :: "nr_pdcp_entity \<Rightarrow> nr_pdcp_entity" where
  "free_rx_list e =
     (let s = pdcp_stats e
      in e\<lparr>pdcp_stats := s\<lparr>pst_rxpdu_dd_pkts := pst_rxpdu_dd_pkts s + of_nat (length (pdcp_rx_list e)),
                           pst_rxpdu_dd_bytes := pst_rxpdu_dd_bytes s +
                             word_of_int (sum_list (map (int \<circ> length \<circ> sdu_buffer) (pdcp_rx_list e)))\<rparr>,
           pdcp_rx_list := [], pdcp_rx_size := 0\<rparr>)"

definition nr_pdcp_entity_reestablish_drb_am :: "nr_pdcp_entity \<Rightarrow> nr_pdcp_security \<Rightarrow> nr_pdcp_entity option" where
  "nr_pdcp_entity_reestablish_drb_am e par =
     map_option (\<lambda>e. e\<lparr>entity_suspended := False\<rparr>) (nr_pdcp_entity_set_security e par)"

definition nr_pdcp_entity_reestablish_drb_um :: "nr_pdcp_entity \<Rightarrow> nr_pdcp_security \<Rightarrow> nr_pdcp_entity option" where
  "nr_pdcp_entity_reestablish_drb_um e par =
     (let e = e\<lparr>tx_next := 0\<rparr>;
          e = (if t_reordering_start e \<noteq> 0 then deliver_all_sdus e else e);
          e = e\<lparr>t_reordering_start := 0, rx_next := 0, rx_deliv := 0\<rparr>
      in map_option (\<lambda>e. e\<lparr>entity_suspended := False\<rparr>) (nr_pdcp_entity_set_security e par))"

definition nr_pdcp_entity_reestablish_srb :: "nr_pdcp_entity \<Rightarrow> nr_pdcp_security \<Rightarrow> nr_pdcp_entity option" where
  "nr_pdcp_entity_reestablish_srb e par =
     (let e = free_rx_list (e\<lparr>tx_next := 0\<rparr>);
          e = e\<lparr>t_reordering_start := 0, rx_next := 0, rx_deliv := 0\<rparr>
      in map_option (\<lambda>e. e\<lparr>entity_suspended := False\<rparr>) (nr_pdcp_entity_set_security e par))"

definition reestablish_entity :: "nr_pdcp_entity \<Rightarrow> nr_pdcp_security \<Rightarrow> nr_pdcp_entity option" where
  "reestablish_entity e =
     (case pdcp_type e of
        NR_PDCP_DRB_AM \<Rightarrow> nr_pdcp_entity_reestablish_drb_am e
      | NR_PDCP_DRB_UM \<Rightarrow> nr_pdcp_entity_reestablish_drb_um e
      | NR_PDCP_SRB \<Rightarrow> nr_pdcp_entity_reestablish_srb e)"

definition nr_pdcp_entity_release :: "nr_pdcp_entity \<Rightarrow> nr_pdcp_entity" where
  "nr_pdcp_entity_release e = deliver_all_sdus e"

text \<open>A COUNT as the pair of hyper frame number and sequence number.\<close>

definition nr_pdcp_entity_get_count_dl :: "nr_pdcp_entity \<Rightarrow> u32 \<times> u32" where
  "nr_pdcp_entity_get_count_dl e = (drop_bit (nat (sn_size e)) (rx_deliv e), rx_deliv e AND word_of_int (sn_max e))"

definition nr_pdcp_entity_get_count_ul :: "nr_pdcp_entity \<Rightarrow> u32 \<times> u32" where
  "nr_pdcp_entity_get_count_ul e = (drop_bit (nat (sn_size e)) (tx_next e), tx_next e AND word_of_int (sn_max e))"

definition compose_count :: "u32 \<times> u32 \<Rightarrow> int \<Rightarrow> u32" where
  "compose_count c n = (let (hfn, sn) = c in push_bit (nat n) hfn OR (sn AND word_of_int (push_bit (nat n) 1 - 1)))"

definition nr_pdcp_entity_set_count_dl :: "nr_pdcp_entity \<Rightarrow> u32 \<times> u32 \<Rightarrow> int \<Rightarrow> nr_pdcp_entity" where
  "nr_pdcp_entity_set_count_dl e c n = e\<lparr>rx_next := compose_count c n + 1, rx_deliv := compose_count c n\<rparr>"

definition nr_pdcp_entity_set_count_ul :: "nr_pdcp_entity \<Rightarrow> u32 \<times> u32 \<Rightarrow> int \<Rightarrow> nr_pdcp_entity" where
  "nr_pdcp_entity_set_count_ul e c n = e\<lparr>tx_next := compose_count c n\<rparr>"

definition zero_pdcp_stats :: nr_pdcp_statistics where
  "zero_pdcp_stats = \<lparr>pst_txpdu_pkts = 0, pst_txpdu_bytes = 0, pst_txpdu_sn = 0, pst_rxpdu_pkts = 0, pst_rxpdu_bytes = 0,
     pst_rxpdu_sn = 0, pst_rxpdu_dd_pkts = 0, pst_rxpdu_dd_bytes = 0, pst_txsdu_pkts = 0, pst_txsdu_bytes = 0,
     pst_rxsdu_pkts = 0, pst_rxsdu_bytes = 0\<rparr>"

definition new_nr_pdcp_entity ::
    "nr_pdcp_entity_type \<Rightarrow> bool \<Rightarrow> int \<Rightarrow> int \<Rightarrow> bool \<Rightarrow> bool \<Rightarrow> int \<Rightarrow> int \<Rightarrow> int \<Rightarrow> nr_pdcp_security \<Rightarrow> nr_pdcp_entity option" where
  "new_nr_pdcp_entity typ is_gnb rb_id pdusession_id sdap_rx sdap_tx sn_bits t_reord discard par =
     nr_pdcp_entity_set_security
       \<lparr>pdcp_type = typ, pdcp_is_gnb = is_gnb, pdcp_rb_id = rb_id, pdcp_pdusession_id = pdusession_id, has_sdap_rx = sdap_rx,
        has_sdap_tx = sdap_tx, sn_size = sn_bits, t_reordering = t_reord, discard_timer = discard,
        sn_max = push_bit (nat sn_bits) 1 - 1, window_size = push_bit (nat (sn_bits - 1)) 1,
        tx_next = 0, rx_next = 0, rx_deliv = 0, rx_reord = 0, pdcp_t_current = 0, t_reordering_start = 0,
        has_ciphering = False, has_integrity = False,
        security_keys_and_algos = \<lparr>integrity_algorithm = 0, ciphering_algorithm = 0, integrity_key = replicate 16 0,
          ciphering_key = replicate 16 0\<rparr>,
        cipher_context = None, integrity_context = None, pdcp_rx_list = [], pdcp_rx_size = 0,
        pdcp_stats = zero_pdcp_stats, entity_suspended = False, pdcp_delivered = []\<rparr> par"

end
