(* ===== verification/Pdcp_Count.thy ===== *)
theory Pdcp_Count
  imports Pdcp
begin

text \<open>
  COUNT values of PDCP: their split into hyper frame number and sequence number, the
  reconstruction of a COUNT from the sequence number of a header, and the header itself.
\<close>

definition pdcp_config :: "nr_pdcp_entity \<Rightarrow> bool" where
  "pdcp_config e \<longleftrightarrow> (sn_size e = 12 \<or> sn_size e = 18) \<and> sn_max e = 2 ^ nat (sn_size e) - 1 \<and>
     window_size e = 2 ^ nat (sn_size e - 1)"

lemma pdcp_configD:
  assumes "pdcp_config e"
  obtains "sn_size e = 12" "sn_max e = 4095" "window_size e = 2048"
  | "sn_size e = 18" "sn_max e = 262143" "window_size e = 131072"
  using assms by (auto simp: pdcp_config_def)

section \<open>Words and fields\<close>

lemma low_field: "x AND word_of_int (2 ^ n - 1) = take_bit n (x :: u32)"
proof -
  have "word_of_int (2 ^ n - 1) = (mask n :: u32)" by (simp add: mask_eq_exp_minus_1)
  then show ?thesis by (simp add: take_bit_eq_mask)
qed

lemma uint_low_field: "uint (x AND word_of_int (2 ^ n - 1) :: u32) = uint x mod 2 ^ n"
  unfolding low_field unsigned_take_bit_eq by (rule take_bit_eq_mod)

lemma uint_high_field: "uint (drop_bit n x :: u32) = uint x div 2 ^ n"
  using uint_lt2p [of x] unfolding unsigned_drop_bit_eq by (simp add: drop_bit_eq_div take_bit_int_eq_self)

text \<open>Two fields put together are split again into the same fields.\<close>

lemma compose_split: "n \<le> 32 \<Longrightarrow> push_bit n (drop_bit n x) OR (x AND word_of_int (2 ^ n - 1)) = (x :: u32)"
  by (simp only: low_field) (rule bit_word_eqI, auto simp: bit_simps)

lemma split_compose:
  assumes "n \<le> 32" and "take_bit (32 - n) h = h"
  shows "drop_bit n (push_bit n h OR (s AND word_of_int (2 ^ n - 1))) = (h :: u32)"
    and "(push_bit n h OR (s AND word_of_int (2 ^ n - 1))) AND word_of_int (2 ^ n - 1) = s AND (word_of_int (2 ^ n - 1) :: u32)"
proof -
  have h: "bit h i \<Longrightarrow> i + n < 32" for i using assms by (metis bit_take_bit_iff less_diff_conv)
  show "drop_bit n (push_bit n h OR (s AND word_of_int (2 ^ n - 1))) = h"
    unfolding low_field by (rule bit_word_eqI) (auto simp: bit_simps add.commute dest: h)
  show "(push_bit n h OR (s AND word_of_int (2 ^ n - 1))) AND word_of_int (2 ^ n - 1) = s AND word_of_int (2 ^ n - 1)"
    unfolding low_field by (rule bit_word_eqI) (auto simp: bit_simps)
qed

section \<open>Reconstruction of COUNT\<close>

lemma hfn_choice:
  fixes c d :: int
  assumes "d - 2 ^ m \<le> c" and "c < d + 2 ^ m"
  shows "d div 2 ^ Suc m + (if c mod 2 ^ Suc m < d mod 2 ^ Suc m - 2 ^ m then 1
            else if c mod 2 ^ Suc m \<ge> d mod 2 ^ Suc m + 2 ^ m then -1 else 0) = c div 2 ^ Suc m"
proof -
  define W :: int where "W = 2 ^ m"
  define M :: int where "M = 2 * W"
  have W: "0 < W" by (simp add: W_def)
  have d: "d = M * (d div M) + d mod M" "0 \<le> d mod M" "d mod M < M" using W by (simp_all add: M_def)
  have c: "c = M * (c div M) + c mod M" "0 \<le> c mod M" "c mod M < M" using W by (simp_all add: M_def)
  let ?k = "c div M - d div M"
  have diff: "M * ?k = (c - d) - (c mod M - d mod M)" using c(1) d(1) unfolding right_diff_distrib by linarith
  have b: "- W \<le> c - d" "c - d < W" using assms by (simp_all add: W_def)
  have "M * ?k < M * 2" "M * (-2) < M * ?k" unfolding diff using b c(2,3) d(2,3) M_def by linarith+
  then have "?k < 2" "-2 < ?k" using W by (simp_all only: M_def mult_less_cancel_left_pos)
  then consider "?k = 1" | "?k = 0" | "?k = -1" by linarith
  then have "d div M + (if c mod M < d mod M - W then 1 else if c mod M \<ge> d mod M + W then -1 else 0) = c div M"
  proof cases
    case 1 then show ?thesis using diff b W by (simp add: M_def)
  next
    case 2 then show ?thesis using diff b W by (simp add: M_def)
  next
    case 3 then show ?thesis using diff b W c(2,3) d(2,3) by (simp add: M_def)
  qed
  then show ?thesis unfolding M_def W_def power_Suc .
qed

lemma rcvd_count_window:
  assumes "pdcp_config e" and "uint (rx_deliv e) - window_size e \<le> uint c" and "uint c < uint (rx_deliv e) + window_size e"
  shows "rcvd_count e (uint c mod 2 ^ nat (sn_size e)) = c"
proof -
  let ?d = "uint (rx_deliv e)" and ?c = "uint c"
  obtain m where m: "sn_size e = int (Suc m)" "Suc m \<le> 32" "window_size e = 2 ^ m" "sn_max e = 2 ^ Suc m - 1"
    using assms(1) by (cases rule: pdcp_configD) (auto intro: that [of 11] that [of 17])
  define k :: int where "k = (if ?c mod 2 ^ Suc m < ?d mod 2 ^ Suc m - 2 ^ m then 1
     else if ?c mod 2 ^ Suc m \<ge> ?d mod 2 ^ Suc m + 2 ^ m then -1 else 0)"
  have k: "?d div 2 ^ Suc m + k = ?c div 2 ^ Suc m"
    unfolding k_def by (rule hfn_choice) (use assms(2,3) m(3) in auto)
  have "rcvd_count e (?c mod 2 ^ Suc m) =
      push_bit (Suc m) (drop_bit (Suc m) (rx_deliv e) + word_of_int k) OR word_of_int (?c mod 2 ^ Suc m)"
    unfolding rcvd_count_def Let_def m(1,3,4) nat_int uint_low_field k_def by auto
  also have "drop_bit (Suc m) (rx_deliv e) + word_of_int k = word_of_int (?c div 2 ^ Suc m)"
    by (subst k [symmetric]) (simp only: of_int_add uint_high_field [symmetric] word_of_int_uint)
  also have "push_bit (Suc m) (word_of_int (?c div 2 ^ Suc m) :: u32) = push_bit (Suc m) (drop_bit (Suc m) c)"
    unfolding uint_high_field [symmetric] by simp
  also have "push_bit (Suc m) (drop_bit (Suc m) c) OR word_of_int (?c mod 2 ^ Suc m) = c"
    using compose_split [OF m(2), of c] unfolding uint_low_field [symmetric] by simp
  finally show ?thesis by (simp only: m(1) nat_int)
qed

section \<open>The header\<close>

lemma read_pdcp_header:
  assumes "pdcp_config e" and "sn_size r = sn_size e" and "0 \<le> sn" and "sn < 2 ^ nat (sn_size e)"
  shows "read_sn r (pdcp_header e sn @ xs) = Some sn"
proof -
  have m: "(15 :: u8) = mask 4" "(3 :: u8) = mask 2" "(255 :: int) = mask 8" "(15 :: int) = mask 4" "(3 :: int) = mask 2"
    by (simp_all add: mask_eq_exp_minus_1)
  have dc: "\<not> bit (128 :: int) i" if "i < 7" for i
  proof -
    have "(128 :: int) = 2 ^ 7" by simp
    then show ?thesis using that by (simp only: bit_simps) simp
  qed
  have hi: "bit sn i \<Longrightarrow> i < nat (sn_size e)" for i
  proof -
    have "take_bit (nat (sn_size e)) sn = sn" using assms by (simp add: take_bit_int_eq_self)
    then show "bit sn i \<Longrightarrow> i < nat (sn_size e)" by (metis bit_take_bit_iff)
  qed
  show ?thesis using assms(1)
  proof (cases rule: pdcp_configD)
    case 1
    have "push_bit 8 (uint ((word_of_int (d OR (drop_bit 8 sn AND 15)) :: u8) AND 15)) OR uint (word_of_int (sn AND 255) :: u8) = sn"
      if "d = 128 \<or> d = 0" for d
      unfolding m using that 1 by (intro bit_eqI) (auto simp: bit_simps dc dest: hi)
    then show ?thesis using 1 assms(2)
      by (auto simp: read_sn_def pdcp_header_def Let_def pdcp_header_size_def SHORT_SN_SIZE_def SHORT_PDCP_HEADER_SIZE_def)
  next
    case 2
    have "push_bit 16 (uint ((word_of_int (d OR (drop_bit 16 sn AND 3)) :: u8) AND 3)) OR
        push_bit 8 (uint (word_of_int (drop_bit 8 sn AND 255) :: u8)) OR uint (word_of_int (sn AND 255) :: u8) = sn"
      if "d = 128 \<or> d = 0" for d
      unfolding m using that 2 by (intro bit_eqI) (auto simp: bit_simps dc dest: hi)
    then show ?thesis using 2 assms(2)
      by (auto simp: read_sn_def pdcp_header_def Let_def pdcp_header_size_def SHORT_SN_SIZE_def LONG_PDCP_HEADER_SIZE_def)
  qed
qed

end
