(* ===== verification/Pdcp_Reception.thy ===== *)
theory Pdcp_Reception
  imports Pdcp_Count
begin

text \<open>
  The invariant of the receiving side of PDCP: the stored SDUs are sorted, lie between the first
  COUNT not delivered and the next expected one, and everything delivered has smaller COUNTs, in
  increasing order. Every operation keeps it as long as the largest COUNT is not used.
\<close>

section \<open>Runs of an entity\<close>

text \<open>
  A run receives PDUs, processes SDUs, advances the clock and sets the security parameters, in any order.
  Suspension, re-establishment, reconfiguration and the setting of COUNTs are modelled but are not events of a run.
\<close>

datatype pdcp_event = Recv_pdu "u8 list" | Process_sdu "u8 list" int | Set_time u64 | Set_security nr_pdcp_security

definition pdcp_step :: "crypto_env \<Rightarrow> nr_pdcp_entity \<Rightarrow> pdcp_event \<Rightarrow> nr_pdcp_entity option" where
  "pdcp_step env e ev =
     (case ev of
        Recv_pdu b \<Rightarrow> nr_pdcp_entity_recv_pdu env e b
      | Process_sdu b n \<Rightarrow> map_option fst (nr_pdcp_entity_process_sdu env e b n)
      | Set_time t \<Rightarrow> Some (nr_pdcp_entity_set_time e t)
      | Set_security par \<Rightarrow> nr_pdcp_entity_set_security e par)"

fun pdcp_run :: "crypto_env \<Rightarrow> nr_pdcp_entity \<Rightarrow> pdcp_event list \<Rightarrow> nr_pdcp_entity option" where
  "pdcp_run env e [] = Some e"
| "pdcp_run env e (ev # evs) = Option.bind (pdcp_step env e ev) (\<lambda>e'. pdcp_run env e' evs)"

section \<open>The invariant\<close>

definition rx_core :: "nr_pdcp_entity \<Rightarrow> bool" where
  "rx_core e \<longleftrightarrow> sorted_wrt (<) (map sdu_count (pdcp_delivered e)) \<and> (\<forall>s \<in> set (pdcp_delivered e). sdu_count s < rx_deliv e) \<and>
     sorted_wrt (<) (map sdu_count (pdcp_rx_list e)) \<and>
     (\<forall>s \<in> set (pdcp_rx_list e). rx_deliv e < sdu_count s \<and> sdu_count s < rx_next e) \<and> rx_deliv e \<le> rx_next e"

definition rx_inv :: "nr_pdcp_entity \<Rightarrow> bool" where
  "rx_inv e \<longleftrightarrow> rx_core e \<and> (t_reordering_start e \<noteq> 0 \<longrightarrow> rx_deliv e < rx_reord e \<and> rx_reord e \<le> rx_next e)"

text \<open>All SDUs the entity has accepted.\<close>

definition accepted :: "nr_pdcp_entity \<Rightarrow> nr_pdcp_sdu list" where
  "accepted e = pdcp_delivered e @ pdcp_rx_list e"

lemma u32_inc: "x < N \<Longrightarrow> x < x + 1 \<and> x + 1 \<le> (N :: u32)"
  by unat_arith

section \<open>The list\<close>

lemma set_sdu_list_add [simp]: "set (nr_pdcp_sdu_list_add l s) = insert s (set l)"
  by (induction l) auto

lemma sorted_sdu_list_add:
  "sorted_wrt (<) (map sdu_count l) \<Longrightarrow> sdu_count s \<notin> sdu_count ` set l \<Longrightarrow>
     sorted_wrt (<) (map sdu_count (nr_pdcp_sdu_list_add l s))"
  by (induction l) auto

lemma nr_pdcp_sdu_in_list_iff: "nr_pdcp_sdu_in_list l c \<longleftrightarrow> c \<in> sdu_count ` set l"
  by (auto simp: nr_pdcp_sdu_in_list_def list_ex_iff)

lemma contiguous_append: "contiguous c l = (out, rest, c') \<Longrightarrow> l = out @ rest"
  by (induction c l arbitrary: out rest rule: contiguous.induct) (auto split: if_splits prod.splits)

lemma contiguous_bounds:
  assumes "contiguous c l = (out, rest, c')" and "sorted_wrt (<) (map sdu_count l)"
    and "\<forall>s \<in> set l. c \<le> sdu_count s \<and> sdu_count s < N" and "c \<le> N"
  shows "c \<le> c' \<and> c' \<le> N \<and> (\<forall>s \<in> set out. c \<le> sdu_count s \<and> sdu_count s < c') \<and> (\<forall>s \<in> set rest. c' < sdu_count s)"
  using assms
proof (induction c l arbitrary: out rest rule: contiguous.induct)
  case (2 c s l)
  show ?case
  proof (cases "c = sdu_count s")
    case True
    then obtain o1 where o: "contiguous (c + 1) l = (o1, rest, c')" "out = s # o1"
      using 2(2) by (auto split: prod.splits)
    have c: "c < c + 1" "c + 1 \<le> N" using u32_inc [of c N] 2(4) True by auto
    have "\<forall>x \<in> set l. c + 1 \<le> sdu_count x \<and> sdu_count x < N" using 2(3,4) True u32_inc by auto
    with 2(1) [OF True o(1)] 2(3) c have "c + 1 \<le> c' \<and> c' \<le> N \<and> (\<forall>x \<in> set o1. c + 1 \<le> sdu_count x \<and> sdu_count x < c') \<and>
      (\<forall>x \<in> set rest. c' < sdu_count x)" by simp
    then show ?thesis using c(1) o(2) True by fastforce
  next
    case False
    then show ?thesis using 2(2-5) by fastforce
  qed
qed simp

lemma contiguous_advances:
  "contiguous c (s # l) = (out, rest, c') \<Longrightarrow> c = sdu_count s \<Longrightarrow> \<exists>o1. out = s # o1 \<and> contiguous (c + 1) l = (o1, rest, c')"
  by (auto split: prod.splits)

section \<open>Delivery\<close>

lemma deliver_sdus_fields [simp]:
  "pdcp_delivered (deliver_sdus e out rest) = pdcp_delivered e @ out"
  "pdcp_rx_list (deliver_sdus e out rest) = rest"
  "rx_deliv (deliver_sdus e out rest) = rx_deliv e" "rx_next (deliver_sdus e out rest) = rx_next e"
  "rx_reord (deliver_sdus e out rest) = rx_reord e" "t_reordering_start (deliver_sdus e out rest) = t_reordering_start e"
  "pdcp_t_current (deliver_sdus e out rest) = pdcp_t_current e" "t_reordering (deliver_sdus e out rest) = t_reordering e"
  by (simp_all add: deliver_sdus_def Let_def)

lemma deliver_from_fields [simp]:
  "rx_next (deliver_from e c) = rx_next e" "rx_reord (deliver_from e c) = rx_reord e"
  "t_reordering_start (deliver_from e c) = t_reordering_start e" "pdcp_t_current (deliver_from e c) = pdcp_t_current e"
  "t_reordering (deliver_from e c) = t_reordering e"
  by (simp_all add: deliver_from_def case_prod_unfold Let_def)

lemma deliver_from_accepted: "accepted (deliver_from e c) = accepted e"
  by (auto simp: deliver_from_def accepted_def split: prod.splits dest: contiguous_append)

lemma deliver_from_core:
  assumes "sorted_wrt (<) (map sdu_count (pdcp_delivered e))" and "\<forall>s \<in> set (pdcp_delivered e). sdu_count s < c"
    and "sorted_wrt (<) (map sdu_count (pdcp_rx_list e))"
    and "\<forall>s \<in> set (pdcp_rx_list e). c \<le> sdu_count s \<and> sdu_count s < rx_next e" and "c \<le> rx_next e"
  shows "rx_core (deliver_from e c)" and "c \<le> rx_deliv (deliver_from e c)"
proof -
  obtain out rest c' where o: "contiguous c (pdcp_rx_list e) = (out, rest, c')" by (cases "contiguous c (pdcp_rx_list e)")
  note l = contiguous_append [OF o] and b = contiguous_bounds [OF o assms(3-5)]
  have eq: "deliver_from e c = (deliver_sdus e out rest)\<lparr>rx_deliv := c'\<rparr>" by (simp add: deliver_from_def o)
  have "sorted_wrt (<) (map sdu_count (pdcp_delivered e @ out))"
    using assms(1-3) b by (auto simp: l sorted_wrt_append) (meson le_less_trans less_le_trans)+
  moreover have "\<forall>s \<in> set (pdcp_delivered e @ out). sdu_count s < c'" using assms(2) b by auto
  ultimately show "rx_core (deliver_from e c)"
    using assms(3,4) b by (auto simp: rx_core_def eq l sorted_wrt_append)
  show "c \<le> rx_deliv (deliver_from e c)" using b by (simp add: eq)
qed

section \<open>Reception of a PDU\<close>

lemma reordering_timer_fields [simp]:
  "pdcp_delivered (reordering_timer e) = pdcp_delivered e" "pdcp_rx_list (reordering_timer e) = pdcp_rx_list e"
  "rx_deliv (reordering_timer e) = rx_deliv e" "rx_next (reordering_timer e) = rx_next e"
  "pdcp_t_current (reordering_timer e) = pdcp_t_current e" "t_reordering (reordering_timer e) = t_reordering e"
  by (simp_all add: reordering_timer_def Let_def)

lemma reordering_timer_inv:
  "rx_core e \<Longrightarrow> (t_reordering_start e \<noteq> 0 \<longrightarrow> rx_reord e \<le> rx_next e) \<Longrightarrow> rx_inv (reordering_timer e)"
  by (auto simp: rx_inv_def rx_core_def reordering_timer_def Let_def not_le)

lemma reordering_timer_running:
  "pdcp_t_current e \<noteq> 0 \<Longrightarrow> rx_deliv e < rx_next e \<Longrightarrow> t_reordering_start (reordering_timer e) \<noteq> 0"
  by (simp add: reordering_timer_def Let_def)

text \<open>A PDU is discarded, or it is new and is stored.\<close>

lemma pdcp_discard_stats: "pdcp_discard e n = e\<lparr>pdcp_stats := pdcp_stats (pdcp_discard e n)\<rparr>"
  by (simp add: pdcp_discard_def)

definition rx_effect :: "nr_pdcp_entity \<Rightarrow> nr_pdcp_entity \<Rightarrow> bool" where
  "rx_effect e e' \<longleftrightarrow> (\<exists>st. e' = e\<lparr>pdcp_stats := st\<rparr>) \<or>
     (\<exists>st sdu n. e' = store_and_deliver (e\<lparr>pdcp_stats := st\<rparr>) sdu n \<and> rx_deliv e \<le> sdu_count sdu \<and>
        sdu_count sdu \<notin> sdu_count ` set (pdcp_rx_list e))"

lemma rx_effect_stats: "rx_effect (e\<lparr>pdcp_stats := st\<rparr>) e' \<Longrightarrow> rx_effect e e'"
  by (simp add: rx_effect_def)

lemma rx_effect_discard: "rx_effect e (pdcp_discard e n)"
  unfolding rx_effect_def using pdcp_discard_stats by blast

lemma rx_effect_same: "rx_effect e e"
  unfolding rx_effect_def by (intro disjI1 exI [of _ "pdcp_stats e"]) simp

lemma rx_effect_store:
  assumes "rx_deliv e \<le> sdu_count sdu" and "sdu_count sdu \<notin> sdu_count ` set (pdcp_rx_list e)"
  shows "rx_effect e (store_and_deliver e sdu n)"
  unfolding rx_effect_def using assms by (intro disjI2 exI [of _ "pdcp_stats e"] exI [of _ sdu] exI [of _ n]) simp

lemma accept_pdu_effect:
  assumes "accept_pdu env e count b = Some e'"
  shows "rx_effect e e'"
proof -
  obtain b1 ok where "decipher_pdu env e (nat (pdcp_header_size e + (if has_sdap_rx e then 1 else 0))) count b = Some b1"
    "e' = (if \<not> ok then pdcp_discard e (int (length b))
       else if count < rx_deliv e \<or> nr_pdcp_sdu_in_list (pdcp_rx_list e) count then pdcp_discard e (int (length b))
       else store_and_deliver e (nr_pdcp_new_sdu count (drop (nat (pdcp_header_size e))
         (take (nat (int (length b) - pdcp_integrity_size e)) b1)) (pdcp_msg_integrity e count b)) (int (length b)))"
    using assms unfolding accept_pdu_def Let_def bind_eq_Some_conv map_option_eq_Some by blast
  then show ?thesis
    by (auto simp: rx_effect_discard nr_pdcp_sdu_in_list_iff nr_pdcp_new_sdu_def not_less intro!: rx_effect_store)
qed

lemma rx_effect_counted: "rx_effect (count_rx_pdu e n sn) e' \<Longrightarrow> rx_effect e e'"
  unfolding count_rx_pdu_def by (rule rx_effect_stats)

lemma recv_pdu_effect:
  assumes "nr_pdcp_entity_recv_pdu env e b = Some e'"
  shows "rx_effect e e'"
proof (cases "entity_suspended e \<or> b = []")
  case True
  then show ?thesis using assms rx_effect_same by (auto simp: nr_pdcp_entity_recv_pdu_def split: if_splits)
next
  case False
  define n where "n = int (length b)"
  obtain sn where "e' = pdcp_discard (count_rx_pdu e n sn) n \<or>
      accept_pdu env (count_rx_pdu e n sn) (rcvd_count (count_rx_pdu e n sn) sn) (mark_data_pdu e b) = Some e'"
    using assms False unfolding nr_pdcp_entity_recv_pdu_def Let_def bind_eq_Some_conv n_def
    by (auto simp: bind_eq_Some_conv split: if_splits)
  then show ?thesis using rx_effect_counted rx_effect_discard accept_pdu_effect by blast
qed

definition stored :: "nr_pdcp_entity \<Rightarrow> nr_pdcp_sdu \<Rightarrow> int \<Rightarrow> nr_pdcp_entity" where
  "stored e sdu n =
     e\<lparr>pdcp_rx_list := nr_pdcp_sdu_list_add (pdcp_rx_list e) sdu, pdcp_rx_size := pdcp_rx_size e + (n - pdcp_header_size e),
       rx_next := (if sdu_count sdu \<ge> rx_next e then sdu_count sdu + 1 else rx_next e)\<rparr>"

lemma store_and_deliver_stored:
  "store_and_deliver e sdu n =
     reordering_timer (if sdu_count sdu = rx_deliv e then deliver_from (stored e sdu n) (rx_deliv e) else stored e sdu n)"
  by (simp add: store_and_deliver_def stored_def Let_def)

lemma store_and_deliver_accepted: "set (accepted (store_and_deliver e sdu n)) = insert sdu (set (accepted e))"
proof -
  have "accepted (reordering_timer x) = accepted x" for x by (simp add: accepted_def)
  moreover have "set (accepted (stored e sdu n)) = insert sdu (set (accepted e))" by (simp add: accepted_def stored_def)
  ultimately show ?thesis by (simp add: store_and_deliver_stored deliver_from_accepted)
qed

lemma store_and_deliver_inv:
  assumes "rx_inv e" and "rx_deliv e \<le> sdu_count sdu" and "sdu_count sdu \<notin> sdu_count ` set (pdcp_rx_list e)"
    and "sdu_count sdu \<noteq> -1"
  shows "rx_inv (store_and_deliver e sdu n)"
proof -
  let ?e = "stored e sdu n" and ?c = "sdu_count sdu"
  have "?c < -1" using assms(4) by (simp add: word_order.not_eq_extremum)
  then have inc: "?c < ?c + 1" using u32_inc by blast
  have core: "rx_core e" using assms(1) by (simp add: rx_inv_def)
  have nx: "rx_next e \<le> rx_next ?e" "?c < rx_next ?e" using inc by (auto simp: stored_def)
  have srt: "sorted_wrt (<) (map sdu_count (pdcp_rx_list ?e))"
    using sorted_sdu_list_add [OF _ assms(3)] core by (simp add: rx_core_def stored_def)
  have bnd: "\<forall>s \<in> set (pdcp_rx_list ?e). rx_deliv e \<le> sdu_count s \<and> sdu_count s < rx_next ?e"
    using core nx assms(2) by (auto simp: rx_core_def stored_def)
  have rest: "pdcp_delivered ?e = pdcp_delivered e" "rx_deliv ?e = rx_deliv e" "rx_reord ?e = rx_reord e"
    "t_reordering_start ?e = t_reordering_start e" by (simp_all add: stored_def)
  have le: "rx_deliv e \<le> rx_next ?e" using core nx(1) by (auto simp: rx_core_def)
  have "rx_core (if ?c = rx_deliv e then deliver_from ?e (rx_deliv e) else ?e)"
  proof (cases "?c = rx_deliv e")
    case True
    then show ?thesis using deliver_from_core(1) [OF _ _ srt bnd le] core by (simp add: rest rx_core_def)
  next
    case False
    then have "\<forall>s \<in> set (pdcp_rx_list ?e). rx_deliv e < sdu_count s"
      using core assms(2) by (auto simp: rx_core_def stored_def)
    then show ?thesis using False core srt bnd le by (simp add: rest rx_core_def)
  qed
  moreover have "t_reordering_start e \<noteq> 0 \<longrightarrow> rx_reord e \<le> rx_next ?e" using assms(1) nx(1) by (auto simp: rx_inv_def)
  ultimately show ?thesis unfolding store_and_deliver_stored
    by (intro reordering_timer_inv) (auto simp: rest)
qed

lemma rx_inv_stats [simp]: "rx_inv (e\<lparr>pdcp_stats := st\<rparr>) = rx_inv e"
  by (simp add: rx_inv_def rx_core_def)

lemma accepted_stats [simp]: "accepted (e\<lparr>pdcp_stats := st\<rparr>) = accepted e"
  by (simp add: accepted_def)

lemma recv_pdu_accepted:
  assumes "nr_pdcp_entity_recv_pdu env e b = Some e'"
  shows "set (accepted e) \<subseteq> set (accepted e')"
  using recv_pdu_effect [OF assms] by (auto simp: rx_effect_def store_and_deliver_accepted)

lemma recv_pdu_inv:
  assumes "nr_pdcp_entity_recv_pdu env e b = Some e'" and "rx_inv e" and "\<forall>s \<in> set (accepted e'). sdu_count s \<noteq> -1"
  shows "rx_inv e'"
  using recv_pdu_effect [OF assms(1)] unfolding rx_effect_def
proof (elim disjE exE conjE)
  fix st sdu n
  assume e': "e' = store_and_deliver (e\<lparr>pdcp_stats := st\<rparr>) sdu n" and new: "rx_deliv e \<le> sdu_count sdu"
    "sdu_count sdu \<notin> sdu_count ` set (pdcp_rx_list e)"
  have "sdu_count sdu \<noteq> -1" using assms(3) by (simp add: e' store_and_deliver_accepted)
  then show ?thesis unfolding e' using new assms(2) by (intro store_and_deliver_inv) simp_all
qed (use assms(2) in simp)

section \<open>The reordering timer\<close>

definition timer_expired :: "nr_pdcp_entity \<Rightarrow> bool" where
  "timer_expired e \<longleftrightarrow> t_reordering e \<noteq> -1 \<and> t_reordering_start e \<noteq> 0 \<and>
     t_reordering_start e + word_of_int (t_reordering e) < pdcp_t_current e"

text \<open>The two delivery loops at the expiry of the timer.\<close>

definition flushed :: "nr_pdcp_entity \<Rightarrow> nr_pdcp_entity" where
  "flushed e =
     (let e = e\<lparr>t_reordering_start := 0\<rparr>
      in deliver_from (deliver_sdus e (takeWhile (\<lambda>s. sdu_count s < rx_reord e) (pdcp_rx_list e))
            (dropWhile (\<lambda>s. sdu_count s < rx_reord e) (pdcp_rx_list e))) (rx_reord e))"

lemma check_t_reordering_flushed:
  "check_t_reordering e =
     (if timer_expired e
      then if rx_deliv (flushed e) < rx_next e then (flushed e)\<lparr>rx_reord := rx_next e, t_reordering_start := pdcp_t_current e\<rparr>
           else flushed e
      else e)"
  by (auto simp: check_t_reordering_def timer_expired_def flushed_def Let_def not_le)

lemma flushed_accepted: "accepted (flushed e) = accepted e"
  by (simp add: flushed_def Let_def deliver_from_accepted) (simp add: accepted_def)

lemma sorted_dropWhile:
  "sorted_wrt (<) (map f l) \<Longrightarrow> s \<in> set (dropWhile (\<lambda>s. f s < (c :: u32)) l) \<Longrightarrow> c \<le> f s"
  by (induction l) (auto split: if_splits intro: less_imp_le order_trans simp: not_less)

lemma flushed_core:
  assumes "rx_inv e" and "t_reordering_start e \<noteq> 0"
  shows "rx_core (flushed e)" and "rx_reord e \<le> rx_deliv (flushed e)"
proof -
  let ?P = "\<lambda>s. sdu_count s < rx_reord e"
  let ?t = "takeWhile ?P (pdcp_rx_list e)" and ?d = "dropWhile ?P (pdcp_rx_list e)"
  let ?e = "deliver_sdus (e\<lparr>t_reordering_start := 0\<rparr>) ?t ?d"
  have core: "rx_core e" and r: "rx_deliv e < rx_reord e" "rx_reord e \<le> rx_next e"
    using assms by (auto simp: rx_inv_def)
  have l: "pdcp_rx_list e = ?t @ ?d" by simp
  have "sorted_wrt (<) (map sdu_count ?t @ map sdu_count ?d)"
    using core unfolding rx_core_def map_append [symmetric] l [symmetric] by blast
  then have s: "sorted_wrt (<) (map sdu_count ?t)" "sorted_wrt (<) (map sdu_count ?d)" by (simp_all add: sorted_wrt_append)
  have t: "\<forall>s \<in> set ?t. rx_deliv e < sdu_count s \<and> sdu_count s < rx_reord e"
    using core by (auto simp: rx_core_def dest: set_takeWhileD)
  have d: "\<forall>s \<in> set ?d. rx_reord e \<le> sdu_count s \<and> sdu_count s < rx_next e"
    using core sorted_dropWhile [of sdu_count] by (auto simp: rx_core_def dest: set_dropWhileD)
  have del: "sorted_wrt (<) (map sdu_count (pdcp_delivered e @ ?t))"
    using core s(1) t by (auto simp: rx_core_def sorted_wrt_append) (meson less_trans)
  have lt: "\<forall>s \<in> set (pdcp_delivered e @ ?t). sdu_count s < rx_reord e"
    using core t r(1) by (auto simp: rx_core_def)
  have f: "pdcp_delivered ?e = pdcp_delivered e @ ?t" "pdcp_rx_list ?e = ?d" "rx_next ?e = rx_next e" by simp_all
  have "flushed e = deliver_from ?e (rx_reord e)" by (simp add: flushed_def)
  then show "rx_core (flushed e)" "rx_reord e \<le> rx_deliv (flushed e)"
    using deliver_from_core [of ?e "rx_reord e", unfolded f, OF del lt s(2) d r(2)] by argo+
qed

lemma flushed_fields [simp]:
  "t_reordering_start (flushed e) = 0" "rx_next (flushed e) = rx_next e" "t_reordering (flushed e) = t_reordering e"
  "pdcp_t_current (flushed e) = pdcp_t_current e"
  by (simp_all add: flushed_def Let_def)

lemma set_time_accepted: "accepted (nr_pdcp_entity_set_time e t) = accepted e"
proof -
  have "accepted (x\<lparr>rx_reord := a, t_reordering_start := b\<rparr>) = accepted x" "accepted (x\<lparr>pdcp_t_current := t\<rparr>) = accepted x"
    for x a b by (simp_all add: accepted_def)
  then show ?thesis by (simp add: nr_pdcp_entity_set_time_def check_t_reordering_flushed flushed_accepted)
qed

lemma set_time_inv:
  assumes "rx_inv e"
  shows "rx_inv (nr_pdcp_entity_set_time e t)"
proof -
  let ?e = "e\<lparr>pdcp_t_current := t\<rparr>"
  have i: "rx_inv ?e" using assms by (simp add: rx_inv_def rx_core_def)
  show ?thesis
  proof (cases "timer_expired ?e")
    case True
    then have c: "rx_core (flushed ?e)" using flushed_core(1) [OF i] by (simp add: timer_expired_def)
    have "rx_core (x\<lparr>rx_reord := a, t_reordering_start := b\<rparr>) = rx_core x" for x a b by (simp add: rx_core_def)
    then show ?thesis using c True by (simp add: nr_pdcp_entity_set_time_def check_t_reordering_flushed rx_inv_def)
  next
    case False
    then show ?thesis using i by (simp add: nr_pdcp_entity_set_time_def check_t_reordering_flushed)
  qed
qed

section \<open>Runs\<close>

lemma set_integrity_state:
  "set_integrity e par = Some e' \<Longrightarrow> e' = e\<lparr>has_integrity := has_integrity e', integrity_context := integrity_context e'\<rparr>"
  by (auto simp: set_integrity_def Let_def split: if_splits)

lemma set_ciphering_state:
  "set_ciphering e par = Some e' \<Longrightarrow> e' = e\<lparr>has_ciphering := has_ciphering e', cipher_context := cipher_context e'\<rparr>"
  by (auto simp: set_ciphering_def Let_def split: if_splits)

lemma set_security_state:
  assumes "nr_pdcp_entity_set_security e par = Some e'"
  obtains k a b c d where
    "e' = e\<lparr>security_keys_and_algos := k, has_integrity := a, integrity_context := b, has_ciphering := c, cipher_context := d\<rparr>"
  using assms set_integrity_state set_ciphering_state
  unfolding nr_pdcp_entity_set_security_def Let_def bind_eq_Some_conv by metis

lemma set_security_rx:
  assumes "nr_pdcp_entity_set_security e par = Some e'"
  shows "rx_inv e' = rx_inv e" and "accepted e' = accepted e" and "pdcp_t_current e' = pdcp_t_current e"
    and "pdcp_rx_list e' = pdcp_rx_list e" and "t_reordering_start e' = t_reordering_start e"
  by (rule set_security_state [OF assms], simp add: rx_inv_def rx_core_def accepted_def)+

lemma process_sdu_state:
  assumes "nr_pdcp_entity_process_sdu env e b n = Some (e', pdu)"
  shows "e' = e\<lparr>pdcp_stats := pdcp_stats e', tx_next := tx_next e'\<rparr>"
proof (cases "entity_suspended e")
  case True
  then show ?thesis using assms by (simp add: nr_pdcp_entity_process_sdu_def Let_def split: if_splits)
next
  case False
  then have "e' = count_tx_pdu e (int (length b))"
    using assms by (auto simp: nr_pdcp_entity_process_sdu_def Let_def split: if_splits)
  then show ?thesis by (simp add: count_tx_pdu_def Let_def)
qed

lemma process_sdu_rx:
  assumes "nr_pdcp_entity_process_sdu env e b n = Some (e', pdu)"
  shows "rx_inv e' = rx_inv e" and "accepted e' = accepted e" and "pdcp_t_current e' = pdcp_t_current e"
    and "pdcp_rx_list e' = pdcp_rx_list e" and "t_reordering_start e' = t_reordering_start e"
  by (subst process_sdu_state [OF assms], simp add: rx_inv_def rx_core_def accepted_def)+

lemma pdcp_step_accepted: "pdcp_step env e ev = Some e' \<Longrightarrow> set (accepted e) \<subseteq> set (accepted e')"
  by (cases ev) (auto simp: pdcp_step_def set_time_accepted set_security_rx process_sdu_rx dest: recv_pdu_accepted)

lemma pdcp_step_inv:
  assumes "pdcp_step env e ev = Some e'" and "rx_inv e" and "\<forall>s \<in> set (accepted e'). sdu_count s \<noteq> -1"
  shows "rx_inv e'"
  using assms
  by (cases ev) (auto simp: pdcp_step_def set_security_rx set_time_inv process_sdu_rx dest: recv_pdu_inv)

lemma pdcp_run_accepted: "pdcp_run env e evs = Some e' \<Longrightarrow> set (accepted e) \<subseteq> set (accepted e')"
  by (induction evs arbitrary: e) (fastforce simp: bind_eq_Some_conv dest: pdcp_step_accepted)+

lemma pdcp_run_inv:
  assumes "pdcp_run env e evs = Some e'" and "rx_inv e" and "\<forall>s \<in> set (accepted e'). sdu_count s \<noteq> -1"
  shows "rx_inv e'"
  using assms
proof (induction evs arbitrary: e)
  case (Cons ev evs)
  then obtain e1 where e1: "pdcp_step env e ev = Some e1" "pdcp_run env e1 evs = Some e'" by (auto simp: bind_eq_Some_conv)
  have "\<forall>s \<in> set (accepted e1). sdu_count s \<noteq> -1" using pdcp_run_accepted [OF e1(2)] Cons.prems(3) by blast
  then show ?case using Cons.IH [OF e1(2)] pdcp_step_inv [OF e1(1) Cons.prems(2)] Cons.prems(3) by blast
qed simp

lemma new_entity_inv:
  assumes "new_nr_pdcp_entity typ g rb pdu sr st sn tr dt par = Some e"
  shows "rx_inv e"
  unfolding set_security_rx(1) [OF assms [unfolded new_nr_pdcp_entity_def]] by (simp add: rx_inv_def rx_core_def)

section \<open>Progress\<close>

text \<open>Stored SDUs wait for a running timer, once the clock has left the value 0.\<close>

definition rx_waiting :: "nr_pdcp_entity \<Rightarrow> bool" where
  "rx_waiting e \<longleftrightarrow> pdcp_t_current e \<noteq> 0 \<and> (pdcp_rx_list e \<noteq> [] \<longrightarrow> t_reordering_start e \<noteq> 0)"

lemma core_nonempty: "rx_core e \<Longrightarrow> pdcp_rx_list e \<noteq> [] \<Longrightarrow> rx_deliv e < rx_next e"
  by (cases "pdcp_rx_list e") (auto simp: rx_core_def)

lemma store_and_deliver_waiting:
  assumes "rx_inv (store_and_deliver e sdu n)" and "pdcp_t_current e \<noteq> 0"
  shows "rx_waiting (store_and_deliver e sdu n)"
proof -
  let ?x = "if sdu_count sdu = rx_deliv e then deliver_from (stored e sdu n) (rx_deliv e) else stored e sdu n"
  have x: "store_and_deliver e sdu n = reordering_timer ?x" by (rule store_and_deliver_stored)
  have t: "pdcp_t_current ?x \<noteq> 0" using assms(2) by (simp add: stored_def)
  have "rx_core (reordering_timer ?x)" using assms(1) by (simp add: x rx_inv_def)
  then have "pdcp_rx_list ?x \<noteq> [] \<Longrightarrow> rx_deliv ?x < rx_next ?x" using core_nonempty [of "reordering_timer ?x"] by simp
  then show ?thesis unfolding x rx_waiting_def using t reordering_timer_running [of ?x] by simp
qed

lemma recv_pdu_waiting:
  assumes "nr_pdcp_entity_recv_pdu env e b = Some e'" and "rx_inv e'" and "rx_waiting e"
  shows "rx_waiting e'"
  using recv_pdu_effect [OF assms(1)] unfolding rx_effect_def
proof (elim disjE exE conjE)
  fix st sdu n assume "e' = store_and_deliver (e\<lparr>pdcp_stats := st\<rparr>) sdu n"
  then show ?thesis using store_and_deliver_waiting [of "e\<lparr>pdcp_stats := st\<rparr>"] assms(2,3) by (simp add: rx_waiting_def)
qed (use assms(3) in \<open>simp add: rx_waiting_def\<close>)

text \<open>What an expiry leaves: nothing, or SDUs up to the new limit of the timer.\<close>

lemma expiry:
  assumes "rx_inv e" and "timer_expired (e\<lparr>pdcp_t_current := t\<rparr>)"
  shows "pdcp_rx_list (nr_pdcp_entity_set_time e t) = [] \<or>
    t_reordering_start (nr_pdcp_entity_set_time e t) = t \<and> rx_reord (nr_pdcp_entity_set_time e t) = rx_next e"
    and "rx_reord e = rx_next e \<Longrightarrow> pdcp_rx_list (nr_pdcp_entity_set_time e t) = []"
    and "rx_next (nr_pdcp_entity_set_time e t) = rx_next e"
proof -
  let ?e = "e\<lparr>pdcp_t_current := t\<rparr>"
  have "rx_inv ?e" "t_reordering_start ?e \<noteq> 0" using assms by (auto simp: rx_inv_def rx_core_def timer_expired_def)
  note f = flushed_core [OF this]
  have st: "nr_pdcp_entity_set_time e t = (if rx_deliv (flushed ?e) < rx_next e
      then (flushed ?e)\<lparr>rx_reord := rx_next e, t_reordering_start := t\<rparr> else flushed ?e)"
    using assms(2) by (simp add: nr_pdcp_entity_set_time_def check_t_reordering_flushed)
  have empty: "pdcp_rx_list (flushed ?e) = []" if "\<not> rx_deliv (flushed ?e) < rx_next e"
    using core_nonempty [OF f(1)] that by auto
  show "pdcp_rx_list (nr_pdcp_entity_set_time e t) = [] \<or>
    t_reordering_start (nr_pdcp_entity_set_time e t) = t \<and> rx_reord (nr_pdcp_entity_set_time e t) = rx_next e"
    using empty by (simp add: st)
  show "rx_reord e = rx_next e \<Longrightarrow> pdcp_rx_list (nr_pdcp_entity_set_time e t) = []"
    using f(2) empty by (simp add: st)
  show "rx_next (nr_pdcp_entity_set_time e t) = rx_next e" by (simp add: st)
qed

lemma set_time_waiting:
  assumes "rx_inv e" and "rx_waiting e" and "t \<noteq> 0"
  shows "rx_waiting (nr_pdcp_entity_set_time e t)"
proof -
  have c: "pdcp_t_current (nr_pdcp_entity_set_time e t) = t"
    by (simp add: nr_pdcp_entity_set_time_def check_t_reordering_flushed)
  show ?thesis
  proof (cases "timer_expired (e\<lparr>pdcp_t_current := t\<rparr>)")
    case True
    then show ?thesis using expiry(1) [OF assms(1) True] c assms(3) by (auto simp: rx_waiting_def)
  next
    case False
    then show ?thesis using assms(2,3) by (simp add: nr_pdcp_entity_set_time_def check_t_reordering_flushed rx_waiting_def)
  qed
qed

lemma pdcp_run_waiting:
  assumes "pdcp_run env e evs = Some e'" and "rx_inv e" and "rx_waiting e" and "Set_time 0 \<notin> set evs"
    and "\<forall>s \<in> set (accepted e'). sdu_count s \<noteq> -1"
  shows "rx_waiting e'"
  using assms
proof (induction evs arbitrary: e)
  case (Cons ev evs)
  then obtain e1 where e1: "pdcp_step env e ev = Some e1" "pdcp_run env e1 evs = Some e'" by (auto simp: bind_eq_Some_conv)
  have "\<forall>s \<in> set (accepted e1). sdu_count s \<noteq> -1" using pdcp_run_accepted [OF e1(2)] Cons.prems(5) by blast
  then have i: "rx_inv e1" using pdcp_step_inv [OF e1(1) Cons.prems(2)] by blast
  have "rx_waiting e1"
  proof (cases ev)
    case (Recv_pdu b)
    then show ?thesis using e1(1) i Cons.prems(3) recv_pdu_waiting by (simp add: pdcp_step_def)
  next
    case (Process_sdu b n)
    then show ?thesis using e1(1) Cons.prems(3) process_sdu_rx(3-5) by (fastforce simp: pdcp_step_def rx_waiting_def)
  next
    case (Set_time t)
    then show ?thesis using e1(1) Cons.prems(2-4) set_time_waiting by (auto simp: pdcp_step_def)
  next
    case (Set_security par)
    then show ?thesis using e1(1) Cons.prems(3) set_security_rx(3-5) [of e par e1] by (simp add: pdcp_step_def rx_waiting_def)
  qed
  then show ?case using Cons.IH [OF e1(2) i] Cons.prems(4,5) by simp
qed simp

text \<open>Two expiries of the timer deliver everything.\<close>

lemma set_time_config [simp]: "t_reordering (nr_pdcp_entity_set_time e t) = t_reordering e"
  by (simp add: nr_pdcp_entity_set_time_def check_t_reordering_flushed)

lemma set_time_empty: "pdcp_rx_list e = [] \<Longrightarrow> pdcp_rx_list (nr_pdcp_entity_set_time e t) = []"
  by (simp add: nr_pdcp_entity_set_time_def check_t_reordering_flushed flushed_def deliver_from_def)

lemma two_expiries:
  assumes "rx_inv e" and "rx_waiting e" and "t_reordering e \<noteq> -1" and "t1 \<noteq> 0"
    and "t_reordering_start e + word_of_int (t_reordering e) < t1" and "t1 + word_of_int (t_reordering e) < t2"
  shows "pdcp_rx_list (nr_pdcp_entity_set_time (nr_pdcp_entity_set_time e t1) t2) = []"
proof -
  let ?e = "nr_pdcp_entity_set_time e t1"
  consider "pdcp_rx_list ?e = []" | "t_reordering_start ?e = t1" "rx_reord ?e = rx_next ?e"
  proof (cases "t_reordering_start e = 0")
    case True
    then show ?thesis using that(1) set_time_empty assms(2) by (simp add: rx_waiting_def)
  next
    case False
    then have "timer_expired (e\<lparr>pdcp_t_current := t1\<rparr>)" using assms(3,5) by (simp add: timer_expired_def)
    then show ?thesis using that expiry(1,3) [OF assms(1)] by metis
  qed
  then show ?thesis
  proof cases
    case 1
    then show ?thesis by (rule set_time_empty)
  next
    case 2
    then have "timer_expired (?e\<lparr>pdcp_t_current := t2\<rparr>)" using assms(3,4,6) by (simp add: timer_expired_def)
    then show ?thesis using expiry(2) [OF set_time_inv [OF assms(1)]] 2(2) by blast
  qed
qed

end
