(* ===== verification/Snow3g_Correct.thy ===== *)
theory Snow3g_Correct
  imports Snow3g
begin

text \<open>
  Correctness of the optimisations in \<^verbatim>\<open>snow3g.c\<close>. The doubled register with a moving pointer
  generates the keystream of the plain shift register (the code kept under \<^verbatim>\<open>#if 0\<close>), so the
  uninitialised upper half never matters; and the multiplication with a precomputed table agrees
  with the bitwise multiplication \<^verbatim>\<open>MUL64\<close>.
\<close>

section \<open>The shift register\<close>

record snow_ref =
  ref_s :: "u32 list"
  ref_r1 :: u32
  ref_r2 :: u32
  ref_r3 :: u32

definition ref_shift :: "snow_ref \<Rightarrow> u32 \<Rightarrow> snow_ref" where
  "ref_shift s v = s\<lparr>ref_s := tl (ref_s s) @ [v]\<rparr>"

definition ref_value :: "snow_ref \<Rightarrow> u32" where
  "ref_value s = lfsr_value (ref_s s ! 0) (ref_s s ! 2) (ref_s s ! 11)"

definition ref_clock :: "snow_ref \<Rightarrow> u32 \<times> snow_ref" where
  "ref_clock s =
     ((ref_s s ! 15 + ref_r1 s) XOR ref_r2 s,
      s\<lparr>ref_r3 := s2 (ref_r2 s), ref_r2 := s1 (ref_r1 s), ref_r1 := ref_r2 s + (ref_r3 s XOR ref_s s ! 5)\<rparr>)"

fun ref_rounds :: "nat \<Rightarrow> snow_ref \<Rightarrow> snow_ref" where
  "ref_rounds 0 s = s"
| "ref_rounds (Suc n) s = (let (f, s') = ref_clock s in ref_rounds n (ref_shift s' (ref_value s' XOR f)))"

definition ref_init :: "u8 list \<Rightarrow> u8 list \<Rightarrow> snow_ref" where
  "ref_init key iv =
     (let s = snd (ref_clock (ref_rounds 32 \<lparr>ref_s = initial_register key iv, ref_r1 = 0, ref_r2 = 0, ref_r3 = 0\<rparr>))
      in ref_shift s (ref_value s))"

fun ref_keystream :: "nat \<Rightarrow> snow_ref \<Rightarrow> u32 list" where
  "ref_keystream 0 s = []"
| "ref_keystream (Suc n) s =
     (let (f, s') = ref_clock s in (f XOR ref_s s' ! 0) # ref_keystream n (ref_shift s' (ref_value s')))"

text \<open>The abstraction: the 16 words from the pointer on.\<close>

definition snow_abs :: "snow3g_t \<Rightarrow> snow_ref" where
  "snow_abs s = \<lparr>ref_s = take 16 (drop (snow_p s) (snow_s s)), ref_r1 = snow_r1 s, ref_r2 = snow_r2 s, ref_r3 = snow_r3 s\<rparr>"

definition snow_inv :: "snow3g_t \<Rightarrow> bool" where
  "snow_inv s \<longleftrightarrow> length (snow_s s) = 32 \<and> snow_p s < 16 \<and> (\<forall>i < snow_p s. snow_s s ! i = snow_s s ! (i + 16))"

lemma snow_at_abs: "snow_inv s \<Longrightarrow> i < 16 \<Longrightarrow> snow_at s i = ref_s (snow_abs s) ! i"
  by (simp add: snow_at_def snow_abs_def snow_inv_def)

lemma lfsr_push_abs:
  assumes "snow_inv s"
  shows "snow_inv (lfsr_push s v)" and "snow_abs (lfsr_push s v) = ref_shift (snow_abs s) v"
proof -
  let ?xs = "snow_s s" and ?p = "snow_p s"
  let ?ys = "?xs[?p := v, ?p + 16 := v]"
  have inv: "length ?xs = 32" "?p < 16" "\<And>i. i < ?p \<Longrightarrow> ?xs ! i = ?xs ! (i + 16)" using assms by (auto simp: snow_inv_def)
  have dup: "?ys ! i = ?ys ! (i + 16)" if "i < ?p + 1" for i
    using inv that by (cases "i = ?p") (auto simp: nth_list_update)
  show "snow_inv (lfsr_push s v)"
    using inv dup by (auto simp: snow_inv_def lfsr_push_def Let_def)
  have shift: "take 16 (drop (?p + 1) ?ys) = tl (take 16 (drop ?p ?xs)) @ [v]"
  proof (rule nth_equalityI)
    fix i assume "i < length (take 16 (drop (?p + 1) ?ys))"
    then have i: "i < 16" by simp
    show "take 16 (drop (?p + 1) ?ys) ! i = (tl (take 16 (drop ?p ?xs)) @ [v]) ! i"
      using inv(1,2) i by (cases "i = 15") (auto simp: nth_append nth_tl nth_list_update)
  qed (use inv in simp)
  show "snow_abs (lfsr_push s v) = ref_shift (snow_abs s) v"
  proof (cases "?p + 1 = 16")
    case True
    have "take 16 ?ys = take 16 (drop 16 ?ys)"
      using inv(1) dup True by (intro nth_equalityI) (auto simp: add.commute)
    then show ?thesis using shift True by (simp add: snow_abs_def lfsr_push_def ref_shift_def Let_def)
  next
    case False
    then show ?thesis using shift by (simp add: snow_abs_def lfsr_push_def ref_shift_def Let_def)
  qed
qed

lemma lfsr_value_abs:
  "snow_inv s \<Longrightarrow> lfsr_value (snow_at s 0) (snow_at s 2) (snow_at s 11) = ref_value (snow_abs s)"
  by (simp add: ref_value_def snow_at_abs)

lemma clock_fsm_abs:
  assumes "snow_inv s"
  shows "fst (clock_fsm s) = fst (ref_clock (snow_abs s))" and "snow_abs (snd (clock_fsm s)) = snd (ref_clock (snow_abs s))"
    and "snow_inv (snd (clock_fsm s))"
  using snow_at_abs [OF assms] assms
  by (simp_all add: clock_fsm_def ref_clock_def Let_def snow_inv_def) (simp_all add: snow_abs_def)

lemma init_rounds_abs: "snow_inv s \<Longrightarrow> snow_inv (init_rounds n s) \<and> snow_abs (init_rounds n s) = ref_rounds n (snow_abs s)"
proof (induction n arbitrary: s)
  case (Suc n)
  let ?s = "snd (clock_fsm s)" and ?f = "fst (clock_fsm s)"
  note c = clock_fsm_abs [OF Suc.prems]
  have "snow_inv (lfsr_init ?s ?f)" "snow_abs (lfsr_init ?s ?f) = ref_shift (snow_abs ?s) (ref_value (snow_abs ?s) XOR ?f)"
    using lfsr_push_abs [OF c(3)] lfsr_value_abs [OF c(3)] by (simp_all add: lfsr_init_def)
  then show ?case using Suc.IH [of "lfsr_init ?s ?f"] c by (simp add: case_prod_unfold Let_def)
qed simp

lemma keystream_step_abs:
  assumes "snow_inv s"
  shows "snow_inv (lfsr_keystream s)" and "snow_abs (lfsr_keystream s) = ref_shift (snow_abs s) (ref_value (snow_abs s))"
  using lfsr_push_abs [OF assms] lfsr_value_abs [OF assms] by (simp_all add: lfsr_keystream_def)

lemma snow3g_init_abs:
  assumes "length junk = 16"
  shows "snow_inv (snow3g_init junk key iv)" and "snow_abs (snow3g_init junk key iv) = ref_init key iv"
proof -
  let ?s = "\<lparr>snow_s = initial_register key iv @ junk, snow_p = 0, snow_r1 = 0, snow_r2 = 0, snow_r3 = 0\<rparr>"
  have "length (initial_register key iv) = 16" by (simp add: initial_register_def Let_def)
  then have s: "snow_inv ?s" "snow_abs ?s = \<lparr>ref_s = initial_register key iv, ref_r1 = 0, ref_r2 = 0, ref_r3 = 0\<rparr>"
    using assms by (simp_all add: snow_inv_def snow_abs_def)
  note r = init_rounds_abs [OF s(1), of 32]
  note c = clock_fsm_abs [OF conjunct1 [OF r]]
  show "snow_inv (snow3g_init junk key iv)" "snow_abs (snow3g_init junk key iv) = ref_init key iv"
    using keystream_step_abs [OF c(3)] c(2) r s(2) by (simp_all add: snow3g_init_def ref_init_def Let_def)
qed

lemma generate_keystream_abs: "snow_inv s \<Longrightarrow> generate_keystream n s = ref_keystream n (snow_abs s)"
proof (induction n arbitrary: s)
  case (Suc n)
  let ?s = "snd (clock_fsm s)"
  note c = clock_fsm_abs [OF Suc.prems]
  show ?case using Suc.IH [OF keystream_step_abs(1) [OF c(3)]] keystream_step_abs(2) [OF c(3)] c snow_at_abs [OF c(3), of 0]
    by (simp add: generate_keystream_step_def case_prod_unfold Let_def)
qed simp

lemma snow3g_keystream:
  "length junk = 16 \<Longrightarrow> generate_keystream n (snow3g_init junk key iv) = ref_keystream n (ref_init key iv)"
  using generate_keystream_abs [OF snow3g_init_abs(1)] snow3g_init_abs(2) by simp

lemma length_ref_keystream [simp]: "length (ref_keystream n s) = n"
  by (induction n arbitrary: s) (simp_all add: case_prod_unfold Let_def)

section \<open>Ciphering\<close>

definition cipher_stream :: "u32 \<Rightarrow> int \<Rightarrow> int \<Rightarrow> u8 list \<Rightarrow> nat \<Rightarrow> u8 list" where
  "cipher_stream count bearer direction key n =
     concat (map be_bytes (ref_keystream ((n + 3) div 4) (ref_init (snow_key key) (cipher_iv count bearer direction))))"

lemma length_cipher_stream: "n \<le> length (cipher_stream count bearer direction key n)"
proof -
  have "length (concat (map be_bytes ws)) = 4 * length ws" for ws by (induction ws) (simp_all add: be_bytes_def)
  then show ?thesis by (simp add: cipher_stream_def)
qed

lemma snow3g_ciphering_stream:
  "length junk = 16 \<Longrightarrow> snow3g_ciphering junk count bearer direction key msg =
     map2 (XOR) msg (cipher_stream count bearer direction key (length msg))"
  by (simp add: snow3g_ciphering_def Let_def snow3g_keystream cipher_stream_def)

lemma length_snow3g_ciphering:
  "length junk = 16 \<Longrightarrow> length (snow3g_ciphering junk count bearer direction key msg) = length msg"
  using length_cipher_stream [of "length msg"] by (simp add: snow3g_ciphering_stream)

lemma map2_xor_twice: "length xs \<le> length ks \<Longrightarrow> map2 (XOR) (map2 (XOR) xs ks) ks = (xs :: u8 list)"
  by (induction xs ks rule: list_induct2') (auto simp: xor.assoc)

lemma snow3g_ciphering_twice:
  assumes "length junk = 16"
  shows "snow3g_ciphering junk count bearer direction key (snow3g_ciphering junk count bearer direction key msg) = msg"
  using map2_xor_twice [OF length_cipher_stream] length_cipher_stream [of "length msg"]
  by (simp add: snow3g_ciphering_stream [OF assms])

section \<open>Multiplication by a table\<close>

text \<open>The sum (exclusive or) of \<open>f i\<close> over the \<open>i\<close> below \<open>n\<close> that satisfy \<open>P\<close>.\<close>

fun xsum :: "(nat \<Rightarrow> u64) \<Rightarrow> nat \<Rightarrow> (nat \<Rightarrow> bool) \<Rightarrow> u64" where
  "xsum f 0 P = 0"
| "xsum f (Suc n) P = xsum f n P XOR (if P n then f n else 0)"

lemma xsum_add: "xsum f (m + n) P = xsum f m P XOR xsum (\<lambda>j. f (m + j)) n (\<lambda>j. P (m + j))"
  by (induction n) (simp_all add: xor.assoc)

lemma xsum_cong: "(\<And>j. j < n \<Longrightarrow> P j = Q j) \<Longrightarrow> (\<And>j. j < n \<Longrightarrow> f j = g j) \<Longrightarrow> xsum f n P = xsum g n Q"
  by (induction n) simp_all

lemma xsum_mono: "m \<le> n \<Longrightarrow> (\<And>j. m \<le> j \<Longrightarrow> j < n \<Longrightarrow> \<not> P j) \<Longrightarrow> xsum f n P = xsum f m P"
  by (induction n rule: dec_induct) simp_all

lemma MUL64_xsum: "MUL64 v p c = xsum (\<lambda>i. MULxPOW64 v i c) 64 (bit p)"
proof -
  have b: "(drop_bit i p AND 1 \<noteq> 0) = bit p i" for i
    by (simp add: and_one_eq bit_iff_odd_drop_bit odd_iff_mod_2_eq_one)
  have "foldl (\<lambda>result i. if drop_bit i p AND 1 \<noteq> 0 then result XOR MULxPOW64 v i c else result) 0 [0..<n] =
      xsum (\<lambda>i. MULxPOW64 v i c) n (bit p)" for n
    by (induction n) (simp_all only: b upt_Suc_append foldl_append xsum.simps, simp_all)
  then show ?thesis by (simp only: MUL64_def)
qed

text \<open>The entries for single bits.\<close>

lemma pm_step: "(let v = push_bit 1 prev in if prev AND 0x8000000000000000 \<noteq> 0 then v XOR 0x1b else v) = MULx64 prev 0x1b"
  by (simp add: MULx64_def push_bit_eq_mult)

definition pm_bits_upto :: "u64 \<Rightarrow> nat \<Rightarrow> nat \<Rightarrow> nat \<Rightarrow> u64" where
  "pm_bits_upto p n =
     foldl (\<lambda>pm i. pm(i div 8 := (pm (i div 8))(2 ^ (i mod 8) := MULx64 (pm ((i - 1) div 8) (2 ^ ((i - 1) mod 8))) 0x1b)))
       ((\<lambda>_ _. 0)(0 := (\<lambda>_. 0)(1 := p))) [1..<n]"

lemma pm_bits_eq: "pm_bits p = pm_bits_upto p 64"
  unfolding pm_bits_def pm_bits_upto_def by (simp only: Let_def pm_step [unfolded Let_def])

lemma pow2_inj: "(2 :: nat) ^ a = 2 ^ b \<longleftrightarrow> a = b"
  by simp

lemma pm_bits_upto:
  assumes "1 \<le> n"
  shows "(\<forall>i < n. pm_bits_upto p n (i div 8) (2 ^ (i mod 8)) = MULxPOW64 p i 0x1b) \<and> (\<forall>r. pm_bits_upto p n r 0 = 0)"
  using assms
proof (induction n rule: dec_induct)
  case base
  then show ?case by (simp add: pm_bits_upto_def)
next
  case (step n)
  let ?pm = "pm_bits_upto p n"
  have prev: "?pm ((n - 1) div 8) (2 ^ ((n - 1) mod 8)) = MULxPOW64 p (n - 1) 0x1b" using step.IH step.hyps by simp
  have pow: "MULxPOW64 p n 0x1b = MULx64 (MULxPOW64 p (n - 1) 0x1b) 0x1b" using step.hyps by (cases n) simp_all
  have upt: "[1..<Suc n] = [1..<n] @ [n]" using step.hyps by simp
  have eq: "pm_bits_upto p (Suc n) = ?pm(n div 8 := (?pm (n div 8))(2 ^ (n mod 8) := MULxPOW64 p n 0x1b))"
    unfolding pow prev [symmetric] unfolding pm_bits_upto_def upt by (simp only: foldl_append foldl.simps)
  have same: "i div 8 = n div 8 \<Longrightarrow> i mod 8 = n mod 8 \<Longrightarrow> i = n" for i by (metis div_mod_decomp)
  have new: "pm_bits_upto p (Suc n) (i div 8) (2 ^ (i mod 8)) = MULxPOW64 p i 0x1b" if "i < Suc n" for i
    using step.IH that same [of i] by (cases "i = n") (auto simp: eq pow2_inj less_Suc_eq)
  moreover have "\<forall>r. pm_bits_upto p (Suc n) r 0 = 0" using step.IH by (simp add: eq)
  ultimately show ?case by blast
qed

text \<open>The sums in a row.\<close>

definition row_ok :: "(nat \<Rightarrow> u64) \<Rightarrow> (nat \<Rightarrow> u64) \<Rightarrow> nat \<Rightarrow> bool" where
  "row_ok f row n \<longleftrightarrow> (\<forall>b < n. row b = xsum f 8 (bit b)) \<and> (\<forall>j < 8. row (2 ^ j) = f j)"

lemma row_ok_upd:
  "row_ok f row n \<Longrightarrow> v = xsum f 8 (bit n) \<Longrightarrow> (\<And>i. n \<noteq> 2 ^ i) \<Longrightarrow> row_ok f (row(n := v)) (Suc n)"
  by (auto simp: row_ok_def less_Suc_eq)

lemma bit_add_pow2:
  assumes "k < 2 ^ j"
  shows "bit (2 ^ j + k :: nat) i = (i = j \<or> bit k i)"
proof -
  have "\<not> bit k j" using assms by (simp add: bit_iff_odd)
  then have "2 ^ j AND k = 0" by (auto intro!: bit_eqI simp: bit_simps)
  then have "2 ^ j + k = 2 ^ j OR k" by (simp add: disjunctive_add_eq_or)
  then show ?thesis by (auto simp: bit_simps)
qed

lemma bit_small: "k < 2 ^ j \<Longrightarrow> j \<le> i \<Longrightarrow> \<not> bit (k :: nat) i"
  by (simp add: bit_iff_odd) (metis div_less even_zero less_le_trans one_le_numeral power_increasing)

lemma xsum_add_bit:
  assumes "k < 2 ^ j" and "j < 8"
  shows "xsum f 8 (bit (2 ^ j + k :: nat)) = f j XOR xsum f 8 (bit k)"
proof -
  have "xsum f n (bit (2 ^ j + k :: nat)) = (if j < n then f j else 0) XOR xsum f n (bit k)" for n
    using bit_small [OF assms(1), of j]
    by (induction n) (auto simp: bit_add_pow2 [OF assms(1)] xor.assoc xor.commute xor.left_commute less_Suc_eq)
  then show ?thesis using assms(2) by simp
qed

lemma row_sums:
  assumes "row_ok f row (2 ^ j)" and "j < 8" and "1 \<le> m" and "m \<le> 2 ^ j"
  shows "row_ok f (foldl (\<lambda>row k. row(2 ^ j + k := row (2 ^ j) XOR row k)) row [1..<m]) (2 ^ j + m)"
  using assms(3,4)
proof (induction m rule: dec_induct)
  case base
  have "xsum f 8 (bit (2 ^ j :: nat)) = f j" using xsum_add_bit [of 0 j f] assms(2) by (simp add: xsum_mono [of 0])
  then show ?case using assms(1,2) by (auto simp: row_ok_def less_Suc_eq)
next
  case (step m)
  let ?row = "foldl (\<lambda>row k. row(2 ^ j + k := row (2 ^ j) XOR row k)) row [1..<m]"
  have ok: "row_ok f ?row (2 ^ j + m)" by (rule step.IH) (use step.prems in simp)
  have m: "m < 2 ^ j" using step.prems by simp
  have v: "?row (2 ^ j) XOR ?row m = xsum f 8 (bit (2 ^ j + m))"
    using ok m assms(2) step.hyps(1) xsum_add_bit [OF m assms(2), of f] by (auto simp: row_ok_def)
  have ne: "2 ^ j + m \<noteq> 2 ^ i" for i
  proof
    assume "2 ^ j + m = 2 ^ i"
    then have eq: "(2 :: nat) ^ i = 2 ^ j + m" by (rule sym)
    have lt: "(2 :: nat) ^ j < 2 ^ i" "(2 :: nat) ^ i < 2 ^ Suc j" unfolding eq using m step.hyps(1) by auto
    have "j < i" "i < Suc j" by (rule power_less_imp_less_exp [OF _ lt(1)], simp, rule power_less_imp_less_exp [OF _ lt(2)], simp)
    then show False by simp
  qed
  have upt: "[1..<Suc m] = [1..<m] @ [m]" using step.hyps(1) by simp
  show ?case unfolding upt foldl_append foldl.simps add_Suc_right by (rule row_ok_upd [OF ok v ne])
qed

lemma pm_row_ok:
  assumes "row 0 = 0" and "\<And>j. j < 8 \<Longrightarrow> row (2 ^ j) = f j" and "b < 256"
  shows "pm_row row b = xsum f 8 (bit b)"
proof -
  let ?step = "\<lambda>row j. foldl (\<lambda>row k. row(2 ^ j + k := row (2 ^ j) XOR row k)) row [1..<2 ^ j :: nat]"
  have "row_ok f (foldl ?step row [1..<n]) (2 ^ n)" if "1 \<le> n" "n \<le> 8" for n
    using that
  proof (induction n rule: dec_induct)
    case base
    have "xsum f 8 (bit (0 :: nat)) = 0" by (simp add: xsum_mono [of 0])
    moreover have "xsum f 8 (bit (1 :: nat)) = f 0" using xsum_add_bit [of 0 0 f] by (simp add: xsum_mono [of 0])
    ultimately show ?case using assms(1,2) assms(2) [of 0] by (auto simp: row_ok_def less_Suc_eq numeral_2_eq_2)
  next
    case (step n)
    have ih: "row_ok f (foldl ?step row [1..<n]) (2 ^ n)" by (rule step.IH) (use step.prems in simp)
    have "row_ok f (?step (foldl ?step row [1..<n]) n) (2 ^ n + 2 ^ n)"
      by (rule row_sums [OF ih]) (use step.prems in auto)
    moreover have "[1..<Suc n] = [1..<n] @ [n]" using step.hyps(1) by simp
    ultimately show ?case by (simp only: foldl_append foldl.simps mult_2 power_Suc)
  qed
  from this [of 8] show ?thesis using assms(3) by (simp add: row_ok_def pm_row_def)
qed

text \<open>The table multiplication is the bitwise multiplication.\<close>

lemma pm_table_entry:
  assumes "r < 8" and "b < 256"
  shows "pm_table p r b = xsum (\<lambda>j. MULxPOW64 p (8 * r + j) 0x1b) 8 (bit b)"
  unfolding pm_table_def
proof (rule pm_row_ok [OF _ _ assms(2)])
  show "pm_bits p r 0 = 0" using pm_bits_upto [of 64 p] by (simp add: pm_bits_eq)
  fix j :: nat assume "j < 8"
  then show "pm_bits p r (2 ^ j) = MULxPOW64 p (8 * r + j) 0x1b"
    using pm_bits_upto [of 64 p] assms(1) by (auto simp: pm_bits_eq dest: spec [of _ "8 * r + j"])
qed

lemma bit_byte64: "bit (unat (drop_bit (8 * k) x AND 255 :: u64)) j = (j < 8 \<and> bit x (8 * k + j))"
proof -
  have m: "(255 :: u64) = mask 8" by (simp add: mask_eq_exp_minus_1)
  show ?thesis unfolding m by (auto simp: bit_simps)
qed

lemma byte64_less: "unat (drop_bit k x AND 255 :: u64) < 256"
proof -
  have "drop_bit k x AND 255 \<le> (255 :: u64)" by (rule word_and_le1)
  then show ?thesis by (simp add: word_le_nat_alt)
qed

lemma mul_p_MUL64: "mul_p (pm_table p) x = MUL64 p x 0x1b"
proof -
  let ?f = "\<lambda>i. MULxPOW64 p i 0x1b"
  let ?g = "\<lambda>k. xsum (\<lambda>j. ?f (8 * k + j)) 8 (\<lambda>j. bit x (8 * k + j))"
  have e: "pm_table p k (unat (drop_bit (8 * k) x AND 255)) = ?g k" if "k < 8" for k
    unfolding pm_table_entry [OF that byte64_less] by (rule xsum_cong) (simp_all add: bit_byte64)
  have split: "xsum ?f (8 * Suc k) (bit x) = xsum ?f (8 * k) (bit x) XOR ?g k" for k
    using xsum_add [of ?f "8 * k" 8 "bit x"] by (simp add: algebra_simps)
  have "mul_p (pm_table p) x = ?g 0 XOR ?g 1 XOR ?g 2 XOR ?g 3 XOR ?g 4 XOR ?g 5 XOR ?g 6 XOR ?g 7"
    unfolding mul_p_def Let_def by (simp add: e [of 0, simplified] e [of 1, simplified] e [of 2, simplified] e [of 3, simplified] e [of 4, simplified]
        e [of 5, simplified] e [of 6, simplified] e [of 7, simplified])
  also have "\<dots> = xsum ?f 64 (bit x)"
    using split [of 0] split [of 1] split [of 2] split [of 3] split [of 4] split [of 5] split [of 6] split [of 7]
    by (simp add: xor.assoc)
  finally show ?thesis by (simp only: MUL64_xsum)
qed

end
