(* ===== verification/Pdcp_Transfer.thy ===== *)
theory Pdcp_Transfer
  imports Pdcp_Reception Snow3g_Correct
begin

text \<open>
  Two PDCP entities that are peers: a PDU built by one is deciphered, verified and stored by the
  other with the bytes of the SDU, and a sequence of PDUs that arrives in order is delivered as
  the sequence of SDUs.
\<close>

section \<open>Security functions\<close>

text \<open>
  What is used of the AES functions: counter mode keeps the length and is its own inverse, and a
  CMAC has at least the four bytes that are sent. \<open>junk\<close> has the size of the upper half of the
  register.
\<close>

definition crypto_ok :: "crypto_env \<Rightarrow> bool" where
  "crypto_ok env \<longleftrightarrow> length (junk env) = 16 \<and>
     (\<forall>k iv m. length (aes_ctr env k iv m) = length m \<and> aes_ctr env k iv (aes_ctr env k iv m) = m) \<and>
     (\<forall>k m. 4 \<le> length (aes_cmac env k m))"

lemma nea1_inverse:
  assumes "length (junk env) = 16" and "nr_pdcp_security_nea1_cipher env key buf bearer count direction = Some d"
  shows "length d = length buf \<and> nr_pdcp_security_nea1_cipher env key d bearer count direction = Some buf"
proof -
  have "d = snow3g_ciphering (junk env) count (uint (word_of_int (bearer - 1) :: u8)) (uint (word_of_int direction :: u8)) key buf"
    using assms(2) by (simp add: nr_pdcp_security_nea1_cipher_def)
  then show ?thesis unfolding nr_pdcp_security_nea1_cipher_def
    by (simp only: length_snow3g_ciphering [OF assms(1)] snow3g_ciphering_twice [OF assms(1)])
qed

lemma nea2_inverse:
  assumes "crypto_ok env" and "nr_pdcp_security_nea2_cipher env key buf bearer count direction = Some d"
  shows "length d = length buf \<and> nr_pdcp_security_nea2_cipher env key d bearer count direction = Some buf"
proof -
  have law: "length (aes_128_ctr env k iv m) = length m" "aes_128_ctr env k iv (aes_128_ctr env k iv m) = m" for k iv m
    using assms(1) by (simp_all add: crypto_ok_def aes_128_ctr_def)
  have g: "length buf > 0 \<and> bearer > -1 \<and> bearer < 32 \<and> direction > -1 \<and> direction < 2"
    using assms(2) unfolding nr_pdcp_security_nea2_cipher_def by (simp split: if_splits)
  then have "d = aes_128_ctr env key (data_iv16 count (bearer - 1) direction) buf"
    using assms(2) by (simp add: nr_pdcp_security_nea2_cipher_def)
  then show ?thesis unfolding nr_pdcp_security_nea2_cipher_def by (simp only: law g simp_thms if_True)
qed

lemma pdcp_cipher_inverse:
  assumes "crypto_ok env" and "pdcp_cipher env ctx buf bearer count direction = Some d"
  shows "length d = length buf" and "pdcp_cipher env ctx d bearer count direction = Some buf"
proof -
  obtain alg key where c: "ctx = Some (alg, key)" using assms(2) by (cases ctx) (auto simp: pdcp_cipher_def)
  have "length d = length buf \<and> pdcp_cipher env ctx d bearer count direction = Some buf"
  proof (cases "alg = 2")
    case True
    then have eq: "pdcp_cipher env ctx x bearer count direction = nr_pdcp_security_nea2_cipher env key x bearer count direction" for x
      by (simp add: c pdcp_cipher_def)
    show ?thesis unfolding eq by (rule nea2_inverse [OF assms(1) assms(2) [unfolded eq]])
  next
    case False
    then have eq: "pdcp_cipher env ctx x bearer count direction = nr_pdcp_security_nea1_cipher env key x bearer count direction" for x
      by (simp add: c pdcp_cipher_def)
    show ?thesis unfolding eq by (rule nea1_inverse [OF conjunct1 [OF assms(1) [unfolded crypto_ok_def]] assms(2) [unfolded eq]])
  qed
  then show "length d = length buf" "pdcp_cipher env ctx d bearer count direction = Some buf" by simp_all
qed

lemma length_snow3g_integrity: "snow3g_integrity j c b d k m = Some mac \<Longrightarrow> length mac = 4"
  by (auto simp: snow3g_integrity_def snow3g_integrity_fresh_def Let_def be_bytes_def split: if_splits)

lemma length_pdcp_integrity:
  assumes "crypto_ok env" and "pdcp_integrity env ctx buf bearer count direction = Some mac"
  shows "length mac = 4"
  using assms
  by (auto simp: pdcp_integrity_def crypto_ok_def nr_pdcp_integrity_nia1_integrity_def nr_pdcp_integrity_nia2_integrity_def
      cipher_aes_128_cbc_cmac_def min_absorb1 split: option.splits if_splits dest: length_snow3g_integrity)

section \<open>Peers\<close>

definition pdcp_peers :: "nr_pdcp_entity \<Rightarrow> nr_pdcp_entity \<Rightarrow> bool" where
  "pdcp_peers tx rx \<longleftrightarrow> pdcp_config tx \<and> pdcp_config rx \<and> sn_size rx = sn_size tx \<and> pdcp_type rx = pdcp_type tx \<and>
     pdcp_is_gnb rx = (\<not> pdcp_is_gnb tx) \<and> pdcp_rb_id rx = pdcp_rb_id tx \<and> has_sdap_rx rx = has_sdap_tx tx \<and>
     has_ciphering rx = has_ciphering tx \<and> has_integrity rx = has_integrity tx \<and>
     (has_ciphering tx \<longrightarrow> cipher_context rx = cipher_context tx) \<and>
     (has_integrity tx \<longrightarrow> integrity_context rx = integrity_context tx) \<and> \<not> entity_suspended tx \<and> \<not> entity_suspended rx"

definition pdcp_static :: "nr_pdcp_entity \<Rightarrow> nr_pdcp_entity" where
  "pdcp_static e =
     e\<lparr>tx_next := 0, rx_next := 0, rx_deliv := 0, rx_reord := 0, pdcp_t_current := 0, t_reordering_start := 0,
       pdcp_rx_list := [], pdcp_rx_size := 0, pdcp_stats := zero_pdcp_stats, pdcp_delivered := []\<rparr>"

lemma static_simps:
  "pdcp_type (pdcp_static e) = pdcp_type e" "pdcp_is_gnb (pdcp_static e) = pdcp_is_gnb e" "pdcp_rb_id (pdcp_static e) = pdcp_rb_id e"
  "has_sdap_rx (pdcp_static e) = has_sdap_rx e" "has_sdap_tx (pdcp_static e) = has_sdap_tx e" "sn_size (pdcp_static e) = sn_size e"
  "sn_max (pdcp_static e) = sn_max e" "window_size (pdcp_static e) = window_size e" "has_ciphering (pdcp_static e) = has_ciphering e"
  "has_integrity (pdcp_static e) = has_integrity e" "cipher_context (pdcp_static e) = cipher_context e"
  "integrity_context (pdcp_static e) = integrity_context e" "entity_suspended (pdcp_static e) = entity_suspended e"
  by (simp_all add: pdcp_static_def)

lemma static_frame:
  "pdcp_static (e\<lparr>pdcp_stats := st\<rparr>) = pdcp_static e" "pdcp_static (count_rx_pdu e n sn) = pdcp_static e"
  "pdcp_static (count_tx_pdu e n) = pdcp_static e" "pdcp_static (deliver_from e c) = pdcp_static e"
  "pdcp_static (reordering_timer e) = pdcp_static e" "pdcp_static (store_and_deliver e sdu n) = pdcp_static e"
  "pdcp_static (nr_pdcp_entity_set_time e t) = pdcp_static e"
proof -
  have d: "pdcp_static (deliver_sdus x a b) = pdcp_static x" for x a b by (simp add: pdcp_static_def deliver_sdus_def Let_def)
  have u: "pdcp_static (x\<lparr>rx_deliv := a\<rparr>) = pdcp_static x" "pdcp_static (x\<lparr>t_reordering_start := c\<rparr>) = pdcp_static x"
    "pdcp_static (x\<lparr>rx_reord := a\<rparr>) = pdcp_static x" "pdcp_static (x\<lparr>pdcp_t_current := c\<rparr>) = pdcp_static x"
    "pdcp_static (stored x sdu n) = pdcp_static x" for x a c by (simp_all add: pdcp_static_def stored_def)
  have f: "pdcp_static (deliver_from x c) = pdcp_static x" for x c
    by (simp add: deliver_from_def case_prod_unfold Let_def u d)
  have r: "pdcp_static (reordering_timer x) = pdcp_static x" for x by (simp add: reordering_timer_def Let_def u)
  show "pdcp_static (deliver_from e c) = pdcp_static e" by (rule f)
  show "pdcp_static (reordering_timer e) = pdcp_static e" by (rule r)
  show "pdcp_static (store_and_deliver e sdu n) = pdcp_static e" unfolding store_and_deliver_stored r by (simp add: f u)
  have "pdcp_static (flushed x) = pdcp_static x" for x by (simp add: flushed_def Let_def f d u)
  then show "pdcp_static (nr_pdcp_entity_set_time e t) = pdcp_static e"
    by (simp add: nr_pdcp_entity_set_time_def check_t_reordering_flushed u)
qed (simp_all add: pdcp_static_def count_rx_pdu_def count_tx_pdu_def Let_def)

lemma peers_static:
  assumes "pdcp_peers tx rx" and "pdcp_static tx' = pdcp_static tx" and "pdcp_static rx' = pdcp_static rx"
  shows "pdcp_peers tx' rx'"
proof -
  have "pdcp_peers (pdcp_static a) (pdcp_static b) = pdcp_peers a b" for a b
    by (simp add: pdcp_peers_def pdcp_config_def static_simps)
  then show ?thesis using assms by metis
qed

lemma peers_direction: "pdcp_peers tx rx \<Longrightarrow> rx_direction rx = tx_direction tx"
  by (simp add: pdcp_peers_def rx_direction_def tx_direction_def)

lemma peers_sizes: "pdcp_peers tx rx \<Longrightarrow> pdcp_header_size rx = pdcp_header_size tx \<and> pdcp_integrity_size rx = pdcp_integrity_size tx"
  by (simp add: pdcp_peers_def pdcp_header_size_def pdcp_integrity_size_def)

lemma pdcp_header_size_cases: "pdcp_header_size e = 2 \<or> pdcp_header_size e = 3"
  by (simp add: pdcp_header_size_def SHORT_PDCP_HEADER_SIZE_def LONG_PDCP_HEADER_SIZE_def)

lemma pdcp_integrity_size_cases: "pdcp_integrity_size e = 0 \<or> pdcp_integrity_size e = 4"
  by (simp add: pdcp_integrity_size_def PDCP_INTEGRITY_SIZE_def)

lemma length_pdcp_header [simp]: "length (pdcp_header e sn) = nat (pdcp_header_size e)"
  by (simp add: pdcp_header_def pdcp_header_size_def SHORT_PDCP_HEADER_SIZE_def LONG_PDCP_HEADER_SIZE_def Let_def)

lemma pdcp_header_data:
  assumes "pdcp_type e \<noteq> NR_PDCP_SRB"
  shows "pdcp_header e sn ! 0 AND 0x80 \<noteq> 0"
proof -
  have "bit (word_of_int (128 OR x) :: u8) 7" for x by (simp add: bit_simps)
  moreover have "bit (128 :: u8) 7" by (simp add: bit_numeral_rec)
  ultimately have "bit ((word_of_int (128 OR x) :: u8) AND 128) 7" for x by (simp add: bit_and_iff)
  then have "(word_of_int (128 OR x) :: u8) AND 128 \<noteq> 0" for x by (metis bit_0_eq bot_apply bot_bool_def)
  moreover have "pdcp_type e = NR_PDCP_DRB_AM \<or> pdcp_type e = NR_PDCP_DRB_UM" using assms by (cases "pdcp_type e") auto
  ultimately show ?thesis by (simp add: pdcp_header_def Let_def)
qed

lemma tx_sn_mod: "pdcp_config e \<Longrightarrow> tx_sn e = uint (tx_next e) mod 2 ^ nat (sn_size e)"
  unfolding tx_sn_def pdcp_config_def by (elim conjE) (simp only: uint_low_field)

lemma length_pdcp_mac: "crypto_ok env \<Longrightarrow> pdcp_mac env e m = Some mac \<Longrightarrow> int (length mac) = pdcp_integrity_size e"
  by (auto simp: pdcp_mac_def pdcp_integrity_size_def PDCP_INTEGRITY_SIZE_def dest: length_pdcp_integrity split: if_splits)

section \<open>A PDU at the peer\<close>

lemma built_pdu:
  assumes "crypto_ok env" and "pdcp_peers tx rx" and "build_pdu env tx sdu = Some pdu"
  obtains xs mac where "pdu = pdcp_header tx (tx_sn tx) @ xs"
    and "int (length pdu) = pdcp_header_size tx + int (length sdu) + pdcp_integrity_size tx"
    and "decipher_pdu env rx (nat (pdcp_header_size tx + (if has_sdap_tx tx then 1 else 0))) (tx_next tx) pdu =
           Some (pdcp_header tx (tx_sn tx) @ sdu @ mac)"
    and "int (length mac) = pdcp_integrity_size tx" and "pdcp_mac env tx (pdcp_header tx (tx_sn tx) @ sdu) = Some mac"
proof -
  let ?h = "pdcp_header tx (tx_sn tx)" and ?k = "if has_sdap_tx tx then 1 else 0 :: nat"
  obtain mac where mac: "pdcp_mac env tx (?h @ sdu) = Some mac"
    and enc: "encipher_pdu env tx (length ?h + ?k) (?h @ sdu @ mac) = Some pdu"
    using assms(3) unfolding build_pdu_def Let_def bind_eq_Some_conv by blast
  have len: "int (length mac) = pdcp_integrity_size tx" by (rule length_pdcp_mac [OF assms(1) mac])
  have off: "nat (pdcp_header_size tx + (if has_sdap_tx tx then 1 else 0)) = length ?h + ?k"
    using pdcp_header_size_cases [of tx] by auto
  have hs: "int (length ?h) = pdcp_header_size tx" using pdcp_header_size_cases [of tx] by auto
  show ?thesis
  proof (cases "has_ciphering tx")
    case True
    let ?buf = "sdu @ mac"
    obtain d where d: "pdcp_cipher env (cipher_context tx) (drop ?k ?buf) (pdcp_rb_id tx) (tx_next tx) (tx_direction tx) = Some d"
      "pdu = ?h @ take ?k ?buf @ d" "?k \<le> length ?buf"
      using enc True by (auto simp: encipher_pdu_def not_less split: if_splits)
    note inv = pdcp_cipher_inverse [OF assms(1) d(1)]
    have "length (?h @ take ?k ?buf) = length ?h + ?k" using d(3) by simp
    then have drp: "drop (length ?h + ?k) pdu = d" and tk: "take (length ?h + ?k) pdu = ?h @ take ?k ?buf"
      unfolding d(2) by (metis append.assoc append_eq_conv_conj)+
    have "decipher_pdu env rx (length ?h + ?k) (tx_next tx) pdu = Some (?h @ take ?k ?buf @ drop ?k ?buf)"
      using True assms(2) inv(2) peers_direction [OF assms(2)] unfolding decipher_pdu_def drp tk
      by (simp add: pdcp_peers_def)
    then have dec: "decipher_pdu env rx (length ?h + ?k) (tx_next tx) pdu = Some (?h @ sdu @ mac)"
      by (simp only: append_take_drop_id)
    have "int (length pdu) = pdcp_header_size tx + int (length sdu) + pdcp_integrity_size tx"
      using inv(1) d(3) len hs unfolding d(2) by auto
    then show ?thesis using that [OF d(2) _ _ len mac] dec off by simp
  next
    case False
    then have pdu: "pdu = ?h @ sdu @ mac" using enc by (simp add: encipher_pdu_def)
    have "has_ciphering rx = False" using False assms(2) by (simp add: pdcp_peers_def)
    then have dec: "decipher_pdu env rx (length ?h + ?k) (tx_next tx) pdu = Some (?h @ sdu @ mac)"
      by (simp add: decipher_pdu_def pdu)
    have "int (length pdu) = pdcp_header_size tx + int (length sdu) + pdcp_integrity_size tx"
      using len hs unfolding pdu by simp
    then show ?thesis using that [OF pdu _ _ len mac] dec off by simp
  qed
qed

lemma built_integrity:
  assumes "crypto_ok env" and "pdcp_peers tx rx" and "pdcp_mac env tx msg = Some mac"
  shows "integrity_passes env rx (tx_next tx) (msg @ mac) = Some True"
proof (cases "has_integrity tx")
  case True
  have l: "nat (pdcp_integrity_size rx) = length mac"
    using length_pdcp_mac [OF assms(1,3)] peers_sizes [OF assms(2)] by simp
  show ?thesis using True assms(2,3) peers_direction [OF assms(2)]
    unfolding integrity_passes_def Let_def l by (simp add: pdcp_mac_def pdcp_peers_def)
next
  case False
  then show ?thesis using assms(2) by (simp add: integrity_passes_def pdcp_peers_def)
qed

lemma count_rx_pdu_frame [simp]:
  "decipher_pdu env (count_rx_pdu e n sn) = decipher_pdu env e"
  "integrity_passes env (count_rx_pdu e n sn) = integrity_passes env e"
  "pdcp_header_size (count_rx_pdu e n sn) = pdcp_header_size e"
  "pdcp_integrity_size (count_rx_pdu e n sn) = pdcp_integrity_size e"
  "rcvd_count (count_rx_pdu e n sn) = rcvd_count e"
  "has_sdap_rx (count_rx_pdu e n sn) = has_sdap_rx e" "rx_deliv (count_rx_pdu e n sn) = rx_deliv e"
  "pdcp_rx_list (count_rx_pdu e n sn) = pdcp_rx_list e" "pdcp_msg_integrity (count_rx_pdu e n sn) = pdcp_msg_integrity e"
  by (rule ext | simp add: count_rx_pdu_def decipher_pdu_def integrity_passes_def pdcp_integrity_size_def pdcp_header_size_def
      rcvd_count_def rx_direction_def pdcp_msg_integrity_def cong: if_cong)+

text \<open>Within the reception window, the receiver stores the SDU unless it has its COUNT already.\<close>

definition stored_or_discarded :: "nr_pdcp_entity \<Rightarrow> nr_pdcp_entity \<Rightarrow> u8 list \<Rightarrow> u8 list \<Rightarrow> nr_pdcp_entity" where
  "stored_or_discarded tx rx sdu pdu =
     (let e = count_rx_pdu rx (int (length pdu)) (tx_sn tx)
      in if tx_next tx < rx_deliv rx \<or> nr_pdcp_sdu_in_list (pdcp_rx_list rx) (tx_next tx) then pdcp_discard e (int (length pdu))
         else store_and_deliver e (nr_pdcp_new_sdu (tx_next tx) sdu (pdcp_msg_integrity rx (tx_next tx) pdu)) (int (length pdu)))"

lemma recv_decoded:
  assumes cfg: "pdcp_config tx" "pdcp_config rx" "sn_size rx = sn_size tx" "pdcp_type rx = pdcp_type tx" "\<not> entity_suspended rx"
    and pdu: "pdu = pdcp_header tx (tx_sn tx) @ xs"
      "int (length pdu) = pdcp_header_size rx + int (length sdu) + pdcp_integrity_size rx"
    and dec: "decipher_pdu env rx (nat (pdcp_header_size rx + (if has_sdap_rx rx then 1 else 0))) (tx_next tx) pdu =
        Some (pdcp_header tx (tx_sn tx) @ sdu @ mac)"
    and ok: "integrity_passes env rx (tx_next tx) (pdcp_header tx (tx_sn tx) @ sdu @ mac) = Some True"
    and len: "length sdu > (if has_sdap_rx rx then 1 else 0)"
    and window: "uint (rx_deliv rx) - window_size rx \<le> uint (tx_next tx)" "uint (tx_next tx) < uint (rx_deliv rx) + window_size rx"
  shows "nr_pdcp_entity_recv_pdu env rx pdu = Some (stored_or_discarded tx rx sdu pdu)"
proof -
  let ?h = "pdcp_header tx (tx_sn tx)" and ?n = "int (length pdu)" and ?e = "count_rx_pdu rx (int (length pdu)) (tx_sn tx)"
  have sz: "pdcp_header_size rx = pdcp_header_size tx" using cfg(3) by (simp add: pdcp_header_size_def)
  have hs: "length ?h = nat (pdcp_header_size rx)" "0 < length ?h" using pdcp_header_size_cases [of tx] sz by auto
  have sn: "0 \<le> tx_sn tx" "tx_sn tx < 2 ^ nat (sn_size tx)" by (simp_all add: tx_sn_mod [OF cfg(1)])
  have "pdu ! 0 = ?h ! 0" using hs(2) unfolding pdu(1) by (simp only: nth_append) simp
  then have mark: "mark_data_pdu rx pdu = pdu" using pdcp_header_data [of tx "tx_sn tx"] cfg(4) by (auto simp: mark_data_pdu_def)
  have read: "read_sn rx pdu = Some (tx_sn tx)" unfolding pdu(1) by (rule read_pdcp_header [OF cfg(1,3) sn])
  have cnt: "rcvd_count rx (tx_sn tx) = tx_next tx"
    using rcvd_count_window [OF cfg(2) window] by (simp add: tx_sn_mod [OF cfg(1)] cfg(3))
  have n: "\<not> ?n < 1" "\<not> ?n < pdcp_header_size rx + (if has_sdap_rx rx then 1 else 0) + pdcp_integrity_size rx + 1"
    using pdu(2) len pdcp_header_size_cases [of rx] pdcp_integrity_size_cases [of rx] by (auto split: if_splits)
  have "nat (?n - pdcp_integrity_size rx) = length (?h @ sdu)" using pdu(2) hs(1) pdcp_header_size_cases [of rx] by auto
  then have cut: "drop (nat (pdcp_header_size rx)) (take (nat (?n - pdcp_integrity_size rx)) (?h @ sdu @ mac)) = sdu"
    using hs(1) by simp
  have acc: "accept_pdu env ?e (tx_next tx) pdu = Some (stored_or_discarded tx rx sdu pdu)"
    unfolding accept_pdu_def stored_or_discarded_def Let_def count_rx_pdu_frame using dec ok cut by simp
  show ?thesis using cfg(5) n mark read acc cnt by (simp add: nr_pdcp_entity_recv_pdu_def Let_def)
qed

lemma recv_built_pdu:
  assumes "crypto_ok env" and "pdcp_peers tx rx" and "build_pdu env tx sdu = Some pdu"
    and "length sdu > (if has_sdap_tx tx then 1 else 0)"
    and "uint (rx_deliv rx) - window_size rx \<le> uint (tx_next tx)" and "uint (tx_next tx) < uint (rx_deliv rx) + window_size rx"
  shows "nr_pdcp_entity_recv_pdu env rx pdu = Some (stored_or_discarded tx rx sdu pdu)"
proof -
  let ?h = "pdcp_header tx (tx_sn tx)"
  obtain xs mac where b: "pdu = ?h @ xs" "int (length pdu) = pdcp_header_size tx + int (length sdu) + pdcp_integrity_size tx"
    "decipher_pdu env rx (nat (pdcp_header_size tx + (if has_sdap_tx tx then 1 else 0))) (tx_next tx) pdu = Some (?h @ sdu @ mac)"
    "pdcp_mac env tx (?h @ sdu) = Some mac"
    by (rule built_pdu [OF assms(1-3)]) blast
  have p: "pdcp_config tx" "pdcp_config rx" "sn_size rx = sn_size tx" "has_sdap_rx rx = has_sdap_tx tx" "\<not> entity_suspended rx"
    "pdcp_type rx = pdcp_type tx" using assms(2) by (simp_all add: pdcp_peers_def)
  note sz = peers_sizes [OF assms(2)]
  have ok: "integrity_passes env rx (tx_next tx) (?h @ sdu @ mac) = Some True"
    using built_integrity [OF assms(1,2) b(4)] by simp
  show ?thesis
    by (rule recv_decoded [OF p(1-3,6,5) b(1) _ _ ok _ assms(5,6)]) (use b(2,3) sz p(4) assms(4) in simp_all)
qed

section \<open>Sequences in order\<close>

fun pdcp_send :: "crypto_env \<Rightarrow> nr_pdcp_entity \<Rightarrow> u8 list list \<Rightarrow> int \<Rightarrow> (nr_pdcp_entity \<times> u8 list list) option" where
  "pdcp_send env e [] pdu_max_size = Some (e, [])"
| "pdcp_send env e (sdu # sdus) pdu_max_size =
     Option.bind (nr_pdcp_entity_process_sdu env e sdu pdu_max_size) (\<lambda>(e', pdu).
       map_option (\<lambda>(e'', pdus). (e'', (case pdu of None \<Rightarrow> pdus | Some p \<Rightarrow> p # pdus))) (pdcp_send env e' sdus pdu_max_size))"

fun pdcp_receive :: "crypto_env \<Rightarrow> nr_pdcp_entity \<Rightarrow> u8 list list \<Rightarrow> nr_pdcp_entity option" where
  "pdcp_receive env e [] = Some e"
| "pdcp_receive env e (b # bs) = Option.bind (nr_pdcp_entity_recv_pdu env e b) (\<lambda>e'. pdcp_receive env e' bs)"

definition delivered_bytes :: "nr_pdcp_entity \<Rightarrow> u8 list list" where
  "delivered_bytes e = map sdu_buffer (pdcp_delivered e)"

text \<open>Peers where the receiver has delivered everything that was sent.\<close>

definition pdcp_synced :: "nr_pdcp_entity \<Rightarrow> nr_pdcp_entity \<Rightarrow> bool" where
  "pdcp_synced tx rx \<longleftrightarrow> pdcp_peers tx rx \<and> rx_deliv rx = tx_next tx \<and> rx_next rx = tx_next tx \<and> pdcp_rx_list rx = [] \<and>
     t_reordering_start rx = 0"

lemma synced_step:
  assumes "crypto_ok env" and "pdcp_synced tx rx" and "nr_pdcp_entity_process_sdu env tx sdu m = Some (tx', pdu)"
    and "length sdu > (if has_sdap_tx tx then 1 else 0)"
  obtains p rx' where "pdu = Some p" and "nr_pdcp_entity_recv_pdu env rx p = Some rx'" and "pdcp_synced tx' rx'"
    and "delivered_bytes rx' = delivered_bytes rx @ [sdu]" and "has_sdap_tx tx' = has_sdap_tx tx"
proof -
  have p: "pdcp_peers tx rx" "rx_deliv rx = tx_next tx" "rx_next rx = tx_next tx" "pdcp_rx_list rx = []" "t_reordering_start rx = 0"
    using assms(2) by (simp_all add: pdcp_synced_def)
  have susp: "\<not> entity_suspended tx" and cfg: "pdcp_config rx" using p(1) by (simp_all add: pdcp_peers_def)
  obtain b where b: "build_pdu env tx sdu = Some b" "tx' = count_tx_pdu tx (int (length sdu))" "pdu = Some b"
    using assms(3) susp by (auto simp: nr_pdcp_entity_process_sdu_def Let_def split: if_splits)
  have w: "uint (rx_deliv rx) - window_size rx \<le> uint (tx_next tx)" "uint (tx_next tx) < uint (rx_deliv rx) + window_size rx"
    using p(2) by (rule_tac [!] pdcp_configD [OF cfg]) simp_all
  let ?e = "count_rx_pdu rx (int (length b)) (tx_sn tx)"
    and ?s = "nr_pdcp_new_sdu (tx_next tx) sdu (pdcp_msg_integrity rx (tx_next tx) b)"
  let ?rx = "store_and_deliver ?e ?s (int (length b))"
  have r: "nr_pdcp_entity_recv_pdu env rx b = Some ?rx"
    using recv_built_pdu [OF assms(1) p(1) b(1) assms(4) w] p(2,4) by (simp add: nr_pdcp_sdu_in_list_def stored_or_discarded_def)
  let ?x = "deliver_from (stored ?e ?s (int (length b))) (tx_next tx)"
  have f: "rx_deliv ?e = tx_next tx" "rx_next ?e = tx_next tx" "pdcp_rx_list ?e = []" "pdcp_delivered ?e = pdcp_delivered rx"
    "t_reordering_start ?e = 0" using p by (simp_all add: count_rx_pdu_def)
  have x: "?rx = reordering_timer ?x" by (simp add: store_and_deliver_stored f p(2) nr_pdcp_new_sdu_def)
  have st: "pdcp_rx_list (stored ?e ?s (int (length b))) = [?s]" "rx_next (stored ?e ?s (int (length b))) = tx_next tx + 1"
    "pdcp_delivered (stored ?e ?s (int (length b))) = pdcp_delivered rx" "t_reordering_start (stored ?e ?s (int (length b))) = 0"
    by (simp_all add: stored_def f p(4) nr_pdcp_new_sdu_def)
  have d: "pdcp_rx_list ?x = []" "rx_deliv ?x = tx_next tx + 1" "pdcp_delivered ?x = pdcp_delivered rx @ [?s]"
    by (simp_all add: deliver_from_def st) (simp_all add: nr_pdcp_new_sdu_def)
  have n: "rx_next ?x = tx_next tx + 1" "t_reordering_start ?x = 0" by (simp_all add: st)
  have rt: "reordering_timer ?x = ?x" using d(2) n by (simp add: reordering_timer_def)
  have "pdcp_peers tx' ?rx"
    by (rule peers_static [OF p(1)]) (simp_all add: b(2) static_frame)
  then have "pdcp_synced tx' ?rx" using d n by (simp add: pdcp_synced_def x rt b(2) count_tx_pdu_def Let_def)
  moreover have "delivered_bytes ?rx = delivered_bytes rx @ [sdu]"
    by (simp add: delivered_bytes_def x rt d(3)) (simp add: nr_pdcp_new_sdu_def)
  moreover have "has_sdap_tx tx' = has_sdap_tx tx" by (simp add: b(2) count_tx_pdu_def Let_def)
  ultimately show ?thesis using that [OF b(3) r] by blast
qed

lemma synced_send:
  assumes "crypto_ok env" and "pdcp_synced tx rx" and "pdcp_send env tx sdus m = Some (tx', pdus)"
    and "\<forall>sdu \<in> set sdus. length sdu > (if has_sdap_tx tx then 1 else 0)"
  shows "length pdus = length sdus \<and> (\<forall>k. \<exists>rx'. pdcp_receive env rx (take k pdus) = Some rx' \<and>
     delivered_bytes rx' = delivered_bytes rx @ take k sdus)"
  using assms(2-4)
proof (induction sdus arbitrary: tx rx pdus)
  case (Cons sdu sdus)
  obtain tx1 p1 ps where s: "nr_pdcp_entity_process_sdu env tx sdu m = Some (tx1, p1)" "pdcp_send env tx1 sdus m = Some (tx', ps)"
    "pdus = (case p1 of None \<Rightarrow> ps | Some p \<Rightarrow> p # ps)" using Cons.prems(2) by (auto simp: bind_eq_Some_conv)
  obtain p rx1 where r: "p1 = Some p" "nr_pdcp_entity_recv_pdu env rx p = Some rx1" "pdcp_synced tx1 rx1"
    "delivered_bytes rx1 = delivered_bytes rx @ [sdu]" "has_sdap_tx tx1 = has_sdap_tx tx"
    by (rule synced_step [OF assms(1) Cons.prems(1) s(1)]) (use Cons.prems(3) in auto)
  have ih: "length ps = length sdus \<and> (\<forall>k. \<exists>rx'. pdcp_receive env rx1 (take k ps) = Some rx' \<and>
     delivered_bytes rx' = delivered_bytes rx1 @ take k sdus)"
    by (rule Cons.IH [OF r(3) s(2)]) (use Cons.prems(3) r(5) in simp)
  have "\<exists>rx'. pdcp_receive env rx (take k pdus) = Some rx' \<and> delivered_bytes rx' = delivered_bytes rx @ take k (sdu # sdus)" for k
  proof (cases k)
    case (Suc j)
    obtain rx' where "pdcp_receive env rx1 (take j ps) = Some rx'" "delivered_bytes rx' = delivered_bytes rx1 @ take j sdus"
      using ih by blast
    then show ?thesis using Suc r(1,2,4) s(3) by simp
  qed simp
  then show ?case using ih s(3) r(1) by simp
qed simp

end
