(* ===== verification/Pdcp_Security.thy ===== *)
theory Pdcp_Security
  imports Pdcp_Transfer
begin

text \<open>
  What the security functions of PDCP guarantee on the receiving side: reception never fails
  except on a PDU shorter than its header, an SDU is accepted only with a correct MAC-I, and the
  integrity of a message received before security was activated can be checked afterwards.
\<close>

section \<open>Totality\<close>

definition security_ready :: "nr_pdcp_entity \<Rightarrow> bool" where
  "security_ready e \<longleftrightarrow> (has_ciphering e \<longrightarrow> cipher_context e \<noteq> None) \<and> (has_integrity e \<longrightarrow> integrity_context e \<noteq> None) \<and>
     1 \<le> pdcp_rb_id e \<and> pdcp_rb_id e < 32"

lemma security_ready_static: "pdcp_static e' = pdcp_static e \<Longrightarrow> security_ready e' = security_ready e"
  unfolding security_ready_def by (metis static_simps)

lemma rx_effect_static: "rx_effect e e' \<Longrightarrow> pdcp_static e' = pdcp_static e"
  by (auto simp: rx_effect_def static_frame)

lemma set_security_ready:
  assumes "nr_pdcp_entity_set_security e par = Some e'" and "security_ready e"
  shows "security_ready e'"
proof -
  have i: "security_ready y" if "set_integrity x par = Some y" "security_ready x" for x y
    using that by (auto simp: set_integrity_def security_ready_def Let_def split: if_splits)
  have c: "security_ready y" if "set_ciphering x par = Some y" "security_ready x" for x y
    using that by (auto simp: set_ciphering_def security_ready_def Let_def split: if_splits)
  have k: "security_ready (e\<lparr>security_keys_and_algos := k\<rparr>)" for k using assms(2) by (simp add: security_ready_def)
  show ?thesis using assms(1) i [OF _ k] c unfolding nr_pdcp_entity_set_security_def Let_def bind_eq_Some_conv by blast
qed

lemma process_sdu_ready:
  assumes "nr_pdcp_entity_process_sdu env e b n = Some (e', pdu)" and "security_ready e"
  shows "security_ready e'"
  by (subst process_sdu_state [OF assms(1)]) (use assms(2) in \<open>simp add: security_ready_def\<close>)

lemma pdcp_step_ready: "pdcp_step env e ev = Some e' \<Longrightarrow> security_ready e \<Longrightarrow> security_ready e'"
  using security_ready_static [of e' e] rx_effect_static [OF recv_pdu_effect]
  by (cases ev) (auto simp: pdcp_step_def static_frame dest: set_security_ready process_sdu_ready)

lemma pdcp_run_ready: "pdcp_run env e evs = Some e' \<Longrightarrow> security_ready e \<Longrightarrow> security_ready e'"
  by (induction evs arbitrary: e) (auto simp: bind_eq_Some_conv dest: pdcp_step_ready)

lemma new_entity_ready:
  assumes "new_nr_pdcp_entity typ g rb pdu sr st sn tr dt par = Some e" and "1 \<le> rb" and "rb < 32"
  shows "security_ready e"
  by (rule set_security_ready [OF assms(1) [unfolded new_nr_pdcp_entity_def]]) (use assms(2,3) in \<open>simp add: security_ready_def\<close>)

lemma pdcp_cipher_total:
  assumes "ctx \<noteq> None" and "buf \<noteq> []" and "1 \<le> bearer" and "bearer < 32" and "direction = 0 \<or> direction = 1"
  shows "\<exists>d. pdcp_cipher env ctx buf bearer count direction = Some d"
  using assms by (auto simp: pdcp_cipher_def nr_pdcp_security_nea1_cipher_def nr_pdcp_security_nea2_cipher_def)

lemma pdcp_integrity_total:
  assumes "ctx \<noteq> None" and "msg \<noteq> []" and "1 \<le> bearer" and "bearer < 32"
  shows "\<exists>mac. pdcp_integrity env ctx msg bearer count direction = Some mac"
proof -
  have "\<not> (length msg * 8 + 63) div 64 + 1 < 2" using assms(2) by (cases msg) auto
  then show ?thesis using assms
    by (auto simp: pdcp_integrity_def nr_pdcp_integrity_nia1_integrity_def nr_pdcp_integrity_nia2_integrity_def
        snow3g_integrity_def snow3g_integrity_fresh_def Let_def)
qed

lemma rx_direction_cases: "rx_direction e = 0 \<or> rx_direction e = 1"
  by (simp add: rx_direction_def)

lemma decipher_total:
  assumes "crypto_ok env" and "security_ready e" and "off < length b"
  shows "\<exists>b1. decipher_pdu env e off count b = Some b1 \<and> length b1 = length b"
proof (cases "has_ciphering e")
  case True
  obtain d where d: "pdcp_cipher env (cipher_context e) (drop off b) (pdcp_rb_id e) count (rx_direction e) = Some d"
    using pdcp_cipher_total [OF _ _ _ _ rx_direction_cases] assms(2,3) True by (metis drop_eq_Nil not_le security_ready_def)
  then show ?thesis using pdcp_cipher_inverse(1) [OF assms(1) d] True assms(3) by (simp add: decipher_pdu_def)
qed (simp add: decipher_pdu_def)

lemma integrity_total:
  assumes "security_ready e" and "nat (pdcp_integrity_size e) < length b"
  shows "\<exists>ok. integrity_passes env e count b = Some ok"
proof (cases "has_integrity e")
  case True
  have "take (length b - nat (pdcp_integrity_size e)) b \<noteq> []" using assms(2) by auto
  then show ?thesis using pdcp_integrity_total [of "integrity_context e"] assms(1) True
    by (auto simp: integrity_passes_def security_ready_def Let_def)
qed (auto simp: integrity_passes_def)

lemma length_mark_data_pdu [simp]: "length (mark_data_pdu e b) = length b"
  by (simp add: mark_data_pdu_def)

lemma recv_pdu_total:
  assumes "crypto_ok env" and "security_ready e" and "pdcp_header_size e \<le> int (length b)"
  shows "\<exists>e'. nr_pdcp_entity_recv_pdu env e b = Some e'"
proof -
  let ?b = "mark_data_pdu e b" and ?n = "int (length b)"
  obtain sn where sn: "read_sn e ?b = Some sn" using assms(3) by (auto simp: read_sn_def)
  let ?e = "count_rx_pdu e ?n sn"
  have "\<exists>e'. accept_pdu env ?e count ?b = Some e'"
    if n: "\<not> ?n < pdcp_header_size e + (if has_sdap_rx e then 1 else 0) + pdcp_integrity_size e + 1" for count
  proof -
    have "nat (pdcp_header_size e + (if has_sdap_rx e then 1 else 0)) < length ?b"
      using n pdcp_header_size_cases [of e] pdcp_integrity_size_cases [of e] by (auto split: if_splits)
    from decipher_total [OF assms(1,2) this, of count] obtain b1 where b1: "decipher_pdu env e (nat (pdcp_header_size e + (if has_sdap_rx e then 1 else 0))) count ?b = Some b1"
      "length b1 = length b" by auto
    have "nat (pdcp_integrity_size e) < length b1"
      using n b1(2) pdcp_header_size_cases [of e] pdcp_integrity_size_cases [of e] by (auto split: if_splits)
    then obtain ok where "integrity_passes env e count b1 = Some ok" using integrity_total [OF assms(2)] by blast
    then show ?thesis unfolding accept_pdu_def Let_def count_rx_pdu_frame using b1(1) by simp
  qed
  from this [of "rcvd_count e sn"] show ?thesis using sn by (auto simp: nr_pdcp_entity_recv_pdu_def Let_def)
qed

lemma recv_pdu_short:
  assumes "\<not> entity_suspended e" and "b \<noteq> []" and "int (length b) < pdcp_header_size e"
  shows "nr_pdcp_entity_recv_pdu env e b = None"
  using assms by (simp add: nr_pdcp_entity_recv_pdu_def read_sn_def Let_def)

section \<open>Authenticity\<close>

lemma accept_pdu_authentic:
  assumes "accept_pdu env e count b = Some e'" and "has_integrity e" and "s \<in> set (accepted e')" and "s \<notin> set (accepted e)"
  obtains b1 where "decipher_pdu env e (nat (pdcp_header_size e + (if has_sdap_rx e then 1 else 0))) count b = Some b1"
    and "sdu_count s = count" and "sdu_buffer s = drop (nat (pdcp_header_size e)) (take (length b - 4) b1)"
    and "pdcp_integrity env (integrity_context e) (take (length b1 - 4) b1) (pdcp_rb_id e) count (rx_direction e) =
      Some (drop (length b1 - 4) b1)"
proof -
  let ?sdu = "\<lambda>b1. nr_pdcp_new_sdu count (drop (nat (pdcp_header_size e)) (take (nat (int (length b) - pdcp_integrity_size e)) b1))
      (pdcp_msg_integrity e count b)"
  have four: "pdcp_integrity_size e = 4" using assms(2) by (simp add: pdcp_integrity_size_def PDCP_INTEGRITY_SIZE_def)
  obtain b1 ok where a: "decipher_pdu env e (nat (pdcp_header_size e + (if has_sdap_rx e then 1 else 0))) count b = Some b1"
    "integrity_passes env e count b1 = Some ok"
    "e' = (if \<not> ok then pdcp_discard e (int (length b))
       else if count < rx_deliv e \<or> nr_pdcp_sdu_in_list (pdcp_rx_list e) count then pdcp_discard e (int (length b))
       else store_and_deliver e (?sdu b1) (int (length b)))"
    using assms(1) unfolding accept_pdu_def Let_def bind_eq_Some_conv map_option_eq_Some by blast
  have "accepted (pdcp_discard e n) = accepted e" for n by (simp add: pdcp_discard_def)
  then have "ok" "s = ?sdu b1" using a(3) assms(3,4) by (auto simp: store_and_deliver_accepted split: if_splits)
  then show ?thesis using that [OF a(1)] a(2) assms(2) four
    by (auto simp: integrity_passes_def Let_def nr_pdcp_new_sdu_def nat_diff_distrib')
qed

lemma recv_pdu_authentic:
  assumes "nr_pdcp_entity_recv_pdu env e b = Some e'" and "has_integrity e" and "s \<in> set (accepted e')" and "s \<notin> set (accepted e)"
  obtains b1 where "decipher_pdu env e (nat (pdcp_header_size e + (if has_sdap_rx e then 1 else 0))) (sdu_count s) (mark_data_pdu e b) = Some b1"
    and "sdu_buffer s = drop (nat (pdcp_header_size e)) (take (length b - 4) b1)"
    and "pdcp_integrity env (integrity_context e) (take (length b1 - 4) b1) (pdcp_rb_id e) (sdu_count s) (rx_direction e) =
      Some (drop (length b1 - 4) b1)"
proof -
  define n where "n = int (length b)"
  have "\<not> (entity_suspended e \<or> b = [])"
    using assms(1,3,4) by (auto simp: nr_pdcp_entity_recv_pdu_def split: if_splits)
  then obtain sn where c: "e' = pdcp_discard (count_rx_pdu e n sn) n \<or>
      accept_pdu env (count_rx_pdu e n sn) (rcvd_count e sn) (mark_data_pdu e b) = Some e'"
    using assms(1) unfolding nr_pdcp_entity_recv_pdu_def Let_def n_def
    by (auto simp: bind_eq_Some_conv split: if_splits)
  have f: "accepted (count_rx_pdu e n sn) = accepted e" "accepted (pdcp_discard x n) = accepted x"
    "has_integrity (count_rx_pdu e n sn) = has_integrity e" "integrity_context (count_rx_pdu e n sn) = integrity_context e"
    "pdcp_rb_id (count_rx_pdu e n sn) = pdcp_rb_id e" "rx_direction (count_rx_pdu e n sn) = rx_direction e" for x
    by (simp_all add: count_rx_pdu_def pdcp_discard_def rx_direction_def)
  have "accept_pdu env (count_rx_pdu e n sn) (rcvd_count e sn) (mark_data_pdu e b) = Some e'" using c assms(3,4) f by auto
  from accept_pdu_authentic [OF this, of s] assms(2-4) that show ?thesis
    unfolding f count_rx_pdu_frame by (metis length_mark_data_pdu)
qed

section \<open>Deferred check\<close>

text \<open>
  A protected message on a signalling bearer, received before integrity is active at the receiver,
  is stored with the data for a later check, which succeeds once the keys are set.
\<close>

lemma deferred_integrity:
  assumes "crypto_ok env" and "pdcp_type tx = NR_PDCP_SRB" "pdcp_type rx = NR_PDCP_SRB"
    and "pdcp_config tx" "pdcp_config rx" "sn_size rx = sn_size tx" "\<not> has_sdap_tx tx" "\<not> has_sdap_rx rx"
    and "has_integrity tx" "\<not> has_ciphering tx" "\<not> has_integrity rx" "\<not> has_ciphering rx" "\<not> entity_suspended rx"
    and "build_pdu env tx sdu = Some pdu" and "sdu \<noteq> []"
    and "uint (rx_deliv rx) - window_size rx \<le> uint (tx_next tx)" "uint (tx_next tx) < uint (rx_deliv rx) + window_size rx"
    and "has_integrity later" "integrity_context later = integrity_context tx" "pdcp_rb_id later = pdcp_rb_id tx"
      "pdcp_is_gnb later = (\<not> pdcp_is_gnb tx)"
  shows "nr_pdcp_entity_recv_pdu env rx pdu = Some (stored_or_discarded tx rx sdu pdu)"
    and "nr_pdcp_entity_check_integrity env later sdu (pdcp_msg_integrity rx (tx_next tx) pdu) = Some True"
proof -
  let ?h = "pdcp_header tx (tx_sn tx)"
  obtain mac where m: "pdcp_mac env tx (?h @ sdu) = Some mac" "pdu = ?h @ sdu @ mac"
    using assms(10,14) by (auto simp: build_pdu_def encipher_pdu_def Let_def bind_eq_Some_conv)
  have sz: "pdcp_integrity_size rx = 4" "pdcp_integrity_size tx = 4" "pdcp_header_size rx = pdcp_header_size tx"
    using assms(2,3,6) by (simp_all add: pdcp_integrity_size_def PDCP_INTEGRITY_SIZE_def pdcp_header_size_def)
  have l4: "length mac = 4" using length_pdcp_mac [OF assms(1) m(1)] sz(2) by simp
  have hs: "int (length ?h) = pdcp_header_size rx" using pdcp_header_size_cases [of tx] sz(3) by auto
  show "nr_pdcp_entity_recv_pdu env rx pdu = Some (stored_or_discarded tx rx sdu pdu)"
    by (rule recv_decoded [OF assms(4-6) _ assms(13) m(2) _ _ _ _ assms(16,17), where mac = mac])
      (use assms(2,3,8,11,12,15) m(2) l4 hs sz in \<open>simp_all add: decipher_pdu_def integrity_passes_def\<close>)
  have mi: "mi_count (pdcp_msg_integrity rx (tx_next tx) pdu) = tx_next tx" "mi_mac (pdcp_msg_integrity rx (tx_next tx) pdu) = mac"
    "mi_header (pdcp_msg_integrity rx (tx_next tx) pdu) = ?h"
    using sz m(2) l4 hs by (simp_all add: pdcp_msg_integrity_def)
  have "pdcp_integrity env (integrity_context tx) (?h @ sdu) (pdcp_rb_id tx) (tx_next tx) (tx_direction tx) = Some mac"
    using m(1) assms(9) by (simp add: pdcp_mac_def)
  then show "nr_pdcp_entity_check_integrity env later sdu (pdcp_msg_integrity rx (tx_next tx) pdu) = Some True"
    using assms(18-21) by (auto simp: nr_pdcp_entity_check_integrity_def mi rx_direction_def tx_direction_def)
qed

end
