(* ===== verification/Snow3g_Integrity.thy ===== *)
theory Snow3g_Integrity
  imports Snow3g_Correct
begin

text \<open>
  The integrity function of SNOW 3G is a polynomial evaluation over the message blocks in the field
  with \<open>2 ^ 64\<close> elements. The code multiplies with a table for its fixed operand; that
  agrees with the multiplication in the order of the specification of the algorithm, because
  \<^verbatim>\<open>MUL64\<close> is commutative.
\<close>

section \<open>Multiplication is commutative\<close>

lemma xsum_zero: "xsum (\<lambda>_. 0) n P = 0"
  by (induction n) simp_all

lemma xsum_xor: "xsum (\<lambda>i. f i XOR g i) n P = xsum f n P XOR xsum g n P"
  by (induction n) (auto simp: xor.assoc xor.left_commute)

lemma xsum_swap: "xsum (\<lambda>i. xsum (g i) n Q) m P = xsum (\<lambda>j. xsum (\<lambda>i. g i j) m P) n Q"
  by (induction n) (auto simp: xsum_zero xsum_xor)

lemma top_bit64: "(v AND push_bit 63 1 \<noteq> 0) = bit (v :: u64) 63"
proof
  assume "v AND push_bit 63 1 \<noteq> 0"
  then obtain i where "bit (v AND push_bit 63 1) i" by (metis bit_eqI bit_0_eq bot_apply bot_bool_def)
  then show "bit v 63" by (auto simp only: bit_and_iff bit_push_bit_iff bit_1_iff) (metis le_add_diff_inverse add.right_neutral)
next
  assume "bit v 63"
  then have "bit (v AND push_bit 63 1) 63" by (simp only: bit_and_iff bit_push_bit_iff bit_1_iff) simp
  then show "v AND push_bit 63 1 \<noteq> 0" by (metis bit_0_eq bot_apply bot_bool_def)
qed

lemma MULx64_xor: "MULx64 (a XOR b) c = MULx64 a c XOR MULx64 b c"
  unfolding MULx64_def top_bit64 push_bit_xor bit_xor_iff by (auto simp: xor.assoc xor.left_commute xor.commute)

lemma MULxPOW64_xor: "MULxPOW64 (a XOR b) i c = MULxPOW64 a i c XOR MULxPOW64 b i c"
  by (induction i) (simp_all add: MULx64_xor)

lemma MULxPOW64_zero [simp]: "MULxPOW64 0 i c = 0"
  by (induction i) (simp_all add: MULx64_def)

lemma MULxPOW64_add: "MULxPOW64 (MULxPOW64 v j c) i c = MULxPOW64 v (i + j) c"
  by (induction i) simp_all

lemma MULxPOW64_xsum: "MULxPOW64 (xsum f n P) i c = xsum (\<lambda>j. MULxPOW64 (f j) i c) n P"
  by (induction n) (simp_all add: MULxPOW64_xor)

lemma bit_xsum_powers: "bit (xsum (\<lambda>j. push_bit j 1) n P) k \<longleftrightarrow> k < n \<and> k < 64 \<and> P k"
  by (induction n) (auto simp: bit_simps less_Suc_eq)

lemma word_as_xsum: "v = xsum (\<lambda>j. push_bit j 1) 64 (bit v)"
  by (rule bit_word_eqI) (subst bit_xsum_powers, simp)

lemma MULxPOW64_one: "j < 64 \<Longrightarrow> MULxPOW64 1 j c = push_bit j 1"
proof (induction j)
  case (Suc j)
  have "\<not> bit (push_bit j 1 :: u64) 63" using Suc.prems by (simp add: bit_simps)
  then show ?case using Suc unfolding MULxPOW64.simps MULx64_def top_bit64 by simp
qed simp

lemma MULxPOW64_bits: "MULxPOW64 v i c = xsum (\<lambda>j. MULxPOW64 1 (i + j) c) 64 (bit v)"
proof -
  have "MULxPOW64 v i c = MULxPOW64 (xsum (\<lambda>j. push_bit j 1) 64 (bit v)) i c" using word_as_xsum [of v] by simp
  also have "\<dots> = xsum (\<lambda>j. MULxPOW64 (push_bit j 1) i c) 64 (bit v)" by (rule MULxPOW64_xsum)
  also have "\<dots> = xsum (\<lambda>j. MULxPOW64 1 (i + j) c) 64 (bit v)"
    by (rule xsum_cong) (simp, subst MULxPOW64_one [symmetric, where c = c], assumption, rule MULxPOW64_add)
  finally show ?thesis .
qed

lemma MUL64_commute: "MUL64 v p c = MUL64 p v c"
proof -
  have "MUL64 v p c = xsum (\<lambda>i. xsum (\<lambda>j. MULxPOW64 1 (i + j) c) 64 (bit v)) 64 (bit p)"
    unfolding MUL64_xsum by (rule xsum_cong) (simp_all add: MULxPOW64_bits [of v])
  also have "\<dots> = xsum (\<lambda>j. xsum (\<lambda>i. MULxPOW64 1 (i + j) c) 64 (bit p)) 64 (bit v)" by (rule xsum_swap)
  also have "\<dots> = MUL64 p v c"
    unfolding MUL64_xsum by (rule xsum_cong) (simp_all add: MULxPOW64_bits [of p] add.commute)
  finally show ?thesis .
qed

section \<open>The reference\<close>

definition message_blocks :: "u8 list \<Rightarrow> u64 list" where
  "message_blocks msg = map (\<lambda>i. GET64 msg (8 * i) (min 8 (length msg - 8 * i))) [0..<(length msg + 7) div 8]"

definition uia2_reference :: "u32 \<Rightarrow> u32 \<Rightarrow> int \<Rightarrow> u8 list \<Rightarrow> u8 list \<Rightarrow> u8 list" where
  "uia2_reference count fresh direction key msg =
     (let z = ref_keystream 5 (ref_init (snow_key key) (integrity_iv count fresh direction));
          p = push_bit 32 (ucast (z ! 0)) OR ucast (z ! 1);
          q = push_bit 32 (ucast (z ! 2)) OR ucast (z ! 3);
          eval = foldl (\<lambda>eval m. MUL64 (eval XOR m) p 0x1b) 0 (message_blocks msg);
          eval = MUL64 (eval XOR of_nat (length msg * 8)) q 0x1b
      in be_bytes (ucast (drop_bit 32 eval XOR ucast (z ! 4))))"

lemma integrity_reference:
  assumes "length junk = 16"
  shows "snow3g_integrity_fresh junk count fresh direction key msg =
    (if msg = [] then None else Some (uia2_reference count fresh direction key msg))"
proof (cases "msg = []")
  case True
  then show ?thesis by (simp add: snow3g_integrity_fresh_def Let_def)
next
  case False
  define n where "n = (length msg + 7) div 8 - 1"
  have n: "(length msg + 7) div 8 = Suc n" "8 * n < length msg" "length msg \<le> 8 * Suc n"
  proof -
    have "0 < length msg" using False by simp
    then show "(length msg + 7) div 8 = Suc n" "8 * n < length msg" "length msg \<le> 8 * Suc n"
      unfolding n_def by presburger+
  qed
  have "(length msg * 8 + 63) div 64 = (length msg * 8 + 63) div 8 div 8" by (simp add: div_mult2_eq [symmetric])
  also have "(length msg * 8 + 63) div 8 = length msg + 7" by presburger
  finally have d: "(length msg * 8 + 63) div 64 + 1 = n + 2" using n(1) by simp
  have full: "min 8 (length msg - 8 * i) = 8" if "i < n" for i using that n(2) by simp
  have blocks: "message_blocks msg = map (\<lambda>i. GET64 msg (8 * i) 8) [0..<n] @ [GET64 msg (8 * n) (min 8 (length msg - 8 * n))]"
    unfolding message_blocks_def n(1) upt_Suc_append [OF le0] map_append using full by simp
  have fold: "foldl (\<lambda>eval m. MUL64 (eval XOR m) p 0x1b) 0 (message_blocks msg) =
      mul_p (pm_table p) (foldl (\<lambda>eval i. mul_p (pm_table p) (eval XOR GET64 msg (i * 8) 8)) 0 [0..<n] XOR
        GET64 msg (n * 8) (min 8 (length msg - n * 8)))" for p
    unfolding blocks foldl_append foldl_map mul_p_MUL64 by (simp add: MUL64_commute [of p] mult.commute)
  show ?thesis using False unfolding snow3g_integrity_fresh_def uia2_reference_def Let_def d snow3g_keystream [OF assms] fold
    by simp
qed

end
