(* ===== verification/Pdcp_Properties.thy ===== *)
theory Pdcp_Properties
  imports Pdcp_Security Snow3g_Integrity
begin

text \<open>
  The properties of the PDCP entity and of the SNOW 3G functions, with their witnesses on a small
  scenario in which simple functions stand for AES.
\<close>

section \<open>Scenario\<close>

definition demo_crypto :: crypto_env where
  "demo_crypto =
     \<lparr>aes_ctr = (\<lambda>key iv m. map (\<lambda>b. b XOR 0x5a) m),
      aes_cmac = (\<lambda>key m. replicate 16 (foldl (+) 7 m)), junk = replicate 16 0\<rparr>"

definition demo_security :: nr_pdcp_security where
  "demo_security = \<lparr>integrity_algorithm = 2, ciphering_algorithm = 2, integrity_key = replicate 16 1, ciphering_key = replicate 16 2\<rparr>"

definition no_security :: nr_pdcp_security where
  "no_security = \<lparr>integrity_algorithm = 0, ciphering_algorithm = 0, integrity_key = [], ciphering_key = []\<rparr>"

definition demo_pdcp :: "nr_pdcp_entity_type \<Rightarrow> bool \<Rightarrow> nr_pdcp_security \<Rightarrow> nr_pdcp_entity" where
  "demo_pdcp typ is_gnb par = the (new_nr_pdcp_entity typ is_gnb 1 1 False False 12 100 0 par)"

lemma demo_crypto_ok: "crypto_ok demo_crypto"
  by (simp add: crypto_ok_def demo_crypto_def comp_def xor.assoc)

lemmas demo_pdcp_simps = demo_pdcp_def new_nr_pdcp_entity_def nr_pdcp_entity_set_security_def set_integrity_def set_ciphering_def
  demo_security_def no_security_def Let_def

lemma demo_pdcp_new:
  "new_nr_pdcp_entity typ is_gnb 1 1 False False 12 100 0 demo_security = Some (demo_pdcp typ is_gnb demo_security)"
  by (simp add: demo_pdcp_simps)

lemma demo_peers: "pdcp_peers (demo_pdcp typ True demo_security) (demo_pdcp typ False demo_security)"
  by (simp add: pdcp_peers_def pdcp_config_def demo_pdcp_simps)

lemma demo_pdcp_start:
  "tx_next (demo_pdcp typ g demo_security) = 0" "rx_next (demo_pdcp typ g demo_security) = 0"
  "rx_deliv (demo_pdcp typ g demo_security) = 0" "pdcp_rx_list (demo_pdcp typ g demo_security) = []"
  "pdcp_delivered (demo_pdcp typ g demo_security) = []" "window_size (demo_pdcp typ g demo_security) = 2048"
  "t_reordering_start (demo_pdcp typ g demo_security) = 0" "sn_size (demo_pdcp typ g demo_security) = 12"
  "has_sdap_tx (demo_pdcp typ g demo_security) = False" "\<not> entity_suspended (demo_pdcp typ g demo_security)"
  by (simp_all add: demo_pdcp_simps)

lemma demo_built:
  obtains pdu where "nr_pdcp_entity_process_sdu demo_crypto (demo_pdcp NR_PDCP_DRB_UM True demo_security) [1, 2, 3] 20 =
      Some (count_tx_pdu (demo_pdcp NR_PDCP_DRB_UM True demo_security) 3, Some pdu)"
    and "build_pdu demo_crypto (demo_pdcp NR_PDCP_DRB_UM True demo_security) [1, 2, 3] = Some pdu" and "length pdu = 9"
proof -
  have "\<exists>pdu. build_pdu demo_crypto (demo_pdcp NR_PDCP_DRB_UM True demo_security) [1, 2, 3] = Some pdu \<and> length pdu = 9"
    by (simp add: build_pdu_def pdcp_mac_def encipher_pdu_def pdcp_cipher_def pdcp_integrity_def nr_pdcp_integrity_nia2_integrity_def
        nr_pdcp_security_nea2_cipher_def demo_pdcp_simps tx_direction_def pdcp_header_def SHORT_SN_SIZE_def
        demo_crypto_def aes_128_ctr_def cipher_aes_128_cbc_cmac_def)
  then show ?thesis using that
    by (auto simp: nr_pdcp_entity_process_sdu_def nr_max_pdcp_pdu_size_def LONG_PDCP_HEADER_SIZE_def PDCP_INTEGRITY_SIZE_def
        demo_pdcp_start)
qed

lemma last_count: "(-1 :: u32) = 0xffffffff"
  by (rule minus_unique) simp

section \<open>Transfer\<close>

text \<open>
  C8: round trip between peers. Let one entity send an SDU, with any supported ciphering and integrity
  algorithm and either length of sequence numbers, under a COUNT that lies inside the reception window of the
  peer (less than half the sequence number space away from its first COUNT not delivered). Then the peer
  receives the PDU: if the COUNT is not below the first one not delivered and is not held already, it
  accepts exactly one more SDU, with this COUNT and the same bytes; if the COUNT is old or a duplicate, what
  was accepted does not change. Nothing is said of a COUNT outside the window, which the receiver may take
  for another one with the same sequence number.
\<close>

theorem pdcp_transfer:
  assumes "crypto_ok env" and "pdcp_peers tx rx" and "nr_pdcp_entity_process_sdu env tx sdu m = Some (tx', Some pdu)"
    and "length sdu > (if has_sdap_tx tx then 1 else 0)"
    and "uint (rx_deliv rx) - window_size rx \<le> uint (tx_next tx)" and "uint (tx_next tx) < uint (rx_deliv rx) + window_size rx"
  shows "\<exists>rx' s. nr_pdcp_entity_recv_pdu env rx pdu = Some rx' \<and> sdu_count s = tx_next tx \<and> sdu_buffer s = sdu \<and>
    set (pdcp_delivered rx' @ pdcp_rx_list rx') =
      (if tx_next tx < rx_deliv rx \<or> (\<exists>x \<in> set (pdcp_rx_list rx). sdu_count x = tx_next tx)
       then set (pdcp_delivered rx @ pdcp_rx_list rx) else insert s (set (pdcp_delivered rx @ pdcp_rx_list rx)))"
proof -
  have b: "build_pdu env tx sdu = Some pdu" using assms(3) by (auto simp: nr_pdcp_entity_process_sdu_def Let_def split: if_splits)
  let ?s = "nr_pdcp_new_sdu (tx_next tx) sdu (pdcp_msg_integrity rx (tx_next tx) pdu)"
  have f: "accepted (count_rx_pdu x n sn) = accepted x" "accepted (pdcp_discard x n) = accepted x" for x n sn
    by (simp_all add: count_rx_pdu_def pdcp_discard_def)
  have "set (accepted (stored_or_discarded tx rx sdu pdu)) =
      (if tx_next tx < rx_deliv rx \<or> (\<exists>x \<in> set (pdcp_rx_list rx). sdu_count x = tx_next tx) then set (accepted rx)
       else insert ?s (set (accepted rx)))"
    by (simp add: stored_or_discarded_def Let_def nr_pdcp_sdu_in_list_iff image_iff store_and_deliver_accepted f eq_commute)
  then show ?thesis unfolding accepted_def
    by (intro exI [of _ "stored_or_discarded tx rx sdu pdu"] exI [of _ ?s] conjI recv_built_pdu [OF assms(1,2) b assms(4-6)])
      (simp_all add: nr_pdcp_new_sdu_def)
qed

theorem pdcp_transfer_witness:
  "\<exists>pdu rx' s. nr_pdcp_entity_recv_pdu demo_crypto (demo_pdcp NR_PDCP_DRB_UM False demo_security) pdu = Some rx' \<and>
     sdu_buffer s = [1, 2, 3] \<and> set (pdcp_delivered rx' @ pdcp_rx_list rx') = {s}"
proof -
  obtain pdu where p: "nr_pdcp_entity_process_sdu demo_crypto (demo_pdcp NR_PDCP_DRB_UM True demo_security) [1, 2, 3] 20 =
      Some (count_tx_pdu (demo_pdcp NR_PDCP_DRB_UM True demo_security) 3, Some pdu)" by (rule demo_built)
  show ?thesis using pdcp_transfer [OF demo_crypto_ok demo_peers p] by (simp add: demo_pdcp_start) blast
qed

text \<open>
  C9: no replay and delivery in order. As long as no SDU with the last COUNT, 0xffffffff, was accepted (a
  condition on what is received: a first PDU with sequence number 4095 can have this COUNT), whatever
  bytes an entity receives, whenever its clock advances and whatever it sends, the COUNTs of the SDUs it has
  delivered, followed by those it holds, are strictly increasing; the held ones lie above the first COUNT
  not delivered and below the next expected one.
\<close>

theorem pdcp_in_order:
  assumes "new_nr_pdcp_entity typ g rb pid sr st sn tr dt par = Some e0" and "pdcp_run env e0 evs = Some e"
    and "\<forall>s \<in> set (pdcp_delivered e @ pdcp_rx_list e). sdu_count s \<noteq> 0xffffffff"
  shows "sorted_wrt (<) (map sdu_count (pdcp_delivered e @ pdcp_rx_list e)) \<and>
    (\<forall>s \<in> set (pdcp_delivered e). sdu_count s < rx_deliv e) \<and>
    (\<forall>s \<in> set (pdcp_rx_list e). rx_deliv e < sdu_count s \<and> sdu_count s < rx_next e)"
proof -
  have "\<forall>s \<in> set (accepted e). sdu_count s \<noteq> -1" using assms(3) by (simp add: accepted_def last_count)
  then have c: "rx_core e" using pdcp_run_inv [OF assms(2) new_entity_inv [OF assms(1)]] by (simp add: rx_inv_def)
  then have "sorted_wrt (<) (map sdu_count (pdcp_delivered e @ pdcp_rx_list e))"
    by (auto simp: rx_core_def sorted_wrt_append) (meson less_trans)
  then show ?thesis using c by (simp add: rx_core_def)
qed

text \<open>The PDUs with COUNT 0, 1 and 3 that carry the bytes 1, 2, 3, ciphered and protected by the peer.\<close>

definition demo_pdu0 :: "u8 list" where
  "demo_pdu0 = [128, 0, 91, 88, 89, 203, 203, 203, 203]"

definition demo_pdu1 :: "u8 list" where
  "demo_pdu1 = [128, 1, 91, 88, 89, 201, 201, 201, 201]"

definition demo_pdu3 :: "u8 list" where
  "demo_pdu3 = [128, 3, 91, 88, 89, 205, 205, 205, 205]"

lemma demo_pdus_built:
  "map (\<lambda>n. build_pdu demo_crypto ((demo_pdcp NR_PDCP_DRB_UM True demo_security)\<lparr>tx_next := n\<rparr>) [1, 2, 3]) [0, 1, 3] =
     [Some demo_pdu0, Some demo_pdu1, Some demo_pdu3]"
  by code_simp

lemma map_option_SomeE: "map_option f x = Some y \<Longrightarrow> (\<And>e. x = Some e \<Longrightarrow> f e = y \<Longrightarrow> thesis) \<Longrightarrow> thesis"
  by auto

theorem pdcp_in_order_witness:
  "\<exists>e. pdcp_run demo_crypto (demo_pdcp NR_PDCP_DRB_UM False demo_security) [Recv_pdu demo_pdu1, Recv_pdu demo_pdu0, Recv_pdu demo_pdu3, Recv_pdu demo_pdu0] = Some e \<and>
     map sdu_count (pdcp_delivered e) = [0, 1] \<and> map sdu_count (pdcp_rx_list e) = [3] \<and>
     sorted_wrt (<) (map sdu_count (pdcp_delivered e @ pdcp_rx_list e)) \<and> (\<forall>s \<in> set (pdcp_rx_list e). rx_deliv e < sdu_count s)"
proof -
  have "map_option (\<lambda>e. (map sdu_count (pdcp_delivered e), map sdu_count (pdcp_rx_list e)))
      (pdcp_run demo_crypto (demo_pdcp NR_PDCP_DRB_UM False demo_security) [Recv_pdu demo_pdu1, Recv_pdu demo_pdu0, Recv_pdu demo_pdu3, Recv_pdu demo_pdu0]) = Some ([0, 1], [3])"
    by code_simp
  then obtain e where r: "pdcp_run demo_crypto (demo_pdcp NR_PDCP_DRB_UM False demo_security) [Recv_pdu demo_pdu1, Recv_pdu demo_pdu0, Recv_pdu demo_pdu3, Recv_pdu demo_pdu0] = Some e"
    and "(map sdu_count (pdcp_delivered e), map sdu_count (pdcp_rx_list e)) = ([0, 1], [3])" by (rule map_option_SomeE)
  then have c: "map sdu_count (pdcp_delivered e) = [0, 1]" "map sdu_count (pdcp_rx_list e) = [3]" by (simp_all only: prod.inject)
  have "sdu_count ` set (pdcp_delivered e @ pdcp_rx_list e) = {0, 1, 3}"
    unfolding set_map [symmetric] map_append c by simp
  then have "\<forall>s \<in> set (pdcp_delivered e @ pdcp_rx_list e). sdu_count s \<in> {0, 1, 3}" by blast
  then have "\<forall>s \<in> set (pdcp_delivered e @ pdcp_rx_list e). sdu_count s \<noteq> 0xffffffff" by fastforce
  from pdcp_in_order [OF demo_pdcp_new r this] show ?thesis using r c by (intro exI [of _ e] conjI) simp_all
qed

text \<open>
  COUNT reconstruction. From the low bits of a COUNT that is less than half the sequence number
  space away from the first COUNT not delivered, the receiver finds the full COUNT, including its
  hyper frame number, across every wrap-around of sequence numbers.
\<close>

theorem pdcp_count_reconstruction:
  assumes "new_nr_pdcp_entity typ g rb pid sr st n tr dt par = Some e0" and "n = 12 \<or> n = 18" and "e = e0\<lparr>rx_deliv := d\<rparr>"
    and "uint d - 2 ^ nat (n - 1) \<le> uint c" and "uint c < uint d + 2 ^ nat (n - 1)"
  shows "rcvd_count e (uint (c AND word_of_int (sn_max e))) = c"
proof -
  obtain k a b h i where "e0 = \<lparr>pdcp_type = typ, pdcp_is_gnb = g, pdcp_rb_id = rb, pdcp_pdusession_id = pid, has_sdap_rx = sr,
        has_sdap_tx = st, sn_size = n, t_reordering = tr, discard_timer = dt,
        sn_max = push_bit (nat n) 1 - 1, window_size = push_bit (nat (n - 1)) 1,
        tx_next = 0, rx_next = 0, rx_deliv = 0, rx_reord = 0, pdcp_t_current = 0, t_reordering_start = 0,
        has_ciphering = h, has_integrity = a, security_keys_and_algos = k, cipher_context = i, integrity_context = b,
        pdcp_rx_list = [], pdcp_rx_size = 0, pdcp_stats = zero_pdcp_stats, entity_suspended = False, pdcp_delivered = []\<rparr>"
    by (rule set_security_state [OF assms(1) [unfolded new_nr_pdcp_entity_def]]) simp
  then have cfg: "pdcp_config e" "sn_size e = n" "sn_max e = 2 ^ nat n - 1" "window_size e = 2 ^ nat (n - 1)" "rx_deliv e = d"
    using assms(2,3) by (auto simp: pdcp_config_def)
  show ?thesis unfolding cfg(3) uint_low_field using rcvd_count_window [OF cfg(1), of c] assms(4,5) by (simp add: cfg)
qed

theorem pdcp_count_reconstruction_witness:
  "rcvd_count ((demo_pdcp NR_PDCP_SRB True demo_security)\<lparr>rx_deliv := 8190\<rparr>)
     (uint ((8193 :: u32) AND word_of_int (sn_max ((demo_pdcp NR_PDCP_SRB True demo_security)\<lparr>rx_deliv := 8190\<rparr>)))) = 8193"
  by (rule pdcp_count_reconstruction [OF demo_pdcp_new _ refl]) simp_all

text \<open>
  C27: progress. When t-Reordering is finite, the clock was set to a time other than 0 before the first PDU
  and never back to 0, and no SDU with the last COUNT, 0xffffffff, was accepted, an entity does not keep an
  SDU for ever: two expiries of the timer after any run deliver everything that was accepted, in order.
\<close>

theorem pdcp_expiries_deliver:
  assumes "new_nr_pdcp_entity typ g rb pid sr st sn tr dt par = Some e0"
    and "pdcp_run env (nr_pdcp_entity_set_time e0 t0) evs = Some e" and "t0 \<noteq> 0" and "Set_time 0 \<notin> set evs"
    and "\<forall>s \<in> set (pdcp_delivered e @ pdcp_rx_list e). sdu_count s \<noteq> 0xffffffff"
    and "t_reordering e \<noteq> -1" and "t1 \<noteq> 0" and "t_reordering_start e + word_of_int (t_reordering e) < t1"
    and "t1 + word_of_int (t_reordering e) < t2"
  shows "pdcp_delivered (nr_pdcp_entity_set_time (nr_pdcp_entity_set_time e t1) t2) = pdcp_delivered e @ pdcp_rx_list e"
proof -
  have c: "\<forall>s \<in> set (accepted e). sdu_count s \<noteq> -1" using assms(5) by (simp add: accepted_def last_count)
  have i0: "rx_inv (nr_pdcp_entity_set_time e0 t0)" by (rule set_time_inv [OF new_entity_inv [OF assms(1)]])
  have "t_reordering_start e0 = 0" "pdcp_rx_list e0 = []"
    using set_security_rx(4,5) [OF assms(1) [unfolded new_nr_pdcp_entity_def]] by simp_all
  then have "rx_waiting (nr_pdcp_entity_set_time e0 t0)"
    using assms(3) by (simp add: rx_waiting_def nr_pdcp_entity_set_time_def check_t_reordering_flushed timer_expired_def)
  then have "rx_waiting e" by (rule pdcp_run_waiting [OF assms(2) i0 _ assms(4) c])
  then have "pdcp_rx_list (nr_pdcp_entity_set_time (nr_pdcp_entity_set_time e t1) t2) = []"
    by (rule two_expiries [OF pdcp_run_inv [OF assms(2) i0 c] _ assms(6-9)])
  moreover have "accepted (nr_pdcp_entity_set_time (nr_pdcp_entity_set_time e t1) t2) = accepted e" by (simp only: set_time_accepted)
  ultimately show ?thesis by (simp add: accepted_def)
qed

theorem pdcp_expiries_deliver_witness:
  "\<exists>e. pdcp_run demo_crypto (nr_pdcp_entity_set_time (demo_pdcp NR_PDCP_DRB_UM False demo_security) 5)
       [Recv_pdu demo_pdu1, Recv_pdu demo_pdu3] = Some e \<and>
     pdcp_delivered e = [] \<and> map sdu_count (pdcp_rx_list e) = [1, 3] \<and>
     map sdu_count (pdcp_delivered (nr_pdcp_entity_set_time (nr_pdcp_entity_set_time e 200) 400)) = [1, 3]"
proof -
  let ?e0 = "nr_pdcp_entity_set_time (demo_pdcp NR_PDCP_DRB_UM False demo_security) 5" and ?evs = "[Recv_pdu demo_pdu1, Recv_pdu demo_pdu3]"
  have "map_option (\<lambda>e. (pdcp_delivered e, map sdu_count (pdcp_rx_list e), t_reordering e, t_reordering_start e)) (pdcp_run demo_crypto ?e0 ?evs) =
      Some ([], [1, 3], 100, 5)" by code_simp
  then obtain e where r: "pdcp_run demo_crypto ?e0 ?evs = Some e"
    and "(pdcp_delivered e, map sdu_count (pdcp_rx_list e), t_reordering e, t_reordering_start e) = ([], [1, 3], 100, 5)" by (rule map_option_SomeE)
  then have c: "pdcp_delivered e = []" "map sdu_count (pdcp_rx_list e) = [1, 3]" "t_reordering e = 100" "t_reordering_start e = 5"
    by (simp_all only: prod.inject)
  have "sdu_count ` set (pdcp_delivered e @ pdcp_rx_list e) = {1, 3}"
    unfolding set_map [symmetric] map_append c by simp
  then have "\<forall>s \<in> set (pdcp_delivered e @ pdcp_rx_list e). sdu_count s \<in> {1, 3}" by blast
  then have n: "\<forall>s \<in> set (pdcp_delivered e @ pdcp_rx_list e). sdu_count s \<noteq> 0xffffffff" by fastforce
  have "pdcp_delivered (nr_pdcp_entity_set_time (nr_pdcp_entity_set_time e 200) 400) = pdcp_delivered e @ pdcp_rx_list e"
    by (rule pdcp_expiries_deliver [OF demo_pdcp_new r _ _ n]) (simp_all add: c)
  then have "map sdu_count (pdcp_delivered (nr_pdcp_entity_set_time (nr_pdcp_entity_set_time e 200) 400)) = [1, 3]" by (simp add: c)
  then show ?thesis using r c by (intro exI [of _ e] conjI) simp_all
qed

section \<open>Security\<close>

text \<open>
  C33: reception is total up to one case. In every reachable state of an entity with a bearer from 1 to
  31, a received PDU of any contents is handled, unless it is not empty but shorter than its
  header: then the code reads the header beyond the end of the buffer, because the size is checked
  only afterwards.
\<close>

theorem pdcp_recv_defined:
  assumes "crypto_ok env" and "new_nr_pdcp_entity typ g rb pid sr st sn tr dt par = Some e0" and "1 \<le> rb" and "rb < 32"
    and "pdcp_run env e0 evs = Some e" and "\<not> entity_suspended e"
  shows "nr_pdcp_entity_recv_pdu env e b = None \<longleftrightarrow> b \<noteq> [] \<and> int (length b) < pdcp_header_size e"
proof -
  have r: "security_ready e" by (rule pdcp_run_ready [OF assms(5) new_entity_ready [OF assms(2-4)]])
  have "nr_pdcp_entity_recv_pdu env e [] = Some e" by (simp add: nr_pdcp_entity_recv_pdu_def)
  then show ?thesis using recv_pdu_total [OF assms(1) r, of b] recv_pdu_short [OF assms(6), of b env]
    by (cases "b = []"; cases "pdcp_header_size e \<le> int (length b)") auto
qed

theorem pdcp_recv_defined_witness:
  "nr_pdcp_entity_recv_pdu demo_crypto (demo_pdcp NR_PDCP_SRB True demo_security) [7] = None"
proof -
  have "pdcp_run demo_crypto (demo_pdcp NR_PDCP_SRB True demo_security) [] = Some (demo_pdcp NR_PDCP_SRB True demo_security)" by simp
  from pdcp_recv_defined [OF demo_crypto_ok demo_pdcp_new _ _ this, of "[7]"] show ?thesis
    by (simp add: demo_pdcp_start pdcp_header_size_def SHORT_PDCP_HEADER_SIZE_def LONG_PDCP_HEADER_SIZE_def)
qed

text \<open>
  C29: authenticity. With integrity protection active, an SDU is accepted only if the deciphered PDU ends
  with the MAC-I of the bytes before it, computed with the integrity key, the bearer, the
  direction and the COUNT of the SDU; the SDU is what lies between header and MAC-I.
\<close>

theorem pdcp_only_authentic:
  assumes "nr_pdcp_entity_recv_pdu env e b = Some e'" and "has_integrity e"
    and "s \<in> set (pdcp_delivered e' @ pdcp_rx_list e')" and "s \<notin> set (pdcp_delivered e @ pdcp_rx_list e)"
  shows "\<exists>plain. decipher_pdu env e (nat (pdcp_header_size e + (if has_sdap_rx e then 1 else 0))) (sdu_count s) (mark_data_pdu e b) =
      Some plain \<and>
    sdu_buffer s = drop (nat (pdcp_header_size e)) (take (length b - 4) plain) \<and>
    pdcp_integrity env (integrity_context e) (take (length plain - 4) plain) (pdcp_rb_id e) (sdu_count s) (rx_direction e) =
      Some (drop (length plain - 4) plain)"
  by (rule recv_pdu_authentic [OF assms [folded accepted_def]]) blast

theorem pdcp_only_authentic_witness:
  "\<exists>b (s :: nr_pdcp_sdu) plain. decipher_pdu demo_crypto (demo_pdcp NR_PDCP_DRB_UM False demo_security) 2 (sdu_count s) b = Some plain \<and>
     pdcp_integrity demo_crypto (integrity_context (demo_pdcp NR_PDCP_DRB_UM False demo_security)) (take (length plain - 4) plain)
       (pdcp_rb_id (demo_pdcp NR_PDCP_DRB_UM False demo_security)) (sdu_count s)
       (rx_direction (demo_pdcp NR_PDCP_DRB_UM False demo_security)) = Some (drop (length plain - 4) plain)"
proof -
  let ?tx = "demo_pdcp NR_PDCP_DRB_UM True demo_security" and ?rx = "demo_pdcp NR_PDCP_DRB_UM False demo_security"
  obtain b where b: "build_pdu demo_crypto ?tx [1, 2, 3] = Some b" by (rule demo_built)
  have r: "nr_pdcp_entity_recv_pdu demo_crypto ?rx b = Some (stored_or_discarded ?tx ?rx [1, 2, 3] b)"
    by (rule recv_built_pdu [OF demo_crypto_ok demo_peers b]) (simp_all add: demo_pdcp_start)
  let ?s = "nr_pdcp_new_sdu 0 [1, 2, 3] (pdcp_msg_integrity ?rx 0 b)"
  have "?s \<in> set (accepted (stored_or_discarded ?tx ?rx [1, 2, 3] b))"
    by (simp add: stored_or_discarded_def Let_def demo_pdcp_start nr_pdcp_sdu_in_list_def store_and_deliver_accepted)
  moreover have "?s \<notin> set (accepted ?rx)" by (simp add: accepted_def demo_pdcp_start)
  moreover have h: "has_integrity ?rx" "pdcp_header_size ?rx = 2" "\<not> has_sdap_rx ?rx"
    by (simp_all add: demo_pdcp_simps pdcp_header_size_def SHORT_SN_SIZE_def SHORT_PDCP_HEADER_SIZE_def)
  ultimately show ?thesis using pdcp_only_authentic [OF r h(1), of ?s, folded accepted_def] unfolding h(2) by (simp add: h(3)) blast
qed

text \<open>
  Deferred integrity check. A protected but not ciphered message on a signalling bearer that reaches
  a receiver without active security is stored with its bytes, and the check of its MAC-I by
  an entity that has the keys of the sender afterwards succeeds (as for the security mode command).
\<close>

theorem pdcp_deferred_check:
  assumes "crypto_ok env" and "pdcp_type tx = NR_PDCP_SRB" and "pdcp_type rx = NR_PDCP_SRB"
    and "pdcp_config tx" and "pdcp_config rx" and "sn_size rx = sn_size tx" and "\<not> has_sdap_tx tx" and "\<not> has_sdap_rx rx"
    and "has_integrity tx" and "\<not> has_ciphering tx" and "\<not> has_integrity rx" and "\<not> has_ciphering rx"
    and "\<not> entity_suspended rx" and "nr_pdcp_entity_process_sdu env tx sdu m = Some (tx', Some pdu)" and "sdu \<noteq> []"
    and "tx_next tx = rx_deliv rx" and "pdcp_rx_list rx = []" and "has_integrity later"
    and "integrity_context later = integrity_context tx" and "pdcp_rb_id later = pdcp_rb_id tx"
    and "pdcp_is_gnb later = (\<not> pdcp_is_gnb tx)"
  shows "\<exists>rx' s. nr_pdcp_entity_recv_pdu env rx pdu = Some rx' \<and> s \<in> set (pdcp_delivered rx' @ pdcp_rx_list rx') \<and>
    sdu_buffer s = sdu \<and> nr_pdcp_entity_check_integrity env later (sdu_buffer s) (sdu_msg_integrity s) = Some True"
proof -
  have b: "build_pdu env tx sdu = Some pdu" using assms(14) by (auto simp: nr_pdcp_entity_process_sdu_def Let_def split: if_splits)
  have w: "uint (rx_deliv rx) - window_size rx \<le> uint (tx_next tx)" "uint (tx_next tx) < uint (rx_deliv rx) + window_size rx"
    using assms(16) by (rule_tac [!] pdcp_configD [OF assms(5)]) simp_all
  note d = deferred_integrity [OF assms(1-13) b assms(15) w assms(18-21)]
  let ?s = "nr_pdcp_new_sdu (tx_next tx) sdu (pdcp_msg_integrity rx (tx_next tx) pdu)"
  have "?s \<in> set (accepted (stored_or_discarded tx rx sdu pdu))"
    using assms(16,17) by (simp add: stored_or_discarded_def Let_def nr_pdcp_sdu_in_list_def store_and_deliver_accepted)
  then show ?thesis using d unfolding accepted_def
    by (intro exI [of _ "stored_or_discarded tx rx sdu pdu"] exI [of _ ?s] conjI) (simp_all add: nr_pdcp_new_sdu_def)
qed

theorem pdcp_deferred_check_witness:
  "\<exists>pdu rx' s. nr_pdcp_entity_recv_pdu demo_crypto (demo_pdcp NR_PDCP_SRB False no_security) pdu = Some rx' \<and>
     s \<in> set (pdcp_delivered rx' @ pdcp_rx_list rx') \<and> sdu_buffer s = [9] \<and>
     nr_pdcp_entity_check_integrity demo_crypto (demo_pdcp NR_PDCP_SRB False demo_security) (sdu_buffer s) (sdu_msg_integrity s) =
       Some True"
proof -
  let ?tx = "demo_pdcp NR_PDCP_SRB True (demo_security\<lparr>ciphering_algorithm := 0\<rparr>)" and ?rx = "demo_pdcp NR_PDCP_SRB False no_security"
  obtain tx' pdu where p: "nr_pdcp_entity_process_sdu demo_crypto ?tx [9] 20 = Some (tx', Some pdu)"
    by (simp add: nr_pdcp_entity_process_sdu_def nr_max_pdcp_pdu_size_def LONG_PDCP_HEADER_SIZE_def PDCP_INTEGRITY_SIZE_def
        build_pdu_def pdcp_mac_def encipher_pdu_def pdcp_integrity_def nr_pdcp_integrity_nia2_integrity_def demo_pdcp_simps)
  show ?thesis
    using pdcp_deferred_check [OF demo_crypto_ok _ _ _ _ _ _ _ _ _ _ _ _ p, of ?rx "demo_pdcp NR_PDCP_SRB False demo_security"]
    by (simp add: demo_pdcp_simps pdcp_config_def) blast
qed

section \<open>Configuration\<close>

text \<open>
  COUNT values that are read and set again are kept, and a hyper frame number and sequence number that are
  set are read back, in both directions and for both lengths of sequence numbers.
\<close>

theorem pdcp_count_roundtrip:
  assumes "pdcp_config e" and "uint hfn < 2 ^ nat (32 - sn_size e)" and "uint sn < 2 ^ nat (sn_size e)"
  shows "nr_pdcp_entity_get_count_ul (nr_pdcp_entity_set_count_ul e (hfn, sn) (sn_size e)) = (hfn, sn) \<and>
    nr_pdcp_entity_get_count_dl (nr_pdcp_entity_set_count_dl e (hfn, sn) (sn_size e)) = (hfn, sn) \<and>
    nr_pdcp_entity_set_count_ul e (nr_pdcp_entity_get_count_ul e) (sn_size e) = e \<and>
    rx_deliv (nr_pdcp_entity_set_count_dl e (nr_pdcp_entity_get_count_dl e) (sn_size e)) = rx_deliv e"
proof -
  define n where "n = nat (sn_size e)"
  have n: "n \<le> 32" "sn_max e = 2 ^ n - 1" "nat (32 - sn_size e) = 32 - n"
    using assms(1) by (auto simp: n_def pdcp_config_def)
  have self: "take_bit k x = x" if "uint x < 2 ^ k" for k and x :: u32
    using that by (intro word_uint_eqI) (simp add: unsigned_take_bit_eq take_bit_int_eq_self)
  have h: "take_bit (32 - n) hfn = hfn" by (rule self) (use assms(2) n(3) in simp)
  have s: "sn AND word_of_int (2 ^ n - 1) = sn" unfolding low_field by (rule self) (use assms(3) n_def in simp)
  have c: "compose_count p (sn_size e) = push_bit n (fst p) OR (snd p AND word_of_int (2 ^ n - 1))" for p
    by (simp add: compose_count_def case_prod_unfold n_def)
  note sp = split_compose [OF n(1) h, of sn] and cs = compose_split [OF n(1)]
  have 1: "nr_pdcp_entity_get_count_ul (nr_pdcp_entity_set_count_ul e (hfn, sn) (sn_size e)) = (hfn, sn)"
    unfolding nr_pdcp_entity_get_count_ul_def nr_pdcp_entity_set_count_ul_def c
    using sp s n(2) by (simp del: of_int_diff of_int_power add: n_def [symmetric])
  have 2: "nr_pdcp_entity_get_count_dl (nr_pdcp_entity_set_count_dl e (hfn, sn) (sn_size e)) = (hfn, sn)"
    unfolding nr_pdcp_entity_get_count_dl_def nr_pdcp_entity_set_count_dl_def c
    using sp s n(2) by (simp del: of_int_diff of_int_power add: n_def [symmetric])
  have 3: "compose_count (nr_pdcp_entity_get_count_ul e) (sn_size e) = tx_next e"
    unfolding nr_pdcp_entity_get_count_ul_def c n(2) n_def [symmetric] fst_conv snd_conv and.assoc and.idem by (rule cs)
  have 4: "compose_count (nr_pdcp_entity_get_count_dl e) (sn_size e) = rx_deliv e"
    unfolding nr_pdcp_entity_get_count_dl_def c n(2) n_def [symmetric] fst_conv snd_conv and.assoc and.idem by (rule cs)
  show ?thesis using 1 2 3 4 by (simp add: nr_pdcp_entity_set_count_ul_def nr_pdcp_entity_set_count_dl_def)
qed

theorem pdcp_count_roundtrip_witness:
  "nr_pdcp_entity_get_count_ul (nr_pdcp_entity_set_count_ul (demo_pdcp NR_PDCP_DRB_AM True demo_security) (5, 77) 12) = (5, 77)"
  using pdcp_count_roundtrip [of "demo_pdcp NR_PDCP_DRB_AM True demo_security" 5 77]
  by (simp add: demo_pdcp_simps pdcp_config_def)

section \<open>SNOW 3G\<close>

text \<open>
  C28: the keystream generator with the doubled register and moving pointer gives, for every key, initial
  vector and length, the words of the plain shift register that moves all its words in
  each step; the contents of the memory that is not initialised do not matter.
\<close>

theorem snow3g_keystream_reference:
  assumes "length upper = 16"
  shows "generate_keystream n (snow3g_init upper key iv) = ref_keystream n (ref_init key iv)"
  by (rule snow3g_keystream [OF assms])

theorem snow3g_keystream_reference_witness:
  "generate_keystream 3 (snow3g_init (replicate 16 0xdeadbeef) [] []) = ref_keystream 3 (ref_init [] [])"
  by (rule snow3g_keystream_reference) simp

text \<open>
  C26: the integrity function with its table of 8 times 256 precomputed products computes the polynomial
  evaluation of the specification, with bitwise multiplication, on every message but the
  empty one, for which it reads before the start of the message.
\<close>

theorem snow3g_integrity_reference:
  assumes "length upper = 16"
  shows "snow3g_integrity upper count bearer direction key msg =
    (if msg = [] then None else Some (uia2_reference count (push_bit 27 (word_of_int bearer)) direction key msg))"
  unfolding snow3g_integrity_def by (rule integrity_reference [OF assms])

theorem snow3g_integrity_reference_witness:
  "snow3g_integrity (replicate 16 0) 1 2 0 (replicate 16 3) [4] = Some (uia2_reference 1 (push_bit 27 (word_of_int 2)) 0 (replicate 16 3) [4])"
  using snow3g_integrity_reference [of "replicate 16 0" 1 2 0 "replicate 16 3" "[4]"] by simp

end
