(* ===== verification/Rlc_Rx_Manager.thy ===== *)
theory Rlc_Rx_Manager
  imports Rlc_Pdu
begin

text \<open>
  The reception buffer of acknowledged mode (\<^verbatim>\<open>nr_rlc_rx_manager.c\<close>): a circular array with one list
  of PDUs for every sequence number of the reception window. \<open>rxm_list\<close> is the array; it is only
  accessed at positions from 0 to \<open>rxm_size - 1\<close>.
\<close>

record nr_rlc_rx_manager =
  rxm_list :: "int \<Rightarrow> nr_rlc_pdu list"
  rxm_size :: int
  rxm_start :: int
  rxm_sn_start :: int

definition nr_rlc_new_rx_manager :: "int \<Rightarrow> nr_rlc_rx_manager" where
  "nr_rlc_new_rx_manager n = \<lparr>rxm_list = (\<lambda>_. []), rxm_size = n, rxm_start = 0, rxm_sn_start = 0\<rparr>"

definition nr_rlc_clear_rx_manager :: "nr_rlc_rx_manager \<Rightarrow> nr_rlc_rx_manager" where
  "nr_rlc_clear_rx_manager m = m\<lparr>rxm_list := (\<lambda>_. []), rxm_start := 0, rxm_sn_start := 0\<rparr>"

definition get_pos :: "nr_rlc_rx_manager \<Rightarrow> int \<Rightarrow> int" where
  "get_pos m sn = c_mod (rxm_start m + (sn - rxm_sn_start m + rxm_size m * 2)) (rxm_size m)"

definition nr_rlc_rx_manager_get_pdu_from_sn :: "nr_rlc_rx_manager \<Rightarrow> int \<Rightarrow> nr_rlc_pdu list" where
  "nr_rlc_rx_manager_get_pdu_from_sn m sn = rxm_list m (get_pos m sn)"

definition nr_rlc_rx_manager_clear_pdu :: "nr_rlc_rx_manager \<Rightarrow> int \<Rightarrow> nr_rlc_rx_manager" where
  "nr_rlc_rx_manager_clear_pdu m sn = m\<lparr>rxm_list := (rxm_list m)(get_pos m sn := [])\<rparr>"

definition nr_rlc_rx_manager_advance :: "nr_rlc_rx_manager \<Rightarrow> int \<Rightarrow> nr_rlc_rx_manager" where
  "nr_rlc_rx_manager_advance m count = m\<lparr>rxm_start := c_mod (rxm_start m + count) (rxm_size m)\<rparr>"

definition nr_rlc_rx_manager_set_start :: "nr_rlc_rx_manager \<Rightarrow> int \<Rightarrow> nr_rlc_rx_manager" where
  "nr_rlc_rx_manager_set_start m sn_start = m\<lparr>rxm_sn_start := sn_start\<rparr>"

fun insert_by_so :: "nr_rlc_pdu list \<Rightarrow> nr_rlc_pdu \<Rightarrow> nr_rlc_pdu list" where
  "insert_by_so [] pdu = [pdu]"
| "insert_by_so (cur # l) pdu = (if pdu_so cur > pdu_so pdu then pdu # cur # l else cur # insert_by_so l pdu)"

definition nr_rlc_rx_manager_add_pdu :: "nr_rlc_rx_manager \<Rightarrow> nr_rlc_pdu \<Rightarrow> nr_rlc_rx_manager" where
  "nr_rlc_rx_manager_add_pdu m pdu =
     (let pos = get_pos m (pdu_sn pdu) in m\<lparr>rxm_list := (rxm_list m)(pos := insert_by_so (rxm_list m pos) pdu)\<rparr>)"

text \<open>Replace the list of a sequence number (the code changes the PDUs in place).\<close>

definition rxm_update :: "nr_rlc_rx_manager \<Rightarrow> int \<Rightarrow> (nr_rlc_pdu list \<Rightarrow> nr_rlc_pdu list) \<Rightarrow> nr_rlc_rx_manager" where
  "rxm_update m sn f = (let pos = get_pos m sn in m\<lparr>rxm_list := (rxm_list m)(pos := f (rxm_list m pos))\<rparr>)"

section \<open>The window\<close>

text \<open>
  The contents as the list for the \<open>i\<close>-th sequence number of the window. The code keeps
  \<open>rxm_sn_start\<close> below twice the size.
\<close>

definition rxm_ok :: "nr_rlc_rx_manager \<Rightarrow> bool" where
  "rxm_ok m \<longleftrightarrow> 0 < rxm_size m \<and> 0 \<le> rxm_start m \<and> rxm_start m < rxm_size m \<and> 0 \<le> rxm_sn_start m \<and>
     rxm_sn_start m < 2 * rxm_size m"

definition rxm_at :: "nr_rlc_rx_manager \<Rightarrow> int \<Rightarrow> nr_rlc_pdu list" where
  "rxm_at m i = rxm_list m ((rxm_start m + i) mod rxm_size m)"

definition rxm_offset :: "nr_rlc_rx_manager \<Rightarrow> int \<Rightarrow> int" where
  "rxm_offset m sn = (sn - rxm_sn_start m) mod rxm_size m"

end
