(* ===== verification/Rlc_Am.thy ===== *)
theory Rlc_Am
  imports Rlc_Um Rlc_Rx_Manager
begin

text \<open>
  The acknowledged mode RLC entity (\<^verbatim>\<open>nr_rlc_entity_am.c\<close>). Segments of one SDU share the SDU: it is
  kept in a heap and segments refer to it by its address. An SDU whose last segment was freed is
  marked. The tail pointers \<^verbatim>\<open>tx_end\<close> and \<^verbatim>\<open>wait_end\<close> are the last elements of the lists. Callbacks
  are recorded: \<open>am_delivered\<close> holds the SDUs delivered, \<open>am_acked\<close> the identifiers for which
  successful delivery was indicated, \<open>am_max_retx\<close> the number of calls of \<^verbatim>\<open>max_retx_reached\<close>.
  Waiting time statistics are left out. A result \<open>None\<close> means a null pointer access, a
  fatal exit or a loop that does not end.
\<close>

section \<open>State\<close>

record nr_rlc_am_statistics = nr_rlc_statistics +
  txpdu_dd_pkts :: u32
  txpdu_dd_bytes :: u32
  txpdu_retx_pkts :: u32
  txpdu_retx_bytes :: u32
  txpdu_status_pkts :: u32
  txpdu_status_bytes :: u32
  rxpdu_dup_pkts :: u32
  rxpdu_dup_bytes :: u32

record nr_rlc_sdu_t =
  sh_sn :: int
  sh_upper_layer_id :: int
  sh_data :: "u8 list"
  sh_retx_count :: int
  sh_ref_count :: int
  sh_free_count :: int
  sh_freed :: bool

record nr_rlc_sdu_segment_t =
  sg_sdu :: nat
  sg_size :: int
  sg_so :: int
  sg_is_first :: bool
  sg_is_last :: bool

record nr_rlc_entity_am =
  am_stats :: nr_rlc_am_statistics
  am_bstatus_tx :: int
  am_bstatus_retx :: int
  am_delivered :: "u8 list list"
  am_acked :: "int list"
  am_max_retx :: nat
  am_t_poll_retransmit :: int
  am_t_reassembly :: int
  am_t_status_prohibit :: int
  am_poll_pdu :: int
  am_poll_byte :: int
  am_max_retx_threshold :: int
  am_sn_field_length :: nat
  am_sn_modulus :: int
  am_window_size :: int
  am_rx_next :: int
  am_rx_next_status_trigger :: int
  am_rx_highest_status :: int
  am_rx_next_highest :: int
  am_status_triggered :: bool
  am_tx_next :: int
  am_tx_next_ack :: int
  am_poll_sn :: int
  am_pdu_without_poll :: int
  am_byte_without_poll :: int
  am_force_poll :: bool
  am_t_current :: u64
  am_t_log_buffer_full :: u64
  am_sdu_rejected :: int
  am_t_poll_retransmit_start :: u64
  am_t_reassembly_start :: u64
  am_t_status_prohibit_start :: u64
  am_rx :: nr_rlc_rx_manager
  am_rx_size :: int
  am_rx_maxsize :: int
  am_heap :: "nat \<Rightarrow> nr_rlc_sdu_t"
  am_heap_next :: nat
  am_tx_list :: "nr_rlc_sdu_segment_t list"
  am_tx_size :: int
  am_tx_maxsize :: int
  am_wait_list :: "nr_rlc_sdu_segment_t list"
  am_retransmit_list :: "nr_rlc_sdu_segment_t list"

definition zero_am_stats :: nr_rlc_am_statistics where
  "zero_am_stats = nr_rlc_statistics.extend zero_stats
     \<lparr>txpdu_dd_pkts = 0, txpdu_dd_bytes = 0, txpdu_retx_pkts = 0, txpdu_retx_bytes = 0, txpdu_status_pkts = 0,
      txpdu_status_bytes = 0, rxpdu_dup_pkts = 0, rxpdu_dup_bytes = 0\<rparr>"

definition null_sdu :: nr_rlc_sdu_t where
  "null_sdu = \<lparr>sh_sn = 0, sh_upper_layer_id = 0, sh_data = [], sh_retx_count = 0, sh_ref_count = 0, sh_free_count = 0, sh_freed = True\<rparr>"

definition new_nr_rlc_entity_am :: "int \<Rightarrow> int \<Rightarrow> int \<Rightarrow> int \<Rightarrow> int \<Rightarrow> int \<Rightarrow> int \<Rightarrow> int \<Rightarrow> nat \<Rightarrow> nr_rlc_entity_am option" where
  "new_nr_rlc_entity_am rx_maxsize tx_maxsize t_poll_retransmit t_reassembly t_status_prohibit poll_pdu poll_byte
       max_retx_threshold sn_field_length =
     (if sn_field_length = 12 \<or> sn_field_length = 18
      then Some \<lparr>am_stats = zero_am_stats, am_bstatus_tx = 0, am_bstatus_retx = 0, am_delivered = [], am_acked = [], am_max_retx = 0,
             am_t_poll_retransmit = t_poll_retransmit, am_t_reassembly = t_reassembly, am_t_status_prohibit = t_status_prohibit,
             am_poll_pdu = poll_pdu, am_poll_byte = poll_byte, am_max_retx_threshold = max_retx_threshold,
             am_sn_field_length = sn_field_length, am_sn_modulus = 2 ^ sn_field_length,
             am_window_size = c_div (2 ^ sn_field_length) 2, am_rx_next = 0, am_rx_next_status_trigger = 0,
             am_rx_highest_status = 0, am_rx_next_highest = 0, am_status_triggered = False, am_tx_next = 0,
             am_tx_next_ack = 0, am_poll_sn = 0, am_pdu_without_poll = 0, am_byte_without_poll = 0, am_force_poll = False,
             am_t_current = 0, am_t_log_buffer_full = 0, am_sdu_rejected = 0, am_t_poll_retransmit_start = 0,
             am_t_reassembly_start = 0, am_t_status_prohibit_start = 0,
             am_rx = nr_rlc_new_rx_manager (2 ^ (sn_field_length - 1)), am_rx_size = 0, am_rx_maxsize = rx_maxsize * 5,
             am_heap = (\<lambda>_. null_sdu), am_heap_next = 0, am_tx_list = [], am_tx_size = 0, am_tx_maxsize = tx_maxsize * 5,
             am_wait_list = [], am_retransmit_list = []\<rparr>
      else None)"

definition nr_rlc_entity_am_reconfigure ::
    "nr_rlc_entity_am \<Rightarrow> int \<Rightarrow> int \<Rightarrow> int \<Rightarrow> int \<Rightarrow> int \<Rightarrow> int \<Rightarrow> nat option \<Rightarrow> nr_rlc_entity_am" where
  "nr_rlc_entity_am_reconfigure e t_poll_retransmit t_reassembly t_status_prohibit poll_pdu poll_byte max_retx_threshold sn_len =
     (let e = e\<lparr>am_t_poll_retransmit := t_poll_retransmit, am_t_reassembly := t_reassembly,
                am_t_status_prohibit := t_status_prohibit, am_poll_pdu := poll_pdu, am_poll_byte := poll_byte,
                am_max_retx_threshold := max_retx_threshold\<rparr>
      in case sn_len of None \<Rightarrow> e | Some n \<Rightarrow> e\<lparr>am_sn_field_length := n\<rparr>)"

section \<open>Helpers\<close>

definition am_compute_pdu_header_size :: "nr_rlc_entity_am \<Rightarrow> nr_rlc_sdu_segment_t \<Rightarrow> int" where
  "am_compute_pdu_header_size e sdu = 2 + (if am_sn_field_length e = 18 then 1 else 0) + (if \<not> sg_is_first sdu then 2 else 0)"

definition am_modulus_rx :: "nr_rlc_entity_am \<Rightarrow> int \<Rightarrow> int" where
  "am_modulus_rx e a = (let r = a - am_rx_next e in if r < 0 then r + am_sn_modulus e else r)"

definition am_modulus_tx :: "nr_rlc_entity_am \<Rightarrow> int \<Rightarrow> int" where
  "am_modulus_tx e a = (let r = a - am_tx_next_ack e in if r < 0 then r + am_sn_modulus e else r)"

definition sn_in_recv_window :: "nr_rlc_entity_am \<Rightarrow> int \<Rightarrow> bool" where
  "sn_in_recv_window e sn \<longleftrightarrow> am_modulus_rx e sn < am_window_size e"

definition am_sn_compare_rx :: "nr_rlc_entity_am \<Rightarrow> int \<Rightarrow> int \<Rightarrow> int" where
  "am_sn_compare_rx e a b = am_modulus_rx e a - am_modulus_rx e b"

definition am_sn_compare_tx :: "nr_rlc_entity_am \<Rightarrow> int \<Rightarrow> int \<Rightarrow> int" where
  "am_sn_compare_tx e a b = am_modulus_tx e a - am_modulus_tx e b"

definition sdu_of :: "nr_rlc_entity_am \<Rightarrow> nr_rlc_sdu_segment_t \<Rightarrow> nr_rlc_sdu_t" where
  "sdu_of e s = am_heap e (sg_sdu s)"

definition sg_sn :: "nr_rlc_entity_am \<Rightarrow> nr_rlc_sdu_segment_t \<Rightarrow> int" where
  "sg_sn e s = sh_sn (sdu_of e s)"

definition update_sdu :: "nr_rlc_entity_am \<Rightarrow> nr_rlc_sdu_segment_t \<Rightarrow> (nr_rlc_sdu_t \<Rightarrow> nr_rlc_sdu_t) \<Rightarrow> nr_rlc_entity_am" where
  "update_sdu e s f = e\<lparr>am_heap := (am_heap e)(sg_sdu s := f (am_heap e (sg_sdu s)))\<rparr>"

fun nr_rlc_tx_sdu_segment_list_add ::
    "nr_rlc_entity_am \<Rightarrow> nr_rlc_sdu_segment_t list \<Rightarrow> nr_rlc_sdu_segment_t \<Rightarrow> nr_rlc_sdu_segment_t list" where
  "nr_rlc_tx_sdu_segment_list_add e [] s = [s]"
| "nr_rlc_tx_sdu_segment_list_add e (cur # l) s =
     (if am_sn_compare_tx e (sg_sn e cur) (sg_sn e s) > 0 \<or> (sg_sn e cur = sg_sn e s \<and> sg_so cur > sg_so s)
      then s # cur # l else cur # nr_rlc_tx_sdu_segment_list_add e l s)"

text \<open>Free a segment, and its SDU with the last one: the size is given back and delivery indicated.\<close>

definition nr_rlc_free_sdu_segment :: "nr_rlc_entity_am \<Rightarrow> nr_rlc_sdu_segment_t \<Rightarrow> bool \<times> nr_rlc_entity_am" where
  "nr_rlc_free_sdu_segment e s =
     (let e = update_sdu e s (\<lambda>x. x\<lparr>sh_free_count := sh_free_count x + 1\<rparr>)
      in if sh_free_count (sdu_of e s) = sh_ref_count (sdu_of e s)
         then (True, update_sdu e s (\<lambda>x. x\<lparr>sh_freed := True\<rparr>)) else (False, e))"

definition ack_segment :: "nr_rlc_entity_am \<Rightarrow> nr_rlc_sdu_segment_t \<Rightarrow> nr_rlc_entity_am" where
  "ack_segment e s =
     (let n = int (length (sh_data (sdu_of e s))); ident = sh_upper_layer_id (sdu_of e s);
          (freed, e) = nr_rlc_free_sdu_segment e s
      in if freed
         then e\<lparr>am_tx_size := am_tx_size e - n, am_acked := am_acked e @ [ident],
                am_stats := (am_stats e)\<lparr>txsdu_bytes := txsdu_bytes (am_stats e) + word_of_int n\<rparr>\<rparr>
         else e)"

section \<open>Reception\<close>

text \<open>\<open>slot e sn\<close>: the list of PDUs for a sequence number.\<close>

definition slot :: "nr_rlc_entity_am \<Rightarrow> int \<Rightarrow> nr_rlc_pdu list" where
  "slot e sn = nr_rlc_rx_manager_get_pdu_from_sn (am_rx e) sn"

fun already_received_loop :: "nr_rlc_pdu list \<Rightarrow> int \<Rightarrow> int \<Rightarrow> bool" where
  "already_received_loop [] so sz \<longleftrightarrow> sz \<le> 0"
| "already_received_loop (l # ls) so sz \<longleftrightarrow>
     (if \<not> sz > 0 then sz \<le> 0
      else if pdu_so l \<le> so \<and> so < pdu_so l + pdu_size l
      then let covered = pdu_size l - (so - pdu_so l) in already_received_loop ls (so + covered) (sz - covered)
      else if pdu_so l \<le> so + sz - 1 \<and> so + sz - 1 < pdu_so l + pdu_size l
      then let covered = sz - (pdu_so l - so) in already_received_loop ls so (sz - covered)
      else already_received_loop ls so sz)"

definition segment_already_received :: "nr_rlc_entity_am \<Rightarrow> int \<Rightarrow> int \<Rightarrow> int \<Rightarrow> bool" where
  "segment_already_received e sn so sz = already_received_loop (slot e sn) so sz"

definition processed :: "nr_rlc_pdu list \<Rightarrow> bool" where
  "processed l \<longleftrightarrow> (case l of [] \<Rightarrow> False | p # _ \<Rightarrow> pdu_data p = None)"

fun am_full_loop :: "int \<Rightarrow> nr_rlc_pdu list \<Rightarrow> bool" where
  "am_full_loop last_byte [] = False"
| "am_full_loop last_byte (l # ls) =
     (if pdu_so l > last_byte + 1 then False
      else if pdu_is_last l then True
      else am_full_loop (max last_byte (pdu_so l + pdu_size l - 1)) ls)"

definition am_sdu_full :: "nr_rlc_entity_am \<Rightarrow> int \<Rightarrow> bool" where
  "am_sdu_full e sn = (if processed (slot e sn) then False else am_full_loop (-1) (slot e sn))"

definition am_sdu_delivered :: "nr_rlc_entity_am \<Rightarrow> int \<Rightarrow> bool" where
  "am_sdu_delivered e sn = processed (slot e sn)"

fun am_missing_loop :: "int \<Rightarrow> nr_rlc_pdu list \<Rightarrow> bool" where
  "am_missing_loop last_byte [] = False"
| "am_missing_loop last_byte (l # ls) =
     (if pdu_so l > last_byte + 1 then True else am_missing_loop (max last_byte (pdu_so l + pdu_size l - 1)) ls)"

definition am_sdu_has_missing_bytes :: "nr_rlc_entity_am \<Rightarrow> int \<Rightarrow> bool" where
  "am_sdu_has_missing_bytes e sn = (if processed (slot e sn) then False else am_missing_loop (-1) (slot e sn))"

text \<open>Reassembly proceeds as in unacknowledged mode; the PDUs stay in place without their data.\<close>

definition am_reassemble_and_deliver :: "nr_rlc_entity_am \<Rightarrow> int \<Rightarrow> nr_rlc_entity_am" where
  "am_reassemble_and_deliver e sn =
     (let segs = slot e sn;
          (so, bad_sdu, sdu) = foldl reassemble_step (0, False, []) segs;
          e = e\<lparr>am_rx := rxm_update (am_rx e) sn (map (\<lambda>p. p\<lparr>pdu_data := None\<rparr>)),
                am_rx_size := am_rx_size e - sum_list (map pdu_size segs)\<rparr>
      in if bad_sdu then e
         else e\<lparr>am_delivered := am_delivered e @ [sdu],
                am_stats := (am_stats e)\<lparr>txsdu_pkts := txsdu_pkts (am_stats e) + 1\<rparr>\<rparr>)"

text \<open>The first sequence number from \<open>sn\<close> on that was not delivered; the loop may not end.\<close>

partial_function (option) am_skip_delivered :: "nr_rlc_entity_am \<Rightarrow> int \<Rightarrow> int option" where
  [code]: "am_skip_delivered e sn =
     (if am_sdu_delivered e sn then am_skip_delivered e (c_mod (sn + 1) (am_sn_modulus e)) else Some sn)"

text \<open>Free the delivered SDUs at the head of the window; every step empties one slot.\<close>

partial_function (option) free_delivered :: "nr_rlc_entity_am \<Rightarrow> int \<Rightarrow> int \<Rightarrow> (nr_rlc_entity_am \<times> int \<times> int) option" where
  [code]: "free_delivered e rx_next count =
     (if processed (slot e rx_next)
      then free_delivered (e\<lparr>am_rx := nr_rlc_rx_manager_clear_pdu (am_rx e) rx_next\<rparr>) (c_mod (rx_next + 1) (am_sn_modulus e)) (count + 1)
      else Some (e, rx_next, count))"

definition am_advance_window :: "nr_rlc_entity_am \<Rightarrow> nr_rlc_entity_am option" where
  "am_advance_window e =
     map_option (\<lambda>(e, rx_next, count).
       e\<lparr>am_rx_next := rx_next, am_rx := nr_rlc_rx_manager_set_start (nr_rlc_rx_manager_advance (am_rx e) count) rx_next\<rparr>)
       (free_delivered e (am_rx_next e) 0)"

definition am_raise_highest :: "nr_rlc_entity_am \<Rightarrow> int \<Rightarrow> nr_rlc_entity_am" where
  "am_raise_highest e x =
     (if am_sn_compare_rx e x (am_rx_next_highest e) \<ge> 0 then e\<lparr>am_rx_next_highest := c_mod (x + 1) (am_sn_modulus e)\<rparr> else e)"

definition am_raise_status :: "nr_rlc_entity_am \<Rightarrow> int \<Rightarrow> nr_rlc_entity_am option" where
  "am_raise_status e x =
     (if x = am_rx_highest_status e
      then map_option (\<lambda>sn. e\<lparr>am_rx_highest_status := sn\<rparr>) (am_skip_delivered e (am_rx_highest_status e))
      else Some e)"

definition am_reception_window :: "nr_rlc_entity_am \<Rightarrow> int \<Rightarrow> nr_rlc_entity_am option" where
  "am_reception_window e x =
     (let e = am_raise_highest e x
      in if am_sdu_full e x
         then Option.bind (am_raise_status (am_reassemble_and_deliver e x) x) (\<lambda>e.
                if x = am_rx_next e then am_advance_window e else Some e)
         else Some e)"

definition am_timer_stop :: "nr_rlc_entity_am \<Rightarrow> nr_rlc_entity_am" where
  "am_timer_stop e =
     (if am_t_reassembly_start e \<noteq> 0 \<and>
         (am_rx_next_status_trigger e = am_rx_next e \<or>
          (am_rx_next_status_trigger e = c_mod (am_rx_next e + 1) (am_sn_modulus e) \<and> \<not> am_sdu_has_missing_bytes e (am_rx_next e)) \<or>
          (\<not> sn_in_recv_window e (am_rx_next_status_trigger e) \<and>
           am_rx_next_status_trigger e \<noteq> c_mod (am_rx_next e + am_window_size e) (am_sn_modulus e)))
      then e\<lparr>am_t_reassembly_start := 0\<rparr> else e)"

definition am_timer_start :: "nr_rlc_entity_am \<Rightarrow> nr_rlc_entity_am" where
  "am_timer_start e =
     (if am_t_reassembly_start e = 0 \<and>
         (am_sn_compare_rx e (am_rx_next_highest e) (c_mod (am_rx_next e + 1) (am_sn_modulus e)) > 0 \<or>
          (am_rx_next_highest e = c_mod (am_rx_next e + 1) (am_sn_modulus e) \<and> am_sdu_has_missing_bytes e (am_rx_next e)))
      then e\<lparr>am_t_reassembly_start := am_t_current e, am_rx_next_status_trigger := am_rx_next_highest e\<rparr> else e)"

definition am_reception_actions :: "nr_rlc_entity_am \<Rightarrow> int \<Rightarrow> nr_rlc_entity_am option" where
  "am_reception_actions e x = map_option (\<lambda>e. am_timer_start (am_timer_stop e)) (am_reception_window e x)"

end
