(* ===== verification/Rlc_Am_Status.thy ===== *)
theory Rlc_Am_Status
  imports Rlc_Am
begin

text \<open>
  Reception of STATUS PDUs in acknowledged mode (\<^verbatim>\<open>process_control_pdu\<close>): decoding, validation, and the
  walk over the wait list and the retransmit list that frees acknowledged segments and moves
  segments that are reported missing to the retransmit list.
\<close>

section \<open>Decoding\<close>

text \<open>A NACK: sequence number, first and last byte (\<open>-1\<close> for the end of the SDU) and range.\<close>

type_synonym nack = "int \<times> int \<times> int \<times> int"

text \<open>\<open>None\<close> is a jump to \<^verbatim>\<open>err\<close>. At most 18 bits are read at once.\<close>

definition am_read :: "nr_rlc_pdu_decoder \<Rightarrow> nat \<Rightarrow> (int \<Rightarrow> nr_rlc_pdu_decoder \<Rightarrow> 'a option) \<Rightarrow> 'a option" where
  "am_read d n k =
     (case nr_rlc_pdu_decoder_get_bits d n of
        None \<Rightarrow> None
      | Some (v, d') \<Rightarrow> if dec_error d' then None else k v d')"

definition decode_nack :: "nat \<Rightarrow> nr_rlc_pdu_decoder \<Rightarrow> (nack \<times> bool \<times> nr_rlc_pdu_decoder) option" where
  "decode_nack sn_len d =
     am_read d sn_len (\<lambda>nack_sn d. am_read d 1 (\<lambda>e1 d. am_read d 1 (\<lambda>e2 d. am_read d 1 (\<lambda>e3 d.
     am_read d (if sn_len = 18 then 3 else 1) (\<lambda>_ d.
       let finish = (\<lambda>so_start so_end d.
             let so_end = (if so_end = 0xffff then -1 else so_end)
             in if e3 \<noteq> 0 then am_read d 8 (\<lambda>rng d. Some ((nack_sn, so_start, so_end, rng), e1 \<noteq> 0, d))
                else Some ((nack_sn, so_start, so_end, 1), e1 \<noteq> 0, d))
       in if e2 \<noteq> 0 then am_read d 16 (\<lambda>so_start d. am_read d 16 (\<lambda>so_end d. finish so_start so_end d))
          else finish 0 0xffff d)))))"

text \<open>
  The loop over the NACKs. A NACK takes at least one byte, so the length of the buffer bounds their
  number.
\<close>

fun decode_nacks :: "nat \<Rightarrow> nat \<Rightarrow> bool \<Rightarrow> nr_rlc_pdu_decoder \<Rightarrow> nack list option" where
  "decode_nacks fuel sn_len False d = Some []"
| "decode_nacks 0 sn_len True d = None"
| "decode_nacks (Suc fuel) sn_len True d =
     Option.bind (decode_nack sn_len d) (\<lambda>(nack, e1, d'). map_option ((#) nack) (decode_nacks fuel sn_len e1 d'))"

definition decode_status :: "nat \<Rightarrow> u8 list \<Rightarrow> (int \<times> nack list) option" where
  "decode_status sn_len buffer =
     am_read (nr_rlc_pdu_decoder_init buffer) 1 (\<lambda>_ d. am_read d 3 (\<lambda>cpt d.
       if cpt \<noteq> 0 then None
       else am_read d sn_len (\<lambda>ack_sn d. am_read d 1 (\<lambda>e1 d. am_read d (if sn_len = 18 then 1 else 7) (\<lambda>_ d.
              map_option (\<lambda>nacks. (ack_sn, nacks)) (decode_nacks (8 * length buffer) sn_len (e1 \<noteq> 0) d))))))"

section \<open>Validation\<close>

text \<open>The single NACKs of a range.\<close>

definition expand_nack :: "nr_rlc_entity_am \<Rightarrow> nack \<Rightarrow> (int \<times> int \<times> int) list" where
  "expand_nack e nack =
     (let (nack_sn, so_start, so_end, rng) = nack
      in map (\<lambda>i. (c_mod (nack_sn + int i) (am_sn_modulus e), if i = 0 then so_start else 0, if int i = rng - 1 then so_end else -1))
           [0..<nat rng])"

text \<open>
  The order of the NACKs is not checked: \<^verbatim>\<open>prev_nack_sn\<close> keeps its initial value in the loop that
  validates them.
\<close>

definition valid_status :: "nr_rlc_entity_am \<Rightarrow> int \<Rightarrow> nack list \<Rightarrow> bool" where
  "valid_status e ack_sn nacks \<longleftrightarrow> \<not> am_sn_compare_tx e ack_sn (am_tx_next e) > 0 \<and>
     list_all (\<lambda>nack. list_all (\<lambda>(sn, _, _). \<not> am_sn_compare_tx e sn ack_sn > 0) (expand_nack e nack)) nacks"

section \<open>Processing\<close>

definition so_overlap :: "int \<Rightarrow> int \<Rightarrow> int \<Rightarrow> int \<Rightarrow> bool" where
  "so_overlap s1 e1 s2 e2 = (if s1 < s2 then e1 = -1 \<or> e1 \<ge> s2 else e2 = -1 \<or> s1 \<le> e2)"

datatype nack_class = Hit | Later | Acked | Beyond | At_ack

text \<open>What the two parts of the loop find out about the head of a list, in the order of their tests.\<close>

definition classify :: "nr_rlc_entity_am \<Rightarrow> int \<Rightarrow> int \<times> int \<times> int \<Rightarrow> nr_rlc_sdu_segment_t \<Rightarrow> nack_class" where
  "classify e ack_sn nack s =
     (let (nack_sn, so_start, so_end) = nack; sn = sg_sn e s
      in if sn = nack_sn \<and> so_overlap so_start so_end (sg_so s) (sg_so s + sg_size s - 1) then Hit
         else if am_sn_compare_tx e sn nack_sn > 0 \<or> (am_sn_compare_tx e sn nack_sn = 0 \<and> sg_so s > so_start) then Later
         else if am_sn_compare_tx e sn ack_sn < 0 then Acked
         else if am_sn_compare_tx e sn ack_sn > 0 then Beyond
         else At_ack)"

definition retransmit_segment :: "nr_rlc_entity_am \<Rightarrow> nr_rlc_sdu_segment_t \<Rightarrow> nr_rlc_entity_am" where
  "retransmit_segment e s =
     (let e = update_sdu e s (\<lambda>x. x\<lparr>sh_retx_count := sh_retx_count x + 1\<rparr>);
          e = (if sh_retx_count (sdu_of e s) \<ge> am_max_retx_threshold e * sh_ref_count (sdu_of e s)
               then e\<lparr>am_max_retx := am_max_retx e + 1\<rparr> else e)
      in e\<lparr>am_bstatus_retx := am_bstatus_retx e + (am_compute_pdu_header_size e s + sg_size s)\<rparr>)"

definition ack_retransmit_segment :: "nr_rlc_entity_am \<Rightarrow> nr_rlc_sdu_segment_t \<Rightarrow> nr_rlc_entity_am" where
  "ack_retransmit_segment e s =
     ack_segment (e\<lparr>am_bstatus_retx := am_bstatus_retx e - (am_compute_pdu_header_size e s + sg_size s)\<rparr>) s"

definition wait_before :: "nr_rlc_entity_am \<Rightarrow> nr_rlc_sdu_segment_t \<Rightarrow> nr_rlc_sdu_segment_t \<Rightarrow> bool" where
  "wait_before e w r =
     (am_sn_compare_tx e (sg_sn e w) (sg_sn e r) < 0 \<or> (am_sn_compare_tx e (sg_sn e w) (sg_sn e r) = 0 \<and> sg_so w < sg_so r))"

text \<open>
  One NACK. The state is the entity, the part of the wait list that is left behind, the wait list
  from the cursor on, the new retransmit list and the old one from the cursor on. The flag says
  that both lists are over. When the wait list is at its end and the head of the old retransmit
  list is at \<open>ack_sn\<close>, the code links the old list behind the new one without moving the end of the
  new one, and cuts it off there at the end: the rest of the old list is lost.
\<close>

type_synonym nack_state = "nr_rlc_entity_am \<times> nr_rlc_sdu_segment_t list \<times> nr_rlc_sdu_segment_t list \<times>
  nr_rlc_sdu_segment_t list \<times> nr_rlc_sdu_segment_t list"

function process_nack ::
    "int \<Rightarrow> int \<times> int \<times> int \<Rightarrow> nr_rlc_entity_am \<Rightarrow> nr_rlc_sdu_segment_t list \<Rightarrow> nr_rlc_sdu_segment_t list \<Rightarrow>
     nr_rlc_sdu_segment_t list \<Rightarrow> nr_rlc_sdu_segment_t list \<Rightarrow> nack_state \<times> bool" where
  "process_nack ack_sn nack e kept [] new_r [] = ((e, kept, [], new_r, []), True)"
| "process_nack ack_sn nack e kept (w # ws) new_r rs =
     (if rs \<noteq> [] \<and> \<not> wait_before e w (hd rs)
      then (case classify e ack_sn nack (hd rs) of
              Hit \<Rightarrow> process_nack ack_sn nack e kept (w # ws) (new_r @ [hd rs]) (tl rs)
            | Later \<Rightarrow> ((e, kept, w # ws, new_r, rs), False)
            | Acked \<Rightarrow> process_nack ack_sn nack (ack_retransmit_segment e (hd rs)) kept (w # ws) new_r (tl rs)
            | _ \<Rightarrow> process_nack ack_sn nack e kept (w # ws) (new_r @ [hd rs]) (tl rs))
      else (case classify e ack_sn nack w of
              Hit \<Rightarrow> process_nack ack_sn nack (retransmit_segment e w) kept ws (new_r @ [w]) rs
            | Later \<Rightarrow> ((e, kept, w # ws, new_r, rs), False)
            | Acked \<Rightarrow> process_nack ack_sn nack (ack_segment e w) kept ws new_r rs
            | Beyond \<Rightarrow> process_nack ack_sn nack e (kept @ w # ws) [] new_r rs
            | At_ack \<Rightarrow> process_nack ack_sn nack e (kept @ [w]) ws new_r rs))"
| "process_nack ack_sn nack e kept [] new_r (r # rs) =
     (case classify e ack_sn nack r of
        Hit \<Rightarrow> process_nack ack_sn nack e kept [] (new_r @ [r]) rs
      | Later \<Rightarrow> ((e, kept, [], new_r, r # rs), False)
      | Acked \<Rightarrow> process_nack ack_sn nack (ack_retransmit_segment e r) kept [] new_r rs
      | _ \<Rightarrow> ((e, kept, [], new_r, []), True))"
  by pat_completeness auto
termination
  by (relation "measure (\<lambda>(_, _, _, _, w, _, r). length w + length r)") auto

fun process_range :: "int \<Rightarrow> (int \<times> int \<times> int) list \<Rightarrow> nack_state \<Rightarrow> nack_state" where
  "process_range ack_sn [] st = st"
| "process_range ack_sn (nack # nacks) (e, kept, w, new_r, r) =
     (let (st, over) = process_nack ack_sn nack e kept w new_r r in if over then st else process_range ack_sn nacks st)"

definition stop_poll_timer :: "nr_rlc_entity_am \<Rightarrow> bool \<Rightarrow> nr_rlc_entity_am" where
  "stop_poll_timer e c = (if c then e\<lparr>am_t_poll_retransmit_start := 0\<rparr> else e)"

fun process_nacks :: "int \<Rightarrow> nack list \<Rightarrow> nack_state \<Rightarrow> nack_state" where
  "process_nacks ack_sn [] st = st"
| "process_nacks ack_sn ((nack_sn, so_start, so_end, rng) # nacks) (e, kept, w, new_r, r) =
     (let (e, rest) = process_range ack_sn (expand_nack e (nack_sn, so_start, so_end, rng)) (e, kept, w, new_r, r);
          e = stop_poll_timer e (am_sn_compare_tx e nack_sn (am_poll_sn e) \<le> 0 \<and>
                am_sn_compare_tx e (am_poll_sn e) (c_mod (nack_sn + rng) (am_sn_modulus e)) < 0)
      in process_nacks ack_sn nacks (e, rest))"

fun ack_wait_list :: "int \<Rightarrow> nr_rlc_entity_am \<Rightarrow> nr_rlc_sdu_segment_t list \<Rightarrow> nr_rlc_entity_am \<times> nr_rlc_sdu_segment_t list" where
  "ack_wait_list ack_sn e [] = (e, [])"
| "ack_wait_list ack_sn e (s # l) =
     (if am_sn_compare_tx e (sg_sn e s) ack_sn < 0 then ack_wait_list ack_sn (ack_segment e s) l else (e, s # l))"

fun ack_retransmit_list :: "int \<Rightarrow> nr_rlc_entity_am \<Rightarrow> nr_rlc_sdu_segment_t list \<Rightarrow> nr_rlc_entity_am \<times> nr_rlc_sdu_segment_t list" where
  "ack_retransmit_list ack_sn e [] = (e, [])"
| "ack_retransmit_list ack_sn e (s # l) =
     (if am_sn_compare_tx e (sg_sn e s) ack_sn < 0 then ack_retransmit_list ack_sn (ack_retransmit_segment e s) l else (e, s # l))"

definition update_tx_next_ack :: "nr_rlc_entity_am \<Rightarrow> int \<Rightarrow> nr_rlc_entity_am" where
  "update_tx_next_ack e ack_sn =
     (let a = am_tx_next e;
          lower = (\<lambda>l a. case l of [] \<Rightarrow> a | s # _ \<Rightarrow> if am_sn_compare_tx e (sg_sn e s) a < 0 then sg_sn e s else a);
          a = lower (am_wait_list e) a;
          a = lower (am_retransmit_list e) a;
          a = (if am_sn_compare_tx e ack_sn a < 0 then ack_sn else a)
      in e\<lparr>am_tx_next_ack := a\<rparr>)"

definition process_status :: "nr_rlc_entity_am \<Rightarrow> int \<Rightarrow> nack list \<Rightarrow> nr_rlc_entity_am" where
  "process_status e ack_sn nacks =
     (let e = stop_poll_timer e (am_sn_compare_tx e (am_poll_sn e) ack_sn < 0);
          (e, kept, w, new_r, r) = process_nacks ack_sn nacks (e, [], am_wait_list e, [], am_retransmit_list e);
          (e, w) = ack_wait_list ack_sn e w;
          (e, r) = ack_retransmit_list ack_sn e r
      in update_tx_next_ack (e\<lparr>am_wait_list := kept @ w, am_retransmit_list := new_r @ r\<rparr>) ack_sn)"

definition process_control_pdu :: "nr_rlc_entity_am \<Rightarrow> u8 list \<Rightarrow> nr_rlc_entity_am" where
  "process_control_pdu e buffer =
     (case decode_status (am_sn_field_length e) buffer of
        None \<Rightarrow> e
      | Some (ack_sn, nacks) \<Rightarrow> if valid_status e ack_sn nacks then process_status e ack_sn nacks else e)"

section \<open>Termination of the decoder\<close>

text \<open>The bits that are left.\<close>

definition bits_left :: "nr_rlc_pdu_decoder \<Rightarrow> nat" where
  "bits_left d = 8 * length (dec_buffer d) - (8 * dec_byte d + dec_bit d)"

lemma get_bit_left:
  assumes "get_bit d = (v, d')" and "\<not> dec_error d'" and "dec_bit d < 8"
  shows "bits_left d' < bits_left d \<and> dec_bit d' < 8"
  using assms by (auto simp: get_bit_def bits_left_def split: if_splits)

lemma get_bits_loop_left:
  "get_bits_loop n acc d = (v, d') \<Longrightarrow> \<not> dec_error d' \<Longrightarrow> dec_bit d < 8 \<Longrightarrow>
     (bits_left d' < bits_left d \<or> n = 0 \<and> d' = d) \<and> dec_bit d' < 8"
proof (induction n arbitrary: acc d)
  case (Suc n)
  obtain b d1 where b: "get_bit d = (b, d1)" by (cases "get_bit d")
  have "\<not> dec_error d1" using Suc.prems(1,2) b by (auto split: if_splits)
  then show ?case using Suc.IH [of "2 * acc + b" d1] Suc.prems b get_bit_left [OF b] by fastforce
qed simp

lemma am_read_left:
  assumes "am_read d n k = Some r" and "dec_bit d < 8"
  obtains v d' where "k v d' = Some r" and "bits_left d' < bits_left d \<or> n = 0 \<and> d' = d" and "dec_bit d' < 8"
  using assms get_bits_loop_left [of n 0 d]
  by (fastforce simp: am_read_def nr_rlc_pdu_decoder_get_bits_def split: if_splits option.splits prod.splits)


end
