(* ===== verification/Rlc_Am_Report.thy ===== *)
theory Rlc_Am_Report
  imports Rlc_Am
begin

text \<open>
  STATUS reports in acknowledged mode (\<^verbatim>\<open>nr_rlc_entity_am.c\<close>, status reporting): the search for the
  parts that are missing between \<^verbatim>\<open>rx_next\<close> and \<^verbatim>\<open>rx_highest_status\<close>, the STATUS PDU that reports them
  and the size announced for it. A pointer into the list of PDUs of a sequence number is the rest of
  that list from there on; the null pointer is the empty list.
\<close>

section \<open>Walking over the received PDUs\<close>

partial_function (option) search_rx_pdu :: "nr_rlc_entity_am \<Rightarrow> int \<Rightarrow> int \<Rightarrow> nr_rlc_pdu list option" where
  [code]: "search_rx_pdu e sn last_sn =
     (if sn = last_sn \<or> slot e sn \<noteq> [] then Some (slot e sn)
      else search_rx_pdu e (c_mod (sn + 1) (am_sn_modulus e)) last_sn)"

definition get_first_rx_pdu :: "nr_rlc_entity_am \<Rightarrow> nr_rlc_pdu list option" where
  "get_first_rx_pdu e = search_rx_pdu e (am_rx_next e) (am_rx_highest_status e)"

definition get_next_rx_pdu :: "nr_rlc_entity_am \<Rightarrow> nr_rlc_pdu \<Rightarrow> nr_rlc_pdu list \<Rightarrow> nr_rlc_pdu list option" where
  "get_next_rx_pdu e cur rest =
     (if rest \<noteq> [] then Some rest
      else if pdu_sn cur = am_rx_highest_status e then Some []
      else search_rx_pdu e (c_mod (pdu_sn cur + 1) (am_sn_modulus e)) (am_rx_highest_status e))"

section \<open>The next missing part\<close>

record missing_data_t =
  sn_start :: int
  so_start :: int
  sn_end :: int
  so_end :: int
  md_next :: "nr_rlc_pdu list"

text \<open>The report starts before \<open>rx_highest_status\<close> and ends there at the latest.\<close>

definition in_report :: "nr_rlc_entity_am \<Rightarrow> int \<Rightarrow> bool" where
  "in_report e sn \<longleftrightarrow> am_sn_compare_rx e (am_rx_highest_status e) sn > 0"

definition report_end :: "nr_rlc_entity_am \<Rightarrow> int" where
  "report_end e = c_mod (am_rx_highest_status e - 1 + am_sn_modulus e) (am_sn_modulus e)"

definition set_end_different_sdu :: "nr_rlc_entity_am \<Rightarrow> int \<Rightarrow> int \<Rightarrow> nr_rlc_pdu \<Rightarrow> nr_rlc_pdu list \<Rightarrow> missing_data_t" where
  "set_end_different_sdu e sn so cur next =
     (let (sn', so') = (if pdu_is_first cur then (c_mod (pdu_sn cur - 1 + am_sn_modulus e) (am_sn_modulus e), 0xffff)
                        else (pdu_sn cur, pdu_so cur - 1))
      in if in_report e sn' then \<lparr>sn_start = sn, so_start = so, sn_end = sn', so_end = so', md_next = next\<rparr>
         else \<lparr>sn_start = sn, so_start = so, sn_end = report_end e, so_end = 0xffff, md_next = []\<rparr>)"

text \<open>\<open>None\<close> stands for \<^verbatim>\<open>sn_start = -1\<close>: nothing more to report.\<close>

definition missing_at_head :: "nr_rlc_entity_am \<Rightarrow> nr_rlc_pdu \<Rightarrow> nr_rlc_pdu list \<Rightarrow> missing_data_t option" where
  "missing_at_head e cur rest =
     (if in_report e (am_rx_next e) then Some (set_end_different_sdu e (am_rx_next e) 0 cur (cur # rest)) else None)"

definition missing_at_end :: "nr_rlc_entity_am \<Rightarrow> nr_rlc_pdu \<Rightarrow> int \<Rightarrow> bool \<Rightarrow> missing_data_t option" where
  "missing_at_end e cur max_so last_reached =
     (let (sn, so) = (if pdu_data cur = None \<or> last_reached then (c_mod (pdu_sn cur + 1) (am_sn_modulus e), 0)
                      else (pdu_sn cur, max_so + 1))
      in if in_report e sn
         then Some \<lparr>sn_start = sn, so_start = so, sn_end = report_end e, so_end = 0xffff, md_next = []\<rparr>
         else None)"

definition missing_between ::
    "nr_rlc_entity_am \<Rightarrow> int \<Rightarrow> int \<Rightarrow> bool \<Rightarrow> nr_rlc_pdu \<Rightarrow> nr_rlc_pdu list \<Rightarrow> missing_data_t option" where
  "missing_between e sn max_so last_reached cur rest =
     (if pdu_sn cur = sn
      then if in_report e sn
           then Some \<lparr>sn_start = sn, so_start = max_so + 1, sn_end = sn, so_end = pdu_so cur - 1, md_next = cur # rest\<rparr>
           else None
      else let (sn', so') = (if last_reached then (c_mod (sn + 1) (am_sn_modulus e), 0) else (sn, max_so + 1))
           in if in_report e sn' then Some (set_end_different_sdu e sn' so' cur (cur # rest)) else None)"

partial_function (option) next_missing_loop ::
    "nr_rlc_entity_am \<Rightarrow> nr_rlc_pdu \<Rightarrow> nr_rlc_pdu list \<Rightarrow> int \<Rightarrow> bool \<Rightarrow> missing_data_t option option" where
  [code]: "next_missing_loop e cur rest max_so last_reached =
     (let max_so = max max_so (pdu_so cur + pdu_size cur - 1); last_reached = (last_reached \<or> pdu_is_last cur)
      in Option.bind (get_next_rx_pdu e cur rest) (\<lambda>l.
           case l of
             [] \<Rightarrow> Some (missing_at_end e cur max_so last_reached)
           | cur' # rest' \<Rightarrow>
               if pdu_sn cur' = pdu_sn cur \<and> max_so \<ge> pdu_so cur' - 1
               then next_missing_loop e cur' rest' max_so last_reached
               else if pdu_sn cur' = c_mod (pdu_sn cur + 1) (am_sn_modulus e) \<and> last_reached \<and> pdu_is_first cur'
               then next_missing_loop e cur' rest' 0 False
               else Some (missing_between e (pdu_sn cur) max_so last_reached cur' rest')))"

definition next_missing :: "nr_rlc_entity_am \<Rightarrow> nr_rlc_pdu \<Rightarrow> nr_rlc_pdu list \<Rightarrow> bool \<Rightarrow> missing_data_t option option" where
  "next_missing e cur rest check_head =
     (if check_head \<and> (pdu_sn cur \<noteq> am_rx_next e \<or> \<not> pdu_is_first cur)
      then Some (missing_at_head e cur rest)
      else next_missing_loop e cur rest 0 False)"

section \<open>Encoding\<close>

definition nack_size :: "nr_rlc_entity_am \<Rightarrow> missing_data_t \<Rightarrow> int" where
  "nack_size e m =
     (let nack_length = 2 + (if am_sn_field_length e = 18 then 1 else 0)
      in if sn_start m = sn_end m
         then if so_start m = 0 \<and> so_end m = 0xffff then nack_length else nack_length + 4
         else if so_start m = 0 \<and> so_end m = 0xffff then nack_length + 1 else nack_length + 5)"

definition get_e1_position :: "nr_rlc_entity_am \<Rightarrow> nr_rlc_pdu_encoder \<Rightarrow> nat \<times> nat" where
  "get_e1_position e enc = (if am_sn_field_length e = 18 then (enc_byte enc + 2, 5) else (enc_byte enc + 1, 3))"

text \<open>
  The variables of \<^verbatim>\<open>generate_status\<close> that \<^verbatim>\<open>generate_missing\<close> updates through pointers: the encoder,
  the position of the last E1 bit, the position of the last SO end and whether the report was
  truncated. The last NACK is the result of the function, \<open>-1\<close> for none.
\<close>

record status_state =
  st_enc :: nr_rlc_pdu_encoder
  st_e1 :: "nat \<times> nat"
  st_truncated :: bool
  st_so_end_address :: "nat option"
  st_last_nack :: int

text \<open>The number of sequence numbers of a missing part, and the next range of at most 255 of them.\<close>

definition missing_count :: "nr_rlc_entity_am \<Rightarrow> missing_data_t \<Rightarrow> int" where
  "missing_count e m = c_mod (sn_end m - sn_start m + am_sn_modulus e) (am_sn_modulus e) + 1"

definition missing_range :: "nr_rlc_entity_am \<Rightarrow> missing_data_t \<Rightarrow> int \<Rightarrow> nat \<Rightarrow> missing_data_t" where
  "missing_range e m sn sn_count =
     \<lparr>sn_start = sn, so_start = (if sn = sn_start m then so_start m else 0),
      sn_end = (if sn_count \<le> 255 then sn_end m else c_mod (sn + 254) (am_sn_modulus e)),
      so_end = (if sn_count \<le> 255 then so_end m else 0xffff), md_next = md_next m\<rparr>"

definition set_buffer_bit :: "nr_rlc_pdu_encoder \<Rightarrow> nat \<times> nat \<Rightarrow> nr_rlc_pdu_encoder" where
  "set_buffer_bit enc p = enc\<lparr>enc_buffer := (enc_buffer enc)[fst p := enc_buffer enc ! fst p OR push_bit (snd p) 1]\<rparr>"

definition put_nack :: "nr_rlc_entity_am \<Rightarrow> missing_data_t \<Rightarrow> nat \<Rightarrow> status_state \<Rightarrow> status_state option" where
  "put_nack e m cur_sn_count st =
     (let enc = set_buffer_bit (st_enc st) (st_e1 st);
          e1 = get_e1_position e enc;
          e2 = \<not> (so_start m = 0 \<and> so_end m = 0xffff);
          e3 = (sn_start m \<noteq> sn_end m);
          enc = put_field (sn_start m) (am_sn_field_length e) (Some enc);
          enc = put_field 0 1 enc;
          enc = put_field (of_bool e2) 1 enc;
          enc = put_field (of_bool e3) 1 enc;
          enc = put_field 0 (if am_sn_field_length e = 18 then 3 else 1) enc;
          (addr, enc) = (if e2
                         then let enc = put_field (so_start m) 16 enc in (map_option enc_byte enc, put_field (so_end m) 16 enc)
                         else (None, enc));
          enc = (if e3 then put_field (int cur_sn_count) 8 enc else enc);
          last = (if e3 then sn_start m + (int cur_sn_count - 1) else sn_start m)
      in map_option (\<lambda>enc. st\<lparr>st_enc := enc, st_e1 := e1, st_so_end_address := addr, st_last_nack := last\<rparr>) enc)"

function generate_missing_loop :: "nr_rlc_entity_am \<Rightarrow> missing_data_t \<Rightarrow> int \<Rightarrow> nat \<Rightarrow> status_state \<Rightarrow> status_state option" where
  "generate_missing_loop e m sn sn_count st =
     (if sn_count = 0 then Some st
      else let cur_sn_count = min sn_count 255; m_nack = missing_range e m sn sn_count
           in if int (enc_byte (st_enc st)) + nack_size e m_nack > int (length (enc_buffer (st_enc st)))
              then Some (st\<lparr>st_truncated := True\<rparr>)
              else Option.bind (put_nack e m_nack cur_sn_count st)
                     (generate_missing_loop e m (c_mod (sn + int cur_sn_count) (am_sn_modulus e)) (sn_count - cur_sn_count)))"
  by pat_completeness auto
termination
  by (relation "measure (\<lambda>(_, _, _, n, _). n)") auto

definition generate_missing :: "nr_rlc_entity_am \<Rightarrow> missing_data_t \<Rightarrow> status_state \<Rightarrow> status_state option" where
  "generate_missing e m st =
     generate_missing_loop e m (sn_start m) (nat (missing_count e m)) (st\<lparr>st_truncated := False, st_last_nack := -1\<rparr>)"

text \<open>After a truncated report the last SO end that was put becomes the end of the SDU.\<close>

definition force_so_end :: "status_state \<Rightarrow> status_state" where
  "force_so_end st =
     (case st_so_end_address st of
        Some a \<Rightarrow> if st_truncated st
                  then st\<lparr>st_enc := (st_enc st)\<lparr>enc_buffer := (enc_buffer (st_enc st))[a := 0xff, Suc a := 0xff]\<rparr>\<rparr> else st
      | None \<Rightarrow> st)"

partial_function (option) generate_status_loop ::
    "nr_rlc_entity_am \<Rightarrow> nr_rlc_pdu list \<Rightarrow> bool \<Rightarrow> int \<Rightarrow> status_state \<Rightarrow> (int \<times> status_state) option" where
  [code]: "generate_status_loop e l check_head last_nack st =
     (case l of
        [] \<Rightarrow> Some (last_nack, st)
      | cur # rest \<Rightarrow>
          Option.bind (next_missing e cur rest check_head) (\<lambda>mo.
            case mo of
              None \<Rightarrow> Some (last_nack, st)
            | Some m \<Rightarrow>
                Option.bind (generate_missing e m st) (\<lambda>st.
                  generate_status_loop e (if st_truncated st then [] else md_next m) False
                    (if st_last_nack st \<noteq> -1 then st_last_nack st else last_nack) (force_so_end st))))"

definition put_ack_sn :: "nr_rlc_entity_am \<Rightarrow> int \<Rightarrow> u8 list \<Rightarrow> u8 list" where
  "put_ack_sn e ack_sn buffer =
     (if am_sn_field_length e = 12
      then buffer[0 := word_of_int (drop_bit 8 ack_sn), 1 := word_of_int (ack_sn AND 255)]
      else buffer[0 := word_of_int (drop_bit 14 ack_sn), 1 := word_of_int (drop_bit 6 ack_sn AND 255),
                  2 := buffer ! 2 OR word_of_int (push_bit 2 (ack_sn AND 0x3f))])"

definition count_status_pdu :: "nr_rlc_entity_am \<Rightarrow> nat \<Rightarrow> nr_rlc_entity_am" where
  "count_status_pdu e n =
     e\<lparr>am_status_triggered := False, am_t_status_prohibit_start := am_t_current e,
       am_stats := (am_stats e)\<lparr>txpdu_pkts := txpdu_pkts (am_stats e) + 1, txpdu_bytes := txpdu_bytes (am_stats e) + of_nat n,
                                txpdu_status_pkts := txpdu_status_pkts (am_stats e) + 1,
                                txpdu_status_bytes := txpdu_status_bytes (am_stats e) + of_nat n\<rparr>\<rparr>"

definition status_start :: "nr_rlc_entity_am \<Rightarrow> nr_rlc_pdu_encoder \<Rightarrow> status_state" where
  "status_start e enc =
     \<lparr>st_enc = enc, st_e1 = (2, if am_sn_field_length e = 18 then 1 else 7), st_truncated = False,
      st_so_end_address = None, st_last_nack = -1\<rparr>"

definition generate_status :: "nr_rlc_entity_am \<Rightarrow> u8 list \<Rightarrow> (nr_rlc_entity_am \<times> u8 list) option" where
  "generate_status e buffer =
     (if length buffer < 3 then Some (e, [])
      else Option.bind (nr_rlc_pdu_encoder_put_bits (nr_rlc_pdu_encoder_init buffer) 0 24) (\<lambda>enc.
           Option.bind (get_first_rx_pdu e) (\<lambda>cur.
           Option.bind (generate_status_loop e cur True (c_mod (am_rx_next e - 1 + am_sn_modulus e) (am_sn_modulus e))
                          (status_start e enc)) (\<lambda>(last_nack, st).
             let ack_sn = c_mod (last_nack + 1) (am_sn_modulus e); n = enc_byte (st_enc st)
             in Some (count_status_pdu e n, take n (put_ack_sn e ack_sn (enc_buffer (st_enc st))))))))"

definition status_to_report :: "nr_rlc_entity_am \<Rightarrow> bool" where
  "status_to_report e \<longleftrightarrow> am_status_triggered e \<and>
     (am_t_status_prohibit_start e = 0 \<or> am_t_current e - am_t_status_prohibit_start e > word_of_int (am_t_status_prohibit e))"

section \<open>The size of a report\<close>

text \<open>The new size, the number of ranges, and whether there was no more room.\<close>

definition encoded_nack_size :: "nr_rlc_entity_am \<Rightarrow> missing_data_t \<Rightarrow> int" where
  "encoded_nack_size e m =
     (let hdr = int (am_sn_field_length e) + 3 + (if am_sn_field_length e = 18 then 3 else 1)
      in if sn_start m = sn_end m
         then if so_start m = 0 \<and> so_end m = 0xffff then c_div hdr 8 else c_div (hdr + 16 * 2) 8
         else if so_start m = 0 \<and> so_end m = 0xffff then c_div (hdr + 8) 8 else c_div (hdr + 16 * 2 + 8) 8)"

function missing_size_loop :: "nr_rlc_entity_am \<Rightarrow> missing_data_t \<Rightarrow> int \<Rightarrow> int \<Rightarrow> nat \<Rightarrow> int \<Rightarrow> int \<Rightarrow> int \<times> int \<times> bool" where
  "missing_size_loop e m maxsize sn sn_count sz range_count =
     (if sn_count = 0 then (sz, range_count, False)
      else let cur_sn_count = min sn_count 255; m_nack = missing_range e m sn sn_count
           in if sz + nack_size e m_nack > maxsize then (sz, range_count, True)
              else missing_size_loop e m maxsize (c_mod (sn + int cur_sn_count) (am_sn_modulus e)) (sn_count - cur_sn_count)
                     (sz + encoded_nack_size e m_nack) (range_count + 1))"
  by pat_completeness auto
termination
  by (relation "measure (\<lambda>(_, _, _, _, n, _, _). n)") auto

definition missing_size :: "nr_rlc_entity_am \<Rightarrow> missing_data_t \<Rightarrow> int \<Rightarrow> int \<Rightarrow> int \<times> int \<times> bool" where
  "missing_size e m sz maxsize = missing_size_loop e m maxsize (sn_start m) (nat (missing_count e m)) sz 0"

partial_function (option) status_size_loop :: "nr_rlc_entity_am \<Rightarrow> int \<Rightarrow> nr_rlc_pdu list \<Rightarrow> int \<Rightarrow> int \<Rightarrow> int option" where
  [code]: "status_size_loop e maxsize l nack_count sz =
     (case l of
        [] \<Rightarrow> Some sz
      | cur # rest \<Rightarrow>
          Option.bind (next_missing e cur rest (nack_count = 0)) (\<lambda>mo.
            case mo of
              None \<Rightarrow> Some sz
            | Some m \<Rightarrow>
                (case missing_size e m sz maxsize of
                   (sz, n, full) \<Rightarrow> status_size_loop e maxsize (if full then [] else md_next m) (nack_count + n) sz)))"

definition status_size :: "nr_rlc_entity_am \<Rightarrow> int \<Rightarrow> int option" where
  "status_size e maxsize =
     (if maxsize < 3 then Some 0
      else Option.bind (get_first_rx_pdu e) (\<lambda>cur. status_size_loop e maxsize cur 0 3))"

end
