(* ===== verification/Rlc_Am_Entity.thy ===== *)
theory Rlc_Am_Entity
  imports Rlc_Am_Status Rlc_Am_Report
begin

text \<open>
  The operations of the acknowledged mode entity (\<^verbatim>\<open>nr_rlc_entity_am.c\<close>): reception of PDUs,
  transmission and retransmission, SDUs from above, timers, discard and re-establishment.
\<close>

section \<open>Reception of PDUs\<close>

text \<open>
  The header of a PDU. A decoding error after the poll bit and a bad segment offset keep the poll bit
  (an error of the read of the poll bit itself gives \<^verbatim>\<open>-1\<close>, which counts as set).
\<close>

datatype am_header = Am_control | Am_bad bool | Am_data bool bool bool int int nat

definition am_read_or :: "am_header \<Rightarrow> nr_rlc_pdu_decoder \<Rightarrow> nat \<Rightarrow> (int \<Rightarrow> nr_rlc_pdu_decoder \<Rightarrow> am_header option) \<Rightarrow> am_header option" where
  "am_read_or err d n k =
     (case nr_rlc_pdu_decoder_get_bits d n of
        None \<Rightarrow> None
      | Some (v, d') \<Rightarrow> if dec_error d' then Some err else k v d')"

definition am_decode_header :: "nat \<Rightarrow> u8 list \<Rightarrow> am_header option" where
  "am_decode_header sn_len buffer =
     am_read_or (Am_bad False) (nr_rlc_pdu_decoder_init buffer) 1 (\<lambda>dc d.
       if dc = 0 then Some Am_control
       else am_read_or (Am_bad True) d 1 (\<lambda>p d.
         let p = (p \<noteq> 0); err = Am_bad p in
         am_read_or err d 2 (\<lambda>si d.
           let is_first = \<not> bit si 1; is_last = \<not> bit si 0;
               sn_so = (\<lambda>d. am_read_or err d sn_len (\<lambda>sn d.
                   if \<not> is_first
                   then am_read_or err d 16 (\<lambda>so d. Some (if so = 0 then Am_bad p else Am_data p is_first is_last sn so (dec_byte d)))
                   else Some (Am_data p is_first is_last sn 0 (dec_byte d))))
           in if sn_len = 18 then am_read_or err d 2 (\<lambda>_ d. sn_so d) else sn_so d)))"

definition am_trigger_status :: "nr_rlc_entity_am \<Rightarrow> bool \<Rightarrow> nr_rlc_entity_am" where
  "am_trigger_status e p = (if p then e\<lparr>am_status_triggered := True\<rparr> else e)"

definition am_discard_pdu :: "nr_rlc_entity_am \<Rightarrow> bool \<Rightarrow> int \<Rightarrow> nr_rlc_entity_am" where
  "am_discard_pdu e p n =
     (let e = am_trigger_status e p
      in e\<lparr>am_stats := (am_stats e)\<lparr>rxpdu_dd_pkts := rxpdu_dd_pkts (am_stats e) + 1,
                                    rxpdu_dd_bytes := rxpdu_dd_bytes (am_stats e) + word_of_int n\<rparr>\<rparr>)"

definition am_store_pdu :: "nr_rlc_entity_am \<Rightarrow> nr_rlc_pdu \<Rightarrow> nr_rlc_entity_am" where
  "am_store_pdu e pdu = e\<lparr>am_rx_size := am_rx_size e + pdu_size pdu, am_rx := nr_rlc_rx_manager_add_pdu (am_rx e) pdu\<rparr>"

definition am_recv_data ::
    "nr_rlc_entity_am \<Rightarrow> u8 list \<Rightarrow> bool \<Rightarrow> bool \<Rightarrow> bool \<Rightarrow> int \<Rightarrow> int \<Rightarrow> nat \<Rightarrow> nr_rlc_entity_am option" where
  "am_recv_data e buffer p is_first is_last sn so off =
     (let size = int (length buffer); data_size = size - int off
      in if data_size \<le> 0 then Some (am_discard_pdu e p size)
         else if am_rx_size e + data_size > am_rx_maxsize e then Some (am_discard_pdu e p size)
         else if \<not> sn_in_recv_window e sn
         then Some (am_discard_pdu
                (e\<lparr>am_stats := (am_stats e)\<lparr>rxpdu_ow_pkts := rxpdu_ow_pkts (am_stats e) + 1,
                                            rxpdu_ow_bytes := rxpdu_ow_bytes (am_stats e) + word_of_int size\<rparr>\<rparr>) p size)
         else if segment_already_received e sn so data_size
         then Some (am_discard_pdu
                (e\<lparr>am_stats := (am_stats e)\<lparr>rxpdu_dup_pkts := rxpdu_dup_pkts (am_stats e) + 1,
                                            rxpdu_dup_bytes := rxpdu_dup_bytes (am_stats e) + word_of_int size\<rparr>\<rparr>) p size)
         else map_option (\<lambda>e. am_trigger_status e p)
                (am_reception_actions (am_store_pdu e (nr_rlc_new_pdu sn so is_first is_last (drop off buffer))) sn))"

definition nr_rlc_entity_am_recv_pdu :: "nr_rlc_entity_am \<Rightarrow> u8 list \<Rightarrow> nr_rlc_entity_am option" where
  "nr_rlc_entity_am_recv_pdu e buffer =
     (let size = int (length buffer);
          e = e\<lparr>am_stats := (am_stats e)\<lparr>rxpdu_pkts := rxpdu_pkts (am_stats e) + 1,
                                         rxpdu_bytes := rxpdu_bytes (am_stats e) + word_of_int size\<rparr>\<rparr>
      in case am_decode_header (am_sn_field_length e) buffer of
           None \<Rightarrow> None
         | Some Am_control \<Rightarrow> Some (process_control_pdu e buffer)
         | Some (Am_bad p) \<Rightarrow> Some (am_discard_pdu e p size)
         | Some (Am_data p is_first is_last sn so off) \<Rightarrow> am_recv_data e buffer p is_first is_last sn so off)"

section \<open>Polling\<close>

definition is_window_stalling :: "nr_rlc_entity_am \<Rightarrow> bool" where
  "is_window_stalling e \<longleftrightarrow>
     \<not> (am_sn_compare_tx e (am_tx_next_ack e) (am_tx_next e) \<le> 0 \<and>
        am_sn_compare_tx e (am_tx_next e) (c_mod (am_tx_next_ack e + am_window_size e) (am_sn_modulus e)) < 0)"

definition include_poll :: "nr_rlc_entity_am \<Rightarrow> u8 list \<Rightarrow> nr_rlc_entity_am \<times> u8 list" where
  "include_poll e buffer =
     (e\<lparr>am_pdu_without_poll := 0, am_byte_without_poll := 0,
        am_poll_sn := c_mod (am_tx_next e - 1 + am_sn_modulus e) (am_sn_modulus e),
        am_t_poll_retransmit_start := am_t_current e\<rparr>,
      buffer[0 := buffer ! 0 OR 0x40])"

definition check_poll_after_pdu_assembly :: "nr_rlc_entity_am \<Rightarrow> bool" where
  "check_poll_after_pdu_assembly e \<longleftrightarrow> am_tx_list e = [] \<and> am_retransmit_list e = [] \<or> is_window_stalling e"

text \<open>The poll bit, set as well when a poll was forced.\<close>

definition take_force_poll :: "nr_rlc_entity_am \<Rightarrow> bool \<Rightarrow> nr_rlc_entity_am \<times> bool" where
  "take_force_poll e p = (if am_force_poll e then (e\<lparr>am_force_poll := False\<rparr>, True) else (e, p))"

section \<open>Transmission\<close>

definition am_segment_bytes :: "nr_rlc_entity_am \<Rightarrow> nr_rlc_sdu_segment_t \<Rightarrow> u8 list" where
  "am_segment_bytes e s = take (nat (sg_size s)) (drop (nat (sg_so s)) (sh_data (sdu_of e s)))"

definition am_serialize_sdu :: "nr_rlc_entity_am \<Rightarrow> nr_rlc_sdu_segment_t \<Rightarrow> u8 list \<Rightarrow> bool \<Rightarrow> (nr_rlc_entity_am \<times> u8 list) option" where
  "am_serialize_sdu e s buffer p =
     (let enc = Some (nr_rlc_pdu_encoder_init buffer);
          enc = put_field 1 1 enc;
          enc = put_field 0 1 enc;
          enc = put_field (1 - of_bool (sg_is_first s)) 1 enc;
          enc = put_field (1 - of_bool (sg_is_last s)) 1 enc;
          enc = (if am_sn_field_length e = 18 then put_field 0 2 enc else enc);
          enc = put_field (sg_sn e s) (am_sn_field_length e) enc;
          enc = (if \<not> sg_is_first s then put_field (sg_so s) 16 enc else enc)
      in map_option (\<lambda>enc. let pdu = take (enc_byte enc) (enc_buffer enc) @ am_segment_bytes e s
                           in if p then include_poll e pdu else (e, pdu)) enc)"

definition am_resegment :: "nr_rlc_entity_am \<Rightarrow> nr_rlc_sdu_segment_t \<Rightarrow> int \<Rightarrow> nr_rlc_entity_am \<times> nr_rlc_sdu_segment_t \<times> nr_rlc_sdu_segment_t" where
  "am_resegment e s room =
     (let over_size = am_compute_pdu_header_size e s + sg_size s - room;
          s' = s\<lparr>sg_size := sg_size s - over_size, sg_is_last := False\<rparr>
      in (update_sdu e s (\<lambda>x. x\<lparr>sh_ref_count := sh_ref_count x + 1\<rparr>), s',
          s\<lparr>sg_size := over_size, sg_so := sg_so s' + sg_size s', sg_is_first := False\<rparr>))"

definition am_put_wait :: "nr_rlc_entity_am \<Rightarrow> nr_rlc_sdu_segment_t \<Rightarrow> nr_rlc_entity_am" where
  "am_put_wait e s =
     (let l = am_wait_list e
      in e\<lparr>am_wait_list :=
             (if l = [] \<or> am_sn_compare_tx e (sg_sn e s) (sg_sn e (last l)) > 0 \<or>
                 (am_sn_compare_tx e (sg_sn e s) (sg_sn e (last l)) = 0 \<and> sg_so s > sg_so (last l))
              then l @ [s] else nr_rlc_tx_sdu_segment_list_add e l s)\<rparr>)"

definition am_count_segmented :: "nr_rlc_entity_am \<Rightarrow> nr_rlc_entity_am" where
  "am_count_segmented e = e\<lparr>am_stats := (am_stats e)\<lparr>txpdu_segmented := txpdu_segmented (am_stats e) + 1\<rparr>\<rparr>"

definition am_count_tx :: "nr_rlc_entity_am \<Rightarrow> nat \<Rightarrow> nr_rlc_entity_am" where
  "am_count_tx e n =
     e\<lparr>am_stats := (am_stats e)\<lparr>txpdu_pkts := txpdu_pkts (am_stats e) + 1, txpdu_bytes := txpdu_bytes (am_stats e) + of_nat n\<rparr>\<rparr>"

definition am_count_retx :: "nr_rlc_entity_am \<Rightarrow> nat \<Rightarrow> nr_rlc_entity_am" where
  "am_count_retx e n =
     (let e = am_count_tx e n
      in e\<lparr>am_stats := (am_stats e)\<lparr>txpdu_retx_pkts := txpdu_retx_pkts (am_stats e) + 1,
                                    txpdu_retx_bytes := txpdu_retx_bytes (am_stats e) + of_nat n\<rparr>\<rparr>)"

text \<open>
  Take the head of the retransmit list, shortened to fit; the rest goes back to the head of the list.
\<close>

definition am_take_retx :: "nr_rlc_entity_am \<Rightarrow> nr_rlc_sdu_segment_t \<Rightarrow> nr_rlc_sdu_segment_t list \<Rightarrow> int \<Rightarrow> nr_rlc_entity_am \<times> nr_rlc_sdu_segment_t" where
  "am_take_retx e s rest room =
     (let pdu_size = am_compute_pdu_header_size e s + sg_size s;
          e = e\<lparr>am_retransmit_list := rest, am_bstatus_retx := am_bstatus_retx e - pdu_size\<rparr>
      in if pdu_size > room
         then let (e, s, next) = am_resegment e s room
              in (am_count_segmented
                    (e\<lparr>am_retransmit_list := next # rest,
                       am_bstatus_retx := am_bstatus_retx e + (am_compute_pdu_header_size e next + sg_size next)\<rparr>), s)
         else (e, s))"

definition generate_retx_pdu :: "nr_rlc_entity_am \<Rightarrow> u8 list \<Rightarrow> (nr_rlc_entity_am \<times> u8 list) option" where
  "generate_retx_pdu e buffer =
     (case am_retransmit_list e of
        [] \<Rightarrow> None
      | s # rest \<Rightarrow>
          if am_compute_pdu_header_size e s + 1 > int (length buffer) then Some (e, [])
          else let (e, s) = am_take_retx e s rest (int (length buffer));
                   e = am_put_wait e s;
                   (e, p) = take_force_poll e (check_poll_after_pdu_assembly e)
               in map_option (\<lambda>(e, pdu). (am_count_retx e (length pdu), pdu)) (am_serialize_sdu e s buffer p))"

text \<open>Take the head of the transmission list; an SDU gets its sequence number with its first PDU.\<close>

definition am_assign_sn :: "nr_rlc_entity_am \<Rightarrow> nr_rlc_sdu_segment_t \<Rightarrow> nr_rlc_entity_am" where
  "am_assign_sn e s =
     (if sg_sn e s = -1
      then (update_sdu e s (\<lambda>x. x\<lparr>sh_sn := am_tx_next e\<rparr>))\<lparr>am_tx_next := c_mod (am_tx_next e + 1) (am_sn_modulus e)\<rparr>
      else e)"

definition am_take_tx :: "nr_rlc_entity_am \<Rightarrow> nr_rlc_sdu_segment_t \<Rightarrow> nr_rlc_sdu_segment_t list \<Rightarrow> int \<Rightarrow> nr_rlc_entity_am \<times> nr_rlc_sdu_segment_t" where
  "am_take_tx e s rest room =
     (let pdu_size = am_compute_pdu_header_size e s + sg_size s;
          e = am_assign_sn (e\<lparr>am_tx_list := rest, am_bstatus_tx := am_bstatus_tx e - pdu_size\<rparr>) s
      in if pdu_size > room
         then let (e, s, next) = am_resegment e s room
              in (am_count_segmented
                    (e\<lparr>am_tx_list := next # rest,
                       am_bstatus_tx := am_bstatus_tx e + (am_compute_pdu_header_size e next + sg_size next)\<rparr>), s)
         else (e, s))"

definition am_count_poll :: "nr_rlc_entity_am \<Rightarrow> nr_rlc_sdu_segment_t \<Rightarrow> nr_rlc_entity_am \<times> bool" where
  "am_count_poll e s =
     (let e = e\<lparr>am_pdu_without_poll := am_pdu_without_poll e + 1, am_byte_without_poll := am_byte_without_poll e + sg_size s\<rparr>
      in (e, (am_poll_pdu e \<noteq> -1 \<and> am_pdu_without_poll e \<ge> am_poll_pdu e) \<or>
             (am_poll_byte e \<noteq> -1 \<and> am_byte_without_poll e \<ge> am_poll_byte e) \<or> check_poll_after_pdu_assembly e))"

definition generate_tx_pdu :: "nr_rlc_entity_am \<Rightarrow> u8 list \<Rightarrow> (nr_rlc_entity_am \<times> u8 list) option" where
  "generate_tx_pdu e buffer =
     (if is_window_stalling e then Some (e, [])
      else case am_tx_list e of
             [] \<Rightarrow> Some (e, [])
           | s # rest \<Rightarrow>
               if am_compute_pdu_header_size e s + 1 > int (length buffer) then Some (e, [])
               else let (e, s) = am_take_tx e s rest (int (length buffer));
                        e = am_put_wait e s;
                        (e, p) = am_count_poll e s;
                        (e, p) = take_force_poll e p
                    in map_option (\<lambda>(e, pdu). (am_count_tx e (length pdu), pdu)) (am_serialize_sdu e s buffer p))"

definition nr_rlc_entity_am_buffer_status :: "nr_rlc_entity_am \<Rightarrow> int \<Rightarrow> (int \<times> int \<times> int) option" where
  "nr_rlc_entity_am_buffer_status e maxsize =
     map_option (\<lambda>n. (n, am_bstatus_tx e, am_bstatus_retx e)) (if status_to_report e then status_size e maxsize else Some 0)"

text \<open>A step that gives no bytes (the C function returns 0) is followed by the next one.\<close>

definition nr_rlc_entity_am_generate_pdu :: "nr_rlc_entity_am \<Rightarrow> u8 list \<Rightarrow> (nr_rlc_entity_am \<times> u8 list) option" where
  "nr_rlc_entity_am_generate_pdu e buffer =
     Option.bind (if status_to_report e then generate_status e buffer else Some (e, [])) (\<lambda>(e, pdu).
       if pdu \<noteq> [] then Some (e, pdu)
       else Option.bind (if am_retransmit_list e \<noteq> [] then generate_retx_pdu e buffer else Some (e, [])) (\<lambda>(e, pdu).
              if pdu \<noteq> [] then Some (e, pdu) else generate_tx_pdu e buffer))"

section \<open>SDUs from the upper layer\<close>

definition am_new_sdu :: "nr_rlc_entity_am \<Rightarrow> u8 list \<Rightarrow> int \<Rightarrow> nr_rlc_entity_am \<times> nr_rlc_sdu_segment_t" where
  "am_new_sdu e buffer sdu_id =
     (e\<lparr>am_heap := (am_heap e)(am_heap_next e :=
          \<lparr>sh_sn = -1, sh_upper_layer_id = sdu_id, sh_data = buffer, sh_retx_count = -1, sh_ref_count = 1,
           sh_free_count = 0, sh_freed = False\<rparr>),
        am_heap_next := am_heap_next e + 1\<rparr>,
      \<lparr>sg_sdu = am_heap_next e, sg_size = int (length buffer), sg_so = 0, sg_is_first = True, sg_is_last = True\<rparr>)"

text \<open>Rejected SDUs are logged at most once per second.\<close>

definition am_log_rejected :: "nr_rlc_entity_am \<Rightarrow> nr_rlc_entity_am" where
  "am_log_rejected e =
     (if am_sdu_rejected e \<noteq> 0 \<and> am_t_current e > am_t_log_buffer_full e + 1000
      then e\<lparr>am_sdu_rejected := 0, am_t_log_buffer_full := am_t_current e\<rparr> else e)"

definition am_reject_sdu :: "nr_rlc_entity_am \<Rightarrow> int \<Rightarrow> nr_rlc_entity_am" where
  "am_reject_sdu e n =
     e\<lparr>am_sdu_rejected := am_sdu_rejected e + 1,
       am_stats := (am_stats e)\<lparr>txpdu_dd_pkts := txpdu_dd_pkts (am_stats e) + 1,
                                txpdu_dd_bytes := txpdu_dd_bytes (am_stats e) + word_of_int n\<rparr>\<rparr>"

definition am_accept_sdu :: "nr_rlc_entity_am \<Rightarrow> u8 list \<Rightarrow> int \<Rightarrow> nr_rlc_entity_am" where
  "am_accept_sdu e buffer sdu_id =
     (let n = int (length buffer);
          e = e\<lparr>am_tx_size := am_tx_size e + n, am_stats := (am_stats e)\<lparr>rxsdu_bytes := rxsdu_bytes (am_stats e) + word_of_int n\<rparr>\<rparr>;
          (e, s) = am_new_sdu e buffer sdu_id
      in e\<lparr>am_tx_list := am_tx_list e @ [s],
           am_bstatus_tx := am_bstatus_tx e + (am_compute_pdu_header_size e s + sg_size s)\<rparr>)"

definition nr_rlc_entity_am_recv_sdu :: "nr_rlc_entity_am \<Rightarrow> u8 list \<Rightarrow> int \<Rightarrow> nr_rlc_entity_am option" where
  "nr_rlc_entity_am_recv_sdu e buffer sdu_id =
     (let n = int (length buffer);
          e = e\<lparr>am_stats := (am_stats e)\<lparr>rxsdu_pkts := rxsdu_pkts (am_stats e) + 1\<rparr>\<rparr>
      in if n > NR_SDU_MAX then None
         else let e = am_log_rejected e
              in Some (if am_tx_size e + n > am_tx_maxsize e then am_reject_sdu e n else am_accept_sdu e buffer sdu_id))"

section \<open>Timers\<close>

text \<open>Move all segments of a sequence number from the head of the wait list.\<close>

fun poll_retransmit_loop :: "nr_rlc_entity_am \<Rightarrow> int \<Rightarrow> nr_rlc_sdu_segment_t list \<Rightarrow> nr_rlc_entity_am" where
  "poll_retransmit_loop e sn [] = e\<lparr>am_wait_list := []\<rparr>"
| "poll_retransmit_loop e sn (cur # l) =
     (if sg_sn e cur = sn
      then poll_retransmit_loop
             (e\<lparr>am_bstatus_retx := am_bstatus_retx e + (am_compute_pdu_header_size e cur + sg_size cur),
                am_retransmit_list := nr_rlc_tx_sdu_segment_list_add e (am_retransmit_list e) cur\<rparr>) sn l
      else e\<lparr>am_wait_list := cur # l\<rparr>)"

definition poll_retransmit :: "nr_rlc_entity_am \<Rightarrow> nr_rlc_entity_am option" where
  "poll_retransmit e =
     (case am_wait_list e of
        [] \<Rightarrow> None
      | cur # l \<Rightarrow>
          let e = update_sdu e cur (\<lambda>x. x\<lparr>sh_retx_count := sh_retx_count x + 1\<rparr>);
              e = poll_retransmit_loop e (sg_sn e cur) (cur # l)
          in Some (if sh_retx_count (sdu_of e cur) \<ge> am_max_retx_threshold e then e\<lparr>am_max_retx := am_max_retx e + 1\<rparr> else e))"

definition check_t_poll_retransmit :: "nr_rlc_entity_am \<Rightarrow> nr_rlc_entity_am option" where
  "check_t_poll_retransmit e =
     (if am_t_poll_retransmit_start e = 0 \<or> am_t_current e \<le> am_t_poll_retransmit_start e + word_of_int (am_t_poll_retransmit e)
      then Some e
      else let e = e\<lparr>am_t_poll_retransmit_start := 0, am_force_poll := True\<rparr>
           in if check_poll_after_pdu_assembly e then poll_retransmit e else Some e)"

definition am_reassembly_expired :: "nr_rlc_entity_am \<Rightarrow> int \<Rightarrow> nr_rlc_entity_am" where
  "am_reassembly_expired e sn =
     (let e = e\<lparr>am_rx_highest_status := sn, am_status_triggered := True\<rparr>;
          nxt = c_mod (am_rx_highest_status e + 1) (am_sn_modulus e)
      in if am_sn_compare_rx e (am_rx_next_highest e) nxt > 0 \<or>
            (am_rx_next_highest e = nxt \<and> am_sdu_has_missing_bytes e (am_rx_highest_status e))
         then e\<lparr>am_t_reassembly_start := am_t_current e, am_rx_next_status_trigger := am_rx_next_highest e\<rparr>
         else e)"

definition am_check_t_reassembly :: "nr_rlc_entity_am \<Rightarrow> nr_rlc_entity_am option" where
  "am_check_t_reassembly e =
     (if am_t_reassembly_start e = 0 \<or> am_t_current e \<le> am_t_reassembly_start e + word_of_int (am_t_reassembly e)
      then Some e
      else let e = e\<lparr>am_t_reassembly_start := 0\<rparr>
           in map_option (am_reassembly_expired e) (am_skip_delivered e (am_rx_next_status_trigger e)))"

definition nr_rlc_entity_am_set_time :: "nr_rlc_entity_am \<Rightarrow> u64 \<Rightarrow> nr_rlc_entity_am option" where
  "nr_rlc_entity_am_set_time e now =
     Option.bind (check_t_poll_retransmit (e\<lparr>am_t_current := now\<rparr>)) am_check_t_reassembly"

section \<open>Discard and re-establishment\<close>

definition nr_rlc_entity_am_discard_sdu :: "nr_rlc_entity_am \<Rightarrow> int \<Rightarrow> nr_rlc_entity_am" where
  "nr_rlc_entity_am_discard_sdu e sdu_id =
     (let other = (\<lambda>s. sh_upper_layer_id (sdu_of e s) \<noteq> sdu_id); before = takeWhile other (am_tx_list e)
      in case dropWhile other (am_tx_list e) of
           [] \<Rightarrow> e
         | cur # rest \<Rightarrow>
             if \<not> sg_is_first cur \<or> \<not> sg_is_last cur then e
             else let n = int (length (sh_data (sdu_of e cur)))
                  in snd (nr_rlc_free_sdu_segment
                       (e\<lparr>am_tx_list := before @ rest,
                          am_bstatus_tx := am_bstatus_tx e - (am_compute_pdu_header_size e cur + sg_size cur),
                          am_tx_size := am_tx_size e - n\<rparr>) cur))"

definition nr_rlc_free_sdu_segment_list :: "nr_rlc_entity_am \<Rightarrow> nr_rlc_sdu_segment_t list \<Rightarrow> nr_rlc_entity_am" where
  "nr_rlc_free_sdu_segment_list e l = foldl (\<lambda>e s. snd (nr_rlc_free_sdu_segment e s)) e l"

definition am_clear_entity :: "nr_rlc_entity_am \<Rightarrow> nr_rlc_entity_am" where
  "am_clear_entity e =
     (let e = e\<lparr>am_rx_next := 0, am_rx_next_status_trigger := 0, am_rx_highest_status := 0, am_rx_next_highest := 0,
                am_status_triggered := False, am_tx_next := 0, am_tx_next_ack := 0, am_poll_sn := 0,
                am_pdu_without_poll := 0, am_byte_without_poll := 0, am_force_poll := False, am_t_current := 0,
                am_t_log_buffer_full := 0, am_sdu_rejected := 0, am_t_poll_retransmit_start := 0,
                am_t_reassembly_start := 0, am_t_status_prohibit_start := 0,
                am_rx := nr_rlc_clear_rx_manager (am_rx e), am_rx_size := 0\<rparr>;
          e = nr_rlc_free_sdu_segment_list e (am_tx_list e);
          e = nr_rlc_free_sdu_segment_list e (am_wait_list e);
          e = nr_rlc_free_sdu_segment_list e (am_retransmit_list e)
      in e\<lparr>am_tx_list := [], am_tx_size := 0, am_wait_list := [], am_retransmit_list := [],
           am_bstatus_tx := 0, am_bstatus_retx := 0\<rparr>)"

definition nr_rlc_entity_am_reestablishment :: "nr_rlc_entity_am \<Rightarrow> nr_rlc_entity_am" where
  "nr_rlc_entity_am_reestablishment e = am_clear_entity e"

definition nr_rlc_entity_am_available_tx_space :: "nr_rlc_entity_am \<Rightarrow> int" where
  "nr_rlc_entity_am_available_tx_space e = am_tx_maxsize e - am_tx_size e"

definition nr_rlc_entity_am_tx_list_occupancy :: "nr_rlc_entity_am \<Rightarrow> int" where
  "nr_rlc_entity_am_tx_list_occupancy e = am_tx_size e"

end
