(* ===== verification/Rlc_Am_Window.thy ===== *)
theory Rlc_Am_Window
  imports Rlc_Am_Entity
begin

text \<open>
  The reception window of acknowledged mode. The circular array of the reception manager is seen as a
  window that starts at \<^verbatim>\<open>rx_next\<close>: \<open>ring e i\<close> is the list of PDUs of the sequence number
  \<open>rx_next + i\<close>.
\<close>

section \<open>The window as a ring\<close>

definition am_geo :: "nr_rlc_entity_am \<Rightarrow> bool" where
  "am_geo e \<longleftrightarrow> 2 \<le> am_window_size e \<and> am_sn_modulus e = 2 * am_window_size e \<and> rxm_size (am_rx e) = am_window_size e \<and>
     0 \<le> rxm_start (am_rx e) \<and> rxm_start (am_rx e) < am_window_size e \<and> rxm_sn_start (am_rx e) = am_rx_next e \<and>
     0 \<le> am_rx_next e \<and> am_rx_next e < am_sn_modulus e"

definition is_sn :: "nr_rlc_entity_am \<Rightarrow> int \<Rightarrow> bool" where
  "is_sn e sn \<longleftrightarrow> 0 \<le> sn \<and> sn < am_sn_modulus e"

definition ring :: "nr_rlc_entity_am \<Rightarrow> int \<Rightarrow> nr_rlc_pdu list" where
  "ring e i = rxm_at (am_rx e) i"

text \<open>The sequence number at an offset of the window.\<close>

definition sn_at :: "nr_rlc_entity_am \<Rightarrow> int \<Rightarrow> int" where
  "sn_at e i = (am_rx_next e + i) mod am_sn_modulus e"

lemma am_geo_size: "am_geo e \<Longrightarrow> 0 < am_window_size e \<and> 0 < am_sn_modulus e"
  by (auto simp: am_geo_def)

lemma is_sn_rx_next: "am_geo e \<Longrightarrow> is_sn e (am_rx_next e)"
  by (simp add: am_geo_def is_sn_def)

lemma is_sn_at [simp]: "am_geo e \<Longrightarrow> is_sn e (sn_at e i)"
  by (simp add: is_sn_def sn_at_def am_geo_size)

lemma off_mod: "am_geo e \<Longrightarrow> is_sn e sn \<Longrightarrow> am_modulus_rx e sn = (sn - am_rx_next e) mod am_sn_modulus e"
proof -
  assume "am_geo e" "is_sn e sn"
  then have b: "0 \<le> am_rx_next e" "am_rx_next e < am_sn_modulus e" "0 \<le> sn" "sn < am_sn_modulus e"
    by (auto simp: am_geo_def is_sn_def)
  show ?thesis
  proof (cases "sn - am_rx_next e < 0")
    case True
    then have "(sn - am_rx_next e) mod am_sn_modulus e = (sn - am_rx_next e + am_sn_modulus e) mod am_sn_modulus e" by simp
    also have "\<dots> = sn - am_rx_next e + am_sn_modulus e" using b True by (intro mod_pos_pos_trivial) auto
    finally show ?thesis using True by (simp add: am_modulus_rx_def)
  next
    case False
    then show ?thesis using b by (simp add: am_modulus_rx_def)
  qed
qed

lemma off_range: "am_geo e \<Longrightarrow> is_sn e sn \<Longrightarrow> 0 \<le> am_modulus_rx e sn \<and> am_modulus_rx e sn < am_sn_modulus e"
  by (simp add: off_mod am_geo_size)

lemma off_at:
  assumes "am_geo e" and "0 \<le> i" and "i < am_sn_modulus e"
  shows "am_modulus_rx e (sn_at e i) = i"
  using assms by (simp add: off_mod) (simp add: sn_at_def mod_simps)

lemma sn_at_modulus: "am_geo e \<Longrightarrow> is_sn e sn \<Longrightarrow> sn_at e (am_modulus_rx e sn) = sn"
  by (simp add: off_mod sn_at_def mod_simps) (simp add: is_sn_def)

lemma sn_at_succ:
  assumes "am_geo e"
  shows "c_mod (sn_at e i + 1) (am_sn_modulus e) = sn_at e (i + 1)"
proof -
  have m: "0 < am_sn_modulus e" using assms am_geo_size by blast
  then have "0 \<le> sn_at e i + 1" by (simp add: sn_at_def add_nonneg_nonneg)
  then have "c_mod (sn_at e i + 1) (am_sn_modulus e) = (sn_at e i + 1) mod am_sn_modulus e" using m by (rule c_mod_nonneg)
  then show ?thesis by (simp add: sn_at_def mod_simps add.assoc)
qed

lemma sn_at_zero: "am_geo e \<Longrightarrow> sn_at e 0 = am_rx_next e"
  by (simp add: sn_at_def am_geo_def)

lemma get_pos_at:
  assumes "am_geo e"
  shows "get_pos (am_rx e) (sn_at e i) = (rxm_start (am_rx e) + i) mod am_window_size e"
proof -
  let ?w = "am_window_size e"
  have g: "0 < ?w" "rxm_size (am_rx e) = ?w" "rxm_sn_start (am_rx e) = am_rx_next e" "0 \<le> rxm_start (am_rx e)"
    "am_sn_modulus e = 2 * ?w" "am_rx_next e < 2 * ?w"
    using assms by (auto simp: am_geo_def)
  have "0 \<le> sn_at e i" using is_sn_at [OF assms] by (simp add: is_sn_def)
  then have "get_pos (am_rx e) (sn_at e i) = (rxm_start (am_rx e) + (sn_at e i - am_rx_next e + ?w * 2)) mod ?w"
    using g by (simp add: get_pos_def c_mod_nonneg)
  also have "rxm_start (am_rx e) + (sn_at e i - am_rx_next e + ?w * 2) = rxm_start (am_rx e) - am_rx_next e + sn_at e i + ?w * 2"
    by simp
  also have "\<dots> mod ?w = (rxm_start (am_rx e) - am_rx_next e + sn_at e i) mod ?w"
    by (rule mod_mult_self2)
  also have "sn_at e i mod ?w = (am_rx_next e + i) mod ?w" by (simp add: sn_at_def g(5) mod_mod_cancel)
  then have "(rxm_start (am_rx e) - am_rx_next e + sn_at e i) mod ?w = (rxm_start (am_rx e) - am_rx_next e + (am_rx_next e + i)) mod ?w"
    by (rule mod_add_cong [OF refl])
  finally show ?thesis by simp
qed

lemma slot_at: "am_geo e \<Longrightarrow> slot e (sn_at e i) = ring e i"
  by (simp add: slot_def nr_rlc_rx_manager_get_pdu_from_sn_def get_pos_at ring_def rxm_at_def) (simp add: am_geo_def)

lemma ring_mod: "am_geo e \<Longrightarrow> ring e (i mod am_window_size e) = ring e i"
  by (simp add: ring_def rxm_at_def am_geo_def mod_simps)

lemma ring_window: "am_geo e \<Longrightarrow> ring e (am_window_size e) = ring e 0"
  using ring_mod [of e "am_window_size e"] by simp

text \<open>Different offsets of the window are different positions.\<close>

lemma window_pos_inj:
  fixes s w :: int
  assumes "(s + i) mod w = (s + j) mod w" and "0 \<le> i" "i < w" "0 \<le> j" "j < w"
  shows "i = j"
proof -
  have "(s + i - s) mod w = (s + j - s) mod w" using assms(1) by (rule mod_diff_cong) simp
  then show ?thesis using assms(2-5) by simp
qed

lemma ring_fun_upd:
  assumes "am_geo e" and "0 \<le> i" "i < am_window_size e" "0 \<le> j" "j < am_window_size e"
    and "am_rx e' = (am_rx e)\<lparr>rxm_list := (rxm_list (am_rx e))(get_pos (am_rx e) (sn_at e i) := l)\<rparr>"
  shows "ring e' j = (if j = i then l else ring e j)"
  using assms window_pos_inj [of "rxm_start (am_rx e)" j "am_window_size e" i]
  by (auto simp: ring_def rxm_at_def get_pos_at am_geo_def)

section \<open>The loops over delivered SDUs\<close>

lemma skip_delivered_first:
  assumes "am_geo e" and "i \<le> r" and "\<And>j. i \<le> j \<Longrightarrow> j < r \<Longrightarrow> processed (ring e j)" and "\<not> processed (ring e r)"
  shows "am_skip_delivered e (sn_at e i) = Some (sn_at e r)"
  using assms(2,3)
proof (induction "nat (r - i)" arbitrary: i)
  case 0
  then have "i = r" by simp
  then show ?case using assms(1,4) by (subst am_skip_delivered.simps) (simp add: am_sdu_delivered_def slot_at)
next
  case (Suc n)
  then have "i < r" by simp
  then have "processed (ring e i)" using Suc.prems by simp
  then have "am_skip_delivered e (sn_at e i) = am_skip_delivered e (sn_at e (i + 1))"
    using assms(1) by (subst am_skip_delivered.simps) (simp add: am_sdu_delivered_def slot_at sn_at_succ)
  also have "\<dots> = Some (sn_at e r)" using Suc.hyps(2) Suc.prems \<open>i < r\<close> by (intro Suc.hyps(1)) auto
  finally show ?case .
qed

text \<open>When everything is delivered the loop does not end.\<close>

lemma skip_delivered_result:
  assumes "am_skip_delivered e sn = Some r" and "am_geo e" and "is_sn e sn"
  shows "is_sn e r \<and> \<not> am_sdu_delivered e r"
proof -
  have "am_geo e \<longrightarrow> is_sn e sn \<longrightarrow> is_sn e r \<and> \<not> am_sdu_delivered e r"
  proof (rule am_skip_delivered.raw_induct [OF _ assms(1)], intro impI)
    fix f e sn r
    assume IH: "\<And>e sn r. f e sn = Some r \<Longrightarrow> am_geo e \<longrightarrow> is_sn e sn \<longrightarrow> is_sn e r \<and> \<not> am_sdu_delivered e r"
      and step: "(if am_sdu_delivered e sn then f e (c_mod (sn + 1) (am_sn_modulus e)) else Some sn) = Some r"
      and g: "am_geo e" and i: "is_sn e sn"
    have "c_mod (sn + 1) (am_sn_modulus e) = sn_at e (am_modulus_rx e sn + 1)"
      using sn_at_succ [OF g, of "am_modulus_rx e sn"] sn_at_modulus [OF g i] by simp
    then have "is_sn e (c_mod (sn + 1) (am_sn_modulus e))" using g by simp
    then show "is_sn e r \<and> \<not> am_sdu_delivered e r" using IH step g i by (auto split: if_splits)
  qed
  then show ?thesis using assms by blast
qed

lemma skip_delivered_hang:
  assumes "am_geo e" and "is_sn e sn" and "\<And>j. 0 \<le> j \<Longrightarrow> j < am_window_size e \<Longrightarrow> processed (ring e j)"
  shows "am_skip_delivered e sn = None"
proof (rule ccontr)
  assume "am_skip_delivered e sn \<noteq> None"
  then obtain r where "am_skip_delivered e sn = Some r" by blast
  then have r: "is_sn e r" "\<not> am_sdu_delivered e r" using skip_delivered_result assms(1,2) by blast+
  have "slot e r = ring e (am_modulus_rx e r mod am_window_size e)"
    using slot_at [OF assms(1), of "am_modulus_rx e r"] sn_at_modulus [OF assms(1) r(1)] ring_mod [OF assms(1)] by simp
  then show False using r(2) assms(3) am_geo_size [OF assms(1)] by (simp add: am_sdu_delivered_def)
qed

text \<open>The delivered SDUs at the head of the window are freed: the first \<open>k\<close> slots become empty.\<close>

definition lead :: "nr_rlc_entity_am \<Rightarrow> int \<Rightarrow> bool" where
  "lead e k \<longleftrightarrow> 0 \<le> k \<and> k \<le> am_window_size e \<and> (\<forall>j. 0 \<le> j \<and> j < k \<longrightarrow> processed (ring e j)) \<and>
     (k < am_window_size e \<longrightarrow> \<not> processed (ring e k))"

lemma lead_exists:
  assumes "am_geo e" obtains k where "lead e k"
proof (cases "\<exists>k. 0 \<le> k \<and> k < am_window_size e \<and> \<not> processed (ring e k)")
  case True
  then obtain n :: nat where "int n < am_window_size e \<and> \<not> processed (ring e (int n))" by (metis zero_le_imp_eq_int)
  define m where "m = (LEAST n :: nat. int n < am_window_size e \<and> \<not> processed (ring e (int n)))"
  have m: "int m < am_window_size e \<and> \<not> processed (ring e (int m))" unfolding m_def by (rule LeastI) fact
  have "processed (ring e j)" if "0 \<le> j" "j < int m" for j
  proof -
    have "nat j < m" using that by auto
    then have "\<not> (int (nat j) < am_window_size e \<and> \<not> processed (ring e (int (nat j))))" unfolding m_def by (rule not_less_Least)
    then show ?thesis using that m by auto
  qed
  then show thesis using that [of "int m"] m by (auto simp: lead_def)
next
  case False
  then show thesis using that [of "am_window_size e"] am_geo_size [OF assms] by (auto simp: lead_def)
qed

lemma processed_empty [simp]: "\<not> processed []"
  by (simp add: processed_def)

lemma free_delivered_lead:
  assumes g: "am_geo e" and k: "lead e k" and c: "0 \<le> c" "c \<le> k"
    and d: "d = e\<lparr>am_rx := (am_rx e)\<lparr>rxm_list := h\<rparr>\<rparr>"
    and h: "\<And>j. 0 \<le> j \<Longrightarrow> j < am_window_size e \<Longrightarrow> ring d j = (if j < c then [] else ring e j)"
  obtains h' where "free_delivered d (sn_at e c) c = Some (e\<lparr>am_rx := (am_rx e)\<lparr>rxm_list := h'\<rparr>\<rparr>, sn_at e k, k)"
    and "\<And>j. 0 \<le> j \<Longrightarrow> j < am_window_size e \<Longrightarrow>
      ring (e\<lparr>am_rx := (am_rx e)\<lparr>rxm_list := h'\<rparr>\<rparr>) j = (if j < k then [] else ring e j)"
  using c d h
proof (induction "nat (k - c)" arbitrary: c d h thesis)
  case 0
  then have ck: "c = k" by simp
  have gd: "am_geo d" "sn_at d = sn_at e" using g 0(5) by (auto simp: am_geo_def sn_at_def fun_eq_iff)
  have "\<not> processed (ring d k)"
  proof (cases "k < am_window_size e")
    case True
    then show ?thesis using 0(6) [of k] k ck by (simp add: lead_def)
  next
    case False
    then have w: "k = am_window_size e" "0 < k" using k am_geo_size [OF g] by (auto simp: lead_def)
    have "ring d k = ring d 0" using ring_window [OF gd(1)] w(1) 0(5) by simp
    then show ?thesis using 0(6) [of 0] w ck by simp
  qed
  then have "\<not> processed (slot d (sn_at e c))" using slot_at [OF gd(1), of k] gd(2) ck by simp
  then have "free_delivered d (sn_at e c) c = Some (d, sn_at e c, c)" by (subst free_delivered.simps) simp
  then have "free_delivered d (sn_at e c) c = Some (d, sn_at e k, k)" unfolding ck .
  moreover have "ring d j = (if j < k then [] else ring e j)" if "0 \<le> j" "j < am_window_size e" for j
    using 0(6) [OF that] ck by simp
  ultimately show thesis using 0(2) [of h] unfolding 0(5) [symmetric] by blast
next
  case (Suc n)
  then have ck: "c < k" "c < am_window_size e" using k by (auto simp: lead_def)
  have gd: "am_geo d" "sn_at d = sn_at e" "am_sn_modulus d = am_sn_modulus e" "am_window_size d = am_window_size e"
    using g Suc.prems(4) by (auto simp: am_geo_def sn_at_def fun_eq_iff)
  define d' where "d' = d\<lparr>am_rx := nr_rlc_rx_manager_clear_pdu (am_rx d) (sn_at e c)\<rparr>"
  have "processed (ring e c)" using k ck Suc.prems(2) by (simp add: lead_def)
  then have "processed (slot d (sn_at e c))" using slot_at [OF gd(1), of c] gd(2) Suc.prems(5) [of c] Suc.prems(2) ck by simp
  then have step: "free_delivered d (sn_at e c) c = free_delivered d' (sn_at e (c + 1)) (c + 1)"
    using sn_at_succ [OF gd(1), of c] by (subst free_delivered.simps) (simp add: gd d'_def)
  have r: "ring d' j = (if j < c + 1 then [] else ring e j)" if "0 \<le> j" "j < am_window_size e" for j
    using ring_fun_upd [OF gd(1), of c j d' "[]"] that Suc.prems(2) ck Suc.prems(5) [OF that] gd
    by (auto simp: d'_def nr_rlc_rx_manager_clear_pdu_def)
  have e: "d' = e\<lparr>am_rx := (am_rx e)\<lparr>rxm_list := rxm_list (am_rx d')\<rparr>\<rparr>"
    by (simp add: d'_def Suc.prems(4) nr_rlc_rx_manager_clear_pdu_def)
  show thesis
  proof (rule Suc.hyps(1) [OF _ _ _ _ e r])
    show "n = nat (k - (c + 1))" using Suc.hyps(2) by simp
  qed (use Suc.prems(1,2) step ck in auto)
qed

lemma advance_window:
  assumes g: "am_geo e" and k: "lead e k"
  obtains h' where "am_advance_window e = Some (e\<lparr>am_rx_next := sn_at e k, am_rx := h'\<rparr>)"
    and "am_geo (e\<lparr>am_rx_next := sn_at e k, am_rx := h'\<rparr>)"
    and "\<And>j. 0 \<le> j \<Longrightarrow> j < am_window_size e \<Longrightarrow>
      ring (e\<lparr>am_rx_next := sn_at e k, am_rx := h'\<rparr>) j = (if j + k < am_window_size e then ring e (j + k) else [])"
proof -
  let ?w = "am_window_size e"
  have k0: "0 \<le> k" "k \<le> ?w" using k by (auto simp: lead_def)
  obtain h where h: "free_delivered e (sn_at e 0) 0 = Some (e\<lparr>am_rx := (am_rx e)\<lparr>rxm_list := h\<rparr>\<rparr>, sn_at e k, k)"
    "\<And>j. 0 \<le> j \<Longrightarrow> j < ?w \<Longrightarrow> ring (e\<lparr>am_rx := (am_rx e)\<lparr>rxm_list := h\<rparr>\<rparr>) j = (if j < k then [] else ring e j)"
    using free_delivered_lead [OF g k, of 0 e "rxm_list (am_rx e)"] k0 by auto
  let ?d = "e\<lparr>am_rx := (am_rx e)\<lparr>rxm_list := h\<rparr>\<rparr>"
  define m where "m = nr_rlc_rx_manager_set_start (nr_rlc_rx_manager_advance (am_rx ?d) k) (sn_at e k)"
  have size: "0 < ?w" "rxm_size (am_rx e) = ?w" "0 \<le> rxm_start (am_rx e)" using g by (auto simp: am_geo_def)
  have m: "rxm_list m = h" "rxm_size m = ?w" "rxm_start m = (rxm_start (am_rx e) + k) mod ?w" "rxm_sn_start m = sn_at e k"
    using size k0 by (simp_all add: m_def nr_rlc_rx_manager_set_start_def nr_rlc_rx_manager_advance_def c_mod_nonneg)
  show thesis
  proof (rule that)
    show "am_advance_window e = Some (e\<lparr>am_rx_next := sn_at e k, am_rx := m\<rparr>)"
      using h(1) sn_at_zero [OF g] by (simp add: am_advance_window_def m_def)
    show "am_geo (e\<lparr>am_rx_next := sn_at e k, am_rx := m\<rparr>)"
      using g is_sn_at [OF g, of k] m size by (simp add: am_geo_def is_sn_def)
    fix j assume j: "0 \<le> j" "j < ?w"
    have "ring (e\<lparr>am_rx_next := sn_at e k, am_rx := m\<rparr>) j = h ((rxm_start (am_rx e) + (j + k)) mod ?w)"
      by (simp add: ring_def rxm_at_def m mod_simps algebra_simps)
    also have "\<dots> = ring ?d (j + k)" by (simp add: ring_def rxm_at_def size)
    also have "\<dots> = ring ?d (if j + k < ?w then j + k else j + k - ?w)"
    proof -
      have "am_geo ?d" using g by (simp add: am_geo_def)
      from ring_mod [OF this, of "j + k"] ring_mod [OF this, of "j + k - ?w"] show ?thesis by simp
    qed
    also have "\<dots> = (if j + k < ?w then ring e (j + k) else [])" using h(2) [of "j + k"] h(2) [of "j + k - ?w"] j k0 by auto
    finally show "ring (e\<lparr>am_rx_next := sn_at e k, am_rx := m\<rparr>) j = (if j + k < ?w then ring e (j + k) else [])" .
  qed
qed

section \<open>The invariant of the window\<close>

definition pdu_ok :: "int \<Rightarrow> nr_rlc_pdu \<Rightarrow> bool" where
  "pdu_ok sn p \<longleftrightarrow> pdu_sn p = sn \<and> 0 \<le> pdu_so p \<and> pdu_so p < 65536 \<and> 1 \<le> pdu_size p \<and> (pdu_is_first p \<longleftrightarrow> pdu_so p = 0) \<and>
     (\<forall>d. pdu_data p = Some d \<longrightarrow> int (length d) = pdu_size p)"

definition slot_ok :: "int \<Rightarrow> nr_rlc_pdu list \<Rightarrow> bool" where
  "slot_ok sn l \<longleftrightarrow> sorted (map pdu_so l) \<and> (\<forall>p\<in>set l. pdu_ok sn p) \<and>
     (if processed l then pdu_so (hd l) = 0 else \<forall>p\<in>set l. pdu_data p \<noteq> None)"

definition am_win_ok :: "nr_rlc_entity_am \<Rightarrow> bool" where
  "am_win_ok e \<longleftrightarrow> am_geo e \<and> is_sn e (am_rx_highest_status e) \<and> is_sn e (am_rx_next_highest e) \<and>
     is_sn e (am_rx_next_status_trigger e) \<and>
     (\<forall>i. 0 \<le> i \<and> i < am_window_size e \<longrightarrow> slot_ok (sn_at e i) (ring e i)) \<and>
     am_modulus_rx e (am_rx_next_highest e) \<le> am_window_size e \<and>
     (\<forall>i. am_modulus_rx e (am_rx_next_highest e) \<le> i \<and> i < am_window_size e \<longrightarrow> ring e i = []) \<and>
     am_modulus_rx e (am_rx_highest_status e) \<le> am_modulus_rx e (am_rx_next_highest e)"

text \<open>Between operations: the first SDU of the window and the one at \<open>rx_highest_status\<close> are not delivered,
  and a running timer has its trigger in the window.\<close>

definition am_rx_ok :: "nr_rlc_entity_am \<Rightarrow> bool" where
  "am_rx_ok e \<longleftrightarrow> am_win_ok e \<and> \<not> processed (ring e 0) \<and> \<not> processed (ring e (am_modulus_rx e (am_rx_highest_status e))) \<and>
     (am_t_reassembly_start e \<noteq> 0 \<longrightarrow> 1 \<le> am_modulus_rx e (am_rx_next_status_trigger e) \<and>
        am_modulus_rx e (am_rx_next_status_trigger e) \<le> am_modulus_rx e (am_rx_next_highest e))"

lemma insert_by_so_set [simp]: "set (insert_by_so l p) = insert p (set l)"
  by (induction l) auto

lemma insert_by_so_sorted: "sorted (map pdu_so l) \<Longrightarrow> sorted (map pdu_so (insert_by_so l p))"
  by (induction l) auto

lemma insert_by_so_processed:
  assumes "slot_ok sn l" and "0 \<le> pdu_so p" and "pdu_data p \<noteq> None"
  shows "processed (insert_by_so l p) = processed l" and "processed l \<Longrightarrow> hd (insert_by_so l p) = hd l"
  using assms by (cases l; auto simp: slot_ok_def processed_def split: if_splits)+

lemma insert_by_so_ok:
  assumes "slot_ok sn l" and "pdu_ok sn p" and "pdu_data p \<noteq> None"
  shows "slot_ok sn (insert_by_so l p)"
proof -
  have "0 \<le> pdu_so p" using assms(2) by (simp add: pdu_ok_def)
  note q = insert_by_so_processed [OF assms(1) this assms(3)]
  show ?thesis using assms q insert_by_so_sorted [of l p] by (cases "processed l") (auto simp: slot_ok_def)
qed

lemma new_pdu_ok: "0 \<le> so \<Longrightarrow> so < 65536 \<Longrightarrow> f \<longleftrightarrow> so = 0 \<Longrightarrow> d \<noteq> [] \<Longrightarrow> pdu_ok sn (nr_rlc_new_pdu sn so f la d)"
  by (simp add: pdu_ok_def nr_rlc_new_pdu_def Suc_le_eq)

end
