(* ===== verification/Rlc_Am_Reception.thy ===== *)
theory Rlc_Am_Reception
  imports Rlc_Am_Window
begin

text \<open>
  The receiver of acknowledged mode keeps the invariant of its window. Reception of a PDU ends unless
  the PDU completes the last SDU of a full window while \<^verbatim>\<open>rx_highest_status\<close> is at its start.
\<close>

abbreviation off :: "nr_rlc_entity_am \<Rightarrow> int \<Rightarrow> int" where
  "off \<equiv> am_modulus_rx"

section \<open>Storing a PDU\<close>

lemma store_ring:
  assumes "am_geo e" and "pdu_sn p = sn_at e i" and "0 \<le> i" "i < am_window_size e" "0 \<le> j" "j < am_window_size e"
  shows "ring (am_store_pdu e p) j = (if j = i then insert_by_so (ring e i) p else ring e j)"
proof -
  have "rxm_list (am_rx e) (get_pos (am_rx e) (sn_at e i)) = ring e i"
    using slot_at [OF assms(1), of i] by (simp add: slot_def nr_rlc_rx_manager_get_pdu_from_sn_def)
  then show ?thesis
    using ring_fun_upd [OF assms(1,3-6), of "am_store_pdu e p" "insert_by_so (ring e i) p"] assms(2)
    by (simp add: am_store_pdu_def nr_rlc_rx_manager_add_pdu_def Let_def)
qed

text \<open>Fields that fix the geometry of the window.\<close>

lemma geo_cong:
  assumes "am_window_size e' = am_window_size e" "am_sn_modulus e' = am_sn_modulus e" "am_rx_next e' = am_rx_next e"
    and "rxm_size (am_rx e') = rxm_size (am_rx e)" "rxm_start (am_rx e') = rxm_start (am_rx e)"
    "rxm_sn_start (am_rx e') = rxm_sn_start (am_rx e)"
  shows "am_geo e' = am_geo e" and "sn_at e' = sn_at e" and "off e' = off e" and "is_sn e' = is_sn e"
  by (simp_all add: assms am_geo_def sn_at_def am_modulus_rx_def is_sn_def fun_eq_iff Let_def)

text \<open>The PDU is stored and \<^verbatim>\<open>rx_next_highest\<close> raised.\<close>

lemma store_raise:
  assumes ok: "am_rx_ok e" and i: "0 \<le> i" "i < am_window_size e" and p: "pdu_ok (sn_at e i) p" "pdu_data p \<noteq> None"
    and e': "e' = am_raise_highest (am_store_pdu e p) (sn_at e i)"
  shows "am_rx_ok e'" and "i < off e' (am_rx_next_highest e')" and "sn_at e' = sn_at e" and "am_window_size e' = am_window_size e"
    and "ring e' i = insert_by_so (ring e i) p" and "\<And>j. 0 \<le> j \<Longrightarrow> j < am_window_size e \<Longrightarrow> j \<noteq> i \<Longrightarrow> ring e' j = ring e j"
proof -
  let ?d = "am_store_pdu e p" and ?n = "off e (am_rx_next_highest e)"
  have g: "am_geo e" using ok by (simp add: am_rx_ok_def am_win_ok_def)
  have d: "am_geo ?d = am_geo e" "sn_at ?d = sn_at e" "off ?d = off e" "is_sn ?d = is_sn e"
    by (rule geo_cong; simp add: am_store_pdu_def nr_rlc_rx_manager_add_pdu_def Let_def)+
  have d': "am_geo e' = am_geo e" "sn_at e' = sn_at e" "off e' = off e" "is_sn e' = is_sn e"
    by (rule geo_cong; simp add: e' am_raise_highest_def am_store_pdu_def nr_rlc_rx_manager_add_pdu_def Let_def)+
  have r: "ring e' j = (if j = i then insert_by_so (ring e i) p else ring e j)" if "0 \<le> j" "j < am_window_size e" for j
  proof -
    have "ring e' j = ring ?d j" by (simp add: e' am_raise_highest_def ring_def)
    then show ?thesis using store_ring [OF g _ i that] p(1) by (simp add: pdu_ok_def)
  qed
  have M: "am_sn_modulus e = 2 * am_window_size e" "0 < am_window_size e" using g am_geo_size by (auto simp: am_geo_def)
  have n0: "is_sn e (am_rx_next_highest e)" "?n \<le> am_window_size e" using ok by (auto simp: am_rx_ok_def am_win_ok_def)
  have "am_rx_next_highest e' = sn_at e (max ?n (i + 1))"
  proof (cases "?n \<le> i")
    case True
    then show ?thesis using sn_at_succ [OF g, of i] off_at [OF g, of i] i M
      by (simp add: e' am_raise_highest_def am_sn_compare_rx_def d) (simp add: am_store_pdu_def)
  next
    case False
    then have "max ?n (i + 1) = ?n" by simp
    then show ?thesis using False sn_at_modulus [OF g n0(1)] off_at [OF g, of i] i M
      by (simp add: e' am_raise_highest_def am_sn_compare_rx_def d) (simp add: am_store_pdu_def)
  qed
  then have n: "off e (am_rx_next_highest e') = max ?n (i + 1)" "is_sn e (am_rx_next_highest e')"
    using off_at [OF g, of "max ?n (i + 1)"] is_sn_at [OF g] i M n0(2) by auto
  have f: "am_rx_highest_status e' = am_rx_highest_status e" "am_rx_next_status_trigger e' = am_rx_next_status_trigger e"
    "am_t_reassembly_start e' = am_t_reassembly_start e" and w: "am_window_size e' = am_window_size e"
    by (simp_all add: e' am_raise_highest_def am_store_pdu_def)
  have slots: "slot_ok (sn_at e j) (ring e j)" if "0 \<le> j" "j < am_window_size e" for j
    using ok that by (auto simp: am_rx_ok_def am_win_ok_def)
  have slots': "slot_ok (sn_at e j) (ring e' j)" if "0 \<le> j" "j < am_window_size e" for j
    using r [OF that] slots [OF that] insert_by_so_ok [OF slots [OF i] p] by auto
  have pr: "processed (ring e' j) = processed (ring e j)" if "0 \<le> j" "j < am_window_size e" for j
    using r [OF that] insert_by_so_processed(1) [OF slots [OF i], of p] p by (auto simp: pdu_ok_def)
  have pr': "processed (ring e' j) = processed (ring e j)" for j
    using pr [of "j mod am_window_size e"] ring_mod [of e' j] ring_mod [OF g, of j] d'(1) g w M(2) by simp
  have empty: "ring e j = []" if "?n \<le> j" "j < am_window_size e" for j
    using ok that by (auto simp: am_rx_ok_def am_win_ok_def)
  have "0 \<le> ?n" using off_range [OF g n0(1)] by simp
  then have empty': "ring e' j = []" if "max ?n (i + 1) \<le> j" "j < am_window_size e" for j
    using r [of j] empty [of j] that i by simp
  have rest: "is_sn e (am_rx_highest_status e)" "is_sn e (am_rx_next_status_trigger e)" "off e (am_rx_highest_status e) \<le> ?n"
    "\<not> processed (ring e 0)" "\<not> processed (ring e (off e (am_rx_highest_status e)))"
    "am_t_reassembly_start e \<noteq> 0 \<longrightarrow> 1 \<le> off e (am_rx_next_status_trigger e) \<and> off e (am_rx_next_status_trigger e) \<le> ?n"
    using ok by (simp_all add: am_rx_ok_def am_win_ok_def)
  have "max ?n (i + 1) \<le> am_window_size e" using i n0 by simp
  then have win: "am_win_ok e'"
    unfolding am_win_ok_def d' f w n using g slots' empty' rest n(2) by (simp add: le_max_iff_disj)
  show "am_rx_ok e'" unfolding am_rx_ok_def d'(3) pr' f n using win rest by (auto simp: le_max_iff_disj)
  show "i < off e' (am_rx_next_highest e')" unfolding d'(3) n by simp
  show "sn_at e' = sn_at e" "am_window_size e' = am_window_size e" by (fact d'(2) w)+
  show "ring e' i = insert_by_so (ring e i) p" using r [OF i] by simp
  show "ring e' j = ring e j" if "0 \<le> j" "j < am_window_size e" "j \<noteq> i" for j using r [OF that(1,2)] that(3) by simp
qed

section \<open>Reassembly\<close>

lemma reassemble_frame:
  "am_reassemble_and_deliver e sn = e\<lparr>am_rx := rxm_update (am_rx e) sn (map (\<lambda>p. p\<lparr>pdu_data := None\<rparr>)),
     am_rx_size := am_rx_size e - sum_list (map pdu_size (slot e sn)), am_delivered := am_delivered (am_reassemble_and_deliver e sn),
     am_stats := am_stats (am_reassemble_and_deliver e sn)\<rparr>"
  by (simp add: am_reassemble_and_deliver_def Let_def split: prod.splits)

lemma processed_data_None: "l \<noteq> [] \<Longrightarrow> processed (map (\<lambda>p. p\<lparr>pdu_data := None\<rparr>) l)"
  by (cases l) (simp_all add: processed_def)

lemma full_loop_head: "am_full_loop (-1) l \<Longrightarrow> l \<noteq> [] \<and> pdu_so (hd l) \<le> 0"
  by (cases l) (auto split: if_splits)

lemma slot_ok_processed:
  assumes "slot_ok sn l" and "am_full_loop (-1) l"
  shows "slot_ok sn (map (\<lambda>p. p\<lparr>pdu_data := None\<rparr>) l)"
proof -
  have "l \<noteq> []" "pdu_so (hd l) \<le> 0" using full_loop_head [OF assms(2)] by auto
  moreover have "0 \<le> pdu_so (hd l)" using assms(1) calculation(1) by (auto simp: slot_ok_def pdu_ok_def)
  moreover have "map pdu_so (map (\<lambda>p. p\<lparr>pdu_data := None\<rparr>) l) = map pdu_so l" by simp
  ultimately show ?thesis
    using assms(1) processed_data_None [of l] by (simp add: slot_ok_def pdu_ok_def hd_map comp_def)
qed

text \<open>The slot of the SDU becomes delivered; all other slots stay.\<close>

lemma reassemble_ring:
  assumes g: "am_geo e" and i: "0 \<le> i" "i < am_window_size e" and e': "e' = am_reassemble_and_deliver e (sn_at e i)"
  shows "am_geo e' = am_geo e" and "sn_at e' = sn_at e" and "off e' = off e" and "is_sn e' = is_sn e"
    and "\<And>j. 0 \<le> j \<Longrightarrow> j < am_window_size e \<Longrightarrow>
      ring e' j = (if j = i then map (\<lambda>p. p\<lparr>pdu_data := None\<rparr>) (ring e i) else ring e j)"
proof -
  note f = reassemble_frame [of e "sn_at e i", folded e']
  have rx: "am_rx e' = rxm_update (am_rx e) (sn_at e i) (map (\<lambda>p. p\<lparr>pdu_data := None\<rparr>))"
    using arg_cong [OF f, of am_rx] by simp
  have s: "am_window_size e' = am_window_size e" "am_sn_modulus e' = am_sn_modulus e" "am_rx_next e' = am_rx_next e"
    using arg_cong [OF f, of am_window_size] arg_cong [OF f, of am_sn_modulus] arg_cong [OF f, of am_rx_next] by simp_all
  show "am_geo e' = am_geo e" "sn_at e' = sn_at e" "off e' = off e" "is_sn e' = is_sn e"
    by (rule geo_cong; simp add: s rx rxm_update_def Let_def)+
  have "rxm_list (am_rx e) (get_pos (am_rx e) (sn_at e i)) = ring e i"
    using slot_at [OF g, of i] by (simp add: slot_def nr_rlc_rx_manager_get_pdu_from_sn_def)
  then show "ring e' j = (if j = i then map (\<lambda>p. p\<lparr>pdu_data := None\<rparr>) (ring e i) else ring e j)"
    if "0 \<le> j" "j < am_window_size e" for j
    using ring_fun_upd [OF g i that, of e' "map (\<lambda>p. p\<lparr>pdu_data := None\<rparr>) (ring e i)"] rx
    by (simp add: rxm_update_def Let_def)
qed

lemma reassemble_win:
  assumes ok: "am_win_ok e" and i: "0 \<le> i" "i < am_window_size e" and full: "am_sdu_full e (sn_at e i)"
    and e': "e' = am_reassemble_and_deliver e (sn_at e i)"
  shows "am_win_ok e'" and "processed (ring e' i)"
proof -
  have g: "am_geo e" using ok by (simp add: am_win_ok_def)
  note r = reassemble_ring [OF g i e']
  note f = reassemble_frame [of e "sn_at e i", folded e']
  have s: "am_window_size e' = am_window_size e" "am_rx_next_highest e' = am_rx_next_highest e"
    "am_rx_highest_status e' = am_rx_highest_status e" "am_rx_next_status_trigger e' = am_rx_next_status_trigger e"
    using arg_cong [OF f, of am_window_size] arg_cong [OF f, of am_rx_next_highest] arg_cong [OF f, of am_rx_highest_status]
      arg_cong [OF f, of am_rx_next_status_trigger] by simp_all
  have fl: "am_full_loop (-1) (ring e i)" using full slot_at [OF g, of i] by (simp add: am_sdu_full_def split: if_splits)
  show "processed (ring e' i)" using r(5) [OF i] processed_data_None full_loop_head [OF fl] by simp
  have slots: "slot_ok (sn_at e j) (ring e' j)" if "0 \<le> j" "j < am_window_size e" for j
    using r(5) [OF that] ok that slot_ok_processed [OF _ fl] by (auto simp: am_win_ok_def)
  have "0 \<le> off e (am_rx_next_highest e)" using off_range [OF g] ok by (simp add: am_win_ok_def)
  then have empty: "ring e' j = []" if "off e (am_rx_next_highest e) \<le> j" "j < am_window_size e" for j
    using r(5) [of j] ok that by (auto simp: am_win_ok_def)
  show "am_win_ok e'"
    using ok slots empty unfolding am_win_ok_def r(1-4) s by simp
qed

section \<open>The window moves\<close>

lemma sn_at_shift:
  assumes "am_geo e" and "am_rx_next e' = sn_at e k" and "am_sn_modulus e' = am_sn_modulus e"
  shows "sn_at e' j = sn_at e (j + k)"
  using assms by (simp add: sn_at_def mod_simps algebra_simps)

text \<open>Offsets at or after the new start of the window.\<close>

lemma off_shift:
  assumes "am_geo e" and "am_geo e'" and "am_rx_next e' = sn_at e k" and "am_sn_modulus e' = am_sn_modulus e"
    and "is_sn e sn" and "0 \<le> k" "k \<le> off e sn"
  shows "off e' sn = off e sn - k" and "is_sn e' sn"
proof -
  have "sn = sn_at e' (off e sn - k)"
    using sn_at_modulus [OF assms(1,5)] sn_at_shift [OF assms(1,3,4), of "off e sn - k"] by simp
  moreover have "off e' (sn_at e' (off e sn - k)) = off e sn - k"
    using off_at [OF assms(2)] off_range [OF assms(1,5)] assms(4,6,7) by simp
  ultimately show "off e' sn = off e sn - k" by simp
  show "is_sn e' sn" using assms(4,5) by (simp add: is_sn_def)
qed

lemma advance_win:
  assumes ok: "am_win_ok e" and k: "lead e k" and h: "k \<le> off e (am_rx_highest_status e)"
    and un: "off e (am_rx_highest_status e) < am_window_size e \<Longrightarrow> \<not> processed (ring e (off e (am_rx_highest_status e)))"
    and k1: "1 \<le> k"
  obtains e' where "am_advance_window e = Some e'" and "am_win_ok e'" and "\<not> processed (ring e' 0)"
    and "\<not> processed (ring e' (off e' (am_rx_highest_status e')))"
    and "am_rx_next e' = sn_at e k" and "e' = e\<lparr>am_rx_next := am_rx_next e', am_rx := am_rx e'\<rparr>"
    and "off e' (am_rx_next_highest e') = off e (am_rx_next_highest e) - k"
proof -
  let ?w = "am_window_size e" and ?n = "off e (am_rx_next_highest e)" and ?h = "off e (am_rx_highest_status e)"
  have g: "am_geo e" and sn: "is_sn e (am_rx_next_highest e)" "is_sn e (am_rx_highest_status e)" "is_sn e (am_rx_next_status_trigger e)"
    and n: "?n \<le> ?w" "?h \<le> ?n" using ok by (auto simp: am_win_ok_def)
  obtain m where m: "am_advance_window e = Some (e\<lparr>am_rx_next := sn_at e k, am_rx := m\<rparr>)"
    "am_geo (e\<lparr>am_rx_next := sn_at e k, am_rx := m\<rparr>)"
    "\<And>j. 0 \<le> j \<Longrightarrow> j < ?w \<Longrightarrow> ring (e\<lparr>am_rx_next := sn_at e k, am_rx := m\<rparr>) j = (if j + k < ?w then ring e (j + k) else [])"
    using advance_window [OF g k] by blast
  define e' where "e' = e\<lparr>am_rx_next := sn_at e k, am_rx := m\<rparr>"
  note r = m(3) [folded e'_def] and g' = m(2) [folded e'_def]
  have f: "am_rx_next e' = sn_at e k" "am_sn_modulus e' = am_sn_modulus e" "am_window_size e' = ?w"
    "am_rx_next_highest e' = am_rx_next_highest e" "am_rx_highest_status e' = am_rx_highest_status e"
    "am_rx_next_status_trigger e' = am_rx_next_status_trigger e" by (simp_all add: e'_def)
  have k0: "0 \<le> k" "k \<le> ?w" and kl: "k < ?w \<Longrightarrow> \<not> processed (ring e k)" using k by (auto simp: lead_def)
  have w: "0 < ?w" using am_geo_size [OF g] by blast
  have nh: "off e' (am_rx_next_highest e) = ?n - k" "off e' (am_rx_highest_status e) = ?h - k"
    using off_shift(1) [OF g g' f(1,2)] sn k0 h n by auto
  have isn: "is_sn e' = is_sn e" by (simp add: is_sn_def fun_eq_iff f)
  have se: "slot_ok (sn_at e j) (ring e j)" if "0 \<le> j" "j < ?w" for j using ok that by (simp add: am_win_ok_def)
  have slots: "slot_ok (sn_at e' j) (ring e' j)" if "0 \<le> j" "j < ?w" for j
    using r [OF that] se [of "j + k"] that k0 sn_at_shift [OF g f(1,2), of j]
    by (cases "j + k < ?w") (simp_all, simp add: slot_ok_def)
  have empty: "ring e' j = []" if "?n - k \<le> j" "j < ?w" for j
    using r [of j] ok that n h by (auto simp: am_win_ok_def)
  have win: "am_win_ok e'"
    using g' slots empty sn n k0 unfolding am_win_ok_def f nh isn by auto
  have z: "\<not> processed (ring e' 0)" using r [of 0] w kl by auto
  have "\<not> processed (ring e' (?h - k))" using r [of "?h - k"] un n h k0 k1 by auto
  then show thesis using that [of e'] m(1) win z f nh by (simp add: e'_def)
qed

text \<open>Sequence numbers that fall behind the window are beyond its size.\<close>

lemma off_shift_behind:
  assumes "am_geo e" and "am_geo e'" and "am_rx_next e' = sn_at e k" and "am_sn_modulus e' = am_sn_modulus e"
    and "am_window_size e' = am_window_size e" and "is_sn e sn" and "1 \<le> off e sn" "off e sn < k" "k \<le> am_window_size e"
  shows "am_window_size e' < off e' sn"
proof -
  let ?m = "am_sn_modulus e"
  have m: "?m = 2 * am_window_size e" using assms(1) by (simp add: am_geo_def)
  have "sn_at e' (?m - (k - off e sn)) = sn_at e (off e sn + ?m)"
    using sn_at_shift [OF assms(1,3,4), of "?m - (k - off e sn)"] by (simp add: add.commute)
  also have "\<dots> = sn_at e (off e sn)" by (simp add: sn_at_def add.assoc [symmetric])
  also have "\<dots> = sn" by (rule sn_at_modulus [OF assms(1,6)])
  finally have "sn = sn_at e' (?m - (k - off e sn))" by simp
  moreover have "off e' (sn_at e' (?m - (k - off e sn))) = ?m - (k - off e sn)"
    using off_at [OF assms(2)] assms(4,7-9) m by simp
  ultimately show ?thesis using assms(5,7-9) m by simp
qed

section \<open>Timers\<close>

lemma timers_ok:
  assumes win: "am_win_ok e" and un: "\<not> processed (ring e 0)" "\<not> processed (ring e (off e (am_rx_highest_status e)))"
    and t: "am_t_reassembly_start e \<noteq> 0 \<Longrightarrow>
      off e (am_rx_next_status_trigger e) \<le> off e (am_rx_next_highest e) \<or> am_window_size e < off e (am_rx_next_status_trigger e)"
  shows "am_rx_ok (am_timer_start (am_timer_stop e))"
proof -
  let ?t = "off e (am_rx_next_status_trigger e)" and ?n = "off e (am_rx_next_highest e)"
  have g: "am_geo e" and sn: "is_sn e (am_rx_next_status_trigger e)" "is_sn e (am_rx_next_highest e)" and n: "?n \<le> am_window_size e"
    using win by (auto simp: am_win_ok_def)
  have w: "2 \<le> am_window_size e" "am_sn_modulus e = 2 * am_window_size e" using g by (auto simp: am_geo_def)
  define d where "d = am_timer_stop e"
  have d: "d = e\<lparr>am_t_reassembly_start := am_t_reassembly_start d\<rparr>" by (simp add: d_def am_timer_stop_def)
  have run: "1 \<le> ?t \<and> ?t \<le> ?n" if "am_t_reassembly_start d \<noteq> 0"
  proof -
    have on: "am_t_reassembly_start e \<noteq> 0" and ne: "am_rx_next_status_trigger e \<noteq> am_rx_next e"
      and inw: "sn_in_recv_window e (am_rx_next_status_trigger e) \<or>
        am_rx_next_status_trigger e = c_mod (am_rx_next e + am_window_size e) (am_sn_modulus e)"
      using that by (auto simp: d_def am_timer_stop_def split: if_splits)
    have "?t \<noteq> 0" using sn_at_modulus [OF g sn(1)] sn_at_zero [OF g] ne by metis
    moreover have "?t \<le> am_window_size e"
    proof (rule ccontr)
      assume big: "\<not> ?t \<le> am_window_size e"
      then have "am_rx_next_status_trigger e = c_mod (am_rx_next e + am_window_size e) (am_sn_modulus e)"
        using inw by (simp add: sn_in_recv_window_def)
      also have "\<dots> = sn_at e (am_window_size e)"
        using g w by (simp add: c_mod_nonneg sn_at_def am_geo_def)
      finally have "?t = am_window_size e" using off_at [OF g, of "am_window_size e"] w by simp
      then show False using big by simp
    qed
    ultimately show ?thesis using t [OF on] off_range [OF g sn(1)] by auto
  qed
  define e' where "e' = am_timer_start d"
  have s: "am_sn_compare_rx d = am_sn_compare_rx e" "am_rx_next_highest d = am_rx_next_highest e" "am_rx_next d = am_rx_next e"
    "am_sn_modulus d = am_sn_modulus e" "am_t_current d = am_t_current e"
    by (simp_all add: d_def am_timer_stop_def fun_eq_iff am_sn_compare_rx_def am_modulus_rx_def Let_def)
  have one: "off e (c_mod (am_rx_next e + 1) (am_sn_modulus e)) = 1"
    using sn_at_succ [OF g, of 0] sn_at_zero [OF g] off_at [OF g, of 1] w by simp
  have "e' = d \<or> 1 \<le> ?n \<and> e' = d\<lparr>am_t_reassembly_start := am_t_current d, am_rx_next_status_trigger := am_rx_next_highest d\<rparr>"
  proof (cases "am_t_reassembly_start d = 0 \<and>
      (am_sn_compare_rx d (am_rx_next_highest d) (c_mod (am_rx_next d + 1) (am_sn_modulus d)) > 0 \<or>
       (am_rx_next_highest d = c_mod (am_rx_next d + 1) (am_sn_modulus d) \<and> am_sdu_has_missing_bytes d (am_rx_next d)))")
    case True
    then have "1 \<le> ?n" unfolding s am_sn_compare_rx_def one by (auto simp: one)
    then show ?thesis using True by (simp only: e'_def am_timer_start_def if_True simp_thms)
  next
    case False
    then show ?thesis by (simp only: e'_def am_timer_start_def if_False simp_thms)
  qed
  then obtain x :: u64 and trig where e': "e' = e\<lparr>am_t_reassembly_start := x, am_rx_next_status_trigger := trig\<rparr>"
    and tr: "is_sn e trig" "x \<noteq> 0 \<Longrightarrow> 1 \<le> off e trig \<and> off e trig \<le> ?n"
  proof
    assume "e' = d"
    then have "e' = e\<lparr>am_t_reassembly_start := am_t_reassembly_start d, am_rx_next_status_trigger := am_rx_next_status_trigger e\<rparr>"
      by (simp add: d_def am_timer_stop_def)
    then show thesis by (rule that) (fact sn(1), fact run)
  next
    assume a: "1 \<le> ?n \<and> e' = d\<lparr>am_t_reassembly_start := am_t_current d, am_rx_next_status_trigger := am_rx_next_highest d\<rparr>"
    then have "e' = e\<lparr>am_t_reassembly_start := am_t_current e, am_rx_next_status_trigger := am_rx_next_highest e\<rparr>"
      using s by (simp add: d_def am_timer_stop_def)
    then show thesis by (rule that) (use a sn(2) in simp_all)
  qed
  have f: "am_geo e' = am_geo e" "sn_at e' = sn_at e" "off e' = off e" "is_sn e' = is_sn e" "ring e' = ring e"
    by (rule geo_cong; simp add: e')+ (simp add: e' ring_def fun_eq_iff)
  have "am_win_ok e'" using win tr(1) unfolding am_win_ok_def f by (simp add: e')
  then show ?thesis unfolding d_def [symmetric] e'_def [symmetric] am_rx_ok_def f using un tr(2) by (simp add: e')
qed

section \<open>Reception of a PDU\<close>

lemma first_int:
  assumes "i \<le> n" and "\<not> P n"
  obtains r :: int where "i \<le> r" and "r \<le> n" and "\<not> P r" and "\<And>j. i \<le> j \<Longrightarrow> j < r \<Longrightarrow> P j"
  using assms
proof (induction "nat (n - i)" arbitrary: i thesis)
  case (Suc m)
  show ?case
  proof (cases "P i")
    case True
    show thesis
    proof (rule Suc.hyps(1) [of "i + 1"])
      show "m = nat (n - (i + 1))" using Suc.hyps(2) by simp
      show "i + 1 \<le> n" using Suc.hyps(2) by simp
      show "\<not> P n" by fact
      fix r assume r: "i + 1 \<le> r" "r \<le> n" "\<not> P r" "\<And>j. i + 1 \<le> j \<Longrightarrow> j < r \<Longrightarrow> P j"
      have "P j" if "i \<le> j" "j < r" for j using that r(4) [of j] True by (cases "j = i") auto
      then show thesis using Suc.prems(1) [of r] r by simp
    qed
  next
    case False
    show thesis by (rule Suc.prems(1) [of i]) (use False Suc.prems in auto)
  qed
next
  case 0
  show thesis by (rule 0(2) [of n]) (use 0 in auto)
qed

text \<open>
  The situation in which the loop over delivered SDUs in \<^verbatim>\<open>reception_actions\<close> does not end: the SDU at
  \<^verbatim>\<open>rx_next\<close> is the only one of the window that is missing, and \<^verbatim>\<open>rx_highest_status\<close> is there too.
\<close>

definition last_gap :: "nr_rlc_entity_am \<Rightarrow> bool" where
  "last_gap e \<longleftrightarrow> am_rx_highest_status e = am_rx_next e \<and> (\<forall>j. 1 \<le> j \<and> j < am_window_size e \<longrightarrow> processed (ring e j))"

lemma raise_status_win:
  assumes win: "am_win_ok e" and i: "0 \<le> i" "i < off e (am_rx_next_highest e)" and pi: "processed (ring e i)"
    and un: "i \<noteq> 0 \<Longrightarrow> \<not> processed (ring e 0)"
    and h: "off e (am_rx_highest_status e) \<noteq> i \<Longrightarrow> off e (am_rx_highest_status e) < am_window_size e \<Longrightarrow>
      \<not> processed (ring e (off e (am_rx_highest_status e)))"
    and gap: "i = 0 \<Longrightarrow> am_rx_highest_status e = am_rx_next e \<Longrightarrow> \<exists>j. 0 \<le> j \<and> j < am_window_size e \<and> \<not> processed (ring e j)"
  obtains sn where "am_raise_status e (sn_at e i) = Some (e\<lparr>am_rx_highest_status := sn\<rparr>)" and "am_win_ok (e\<lparr>am_rx_highest_status := sn\<rparr>)"
    and "off e sn < am_window_size e \<Longrightarrow> \<not> processed (ring e (off e sn))" and "off e sn \<noteq> i" and "is_sn e sn"
proof -
  let ?w = "am_window_size e" and ?n = "off e (am_rx_next_highest e)"
  have g: "am_geo e" and hs: "is_sn e (am_rx_highest_status e)" and n: "?n \<le> ?w" using win by (auto simp: am_win_ok_def)
  have w: "0 < ?w" "am_sn_modulus e = 2 * ?w" using am_geo_size [OF g] g by (auto simp: am_geo_def)
  have keep: "am_win_ok (e\<lparr>am_rx_highest_status := sn\<rparr>)" if "is_sn e sn" "off e sn \<le> ?n" for sn
  proof -
    have f: "am_geo (e\<lparr>am_rx_highest_status := sn\<rparr>) = am_geo e" "sn_at (e\<lparr>am_rx_highest_status := sn\<rparr>) = sn_at e"
      "off (e\<lparr>am_rx_highest_status := sn\<rparr>) = off e" "is_sn (e\<lparr>am_rx_highest_status := sn\<rparr>) = is_sn e"
      "ring (e\<lparr>am_rx_highest_status := sn\<rparr>) = ring e"
      by (rule geo_cong; simp)+ (simp add: ring_def fun_eq_iff)
    show ?thesis using win that unfolding am_win_ok_def f by simp
  qed
  show thesis
  proof (cases "sn_at e i = am_rx_highest_status e")
    case False
    then have "off e (am_rx_highest_status e) \<noteq> i" using sn_at_modulus [OF g hs] by metis
    then show thesis using that [of "am_rx_highest_status e"] False win h hs by (simp add: am_raise_status_def)
  next
    case True
    have ex: "\<exists>n'. i \<le> n' \<and> n' \<le> ?n \<and> \<not> processed (ring e n')"
    proof (cases "?n < ?w")
      case True
      then have "ring e ?n = []" using win by (simp add: am_win_ok_def)
      then show ?thesis using i by (intro exI [of _ ?n]) simp
    next
      case F: False
      then have nw: "?n = ?w" using n by simp
      show ?thesis
      proof (cases "i = 0")
        case True
        then obtain j where "0 \<le> j" "j < ?w" "\<not> processed (ring e j)"
          using gap \<open>sn_at e i = am_rx_highest_status e\<close> sn_at_zero [OF g] by auto
        then show ?thesis using True nw by (intro exI [of _ j]) simp
      next
        case False
        then show ?thesis using un ring_window [OF g] nw i by (intro exI [of _ ?n]) simp
      qed
    qed
    then obtain n' where n': "i \<le> n'" "n' \<le> ?n" "\<not> processed (ring e n')" by blast
    obtain r where r: "i \<le> r" "r \<le> n'" "\<not> processed (ring e r)" "\<And>j. i \<le> j \<Longrightarrow> j < r \<Longrightarrow> processed (ring e j)"
      using first_int [OF n'(1), of "\<lambda>j. processed (ring e j)"] n'(3) by blast
    have off: "off e (sn_at e r) = r" using off_at [OF g, of r] r i n n' w by simp
    have "am_raise_status e (sn_at e i) = Some (e\<lparr>am_rx_highest_status := sn_at e r\<rparr>)"
      using skip_delivered_first [OF g r(1) r(4) r(3)] True by (simp add: am_raise_status_def)
    then show thesis using that [of "sn_at e r"] keep [of "sn_at e r"] off r n' pi g by auto
  qed
qed

lemma lead_le:
  assumes "lead e k" and "0 \<le> h" and "h \<le> am_window_size e" and "h < am_window_size e \<Longrightarrow> \<not> processed (ring e h)"
  shows "k \<le> h"
  using assms by (cases "h < k") (auto simp: lead_def)

text \<open>What holds before the timers are looked at.\<close>

definition before_timers :: "nr_rlc_entity_am \<Rightarrow> bool" where
  "before_timers e \<longleftrightarrow> am_win_ok e \<and> \<not> processed (ring e 0) \<and> \<not> processed (ring e (off e (am_rx_highest_status e))) \<and>
     (am_t_reassembly_start e \<noteq> 0 \<longrightarrow> off e (am_rx_next_status_trigger e) \<le> off e (am_rx_next_highest e) \<or>
        am_window_size e < off e (am_rx_next_status_trigger e))"

lemma before_timers_ok: "before_timers e \<Longrightarrow> am_rx_ok (am_timer_start (am_timer_stop e))"
  by (rule timers_ok) (auto simp: before_timers_def)

lemma advance_before_timers:
  assumes win: "am_win_ok e" and p0: "processed (ring e 0)"
    and h: "off e (am_rx_highest_status e) < am_window_size e \<Longrightarrow> \<not> processed (ring e (off e (am_rx_highest_status e)))"
    and t: "am_t_reassembly_start e \<noteq> 0 \<Longrightarrow> 1 \<le> off e (am_rx_next_status_trigger e) \<and>
        off e (am_rx_next_status_trigger e) \<le> off e (am_rx_next_highest e)"
  obtains e' where "am_advance_window e = Some e'" and "before_timers e'"
proof -
  have g: "am_geo e" and isn: "is_sn e (am_rx_highest_status e)" "is_sn e (am_rx_next_status_trigger e)"
    and n: "off e (am_rx_highest_status e) \<le> off e (am_rx_next_highest e)" "off e (am_rx_next_highest e) \<le> am_window_size e"
    using win by (auto simp: am_win_ok_def)
  obtain k where k: "lead e k" using lead_exists [OF g] by blast
  have "k \<noteq> 0" using k p0 am_geo_size [OF g] by (auto simp: lead_def)
  then have k1: "1 \<le> k" "k \<le> am_window_size e" using k by (auto simp: lead_def)
  have kh: "k \<le> off e (am_rx_highest_status e)" using lead_le [OF k _ _ h] off_range [OF g isn(1)] n by auto
  from advance_win [OF win k kh h k1(1)] obtain e' where a: "am_advance_window e = Some e'" "am_win_ok e'" "\<not> processed (ring e' 0)"
    "\<not> processed (ring e' (off e' (am_rx_highest_status e')))" "am_rx_next e' = sn_at e k"
    "e' = e\<lparr>am_rx_next := am_rx_next e', am_rx := am_rx e'\<rparr>"
    "off e' (am_rx_next_highest e') = off e (am_rx_next_highest e) - k" by blast
  have f: "am_sn_modulus e' = am_sn_modulus e" "am_window_size e' = am_window_size e"
    "am_rx_next_status_trigger e' = am_rx_next_status_trigger e" "am_t_reassembly_start e' = am_t_reassembly_start e"
    using arg_cong [OF a(6), of am_sn_modulus] arg_cong [OF a(6), of am_window_size]
      arg_cong [OF a(6), of am_rx_next_status_trigger] arg_cong [OF a(6), of am_t_reassembly_start] by simp_all
  have g': "am_geo e'" using a(2) by (simp add: am_win_ok_def)
  have "off e' (am_rx_next_status_trigger e') \<le> off e' (am_rx_next_highest e') \<or> am_window_size e' < off e' (am_rx_next_status_trigger e')"
    if "am_t_reassembly_start e' \<noteq> 0"
  proof (cases "k \<le> off e (am_rx_next_status_trigger e)")
    case True
    then show ?thesis using off_shift(1) [OF g g' a(5) f(1) isn(2)] k1 t that f(3,4) a(7) by simp
  next
    case False
    then show ?thesis using off_shift_behind [OF g g' a(5) f(1,2) isn(2)] k1 t that f(3,4) by simp
  qed
  then show thesis using that [OF a(1)] a by (simp add: before_timers_def)
qed

text \<open>Delivery of the SDU at offset \<open>i\<close> and everything that follows from it.\<close>

lemma deliver_ok:
  assumes ok: "am_rx_ok e" and i: "0 \<le> i" "i < off e (am_rx_next_highest e)" and full: "am_sdu_full e (sn_at e i)"
    and gap: "\<not> (i = 0 \<and> last_gap e)"
  obtains e' where "Option.bind (am_raise_status (am_reassemble_and_deliver e (sn_at e i)) (sn_at e i))
      (\<lambda>d. if sn_at e i = am_rx_next d then am_advance_window d else Some d) = Some e'" and "before_timers e'"
proof -
  define e2 where "e2 = am_reassemble_and_deliver e (sn_at e i)"
  let ?w = "am_window_size e"
  have win: "am_win_ok e" and un: "\<not> processed (ring e 0)" "\<not> processed (ring e (off e (am_rx_highest_status e)))"
    and t: "am_t_reassembly_start e \<noteq> 0 \<Longrightarrow> 1 \<le> off e (am_rx_next_status_trigger e) \<and>
        off e (am_rx_next_status_trigger e) \<le> off e (am_rx_next_highest e)"
    using ok by (auto simp: am_rx_ok_def)
  have g: "am_geo e" and n: "off e (am_rx_next_highest e) \<le> ?w" and hs: "is_sn e (am_rx_highest_status e)"
    using win by (auto simp: am_win_ok_def)
  have w: "0 < ?w" "am_sn_modulus e = 2 * ?w" using am_geo_size [OF g] g by (auto simp: am_geo_def)
  have iw: "i < ?w" using i n by simp
  note r = reassemble_ring [OF g i(1) iw e2_def] and win2 = reassemble_win [OF win i(1) iw full e2_def]
  note fr = reassemble_frame [of e "sn_at e i", folded e2_def]
  have f: "am_window_size e2 = ?w" "am_rx_next_highest e2 = am_rx_next_highest e" "am_rx_highest_status e2 = am_rx_highest_status e"
    "am_rx_next_status_trigger e2 = am_rx_next_status_trigger e" "am_t_reassembly_start e2 = am_t_reassembly_start e"
    "am_rx_next e2 = am_rx_next e"
    using arg_cong [OF fr, of am_window_size] arg_cong [OF fr, of am_rx_next_highest] arg_cong [OF fr, of am_rx_highest_status]
      arg_cong [OF fr, of am_rx_next_status_trigger] arg_cong [OF fr, of am_t_reassembly_start] arg_cong [OF fr, of am_rx_next] by simp_all
  have other: "processed (ring e2 j) = processed (ring e j)" if "0 \<le> j" "j < ?w" "j \<noteq> i" for j using r(5) that by simp
  have gap2: "\<exists>j. 0 \<le> j \<and> j < am_window_size e2 \<and> \<not> processed (ring e2 j)" if z: "i = 0" "am_rx_highest_status e2 = am_rx_next e2"
  proof -
    obtain j where "1 \<le> j" "j < ?w" "\<not> processed (ring e j)" using gap z f by (auto simp: last_gap_def)
    then show ?thesis using other [of j] z f by (intro exI [of _ j]) auto
  qed
  obtain sn where sn: "am_raise_status e2 (sn_at e i) = Some (e2\<lparr>am_rx_highest_status := sn\<rparr>)"
    "am_win_ok (e2\<lparr>am_rx_highest_status := sn\<rparr>)" "off e sn < ?w \<Longrightarrow> \<not> processed (ring e2 (off e sn))" "off e sn \<noteq> i" "is_sn e sn"
  proof (rule raise_status_win [OF win2(1) i(1) _ win2(2) _ _ gap2], unfold r(2-4) f)
    show "i < off e (am_rx_next_highest e)" by (fact i(2))
    show "\<not> processed (ring e2 0)" if "i \<noteq> 0" using other [of 0] that un(1) w by simp
    show "\<not> processed (ring e2 (off e (am_rx_highest_status e)))"
      if "off e (am_rx_highest_status e) \<noteq> i" "off e (am_rx_highest_status e) < ?w"
      using other [OF _ that(2,1)] un(2) off_range [OF g hs] by simp
  qed (use that in blast)+
  define e3 where "e3 = e2\<lparr>am_rx_highest_status := sn\<rparr>"
  have f3: "ring e3 = ring e2" "off e3 = off e" "am_rx_next e3 = am_rx_next e" "am_window_size e3 = ?w" "am_rx_highest_status e3 = sn"
    "am_rx_next_highest e3 = am_rx_next_highest e"
    "am_rx_next_status_trigger e3 = am_rx_next_status_trigger e" "am_t_reassembly_start e3 = am_t_reassembly_start e"
    using f arg_cong [OF fr, of am_sn_modulus] by (auto simp: e3_def ring_def fun_eq_iff am_modulus_rx_def Let_def)
  have g3: "am_geo e3" "off e sn \<le> ?w" using sn(2) n unfolding e3_def [symmetric] am_win_ok_def f3 by auto
  have z: "sn_at e i = am_rx_next e3 \<longleftrightarrow> i = 0"
  proof
    assume "sn_at e i = am_rx_next e3"
    then have "sn_at e i = sn_at e 0" using sn_at_zero [OF g] f3(3) by simp
    then have "off e (sn_at e i) = off e (sn_at e 0)" by simp
    then show "i = 0" using off_at [OF g, of i] off_at [OF g, of 0] iw i w by simp
  qed (use sn_at_zero [OF g] f3(3) in simp)
  have step: "Option.bind (am_raise_status (am_reassemble_and_deliver e (sn_at e i)) (sn_at e i))
      (\<lambda>d. if sn_at e i = am_rx_next d then am_advance_window d else Some d) = (if i = 0 then am_advance_window e3 else Some e3)"
    by (simp only: e2_def [symmetric] sn(1) e3_def [symmetric] z Option.bind.bind_lunit)
  show thesis
  proof (cases "i = 0")
    case True
    obtain e' where "am_advance_window e3 = Some e'" "before_timers e'"
      using advance_before_timers [OF sn(2) [folded e3_def]] win2(2) True sn(3) t unfolding f3 by metis
    then show thesis by (intro that [of e']) (simp_all only: step, simp add: True)
  next
    case False
    have u0: "\<not> processed (ring e3 0)" using other [of 0] False un(1) w f3 by simp
    have "\<not> processed (ring e3 (off e sn))"
      using sn(3) u0 ring_window [OF g3(1)] g3(2) f3 by (cases "off e sn < ?w") auto
    then have "before_timers e3"
      using sn(2) [folded e3_def] u0 t unfolding before_timers_def f3 by simp
    then show thesis by (intro that [of e3]) (simp_all only: step, simp add: False)
  qed
qed

lemma full_raise [simp]: "am_sdu_full (am_raise_highest e x) sn = am_sdu_full e sn"
  by (simp add: am_raise_highest_def am_sdu_full_def slot_def am_sdu_delivered_def)

lemma reception_actions_ok:
  assumes ok: "am_rx_ok e" and i: "0 \<le> i" "i < am_window_size e" and p: "pdu_ok (sn_at e i) p" "pdu_data p \<noteq> None"
    and gap: "\<not> (i = 0 \<and> last_gap e \<and> am_sdu_full (am_store_pdu e p) (sn_at e i))"
  obtains e' where "am_reception_actions (am_store_pdu e p) (sn_at e i) = Some e'" and "am_rx_ok e'"
proof -
  define d where "d = am_raise_highest (am_store_pdu e p) (sn_at e i)"
  note st = store_raise [OF ok i p d_def]
  have full: "am_sdu_full d (sn_at e i) = am_sdu_full (am_store_pdu e p) (sn_at e i)"
    by (simp add: d_def)
  have lg: "last_gap d \<longleftrightarrow> last_gap e" if "i = 0"
  proof -
    have "am_rx_highest_status d = am_rx_highest_status e" "am_rx_next d = am_rx_next e"
      by (simp_all add: d_def am_raise_highest_def am_store_pdu_def)
    then show ?thesis using st(4) st(6) that by (auto simp: last_gap_def)
  qed
  have act: "am_reception_actions (am_store_pdu e p) (sn_at e i) =
      map_option (\<lambda>e. am_timer_start (am_timer_stop e)) (am_reception_window (am_store_pdu e p) (sn_at e i))"
    by (simp only: am_reception_actions_def)
  show thesis
  proof (cases "am_sdu_full d (sn_at e i)")
    case True
    then obtain d' where d': "Option.bind (am_raise_status (am_reassemble_and_deliver d (sn_at d i)) (sn_at d i))
      (\<lambda>d'. if sn_at d i = am_rx_next d' then am_advance_window d' else Some d') = Some d'" "before_timers d'"
      using deliver_ok [OF st(1) i(1) st(2)] lg gap full unfolding st(3) by metis
    then have "am_reception_window (am_store_pdu e p) (sn_at e i) = Some d'"
      using True by (simp only: am_reception_window_def Let_def d_def [symmetric] st(3) if_True)
    then show thesis using that act before_timers_ok [OF d'(2)] by simp
  next
    case False
    then have "am_reception_window (am_store_pdu e p) (sn_at e i) = Some d"
      by (simp only: am_reception_window_def Let_def d_def [symmetric] if_False)
    moreover have "before_timers d" using st(1) by (auto simp: before_timers_def am_rx_ok_def)
    ultimately show thesis using that act before_timers_ok [of d] by simp
  qed
qed

text \<open>The exception: the code loops for ever.\<close>

lemma reception_actions_hang:
  assumes ok: "am_rx_ok e" and p: "pdu_ok (am_rx_next e) p" "pdu_data p \<noteq> None"
    and gap: "last_gap e" and full: "am_sdu_full (am_store_pdu e p) (am_rx_next e)"
  shows "am_reception_actions (am_store_pdu e p) (am_rx_next e) = None"
proof -
  have g: "am_geo e" using ok by (simp add: am_rx_ok_def am_win_ok_def)
  have w: "0 < am_window_size e" using am_geo_size [OF g] by simp
  have z: "am_rx_next e = sn_at e 0" using sn_at_zero [OF g] by simp
  define d where "d = am_raise_highest (am_store_pdu e p) (sn_at e 0)"
  note st = store_raise [OF ok order_refl w p(1) [unfolded z] p(2) d_def]
  have win: "am_win_ok d" using st(1) by (simp add: am_rx_ok_def)
  then have gd: "am_geo d" by (simp add: am_win_ok_def)
  have fd: "am_sdu_full d (sn_at d 0)"
    using full unfolding z st(3) by (simp add: d_def)
  define e2 where "e2 = am_reassemble_and_deliver d (sn_at d 0)"
  have wd: "0 < am_window_size d" using w st(4) by simp
  note r = reassemble_ring [OF gd order_refl wd e2_def] and win2 = reassemble_win [OF win order_refl wd fd e2_def]
  note fr = reassemble_frame [of d "sn_at d 0", folded e2_def]
  have f: "am_window_size e2 = am_window_size e" "am_rx_highest_status e2 = sn_at e 0"
    using arg_cong [OF fr, of am_window_size] arg_cong [OF fr, of am_rx_highest_status] st(4) gap z
    by (simp_all add: d_def am_raise_highest_def am_store_pdu_def last_gap_def)
  have g2: "am_geo e2" using win2(1) by (simp add: am_win_ok_def)
  have all: "processed (ring e2 j)" if "0 \<le> j" "j < am_window_size e" for j
    using win2(2) r(5) [of j] st(4) st(6) [of j] gap that by (cases "j = 0") (auto simp: last_gap_def)
  have "am_skip_delivered e2 (sn_at e2 0) = None"
    by (rule skip_delivered_hang [OF g2]) (use all f g2 in simp_all)
  then have "am_raise_status e2 (sn_at e 0) = None" using f(2) r(2) st(3) by (simp add: am_raise_status_def)
  then have "am_reception_window (am_store_pdu e p) (sn_at e 0) = None"
    using fd unfolding am_reception_window_def Let_def d_def [symmetric] by (simp add: st(3) e2_def)
  then show ?thesis by (simp add: am_reception_actions_def z)
qed

section \<open>The reassembly timer\<close>

lemma check_t_reassembly_ok:
  assumes ok: "am_rx_ok e"
  obtains e' where "am_check_t_reassembly e = Some e'" and "am_rx_ok e'"
proof (cases "am_t_reassembly_start e = 0 \<or> am_t_current e \<le> am_t_reassembly_start e + word_of_int (am_t_reassembly e)")
  case True
  then show thesis using that [of e] ok by (simp add: am_check_t_reassembly_def)
next
  case False
  define d where "d = e\<lparr>am_t_reassembly_start := 0\<rparr>"
  let ?n = "off e (am_rx_next_highest e)" and ?t = "off e (am_rx_next_status_trigger e)" and ?w = "am_window_size e"
  have f: "am_geo d = am_geo e" "sn_at d = sn_at e" "off d = off e" "is_sn d = is_sn e" "ring d = ring e"
    by (rule geo_cong; simp add: d_def)+ (simp add: d_def ring_def fun_eq_iff)
  have t: "1 \<le> ?t" "?t \<le> ?n" and un: "\<not> processed (ring e 0)" and win: "am_win_ok e"
    using ok False by (auto simp: am_rx_ok_def)
  then have g: "am_geo e" and n: "?n \<le> ?w" and sn: "is_sn e (am_rx_next_status_trigger e)" "is_sn e (am_rx_next_highest e)"
    by (auto simp: am_win_ok_def)
  have w: "2 \<le> ?w" "am_sn_modulus e = 2 * ?w" using g by (auto simp: am_geo_def)
  have last: "\<not> processed (ring e ?n)"
    using win un ring_window [OF g] n by (cases "?n < ?w") (auto simp: am_win_ok_def)
  obtain r where r: "?t \<le> r" "r \<le> ?n" "\<not> processed (ring e r)" "\<And>j. ?t \<le> j \<Longrightarrow> j < r \<Longrightarrow> processed (ring e j)"
    using first_int [OF t(2), of "\<lambda>j. processed (ring e j)"] last by blast
  have "am_skip_delivered d (sn_at d ?t) = Some (sn_at d r)"
    by (rule skip_delivered_first) (use f g r in simp_all)
  then have skip: "am_skip_delivered d (am_rx_next_status_trigger d) = Some (sn_at e r)"
    using f sn_at_modulus [OF g sn(1)] by (simp add: d_def)
  have chk: "am_check_t_reassembly e = Some (am_reassembly_expired d (sn_at e r))"
    using False skip by (simp add: am_check_t_reassembly_def Let_def d_def)
  obtain x :: u64 and trig where e': "am_reassembly_expired d (sn_at e r) =
      e\<lparr>am_rx_highest_status := sn_at e r, am_status_triggered := True, am_t_reassembly_start := x, am_rx_next_status_trigger := trig\<rparr>"
    and tr: "trig = am_rx_next_highest e \<or> x = 0 \<and> trig = am_rx_next_status_trigger e"
    by (rule that [of "am_rx_next_status_trigger (am_reassembly_expired d (sn_at e r))"
          "am_t_reassembly_start (am_reassembly_expired d (sn_at e r))"])
       (simp_all add: am_reassembly_expired_def Let_def d_def)
  define c where "c = am_reassembly_expired d (sn_at e r)"
  have fc: "am_geo c = am_geo e" "sn_at c = sn_at e" "off c = off e" "is_sn c = is_sn e" "ring c = ring e"
    by (rule geo_cong; simp add: c_def e')+ (simp add: c_def e' ring_def fun_eq_iff)
  have ro: "off e (sn_at e r) = r" using off_at [OF g, of r] r n t w by simp
  have "am_win_ok c" using win tr r(2) sn g ro unfolding am_win_ok_def fc by (auto simp: c_def e')
  then have "am_rx_ok c" using un r(3) tr t ro unfolding am_rx_ok_def fc by (auto simp: c_def e')
  then show thesis using that chk by (simp add: c_def)
qed

end
