(* ===== verification/Rlc_Am_Codec.thy ===== *)
theory Rlc_Am_Codec
  imports Rlc_Am_Entity Rlc_Um_Codec
begin

text \<open>
  The header of an acknowledged mode data PDU: what \<^verbatim>\<open>serialize_sdu\<close> writes (with the poll bit that
  \<^verbatim>\<open>include_poll\<close> sets afterwards) is what \<^verbatim>\<open>nr_rlc_entity_am_recv_pdu\<close> reads.
\<close>

definition am_header_bits :: "nat \<Rightarrow> bool \<Rightarrow> int \<Rightarrow> nr_rlc_sdu_segment_t \<Rightarrow> bool list" where
  "am_header_bits sn_len p sn s =
     [True, p, \<not> sg_is_first s, \<not> sg_is_last s] @ (if sn_len = 18 then [False, False] else []) @
     msb_bits sn sn_len @ (if \<not> sg_is_first s then msb_bits (sg_so s) 16 else [])"

lemma am_header_bits_length:
  assumes "am_sn_field_length e = 12 \<or> am_sn_field_length e = 18"
  shows "int (length (am_header_bits (am_sn_field_length e) p sn s)) = 8 * am_compute_pdu_header_size e s"
  using assms by (auto simp: am_header_bits_def am_compute_pdu_header_size_def)

section \<open>Encoding\<close>

lemma am_serialize_plain:
  assumes "am_sn_field_length e = 12 \<or> am_sn_field_length e = 18"
    and "am_compute_pdu_header_size e s \<le> int (length buffer)"
  obtains hdr where "\<And>p. am_serialize_sdu e s buffer p =
      Some (let pdu = hdr @ am_segment_bytes e s in if p then include_poll e pdu else (e, pdu))"
    and "int (length hdr) = am_compute_pdu_header_size e s"
    and "bits_of hdr = am_header_bits (am_sn_field_length e) False (sg_sn e s) s"
proof -
  let ?n = "am_sn_field_length e"
  let ?e0 = "nr_rlc_pdu_encoder_init buffer" and ?bs = "am_header_bits ?n False (sg_sn e s) s"
  have l: "int (length ?bs) = 8 * am_compute_pdu_header_size e s" by (rule am_header_bits_length [OF assms(1)])
  have ok: "enc_ok ?e0" by (simp add: enc_ok_def nr_rlc_pdu_encoder_init_def)
  have room: "8 * enc_byte ?e0 + enc_bit ?e0 + length ?bs \<le> 8 * length (enc_buffer ?e0)"
    using l assms(2) by (simp add: nr_rlc_pdu_encoder_init_def)
  from put_bit_list_bits [OF ok room] obtain e1 where e1: "put_bit_list ?e0 ?bs = Some e1" "enc_ok e1"
    "enc_bits e1 = ?bs" "8 * enc_byte e1 + enc_bit e1 = length ?bs"
    by (auto simp: enc_bits_def nr_rlc_pdu_encoder_init_def bits_of_def)
  have b: "enc_bit e1 = 0" "int (enc_byte e1) = am_compute_pdu_header_size e s"
    using e1(2,4) l by (auto simp: enc_ok_def, presburger+)
  have "?n \<le> 31" using assms(1) by auto
  note f = put_field_bits put_field_bits [OF this] put_field_bits [where bs = "[]" and e = ?e0, simplified]
  have "am_serialize_sdu e s buffer p = map_option (\<lambda>enc. let pdu = take (enc_byte enc) (enc_buffer enc) @ am_segment_bytes e s
      in if p then include_poll e pdu else (e, pdu)) (put_bit_list ?e0 ?bs)" for p
    by (cases "sg_is_first s"; cases "sg_is_last s"; cases "?n = 18")
      (simp_all add: am_serialize_sdu_def Let_def f msb_one msb_zero am_header_bits_def numeral_2_eq_2 del: put_bit_list.simps)
  then have "am_serialize_sdu e s buffer p = Some (let pdu = take (enc_byte e1) (enc_buffer e1) @ am_segment_bytes e s
      in if p then include_poll e pdu else (e, pdu))" for p
    using e1(1) by simp
  moreover have "bits_of (take (enc_byte e1) (enc_buffer e1)) = ?bs" using e1(3) b(1) by (simp add: enc_bits_def)
  moreover have "length (take (enc_byte e1) (enc_buffer e1)) = enc_byte e1"
    using e1(2) by (simp add: enc_ok_def)
  ultimately show thesis using that b(2) by (metis)
qed

text \<open>The poll bit is the second bit of the header.\<close>

lemma byte_bits_poll: "byte_bits (w OR 0x40) = (byte_bits w)[1 := True]"
  by (simp add: byte_bits_def upt_conv_Cons bit_or_iff)

lemma bits_of_poll:
  assumes "hdr \<noteq> []"
  shows "bits_of (hdr[0 := hdr ! 0 OR 0x40]) = (bits_of hdr)[1 := True]"
  using assms by (cases hdr) (simp_all add: bits_of_def byte_bits_poll list_update_append)

text \<open>The entity after serialization.\<close>

definition am_polled :: "nr_rlc_entity_am \<Rightarrow> bool \<Rightarrow> nr_rlc_entity_am" where
  "am_polled e p = (if p then fst (include_poll e []) else e)"

lemma am_serialize_bits:
  assumes "am_sn_field_length e = 12 \<or> am_sn_field_length e = 18"
    and "am_compute_pdu_header_size e s \<le> int (length buffer)"
  obtains hdr where "am_serialize_sdu e s buffer p = Some (am_polled e p, hdr @ am_segment_bytes e s)"
    and "int (length hdr) = am_compute_pdu_header_size e s"
    and "bits_of hdr = am_header_bits (am_sn_field_length e) p (sg_sn e s) s"
proof -
  obtain hdr where h: "\<And>p. am_serialize_sdu e s buffer p =
      Some (let pdu = hdr @ am_segment_bytes e s in if p then include_poll e pdu else (e, pdu))"
    "int (length hdr) = am_compute_pdu_header_size e s"
    "bits_of hdr = am_header_bits (am_sn_field_length e) False (sg_sn e s) s"
    using am_serialize_plain [OF assms] by blast
  show thesis
  proof (cases p)
    case True
    have ne: "hdr \<noteq> []" using h(2) by (auto simp: am_compute_pdu_header_size_def split: if_splits)
    show thesis
    proof (rule that)
      show "am_serialize_sdu e s buffer p = Some (am_polled e p, hdr[0 := hdr ! 0 OR 0x40] @ am_segment_bytes e s)"
        using h(1) [of p] True ne
        by (simp add: am_polled_def include_poll_def list_update_append nth_append)
      show "bits_of (hdr[0 := hdr ! 0 OR 0x40]) = am_header_bits (am_sn_field_length e) p (sg_sn e s) s"
        using True by (simp add: bits_of_poll [OF ne] h(3) am_header_bits_def)
    qed (simp add: h(2))
  next
    case False
    then show thesis using that h by (simp add: am_polled_def)
  qed
qed

section \<open>Decoding\<close>

lemma am_read_or_at:
  assumes "dec_at d buf p" and "p + n \<le> 8 * length buf" and "n \<le> 31"
    and "bits_val 0 (take n (drop p (bits_of buf))) = v"
  obtains d' where "dec_at d' buf (p + n)" and "\<And>err k. am_read_or err d n k = k v d'"
proof -
  obtain d' where d': "nr_rlc_pdu_decoder_get_bits d n = Some (bits_val 0 (take n (drop p (bits_of buf))), d')"
    "dec_at d' buf (p + n)" by (rule get_bits_at [OF assms(1-3)])
  then show thesis using that [of d'] assms(4) by (simp add: am_read_or_def dec_at_def)
qed

text \<open>A segment that a peer accepts: field ranges, and a segment offset exactly when it is not the first.\<close>

definition am_seg_range :: "nat \<Rightarrow> int \<Rightarrow> nr_rlc_sdu_segment_t \<Rightarrow> bool" where
  "am_seg_range sn_len sn s \<longleftrightarrow> (sn_len = 12 \<or> sn_len = 18) \<and> 0 \<le> sn \<and> sn < 2 ^ sn_len \<and> 0 \<le> sg_so s \<and> sg_so s < 65536 \<and>
     (sg_is_first s \<longleftrightarrow> sg_so s = 0)"

lemma am_decode_bits:
  assumes ok: "am_seg_range sn_len sn s" and hdr: "bits_of hdr = am_header_bits sn_len p sn s"
  shows "am_decode_header sn_len (hdr @ rest) = Some (Am_data p (sg_is_first s) (sg_is_last s) sn (sg_so s) (length hdr))"
proof -
  let ?buf = "hdr @ rest" and ?f = "sg_is_first s" and ?l = "sg_is_last s"
  let ?bits = "am_header_bits sn_len p sn s" and ?q = "if sn_len = 18 then 6 else 4 :: nat"
  have len: "8 * length hdr = length ?bits" using arg_cong [OF hdr, of length] by simp
  have sn: "sn_len = 12 \<or> sn_len = 18" and snr: "0 \<le> sn" "sn < 2 ^ sn_len"
    and so: "0 \<le> sg_so s" "sg_so s < 2 ^ 16" and fso: "?f \<longleftrightarrow> sg_so s = 0"
    using ok by (auto simp: am_seg_range_def)
  have lb: "length ?bits = ?q + sn_len + (if \<not> ?f then 16 else 0)" by (simp add: am_header_bits_def)
  have fit: "take n (drop q (bits_of ?buf)) = take n (drop q ?bits)" "q + n \<le> 8 * length ?buf"
    if "q + n \<le> length ?bits" for q n
    using that len by (auto simp: hdr take_append)
  have rd: "\<exists>d'. dec_at d' ?buf (q + n) \<and> (\<forall>err k. am_read_or err d n k = k v d')"
    if "dec_at d ?buf q" "q + n \<le> length ?bits" "n \<le> 31" "bits_val 0 (take n (drop q ?bits)) = v" for d q n v
    using am_read_or_at [OF that(1) fit(2) [OF that(2)] that(3), of v] fit(1) [OF that(2)] that(4) by metis
  obtain d1 where d1: "dec_at d1 ?buf 1" "\<And>err k. am_read_or err (nr_rlc_pdu_decoder_init ?buf) 1 k = k 1 d1"
    using rd [OF dec_at_init, of 1 1] lb by (auto simp: am_header_bits_def)
  obtain d2 where d2: "dec_at d2 ?buf 2" "\<And>err k. am_read_or err d1 1 k = k (of_bool p) d2"
    using rd [OF d1(1), of 1 "of_bool p"] lb by (auto simp: am_header_bits_def numeral_2_eq_2)
  let ?si = "2 * of_bool (\<not> ?f) + of_bool (\<not> ?l) :: int"
  obtain d3 where d3: "dec_at d3 ?buf 4" "\<And>err k. am_read_or err d2 2 k = k ?si d3"
    using rd [OF d2(1), of 2 ?si] lb by (auto simp: am_header_bits_def eval_nat_numeral)
  have b: "bit ?si (Suc 0) = (\<not> ?f)" "bit ?si 0 = (\<not> ?l)"
    by (cases ?f; cases ?l; simp add: bit_0 bit_Suc)+
  obtain d4 where d4: "dec_at d4 ?buf ?q"
    "\<And>err k. (if sn_len = 18 then am_read_or err d3 2 (\<lambda>_ d. k d) else k d3) = k d4"
    using rd [OF d3(1), of 2 0] lb d3(1) by (cases "sn_len = 18") (auto simp: am_header_bits_def eval_nat_numeral)
  have t1: "take sn_len (drop ?q ?bits) = msb_bits sn sn_len" by (simp add: am_header_bits_def)
  obtain d5 where d5: "dec_at d5 ?buf (?q + sn_len)" "\<And>err k. am_read_or err d4 sn_len k = k sn d5"
    using rd [OF d4(1), of sn_len sn] lb sn t1 bits_val_msb0 [OF snr] by auto
  let ?k = "\<lambda>d. am_read_or (Am_bad p) d sn_len (\<lambda>sn d.
                   if \<not> ?f then am_read_or (Am_bad p) d 16 (\<lambda>so d. Some (if so = 0 then Am_bad p else Am_data p ?f ?l sn so (dec_byte d)))
                   else Some (Am_data p ?f ?l sn 0 (dec_byte d)))"
  have p: "((of_bool p :: int) \<noteq> 0) = p" by simp
  have "am_decode_header sn_len ?buf = (if sn_len = 18 then am_read_or (Am_bad p) d3 2 (\<lambda>_ d. ?k d) else ?k d3)"
    unfolding am_decode_header_def Let_def d1(2) d2(2) p d3(2) unfolding One_nat_def b not_not by (simp only: zero_neq_one [symmetric] if_False)
  also have "\<dots> = ?k d4" by (rule d4(2))
  finally have dec: "am_decode_header sn_len ?buf =
      (if \<not> ?f then am_read_or (Am_bad p) d5 16 (\<lambda>so d. Some (if so = 0 then Am_bad p else Am_data p ?f ?l sn so (dec_byte d)))
       else Some (Am_data p ?f ?l sn 0 (dec_byte d5)))"
    by (simp only: d5(2))
  show ?thesis
  proof (cases ?f)
    case True
    then have "dec_byte d5 = length hdr" using dec_at_byte [OF d5(1)] len lb by simp
    then show ?thesis using dec True fso by simp
  next
    case False
    have "drop sn_len (drop ?q ?bits) = msb_bits (sg_so s) 16" using False by (simp add: am_header_bits_def del: drop_drop)
    then have t2: "take 16 (drop (?q + sn_len) ?bits) = msb_bits (sg_so s) 16" by (simp add: add.commute)
    obtain d6 where d6: "dec_at d6 ?buf (?q + sn_len + 16)" "\<And>err k. am_read_or err d5 16 k = k (sg_so s) d6"
      using rd [OF d5(1), of 16 "sg_so s"] lb False t2 bits_val_msb0 [OF so] by auto
    have "8 * length hdr = ?q + sn_len + 16" using len lb False by simp
    then have "dec_byte d6 = length hdr" using dec_at_byte [OF d6(1)] by simp
    then show ?thesis using dec False fso d6(2) by simp
  qed
qed

end
