(* ===== verification/Rlc_Am_Books.thy ===== *)
theory Rlc_Am_Books
  imports Rlc_Am_Codec "HOL-Library.Multiset"
begin

text \<open>
  Bookkeeping of the acknowledged mode transmitter: the reference counts of the SDUs, the size of the
  transmission buffer and the two buffer status values agree with the segments in the lists. The
  invariant also counts segments that \<^verbatim>\<open>process_control_pdu\<close> has lost (see \<open>process_nack\<close>).
\<close>

section \<open>The invariant\<close>

definition am_seg_ok :: "nr_rlc_entity_am \<Rightarrow> nr_rlc_sdu_segment_t \<Rightarrow> bool" where
  "am_seg_ok e s \<longleftrightarrow> sg_sdu s < am_heap_next e \<and> \<not> sh_freed (sdu_of e s) \<and> 0 \<le> sg_so s \<and> 1 \<le> sg_size s \<and>
     sg_so s + sg_size s \<le> int (length (sh_data (sdu_of e s))) \<and> (sg_is_first s \<longleftrightarrow> sg_so s = 0) \<and>
     (sg_is_last s \<longleftrightarrow> sg_so s + sg_size s = int (length (sh_data (sdu_of e s))))"

definition of_sdu :: "nat \<Rightarrow> nr_rlc_sdu_segment_t multiset \<Rightarrow> nr_rlc_sdu_segment_t multiset" where
  "of_sdu a M = filter_mset (\<lambda>s. sg_sdu s = a) M"

definition sdu_ok :: "nr_rlc_sdu_t \<Rightarrow> nr_rlc_sdu_segment_t multiset \<Rightarrow> bool" where
  "sdu_ok x M \<longleftrightarrow> M \<noteq> {#} \<and> sh_free_count x + int (size M) = sh_ref_count x \<and>
     (\<Sum>s\<in>#M. sg_size s) \<le> int (length (sh_data x))"

definition sdu_bytes :: "nr_rlc_sdu_t \<Rightarrow> int" where
  "sdu_bytes x = (if sh_freed x then 0 else int (length (sh_data x)))"

definition live_bytes :: "nr_rlc_entity_am \<Rightarrow> int" where
  "live_bytes e = (\<Sum>a<am_heap_next e. sdu_bytes (am_heap e a))"

definition refs_ok :: "nr_rlc_entity_am \<Rightarrow> nr_rlc_sdu_segment_t multiset \<Rightarrow> bool" where
  "refs_ok e M \<longleftrightarrow> (\<forall>s\<in>#M. am_seg_ok e s) \<and>
     (\<forall>a<am_heap_next e. \<not> sh_freed (am_heap e a) \<longrightarrow> sdu_ok (am_heap e a) (of_sdu a M)) \<and> am_tx_size e = live_bytes e"

definition pdu_bytes :: "nr_rlc_entity_am \<Rightarrow> nr_rlc_sdu_segment_t list \<Rightarrow> int" where
  "pdu_bytes e l = (\<Sum>s\<leftarrow>l. am_compute_pdu_header_size e s + sg_size s)"

text \<open>For the transmission list, wait list, retransmit list and the lost segments.\<close>

definition am_acct ::
    "nr_rlc_entity_am \<Rightarrow> nr_rlc_sdu_segment_t list \<Rightarrow> nr_rlc_sdu_segment_t list \<Rightarrow> nr_rlc_sdu_segment_t list \<Rightarrow>
     nr_rlc_sdu_segment_t list \<Rightarrow> bool" where
  "am_acct e T W R L \<longleftrightarrow> refs_ok e (mset T + mset W + mset R + mset L) \<and>
     am_bstatus_tx e = pdu_bytes e T \<and> am_bstatus_retx e = pdu_bytes e R + pdu_bytes e L"

definition am_tx_ok :: "nr_rlc_entity_am \<Rightarrow> nr_rlc_sdu_segment_t list \<Rightarrow> bool" where
  "am_tx_ok e L \<longleftrightarrow> am_acct e (am_tx_list e) (am_wait_list e) (am_retransmit_list e) L"

section \<open>Reference counts\<close>

lemma of_sdu_simps [simp]:
  "of_sdu a {#} = {#}" "of_sdu a (M + N) = of_sdu a M + of_sdu a N"
  "of_sdu a (add_mset s M) = (if sg_sdu s = a then add_mset s (of_sdu a M) else of_sdu a M)"
  by (simp_all add: of_sdu_def)

lemma of_sdu_empty: "of_sdu a M = {#} \<Longrightarrow> s \<in># M \<Longrightarrow> sg_sdu s \<noteq> a"
  by (auto simp: of_sdu_def)

lemma of_sdu_subset: "s \<in># of_sdu a M \<Longrightarrow> s \<in># M"
  by (simp add: of_sdu_def)

lemma sum_pos_empty:
  assumes "(\<Sum>s\<in>#M. sg_size s) \<le> 0" and "\<And>s. s \<in># M \<Longrightarrow> 1 \<le> sg_size s"
  shows "M = {#}"
proof -
  have "(\<And>s. s \<in># M \<Longrightarrow> 1 \<le> sg_size s) \<Longrightarrow> int (size M) \<le> (\<Sum>s\<in>#M. sg_size s)"
    by (induction M) fastforce+
  then have "int (size M) \<le> 0" using assms by (meson order.trans)
  then show ?thesis by simp
qed

text \<open>The state enters only through a few fields.\<close>

lemma refs_ok_cong:
  assumes "am_heap e' = am_heap e" "am_heap_next e' = am_heap_next e" "am_tx_size e' = am_tx_size e"
  shows "refs_ok e' M = refs_ok e M"
  using assms by (simp add: refs_ok_def am_seg_ok_def live_bytes_def sdu_of_def)

lemma pdu_bytes_cong: "am_sn_field_length e' = am_sn_field_length e \<Longrightarrow> pdu_bytes e' = pdu_bytes e"
  by (simp add: pdu_bytes_def am_compute_pdu_header_size_def fun_eq_iff)

lemma am_acct_cong:
  assumes "am_heap e' = am_heap e" "am_heap_next e' = am_heap_next e" "am_tx_size e' = am_tx_size e"
    "am_bstatus_tx e' = am_bstatus_tx e" "am_bstatus_retx e' = am_bstatus_retx e" "am_sn_field_length e' = am_sn_field_length e"
  shows "am_acct e' T W R L = am_acct e T W R L"
  using assms refs_ok_cong [of e' e] pdu_bytes_cong [of e' e] by (simp add: am_acct_def)

lemma pdu_bytes_simps [simp]:
  "pdu_bytes e [] = 0" "pdu_bytes e (s # l) = am_compute_pdu_header_size e s + sg_size s + pdu_bytes e l"
  "pdu_bytes e (l @ l') = pdu_bytes e l + pdu_bytes e l'"
  by (simp_all add: pdu_bytes_def)

lemma update_sdu_simps [simp]:
  "am_heap (update_sdu e s f) = (am_heap e)(sg_sdu s := f (am_heap e (sg_sdu s)))"
  "am_heap_next (update_sdu e s f) = am_heap_next e" "am_tx_size (update_sdu e s f) = am_tx_size e"
  "am_bstatus_tx (update_sdu e s f) = am_bstatus_tx e" "am_bstatus_retx (update_sdu e s f) = am_bstatus_retx e"
  "am_sn_field_length (update_sdu e s f) = am_sn_field_length e"
  "am_tx_list (update_sdu e s f) = am_tx_list e" "am_wait_list (update_sdu e s f) = am_wait_list e"
  "am_retransmit_list (update_sdu e s f) = am_retransmit_list e" "am_tx_next (update_sdu e s f) = am_tx_next e"
  "am_max_retx_threshold (update_sdu e s f) = am_max_retx_threshold e"
  by (simp_all add: update_sdu_def)

text \<open>Changes of the sequence number or the retransmission count leave the reference counts alone.\<close>

lemma refs_ok_update:
  assumes "\<And>x. sh_data (f x) = sh_data x \<and> sh_freed (f x) = sh_freed x \<and> sh_ref_count (f x) = sh_ref_count x \<and>
      sh_free_count (f x) = sh_free_count x"
  shows "refs_ok (update_sdu e s f) M = refs_ok e M"
proof -
  have "am_seg_ok (update_sdu e s f) t = am_seg_ok e t" for t
    by (cases "sg_sdu t = sg_sdu s") (simp_all add: am_seg_ok_def sdu_of_def assms)
  moreover have "sdu_ok (am_heap (update_sdu e s f) a) N = sdu_ok (am_heap e a) N" for a N
    by (simp add: sdu_ok_def assms)
  moreover have "sh_freed (am_heap (update_sdu e s f) a) = sh_freed (am_heap e a)" for a
    by (simp add: assms)
  moreover have "live_bytes (update_sdu e s f) = live_bytes e"
    unfolding live_bytes_def by (intro sum.cong) (auto simp: assms sdu_bytes_def)
  ultimately show ?thesis by (simp add: refs_ok_def)
qed

lemma sum_if_update:
  fixes h :: "nat \<Rightarrow> 'a" and g :: "'a \<Rightarrow> int"
  assumes "j < n"
  shows "(\<Sum>a<n. g ((h(j := x)) a)) = (\<Sum>a<n. g (h a)) - g (h j) + g x"
  using sum_point_update [OF assms, of "\<lambda>a. g ((h(j := x)) a)" "\<lambda>a. g (h a)"] by simp

lemma live_bytes_update:
  assumes "sg_sdu s < am_heap_next e"
  shows "live_bytes (update_sdu e s f) = live_bytes e - sdu_bytes (sdu_of e s) + sdu_bytes (f (sdu_of e s))"
  using sum_if_update [OF assms, of sdu_bytes "am_heap e" "f (sdu_of e s)"]
  by (simp only: live_bytes_def sdu_of_def update_sdu_simps)

text \<open>Freeing a segment.\<close>

lemma free_segment:
  assumes r: "refs_ok e (add_mset s M)" and f: "nr_rlc_free_sdu_segment e s = (freed, e')"
  shows "refs_ok (e'\<lparr>am_tx_size := am_tx_size e - (if freed then int (length (sh_data (sdu_of e s))) else 0)\<rparr>) M"
    and "freed \<longleftrightarrow> of_sdu (sg_sdu s) M = {#}"
proof -
  let ?a = "sg_sdu s" and ?x = "sdu_of e s"
  have s: "?a < am_heap_next e" "\<not> sh_freed ?x" using r by (auto simp: refs_ok_def am_seg_ok_def)
  have x: "sdu_ok ?x (add_mset s (of_sdu ?a M))" using r s by (auto simp: refs_ok_def sdu_of_def)
  have s1: "1 \<le> sg_size s" using r by (auto simp: refs_ok_def am_seg_ok_def)
  have freed: "freed \<longleftrightarrow> sh_free_count ?x + 1 = sh_ref_count ?x"
    using f by (auto simp: nr_rlc_free_sdu_segment_def Let_def sdu_of_def split: if_splits)
  have sz: "int (size (of_sdu ?a M)) = sh_ref_count ?x - (sh_free_count ?x + 1)" using x by (simp add: sdu_ok_def)
  have "of_sdu ?a M = {#} \<longleftrightarrow> int (size (of_sdu ?a M)) = 0" by simp
  then show fr: "freed \<longleftrightarrow> of_sdu (sg_sdu s) M = {#}" unfolding sz freed by linarith
  define g where "g = (\<lambda>x :: nr_rlc_sdu_t. x\<lparr>sh_free_count := sh_free_count x + 1, sh_freed := freed \<or> sh_freed x\<rparr>)"
  have e': "e' = update_sdu e s g"
    using f s(2) by (cases freed) (auto simp: nr_rlc_free_sdu_segment_def Let_def sdu_of_def update_sdu_def g_def split: if_splits)
  have seg: "am_seg_ok e' t" if "t \<in># M" for t
  proof -
    have "am_seg_ok e t" using that r by (auto simp: refs_ok_def)
    moreover have "freed \<Longrightarrow> sg_sdu t \<noteq> ?a" using that fr of_sdu_empty by blast
    ultimately show ?thesis by (auto simp: am_seg_ok_def e' sdu_of_def g_def)
  qed
  have sdu: "sdu_ok (am_heap e' a) (of_sdu a M)" if "a < am_heap_next e" "\<not> sh_freed (am_heap e' a)" for a
  proof (cases "a = ?a")
    case True
    then have "\<not> freed" using that(2) by (simp add: e' g_def)
    then show ?thesis using x s1 True fr by (auto simp: sdu_ok_def e' g_def sdu_of_def)
  next
    case False
    then have "sdu_ok (am_heap e a) (of_sdu a (add_mset s M))" using that r by (auto simp: refs_ok_def e')
    then show ?thesis using False by (simp add: e' split: if_splits)
  qed
  have "live_bytes e' = live_bytes e - (if freed then int (length (sh_data ?x)) else 0)"
    using live_bytes_update [OF s(1), of g] s(2) by (simp add: e' g_def sdu_bytes_def)
  moreover have "am_tx_size e = live_bytes e" using r by (simp add: refs_ok_def)
  moreover have "am_heap_next e' = am_heap_next e" by (simp add: e')
  ultimately show "refs_ok (e'\<lparr>am_tx_size := am_tx_size e - (if freed then int (length (sh_data (sdu_of e s))) else 0)\<rparr>) M"
    using seg sdu unfolding refs_ok_def by (auto simp: am_seg_ok_def live_bytes_def sdu_of_def)
qed

lemma ack_segment_frame:
  "am_bstatus_tx (ack_segment e s) = am_bstatus_tx e" "am_bstatus_retx (ack_segment e s) = am_bstatus_retx e"
  "am_sn_field_length (ack_segment e s) = am_sn_field_length e" "am_heap_next (ack_segment e s) = am_heap_next e"
  "am_tx_list (ack_segment e s) = am_tx_list e"
  by (simp_all add: ack_segment_def nr_rlc_free_sdu_segment_def Let_def update_sdu_def)

lemma ack_segment_refs: "refs_ok e (add_mset s M) \<Longrightarrow> refs_ok (ack_segment e s) M"
proof -
  assume r: "refs_ok e (add_mset s M)"
  obtain freed e' where f: "nr_rlc_free_sdu_segment e s = (freed, e')" by force
  have tx: "am_tx_size e' = am_tx_size e"
    using f by (auto simp: nr_rlc_free_sdu_segment_def Let_def update_sdu_def split: if_splits)
  let ?n = "int (length (sh_data (sdu_of e s)))"
  have "refs_ok (ack_segment e s) M = refs_ok (e'\<lparr>am_tx_size := am_tx_size e - (if freed then ?n else 0)\<rparr>) M"
    by (rule refs_ok_cong) (simp_all add: ack_segment_def f Let_def tx)
  then show ?thesis using free_segment(1) [OF r f] by simp
qed

section \<open>Status processing\<close>

lemma ack_wait_acct:
  assumes "am_acct e T (W @ s # W') R L" shows "am_acct (ack_segment e s) T (W @ W') R L"
proof -
  have "refs_ok e (add_mset s (mset T + mset (W @ W') + mset R + mset L))"
    using assms by (simp add: am_acct_def ac_simps)
  from ack_segment_refs [OF this] assms show ?thesis
    using pdu_bytes_cong [OF ack_segment_frame(3), of e s] by (simp add: am_acct_def ack_segment_frame)
qed

lemma ack_retx_acct:
  assumes "am_acct e T W (R @ s # R') L" shows "am_acct (ack_retransmit_segment e s) T W (R @ R') L"
proof -
  let ?e = "e\<lparr>am_bstatus_retx := am_bstatus_retx e - (am_compute_pdu_header_size e s + sg_size s)\<rparr>"
  have "refs_ok ?e (add_mset s (mset T + mset W + mset (R @ R') + mset L))"
    using assms refs_ok_cong [of ?e e] by (simp add: am_acct_def ac_simps)
  from ack_segment_refs [OF this] assms show ?thesis
    using pdu_bytes_cong [OF ack_segment_frame(3), of ?e s] pdu_bytes_cong [of ?e e]
    by (simp add: am_acct_def ack_segment_frame ack_retransmit_segment_def)
qed

lemma retransmit_acct:
  assumes "am_acct e T (W @ s # W') (R @ R') L" shows "am_acct (retransmit_segment e s) T (W @ W') (R @ s # R') L"
proof -
  let ?f = "\<lambda>x. x\<lparr>sh_retx_count := sh_retx_count x + 1\<rparr>"
  have "refs_ok (retransmit_segment e s) M = refs_ok (update_sdu e s ?f) M" for M
    by (rule refs_ok_cong) (simp_all add: retransmit_segment_def Let_def)
  also have "\<dots> M = refs_ok e M" for M by (rule refs_ok_update) simp
  finally have r: "refs_ok (retransmit_segment e s) M = refs_ok e M" for M .
  have "am_sn_field_length (retransmit_segment e s) = am_sn_field_length e"
    by (simp add: retransmit_segment_def Let_def)
  from pdu_bytes_cong [OF this] assms show ?thesis
    unfolding am_acct_def r
    by (simp add: retransmit_segment_def Let_def ac_simps am_compute_pdu_header_size_def)
qed

text \<open>None of these steps moves the base of the comparison of sequence numbers.\<close>

lemma am_sn_compare_tx_frame [simp]:
  "am_sn_compare_tx (ack_segment e s) = am_sn_compare_tx e"
  "am_sn_compare_tx (ack_retransmit_segment e s) = am_sn_compare_tx e"
  "am_sn_compare_tx (retransmit_segment e s) = am_sn_compare_tx e"
  by (simp_all add: fun_eq_iff am_sn_compare_tx_def am_modulus_tx_def ack_segment_def nr_rlc_free_sdu_segment_def Let_def
      update_sdu_def ack_retransmit_segment_def retransmit_segment_def)

lemma lose_acct: "am_acct e T W (R @ R') L \<Longrightarrow> am_acct e T W R (L @ R')"
  by (simp add: am_acct_def ac_simps)

lemma classify_before_ack:
  assumes "am_sn_compare_tx e (fst nack) ack_sn < 0"
  shows "classify e ack_sn nack s \<noteq> Beyond" and "classify e ack_sn nack s \<noteq> At_ack"
  using assms by (auto simp: classify_def am_sn_compare_tx_def Let_def split: prod.splits if_splits)

lemma process_nack_acct:
  assumes "process_nack ack_sn nack e kept w new_r r = ((e', kept', w', new_r', r'), over)"
    and "am_acct e T (kept @ w) (new_r @ r) L"
  obtains L' where "am_acct e' T (kept' @ w') (new_r' @ r') (L @ L')" and "am_sn_compare_tx e' = am_sn_compare_tx e"
    and "am_sn_compare_tx e (fst nack) ack_sn < 0 \<Longrightarrow> L' = []"
proof -
  have "\<exists>L'. am_acct e' T (kept' @ w') (new_r' @ r') (L @ L') \<and> am_sn_compare_tx e' = am_sn_compare_tx e \<and>
      (am_sn_compare_tx e (fst nack) ack_sn < 0 \<longrightarrow> L' = [])"
    using assms
  proof (induction ack_sn nack e kept w new_r r rule: process_nack.induct)
    case (1 ack_sn nack e kept new_r)
    then show ?case by (intro exI [of _ "[]"]) simp
  next
    case (2 ack_sn nack e kept w ws new_r rs)
    show ?case
    proof (cases "rs \<noteq> [] \<and> \<not> wait_before e w (hd rs)")
      case True
      then have rs: "new_r @ rs = new_r @ hd rs # tl rs" by simp
      have r: "am_acct (ack_retransmit_segment e (hd rs)) T (kept @ w # ws) (new_r @ tl rs) L"
        using "2.prems"(2) unfolding rs by (rule ack_retx_acct)
      show ?thesis
        using "2.IH"(1-4) [OF True] True "2.prems" r
        by (cases "classify e ack_sn nack (hd rs)") (auto intro: exI [of _ "[]"])
    next
      case False
      have f: "am_acct (ack_segment e w) T (kept @ ws) (new_r @ rs) L"
        "am_acct (retransmit_segment e w) T (kept @ ws) (new_r @ w # rs) L"
        using "2.prems"(2) by (auto intro: ack_wait_acct retransmit_acct)
      show ?thesis
        using "2.IH"(5-8) [OF False] False "2.prems" f
        by (cases "classify e ack_sn nack w") (auto intro: exI [of _ "[]"])
    qed
  next
    case (3 ack_sn nack e kept new_r r rs)
    have f: "am_acct (ack_retransmit_segment e r) T (kept @ []) (new_r @ rs) L"
      using "3.prems"(2) by (rule ack_retx_acct)
    have g: "am_acct e T (kept @ []) new_r (L @ r # rs)" using "3.prems"(2) by (rule lose_acct)
    show ?case
      using "3.IH" "3.prems" f g classify_before_ack [of e nack ack_sn r]
      by (cases "classify e ack_sn nack r") (auto intro: exI [of _ "[]"] exI [of _ "r # rs"])
  qed
  then show thesis using that by blast
qed

text \<open>The fields that status processing may change; the lists are put in place at its end.\<close>

definition status_frame :: "nr_rlc_entity_am \<Rightarrow> nr_rlc_entity_am \<Rightarrow> bool" where
  "status_frame e e' \<longleftrightarrow>
     e' = e\<lparr>am_heap := am_heap e', am_tx_size := am_tx_size e', am_acked := am_acked e', am_stats := am_stats e',
            am_max_retx := am_max_retx e', am_bstatus_retx := am_bstatus_retx e',
            am_t_poll_retransmit_start := am_t_poll_retransmit_start e'\<rparr>"

lemma status_frame_refl: "status_frame e e"
  by (simp add: status_frame_def)

lemma status_frame_trans: "status_frame e e' \<Longrightarrow> status_frame e' e'' \<Longrightarrow> status_frame e e''"
  unfolding status_frame_def by (erule ssubst)+ simp

lemma status_frame_steps:
  "status_frame e (ack_segment e s)" "status_frame e (ack_retransmit_segment e s)" "status_frame e (retransmit_segment e s)"
  "status_frame e (stop_poll_timer e c)"
  by (simp_all add: status_frame_def ack_segment_def nr_rlc_free_sdu_segment_def Let_def update_sdu_def
      ack_retransmit_segment_def retransmit_segment_def stop_poll_timer_def)

lemma status_frame_fields:
  assumes "status_frame e e'"
  shows "am_sn_modulus e' = am_sn_modulus e" and "am_sn_compare_tx e' = am_sn_compare_tx e"
    and "expand_nack e' = expand_nack e" and "am_tx_list e' = am_tx_list e"
    and "am_poll_sn e' = am_poll_sn e"
proof -
  note e' = assms [unfolded status_frame_def]
  show f: "am_sn_modulus e' = am_sn_modulus e" "am_tx_list e' = am_tx_list e" "am_poll_sn e' = am_poll_sn e"
    using arg_cong [OF e', of am_sn_modulus] arg_cong [OF e', of am_tx_list] arg_cong [OF e', of am_poll_sn] by simp_all
  have "am_tx_next_ack e' = am_tx_next_ack e" using arg_cong [OF e', of am_tx_next_ack] by simp
  then show "am_sn_compare_tx e' = am_sn_compare_tx e" "expand_nack e' = expand_nack e"
    using f by (simp_all add: fun_eq_iff am_sn_compare_tx_def am_modulus_tx_def expand_nack_def Let_def)
qed

lemmas status_frame_dest = status_frame_steps [THEN status_frame_trans]

lemma process_nack_frame: "status_frame e (fst (fst (process_nack ack_sn nack e kept w new_r r)))"
proof (induction ack_sn nack e kept w new_r r rule: process_nack.induct)
  case (2 ack_sn nack e kept w ws new_r rs)
  then show ?case
    by (cases "rs \<noteq> [] \<and> \<not> wait_before e w (hd rs)"; cases "classify e ack_sn nack (hd rs)"; cases "classify e ack_sn nack w")
      (auto intro: status_frame_refl dest: status_frame_dest)
next
  case (3 ack_sn nack e kept new_r r rs)
  then show ?case by (cases "classify e ack_sn nack r") (auto intro: status_frame_refl dest: status_frame_dest)
qed (simp add: status_frame_refl)

text \<open>A status whose NACKs all are before its ACK, as a receiver that follows TS 38.322 sends it.\<close>

definition strict_status :: "nr_rlc_entity_am \<Rightarrow> int \<Rightarrow> nack list \<Rightarrow> bool" where
  "strict_status e ack_sn nacks \<longleftrightarrow>
     list_all (\<lambda>nack. list_all (\<lambda>n. am_sn_compare_tx e (fst n) ack_sn < 0) (expand_nack e nack)) nacks"

lemma process_range_acct:
  assumes "process_range ack_sn ns (e, kept, w, new_r, r) = (e', kept', w', new_r', r')"
    and "am_acct e T (kept @ w) (new_r @ r) L"
  obtains L' where "am_acct e' T (kept' @ w') (new_r' @ r') (L @ L')" and "status_frame e e'"
    and "list_all (\<lambda>n. am_sn_compare_tx e (fst n) ack_sn < 0) ns \<Longrightarrow> L' = []"
proof -
  have "\<exists>L'. am_acct e' T (kept' @ w') (new_r' @ r') (L @ L') \<and> status_frame e e' \<and>
      (list_all (\<lambda>n. am_sn_compare_tx e (fst n) ack_sn < 0) ns \<longrightarrow> L' = [])"
    using assms
  proof (induction ns arbitrary: e kept w new_r r L)
    case Nil
    then show ?case by (intro exI [of _ "[]"]) (simp add: status_frame_refl)
  next
    case (Cons n ns)
    obtain e1 k1 w1 n1 r1 over where p: "process_nack ack_sn n e kept w new_r r = ((e1, k1, w1, n1, r1), over)"
      by (metis prod.exhaust)
    obtain L1 where l1: "am_acct e1 T (k1 @ w1) (n1 @ r1) (L @ L1)" "am_sn_compare_tx e (fst n) ack_sn < 0 \<Longrightarrow> L1 = []"
      using process_nack_acct [OF p Cons.prems(2)] by blast
    have f1: "status_frame e e1" using process_nack_frame [of e ack_sn n kept w new_r r] by (simp add: p)
    show ?case
    proof (cases over)
      case True
      then show ?thesis using Cons.prems(1) p l1 f1 by (intro exI [of _ L1]) simp
    next
      case False
      then have "process_range ack_sn ns (e1, k1, w1, n1, r1) = (e', kept', w', new_r', r')" using Cons.prems(1) p by simp
      from Cons.IH [OF this l1(1)] obtain L2 where "am_acct e' T (kept' @ w') (new_r' @ r') ((L @ L1) @ L2)"
        "status_frame e1 e'" "list_all (\<lambda>n. am_sn_compare_tx e1 (fst n) ack_sn < 0) ns \<longrightarrow> L2 = []" by blast
      then show ?thesis using status_frame_trans [OF f1] status_frame_fields(2) [OF f1] l1(2) by (intro exI [of _ "L1 @ L2"]) simp
    qed
  qed
  then show thesis using that by blast
qed

lemma stop_poll_timer_acct [simp]: "am_acct (stop_poll_timer e c) T W R L = am_acct e T W R L"
  by (rule am_acct_cong) (simp_all add: stop_poll_timer_def)

lemma process_nacks_acct:
  assumes "process_nacks ack_sn nacks (e, kept, w, new_r, r) = (e', kept', w', new_r', r')"
    and "am_acct e T (kept @ w) (new_r @ r) L"
  obtains L' where "am_acct e' T (kept' @ w') (new_r' @ r') (L @ L')" and "status_frame e e'"
    and "strict_status e ack_sn nacks \<Longrightarrow> L' = []"
proof -
  have "\<exists>L'. am_acct e' T (kept' @ w') (new_r' @ r') (L @ L') \<and> status_frame e e' \<and>
      (strict_status e ack_sn nacks \<longrightarrow> L' = [])"
    using assms
  proof (induction nacks arbitrary: e kept w new_r r L)
    case Nil
    then show ?case by (intro exI [of _ "[]"]) (simp add: status_frame_refl)
  next
    case (Cons n nacks)
    obtain nack_sn a b rng where n: "n = (nack_sn, a, b, rng)" by (metis prod.exhaust)
    obtain e1 k1 w1 n1 r1 where p: "process_range ack_sn (expand_nack e n) (e, kept, w, new_r, r) = (e1, k1, w1, n1, r1)"
      by (metis prod.exhaust)
    obtain L1 where l1: "am_acct e1 T (k1 @ w1) (n1 @ r1) (L @ L1)" "status_frame e e1"
      "list_all (\<lambda>n. am_sn_compare_tx e (fst n) ack_sn < 0) (expand_nack e n) \<Longrightarrow> L1 = []"
      using process_range_acct [OF p Cons.prems(2)] by blast
    define c where "c = (am_sn_compare_tx e1 nack_sn (am_poll_sn e1) \<le> 0 \<and>
                am_sn_compare_tx e1 (am_poll_sn e1) (c_mod (nack_sn + rng) (am_sn_modulus e1)) < 0)"
    have "process_nacks ack_sn nacks (stop_poll_timer e1 c, k1, w1, n1, r1) = (e', kept', w', new_r', r')"
      using Cons.prems(1) p by (simp add: n c_def)
    moreover have "am_acct (stop_poll_timer e1 c) T (k1 @ w1) (n1 @ r1) (L @ L1)" using l1(1) by simp
    ultimately obtain L2 where l2: "am_acct e' T (kept' @ w') (new_r' @ r') ((L @ L1) @ L2)"
        "status_frame (stop_poll_timer e1 c) e'" "strict_status (stop_poll_timer e1 c) ack_sn nacks \<longrightarrow> L2 = []"
      using Cons.IH by blast
    have f: "status_frame e (stop_poll_timer e1 c)" by (rule status_frame_trans [OF l1(2) status_frame_steps(4)])
    have "strict_status e ack_sn (n # nacks) \<longrightarrow> L1 @ L2 = []"
      using l1(3) l2(3) by (simp add: strict_status_def status_frame_fields(2,3) [OF f])
    then show ?case using l2(1) status_frame_trans [OF f l2(2)] by (intro exI [of _ "L1 @ L2"]) simp
  qed
  then show thesis using that by blast
qed

lemma ack_wait_list_acct:
  "ack_wait_list ack_sn e w = (e', w') \<Longrightarrow> am_acct e T (kept @ w) R L \<Longrightarrow> am_acct e' T (kept @ w') R L \<and> status_frame e e'"
proof (induction w arbitrary: e)
  case (Cons s l)
  then show ?case
    using Cons.IH [of "ack_segment e s"] ack_wait_acct [OF Cons.prems(2)]
    by (auto intro: status_frame_refl dest: status_frame_dest split: if_splits)
qed (simp add: status_frame_refl)

lemma ack_retransmit_list_acct:
  "ack_retransmit_list ack_sn e r = (e', r') \<Longrightarrow> am_acct e T W (new_r @ r) L \<Longrightarrow>
     am_acct e' T W (new_r @ r') L \<and> status_frame e e'"
proof (induction r arbitrary: e)
  case (Cons s l)
  then show ?case
    using Cons.IH [of "ack_retransmit_segment e s"] ack_retx_acct [OF Cons.prems(2)]
    by (auto intro: status_frame_refl dest: status_frame_dest split: if_splits)
qed (simp add: status_frame_refl)

text \<open>The whole of status processing.\<close>

lemma process_status_acct:
  assumes "am_tx_ok e L"
  obtains L' d w r where "am_tx_ok (process_status e ack_sn nacks) (L @ L')" and "strict_status e ack_sn nacks \<longrightarrow> L' = []"
    and "status_frame e d" and "process_status e ack_sn nacks = update_tx_next_ack (d\<lparr>am_wait_list := w, am_retransmit_list := r\<rparr>) ack_sn"
proof -
  define e0 where "e0 = stop_poll_timer e (am_sn_compare_tx e (am_poll_sn e) ack_sn < 0)"
  have f0: "status_frame e e0" unfolding e0_def by (rule status_frame_steps)
  obtain e1 kept w new_r r where p: "process_nacks ack_sn nacks (e0, [], am_wait_list e0, [], am_retransmit_list e0) = (e1, kept, w, new_r, r)"
    by (metis prod.exhaust)
  obtain e2 w2 where a: "ack_wait_list ack_sn e1 w = (e2, w2)" by force
  obtain e3 r3 where b: "ack_retransmit_list ack_sn e2 r = (e3, r3)" by force
  have lists: "am_wait_list e0 = am_wait_list e" "am_retransmit_list e0 = am_retransmit_list e" "am_tx_list e0 = am_tx_list e"
    by (simp_all add: e0_def stop_poll_timer_def)
  have acct0: "am_acct e0 (am_tx_list e) ([] @ am_wait_list e0) ([] @ am_retransmit_list e0) L"
    using assms lists by (simp add: am_tx_ok_def e0_def)
  obtain L' where l: "am_acct e1 (am_tx_list e) (kept @ w) (new_r @ r) (L @ L')" "status_frame e0 e1"
    "strict_status e0 ack_sn nacks \<Longrightarrow> L' = []"
    using process_nacks_acct [OF p acct0] by blast
  have a2: "am_acct e2 (am_tx_list e) (kept @ w2) (new_r @ r) (L @ L')" "status_frame e1 e2"
    using ack_wait_list_acct [OF a l(1)] by auto
  have a3: "am_acct e3 (am_tx_list e) (kept @ w2) (new_r @ r3) (L @ L')" "status_frame e2 e3"
    using ack_retransmit_list_acct [OF b a2(1)] by auto
  have "am_tx_list e3 = am_tx_list e"
    using status_frame_fields(4) a3(2) a2(2) l(2) f0 by metis
  moreover have res: "process_status e ack_sn nacks =
      update_tx_next_ack (e3\<lparr>am_wait_list := kept @ w2, am_retransmit_list := new_r @ r3\<rparr>) ack_sn"
    unfolding process_status_def Let_def e0_def [symmetric] using p a b lists by simp
  ultimately have "am_tx_ok (process_status e ack_sn nacks) (L @ L')"
    using a3(1) am_acct_cong [of "process_status e ack_sn nacks" e3]
    by (simp add: am_tx_ok_def update_tx_next_ack_def Let_def)
  moreover have "strict_status e ack_sn nacks \<longrightarrow> L' = []"
    using l(3) by (simp add: strict_status_def status_frame_fields(2,3) [OF f0])
  moreover have "status_frame e e3"
    by (rule status_frame_trans [OF f0 status_frame_trans [OF l(2) status_frame_trans [OF a2(2) a3(2)]]])
  ultimately show thesis using res by (rule that)
qed

end
