(* ===== verification/Rlc_Am_Tx.thy ===== *)
theory Rlc_Am_Tx
  imports Rlc_Am_Books
begin

text \<open>
  The operations of the acknowledged mode transmitter keep the books (\<open>am_tx_ok\<close>), and generation of
  data PDUs succeeds and fits the buffer.
\<close>

section \<open>Transmission\<close>

text \<open>Segmentation: one more reference for the new segment.\<close>

lemma resegment_refs:
  assumes r: "refs_ok e (add_mset s M)" and g: "am_resegment e s room = (e', s', nxt)"
    and room: "am_compute_pdu_header_size e s + 1 \<le> room" "room < am_compute_pdu_header_size e s + sg_size s"
  shows "refs_ok e' (add_mset s' (add_mset nxt M))"
proof -
  let ?a = "sg_sdu s" and ?f = "\<lambda>x. x\<lparr>sh_ref_count := sh_ref_count x + 1\<rparr>"
  define over where "over = am_compute_pdu_header_size e s + sg_size s - room"
  have e': "e' = update_sdu e s ?f" and s': "s' = s\<lparr>sg_size := sg_size s - over, sg_is_last := False\<rparr>"
    and nxt: "nxt = s\<lparr>sg_size := over, sg_so := sg_so s + (sg_size s - over), sg_is_first := False\<rparr>"
    using g by (simp_all add: am_resegment_def Let_def over_def)
  have over: "1 \<le> over" "over < sg_size s" using room by (auto simp: over_def)
  have s: "?a < am_heap_next e" "\<not> sh_freed (sdu_of e s)" "am_seg_ok e s" using r by (auto simp: refs_ok_def am_seg_ok_def)
  have seg: "am_seg_ok e' t" if "am_seg_ok e t" for t
    using that by (cases "sg_sdu t = ?a") (simp_all add: am_seg_ok_def e' sdu_of_def)
  have "am_seg_ok e' s'" "am_seg_ok e' nxt"
    using s(3) over by (auto simp: am_seg_ok_def s' nxt e' sdu_of_def)
  moreover have "sdu_ok (am_heap e' a) (of_sdu a (add_mset s' (add_mset nxt M)))"
    if "a < am_heap_next e" "\<not> sh_freed (am_heap e' a)" for a
  proof -
    have "sdu_ok (am_heap e a) (of_sdu a (add_mset s M))"
      using that r by (cases "a = ?a") (auto simp: refs_ok_def e')
    then show ?thesis by (auto simp: sdu_ok_def e' s' nxt)
  qed
  moreover have "live_bytes e' = live_bytes e"
    using live_bytes_update [OF s(1), of ?f] by (simp add: e' sdu_bytes_def)
  ultimately show ?thesis using r seg unfolding refs_ok_def by (auto simp: e' simp del: of_sdu_simps)
qed

lemma list_add_mset [simp]: "mset (nr_rlc_tx_sdu_segment_list_add e l s) = add_mset s (mset l)"
  by (induction l) auto

lemma pdu_bytes_list_add [simp]: "pdu_bytes e (nr_rlc_tx_sdu_segment_list_add e' l s) = pdu_bytes e (s # l)"
  by (induction l) auto

lemma am_acct_wait: "mset W = mset W' \<Longrightarrow> am_acct e T W R L = am_acct e T W' R L"
  by (simp add: am_acct_def)

lemma put_wait_acct:
  assumes "am_acct e T (s # am_wait_list e) R L"
  shows "am_acct (am_put_wait e s) T (am_wait_list (am_put_wait e s)) R L"
proof -
  have "am_acct (am_put_wait e s) T W R L = am_acct e T W R L" for W
    by (rule am_acct_cong) (simp_all add: am_put_wait_def Let_def)
  moreover have "mset (am_wait_list (am_put_wait e s)) = mset (s # am_wait_list e)"
    by (simp add: am_put_wait_def Let_def)
  ultimately show ?thesis using assms am_acct_wait by blast
qed

text \<open>The segment that is sent: it fits the buffer and is counted with the wait list.\<close>

definition fits :: "nr_rlc_entity_am \<Rightarrow> nr_rlc_sdu_segment_t \<Rightarrow> int \<Rightarrow> bool" where
  "fits e s room \<longleftrightarrow> am_seg_ok e s \<and> am_compute_pdu_header_size e s + sg_size s \<le> room"

lemma take_retx_acct:
  assumes "am_acct e T W (s # rest) L" and "am_compute_pdu_header_size e s + 1 \<le> room"
    and "am_take_retx e s rest room = (e', s')"
  shows "am_acct e' T (s' # W) (am_retransmit_list e') L" and "fits e' s' room"
proof -
  let ?n = "am_compute_pdu_header_size e s + sg_size s"
  let ?e = "e\<lparr>am_retransmit_list := rest, am_bstatus_retx := am_bstatus_retx e - ?n\<rparr>"
  have h: "am_compute_pdu_header_size ?e = am_compute_pdu_header_size e" by (simp add: fun_eq_iff am_compute_pdu_header_size_def)
  let ?M = "mset T + mset W + mset rest + mset L"
  have r: "refs_ok ?e (add_mset s ?M)" using assms(1) refs_ok_cong [of ?e e] by (simp add: am_acct_def ac_simps)
  show "am_acct e' T (s' # W) (am_retransmit_list e') L" "fits e' s' room"
  proof (atomize (full), cases "?n > room")
    case False
    then have e': "e' = ?e" "s' = s" using assms(3) by (auto simp: am_take_retx_def Let_def)
    have "am_seg_ok ?e s" using r by (simp add: refs_ok_def)
    then show "am_acct e' T (s' # W) (am_retransmit_list e') L \<and> fits e' s' room"
      using r assms(1) False h pdu_bytes_cong [of ?e e] unfolding e' by (simp add: am_acct_def fits_def ac_simps)
  next
    case True
    obtain e1 nxt where g: "am_resegment ?e s room = (e1, s', nxt)"
      and e': "e' = am_count_segmented (e1\<lparr>am_retransmit_list := nxt # rest,
                       am_bstatus_retx := am_bstatus_retx e1 + (am_compute_pdu_header_size e1 nxt + sg_size nxt)\<rparr>)"
      using assms(3) True by (auto simp: am_take_retx_def Let_def split: prod.splits)
    have "refs_ok e1 (add_mset s' (add_mset nxt ?M))" using resegment_refs [OF r g] assms(2) True h by simp
    then have r': "refs_ok e' (add_mset s' (add_mset nxt ?M))"
      using refs_ok_cong [of e' e1] by (simp add: e' am_count_segmented_def)
    have f: "am_sn_field_length e' = am_sn_field_length e" "am_bstatus_tx e' = am_bstatus_tx e"
      "am_bstatus_retx e' = am_bstatus_retx e - ?n + (am_compute_pdu_header_size e nxt + sg_size nxt)"
      "am_compute_pdu_header_size e' s' + sg_size s' = room"
      using g by (simp_all add: e' am_count_segmented_def am_resegment_def Let_def am_compute_pdu_header_size_def) auto
    have "am_retransmit_list e' = nxt # rest" by (simp add: e' am_count_segmented_def)
    moreover have "am_seg_ok e' s'" using r' by (simp add: refs_ok_def)
    ultimately show "am_acct e' T (s' # W) (am_retransmit_list e') L \<and> fits e' s' room"
      using r' assms(1) f pdu_bytes_cong [OF f(1)] by (simp add: am_acct_def fits_def ac_simps)
  qed
qed

lemma assign_sn_refs: "refs_ok (am_assign_sn e s) M = refs_ok e M"
proof -
  have "refs_ok ((update_sdu e s f)\<lparr>am_tx_next := x\<rparr>) M = refs_ok (update_sdu e s f) M" for f x
    by (rule refs_ok_cong) simp_all
  then show ?thesis by (simp add: am_assign_sn_def refs_ok_update)
qed

lemma assign_sn_frame [simp]:
  "am_sn_field_length (am_assign_sn e s) = am_sn_field_length e" "am_bstatus_tx (am_assign_sn e s) = am_bstatus_tx e"
  "am_bstatus_retx (am_assign_sn e s) = am_bstatus_retx e" "am_tx_list (am_assign_sn e s) = am_tx_list e"
  "am_wait_list (am_assign_sn e s) = am_wait_list e" "am_retransmit_list (am_assign_sn e s) = am_retransmit_list e"
  by (simp_all add: am_assign_sn_def)

lemma take_tx_acct:
  assumes "am_acct e (s # rest) W R L" and "am_compute_pdu_header_size e s + 1 \<le> room"
    and "am_take_tx e s rest room = (e', s')"
  shows "am_acct e' (am_tx_list e') (s' # W) R L" and "fits e' s' room"
proof -
  let ?n = "am_compute_pdu_header_size e s + sg_size s"
  let ?d = "e\<lparr>am_tx_list := rest, am_bstatus_tx := am_bstatus_tx e - ?n\<rparr>"
  let ?e = "am_assign_sn ?d s"
  have h: "am_compute_pdu_header_size ?e = am_compute_pdu_header_size e" by (simp add: fun_eq_iff am_compute_pdu_header_size_def)
  let ?M = "mset rest + mset W + mset R + mset L"
  have r: "refs_ok ?e (add_mset s ?M)"
    using assms(1) refs_ok_cong [of ?d e] by (simp add: am_acct_def ac_simps assign_sn_refs)
  show "am_acct e' (am_tx_list e') (s' # W) R L" "fits e' s' room"
  proof (atomize (full), cases "?n > room")
    case False
    then have e': "e' = ?e" "s' = s" using assms(3) by (auto simp: am_take_tx_def Let_def)
    have "am_seg_ok ?e s" using r by (simp add: refs_ok_def)
    then show "am_acct e' (am_tx_list e') (s' # W) R L \<and> fits e' s' room"
      using r assms(1) False h pdu_bytes_cong [of ?e e] unfolding e' by (simp add: am_acct_def fits_def ac_simps)
  next
    case True
    obtain e1 nxt where g: "am_resegment ?e s room = (e1, s', nxt)"
      and e': "e' = am_count_segmented (e1\<lparr>am_tx_list := nxt # rest,
                       am_bstatus_tx := am_bstatus_tx e1 + (am_compute_pdu_header_size e1 nxt + sg_size nxt)\<rparr>)"
      using assms(3) True by (auto simp: am_take_tx_def Let_def split: prod.splits)
    have "refs_ok e1 (add_mset s' (add_mset nxt ?M))" using resegment_refs [OF r g] assms(2) True h by simp
    then have r': "refs_ok e' (add_mset s' (add_mset nxt ?M))"
      using refs_ok_cong [of e' e1] by (simp add: e' am_count_segmented_def)
    have f: "am_sn_field_length e' = am_sn_field_length e" "am_bstatus_retx e' = am_bstatus_retx e"
      "am_bstatus_tx e' = am_bstatus_tx e - ?n + (am_compute_pdu_header_size e nxt + sg_size nxt)"
      "am_compute_pdu_header_size e' s' + sg_size s' = room"
      using g by (simp_all add: e' am_count_segmented_def am_resegment_def Let_def am_compute_pdu_header_size_def) auto
    have "am_tx_list e' = nxt # rest" by (simp add: e' am_count_segmented_def)
    moreover have "am_seg_ok e' s'" using r' by (simp add: refs_ok_def)
    ultimately show "am_acct e' (am_tx_list e') (s' # W) R L \<and> fits e' s' room"
      using r' assms(1) f pdu_bytes_cong [OF f(1)] by (simp add: am_acct_def fits_def ac_simps)
  qed
qed

text \<open>Serialization of a segment that fits: the bytes of the header and of the segment.\<close>

lemma serialize_fits:
  assumes "fits e s (int (length buffer))" and "am_sn_field_length e = 12 \<or> am_sn_field_length e = 18"
  obtains pdu where "am_serialize_sdu e s buffer p = Some (am_polled e p, pdu)" and "pdu \<noteq> []" and "length pdu \<le> length buffer"
    and "int (length pdu) = am_compute_pdu_header_size e s + sg_size s"
proof -
  have s: "0 \<le> sg_so s" "1 \<le> sg_size s" "sg_so s + sg_size s \<le> int (length (sh_data (sdu_of e s)))"
    "am_compute_pdu_header_size e s + sg_size s \<le> int (length buffer)"
    using assms(1) by (auto simp: fits_def am_seg_ok_def)
  then have "am_compute_pdu_header_size e s \<le> int (length buffer)" by simp
  from am_serialize_bits [OF assms(2) this, of p] obtain hdr where
    h: "am_serialize_sdu e s buffer p = Some (am_polled e p, hdr @ am_segment_bytes e s)"
    "int (length hdr) = am_compute_pdu_header_size e s" by metis
  have "int (length (am_segment_bytes e s)) = sg_size s" using s by (simp add: am_segment_bytes_def min_def) linarith
  moreover from this s(2) have "am_segment_bytes e s \<noteq> []" by auto
  ultimately show thesis using that [OF h(1)] h(2) s by simp
qed

text \<open>Steps that leave the lists and all counted fields alone.\<close>

definition same_tx :: "nr_rlc_entity_am \<Rightarrow> nr_rlc_entity_am \<Rightarrow> bool" where
  "same_tx e e' \<longleftrightarrow> am_heap e' = am_heap e \<and> am_heap_next e' = am_heap_next e \<and> am_tx_size e' = am_tx_size e \<and>
     am_bstatus_tx e' = am_bstatus_tx e \<and> am_bstatus_retx e' = am_bstatus_retx e \<and>
     am_sn_field_length e' = am_sn_field_length e \<and> am_tx_list e' = am_tx_list e \<and> am_wait_list e' = am_wait_list e \<and>
     am_retransmit_list e' = am_retransmit_list e"

lemma same_tx_ok: "same_tx e e' \<Longrightarrow> am_tx_ok e' L = am_tx_ok e L"
  using am_acct_cong [of e' e] by (simp add: same_tx_def am_tx_ok_def)

lemma same_tx_fits: "same_tx e e' \<Longrightarrow> fits e' s n = fits e s n"
  by (simp add: same_tx_def fits_def am_seg_ok_def sdu_of_def am_compute_pdu_header_size_def)

lemma same_tx_trans: "same_tx e e' \<Longrightarrow> same_tx e' e'' \<Longrightarrow> same_tx e e''"
  by (simp add: same_tx_def)

lemma same_tx_steps:
  "same_tx e (am_polled e p)" "same_tx e (fst (take_force_poll e p))" "same_tx e (am_count_tx e n)"
  "same_tx e (am_count_retx e n)" "same_tx e (fst (am_count_poll e s))" "same_tx e (count_status_pdu e n)"
  by (simp_all add: same_tx_def am_polled_def include_poll_def take_force_poll_def am_count_tx_def am_count_retx_def
      am_count_poll_def count_status_pdu_def Let_def)

text \<open>Sending a segment: the end of both \<^verbatim>\<open>generate_retx_pdu\<close> and \<^verbatim>\<open>generate_tx_pdu\<close>.\<close>

lemma am_send_segment:
  assumes "am_acct e (am_tx_list e) (s # am_wait_list e) (am_retransmit_list e) L" and "fits e s (int (length buffer))"
    and "am_sn_field_length e = 12 \<or> am_sn_field_length e = 18" and "same_tx (am_put_wait e s) e'"
  obtains pdu where "am_serialize_sdu e' s buffer p = Some (am_polled e' p, pdu)" and "am_tx_ok (am_polled e' p) L"
    and "pdu \<noteq> []" and "length pdu \<le> length buffer"
proof -
  have l: "am_tx_list (am_put_wait e s) = am_tx_list e" "am_retransmit_list (am_put_wait e s) = am_retransmit_list e"
    by (simp_all add: am_put_wait_def Let_def)
  have "am_tx_ok (am_put_wait e s) L" using put_wait_acct [OF assms(1)] by (simp add: am_tx_ok_def l)
  then have ok: "am_tx_ok (am_polled e' p) L"
    using same_tx_ok [OF same_tx_trans [OF assms(4) same_tx_steps(1)]] by blast
  have "fits (am_put_wait e s) s (int (length buffer)) = fits e s (int (length buffer))"
    by (simp add: fits_def am_put_wait_def Let_def am_seg_ok_def sdu_of_def am_compute_pdu_header_size_def)
  then have f: "fits e' s (int (length buffer))"
    using same_tx_fits [OF assms(4)] assms(2) by simp
  have "am_sn_field_length e' = 12 \<or> am_sn_field_length e' = 18"
    using assms(3,4) by (simp add: same_tx_def am_put_wait_def Let_def)
  from serialize_fits [OF f this, of p] ok show thesis using that by blast
qed

text \<open>Generation of data PDUs succeeds, fits the buffer and keeps the books.\<close>

definition sn_len_ok :: "nr_rlc_entity_am \<Rightarrow> bool" where
  "sn_len_ok e \<longleftrightarrow> am_sn_field_length e = 12 \<or> am_sn_field_length e = 18"

lemma take_frame:
  "am_take_retx e s rest room = (e', s') \<Longrightarrow>
     am_tx_list e' = am_tx_list e \<and> am_wait_list e' = am_wait_list e \<and> am_sn_field_length e' = am_sn_field_length e"
  "am_take_tx e s rest room = (e', s') \<Longrightarrow>
     am_retransmit_list e' = am_retransmit_list e \<and> am_wait_list e' = am_wait_list e \<and> am_sn_field_length e' = am_sn_field_length e"
  by (auto simp: am_take_retx_def am_take_tx_def am_resegment_def am_count_segmented_def Let_def split: if_splits)

lemma generate_retx_acct:
  assumes "am_tx_ok e L" and "sn_len_ok e" and "am_retransmit_list e \<noteq> []"
  obtains e' pdu where "generate_retx_pdu e buffer = Some (e', pdu)" and "am_tx_ok e' L" and "length pdu \<le> length buffer"
    and "pdu \<noteq> [] \<or> e' = e"
proof -
  obtain s rest where l: "am_retransmit_list e = s # rest" using assms(3) by (cases "am_retransmit_list e") auto
  show thesis
  proof (cases "am_compute_pdu_header_size e s + 1 > int (length buffer)")
    case True
    then have "generate_retx_pdu e buffer = Some (e, [])" using l by (simp add: generate_retx_pdu_def)
    then show thesis by (rule that) (use assms(1) in simp_all)
  next
    case False
    obtain e1 s1 where t: "am_take_retx e s rest (int (length buffer)) = (e1, s1)" by force
    obtain e2 p where f: "take_force_poll (am_put_wait e1 s1) (check_poll_after_pdu_assembly (am_put_wait e1 s1)) = (e2, p)" by force
    have acct: "am_acct e (am_tx_list e) (am_wait_list e) (s # rest) L" using assms(1) l by (simp add: am_tx_ok_def)
    note fr = take_frame(1) [OF t]
    have a: "am_acct e1 (am_tx_list e1) (s1 # am_wait_list e1) (am_retransmit_list e1) L" "fits e1 s1 (int (length buffer))"
      using take_retx_acct [OF acct _ t] False fr by auto
    have len: "am_sn_field_length e1 = 12 \<or> am_sn_field_length e1 = 18" using assms(2) fr by (simp add: sn_len_ok_def)
    have "same_tx (am_put_wait e1 s1) e2"
      using same_tx_steps(2) [of "am_put_wait e1 s1" "check_poll_after_pdu_assembly (am_put_wait e1 s1)"] f by simp
    from am_send_segment [OF a len this, of p] obtain pdu where
      g: "am_serialize_sdu e2 s1 buffer p = Some (am_polled e2 p, pdu)" "am_tx_ok (am_polled e2 p) L" "pdu \<noteq> []"
      "length pdu \<le> length buffer" by blast
    have "generate_retx_pdu e buffer = Some (am_count_retx (am_polled e2 p) (length pdu), pdu)"
      using False by (simp add: generate_retx_pdu_def l t f g(1))
    then show thesis by (rule that) (use g(2-4) same_tx_ok [OF same_tx_steps(4)] in simp_all)
  qed
qed

lemma generate_tx_acct:
  assumes "am_tx_ok e L" and "sn_len_ok e"
  obtains e' pdu where "generate_tx_pdu e buffer = Some (e', pdu)" and "am_tx_ok e' L" and "length pdu \<le> length buffer"
    and "pdu \<noteq> [] \<or> e' = e"
proof (cases "is_window_stalling e \<or> am_tx_list e = []")
  case True
  then show thesis using that [of e "[]"] assms(1) by (auto simp: generate_tx_pdu_def)
next
  case not: False
  then obtain s rest where l: "am_tx_list e = s # rest" by (cases "am_tx_list e") auto
  show thesis
  proof (cases "am_compute_pdu_header_size e s + 1 > int (length buffer)")
    case True
    then have "generate_tx_pdu e buffer = Some (e, [])" using l not by (simp add: generate_tx_pdu_def)
    then show thesis by (rule that) (use assms(1) in simp_all)
  next
    case False
    obtain e1 s1 where t: "am_take_tx e s rest (int (length buffer)) = (e1, s1)" by force
    obtain e2 p where c: "am_count_poll (am_put_wait e1 s1) s1 = (e2, p)" by force
    obtain e3 q where f: "take_force_poll e2 p = (e3, q)" by force
    have acct: "am_acct e (s # rest) (am_wait_list e) (am_retransmit_list e) L" using assms(1) l by (simp add: am_tx_ok_def)
    note fr = take_frame(2) [OF t]
    have a: "am_acct e1 (am_tx_list e1) (s1 # am_wait_list e1) (am_retransmit_list e1) L" "fits e1 s1 (int (length buffer))"
      using take_tx_acct [OF acct _ t] False fr by auto
    have len: "am_sn_field_length e1 = 12 \<or> am_sn_field_length e1 = 18" using assms(2) fr by (simp add: sn_len_ok_def)
    have "same_tx (am_put_wait e1 s1) e3"
      using same_tx_trans [OF same_tx_steps(5) [of "am_put_wait e1 s1" s1] same_tx_steps(2) [of _ p]] c f by simp
    from am_send_segment [OF a len this, of q] obtain pdu where
      g: "am_serialize_sdu e3 s1 buffer q = Some (am_polled e3 q, pdu)" "am_tx_ok (am_polled e3 q) L" "pdu \<noteq> []"
      "length pdu \<le> length buffer" by blast
    have "generate_tx_pdu e buffer = Some (am_count_tx (am_polled e3 q) (length pdu), pdu)"
      using False not by (simp add: generate_tx_pdu_def l t c f g(1))
    then show thesis by (rule that) (use g(2-4) same_tx_ok [OF same_tx_steps(3)] in simp_all)
  qed
qed

section \<open>SDUs, timers, discard and re-establishment\<close>

lemma new_sdu_refs:
  assumes "refs_ok e M" and "buffer \<noteq> []"
    and "am_heap d = am_heap e" "am_heap_next d = am_heap_next e" "am_tx_size d = am_tx_size e + int (length buffer)"
    and "am_new_sdu d buffer i = (e', s)"
  shows "refs_ok e' (add_mset s M)"
proof -
  define x where "x = \<lparr>sh_sn = -1, sh_upper_layer_id = i, sh_data = buffer, sh_retx_count = -1, sh_ref_count = 1,
           sh_free_count = 0, sh_freed = False\<rparr>"
  let ?a = "am_heap_next e"
  have e': "am_heap e' = (am_heap e)(?a := x)" "am_heap_next e' = Suc ?a" "am_tx_size e' = am_tx_size e + int (length buffer)"
    and s: "s = \<lparr>sg_sdu = ?a, sg_size = int (length buffer), sg_so = 0, sg_is_first = True, sg_is_last = True\<rparr>"
    using assms(3-6) by (auto simp: am_new_sdu_def x_def)
  have old: "sg_sdu t < ?a" if "t \<in># M" for t using assms(1) that by (auto simp: refs_ok_def am_seg_ok_def)
  then have none: "of_sdu ?a M = {#}" by (auto simp: of_sdu_def dest: old)
  have "am_seg_ok e' t" if "t \<in># M" for t
    using old [OF that] assms(1) that by (auto simp: refs_ok_def am_seg_ok_def e' sdu_of_def)
  moreover have "am_seg_ok e' s" using assms(2) by (simp add: am_seg_ok_def e' s sdu_of_def x_def Suc_le_eq)
  moreover have "sdu_ok (am_heap e' a) (of_sdu a (add_mset s M))" if "a < Suc ?a" "\<not> sh_freed (am_heap e' a)" for a
    using that assms(1) none by (cases "a = ?a") (auto simp: refs_ok_def e' s x_def sdu_ok_def)
  moreover have "live_bytes e' = live_bytes e + int (length buffer)"
  proof -
    have "live_bytes e' = live_bytes e + sdu_bytes x" by (simp add: live_bytes_def e')
    then show ?thesis by (simp add: sdu_bytes_def x_def)
  qed
  ultimately show ?thesis using assms(1) by (auto simp: refs_ok_def e')
qed

lemma accept_sdu_acct:
  assumes "am_tx_ok e L" and "buffer \<noteq> []"
  shows "am_tx_ok (am_accept_sdu e buffer i) L"
proof -
  define d where "d = e\<lparr>am_tx_size := am_tx_size e + int (length buffer),
    am_stats := (am_stats e)\<lparr>rxsdu_bytes := rxsdu_bytes (am_stats e) + word_of_int (int (length buffer))\<rparr>\<rparr>"
  obtain d' s where n: "am_new_sdu d buffer i = (d', s)" by force
  have ok: "am_acct e (am_tx_list e) (am_wait_list e) (am_retransmit_list e) L" using assms(1) by (simp add: am_tx_ok_def)
  define e' where "e' = am_accept_sdu e buffer i"
  have e': "e' = d'\<lparr>am_tx_list := am_tx_list d' @ [s], am_bstatus_tx := am_bstatus_tx d' + (am_compute_pdu_header_size d' s + sg_size s)\<rparr>"
    using n by (simp add: e'_def am_accept_sdu_def Let_def d_def)
  let ?M = "mset (am_tx_list e) + mset (am_wait_list e) + mset (am_retransmit_list e) + mset L"
  have "refs_ok d' (add_mset s ?M)"
    by (rule new_sdu_refs [OF _ assms(2) _ _ _ n]) (use ok in \<open>simp_all add: am_acct_def d_def\<close>)
  then have "refs_ok e' (add_mset s ?M)" using refs_ok_cong [of e' d'] by (simp add: e')
  moreover have f: "am_sn_field_length e' = am_sn_field_length e" "am_tx_list e' = am_tx_list e @ [s]"
    "am_wait_list e' = am_wait_list e" "am_retransmit_list e' = am_retransmit_list e" "am_bstatus_retx e' = am_bstatus_retx e"
    "am_bstatus_tx e' = am_bstatus_tx e + (am_compute_pdu_header_size e s + sg_size s)"
    using n by (auto simp: e' d_def am_new_sdu_def am_compute_pdu_header_size_def)
  ultimately show ?thesis using ok pdu_bytes_cong [OF f(1)]
    unfolding e'_def [symmetric] by (simp add: am_tx_ok_def am_acct_def ac_simps)
qed

lemma recv_sdu_acct:
  assumes "am_tx_ok e L" and "nr_rlc_entity_am_recv_sdu e buffer i = Some e'" and "buffer \<noteq> []"
  shows "am_tx_ok e' L"
proof -
  define d where "d = am_log_rejected (e\<lparr>am_stats := (am_stats e)\<lparr>rxsdu_pkts := rxsdu_pkts (am_stats e) + 1\<rparr>\<rparr>)"
  have "same_tx e d" by (simp add: same_tx_def d_def am_log_rejected_def)
  then have d: "am_tx_ok d L" using assms(1) same_tx_ok by blast
  have r: "same_tx d (am_reject_sdu d n)" for n by (simp add: same_tx_def am_reject_sdu_def)
  have "e' = am_reject_sdu d (int (length buffer)) \<or> e' = am_accept_sdu d buffer i"
    using assms(2) by (simp add: nr_rlc_entity_am_recv_sdu_def Let_def d_def split: if_splits)
  then show ?thesis using accept_sdu_acct [OF d assms(3)] same_tx_ok [OF r] d by metis
qed

lemma poll_retransmit_loop_acct:
  "am_acct e (am_tx_list e) l (am_retransmit_list e) L \<Longrightarrow> am_tx_ok (poll_retransmit_loop e sn l) L"
proof (induction l arbitrary: e)
  case Nil
  then show ?case using am_acct_cong [of "e\<lparr>am_wait_list := []\<rparr>" e] by (simp add: am_tx_ok_def)
next
  case (Cons s l)
  let ?e = "e\<lparr>am_bstatus_retx := am_bstatus_retx e + (am_compute_pdu_header_size e s + sg_size s),
                am_retransmit_list := nr_rlc_tx_sdu_segment_list_add e (am_retransmit_list e) s\<rparr>"
  have "am_acct ?e (am_tx_list ?e) l (am_retransmit_list ?e) L"
    using Cons.prems refs_ok_cong [of ?e e] pdu_bytes_cong [of ?e e] by (simp add: am_acct_def)
  then show ?case
    using Cons.IH [of ?e] Cons.prems am_acct_cong [of "e\<lparr>am_wait_list := s # l\<rparr>" e] by (simp add: am_tx_ok_def)
qed

lemma poll_retransmit_acct:
  assumes "am_tx_ok e L" and "poll_retransmit e = Some e'"
  shows "am_tx_ok e' L"
proof -
  obtain s l where w: "am_wait_list e = s # l" using assms(2) by (auto simp: poll_retransmit_def split: list.splits)
  let ?d = "update_sdu e s (\<lambda>x. x\<lparr>sh_retx_count := sh_retx_count x + 1\<rparr>)"
  let ?d' = "poll_retransmit_loop ?d (sg_sn ?d s) (s # l)"
  have "am_acct ?d (am_tx_list ?d) (s # l) (am_retransmit_list ?d) L"
    using assms(1) pdu_bytes_cong [of ?d e] by (simp add: am_tx_ok_def am_acct_def w refs_ok_update)
  then have "am_tx_ok ?d' L" by (rule poll_retransmit_loop_acct)
  moreover have "same_tx ?d' e'"
    using assms(2) by (simp add: poll_retransmit_def w Let_def same_tx_def split: if_splits) auto
  ultimately show ?thesis using same_tx_ok by blast
qed

lemma set_time_acct:
  assumes "am_tx_ok e L" and "nr_rlc_entity_am_set_time e now = Some e'"
  shows "am_tx_ok e' L"
proof -
  let ?e = "e\<lparr>am_t_current := now\<rparr>" and ?d = "e\<lparr>am_t_current := now, am_t_poll_retransmit_start := 0, am_force_poll := True\<rparr>"
  obtain e1 where p: "check_t_poll_retransmit ?e = Some e1" and r: "am_check_t_reassembly e1 = Some e'"
    using assms(2) by (auto simp: nr_rlc_entity_am_set_time_def split: Option.bind_splits)
  have s: "same_tx e ?e" "same_tx e ?d" by (simp_all add: same_tx_def)
  have "e1 = ?e \<or> e1 = ?d \<or> poll_retransmit ?d = Some e1"
    using p by (auto simp: check_t_poll_retransmit_def Let_def split: if_splits)
  then have "am_tx_ok e1 L"
    using same_tx_ok [OF s(1)] same_tx_ok [OF s(2)] assms(1) poll_retransmit_acct [of ?d L e1] by blast
  moreover have "same_tx d (am_reassembly_expired d sn)" for d sn
    by (simp add: am_reassembly_expired_def Let_def same_tx_def)
  then have "same_tx e1 e'"
    using r same_tx_trans [of e1 "e1\<lparr>am_t_reassembly_start := 0\<rparr>" e']
    by (auto simp: am_check_t_reassembly_def Let_def same_tx_def [of e1] split: if_splits)
  ultimately show ?thesis using same_tx_ok by blast
qed

lemma discard_sdu_acct:
  assumes "am_tx_ok e L"
  shows "am_tx_ok (nr_rlc_entity_am_discard_sdu e i) L"
proof -
  let ?o = "\<lambda>s. sh_upper_layer_id (sdu_of e s) \<noteq> i"
  let ?b = "takeWhile ?o (am_tx_list e)"
  show ?thesis
  proof (cases "dropWhile ?o (am_tx_list e)")
    case Nil
    then show ?thesis using assms by (simp only: nr_rlc_entity_am_discard_sdu_def Let_def list.case)
  next
    case (Cons cur rest)
    show ?thesis
    proof (cases "sg_is_first cur \<and> sg_is_last cur")
      case False
      then show ?thesis using assms Cons by (auto simp: nr_rlc_entity_am_discard_sdu_def Let_def)
    next
      case True
      have tx: "am_tx_list e = ?b @ cur # rest" using Cons takeWhile_dropWhile_id [of ?o "am_tx_list e"] by simp
      let ?M = "mset (?b @ rest) + mset (am_wait_list e) + mset (am_retransmit_list e) + mset L"
      let ?n = "int (length (sh_data (sdu_of e cur)))"
      let ?c = "am_compute_pdu_header_size e cur + sg_size cur"
      have acct: "am_acct e (?b @ cur # rest) (am_wait_list e) (am_retransmit_list e) L"
        using assms by (simp only: am_tx_ok_def tx [symmetric])
      then have r: "refs_ok e (add_mset cur ?M)" by (simp add: am_acct_def ac_simps)
      let ?d = "e\<lparr>am_tx_list := ?b @ rest, am_bstatus_tx := am_bstatus_tx e - ?c, am_tx_size := am_tx_size e - ?n\<rparr>"
      obtain freed e1 where f: "nr_rlc_free_sdu_segment e cur = (freed, e1)" by force
      define e' where "e' = nr_rlc_entity_am_discard_sdu e i"
      have e': "e' = snd (nr_rlc_free_sdu_segment ?d cur)"
        using True Cons by (simp add: e'_def nr_rlc_entity_am_discard_sdu_def Let_def)
      have h: "am_heap e' = am_heap e1" "am_heap_next e' = am_heap_next e1" "am_heap_next e1 = am_heap_next e"
        using f by (auto simp: e' nr_rlc_free_sdu_segment_def Let_def update_sdu_def sdu_of_def split: if_splits)
      have fr: "am_tx_size e' = am_tx_size e - ?n" "am_tx_list e' = ?b @ rest" "am_wait_list e' = am_wait_list e"
        "am_retransmit_list e' = am_retransmit_list e" "am_bstatus_tx e' = am_bstatus_tx e - ?c"
        "am_bstatus_retx e' = am_bstatus_retx e" "am_sn_field_length e' = am_sn_field_length e"
        by (simp_all add: e' nr_rlc_free_sdu_segment_def Let_def update_sdu_def)
      have "sg_size cur = ?n" using r True by (auto simp: refs_ok_def am_seg_ok_def)
      moreover have "sdu_ok (am_heap e (sg_sdu cur)) (of_sdu (sg_sdu cur) (add_mset cur ?M))"
        using r by (auto simp: refs_ok_def am_seg_ok_def sdu_of_def simp del: of_sdu_simps)
      ultimately have "(\<Sum>s\<in>#of_sdu (sg_sdu cur) ?M. sg_size s) \<le> 0" by (simp add: sdu_ok_def sdu_of_def)
      moreover have "1 \<le> sg_size s" if "s \<in># ?M" for s using r that by (auto simp: refs_ok_def am_seg_ok_def)
      ultimately have "of_sdu (sg_sdu cur) ?M = {#}" using sum_pos_empty by (metis of_sdu_subset)
      then have "freed" using free_segment(2) [OF r f] by simp
      then have "refs_ok e' ?M"
        using free_segment(1) [OF r f] refs_ok_cong [of e' "e1\<lparr>am_tx_size := am_tx_size e - ?n\<rparr>"] h fr(1) by simp
      then show ?thesis
        unfolding e'_def [symmetric] am_tx_ok_def am_acct_def fr pdu_bytes_cong [OF fr(7)]
        using acct by (simp add: am_acct_def)
    qed
  qed
qed

lemma free_list_refs:
  "refs_ok (e\<lparr>am_tx_size := n\<rparr>) (mset l + M) \<Longrightarrow>
     (\<exists>n'. refs_ok ((nr_rlc_free_sdu_segment_list e l)\<lparr>am_tx_size := n'\<rparr>) M) \<and>
     nr_rlc_free_sdu_segment_list e l = e\<lparr>am_heap := am_heap (nr_rlc_free_sdu_segment_list e l)\<rparr>"
proof (induction l arbitrary: e n)
  case Nil
  then show ?case by (auto simp: nr_rlc_free_sdu_segment_list_def)
next
  case (Cons s l)
  let ?e = "e\<lparr>am_tx_size := n\<rparr>"
  obtain freed e1 where f: "nr_rlc_free_sdu_segment ?e s = (freed, e1)" by force
  define d where "d = snd (nr_rlc_free_sdu_segment e s)"
  have d: "am_heap d = am_heap e1" "am_heap_next d = am_heap_next e1" "d = e\<lparr>am_heap := am_heap d\<rparr>"
    using f by (auto simp: d_def nr_rlc_free_sdu_segment_def Let_def update_sdu_def sdu_of_def split: if_splits)
  define n1 where "n1 = n - (if freed then int (length (sh_data (sdu_of ?e s))) else 0)"
  have "refs_ok (e1\<lparr>am_tx_size := n1\<rparr>) (mset l + M)"
    using free_segment(1) [of ?e s "mset l + M", OF _ f] Cons.prems by (simp add: n1_def)
  then have "refs_ok (d\<lparr>am_tx_size := n1\<rparr>) (mset l + M)"
    using refs_ok_cong [of "d\<lparr>am_tx_size := n1\<rparr>" "e1\<lparr>am_tx_size := n1\<rparr>"] d by simp
  note IH = Cons.IH [OF this]
  have step: "nr_rlc_free_sdu_segment_list e (s # l) = nr_rlc_free_sdu_segment_list d l"
    by (simp add: nr_rlc_free_sdu_segment_list_def d_def)
  obtain h where "nr_rlc_free_sdu_segment_list d l = d\<lparr>am_heap := h\<rparr>" using IH by blast
  then have "nr_rlc_free_sdu_segment_list d l = e\<lparr>am_heap := am_heap (nr_rlc_free_sdu_segment_list d l)\<rparr>"
    by (subst (asm) d(3)) simp
  then show ?case using IH unfolding step by blast
qed

text \<open>Clearing an entity that lost no segment frees all SDUs.\<close>

lemma clear_entity_acct:
  assumes "am_tx_ok e []"
  shows "am_tx_ok (am_clear_entity e) []" and "\<forall>a<am_heap_next e. sh_freed (am_heap (am_clear_entity e) a)"
    and "am_heap_next (am_clear_entity e) = am_heap_next e"
proof -
  define e0 where "e0 = e\<lparr>am_rx_next := 0, am_rx_next_status_trigger := 0, am_rx_highest_status := 0, am_rx_next_highest := 0,
                am_status_triggered := False, am_tx_next := 0, am_tx_next_ack := 0, am_poll_sn := 0,
                am_pdu_without_poll := 0, am_byte_without_poll := 0, am_force_poll := False, am_t_current := 0,
                am_t_log_buffer_full := 0, am_sdu_rejected := 0, am_t_poll_retransmit_start := 0,
                am_t_reassembly_start := 0, am_t_status_prohibit_start := 0,
                am_rx := nr_rlc_clear_rx_manager (am_rx e), am_rx_size := 0\<rparr>"
  define e1 where "e1 = nr_rlc_free_sdu_segment_list e0 (am_tx_list e0)"
  define e2 where "e2 = nr_rlc_free_sdu_segment_list e1 (am_wait_list e1)"
  define e3 where "e3 = nr_rlc_free_sdu_segment_list e2 (am_retransmit_list e2)"
  define e' where "e' = am_clear_entity e"
  have e': "e' = e3\<lparr>am_tx_list := [], am_tx_size := 0, am_wait_list := [], am_retransmit_list := [],
           am_bstatus_tx := 0, am_bstatus_retx := 0\<rparr>"
    by (simp add: e'_def am_clear_entity_def Let_def e0_def e1_def e2_def e3_def)
  have s: "same_tx e e0" by (simp add: same_tx_def e0_def)
  then have "am_tx_ok e0 []" using assms same_tx_ok by blast
  then have "refs_ok (e0\<lparr>am_tx_size := am_tx_size e0\<rparr>) (mset (am_tx_list e0) + (mset (am_wait_list e0) + mset (am_retransmit_list e0)))"
    by (simp add: am_tx_ok_def am_acct_def ac_simps)
  from free_list_refs [OF this] obtain n1 where
    r1: "refs_ok (e1\<lparr>am_tx_size := n1\<rparr>) (mset (am_wait_list e0) + mset (am_retransmit_list e0))" "e1 = e0\<lparr>am_heap := am_heap e1\<rparr>"
    by (auto simp: e1_def)
  have l1: "am_wait_list e1 = am_wait_list e0" "am_retransmit_list e1 = am_retransmit_list e0" "am_heap_next e1 = am_heap_next e0"
    using arg_cong [OF r1(2), of am_wait_list] arg_cong [OF r1(2), of am_retransmit_list] arg_cong [OF r1(2), of am_heap_next] by simp_all
  from free_list_refs [OF r1(1) [folded l1(1)]] obtain n2 where
    r2: "refs_ok (e2\<lparr>am_tx_size := n2\<rparr>) (mset (am_retransmit_list e0))" "e2 = e1\<lparr>am_heap := am_heap e2\<rparr>"
    by (auto simp: e2_def)
  have l2: "am_retransmit_list e2 = am_retransmit_list e0" "am_heap_next e2 = am_heap_next e0"
    using arg_cong [OF r2(2), of am_retransmit_list] arg_cong [OF r2(2), of am_heap_next] l1 by simp_all
  from r2(1) have "refs_ok (e2\<lparr>am_tx_size := n2\<rparr>) (mset (am_retransmit_list e2) + {#})" by (simp add: l2)
  from free_list_refs [OF this] obtain n3 where
    r3: "refs_ok (e3\<lparr>am_tx_size := n3\<rparr>) {#}" "e3 = e2\<lparr>am_heap := am_heap e3\<rparr>"
    by (auto simp: e3_def)
  have l3: "am_heap_next e3 = am_heap_next e" using arg_cong [OF r3(2), of am_heap_next] l2 s by (simp add: same_tx_def)
  then have fr: "\<forall>a<am_heap_next e. sh_freed (am_heap e3 a)" using r3(1) by (auto simp: refs_ok_def sdu_ok_def)
  then show "\<forall>a<am_heap_next e. sh_freed (am_heap (am_clear_entity e) a)" by (simp add: e'_def [symmetric] e')
  show "am_heap_next (am_clear_entity e) = am_heap_next e" by (simp add: e'_def [symmetric] e' l3)
  have "live_bytes e' = 0" using fr by (simp add: live_bytes_def e' l3 sdu_bytes_def)
  then have "refs_ok e' {#}" using fr l3 by (auto simp: refs_ok_def e')
  then show "am_tx_ok (am_clear_entity e) []" unfolding e'_def [symmetric] by (simp add: am_tx_ok_def am_acct_def) (simp add: e')
qed

end
