(* ===== verification/Rlc_Am_Safety.thy ===== *)
theory Rlc_Am_Safety
  imports Rlc_Am_Reception Rlc_Am_Tx Rlc_Am_Codec
begin

text \<open>
  The two halves of the acknowledged mode entity together: the operations of one half leave the state of
  the other alone, and every state that a sequence of calls reaches keeps the books of the transmitter
  (\<^term>\<open>am_tx_ok\<close>) and the window of the receiver (\<^term>\<open>am_rx_ok\<close>).
\<close>

section \<open>The fields of the receiver\<close>

definition rx_view :: "nr_rlc_entity_am \<Rightarrow>
    nat \<times> int \<times> int \<times> int \<times> int \<times> int \<times> int \<times> u64 \<times> nr_rlc_rx_manager" where
  "rx_view e = (am_sn_field_length e, am_sn_modulus e, am_window_size e, am_rx_next e, am_rx_next_status_trigger e,
     am_rx_highest_status e, am_rx_next_highest e, am_t_reassembly_start e, am_rx e)"

lemma rx_view_ok: "rx_view e' = rx_view e \<Longrightarrow> am_rx_ok e' = am_rx_ok e"
proof -
  assume a: "rx_view e' = rx_view e"
  then have f: "am_geo e' = am_geo e" "sn_at e' = sn_at e" "off e' = off e" "is_sn e' = is_sn e"
    by - (rule geo_cong; simp add: rx_view_def)+
  have r: "ring e' = ring e" using a by (simp add: rx_view_def ring_def fun_eq_iff)
  show ?thesis using a unfolding am_rx_ok_def am_win_ok_def f r by (simp add: rx_view_def)
qed

definition am_conf_ok :: "nr_rlc_entity_am \<Rightarrow> bool" where
  "am_conf_ok e \<longleftrightarrow> sn_len_ok e \<and> am_sn_modulus e = 2 ^ am_sn_field_length e"

lemma rx_view_conf: "rx_view e' = rx_view e \<Longrightarrow> am_conf_ok e' = am_conf_ok e"
  by (simp add: rx_view_def am_conf_ok_def sn_len_ok_def)

text \<open>Steps of the transmitter.\<close>

named_theorems rx_frame

lemma rx_view_steps [rx_frame]:
  "rx_view (update_sdu e s f) = rx_view e" "rx_view (am_put_wait e s) = rx_view e"
  "rx_view (am_count_tx e n) = rx_view e" "rx_view (am_count_retx e n) = rx_view e"
  "rx_view (am_assign_sn e s) = rx_view e" "rx_view (stop_poll_timer e c) = rx_view e"
  "rx_view (count_status_pdu e n) = rx_view e" "rx_view (am_trigger_status e p) = rx_view e"
  "rx_view (am_discard_pdu e p k) = rx_view e"
  "rx_view (am_log_rejected e) = rx_view e" "rx_view (am_reject_sdu e k) = rx_view e"
  "rx_view (am_accept_sdu e b k) = rx_view e"
  by (simp_all add: rx_view_def update_sdu_def am_put_wait_def am_count_tx_def am_count_retx_def am_assign_sn_def Let_def
      stop_poll_timer_def count_status_pdu_def am_trigger_status_def am_discard_pdu_def
      am_log_rejected_def am_reject_sdu_def am_accept_sdu_def am_new_sdu_def)

lemma rx_view_updates [simp]:
  "rx_view (e\<lparr>am_stats := a\<rparr>) = rx_view e" "rx_view (e\<lparr>am_wait_list := l\<rparr>) = rx_view e"
  "rx_view (e\<lparr>am_retransmit_list := l\<rparr>) = rx_view e" "rx_view (e\<lparr>am_tx_list := l\<rparr>) = rx_view e"
  "rx_view (e\<lparr>am_bstatus_tx := i\<rparr>) = rx_view e" "rx_view (e\<lparr>am_bstatus_retx := i\<rparr>) = rx_view e"
  "rx_view (e\<lparr>am_tx_next_ack := i\<rparr>) = rx_view e" "rx_view (e\<lparr>am_tx_size := i\<rparr>) = rx_view e"
  "rx_view (e\<lparr>am_max_retx := k\<rparr>) = rx_view e" "rx_view (e\<lparr>am_force_poll := b\<rparr>) = rx_view e"
  "rx_view (e\<lparr>am_t_poll_retransmit_start := t\<rparr>) = rx_view e" "rx_view (e\<lparr>am_t_current := t\<rparr>) = rx_view e"
  by (simp_all add: rx_view_def)

lemma rx_view_pairs:
  "take_force_poll e p = (e', p') \<Longrightarrow> rx_view e' = rx_view e"
  "am_count_poll e s = (e', p') \<Longrightarrow> rx_view e' = rx_view e"
  "am_resegment e s room = (e', s', s'') \<Longrightarrow> rx_view e' = rx_view e"
  "am_serialize_sdu e s b p = Some (e', pdu) \<Longrightarrow> rx_view e' = rx_view e"
  "rx_view (snd (nr_rlc_free_sdu_segment e s)) = rx_view e"
  by (auto simp: rx_view_def take_force_poll_def am_count_poll_def am_resegment_def am_serialize_sdu_def include_poll_def
      nr_rlc_free_sdu_segment_def update_sdu_def Let_def split: if_splits)

lemma rx_view_take:
  "am_take_retx e s rest room = (e', s') \<Longrightarrow> rx_view e' = rx_view e"
  "am_take_tx e s rest room = (e', s') \<Longrightarrow> rx_view e' = rx_view e"
  by (auto simp: rx_view_def am_take_retx_def am_take_tx_def am_resegment_def am_count_segmented_def update_sdu_def
      am_assign_sn_def Let_def split: if_splits)

lemma generate_retx_rx: "generate_retx_pdu e b = Some (e', pdu) \<Longrightarrow> rx_view e' = rx_view e"
  by (auto simp: generate_retx_pdu_def rx_frame rx_view_take rx_view_pairs Let_def
      dest!: rx_view_take rx_view_pairs(1,4) split: list.splits if_splits prod.splits)

lemma generate_tx_rx: "generate_tx_pdu e b = Some (e', pdu) \<Longrightarrow> rx_view e' = rx_view e"
  by (auto simp: generate_tx_pdu_def rx_frame Let_def
      dest!: rx_view_take rx_view_pairs(1,2,4) split: list.splits if_splits prod.splits)

lemma generate_status_rx: "generate_status e b = Some (e', pdu) \<Longrightarrow> rx_view e' = rx_view e"
  by (auto simp: generate_status_def rx_frame Let_def split: if_splits Option.bind_splits)

lemma generate_pdu_rx: "nr_rlc_entity_am_generate_pdu e b = Some (e', pdu) \<Longrightarrow> rx_view e' = rx_view e"
  by (auto simp: nr_rlc_entity_am_generate_pdu_def dest!: generate_status_rx generate_retx_rx generate_tx_rx
      split: if_splits Option.bind_splits)

lemma recv_sdu_rx: "nr_rlc_entity_am_recv_sdu e b i = Some e' \<Longrightarrow> rx_view e' = rx_view e"
  by (auto simp: nr_rlc_entity_am_recv_sdu_def Let_def rx_frame split: if_splits)

lemma discard_sdu_rx: "rx_view (nr_rlc_entity_am_discard_sdu e i) = rx_view e"
  by (simp add: nr_rlc_entity_am_discard_sdu_def Let_def rx_view_pairs split: list.splits)

lemma poll_retransmit_loop_rx: "rx_view (poll_retransmit_loop e sn l) = rx_view e"
  by (induction e sn l rule: poll_retransmit_loop.induct) simp_all

lemma check_t_poll_retransmit_rx: "check_t_poll_retransmit e = Some e' \<Longrightarrow> rx_view e' = rx_view e"
  by (auto simp: check_t_poll_retransmit_def poll_retransmit_def Let_def poll_retransmit_loop_rx rx_frame
      split: if_splits list.splits)

lemma status_frame_rx: "status_frame e e' \<Longrightarrow> rx_view e' = rx_view e"
  unfolding status_frame_def by (drule arg_cong [of _ _ rx_view]) (simp add: rx_view_def)

lemma process_control_pdu_ok:
  assumes "am_tx_ok e L"
  obtains L' where "am_tx_ok (process_control_pdu e b) (L @ L')" and "rx_view (process_control_pdu e b) = rx_view e"
    and "(\<And>ack_sn nacks. decode_status (am_sn_field_length e) b = Some (ack_sn, nacks) \<Longrightarrow> strict_status e ack_sn nacks) \<Longrightarrow> L' = []"
proof (cases "process_control_pdu e b = e")
  case True
  then show thesis using that [of "[]"] assms by simp
next
  case False
  then obtain ack_sn nacks where d: "decode_status (am_sn_field_length e) b = Some (ack_sn, nacks)"
    and p: "process_control_pdu e b = process_status e ack_sn nacks"
    by (auto simp: process_control_pdu_def split: option.splits if_splits)
  obtain L' c w r where s: "am_tx_ok (process_status e ack_sn nacks) (L @ L')" "strict_status e ack_sn nacks \<longrightarrow> L' = []"
    "status_frame e c" "process_status e ack_sn nacks = update_tx_next_ack (c\<lparr>am_wait_list := w, am_retransmit_list := r\<rparr>) ack_sn"
    by (rule process_status_acct [OF assms])
  have "rx_view c = rx_view e" by (rule status_frame_rx [OF s(3)])
  then have "rx_view (process_control_pdu e b) = rx_view e" by (simp add: p s(4) update_tx_next_ack_def Let_def)
  then show thesis using that [of L'] s(1,2) d unfolding p by blast
qed

section \<open>The fields of the transmitter\<close>

text \<open>The operations of the receiver, as steps on the state that the transmitter reads.\<close>

lemma free_delivered_frame:
  assumes "free_delivered e sn c = Some (e', sn', c')"
  shows "e' = e\<lparr>am_rx := am_rx e'\<rparr>"
proof -
  have "fst (e', sn', c') = e\<lparr>am_rx := am_rx (fst (e', sn', c'))\<rparr>"
  proof (rule free_delivered.raw_induct [OF _ assms, of "\<lambda>e sn c y. fst y = e\<lparr>am_rx := am_rx (fst y)\<rparr>"])
    fix f e sn c y
    assume IH: "\<And>e sn c y. f e sn c = Some y \<Longrightarrow> fst y = e\<lparr>am_rx := am_rx (fst y)\<rparr>"
      and s: "(if processed (slot e sn)
         then f (e\<lparr>am_rx := nr_rlc_rx_manager_clear_pdu (am_rx e) sn\<rparr>) (c_mod (sn + 1) (am_sn_modulus e)) (c + 1)
         else Some (e, sn, c)) = Some y"
    show "fst y = e\<lparr>am_rx := am_rx (fst y)\<rparr>"
    proof (cases "processed (slot e sn)")
      case True
      then show ?thesis using IH [of "e\<lparr>am_rx := nr_rlc_rx_manager_clear_pdu (am_rx e) sn\<rparr>"] s by simp
    next
      case False
      then have "fst y = e" using s by auto
      then show ?thesis by simp
    qed
  qed
  then show ?thesis by simp
qed

lemma advance_window_frame:
  assumes "am_advance_window e = Some e'"
  shows "e' = e\<lparr>am_rx_next := am_rx_next e', am_rx := am_rx e'\<rparr>"
proof -
  obtain d sn c where d: "free_delivered e (am_rx_next e) 0 = Some (d, sn, c)"
    "e' = d\<lparr>am_rx_next := sn, am_rx := nr_rlc_rx_manager_set_start (nr_rlc_rx_manager_advance (am_rx d) c) sn\<rparr>"
    using assms by (auto simp: am_advance_window_def)
  show ?thesis unfolding d(2) by (subst free_delivered_frame [OF d(1)]) simp
qed

definition tx_view_same :: "nr_rlc_entity_am \<Rightarrow> nr_rlc_entity_am \<Rightarrow> bool" where
  "tx_view_same e e' \<longleftrightarrow> same_tx e e' \<and> am_sn_modulus e' = am_sn_modulus e"

lemma tx_view_trans: "tx_view_same e e' \<Longrightarrow> tx_view_same e' e'' \<Longrightarrow> tx_view_same e e''"
  by (simp add: tx_view_same_def same_tx_def)

lemma tx_view_steps:
  "tx_view_same e (am_store_pdu e p)" "tx_view_same e (am_raise_highest e x)" "tx_view_same e (am_timer_start e)"
  "tx_view_same e (am_timer_stop e)" "tx_view_same e (am_trigger_status e b)" "tx_view_same e (am_discard_pdu e b n)"
  "tx_view_same e (am_reassembly_expired e x)"
  by (simp_all add: tx_view_same_def same_tx_def am_store_pdu_def am_raise_highest_def am_timer_start_def am_timer_stop_def
      am_trigger_status_def am_discard_pdu_def am_reassembly_expired_def Let_def)

lemma tx_view_reassemble: "tx_view_same e (am_reassemble_and_deliver e sn)"
  by (subst reassemble_frame) (simp add: tx_view_same_def same_tx_def)

lemma tx_view_raise_status: "am_raise_status e x = Some e' \<Longrightarrow> tx_view_same e e'"
  by (auto simp: am_raise_status_def tx_view_same_def same_tx_def split: if_splits)

lemma tx_view_advance: "am_advance_window e = Some e' \<Longrightarrow> tx_view_same e e'"
  by (subst advance_window_frame, assumption) (simp add: tx_view_same_def same_tx_def)

lemma reception_actions_tx:
  assumes "am_reception_actions e x = Some e'"
  shows "tx_view_same e e'"
proof -
  obtain d where d: "am_reception_window e x = Some d" "e' = am_timer_start (am_timer_stop d)"
    using assms by (auto simp: am_reception_actions_def)
  define c where "c = am_raise_highest e x"
  have "tx_view_same c d"
  proof (cases "am_sdu_full c x")
    case True
    then obtain b where b: "am_raise_status (am_reassemble_and_deliver c x) x = Some b"
      "(if x = am_rx_next b then am_advance_window b else Some b) = Some d"
      using d(1) unfolding am_reception_window_def Let_def c_def [symmetric] by (auto split: Option.bind_splits)
    then have "tx_view_same b d" by (auto split: if_splits dest: tx_view_advance simp: tx_view_same_def same_tx_def)
    then show ?thesis
      using tx_view_trans [OF tx_view_reassemble tx_view_trans [OF tx_view_raise_status [OF b(1)]]] by blast
  next
    case False
    then have "d = c" using d(1) unfolding am_reception_window_def Let_def c_def [symmetric] by simp
    then show ?thesis by (simp add: tx_view_same_def same_tx_def)
  qed
  then show ?thesis
    unfolding d(2) c_def
    by (rule tx_view_trans [OF tx_view_steps(2) tx_view_trans [OF _ tx_view_trans [OF tx_view_steps(4,3)]]])
qed

section \<open>Reception of any PDU\<close>

lemma am_read_or_cases:
  assumes "n \<le> 31"
  obtains "\<And>err k. am_read_or err d n k = Some err"
  | v d' where "0 \<le> v" and "v < 2 ^ n" and "\<And>err k. am_read_or err d n k = k v d'"
proof -
  obtain v d' where g: "get_bits_loop n 0 d = (v, d')" by force
  then have r: "am_read_or err d n k = (if dec_error d' then Some err else k v d')" for err k
    using assms by (simp add: am_read_or_def nr_rlc_pdu_decoder_get_bits_def)
  show thesis using that(1) that(2) [of v d'] r get_bits_loop_range [OF g] by (cases "dec_error d'") auto
qed

fun header_ok :: "nat \<Rightarrow> am_header \<Rightarrow> bool" where
  "header_ok n (Am_data p is_first is_last sn so k) \<longleftrightarrow> 0 \<le> sn \<and> sn < 2 ^ n \<and> 0 \<le> so \<and> so < 65536 \<and> (is_first \<longleftrightarrow> so = 0)"
| "header_ok n h \<longleftrightarrow> True"

lemma am_read_or_ok:
  assumes "c \<le> 31" and "header_ok n err" and "\<And>v d'. 0 \<le> v \<Longrightarrow> v < 2 ^ c \<Longrightarrow> \<exists>h. k v d' = Some h \<and> header_ok n h"
  shows "\<exists>h. am_read_or err d c k = Some h \<and> header_ok n h"
  using am_read_or_cases [OF assms(1), of d] assms(2,3) by metis

lemma decode_header_total:
  assumes "n = 12 \<or> n = 18"
  shows "\<exists>h. am_decode_header n b = Some h \<and> header_ok n h"
proof -
  have n: "n \<le> 31" using assms by auto
  have sn_so: "\<exists>h. am_read_or (Am_bad p) d n (\<lambda>sn d. if \<not> f
      then am_read_or (Am_bad p) d 16 (\<lambda>so d. Some (if so = 0 then Am_bad p else Am_data p f l sn so (dec_byte d)))
      else Some (Am_data p f l sn 0 (dec_byte d))) = Some h \<and> header_ok n h" for p d f l
    by (rule am_read_or_ok [OF n]) (auto intro!: am_read_or_ok)
  show ?thesis
    unfolding am_decode_header_def Let_def
    by (rule am_read_or_ok; (simp | intro conjI impI am_read_or_ok sn_so)?) (auto intro!: am_read_or_ok sn_so simp: n)
qed

text \<open>A PDU with a header like this is dropped, stored and acted upon, or makes the entity wait for ever.\<close>

lemma recv_data_ok:
  assumes ok: "am_rx_ok e" and conf: "am_conf_ok e" and h: "header_ok (am_sn_field_length e) (Am_data p f l sn so k)"
  obtains e' where "am_recv_data e b p f l sn so k = Some e'" and "am_rx_ok e'" and "tx_view_same e e'"
  | "sn = am_rx_next e" and "last_gap e" and "am_recv_data e b p f l sn so k = None"
proof -
  have drop: "am_rx_ok (am_discard_pdu (e\<lparr>am_stats := st\<rparr>) p n) \<and> tx_view_same e (am_discard_pdu (e\<lparr>am_stats := st\<rparr>) p n)" for st n
    using rx_view_ok [of "am_discard_pdu (e\<lparr>am_stats := st\<rparr>) p n" e] ok
    by (simp add: rx_frame) (simp add: am_discard_pdu_def am_trigger_status_def tx_view_same_def same_tx_def Let_def)
  have g: "am_geo e" using ok by (simp add: am_rx_ok_def am_win_ok_def)
  have sn: "is_sn e sn" using h conf by (simp add: am_conf_ok_def is_sn_def)
  define i where "i = off e sn"
  have i: "0 \<le> i" "sn_at e i = sn" using off_range [OF g sn] sn_at_modulus [OF g sn] by (auto simp: i_def)
  let ?pdu = "nr_rlc_new_pdu sn so f l (drop k b)"
  show thesis
  proof (cases "int (length b) - int k \<le> 0 \<or> am_rx_size e + (int (length b) - int k) > am_rx_maxsize e \<or>
      \<not> sn_in_recv_window e sn \<or> segment_already_received e sn so (int (length b) - int k)")
    case True
    then obtain st n where "am_recv_data e b p f l sn so k = Some (am_discard_pdu (e\<lparr>am_stats := st\<rparr>) p n)"
      by (fastforce simp: am_recv_data_def Let_def intro: that [of "am_stats e"])
    then show thesis using that(1) drop by blast
  next
    case False
    then have iw: "i < am_window_size e" and ne: "drop k b \<noteq> []" by (auto simp: sn_in_recv_window_def i_def)
    have r: "am_recv_data e b p f l sn so k = map_option (\<lambda>e. am_trigger_status e p) (am_reception_actions (am_store_pdu e ?pdu) sn)"
      using False by (simp add: am_recv_data_def Let_def)
    have pok: "pdu_ok (sn_at e i) ?pdu" "pdu_data ?pdu \<noteq> None"
      using new_pdu_ok [of so f "drop k b" sn l] h ne i by (simp_all add: nr_rlc_new_pdu_def)
    show thesis
    proof (cases "i = 0 \<and> last_gap e \<and> am_sdu_full (am_store_pdu e ?pdu) (sn_at e i)")
      case True
      then have z: "am_rx_next e = sn_at e i" using sn_at_zero [OF g] by simp
      have "am_reception_actions (am_store_pdu e ?pdu) sn = None"
        using reception_actions_hang [OF ok, of ?pdu] pok True z i by simp
      then show thesis using that(2) True r z i by simp
    next
      case F: False
      obtain d where d: "am_reception_actions (am_store_pdu e ?pdu) (sn_at e i) = Some d" "am_rx_ok d"
        by (rule reception_actions_ok [OF ok i(1) iw pok F])
      have "tx_view_same e d" using reception_actions_tx [OF d(1)] tx_view_steps(1) tx_view_trans by blast
      then have "tx_view_same e (am_trigger_status d p)" using tx_view_steps(5) tx_view_trans by blast
      then show thesis
        using that(1) [of "am_trigger_status d p"] r d i rx_view_ok [of "am_trigger_status d p" d] by (simp add: rx_frame)
    qed
  qed
qed

section \<open>Reachable states\<close>

definition am_ok :: "nr_rlc_entity_am \<Rightarrow> nr_rlc_sdu_segment_t list \<Rightarrow> bool" where
  "am_ok e L \<longleftrightarrow> am_tx_ok e L \<and> am_rx_ok e \<and> am_conf_ok e"

lemma am_ok_rx: "am_ok e L \<Longrightarrow> rx_view e' = rx_view e \<Longrightarrow> am_tx_ok e' L' \<Longrightarrow> am_ok e' L'"
  using rx_view_ok [of e' e] rx_view_conf [of e' e] by (simp add: am_ok_def)

lemma am_ok_tx: "am_ok e L \<Longrightarrow> tx_view_same e e' \<Longrightarrow> am_rx_ok e' \<Longrightarrow> am_ok e' L"
  using same_tx_ok [of e e' L] by (simp add: am_ok_def tx_view_same_def am_conf_ok_def sn_len_ok_def same_tx_def)

text \<open>A PDU that is no STATUS PDU, or one whose NACKs all are before its ACK.\<close>

definition strict_pdu :: "nr_rlc_entity_am \<Rightarrow> u8 list \<Rightarrow> bool" where
  "strict_pdu e b \<longleftrightarrow> am_decode_header (am_sn_field_length e) b = Some Am_control \<longrightarrow>
     (case decode_status (am_sn_field_length e) b of None \<Rightarrow> True | Some (ack_sn, nacks) \<Rightarrow> strict_status e ack_sn nacks)"

lemma strict_status_stats: "strict_status (e\<lparr>am_stats := st\<rparr>) a n = strict_status e a n"
proof -
  have f: "status_frame e (e\<lparr>am_stats := st\<rparr>)" by (simp add: status_frame_def)
  show ?thesis unfolding strict_status_def status_frame_fields(2,3) [OF f] ..
qed

lemma recv_pdu_ok:
  assumes ok: "am_ok e L"
  obtains e' L' where "nr_rlc_entity_am_recv_pdu e b = Some e'" and "am_ok e' (L @ L')" and "strict_pdu e b \<longrightarrow> L' = []"
  | "last_gap e" and "nr_rlc_entity_am_recv_pdu e b = None"
proof -
  define st where "st = (am_stats e)\<lparr>rxpdu_pkts := rxpdu_pkts (am_stats e) + 1,
                                         rxpdu_bytes := rxpdu_bytes (am_stats e) + word_of_int (int (length b))\<rparr>"
  define d where "d = e\<lparr>am_stats := st\<rparr>"
  have s: "same_tx e d" by (simp add: d_def same_tx_def)
  have dok: "am_ok d L" by (rule am_ok_rx [OF ok]) (use ok same_tx_ok [OF s] in \<open>simp_all add: d_def am_ok_def\<close>)
  have n: "am_sn_field_length d = am_sn_field_length e" by (simp add: d_def)
  obtain h where h: "am_decode_header (am_sn_field_length e) b = Some h" "header_ok (am_sn_field_length e) h"
    using decode_header_total ok by (auto simp: am_ok_def am_conf_ok_def sn_len_ok_def)
  have r: "nr_rlc_entity_am_recv_pdu e b = (case h of Am_control \<Rightarrow> Some (process_control_pdu d b)
      | Am_bad p \<Rightarrow> Some (am_discard_pdu d p (int (length b)))
      | Am_data p f l sn so k \<Rightarrow> am_recv_data d b p f l sn so k)"
    using h(1) unfolding nr_rlc_entity_am_recv_pdu_def Let_def d_def st_def by simp
  show thesis
  proof (cases h)
    case Am_control
    obtain L' where p: "am_tx_ok (process_control_pdu d b) (L @ L')" "rx_view (process_control_pdu d b) = rx_view d"
      "(\<And>ack_sn nacks. decode_status (am_sn_field_length d) b = Some (ack_sn, nacks) \<Longrightarrow> strict_status d ack_sn nacks) \<Longrightarrow> L' = []"
      using process_control_pdu_ok [of d L b] dok by (auto simp: am_ok_def)
    have "strict_pdu e b \<longrightarrow> L' = []"
      by (rule impI, rule p(3)) (use h(1) Am_control in \<open>simp add: strict_pdu_def n d_def strict_status_stats\<close>)
    then show thesis using that(1) [of "process_control_pdu d b"] r Am_control am_ok_rx [OF dok p(2,1)] by simp
  next
    case (Am_bad p)
    let ?c = "am_discard_pdu d p (int (length b))"
    have "same_tx d ?c" using tx_view_steps(6) by (simp add: tx_view_same_def)
    then have "am_ok ?c L" using am_ok_rx [OF dok, of ?c L] dok same_tx_ok by (simp add: rx_frame am_ok_def)
    then show thesis using that(1) [of ?c "[]"] r Am_bad by simp
  next
    case (Am_data p f l sn so k)
    have lg: "last_gap d = last_gap e" by (simp add: d_def last_gap_def ring_def)
    from dok have "am_rx_ok d" "am_conf_ok d" by (auto simp: am_ok_def)
    then show thesis
    proof (rule recv_data_ok [OF _ _ h(2) [folded n, unfolded Am_data], of b])
      fix e'
      assume "am_recv_data d b p f l sn so k = Some e'" "am_rx_ok e'" "tx_view_same d e'"
      then show thesis using that(1) [of e' "[]"] r Am_data am_ok_tx [OF dok] by simp
    next
      assume "last_gap d" "am_recv_data d b p f l sn so k = None"
      then show thesis using that(2) r Am_data lg by simp
    qed
  qed
qed

lemma check_t_reassembly_conf:
  assumes "am_check_t_reassembly e = Some e'"
  shows "am_sn_field_length e' = am_sn_field_length e \<and> am_sn_modulus e' = am_sn_modulus e"
proof -
  have "am_sn_field_length (am_reassembly_expired d sn) = am_sn_field_length d \<and>
      am_sn_modulus (am_reassembly_expired d sn) = am_sn_modulus d" for d sn
    by (simp add: am_reassembly_expired_def Let_def)
  then show ?thesis
    using assms unfolding am_check_t_reassembly_def Let_def by (cases "am_t_reassembly_start e = 0") (auto split: if_splits)
qed

lemma set_time_ok:
  assumes "am_ok e L" and "nr_rlc_entity_am_set_time e now = Some e'"
  shows "am_ok e' L"
proof -
  obtain d where d: "check_t_poll_retransmit (e\<lparr>am_t_current := now\<rparr>) = Some d" "am_check_t_reassembly d = Some e'"
    using assms(2) by (auto simp: nr_rlc_entity_am_set_time_def split: Option.bind_splits)
  have v: "rx_view d = rx_view e" using check_t_poll_retransmit_rx [OF d(1)] by simp
  have "am_rx_ok d" "am_conf_ok d" using rx_view_ok [OF v] rx_view_conf [OF v] assms(1) by (simp_all add: am_ok_def)
  moreover have "am_rx_ok e'" by (rule check_t_reassembly_ok [OF \<open>am_rx_ok d\<close>]) (use d(2) in simp)
  moreover have "am_sn_field_length e' = am_sn_field_length d \<and> am_sn_modulus e' = am_sn_modulus d"
    by (rule check_t_reassembly_conf [OF d(2)])
  moreover have "am_tx_ok e' L" using set_time_acct [OF _ assms(2)] assms(1) by (simp add: am_ok_def)
  ultimately show ?thesis by (simp add: am_ok_def am_conf_ok_def sn_len_ok_def)
qed

lemma empty_window_ok:
  assumes "am_window_size e = 2048 \<or> am_window_size e = 131072" and "am_sn_modulus e = 2 * am_window_size e"
    and "am_rx e = \<lparr>rxm_list = (\<lambda>_. []), rxm_size = am_window_size e, rxm_start = 0, rxm_sn_start = 0\<rparr>"
    and "am_rx_next e = 0" "am_rx_next_status_trigger e = 0" "am_rx_highest_status e = 0" "am_rx_next_highest e = 0"
    and "am_t_reassembly_start e = 0"
  shows "am_rx_ok e"
proof -
  have "ring e i = []" for i using assms by (simp add: ring_def rxm_at_def)
  moreover have "am_modulus_rx e 0 = 0" using assms by (simp add: am_modulus_rx_def)
  moreover have "am_geo e" "is_sn e 0" using assms by (auto simp: am_geo_def is_sn_def)
  ultimately show ?thesis using assms(1,4-) by (auto simp: am_rx_ok_def am_win_ok_def slot_ok_def)
qed

lemma new_entity_ok:
  assumes "new_nr_rlc_entity_am rx_max tx_max t_poll t_reas t_proh poll_pdu poll_byte max_retx n = Some e"
  shows "am_ok e []"
proof -
  have n: "n = 12 \<or> n = 18" using assms by (simp add: new_nr_rlc_entity_am_def split: if_splits)
  have "am_rx_ok e"
    by (rule empty_window_ok; use assms n in \<open>auto simp: new_nr_rlc_entity_am_def nr_rlc_new_rx_manager_def c_div_def split: if_splits\<close>)
  moreover have "am_tx_ok e []"
    using assms by (auto simp: new_nr_rlc_entity_am_def am_tx_ok_def am_acct_def refs_ok_def live_bytes_def split: if_splits)
  moreover have "am_conf_ok e"
    using assms by (auto simp: new_nr_rlc_entity_am_def am_conf_ok_def sn_len_ok_def split: if_splits)
  ultimately show ?thesis by (simp add: am_ok_def)
qed

lemma free_list_rx: "rx_view (nr_rlc_free_sdu_segment_list e l) = rx_view e"
  unfolding nr_rlc_free_sdu_segment_list_def by (induction l arbitrary: e) (simp_all add: rx_view_pairs(5))

lemma clear_entity_rx:
  "rx_view (am_clear_entity e) =
     (am_sn_field_length e, am_sn_modulus e, am_window_size e, 0, 0, 0, 0, 0, nr_rlc_clear_rx_manager (am_rx e))"
  unfolding am_clear_entity_def Let_def by (simp add: free_list_rx) (simp add: rx_view_def)

lemma clear_entity_ok:
  assumes "am_ok e []"
  shows "am_ok (am_clear_entity e) []"
proof -
  note v = clear_entity_rx [of e, unfolded rx_view_def]
  have g: "am_geo e" "am_conf_ok e" using assms by (auto simp: am_ok_def am_rx_ok_def am_win_ok_def)
  then have w: "am_window_size e = 2048 \<or> am_window_size e = 131072" "am_sn_modulus e = 2 * am_window_size e"
    by (auto simp: am_geo_def am_conf_ok_def sn_len_ok_def)
  have "am_rx_ok (am_clear_entity e)"
    by (rule empty_window_ok; use v w g(1) in \<open>simp add: nr_rlc_clear_rx_manager_def am_geo_def\<close>)
  moreover have "am_conf_ok (am_clear_entity e)" using v g(2) by (simp add: am_conf_ok_def sn_len_ok_def)
  moreover have "am_tx_ok (am_clear_entity e) []" using clear_entity_acct(1) assms by (simp add: am_ok_def)
  ultimately show ?thesis by (simp add: am_ok_def)
qed

lemma same_tx_refl: "same_tx e e"
  by (simp add: same_tx_def)

lemma generate_status_tx: "generate_status e b = Some (e', pdu) \<Longrightarrow> same_tx e e'"
  using same_tx_steps(6) same_tx_refl by (auto simp: generate_status_def Let_def split: if_splits Option.bind_splits)

lemma generate_pdu_ok:
  assumes "am_ok e L" and "nr_rlc_entity_am_generate_pdu e b = Some (e', pdu)"
  shows "am_ok e' L"
proof -
  obtain d p where d: "(if status_to_report e then generate_status e b else Some (e, [])) = Some (d, p)"
    and r: "(if p \<noteq> [] then Some (d, p)
       else Option.bind (if am_retransmit_list d \<noteq> [] then generate_retx_pdu d b else Some (d, [])) (\<lambda>(e, pdu).
              if pdu \<noteq> [] then Some (e, pdu) else generate_tx_pdu e b)) = Some (e', pdu)"
    using assms(2) unfolding nr_rlc_entity_am_generate_pdu_def by (auto split: Option.bind_splits)
  have s: "same_tx e d" using d generate_status_tx by (auto simp: same_tx_def split: if_splits)
  have dok: "am_tx_ok d L" "sn_len_ok d"
    using same_tx_ok [OF s, of L] s assms(1) by (auto simp: am_ok_def am_conf_ok_def sn_len_ok_def same_tx_def)
  have "am_tx_ok e' L"
  proof (cases "p = []")
    case True
    then obtain c q where c: "(if am_retransmit_list d \<noteq> [] then generate_retx_pdu d b else Some (d, [])) = Some (c, q)"
      and r2: "(if q \<noteq> [] then Some (c, q) else generate_tx_pdu c b) = Some (e', pdu)"
      using r by (auto split: Option.bind_splits)
    have cok: "am_tx_ok c L \<and> (q = [] \<longrightarrow> c = d)"
    proof (cases "am_retransmit_list d = []")
      case False
      then show ?thesis by (rule generate_retx_acct [OF dok, of b]) (use c False in auto)
    qed (use c dok in auto)
    show ?thesis
    proof (cases "q = []")
      case True
      then have "c = d" "generate_tx_pdu d b = Some (e', pdu)" using cok r2 by auto
      then show ?thesis by (rule_tac generate_tx_acct [OF dok, of b]) simp
    qed (use r2 cok in auto)
  qed (use r dok in auto)
  then show ?thesis by (rule am_ok_rx [OF assms(1) generate_pdu_rx [OF assms(2)]])
qed

text \<open>
  The states that calls of the interface reach: a new entity, SDUs that are not empty, received PDUs of any
  contents, grants, clock ticks and discards. With \<open>strict\<close> the peer is well-behaved, that is, its STATUS PDUs
  have their NACKs before the ACK; re-establishment is a step only there. Reconfiguration
  (\<^verbatim>\<open>nr_rlc_entity_am_reconfigure\<close>) is not among the steps.
\<close>

inductive am_reachable :: "bool \<Rightarrow> nr_rlc_entity_am \<Rightarrow> bool" for strict :: bool where
  new: "new_nr_rlc_entity_am rx_max tx_max t_poll t_reas t_proh poll_pdu poll_byte max_retx n = Some e \<Longrightarrow> am_reachable strict e"
| sdu: "am_reachable strict e \<Longrightarrow> b \<noteq> [] \<Longrightarrow> nr_rlc_entity_am_recv_sdu e b i = Some e' \<Longrightarrow> am_reachable strict e'"
| pdu: "am_reachable strict e \<Longrightarrow> strict \<longrightarrow> strict_pdu e b \<Longrightarrow> nr_rlc_entity_am_recv_pdu e b = Some e' \<Longrightarrow> am_reachable strict e'"
| generate: "am_reachable strict e \<Longrightarrow> nr_rlc_entity_am_generate_pdu e b = Some (e', p) \<Longrightarrow> am_reachable strict e'"
| time: "am_reachable strict e \<Longrightarrow> nr_rlc_entity_am_set_time e now = Some e' \<Longrightarrow> am_reachable strict e'"
| discard: "am_reachable strict e \<Longrightarrow> am_reachable strict (nr_rlc_entity_am_discard_sdu e i)"
| reestablish: "am_reachable strict e \<Longrightarrow> strict \<Longrightarrow> am_reachable strict (nr_rlc_entity_am_reestablishment e)"

lemma am_reachable_ok:
  assumes "am_reachable strict e"
  shows "\<exists>L. am_ok e L \<and> (strict \<longrightarrow> L = [])"
  using assms
proof induction
  case new
  then show ?case using new_entity_ok by blast
next
  case (sdu e b i e')
  then obtain L where L: "am_ok e L" "strict \<longrightarrow> L = []" by blast
  have "am_tx_ok e' L" using recv_sdu_acct [OF _ sdu(3,2)] L(1) by (simp add: am_ok_def)
  then show ?case using am_ok_rx [OF L(1) recv_sdu_rx [OF sdu(3)]] L(2) by blast
next
  case (pdu e b e')
  then obtain L where L: "am_ok e L" "strict \<longrightarrow> L = []" by blast
  show ?case
  proof (rule recv_pdu_ok [OF L(1), of b])
    fix d L'
    assume "nr_rlc_entity_am_recv_pdu e b = Some d" "am_ok d (L @ L')" "strict_pdu e b \<longrightarrow> L' = []"
    then show ?thesis using pdu(2,3) L(2) by (intro exI [of _ "L @ L'"]) auto
  qed (use pdu(3) in simp)
next
  case generate
  then show ?case using generate_pdu_ok by blast
next
  case time
  then show ?case using set_time_ok by blast
next
  case (discard e i)
  then obtain L where L: "am_ok e L" "strict \<longrightarrow> L = []" by blast
  have "am_tx_ok (nr_rlc_entity_am_discard_sdu e i) L" using discard_sdu_acct L(1) by (simp add: am_ok_def)
  then show ?case using am_ok_rx [OF L(1) discard_sdu_rx] L(2) by blast
next
  case (reestablish e)
  then show ?case using clear_entity_ok by (auto simp: nr_rlc_entity_am_reestablishment_def)
qed

end
