(* ===== verification/Rlc_Am_Delivery.thy ===== *)
theory Rlc_Am_Delivery
  imports Rlc_Am_Safety
begin

text \<open>
  What the acknowledged mode receiver delivers: an SDU comes out with exactly its bytes, however it was cut
  and in whatever order its segments came; and the state after a PDU with a complete SDU.
\<close>

section \<open>Reassembly\<close>

text \<open>A PDU with bytes of an SDU.\<close>

definition piece :: "u8 list \<Rightarrow> nr_rlc_pdu \<Rightarrow> bool" where
  "piece sdu p \<longleftrightarrow> 0 \<le> pdu_so p \<and> 1 \<le> pdu_size p \<and> pdu_so p + pdu_size p \<le> int (length sdu) \<and>
     pdu_data p = Some (take (nat (pdu_size p)) (drop (nat (pdu_so p)) sdu)) \<and>
     (pdu_is_last p \<longleftrightarrow> pdu_so p + pdu_size p = int (length sdu))"

lemma reassemble_step_piece:
  assumes "piece sdu p" and "int (length sdu) \<le> NR_SDU_MAX" and "0 \<le> so" "so \<le> int (length sdu)" "pdu_so p \<le> so"
  shows "reassemble_step (so, False, take (nat so) sdu) p =
    (max so (pdu_so p + pdu_size p), False, take (nat (max so (pdu_so p + pdu_size p))) sdu)"
proof -
  let ?len = "pdu_size p - (so - pdu_so p)"
  have p: "0 \<le> pdu_so p" "1 \<le> pdu_size p" "pdu_so p + pdu_size p \<le> int (length sdu)"
    "pdu_data p = Some (take (nat (pdu_size p)) (drop (nat (pdu_so p)) sdu))"
    using assms(1) by (auto simp: piece_def)
  show ?thesis
  proof (cases "0 < ?len")
    case True
    have bad: "\<not> so + ?len > NR_SDU_MAX" using p assms(2) by simp
    have mx: "max so (pdu_so p + pdu_size p) = so + ?len" using True by simp
    have "take (nat ?len) (drop (nat (so - pdu_so p)) (take (nat (pdu_size p)) (drop (nat (pdu_so p)) sdu))) = take (nat ?len) (drop (nat so) sdu)"
      using True assms(3,5) p(1,2) by (simp add: drop_take flip: nat_add_distrib nat_diff_distrib')
    moreover have "take (nat so) sdu @ take (nat ?len) (drop (nat so) sdu) = take (nat (so + ?len)) sdu"
      using take_add [of "nat so" "nat ?len" sdu] nat_add_distrib [of so ?len] True assms(3) by simp
    ultimately show ?thesis using True bad assms(5) p(4) unfolding mx by (simp add: reassemble_step_def Let_def)
  next
    case False
    then have "max so (pdu_so p + pdu_size p) = so" by simp
    then show ?thesis using False assms by (simp add: reassemble_step_def Let_def)
  qed
qed

lemma reassemble_rest:
  assumes "\<forall>p\<in>set l. piece sdu p" and "int (length sdu) \<le> NR_SDU_MAX"
  shows "foldl reassemble_step (int (length sdu), False, sdu) l = (int (length sdu), False, sdu)"
  using assms(1)
proof (induction l)
  case (Cons p l)
  have "pdu_so p + pdu_size p \<le> int (length sdu)" "pdu_so p \<le> int (length sdu)" using Cons.prems by (auto simp: piece_def)
  then have "reassemble_step (int (length sdu), False, sdu) p = (int (length sdu), False, sdu)"
    using reassemble_step_piece [of sdu p "int (length sdu)"] Cons.prems assms(2) by (simp add: max_absorb1)
  then show ?case using Cons by simp
qed simp

lemma reassemble_pieces:
  assumes "\<forall>p\<in>set l. piece sdu p" and "int (length sdu) \<le> NR_SDU_MAX" and "0 \<le> so" "so \<le> int (length sdu)"
    and "am_full_loop (so - 1) l"
  shows "foldl reassemble_step (so, False, take (nat so) sdu) l = (int (length sdu), False, sdu)"
  using assms(1,3,4,5)
proof (induction l arbitrary: so)
  case (Cons p l)
  let ?so = "max so (pdu_so p + pdu_size p)"
  have p: "piece sdu p" "pdu_so p \<le> so" "pdu_so p + pdu_size p \<le> int (length sdu)"
    using Cons.prems by (auto simp: piece_def split: if_splits)
  note step = reassemble_step_piece [OF p(1) assms(2) Cons.prems(2,3) p(2)]
  show ?case
  proof (cases "pdu_is_last p")
    case True
    then have "?so = int (length sdu)" using p(1) Cons.prems(3) by (simp add: piece_def)
    then show ?thesis using step reassemble_rest [of l sdu] assms(2) Cons.prems(1) by simp
  next
    case False
    have "max (so - 1) (pdu_so p + pdu_size p - 1) = ?so - 1" by simp
    then have "am_full_loop (?so - 1) l" using Cons.prems(4) False p(2) by simp
    then show ?thesis using step Cons.IH [of ?so] Cons.prems p(3) by simp
  qed
qed simp

lemma deliver_exact:
  assumes "\<forall>p\<in>set (slot e sn). piece sdu p" and "int (length sdu) \<le> NR_SDU_MAX" and "am_sdu_full e sn"
  shows "am_delivered (am_reassemble_and_deliver e sn) = am_delivered e @ [sdu]"
proof -
  have "am_full_loop (0 - 1) (slot e sn)" using assms(3) by (simp add: am_sdu_full_def split: if_splits)
  from reassemble_pieces [OF assms(1,2) _ _ this] show ?thesis
    by (simp add: am_reassemble_and_deliver_def Let_def)
qed

text \<open>The SDU is complete when every one of its bytes is in a segment.\<close>

definition covers :: "nr_rlc_pdu list \<Rightarrow> int \<Rightarrow> int \<Rightarrow> bool" where
  "covers l a b \<longleftrightarrow> (\<forall>x. a \<le> x \<and> x < b \<longrightarrow> (\<exists>p\<in>set l. pdu_so p \<le> x \<and> x < pdu_so p + pdu_size p))"

lemma full_loop_covers:
  assumes "sorted (map pdu_so l)" and "\<forall>p\<in>set l. piece sdu p" and "so < int (length sdu)"
  shows "am_full_loop (so - 1) l \<longleftrightarrow> covers l so (int (length sdu))"
  using assms
proof (induction l arbitrary: so)
  case Nil
  then show ?case by (auto simp: covers_def)
next
  case (Cons p l)
  let ?so = "max so (pdu_so p + pdu_size p)"
  have p: "piece sdu p" using Cons.prems by simp
  show ?case
  proof (cases "pdu_so p > so")
    case True
    then have "\<forall>q\<in>set (p # l). so < pdu_so q" using Cons.prems(1) by auto
    then have "\<not> covers (p # l) so (int (length sdu))"
      using Cons.prems(3) unfolding covers_def by (metis order_refl linorder_not_le)
    then show ?thesis using True by simp
  next
    case F: False
    show ?thesis
    proof (cases "pdu_is_last p")
      case True
      then have "covers (p # l) so (int (length sdu))" using F p by (auto simp: covers_def piece_def)
      then show ?thesis using F True by simp
    next
      case False
      then have "?so < int (length sdu)" using p Cons.prems(3) by (auto simp: piece_def)
      moreover have "max (so - 1) (pdu_so p + pdu_size p - 1) = ?so - 1" by simp
      ultimately have "am_full_loop (so - 1) (p # l) \<longleftrightarrow> covers l ?so (int (length sdu))"
        using Cons F False by simp
      also have "\<dots> \<longleftrightarrow> covers (p # l) so (int (length sdu))"
        using F by (fastforce simp: covers_def)
      finally show ?thesis .
    qed
  qed
qed

lemma covers_insert: "covers (insert_by_so l p) a b \<longleftrightarrow> covers (p # l) a b"
  by (simp add: covers_def)

section \<open>Reception of a PDU of an SDU\<close>

definition rx_rest :: "nr_rlc_entity_am \<Rightarrow> u8 list list \<times> int \<times> int \<times> nat" where
  "rx_rest e = (am_delivered e, am_rx_size e, am_rx_maxsize e, am_sn_field_length e)"

lemma rx_rest_steps [simp]:
  "rx_rest (am_raise_highest e x) = rx_rest e" "rx_rest (am_timer_start e) = rx_rest e"
  "rx_rest (am_timer_stop e) = rx_rest e" "rx_rest (am_trigger_status e b) = rx_rest e"
  by (simp_all add: rx_rest_def am_raise_highest_def am_timer_start_def am_timer_stop_def am_trigger_status_def)

lemma reception_actions_rest:
  assumes "am_reception_actions e x = Some e'"
  shows "rx_rest e' = rx_rest (if am_sdu_full e x then am_reassemble_and_deliver (am_raise_highest e x) x else e)"
proof -
  obtain d where d: "am_reception_window e x = Some d" "e' = am_timer_start (am_timer_stop d)"
    using assms by (auto simp: am_reception_actions_def)
  define c where "c = am_raise_highest e x"
  have full: "am_sdu_full c x = am_sdu_full e x" by (simp add: c_def)
  have "rx_rest d = rx_rest (if am_sdu_full e x then am_reassemble_and_deliver c x else c)"
  proof (cases "am_sdu_full c x")
    case True
    then obtain b where b: "am_raise_status (am_reassemble_and_deliver c x) x = Some b"
      "(if x = am_rx_next b then am_advance_window b else Some b) = Some d"
      using d(1) unfolding am_reception_window_def Let_def c_def [symmetric] by (auto split: Option.bind_splits)
    have "rx_rest b = rx_rest (am_reassemble_and_deliver c x)"
      using b(1) by (auto simp: am_raise_status_def rx_rest_def split: if_splits)
    moreover have "rx_rest d = rx_rest b"
    proof (cases "x = am_rx_next b")
      case True
      then have "am_advance_window b = Some d" using b(2) by simp
      from advance_window_frame [OF this] show ?thesis by (rule ssubst) (simp add: rx_rest_def)
    qed (use b(2) in simp)
    ultimately show ?thesis using True full by simp
  next
    case False
    then have "d = c" using d(1) unfolding am_reception_window_def Let_def c_def [symmetric] by simp
    then show ?thesis using False full by simp
  qed
  then show ?thesis using d(2) by (simp add: c_def)
qed

text \<open>The PDU is accepted: not too much data, in the window, with new bytes.\<close>

definition am_accepts :: "nr_rlc_entity_am \<Rightarrow> int \<Rightarrow> int \<Rightarrow> int \<Rightarrow> bool" where
  "am_accepts e sn so sz \<longleftrightarrow> am_rx_size e + sz \<le> am_rx_maxsize e \<and> sn_in_recv_window e sn \<and> \<not> segment_already_received e sn so sz"

lemma recv_pdu_data:
  assumes "am_decode_header (am_sn_field_length e) b = Some (Am_data p f l sn so k)" and "drop k b \<noteq> []"
    and "am_accepts e sn so (int (length b) - int k)"
  obtains st where "nr_rlc_entity_am_recv_pdu e b = map_option (\<lambda>e. am_trigger_status e p)
    (am_reception_actions (am_store_pdu (e\<lparr>am_stats := st\<rparr>) (nr_rlc_new_pdu sn so f l (drop k b))) sn)"
proof -
  define st where "st = (am_stats e)\<lparr>rxpdu_pkts := rxpdu_pkts (am_stats e) + 1,
                                         rxpdu_bytes := rxpdu_bytes (am_stats e) + word_of_int (int (length b))\<rparr>"
  have "am_accepts (e\<lparr>am_stats := st\<rparr>) sn so (int (length b) - int k)"
    using assms(3) by (simp add: am_accepts_def sn_in_recv_window_def am_modulus_rx_def segment_already_received_def slot_def Let_def split: if_splits)
  then have "am_recv_data (e\<lparr>am_stats := st\<rparr>) b p f l sn so k = map_option (\<lambda>e. am_trigger_status e p)
    (am_reception_actions (am_store_pdu (e\<lparr>am_stats := st\<rparr>) (nr_rlc_new_pdu sn so f l (drop k b))) sn)"
    using assms(2) by (simp add: am_recv_data_def Let_def am_accepts_def)
  then show thesis
    by (intro that [of st]) (simp add: nr_rlc_entity_am_recv_pdu_def Let_def assms(1) st_def)
qed

lemma recv_pdu_delivers:
  assumes ok: "am_ok e L" and h: "am_decode_header (am_sn_field_length e) b = Some (Am_data p f l sn so k)"
    and acc: "am_accepts e sn so (int (length b) - int k)" and new: "piece sdu (nr_rlc_new_pdu sn so f l (drop k b))"
    and old: "\<forall>q\<in>set (slot e sn). piece sdu q" and len: "int (length sdu) \<le> NR_SDU_MAX"
    and r: "nr_rlc_entity_am_recv_pdu e b = Some e'"
  shows "am_delivered e' = am_delivered e @
    (if covers (nr_rlc_new_pdu sn so f l (drop k b) # slot e sn) 0 (int (length sdu)) then [sdu] else [])"
proof -
  let ?p = "nr_rlc_new_pdu sn so f l (drop k b)"
  have ne: "drop k b \<noteq> []" using new by (auto simp: piece_def nr_rlc_new_pdu_def)
  obtain st where st: "nr_rlc_entity_am_recv_pdu e b = map_option (\<lambda>e. am_trigger_status e p)
    (am_reception_actions (am_store_pdu (e\<lparr>am_stats := st\<rparr>) ?p) sn)"
    by (rule recv_pdu_data [OF h ne acc])
  define d where "d = am_store_pdu (e\<lparr>am_stats := st\<rparr>) ?p"
  have "map_option (\<lambda>e. am_trigger_status e p) (am_reception_actions d sn) = Some e'"
    unfolding d_def st [symmetric] by (rule r)
  then obtain c where c: "am_reception_actions d sn = Some c" "e' = am_trigger_status c p"
    by (cases "am_reception_actions d sn") auto
  have g: "am_geo e" "is_sn e sn" "sorted (map pdu_so (slot e sn))"
  proof -
    show g: "am_geo e" using ok by (simp add: am_ok_def am_rx_ok_def am_win_ok_def)
    have "header_ok (am_sn_field_length e) (Am_data p f l sn so k)"
      using decode_header_total [of "am_sn_field_length e" b] h ok by (auto simp: am_ok_def am_conf_ok_def sn_len_ok_def)
    then show sn: "is_sn e sn" using ok by (simp add: is_sn_def am_ok_def am_conf_ok_def)
    have "0 \<le> off e sn" "off e sn < am_window_size e"
      using off_range [OF g sn] acc by (auto simp: am_accepts_def sn_in_recv_window_def)
    then have "slot_ok (sn_at e (off e sn)) (ring e (off e sn))" using ok by (simp add: am_ok_def am_rx_ok_def am_win_ok_def)
    then show "sorted (map pdu_so (slot e sn))"
      using slot_at [OF g, of "off e sn"] sn_at_modulus [OF g sn] by (simp add: slot_ok_def)
  qed
  have slot: "slot d sn = insert_by_so (slot e sn) ?p"
    by (simp add: d_def am_store_pdu_def slot_def nr_rlc_rx_manager_add_pdu_def nr_rlc_rx_manager_get_pdu_from_sn_def
        nr_rlc_new_pdu_def Let_def get_pos_def)
  then have pieces: "\<forall>q\<in>set (slot d sn). piece sdu q" "sorted (map pdu_so (slot d sn))"
    using new old insert_by_so_sorted g(3) by auto
  have pos: "0 < int (length sdu)" using new by (auto simp: piece_def)
  have "\<not> processed (slot d sn)"
    using pieces(1) by (cases "slot d sn") (auto simp: processed_def piece_def)
  then have full: "am_sdu_full d sn \<longleftrightarrow> covers (?p # slot e sn) 0 (int (length sdu))"
    using full_loop_covers [OF pieces(2,1) pos] covers_insert slot by (simp add: am_sdu_full_def)
  have del: "am_delivered d = am_delivered e" by (simp add: d_def am_store_pdu_def)
  have "am_delivered c = am_delivered (if am_sdu_full d sn then am_reassemble_and_deliver (am_raise_highest d sn) sn else d)"
    using reception_actions_rest [OF c(1)] by (simp add: rx_rest_def)
  also have "\<dots> = am_delivered e @ (if am_sdu_full d sn then [sdu] else [])"
  proof (cases "am_sdu_full d sn")
    case True
    have s: "slot (am_raise_highest d sn) sn = slot d sn" "am_delivered (am_raise_highest d sn) = am_delivered d"
      by (simp_all add: am_raise_highest_def slot_def)
    have "am_delivered (am_reassemble_and_deliver (am_raise_highest d sn) sn) = am_delivered d @ [sdu]"
      using deliver_exact [of "am_raise_highest d sn" sn sdu] pieces(1) len True by (simp add: s)
    then show ?thesis using True del by simp
  qed (simp add: del)
  finally show ?thesis using c(2) full by (simp add: am_trigger_status_def)
qed

end
