(* ===== verification/Rlc_Am_Stall.thy ===== *)
theory Rlc_Am_Stall
  imports Rlc_Am_Delivery
begin

text \<open>
  A run after which the acknowledged mode receiver never returns: complete SDUs for every sequence number
  of the window but the first are received before the reassembly timer expires, and then the first one.
\<close>

section \<open>A PDU with a complete SDU\<close>

lemma complete_pdu_step:
  assumes ok: "am_rx_ok e" and conf: "am_conf_ok e" and i: "1 \<le> i" "i < am_window_size e" and empty: "ring e i = []"
    and hs: "am_rx_highest_status e = am_rx_next e"
    and h: "am_decode_header (am_sn_field_length e) b = Some (Am_data False True True (sn_at e i) 0 k)" and ne: "drop k b \<noteq> []"
    and room: "am_rx_size e + (int (length b) - int k) \<le> am_rx_maxsize e"
  obtains e' where "nr_rlc_entity_am_recv_pdu e b = Some e'" and "am_rx_ok e'" and "am_conf_ok e'" and "rx_rest e' = (am_delivered e', am_rx_size e, am_rx_maxsize e, am_sn_field_length e)"
    and "am_rx_next e' = am_rx_next e" and "am_rx_highest_status e' = am_rx_next e" and "am_window_size e' = am_window_size e"
    and "processed (ring e' i)" and "\<And>j. 0 \<le> j \<Longrightarrow> j < am_window_size e \<Longrightarrow> j \<noteq> i \<Longrightarrow> ring e' j = ring e j"
proof -
  let ?sn = "sn_at e i" and ?p = "nr_rlc_new_pdu (sn_at e i) 0 True True (drop k b)"
  have i0: "0 \<le> i" using i by simp
  have g: "am_geo e" using ok by (simp add: am_rx_ok_def am_win_ok_def)
  have w: "am_sn_modulus e = 2 * am_window_size e" using g by (simp add: am_geo_def)
  have o: "off e ?sn = i" using off_at [OF g i0] i w by simp
  have s: "slot e ?sn = []" using slot_at [OF g, of i] empty by simp
  have "am_accepts e ?sn 0 (int (length b) - int k)"
    using room i o s ne by (simp add: am_accepts_def sn_in_recv_window_def segment_already_received_def)
  from recv_pdu_data [OF h ne this] obtain st where r: "nr_rlc_entity_am_recv_pdu e b = map_option (\<lambda>e. am_trigger_status e False)
      (am_reception_actions (am_store_pdu (e\<lparr>am_stats := st\<rparr>) ?p) ?sn)" by blast
  define d where "d = e\<lparr>am_stats := st\<rparr>"
  have v: "rx_view d = rx_view e" by (simp add: d_def)
  have dok: "am_rx_ok d" using rx_view_ok [OF v] ok by simp
  have fd: "am_window_size d = am_window_size e" "sn_at d = sn_at e" "ring d = ring e" "am_rx_next d = am_rx_next e"
    "am_rx_highest_status d = am_rx_highest_status e" "rx_rest d = rx_rest e"
    by (simp_all add: d_def sn_at_def ring_def fun_eq_iff rx_rest_def)
  have pok: "pdu_ok (sn_at d i) ?p" "pdu_data ?p \<noteq> None"
    using new_pdu_ok [of 0 True "drop k b" "sn_at e i" True] ne fd by (simp_all add: nr_rlc_new_pdu_def)
  have id: "i < am_window_size d" using i fd by simp
  define c where "c = am_raise_highest (am_store_pdu d ?p) (sn_at d i)"
  note sr = store_raise [OF dok i0 id pok c_def]
  have cwin: "am_win_ok c" using sr(1) by (simp add: am_rx_ok_def)
  then have gc: "am_geo c" by (simp add: am_win_ok_def)
  have rc: "ring c i = [?p]" using sr(5) empty fd by simp
  have full: "am_sdu_full c (sn_at c i)"
    using slot_at [OF gc, of i] rc by (simp add: am_sdu_full_def processed_def nr_rlc_new_pdu_def)
  have ic: "i < am_window_size c" using i sr(4) fd by simp
  define a where "a = am_reassemble_and_deliver c (sn_at c i)"
  note ra = reassemble_ring [OF gc i0 ic a_def] and wa = reassemble_win [OF cwin i0 ic full a_def]
  note fr = reassemble_frame [of c "sn_at c i", folded a_def]
  have fc: "am_rx_highest_status c = am_rx_next e" "am_rx_next c = am_rx_next e"
    by (simp_all add: c_def am_raise_highest_def am_store_pdu_def fd hs)
  have fa: "am_rx_highest_status a = am_rx_next e" "am_rx_next a = am_rx_next e" "am_window_size a = am_window_size e"
    using arg_cong [OF fr, of am_rx_highest_status] arg_cong [OF fr, of am_rx_next] arg_cong [OF fr, of am_window_size] fc sr(4) fd
    by simp_all
  have nz: "sn_at e i \<noteq> am_rx_next e"
    using o off_at [OF g, of 0] sn_at_zero [OF g] i w by auto
  have "am_reception_window (am_store_pdu d ?p) ?sn = Some a"
    using full nz fa unfolding am_reception_window_def Let_def c_def [unfolded fd, symmetric]
    by (simp add: sr(3) [unfolded fd] a_def [unfolded sr(3) fd, symmetric] am_raise_status_def)
  then have act: "am_reception_actions (am_store_pdu d ?p) ?sn = Some (am_timer_start (am_timer_stop a))"
    by (simp add: am_reception_actions_def)
  define e' where "e' = am_trigger_status (am_timer_start (am_timer_stop a)) False"
  have ring': "ring e' = ring a" "am_rx_next e' = am_rx_next a" "am_rx_highest_status e' = am_rx_highest_status a"
    "am_window_size e' = am_window_size a" "am_sn_modulus e' = am_sn_modulus a"
    by (simp_all add: e'_def am_trigger_status_def am_timer_start_def am_timer_stop_def ring_def fun_eq_iff)
  have res: "nr_rlc_entity_am_recv_pdu e b = Some e'" using r act by (simp add: d_def e'_def)
  have "am_rx_ok (am_timer_start (am_timer_stop a))"
    by (rule reception_actions_ok [OF dok i0 id pok]) (use act fd i in simp_all)
  then have ok': "am_rx_ok e'" using rx_view_ok [of e' "am_timer_start (am_timer_stop a)"] by (simp add: e'_def rx_frame)
  have "rx_rest e' = rx_rest a" by (simp add: e'_def)
  moreover have "am_rx_size a = am_rx_size e" "am_rx_maxsize a = am_rx_maxsize e" "am_sn_field_length a = am_sn_field_length e"
      "am_sn_modulus a = am_sn_modulus e"
    using arg_cong [OF fr, of am_rx_size] arg_cong [OF fr, of am_rx_maxsize] arg_cong [OF fr, of am_sn_field_length]
      arg_cong [OF fr, of am_sn_modulus] slot_at [OF gc, of i] rc
    by (simp_all add: c_def am_raise_highest_def am_store_pdu_def d_def)
  ultimately have rest: "rx_rest e' = (am_delivered e', am_rx_size e, am_rx_maxsize e, am_sn_field_length e)"
    and conf': "am_conf_ok e'" using conf ring'(5) by (simp_all add: rx_rest_def am_conf_ok_def sn_len_ok_def)
  show thesis
  proof (rule that [OF res ok' conf' rest])
    show "am_rx_next e' = am_rx_next e" "am_rx_highest_status e' = am_rx_next e" "am_window_size e' = am_window_size e"
      using ring' fa by simp_all
    show "processed (ring e' i)" using wa(2) ring' by simp
    show "ring e' j = ring e j" if "0 \<le> j" "j < am_window_size e" "j \<noteq> i" for j
      using ra(5) [of j] sr(4) sr(6) [of j] that ring' fd by simp
  qed
qed

text \<open>What a peer sends for an SDU of one byte.\<close>

definition complete_pdu :: "nat \<Rightarrow> int \<Rightarrow> u8 list" where
  "complete_pdu n sn =
     (case new_nr_rlc_entity_am 0 0 0 0 0 0 0 0 n of
        None \<Rightarrow> []
      | Some e \<Rightarrow>
          (case am_serialize_sdu (e\<lparr>am_heap := (\<lambda>_. null_sdu\<lparr>sh_sn := sn, sh_data := [0]\<rparr>)\<rparr>)
                  \<lparr>sg_sdu = 0, sg_size = 1, sg_so = 0, sg_is_first = True, sg_is_last = True\<rparr> (replicate 4 0) False of
             None \<Rightarrow> []
           | Some (e', pdu) \<Rightarrow> pdu))"

lemma complete_pdu_decode:
  assumes "n = 12 \<or> n = 18" and "0 \<le> sn" "sn < 2 ^ n"
  obtains k where "am_decode_header n (complete_pdu n sn) = Some (Am_data False True True sn 0 k)"
    and "drop k (complete_pdu n sn) = [0]" and "int (length (complete_pdu n sn)) - int k = 1"
proof -
  obtain e0 where e0: "new_nr_rlc_entity_am 0 0 0 0 0 0 0 0 n = Some e0" "am_sn_field_length e0 = n"
    using assms(1) by (auto simp: new_nr_rlc_entity_am_def)
  define e where "e = e0\<lparr>am_heap := (\<lambda>_. null_sdu\<lparr>sh_sn := sn, sh_data := [0]\<rparr>)\<rparr>"
  define s where "s = \<lparr>sg_sdu = 0, sg_size = 1, sg_so = 0, sg_is_first = True, sg_is_last = True\<rparr>"
  have f: "am_sn_field_length e = n" "sg_sn e s = sn" "am_segment_bytes e s = [0]"
    using e0(2) by (simp_all add: e_def s_def sg_sn_def sdu_of_def am_segment_bytes_def)
  have "am_sn_field_length e = 12 \<or> am_sn_field_length e = 18" using assms(1) f(1) by simp
  moreover have "am_compute_pdu_header_size e s \<le> int (length (replicate 4 (0 :: u8)))"
    by (simp add: am_compute_pdu_header_size_def s_def)
  ultimately obtain hdr where h: "am_serialize_sdu e s (replicate 4 0) False = Some (am_polled e False, hdr @ [0])"
    "bits_of hdr = am_header_bits n False sn s"
    using am_serialize_bits [of e s "replicate 4 0" False] f by metis
  have c: "complete_pdu n sn = hdr @ [0]"
    using h(1) by (simp add: complete_pdu_def e0(1) e_def [symmetric] s_def [symmetric])
  have "am_seg_range n sn s" using assms by (simp add: am_seg_range_def s_def)
  from am_decode_bits [OF this h(2), of "[0]"] show thesis
    by (intro that [of "length hdr"]) (simp_all add: c s_def)
qed

section \<open>The run\<close>

fun am_recv_all :: "nr_rlc_entity_am \<Rightarrow> u8 list list \<Rightarrow> nr_rlc_entity_am option" where
  "am_recv_all e [] = Some e"
| "am_recv_all e (b # bs) = Option.bind (nr_rlc_entity_am_recv_pdu e b) (\<lambda>e. am_recv_all e bs)"

lemma am_recv_all_append: "am_recv_all e (bs @ bs') = Option.bind (am_recv_all e bs) (\<lambda>e. am_recv_all e bs')"
  by (induction bs arbitrary: e) (simp_all split: Option.bind_splits)

definition gap_state :: "nat \<Rightarrow> int \<Rightarrow> nr_rlc_entity_am \<Rightarrow> bool" where
  "gap_state n m e \<longleftrightarrow> am_rx_ok e \<and> am_conf_ok e \<and> am_sn_field_length e = n \<and> am_window_size e = 2 ^ (n - 1) \<and>
     am_rx_size e = 0 \<and> 1 \<le> am_rx_maxsize e \<and> am_rx_next e = 0 \<and> am_rx_highest_status e = 0 \<and> ring e 0 = [] \<and>
     (\<forall>j. 1 \<le> j \<and> j \<le> m \<longrightarrow> processed (ring e j)) \<and> (\<forall>j. m < j \<and> j < am_window_size e \<longrightarrow> ring e j = [])"

lemma gap_state_step:
  assumes "gap_state n m e" and "0 \<le> m" and "m + 1 < 2 ^ (n - 1)"
  obtains e' where "nr_rlc_entity_am_recv_pdu e (complete_pdu n (m + 1)) = Some e'" and "gap_state n (m + 1) e'"
proof -
  have ok: "am_rx_ok e" "am_conf_ok e" and n: "am_sn_field_length e = n" "am_window_size e = 2 ^ (n - 1)" "am_rx_next e = 0"
    and hs: "am_rx_highest_status e = am_rx_next e" using assms(1) by (auto simp: gap_state_def)
  have n': "n = 12 \<or> n = 18" using ok(2) n by (auto simp: am_conf_ok_def sn_len_ok_def)
  then have big: "(2 :: int) ^ (n - 1) < 2 ^ n" by auto
  have i: "1 \<le> m + 1" "m + 1 < am_window_size e" using assms n by auto
  have at: "sn_at e (m + 1) = m + 1" using ok(2) n order_less_trans [OF assms(3) big] assms(2) by (simp add: sn_at_def am_conf_ok_def)
  have emp: "ring e (m + 1) = []" using assms(1) i by (simp add: gap_state_def)
  obtain k where k: "am_decode_header n (complete_pdu n (m + 1)) = Some (Am_data False True True (m + 1) 0 k)"
    "drop k (complete_pdu n (m + 1)) = [0]" "int (length (complete_pdu n (m + 1))) - int k = 1"
    by (rule complete_pdu_decode [OF n' _ order_less_trans [OF assms(3) big]]) (use assms(2) in simp_all)
  have room: "am_rx_size e + (int (length (complete_pdu n (m + 1))) - int k) \<le> am_rx_maxsize e"
    using k(3) assms(1) by (simp add: gap_state_def)
  show thesis
  proof (rule complete_pdu_step [OF ok i emp hs _ _ room])
    fix e'
    assume r: "nr_rlc_entity_am_recv_pdu e (complete_pdu n (m + 1)) = Some e'" "am_rx_ok e'" "am_conf_ok e'"
      "rx_rest e' = (am_delivered e', am_rx_size e, am_rx_maxsize e, am_sn_field_length e)"
      "am_rx_next e' = am_rx_next e" "am_rx_highest_status e' = am_rx_next e" "am_window_size e' = am_window_size e"
      "processed (ring e' (m + 1))"
      and other: "\<And>j. 0 \<le> j \<Longrightarrow> j < am_window_size e \<Longrightarrow> j \<noteq> m + 1 \<Longrightarrow> ring e' j = ring e j"
    have "processed (ring e' j)" if "1 \<le> j" "j \<le> m + 1" for j
      using that r(8) other [of j] assms(1) i by (cases "j = m + 1") (auto simp: gap_state_def)
    moreover have "ring e' j = []" if "m + 1 < j" "j < am_window_size e" for j
      using that other [of j] assms(1,2) by (auto simp: gap_state_def)
    moreover have "ring e' 0 = []" using other [of 0] assms(1,2) i by (auto simp: gap_state_def)
    ultimately have "gap_state n (m + 1) e'" using r assms(1) by (simp add: gap_state_def rx_rest_def)
    then show thesis using that r(1) by blast
  qed (use k n at in simp_all)
qed

lemma gap_state_run:
  assumes "gap_state n 0 e" and "int m < 2 ^ (n - 1)"
  shows "\<exists>e'. am_recv_all e (map (\<lambda>i. complete_pdu n (int i)) [1..<Suc m]) = Some e' \<and> gap_state n (int m) e'"
  using assms(2)
proof (induction m)
  case (Suc m)
  then obtain d where d: "am_recv_all e (map (\<lambda>i. complete_pdu n (int i)) [1..<Suc m]) = Some d" "gap_state n (int m) d"
    using order_le_less_trans [of "int m" "int (Suc m)"] by fastforce
  obtain e' where e': "nr_rlc_entity_am_recv_pdu d (complete_pdu n (int m + 1)) = Some e'" "gap_state n (int m + 1) e'"
    by (rule gap_state_step [OF d(2)]) (use Suc.prems in simp_all)
  have "[1..<Suc (Suc m)] = [1..<Suc m] @ [Suc m]" by simp
  then show ?case using d(1) e' by (simp add: am_recv_all_append add.commute)
qed (use assms(1) in simp)

lemma gap_state_new:
  assumes "new_nr_rlc_entity_am rx_max tx_max t_poll t_reas t_proh poll_pdu poll_byte max_retx n = Some e" and "1 \<le> rx_max"
  shows "gap_state n 0 e"
proof -
  have "am_rx_ok e" "am_conf_ok e" using new_entity_ok [OF assms(1)] by (auto simp: am_ok_def)
  moreover have "ring e j = []" for j
    using assms(1) by (auto simp: new_nr_rlc_entity_am_def ring_def rxm_at_def nr_rlc_new_rx_manager_def split: if_splits)
  ultimately show ?thesis
    using assms by (auto simp: gap_state_def new_nr_rlc_entity_am_def c_div_def split: if_splits)
qed

lemma gap_state_hang:
  assumes "gap_state n (2 ^ (n - 1) - 1) e"
  shows "nr_rlc_entity_am_recv_pdu e (complete_pdu n 0) = None"
proof -
  have ok: "am_rx_ok e" "am_conf_ok e" and n: "am_sn_field_length e = n" "am_window_size e = 2 ^ (n - 1)" "am_rx_next e = 0"
    "ring e 0 = []" using assms by (auto simp: gap_state_def)
  have n': "n = 12 \<or> n = 18" using ok(2) n by (auto simp: am_conf_ok_def sn_len_ok_def)
  have g: "am_geo e" using ok by (simp add: am_rx_ok_def am_win_ok_def)
  obtain k where k: "am_decode_header n (complete_pdu n 0) = Some (Am_data False True True 0 0 k)"
    "drop k (complete_pdu n 0) = [0]" "int (length (complete_pdu n 0)) - int k = 1"
    by (rule complete_pdu_decode [OF n', of 0]) simp_all
  have s: "slot e 0 = []" using slot_at [OF g, of 0] sn_at_zero [OF g] n by simp
  have acc: "am_accepts e 0 0 (int (length (complete_pdu n 0)) - int k)"
    using k(3) s n assms am_geo_size [OF g]
    by (simp add: am_accepts_def sn_in_recv_window_def am_modulus_rx_def segment_already_received_def gap_state_def)
  let ?p = "nr_rlc_new_pdu 0 0 True True [0]"
  have "am_decode_header (am_sn_field_length e) (complete_pdu n 0) = Some (Am_data False True True 0 0 k)"
    using k(1) n(1) by simp
  from recv_pdu_data [OF this _ acc] k(2) obtain st where
    r: "nr_rlc_entity_am_recv_pdu e (complete_pdu n 0) = map_option (\<lambda>e. am_trigger_status e False)
      (am_reception_actions (am_store_pdu (e\<lparr>am_stats := st\<rparr>) ?p) 0)" by auto
  define d where "d = e\<lparr>am_stats := st\<rparr>"
  have dok: "am_rx_ok d" using rx_view_ok [of d e] ok by (simp add: d_def)
  have "last_gap d" using assms n by (auto simp: last_gap_def d_def ring_def gap_state_def)
  moreover have "pdu_ok (am_rx_next d) ?p" using new_pdu_ok [of 0 True "[0]" 0 True] n by (simp add: d_def)
  moreover have "slot (am_store_pdu d ?p) 0 = [?p]"
    using s by (simp add: d_def am_store_pdu_def slot_def nr_rlc_rx_manager_add_pdu_def nr_rlc_rx_manager_get_pdu_from_sn_def
        nr_rlc_new_pdu_def Let_def get_pos_def)
  then have "am_sdu_full (am_store_pdu d ?p) (am_rx_next d)"
    using n by (simp add: am_sdu_full_def d_def processed_def nr_rlc_new_pdu_def)
  ultimately have "am_reception_actions (am_store_pdu d ?p) (am_rx_next d) = None"
    by (intro reception_actions_hang [OF dok]) (simp_all add: nr_rlc_new_pdu_def)
  then show ?thesis using r n by (simp add: d_def)
qed

end
