(* ===== verification/Rlc_Am_Size.thy ===== *)
theory Rlc_Am_Size
  imports Rlc_Am_Safety
begin

text \<open>
  The size that the acknowledged mode entity announces for its STATUS PDU (\<^verbatim>\<open>status_size\<close>, used by
  the buffer status) is the size of the PDU that it generates (\<^verbatim>\<open>generate_status\<close>).
\<close>

section \<open>Sequence numbers of missing parts\<close>

abbreviation sns :: "nr_rlc_entity_am \<Rightarrow> nr_rlc_pdu list \<Rightarrow> bool" where
  "sns e l \<equiv> \<forall>p\<in>set l. is_sn e (pdu_sn p)"

lemma is_sn_step:
  assumes "am_geo e" and "is_sn e sn"
  shows "is_sn e (c_mod (sn + 1) (am_sn_modulus e))" and "is_sn e (c_mod (sn - 1 + am_sn_modulus e) (am_sn_modulus e))"
  using assms am_geo_size [OF assms(1)] by (auto simp: is_sn_def c_mod_nonneg)

lemma slot_sns:
  assumes "am_rx_ok e" and "is_sn e sn"
  shows "sns e (slot e sn)"
proof -
  have win: "am_win_ok e" using assms(1) by (simp add: am_rx_ok_def)
  then have g: "am_geo e" by (simp add: am_win_ok_def)
  let ?i = "off e sn mod am_window_size e"
  have "slot e sn = ring e ?i"
    using slot_at [OF g, of "off e sn"] sn_at_modulus [OF g assms(2)] ring_mod [OF g] by simp
  moreover have "slot_ok (sn_at e ?i) (ring e ?i)" using win am_geo_size [OF g] by (simp add: am_win_ok_def)
  ultimately show ?thesis using is_sn_at [OF g, of ?i] by (auto simp: slot_ok_def pdu_ok_def)
qed

lemma search_sns:
  assumes "search_rx_pdu e sn z = Some l" and ok: "am_rx_ok e" and "is_sn e sn"
  shows "sns e l"
proof -
  have g: "am_geo e" using ok by (simp add: am_rx_ok_def am_win_ok_def)
  have "am_rx_ok e \<longrightarrow> is_sn e sn \<longrightarrow> sns e l"
  proof (rule search_rx_pdu.raw_induct [OF _ assms(1), of "\<lambda>e sn z l. am_rx_ok e \<longrightarrow> is_sn e sn \<longrightarrow> sns e l"])
    fix f e sn z l
    assume IH: "\<And>e sn z l. f e sn z = Some l \<Longrightarrow> am_rx_ok e \<longrightarrow> is_sn e sn \<longrightarrow> sns e l"
      and s: "(if sn = z \<or> slot e sn \<noteq> [] then Some (slot e sn) else f e (c_mod (sn + 1) (am_sn_modulus e)) z) = Some l"
    show "am_rx_ok e \<longrightarrow> is_sn e sn \<longrightarrow> sns e l"
    proof (intro impI)
      assume a: "am_rx_ok e" "is_sn e sn"
      then have g: "am_geo e" by (simp add: am_rx_ok_def am_win_ok_def)
      show "sns e l"
        using s IH [of e "c_mod (sn + 1) (am_sn_modulus e)" z l] is_sn_step(1) [OF g a(2)] a slot_sns [OF a]
        by (auto split: if_splits)
    qed
  qed
  then show ?thesis using assms by blast
qed

lemma get_next_sns:
  assumes "get_next_rx_pdu e cur rest = Some l" and ok: "am_rx_ok e" and "is_sn e (pdu_sn cur)" and "sns e rest"
  shows "sns e l"
proof -
  have g: "am_geo e" using ok by (simp add: am_rx_ok_def am_win_ok_def)
  show ?thesis
    using assms(1,4) search_sns [OF _ ok is_sn_step(1) [OF g assms(3)]]
    by (auto simp: get_next_rx_pdu_def split: if_splits)
qed

definition missing_ok :: "nr_rlc_entity_am \<Rightarrow> missing_data_t option \<Rightarrow> bool" where
  "missing_ok e mo \<longleftrightarrow> (case mo of None \<Rightarrow> True | Some m \<Rightarrow> is_sn e (sn_start m) \<and> is_sn e (sn_end m) \<and> sns e (md_next m))"

lemma missing_parts_ok:
  assumes ok: "am_rx_ok e" and c: "is_sn e (pdu_sn cur)" "sns e rest"
  shows "is_sn e sn \<Longrightarrow> missing_ok e (Some (set_end_different_sdu e sn so cur (cur # rest)))"
    and "missing_ok e (missing_at_head e cur rest)" and "missing_ok e (missing_at_end e cur max_so b)"
    and "is_sn e sn \<Longrightarrow> missing_ok e (missing_between e sn max_so b cur rest)"
proof -
  have g: "am_geo e" and h: "is_sn e (am_rx_highest_status e)" using ok by (auto simp: am_rx_ok_def am_win_ok_def)
  note st = is_sn_step [OF g c(1)] is_sn_step(2) [OF g h, folded report_end_def] is_sn_rx_next [OF g]
  show *: "is_sn e sn \<Longrightarrow> missing_ok e (Some (set_end_different_sdu e sn so cur (cur # rest)))" for sn so
    using c st by (auto simp: missing_ok_def set_end_different_sdu_def Let_def)
  show "missing_ok e (missing_at_head e cur rest)"
    using *[OF st(4), of 0] by (simp add: missing_at_head_def) (simp add: missing_ok_def)
  show "missing_ok e (missing_at_end e cur max_so b)"
    using c st by (auto simp: missing_at_end_def missing_ok_def Let_def)
  show "missing_ok e (missing_between e sn max_so b cur rest)" if "is_sn e sn"
    using *[OF that, of "max_so + 1"] *[OF is_sn_step(1) [OF g that], of 0] that c
    by (simp add: missing_between_def Let_def) (auto simp: missing_ok_def)
qed

lemma next_missing_loop_ok:
  assumes "next_missing_loop e cur rest max_so b = Some mo" and "am_rx_ok e" and "is_sn e (pdu_sn cur)" and "sns e rest"
  shows "missing_ok e mo"
proof -
  have "am_rx_ok e \<longrightarrow> is_sn e (pdu_sn cur) \<longrightarrow> sns e rest \<longrightarrow> missing_ok e mo"
  proof (rule next_missing_loop.raw_induct [OF _ assms(1),
        of "\<lambda>e cur rest _ _ mo. am_rx_ok e \<longrightarrow> is_sn e (pdu_sn cur) \<longrightarrow> sns e rest \<longrightarrow> missing_ok e mo"])
    fix f e cur rest max_so b mo
    assume IH: "\<And>e cur rest m b mo. f e cur rest m b = Some mo \<Longrightarrow> am_rx_ok e \<longrightarrow> is_sn e (pdu_sn cur) \<longrightarrow> sns e rest \<longrightarrow> missing_ok e mo"
      and s: "(let max_so = max max_so (pdu_so cur + pdu_size cur - 1); last_reached = (b \<or> pdu_is_last cur)
      in Option.bind (get_next_rx_pdu e cur rest) (\<lambda>l.
           case l of
             [] \<Rightarrow> Some (missing_at_end e cur max_so last_reached)
           | cur' # rest' \<Rightarrow>
               if pdu_sn cur' = pdu_sn cur \<and> max_so \<ge> pdu_so cur' - 1
               then f e cur' rest' max_so last_reached
               else if pdu_sn cur' = c_mod (pdu_sn cur + 1) (am_sn_modulus e) \<and> last_reached \<and> pdu_is_first cur'
               then f e cur' rest' 0 False
               else Some (missing_between e (pdu_sn cur) max_so last_reached cur' rest'))) = Some mo"
    show "am_rx_ok e \<longrightarrow> is_sn e (pdu_sn cur) \<longrightarrow> sns e rest \<longrightarrow> missing_ok e mo"
    proof (intro impI)
      assume a: "am_rx_ok e" "is_sn e (pdu_sn cur)" "sns e rest"
      obtain l where l: "get_next_rx_pdu e cur rest = Some l" using s by (auto simp: Let_def split: Option.bind_splits)
      note ls = get_next_sns [OF l a]
      show "missing_ok e mo"
      proof (cases l)
        case Nil
        then show ?thesis using s l missing_parts_ok(3) [OF a] by (auto simp: Let_def)
      next
        case (Cons cur' rest')
        then have c: "is_sn e (pdu_sn cur')" "sns e rest'" using ls by auto
        show ?thesis using s l IH a(1,2) c missing_parts_ok(4) [OF a(1) c a(2)] unfolding Cons
          by (simp add: Let_def split: if_splits) blast+
      qed
    qed
  qed
  then show ?thesis using assms by blast
qed

lemma next_missing_ok:
  assumes "next_missing e cur rest ch = Some mo" and "am_rx_ok e" and "is_sn e (pdu_sn cur)" and "sns e rest"
  shows "missing_ok e mo"
  using assms missing_parts_ok(2) [OF assms(2-4)] next_missing_loop_ok by (auto simp: next_missing_def split: if_splits)

section \<open>The encoder\<close>

text \<open>The bits written so far into a buffer of \<open>n\<close> bytes.\<close>

definition written :: "nat \<Rightarrow> nat \<Rightarrow> nr_rlc_pdu_encoder option \<Rightarrow> bool" where
  "written n k x \<longleftrightarrow> (\<exists>enc. x = Some enc \<and> enc_ok enc \<and> length (enc_buffer enc) = n \<and> 8 * enc_byte enc + enc_bit enc = k)"

lemma put_field_written:
  assumes "written n k x" and "c \<le> 31" and "k + c \<le> 8 * n"
  shows "written n (k + c) (put_field v c x)"
proof -
  obtain enc where enc: "x = Some enc" "enc_ok enc" "length (enc_buffer enc) = n" "8 * enc_byte enc + enc_bit enc = k"
    using assms(1) by (auto simp: written_def)
  have l: "length (msb_bits v c) = c" by (simp add: msb_bits_def)
  from put_bit_list_bits [of enc "msb_bits v c"] obtain enc' where "put_bit_list enc (msb_bits v c) = Some enc'" "enc_ok enc'"
    "length (enc_buffer enc') = n" "8 * enc_byte enc' + enc_bit enc' = k + c"
    using enc assms(3) l by auto
  then show ?thesis using enc(1) assms(2) by (auto simp: written_def put_field_def nr_rlc_pdu_encoder_put_bits_def)
qed

definition st_at :: "nat \<Rightarrow> nat \<Rightarrow> status_state \<Rightarrow> bool" where
  "st_at n k st \<longleftrightarrow> written n (8 * k) (Some (st_enc st))"

lemma st_at_byte: "st_at n k st \<Longrightarrow> enc_byte (st_enc st) = k \<and> length (enc_buffer (st_enc st)) = n"
proof -
  assume "st_at n k st"
  then have "enc_bit (st_enc st) < 8" "8 * enc_byte (st_enc st) + enc_bit (st_enc st) = 8 * k" "length (enc_buffer (st_enc st)) = n"
    by (auto simp: st_at_def written_def enc_ok_def)
  then show ?thesis by presburger
qed

lemma set_bit_written: "written n k (Some enc) \<Longrightarrow> written n k (Some (set_buffer_bit enc p))"
  by (auto simp: written_def set_buffer_bit_def enc_ok_def)

lemma nack_size_encoded:
  assumes "sn_len_ok e"
  shows "encoded_nack_size e m = nack_size e m" and "2 \<le> nack_size e m"
  using assms by (auto simp: encoded_nack_size_def nack_size_def sn_len_ok_def c_div_def)

lemma put_nack_at:
  assumes st: "st_at n k st" and len: "sn_len_ok e" and room: "int k + nack_size e m \<le> int n"
  obtains st' where "put_nack e m c st = Some st'" and "st_at n (k + nat (nack_size e m)) st'" and "st_truncated st' = st_truncated st"
proof -
  let ?l = "am_sn_field_length e" and ?e2 = "\<not> (so_start m = 0 \<and> so_end m = 0xffff)" and ?e3 = "sn_start m \<noteq> sn_end m"
  define r where "r = (if ?l = 18 then 3 else 1 :: nat)"
  define x where "x = put_field 0 r (put_field (of_bool ?e3) 1 (put_field (of_bool ?e2) 1 (put_field 0 1
      (put_field (sn_start m) ?l (Some (set_buffer_bit (st_enc st) (st_e1 st)))))))"
  define y where "y = (if ?e2 then put_field (so_end m) 16 (put_field (so_start m) 16 x) else x)"
  define z where "z = (if ?e3 then put_field (int c) 8 y else y)"
  have h: "?l + 3 + r = 8 * (if ?l = 18 then 3 else 2)" "?l \<le> 31" "r \<le> 3" using len by (auto simp: sn_len_ok_def r_def)
  have ns: "8 * (k + nat (nack_size e m)) = 8 * k + (?l + 3 + r) + (if ?e2 then 32 else 0) + (if ?e3 then 8 else 0)"
    using h(1) by (simp add: nack_size_def Let_def)
  have fit: "8 * (k + nat (nack_size e m)) \<le> 8 * n" using room nack_size_encoded(2) [OF len, of m] by simp
  have "written n (8 * k) (Some (set_buffer_bit (st_enc st) (st_e1 st)))" using st set_bit_written by (simp add: st_at_def)
  then have "written n (8 * k + ?l + 1 + 1 + 1 + r) x"
    unfolding x_def by (intro put_field_written) (use h fit ns in \<open>simp_all add: r_def\<close>)
  then have wx: "written n (8 * k + (?l + 3 + r)) x" by (simp add: algebra_simps numeral_3_eq_3)
  have wy: "written n (8 * k + (?l + 3 + r) + (if ?e2 then 32 else 0)) y"
  proof (cases ?e2)
    case True
    have "written n (8 * k + (?l + 3 + r) + 16 + 16) (put_field (so_end m) 16 (put_field (so_start m) 16 x))"
      by (intro put_field_written wx) (use fit ns True in simp_all)
    then show ?thesis using True by (simp add: y_def)
  qed (use wx in \<open>simp add: y_def\<close>)
  have wz: "written n (8 * (k + nat (nack_size e m))) z"
  proof (cases ?e3)
    case True
    have "written n (8 * k + (?l + 3 + r) + (if ?e2 then 32 else 0) + 8) (put_field (int c) 8 y)"
      by (intro put_field_written wy) (use fit ns True in simp_all)
    then show ?thesis unfolding ns using True by (simp add: z_def)
  next
    case False
    then have "z = y" by (simp add: z_def)
    then show ?thesis unfolding ns using False wy by simp
  qed
  obtain enc where enc: "z = Some enc" "written n (8 * (k + nat (nack_size e m))) (Some enc)"
    using wz by (auto simp: written_def)
  obtain addr e1 lst where p: "put_nack e m c st =
      map_option (\<lambda>enc. st\<lparr>st_enc := enc, st_e1 := e1, st_so_end_address := addr, st_last_nack := lst\<rparr>) z"
    by (rule that [of "if ?e3 then sn_start m + (int c - 1) else sn_start m"
          "if ?e2 then map_option enc_byte (put_field (so_start m) 16 x) else None"
          "get_e1_position e (set_buffer_bit (st_enc st) (st_e1 st))"])
       (simp add: put_nack_def Let_def z_def y_def x_def r_def)
  then show thesis using that enc by (simp add: st_at_def)
qed

section \<open>The two walks over the missing parts\<close>

lemma generate_missing_loop_size:
  assumes "st_at n k st" and "sn_len_ok e" and "\<not> st_truncated st"
  shows "\<exists>st' k' c'. generate_missing_loop e m sn cnt st = Some st' \<and> st_at n k' st' \<and>
    missing_size_loop e m (int n) sn cnt (int k) c = (int k', c', st_truncated st') \<and> c \<le> c' \<and>
    (0 < cnt \<and> \<not> st_truncated st' \<longrightarrow> c < c')"
  using assms
proof (induction e m sn cnt st arbitrary: k c rule: generate_missing_loop.induct)
  case (1 e m sn cnt st)
  note b = st_at_byte [OF "1.prems"(1)]
  let ?cur = "min cnt 255" and ?m = "missing_range e m sn cnt"
  note ns = nack_size_encoded [OF "1.prems"(2), of ?m]
  show ?case
  proof (cases "cnt = 0 \<or> int k + nack_size e ?m > int n")
    case True
    then show ?thesis
    proof (cases "cnt = 0")
      case True
      then show ?thesis using "1.prems" b by (subst generate_missing_loop.simps, subst missing_size_loop.simps) auto
    next
      case False
      then have "int k + nack_size e ?m > int n" using True by simp
      moreover have "st_at n k (st\<lparr>st_truncated := True\<rparr>)" using "1.prems"(1) by (simp add: st_at_def)
      ultimately show ?thesis using False b
        by (subst generate_missing_loop.simps, subst missing_size_loop.simps) (auto simp: Let_def)
    qed
  next
    case False
    then have room: "int k + nack_size e ?m \<le> int n" by simp
    obtain st1 where st1: "put_nack e ?m ?cur st = Some st1" "st_at n (k + nat (nack_size e ?m)) st1"
      "st_truncated st1 = st_truncated st"
      by (rule put_nack_at [OF "1.prems"(1,2) room])
    let ?sn = "c_mod (sn + int ?cur) (am_sn_modulus e)" and ?k = "k + nat (nack_size e ?m)"
    have g: "generate_missing_loop e m sn cnt st = generate_missing_loop e m ?sn (cnt - ?cur) st1"
      using False b st1(1) by (subst generate_missing_loop.simps) (simp add: Let_def)
    have s: "missing_size_loop e m (int n) sn cnt (int k) c = missing_size_loop e m (int n) ?sn (cnt - ?cur) (int ?k) (c + 1)"
      using False ns by (subst missing_size_loop.simps) (simp add: Let_def)
    from "1.IH" [OF _ refl refl _ st1(1,2) "1.prems"(2), of "c + 1"] False b "1.prems"(3) st1(3)
    obtain st' k' c' where "generate_missing_loop e m ?sn (cnt - ?cur) st1 = Some st'" "st_at n k' st'"
      "missing_size_loop e m (int n) ?sn (cnt - ?cur) (int ?k) (c + 1) = (int k', c', st_truncated st')" "c + 1 \<le> c'" by auto
    then show ?thesis unfolding g s by auto
  qed
qed

lemma generate_missing_size:
  assumes st: "st_at n k st" and len: "sn_len_ok e" and g: "am_geo e" and m: "is_sn e (sn_start m)" "is_sn e (sn_end m)"
  obtains st' k' c' where "generate_missing e m st = Some st'" and "st_at n k' st'" and "0 \<le> c'"
    and "missing_size e m (int k) (int n) = (int k', c', st_truncated st')" and "\<not> st_truncated st' \<Longrightarrow> 0 < c'"
proof -
  have "0 < nat (missing_count e m)"
    using m am_geo_size [OF g] by (simp add: missing_count_def c_mod_nonneg is_sn_def add_strict_increasing)
  moreover have "st_at n k (st\<lparr>st_truncated := False, st_last_nack := -1\<rparr>)" using st by (simp add: st_at_def)
  ultimately show thesis
    using generate_missing_loop_size [of n k "st\<lparr>st_truncated := False, st_last_nack := -1\<rparr>" e m "sn_start m" "nat (missing_count e m)" 0]
      len that by (auto simp: generate_missing_def missing_size_def)
qed

lemma force_so_end_at: "st_at n k st \<Longrightarrow> st_at n k (force_so_end st)"
  by (auto simp: force_so_end_def st_at_def written_def enc_ok_def split: option.splits)

text \<open>Whether the head of the list is looked at, in terms of the NACKs counted so far.\<close>

definition same_walk :: "nr_rlc_pdu list \<Rightarrow> bool \<Rightarrow> int \<Rightarrow> bool" where
  "same_walk l check_head c \<longleftrightarrow> 0 \<le> c \<and> (l = [] \<or> (check_head \<longleftrightarrow> c = 0))"

text \<open>One round of both loops.\<close>

lemma round_size:
  assumes ok: "am_rx_ok e" "sn_len_ok e" and l: "sns e (cur # rest)" and st: "st_at n k st" and w: "same_walk (cur # rest) ch c"
    and m: "next_missing e cur rest ch = Some (Some m)"
  obtains st' k' c' where "generate_missing e m st = Some st'" and "st_at n k' (force_so_end st')"
    and "missing_size e m (int k) (int n) = (int k', c', st_truncated st')"
    and "same_walk (if st_truncated st' then [] else md_next m) False (c + c')"
    and "sns e (if st_truncated st' then [] else md_next m)"
proof -
  have g: "am_geo e" using ok by (simp add: am_rx_ok_def am_win_ok_def)
  have mok: "is_sn e (sn_start m)" "is_sn e (sn_end m)" "sns e (md_next m)"
    using next_missing_ok [OF m ok(1)] l by (auto simp: missing_ok_def)
  show thesis
    by (rule generate_missing_size [OF st ok(2) g mok(1,2)], rule that)
       (use mok(3) w force_so_end_at in \<open>auto simp: same_walk_def\<close>)
qed

definition sizes_agree :: "nr_rlc_entity_am \<Rightarrow> nr_rlc_pdu list \<Rightarrow> bool \<Rightarrow> status_state \<Rightarrow> int \<times> status_state \<Rightarrow> bool" where
  "sizes_agree e l ch st y \<longleftrightarrow> (am_rx_ok e \<and> sn_len_ok e \<and> sns e l \<longrightarrow>
     (\<forall>n k c. st_at n k st \<and> same_walk l ch c \<longrightarrow>
        status_size_loop e (int n) l c (int k) = Some (int (enc_byte (st_enc (snd y)))) \<and>
        length (enc_buffer (st_enc (snd y))) = n \<and> enc_byte (st_enc (snd y)) \<le> n))"

lemma generate_then_size:
  assumes "generate_status_loop e l ch nk st = Some y"
  shows "sizes_agree e l ch st y"
proof (rule generate_status_loop.raw_induct [OF _ assms, of "\<lambda>e l ch nk st y. sizes_agree e l ch st y"])
  fix f e l ch nk st y
  assume IH: "\<And>e l ch nk st y. f e l ch nk st = Some y \<Longrightarrow> sizes_agree e l ch st y"
    and s: "(case l of [] \<Rightarrow> Some (nk, st)
      | cur # rest \<Rightarrow> Option.bind (next_missing e cur rest ch) (\<lambda>mo. case mo of None \<Rightarrow> Some (nk, st)
          | Some m \<Rightarrow> Option.bind (generate_missing e m st) (\<lambda>st.
              f e (if st_truncated st then [] else md_next m) False
                (if st_last_nack st \<noteq> -1 then st_last_nack st else nk) (force_so_end st)))) = Some y"
  show "sizes_agree e l ch st y"
    unfolding sizes_agree_def
  proof (intro impI allI)
    fix n k c
    assume a: "am_rx_ok e \<and> sn_len_ok e \<and> sns e l" and b: "st_at n k st \<and> same_walk l ch c"
    have k: "enc_byte (st_enc st) = k" "length (enc_buffer (st_enc st)) = n" "k \<le> n"
      using st_at_byte b by (auto simp: st_at_def written_def enc_ok_def)
    show "status_size_loop e (int n) l c (int k) = Some (int (enc_byte (st_enc (snd y)))) \<and>
        length (enc_buffer (st_enc (snd y))) = n \<and> enc_byte (st_enc (snd y)) \<le> n"
    proof (cases l)
      case Nil
      then show ?thesis using s k by (subst status_size_loop.simps) auto
    next
      case (Cons cur rest)
      have ch: "ch \<longleftrightarrow> c = 0" using b Cons by (simp add: same_walk_def)
      obtain mo where mo: "next_missing e cur rest ch = Some mo" using s Cons by (auto split: Option.bind_splits)
      show ?thesis
      proof (cases mo)
        case None
        then show ?thesis using s k Cons mo ch by (subst status_size_loop.simps) auto
      next
        case (Some m)
        obtain st' k' c' where r: "generate_missing e m st = Some st'" "st_at n k' (force_so_end st')"
          "missing_size e m (int k) (int n) = (int k', c', st_truncated st')"
          "same_walk (if st_truncated st' then [] else md_next m) False (c + c')" "sns e (if st_truncated st' then [] else md_next m)"
          by (rule round_size [of e cur rest n k st ch c m]) (use a b mo Some Cons in auto)
        have "f e (if st_truncated st' then [] else md_next m) False
            (if st_last_nack st' \<noteq> -1 then st_last_nack st' else nk) (force_so_end st') = Some y"
          using s Cons mo Some r(1) by simp
        note agree = IH [OF this, unfolded sizes_agree_def, rule_format, OF _ conjI [OF r(2,4)]]
        have "status_size_loop e (int n) l c (int k) =
            status_size_loop e (int n) (if st_truncated st' then [] else md_next m) (c + c') (int k')"
          using Cons mo Some ch r(3) by (subst status_size_loop.simps) simp
        then show ?thesis using agree a r(5) by simp
      qed
    qed
  qed
qed

definition generates :: "nr_rlc_entity_am \<Rightarrow> int \<Rightarrow> nr_rlc_pdu list \<Rightarrow> int \<Rightarrow> int \<Rightarrow> bool" where
  "generates e maxsize l c sz \<longleftrightarrow> (am_rx_ok e \<and> sn_len_ok e \<and> sns e l \<longrightarrow>
     (\<forall>n k ch nk st. maxsize = int n \<and> sz = int k \<and> st_at n k st \<and> same_walk l ch c \<longrightarrow> generate_status_loop e l ch nk st \<noteq> None))"

lemma size_then_generate:
  assumes "status_size_loop e maxsize l c sz = Some y"
  shows "generates e maxsize l c sz"
proof (rule status_size_loop.raw_induct [OF _ assms, of "\<lambda>e maxsize l c sz y. generates e maxsize l c sz"])
  fix f e maxsize l c sz y
  assume IH: "\<And>e maxsize l c sz y. f e maxsize l c sz = Some y \<Longrightarrow> generates e maxsize l c sz"
    and s: "(case l of [] \<Rightarrow> Some sz
      | cur # rest \<Rightarrow> Option.bind (next_missing e cur rest (c = 0)) (\<lambda>mo. case mo of None \<Rightarrow> Some sz
          | Some m \<Rightarrow> (case missing_size e m sz maxsize of (sz, n, full) \<Rightarrow>
              f e maxsize (if full then [] else md_next m) (c + n) sz))) = Some y"
  show "generates e maxsize l c sz"
    unfolding generates_def
  proof (intro impI allI)
    fix n k ch nk st
    assume a: "am_rx_ok e \<and> sn_len_ok e \<and> sns e l"
      and b: "maxsize = int n \<and> sz = int k \<and> st_at n k st \<and> same_walk l ch c"
    show "generate_status_loop e l ch nk st \<noteq> None"
    proof (cases l)
      case Nil
      then show ?thesis by (subst generate_status_loop.simps) simp
    next
      case (Cons cur rest)
      have ch: "ch \<longleftrightarrow> c = 0" using b Cons by (simp add: same_walk_def)
      obtain mo where mo: "next_missing e cur rest ch = Some mo" using s Cons ch by (auto split: Option.bind_splits)
      show ?thesis
      proof (cases mo)
        case None
        then show ?thesis using Cons mo by (subst generate_status_loop.simps) simp
      next
        case (Some m)
        obtain st' k' c' where r: "generate_missing e m st = Some st'" "st_at n k' (force_so_end st')"
          "missing_size e m (int k) (int n) = (int k', c', st_truncated st')"
          "same_walk (if st_truncated st' then [] else md_next m) False (c + c')" "sns e (if st_truncated st' then [] else md_next m)"
          by (rule round_size [of e cur rest n k st ch c m]) (use a b mo Some Cons in auto)
        have "f e maxsize (if st_truncated st' then [] else md_next m) (c + c') (int k') = Some y"
          using s Cons mo Some ch r(3) b by simp
        note gen = IH [OF this, unfolded generates_def, rule_format]
        have "generate_status_loop e l ch nk st =
            generate_status_loop e (if st_truncated st' then [] else md_next m) False
              (if st_last_nack st' \<noteq> -1 then st_last_nack st' else nk) (force_so_end st')"
          using Cons mo Some r(1) by (subst generate_status_loop.simps) simp
        then show ?thesis using gen a b r by simp
      qed
    qed
  qed
qed

section \<open>The announced size\<close>

lemma put_ack_sn_length [simp]: "length (put_ack_sn e a b) = length b"
  by (simp add: put_ack_sn_def)

lemma status_size_generated:
  assumes ok: "am_rx_ok e" and len: "sn_len_ok e"
  shows "status_size e (int (length buffer)) = map_option (\<lambda>(e', pdu). int (length pdu)) (generate_status e buffer)"
proof (cases "length buffer < 3")
  case True
  then show ?thesis by (simp add: status_size_def generate_status_def)
next
  case False
  have "written (length buffer) 0 (Some (nr_rlc_pdu_encoder_init buffer))"
    by (simp add: written_def nr_rlc_pdu_encoder_init_def enc_ok_def)
  from put_field_written [OF this, of 24 0] False obtain enc where enc:
    "nr_rlc_pdu_encoder_put_bits (nr_rlc_pdu_encoder_init buffer) 0 24 = Some enc" "written (length buffer) (8 * 3) (Some enc)"
    by (auto simp: put_field_def written_def)
  let ?st = "status_start e enc" and ?nk = "c_mod (am_rx_next e - 1 + am_sn_modulus e) (am_sn_modulus e)"
  have st: "st_at (length buffer) 3 ?st" using enc(2) by (simp add: st_at_def status_start_def)
  show ?thesis
  proof (cases "get_first_rx_pdu e")
    case None
    then show ?thesis using False enc(1) by (simp add: status_size_def generate_status_def)
  next
    case (Some l)
    have "is_sn e (am_rx_next e)" using ok is_sn_rx_next by (simp add: am_rx_ok_def am_win_ok_def)
    then have l: "sns e l" using search_sns [OF Some [unfolded get_first_rx_pdu_def] ok] by simp
    have w: "same_walk l True 0" by (simp add: same_walk_def)
    have sz: "status_size e (int (length buffer)) = status_size_loop e (int (length buffer)) l 0 3"
      using False Some by (simp add: status_size_def)
    show ?thesis
    proof (cases "generate_status_loop e l True ?nk ?st")
      case None
      then have "\<not> generates e (int (length buffer)) l 0 (int 3)"
        using ok len l st w unfolding generates_def by blast
      then have "status_size_loop e (int (length buffer)) l 0 3 = None"
        using size_then_generate [of e "int (length buffer)" l 0 3] by (cases "status_size_loop e (int (length buffer)) l 0 3") auto
      then show ?thesis using sz None Some False enc(1) by (simp add: generate_status_def)
    next
      case gs: (Some y)
      have "status_size_loop e (int (length buffer)) l 0 (int 3) = Some (int (enc_byte (st_enc (snd y)))) \<and>
          length (enc_buffer (st_enc (snd y))) = length buffer \<and> enc_byte (st_enc (snd y)) \<le> length buffer"
        using generate_then_size [OF gs] ok len l st w unfolding sizes_agree_def by blast
      then show ?thesis using sz gs Some False enc(1) by (cases y) (simp add: generate_status_def Let_def)
    qed
  qed
qed

end
