(* ===== verification/Rlc_Am_Properties.thy ===== *)
theory Rlc_Am_Properties
  imports Rlc_Am_Stall Rlc_Am_Size
begin

text \<open>
  Properties of the acknowledged mode entity over the states that calls of its interface reach.
\<close>

section \<open>A concrete state\<close>

text \<open>An entity with 12 bit sequence numbers and one SDU of three bytes to send.\<close>

definition am_demo :: "nr_rlc_entity_am option" where
  "am_demo = Option.bind (new_nr_rlc_entity_am 1000 1000 45 35 0 (-1) (-1) 8 12) (\<lambda>e. nr_rlc_entity_am_recv_sdu e [1, 2, 3] 7)"

lemma am_demo:
  obtains e where "am_demo = Some e" and "am_reachable strict e" and "\<not> status_to_report e" and "\<not> last_gap e"
    and "am_sn_field_length e = 12" and "am_tx_list e = [\<lparr>sg_sdu = 0, sg_size = 3, sg_so = 0, sg_is_first = True, sg_is_last = True\<rparr>]"
    and "am_heap_next e = 1" and "\<And>sn. slot e sn = []" and "am_rx_size e = 0" and "am_rx_maxsize e = 5000" and "am_window_size e = 2048"
    and "am_rx_next e = 0" and "am_delivered e = []" and "am_tx_next e = 0"
    and "am_heap e 0 = \<lparr>sh_sn = -1, sh_upper_layer_id = 7, sh_data = [1, 2, 3], sh_retx_count = -1, sh_ref_count = 1, sh_free_count = 0, sh_freed = False\<rparr>"
proof -
  obtain d where d: "new_nr_rlc_entity_am 1000 1000 45 35 0 (-1) (-1) 8 12 = Some d" by (simp add: new_nr_rlc_entity_am_def)
  define e where "e = am_accept_sdu (am_log_rejected (d\<lparr>am_stats := (am_stats d)\<lparr>rxsdu_pkts := rxsdu_pkts (am_stats d) + 1\<rparr>\<rparr>)) [1, 2, 3] 7"
  have f: "am_log_rejected (d\<lparr>am_stats := st\<rparr>) = d\<lparr>am_stats := st\<rparr>" for st
    using d by (auto simp: am_log_rejected_def new_nr_rlc_entity_am_def)
  have r: "nr_rlc_entity_am_recv_sdu d [1, 2, 3] 7 = Some e"
    using d by (simp add: nr_rlc_entity_am_recv_sdu_def Let_def f e_def NR_SDU_MAX_def) (auto simp: new_nr_rlc_entity_am_def)
  have e: "am_demo = Some e" by (simp add: am_demo_def d r)
  have "am_reachable strict e" by (rule am_reachable.sdu [OF am_reachable.new [OF d] _ r]) simp
  have ex: "\<exists>j\<ge>1. j < (2048 :: int)" by (intro exI [of _ 1]) simp
  from that [OF e \<open>am_reachable strict e\<close>] show thesis
    unfolding e_def f using d
    by (auto simp: ex am_accept_sdu_def am_new_sdu_def Let_def new_nr_rlc_entity_am_def status_to_report_def last_gap_def ring_def rxm_at_def
        nr_rlc_new_rx_manager_def slot_def nr_rlc_rx_manager_get_pdu_from_sn_def sdu_of_def c_div_def)
qed

section \<open>The transmitter\<close>

definition am_segments :: "nr_rlc_entity_am \<Rightarrow> nr_rlc_sdu_segment_t list" where
  "am_segments e = am_tx_list e @ am_wait_list e @ am_retransmit_list e"

lemma size_of_sdu: "size (of_sdu a (mset l)) = count_list (map sg_sdu l) a"
  by (induction l) (simp_all add: of_sdu_def)

lemma am_books:
  assumes "am_tx_ok e []"
  shows "\<forall>s \<in> set (am_segments e). am_seg_ok e s"
    and "\<forall>a < am_heap_next e. sh_freed (am_heap e a) \<or>
       sh_ref_count (am_heap e a) - sh_free_count (am_heap e a) = int (count_list (map sg_sdu (am_segments e)) a) \<and>
       0 < count_list (map sg_sdu (am_segments e)) a"
    and "am_tx_size e = live_bytes e" and "am_bstatus_tx e = pdu_bytes e (am_tx_list e)"
    and "am_bstatus_retx e = pdu_bytes e (am_retransmit_list e)"
proof -
  let ?M = "mset (am_segments e)"
  have M: "refs_ok e ?M" using assms by (simp add: am_tx_ok_def am_acct_def am_segments_def ac_simps)
  then show "\<forall>s \<in> set (am_segments e). am_seg_ok e s" "am_tx_size e = live_bytes e" by (auto simp: refs_ok_def)
  show "am_bstatus_tx e = pdu_bytes e (am_tx_list e)" "am_bstatus_retx e = pdu_bytes e (am_retransmit_list e)"
    using assms by (simp_all add: am_tx_ok_def am_acct_def)
  have c: "size (of_sdu a ?M) = count_list (map sg_sdu (am_segments e)) a" for a
    by (rule size_of_sdu)
  show "\<forall>a < am_heap_next e. sh_freed (am_heap e a) \<or>
       sh_ref_count (am_heap e a) - sh_free_count (am_heap e a) = int (count_list (map sg_sdu (am_segments e)) a) \<and>
       0 < count_list (map sg_sdu (am_segments e)) a"
  proof (intro allI impI)
    fix a assume a: "a < am_heap_next e"
    show "sh_freed (am_heap e a) \<or>
       sh_ref_count (am_heap e a) - sh_free_count (am_heap e a) = int (count_list (map sg_sdu (am_segments e)) a) \<and>
       0 < count_list (map sg_sdu (am_segments e)) a"
    proof (cases "sh_freed (am_heap e a)")
      case False
      then have s: "sdu_ok (am_heap e a) (of_sdu a ?M)" using M a by (simp add: refs_ok_def)
      then have "of_sdu a ?M \<noteq> {#}" by (simp add: sdu_ok_def)
      then have "0 < size (of_sdu a ?M)" by (simp add: nonempty_has_size)
      then show ?thesis using s c [of a] by (simp add: sdu_ok_def)
    qed simp
  qed
qed

text \<open>
  C15: In every state reached with a peer whose STATUS PDUs have their NACKs before the ACK, every segment
  in the transmission, wait and retransmit lists refers to an SDU that was not freed and lies inside it,
  with correct first and last flags; for every allocated SDU the difference of its reference and free
  counts is the number of its segments in the lists and is positive, so no SDU is used after it is freed
  and none is leaked; and \<^verbatim>\<open>tx_size\<close> and both buffer status values are exact.
\<close>

theorem am_no_use_after_free:
  assumes "am_reachable True e"
  shows "(\<forall>s \<in> set (am_segments e). am_seg_ok e s) \<and>
    (\<forall>a < am_heap_next e. sh_freed (am_heap e a) \<or>
       sh_ref_count (am_heap e a) - sh_free_count (am_heap e a) = int (count_list (map sg_sdu (am_segments e)) a) \<and>
       0 < count_list (map sg_sdu (am_segments e)) a) \<and>
    am_tx_size e = live_bytes e \<and> am_bstatus_tx e = pdu_bytes e (am_tx_list e) \<and>
    am_bstatus_retx e = pdu_bytes e (am_retransmit_list e)"
proof -
  have "am_tx_ok e []" using am_reachable_ok [OF assms] by (auto simp: am_ok_def)
  from am_books [OF this] show ?thesis by blast
qed

theorem am_no_use_after_free_witness:
  "\<exists>e. am_demo = Some e \<and> length (am_segments e) \<ge> 1 \<and> (\<forall>s \<in> set (am_segments e). am_seg_ok e s) \<and>
    am_tx_size e = live_bytes e \<and> am_bstatus_tx e = pdu_bytes e (am_tx_list e)"
proof (rule am_demo [of True])
  fix e
  assume "am_demo = Some e" "am_reachable True e"
    "am_tx_list e = [\<lparr>sg_sdu = 0, sg_size = 3, sg_so = 0, sg_is_first = True, sg_is_last = True\<rparr>]"
  then show ?thesis using am_no_use_after_free [of e] by (auto simp: am_segments_def)
qed

text \<open>
  C30: With a peer whose STATUS PDUs have their NACKs before the ACK, re-establishment of an entity in any
  reachable state frees every SDU that was ever given to it and leaves the lists, the buffer occupancy and
  the buffer status empty.
\<close>

theorem am_reestablishment_frees_all:
  assumes "am_reachable True e"
  shows "(\<forall>a < am_heap_next e. sh_freed (am_heap (nr_rlc_entity_am_reestablishment e) a)) \<and>
    am_segments (nr_rlc_entity_am_reestablishment e) = [] \<and> am_tx_size (nr_rlc_entity_am_reestablishment e) = 0 \<and>
    am_bstatus_tx (nr_rlc_entity_am_reestablishment e) = 0 \<and> am_bstatus_retx (nr_rlc_entity_am_reestablishment e) = 0"
proof -
  have "am_tx_ok e []" using am_reachable_ok [OF assms] by (auto simp: am_ok_def)
  from clear_entity_acct(2) [OF this] show ?thesis
    by (simp add: nr_rlc_entity_am_reestablishment_def) (simp add: am_clear_entity_def Let_def am_segments_def)
qed

theorem am_reestablishment_frees_all_witness:
  "\<exists>e. am_demo = Some e \<and> am_heap_next e = 1 \<and> sh_freed (am_heap (nr_rlc_entity_am_reestablishment e) 0)"
proof (rule am_demo [of True])
  fix e
  assume "am_demo = Some e" "am_reachable True e" "am_heap_next e = 1"
  then show ?thesis using am_reestablishment_frees_all [of e] by auto
qed

text \<open>
  C31: In every reachable state (whatever the peer sends) a call for a PDU that has no STATUS to report
  returns, gives at most as many bytes as the buffer has room for, and changes nothing when it gives none.
\<close>

theorem am_generate_pdu_fits:
  assumes "am_reachable strict e" and "\<not> status_to_report e"
  shows "\<exists>e' pdu. nr_rlc_entity_am_generate_pdu e buffer = Some (e', pdu) \<and> length pdu \<le> length buffer \<and> (pdu = [] \<longrightarrow> e' = e)"
proof -
  obtain L where ok: "am_tx_ok e L" "sn_len_ok e" using am_reachable_ok [OF assms(1)] by (auto simp: am_ok_def am_conf_ok_def)
  obtain d p where d: "(if am_retransmit_list e \<noteq> [] then generate_retx_pdu e buffer else Some (e, [])) = Some (d, p)"
    "length p \<le> length buffer" "p \<noteq> [] \<or> d = e"
  proof (cases "am_retransmit_list e = []")
    case False
    then show thesis by (rule generate_retx_acct [OF ok, of buffer]) (use that False in auto)
  qed simp
  obtain d' p' where d': "generate_tx_pdu e buffer = Some (d', p')" "length p' \<le> length buffer" "p' \<noteq> [] \<or> d' = e"
    by (rule generate_tx_acct [OF ok])
  have r: "nr_rlc_entity_am_generate_pdu e buffer = (if p \<noteq> [] then Some (d, p) else generate_tx_pdu d buffer)"
    using assms(2) d(1) by (simp add: nr_rlc_entity_am_generate_pdu_def)
  show ?thesis
  proof (cases "p = []")
    case True
    then have "d = e" using d(3) by simp
    then show ?thesis unfolding r using True d' by auto
  qed (use r d in auto)
qed

theorem am_generate_pdu_fits_witness:
  "\<exists>e e' pdu. am_demo = Some e \<and> nr_rlc_entity_am_generate_pdu e (replicate 5 0) = Some (e', pdu) \<and> length pdu \<le> 5"
proof (rule am_demo [of True])
  fix e
  assume "am_demo = Some e" "am_reachable True e" "\<not> status_to_report e"
  then show ?thesis using am_generate_pdu_fits [of True e "replicate 5 0"] by auto
qed

section \<open>The data PDU\<close>

text \<open>
  The receiver reads back from a data PDU the poll bit, the segment's first and last flags, the
  sequence number and the segment offset that the transmitter wrote, and the bytes after the header are
  the bytes of the segment.
\<close>

theorem am_data_pdu_roundtrip:
  assumes "am_seg_range (am_sn_field_length e) (sg_sn e s) s" and "am_compute_pdu_header_size e s \<le> int (length buffer)"
  shows "\<exists>e' pdu k. am_serialize_sdu e s buffer p = Some (e', pdu) \<and>
    am_decode_header (am_sn_field_length e) pdu = Some (Am_data p (sg_is_first s) (sg_is_last s) (sg_sn e s) (sg_so s) k) \<and>
    drop k pdu = am_segment_bytes e s"
proof -
  have "am_sn_field_length e = 12 \<or> am_sn_field_length e = 18" using assms(1) by (simp add: am_seg_range_def)
  from am_serialize_bits [OF this assms(2), of p] obtain hdr where
    h: "am_serialize_sdu e s buffer p = Some (am_polled e p, hdr @ am_segment_bytes e s)"
    "bits_of hdr = am_header_bits (am_sn_field_length e) p (sg_sn e s) s" by blast
  then show ?thesis using am_decode_bits [OF assms(1) h(2)] by auto
qed

definition am_demo_segment :: nr_rlc_sdu_segment_t where
  "am_demo_segment = \<lparr>sg_sdu = 0, sg_size = 2, sg_so = 1, sg_is_first = False, sg_is_last = True\<rparr>"

theorem am_data_pdu_roundtrip_witness:
  "\<exists>e e' pdu k. am_demo = Some e \<and> am_serialize_sdu (am_assign_sn e am_demo_segment) am_demo_segment (replicate 8 0) True = Some (e', pdu) \<and>
    am_decode_header 12 pdu = Some (Am_data True False True 0 1 k) \<and> drop k pdu = [2, 3]"
proof (rule am_demo [of True])
  fix e
  let ?e = "am_assign_sn e am_demo_segment"
  assume e: "am_demo = Some e" "am_sn_field_length e = 12" "am_tx_next e = 0"
    "am_heap e 0 = \<lparr>sh_sn = -1, sh_upper_layer_id = 7, sh_data = [1, 2, 3], sh_retx_count = -1, sh_ref_count = 1, sh_free_count = 0, sh_freed = False\<rparr>"
  then have f: "am_sn_field_length ?e = 12" "sg_sn ?e am_demo_segment = 0" "am_segment_bytes ?e am_demo_segment = [2, 3]"
    by (simp_all add: am_assign_sn_def am_demo_segment_def sg_sn_def sdu_of_def update_sdu_def am_segment_bytes_def)
  then show ?thesis using am_data_pdu_roundtrip [of ?e am_demo_segment "replicate 8 0" True] e(1)
    by (auto simp: am_seg_range_def am_compute_pdu_header_size_def am_demo_segment_def)
qed

section \<open>The receiver\<close>

text \<open>
  C18: In every reachable state, whatever the peer sends, the receiver's variables are sequence numbers in
  the order rx\_next, rx\_highest\_status, rx\_next\_highest, rx\_next + window\_size of the window; PDUs are
  stored only for the sequence numbers of the window before rx\_next\_highest; and each slot holds PDUs of
  its own sequence number, sorted by segment offset.
\<close>

theorem am_reception_window_type:
  assumes "am_reachable strict e"
  shows "is_sn e (am_rx_next e) \<and> is_sn e (am_rx_highest_status e) \<and> is_sn e (am_rx_next_highest e) \<and>
    am_modulus_rx e (am_rx_highest_status e) \<le> am_modulus_rx e (am_rx_next_highest e) \<and>
    am_modulus_rx e (am_rx_next_highest e) \<le> am_window_size e \<and> am_sn_modulus e = 2 * am_window_size e \<and>
    \<not> am_sdu_delivered e (am_rx_next e) \<and> \<not> am_sdu_delivered e (am_rx_highest_status e) \<and>
    (\<forall>sn. is_sn e sn \<and> sn_in_recv_window e sn \<longrightarrow>
       sorted (map pdu_so (slot e sn)) \<and> (\<forall>p \<in> set (slot e sn). pdu_sn p = sn) \<and>
       (am_modulus_rx e (am_rx_next_highest e) \<le> am_modulus_rx e sn \<longrightarrow> slot e sn = []))"
proof -
  have ok: "am_rx_ok e" using am_reachable_ok [OF assms] by (auto simp: am_ok_def)
  then have win: "am_win_ok e" and g: "am_geo e" by (auto simp: am_rx_ok_def am_win_ok_def)
  have at: "slot e sn = ring e (off e sn)" if "is_sn e sn" for sn
    using slot_at [OF g, of "off e sn"] sn_at_modulus [OF g that] by simp
  have hs: "is_sn e (am_rx_highest_status e)" using win by (simp add: am_win_ok_def)
  have "slot e (am_rx_next e) = ring e 0" using slot_at [OF g, of 0] sn_at_zero [OF g] by simp
  then have del: "\<not> am_sdu_delivered e (am_rx_next e)" "\<not> am_sdu_delivered e (am_rx_highest_status e)"
    using ok at [OF hs] by (simp_all add: am_rx_ok_def am_sdu_delivered_def)
  have "sorted (map pdu_so (slot e sn)) \<and> (\<forall>p \<in> set (slot e sn). pdu_sn p = sn) \<and>
       (off e (am_rx_next_highest e) \<le> off e sn \<longrightarrow> slot e sn = [])" if "is_sn e sn" "sn_in_recv_window e sn" for sn
  proof -
    have "0 \<le> off e sn" "off e sn < am_window_size e" using off_range [OF g that(1)] that(2) by (auto simp: sn_in_recv_window_def)
    then show ?thesis unfolding at [OF that(1)] using win sn_at_modulus [OF g that(1)]
      by (auto simp: am_win_ok_def slot_ok_def pdu_ok_def)
  qed
  then show ?thesis using win g del is_sn_rx_next [OF g] by (auto simp: am_win_ok_def am_geo_def)
qed

theorem am_reception_window_type_witness:
  "\<exists>e. am_demo = Some e \<and> is_sn e (am_rx_next e) \<and> am_modulus_rx e (am_rx_next_highest e) \<le> am_window_size e"
proof (rule am_demo [of False])
  fix e
  assume "am_demo = Some e" "am_reachable False e"
  then show ?thesis using am_reception_window_type [of False e] by blast
qed

text \<open>
  C19: In every reachable state reception of any bytes returns, unless every SDU of the window but the
  first is delivered and rx\_highest\_status is at the first; no bytes make it stop the program or read
  beyond the PDU.
\<close>

theorem am_reception_returns:
  assumes "am_reachable strict e" and "\<not> last_gap e"
  shows "\<exists>e'. nr_rlc_entity_am_recv_pdu e buffer = Some e'"
proof -
  obtain L where "am_ok e L" using am_reachable_ok [OF assms(1)] by blast
  then show ?thesis by (rule recv_pdu_ok [of e L buffer]) (use assms(2) in auto)
qed

theorem am_reception_returns_witness:
  "\<exists>e e'. am_demo = Some e \<and> nr_rlc_entity_am_recv_pdu e [0x80, 0, 5] = Some e'"
proof (rule am_demo [of False])
  fix e
  assume "am_demo = Some e" "am_reachable False e" "\<not> last_gap e"
  then show ?thesis using am_reception_returns [of False e "[0x80, 0, 5]"] by blast
qed

text \<open>
  The expiry of the reassembly timer is handled in every reachable state: the search for the next
  SDU that was not delivered ends.
\<close>

theorem am_reassembly_timer_returns:
  assumes "am_reachable strict e"
  shows "\<exists>e'. am_check_t_reassembly (e\<lparr>am_t_current := now\<rparr>) = Some e'"
proof -
  have "am_rx_ok (e\<lparr>am_t_current := now\<rparr>)"
    using am_reachable_ok [OF assms] rx_view_ok [of "e\<lparr>am_t_current := now\<rparr>" e] by (auto simp: am_ok_def)
  then show ?thesis by (rule check_t_reassembly_ok) blast
qed

theorem am_reassembly_timer_returns_witness:
  "\<exists>e e'. am_demo = Some e \<and> am_check_t_reassembly (e\<lparr>am_t_current := 100\<rparr>) = Some e'"
proof (rule am_demo [of False])
  fix e
  assume "am_demo = Some e" "am_reachable False e"
  then show ?thesis using am_reassembly_timer_returns [of False e 100] by blast
qed

text \<open>
  C16: Unless all SDUs of the receive window but the first are delivered and \<open>rx_highest_status\<close> is at the first (\<open>last_gap\<close>, where reception
  does not return), the following holds. A segment of an SDU that the receiver accepts is kept, and with the segment that completes the
  cover of its bytes, in whatever order, sizes and overlaps the segments came, exactly the bytes of the
  SDU are delivered, once; otherwise nothing is delivered.
\<close>

theorem am_delivers_sdu_exactly:
  assumes "am_reachable strict e" and "\<not> last_gap e"
    and "am_decode_header (am_sn_field_length e) buffer = Some (Am_data p is_first is_last sn so k)"
    and "am_accepts e sn so (int (length buffer) - int k)"
    and "piece sdu (nr_rlc_new_pdu sn so is_first is_last (drop k buffer))" and "\<forall>q \<in> set (slot e sn). piece sdu q"
    and "int (length sdu) \<le> NR_SDU_MAX"
  shows "\<exists>e'. nr_rlc_entity_am_recv_pdu e buffer = Some e' \<and>
    am_delivered e' = am_delivered e @
      (if covers (nr_rlc_new_pdu sn so is_first is_last (drop k buffer) # slot e sn) 0 (int (length sdu)) then [sdu] else [])"
proof -
  obtain L where ok: "am_ok e L" using am_reachable_ok [OF assms(1)] by blast
  then obtain e' where r: "nr_rlc_entity_am_recv_pdu e buffer = Some e'"
    by (rule recv_pdu_ok [of e L buffer]) (use assms(2) in auto)
  then show ?thesis using recv_pdu_delivers [OF ok assms(3-7) r] by blast
qed

theorem am_delivers_sdu_exactly_witness:
  "\<exists>e e'. am_demo = Some e \<and> nr_rlc_entity_am_recv_pdu e (complete_pdu 12 0) = Some e' \<and> am_delivered e' = [[0]]"
proof (rule am_demo [of True])
  fix e
  assume e: "am_demo = Some e" "am_reachable True e" "\<not> last_gap e" "am_sn_field_length e = 12" "am_rx_size e = 0" "am_rx_maxsize e = 5000"
    "am_window_size e = 2048" "am_rx_next e = 0" "am_delivered e = []"
  assume slot: "\<And>sn. slot e sn = []"
  obtain k where k: "am_decode_header 12 (complete_pdu 12 0) = Some (Am_data False True True 0 0 k)"
    "drop k (complete_pdu 12 0) = [0]" "int (length (complete_pdu 12 0)) - int k = 1"
    by (rule complete_pdu_decode [of 12 0]) simp_all
  have "am_accepts e 0 0 (int (length (complete_pdu 12 0)) - int k)"
    using e k(3) slot by (simp add: am_accepts_def sn_in_recv_window_def am_modulus_rx_def segment_already_received_def)
  moreover have "piece [0] (nr_rlc_new_pdu 0 0 True True (drop k (complete_pdu 12 0)))"
    using k(2) by (simp add: piece_def nr_rlc_new_pdu_def)
  moreover have "covers [nr_rlc_new_pdu 0 0 True True (drop k (complete_pdu 12 0))] 0 1"
    using k(2) by (simp add: covers_def nr_rlc_new_pdu_def)
  ultimately have "\<exists>e'. nr_rlc_entity_am_recv_pdu e (complete_pdu 12 0) = Some e' \<and> am_delivered e' = [[0]]"
    using am_delivers_sdu_exactly [of True e "complete_pdu 12 0" False True True 0 0 k "[0]"] e k slot by (simp add: NR_SDU_MAX_def)
  then show ?thesis using e(1) by blast
qed

text \<open>
  C32: A receiver never returns when complete SDUs with all sequence numbers of the window but the first
  arrive before the reassembly timer expires, and then the first one: the search for the next SDU that was
  not delivered goes round the window for ever.
\<close>

theorem am_full_window_hangs:
  assumes "new_nr_rlc_entity_am rx_max tx_max t_poll t_reas t_proh poll_pdu poll_byte max_retx n = Some e" and "1 \<le> rx_max"
  shows "\<exists>e'. am_recv_all e (map (\<lambda>sn. complete_pdu n (int sn)) [1..<2 ^ (n - 1)]) = Some e' \<and>
    nr_rlc_entity_am_recv_pdu e' (complete_pdu n 0) = None"
proof -
  have "[1..<2 ^ (n - 1)] = [1..<Suc (2 ^ (n - 1) - 1)]" by simp
  moreover have m: "int (2 ^ (n - 1) - 1) = 2 ^ (n - 1) - 1" by (simp add: of_nat_diff)
  ultimately show ?thesis
    using gap_state_run [OF gap_state_new [OF assms], of "2 ^ (n - 1) - 1"] gap_state_hang [of n] by auto
qed

theorem am_full_window_hangs_witness:
  "\<exists>e e'. new_nr_rlc_entity_am 1000 1000 45 35 0 (-1) (-1) 8 12 = Some e \<and>
    am_recv_all e (map (\<lambda>sn. complete_pdu 12 (int sn)) [1..<2048]) = Some e' \<and> nr_rlc_entity_am_recv_pdu e' (complete_pdu 12 0) = None"
proof -
  obtain e where e: "new_nr_rlc_entity_am 1000 1000 45 35 0 (-1) (-1) 8 12 = Some e" by (simp add: new_nr_rlc_entity_am_def)
  then show ?thesis using am_full_window_hangs [OF e] by (auto simp del: upt_conv_Cons)
qed

section \<open>Two runs\<close>

text \<open>Reception from a peer whose STATUS PDUs have their NACKs before the ACK.\<close>

definition am_recv_strict :: "nr_rlc_entity_am \<Rightarrow> u8 list \<Rightarrow> nr_rlc_entity_am option" where
  "am_recv_strict e b = (if strict_pdu e b then nr_rlc_entity_am_recv_pdu e b else None)"

lemma am_recv_strict_reachable: "am_reachable True e \<Longrightarrow> am_recv_strict e b = Some e' \<Longrightarrow> am_reachable True e'"
  by (auto simp: am_recv_strict_def split: if_splits intro: am_reachable.pdu)

text \<open>Two SDUs are sent in two PDUs and both are NACKed.\<close>

definition am_nacked_run :: "nr_rlc_entity_am option" where
  "am_nacked_run =
     Option.bind (new_nr_rlc_entity_am 1000 1000 45 35 0 (-1) (-1) 8 12) (\<lambda>e.
     Option.bind (nr_rlc_entity_am_recv_sdu e [1, 2, 3] 7) (\<lambda>e.
     Option.bind (nr_rlc_entity_am_recv_sdu e [4, 5, 6] 8) (\<lambda>e.
     Option.bind (nr_rlc_entity_am_generate_pdu e (replicate 5 0)) (\<lambda>(e, _).
     Option.bind (nr_rlc_entity_am_generate_pdu e (replicate 5 0)) (\<lambda>(e, _).
       am_recv_strict e [0, 2, 0x80, 0, 2, 2])))))"

text \<open>A STATUS PDU with ACK 0 and one NACK, for bytes 10 to 20 of sequence number 0.\<close>

definition stray_status :: "u8 list" where
  "stray_status = [0, 0, 0x80, 0, 4, 0, 10, 0, 20]"

lemma am_nacked_run_reachable:
  assumes "am_nacked_run = Some e"
  shows "am_reachable True e"
proof -
  obtain e1 e2 e3 e4 e5 p q where
    s: "new_nr_rlc_entity_am 1000 1000 45 35 0 (-1) (-1) 8 12 = Some e1" "nr_rlc_entity_am_recv_sdu e1 [1, 2, 3] 7 = Some e2"
    "nr_rlc_entity_am_recv_sdu e2 [4, 5, 6] 8 = Some e3" "nr_rlc_entity_am_generate_pdu e3 (replicate 5 0) = Some (e4, p)"
    "nr_rlc_entity_am_generate_pdu e4 (replicate 5 0) = Some (e5, q)" "am_recv_strict e5 [0, 2, 0x80, 0, 2, 2] = Some e"
    using assms unfolding am_nacked_run_def by (auto split: Option.bind_splits)
  note r = am_reachable.sdu [OF am_reachable.sdu [OF am_reachable.new [OF s(1)] _ s(2)] _ s(3)]
  show ?thesis
    by (rule am_recv_strict_reachable [OF am_reachable.generate [OF am_reachable.generate [OF r s(4)] s(5)] s(6)]) simp_all
qed

text \<open>
  Two SDUs are sent, the first is NACKed and sent again with a poll for the second, which was
  acknowledged; then the first is acknowledged alone.
\<close>

definition am_poll_run :: "nr_rlc_entity_am option" where
  "am_poll_run =
     Option.bind (new_nr_rlc_entity_am 1000 1000 45 35 0 (-1) (-1) 8 12) (\<lambda>e.
     Option.bind (nr_rlc_entity_am_set_time e 1) (\<lambda>e.
     Option.bind (nr_rlc_entity_am_recv_sdu e [1, 2, 3] 7) (\<lambda>e.
     Option.bind (nr_rlc_entity_am_recv_sdu e [4, 5, 6] 8) (\<lambda>e.
     Option.bind (nr_rlc_entity_am_generate_pdu e (replicate 5 0)) (\<lambda>(e, _).
     Option.bind (nr_rlc_entity_am_generate_pdu e (replicate 5 0)) (\<lambda>(e, _).
     Option.bind (am_recv_strict e [0, 2, 0x80, 0, 0]) (\<lambda>e.
     Option.bind (nr_rlc_entity_am_generate_pdu e (replicate 5 0)) (\<lambda>(e, _).
       am_recv_strict e [0, 1, 0]))))))))"

lemma am_poll_run_reachable:
  assumes "am_poll_run = Some e"
  shows "am_reachable True e"
proof -
  obtain e1 e2 e3 e4 e5 e6 e7 e8 p q r where
    s: "new_nr_rlc_entity_am 1000 1000 45 35 0 (-1) (-1) 8 12 = Some e1" "nr_rlc_entity_am_set_time e1 1 = Some e2"
    "nr_rlc_entity_am_recv_sdu e2 [1, 2, 3] 7 = Some e3" "nr_rlc_entity_am_recv_sdu e3 [4, 5, 6] 8 = Some e4"
    "nr_rlc_entity_am_generate_pdu e4 (replicate 5 0) = Some (e5, p)" "nr_rlc_entity_am_generate_pdu e5 (replicate 5 0) = Some (e6, q)"
    "am_recv_strict e6 [0, 2, 0x80, 0, 0] = Some e7" "nr_rlc_entity_am_generate_pdu e7 (replicate 5 0) = Some (e8, r)"
    "am_recv_strict e8 [0, 1, 0] = Some e"
    using assms unfolding am_poll_run_def by (auto split: Option.bind_splits)
  have "am_reachable True e4"
    by (rule am_reachable.sdu [OF am_reachable.sdu [OF am_reachable.time [OF am_reachable.new [OF s(1)] s(2)] _ s(3)] _ s(4)]) simp_all
  then have "am_reachable True e6" using am_reachable.generate [OF _ s(5)] am_reachable.generate [OF _ s(6)] by simp
  then show ?thesis
    using am_recv_strict_reachable [OF _ s(7)] am_reachable.generate [OF _ s(8)] am_recv_strict_reachable [OF _ s(9)] by simp
qed

section \<open>Status reports\<close>

text \<open>
  C20: In every reachable state the size announced for the STATUS PDU by the buffer status is the size of
  the PDU that is generated into a buffer of that room, and the announcement returns exactly when the
  generation does.
\<close>

theorem am_status_size_exact:
  assumes "am_reachable strict e"
  shows "status_size e (int (length buffer)) = map_option (\<lambda>(e', pdu). int (length pdu)) (generate_status e buffer)"
proof -
  have "am_rx_ok e" "sn_len_ok e" using am_reachable_ok [OF assms] by (auto simp: am_ok_def am_conf_ok_def)
  then show ?thesis by (rule status_size_generated)
qed

theorem am_status_size_exact_witness:
  "\<exists>e e' pdu. am_demo = Some e \<and> status_size e 10 = Some 3 \<and> generate_status e (replicate 10 0) = Some (e', pdu) \<and> length pdu = 3"
proof (rule am_demo [of False])
  fix e
  assume e: "am_demo = Some e" "am_reachable False e"
  have "map_option (\<lambda>e. status_size e 10) am_demo = Some (Some 3)" by code_simp
  then have sz: "status_size e 10 = Some 3" unfolding e(1) by simp
  then have "map_option (\<lambda>(e', pdu). int (length pdu)) (generate_status e (replicate 10 0)) = Some 3"
    using am_status_size_exact [OF e(2), of "replicate 10 0"] by simp
  then obtain e' pdu where "generate_status e (replicate 10 0) = Some (e', pdu)" "length pdu = 3" by auto
  then show ?thesis using e(1) sz by blast
qed

text \<open>
  C36: There is a state, reached with a well-behaved peer, in which two SDUs wait for retransmission and no other
  list has a segment. The STATUS PDU that then arrives has ACK 0 and one NACK, for bytes 10 to 20 of the
  SDU with sequence number 0, which has three bytes; it is decoded and passes the validation. Its processing
  drops the whole retransmit list: both SDUs are in no list any more, and a later call for a PDU with room for
  both gives nothing, yet neither is freed, not even by re-establishment, and both stay counted in the buffer
  occupancy (6 bytes) and in the buffer status (10 bytes).
\<close>

theorem am_stray_nack_loses_sdus:
  "\<exists>e e'. am_reachable True e \<and> am_tx_list e = [] \<and> am_wait_list e = [] \<and>
     am_retransmit_list e = [\<lparr>sg_sdu = 0, sg_size = 3, sg_so = 0, sg_is_first = True, sg_is_last = True\<rparr>,
       \<lparr>sg_sdu = 1, sg_size = 3, sg_so = 0, sg_is_first = True, sg_is_last = True\<rparr>] \<and>
     am_tx_size e = 6 \<and> am_bstatus_retx e = 10 \<and>
     decode_status (am_sn_field_length e) stray_status = Some (0, [(0, 10, 20, 1)]) \<and> valid_status e 0 [(0, 10, 20, 1)] \<and>
     nr_rlc_entity_am_recv_pdu e stray_status = Some e' \<and>
     am_segments e' = [] \<and> map_option snd (nr_rlc_entity_am_generate_pdu e' (replicate 100 0)) = Some [] \<and>
     am_tx_size e' = 6 \<and> am_bstatus_retx e' = 10 \<and>
     list_all (\<lambda>a. \<not> sh_freed (am_heap e' a) \<and> \<not> sh_freed (am_heap (nr_rlc_entity_am_reestablishment e') a)) [0, 1]"
proof -
  have 1: "map_option (\<lambda>e. (am_tx_list e, am_wait_list e, am_retransmit_list e, am_tx_size e, am_bstatus_retx e)) am_nacked_run =
      Some ([], [], [\<lparr>sg_sdu = 0, sg_size = 3, sg_so = 0, sg_is_first = True, sg_is_last = True\<rparr>,
        \<lparr>sg_sdu = 1, sg_size = 3, sg_so = 0, sg_is_first = True, sg_is_last = True\<rparr>], 6, 10)" by code_simp
  have 2: "map_option (\<lambda>e. (decode_status (am_sn_field_length e) stray_status, valid_status e 0 [(0, 10, 20, 1)])) am_nacked_run =
      Some (Some (0, [(0, 10, 20, 1)]), True)" by code_simp
  have 3: "map_option (\<lambda>e'. (am_segments e', map_option snd (nr_rlc_entity_am_generate_pdu e' (replicate 100 0)), am_tx_size e', am_bstatus_retx e',
        list_all (\<lambda>a. \<not> sh_freed (am_heap e' a) \<and> \<not> sh_freed (am_heap (nr_rlc_entity_am_reestablishment e') a)) [0, 1]))
        (Option.bind am_nacked_run (\<lambda>e. nr_rlc_entity_am_recv_pdu e stray_status)) = Some ([], Some [], 6, 10, True)" by code_simp
  obtain e where e: "am_nacked_run = Some e" using 1 by auto
  obtain e' where e': "nr_rlc_entity_am_recv_pdu e stray_status = Some e'" using 3 unfolding e by auto
  show ?thesis using 1 2 3 am_nacked_run_reachable [OF e] unfolding e by (intro exI [of _ e] exI [of _ e']) (simp add: e')
qed

text \<open>
  C37: The timer t-PollRetransmit can expire while the wait list is empty, after ACKs that all precede the
  poll; the entity then reads the sequence number of the head of the empty list.
\<close>

theorem am_poll_timer_null_access:
  "\<exists>e. am_reachable True e \<and> am_wait_list e = [] \<and> nr_rlc_entity_am_set_time e 100 = None"
proof -
  have "map_option (\<lambda>e. (am_wait_list e, Option.is_none (nr_rlc_entity_am_set_time e 100))) am_poll_run = Some ([], True)" by code_simp
  then show ?thesis using am_poll_run_reachable by (auto simp: Option.is_none_def)
qed

end
