(* ===== verification/Rlc_Am_Missing.thy ===== *)
theory Rlc_Am_Missing
  imports Rlc_Am_Size
begin

text \<open>
  The walk over the received PDUs for a STATUS report (\<^verbatim>\<open>next_missing\<close>) misses nothing: the bytes between
  two reported parts have been received. A position is the offset of a sequence number in the window and
  a byte of its SDU. The walk is right, and ends, when \<^verbatim>\<open>rx_highest_status\<close> is less than a whole window
  after \<^verbatim>\<open>rx_next\<close>.
\<close>

section \<open>Positions\<close>

text \<open>A byte is there, or lies behind the end of the SDU, or the SDU was delivered.\<close>

definition rx_has :: "nr_rlc_entity_am \<Rightarrow> int \<Rightarrow> int \<Rightarrow> bool" where
  "rx_has e i b \<longleftrightarrow> processed (ring e i) \<or> (\<exists>p\<in>set (ring e i). pdu_so p \<le> b \<and> b < pdu_so p + pdu_size p) \<or>
     (\<exists>p\<in>set (ring e i). pdu_is_last p \<and> pdu_so p + pdu_size p \<le> b)"

text \<open>Everything from a position on (inclusive) up to another one (exclusive).\<close>

definition has_upto :: "nr_rlc_entity_am \<Rightarrow> int \<Rightarrow> int \<Rightarrow> int \<Rightarrow> int \<Rightarrow> bool" where
  "has_upto e i b j c \<longleftrightarrow>
     (\<forall>k x. 0 \<le> x \<and> (i < k \<or> (k = i \<and> b \<le> x)) \<and> (k < j \<or> (k = j \<and> x < c)) \<longrightarrow> rx_has e k x)"

lemma has_upto_trans: "has_upto e i b j c \<Longrightarrow> has_upto e j c k d \<Longrightarrow> has_upto e i b k d"
  unfolding has_upto_def by (meson not_le not_less_iff_gr_or_eq)

lemma has_upto_less: "has_upto e i b j c \<Longrightarrow> k < j \<or> (k = j \<and> d \<le> c) \<Longrightarrow> has_upto e i b k d"
  unfolding has_upto_def by force

lemma has_upto_empty: "j < i \<or> (i = j \<and> (c \<le> b \<or> c \<le> 0)) \<Longrightarrow> has_upto e i b j c"
  unfolding has_upto_def by auto

lemma has_upto_pdu: "p \<in> set (ring e k) \<Longrightarrow> has_upto e k (pdu_so p) k (pdu_so p + pdu_size p)"
  by (auto simp: has_upto_def rx_has_def)

abbreviation status_top :: "nr_rlc_entity_am \<Rightarrow> int" where
  "status_top e \<equiv> am_modulus_rx e (am_rx_highest_status e)"

definition report_ok :: "nr_rlc_entity_am \<Rightarrow> bool" where
  "report_ok e \<longleftrightarrow> am_rx_ok e \<and> status_top e < am_window_size e"

lemma report_ok_facts:
  assumes "report_ok e"
  shows "am_geo e" and "am_sn_modulus e = 2 * am_window_size e" and "0 \<le> status_top e" and "am_rx_highest_status e = sn_at e (status_top e)"
proof -
  show g: "am_geo e" using assms by (simp add: report_ok_def am_rx_ok_def am_win_ok_def)
  have h: "is_sn e (am_rx_highest_status e)" using assms by (simp add: report_ok_def am_rx_ok_def am_win_ok_def)
  show "am_sn_modulus e = 2 * am_window_size e" using g by (simp add: am_geo_def)
  show "0 \<le> status_top e" "am_rx_highest_status e = sn_at e (status_top e)" using off_range [OF g h] sn_at_modulus [OF g h] by auto
qed

lemma report_off:
  assumes "report_ok e" and "0 \<le> i" and "i \<le> am_window_size e"
  shows "am_modulus_rx e (sn_at e i) = i"
  using off_at [OF report_ok_facts(1) [OF assms(1)] assms(2)] report_ok_facts(2) [OF assms(1)] assms(2,3)
    am_geo_size [OF report_ok_facts(1) [OF assms(1)]] by simp

lemma report_sn_inj:
  assumes "report_ok e" and "0 \<le> i" "i \<le> am_window_size e" "0 \<le> j" "j \<le> am_window_size e"
  shows "sn_at e i = sn_at e j \<longleftrightarrow> i = j"
  using report_off [OF assms(1-3)] report_off [OF assms(1,4,5)] by metis

lemma sn_at_pred:
  assumes "am_geo e"
  shows "c_mod (sn_at e i - 1 + am_sn_modulus e) (am_sn_modulus e) = sn_at e (i - 1)"
proof -
  have m: "0 < am_sn_modulus e" using am_geo_size [OF assms] by blast
  then have "0 \<le> sn_at e i - 1 + am_sn_modulus e" using is_sn_at [OF assms, of i] by (simp add: is_sn_def)
  then have "c_mod (sn_at e i - 1 + am_sn_modulus e) (am_sn_modulus e) = (sn_at e i - 1) mod am_sn_modulus e"
    using m by (simp add: c_mod_nonneg)
  then show ?thesis by (simp add: sn_at_def mod_simps algebra_simps)
qed

lemma in_report_at:
  assumes "report_ok e" and "0 \<le> i" and "i \<le> am_window_size e"
  shows "in_report e (sn_at e i) \<longleftrightarrow> i < status_top e"
  using report_off [OF assms] by (simp add: in_report_def am_sn_compare_rx_def)

lemma report_end_at: "report_ok e \<Longrightarrow> report_end e = sn_at e (status_top e - 1)"
  using sn_at_pred [OF report_ok_facts(1), of e "status_top e"] report_ok_facts(4) [of e] by (simp add: report_end_def)

section \<open>The next PDU\<close>

definition at_pdu :: "nr_rlc_entity_am \<Rightarrow> int \<Rightarrow> nr_rlc_pdu \<Rightarrow> nr_rlc_pdu list \<Rightarrow> bool" where
  "at_pdu e i cur rest \<longleftrightarrow> 0 \<le> i \<and> i \<le> status_top e \<and> (\<exists>pre. ring e i = pre @ cur # rest)"

lemma at_pdu_ok:
  assumes "report_ok e" and "at_pdu e i cur rest"
  shows "pdu_ok (sn_at e i) cur" and "slot_ok (sn_at e i) (ring e i)" and "cur \<in> set (ring e i)" and "pdu_sn cur = sn_at e i"
proof -
  show s: "slot_ok (sn_at e i) (ring e i)"
    using assms by (auto simp: report_ok_def am_rx_ok_def am_win_ok_def at_pdu_def)
  show c: "cur \<in> set (ring e i)" using assms(2) by (auto simp: at_pdu_def)
  then show p: "pdu_ok (sn_at e i) cur" using s by (simp add: slot_ok_def)
  then show "pdu_sn cur = sn_at e i" by (simp add: pdu_ok_def)
qed

lemma search_at:
  assumes ok: "report_ok e" and i: "0 \<le> i" "i \<le> status_top e"
  shows "\<exists>j. i \<le> j \<and> j \<le> status_top e \<and> search_rx_pdu e (sn_at e i) (am_rx_highest_status e) = Some (ring e j) \<and>
    (\<forall>k. i \<le> k \<and> k < j \<longrightarrow> ring e k = []) \<and> (ring e j = [] \<longrightarrow> j = status_top e)"
  using i
proof (induction "nat (status_top e - i)" arbitrary: i)
  case 0
  then have z: "i = status_top e" by simp
  then show ?case using slot_at [OF report_ok_facts(1) [OF ok], of i] report_ok_facts(4) [OF ok]
    by (subst search_rx_pdu.simps) auto
next
  case (Suc n)
  have g: "am_geo e" by (rule report_ok_facts(1) [OF ok])
  have lt: "i < status_top e" using Suc.hyps(2) by simp
  then have ne: "sn_at e i \<noteq> am_rx_highest_status e"
    using report_sn_inj [OF ok, of i "status_top e"] report_ok_facts(3,4) [OF ok] Suc.prems ok by (simp add: report_ok_def)
  show ?case
  proof (cases "ring e i = []")
    case True
    have n: "n = nat (status_top e - (i + 1))" using Suc.hyps(2) by simp
    have r: "search_rx_pdu e (sn_at e i) (am_rx_highest_status e) = search_rx_pdu e (sn_at e (i + 1)) (am_rx_highest_status e)"
      using ne True slot_at [OF g, of i] sn_at_succ [OF g, of i] by (subst search_rx_pdu.simps) simp
    obtain j where j: "i + 1 \<le> j" "j \<le> status_top e"
      "search_rx_pdu e (sn_at e (i + 1)) (am_rx_highest_status e) = Some (ring e j)"
      "\<And>k. i + 1 \<le> k \<Longrightarrow> k < j \<Longrightarrow> ring e k = []" "ring e j = [] \<longrightarrow> j = status_top e"
      using Suc.hyps(1) [OF n] Suc.prems lt by auto
    have "ring e k = []" if "i \<le> k" "k < j" for k using j(4) [of k] True that by (cases "k = i") auto
    then show ?thesis using r j by (intro exI [of _ j]) auto
  next
    case False
    then show ?thesis using Suc.prems slot_at [OF g, of i] by (intro exI [of _ i], subst search_rx_pdu.simps) auto
  qed
qed

lemma next_at:
  assumes ok: "report_ok e" and c: "at_pdu e i cur rest"
  obtains "rest = []" "get_next_rx_pdu e cur rest = Some []" "\<forall>k. i < k \<and> k \<le> status_top e \<longrightarrow> ring e k = []"
  | cur' rest' where "rest = cur' # rest'" "get_next_rx_pdu e cur rest = Some (cur' # rest')" "at_pdu e i cur' rest'"
  | j cur' rest' where "rest = []" "get_next_rx_pdu e cur rest = Some (cur' # rest')" "i < j" "at_pdu e j cur' rest'"
      "ring e j = cur' # rest'" "\<forall>k. i < k \<and> k < j \<longrightarrow> ring e k = []"
proof (cases rest)
  case Nil
  have g: "am_geo e" by (rule report_ok_facts(1) [OF ok])
  note sn = at_pdu_ok(4) [OF ok c]
  have i: "0 \<le> i" "i \<le> status_top e" using c by (auto simp: at_pdu_def)
  show ?thesis
  proof (cases "i = status_top e")
    case True
    then have "\<forall>k. i < k \<and> k \<le> status_top e \<longrightarrow> ring e k = []" by auto
    then show ?thesis using True Nil that(1) sn report_ok_facts(4) [OF ok] by (simp add: get_next_rx_pdu_def)
  next
    case False
    then have "sn_at e i \<noteq> am_rx_highest_status e"
      using report_sn_inj [OF ok, of i "status_top e"] report_ok_facts(3,4) [OF ok] i ok by (simp add: report_ok_def)
    then have r: "get_next_rx_pdu e cur rest = search_rx_pdu e (sn_at e (i + 1)) (am_rx_highest_status e)"
      using Nil sn sn_at_succ [OF g, of i] by (simp add: get_next_rx_pdu_def)
    obtain j where j: "i + 1 \<le> j" "j \<le> status_top e" "search_rx_pdu e (sn_at e (i + 1)) (am_rx_highest_status e) = Some (ring e j)"
      "\<forall>k. i + 1 \<le> k \<and> k < j \<longrightarrow> ring e k = []" "ring e j = [] \<longrightarrow> j = status_top e"
      using search_at [OF ok, of "i + 1"] i False by auto
    show ?thesis
    proof (cases "ring e j")
      case e: Nil
      have "ring e k = []" if "i < k" "k \<le> status_top e" for k
        using j(4) [rule_format, of k] j(5) e that by (cases "k = status_top e") auto
      then show ?thesis using that(1) Nil r j(3) e by simp
    next
      case (Cons cur' rest')
      show ?thesis by (rule that(3) [of cur' rest' j]) (use Nil r j Cons i in \<open>auto simp: at_pdu_def\<close>)
    qed
  qed
next
  case (Cons cur' rest')
  moreover have "at_pdu e i cur' rest'" using c Cons unfolding at_pdu_def by (metis append.assoc append_Cons append_Nil)
  ultimately show ?thesis using that(2) by (simp add: get_next_rx_pdu_def)
qed

section \<open>The walk\<close>

text \<open>
  What one call of \<^verbatim>\<open>next_missing\<close> gives when it starts at a position: a part that is missing, up to which
  everything was received, and the PDU behind it, if there is one in the report.
\<close>

definition part_end :: "nr_rlc_entity_am \<Rightarrow> missing_data_t \<Rightarrow> bool" where
  "part_end e m \<longleftrightarrow> (case md_next m of
      [] \<Rightarrow> sn_end m = sn_at e (status_top e - 1) \<and> so_end m = 0xffff
    | cur # rest \<Rightarrow> \<exists>j. at_pdu e j cur rest \<and>
        ((sn_end m = sn_at e (j - 1) \<and> so_end m = 0xffff \<and> pdu_so cur = 0) \<or> (sn_end m = sn_at e j \<and> so_end m = pdu_so cur - 1)))"

definition part_ok :: "nr_rlc_entity_am \<Rightarrow> int \<Rightarrow> int \<Rightarrow> missing_data_t option \<Rightarrow> bool" where
  "part_ok e i b mo \<longleftrightarrow> (case mo of
      None \<Rightarrow> has_upto e i b (status_top e) 0
    | Some m \<Rightarrow> \<exists>s t. sn_start m = sn_at e s \<and> sn_end m = sn_at e t \<and> i \<le> s \<and> (i < s \<or> b < so_start m) \<and> s \<le> t \<and> t < status_top e \<and>
        0 \<le> so_start m \<and> 0 \<le> so_end m \<and> so_end m \<le> 0xffff \<and>
        (s = t \<and> so_end m \<noteq> 0xffff \<longrightarrow> so_start m \<le> so_end m + 1) \<and> has_upto e i b s (so_start m) \<and> part_end e m)"

lemma part_okI:
  assumes "sn_start m = sn_at e s" and "sn_end m = sn_at e t" and "i \<le> s" "i < s \<or> b < so_start m" "s \<le> t" "t < status_top e"
    and "0 \<le> so_start m" "0 \<le> so_end m" "so_end m \<le> 0xffff"
    and "s = t \<and> so_end m \<noteq> 0xffff \<longrightarrow> so_start m \<le> so_end m + 1" and "has_upto e i b s (so_start m)" and "part_end e m"
  shows "part_ok e i b (Some m)"
  unfolding part_ok_def option.case by (intro exI [of _ s] exI [of _ t] conjI assms)

lemma part_end_next: "md_next m = [] \<Longrightarrow> sn_end m = sn_at e (status_top e - 1) \<Longrightarrow> so_end m = 0xffff \<Longrightarrow> part_end e m"
  "md_next m = cur # rest \<Longrightarrow> at_pdu e j cur rest \<Longrightarrow> sn_end m = sn_at e (j - 1) \<Longrightarrow> so_end m = 0xffff \<Longrightarrow> pdu_so cur = 0 \<Longrightarrow> part_end e m"
  "md_next m = cur # rest \<Longrightarrow> at_pdu e j cur rest \<Longrightarrow> sn_end m = sn_at e j \<Longrightarrow> so_end m = pdu_so cur - 1 \<Longrightarrow> part_end e m"
  unfolding part_end_def by auto

lemma set_end_part:
  assumes ok: "report_ok e" and c: "at_pdu e j cur rest" and s: "0 \<le> i" "i \<le> s" "s < status_top e" "s \<le> j"
    and "0 \<le> so" and "has_upto e i b s so" and bs: "i < s \<or> b < so" and f: "pdu_is_first cur \<Longrightarrow> s < j" and l: "s = j \<Longrightarrow> so \<le> pdu_so cur"
  shows "part_ok e i b (Some (set_end_different_sdu e (sn_at e s) so cur (cur # rest)))"
proof -
  have g: "am_geo e" by (rule report_ok_facts(1) [OF ok])
  have w: "status_top e < am_window_size e" using ok by (simp add: report_ok_def)
  have j: "0 \<le> j" "j \<le> status_top e" using c by (auto simp: at_pdu_def)
  note p = at_pdu_ok [OF ok c]
  have so: "0 \<le> pdu_so cur" "pdu_so cur < 65536" "pdu_is_first cur \<longleftrightarrow> pdu_so cur = 0" using p(1) by (auto simp: pdu_ok_def)
  show ?thesis
  proof (cases "pdu_is_first cur")
    case True
    then have "s < j" by (rule f)
    moreover have "c_mod (pdu_sn cur - 1 + am_sn_modulus e) (am_sn_modulus e) = sn_at e (j - 1)" using p(4) sn_at_pred [OF g] by simp
    moreover have "in_report e (sn_at e (j - 1))" using in_report_at [OF ok, of "j - 1"] \<open>s < j\<close> s j w by simp
    ultimately have m: "set_end_different_sdu e (sn_at e s) so cur (cur # rest) =
        \<lparr>sn_start = sn_at e s, so_start = so, sn_end = sn_at e (j - 1), so_end = 0xffff, md_next = cur # rest\<rparr>"
      using True by (simp add: set_end_different_sdu_def)
    show ?thesis unfolding m
      by (rule part_okI [of _ e s "j - 1"]) (use assms \<open>s < j\<close> j so True in \<open>auto intro: part_end_next(2) [OF _ c]\<close>)
  next
    case False
    then have so1: "1 \<le> pdu_so cur" using so by auto
    show ?thesis
    proof (cases "j < status_top e")
      case True
      then have "in_report e (sn_at e j)" using in_report_at [OF ok, of j] j w by simp
      then have m: "set_end_different_sdu e (sn_at e s) so cur (cur # rest) =
          \<lparr>sn_start = sn_at e s, so_start = so, sn_end = sn_at e j, so_end = pdu_so cur - 1, md_next = cur # rest\<rparr>"
        using False p(4) by (simp add: set_end_different_sdu_def)
      show ?thesis unfolding m
        by (rule part_okI [of _ e s j]) (use assms True so so1 in \<open>auto intro: part_end_next(3) [OF _ c]\<close>)
    next
      case F: False
      then have "\<not> in_report e (sn_at e j)" using in_report_at [OF ok, of j] j w by simp
      then have m: "set_end_different_sdu e (sn_at e s) so cur (cur # rest) =
          \<lparr>sn_start = sn_at e s, so_start = so, sn_end = sn_at e (status_top e - 1), so_end = 0xffff, md_next = []\<rparr>"
        using False p(4) report_end_at [OF ok] by (simp add: set_end_different_sdu_def)
      show ?thesis unfolding m
        by (rule part_okI [of _ e s "status_top e - 1"]) (use assms in \<open>auto intro: part_end_next(1)\<close>)
    qed
  qed
qed

text \<open>The state of the walk inside the slot at offset \<open>k\<close>, having started at a position.\<close>

definition walking :: "nr_rlc_entity_am \<Rightarrow> int \<Rightarrow> int \<Rightarrow> int \<Rightarrow> nr_rlc_pdu \<Rightarrow> nr_rlc_pdu list \<Rightarrow> int \<Rightarrow> bool \<Rightarrow> bool" where
  "walking e i b k cur rest max_so last_reached \<longleftrightarrow> at_pdu e k cur rest \<and> 0 \<le> i \<and> i \<le> k \<and> 0 \<le> max_so \<and>
     (i < k \<or> b \<le> max max_so (pdu_so cur)) \<and>
     has_upto e i b k (pdu_so cur) \<and> has_upto e i b k (max_so + 1) \<and>
     (last_reached \<longrightarrow> (\<exists>p\<in>set (ring e k). pdu_is_last p \<and> pdu_so p + pdu_size p \<le> max_so + 1))"

lemma walking_covers:
  assumes ok: "report_ok e" and w: "walking e i b k cur rest max_so lr"
  defines "m \<equiv> max max_so (pdu_so cur + pdu_size cur - 1)"
  shows "has_upto e i b k (m + 1)" and "lr \<or> pdu_is_last cur \<Longrightarrow> \<exists>p\<in>set (ring e k). pdu_is_last p \<and> pdu_so p + pdu_size p \<le> m + 1"
    and "lr \<or> pdu_is_last cur \<Longrightarrow> has_upto e i b (k + 1) 0" and "pdu_data cur = None \<Longrightarrow> has_upto e i b (k + 1) 0"
    and "i < k \<or> b < m + 1"
proof -
  have c: "at_pdu e k cur rest" using w by (simp add: walking_def)
  note p = at_pdu_ok [OF ok c]
  show "i < k \<or> b < m + 1" using w p(1) by (auto simp: walking_def m_def pdu_ok_def)
  from has_upto_trans [OF _ has_upto_pdu [OF p(3)]] have "has_upto e i b k (pdu_so cur + pdu_size cur)" using w by (simp add: walking_def)
  then show m: "has_upto e i b k (m + 1)" using w by (simp add: m_def max_def walking_def)
  show l: "\<exists>p\<in>set (ring e k). pdu_is_last p \<and> pdu_so p + pdu_size p \<le> m + 1" if "lr \<or> pdu_is_last cur"
    using that
  proof
    assume lr
    then obtain x where "x \<in> set (ring e k)" "pdu_is_last x" "pdu_so x + pdu_size x \<le> max_so + 1" using w by (auto simp: walking_def)
    then show ?thesis by (intro bexI [of _ x]) (auto simp: m_def)
  next
    assume "pdu_is_last cur"
    then show ?thesis using p(3) by (intro bexI [of _ cur]) (auto simp: m_def)
  qed
  show "has_upto e i b (k + 1) 0" if a: "lr \<or> pdu_is_last cur"
  proof -
    obtain x where "x \<in> set (ring e k)" "pdu_is_last x" "pdu_so x + pdu_size x \<le> m + 1" using l [OF a] by blast
    then have "rx_has e k y" if "m + 1 \<le> y" for y unfolding rx_has_def using that by (intro disjI2 bexI [of _ x]) auto
    then have "has_upto e k (m + 1) (k + 1) 0" by (auto simp: has_upto_def)
    then show ?thesis using m has_upto_trans by blast
  qed
  show "has_upto e i b (k + 1) 0" if "pdu_data cur = None"
  proof -
    have "processed (ring e k)" using p(2,3) that by (auto simp: slot_ok_def split: if_splits)
    then have "has_upto e k (m + 1) (k + 1) 0" by (auto simp: has_upto_def rx_has_def)
    then show ?thesis using m has_upto_trans by blast
  qed
qed

text \<open>The end of the walk, and a gap.\<close>

lemma at_end_part:
  assumes ok: "report_ok e" and w: "walking e i b k cur rest max_so lr"
  shows "part_ok e i b (missing_at_end e cur (max max_so (pdu_so cur + pdu_size cur - 1)) (lr \<or> pdu_is_last cur))"
proof -
  let ?m = "max max_so (pdu_so cur + pdu_size cur - 1)" and ?l = "lr \<or> pdu_is_last cur"
  have g: "am_geo e" by (rule report_ok_facts(1) [OF ok])
  have c: "at_pdu e k cur rest" "0 \<le> i" "i \<le> k" "0 \<le> max_so" using w by (auto simp: walking_def)
  have k: "0 \<le> k" "k \<le> status_top e" "status_top e < am_window_size e" using c(1) ok by (auto simp: at_pdu_def report_ok_def)
  note p = at_pdu_ok [OF ok c(1)]
  define s where "s = (if pdu_data cur = None \<or> ?l then k + 1 else k)"
  define so where "so = (if pdu_data cur = None \<or> ?l then 0 else ?m + 1)"
  have has: "has_upto e i b s so" using walking_covers [OF ok w] by (auto simp: s_def so_def)
  have s: "i \<le> s" "0 \<le> s" "s \<le> am_window_size e" "0 \<le> so" using c k by (auto simp: s_def so_def)
  have bs: "i < s \<or> b < so" using walking_covers(5) [OF ok w] c(3) by (auto simp: s_def so_def)
  have m: "missing_at_end e cur ?m ?l = (if s < status_top e
      then Some \<lparr>sn_start = sn_at e s, so_start = so, sn_end = sn_at e (status_top e - 1), so_end = 0xffff, md_next = []\<rparr> else None)"
  proof -
    have st: "(if pdu_data cur = None \<or> ?l then (c_mod (pdu_sn cur + 1) (am_sn_modulus e), 0) else (pdu_sn cur, ?m + 1)) = (sn_at e s, so)"
      using p(4) sn_at_succ [OF g, of k] by (simp add: s_def so_def)
    show ?thesis unfolding missing_at_end_def st Let_def using in_report_at [OF ok s(2,3)] report_end_at [OF ok] by simp
  qed
  show ?thesis
  proof (cases "s < status_top e")
    case True
    then show ?thesis unfolding m if_P [OF True]
      by (intro part_okI [of _ e s "status_top e - 1"]) (use s has bs in \<open>auto intro: part_end_next(1)\<close>)
  next
    case False
    then have "status_top e < s \<or> (status_top e = s \<and> 0 \<le> so)" using s(4) by linarith
    then show ?thesis unfolding m if_not_P [OF False] using has_upto_less [OF has] by (simp add: part_ok_def)
  qed
qed

lemma gap_part:
  assumes ok: "report_ok e" and w: "walking e i b k cur rest max_so lr" and c': "at_pdu e j cur' rest'" "k \<le> j"
    and m: "m = max max_so (pdu_so cur + pdu_size cur - 1)" and l: "l \<longleftrightarrow> lr \<or> pdu_is_last cur"
    and gap: "j = k \<Longrightarrow> m < pdu_so cur' - 1" "j = k + 1 \<Longrightarrow> l \<Longrightarrow> \<not> pdu_is_first cur'"
  shows "part_ok e i b (missing_between e (pdu_sn cur) m l cur' rest')"
proof -
  have g: "am_geo e" by (rule report_ok_facts(1) [OF ok])
  have c: "at_pdu e k cur rest" "0 \<le> i" "i \<le> k" "0 \<le> max_so" using w by (auto simp: walking_def)
  have k: "0 \<le> k" "j \<le> status_top e" "status_top e < am_window_size e" using c(1) c'(1) ok by (auto simp: at_pdu_def report_ok_def)
  note p = at_pdu_ok [OF ok c(1)] and p' = at_pdu_ok [OF ok c'(1)]
  have m0: "0 \<le> m" using c(4) m by simp
  note cov = walking_covers(1,3,5) [OF ok w, folded m l]
  have so: "pdu_so cur' < 65536" using p'(1) by (simp add: pdu_ok_def)
  show ?thesis
  proof (cases "j = k")
    case True
    then have e: "missing_between e (pdu_sn cur) m l cur' rest' = (if k < status_top e
        then Some \<lparr>sn_start = sn_at e k, so_start = m + 1, sn_end = sn_at e k, so_end = pdu_so cur' - 1, md_next = cur' # rest'\<rparr> else None)"
      using p(4) p'(4) in_report_at [OF ok k(1)] k by (simp add: missing_between_def)
    show ?thesis
    proof (cases "k < status_top e")
      case T: True
      show ?thesis unfolding e if_P [OF T]
        by (rule part_okI [of _ e k k]) (use T True c k m0 cov gap(1) so in \<open>auto intro: part_end_next(3) [OF _ c'(1)]\<close>)
    next
      case F: False
      show ?thesis unfolding e if_not_P [OF F] using has_upto_less [OF cov(1), of "status_top e" 0] F True k m0 by (simp add: part_ok_def)
    qed
  next
    case False
    then have ne: "pdu_sn cur' \<noteq> pdu_sn cur" using p(4) p'(4) report_sn_inj [OF ok, of j k] k c'(2) by simp
    define s where "s = (if l then k + 1 else k)"
    define so where "so = (if l then 0 else m + 1)"
    have has: "has_upto e i b s so" using cov(1,2) by (auto simp: s_def so_def)
    have bs: "i < s \<or> b < so" using cov(3) c(3) by (auto simp: s_def so_def)
    have s: "i \<le> s" "0 \<le> s" "s \<le> am_window_size e" "s \<le> j" "0 \<le> so" using c k False c'(2) m0 by (auto simp: s_def so_def)
    have e: "missing_between e (pdu_sn cur) m l cur' rest' =
        (if s < status_top e then Some (set_end_different_sdu e (sn_at e s) so cur' (cur' # rest')) else None)"
    proof -
      have st: "(if l then (c_mod (pdu_sn cur + 1) (am_sn_modulus e), 0) else (pdu_sn cur, m + 1)) = (sn_at e s, so)"
        using p(4) sn_at_succ [OF g, of k] by (simp add: s_def so_def)
      show ?thesis unfolding missing_between_def st Let_def using ne in_report_at [OF ok s(2,3)] by simp
    qed
    show ?thesis
    proof (cases "s < status_top e")
      case T: True
      have f: "s < j" if "pdu_is_first cur'" using gap(2) that False c'(2) unfolding s_def by (cases "j = k + 1") auto
      have l: "so \<le> pdu_so cur'" if "s = j" using that False p'(1) by (auto simp: s_def so_def pdu_ok_def split: if_splits)
      show ?thesis unfolding e if_P [OF T] by (rule set_end_part [OF ok c'(1) c(2) s(1) T s(4,5) has bs f l])
    next
      case F: False
      then have "status_top e < s \<or> (status_top e = s \<and> 0 \<le> so)" using s(5) by linarith
      then show ?thesis unfolding e if_not_P [OF F] using has_upto_less [OF has] by (simp add: part_ok_def)
    qed
  qed
qed

text \<open>The loop ends and finds the next missing part.\<close>

lemma next_missing_loop_part:
  assumes ok: "report_ok e" and w: "walking e i b k cur rest max_so lr"
  shows "\<exists>mo. next_missing_loop e cur rest max_so lr = Some mo \<and> part_ok e i b mo"
  using w
proof (induction "(nat (status_top e - k), length rest)" arbitrary: k cur rest max_so lr
    rule: wf_induct_rule [OF wf_lex_prod [OF wf_less wf_less]])
  case (1 k rest cur max_so lr)
  let ?m = "max max_so (pdu_so cur + pdu_size cur - 1)" and ?l = "lr \<or> pdu_is_last cur"
  have g: "am_geo e" by (rule report_ok_facts(1) [OF ok])
  have c: "at_pdu e k cur rest" "0 \<le> i" "i \<le> k" "0 \<le> max_so" using "1.prems" by (auto simp: walking_def)
  have k: "0 \<le> k" "k \<le> status_top e" "status_top e < am_window_size e" using c(1) ok by (auto simp: at_pdu_def report_ok_def)
  note p = at_pdu_ok [OF ok c(1)] and cov = walking_covers [OF ok "1.prems"]
  note step = next_missing_loop.simps [of e cur rest max_so lr, unfolded Let_def]
  have succ: "c_mod (pdu_sn cur + 1) (am_sn_modulus e) = sn_at e (k + 1)" using p(4) sn_at_succ [OF g, of k] by simp
  show ?case
  proof (rule next_at [OF ok c(1)])
    assume "get_next_rx_pdu e cur rest = Some []"
    then show ?thesis using at_end_part [OF ok "1.prems"] by (subst step) simp
  next
    fix cur' rest'
    assume n: "rest = cur' # rest'" "get_next_rx_pdu e cur rest = Some (cur' # rest')" "at_pdu e k cur' rest'"
    have sn: "pdu_sn cur' = pdu_sn cur" "pdu_sn cur' \<noteq> sn_at e (k + 1)"
      using at_pdu_ok(4) [OF ok n(3)] p(4) report_sn_inj [OF ok, of k "k + 1"] k by auto
    show ?thesis
    proof (cases "?m \<ge> pdu_so cur' - 1")
      case True
      have "walking e i b k cur' rest' ?m ?l"
        unfolding walking_def using n(3) c cov(1,2,5) has_upto_less [OF cov(1), of k "pdu_so cur'"] True by auto
      then have "\<exists>mo. next_missing_loop e cur' rest' ?m ?l = Some mo \<and> part_ok e i b mo"
        by (intro "1.hyps") (use n(1) in simp_all)
      then show ?thesis using n(2) sn True by (subst step) simp
    next
      case False
      have "part_ok e i b (missing_between e (pdu_sn cur) ?m ?l cur' rest')"
        by (rule gap_part [OF ok "1.prems" n(3) order_refl refl refl]) (use False in auto)
      then show ?thesis using n(2) sn succ False by (subst step) simp
    qed
  next
    fix j cur' rest'
    assume n: "get_next_rx_pdu e cur rest = Some (cur' # rest')" "k < j" "at_pdu e j cur' rest'"
    note p' = at_pdu_ok [OF ok n(3)]
    have j: "j \<le> status_top e" using n(3) by (simp add: at_pdu_def)
    have sn: "pdu_sn cur' \<noteq> pdu_sn cur" "pdu_sn cur' = sn_at e (k + 1) \<longleftrightarrow> j = k + 1"
      using p'(4) p(4) report_sn_inj [OF ok, of j k] report_sn_inj [OF ok, of j "k + 1"] k n(2) j by auto
    show ?thesis
    proof (cases "j = k + 1 \<and> ?l \<and> pdu_is_first cur'")
      case True
      then have so: "pdu_so cur' = 0" "1 \<le> pdu_size cur'" using p'(1) by (auto simp: pdu_ok_def)
      have h0: "has_upto e i b j 0" using cov(3) True by simp
      have "has_upto e j 0 j 1" using has_upto_less [OF has_upto_pdu [OF p'(3)], of j 1] so by simp
      then have "walking e i b j cur' rest' 0 False"
        unfolding walking_def using n(2,3) c so h0 has_upto_trans [OF h0] by auto
      then have "\<exists>mo. next_missing_loop e cur' rest' 0 False = Some mo \<and> part_ok e i b mo"
        by (intro "1.hyps") (use n(2) j in simp_all)
      then show ?thesis using n(1) sn succ True by (subst step) simp
    next
      case False
      have "part_ok e i b (missing_between e (pdu_sn cur) ?m ?l cur' rest')"
        by (rule gap_part [OF ok "1.prems" n(3) _ refl refl]) (use n(2) False in auto)
      then show ?thesis using n(1) sn succ False by (subst step) auto
    qed
  qed
qed

lemma walking_start:
  assumes ok: "report_ok e" and c: "at_pdu e k cur rest"
  shows "walking e k (pdu_so cur) k cur rest 0 False"
proof -
  note p = at_pdu_ok [OF ok c]
  have so: "0 \<le> pdu_so cur" "1 \<le> pdu_size cur" using p(1) by (auto simp: pdu_ok_def)
  then have "has_upto e k (pdu_so cur) k 1"
    using has_upto_less [OF has_upto_pdu [OF p(3)], of k 1] has_upto_empty [of k k 1 "pdu_so cur" e] by (cases "pdu_so cur = 0") auto
  then show ?thesis using c so has_upto_empty [of k k "pdu_so cur" "pdu_so cur" e] by (simp add: walking_def at_pdu_def)
qed

lemma next_missing_part:
  assumes ok: "report_ok e" and c: "at_pdu e k cur rest"
  shows "\<exists>mo. next_missing e cur rest False = Some mo \<and> part_ok e k (pdu_so cur) mo"
  using next_missing_loop_part [OF ok walking_start [OF ok c]] by (simp add: next_missing_def)

text \<open>The start of the report, before the first byte.\<close>

lemma has_upto_zero: "has_upto e i 0 j c \<Longrightarrow> has_upto e i (- 1) j c"
  unfolding has_upto_def by auto

lemma part_ok_zero: "part_ok e 0 0 mo \<Longrightarrow> part_ok e 0 (- 1) mo"
proof (cases mo)
  case None
  then show "part_ok e 0 0 mo \<Longrightarrow> part_ok e 0 (- 1) mo" by (simp add: part_ok_def has_upto_zero)
next
  case (Some m)
  assume "part_ok e 0 0 mo"
  then obtain s t where p: "sn_start m = sn_at e s" "sn_end m = sn_at e t" "0 \<le> s" "0 < s \<or> 0 < so_start m" "s \<le> t" "t < status_top e"
    "0 \<le> so_start m" "0 \<le> so_end m" "so_end m \<le> 0xffff" "s = t \<and> so_end m \<noteq> 0xffff \<longrightarrow> so_start m \<le> so_end m + 1"
    "has_upto e 0 0 s (so_start m)" "part_end e m" unfolding part_ok_def Some option.case by blast
  show "part_ok e 0 (- 1) mo" unfolding Some
    by (rule part_okI [OF p(1-3) _ p(5-10) has_upto_zero [OF p(11)] p(12)]) (use p(4) in auto)
qed

lemma first_missing_part:
  assumes ok: "report_ok e" and r: "ring e k = cur # rest" and k: "0 \<le> k" "k \<le> status_top e"
  shows "\<exists>mo. next_missing e cur rest True = Some mo \<and> part_ok e 0 (- 1) mo"
proof -
  have g: "am_geo e" by (rule report_ok_facts(1) [OF ok])
  have c: "at_pdu e k cur rest" using r k by (auto simp: at_pdu_def)
  note p = at_pdu_ok [OF ok c]
  have w: "status_top e < am_window_size e" using ok by (simp add: report_ok_def)
  have f: "pdu_is_first cur \<longleftrightarrow> pdu_so cur = 0" using p(1) by (simp add: pdu_ok_def)
  have z: "pdu_sn cur = am_rx_next e \<longleftrightarrow> k = 0"
    using p(4) sn_at_zero [OF g] report_sn_inj [OF ok, of k 0] k w by simp
  show ?thesis
  proof (cases "k = 0 \<and> pdu_is_first cur")
    case True
    then show ?thesis using next_missing_part [OF ok c] z f part_ok_zero by (auto simp: next_missing_def)
  next
    case False
    have r0: "in_report e (am_rx_next e) \<longleftrightarrow> 0 < status_top e"
      using in_report_at [OF ok, of 0] sn_at_zero [OF g] am_geo_size [OF g] by simp
    have "part_ok e 0 (- 1) (missing_at_head e cur rest)"
    proof (cases "0 < status_top e")
      case T: True
      have "part_ok e 0 (- 1) (Some (set_end_different_sdu e (sn_at e 0) 0 cur (cur # rest)))"
        by (rule set_end_part [OF ok c]) (use T k False p(1) in \<open>auto simp: pdu_ok_def intro: has_upto_empty\<close>)
      then show ?thesis using T r0 sn_at_zero [OF g] by (simp add: missing_at_head_def)
    next
      case F: False
      then show ?thesis using r0 k has_upto_empty [of "status_top e" 0 0 "- 1" e] by (simp add: missing_at_head_def part_ok_def)
    qed
    then show ?thesis using False z by (auto simp: next_missing_def)
  qed
qed

end
