(* ===== verification/Rlc_Am_Status_Codec.thy ===== *)
theory Rlc_Am_Status_Codec
  imports Rlc_Am_Missing Rlc_Am_Codec
begin

text \<open>
  The STATUS PDU as a sequence of bits: what \<^verbatim>\<open>generate_missing\<close> and \<^verbatim>\<open>generate_status\<close> write is what
  \<^verbatim>\<open>process_control_pdu\<close> reads, also when a report is cut off and the last segment offset is changed.
\<close>

section \<open>Fields\<close>

text \<open>A NACK as it is encoded: the sequence number, and a pair of segment offsets and a range if present.\<close>

type_synonym nack_fields = "int \<times> (int \<times> int) option \<times> nat option"

abbreviation r_bits :: "nat \<Rightarrow> nat" where "r_bits n \<equiv> (if n = 18 then 3 else 1)"

definition nack_bits :: "nat \<Rightarrow> bool \<Rightarrow> nack_fields \<Rightarrow> bool list" where
  "nack_bits n e1 x = (case x of (sn, so, rng) \<Rightarrow>
     msb_bits sn n @ [e1, so \<noteq> None, rng \<noteq> None] @ replicate (r_bits n) False @
     (case so of None \<Rightarrow> [] | Some (a, b) \<Rightarrow> msb_bits a 16 @ msb_bits b 16) @
     (case rng of None \<Rightarrow> [] | Some c \<Rightarrow> msb_bits (int c) 8))"

definition nack_of :: "nack_fields \<Rightarrow> nack" where
  "nack_of x = (case x of (sn, so, rng) \<Rightarrow>
     (sn, (case so of None \<Rightarrow> 0 | Some (a, b) \<Rightarrow> a mod 65536),
      (case so of None \<Rightarrow> -1 | Some (a, b) \<Rightarrow> if b mod 65536 = 0xffff then -1 else b mod 65536),
      (case rng of None \<Rightarrow> 1 | Some c \<Rightarrow> int c mod 256)))"

text \<open>Only the last NACK has no other behind it.\<close>

definition nacks_bits :: "nat \<Rightarrow> nack_fields list \<Rightarrow> bool list" where
  "nacks_bits n xs = concat (map (nack_bits n True) (butlast xs)) @ (if xs = [] then [] else nack_bits n False (last xs))"

lemma nacks_bits_simps [simp]:
  "nacks_bits n [] = []" "nacks_bits n (x # xs) = nack_bits n (xs \<noteq> []) x @ nacks_bits n xs"
  by (simp_all add: nacks_bits_def)

lemma nacks_bits_append: "nacks_bits n (xs @ [x]) = concat (map (nack_bits n True) xs) @ nack_bits n False x"
  by (simp add: nacks_bits_def)

definition status_bits :: "nat \<Rightarrow> int \<Rightarrow> nack_fields list \<Rightarrow> bool list" where
  "status_bits n ack_sn xs = replicate 4 False @ msb_bits ack_sn n @ [xs \<noteq> []] @ replicate (if n = 18 then 1 else 7) False @ nacks_bits n xs"

section \<open>Decoding\<close>

text \<open>The bits that a decoder has not read yet.\<close>

definition bits_at :: "nr_rlc_pdu_decoder \<Rightarrow> bool list \<Rightarrow> bool" where
  "bits_at d bs \<longleftrightarrow> (\<exists>buf p. dec_at d buf p \<and> p \<le> 8 * length buf \<and> drop p (bits_of buf) = bs)"

definition reads :: "nr_rlc_pdu_decoder \<Rightarrow> nat \<Rightarrow> int \<Rightarrow> nr_rlc_pdu_decoder \<Rightarrow> bool" where
  "reads d n v d' \<longleftrightarrow> nr_rlc_pdu_decoder_get_bits d n = Some (v, d') \<and> \<not> dec_error d'"

lemma am_read_reads: "reads d n v d' \<Longrightarrow> am_read d n k = k v d'"
  by (simp add: reads_def am_read_def)

lemma reads_bits:
  assumes "bits_at d (xs @ ys)" and "length xs = n" and "n \<le> 31"
  obtains d' where "bits_at d' ys" and "reads d n (bits_val 0 xs) d'"
proof -
  obtain buf p where d: "dec_at d buf p" "p \<le> 8 * length buf" "drop p (bits_of buf) = xs @ ys" using assms(1) by (auto simp: bits_at_def)
  have l: "8 * length buf - p = length xs + length ys" using arg_cong [OF d(3), of length] by simp
  then have n: "p + n \<le> 8 * length buf" using assms(2) d(2) by simp
  obtain d' where d': "nr_rlc_pdu_decoder_get_bits d n = Some (bits_val 0 (take n (drop p (bits_of buf))), d')" "dec_at d' buf (p + n)"
    by (rule get_bits_at [OF d(1) n assms(3)])
  have "drop (p + n) (bits_of buf) = ys" using arg_cong [OF d(3), of "drop n"] assms(2) by (simp add: add.commute)
  then have "bits_at d' ys" using d'(2) n by (auto simp: bits_at_def)
  moreover have "take n (drop p (bits_of buf)) = xs" using d(3) assms(2) by simp
  ultimately show thesis using that [of d'] d' by (simp add: reads_def dec_at_def)
qed

lemma reads_field:
  assumes "bits_at d (msb_bits v n @ ys)" and "n \<le> 31"
  obtains d' where "bits_at d' ys" and "reads d n (v mod 2 ^ n) d'"
  using reads_bits [OF assms(1) length_msb_bits assms(2)] that by (simp add: bits_val_msb) blast

lemma reads_flag:
  assumes "bits_at d (b # ys)"
  obtains d' where "bits_at d' ys" and "reads d 1 (of_bool b) d'"
  using reads_bits [of d "[b]" ys 1] assms that by simp blast

lemma reads_zeros:
  assumes "bits_at d (replicate n False @ ys)" and "n \<le> 31"
  obtains d' where "bits_at d' ys" and "reads d n 0 d'"
  using reads_field [of d 0 n ys] assms that by (simp add: msb_zero) blast

definition sn_range :: "nat \<Rightarrow> int \<Rightarrow> bool" where
  "sn_range n sn \<longleftrightarrow> (n = 12 \<or> n = 18) \<and> 0 \<le> sn \<and> sn < 2 ^ n"

lemma decode_nack_bits:
  assumes b: "bits_at d (nack_bits n e1 x @ rest)" and sn: "sn_range n (fst x)"
  obtains d' where "bits_at d' rest" and "decode_nack n d = Some (nack_of x, e1, d')"
proof -
  obtain s so rng where x: "x = (s, so, rng)" by (metis prod.exhaust)
  have n: "n \<le> 31" "s mod 2 ^ n = s" using sn by (auto simp: sn_range_def x)
  let ?r = "case rng of None \<Rightarrow> [] | Some c \<Rightarrow> msb_bits (int c) 8"
  let ?so = "case so of None \<Rightarrow> [] | Some (a, b) \<Rightarrow> msb_bits a 16 @ msb_bits b 16"
  have b1: "bits_at d (msb_bits s n @ e1 # (so \<noteq> None) # (rng \<noteq> None) # replicate (r_bits n) False @ ?so @ ?r @ rest)"
    using b by (simp add: nack_bits_def x)
  obtain d1 where d1: "bits_at d1 (e1 # (so \<noteq> None) # (rng \<noteq> None) # replicate (r_bits n) False @ ?so @ ?r @ rest)"
    "reads d n s d1" by (rule reads_field [OF b1 n(1), unfolded n(2)])
  obtain d2 where d2: "bits_at d2 ((so \<noteq> None) # (rng \<noteq> None) # replicate (r_bits n) False @ ?so @ ?r @ rest)"
    "reads d1 1 (of_bool e1) d2" by (rule reads_flag [OF d1(1)])
  obtain d3 where d3: "bits_at d3 ((rng \<noteq> None) # replicate (r_bits n) False @ ?so @ ?r @ rest)"
    "reads d2 1 (of_bool (so \<noteq> None)) d3" by (rule reads_flag [OF d2(1)])
  obtain d4 where d4: "bits_at d4 (replicate (r_bits n) False @ ?so @ ?r @ rest)"
    "reads d3 1 (of_bool (rng \<noteq> None)) d4" by (rule reads_flag [OF d3(1)])
  obtain d5 where d5: "bits_at d5 (?so @ ?r @ rest)" "reads d4 (r_bits n) 0 d5"
    by (rule reads_zeros [OF d4(1)]) simp
  note rd = am_read_reads [OF d1(2)] am_read_reads [OF d2(2)] am_read_reads [OF d3(2)] am_read_reads [OF d4(2)] am_read_reads [OF d5(2)]
  let ?f = "\<lambda>so_start so_end d. let so_end = (if so_end = 0xffff then -1 else so_end)
             in if of_bool (rng \<noteq> None) \<noteq> (0 :: int) then am_read d 8 (\<lambda>rng d. Some ((s, so_start, so_end, rng), of_bool e1 \<noteq> (0 :: int), d))
                else Some ((s, so_start, so_end, 1), of_bool e1 \<noteq> (0 :: int), d)"
  have dec: "decode_nack n d = (if of_bool (so \<noteq> None) \<noteq> (0 :: int)
      then am_read d5 16 (\<lambda>so_start d. am_read d 16 (\<lambda>so_end d. ?f so_start so_end d)) else ?f 0 0xffff d5)"
    unfolding decode_nack_def rd Let_def ..
  have fin: "\<exists>d'. bits_at d' rest \<and> ?f sa sz dx = Some ((s, sa, if sz = 0xffff then -1 else sz, case rng of None \<Rightarrow> 1 | Some c \<Rightarrow> int c mod 256), e1, d')"
    if "bits_at dx (?r @ rest)" for sa sz :: int and dx
  proof (cases rng)
    case None
    then show ?thesis using that by auto
  next
    case (Some c)
    then have "bits_at dx (msb_bits (int c) 8 @ rest)" using that by simp
    then obtain d' where "bits_at d' rest" "reads dx 8 (int c mod 2 ^ 8) d'" by (rule reads_field) simp
    then show ?thesis using Some am_read_reads [of dx 8 "int c mod 2 ^ 8" d'] by auto
  qed
  show thesis
  proof (cases so)
    case None
    then have r: "bits_at d5 (?r @ rest)" using d5(1) by simp
    show thesis using fin [OF r, of "0xffff" 0] dec that None by (auto simp: nack_of_def x)
  next
    case (Some p)
    obtain a z where p: "p = (a, z)" by force
    have "bits_at d5 (msb_bits a 16 @ msb_bits z 16 @ ?r @ rest)" using d5(1) Some p by simp
    then obtain d6 where d6: "bits_at d6 (msb_bits z 16 @ ?r @ rest)" "reads d5 16 (a mod 2 ^ 16) d6" by (rule reads_field) simp
    obtain d7 where d7: "bits_at d7 (?r @ rest)" "reads d6 16 (z mod 2 ^ 16) d7" by (rule reads_field [OF d6(1)]) simp
    show thesis using fin [OF d7(1), of "z mod 65536" "a mod 65536"] dec that Some p
      by (auto simp: nack_of_def x am_read_reads [OF d6(2), simplified] am_read_reads [OF d7(2), simplified])
  qed
qed

lemma decode_nacks_bits:
  assumes "bits_at d (nacks_bits n xs)" and "\<forall>x\<in>set xs. sn_range n (fst x)" and "length xs \<le> fuel"
  shows "decode_nacks fuel n (xs \<noteq> []) d = Some (map nack_of xs)"
  using assms
proof (induction xs arbitrary: d fuel)
  case (Cons x xs)
  obtain d' where d': "bits_at d' (nacks_bits n xs)" "decode_nack n d = Some (nack_of x, xs \<noteq> [], d')"
    by (rule decode_nack_bits [of d n "xs \<noteq> []" x "nacks_bits n xs"]) (use Cons.prems in auto)
  obtain f where "fuel = Suc f" using Cons.prems(3) by (cases fuel) auto
  then show ?case using Cons.IH [OF d'(1), of f] Cons.prems d'(2) by simp
qed simp

lemma nacks_bits_length: "n = 12 \<or> n = 18 \<Longrightarrow> length xs \<le> length (nacks_bits n xs)"
proof (induction xs)
  case (Cons x xs)
  have "1 \<le> length (nack_bits n (xs \<noteq> []) x)" using Cons.prems by (cases x) (auto simp: nack_bits_def)
  then show ?case using Cons by simp
qed simp

lemma decode_status_bits:
  assumes b: "bits_of pdu = status_bits n ack_sn xs" and sn: "sn_range n ack_sn" "\<forall>x\<in>set xs. sn_range n (fst x)"
  shows "decode_status n pdu = Some (ack_sn, map nack_of xs)"
proof -
  have n: "n = 12 \<or> n = 18" "n \<le> 31" "ack_sn mod 2 ^ n = ack_sn" using sn(1) by (auto simp: sn_range_def)
  let ?t = "(xs \<noteq> []) # replicate (if n = 18 then 1 else 7) False @ nacks_bits n xs"
  have "dec_at (nr_rlc_pdu_decoder_init pdu) pdu 0" by simp
  then have "bits_at (nr_rlc_pdu_decoder_init pdu) (False # replicate 3 False @ msb_bits ack_sn n @ ?t)"
    unfolding bits_at_def by (intro exI [of _ pdu] exI [of _ 0]) (simp add: b status_bits_def eval_nat_numeral)
  then obtain d1 where d1: "bits_at d1 (replicate 3 False @ msb_bits ack_sn n @ ?t)"
    "reads (nr_rlc_pdu_decoder_init pdu) 1 (of_bool False) d1" by (rule reads_flag)
  obtain d2 where d2: "bits_at d2 (msb_bits ack_sn n @ ?t)" "reads d1 3 0 d2" by (rule reads_zeros [OF d1(1)]) simp
  obtain d3 where d3: "bits_at d3 ?t" "reads d2 n ack_sn d3" by (rule reads_field [OF d2(1) n(2), unfolded n(3)])
  obtain d4 where d4: "bits_at d4 (replicate (if n = 18 then 1 else 7) False @ nacks_bits n xs)" "reads d3 1 (of_bool (xs \<noteq> [])) d4"
    by (rule reads_flag [OF d3(1)])
  obtain d5 where d5: "bits_at d5 (nacks_bits n xs)" "reads d4 (if n = 18 then 1 else 7) 0 d5"
    by (rule reads_zeros [OF d4(1)]) simp
  have "length xs \<le> 8 * length pdu"
    using nacks_bits_length [OF n(1), of xs] arg_cong [OF b, of length] by (simp add: status_bits_def)
  then have "decode_nacks (8 * length pdu) n (xs \<noteq> []) d5 = Some (map nack_of xs)" by (rule decode_nacks_bits [OF d5(1) sn(2)])
  moreover have "decode_status n pdu = map_option (\<lambda>nacks. (ack_sn, nacks)) (decode_nacks (8 * length pdu) n (xs \<noteq> []) d5)"
    unfolding decode_status_def am_read_reads [OF d1(2)] am_read_reads [OF d2(2)] am_read_reads [OF d3(2)]
      am_read_reads [OF d4(2)] am_read_reads [OF d5(2)] by simp
  ultimately show ?thesis by simp
qed

section \<open>Encoding\<close>

text \<open>The NACKs with all E1 bits set, as when another one follows.\<close>

definition open_bits :: "nat \<Rightarrow> nack_fields list \<Rightarrow> bool list" where
  "open_bits n xs = replicate 4 False @ msb_bits 0 n @ [True] @ replicate (if n = 18 then 1 else 7) False @ concat (map (nack_bits n True) xs)"

definition e1_index :: "nat \<Rightarrow> nack_fields list \<Rightarrow> nat" where
  "e1_index n xs = (if xs = [] then 4 + n else length (open_bits n (butlast xs)) + n)"

definition so_address :: "nat \<Rightarrow> nack_fields list \<Rightarrow> nat option" where
  "so_address n xs = (if xs = [] \<or> fst (snd (last xs)) = None then None
     else Some ((length (open_bits n (butlast xs)) + n + 3 + r_bits n + 16) div 8))"

lemma nack_bits_e1: "(nack_bits n False x)[n := True] = nack_bits n True x"
  by (cases x) (simp add: nack_bits_def list_update_append)

lemma status_open: "status_bits n 0 (xs @ [x]) = open_bits n xs @ nack_bits n False x"
  by (simp add: status_bits_def open_bits_def nacks_bits_append)

lemma status_bits_e1: "(status_bits n 0 xs)[e1_index n xs := True] = open_bits n xs"
proof (cases xs rule: rev_cases)
  case Nil
  then show ?thesis by (simp add: status_bits_def open_bits_def e1_index_def list_update_append)
next
  case (snoc ys y)
  have "open_bits n xs = open_bits n ys @ nack_bits n True y" by (simp add: open_bits_def snoc)
  then show ?thesis by (simp add: snoc status_open e1_index_def list_update_append nack_bits_e1)
qed

lemma bits_of_set:
  assumes "i < length bs" and "k < 8"
  shows "bits_of (bs[i := bs ! i OR push_bit k 1]) = (bits_of bs)[8 * i + (7 - k) := True]"
proof (rule nth_equalityI)
  fix j assume "j < length (bits_of (bs[i := bs ! i OR push_bit k 1]))"
  then have j: "j div 8 < length bs" "j = 8 * (j div 8) + j mod 8" "j mod 8 < 8" by auto
  have "bits_of (bs[i := bs ! i OR push_bit k 1]) ! j = bit ((bs[i := bs ! i OR push_bit k 1]) ! (j div 8)) (7 - j mod 8)"
    using nth_bits_of [of "j div 8" "bs[i := bs ! i OR push_bit k 1]" "j mod 8"] j by simp
  also have "\<dots> = (bits_of bs ! j \<or> (j div 8 = i \<and> j mod 8 = 7 - k))"
    using nth_bits_of [of "j div 8" bs "j mod 8"] j assms
    by (auto simp: nth_list_update bit_or_iff bit_exp_iff possible_bit_word)
  also have "(j div 8 = i \<and> j mod 8 = 7 - k) \<longleftrightarrow> j = 8 * i + (7 - k)"
  proof
    assume "j = 8 * i + (7 - k)"
    then show "j div 8 = i \<and> j mod 8 = 7 - k" by simp
  qed (use j(2) in simp)
  also have "(bits_of bs ! j \<or> j = 8 * i + (7 - k)) = (bits_of bs)[8 * i + (7 - k) := True] ! j"
    using j(1) by (cases "j = 8 * i + (7 - k)") auto
  finally show "bits_of (bs[i := bs ! i OR push_bit k 1]) ! j = (bits_of bs)[8 * i + (7 - k) := True] ! j" .
qed simp

text \<open>The state of the encoder after some NACKs.\<close>

definition st_nacks :: "nat \<Rightarrow> status_state \<Rightarrow> nack_fields list \<Rightarrow> bool" where
  "st_nacks n st xs \<longleftrightarrow> enc_ok (st_enc st) \<and> enc_bit (st_enc st) = 0 \<and>
     bits_of (take (enc_byte (st_enc st)) (enc_buffer (st_enc st))) = status_bits n 0 xs \<and>
     snd (st_e1 st) < 8 \<and> 8 * fst (st_e1 st) + (7 - snd (st_e1 st)) = e1_index n xs \<and>
     st_so_end_address st = so_address n xs"

lemma open_bits_length: "length (status_bits n 0 xs) = length (open_bits n xs)"
  using arg_cong [OF status_bits_e1 [of n xs], of length] by simp

lemma e1_index_less: "e1_index n xs < length (status_bits n 0 xs)"
proof (cases xs rule: rev_cases)
  case Nil
  then show ?thesis by (simp add: status_bits_def e1_index_def)
next
  case (snoc ys y)
  moreover have "n < length (nack_bits n False y)" by (cases y) (simp add: nack_bits_def)
  ultimately show ?thesis by (simp add: status_open e1_index_def)
qed

lemma st_nacks_e1:
  assumes "st_nacks n st xs"
  defines "enc \<equiv> set_buffer_bit (st_enc st) (st_e1 st)"
  shows "enc_ok enc" and "enc_bit enc = 0" and "enc_bits enc = open_bits n xs" and "8 * enc_byte enc = length (open_bits n xs)"
    and "length (enc_buffer enc) = length (enc_buffer (st_enc st))" and "enc_byte enc = enc_byte (st_enc st)"
proof -
  let ?e = "st_enc st" and ?i = "fst (st_e1 st)" and ?k = "snd (st_e1 st)"
  let ?b = "take (enc_byte ?e) (enc_buffer ?e)"
  have s: "enc_ok ?e" "enc_bit ?e = 0" "bits_of ?b = status_bits n 0 xs" "?k < 8" "8 * ?i + (7 - ?k) = e1_index n xs"
    using assms(1) by (auto simp: st_nacks_def)
  have lb: "length ?b = enc_byte ?e" using s(1) by (simp add: enc_ok_def)
  then have len: "8 * enc_byte ?e = length (status_bits n 0 xs)" using arg_cong [OF s(3), of length] by simp
  then have i: "?i < length ?b" using e1_index_less [of n xs] s(4,5) lb by linarith
  have nth: "enc_buffer ?e ! ?i = ?b ! ?i" using i by simp
  have "take (enc_byte ?e) (enc_buffer enc) = ?b[?i := ?b ! ?i OR push_bit ?k 1]"
    unfolding enc_def set_buffer_bit_def using nth by (simp add: take_update_swap)
  then have "bits_of (take (enc_byte ?e) (enc_buffer enc)) = open_bits n xs"
    using bits_of_set [OF i s(4)] s(3,5) status_bits_e1 by simp
  then show "enc_bits enc = open_bits n xs" using s(2) by (simp add: enc_bits_def enc_def set_buffer_bit_def)
  show "enc_ok enc" "enc_bit enc = 0" "8 * enc_byte enc = length (open_bits n xs)"
    "length (enc_buffer enc) = length (enc_buffer ?e)" "enc_byte enc = enc_byte ?e"
    using s(1,2) len open_bits_length by (simp_all add: enc_def set_buffer_bit_def enc_ok_def)
qed

definition nack_fields :: "missing_data_t \<Rightarrow> nat \<Rightarrow> nack_fields" where
  "nack_fields m c = (sn_start m, (if so_start m = 0 \<and> so_end m = 0xffff then None else Some (so_start m, so_end m)),
     (if sn_start m = sn_end m then None else Some c))"

lemma nack_bits_size:
  assumes "sn_len_ok e"
  shows "int (length (nack_bits (am_sn_field_length e) b (nack_fields m c))) = 8 * nack_size e m"
  using assms by (auto simp: nack_bits_def nack_fields_def nack_size_def sn_len_ok_def)

text \<open>The calls of \<^verbatim>\<open>put_bits\<close> for one NACK.\<close>

lemma put_nack_fields:
  assumes "sn_len_ok e"
  defines "n \<equiv> am_sn_field_length e"
  shows "put_nack e m c st =
    (let enc = set_buffer_bit (st_enc st) (st_e1 st); x = nack_fields m c;
         addr = (if fst (snd x) = None then None
                 else map_option enc_byte (put_bit_list enc (take (n + 3 + r_bits n + 16) (nack_bits n False x))))
     in map_option (\<lambda>enc'. st\<lparr>st_enc := enc', st_e1 := get_e1_position e enc, st_so_end_address := addr,
          st_last_nack := (if sn_start m = sn_end m then sn_start m else sn_start m + (int c - 1))\<rparr>) (put_bit_list enc (nack_bits n False x)))"
proof -
  let ?e = "set_buffer_bit (st_enc st) (st_e1 st)"
  have n: "n \<le> 31" using assms by (auto simp: sn_len_ok_def n_def)
  note f = put_field_bits put_field_bits [OF n] put_field_bits [where bs = "[]" and e = ?e, simplified] put_field_bits [OF n, where bs = "[]" and e = ?e, simplified]
  have z: "msb_bits 0 (Suc 0) = [False]" "msb_bits 0 3 = replicate 3 False" by (simp_all add: msb_zero)
  obtain q where q: "(so_start m = 0 \<and> so_end m = 0xffff) = q" by simp
  show ?thesis
    by (cases q; cases "sn_start m = sn_end m"; cases "n = 18")
      (simp_all add: put_nack_def Let_def q f msb_one z nack_bits_def nack_fields_def n_def [symmetric] del: put_bit_list.simps)
qed

lemma put_nack_bits:
  assumes st: "st_nacks n st xs" and n: "n = am_sn_field_length e" and len: "sn_len_ok e"
    and room: "int (enc_byte (st_enc st)) + nack_size e m \<le> int (length (enc_buffer (st_enc st)))"
  obtains st' where "put_nack e m c st = Some st'" and "st_nacks n st' (xs @ [nack_fields m c])"
    and "st_truncated st' = st_truncated st" and "length (enc_buffer (st_enc st')) = length (enc_buffer (st_enc st))"
    and "st_last_nack st' = (if sn_start m = sn_end m then sn_start m else sn_start m + (int c - 1))"
proof -
  let ?x = "nack_fields m c"
  define enc where "enc = set_buffer_bit (st_enc st) (st_e1 st)"
  note e1 = st_nacks_e1 [OF st, folded enc_def]
  have sz: "int (length (nack_bits n False ?x)) = 8 * nack_size e m" using nack_bits_size [OF len, of False m c] n by simp
  have fit: "8 * enc_byte enc + enc_bit enc + length (nack_bits n False ?x) \<le> 8 * length (enc_buffer enc)"
    using room sz e1(2,5,6) by simp
  from put_bit_list_bits [OF e1(1) fit] obtain enc' where enc': "put_bit_list enc (nack_bits n False ?x) = Some enc'" "enc_ok enc'"
    "enc_bits enc' = open_bits n xs @ nack_bits n False ?x" "length (enc_buffer enc') = length (enc_buffer enc)"
    "8 * enc_byte enc' + enc_bit enc' = 8 * enc_byte enc + enc_bit enc + length (nack_bits n False ?x)"
    using e1(3) by auto
  have z: "enc_bit enc' = 0"
  proof -
    have "int (enc_bit enc') = 8 * (int (enc_byte enc) + nack_size e m - int (enc_byte enc'))" using enc'(5) sz e1(2) by simp
    moreover have "enc_bit enc' < 8" using enc'(2) by (simp add: enc_ok_def)
    ultimately show ?thesis by presburger
  qed
  have bits: "bits_of (take (enc_byte enc') (enc_buffer enc')) = status_bits n 0 (xs @ [?x])"
    using enc'(3) z by (simp add: enc_bits_def status_open)
  have nn: "n = 12 \<or> n = 18" using len n by (simp add: sn_len_ok_def)
  let ?p = "take (n + 3 + r_bits n + 16) (nack_bits n False ?x)"
  have addr: "(if fst (snd ?x) = None then None else map_option enc_byte (put_bit_list enc ?p)) = so_address n (xs @ [?x])"
  proof (cases "fst (snd ?x) = None")
    case True
    then show ?thesis by (simp add: so_address_def)
  next
    case False
    then have lp: "length ?p = n + 3 + r_bits n + 16" by (auto simp: nack_bits_def nack_fields_def)
    then have "8 * enc_byte enc + enc_bit enc + length ?p \<le> 8 * length (enc_buffer enc)" using fit by simp
    from put_bit_list_bits [OF e1(1) this] obtain d where d: "put_bit_list enc ?p = Some d" "enc_ok d"
      "8 * enc_byte d + enc_bit d = 8 * enc_byte enc + length ?p" using e1(2) by auto
    have "(8 * enc_byte d + enc_bit d) div 8 = enc_byte d" using d(2) by (simp add: enc_ok_def)
    then have "enc_byte d = (length (open_bits n xs) + (n + 3 + r_bits n + 16)) div 8" unfolding d(3) e1(4) lp by (rule sym)
    then show ?thesis using d(1) False by (simp add: so_address_def add.assoc)
  qed
  define p where "p = get_e1_position e enc"
  have p: "snd p < 8" "8 * fst p + (7 - snd p) = e1_index n (xs @ [?x])"
    using nn n e1(4) by (auto simp: p_def get_e1_position_def e1_index_def)
  let ?l = "if sn_start m = sn_end m then sn_start m else sn_start m + (int c - 1)"
  have "put_nack e m c st = Some (st\<lparr>st_enc := enc', st_e1 := p, st_so_end_address := so_address n (xs @ [?x]), st_last_nack := ?l\<rparr>)"
    unfolding put_nack_fields [OF len] Let_def n [symmetric] enc_def [symmetric] addr enc'(1) p_def by simp
  then show thesis
    by (rule that) (use enc' z bits p e1(5) in \<open>simp_all add: st_nacks_def\<close>)
qed

text \<open>A report that is cut off: the last segment offset becomes the end of the SDU.\<close>

definition force_last :: "nack_fields list \<Rightarrow> nack_fields list" where
  "force_last xs = (if xs = [] then [] else case last xs of (sn, None, rng) \<Rightarrow> xs | (sn, Some (a, b), rng) \<Rightarrow> butlast xs @ [(sn, Some (a, 0xffff), rng)])"

lemma force_bits:
  assumes "st_nacks n st xs" and "st_truncated st" and n: "n = 12 \<or> n = 18"
  shows "st_nacks n (force_so_end st) (force_last xs)"
proof (cases "st_so_end_address st")
  case None
  then have "xs = [] \<or> fst (snd (last xs)) = None" using assms(1) by (auto simp: st_nacks_def so_address_def split: if_splits)
  then have "force_last xs = xs" by (auto simp: force_last_def split: prod.splits option.splits)
  then show ?thesis using None assms(1) by (simp add: force_so_end_def)
next
  case (Some k)
  then have a: "so_address n xs = Some k" using assms(1) by (simp add: st_nacks_def)
  then obtain ys sn p b rng where xs: "xs = ys @ [(sn, Some (p, b), rng)]"
    by (cases xs rule: rev_cases) (auto simp: so_address_def split: if_splits)
  let ?x = "(sn, Some (p, 0xffff :: int), rng)"
  have fl: "force_last xs = ys @ [?x]" by (simp add: xs force_last_def)
  define P where "P = open_bits n ys @ msb_bits sn n @ [False, True, rng \<noteq> None] @ replicate (r_bits n) False @ msb_bits p 16"
  define Q where "Q = (case rng of None \<Rightarrow> [] | Some c \<Rightarrow> msb_bits (int c) 8)"
  let ?e = "st_enc st"
  let ?b = "take (enc_byte ?e) (enc_buffer ?e)"
  have s: "enc_ok ?e" "enc_bit ?e = 0" "bits_of ?b = status_bits n 0 xs" using assms(1) by (auto simp: st_nacks_def)
  have lb: "length ?b = enc_byte ?e" using s(1) by (simp add: enc_ok_def)
  have bits: "bits_of ?b = P @ msb_bits b 16 @ Q" using s(3) by (simp add: xs status_open nack_bits_def P_def Q_def)
  have l: "8 * length ?b = length P + (16 + length Q)" using arg_cong [OF bits, of length] by (simp del: length_take)
  have "8 dvd length Q" by (cases rng) (simp_all add: Q_def)
  then have "8 dvd length P" using l by presburger
  moreover have "k = length P div 8" using a by (simp add: so_address_def xs P_def add.assoc)
  ultimately have lP: "length P = 8 * k" by simp
  have kb: "Suc k < length ?b" using l lP by linarith
  define u where "u = take k ?b"
  define v where "v = drop (Suc (Suc k)) ?b"
  have split: "?b = u @ [?b ! k, ?b ! Suc k] @ v"
    using kb unfolding u_def v_def by (metis Cons_nth_drop_Suc append.left_neutral append_Cons append_take_drop_id Suc_lessD)
  have lu: "length u = k" using kb by (simp add: u_def)
  have eq: "bits_of u @ (byte_bits (?b ! k) @ byte_bits (?b ! Suc k)) @ bits_of v = P @ msb_bits b 16 @ Q"
    using bits by (subst (asm) split) (simp add: bits_of_def)
  have uP: "bits_of u = P" "bits_of v = Q"
    using arg_cong [OF eq, of "take (8 * k)"] arg_cong [OF eq, of "drop (8 * k + 16)"] lu lP by simp_all
  have ff: "msb_bits 0xffff 16 = byte_bits 0xff @ byte_bits 0xff" by code_simp
  let ?st = "st\<lparr>st_enc := ?e\<lparr>enc_buffer := (enc_buffer ?e)[k := 0xff, Suc k := 0xff]\<rparr>\<rparr>"
  have "take (enc_byte ?e) ((enc_buffer ?e)[k := 0xff, Suc k := 0xff]) = ?b[k := 0xff, Suc k := 0xff]" by (simp add: take_update_swap)
  also have "\<dots> = u @ [0xff, 0xff] @ v" by (subst split) (simp add: lu list_update_append)
  finally have "bits_of (take (enc_byte ?e) ((enc_buffer ?e)[k := 0xff, Suc k := 0xff])) = status_bits n 0 (ys @ [?x])"
    using uP ff by (simp add: status_open nack_bits_def P_def Q_def) (simp add: bits_of_def)
  moreover have "force_so_end st = ?st" using Some assms(2) by (simp add: force_so_end_def)
  ultimately show ?thesis
    using assms(1) s a unfolding fl by (simp add: st_nacks_def enc_ok_def e1_index_def so_address_def xs)
qed

section \<open>The whole PDU\<close>

lemma byte_bits_list: "byte_bits w = [bit w 7, bit w 6, bit w 5, bit w 4, bit w 3, bit w 2, bit w 1, bit w 0]"
  by (simp add: byte_bits_def upt_conv_Cons)

lemma msb_bits_append: "msb_bits a (m + n) = msb_bits (drop_bit n a) m @ msb_bits a n"
  by (rule nth_equalityI) (auto simp: msb_bits_def nth_append bit_drop_bit_eq add.commute)

lemma byte_bits_int: "byte_bits (word_of_int v) = msb_bits v 8"
  by (auto simp: byte_bits_def msb_bits_def bit_word_of_int_iff)

lemma msb_bits_leading:
  assumes "0 \<le> a" and "a < 2 ^ n"
  shows "msb_bits a (m + n) = replicate m False @ msb_bits a n"
proof -
  have "drop_bit n a = 0" using assms by (simp add: drop_bit_eq_div)
  then show ?thesis by (simp add: msb_bits_append msb_zero)
qed

lemma msb_bits_mask: "msb_bits (a AND (2 ^ n - 1)) n = msb_bits a n"
  by (auto simp: msb_bits_def bit_and_iff bit_mask_iff simp flip: mask_eq_exp_minus_1)

lemma ack_bits_12:
  assumes "0 \<le> a" and "a < 2 ^ 12"
  shows "byte_bits (word_of_int (drop_bit 8 a)) @ byte_bits (word_of_int (a AND 255)) = replicate 4 False @ msb_bits a 12"
  using msb_bits_append [of a 8 8] msb_bits_leading [OF assms, of 4] msb_bits_mask [of a 8] by (simp add: byte_bits_int)

lemma ack_bits_18:
  assumes "0 \<le> a" and "a < 2 ^ 18" and b: "byte_bits w = replicate 6 False @ [e1, False]"
  shows "byte_bits (word_of_int (drop_bit 14 a)) @ byte_bits (word_of_int (drop_bit 6 a AND 255)) @
    byte_bits (w OR word_of_int (push_bit 2 (a AND 0x3f))) = replicate 4 False @ msb_bits a 18 @ [e1, False]"
proof -
  have h: "byte_bits (word_of_int (drop_bit 14 a)) @ byte_bits (word_of_int (drop_bit 6 a AND 255)) = msb_bits (drop_bit 6 a) 16"
    using msb_bits_append [of "drop_bit 6 a" 8 8] msb_bits_mask [of "drop_bit 6 a" 8] by (simp add: byte_bits_int)
  have m: "(63 :: int) = mask 6" by (simp add: mask_eq_exp_minus_1)
  have bit: "bit (w OR word_of_int (push_bit 2 (a AND 0x3f))) k \<longleftrightarrow> bit w k \<or> (2 \<le> k \<and> bit a (k - 2))" if "k < 8" for k
    using that unfolding bit_or_iff bit_word_of_int_iff bit_push_bit_iff bit_and_iff m bit_mask_iff by auto
  have "byte_bits (w OR word_of_int (push_bit 2 (a AND 0x3f))) = msb_bits a 6 @ [e1, False]"
    using b unfolding byte_bits_list by (simp only: bit) (simp add: msb_bits_def upt_conv_Cons eval_nat_numeral)
  then show ?thesis
    using h msb_bits_append [of a 16 6] msb_bits_leading [OF assms(1,2), of 4] by (simp flip: append_assoc)
qed

lemma put_ack_sn_take:
  assumes "3 \<le> k" and "k \<le> length b"
  shows "take k (put_ack_sn e a b) = put_ack_sn e a (take k b)"
  using assms by (simp add: put_ack_sn_def take_update_swap)

lemma put_ack_bits:
  assumes st: "st_nacks n st xs" and n: "n = am_sn_field_length e" and sn: "sn_range n a"
  shows "bits_of (take (enc_byte (st_enc st)) (put_ack_sn e a (enc_buffer (st_enc st)))) = status_bits n a xs"
proof -
  let ?k = "enc_byte (st_enc st)" and ?r = "replicate (if n = 18 then 1 else 7) False"
  have nn: "n = 12 \<or> n = 18" and a: "0 \<le> a" "a < 2 ^ n" using sn by (auto simp: sn_range_def)
  define b where "b = take ?k (enc_buffer (st_enc st))"
  have bits: "bits_of b = (replicate (4 + n) False @ [xs \<noteq> []] @ ?r) @ nacks_bits n xs"
    using st by (simp add: st_nacks_def b_def status_bits_def msb_zero replicate_add)
  have lb: "length b = ?k" "?k \<le> length (enc_buffer (st_enc st))" using st by (auto simp: st_nacks_def b_def enc_ok_def)
  have "24 \<le> 8 * length b" using arg_cong [OF bits, of length] nn by auto
  then have k: "3 \<le> length b" by simp
  then obtain b0 b1 b2 t where b: "b = b0 # b1 # b2 # t" by (metis Suc_le_length_iff numeral_3_eq_3)
  have lh: "length (replicate (4 + n) False @ [xs \<noteq> []] @ ?r) = 24" using nn by auto
  have "(byte_bits b0 @ byte_bits b1 @ byte_bits b2) @ bits_of t = (replicate (4 + n) False @ [xs \<noteq> []] @ ?r) @ nacks_bits n xs"
    using bits by (simp add: b bits_of_def)
  note eq = arg_cong [OF this, of "take 24"] arg_cong [OF this, of "drop 24"]
  have hd3: "byte_bits b0 @ byte_bits b1 @ byte_bits b2 = replicate (4 + n) False @ [xs \<noteq> []] @ ?r" and t: "bits_of t = nacks_bits n xs"
    using eq lh by (simp_all del: replicate_add append_assoc)
  have tk: "take ?k (put_ack_sn e a (enc_buffer (st_enc st))) = put_ack_sn e a b" using put_ack_sn_take k lb by (simp add: b_def)
  show ?thesis
  proof (cases "n = 12")
    case True
    have "byte_bits b2 = [xs \<noteq> []] @ replicate 7 False"
      using arg_cong [OF hd3, of "drop 16"] True by (simp add: eval_nat_numeral)
    then show ?thesis
      unfolding tk using True n t ack_bits_12 [of a] a
      by (simp add: b put_ack_sn_def status_bits_def bits_of_def)
  next
    case False
    then have n18: "n = 18" using nn by simp
    have "byte_bits b2 = replicate 6 False @ [xs \<noteq> [], False]"
      using arg_cong [OF hd3, of "drop 16"] n18 by (simp add: eval_nat_numeral)
    from ack_bits_18 [of a, OF _ _ this] show ?thesis
      unfolding tk using n18 n t a by (simp add: b put_ack_sn_def status_bits_def bits_of_def)
  qed
qed

lemma status_start_nacks:
  assumes "length buffer \<ge> 3" and n: "n = am_sn_field_length e" and len: "sn_len_ok e"
  obtains enc where "nr_rlc_pdu_encoder_put_bits (nr_rlc_pdu_encoder_init buffer) 0 24 = Some enc"
    and "st_nacks n (status_start e enc) []" and "length (enc_buffer enc) = length buffer"
proof -
  have nn: "n = 12 \<or> n = 18" using n len by (simp add: sn_len_ok_def)
  let ?e = "nr_rlc_pdu_encoder_init buffer"
  have "8 * enc_byte ?e + enc_bit ?e + length (msb_bits 0 24) \<le> 8 * length (enc_buffer ?e)" "enc_ok ?e"
    using assms(1) by (simp_all add: nr_rlc_pdu_encoder_init_def enc_ok_def)
  from put_bit_list_bits [OF this(2,1)] obtain enc where enc: "put_bit_list ?e (msb_bits 0 24) = Some enc" "enc_ok enc"
    "enc_bits enc = replicate 24 False" "length (enc_buffer enc) = length buffer" "8 * enc_byte enc + enc_bit enc = 24"
    by (auto simp: nr_rlc_pdu_encoder_init_def enc_bits_def bits_of_def msb_zero)
  have "enc_bit enc < 8" using enc(2) by (simp add: enc_ok_def)
  then have z: "enc_bit enc = 0" "enc_byte enc = 3" using enc(5) by presburger+
  have "status_bits n 0 [] = replicate 24 False" using nn by (auto simp: status_bits_def msb_zero eval_nat_numeral)
  then have "st_nacks n (status_start e enc) []"
    using enc z nn n by (auto simp: st_nacks_def status_start_def e1_index_def so_address_def enc_bits_def)
  then show thesis using that enc(1,4) by (simp add: nr_rlc_pdu_encoder_put_bits_def)
qed

end
