(* ===== verification/Rlc_Am_Status_Sound.thy ===== *)
theory Rlc_Am_Status_Sound
  imports Rlc_Am_Status_Codec
begin

text \<open>
  A STATUS report acknowledges nothing that is missing: every byte of the sequence numbers before its ACK
  was received or is covered by one of its NACKs, as the peer decodes them, also when the report does not
  fit into the grant and is cut off.
\<close>

section \<open>What a list of NACKs covers\<close>

definition nacked :: "nr_rlc_entity_am \<Rightarrow> nack list \<Rightarrow> int \<Rightarrow> int \<Rightarrow> bool" where
  "nacked e nacks i b \<longleftrightarrow> (\<exists>nack\<in>set nacks. \<exists>(s, a, z)\<in>set (expand_nack e nack).
     s = sn_at e i \<and> a \<le> b \<and> (z = -1 \<or> b \<le> z))"

definition nack_count :: "nack_fields \<Rightarrow> nat" where
  "nack_count x = (case snd (snd x) of None \<Rightarrow> 1 | Some c \<Rightarrow> c)"

definition nack_low :: "nack_fields \<Rightarrow> int" where
  "nack_low x = (case fst (snd x) of None \<Rightarrow> 0 | Some (a, b) \<Rightarrow> a mod 65536)"

definition nack_high :: "nack_fields \<Rightarrow> int" where
  "nack_high x = (case fst (snd x) of None \<Rightarrow> -1 | Some (a, b) \<Rightarrow> if b mod 65536 = 0xffff then -1 else b mod 65536)"

definition fields_ok :: "nr_rlc_entity_am \<Rightarrow> int \<Rightarrow> nack_fields \<Rightarrow> bool" where
  "fields_ok e s x \<longleftrightarrow> fst x = sn_at e s \<and> 0 \<le> s \<and> 1 \<le> nack_count x \<and> nack_count x < 256"

lemma sn_at_add:
  assumes "am_geo e" and "0 \<le> j"
  shows "c_mod (sn_at e i + j) (am_sn_modulus e) = sn_at e (i + j)"
proof -
  have "0 \<le> sn_at e i" "0 < am_sn_modulus e" using is_sn_at [OF assms(1), of i] am_geo_size [OF assms(1)] by (auto simp: is_sn_def)
  then have "c_mod (sn_at e i + j) (am_sn_modulus e) = (sn_at e i + j) mod am_sn_modulus e" using assms(2) by (simp add: c_mod_nonneg)
  then show ?thesis by (simp add: sn_at_def mod_simps add.assoc)
qed

lemma expand_fields:
  assumes "am_geo e" and "fields_ok e s x"
  shows "expand_nack e (nack_of x) = map (\<lambda>i. (sn_at e (s + int i), if i = 0 then nack_low x else 0,
    if Suc i = nack_count x then nack_high x else -1)) [0..<nack_count x]"
proof -
  have n: "nack_of x = (sn_at e s, nack_low x, nack_high x, int (nack_count x))"
    using assms(2) by (cases x) (auto simp: nack_of_def nack_low_def nack_high_def nack_count_def fields_ok_def split: option.splits)
  show ?thesis unfolding n expand_nack_def using sn_at_add [OF assms(1)] by (auto simp: int_ops)
qed

lemma nacked_single:
  assumes "am_geo e" and "fields_ok e s x"
  shows "nacked e [nack_of x] k b \<longleftrightarrow> (\<exists>i<nack_count x. sn_at e (s + int i) = sn_at e k \<and> (if i = 0 then nack_low x else 0) \<le> b \<and>
    (Suc i = nack_count x \<longrightarrow> nack_high x = -1 \<or> b \<le> nack_high x))"
proof -
  let ?f = "\<lambda>i. (sn_at e (s + int i), if i = 0 then nack_low x else 0, if Suc i = nack_count x then nack_high x else -1)"
  have "nacked e [nack_of x] k b \<longleftrightarrow> (\<exists>i\<in>{0..<nack_count x}. case ?f i of (s, a, z) \<Rightarrow>
      s = sn_at e k \<and> a \<le> b \<and> (z = -1 \<or> b \<le> z))"
    unfolding nacked_def list.set bex_simps expand_fields [OF assms] set_map set_upt by simp
  moreover have "(case ?f i of (s, a, z) \<Rightarrow> s = sn_at e k \<and> a \<le> b \<and> (z = -1 \<or> b \<le> z)) \<longleftrightarrow>
      sn_at e (s + int i) = sn_at e k \<and> (if i = 0 then nack_low x else 0) \<le> b \<and> (Suc i = nack_count x \<longrightarrow> nack_high x = -1 \<or> b \<le> nack_high x)" for i
    by (cases "Suc i = nack_count x") simp_all
  ultimately show ?thesis by (simp only: Bex_def atLeastLessThan_iff zero_le simp_thms)
qed

lemma nacked_fields:
  assumes "am_geo e" and "fields_ok e s x" and "s \<le> k" "k < s + int (nack_count x)" and "k = s \<Longrightarrow> nack_low x \<le> b" and "0 \<le> b"
    and "k = s + int (nack_count x) - 1 \<Longrightarrow> nack_high x = -1 \<or> b \<le> nack_high x"
  shows "nacked e [nack_of x] k b"
  unfolding nacked_single [OF assms(1,2)] using assms(3-7) by (intro exI [of _ "nat (k - s)"]) auto

lemma nacked_append: "nacked e (xs @ ys) k b \<longleftrightarrow> nacked e xs k b \<or> nacked e ys k b"
  by (simp add: nacked_def bex_Un)

section \<open>Reported positions\<close>

definition reported :: "nr_rlc_entity_am \<Rightarrow> nack_fields list \<Rightarrow> int \<Rightarrow> int \<Rightarrow> bool" where
  "reported e xs j c \<longleftrightarrow>
     (\<forall>k b. 0 \<le> k \<and> 0 \<le> b \<and> (k < j \<or> (k = j \<and> b < c)) \<longrightarrow> rx_has e k b \<or> nacked e (map nack_of xs) k b)"

lemma reported_has: "reported e xs i b \<Longrightarrow> has_upto e i b j c \<Longrightarrow> reported e xs j c"
  unfolding reported_def has_upto_def by (meson not_le not_less_iff_gr_or_eq)

lemma reported_less: "reported e xs j c \<Longrightarrow> k < j \<or> (k = j \<and> d \<le> c) \<Longrightarrow> reported e xs k d"
  unfolding reported_def by force

text \<open>The last NACK covers an offset from a byte on, up to its last byte.\<close>

definition open_from :: "nr_rlc_entity_am \<Rightarrow> nack_fields list \<Rightarrow> int \<Rightarrow> int \<Rightarrow> bool" where
  "open_from e xs L lo \<longleftrightarrow> (\<exists>ys x s. xs = ys @ [x] \<and> fields_ok e s x \<and> s + int (nack_count x) - 1 = L \<and>
     lo = (if nack_count x = 1 then nack_low x else 0))"

lemma force_last_snoc:
  "force_last (ys @ [x]) = ys @ [(fst x, map_option (\<lambda>(a, b). (a, 0xffff)) (fst (snd x)), snd (snd x))]"
  by (cases x) (auto simp: force_last_def split: option.splits)

lemma forced_fields:
  assumes "fields_ok e s x"
  defines "y \<equiv> (fst x, map_option (\<lambda>(a, b). (a, 0xffff :: int)) (fst (snd x)), snd (snd x))"
  shows "fields_ok e s y" and "nack_count y = nack_count x" and "nack_low y = nack_low x" and "nack_high y = -1"
  using assms(1) by (auto simp: y_def fields_ok_def nack_count_def nack_low_def nack_high_def split: option.splits)

lemma force_nacked:
  assumes g: "am_geo e" and "open_from e xs L lo" and "nacked e (map nack_of xs) k b"
  shows "nacked e (map nack_of (force_last xs)) k b"
proof -
  obtain ys x s where xs: "xs = ys @ [x]" "fields_ok e s x" using assms(2) by (auto simp: open_from_def)
  let ?y = "(fst x, map_option (\<lambda>(a, b). (a, 0xffff :: int)) (fst (snd x)), snd (snd x))"
  have "nacked e [nack_of ?y] k b" if a: "nacked e [nack_of x] k b"
  proof -
    obtain i where "i < nack_count x" "sn_at e (s + int i) = sn_at e k" "(if i = 0 then nack_low x else 0) \<le> b"
      using a unfolding nacked_single [OF g xs(2)] by blast
    then show ?thesis unfolding nacked_single [OF g forced_fields(1) [OF xs(2)]] forced_fields(2-4) [OF xs(2)]
      by (intro exI [of _ i]) simp
  qed
  then show ?thesis using assms(3) unfolding xs(1) force_last_snoc by (auto simp: nacked_append)
qed

lemma force_open:
  assumes g: "am_geo e" and "open_from e xs L lo" and "lo \<le> b" "0 \<le> b"
  shows "nacked e (map nack_of (force_last xs)) L b"
proof -
  obtain ys x s where xs: "xs = ys @ [x]" "fields_ok e s x" "s + int (nack_count x) - 1 = L" "lo = (if nack_count x = 1 then nack_low x else 0)"
    using assms(2) by (auto simp: open_from_def)
  note f = forced_fields [OF xs(2)]
  have c: "1 \<le> nack_count x" using xs(2) by (simp add: fields_ok_def)
  have "nacked e [nack_of (fst x, map_option (\<lambda>(a, b). (a, 0xffff)) (fst (snd x)), snd (snd x))] L b"
    by (rule nacked_fields [OF g f(1)]) (use f xs assms(3,4) c in \<open>auto split: if_splits\<close>)
  then show ?thesis unfolding xs(1) force_last_snoc by (simp add: nacked_append)
qed

section \<open>The NACKs of one missing part\<close>

text \<open>The sequence number after the last NACK, as the ACK of the report is computed from it.\<close>

definition last_at :: "nr_rlc_entity_am \<Rightarrow> int \<Rightarrow> int \<Rightarrow> bool" where
  "last_at e v L \<longleftrightarrow> 0 \<le> v \<and> c_mod (v + 1) (am_sn_modulus e) = sn_at e (L + 1)"

text \<open>Everything up to the end of the part at offset \<open>t\<close>.\<close>

definition reported_end :: "nr_rlc_entity_am \<Rightarrow> missing_data_t \<Rightarrow> nack_fields list \<Rightarrow> int \<Rightarrow> bool" where
  "reported_end e m xs t = (if so_end m = 0xffff then reported e xs (t + 1) 0 else reported e xs t (so_end m + 1))"

text \<open>There may be no room for one more NACK, which has at most eight bytes.\<close>

definition status_full :: "status_state \<Rightarrow> bool" where
  "status_full st \<longleftrightarrow> length (enc_buffer (st_enc st)) < enc_byte (st_enc st) + 8"

lemma nack_size_bound: "nack_size e m \<le> 8"
  by (simp add: nack_size_def Let_def)

lemma status_full_force: "status_full st \<Longrightarrow> status_full (force_so_end st)"
  by (simp add: status_full_def force_so_end_def split: option.splits)

text \<open>The ranges from offset \<open>s\<close> to \<open>u\<close> (exclusive) have been put, where the part ends at \<open>t\<close>.\<close>

definition emitted ::
    "nr_rlc_entity_am \<Rightarrow> missing_data_t \<Rightarrow> nack_fields list \<Rightarrow> int \<Rightarrow> int \<Rightarrow> status_state \<Rightarrow> status_state \<Rightarrow> nack_fields list \<Rightarrow> int \<Rightarrow> bool" where
  "emitted e m xs s t st st' ys u \<longleftrightarrow> st_nacks (am_sn_field_length e) st' (xs @ ys) \<and> (\<forall>y\<in>set ys. sn_range (am_sn_field_length e) (fst y)) \<and>
     s \<le> u \<and> u \<le> t + 1 \<and> (st_truncated st' \<longleftrightarrow> u \<le> t) \<and> (st_truncated st' \<longrightarrow> status_full st') \<and>
     (if u = s then ys = [] \<and> st_last_nack st' = st_last_nack st
      else last_at e (st_last_nack st') (u - 1) \<and>
        (\<exists>lo. open_from e (xs @ ys) (u - 1) lo \<and> (u = t + 1 \<and> so_end m \<noteq> 0xffff \<longrightarrow> lo \<le> so_end m + 1)) \<and>
        (if u \<le> t then reported e (xs @ ys) u 0 else reported_end e m (xs @ ys) t))"

definition part_range :: "nr_rlc_entity_am \<Rightarrow> missing_data_t \<Rightarrow> int \<Rightarrow> int \<Rightarrow> bool" where
  "part_range e m s0 t \<longleftrightarrow> sn_start m = sn_at e s0 \<and> sn_end m = sn_at e t \<and> 0 \<le> s0 \<and> t < am_window_size e \<and>
     0 \<le> so_start m \<and> 0 \<le> so_end m \<and> so_end m \<le> 0xffff \<and> (s0 = t \<and> so_end m \<noteq> 0xffff \<longrightarrow> so_start m \<le> so_end m + 1)"

text \<open>The first position that is not reported yet, in the slot at offset \<open>s\<close>.\<close>

abbreviation part_low :: "missing_data_t \<Rightarrow> int \<Rightarrow> int \<Rightarrow> int" where
  "part_low m s0 s \<equiv> (if s = s0 then so_start m else 0)"

lemma range_fields:
  assumes ok: "report_ok e" and m: "part_range e m s0 t" and s: "s0 \<le> s" "s \<le> t"
  defines "cnt \<equiv> nat (t - s + 1)" and "x \<equiv> nack_fields (missing_range e m (sn_at e s) (nat (t - s + 1))) (min (nat (t - s + 1)) 255)"
  shows "fields_ok e s x" and "nack_count x = min cnt 255" and "nack_low x \<le> part_low m s0 s" and "0 \<le> nack_low x"
    and "nack_high x = (if cnt \<le> 255 \<and> so_end m \<noteq> 0xffff then so_end m else -1)"
    and "1 < nack_count x \<or> s \<noteq> s0 \<or> nack_low x \<le> so_start m"
proof -
  have g: "am_geo e" by (rule report_ok_facts(1) [OF ok])
  let ?r = "missing_range e m (sn_at e s) cnt"
  have b: "0 \<le> s" "t < am_window_size e" using m s by (auto simp: part_range_def)
  have inj: "sn_at e s = sn_start m \<longleftrightarrow> s = s0" using report_sn_inj [OF ok, of s s0] m s by (simp add: part_range_def)
  have f: "sn_start ?r = sn_at e s" "so_start ?r = part_low m s0 s" "so_end ?r = (if cnt \<le> 255 then so_end m else 0xffff)"
    by (simp_all add: missing_range_def inj)
  have e: "sn_end ?r = sn_at e (s + int (min cnt 255) - 1)"
  proof (cases "cnt \<le> 255")
    case True
    then show ?thesis using m s by (simp add: missing_range_def part_range_def cnt_def)
  next
    case False
    then show ?thesis using sn_at_add [OF g, of 254 s] by (simp add: missing_range_def add.commute)
  qed
  have c: "1 \<le> min cnt 255" "s + int (min cnt 255) - 1 \<le> t" using s by (auto simp: cnt_def)
  have one: "sn_start ?r = sn_end ?r \<longleftrightarrow> min cnt 255 = 1"
    unfolding e f(1) using report_sn_inj [OF ok, of s "s + int (min cnt 255) - 1"] b c by auto
  show n: "nack_count x = min cnt 255"
    using one by (auto simp: x_def cnt_def [symmetric] nack_fields_def nack_count_def)
  show "fields_ok e s x" using n c b f(1) by (simp add: fields_ok_def x_def cnt_def [symmetric] nack_fields_def)
  have so: "0 \<le> part_low m s0 s" "0 \<le> so_end ?r" "so_end ?r \<le> 0xffff" using m f(3) by (auto simp: part_range_def)
  have md: "part_low m s0 s mod 65536 \<le> part_low m s0 s" using so(1) by (rule zmod_le_nonneg_dividend)
  have lo: "nack_low x = (if part_low m s0 s = 0 \<and> so_end ?r = 0xffff then 0 else part_low m s0 s mod 65536)"
    unfolding x_def cnt_def [symmetric] nack_fields_def nack_low_def f(2) by simp
  show l: "nack_low x \<le> part_low m s0 s" "0 \<le> nack_low x" unfolding lo using md so(1) by auto
  then show "1 < nack_count x \<or> s \<noteq> s0 \<or> nack_low x \<le> so_start m" by auto
  have "nack_high x = (if so_end ?r = 0xffff then -1 else so_end ?r)"
    unfolding x_def cnt_def [symmetric] nack_fields_def nack_high_def f(2) using so(2,3) by auto
  then show "nack_high x = (if cnt \<le> 255 \<and> so_end m \<noteq> 0xffff then so_end m else -1)" unfolding f(3) by simp
qed

lemma range_reported:
  assumes ok: "report_ok e" and m: "part_range e m s0 t" and s: "s0 \<le> s" "s \<le> t" and rep: "reported e xs s (part_low m s0 s)"
  defines "c \<equiv> min (nat (t - s + 1)) 255"
  defines "x \<equiv> nack_fields (missing_range e m (sn_at e s) (nat (t - s + 1))) c"
  shows "s + int c \<le> t \<Longrightarrow> reported e (xs @ [x]) (s + int c) 0" and "s + int c = t + 1 \<Longrightarrow> reported_end e m (xs @ [x]) t"
proof -
  have g: "am_geo e" by (rule report_ok_facts(1) [OF ok])
  note f = range_fields [OF ok m s, folded c_def x_def]
  have c: "1 \<le> c" using s by (simp add: c_def)
  have new: "nacked e [nack_of x] k b" if "s \<le> k" "k < s + int c" "k = s \<Longrightarrow> part_low m s0 s \<le> b" "0 \<le> b"
    "k = s + int c - 1 \<Longrightarrow> nat (t - s + 1) \<le> 255 \<Longrightarrow> so_end m \<noteq> 0xffff \<Longrightarrow> b \<le> so_end m" for k b
    by (rule nacked_fields [OF g f(1)]) (use f(2,3,5) that in \<open>auto simp: c_def\<close>)
  have ext: "rx_has e k b \<or> nacked e (map nack_of (xs @ [x])) k b"
    if "0 \<le> k" "0 \<le> b" "k < s + int c" "k = s + int c - 1 \<Longrightarrow> nat (t - s + 1) \<le> 255 \<Longrightarrow> so_end m \<noteq> 0xffff \<Longrightarrow> b \<le> so_end m" for k b
  proof (cases "k < s \<or> (k = s \<and> b < part_low m s0 s)")
    case True
    then show ?thesis using rep that(1,2) unfolding reported_def by (auto simp: nacked_append)
  next
    case False
    then show ?thesis using new [of k b] that by (auto simp: nacked_append not_less)
  qed
  show "reported e (xs @ [x]) (s + int c) 0" if "s + int c \<le> t"
  proof -
    have "\<not> nat (t - s + 1) \<le> 255" using that by (simp add: c_def min_def split: if_splits)
    then show ?thesis unfolding reported_def using ext by auto
  qed
  show "reported_end e m (xs @ [x]) t" if "s + int c = t + 1"
  proof (cases "so_end m = 0xffff")
    case True
    then show ?thesis unfolding reported_end_def reported_def using ext that by auto
  next
    case False
    have "rx_has e k b \<or> nacked e (map nack_of (xs @ [x])) k b" if "0 \<le> k" "0 \<le> b" "k < t \<or> (k = t \<and> b < so_end m + 1)" for k b
      by (rule ext) (use \<open>s + int c = t + 1\<close> that in auto)
    then show ?thesis unfolding reported_end_def reported_def if_not_P [OF False] by blast
  qed
qed

lemma generate_missing_loop_emits:
  assumes ok: "report_ok e" and conf: "am_conf_ok e" and m: "part_range e m s0 t"
  shows "\<lbrakk>s0 \<le> s; s \<le> t + 1; st_nacks (am_sn_field_length e) st xs; \<not> st_truncated st; reported e xs s (part_low m s0 s)\<rbrakk>
    \<Longrightarrow> \<exists>st' ys u. generate_missing_loop e m (sn_at e s) (nat (t - s + 1)) st = Some st' \<and> emitted e m xs s t st st' ys u"
proof (induction "nat (t - s + 1)" arbitrary: s st xs rule: less_induct)
  case less
  let ?n = "am_sn_field_length e" and ?cnt = "nat (t - s + 1)"
  have g: "am_geo e" by (rule report_ok_facts(1) [OF ok])
  have len: "sn_len_ok e" using conf by (simp add: am_conf_ok_def)
  show ?case
  proof (cases "s \<le> t")
    case False
    then show ?thesis using less.prems
      by (intro exI [of _ st] exI [of _ "[]"] exI [of _ s], subst generate_missing_loop.simps) (simp add: emitted_def)
  next
    case st: True
    define c where "c = min ?cnt 255"
    define r where "r = missing_range e m (sn_at e s) ?cnt"
    define x where "x = nack_fields r c"
    have c: "1 \<le> c" "c \<le> ?cnt" "s + int c \<le> t + 1" using st by (auto simp: c_def)
    note f = range_fields [OF ok m less.prems(1) st, folded c_def r_def x_def]
    note rep = range_reported [OF ok m less.prems(1) st less.prems(5), folded c_def r_def x_def]
    show ?thesis
    proof (cases "int (enc_byte (st_enc st)) + nack_size e r > int (length (enc_buffer (st_enc st)))")
      case True
      then have "generate_missing_loop e m (sn_at e s) ?cnt st = Some (st\<lparr>st_truncated := True\<rparr>)"
        using st by (subst generate_missing_loop.simps) (simp add: Let_def r_def)
      moreover have "emitted e m xs s t st (st\<lparr>st_truncated := True\<rparr>) [] s"
        using less.prems(2,3) st True nack_size_bound [of e r] by (simp add: emitted_def st_nacks_def status_full_def)
      ultimately show ?thesis by blast
    next
      case False
      then have room: "int (enc_byte (st_enc st)) + nack_size e r \<le> int (length (enc_buffer (st_enc st)))" by simp
      obtain st1 where st1: "put_nack e r c st = Some st1" "st_nacks ?n st1 (xs @ [x])" "st_truncated st1 = st_truncated st"
        "length (enc_buffer (st_enc st1)) = length (enc_buffer (st_enc st))"
        "st_last_nack st1 = (if sn_start r = sn_end r then sn_start r else sn_start r + (int c - 1))"
        by (rule put_nack_bits [OF less.prems(3) refl len room, of c, folded x_def])
      have step: "generate_missing_loop e m (sn_at e s) ?cnt st = generate_missing_loop e m (sn_at e (s + int c)) (nat (t - (s + int c) + 1)) st1"
      proof -
        have "?cnt - c = nat (t - (s + int c) + 1)" using c(2,3) st by linarith
        then show ?thesis using st False st1(1) sn_at_add [OF g, of "int c" s]
          by (subst generate_missing_loop.simps) (simp add: Let_def r_def c_def)
      qed
      have sr: "sn_start r = sn_at e s" by (simp add: r_def missing_range_def)
      have cx: "c = (if sn_start r = sn_end r then 1 else c)" using f(2) by (auto simp: x_def nack_fields_def nack_count_def c_def)
      have last1: "last_at e (st_last_nack st1) (s + int c - 1)"
      proof -
        have "st_last_nack st1 = sn_at e s + (int c - 1)" using st1(5) sr cx by (auto split: if_splits)
        moreover have "0 \<le> sn_at e s" using is_sn_at [OF g, of s] by (simp add: is_sn_def)
        ultimately show ?thesis using c(1) sn_at_add [OF g, of "int c" s] by (simp add: last_at_def)
      qed
      have rng: "sn_range ?n (fst x)"
        using conf is_sn_at [OF g, of s] sr by (simp add: x_def nack_fields_def sn_range_def am_conf_ok_def sn_len_ok_def is_sn_def)
      have open1: "open_from e (xs @ [x]) (s + int c - 1) (if c = 1 then nack_low x else 0)"
        unfolding open_from_def using f(1,2) by (intro exI [of _ xs] exI [of _ x] exI [of _ s]) (simp add: c_def)
      show ?thesis
      proof (cases "s + int c = t + 1")
        case True
        have "generate_missing_loop e m (sn_at e s) ?cnt st = Some st1" unfolding step using True
          by (subst generate_missing_loop.simps) simp
        moreover have "(if c = 1 then nack_low x else 0) \<le> so_end m + 1" if "so_end m \<noteq> 0xffff"
          using f(3) m that True less.prems(1) by (auto simp: part_range_def split: if_splits)
        ultimately show ?thesis
          using True c st1(2,3) less.prems(4) rng last1 open1 rep(2) st
          by (intro exI [of _ st1] exI [of _ "[x]"] exI [of _ "t + 1"]) (auto simp: emitted_def)
      next
        case F: False
        then have s1: "s + int c \<le> t" "s < s + int c" "s + int c \<noteq> s0" using c less.prems(1) by auto
        obtain st' ys u where ih: "generate_missing_loop e m (sn_at e (s + int c)) (nat (t - (s + int c) + 1)) st1 = Some st'"
          "emitted e m (xs @ [x]) (s + int c) t st1 st' ys u"
          using less.hyps [of "s + int c" st1 "xs @ [x]"] s1 st1(2,3) less.prems(1,4) rep(1) c by auto
        have "emitted e m xs s t st st' (x # ys) u"
          using ih(2) s1 rng last1 open1 rep(1) unfolding emitted_def by (auto split: if_splits)
        then show ?thesis unfolding step using ih(1) by blast
      qed
    qed
  qed
qed

lemma generate_missing_emits:
  assumes ok: "report_ok e" and conf: "am_conf_ok e" and m: "part_range e m s t" and st: "s \<le> t"
    and xs: "st_nacks (am_sn_field_length e) st xs" and rep: "reported e xs s (so_start m)"
  obtains st' ys u where "generate_missing e m st = Some st'"
    and "emitted e m xs s t (st\<lparr>st_truncated := False, st_last_nack := -1\<rparr>) st' ys u"
proof -
  have g: "am_geo e" by (rule report_ok_facts(1) [OF ok])
  have M: "am_sn_modulus e = 2 * am_window_size e" by (rule report_ok_facts(2) [OF ok])
  have r: "0 \<le> sn_at e s" "sn_at e s < am_sn_modulus e" "0 \<le> sn_at e t" using is_sn_at [OF g] by (auto simp: is_sn_def)
  have b: "0 \<le> t - s" "t - s < am_sn_modulus e" using m st M by (auto simp: part_range_def)
  have "(sn_at e t - sn_at e s + am_sn_modulus e) mod am_sn_modulus e = (t - s) mod am_sn_modulus e"
    by (simp add: sn_at_def mod_simps)
  then have c: "missing_count e m = t - s + 1"
    using m r b by (simp add: missing_count_def part_range_def c_mod_nonneg)
  let ?st = "st\<lparr>st_truncated := False, st_last_nack := -1\<rparr>"
  have "st_nacks (am_sn_field_length e) ?st xs" using xs by (simp add: st_nacks_def)
  then obtain st' ys u where "generate_missing_loop e m (sn_at e s) (nat (t - s + 1)) ?st = Some st'" "emitted e m xs s t ?st st' ys u"
    using generate_missing_loop_emits [OF ok conf m order_refl, of ?st xs] st rep by auto
  moreover have "sn_start m = sn_at e s" using m by (simp add: part_range_def)
  ultimately show thesis using that by (simp add: generate_missing_def c del: generate_missing_loop.simps)
qed

section \<open>The whole report\<close>

text \<open>The state between two missing parts: \<open>L\<close> is the last offset with a NACK, \<open>(i, b)\<close> the next position.\<close>

definition between_parts :: "nr_rlc_entity_am \<Rightarrow> status_state \<Rightarrow> nack_fields list \<Rightarrow> int \<Rightarrow> int \<Rightarrow> int \<Rightarrow> int \<Rightarrow> bool" where
  "between_parts e st xs nk L i b \<longleftrightarrow> st_nacks (am_sn_field_length e) st xs \<and> (\<forall>x\<in>set xs. sn_range (am_sn_field_length e) (fst x)) \<and>
     reported e xs i b \<and> last_at e nk L \<and> -1 \<le> L \<and> L < status_top e \<and> L \<le> i \<and>
     (xs = [] \<and> L = -1 \<or> (\<exists>lo. open_from e xs L lo \<and> (L = i \<longrightarrow> lo \<le> b)))"

text \<open>The finished report.\<close>

definition report_done :: "nr_rlc_entity_am \<Rightarrow> int \<Rightarrow> status_state \<Rightarrow> bool" where
  "report_done e nk st \<longleftrightarrow> (\<exists>xs L. st_nacks (am_sn_field_length e) st xs \<and> (\<forall>x\<in>set xs. sn_range (am_sn_field_length e) (fst x)) \<and>
     reported e xs (L + 1) 0 \<and> last_at e nk L \<and> -1 \<le> L \<and> L < status_top e \<and>
     (status_full st \<or> reported e xs (status_top e) 0 \<or> (\<forall>i. 0 \<le> i \<and> i \<le> status_top e \<longrightarrow> ring e i = [])))"

lemma between_done:
  assumes "between_parts e st xs nk L i b" and "status_top e \<le> i" and "0 \<le> b"
  shows "report_done e nk st"
proof -
  have "L + 1 < i \<or> (L + 1 = i \<and> 0 \<le> b)" using assms by (auto simp: between_parts_def)
  then have "reported e xs (L + 1) 0" using reported_less assms(1) by (auto simp: between_parts_def)
  moreover have "reported e xs (status_top e) 0" 
    by (rule reported_less [of e xs i b]) (use assms in \<open>auto simp: between_parts_def le_less\<close>)
  ultimately show ?thesis using assms(1) unfolding report_done_def between_parts_def by (intro exI [of _ xs] exI [of _ L]) simp
qed

text \<open>A report that is cut off covers the rest of the SDU of its last NACK.\<close>

lemma forced_done:
  assumes ok: "report_ok e" "am_conf_ok e" and bp: "between_parts e st xs nk L i b" and st': "st_nacks (am_sn_field_length e) st' xs" "st_truncated st'" "status_full st'"
  shows "report_done e nk (force_so_end st')"
proof -
  let ?n = "am_sn_field_length e"
  have g: "am_geo e" by (rule report_ok_facts(1) [OF ok(1)])
  have n: "?n = 12 \<or> ?n = 18" using ok(2) by (simp add: am_conf_ok_def sn_len_ok_def)
  have f: "st_nacks ?n (force_so_end st') (force_last xs)" by (rule force_bits [OF st'(1,2) n])
  have p: "\<forall>x\<in>set xs. sn_range ?n (fst x)" "reported e xs i b" "last_at e nk L" "-1 \<le> L" "L < status_top e" "L \<le> i"
    "xs = [] \<and> L = -1 \<or> (\<exists>lo. open_from e xs L lo \<and> (L = i \<longrightarrow> lo \<le> b))" using bp by (auto simp: between_parts_def)
  have r: "\<forall>x\<in>set (force_last xs). sn_range ?n (fst x)"
  proof (cases xs rule: rev_cases)
    case Nil
    then show ?thesis by (simp add: force_last_def)
  next
    case (snoc ys y)
    then show ?thesis using p(1) by (simp add: force_last_snoc)
  qed
  have "reported e (force_last xs) (L + 1) 0"
    using p(7)
  proof
    assume "xs = [] \<and> L = -1"
    then show ?thesis by (auto simp: reported_def)
  next
    assume "\<exists>lo. open_from e xs L lo \<and> (L = i \<longrightarrow> lo \<le> b)"
    then obtain lo where lo: "open_from e xs L lo" "L = i \<longrightarrow> lo \<le> b" by blast
    have "rx_has e k x \<or> nacked e (map nack_of (force_last xs)) k x" if "0 \<le> k" "0 \<le> x" "k < L + 1" for k x
    proof (cases "k < i \<or> (k = i \<and> x < b)")
      case True
      then show ?thesis using p(2) that force_nacked [OF g lo(1)] unfolding reported_def by blast
    next
      case False
      then have "k = L" "L = i" "b \<le> x" using that p(6) by auto
      then show ?thesis using force_open [OF g lo(1)] lo(2) that by auto
    qed
    then show ?thesis unfolding reported_def by auto
  qed
  then show ?thesis unfolding report_done_def using f r p(3-5) status_full_force [OF st'(3)] by blast
qed

lemma between_advance:
  assumes "between_parts e st xs nk L i b" and "has_upto e i b s so" and "i \<le> s" and "i < s \<or> b < so"
  shows "between_parts e st xs nk L s so"
  using assms reported_has [OF _ assms(2)] by (auto simp: between_parts_def)

lemma report_pred_inj:
  assumes ok: "report_ok e" and "0 \<le> t" "t < status_top e" "0 \<le> j" "j \<le> status_top e" and "sn_at e t = sn_at e (j - 1)"
  shows "t = j - 1"
proof (cases "j = 0")
  case True
  have g: "am_geo e" by (rule report_ok_facts(1) [OF ok])
  have w: "status_top e < am_window_size e" using ok by (simp add: report_ok_def)
  have "am_rx_next e + (am_sn_modulus e - 1) = am_rx_next e + - 1 + am_sn_modulus e" by simp
  then have "sn_at e (-1) = sn_at e (am_sn_modulus e - 1)" unfolding sn_at_def by (simp only: mod_add_self2)
  then have "am_modulus_rx e (sn_at e (j - 1)) = am_sn_modulus e - 1"
    using off_at [OF g, of "am_sn_modulus e - 1"] am_geo_size [OF g] True by simp
  then show ?thesis using assms report_off [OF ok, of t] report_ok_facts(2) [OF ok] w by simp
next
  case False
  then show ?thesis using report_sn_inj [OF ok, of t "j - 1"] assms ok by (simp add: report_ok_def)
qed

lemma report_round:
  assumes ok: "report_ok e" "am_conf_ok e" and bp: "between_parts e st xs nk L i b" and i: "0 \<le> i" and p: "part_ok e i b (Some m)"
  obtains st' where "generate_missing e m st = Some st'" and "st_truncated st'"
      and "report_done e (if st_last_nack st' \<noteq> -1 then st_last_nack st' else nk) (force_so_end st')"
  | st' where "generate_missing e m st = Some st'" and "\<not> st_truncated st'" and "md_next m = []"
      and "report_done e (if st_last_nack st' \<noteq> -1 then st_last_nack st' else nk) (force_so_end st')"
  | st' cur rest j xs' L' where "generate_missing e m st = Some st'" and "\<not> st_truncated st'" and "md_next m = cur # rest"
      and "at_pdu e j cur rest" and "i < j \<or> (i = j \<and> b < pdu_so cur)"
      and "between_parts e (force_so_end st') xs' (if st_last_nack st' \<noteq> -1 then st_last_nack st' else nk) L' j (pdu_so cur)"
proof -
  obtain s t where m: "sn_start m = sn_at e s" "sn_end m = sn_at e t" "i \<le> s" "i < s \<or> b < so_start m" "s \<le> t" "t < status_top e"
    "0 \<le> so_start m" "0 \<le> so_end m" "so_end m \<le> 0xffff" "s = t \<and> so_end m \<noteq> 0xffff \<longrightarrow> so_start m \<le> so_end m + 1"
    "has_upto e i b s (so_start m)" "part_end e m" using p unfolding part_ok_def option.case by blast
  have w: "status_top e < am_window_size e" using ok(1) by (simp add: report_ok_def)
  have pr: "part_range e m s t" using m i w by (simp add: part_range_def)
  have ba: "between_parts e st xs nk L s (so_start m)" by (rule between_advance [OF bp m(11,3,4)])
  then have xs: "st_nacks (am_sn_field_length e) st xs" "reported e xs s (so_start m)" "\<forall>x\<in>set xs. sn_range (am_sn_field_length e) (fst x)"
    by (auto simp: between_parts_def)
  obtain st' ys u where g: "generate_missing e m st = Some st'"
    "emitted e m xs s t (st\<lparr>st_truncated := False, st_last_nack := -1\<rparr>) st' ys u"
    by (rule generate_missing_emits [OF ok pr m(5) xs(1,2)])
  let ?nk = "if st_last_nack st' \<noteq> -1 then st_last_nack st' else nk"
  have em: "st_nacks (am_sn_field_length e) st' (xs @ ys)" "\<forall>y\<in>set (xs @ ys). sn_range (am_sn_field_length e) (fst y)"
    "s \<le> u" "u \<le> t + 1" "st_truncated st' \<longleftrightarrow> u \<le> t" "st_truncated st' \<longrightarrow> status_full st'" using g(2) xs(3) by (auto simp: emitted_def)
  show thesis
  proof (cases "u = s")
    case True
    then have "ys = []" "st_last_nack st' = -1" "st_truncated st'" "status_full st'" using g(2) m(5) by (auto simp: emitted_def)
    moreover from this have "report_done e nk (force_so_end st')" using forced_done [OF ok ba, of st'] em(1) by simp
    ultimately show thesis using that(1) [OF g(1)] by simp
  next
    case False
    obtain lo where lo: "last_at e (st_last_nack st') (u - 1)" "open_from e (xs @ ys) (u - 1) lo"
      "u = t + 1 \<and> so_end m \<noteq> 0xffff \<longrightarrow> lo \<le> so_end m + 1"
      "if u \<le> t then reported e (xs @ ys) u 0 else reported_end e m (xs @ ys) t" using g(2) False by (auto simp: emitted_def)
    have nk: "?nk = st_last_nack st'" using lo(1) by (auto simp: last_at_def)
    have s0: "0 \<le> s" using m(3) i by simp
    have bu: "between_parts e st' (xs @ ys) ?nk (u - 1) k x" if "reported e (xs @ ys) k x" "u - 1 \<le> k" "u - 1 = k \<longrightarrow> lo \<le> x" for k x
      unfolding between_parts_def nk using em(1-4) lo(1,2) that m(6) s0 by auto
    show thesis
    proof (cases "u \<le> t")
      case True
      have "report_done e ?nk (force_so_end st')"
        by (rule forced_done [OF ok bu [of u 0]]) (use lo(4) True em in auto)
      then show thesis using that(1) [OF g(1)] True em(5) by simp
    next
      case F: False
      then have u: "u = t + 1" using em(4) by simp
      have nt: "\<not> st_truncated st'" using em(5) F by simp
      then have fs: "force_so_end st' = st'" by (simp add: force_so_end_def split: option.splits)
      have re: "reported_end e m (xs @ ys) t" using lo(4) F by simp
      show thesis
      proof (cases "md_next m")
        case Nil
        then have e: "t = status_top e - 1" "so_end m = 0xffff"
          using m(12) report_sn_inj [OF ok(1), of t "status_top e - 1"] m(2,5,6) s0 w by (auto simp: part_end_def)
        then have "reported e (xs @ ys) (status_top e) 0" using re by (simp add: reported_end_def)
        then have "report_done e ?nk st'" using between_done [OF bu [of "status_top e" 0]] u e by simp
        then show thesis using that(2) [OF g(1) nt Nil] fs by simp
      next
        case (Cons cur rest)
        then obtain j where j: "at_pdu e j cur rest"
          "(sn_end m = sn_at e (j - 1) \<and> so_end m = 0xffff \<and> pdu_so cur = 0) \<or> (sn_end m = sn_at e j \<and> so_end m = pdu_so cur - 1)"
          using m(12) by (auto simp: part_end_def)
        have jb: "0 \<le> j" "j \<le> status_top e" using j(1) by (auto simp: at_pdu_def)
        have so: "pdu_so cur < 65536" using at_pdu_ok(1) [OF ok(1) j(1)] by (simp add: pdu_ok_def)
        have fr: "(t + 1 = j \<and> so_end m = 0xffff \<and> pdu_so cur = 0) \<or> (t = j \<and> so_end m \<noteq> 0xffff \<and> pdu_so cur = so_end m + 1)"
          using j(2) m(2,5,6) s0 report_pred_inj [OF ok(1) _ m(6) jb] report_sn_inj [OF ok(1), of t j] jb w so by auto
        then have "reported e (xs @ ys) j (pdu_so cur)" using re by (auto simp: reported_end_def)
        then have "between_parts e (force_so_end st') (xs @ ys) ?nk (u - 1) j (pdu_so cur)"
          unfolding fs by (rule bu) (use fr u lo(3) in auto)
        moreover have "i < j \<or> (i = j \<and> b < pdu_so cur)" using fr m(3-5,10) by auto
        ultimately show thesis using that(3) [OF g(1) nt Cons j(1)] by blast
      qed
    qed
  qed
qed

lemma generate_status_loop_nil: "generate_status_loop e [] c nk st = Some (nk, st)"
  by (subst generate_status_loop.simps) simp

lemma between_missing_none:
  assumes ok: "report_ok e" and bp: "between_parts e st xs nk L i b" and "part_ok e i b None"
  shows "report_done e nk st"
proof -
  have "reported e xs (status_top e) 0" using reported_has bp assms(3) by (auto simp: between_parts_def part_ok_def)
  then have "between_parts e st xs nk L (status_top e) 0" using bp by (auto simp: between_parts_def)
  then show ?thesis by (rule between_done) simp_all
qed

text \<open>The loop ends, and leaves a finished report.\<close>

lemma generate_status_loop_done:
  assumes ok: "report_ok e" "am_conf_ok e"
  shows "\<lbrakk>between_parts e st xs nk L i b; 0 \<le> i; i \<le> status_top e; b < 65536; next_missing e cur rest c = Some mo; part_ok e i b mo\<rbrakk>
    \<Longrightarrow> \<exists>nk' st'. generate_status_loop e (cur # rest) c nk st = Some (nk', st') \<and> report_done e nk' st'"
proof (induction "(nat (status_top e - i), nat (65536 - b))" arbitrary: st xs nk L i b cur rest c mo
    rule: wf_induct_rule [OF wf_lex_prod [OF wf_less_than wf_less_than]])
  case 1
  note nm = \<open>next_missing e cur rest c = Some mo\<close> and bp = \<open>between_parts e st xs nk L i b\<close>
  show ?case
  proof (cases mo)
    case None
    then show ?thesis using between_missing_none [OF ok(1) bp] nm \<open>part_ok e i b mo\<close>
      by (subst generate_status_loop.simps) simp
  next
    case (Some m)
    let ?nk = "\<lambda>st'. if st_last_nack st' \<noteq> -1 then st_last_nack st' else nk"
    have step: "generate_status_loop e (cur # rest) c nk st =
        generate_status_loop e (if st_truncated st' then [] else md_next m) False (?nk st') (force_so_end st')"
      if "generate_missing e m st = Some st'" for st'
      using nm Some that by (subst generate_status_loop.simps) simp
    have p: "part_ok e i b (Some m)" using \<open>part_ok e i b mo\<close> Some by simp
    show ?thesis
    proof (rule report_round [OF ok bp \<open>0 \<le> i\<close> p], goal_cases)
      case (1 st')
      then show ?case using step by (simp add: generate_status_loop_nil)
    next
      case (2 st')
      then show ?case using step by (simp add: generate_status_loop_nil)
    next
      case (3 st' cur' rest' j xs' L')
      have j: "0 \<le> j" "j \<le> status_top e" using 3(4) by (auto simp: at_pdu_def)
      have so: "pdu_so cur' < 65536" using at_pdu_ok(1) [OF ok(1) 3(4)] by (simp add: pdu_ok_def)
      obtain mo' where "next_missing e cur' rest' False = Some mo'" "part_ok e j (pdu_so cur') mo'"
        using next_missing_part [OF ok(1) 3(4)] by blast
      moreover have "((nat (status_top e - j), nat (65536 - pdu_so cur')), (nat (status_top e - i), nat (65536 - b))) \<in> less_than <*lex*> less_than"
        using 3(5) j so by auto
      ultimately show ?case using "1.hyps" [OF _ 3(6) j so] step [OF 3(1)] 3(2,3) by simp
    qed
  qed
qed

section \<open>The STATUS PDU\<close>

text \<open>Everything before an offset was received or is covered by a NACK.\<close>

definition covered :: "nr_rlc_entity_am \<Rightarrow> nack list \<Rightarrow> int \<Rightarrow> bool" where
  "covered e nacks a \<longleftrightarrow> (\<forall>i b. 0 \<le> i \<and> i < a \<and> 0 \<le> b \<longrightarrow> rx_has e i b \<or> nacked e nacks i b)"

lemma covered_reported: "reported e xs a 0 \<Longrightarrow> covered e (map nack_of xs) a"
  unfolding covered_def reported_def by auto

lemma status_start_at:
  assumes "3 \<le> length buffer" and "nr_rlc_pdu_encoder_put_bits (nr_rlc_pdu_encoder_init buffer) 0 24 = Some enc"
  shows "st_at (length buffer) 3 (status_start e enc)"
proof -
  have "written (length buffer) 0 (Some (nr_rlc_pdu_encoder_init buffer))"
    by (simp add: written_def nr_rlc_pdu_encoder_init_def enc_ok_def)
  from put_field_written [OF this, of 24 0] assms show ?thesis by (auto simp: put_field_def st_at_def status_start_def)
qed

lemma status_loop_start:
  assumes ok: "report_ok e" "am_conf_ok e" and st: "st_nacks (am_sn_field_length e) st []"
  shows "\<exists>l nk st'. get_first_rx_pdu e = Some l \<and>
    generate_status_loop e l True (c_mod (am_rx_next e - 1 + am_sn_modulus e) (am_sn_modulus e)) st = Some (nk, st') \<and> report_done e nk st'"
proof -
  have g: "am_geo e" by (rule report_ok_facts(1) [OF ok(1)])
  have top: "0 \<le> status_top e" by (rule report_ok_facts(3) [OF ok(1)])
  have z: "sn_at e 0 = am_rx_next e" by (rule sn_at_zero [OF g])
  then have nk: "c_mod (am_rx_next e - 1 + am_sn_modulus e) (am_sn_modulus e) = sn_at e (-1)" using sn_at_pred [OF g, of 0] by simp
  have last: "last_at e (sn_at e (-1)) (-1)"
    using sn_at_add [OF g, of 1 "-1"] is_sn_at [OF g, of "-1"] by (simp add: last_at_def is_sn_def)
  have bp: "between_parts e st [] (sn_at e (-1)) (-1) 0 (-1)"
    using st last top by (auto simp: between_parts_def reported_def)
  obtain j where j: "0 \<le> j" "j \<le> status_top e" "get_first_rx_pdu e = Some (ring e j)"
    "\<forall>k. 0 \<le> k \<and> k < j \<longrightarrow> ring e k = []" "ring e j = [] \<longrightarrow> j = status_top e"
    using search_at [OF ok(1), of 0] top z by (auto simp: get_first_rx_pdu_def)
  show ?thesis
  proof (cases "ring e j")
    case Nil
    then have "ring e k = []" if "0 \<le> k" "k \<le> status_top e" for k using j(4,5) that by (cases "k = status_top e") auto
    then have "report_done e (sn_at e (-1)) st"
      using st last top unfolding report_done_def by (intro exI [of _ "[]"] exI [of _ "-1"]) (auto simp: reported_def)
    then show ?thesis using j(3) Nil nk by (simp add: generate_status_loop_nil)
  next
    case (Cons cur rest)
    obtain mo where "next_missing e cur rest True = Some mo" "part_ok e 0 (-1) mo"
      using first_missing_part [OF ok(1) Cons j(1,2)] by blast
    then have "\<exists>nk' st'. generate_status_loop e (cur # rest) True (sn_at e (-1)) st = Some (nk', st') \<and> report_done e nk' st'"
      using generate_status_loop_done [OF ok bp order_refl top] by simp
    then show ?thesis using j(3) Cons nk by simp
  qed
qed

text \<open>
  The STATUS PDU of a grant: everything before its ACK is covered, and everything before
  \<open>rx_highest_status\<close> when the grant had room for one more NACK.
\<close>

lemma generate_status_sound:
  assumes ok: "report_ok e" "am_conf_ok e" and len: "3 \<le> length buffer"
  obtains pdu nacks a where "generate_status e buffer = Some (count_status_pdu e (length pdu), pdu)" and "length pdu \<le> length buffer"
    and "decode_status (am_sn_field_length e) pdu = Some (sn_at e a, nacks)" and "0 \<le> a" "a \<le> status_top e" and "covered e nacks a"
    and "length buffer < length pdu + 8 \<or> covered e nacks (status_top e) \<or> (\<forall>i. 0 \<le> i \<and> i \<le> status_top e \<longrightarrow> ring e i = [])"
proof -
  let ?n = "am_sn_field_length e" and ?nk = "c_mod (am_rx_next e - 1 + am_sn_modulus e) (am_sn_modulus e)"
  have g: "am_geo e" and rx: "am_rx_ok e" using ok(1) report_ok_facts(1) by (auto simp: report_ok_def)
  have l: "sn_len_ok e" using ok(2) by (simp add: am_conf_ok_def)
  obtain enc where enc: "nr_rlc_pdu_encoder_put_bits (nr_rlc_pdu_encoder_init buffer) 0 24 = Some enc" "st_nacks ?n (status_start e enc) []"
    by (rule status_start_nacks [OF len refl l])
  obtain l nk st where r: "get_first_rx_pdu e = Some l" "generate_status_loop e l True ?nk (status_start e enc) = Some (nk, st)"
    "report_done e nk st" using status_loop_start [OF ok enc(2)] by blast
  have "sns e l" using search_sns [OF r(1) [unfolded get_first_rx_pdu_def] rx] is_sn_rx_next [OF g] by simp
  then have buf: "length (enc_buffer (st_enc st)) = length buffer" "enc_byte (st_enc st) \<le> length buffer"
    using generate_then_size [OF r(2)] rx \<open>sn_len_ok e\<close> status_start_at [OF len enc(1), of e] unfolding sizes_agree_def same_walk_def by auto
  obtain xs L where d: "st_nacks ?n st xs" "\<forall>x\<in>set xs. sn_range ?n (fst x)" "reported e xs (L + 1) 0" "last_at e nk L"
    "-1 \<le> L" "L < status_top e" "status_full st \<or> reported e xs (status_top e) 0 \<or> (\<forall>i. 0 \<le> i \<and> i \<le> status_top e \<longrightarrow> ring e i = [])"
    using r(3) by (auto simp: report_done_def)
  let ?a = "sn_at e (L + 1)" and ?k = "enc_byte (st_enc st)"
  define pdu where "pdu = take ?k (put_ack_sn e ?a (enc_buffer (st_enc st)))"
  have a: "sn_range ?n ?a" using ok(2) is_sn_at [OF g] by (simp add: sn_range_def am_conf_ok_def sn_len_ok_def is_sn_def)
  have "bits_of pdu = status_bits ?n ?a xs" unfolding pdu_def by (rule put_ack_bits [OF d(1) refl a])
  then have dec: "decode_status ?n pdu = Some (?a, map nack_of xs)" using decode_status_bits a d(2) by blast
  have lp: "length pdu = ?k" using buf by (simp add: pdu_def)
  have gs: "generate_status e buffer = Some (count_status_pdu e (length pdu), pdu)"
    using len enc(1) r(1,2) d(4) lp by (simp add: generate_status_def Let_def pdu_def last_at_def)
  show thesis
    by (rule that [OF gs _ dec]) (use buf lp d(5-7) covered_reported [OF d(3)] covered_reported [of e xs "status_top e"] in \<open>auto simp: status_full_def\<close>)
qed

end
