(* ===== verification/Rlc_Am_Status_Properties.thy ===== *)
theory Rlc_Am_Status_Properties
  imports Rlc_Am_Properties Rlc_Am_Status_Sound
begin

text \<open>
  What a STATUS PDU tells the peer: it acknowledges nothing that is missing, as long as
  \<^verbatim>\<open>rx_highest_status\<close> is less than a whole window after \<^verbatim>\<open>rx_next\<close>; a run that shows what happens otherwise.
\<close>

section \<open>Runs\<close>

text \<open>
  A PDU arrives, then the last segment of the SDU of sequence number 0, and t-Reassembly expires.
\<close>

definition am_report_run :: "u8 list \<Rightarrow> nr_rlc_entity_am option" where
  "am_report_run b =
     Option.bind (new_nr_rlc_entity_am 1000 1000 45 35 0 (-1) (-1) 8 12) (\<lambda>e.
     Option.bind (nr_rlc_entity_am_set_time e 1) (\<lambda>e.
     Option.bind (am_recv_strict e b) (\<lambda>e.
     Option.bind (am_recv_strict e [0xA0, 0, 0, 1, 9]) (\<lambda>e.
       nr_rlc_entity_am_set_time e 100))))"

lemma am_report_run_reachable:
  assumes "am_report_run b = Some e"
  shows "am_reachable True e"
proof -
  obtain e1 e2 e3 e4 where
    s: "new_nr_rlc_entity_am 1000 1000 45 35 0 (-1) (-1) 8 12 = Some e1" "nr_rlc_entity_am_set_time e1 1 = Some e2"
    "am_recv_strict e2 b = Some e3" "am_recv_strict e3 [0xA0, 0, 0, 1, 9] = Some e4" "nr_rlc_entity_am_set_time e4 100 = Some e"
    using assms unfolding am_report_run_def by (auto split: Option.bind_splits)
  have "am_reachable True e2" by (rule am_reachable.time [OF am_reachable.new [OF s(1)] s(2)])
  then have "am_reachable True e4" using am_recv_strict_reachable s(3,4) by blast
  then show ?thesis using s(5) by (rule am_reachable.time)
qed

section \<open>What a report tells\<close>

text \<open>
  C17: In every reachable state in which \<open>rx_highest_status\<close> is less than a whole window after \<open>rx_next\<close>, a grant
  of at least three bytes gets a STATUS PDU that fits into it and that the peer decodes; every byte of a
  sequence number before its ACK was received or is covered by one of its NACKs, however much of the report
  was cut off, and when the grant had room for one more NACK the same holds up to \<open>rx_highest_status\<close>, if any
  PDU is stored up to there.
\<close>

theorem am_status_sound:
  assumes "am_reachable strict e" and "am_modulus_rx e (am_rx_highest_status e) < am_window_size e" and "3 \<le> length buffer"
  shows "\<exists>e' pdu nacks a. generate_status e buffer = Some (e', pdu) \<and> length pdu \<le> length buffer \<and>
    decode_status (am_sn_field_length e) pdu = Some (sn_at e a, nacks) \<and> 0 \<le> a \<and> a \<le> am_modulus_rx e (am_rx_highest_status e) \<and>
    covered e nacks a \<and>
    (length pdu + 8 \<le> length buffer \<and> (\<exists>i. 0 \<le> i \<and> i \<le> am_modulus_rx e (am_rx_highest_status e) \<and> ring e i \<noteq> []) \<longrightarrow>
       covered e nacks (am_modulus_rx e (am_rx_highest_status e)))"
proof -
  have ok: "report_ok e" "am_conf_ok e" using am_reachable_ok [OF assms(1)] assms(2) by (auto simp: am_ok_def report_ok_def)
  show ?thesis
  proof (rule generate_status_sound [OF ok assms(3)], goal_cases)
    case (1 pdu nacks a)
    then show ?case
      by (intro exI [of _ "count_status_pdu e (length pdu)"] exI [of _ pdu] exI [of _ nacks] exI [of _ a]) (simp, force)
  qed
qed

text \<open>The second byte of sequence number 0 and the whole of 1 are there.\<close>

theorem am_status_sound_witness:
  "\<exists>e e' pdu. am_report_run [0x80, 1, 1, 2] = Some e \<and> generate_status e (replicate 20 0) = Some (e', pdu) \<and>
    decode_status 12 pdu = Some (1, [(0, 0, 0, 1)]) \<and> covered e [(0, 0, 0, 1)] 2"
proof -
  have "map_option (\<lambda>e. (am_sn_field_length e, am_modulus_rx e (am_rx_highest_status e), am_window_size e, ring e 0 = [],
      Option.bind (generate_status e (replicate 20 0)) (\<lambda>(e', pdu). map_option (Pair (length pdu)) (decode_status 12 pdu)))) (am_report_run [0x80, 1, 1, 2]) =
    Some (12, 2, 2048, False, Some (9, 1, [(0, 0, 0, 1)]))" by code_simp
  then obtain e where e: "am_report_run [0x80, 1, 1, 2] = Some e" "am_sn_field_length e = 12" "am_modulus_rx e (am_rx_highest_status e) = 2"
    "am_window_size e = 2048" "ring e 0 \<noteq> []"
    "Option.bind (generate_status e (replicate 20 0)) (\<lambda>(e', pdu). map_option (Pair (length pdu)) (decode_status 12 pdu)) = Some (9, 1, [(0, 0, 0, 1)])"
    by auto
  obtain e' pdu nacks a where s: "generate_status e (replicate 20 0) = Some (e', pdu)" "decode_status 12 pdu = Some (sn_at e a, nacks)"
    "length pdu + 8 \<le> 20 \<and> (\<exists>i. 0 \<le> i \<and> i \<le> 2 \<and> ring e i \<noteq> []) \<longrightarrow> covered e nacks 2"
    using am_status_sound [OF am_report_run_reachable [OF e(1)], of "replicate 20 0"] unfolding e(2-4) length_replicate
    by (simp, blast)
  then have d: "length pdu = 9" "sn_at e a = 1" "nacks = [(0, 0, 0, 1)]" using e(6) by auto
  then have "covered e nacks 2" using s(3) e(5) by (auto intro: exI [of _ 0])
  then show ?thesis using e(1) s(1,2) d by (intro exI [of _ e] exI [of _ e'] exI [of _ pdu]) simp
qed

text \<open>
  C38: There is a state, reached with a conforming peer, in which \<open>rx_highest_status\<close> is a whole window after \<open>rx_next\<close>
  and a segment is missing in the last SDU of the window. Its STATUS PDU then acknowledges, and NACKs, sequence numbers from
  \<open>rx_next_highest\<close> on, which the peer has never sent: a transmitter that has sent everything up to there
  discards the whole PDU.
\<close>

theorem am_status_beyond_window:
  "\<exists>e e' pdu ack_sn nacks. am_reachable True e \<and> am_rx_next e = 0 \<and> am_rx_highest_status e = 2048 \<and> am_rx_next_highest e = 2048 \<and>
     am_window_size e = 2048 \<and> generate_status e (replicate 60 0) = Some (e', pdu) \<and> decode_status 12 pdu = Some (ack_sn, nacks) \<and>
     am_sn_compare_rx e ack_sn (am_rx_next_highest e) > 0 \<and>
     (\<exists>nack\<in>set nacks. am_sn_compare_rx e (fst nack) (am_rx_next_highest e) > 0)"
proof -
  have "map_option (\<lambda>e. (am_rx_next e, am_rx_highest_status e, am_rx_next_highest e, am_window_size e,
      Option.bind (generate_status e (replicate 60 0)) (\<lambda>(e', pdu). map_option (\<lambda>(ack_sn, nacks). (am_sn_compare_rx e ack_sn (am_rx_next_highest e) > 0,
        list_ex (\<lambda>nack. am_sn_compare_rx e (fst nack) (am_rx_next_highest e) > 0) nacks)) (decode_status 12 pdu))))
      (am_report_run [0x97, 0xff, 1, 2]) =
    Some (0, 2048, 2048, 2048, Some (True, True))" by code_simp
  then obtain e where e: "am_report_run [0x97, 0xff, 1, 2] = Some e" "am_rx_next e = 0" "am_rx_highest_status e = 2048" "am_rx_next_highest e = 2048"
    "am_window_size e = 2048"
    "Option.bind (generate_status e (replicate 60 0)) (\<lambda>(e', pdu). map_option (\<lambda>(ack_sn, nacks). (am_sn_compare_rx e ack_sn (am_rx_next_highest e) > 0,
        list_ex (\<lambda>nack. am_sn_compare_rx e (fst nack) (am_rx_next_highest e) > 0) nacks)) (decode_status 12 pdu)) = Some (True, True)"
    by auto
  obtain e' pdu where g: "generate_status e (replicate 60 0) = Some (e', pdu)" using e(6) by (cases "generate_status e (replicate 60 0)") auto
  obtain ack_sn nacks where d: "decode_status 12 pdu = Some (ack_sn, nacks)" using e(6) g by (cases "decode_status 12 pdu") auto
  have s: "am_sn_compare_rx e ack_sn (am_rx_next_highest e) > 0" "\<exists>nack\<in>set nacks. am_sn_compare_rx e (fst nack) (am_rx_next_highest e) > 0"
    using e(6) unfolding g by (simp_all add: d list_ex_iff)
  show ?thesis
    by (intro exI [of _ e] exI [of _ e'] exI [of _ pdu] exI [of _ ack_sn] exI [of _ nacks] conjI am_report_run_reachable [OF e(1)] e(2-5) g d s)
qed

end
