(* ===== verification/Rlc_Config.thy ===== *)
theory Rlc_Config
  imports Prelude
begin

text \<open>
  The configuration of RLC bearers: the tables of \<^verbatim>\<open>nr_rlc_configuration.h\<close>, the functions that the macro
  \<^verbatim>\<open>ENCODE_DECODE\<close> of \<^verbatim>\<open>asn1_utils.c\<close> makes of them, and the fields of the RRC messages that the RLC API reads
  (\<^verbatim>\<open>NR_RLC_BearerConfig\<close>, whose C types are generated from the ASN.1 of RRC). A result \<open>None\<close> is a failed
  assertion, \<^verbatim>\<open>exit(1)\<close> or the access of a pointer that is null.
\<close>

section \<open>Tables\<close>

definition VALUES_T_POLL_RETRANSMIT :: "int list" where
  "VALUES_T_POLL_RETRANSMIT =
    [5, 10, 15, 20, 25, 30, 35, 40, 45, 50, 55, 60, 65, 70, 75, 80, 85, 90, 95, 100, 105, 110, 115, 120, 125, 130, 135, 140,
     145, 150, 155, 160, 165, 170, 175, 180, 185, 190, 195, 200, 205, 210, 215, 220, 225, 230, 235, 240, 245, 250, 300, 350,
     400, 450, 500, 800, 1000, 2000, 4000, 1, 2, 4]"

definition VALUES_T_REASSEMBLY :: "int list" where
  "VALUES_T_REASSEMBLY =
    [0, 5, 10, 15, 20, 25, 30, 35, 40, 45, 50, 55, 60, 65, 70, 75, 80, 85, 90, 95, 100, 110, 120, 130, 140, 150, 160, 170,
     180, 190, 200]"

definition VALUES_T_STATUS_PROHIBIT :: "int list" where
  "VALUES_T_STATUS_PROHIBIT =
    [0, 5, 10, 15, 20, 25, 30, 35, 40, 45, 50, 55, 60, 65, 70, 75, 80, 85, 90, 95, 100, 105, 110, 115, 120, 125, 130, 135, 140,
     145, 150, 155, 160, 165, 170, 175, 180, 185, 190, 195, 200, 205, 210, 215, 220, 225, 230, 235, 240, 245, 250, 300, 350,
     400, 450, 500, 800, 1000, 1200, 1600, 2000, 2400]"

definition VALUES_POLL_PDU :: "int list" where
  "VALUES_POLL_PDU =
    [4, 8, 16, 32, 64, 128, 256, 512, 1024, 2048, 4096, 6144, 8192, 12288, 16384, 20480, 24576, 28672, 32768, 40960, 49152,
     57344, 65536, -1]"

definition VALUES_POLL_BYTE :: "int list" where
  "VALUES_POLL_BYTE =
    map (\<lambda>k. 1024 * k) [1, 2, 5, 8, 10, 15, 25, 50, 75, 100, 125, 250, 375, 500, 750, 1000, 1250, 1500, 2000, 3000, 4000, 4500,
      5000, 5500, 6000, 6500, 7000, 7500] @
    map (\<lambda>k. 1024 * 1024 * k) [8, 9, 10, 11, 12, 13, 14, 15, 16, 17, 18, 20, 25, 30, 40] @ [-1]"

definition VALUES_MAX_RETX_THRESHOLD :: "int list" where
  "VALUES_MAX_RETX_THRESHOLD = [1, 2, 3, 4, 6, 8, 16, 32]"

definition VALUES_SN_FIELD_LENGTH_AM :: "int list" where
  "VALUES_SN_FIELD_LENGTH_AM = [12, 18]"

definition VALUES_SN_FIELD_LENGTH_UM :: "int list" where
  "VALUES_SN_FIELD_LENGTH_UM = [6, 12]"

definition decode_value :: "int list \<Rightarrow> int \<Rightarrow> int option" where
  "decode_value tab v = (if 0 \<le> v \<and> v < int (length tab) then Some (tab ! nat v) else None)"

fun encode_loop :: "int list \<Rightarrow> int \<Rightarrow> int \<Rightarrow> int option" where
  "encode_loop [] ret v = None"
| "encode_loop (x # tab) ret v = (if x = v then Some ret else encode_loop tab (ret + 1) v)"

definition encode_value :: "int list \<Rightarrow> int \<Rightarrow> int option" where
  "encode_value tab v = encode_loop tab 0 v"

section \<open>Bearer configurations\<close>

record am_rlc_config =
  dl_am_sn_FieldLength :: "int option"
  dl_am_t_Reassembly :: int
  dl_am_t_StatusProhibit :: int
  ul_am_sn_FieldLength :: "int option"
  ul_am_t_PollRetransmit :: int
  ul_am_pollPDU :: int
  ul_am_pollByte :: int
  ul_am_maxRetxThreshold :: int

record um_rlc_config =
  dl_um_sn_FieldLength :: "int option"
  dl_um_t_Reassembly :: int
  ul_um_sn_FieldLength :: "int option"

datatype NR_RLC_Config = Config_am am_rlc_config | Config_um_bi um_rlc_config | Config_other

datatype served_bearer = Served_srb int | Served_drb int

record NR_RLC_BearerConfig =
  logicalChannelIdentity :: int
  servedRadioBearer :: "served_bearer option"
  rlc_Config :: "NR_RLC_Config option"

section \<open>Decoding\<close>

record am_params =
  p_t_poll_retransmit :: int
  p_t_reassembly :: int
  p_t_status_prohibit :: int
  p_poll_pdu :: int
  p_poll_byte :: int
  p_max_retx_threshold :: int

definition decode_am_params :: "am_rlc_config \<Rightarrow> am_params option" where
  "decode_am_params am =
     Option.bind (decode_value VALUES_T_REASSEMBLY (dl_am_t_Reassembly am)) (\<lambda>t_reassembly.
     Option.bind (decode_value VALUES_T_STATUS_PROHIBIT (dl_am_t_StatusProhibit am)) (\<lambda>t_status_prohibit.
     Option.bind (decode_value VALUES_T_POLL_RETRANSMIT (ul_am_t_PollRetransmit am)) (\<lambda>t_poll_retransmit.
     Option.bind (decode_value VALUES_POLL_PDU (ul_am_pollPDU am)) (\<lambda>poll_pdu.
     Option.bind (decode_value VALUES_POLL_BYTE (ul_am_pollByte am)) (\<lambda>poll_byte.
     map_option (\<lambda>max_retx_threshold.
         \<lparr>p_t_poll_retransmit = t_poll_retransmit, p_t_reassembly = t_reassembly, p_t_status_prohibit = t_status_prohibit,
          p_poll_pdu = poll_pdu, p_poll_byte = poll_byte, p_max_retx_threshold = max_retx_threshold\<rparr>)
       (decode_value VALUES_MAX_RETX_THRESHOLD (ul_am_maxRetxThreshold am)))))))"

text \<open>The sequence number length when a bearer is added: both directions have one, and they agree.\<close>

definition decode_new_sn_length :: "int list \<Rightarrow> int option \<Rightarrow> int option \<Rightarrow> nat option" where
  "decode_new_sn_length tab dl ul =
     Option.bind dl (\<lambda>d. Option.bind ul (\<lambda>u. if d \<noteq> u then None else map_option nat (decode_value tab d)))"

text \<open>When a bearer is reconfigured both may be absent, which leaves the length as it is.\<close>

definition decode_sn_length_change :: "int list \<Rightarrow> int option \<Rightarrow> int option \<Rightarrow> nat option option" where
  "decode_sn_length_change tab dl ul =
     (case dl of
        Some d \<Rightarrow> Option.bind ul (\<lambda>u. if d \<noteq> u then None else map_option (\<lambda>n. Some (nat n)) (decode_value tab d))
      | None \<Rightarrow> if ul = None then Some None else None)"

text \<open>The default values of 38.331, 9.2.1.\<close>

definition default_am_params :: am_params where
  "default_am_params = \<lparr>p_t_poll_retransmit = 45, p_t_reassembly = 35, p_t_status_prohibit = 0, p_poll_pdu = -1,
     p_poll_byte = -1, p_max_retx_threshold = 8\<rparr>"

section \<open>Encoding and decoding\<close>

lemma decode_length: "decode_value tab i = Some v \<Longrightarrow> 0 \<le> i \<and> nat i < length tab \<and> v = tab ! nat i"
  by (auto simp: decode_value_def split: if_splits)

lemma encode_loop_Some: "encode_loop tab r v = Some i \<Longrightarrow> r \<le> i \<and> nat (i - r) < length tab \<and> tab ! nat (i - r) = v"
proof (induction tab arbitrary: r)
  case (Cons x tab)
  show ?case
  proof (cases "x = v")
    case False
    then have "encode_loop tab (r + 1) v = Some i" using Cons.prems by simp
    from Cons.IH [OF this] have "r + 1 \<le> i" "nat (i - (r + 1)) < length tab" "tab ! nat (i - (r + 1)) = v" by auto
    moreover from this have "nat (i - r) = Suc (nat (i - (r + 1)))" by linarith
    ultimately show ?thesis by simp
  qed (use Cons.prems in simp)
qed simp

lemma encode_loop_nth: "distinct tab \<Longrightarrow> k < length tab \<Longrightarrow> encode_loop tab r (tab ! k) = Some (r + int k)"
proof (induction tab arbitrary: r k)
  case (Cons x tab)
  then show ?case by (cases k) auto
qed simp

lemma decode_encode: "encode_value tab v = Some i \<Longrightarrow> decode_value tab i = Some v"
  using encode_loop_Some [of tab 0 v i] by (auto simp: encode_value_def decode_value_def)

lemma encode_decode: "distinct tab \<Longrightarrow> decode_value tab i = Some v \<Longrightarrow> encode_value tab v = Some i"
  using decode_length [of tab i v] encode_loop_nth [of tab "nat i" 0] by (auto simp: encode_value_def)

definition config_tables :: "int list list" where
  "config_tables = [VALUES_T_POLL_RETRANSMIT, VALUES_T_REASSEMBLY, VALUES_T_STATUS_PROHIBIT, VALUES_POLL_PDU, VALUES_POLL_BYTE,
     VALUES_MAX_RETX_THRESHOLD, VALUES_SN_FIELD_LENGTH_AM, VALUES_SN_FIELD_LENGTH_UM]"

lemma config_tables_distinct: "tab \<in> set config_tables \<Longrightarrow> distinct tab"
proof -
  have "list_all distinct config_tables" by code_simp
  then show "tab \<in> set config_tables \<Longrightarrow> distinct tab" by (simp add: list_all_iff)
qed

lemma decode_sn_length_am: "decode_new_sn_length VALUES_SN_FIELD_LENGTH_AM dl ul = Some n \<Longrightarrow> n = 12 \<or> n = 18"
  by (auto simp: decode_new_sn_length_def decode_value_def VALUES_SN_FIELD_LENGTH_AM_def nth_Cons' split: Option.bind_splits if_splits)

lemma decode_sn_length_um: "decode_new_sn_length VALUES_SN_FIELD_LENGTH_UM dl ul = Some n \<Longrightarrow> n = 6 \<or> n = 12"
  by (auto simp: decode_new_sn_length_def decode_value_def VALUES_SN_FIELD_LENGTH_UM_def nth_Cons' split: Option.bind_splits if_splits)

end
