(* ===== verification/Rlc_Manager.thy ===== *)
theory Rlc_Manager
  imports Rlc_Config Rlc_Tm Rlc_Am_Entity
begin

text \<open>
  The table of RLC entities of all UEs (\<^verbatim>\<open>nr_rlc_ue_manager.c\<close>). An entity is of one of three kinds; the
  function pointers that its constructor fills in (\<^verbatim>\<open>nr_rlc_entity.c\<close>) are the case distinctions of the
  operations below. The list of UEs grows and shrinks in place, so a pointer to a UE is its position. The
  manager lock is held over each operation of the API; a result \<open>None\<close> is the end of the process, the access
  of a null pointer or an access outside an array.
\<close>

section \<open>Entities of the three modes\<close>

datatype nr_rlc_entity = Tm nr_rlc_entity_tm | Um nr_rlc_entity_um | Am nr_rlc_entity_am

datatype nr_rlc_mode = NR_RLC_AM | NR_RLC_UM | NR_RLC_TM

fun ent_mode :: "nr_rlc_entity \<Rightarrow> nr_rlc_mode" where
  "ent_mode (Tm e) = NR_RLC_TM"
| "ent_mode (Um e) = NR_RLC_UM"
| "ent_mode (Am e) = NR_RLC_AM"

fun ent_recv_pdu :: "nr_rlc_entity \<Rightarrow> u8 list \<Rightarrow> nr_rlc_entity option" where
  "ent_recv_pdu (Tm e) b = Some (Tm (nr_rlc_entity_tm_recv_pdu e b))"
| "ent_recv_pdu (Um e) b = map_option Um (nr_rlc_entity_um_recv_pdu e b)"
| "ent_recv_pdu (Am e) b = map_option Am (nr_rlc_entity_am_recv_pdu e b)"

fun ent_buffer_status :: "nr_rlc_entity \<Rightarrow> int \<Rightarrow> (int \<times> int \<times> int) option" where
  "ent_buffer_status (Tm e) maxsize = Some (nr_rlc_entity_tm_buffer_status e)"
| "ent_buffer_status (Um e) maxsize = Some (nr_rlc_entity_um_buffer_status e)"
| "ent_buffer_status (Am e) maxsize = nr_rlc_entity_am_buffer_status e maxsize"

fun ent_generate_pdu :: "nr_rlc_entity \<Rightarrow> u8 list \<Rightarrow> (nr_rlc_entity \<times> u8 list) option" where
  "ent_generate_pdu (Tm e) b = (let (e, pdu) = nr_rlc_entity_tm_generate_pdu e b in Some (Tm e, pdu))"
| "ent_generate_pdu (Um e) b = map_option (map_prod Um id) (nr_rlc_entity_um_generate_pdu e b)"
| "ent_generate_pdu (Am e) b = map_option (map_prod Am id) (nr_rlc_entity_am_generate_pdu e b)"

fun ent_recv_sdu :: "nr_rlc_entity \<Rightarrow> u8 list \<Rightarrow> int \<Rightarrow> nr_rlc_entity option" where
  "ent_recv_sdu (Tm e) b i = map_option Tm (nr_rlc_entity_tm_recv_sdu e b i)"
| "ent_recv_sdu (Um e) b i = map_option Um (nr_rlc_entity_um_recv_sdu e b i)"
| "ent_recv_sdu (Am e) b i = map_option Am (nr_rlc_entity_am_recv_sdu e b i)"

fun ent_set_time :: "nr_rlc_entity \<Rightarrow> u64 \<Rightarrow> nr_rlc_entity option" where
  "ent_set_time (Tm e) now = Some (Tm (nr_rlc_entity_tm_set_time e now))"
| "ent_set_time (Um e) now = map_option Um (nr_rlc_entity_um_set_time e now)"
| "ent_set_time (Am e) now = map_option Am (nr_rlc_entity_am_set_time e now)"

fun ent_reestablishment :: "nr_rlc_entity \<Rightarrow> nr_rlc_entity" where
  "ent_reestablishment (Tm e) = Tm (nr_rlc_entity_tm_reestablishment e)"
| "ent_reestablishment (Um e) = Um (nr_rlc_entity_um_reestablishment e)"
| "ent_reestablishment (Am e) = Am (nr_rlc_entity_am_reestablishment e)"

fun ent_available_tx_space :: "nr_rlc_entity \<Rightarrow> int" where
  "ent_available_tx_space (Tm e) = nr_rlc_entity_tm_available_tx_space e"
| "ent_available_tx_space (Um e) = nr_rlc_entity_um_available_tx_space e"
| "ent_available_tx_space (Am e) = nr_rlc_entity_am_available_tx_space e"

fun ent_tx_list_occupancy :: "nr_rlc_entity \<Rightarrow> int" where
  "ent_tx_list_occupancy (Tm e) = nr_rlc_entity_tm_tx_list_occupancy e"
| "ent_tx_list_occupancy (Um e) = nr_rlc_entity_um_tx_list_occupancy e"
| "ent_tx_list_occupancy (Am e) = nr_rlc_entity_am_tx_list_occupancy e"

text \<open>The callbacks that an entity has called: SDUs delivered, SDUs acknowledged, failures after too many retransmissions.\<close>

fun ent_delivered :: "nr_rlc_entity \<Rightarrow> u8 list list" where
  "ent_delivered (Tm e) = tm_delivered e"
| "ent_delivered (Um e) = um_delivered e"
| "ent_delivered (Am e) = am_delivered e"

fun ent_acked :: "nr_rlc_entity \<Rightarrow> int list" where
  "ent_acked (Am e) = am_acked e"
| "ent_acked _ = []"

fun ent_max_retx :: "nr_rlc_entity \<Rightarrow> nat" where
  "ent_max_retx (Am e) = am_max_retx e"
| "ent_max_retx _ = 0"

section \<open>UEs\<close>

datatype nr_lcid_rb = Lcid_none | Lcid_srb int | Lcid_drb int

text \<open>The entity of SRB 0 has the identifier of the UE at its activation with it (\<^verbatim>\<open>struct srb0_data\<close>).\<close>

record nr_rlc_ue =
  ue_id :: int
  ue_srb0 :: "(nr_rlc_entity \<times> int) option"
  ue_srb :: "nr_rlc_entity option list"
  ue_drb :: "nr_rlc_entity option list"
  ue_lcid2rb :: "nr_lcid_rb list"
  ue_rlf_handler :: bool

definition max_drbs_per_ue :: nat where
  "max_drbs_per_ue = 32"

definition zero_ue :: "int \<Rightarrow> nr_rlc_ue" where
  "zero_ue i = \<lparr>ue_id = i, ue_srb0 = None, ue_srb = replicate 3 None, ue_drb = replicate max_drbs_per_ue None,
     ue_lcid2rb = replicate 32 Lcid_none, ue_rlf_handler = False\<rparr>"

datatype nr_rlc_op_mode = Split_gnb | Mono_gnb | Mode_ue

definition nr_rlc_manager_rlc_is_split :: "nr_rlc_op_mode \<Rightarrow> bool" where
  "nr_rlc_manager_rlc_is_split mode \<longleftrightarrow> mode = Split_gnb"

definition nr_rlc_manager_get_gnb_flag :: "nr_rlc_op_mode \<Rightarrow> bool" where
  "nr_rlc_manager_get_gnb_flag mode \<longleftrightarrow> mode \<noteq> Mode_ue"

section \<open>The list of UEs\<close>

text \<open>The position of the first UE with an identifier, the length of the list if there is none.\<close>

fun ue_position :: "nr_rlc_ue list \<Rightarrow> int \<Rightarrow> nat" where
  "ue_position [] i = 0"
| "ue_position (u # l) i = (if ue_id u = i then 0 else Suc (ue_position l i))"

definition nr_rlc_manager_get_ue :: "nr_rlc_ue list \<Rightarrow> int \<Rightarrow> nr_rlc_ue list \<times> nat" where
  "nr_rlc_manager_get_ue l i =
     (let k = ue_position l i in (if k < length l then l else l @ [zero_ue i], k))"

definition nr_rlc_manager_remove_ue :: "nr_rlc_ue list \<Rightarrow> int \<Rightarrow> nr_rlc_ue list" where
  "nr_rlc_manager_remove_ue l i =
     (let k = ue_position l i in if k = length l then l else take k l @ drop (Suc k) l)"

definition nr_rlc_ue_add_srb_rlc_entity :: "nr_rlc_ue \<Rightarrow> int \<Rightarrow> nr_rlc_entity \<times> int \<Rightarrow> nr_rlc_ue option" where
  "nr_rlc_ue_add_srb_rlc_entity ue srb_id entity =
     (if srb_id < 0 \<or> srb_id > 3 then None
      else if srb_id = 0 then if ue_srb0 ue \<noteq> None then None else Some (ue\<lparr>ue_srb0 := Some entity\<rparr>)
      else let k = nat (srb_id - 1)
           in if ue_srb ue ! k \<noteq> None then None else Some (ue\<lparr>ue_srb := (ue_srb ue)[k := Some (fst entity)]\<rparr>))"

definition nr_rlc_ue_add_drb_rlc_entity :: "nr_rlc_ue \<Rightarrow> int \<Rightarrow> nr_rlc_entity \<Rightarrow> nr_rlc_ue option" where
  "nr_rlc_ue_add_drb_rlc_entity ue drb_id entity =
     (if drb_id < 1 \<or> drb_id > int max_drbs_per_ue then None
      else let k = nat (drb_id - 1)
           in if ue_drb ue ! k \<noteq> None then None else Some (ue\<lparr>ue_drb := (ue_drb ue)[k := Some entity]\<rparr>))"

end
