(* ===== verification/Rlc_Api.thy ===== *)
theory Rlc_Api
  imports Rlc_Manager
begin

text \<open>
  The interface of RLC to MAC, PDCP, RRC and F1 (\<^verbatim>\<open>nr_rlc_oai_api.c\<close>). The state is the table of UEs, the
  clock and what RLC has handed to the layers above. The table from UE identifiers of the DU to those of the
  CU (\<^verbatim>\<open>f1ap_ids.c\<close>) is a field, empty where there is no entry. Tracing, log messages and the average waiting times
  are left out.
\<close>

section \<open>State\<close>

datatype rlc_upcall =
    Ul_rrc_message int int int "u8 list"
  | Gtpu_send int int "u8 list"
  | Pdcp_data_ind int bool bool int "u8 list"
  | Initial_ul_rrc_message int "u8 list"
  | Radio_link_failure int

record nr_rlc_state =
  rlc_ue_list :: "nr_rlc_ue list"
  rlc_mode :: nr_rlc_op_mode
  rlc_current_time :: u64
  rlc_du2cu :: "int \<Rightarrow> int option"
  rlc_upcalls :: "rlc_upcall list"

definition new_nr_rlc_ue_manager :: "nr_rlc_op_mode \<Rightarrow> nr_rlc_state" where
  "new_nr_rlc_ue_manager mode =
     \<lparr>rlc_ue_list = [], rlc_mode = mode, rlc_current_time = 0, rlc_du2cu = (\<lambda>_. None), rlc_upcalls = []\<rparr>"

text \<open>The two flags of the process, for a gNB and for a UE, say whether RLC was initialised.\<close>

definition nr_rlc_module_init :: "bool \<times> bool \<Rightarrow> nr_rlc_op_mode \<Rightarrow> ((bool \<times> bool) \<times> nr_rlc_state) option" where
  "nr_rlc_module_init flags mode =
     (let (inited, inited_ue) = flags; gnb_flag = (mode \<noteq> Mode_ue)
      in if gnb_flag \<and> inited then None
         else if \<not> gnb_flag \<and> inited_ue then None
         else Some ((inited \<or> gnb_flag, inited_ue \<or> \<not> gnb_flag), new_nr_rlc_ue_manager mode))"

section \<open>Radio bearers of a UE\<close>

datatype rb_slot = Slot_srb0 | Slot_srb nat | Slot_drb nat

fun slot_entity :: "nr_rlc_ue \<Rightarrow> rb_slot \<Rightarrow> nr_rlc_entity option" where
  "slot_entity ue Slot_srb0 = map_option fst (ue_srb0 ue)"
| "slot_entity ue (Slot_srb k) = ue_srb ue ! k"
| "slot_entity ue (Slot_drb k) = ue_drb ue ! k"

fun put_slot :: "nr_rlc_ue \<Rightarrow> rb_slot \<Rightarrow> nr_rlc_entity \<Rightarrow> nr_rlc_ue" where
  "put_slot ue Slot_srb0 e = ue\<lparr>ue_srb0 := map_option (\<lambda>(_, i). (e, i)) (ue_srb0 ue)\<rparr>"
| "put_slot ue (Slot_srb k) e = ue\<lparr>ue_srb := (ue_srb ue)[k := Some e]\<rparr>"
| "put_slot ue (Slot_drb k) e = ue\<lparr>ue_drb := (ue_drb ue)[k := Some e]\<rparr>"

fun clear_slot :: "nr_rlc_ue \<Rightarrow> rb_slot \<Rightarrow> nr_rlc_ue" where
  "clear_slot ue Slot_srb0 = ue\<lparr>ue_srb0 := None\<rparr>"
| "clear_slot ue (Slot_srb k) = ue\<lparr>ue_srb := (ue_srb ue)[k := None]\<rparr>"
| "clear_slot ue (Slot_drb k) = ue\<lparr>ue_drb := (ue_drb ue)[k := None]\<rparr>"

text \<open>The bearer that a logical channel is mapped to; the outer \<open>None\<close> is an error, the inner one no bearer.\<close>

definition lcid_slot :: "nr_rlc_ue \<Rightarrow> nat \<Rightarrow> rb_slot option option" where
  "lcid_slot ue channel_id =
     (if channel_id = 0 \<or> channel_id > 32 then None
      else case ue_lcid2rb ue ! (channel_id - 1) of
             Lcid_none \<Rightarrow> Some None
           | Lcid_srb i \<Rightarrow> if i \<le> 0 \<or> i > 3 then None else Some (Some (Slot_srb (nat (i - 1))))
           | Lcid_drb i \<Rightarrow> if i < 1 \<or> i > int max_drbs_per_ue then None else Some (Some (Slot_drb (nat (i - 1)))))"

definition get_rlc_entity_from_lcid :: "nr_rlc_ue \<Rightarrow> nat \<Rightarrow> rb_slot option option" where
  "get_rlc_entity_from_lcid ue channel_id =
     (if channel_id = 0 then Some (if ue_srb0 ue = None then None else Some Slot_srb0)
      else map_option (\<lambda>s. Option.bind s (\<lambda>rb. if slot_entity ue rb = None then None else Some rb)) (lcid_slot ue channel_id))"

definition release_rlc_entity_from_lcid :: "nr_rlc_ue \<Rightarrow> nat \<Rightarrow> nr_rlc_ue option" where
  "release_rlc_entity_from_lcid ue channel_id =
     map_option (\<lambda>s. case s of None \<Rightarrow> ue | Some rb \<Rightarrow> clear_slot ue rb) (lcid_slot ue channel_id)"

section \<open>Callbacks of the entities\<close>

definition deliver_sdu :: "nr_rlc_state \<Rightarrow> nr_rlc_ue \<Rightarrow> bool \<Rightarrow> int \<Rightarrow> u8 list \<Rightarrow> nr_rlc_state option" where
  "deliver_sdu st ue is_srb rb_id buf =
     (let is_gnb = nr_rlc_manager_get_gnb_flag (rlc_mode st)
      in map_option (\<lambda>i.
           let up = (if is_gnb \<and> nr_rlc_manager_rlc_is_split (rlc_mode st)
                     then if is_srb then Ul_rrc_message i (ue_id ue) rb_id buf else Gtpu_send (ue_id ue) rb_id buf
                     else Pdcp_data_ind i is_gnb is_srb rb_id buf)
           in st\<lparr>rlc_upcalls := rlc_upcalls st @ [up]\<rparr>)
         (if is_gnb then rlc_du2cu st (ue_id ue) else Some (ue_id ue)))"

definition deliver_sdu_srb0 :: "nr_rlc_state \<Rightarrow> int \<Rightarrow> u8 list \<Rightarrow> nr_rlc_state" where
  "deliver_sdu_srb0 st i buf = st\<lparr>rlc_upcalls := rlc_upcalls st @ [Initial_ul_rrc_message i buf]\<rparr>"

text \<open>The callbacks search the entity among the SRBs and DRBs: all three SRBs for \<open>deliver_sdu\<close>, two for the others.\<close>

fun callback_rb :: "nat \<Rightarrow> rb_slot \<Rightarrow> (bool \<times> int) option" where
  "callback_rb n Slot_srb0 = None"
| "callback_rb n (Slot_srb k) = (if k < n then Some (True, int k + 1) else None)"
| "callback_rb n (Slot_drb k) = Some (False, int k + 1)"

definition successful_delivery :: "rb_slot \<Rightarrow> bool" where
  "successful_delivery rb \<longleftrightarrow> callback_rb 2 rb \<noteq> None"

definition max_retx_reached :: "nr_rlc_state \<Rightarrow> nr_rlc_ue \<Rightarrow> rb_slot \<Rightarrow> nr_rlc_state option" where
  "max_retx_reached st ue rb =
     (if callback_rb 2 rb = None then None
      else Some (if ue_rlf_handler ue then st\<lparr>rlc_upcalls := rlc_upcalls st @ [Radio_link_failure (ue_id ue)]\<rparr> else st))"

fun deliver_all :: "nr_rlc_state \<Rightarrow> nr_rlc_ue \<Rightarrow> rb_slot \<Rightarrow> u8 list list \<Rightarrow> nr_rlc_state option" where
  "deliver_all st ue rb [] = Some st"
| "deliver_all st ue rb (buf # bufs) =
     Option.bind
       (case rb of
          Slot_srb0 \<Rightarrow> map_option (\<lambda>(_, i). deliver_sdu_srb0 st i buf) (ue_srb0 ue)
        | _ \<Rightarrow> Option.bind (callback_rb 3 rb) (\<lambda>(is_srb, rb_id). deliver_sdu st ue is_srb rb_id buf))
       (\<lambda>st. deliver_all st ue rb bufs)"

fun max_retx_all :: "nat \<Rightarrow> nr_rlc_state \<Rightarrow> nr_rlc_ue \<Rightarrow> rb_slot \<Rightarrow> nr_rlc_state option" where
  "max_retx_all 0 st ue rb = Some st"
| "max_retx_all (Suc n) st ue rb = Option.bind (max_retx_reached st ue rb) (\<lambda>st. max_retx_all n st ue rb)"

definition ent_callbacks :: "nr_rlc_state \<Rightarrow> nr_rlc_ue \<Rightarrow> rb_slot \<Rightarrow> nr_rlc_entity \<Rightarrow> nr_rlc_entity \<Rightarrow> nr_rlc_state option" where
  "ent_callbacks st ue rb e e' =
     Option.bind (deliver_all st ue rb (drop (length (ent_delivered e)) (ent_delivered e'))) (\<lambda>st.
       if length (ent_acked e) < length (ent_acked e') \<and> \<not> successful_delivery rb then None
       else max_retx_all (ent_max_retx e' - ent_max_retx e) st ue rb)"

text \<open>Operations of one entity, with the callbacks they call.\<close>

definition on_rlc_entity ::
    "nr_rlc_state \<Rightarrow> nat \<Rightarrow> rb_slot \<Rightarrow> (nr_rlc_entity \<Rightarrow> (nr_rlc_entity \<times> 'a) option) \<Rightarrow> (nr_rlc_state \<times> 'a) option" where
  "on_rlc_entity st k rb f =
     (let ue = rlc_ue_list st ! k
      in Option.bind (slot_entity ue rb) (\<lambda>e.
         Option.bind (f e) (\<lambda>(e', x).
           map_option (\<lambda>st. (st, x)) (ent_callbacks (st\<lparr>rlc_ue_list := (rlc_ue_list st)[k := put_slot ue rb e']\<rparr>) ue rb e e'))))"

definition with_ue :: "nr_rlc_state \<Rightarrow> int \<Rightarrow> (nr_rlc_state \<Rightarrow> nat \<Rightarrow> 'a) \<Rightarrow> 'a" where
  "with_ue st i f = (let (l, k) = nr_rlc_manager_get_ue (rlc_ue_list st) i in f (st\<lparr>rlc_ue_list := l\<rparr>) k)"

definition set_ue :: "nr_rlc_state \<Rightarrow> nat \<Rightarrow> nr_rlc_ue \<Rightarrow> nr_rlc_state" where
  "set_ue st k ue = st\<lparr>rlc_ue_list := (rlc_ue_list st)[k := ue]\<rparr>"

section \<open>Calls from MAC\<close>

text \<open>The operation after \<^verbatim>\<open>set_time\<close> with the current time.\<close>

definition timed :: "nr_rlc_state \<Rightarrow> (nr_rlc_entity \<Rightarrow> 'b option) \<Rightarrow> nr_rlc_entity \<Rightarrow> 'b option" where
  "timed st f e = Option.bind (ent_set_time e (rlc_current_time st)) f"

fun data_ind_loop :: "nr_rlc_state \<Rightarrow> nat \<Rightarrow> (nat \<times> u8 list) list \<Rightarrow> nr_rlc_state option" where
  "data_ind_loop st k [] = Some st"
| "data_ind_loop st k ((ch, buf) # data) =
     Option.bind (get_rlc_entity_from_lcid (rlc_ue_list st ! k) ch) (\<lambda>s.
     Option.bind (case s of
                    None \<Rightarrow> Some (st, ())
                  | Some rb \<Rightarrow> on_rlc_entity st k rb (timed st (\<lambda>e. map_option (\<lambda>e. (e, ())) (ent_recv_pdu e buf)))) (\<lambda>(st, _).
       data_ind_loop st k data))"

definition nr_mac_rlc_data_ind :: "nr_rlc_state \<Rightarrow> int \<Rightarrow> (nat \<times> u8 list) list \<Rightarrow> nr_rlc_state option" where
  "nr_mac_rlc_data_ind st i data = with_ue st i (\<lambda>st k. data_ind_loop st k data)"

text \<open>
  Several PDUs for one transport block: three bytes are reserved before each. The last argument bounds the
  number of PDUs.
\<close>

fun multi_data_req_loop :: "nr_rlc_entity \<Rightarrow> u8 list \<Rightarrow> nat \<Rightarrow> (nr_rlc_entity \<times> u8 list list) option" where
  "multi_data_req_loop e buffer 0 = Some (e, [])"
| "multi_data_req_loop e buffer (Suc n) =
     (if length buffer \<le> 3 then Some (e, [])
      else Option.bind (ent_generate_pdu e (drop 3 buffer)) (\<lambda>(e, pdu).
             if pdu = [] then Some (e, [])
             else map_option (map_prod id (Cons pdu)) (multi_data_req_loop e (drop (3 + length pdu) buffer) n)))"

definition nr_mac_rlc_multi_data_req :: "nr_rlc_state \<Rightarrow> int \<Rightarrow> nat \<Rightarrow> u8 list \<Rightarrow> nat \<Rightarrow> (nr_rlc_state \<times> u8 list list) option" where
  "nr_mac_rlc_multi_data_req st i channel_id buffer n =
     with_ue st i (\<lambda>st k.
       Option.bind (get_rlc_entity_from_lcid (rlc_ue_list st ! k) channel_id) (\<lambda>s.
         case s of
           None \<Rightarrow> Some (st, [])
         | Some rb \<Rightarrow> on_rlc_entity st k rb (timed st (\<lambda>e. multi_data_req_loop e buffer n))))"

definition nr_mac_rlc_data_req :: "nr_rlc_state \<Rightarrow> int \<Rightarrow> nat \<Rightarrow> u8 list \<Rightarrow> (nr_rlc_state \<times> u8 list) option" where
  "nr_mac_rlc_data_req st i channel_id buffer =
     with_ue st i (\<lambda>st k.
       Option.bind (get_rlc_entity_from_lcid (rlc_ue_list st ! k) channel_id) (\<lambda>s.
         case s of
           None \<Rightarrow> Some (st, [])
         | Some rb \<Rightarrow> on_rlc_entity st k rb (timed st (\<lambda>e. ent_generate_pdu e buffer))))"

definition nr_rlc_status_ind1 :: "nr_rlc_state \<Rightarrow> nat \<Rightarrow> nat \<Rightarrow> (nr_rlc_state \<times> int) option" where
  "nr_rlc_status_ind1 st k channel_id =
     Option.bind (get_rlc_entity_from_lcid (rlc_ue_list st ! k) channel_id) (\<lambda>s.
       case s of
         None \<Rightarrow> Some (st, 0)
       | Some rb \<Rightarrow> on_rlc_entity st k rb (timed st (\<lambda>e.
           map_option (\<lambda>(status_size, tx_size, retx_size). (e, status_size + retx_size + tx_size)) (ent_buffer_status e 1000000))))"

fun status_ind_loop :: "nr_rlc_state \<Rightarrow> nat \<Rightarrow> nat list \<Rightarrow> (nr_rlc_state \<times> int list) option" where
  "status_ind_loop st k [] = Some (st, [])"
| "status_ind_loop st k (ch # chs) =
     Option.bind (nr_rlc_status_ind1 st k ch) (\<lambda>(st, n). map_option (map_prod id (Cons n)) (status_ind_loop st k chs))"

definition nr_mac_rlc_status_ind :: "nr_rlc_state \<Rightarrow> int \<Rightarrow> nat list \<Rightarrow> (nr_rlc_state \<times> int list) option" where
  "nr_mac_rlc_status_ind st i chs = with_ue st i (\<lambda>st k. status_ind_loop st k chs)"

section \<open>Calls from PDCP and RRC\<close>

definition req_slot :: "bool \<Rightarrow> int \<Rightarrow> int \<Rightarrow> int \<Rightarrow> rb_slot option" where
  "req_slot srb_flag rb_id max_srb max_drb =
     (if srb_flag then if 1 \<le> rb_id \<and> rb_id \<le> max_srb then Some (Slot_srb (nat (rb_id - 1))) else None
      else if 1 \<le> rb_id \<and> rb_id \<le> max_drb then Some (Slot_drb (nat (rb_id - 1))) else None)"

definition nr_rlc_data_req :: "nr_rlc_state \<Rightarrow> int \<Rightarrow> bool \<Rightarrow> int \<Rightarrow> int \<Rightarrow> u8 list \<Rightarrow> nr_rlc_state option" where
  "nr_rlc_data_req st i srb_flag rb_id mui sdu =
     with_ue st i (\<lambda>st k.
       case req_slot srb_flag rb_id 2 (int max_drbs_per_ue) of
         None \<Rightarrow> Some st
       | Some rb \<Rightarrow>
           if slot_entity (rlc_ue_list st ! k) rb = None then Some st
           else map_option fst (on_rlc_entity st k rb (timed st (\<lambda>e. map_option (\<lambda>e. (e, ())) (ent_recv_sdu e sdu mui)))))"

definition nr_rlc_srb_recv_sdu :: "nr_rlc_state \<Rightarrow> int \<Rightarrow> nat \<Rightarrow> u8 list \<Rightarrow> nr_rlc_state option" where
  "nr_rlc_srb_recv_sdu st i channel_id buf =
     with_ue st i (\<lambda>st k.
       if channel_id > 3 then None
       else map_option fst (on_rlc_entity st k (if channel_id = 0 then Slot_srb0 else Slot_srb (channel_id - 1))
              (timed st (\<lambda>e. map_option (\<lambda>e. (e, ())) (ent_recv_sdu e buf (-1))))))"

definition nr_rlc_get_available_tx_space :: "nr_rlc_state \<Rightarrow> int \<Rightarrow> nat \<Rightarrow> (nr_rlc_state \<times> int) option" where
  "nr_rlc_get_available_tx_space st i channel_id =
     with_ue st i (\<lambda>st k.
       map_option (\<lambda>s. (st, case Option.bind s (slot_entity (rlc_ue_list st ! k)) of None \<Rightarrow> -1 | Some e \<Rightarrow> ent_available_tx_space e))
         (get_rlc_entity_from_lcid (rlc_ue_list st ! k) channel_id))"

definition nr_rlc_tx_list_occupancy :: "nr_rlc_state \<Rightarrow> int \<Rightarrow> nat \<Rightarrow> (nr_rlc_state \<times> int) option" where
  "nr_rlc_tx_list_occupancy st i channel_id =
     with_ue st i (\<lambda>st k.
       map_option (\<lambda>s. (st, case Option.bind s (slot_entity (rlc_ue_list st ! k)) of None \<Rightarrow> 0 | Some e \<Rightarrow> ent_tx_list_occupancy e))
         (get_rlc_entity_from_lcid (rlc_ue_list st ! k) channel_id))"

text \<open>The first logical channel of a bearer, 0 for none.\<close>

fun find_lcid :: "nr_lcid_rb list \<Rightarrow> nr_lcid_rb \<Rightarrow> nat \<Rightarrow> nat" where
  "find_lcid [] rb n = 0"
| "find_lcid (x # l) rb n = (if x = rb then n else find_lcid l rb (Suc n))"

definition nr_rlc_get_lcid_from_rb :: "nr_rlc_state \<Rightarrow> int \<Rightarrow> bool \<Rightarrow> int \<Rightarrow> nr_rlc_state \<times> nat" where
  "nr_rlc_get_lcid_from_rb st i is_srb rb_id =
     with_ue st i (\<lambda>st k. (st, find_lcid (ue_lcid2rb (rlc_ue_list st ! k)) (if is_srb then Lcid_srb rb_id else Lcid_drb rb_id) 1))"

text \<open>The occupancy that the statistics of a bearer give, besides its counters: bytes of a STATUS PDU and bytes to send.\<close>

definition nr_rlc_get_statistics :: "nr_rlc_state \<Rightarrow> int \<Rightarrow> bool \<Rightarrow> int \<Rightarrow> (nr_rlc_state \<times> (int \<times> int) option) option" where
  "nr_rlc_get_statistics st i srb_flag rb_id =
     with_ue st i (\<lambda>st k.
       case Option.bind (req_slot srb_flag rb_id 2 5) (slot_entity (rlc_ue_list st ! k)) of
         None \<Rightarrow> Some (st, None)
       | Some e \<Rightarrow> map_option (\<lambda>(status_size, tx_size, retx_size). (st, Some (status_size, tx_size + retx_size))) (ent_buffer_status e 256000))"

section \<open>Configuration\<close>

definition nr_rlc_release_entity :: "nr_rlc_state \<Rightarrow> int \<Rightarrow> nat \<Rightarrow> nr_rlc_state option" where
  "nr_rlc_release_entity st i channel_id =
     with_ue st i (\<lambda>st k.
       if channel_id = 0 then Some (set_ue st k (clear_slot (rlc_ue_list st ! k) Slot_srb0))
       else map_option (set_ue st k) (release_rlc_entity_from_lcid (rlc_ue_list st ! k) channel_id))"

definition nr_rlc_set_rlf_handler :: "nr_rlc_state \<Rightarrow> int \<Rightarrow> bool \<Rightarrow> nr_rlc_state" where
  "nr_rlc_set_rlf_handler st i h = with_ue st i (\<lambda>st k. set_ue st k ((rlc_ue_list st ! k)\<lparr>ue_rlf_handler := h\<rparr>))"

definition nr_rlc_reestablish_entity :: "nr_rlc_state \<Rightarrow> int \<Rightarrow> nat \<Rightarrow> nr_rlc_state option" where
  "nr_rlc_reestablish_entity st i lc_id =
     with_ue st i (\<lambda>st k.
       Option.bind (get_rlc_entity_from_lcid (rlc_ue_list st ! k) lc_id) (\<lambda>s.
         case s of
           None \<Rightarrow> Some st
         | Some rb \<Rightarrow> map_option fst (on_rlc_entity st k rb (\<lambda>e. Some (ent_reestablishment e, ())))))"

definition am_reconfigure :: "nr_rlc_entity_am \<Rightarrow> am_params \<Rightarrow> nat option \<Rightarrow> nr_rlc_entity_am" where
  "am_reconfigure e p n =
     nr_rlc_entity_am_reconfigure e (p_t_poll_retransmit p) (p_t_reassembly p) (p_t_status_prohibit p) (p_poll_pdu p)
       (p_poll_byte p) (p_max_retx_threshold p) n"

fun ent_reconfigure :: "NR_RLC_Config option \<Rightarrow> nr_rlc_entity \<Rightarrow> nr_rlc_entity option" where
  "ent_reconfigure (Some (Config_am am)) (Am e) =
     Option.bind (decode_am_params am) (\<lambda>p.
       map_option (\<lambda>n. Am (am_reconfigure e p n))
         (decode_sn_length_change VALUES_SN_FIELD_LENGTH_AM (dl_am_sn_FieldLength am) (ul_am_sn_FieldLength am)))"
| "ent_reconfigure (Some (Config_um_bi um)) (Um e) =
     Option.bind (decode_value VALUES_T_REASSEMBLY (dl_um_t_Reassembly um)) (\<lambda>t.
       map_option (\<lambda>n. Um (nr_rlc_entity_um_reconfigure e t n))
         (decode_sn_length_change VALUES_SN_FIELD_LENGTH_UM (dl_um_sn_FieldLength um) (ul_um_sn_FieldLength um)))"
| "ent_reconfigure None (Am e) = Some (Am (am_reconfigure e default_am_params (Some 12)))"
| "ent_reconfigure _ _ = None"

definition nr_rlc_reconfigure_entity :: "nr_rlc_state \<Rightarrow> int \<Rightarrow> nat \<Rightarrow> NR_RLC_Config option \<Rightarrow> nr_rlc_state option" where
  "nr_rlc_reconfigure_entity st i lc_id config =
     with_ue st i (\<lambda>st k.
       Option.bind (get_rlc_entity_from_lcid (rlc_ue_list st ! k) lc_id) (\<lambda>s.
       Option.bind s (\<lambda>rb. map_option fst (on_rlc_entity st k rb (\<lambda>e. map_option (\<lambda>e. (e, ())) (ent_reconfigure config e))))))"

definition map_lcid :: "nr_rlc_ue \<Rightarrow> int \<Rightarrow> nr_lcid_rb \<Rightarrow> nr_rlc_ue option" where
  "map_lcid ue lcid rb =
     (if lcid < 1 \<or> lcid > 32 then None else Some (ue\<lparr>ue_lcid2rb := (ue_lcid2rb ue)[nat (lcid - 1) := rb]\<rparr>))"

definition RLC_RX_MAXSIZE :: int where "RLC_RX_MAXSIZE = 10000000"

definition RLC_TX_MAXSIZE :: int where "RLC_TX_MAXSIZE = 10000000"

definition new_am :: "am_params \<Rightarrow> nat \<Rightarrow> nr_rlc_entity option" where
  "new_am p n =
     map_option Am (new_nr_rlc_entity_am RLC_RX_MAXSIZE RLC_TX_MAXSIZE (p_t_poll_retransmit p) (p_t_reassembly p) (p_t_status_prohibit p)
       (p_poll_pdu p) (p_poll_byte p) (p_max_retx_threshold p) n)"

definition srb_params :: "NR_RLC_Config option \<Rightarrow> (am_params \<times> nat) option" where
  "srb_params config =
     (case config of
        Some (Config_am am) \<Rightarrow>
          Option.bind (decode_am_params am) (\<lambda>p.
            map_option (Pair p) (decode_new_sn_length VALUES_SN_FIELD_LENGTH_AM (dl_am_sn_FieldLength am) (ul_am_sn_FieldLength am)))
      | _ \<Rightarrow> Some (default_am_params, 12))"

definition nr_rlc_add_srb :: "nr_rlc_state \<Rightarrow> int \<Rightarrow> int \<Rightarrow> NR_RLC_BearerConfig \<Rightarrow> nr_rlc_state option" where
  "nr_rlc_add_srb st i srb_id c =
     (if srb_id \<le> 0 \<or> srb_id \<ge> 4 then None
      else Option.bind (srb_params (rlc_Config c)) (\<lambda>(p, n).
        with_ue st i (\<lambda>st k.
          case servedRadioBearer c of
            Some (Served_srb s) \<Rightarrow>
              Option.bind (map_lcid (rlc_ue_list st ! k) (logicalChannelIdentity c) (Lcid_srb s)) (\<lambda>ue.
                if ue_srb ue ! nat (srb_id - 1) \<noteq> None then Some (set_ue st k ue)
                else Option.bind (new_am p n) (\<lambda>e.
                       map_option (set_ue st k) (nr_rlc_ue_add_srb_rlc_entity ue srb_id (e, 0))))
          | _ \<Rightarrow> None)))"

text \<open>What \<^verbatim>\<open>add_drb_am\<close> and \<^verbatim>\<open>add_drb_um\<close> have in common: \<open>new_e\<close> makes the entity.\<close>

definition add_drb_entity :: "nr_rlc_state \<Rightarrow> int \<Rightarrow> int \<Rightarrow> NR_RLC_BearerConfig \<Rightarrow> nr_rlc_entity option \<Rightarrow> nr_rlc_state option" where
  "add_drb_entity st i drb_id c new_e =
     with_ue st i (\<lambda>st k.
       case servedRadioBearer c of
         Some (Served_drb d) \<Rightarrow>
           Option.bind (map_lcid (rlc_ue_list st ! k) (logicalChannelIdentity c) (Lcid_drb d)) (\<lambda>ue.
             if ue_drb ue ! nat (drb_id - 1) \<noteq> None then Some (set_ue st k ue)
             else Option.bind new_e (\<lambda>e. map_option (set_ue st k) (nr_rlc_ue_add_drb_rlc_entity ue drb_id e)))
       | _ \<Rightarrow> None)"

definition add_drb_am :: "nr_rlc_state \<Rightarrow> int \<Rightarrow> int \<Rightarrow> NR_RLC_BearerConfig \<Rightarrow> nr_rlc_state option" where
  "add_drb_am st i drb_id c =
     (if drb_id \<le> 0 \<or> drb_id > int max_drbs_per_ue then None
      else case rlc_Config c of
             Some (Config_am am) \<Rightarrow>
               Option.bind (decode_am_params am) (\<lambda>p.
               Option.bind (decode_new_sn_length VALUES_SN_FIELD_LENGTH_AM (dl_am_sn_FieldLength am) (ul_am_sn_FieldLength am)) (\<lambda>n.
                 add_drb_entity st i drb_id c (new_am p n)))
           | _ \<Rightarrow> None)"

definition add_drb_um :: "nr_rlc_state \<Rightarrow> int \<Rightarrow> int \<Rightarrow> NR_RLC_BearerConfig \<Rightarrow> nr_rlc_state option" where
  "add_drb_um st i drb_id c =
     (if drb_id \<le> 0 \<or> drb_id > int max_drbs_per_ue then None
      else case rlc_Config c of
             Some (Config_um_bi um) \<Rightarrow>
               Option.bind (decode_value VALUES_T_REASSEMBLY (dl_um_t_Reassembly um)) (\<lambda>t.
               Option.bind (decode_new_sn_length VALUES_SN_FIELD_LENGTH_UM (dl_um_sn_FieldLength um) (ul_um_sn_FieldLength um)) (\<lambda>n.
                 add_drb_entity st i drb_id c (map_option Um (new_nr_rlc_entity_um RLC_RX_MAXSIZE RLC_TX_MAXSIZE t n))))
           | _ \<Rightarrow> None)"

definition nr_rlc_add_drb :: "nr_rlc_state \<Rightarrow> int \<Rightarrow> int \<Rightarrow> NR_RLC_BearerConfig \<Rightarrow> nr_rlc_state option" where
  "nr_rlc_add_drb st i drb_id c =
     (case rlc_Config c of
        Some (Config_am _) \<Rightarrow> add_drb_am st i drb_id c
      | Some (Config_um_bi _) \<Rightarrow> add_drb_um st i drb_id c
      | _ \<Rightarrow> None)"

definition nr_rlc_activate_srb0 :: "nr_rlc_state \<Rightarrow> int \<Rightarrow> (nr_rlc_state \<times> bool) option" where
  "nr_rlc_activate_srb0 st i =
     with_ue st i (\<lambda>st k.
       let ue = rlc_ue_list st ! k
       in if ue_srb0 ue \<noteq> None then Some (st, False)
          else map_option (\<lambda>ue. (set_ue st k ue, True)) (nr_rlc_ue_add_srb_rlc_entity ue 0 (Tm (new_nr_rlc_entity_tm 10000), i)))"

definition nr_rlc_remove_ue :: "nr_rlc_state \<Rightarrow> int \<Rightarrow> nr_rlc_state" where
  "nr_rlc_remove_ue st i = st\<lparr>rlc_ue_list := nr_rlc_manager_remove_ue (rlc_ue_list st) i\<rparr>"

text \<open>\<^verbatim>\<open>nr_rlc_manager_get_ue\<close> never gives a null pointer, so the answer is always positive.\<close>

definition nr_rlc_update_id :: "nr_rlc_state \<Rightarrow> int \<Rightarrow> int \<Rightarrow> nr_rlc_state" where
  "nr_rlc_update_id st from_id to_id =
     with_ue st from_id (\<lambda>st k.
       let ue = (rlc_ue_list st ! k)\<lparr>ue_id := to_id\<rparr>
       in set_ue st k (case ue_srb ue ! 0 of None \<Rightarrow> ue | Some e \<Rightarrow> put_slot ue (Slot_srb 0) (ent_reestablishment e)))"

definition nr_rlc_test_trigger_reestablishment :: "nr_rlc_state \<Rightarrow> int \<Rightarrow> nr_rlc_state option" where
  "nr_rlc_test_trigger_reestablishment st i =
     with_ue st i (\<lambda>st k.
       let ue = rlc_ue_list st ! k
       in map_option (\<lambda>e.
            let ue = put_slot ue (Slot_srb 0) (ent_reestablishment e)
            in set_ue st k (case ue_drb ue ! 0 of None \<Rightarrow> ue | Some d \<Rightarrow> put_slot ue (Slot_drb 0) (ent_reestablishment d)))
          (ue_srb ue ! 0))"

definition nr_rlc_ms_tick :: "nr_rlc_state \<Rightarrow> nr_rlc_state" where
  "nr_rlc_ms_tick st = st\<lparr>rlc_current_time := rlc_current_time st + 1\<rparr>"

end
