(* ===== verification/Rlc_Api_Isolation.thy ===== *)
theory Rlc_Api_Isolation
  imports Rlc_Api
begin

text \<open>
  A call of the RLC interface for one UE touches the context of that UE only, and hands nothing to the
  upper layers in the name of another one.
\<close>

section \<open>The list of UEs\<close>

definition find_ue :: "nr_rlc_ue list \<Rightarrow> int \<Rightarrow> nr_rlc_ue option" where
  "find_ue l i = List.find (\<lambda>u. ue_id u = i) l"

lemma find_ue_simps [simp]: "find_ue [] i = None" "find_ue (u # l) i = (if ue_id u = i then Some u else find_ue l i)"
  by (simp_all add: find_ue_def)

lemma ue_position_le: "ue_position l i \<le> length l"
  by (induction l) auto

lemma find_position: "find_ue l i = (if ue_position l i < length l then Some (l ! ue_position l i) else None)"
  by (induction l) auto

lemma ue_position_id: "ue_position l i < length l \<Longrightarrow> ue_id (l ! ue_position l i) = i"
  by (induction l) auto

lemma ue_position_cong: "map ue_id l = map ue_id l' \<Longrightarrow> ue_position l i = ue_position l' i"
proof (induction l arbitrary: l')
  case (Cons u l)
  then show ?case by (cases l') auto
qed simp

lemma ue_position_update:
  assumes "ue_position l i < length l" and "ue_id u = i"
  shows "ue_position (l[ue_position l i := u]) j = ue_position l j"
  using ue_position_id [OF assms(1)] assms by (intro ue_position_cong) (simp add: map_update list_update_same_conv)

lemma find_update:
  assumes "ue_position l i < length l" and "ue_id u = i"
  shows "find_ue (l[ue_position l i := u]) j = (if j = i then Some u else find_ue l j)"
proof (cases "j = i")
  case False
  have "ue_position l j \<noteq> ue_position l i" if "ue_position l j < length l" using ue_position_id [OF that] ue_position_id [OF assms(1)] False by auto
  then show ?thesis using False unfolding find_position ue_position_update [OF assms] by (auto simp: nth_list_update)
qed (use assms in \<open>simp add: find_position ue_position_update\<close>)

lemma find_append: "find_ue (l @ [u]) j = (case find_ue l j of Some v \<Rightarrow> Some v | None \<Rightarrow> if ue_id u = j then Some u else None)"
  by (induction l) auto

lemma position_append: "ue_position (l @ [u]) (ue_id u) = ue_position l (ue_id u)"
  by (induction l) auto

definition ue_or_new :: "nr_rlc_ue list \<Rightarrow> int \<Rightarrow> nr_rlc_ue" where
  "ue_or_new l i = (case find_ue l i of Some u \<Rightarrow> u | None \<Rightarrow> zero_ue i)"

lemma get_ue:
  assumes "nr_rlc_manager_get_ue l i = (l', k)"
  shows "k = ue_position l' i" and "k < length l'" and "l' ! k = ue_or_new l i"
    and "find_ue l' j = (if j = i then Some (ue_or_new l i) else find_ue l j)"
proof -
  have z: "ue_id (zero_ue i) = i" by (simp add: zero_ue_def)
  note p = position_append [of l "zero_ue i", unfolded z]
  show k: "k = ue_position l' i" "k < length l'" "l' ! k = ue_or_new l i"
    using assms ue_position_le [of l i] p
    by (auto simp: nr_rlc_manager_get_ue_def Let_def ue_or_new_def find_position nth_append split: if_splits)
  show "find_ue l' j = (if j = i then Some (ue_or_new l i) else find_ue l j)"
  proof (cases "j = i")
    case True
    then show ?thesis using k by (simp add: find_position)
  next
    case False
    then show ?thesis using assms z by (auto simp: nr_rlc_manager_get_ue_def Let_def find_append split: if_splits option.splits)
  qed
qed

lemma remove_ue_find: "j \<noteq> i \<Longrightarrow> find_ue (nr_rlc_manager_remove_ue l i) j = find_ue l j"
proof (induction l)
  case (Cons u l)
  then show ?case by (auto simp: nr_rlc_manager_remove_ue_def Let_def split: if_splits)
qed (simp add: nr_rlc_manager_remove_ue_def)

section \<open>Confined steps\<close>

text \<open>What may be handed up in the name of UE \<open>i\<close>, whose SRB 0 was activated with the identifier \<open>z\<close>.\<close>

fun upcall_of :: "nr_rlc_op_mode \<Rightarrow> (int \<Rightarrow> int option) \<Rightarrow> int \<Rightarrow> int option \<Rightarrow> rlc_upcall \<Rightarrow> bool" where
  "upcall_of mode du2cu i z (Ul_rrc_message c j _ _) \<longleftrightarrow> j = i \<and> du2cu i = Some c"
| "upcall_of mode du2cu i z (Gtpu_send j _ _) \<longleftrightarrow> j = i"
| "upcall_of mode du2cu i z (Pdcp_data_ind c g _ _ _) \<longleftrightarrow> g = nr_rlc_manager_get_gnb_flag mode \<and> (if g then du2cu i = Some c else c = i)"
| "upcall_of mode du2cu i z (Initial_ul_rrc_message j _) \<longleftrightarrow> z = Some j"
| "upcall_of mode du2cu i z (Radio_link_failure j) \<longleftrightarrow> j = i"

definition new_upcalls :: "int \<Rightarrow> int option \<Rightarrow> nr_rlc_state \<Rightarrow> nr_rlc_state \<Rightarrow> bool" where
  "new_upcalls i z st st' \<longleftrightarrow>
     (\<exists>ups. rlc_upcalls st' = rlc_upcalls st @ ups \<and> list_all (upcall_of (rlc_mode st) (rlc_du2cu st) i z) ups)"

definition confined :: "int \<Rightarrow> int option \<Rightarrow> nr_rlc_state \<Rightarrow> nr_rlc_state \<Rightarrow> bool" where
  "confined i z st st' \<longleftrightarrow> (\<forall>j. j \<noteq> i \<longrightarrow> find_ue (rlc_ue_list st') j = find_ue (rlc_ue_list st) j) \<and>
     rlc_mode st' = rlc_mode st \<and> rlc_current_time st' = rlc_current_time st \<and> rlc_du2cu st' = rlc_du2cu st \<and> new_upcalls i z st st'"

lemma new_upcalls_refl: "rlc_upcalls st' = rlc_upcalls st \<Longrightarrow> new_upcalls i z st st'"
  by (simp add: new_upcalls_def)

lemma confined_refl: "confined i z st st"
  by (simp add: confined_def new_upcalls_refl)

lemma confined_trans:
  assumes "confined i z st st1" and "confined i z st1 st2"
  shows "confined i z st st2"
proof -
  obtain u1 u2 where u: "rlc_upcalls st1 = rlc_upcalls st @ u1" "list_all (upcall_of (rlc_mode st) (rlc_du2cu st) i z) u1"
    "rlc_upcalls st2 = rlc_upcalls st1 @ u2" "list_all (upcall_of (rlc_mode st1) (rlc_du2cu st1) i z) u2"
    using assms unfolding confined_def new_upcalls_def by blast
  have m: "rlc_mode st1 = rlc_mode st" "rlc_du2cu st1 = rlc_du2cu st" using assms(1) by (simp_all add: confined_def)
  have "rlc_upcalls st2 = rlc_upcalls st @ (u1 @ u2)" using u by simp
  moreover have "list_all (upcall_of (rlc_mode st) (rlc_du2cu st) i z) (u1 @ u2)" using u(2,4) unfolding m by simp
  ultimately have "new_upcalls i z st st2" unfolding new_upcalls_def by blast
  then show ?thesis using assms by (simp add: confined_def)
qed

text \<open>The UE at a position, with the identifier that its SRB 0 was activated with.\<close>

definition srb0_id :: "nr_rlc_ue \<Rightarrow> int option" where
  "srb0_id ue = map_option snd (ue_srb0 ue)"

definition at_ue :: "nr_rlc_state \<Rightarrow> int \<Rightarrow> int option \<Rightarrow> nat \<Rightarrow> bool" where
  "at_ue st i z k \<longleftrightarrow> k = ue_position (rlc_ue_list st) i \<and> k < length (rlc_ue_list st) \<and> srb0_id (rlc_ue_list st ! k) = z"

lemma at_ue_id: "at_ue st i z k \<Longrightarrow> ue_id (rlc_ue_list st ! k) = i"
  using ue_position_id by (simp add: at_ue_def)

lemma with_ue_rule:
  assumes "\<And>st1 k. at_ue st1 i (srb0_id (ue_or_new (rlc_ue_list st) i)) k \<Longrightarrow> confined i z st st1 \<Longrightarrow>
    rlc_ue_list st1 ! k = ue_or_new (rlc_ue_list st) i \<Longrightarrow> rlc_current_time st1 = rlc_current_time st \<Longrightarrow> P (f st1 k)"
  shows "P (with_ue st i f)"
proof -
  obtain l k where g: "nr_rlc_manager_get_ue (rlc_ue_list st) i = (l, k)" by (cases "nr_rlc_manager_get_ue (rlc_ue_list st) i")
  note u = get_ue [OF g]
  have "P (f (st\<lparr>rlc_ue_list := l\<rparr>) k)"
    by (rule assms) (use u in \<open>auto simp: at_ue_def confined_def new_upcalls_refl\<close>)
  then show ?thesis by (simp add: with_ue_def g)
qed

lemma set_ue_confined:
  assumes "at_ue st i z k" and "ue_id ue = i"
  shows "confined i z' st (set_ue st k ue)"
  using find_update [of "rlc_ue_list st" i ue] assms by (simp add: confined_def set_ue_def at_ue_def new_upcalls_refl)

lemma put_slot_id [simp]: "ue_id (put_slot ue rb e) = ue_id ue" "srb0_id (put_slot ue rb e) = srb0_id ue"
  "ue_lcid2rb (put_slot ue rb e) = ue_lcid2rb ue" "ue_rlf_handler (put_slot ue rb e) = ue_rlf_handler ue"
  by (cases rb; auto simp: srb0_id_def map_option.compositionality comp_def split_beta)+

lemma clear_slot_id [simp]: "ue_id (clear_slot ue rb) = ue_id ue"
  by (cases rb) simp_all

section \<open>Callbacks\<close>

definition only_upcalls :: "nr_rlc_ue \<Rightarrow> nr_rlc_state \<Rightarrow> nr_rlc_state \<Rightarrow> bool" where
  "only_upcalls ue st st' \<longleftrightarrow> (\<exists>ups. st' = st\<lparr>rlc_upcalls := rlc_upcalls st @ ups\<rparr> \<and>
     list_all (upcall_of (rlc_mode st) (rlc_du2cu st) (ue_id ue) (srb0_id ue)) ups)"

lemma only_upcalls_refl: "only_upcalls ue st st"
  unfolding only_upcalls_def by (intro exI [of _ "[]"]) simp

lemma only_upcalls_trans: "only_upcalls ue st st1 \<Longrightarrow> only_upcalls ue st1 st2 \<Longrightarrow> only_upcalls ue st st2"
  unfolding only_upcalls_def by fastforce

lemma only_upcalls_one:
  "upcall_of (rlc_mode st) (rlc_du2cu st) (ue_id ue) (srb0_id ue) up \<Longrightarrow> only_upcalls ue st (st\<lparr>rlc_upcalls := rlc_upcalls st @ [up]\<rparr>)"
  unfolding only_upcalls_def by (intro exI [of _ "[up]"]) simp

lemma deliver_sdu_upcalls: "deliver_sdu st ue is_srb rb_id buf = Some st' \<Longrightarrow> only_upcalls ue st st'"
  by (auto simp: deliver_sdu_def Let_def split: if_splits intro!: only_upcalls_one)

lemma deliver_all_upcalls: "deliver_all st ue rb bufs = Some st' \<Longrightarrow> only_upcalls ue st st'"
proof (induction bufs arbitrary: st)
  case (Cons buf bufs)
  then obtain st1 where s: "(case rb of Slot_srb0 \<Rightarrow> map_option (\<lambda>(_, i). deliver_sdu_srb0 st i buf) (ue_srb0 ue)
      | _ \<Rightarrow> Option.bind (callback_rb 3 rb) (\<lambda>(is_srb, rb_id). deliver_sdu st ue is_srb rb_id buf)) = Some st1"
    "deliver_all st1 ue rb bufs = Some st'" by (auto split: Option.bind_splits)
  have "only_upcalls ue st st1"
    using s(1) by (auto simp: deliver_sdu_srb0_def srb0_id_def split: rb_slot.splits Option.bind_splits intro!: only_upcalls_one dest: deliver_sdu_upcalls)
  then show ?case using Cons.IH [OF s(2)] only_upcalls_trans by blast
qed (simp add: only_upcalls_refl)

lemma max_retx_all_upcalls: "max_retx_all n st ue rb = Some st' \<Longrightarrow> only_upcalls ue st st'"
proof (induction n arbitrary: st)
  case (Suc n)
  then obtain st1 where s: "max_retx_reached st ue rb = Some st1" "max_retx_all n st1 ue rb = Some st'" by (auto split: Option.bind_splits)
  have "only_upcalls ue st st1" using s(1) by (auto simp: max_retx_reached_def only_upcalls_refl split: if_splits intro!: only_upcalls_one)
  then show ?case using Suc.IH [OF s(2)] only_upcalls_trans by blast
qed (simp add: only_upcalls_refl)

lemma ent_callbacks_upcalls: "ent_callbacks st ue rb e e' = Some st' \<Longrightarrow> only_upcalls ue st st'"
  by (auto simp: ent_callbacks_def split: Option.bind_splits if_splits dest!: deliver_all_upcalls max_retx_all_upcalls intro: only_upcalls_trans)

lemma on_entity_elim:
  assumes "on_rlc_entity st k rb f = Some (st', x)"
  obtains e e' where "slot_entity (rlc_ue_list st ! k) rb = Some e" and "f e = Some (e', x)"
    and "ent_callbacks (st\<lparr>rlc_ue_list := (rlc_ue_list st)[k := put_slot (rlc_ue_list st ! k) rb e']\<rparr>) (rlc_ue_list st ! k) rb e e' = Some st'"
    and "rlc_ue_list st' = (rlc_ue_list st)[k := put_slot (rlc_ue_list st ! k) rb e']"
proof -
  let ?ue = "rlc_ue_list st ! k"
  obtain e e' where e: "slot_entity ?ue rb = Some e" "f e = Some (e', x)"
    "ent_callbacks (st\<lparr>rlc_ue_list := (rlc_ue_list st)[k := put_slot ?ue rb e']\<rparr>) ?ue rb e e' = Some st'"
    using assms by (auto simp: on_rlc_entity_def Let_def split: Option.bind_splits)
  moreover have "rlc_ue_list st' = (rlc_ue_list st)[k := put_slot ?ue rb e']"
    using ent_callbacks_upcalls [OF e(3)] by (auto simp: only_upcalls_def)
  ultimately show thesis by (rule that)
qed

lemma on_entity_confined:
  assumes a: "at_ue st i z k" and r: "on_rlc_entity st k rb f = Some (st', x)"
  shows "confined i z st st'" and "at_ue st' i z k"
proof -
  let ?ue = "rlc_ue_list st ! k"
  obtain e e' where e: "ent_callbacks (st\<lparr>rlc_ue_list := (rlc_ue_list st)[k := put_slot ?ue rb e']\<rparr>) ?ue rb e e' = Some st'"
    "rlc_ue_list st' = (rlc_ue_list st)[k := put_slot ?ue rb e']" by (rule on_entity_elim [OF r])
  have i: "ue_id ?ue = i" and z: "srb0_id ?ue = z" and k: "k = ue_position (rlc_ue_list st) i" "k < length (rlc_ue_list st)"
    using at_ue_id [OF a] a by (auto simp: at_ue_def)
  have c1: "confined i z st (st\<lparr>rlc_ue_list := (rlc_ue_list st)[k := put_slot ?ue rb e']\<rparr>)"
    using set_ue_confined [OF a, of "put_slot ?ue rb e'" z] i by (simp add: set_ue_def)
  have "confined i z (st\<lparr>rlc_ue_list := (rlc_ue_list st)[k := put_slot ?ue rb e']\<rparr>) st'"
    using ent_callbacks_upcalls [OF e(1)] i z by (auto simp: only_upcalls_def confined_def new_upcalls_def)
  then show "confined i z st st'" using c1 confined_trans by blast
  show "at_ue st' i z k"
    using ue_position_update [of "rlc_ue_list st" i "put_slot ?ue rb e'" i] i z k unfolding at_ue_def e(2) by simp
qed

section \<open>Loops over channels\<close>

lemma data_ind_confined: "data_ind_loop st k data = Some st' \<Longrightarrow> at_ue st i z k \<Longrightarrow> confined i z st st'"
proof (induction data arbitrary: st)
  case (Cons d data)
  obtain ch buf where d: "d = (ch, buf)" by (cases d)
  then obtain s st1 where s: "(case s of None \<Rightarrow> Some (st, ())
      | Some rb \<Rightarrow> on_rlc_entity st k rb (timed st (\<lambda>e. map_option (\<lambda>e. (e, ())) (ent_recv_pdu e buf)))) = Some (st1, ())"
    "data_ind_loop st1 k data = Some st'" using Cons.prems(1) by (auto split: Option.bind_splits)
  have "confined i z st st1 \<and> at_ue st1 i z k"
    using s(1) on_entity_confined [OF Cons.prems(2)] Cons.prems(2) confined_refl by (auto split: option.splits)
  then show ?case using Cons.IH [OF s(2)] confined_trans by blast
qed (auto simp: confined_refl)

lemma status_ind1_confined:
  assumes "nr_rlc_status_ind1 st k ch = Some (st', n)" and "at_ue st i z k"
  shows "confined i z st st'" and "at_ue st' i z k"
  using assms on_entity_confined [OF assms(2)] confined_refl by (auto simp: nr_rlc_status_ind1_def split: Option.bind_splits option.splits)

lemma status_ind_confined: "status_ind_loop st k chs = Some (st', ns) \<Longrightarrow> at_ue st i z k \<Longrightarrow> confined i z st st'"
proof (induction chs arbitrary: st ns)
  case (Cons ch chs)
  then obtain st1 n ns' where s: "nr_rlc_status_ind1 st k ch = Some (st1, n)" "status_ind_loop st1 k chs = Some (st', ns')"
    by (auto split: Option.bind_splits)
  show ?case using status_ind1_confined [OF s(1) Cons.prems(2)] Cons.IH [OF s(2)] confined_trans by blast
qed (auto simp: confined_refl)

section \<open>Calls\<close>

text \<open>The calls of the interface, with their arguments; the results for the caller are left out.\<close>

datatype rlc_call =
    Mac_data_ind int "(nat \<times> u8 list) list" | Mac_multi_data_req int nat "u8 list" nat | Mac_data_req int nat "u8 list"
  | Mac_status_ind int "nat list" | Data_req int bool int int "u8 list" | Srb_recv_sdu int nat "u8 list"
  | Get_tx_space int nat | Get_occupancy int nat | Get_lcid int bool int | Get_statistics int bool int
  | Release_entity int nat | Set_rlf_handler int bool | Reestablish_entity int nat
  | Reconfigure_entity int nat "NR_RLC_Config option" | Add_srb int int NR_RLC_BearerConfig | Add_drb int int NR_RLC_BearerConfig
  | Activate_srb0 int | Remove_ue int | Update_id int int | Test_reestablishment int | Ms_tick

fun rlc_call_step :: "nr_rlc_state \<Rightarrow> rlc_call \<Rightarrow> nr_rlc_state option" where
  "rlc_call_step st (Mac_data_ind i data) = nr_mac_rlc_data_ind st i data"
| "rlc_call_step st (Mac_multi_data_req i ch b n) = map_option fst (nr_mac_rlc_multi_data_req st i ch b n)"
| "rlc_call_step st (Mac_data_req i ch b) = map_option fst (nr_mac_rlc_data_req st i ch b)"
| "rlc_call_step st (Mac_status_ind i chs) = map_option fst (nr_mac_rlc_status_ind st i chs)"
| "rlc_call_step st (Data_req i srb rb mui sdu) = nr_rlc_data_req st i srb rb mui sdu"
| "rlc_call_step st (Srb_recv_sdu i ch sdu) = nr_rlc_srb_recv_sdu st i ch sdu"
| "rlc_call_step st (Get_tx_space i ch) = map_option fst (nr_rlc_get_available_tx_space st i ch)"
| "rlc_call_step st (Get_occupancy i ch) = map_option fst (nr_rlc_tx_list_occupancy st i ch)"
| "rlc_call_step st (Get_lcid i srb rb) = Some (fst (nr_rlc_get_lcid_from_rb st i srb rb))"
| "rlc_call_step st (Get_statistics i srb rb) = map_option fst (nr_rlc_get_statistics st i srb rb)"
| "rlc_call_step st (Release_entity i ch) = nr_rlc_release_entity st i ch"
| "rlc_call_step st (Set_rlf_handler i h) = Some (nr_rlc_set_rlf_handler st i h)"
| "rlc_call_step st (Reestablish_entity i ch) = nr_rlc_reestablish_entity st i ch"
| "rlc_call_step st (Reconfigure_entity i ch c) = nr_rlc_reconfigure_entity st i ch c"
| "rlc_call_step st (Add_srb i srb c) = nr_rlc_add_srb st i srb c"
| "rlc_call_step st (Add_drb i drb c) = nr_rlc_add_drb st i drb c"
| "rlc_call_step st (Activate_srb0 i) = map_option fst (nr_rlc_activate_srb0 st i)"
| "rlc_call_step st (Remove_ue i) = Some (nr_rlc_remove_ue st i)"
| "rlc_call_step st (Update_id i j) = Some (nr_rlc_update_id st i j)"
| "rlc_call_step st (Test_reestablishment i) = nr_rlc_test_trigger_reestablishment st i"
| "rlc_call_step st Ms_tick = Some (nr_rlc_ms_tick st)"

fun call_ues :: "rlc_call \<Rightarrow> int list" where
  "call_ues (Update_id i j) = [i, j]"
| "call_ues Ms_tick = []"
| "call_ues (Mac_data_ind i _) = [i]"
| "call_ues (Mac_multi_data_req i _ _ _) = [i]"
| "call_ues (Mac_data_req i _ _) = [i]"
| "call_ues (Mac_status_ind i _) = [i]"
| "call_ues (Data_req i _ _ _ _) = [i]"
| "call_ues (Srb_recv_sdu i _ _) = [i]"
| "call_ues (Get_tx_space i _) = [i]"
| "call_ues (Get_occupancy i _) = [i]"
| "call_ues (Get_lcid i _ _) = [i]"
| "call_ues (Get_statistics i _ _) = [i]"
| "call_ues (Release_entity i _) = [i]"
| "call_ues (Set_rlf_handler i _) = [i]"
| "call_ues (Reestablish_entity i _) = [i]"
| "call_ues (Reconfigure_entity i _ _) = [i]"
| "call_ues (Add_srb i _ _) = [i]"
| "call_ues (Add_drb i _ _) = [i]"
| "call_ues (Activate_srb0 i) = [i]"
| "call_ues (Remove_ue i) = [i]"
| "call_ues (Test_reestablishment i) = [i]"

text \<open>A call that is confined to its UE whatever it does with the UE found for it.\<close>

definition own :: "nr_rlc_state \<Rightarrow> int \<Rightarrow> int option" where
  "own st i = srb0_id (ue_or_new (rlc_ue_list st) i)"

lemma with_ue_confined:
  assumes "with_ue st i f = Some st'"
    and "\<And>st1 k st'. at_ue st1 i (own st i) k \<Longrightarrow> f st1 k = Some st' \<Longrightarrow> confined i (own st i) st1 st'"
  shows "confined i (own st i) st st'"
proof -
  have "\<forall>st'. with_ue st i f = Some st' \<longrightarrow> confined i (own st i) st st'"
  proof (rule with_ue_rule [where P = "\<lambda>r. \<forall>st'. r = Some st' \<longrightarrow> confined i (own st i) st st'" and z = "own st i"], intro allI impI)
    fix st1 k st'
    assume "at_ue st1 i (srb0_id (ue_or_new (rlc_ue_list st) i)) k" "confined i (own st i) st st1" "f st1 k = Some st'"
    then show "confined i (own st i) st st'" using assms(2) [of st1 k st'] confined_trans by (auto simp: own_def)
  qed
  then show ?thesis using assms(1) by blast
qed

lemma with_ue_map: "map_option h (with_ue st i f) = with_ue st i (\<lambda>st k. map_option h (f st k))"
  "h' (with_ue st i f') = with_ue st i (\<lambda>st k. h' (f' st k))"
  by (simp_all add: with_ue_def split_beta)

lemma on_entity_fst: "map_option fst (on_rlc_entity st k rb f) = Some st' \<Longrightarrow> at_ue st i z k \<Longrightarrow> confined i z st st'"
  by (auto dest: on_entity_confined(1))

lemma channel_entity_confined:
  assumes "Option.bind (get_rlc_entity_from_lcid (rlc_ue_list st ! k) ch) (\<lambda>s. case s of None \<Rightarrow> Some (st, d) | Some rb \<Rightarrow> on_rlc_entity st k rb f) = Some (st', x)"
    and "at_ue st i z k"
  shows "confined i z st st'"
  using assms on_entity_confined(1) [OF assms(2)] confined_refl by (auto split: Option.bind_splits option.splits)

lemma data_req_confined: "nr_rlc_data_req st i srb rb mui sdu = Some st' \<Longrightarrow> confined i (own st i) st st'"
  unfolding nr_rlc_data_req_def
  by (erule with_ue_confined) (auto simp: confined_refl split: option.splits if_splits dest: on_entity_confined(1))

lemma mac_data_req_confined: "nr_mac_rlc_data_req st i ch b = Some (st', pdu) \<Longrightarrow> confined i (own st i) st st'"
proof -
  assume "nr_mac_rlc_data_req st i ch b = Some (st', pdu)"
  then have "map_option fst (nr_mac_rlc_data_req st i ch b) = Some st'" by simp
  then show ?thesis unfolding nr_mac_rlc_data_req_def with_ue_map(1)
    by (rule with_ue_confined) (auto intro: channel_entity_confined)
qed

lemma keep_id:
  "map_lcid ue lcid rb = Some ue' \<Longrightarrow> ue_id ue' = ue_id ue"
  "nr_rlc_ue_add_srb_rlc_entity ue srb e = Some ue' \<Longrightarrow> ue_id ue' = ue_id ue"
  "nr_rlc_ue_add_drb_rlc_entity ue drb e' = Some ue' \<Longrightarrow> ue_id ue' = ue_id ue"
  "release_rlc_entity_from_lcid ue ch = Some ue' \<Longrightarrow> ue_id ue' = ue_id ue"
  by (auto simp: map_lcid_def nr_rlc_ue_add_srb_rlc_entity_def nr_rlc_ue_add_drb_rlc_entity_def release_rlc_entity_from_lcid_def
      Let_def split: if_splits option.splits)

text \<open>Calls that write a changed UE back.\<close>

lemma set_ue_own: "at_ue st i z k \<Longrightarrow> ue_id ue = ue_id (rlc_ue_list st ! k) \<Longrightarrow> confined i z st (set_ue st k ue)"
  using set_ue_confined at_ue_id by simp

lemma add_drb_entity_confined: "add_drb_entity st i drb c new_e = Some st' \<Longrightarrow> confined i (own st i) st st'"
  unfolding add_drb_entity_def
  by (erule with_ue_confined)
     (auto split: option.splits served_bearer.splits Option.bind_splits if_splits intro!: set_ue_own dest!: keep_id)

lemma add_drb_confined: "nr_rlc_add_drb st i drb c = Some st' \<Longrightarrow> confined i (own st i) st st'"
  by (auto simp: nr_rlc_add_drb_def add_drb_am_def add_drb_um_def intro: add_drb_entity_confined
      split: option.splits NR_RLC_Config.splits if_splits Option.bind_splits)

lemma add_srb_confined: "nr_rlc_add_srb st i srb c = Some st' \<Longrightarrow> confined i (own st i) st st'"
proof -
  assume "nr_rlc_add_srb st i srb c = Some st'"
  then obtain p n where "with_ue st i (\<lambda>st k.
          case servedRadioBearer c of
            Some (Served_srb s) \<Rightarrow>
              Option.bind (map_lcid (rlc_ue_list st ! k) (logicalChannelIdentity c) (Lcid_srb s)) (\<lambda>ue.
                if ue_srb ue ! nat (srb - 1) \<noteq> None then Some (set_ue st k ue)
                else Option.bind (new_am p n) (\<lambda>e.
                       map_option (set_ue st k) (nr_rlc_ue_add_srb_rlc_entity ue srb (e, 0))))
          | _ \<Rightarrow> None) = Some st'" by (auto simp: nr_rlc_add_srb_def split: if_splits Option.bind_splits)
  then show ?thesis
    by (rule with_ue_confined)
       (auto split: option.splits served_bearer.splits Option.bind_splits if_splits intro!: set_ue_own dest!: keep_id)
qed

lemma reestablish_confined: "nr_rlc_reestablish_entity st i ch = Some st' \<Longrightarrow> confined i (own st i) st st'"
  unfolding nr_rlc_reestablish_entity_def
  by (erule with_ue_confined) (auto simp: confined_refl split: option.splits Option.bind_splits dest: on_entity_confined(1))

lemma reconfigure_confined: "nr_rlc_reconfigure_entity st i ch c = Some st' \<Longrightarrow> confined i (own st i) st st'"
  unfolding nr_rlc_reconfigure_entity_def
  by (erule with_ue_confined) (auto split: option.splits Option.bind_splits dest: on_entity_confined(1))

lemma activate_srb0_confined: "nr_rlc_activate_srb0 st i = Some (st', b) \<Longrightarrow> confined i (own st i) st st'"
proof -
  assume "nr_rlc_activate_srb0 st i = Some (st', b)"
  then have "map_option fst (nr_rlc_activate_srb0 st i) = Some st'" by simp
  then show ?thesis unfolding nr_rlc_activate_srb0_def with_ue_map(1)
    by (rule with_ue_confined) (auto simp: Let_def confined_refl split: if_splits intro!: set_ue_own dest!: keep_id)
qed

lemma test_reestablishment_confined: "nr_rlc_test_trigger_reestablishment st i = Some st' \<Longrightarrow> confined i (own st i) st st'"
  unfolding nr_rlc_test_trigger_reestablishment_def
  by (erule with_ue_confined) (auto simp: Let_def intro!: set_ue_own split: option.splits)

lemma mac_calls_confined:
  "nr_mac_rlc_data_ind st i data = Some st' \<Longrightarrow> confined i (own st i) st st'"
  "nr_mac_rlc_multi_data_req st i ch b n = Some (st', pdus) \<Longrightarrow> confined i (own st i) st st'"
  "nr_mac_rlc_status_ind st i chs = Some (st', ns) \<Longrightarrow> confined i (own st i) st st'"
proof -
  show "nr_mac_rlc_data_ind st i data = Some st' \<Longrightarrow> confined i (own st i) st st'"
    unfolding nr_mac_rlc_data_ind_def by (erule with_ue_confined) (rule data_ind_confined)
  show "confined i (own st i) st st'" if "nr_mac_rlc_multi_data_req st i ch b n = Some (st', pdus)"
  proof -
    have "map_option fst (nr_mac_rlc_multi_data_req st i ch b n) = Some st'" using that by simp
    then show ?thesis unfolding nr_mac_rlc_multi_data_req_def with_ue_map(1)
      by (rule with_ue_confined) (auto intro: channel_entity_confined)
  qed
  show "confined i (own st i) st st'" if "nr_mac_rlc_status_ind st i chs = Some (st', ns)"
  proof -
    have "map_option fst (nr_mac_rlc_status_ind st i chs) = Some st'" using that by simp
    then show ?thesis unfolding nr_mac_rlc_status_ind_def with_ue_map(1)
      by (rule with_ue_confined) (auto intro: status_ind_confined)
  qed
qed

lemma srb_recv_sdu_confined: "nr_rlc_srb_recv_sdu st i ch sdu = Some st' \<Longrightarrow> confined i (own st i) st st'"
  unfolding nr_rlc_srb_recv_sdu_def by (erule with_ue_confined) (auto split: if_splits dest: on_entity_confined(1))

lemma release_confined: "nr_rlc_release_entity st i ch = Some st' \<Longrightarrow> confined i (own st i) st st'"
  unfolding nr_rlc_release_entity_def
  by (erule with_ue_confined) (auto split: if_splits intro!: set_ue_own dest!: keep_id)

text \<open>Queries create the UE at most.\<close>

lemma query_confined:
  assumes "r = Some st'" and "r = with_ue st i (\<lambda>st k. g st k)" and "\<And>st1 k st'. g st1 k = Some st' \<Longrightarrow> st' = st1"
  shows "confined i (own st i) st st'"
  using assms(1) unfolding assms(2) by (rule with_ue_confined) (auto dest: assms(3) simp: confined_refl)

lemma queries_confined:
  "map_option fst (nr_rlc_get_available_tx_space st i ch) = Some st' \<Longrightarrow> confined i (own st i) st st'"
  "map_option fst (nr_rlc_tx_list_occupancy st i ch) = Some st' \<Longrightarrow> confined i (own st i) st st'"
  "map_option fst (nr_rlc_get_statistics st i srb rb) = Some st' \<Longrightarrow> confined i (own st i) st st'"
  "Some (fst (nr_rlc_get_lcid_from_rb st i srb rb)) = Some st' \<Longrightarrow> confined i (own st i) st st'"
  "Some (nr_rlc_set_rlf_handler st i h) = Some st' \<Longrightarrow> confined i (own st i) st st'"
proof -
  show "map_option fst (nr_rlc_get_available_tx_space st i ch) = Some st' \<Longrightarrow> confined i (own st i) st st'"
    by (erule query_confined, unfold nr_rlc_get_available_tx_space_def with_ue_map(1), rule refl) auto
  show "map_option fst (nr_rlc_tx_list_occupancy st i ch) = Some st' \<Longrightarrow> confined i (own st i) st st'"
    by (erule query_confined, unfold nr_rlc_tx_list_occupancy_def with_ue_map(1), rule refl) auto
  show "map_option fst (nr_rlc_get_statistics st i srb rb) = Some st' \<Longrightarrow> confined i (own st i) st st'"
    by (erule query_confined, unfold nr_rlc_get_statistics_def with_ue_map(1), rule refl) (auto split: option.splits)
  show "Some (fst (nr_rlc_get_lcid_from_rb st i srb rb)) = Some st' \<Longrightarrow> confined i (own st i) st st'"
    by (erule query_confined, unfold nr_rlc_get_lcid_from_rb_def with_ue_map(2) [where h' = fst] with_ue_map(2) [where h' = Some], rule refl) auto
  assume "Some (nr_rlc_set_rlf_handler st i h) = Some st'"
  then show "confined i (own st i) st st'" unfolding nr_rlc_set_rlf_handler_def with_ue_map(2) [where h' = Some]
    by (rule with_ue_confined) (auto intro!: set_ue_own)
qed

lemma query_results_confined:
  "nr_rlc_get_available_tx_space st i ch = Some (st', n) \<Longrightarrow> confined i (own st i) st st'"
  "nr_rlc_tx_list_occupancy st i ch = Some (st', n) \<Longrightarrow> confined i (own st i) st st'"
  "nr_rlc_get_statistics st i srb rb = Some (st', occ) \<Longrightarrow> confined i (own st i) st st'"
  using queries_confined(1) [of st i ch st'] queries_confined(2) [of st i ch st'] queries_confined(3) [of st i srb rb st'] by simp_all

lemma remove_confined: "confined i (own st i) st (nr_rlc_remove_ue st i)"
  by (simp add: confined_def nr_rlc_remove_ue_def remove_ue_find new_upcalls_refl)

lemmas calls_confined = mac_calls_confined mac_data_req_confined data_req_confined srb_recv_sdu_confined queries_confined
  query_results_confined release_confined reestablish_confined reconfigure_confined add_srb_confined add_drb_confined activate_srb0_confined
  remove_confined test_reestablishment_confined

lemma call_confined:
  assumes "rlc_call_step st c = Some st'" and "call_ues c = [i]"
  shows "confined i (own st i) st st'"
  using assms by (cases c) (auto intro: calls_confined)

section \<open>Isolation\<close>

lemma update_id_others:
  assumes "j \<noteq> i" and "j \<noteq> i'"
  shows "find_ue (rlc_ue_list (nr_rlc_update_id st i i')) j = find_ue (rlc_ue_list st) j"
proof -
  have *: "find_ue (l[k := u]) j = find_ue l j" if "ue_id (l ! k) \<noteq> j" "ue_id u \<noteq> j" for l k u
    using that
  proof (induction l arbitrary: k)
    case (Cons v l)
    then show ?case by (cases k) auto
  qed simp
  have "(\<lambda>st'. find_ue (rlc_ue_list st') j = find_ue (rlc_ue_list st) j) (nr_rlc_update_id st i i')"
    unfolding nr_rlc_update_id_def
  proof (rule with_ue_rule [where z = None])
    fix st1 k
    assume a: "at_ue st1 i (srb0_id (ue_or_new (rlc_ue_list st) i)) k" "confined i None st st1"
    have "ue_id (rlc_ue_list st1 ! k) \<noteq> j" using at_ue_id [OF a(1)] assms by simp
    moreover have "find_ue (rlc_ue_list st1) j = find_ue (rlc_ue_list st) j" using a(2) assms by (simp add: confined_def)
    ultimately show "find_ue (rlc_ue_list (let ue = (rlc_ue_list st1 ! k)\<lparr>ue_id := i'\<rparr>
        in set_ue st1 k (case ue_srb ue ! 0 of None \<Rightarrow> ue | Some e \<Rightarrow> put_slot ue (Slot_srb 0) (ent_reestablishment e)))) j = find_ue (rlc_ue_list st) j"
      using assms by (simp add: Let_def set_ue_def * split: option.splits)
  qed
  then show ?thesis .
qed

lemma update_id_frame: "rlc_upcalls (nr_rlc_update_id st i i') = rlc_upcalls st" "rlc_mode (nr_rlc_update_id st i i') = rlc_mode st"
  "rlc_du2cu (nr_rlc_update_id st i i') = rlc_du2cu st"
  by (simp_all add: nr_rlc_update_id_def with_ue_def Let_def set_ue_def split_beta)

lemma call_isolated:
  assumes s: "rlc_call_step st c = Some st'"
  shows "j \<notin> set (call_ues c) \<Longrightarrow> find_ue (rlc_ue_list st') j = find_ue (rlc_ue_list st) j"
    and "\<exists>ups. rlc_upcalls st' = rlc_upcalls st @ ups \<and>
      (\<forall>up\<in>set ups. \<exists>i\<in>set (call_ues c). upcall_of (rlc_mode st) (rlc_du2cu st) i (own st i) up)"
    and "rlc_mode st' = rlc_mode st" "rlc_du2cu st' = rlc_du2cu st"
proof -
  consider (one) i where "call_ues c = [i]" | (upd) i i' where "c = Update_id i i'" | (tick) "c = Ms_tick" by (cases c) auto
  note kinds = this
  show "j \<notin> set (call_ues c) \<Longrightarrow> find_ue (rlc_ue_list st') j = find_ue (rlc_ue_list st) j"
    using kinds s by cases (auto dest: call_confined simp: confined_def update_id_others nr_rlc_ms_tick_def)
  show "rlc_mode st' = rlc_mode st" "rlc_du2cu st' = rlc_du2cu st"
    using kinds s by (cases; auto dest: call_confined simp: confined_def update_id_frame nr_rlc_ms_tick_def)+
  show "\<exists>ups. rlc_upcalls st' = rlc_upcalls st @ ups \<and>
      (\<forall>up\<in>set ups. \<exists>i\<in>set (call_ues c). upcall_of (rlc_mode st) (rlc_du2cu st) i (own st i) up)"
    using kinds
  proof cases
    case (one i)
    then show ?thesis using call_confined [OF s one] by (auto simp: confined_def new_upcalls_def list_all_iff)
  qed (use s in \<open>auto simp: update_id_frame nr_rlc_ms_tick_def\<close>)
qed

end
