(* ===== verification/Rlc_Api_Invariant.thy ===== *)
theory Rlc_Api_Invariant
  imports Rlc_Api_Isolation
begin

text \<open>
  The tables of the RLC interface stay well-formed: SRB 0 in transparent mode, the other
  SRBs in acknowledged mode, no DRB in transparent mode, and every logical channel mapped to a bearer that exists in the tables.
  The identifiers of UEs stay unique under every call but one: \<^verbatim>\<open>nr_rlc_update_id\<close> does not look whether the new
  identifier is in use.
\<close>

section \<open>Well-formed tables\<close>

definition rb_entity_ok :: "nr_rlc_mode list \<Rightarrow> nr_rlc_entity option \<Rightarrow> bool" where
  "rb_entity_ok modes x \<longleftrightarrow> (case x of None \<Rightarrow> True | Some e \<Rightarrow> ent_mode e \<in> set modes)"

fun lcid_ok :: "nr_lcid_rb \<Rightarrow> bool" where
  "lcid_ok Lcid_none \<longleftrightarrow> True"
| "lcid_ok (Lcid_srb i) \<longleftrightarrow> 1 \<le> i \<and> i \<le> 3"
| "lcid_ok (Lcid_drb i) \<longleftrightarrow> 1 \<le> i \<and> i \<le> int max_drbs_per_ue"

definition ue_wf :: "nr_rlc_ue \<Rightarrow> bool" where
  "ue_wf ue \<longleftrightarrow> length (ue_srb ue) = 3 \<and> length (ue_drb ue) = max_drbs_per_ue \<and> length (ue_lcid2rb ue) = 32 \<and>
     rb_entity_ok [NR_RLC_TM] (map_option fst (ue_srb0 ue)) \<and> list_all (rb_entity_ok [NR_RLC_AM]) (ue_srb ue) \<and>
     list_all (rb_entity_ok [NR_RLC_AM, NR_RLC_UM]) (ue_drb ue) \<and> list_all lcid_ok (ue_lcid2rb ue)"

text \<open>With \<open>u\<close> the identifiers of UEs are also unique.\<close>

definition rlc_wf :: "bool \<Rightarrow> nr_rlc_state \<Rightarrow> bool" where
  "rlc_wf u st \<longleftrightarrow> list_all ue_wf (rlc_ue_list st) \<and> (u \<longrightarrow> distinct (map ue_id (rlc_ue_list st)))"

lemma list_all_update: "list_all P l \<Longrightarrow> k < length l \<longrightarrow> P x \<Longrightarrow> list_all P (l[k := x])"
proof (cases "k < length l")
  case True
  then show "list_all P l \<Longrightarrow> k < length l \<longrightarrow> P x \<Longrightarrow> list_all P (l[k := x])"
    using set_update_subset_insert [of l k x] by (auto simp: list_all_iff)
qed (simp add: not_less list_update_beyond)

lemma zero_ue_wf: "ue_wf (zero_ue i)"
  by (simp add: ue_wf_def zero_ue_def rb_entity_ok_def list_all_iff)

lemma put_slot_wf:
  assumes "ue_wf ue" and "slot_entity ue rb = Some e" and "ent_mode e' = ent_mode e"
  shows "ue_wf (put_slot ue rb e')"
proof (cases rb)
  case Slot_srb0
  then show ?thesis using assms by (auto simp: ue_wf_def rb_entity_ok_def)
next
  case (Slot_srb k)
  then have "rb_entity_ok [NR_RLC_AM] (Some e')" if "k < length (ue_srb ue)"
    using assms that by (force simp: ue_wf_def rb_entity_ok_def list_all_length)
  then show ?thesis using assms Slot_srb by (simp add: ue_wf_def list_all_update)
next
  case (Slot_drb k)
  then have "rb_entity_ok [NR_RLC_AM, NR_RLC_UM] (Some e')" if "k < length (ue_drb ue)"
    using assms that by (force simp: ue_wf_def rb_entity_ok_def list_all_length)
  then show ?thesis using assms Slot_drb by (simp add: ue_wf_def list_all_update)
qed

lemma clear_slot_wf: "ue_wf ue \<Longrightarrow> ue_wf (clear_slot ue rb)"
  by (cases rb) (simp_all add: ue_wf_def list_all_update rb_entity_ok_def)

lemma put_id_wf: "ue_wf ue \<Longrightarrow> ue_wf (ue\<lparr>ue_id := i\<rparr>)" "ue_wf ue \<Longrightarrow> ue_wf (ue\<lparr>ue_rlf_handler := h\<rparr>)"
  by (simp_all add: ue_wf_def)

lemma map_lcid_wf: "ue_wf ue \<Longrightarrow> lcid_ok rb \<Longrightarrow> map_lcid ue lcid rb = Some ue' \<Longrightarrow> ue_wf ue'"
  by (auto simp: map_lcid_def ue_wf_def list_all_update split: if_splits)

lemma add_srb_wf: "ue_wf ue \<Longrightarrow> ent_mode (fst e) = (if srb = 0 then NR_RLC_TM else NR_RLC_AM) \<Longrightarrow>
  nr_rlc_ue_add_srb_rlc_entity ue srb e = Some ue' \<Longrightarrow> ue_wf ue'"
  by (auto simp: nr_rlc_ue_add_srb_rlc_entity_def ue_wf_def rb_entity_ok_def Let_def split: if_splits intro!: list_all_update)

lemma add_drb_wf: "ue_wf ue \<Longrightarrow> ent_mode e \<noteq> NR_RLC_TM \<Longrightarrow> nr_rlc_ue_add_drb_rlc_entity ue drb e = Some ue' \<Longrightarrow> ue_wf ue'"
  by (cases e) (auto simp: nr_rlc_ue_add_drb_rlc_entity_def ue_wf_def rb_entity_ok_def Let_def split: if_splits intro!: list_all_update)

section \<open>States\<close>

lemma set_ue_wf:
  assumes "rlc_wf u st" and "k < length (rlc_ue_list st)" and "ue_wf ue" and "ue_id ue = ue_id (rlc_ue_list st ! k)"
  shows "rlc_wf u (set_ue st k ue)"
proof -
  have "map ue_id ((rlc_ue_list st)[k := ue]) = map ue_id (rlc_ue_list st)"
    using assms(2,4) by (simp add: map_update list_update_same_conv)
  then show ?thesis using assms by (simp add: rlc_wf_def set_ue_def list_all_update)
qed

lemma nth_wf: "rlc_wf u st \<Longrightarrow> k < length (rlc_ue_list st) \<Longrightarrow> ue_wf (rlc_ue_list st ! k)"
  by (simp add: rlc_wf_def list_all_length)

lemma position_absent: "ue_position l i = length l \<Longrightarrow> i \<notin> ue_id ` set l"
  by (induction l) (auto split: if_splits)

lemma with_ue_wf:
  assumes r: "with_ue st i f = Some st'" and wf: "rlc_wf u st"
    and f: "\<And>st1 k. rlc_wf u st1 \<Longrightarrow> k < length (rlc_ue_list st1) \<Longrightarrow> ue_id (rlc_ue_list st1 ! k) = i \<Longrightarrow> f st1 k = Some st' \<Longrightarrow> rlc_wf u st'"
  shows "rlc_wf u st'"
proof -
  obtain l k where g: "nr_rlc_manager_get_ue (rlc_ue_list st) i = (l, k)" by (cases "nr_rlc_manager_get_ue (rlc_ue_list st) i")
  have "rlc_wf u (st\<lparr>rlc_ue_list := l\<rparr>)"
    using g wf position_absent [of "rlc_ue_list st" i] zero_ue_wf [of i] ue_position_le [of "rlc_ue_list st" i]
    by (auto simp: nr_rlc_manager_get_ue_def Let_def rlc_wf_def zero_ue_def split: if_splits)
  then show ?thesis using f [of "st\<lparr>rlc_ue_list := l\<rparr>" k] r get_ue(1,2) [OF g] ue_position_id [of l i] by (simp add: with_ue_def g)
qed

lemma on_entity_wf:
  assumes "rlc_wf u st" and "k < length (rlc_ue_list st)" and "on_rlc_entity st k rb f = Some (st', x)"
    and "\<And>e e'. f e = Some (e', x) \<Longrightarrow> ent_mode e' = ent_mode e"
  shows "rlc_wf u st'" and "length (rlc_ue_list st') = length (rlc_ue_list st)"
proof -
  let ?ue = "rlc_ue_list st ! k"
  obtain e e' where e: "slot_entity ?ue rb = Some e" "f e = Some (e', x)" "rlc_ue_list st' = (rlc_ue_list st)[k := put_slot ?ue rb e']"
    by (rule on_entity_elim [OF assms(3)])
  have "rlc_wf u (set_ue st k (put_slot ?ue rb e'))"
    by (rule set_ue_wf [OF assms(1,2) put_slot_wf [OF nth_wf [OF assms(1,2)] e(1) assms(4) [OF e(2)]]]) simp
  then show "rlc_wf u st'" using e(3) by (simp add: rlc_wf_def set_ue_def)
  show "length (rlc_ue_list st') = length (rlc_ue_list st)" using e(3) by simp
qed

text \<open>The operations of an entity keep its mode.\<close>

lemma ent_modes [simp]:
  "ent_set_time e now = Some e' \<Longrightarrow> ent_mode e' = ent_mode e"
  "ent_recv_pdu e b = Some e' \<Longrightarrow> ent_mode e' = ent_mode e"
  "ent_recv_sdu e b i = Some e' \<Longrightarrow> ent_mode e' = ent_mode e"
  "ent_generate_pdu e b = Some (e', pdu) \<Longrightarrow> ent_mode e' = ent_mode e"
  "ent_mode (ent_reestablishment e) = ent_mode e"
  by (cases e; auto split: prod.splits)+

lemma ent_reconfigure_mode: "ent_reconfigure c e = Some e' \<Longrightarrow> ent_mode e' = ent_mode e"
  by (cases "(c, e)" rule: ent_reconfigure.cases) (auto split: Option.bind_splits)

lemma multi_loop_mode: "multi_data_req_loop e b n = Some (e', pdus) \<Longrightarrow> ent_mode e' = ent_mode e"
proof (induction n arbitrary: e b pdus)
  case (Suc n)
  show ?case
  proof (cases "length b \<le> 3")
    case False
    then obtain e1 pdu where g: "ent_generate_pdu e (drop 3 b) = Some (e1, pdu)" using Suc.prems by (auto split: Option.bind_splits)
    show ?thesis
    proof (cases "pdu = []")
      case True
      then show ?thesis using Suc.prems False g by simp
    next
      case F: False
      then obtain pdus' where "multi_data_req_loop e1 (drop (3 + length pdu) b) n = Some (e', pdus')" using Suc.prems False g by auto
      from Suc.IH [OF this] show ?thesis using g by simp
    qed
  qed (use Suc.prems in simp)
qed simp

lemma timed_mode: "timed st f e = Some (e', x) \<Longrightarrow> (\<And>e e'. f e = Some (e', x) \<Longrightarrow> ent_mode e' = ent_mode e) \<Longrightarrow> ent_mode e' = ent_mode e"
  by (auto simp: timed_def split: Option.bind_splits)

lemma data_ind_wf: "data_ind_loop st k data = Some st' \<Longrightarrow> rlc_wf u st \<Longrightarrow> k < length (rlc_ue_list st) \<Longrightarrow> rlc_wf u st'"
proof (induction data arbitrary: st)
  case (Cons d data)
  obtain ch buf where d: "d = (ch, buf)" by (cases d)
  let ?f = "timed st (\<lambda>e. map_option (\<lambda>e. (e, ())) (ent_recv_pdu e buf))"
  obtain s st1 where s: "(case s of None \<Rightarrow> Some (st, ()) | Some rb \<Rightarrow> on_rlc_entity st k rb ?f) = Some (st1, ())"
    "data_ind_loop st1 k data = Some st'" using Cons.prems(1) d by (auto split: Option.bind_splits)
  have m: "ent_mode e' = ent_mode e" if "?f e = Some (e', ())" for e e' using timed_mode [OF that] by auto
  have "rlc_wf u st1 \<and> length (rlc_ue_list st1) = length (rlc_ue_list st)"
    using s(1) on_entity_wf [OF Cons.prems(2,3) _ m] Cons.prems(2) by (auto split: option.splits)
  then show ?case using Cons.IH [OF s(2)] Cons.prems(3) by simp
qed simp

lemma status_ind_wf: "status_ind_loop st k chs = Some (st', ns) \<Longrightarrow> rlc_wf u st \<Longrightarrow> k < length (rlc_ue_list st) \<Longrightarrow> rlc_wf u st'"
proof (induction chs arbitrary: st ns)
  case (Cons ch chs)
  let ?f = "timed st (\<lambda>e. map_option (\<lambda>(status_size, tx_size, retx_size). (e, status_size + retx_size + tx_size)) (ent_buffer_status e 1000000))"
  obtain st1 n ns' where s: "nr_rlc_status_ind1 st k ch = Some (st1, n)" "status_ind_loop st1 k chs = Some (st', ns')"
    using Cons.prems(1) by (auto split: Option.bind_splits)
  have m: "ent_mode e' = ent_mode e" if "?f e = Some (e', n)" for e e' using timed_mode [OF that] by auto
  have "rlc_wf u st1 \<and> length (rlc_ue_list st1) = length (rlc_ue_list st)"
    using s(1) on_entity_wf [OF Cons.prems(2,3) _ m] Cons.prems(2)
    by (auto simp: nr_rlc_status_ind1_def split: option.splits Option.bind_splits)
  then show ?case using Cons.IH [OF s(2)] Cons.prems(3) by simp
qed simp

section \<open>Every call keeps the tables well-formed\<close>

lemma on_entity_fst_wf:
  assumes "map_option fst (on_rlc_entity st k rb f) = Some st'" and "rlc_wf u st" and "k < length (rlc_ue_list st)"
    and "\<And>e e' x. f e = Some (e', x) \<Longrightarrow> ent_mode e' = ent_mode e"
  shows "rlc_wf u st'"
proof -
  obtain x where "on_rlc_entity st k rb f = Some (st', x)" using assms(1) by auto
  then show ?thesis by (rule on_entity_wf(1) [OF assms(2,3)]) (rule assms(4))
qed

lemma channel_entity_wf:
  assumes "map_option fst (Option.bind c (\<lambda>s. case s of None \<Rightarrow> Some (st, d) | Some rb \<Rightarrow> on_rlc_entity st k rb f)) = Some st'"
    and "rlc_wf u st" and "k < length (rlc_ue_list st)" and "\<And>e e' x. f e = Some (e', x) \<Longrightarrow> ent_mode e' = ent_mode e"
  shows "rlc_wf u st'"
proof (cases c)
  case (Some s)
  then show ?thesis using assms on_entity_fst_wf [of st k _ f st'] by (cases s) auto
qed (use assms(1) in simp)

lemma timed_modes:
  "timed st (\<lambda>e. map_option (\<lambda>e. (e, ())) (ent_recv_sdu e b i)) e = Some (e', x) \<Longrightarrow> ent_mode e' = ent_mode e"
  "timed st (\<lambda>e. ent_generate_pdu e b) e = Some (e', y) \<Longrightarrow> ent_mode e' = ent_mode e"
  "timed st (\<lambda>e. multi_data_req_loop e b n) e = Some (e', z) \<Longrightarrow> ent_mode e' = ent_mode e"
  by (auto elim!: timed_mode dest: multi_loop_mode)

lemma mac_calls_wf:
  assumes wf: "rlc_wf u st"
  shows "nr_mac_rlc_data_ind st i data = Some st' \<Longrightarrow> rlc_wf u st'"
    and "map_option fst (nr_mac_rlc_multi_data_req st i ch b n) = Some st' \<Longrightarrow> rlc_wf u st'"
    and "map_option fst (nr_mac_rlc_data_req st i ch b) = Some st' \<Longrightarrow> rlc_wf u st'"
    and "map_option fst (nr_mac_rlc_status_ind st i chs) = Some st' \<Longrightarrow> rlc_wf u st'"
proof -
  show "nr_mac_rlc_data_ind st i data = Some st' \<Longrightarrow> rlc_wf u st'"
    unfolding nr_mac_rlc_data_ind_def by (erule with_ue_wf [OF _ wf]) (rule data_ind_wf)
  show "map_option fst (nr_mac_rlc_multi_data_req st i ch b n) = Some st' \<Longrightarrow> rlc_wf u st'"
    unfolding nr_mac_rlc_multi_data_req_def with_ue_map(1)
    by (erule with_ue_wf [OF _ wf]) (erule channel_entity_wf, assumption+, rule timed_modes(3))
  show "map_option fst (nr_mac_rlc_data_req st i ch b) = Some st' \<Longrightarrow> rlc_wf u st'"
    unfolding nr_mac_rlc_data_req_def with_ue_map(1)
    by (erule with_ue_wf [OF _ wf]) (erule channel_entity_wf, assumption+, rule timed_modes(2))
  show "map_option fst (nr_mac_rlc_status_ind st i chs) = Some st' \<Longrightarrow> rlc_wf u st'"
    unfolding nr_mac_rlc_status_ind_def with_ue_map(1) by (erule with_ue_wf [OF _ wf]) (auto intro: status_ind_wf)
qed

lemma sdu_calls_wf:
  assumes wf: "rlc_wf u st"
  shows "nr_rlc_data_req st i srb rb mui sdu = Some st' \<Longrightarrow> rlc_wf u st'"
    and "nr_rlc_srb_recv_sdu st i ch sdu = Some st' \<Longrightarrow> rlc_wf u st'"
proof -
  show "nr_rlc_data_req st i srb rb mui sdu = Some st' \<Longrightarrow> rlc_wf u st'"
    unfolding nr_rlc_data_req_def
    by (erule with_ue_wf [OF _ wf], simp split: option.splits if_splits)
       (rule on_entity_wf(1); (assumption | erule timed_modes(1)))
  show "nr_rlc_srb_recv_sdu st i ch sdu = Some st' \<Longrightarrow> rlc_wf u st'"
    unfolding nr_rlc_srb_recv_sdu_def
    by (erule with_ue_wf [OF _ wf], simp split: if_splits; rule on_entity_wf(1); (assumption | erule timed_modes(1)))
qed

lemma query_wf:
  assumes wf: "rlc_wf u st" and "r = Some st'" and "r = with_ue st i g" and "\<And>st1 k. g st1 k = Some st' \<Longrightarrow> st' = st1"
  shows "rlc_wf u st'"
  using assms(2) unfolding assms(3) by (rule with_ue_wf [OF _ wf]) (auto dest: assms(4))

lemma queries_wf:
  assumes wf: "rlc_wf u st"
  shows "map_option fst (nr_rlc_get_available_tx_space st i ch) = Some st' \<Longrightarrow> rlc_wf u st'"
    and "map_option fst (nr_rlc_tx_list_occupancy st i ch) = Some st' \<Longrightarrow> rlc_wf u st'"
    and "map_option fst (nr_rlc_get_statistics st i srb rb) = Some st' \<Longrightarrow> rlc_wf u st'"
    and "Some (fst (nr_rlc_get_lcid_from_rb st i srb rb)) = Some st' \<Longrightarrow> rlc_wf u st'"
    and "Some (nr_rlc_set_rlf_handler st i h) = Some st' \<Longrightarrow> rlc_wf u st'"
proof -
  show "map_option fst (nr_rlc_get_available_tx_space st i ch) = Some st' \<Longrightarrow> rlc_wf u st'"
    by (erule query_wf [OF wf], unfold nr_rlc_get_available_tx_space_def with_ue_map(1), rule refl) auto
  show "map_option fst (nr_rlc_tx_list_occupancy st i ch) = Some st' \<Longrightarrow> rlc_wf u st'"
    by (erule query_wf [OF wf], unfold nr_rlc_tx_list_occupancy_def with_ue_map(1), rule refl) auto
  show "map_option fst (nr_rlc_get_statistics st i srb rb) = Some st' \<Longrightarrow> rlc_wf u st'"
    by (erule query_wf [OF wf], unfold nr_rlc_get_statistics_def with_ue_map(1), rule refl) (auto split: option.splits)
  show "Some (fst (nr_rlc_get_lcid_from_rb st i srb rb)) = Some st' \<Longrightarrow> rlc_wf u st'"
    by (erule query_wf [OF wf], unfold nr_rlc_get_lcid_from_rb_def with_ue_map(2) [where h' = fst] with_ue_map(2) [where h' = Some], rule refl) auto
  assume "Some (nr_rlc_set_rlf_handler st i h) = Some st'"
  then show "rlc_wf u st'" unfolding nr_rlc_set_rlf_handler_def with_ue_map(2) [where h' = Some]
    by (rule with_ue_wf [OF _ wf]) (auto intro!: set_ue_wf put_id_wf nth_wf)
qed

lemma new_am_mode: "new_am p n = Some e \<Longrightarrow> ent_mode e = NR_RLC_AM"
  by (auto simp: new_am_def)

lemma add_drb_entity_wf:
  assumes "rlc_wf u st" and "add_drb_entity st i drb c new_e = Some st'" and "\<And>e. new_e = Some e \<Longrightarrow> ent_mode e \<noteq> NR_RLC_TM"
    and "\<And>d. servedRadioBearer c = Some (Served_drb d) \<Longrightarrow> lcid_ok (Lcid_drb d)"
  shows "rlc_wf u st'"
  using assms(2) unfolding add_drb_entity_def
proof (rule with_ue_wf [OF _ assms(1)], goal_cases)
  case (1 st1 k)
  then obtain d ue where d: "servedRadioBearer c = Some (Served_drb d)"
    "map_lcid (rlc_ue_list st1 ! k) (logicalChannelIdentity c) (Lcid_drb d) = Some ue"
    "(if ue_drb ue ! nat (drb - 1) \<noteq> None then Some (set_ue st1 k ue)
      else Option.bind new_e (\<lambda>e. map_option (set_ue st1 k) (nr_rlc_ue_add_drb_rlc_entity ue drb e))) = Some st'"
    by (auto split: option.splits served_bearer.splits Option.bind_splits)
  have ue: "ue_wf ue" "ue_id ue = ue_id (rlc_ue_list st1 ! k)"
    using map_lcid_wf [OF nth_wf [OF 1(1,2)] assms(4) [OF d(1)] d(2)] keep_id(1) [OF d(2)] by auto
  show ?case
  proof (cases "ue_drb ue ! nat (drb - 1) = None")
    case True
    then obtain e ue' where "new_e = Some e" "nr_rlc_ue_add_drb_rlc_entity ue drb e = Some ue'" "st' = set_ue st1 k ue'"
      using d(3) by (auto split: Option.bind_splits)
    then show ?thesis using set_ue_wf [OF 1(1,2)] add_drb_wf [OF ue(1) assms(3)] keep_id(3) ue(2) by auto
  next
    case False
    then have "st' = set_ue st1 k ue" using d(3) by auto
    then show ?thesis using set_ue_wf [OF 1(1,2) ue] by simp
  qed
qed

lemma add_drb_call_wf:
  assumes "rlc_wf u st" and "nr_rlc_add_drb st i drb c = Some st'" and "\<And>d. servedRadioBearer c = Some (Served_drb d) \<Longrightarrow> lcid_ok (Lcid_drb d)"
  shows "rlc_wf u st'"
proof -
  have "\<exists>new_e. add_drb_entity st i drb c new_e = Some st' \<and> (\<forall>e. new_e = Some e \<longrightarrow> ent_mode e \<noteq> NR_RLC_TM)"
    using assms(2) new_am_mode
    by (fastforce simp: nr_rlc_add_drb_def add_drb_am_def add_drb_um_def split: option.splits NR_RLC_Config.splits if_splits Option.bind_splits)
  then show ?thesis using add_drb_entity_wf [OF assms(1) _ _ assms(3)] by blast
qed

lemma add_srb_call_wf:
  assumes "rlc_wf u st" and "nr_rlc_add_srb st i srb c = Some st'" and "\<And>s. servedRadioBearer c = Some (Served_srb s) \<Longrightarrow> lcid_ok (Lcid_srb s)"
  shows "rlc_wf u st'"
proof -
  obtain p n where s: "with_ue st i (\<lambda>st k.
          case servedRadioBearer c of
            Some (Served_srb s) \<Rightarrow>
              Option.bind (map_lcid (rlc_ue_list st ! k) (logicalChannelIdentity c) (Lcid_srb s)) (\<lambda>ue.
                if ue_srb ue ! nat (srb - 1) \<noteq> None then Some (set_ue st k ue)
                else Option.bind (new_am p n) (\<lambda>e.
                       map_option (set_ue st k) (nr_rlc_ue_add_srb_rlc_entity ue srb (e, 0))))
          | _ \<Rightarrow> None) = Some st'" "srb > 0" using assms(2) by (auto simp: nr_rlc_add_srb_def split: if_splits Option.bind_splits)
  show ?thesis using s(1)
  proof (rule with_ue_wf [OF _ assms(1)], goal_cases)
    case (1 st1 k)
    then obtain d ue where d: "servedRadioBearer c = Some (Served_srb d)"
      "map_lcid (rlc_ue_list st1 ! k) (logicalChannelIdentity c) (Lcid_srb d) = Some ue"
      "(if ue_srb ue ! nat (srb - 1) \<noteq> None then Some (set_ue st1 k ue)
        else Option.bind (new_am p n) (\<lambda>e. map_option (set_ue st1 k) (nr_rlc_ue_add_srb_rlc_entity ue srb (e, 0)))) = Some st'"
      by (auto split: option.splits served_bearer.splits Option.bind_splits)
    have ue: "ue_wf ue" "ue_id ue = ue_id (rlc_ue_list st1 ! k)"
      using map_lcid_wf [OF nth_wf [OF 1(1,2)] assms(3) [OF d(1)] d(2)] keep_id(1) [OF d(2)] by auto
    show ?case
    proof (cases "ue_srb ue ! nat (srb - 1) = None")
      case True
      then obtain e ue' where e: "new_am p n = Some e" "nr_rlc_ue_add_srb_rlc_entity ue srb (e, 0) = Some ue'" "st' = set_ue st1 k ue'"
        using d(3) by (auto split: Option.bind_splits)
      have "ue_wf ue'" by (rule add_srb_wf [OF ue(1) _ e(2)]) (use new_am_mode [OF e(1)] s(2) in simp)
      then show ?thesis using set_ue_wf [OF 1(1,2)] keep_id(2) [OF e(2)] ue(2) e(3) by simp
    next
      case False
      then have "st' = set_ue st1 k ue" using d(3) by auto
      then show ?thesis using set_ue_wf [OF 1(1,2) ue] by simp
    qed
  qed
qed

lemma release_wf:
  assumes wf: "rlc_wf u st" and "nr_rlc_release_entity st i ch = Some st'"
  shows "rlc_wf u st'"
  using assms(2) unfolding nr_rlc_release_entity_def
proof (rule with_ue_wf [OF _ wf], goal_cases)
  case (1 st1 k)
  then obtain ue where "st' = set_ue st1 k ue" "ue = rlc_ue_list st1 ! k \<or> (\<exists>rb. ue = clear_slot (rlc_ue_list st1 ! k) rb)"
    by (auto simp: release_rlc_entity_from_lcid_def simp del: clear_slot.simps split: if_splits option.splits)
  then show ?case using set_ue_wf [OF 1(1,2)] clear_slot_wf nth_wf [OF 1(1,2)] by auto
qed

lemma entity_calls_wf:
  assumes wf: "rlc_wf u st"
  shows "nr_rlc_reestablish_entity st i ch = Some st' \<Longrightarrow> rlc_wf u st'"
    and "nr_rlc_reconfigure_entity st i ch c = Some st' \<Longrightarrow> rlc_wf u st'"
proof -
  have r: "ent_mode e' = ent_mode e" if "Some (ent_reestablishment e, ()) = Some (e', x)" for e e' x using that by auto
  have c: "ent_mode e' = ent_mode e" if "map_option (\<lambda>e. (e, ())) (ent_reconfigure c e) = Some (e', x)" for e e' x
    using that ent_reconfigure_mode by auto
  show "nr_rlc_reestablish_entity st i ch = Some st' \<Longrightarrow> rlc_wf u st'"
    unfolding nr_rlc_reestablish_entity_def
    by (erule with_ue_wf [OF _ wf]) (auto split: Option.bind_splits option.splits intro: on_entity_wf(1) [OF _ _ _ r])
  show "nr_rlc_reconfigure_entity st i ch c = Some st' \<Longrightarrow> rlc_wf u st'"
    unfolding nr_rlc_reconfigure_entity_def
    by (erule with_ue_wf [OF _ wf]) (auto split: Option.bind_splits option.splits intro: on_entity_wf(1) [OF _ _ _ c])
qed

lemma activate_srb0_wf:
  assumes wf: "rlc_wf u st" and "map_option fst (nr_rlc_activate_srb0 st i) = Some st'"
  shows "rlc_wf u st'"
  using assms(2) unfolding nr_rlc_activate_srb0_def with_ue_map(1)
  by (rule with_ue_wf [OF _ wf], auto simp: Let_def split: if_splits intro!: set_ue_wf intro: keep_id(2))
     (erule add_srb_wf [rotated 2], simp_all add: nth_wf)

lemma reestablished_wf:
  assumes "ue_wf ue" and "slot_entity ue rb = Some e"
  shows "ue_wf (put_slot ue rb (ent_reestablishment e))"
  using put_slot_wf [OF assms] by simp

lemma test_reestablishment_wf:
  assumes wf: "rlc_wf u st" and "nr_rlc_test_trigger_reestablishment st i = Some st'"
  shows "rlc_wf u st'"
  using assms(2) unfolding nr_rlc_test_trigger_reestablishment_def
  by (rule with_ue_wf [OF _ wf])
     (auto simp: Let_def simp del: put_slot.simps split: option.splits intro!: set_ue_wf reestablished_wf nth_wf)

lemma remove_wf: "rlc_wf u st \<Longrightarrow> rlc_wf u (nr_rlc_remove_ue st i)"
proof -
  assume wf: "rlc_wf u st"
  have "distinct (take k (map ue_id l) @ drop (Suc k) (map ue_id l))" if "distinct (map ue_id l)" for k and l :: "nr_rlc_ue list"
    using that set_take_disj_set_drop_if_distinct [of "map ue_id l" k "Suc k"] by simp
  then show ?thesis using wf
    by (auto simp: rlc_wf_def nr_rlc_remove_ue_def nr_rlc_manager_remove_ue_def Let_def list_all_iff take_map drop_map dest: in_set_takeD in_set_dropD)
qed

lemma update_id_wf:
  assumes wf: "rlc_wf u st" and "u \<longrightarrow> j = i \<or> find_ue (rlc_ue_list st) j = None"
  shows "rlc_wf u (nr_rlc_update_id st i j)"
proof -
  obtain l k where g: "nr_rlc_manager_get_ue (rlc_ue_list st) i = (l, k)" by (cases "nr_rlc_manager_get_ue (rlc_ue_list st) i")
  note u = get_ue [OF g]
  have "Some (st\<lparr>rlc_ue_list := l\<rparr>) = with_ue st i (\<lambda>st k. Some st)" by (simp add: with_ue_def g)
  then have w: "rlc_wf u (st\<lparr>rlc_ue_list := l\<rparr>)" by (rule with_ue_wf [OF sym wf]) simp
  have id: "ue_id (l ! k) = i" using ue_position_id u(1,2) by simp
  have "find_ue l j = None \<or> j = i" if u using u(4) [of j] assms(2) that by auto
  then have "j \<notin> ue_id ` set l \<or> j = i" if u using that by (auto simp: find_ue_def find_None_iff)
  then have d: "u \<longrightarrow> distinct (map ue_id (l[k := ue]))" if "ue_id ue = j" for ue
    using w id u(2) that by (auto simp: rlc_wf_def map_update list_update_same_conv intro!: distinct_list_update)
  have "ue_wf ((l ! k)\<lparr>ue_id := j\<rparr>)" using w u(2) by (simp add: put_id_wf rlc_wf_def list_all_length)
  then have "ue_wf (case ue_srb (l ! k) ! 0 of None \<Rightarrow> (l ! k)\<lparr>ue_id := j\<rparr> | Some e \<Rightarrow> put_slot ((l ! k)\<lparr>ue_id := j\<rparr>) (Slot_srb 0) (ent_reestablishment e))"
    by (auto split: option.splits simp del: put_slot.simps intro!: reestablished_wf)
  then show ?thesis using w d
    by (auto simp: nr_rlc_update_id_def with_ue_def g Let_def set_ue_def rlc_wf_def simp del: put_slot.simps intro!: list_all_update split: option.splits)
qed

text \<open>
  Moving a UE to an identifier that another one has leaves two contexts with this identifier.
\<close>

lemma update_id_duplicates:
  assumes "j \<noteq> i" and "find_ue (rlc_ue_list st) j \<noteq> None"
  shows "\<not> distinct (map ue_id (rlc_ue_list (nr_rlc_update_id st i j)))"
proof -
  obtain l k where g: "nr_rlc_manager_get_ue (rlc_ue_list st) i = (l, k)" by (cases "nr_rlc_manager_get_ue (rlc_ue_list st) i")
  note u = get_ue [OF g]
  obtain ue where ue: "rlc_ue_list (nr_rlc_update_id st i j) = l[k := ue]" "ue_id ue = j"
    by (auto simp: nr_rlc_update_id_def with_ue_def g Let_def set_ue_def split: option.splits)
  have "find_ue l j \<noteq> None" using u(4) [of j] assms by auto
  then obtain m where m: "m < length l" "ue_id (l ! m) = j" by (auto simp: find_ue_def find_None_iff in_set_conv_nth)
  have "ue_id (l ! k) = i" using ue_position_id u(1,2) by simp
  then have "m \<noteq> k" using m(2) assms(1) by auto
  then have "m \<noteq> k \<and> map ue_id (l[k := ue]) ! m = map ue_id (l[k := ue]) ! k" using m u(2) ue(2) by simp
  then show ?thesis using m(1) u(2) unfolding ue(1) by (metis distinct_conv_nth length_list_update length_map)
qed

text \<open>
  The identities of bearers are those of the ASN.1 of RRC (SRB 1 to 3, DRB 1 to 32). Nothing else is asked
  of a call.
\<close>

definition served_ok :: "served_bearer option \<Rightarrow> bool" where
  "served_ok b \<longleftrightarrow> (case b of None \<Rightarrow> True | Some (Served_srb s) \<Rightarrow> lcid_ok (Lcid_srb s) | Some (Served_drb d) \<Rightarrow> lcid_ok (Lcid_drb d))"

fun call_ok :: "rlc_call \<Rightarrow> bool" where
  "call_ok (Add_srb _ _ c) \<longleftrightarrow> served_ok (servedRadioBearer c)"
| "call_ok (Add_drb _ _ c) \<longleftrightarrow> served_ok (servedRadioBearer c)"
| "call_ok _ \<longleftrightarrow> True"

text \<open>The call that moves a UE to the identifier of another one.\<close>

fun reuses_id :: "nr_rlc_state \<Rightarrow> rlc_call \<Rightarrow> bool" where
  "reuses_id st (Update_id i j) \<longleftrightarrow> j \<noteq> i \<and> find_ue (rlc_ue_list st) j \<noteq> None"
| "reuses_id st _ \<longleftrightarrow> False"

lemma call_wf:
  assumes wf: "rlc_wf u st" and s: "rlc_call_step st c = Some st'" and "call_ok c" and "u \<longrightarrow> \<not> reuses_id st c"
  shows "rlc_wf u st'"
proof (cases c)
  case (Add_srb i srb cfg)
  then have "lcid_ok (Lcid_srb d)" if "servedRadioBearer cfg = Some (Served_srb d)" for d
    using that assms(3) by (simp add: served_ok_def)
  then show ?thesis using Add_srb s by (intro add_srb_call_wf [OF wf, of i srb cfg st']) simp_all
next
  case (Add_drb i drb cfg)
  then have "lcid_ok (Lcid_drb d)" if "servedRadioBearer cfg = Some (Served_drb d)" for d
    using that assms(3) by (simp add: served_ok_def)
  then show ?thesis using Add_drb s by (intro add_drb_call_wf [OF wf, of i drb cfg st']) simp_all
next
  case (Update_id i j)
  then show ?thesis using update_id_wf [OF wf, of j i] s assms(4) by auto
next
  case Ms_tick
  then show ?thesis using wf s by (auto simp: nr_rlc_ms_tick_def rlc_wf_def)
next
  case (Remove_ue i)
  then show ?thesis using remove_wf [OF wf] s by auto
qed (use s mac_calls_wf [OF wf] sdu_calls_wf [OF wf] queries_wf [OF wf] release_wf [OF wf] entity_calls_wf [OF wf]
      activate_srb0_wf [OF wf] test_reestablishment_wf [OF wf] in \<open>simp_all only: rlc_call_step.simps\<close>)

inductive rlc_reachable :: "nr_rlc_state \<Rightarrow> bool" where
  init: "rlc_reachable (new_nr_rlc_ue_manager mode)"
| call: "rlc_reachable st \<Longrightarrow> call_ok c \<Longrightarrow> rlc_call_step st c = Some st' \<Longrightarrow> rlc_reachable st'"
| f1_ids: "rlc_reachable st \<Longrightarrow> rlc_reachable (st\<lparr>rlc_du2cu := f\<rparr>)"

lemma rlc_reachable_wf: "rlc_reachable st \<Longrightarrow> rlc_wf False st"
proof (induction rule: rlc_reachable.induct)
  case (call st c st')
  then show ?case using call_wf [of False] by blast
qed (simp_all add: rlc_wf_def new_nr_rlc_ue_manager_def)

lemma call_ids:
  assumes "rlc_reachable st" and "call_ok c" and "rlc_call_step st c = Some st'" and "distinct (map ue_id (rlc_ue_list st))"
  shows "distinct (map ue_id (rlc_ue_list st')) \<longleftrightarrow> \<not> reuses_id st c"
proof (cases "reuses_id st c")
  case True
  then obtain i j where "c = Update_id i j" "j \<noteq> i" "find_ue (rlc_ue_list st) j \<noteq> None" by (auto elim: reuses_id.elims)
  then show ?thesis using update_id_duplicates [of j i st] assms(3) by auto
next
  case False
  have "rlc_wf True st" using rlc_reachable_wf [OF assms(1)] assms(4) by (simp add: rlc_wf_def)
  from call_wf [OF this assms(3,2)] False show ?thesis by (simp add: rlc_wf_def)
qed

section \<open>Looking up a channel\<close>

lemma lcid_slot_wf:
  assumes "ue_wf ue" and "ch \<noteq> 0" "ch \<le> 32"
  obtains s where "lcid_slot ue ch = Some s" and "\<And>rb. s = Some rb \<Longrightarrow> (\<exists>k<3. rb = Slot_srb k) \<or> (\<exists>k<max_drbs_per_ue. rb = Slot_drb k)"
proof -
  have "lcid_ok (ue_lcid2rb ue ! (ch - 1))" using assms by (simp add: ue_wf_def list_all_length)
  then show thesis using assms(2,3) that by (cases "ue_lcid2rb ue ! (ch - 1)") (auto simp: lcid_slot_def)
qed

lemma get_entity_wf:
  assumes "ue_wf ue" and "ch \<le> 32"
  obtains "get_rlc_entity_from_lcid ue ch = Some None"
  | rb e where "get_rlc_entity_from_lcid ue ch = Some (Some rb)" and "slot_entity ue rb = Some e" and "rb = Slot_srb0 \<longleftrightarrow> ch = 0"
      and "rb = Slot_srb0 \<longleftrightarrow> ent_mode e = NR_RLC_TM"
proof (cases "ch = 0")
  case True
  then show thesis using that assms(1) by (cases "ue_srb0 ue") (auto simp: get_rlc_entity_from_lcid_def ue_wf_def rb_entity_ok_def)
next
  case False
  obtain s where s: "lcid_slot ue ch = Some s" "\<And>rb. s = Some rb \<Longrightarrow> (\<exists>k<3. rb = Slot_srb k) \<or> (\<exists>k<max_drbs_per_ue. rb = Slot_drb k)"
    using lcid_slot_wf [OF assms(1) False assms(2)] by blast
  show thesis
  proof (cases "Option.bind s (slot_entity ue)")
    case None
    then have "get_rlc_entity_from_lcid ue ch = Some None" using s(1) False by (cases s) (auto simp: get_rlc_entity_from_lcid_def)
    then show thesis by (rule that(1))
  next
    case (Some e)
    then obtain rb where rb: "s = Some rb" "slot_entity ue rb = Some e" by (cases s) auto
    have "ent_mode e \<noteq> NR_RLC_TM \<and> rb \<noteq> Slot_srb0"
      using s(2) [OF rb(1)]
    proof (elim disjE exE conjE)
      fix k :: nat
      assume k: "k < 3" "rb = Slot_srb k"
      then have "rb_entity_ok [NR_RLC_AM] (ue_srb ue ! k)" using assms(1) by (simp add: ue_wf_def list_all_length)
      then show ?thesis using k(2) rb(2) by (simp add: rb_entity_ok_def)
    next
      fix k
      assume k: "k < max_drbs_per_ue" "rb = Slot_drb k"
      then have "rb_entity_ok [NR_RLC_AM, NR_RLC_UM] (ue_drb ue ! k)" using assms(1) by (simp add: ue_wf_def list_all_length)
      then show ?thesis using k(2) rb(2) by (auto simp: rb_entity_ok_def)
    qed
    then show thesis using that(2) [of rb e] s(1) rb False by (simp add: get_rlc_entity_from_lcid_def)
  qed
qed

end
