(* ===== verification/Rlc_Api_Link.thy ===== *)
theory Rlc_Api_Link
  imports Rlc_Api_Invariant Rlc_Um_Transfer
begin

text \<open>
  A data radio bearer in unacknowledged mode between two nodes, through the RLC interface: PDCP gives SDUs to
  the sender (\<^verbatim>\<open>nr_rlc_data_req\<close>), MAC takes PDUs from it (\<^verbatim>\<open>nr_mac_rlc_data_req\<close>) and hands them to the receiver
  (\<^verbatim>\<open>nr_mac_rlc_data_ind\<close>), while both nodes serve any other calls for other UEs and their clocks run
  independently.
\<close>

section \<open>What the upper layer gets from a bearer\<close>

definition drb_upcall :: "nr_rlc_state \<Rightarrow> int \<Rightarrow> int \<Rightarrow> u8 list \<Rightarrow> rlc_upcall" where
  "drb_upcall st i d buf =
     (if rlc_mode st = Split_gnb then Gtpu_send i d buf
      else if rlc_mode st = Mono_gnb then Pdcp_data_ind (the (rlc_du2cu st i)) True False d buf
      else Pdcp_data_ind i False False d buf)"

fun drb_sdu :: "(int \<Rightarrow> int option) \<Rightarrow> int \<Rightarrow> int \<Rightarrow> rlc_upcall \<Rightarrow> u8 list list" where
  "drb_sdu du2cu i d (Gtpu_send j r b) = (if j = i \<and> r = d then [b] else [])"
| "drb_sdu du2cu i d (Pdcp_data_ind c g s r b) = (if \<not> s \<and> r = d \<and> (if g then du2cu i = Some c else c = i) then [b] else [])"
| "drb_sdu du2cu i d _ = []"

definition drb_sdus :: "nr_rlc_state \<Rightarrow> int \<Rightarrow> int \<Rightarrow> u8 list list" where
  "drb_sdus st i d = concat (map (drb_sdu (rlc_du2cu st) i d) (rlc_upcalls st))"

text \<open>The node can hand SDUs of the UE to the upper layer, and no other UE has the same identifier there.\<close>

definition deliverable :: "nr_rlc_state \<Rightarrow> int \<Rightarrow> bool" where
  "deliverable st i \<longleftrightarrow> (rlc_mode st \<noteq> Mode_ue \<longrightarrow> rlc_du2cu st i \<noteq> None \<and> (\<forall>j. rlc_du2cu st j = rlc_du2cu st i \<longrightarrow> j = i))"

lemma drb_sdu_upcall: "deliverable st i \<Longrightarrow> drb_sdu (rlc_du2cu st) i d (drb_upcall st i d buf) = [buf]"
  by (cases "rlc_mode st") (auto simp: drb_upcall_def deliverable_def)

lemma drb_sdu_other:
  assumes "deliverable st i" and "upcall_of (rlc_mode st) (rlc_du2cu st) j z up" and "j \<noteq> i"
  shows "drb_sdu (rlc_du2cu st) i d up = []"
proof -
  have "rlc_mode st \<noteq> Mode_ue \<longrightarrow> rlc_du2cu st j \<noteq> rlc_du2cu st i" using assms(1,3) unfolding deliverable_def by blast
  then show ?thesis using assms(2,3) by (cases up) (auto simp: nr_rlc_manager_get_gnb_flag_def)
qed

lemma deliver_drb:
  assumes "deliverable st i" and "ue_id ue = i" and "1 \<le> d"
  shows "deliver_all st ue (Slot_drb (nat (d - 1))) bufs = Some (st\<lparr>rlc_upcalls := rlc_upcalls st @ map (drb_upcall st i d) bufs\<rparr>)"
  using assms(1)
proof (induction bufs arbitrary: st)
  case (Cons buf bufs)
  let ?st = "st\<lparr>rlc_upcalls := rlc_upcalls st @ [drb_upcall st i d buf]\<rparr>"
  have "rlc_mode st = Mode_ue \<or> (\<exists>x. rlc_du2cu st i = Some x)" using Cons.prems unfolding deliverable_def by blast
  then have "deliver_sdu st ue False d buf = Some ?st"
    using assms(2) by (cases "rlc_mode st")
      (auto simp: deliver_sdu_def Let_def drb_upcall_def nr_rlc_manager_get_gnb_flag_def nr_rlc_manager_rlc_is_split_def)
  moreover have "deliver_all ?st ue (Slot_drb (nat (d - 1))) bufs = Some (?st\<lparr>rlc_upcalls := rlc_upcalls ?st @ map (drb_upcall ?st i d) bufs\<rparr>)"
    by (rule Cons.IH) (use Cons.prems in \<open>simp add: deliverable_def\<close>)
  moreover have "drb_upcall ?st i d = drb_upcall st i d" by (simp add: drb_upcall_def fun_eq_iff)
  ultimately show ?case using assms(3) by simp
qed simp

section \<open>A bearer of a UE\<close>

definition drb_um :: "nr_rlc_state \<Rightarrow> int \<Rightarrow> int \<Rightarrow> nat \<Rightarrow> nr_rlc_entity_um \<Rightarrow> bool" where
  "drb_um st i d c e \<longleftrightarrow> 1 \<le> d \<and> d \<le> int max_drbs_per_ue \<and> 1 \<le> c \<and> c \<le> 32 \<and>
     (\<exists>ue. find_ue (rlc_ue_list st) i = Some ue \<and> length (ue_drb ue) = max_drbs_per_ue \<and>
        ue_lcid2rb ue ! (c - 1) = Lcid_drb d \<and> ue_drb ue ! nat (d - 1) = Some (Um e))"

lemma with_ue_found:
  assumes "find_ue (rlc_ue_list st) i = Some ue"
  shows "with_ue st i f = f st (ue_position (rlc_ue_list st) i)" and "rlc_ue_list st ! ue_position (rlc_ue_list st) i = ue"
    and "ue_position (rlc_ue_list st) i < length (rlc_ue_list st)" and "ue_id ue = i"
proof -
  show p: "ue_position (rlc_ue_list st) i < length (rlc_ue_list st)" "rlc_ue_list st ! ue_position (rlc_ue_list st) i = ue"
    using assms by (auto simp: find_position split: if_splits)
  then show "with_ue st i f = f st (ue_position (rlc_ue_list st) i)" by (simp add: with_ue_def nr_rlc_manager_get_ue_def Let_def)
  show "ue_id ue = i" using ue_position_id p by blast
qed

lemma drb_um_entity:
  assumes "drb_um st i d c e"
  shows "get_rlc_entity_from_lcid (rlc_ue_list st ! ue_position (rlc_ue_list st) i) c = Some (Some (Slot_drb (nat (d - 1))))"
    and "slot_entity (rlc_ue_list st ! ue_position (rlc_ue_list st) i) (Slot_drb (nat (d - 1))) = Some (Um e)"
    and "with_ue st i f = f st (ue_position (rlc_ue_list st) i)"
proof -
  obtain ue where u: "find_ue (rlc_ue_list st) i = Some ue" "ue_lcid2rb ue ! (c - 1) = Lcid_drb d" "ue_drb ue ! nat (d - 1) = Some (Um e)"
    using assms by (auto simp: drb_um_def)
  note f = with_ue_found [OF u(1)]
  show "get_rlc_entity_from_lcid (rlc_ue_list st ! ue_position (rlc_ue_list st) i) c = Some (Some (Slot_drb (nat (d - 1))))"
    "slot_entity (rlc_ue_list st ! ue_position (rlc_ue_list st) i) (Slot_drb (nat (d - 1))) = Some (Um e)"
    using assms u(2,3) unfolding f(2) by (auto simp: get_rlc_entity_from_lcid_def lcid_slot_def drb_um_def)
  show "with_ue st i f = f st (ue_position (rlc_ue_list st) i)" by (rule f(1))
qed

lemma on_drb:
  assumes b: "drb_um st i d c e" and "deliverable st i" and f: "f (Um e) = Some (Um e', x)" and del: "um_delivered e' = um_delivered e @ bufs"
  obtains st' where "on_rlc_entity st (ue_position (rlc_ue_list st) i) (Slot_drb (nat (d - 1))) f = Some (st', x)" and "drb_um st' i d c e'"
    and "deliverable st' i" and "drb_sdus st' i d = drb_sdus st i d @ bufs" and "rlc_current_time st' = rlc_current_time st"
proof -
  let ?k = "ue_position (rlc_ue_list st) i" and ?rb = "Slot_drb (nat (d - 1))"
  obtain ue where u: "find_ue (rlc_ue_list st) i = Some ue" "length (ue_drb ue) = max_drbs_per_ue" "ue_lcid2rb ue ! (c - 1) = Lcid_drb d"
    "ue_drb ue ! nat (d - 1) = Some (Um e)" and d: "1 \<le> d" "d \<le> int max_drbs_per_ue" "1 \<le> c" "c \<le> 32"
    using b by (auto simp: drb_um_def)
  note w = with_ue_found [OF u(1)]
  let ?ue = "put_slot ue ?rb (Um e')"
  let ?st = "st\<lparr>rlc_ue_list := (rlc_ue_list st)[?k := ?ue]\<rparr>"
  have dl: "deliverable ?st i" using assms(2) by (simp add: deliverable_def)
  define st' where "st' = ?st\<lparr>rlc_upcalls := rlc_upcalls st @ map (drb_upcall ?st i d) bufs\<rparr>"
  have "ent_callbacks ?st ue ?rb (Um e) (Um e') = Some st'"
    using deliver_drb [OF dl w(4) d(1), of bufs] del by (simp add: ent_callbacks_def st'_def)
  then have "on_rlc_entity st ?k ?rb f = Some (st', x)" using f u(4) by (simp add: on_rlc_entity_def w(2) Let_def)
  moreover have "find_ue (rlc_ue_list st') i = Some ?ue" using find_update [OF w(3), of ?ue i] w(4) by (simp add: st'_def)
  then have "drb_um st' i d c e'" using u d by (simp add: drb_um_def)
  moreover have "deliverable st' i" using dl by (simp add: deliverable_def st'_def)
  moreover have "drb_sdus st' i d = drb_sdus st i d @ bufs"
    using drb_sdu_upcall [OF dl] by (simp add: drb_sdus_def st'_def comp_def)
  ultimately show thesis using that by (simp add: st'_def)
qed

text \<open>A call for other UEs leaves the bearer as it is.\<close>

lemma other_call_drb:
  assumes "rlc_call_step st cl = Some st'" and "i \<notin> set (call_ues cl)" and "deliverable st i"
  shows "drb_um st' i d c e \<longleftrightarrow> drb_um st i d c e" and "drb_sdus st' i d = drb_sdus st i d" and "deliverable st' i"
proof -
  note c = call_isolated [OF assms(1)]
  show "drb_um st' i d c e \<longleftrightarrow> drb_um st i d c e" using c(1) [OF assms(2)] by (simp add: drb_um_def)
  show "deliverable st' i" using assms(3) c(3,4) by (simp add: deliverable_def)
  obtain ups where u: "rlc_upcalls st' = rlc_upcalls st @ ups"
    "\<And>up. up \<in> set ups \<Longrightarrow> \<exists>j\<in>set (call_ues cl). upcall_of (rlc_mode st) (rlc_du2cu st) j (own st j) up" using c(2) by blast
  have "drb_sdu (rlc_du2cu st) i d up = []" if "up \<in> set ups" for up using u(2) [OF that] drb_sdu_other [OF assms(3)] assms(2) by blast
  then have "concat (map (drb_sdu (rlc_du2cu st) i d) ups) = []" by simp
  then show "drb_sdus st' i d = drb_sdus st i d" using u(1) c(4) by (simp add: drb_sdus_def)
qed

section \<open>The calls for the bearer\<close>

lemma um_set_time_idle: "um_t_reassembly_start e = 0 \<Longrightarrow> nr_rlc_entity_um_set_time e t = Some (e\<lparr>um_t_current := t\<rparr>)"
  by (simp add: nr_rlc_entity_um_set_time_def check_t_reassembly_def)

lemma um_linked_time:
  assumes "um_linked n tx rx"
  shows "nr_rlc_entity_um_set_time tx t = Some (tx\<lparr>um_t_current := t\<rparr>)" and "um_linked n (tx\<lparr>um_t_current := t\<rparr>) rx"
    and "nr_rlc_entity_um_set_time rx t = Some (rx\<lparr>um_t_current := t\<rparr>)" and "um_linked n tx (rx\<lparr>um_t_current := t\<rparr>)"
proof -
  have z: "um_t_reassembly_start tx = 0" "um_t_reassembly_start rx = 0" using assms unfolding um_linked_def tx_state_def rx_state_def by blast+
  show "nr_rlc_entity_um_set_time tx t = Some (tx\<lparr>um_t_current := t\<rparr>)" by (rule um_set_time_idle [OF z(1)])
  show "nr_rlc_entity_um_set_time rx t = Some (rx\<lparr>um_t_current := t\<rparr>)" by (rule um_set_time_idle [OF z(2)])
  show "um_linked n (tx\<lparr>um_t_current := t\<rparr>) rx" using assms by (simp add: um_linked_def rlc_simps)
  show "um_linked n tx (rx\<lparr>um_t_current := t\<rparr>)" using assms by (simp add: um_linked_def rlc_simps)
qed

lemma um_recv_sdu_delivered: "nr_rlc_entity_um_recv_sdu e b i = Some e' \<Longrightarrow> um_delivered e' = um_delivered e"
  by (auto simp: nr_rlc_entity_um_recv_sdu_def Let_def split: if_splits)

lemma um_send_delivered: "um_send_segment e s b = Some (e', pdu) \<Longrightarrow> um_delivered e' = um_delivered e"
  by (auto simp: um_send_segment_def Let_def split: if_splits)

lemma um_generate_delivered: "nr_rlc_entity_um_generate_pdu e b = Some (e', pdu) \<Longrightarrow> um_delivered e' = um_delivered e"
  by (auto simp: nr_rlc_entity_um_generate_pdu_def Let_def um_count_segmentation_def split: if_splits list.splits option.splits prod.splits
      dest: um_send_delivered)

definition api_linked :: "int \<Rightarrow> int \<Rightarrow> nat \<Rightarrow> nat \<Rightarrow> nr_rlc_state \<Rightarrow> nr_rlc_state \<Rightarrow> nr_rlc_entity_um \<Rightarrow> nr_rlc_entity_um \<Rightarrow> bool" where
  "api_linked i d c n A B tx rx \<longleftrightarrow> drb_um A i d c tx \<and> drb_um B i d c rx \<and> um_linked n tx rx \<and> deliverable A i \<and> deliverable B i"

lemma bearer_data_req:
  assumes "api_linked i d c n A B tx rx" and "sdu_size_ok sdu"
  obtains A' tx' where "nr_rlc_data_req A i False d mui sdu = Some A'" and "api_linked i d c n A' B tx' rx"
    and "map sdu_data (um_tx_list tx') = map sdu_data (um_tx_list tx) @ (if int (length sdu) \<le> um_tx_maxsize tx - um_tx_size tx then [sdu] else [])"
proof -
  have a: "drb_um A i d c tx" "um_linked n tx rx" "deliverable A i" "1 \<le> d" "d \<le> int max_drbs_per_ue"
    using assms(1) by (auto simp: api_linked_def drb_um_def)
  let ?tx = "tx\<lparr>um_t_current := rlc_current_time A\<rparr>"
  note t = um_linked_time [OF a(2), of "rlc_current_time A"]
  obtain tx' where s: "nr_rlc_entity_um_recv_sdu ?tx sdu mui = Some tx'" "um_linked n tx' rx"
    "map sdu_data (um_tx_list tx') = map sdu_data (um_tx_list ?tx) @ newly_accepted um_ops ?tx (Sdu_arrival mui sdu)"
    using um_link.arrival [OF t(2) assms(2), of mui] by (auto simp: um_ops_def)
  let ?f = "timed A (\<lambda>e. map_option (\<lambda>e. (e, ())) (ent_recv_sdu e sdu mui))"
  have f: "?f (Um tx) = Some (Um tx', ())" using t(1) s(1) by (simp add: timed_def)
  have del: "um_delivered tx' = um_delivered tx @ []" using um_recv_sdu_delivered [OF s(1)] by simp
  obtain A' where A': "on_rlc_entity A (ue_position (rlc_ue_list A) i) (Slot_drb (nat (d - 1))) ?f = Some (A', ())" "drb_um A' i d c tx'" "deliverable A' i"
    by (rule on_drb [where f = ?f, OF a(1,3) f del])
  have "nr_rlc_data_req A i False d mui sdu = Some A'"
    unfolding nr_rlc_data_req_def drb_um_entity(3) [OF a(1)] using A'(1) drb_um_entity(2) [OF a(1)] a(4,5) by (simp add: req_slot_def)
  moreover have "api_linked i d c n A' B tx' rx" using assms(1) A'(2,3) s(2) by (simp add: api_linked_def)
  ultimately show thesis
    using that s(3) by (simp add: newly_accepted_def um_ops_def nr_rlc_entity_um_available_tx_space_def)
qed

text \<open>A grant, and the reception of the PDU that it gives.\<close>

lemma bearer_grant:
  assumes "api_linked i d c n A B tx rx" and "length buf \<noteq> 2"
  obtains A' pdu B' tx' rx' k where "nr_mac_rlc_data_req A i c buf = Some (A', pdu)"
    and "(if pdu = [] then Some B else nr_mac_rlc_data_ind B i [(c, pdu)]) = Some B'" and "api_linked i d c n A' B' tx' rx'"
    and "um_delivered rx' = um_delivered rx @ take k (map sdu_data (um_tx_list tx))"
    and "map sdu_data (um_tx_list tx') = drop k (map sdu_data (um_tx_list tx))"
    and "drb_sdus B' i d = drb_sdus B i d @ take k (map sdu_data (um_tx_list tx))"
    and "5 \<le> length buf \<Longrightarrow> um_tx_list tx \<noteq> [] \<Longrightarrow> nat (um_tx_size tx') < nat (um_tx_size tx)"
proof -
  have a: "drb_um A i d c tx" "drb_um B i d c rx" "um_linked n tx rx" "deliverable A i" "deliverable B i"
    using assms(1) by (auto simp: api_linked_def)
  let ?tx = "tx\<lparr>um_t_current := rlc_current_time A\<rparr>" and ?rx = "rx\<lparr>um_t_current := rlc_current_time B\<rparr>"
  note t = um_linked_time [OF a(3), of "rlc_current_time A"]
  note t' = um_linked_time [OF t(2), of "rlc_current_time B"]
  obtain tx' rx' k where g: "link_step um_ops (?tx, ?rx) (Tx_grant buf) = Some (tx', rx')" "um_linked n tx' rx'"
    "um_delivered rx' = um_delivered rx @ take k (map sdu_data (um_tx_list tx))" "map sdu_data (um_tx_list tx') = drop k (map sdu_data (um_tx_list tx))"
    "5 \<le> length buf \<Longrightarrow> um_tx_list tx \<noteq> [] \<Longrightarrow> nat (um_tx_size tx') < nat (um_tx_size tx)"
    using um_link.grant [OF t'(4), of buf] assms(2) by auto
  obtain pdu where p: "nr_rlc_entity_um_generate_pdu ?tx buf = Some (tx', pdu)"
    "if pdu = [] then rx' = ?rx else nr_rlc_entity_um_recv_pdu ?rx pdu = Some rx'"
    using g(1) by (auto simp: link_step_def um_ops_def split: Option.bind_splits if_splits prod.splits)
  let ?f = "timed A (\<lambda>e. ent_generate_pdu e buf)"
  have f: "?f (Um tx) = Some (Um tx', pdu)" using t(1) p(1) by (simp add: timed_def)
  have del: "um_delivered tx' = um_delivered tx @ []" using um_generate_delivered [OF p(1)] by simp
  obtain A' where A': "on_rlc_entity A (ue_position (rlc_ue_list A) i) (Slot_drb (nat (d - 1))) ?f = Some (A', pdu)" "drb_um A' i d c tx'" "deliverable A' i"
    by (rule on_drb [where f = ?f, OF a(1,4) f del])
  have req: "nr_mac_rlc_data_req A i c buf = Some (A', pdu)"
    unfolding nr_mac_rlc_data_req_def drb_um_entity(3) [OF a(1)] drb_um_entity(1) [OF a(1)] using A'(1) by simp
  show thesis
  proof (cases "pdu = []")
    case True
    then have rx': "rx' = ?rx" using p(2) by simp
    have nil: "take k (map sdu_data (um_tx_list tx)) = []" using g(3) rx' by simp
    have "um_linked n tx' rx" using um_linked_time(4) [OF g(2), of "um_t_current rx"] rx' by simp
    then have "api_linked i d c n A' B tx' rx" using A'(2,3) a by (simp add: api_linked_def)
    then show thesis using that [OF req, of B tx' rx k] True g(4,5) nil by simp
  next
    case False
    then have r: "nr_rlc_entity_um_recv_pdu ?rx pdu = Some rx'" using p(2) by simp
    let ?h = "timed B (\<lambda>e. map_option (\<lambda>e. (e, ())) (ent_recv_pdu e pdu))"
    have h: "?h (Um rx) = Some (Um rx', ())" using um_linked_time(3) [OF a(3), of "rlc_current_time B"] r by (simp add: timed_def)
    obtain B' where B': "on_rlc_entity B (ue_position (rlc_ue_list B) i) (Slot_drb (nat (d - 1))) ?h = Some (B', ())" "drb_um B' i d c rx'" "deliverable B' i"
      "drb_sdus B' i d = drb_sdus B i d @ take k (map sdu_data (um_tx_list tx))"
      by (rule on_drb [where f = ?h, OF a(2,5) h g(3)])
    have "nr_mac_rlc_data_ind B i [(c, pdu)] = Some B'"
      unfolding nr_mac_rlc_data_ind_def drb_um_entity(3) [OF a(2)] using B'(1) drb_um_entity(1) [OF a(2)] by simp
    moreover have "api_linked i d c n A' B' tx' rx'" using A'(2,3) B'(2,3) g(2) by (simp add: api_linked_def)
    ultimately show thesis using that [OF req, of B' tx' rx' k] False g(3-5) B'(4) by simp
  qed
qed

section \<open>Runs\<close>

datatype bearer_event = Bearer_sdu int "u8 list" | Bearer_grant "u8 list" | Sender_call rlc_call | Receiver_call rlc_call

definition bearer_step :: "int \<Rightarrow> int \<Rightarrow> nat \<Rightarrow> nr_rlc_state \<times> nr_rlc_state \<Rightarrow> bearer_event \<Rightarrow> (nr_rlc_state \<times> nr_rlc_state) option" where
  "bearer_step i d c s ev =
     (let (A, B) = s
      in case ev of
           Bearer_sdu mui sdu \<Rightarrow> map_option (\<lambda>A. (A, B)) (nr_rlc_data_req A i False d mui sdu)
         | Bearer_grant buf \<Rightarrow>
             Option.bind (nr_mac_rlc_data_req A i c buf) (\<lambda>(A, pdu).
               if pdu = [] then Some (A, B) else map_option (Pair A) (nr_mac_rlc_data_ind B i [(c, pdu)]))
         | Sender_call cl \<Rightarrow> map_option (\<lambda>A. (A, B)) (rlc_call_step A cl)
         | Receiver_call cl \<Rightarrow> map_option (Pair A) (rlc_call_step B cl))"

text \<open>The SDUs for which the sender has room, as its interface tells.\<close>

definition bearer_accepted :: "int \<Rightarrow> nat \<Rightarrow> nr_rlc_state \<Rightarrow> bearer_event \<Rightarrow> u8 list list" where
  "bearer_accepted i c A ev =
     (case ev of
        Bearer_sdu mui sdu \<Rightarrow>
          (case nr_rlc_get_available_tx_space A i c of
             Some (_, n) \<Rightarrow> if int (length sdu) \<le> n then [sdu] else []
           | None \<Rightarrow> [])
      | _ \<Rightarrow> [])"

fun bearer_run :: "int \<Rightarrow> int \<Rightarrow> nat \<Rightarrow> nr_rlc_state \<times> nr_rlc_state \<Rightarrow> bearer_event list \<Rightarrow>
    ((nr_rlc_state \<times> nr_rlc_state) \<times> u8 list list) option" where
  "bearer_run i d c s [] = Some (s, [])"
| "bearer_run i d c s (ev # evs) =
     Option.bind (bearer_step i d c s ev) (\<lambda>s'.
       map_option (\<lambda>(s'', acc). (s'', bearer_accepted i c (fst s) ev @ acc)) (bearer_run i d c s' evs))"

text \<open>Events: SDUs of a size that RLC takes, grants other than of two bytes, and any calls for other UEs.\<close>

fun bearer_event_ok :: "int \<Rightarrow> bearer_event \<Rightarrow> bool" where
  "bearer_event_ok i (Bearer_sdu mui sdu) \<longleftrightarrow> sdu_size_ok sdu"
| "bearer_event_ok i (Bearer_grant buf) \<longleftrightarrow> length buf \<noteq> 2"
| "bearer_event_ok i (Sender_call cl) \<longleftrightarrow> i \<notin> set (call_ues cl)"
| "bearer_event_ok i (Receiver_call cl) \<longleftrightarrow> i \<notin> set (call_ues cl)"

fun own_event :: "bearer_event \<Rightarrow> bool" where
  "own_event (Sender_call _) \<longleftrightarrow> False"
| "own_event (Receiver_call _) \<longleftrightarrow> False"
| "own_event _ \<longleftrightarrow> True"

text \<open>SDUs handed up at the receiver, then those that the sender still has.\<close>

definition in_flight :: "int \<Rightarrow> int \<Rightarrow> nr_rlc_state \<times> nr_rlc_state \<Rightarrow> nr_rlc_entity_um \<Rightarrow> u8 list list" where
  "in_flight i d s tx = drb_sdus (snd s) i d @ map sdu_data (um_tx_list tx)"

lemma tx_space:
  assumes "drb_um A i d c tx"
  shows "nr_rlc_get_available_tx_space A i c = Some (A, um_tx_maxsize tx - um_tx_size tx)"
  unfolding nr_rlc_get_available_tx_space_def drb_um_entity(3) [OF assms] using drb_um_entity(1,2) [OF assms]
  by (simp add: nr_rlc_entity_um_available_tx_space_def)

lemma bearer_own_step:
  assumes l: "api_linked i d c n A B tx rx" and ok: "bearer_event_ok i ev" "own_event ev"
  obtains A' B' tx' rx' where "bearer_step i d c (A, B) ev = Some (A', B')" and "api_linked i d c n A' B' tx' rx'"
    and "in_flight i d (A', B') tx' = in_flight i d (A, B) tx @ bearer_accepted i c A ev"
proof (cases ev)
  case (Bearer_sdu mui sdu)
  obtain A' tx' where s: "nr_rlc_data_req A i False d mui sdu = Some A'" "api_linked i d c n A' B tx' rx"
    "map sdu_data (um_tx_list tx') = map sdu_data (um_tx_list tx) @ (if int (length sdu) \<le> um_tx_maxsize tx - um_tx_size tx then [sdu] else [])"
    by (rule bearer_data_req [OF l, of sdu mui]) (use ok(1) Bearer_sdu in auto)
  have "drb_um A i d c tx" using l by (simp add: api_linked_def)
  then have "bearer_accepted i c A ev = (if int (length sdu) \<le> um_tx_maxsize tx - um_tx_size tx then [sdu] else [])"
    using tx_space Bearer_sdu by (simp add: bearer_accepted_def)
  then show thesis using that [of A' B tx' rx] s Bearer_sdu by (simp add: bearer_step_def in_flight_def)
next
  case (Bearer_grant buf)
  obtain A' pdu B' tx' rx' k where g: "nr_mac_rlc_data_req A i c buf = Some (A', pdu)"
    "(if pdu = [] then Some B else nr_mac_rlc_data_ind B i [(c, pdu)]) = Some B'" "api_linked i d c n A' B' tx' rx'"
    "map sdu_data (um_tx_list tx') = drop k (map sdu_data (um_tx_list tx))"
    "drb_sdus B' i d = drb_sdus B i d @ take k (map sdu_data (um_tx_list tx))"
    by (rule bearer_grant [OF l, of buf]) (use ok(1) Bearer_grant in auto)
  have "bearer_step i d c (A, B) ev = Some (A', B')" using g(1,2) Bearer_grant by (auto simp: bearer_step_def split: if_splits)
  then show thesis using that [of A' B' tx' rx'] g(3-5) Bearer_grant by (simp add: bearer_accepted_def in_flight_def)
qed (use ok(2) in simp_all)

lemma bearer_any_step:
  assumes l: "api_linked i d c n A B tx rx" and ok: "bearer_event_ok i ev" and s: "bearer_step i d c (A, B) ev = Some (A', B')"
  obtains tx' rx' where "api_linked i d c n A' B' tx' rx'" and "in_flight i d (A', B') tx' = in_flight i d (A, B) tx @ bearer_accepted i c A ev"
proof (cases "own_event ev")
  case True
  then show thesis using bearer_own_step [OF l ok] s that by (metis option.inject prod.inject)
next
  case False
  then consider (tx) cl where "ev = Sender_call cl" | (rx) cl where "ev = Receiver_call cl" by (cases ev) auto
  then show thesis
  proof cases
    case tx
    then have c: "rlc_call_step A cl = Some A'" "B' = B" "i \<notin> set (call_ues cl)" using s ok by (auto simp: bearer_step_def)
    have "api_linked i d c n A' B' tx rx" using l other_call_drb [OF c(1,3)] c(2) by (simp add: api_linked_def)
    then show thesis using that tx c(2) by (simp add: in_flight_def bearer_accepted_def)
  next
    case rx
    then have c: "rlc_call_step B cl = Some B'" "A' = A" "i \<notin> set (call_ues cl)" using s ok by (auto simp: bearer_step_def)
    have d: "deliverable B i" using l by (simp add: api_linked_def)
    have "api_linked i d c n A' B' tx rx" using l other_call_drb [OF c(1,3) d] c(2) by (simp add: api_linked_def)
    then show thesis using that rx c(2) other_call_drb(2) [OF c(1,3) d] by (simp add: in_flight_def bearer_accepted_def)
  qed
qed

lemma bearer_run_linked:
  "\<lbrakk>api_linked i d c n A B tx rx; \<forall>ev\<in>set evs. bearer_event_ok i ev; bearer_run i d c (A, B) evs = Some ((A', B'), acc)\<rbrakk> \<Longrightarrow>
    \<exists>tx' rx'. api_linked i d c n A' B' tx' rx' \<and> in_flight i d (A', B') tx' = in_flight i d (A, B) tx @ acc"
proof (induction evs arbitrary: A B tx rx acc)
  case (Cons ev evs)
  obtain A1 B1 acc1 where s: "bearer_step i d c (A, B) ev = Some (A1, B1)" "bearer_run i d c (A1, B1) evs = Some ((A', B'), acc1)"
    "acc = bearer_accepted i c A ev @ acc1" using Cons.prems(3) by (auto split: Option.bind_splits)
  obtain tx1 rx1 where l1: "api_linked i d c n A1 B1 tx1 rx1" "in_flight i d (A1, B1) tx1 = in_flight i d (A, B) tx @ bearer_accepted i c A ev"
    by (rule bearer_any_step [OF Cons.prems(1) _ s(1)]) (use Cons.prems(2) in auto)
  show ?case using Cons.IH [OF l1(1) _ s(2)] Cons.prems(2) l1(2) s(3) by auto
qed auto

text \<open>Enough grants of five bytes and more deliver everything.\<close>

lemma bearer_drain:
  "\<lbrakk>api_linked i d c n A B tx rx; \<forall>buf\<in>set bufs. 5 \<le> length buf; nat (um_tx_size tx) \<le> length bufs\<rbrakk> \<Longrightarrow>
    \<exists>A' B'. bearer_run i d c (A, B) (map Bearer_grant bufs) = Some ((A', B'), []) \<and> drb_sdus B' i d = in_flight i d (A, B) tx"
proof (induction bufs arbitrary: A B tx rx)
  case Nil
  then have "um_tx_list tx = []" using um_link.no_backlog [of n tx rx] by (auto simp: api_linked_def)
  then show ?case by (simp add: in_flight_def)
next
  case (Cons buf bufs)
  obtain A1 pdu B1 tx1 rx1 k where g: "nr_mac_rlc_data_req A i c buf = Some (A1, pdu)"
    "(if pdu = [] then Some B else nr_mac_rlc_data_ind B i [(c, pdu)]) = Some B1" "api_linked i d c n A1 B1 tx1 rx1"
    "map sdu_data (um_tx_list tx1) = drop k (map sdu_data (um_tx_list tx))"
    "drb_sdus B1 i d = drb_sdus B i d @ take k (map sdu_data (um_tx_list tx))"
    "um_tx_list tx \<noteq> [] \<Longrightarrow> nat (um_tx_size tx1) < nat (um_tx_size tx)"
    by (rule bearer_grant [OF Cons.prems(1), of buf]) (use Cons.prems(2) in auto)
  have sz: "nat (um_tx_size tx1) \<le> length bufs"
  proof (cases "um_tx_list tx = []")
    case True
    then have "um_tx_list tx1 = []" using g(4) by simp
    moreover have "um_linked n tx1 rx1" using g(3) by (simp add: api_linked_def)
    ultimately show ?thesis using um_link.no_backlog [of n tx1 rx1] by simp
  next
    case False
    then show ?thesis using g(6) [OF False] Cons.prems(3) by (simp only: list.size)
  qed
  obtain A' B' where r: "bearer_run i d c (A1, B1) (map Bearer_grant bufs) = Some ((A', B'), [])" "drb_sdus B' i d = in_flight i d (A1, B1) tx1"
    using Cons.IH [OF g(3) _ sz] Cons.prems(2) by auto
  have "bearer_step i d c (A, B) (Bearer_grant buf) = Some (A1, B1)" using g(1,2) by (auto simp: bearer_step_def split: if_splits)
  moreover have "in_flight i d (A1, B1) tx1 = in_flight i d (A, B) tx" using g(4,5) by (simp add: in_flight_def)
  ultimately show ?case using r by (simp add: bearer_accepted_def)
qed

section \<open>A new bearer\<close>

lemma add_um_drb:
  assumes wf: "rlc_wf u st" and a: "nr_rlc_add_drb st i d cfg = Some st'" and c: "rlc_Config cfg = Some (Config_um_bi um)"
    and "servedRadioBearer cfg = Some (Served_drb d)" and free: "ue_drb (ue_or_new (rlc_ue_list st) i) ! nat (d - 1) = None"
  obtains t n e where "decode_new_sn_length VALUES_SN_FIELD_LENGTH_UM (dl_um_sn_FieldLength um) (ul_um_sn_FieldLength um) = Some n"
    and "new_nr_rlc_entity_um RLC_RX_MAXSIZE RLC_TX_MAXSIZE t n = Some e" and "drb_um st' i d (nat (logicalChannelIdentity cfg)) e"
proof -
  obtain t n where n: "decode_new_sn_length VALUES_SN_FIELD_LENGTH_UM (dl_um_sn_FieldLength um) (ul_um_sn_FieldLength um) = Some n"
    "add_drb_entity st i d cfg (map_option Um (new_nr_rlc_entity_um RLC_RX_MAXSIZE RLC_TX_MAXSIZE t n)) = Some st'" "1 \<le> d" "d \<le> int max_drbs_per_ue"
    using a c by (auto simp: nr_rlc_add_drb_def add_drb_um_def split: if_splits Option.bind_splits)
  obtain l k where g: "nr_rlc_manager_get_ue (rlc_ue_list st) i = (l, k)" by (cases "nr_rlc_manager_get_ue (rlc_ue_list st) i")
  note u = get_ue [OF g]
  let ?lcid = "logicalChannelIdentity cfg" and ?ue = "ue_or_new (rlc_ue_list st) i"
  have uw: "ue_wf ?ue"
    using wf zero_ue_wf by (auto simp: ue_or_new_def find_ue_def rlc_wf_def list_all_iff find_Some_iff split: option.splits)
  obtain ue' e ue2 where m: "map_lcid ?ue ?lcid (Lcid_drb d) = Some ue'" "new_nr_rlc_entity_um RLC_RX_MAXSIZE RLC_TX_MAXSIZE t n = Some e"
    "nr_rlc_ue_add_drb_rlc_entity ue' d (Um e) = Some ue2" "st' = set_ue (st\<lparr>rlc_ue_list := l\<rparr>) k ue2"
    using n(2) assms(4) free u(3) by (auto simp: add_drb_entity_def with_ue_def g map_lcid_def split: if_splits Option.bind_splits)
  have lc: "1 \<le> ?lcid" "?lcid \<le> 32" using m(1) by (auto simp: map_lcid_def split: if_splits)
  have id: "ue_id ue2 = i" using keep_id(1) [OF m(1)] keep_id(3) [OF m(3)] u(1-3) ue_position_id [of l i] by simp
  then have f: "find_ue (rlc_ue_list st') i = Some ue2" using find_update [of l i ue2 i] u(1,2) m(4) by (simp add: set_ue_def)
  have "length (ue_drb ue2) = max_drbs_per_ue \<and> ue_lcid2rb ue2 ! (nat ?lcid - 1) = Lcid_drb d \<and> ue_drb ue2 ! nat (d - 1) = Some (Um e)"
    using m(1,3) uw n(3,4) lc
    by (auto simp: map_lcid_def nr_rlc_ue_add_drb_rlc_entity_def Let_def ue_wf_def nat_diff_distrib split: if_splits)
  then have "drb_um st' i d (nat ?lcid) e" using f n(3,4) lc by (auto simp: drb_um_def)
  then show thesis by (rule that [OF n(1) m(2)])
qed

lemma new_um_empty: "new_nr_rlc_entity_um a b t n = Some e \<Longrightarrow> um_delivered e = [] \<and> um_tx_list e = []"
  by (auto simp: new_nr_rlc_entity_um_def split: if_splits)

lemma new_bearer_linked:
  assumes "rlc_wf u A0" "rlc_wf u B0" and "nr_rlc_add_drb A0 i d cfg = Some A" and "nr_rlc_add_drb B0 i d cfg = Some B"
    and "rlc_Config cfg = Some (Config_um_bi um)" and "servedRadioBearer cfg = Some (Served_drb d)"
    and "ue_drb (ue_or_new (rlc_ue_list A0) i) ! nat (d - 1) = None" "ue_drb (ue_or_new (rlc_ue_list B0) i) ! nat (d - 1) = None"
    and "deliverable A i" "deliverable B i"
  obtains n tx rx where "api_linked i d (nat (logicalChannelIdentity cfg)) n A B tx rx" and "in_flight i d (A, B) tx = drb_sdus B i d"
proof -
  obtain t n tx where tx: "decode_new_sn_length VALUES_SN_FIELD_LENGTH_UM (dl_um_sn_FieldLength um) (ul_um_sn_FieldLength um) = Some n"
    "new_nr_rlc_entity_um RLC_RX_MAXSIZE RLC_TX_MAXSIZE t n = Some tx" "drb_um A i d (nat (logicalChannelIdentity cfg)) tx"
    by (rule add_um_drb [OF assms(1,3,5,6,7)])
  obtain t' n' rx where rx: "decode_new_sn_length VALUES_SN_FIELD_LENGTH_UM (dl_um_sn_FieldLength um) (ul_um_sn_FieldLength um) = Some n'"
    "new_nr_rlc_entity_um RLC_RX_MAXSIZE RLC_TX_MAXSIZE t' n' = Some rx" "drb_um B i d (nat (logicalChannelIdentity cfg)) rx"
    by (rule add_um_drb [OF assms(2,4,5,6,8)])
  have n: "n' = n" using tx(1) rx(1) by simp
  have "um_linked n tx rx" by (rule um_linked_new [OF tx(2) rx(2) [unfolded n]]) (simp add: NR_SDU_MAX_def RLC_RX_MAXSIZE_def)
  then have "api_linked i d (nat (logicalChannelIdentity cfg)) n A B tx rx" using tx(3) rx(3) assms(9,10) by (simp add: api_linked_def)
  then show thesis using that new_um_empty [OF tx(2)] by (simp add: in_flight_def)
qed

end
