(* ===== verification/Rlc_Api_Properties.thy ===== *)
theory Rlc_Api_Properties
  imports Rlc_Api_Link
begin

text \<open>
  Properties of the RLC interface: well-formed tables, isolation of UEs, and a bearer in unacknowledged mode
  from PDCP to PDCP.
\<close>

section \<open>Tables\<close>

text \<open>
  C24: In every reachable state (the bearers served are SRB 1 to 3 and DRB 1 to 32, calls are otherwise arbitrary)
  looking up any logical channel up to 32 of any UE stays inside the tables and gives no bearer or one that has
  an entity, in transparent mode exactly for channel 0 (SRB 0). While no two UEs have the same
  identifier, a call keeps this exactly if it does not move a UE to the identifier of another one: only
  \<^verbatim>\<open>nr_rlc_update_id\<close>, which does not look whether the new identifier is in use, makes two contexts for one.
\<close>

theorem rlc_tables_consistent:
  assumes "rlc_reachable st"
  shows "(\<forall>ue\<in>set (rlc_ue_list st). \<forall>ch\<le>32. \<exists>s. get_rlc_entity_from_lcid ue ch = Some s \<and>
       (\<forall>rb. s = Some rb \<longrightarrow> (\<exists>e. slot_entity ue rb = Some e \<and> (rb = Slot_srb0 \<longleftrightarrow> ch = 0) \<and> (ent_mode e = NR_RLC_TM \<longleftrightarrow> ch = 0)))) \<and>
    (\<forall>c st'. call_ok c \<and> rlc_call_step st c = Some st' \<and> distinct (map ue_id (rlc_ue_list st)) \<longrightarrow>
       (distinct (map ue_id (rlc_ue_list st')) \<longleftrightarrow> \<not> reuses_id st c))"
proof -
  have wf: "rlc_wf False st" by (rule rlc_reachable_wf [OF assms])
  have "\<exists>s. get_rlc_entity_from_lcid ue ch = Some s \<and>
       (\<forall>rb. s = Some rb \<longrightarrow> (\<exists>e. slot_entity ue rb = Some e \<and> (rb = Slot_srb0 \<longleftrightarrow> ch = 0) \<and> (ent_mode e = NR_RLC_TM \<longleftrightarrow> ch = 0)))"
    if "ue \<in> set (rlc_ue_list st)" "ch \<le> 32" for ue ch
  proof -
    have "ue_wf ue" using wf that(1) by (simp add: rlc_wf_def list_all_iff)
    then show ?thesis by (rule get_entity_wf [OF _ that(2)]) auto
  qed
  then show ?thesis using call_ids [OF assms] by blast
qed

definition demo_um_config :: NR_RLC_BearerConfig where
  "demo_um_config = \<lparr>logicalChannelIdentity = 4, servedRadioBearer = Some (Served_drb 1),
     rlc_Config = Some (Config_um_bi \<lparr>dl_um_sn_FieldLength = Some 1, dl_um_t_Reassembly = 7, ul_um_sn_FieldLength = Some 1\<rparr>)\<rparr>"

definition demo_calls :: "rlc_call list" where
  "demo_calls = [Activate_srb0 7, Add_drb 7 1 demo_um_config, Data_req 7 False 1 0 [1, 2, 3], Ms_tick]"

fun run_calls :: "nr_rlc_state \<Rightarrow> rlc_call list \<Rightarrow> nr_rlc_state option" where
  "run_calls st [] = Some st"
| "run_calls st (c # cs) = (if call_ok c then Option.bind (rlc_call_step st c) (\<lambda>st. run_calls st cs) else None)"

lemma run_calls_reachable: "rlc_reachable st \<Longrightarrow> run_calls st cs = Some st' \<Longrightarrow> rlc_reachable st'"
proof (induction cs arbitrary: st)
  case (Cons c cs)
  then obtain st1 where "call_ok c" "rlc_call_step st c = Some st1" "run_calls st1 cs = Some st'" by (auto split: if_splits Option.bind_splits)
  then show ?case using Cons.IH rlc_reachable.call [OF Cons.prems(1)] by blast
qed simp

definition demo_two_ues :: "nr_rlc_state option" where
  "demo_two_ues = run_calls (new_nr_rlc_ue_manager Mode_ue) (demo_calls @ [Activate_srb0 9])"

theorem rlc_tables_consistent_witness:
  "\<exists>st ue e st8 st9. demo_two_ues = Some st \<and> find_ue (rlc_ue_list st) 7 = Some ue \<and>
    get_rlc_entity_from_lcid ue 4 = Some (Some (Slot_drb 0)) \<and> slot_entity ue (Slot_drb 0) = Some e \<and> ent_mode e \<noteq> NR_RLC_TM \<and>
    rlc_call_step st (Update_id 7 8) = Some st8 \<and> distinct (map ue_id (rlc_ue_list st8)) \<and>
    rlc_call_step st (Update_id 7 9) = Some st9 \<and> \<not> distinct (map ue_id (rlc_ue_list st9))"
proof -
  have "map_option (\<lambda>st. (map_option (\<lambda>ue. get_rlc_entity_from_lcid ue 4) (find_ue (rlc_ue_list st) 7), map ue_id (rlc_ue_list st))) demo_two_ues =
    Some (Some (Some (Some (Slot_drb 0))), [7, 9])" by code_simp
  then obtain st ue where s: "demo_two_ues = Some st" "find_ue (rlc_ue_list st) 7 = Some ue"
    "get_rlc_entity_from_lcid ue 4 = Some (Some (Slot_drb 0))" "map ue_id (rlc_ue_list st) = [7, 9]" by auto
  have r: "rlc_reachable st" by (rule run_calls_reachable [OF rlc_reachable.init s(1) [unfolded demo_two_ues_def]])
  note t = rlc_tables_consistent [OF r]
  have ue: "ue \<in> set (rlc_ue_list st)" using s(2) by (auto simp: find_ue_def find_Some_iff)
  have "\<exists>e. slot_entity ue (Slot_drb 0) = Some e \<and> ent_mode e \<noteq> NR_RLC_TM"
    using t [THEN conjunct1, THEN bspec, OF ue, THEN spec, of 4] unfolding s(3) by auto
  then obtain e where e: "slot_entity ue (Slot_drb 0) = Some e" "ent_mode e \<noteq> NR_RLC_TM" by blast
  have "find_ue (rlc_ue_list st) 8 = None" "find_ue (rlc_ue_list st) 9 \<noteq> None"
    using s(4) by (auto simp: find_ue_def find_None_iff)
  then have "\<not> reuses_id st (Update_id 7 8)" "reuses_id st (Update_id 7 9)" by simp_all
  moreover have "distinct (map ue_id (rlc_ue_list st))" using s(4) by simp
  ultimately have d: "distinct (map ue_id (rlc_ue_list (nr_rlc_update_id st 7 8)))" "\<not> distinct (map ue_id (rlc_ue_list (nr_rlc_update_id st 7 9)))"
    using t [THEN conjunct2, THEN spec, of "Update_id 7 8", THEN spec, of "nr_rlc_update_id st 7 8"]
      t [THEN conjunct2, THEN spec, of "Update_id 7 9", THEN spec, of "nr_rlc_update_id st 7 9"]
    unfolding call_ok.simps rlc_call_step.simps by blast+
  show ?thesis by (intro exI conjI) (rule s e d | simp only: rlc_call_step.simps)+
qed

section \<open>Isolation\<close>

text \<open>
  C12: A call of the RLC interface leaves the context of every UE that it does not name as it was, and whatever
  it hands to PDCP, F1, GTP-U or RRC is in the name of a UE that it names (for SRB 0 the identifier that
  was in use when the bearer was activated).
\<close>

theorem rlc_call_isolation:
  assumes "rlc_call_step st c = Some st'"
  shows "(\<forall>j. j \<notin> set (call_ues c) \<longrightarrow> find_ue (rlc_ue_list st') j = find_ue (rlc_ue_list st) j) \<and>
    (\<exists>ups. rlc_upcalls st' = rlc_upcalls st @ ups \<and>
       (\<forall>up\<in>set ups. \<exists>i\<in>set (call_ues c). upcall_of (rlc_mode st) (rlc_du2cu st) i (srb0_id (ue_or_new (rlc_ue_list st) i)) up))"
  using call_isolated(1,2) [OF assms] unfolding own_def by blast

theorem rlc_call_isolation_witness:
  "\<exists>st st'. demo_two_ues = Some st \<and> rlc_call_step st (Update_id 7 8) = Some st' \<and>
    find_ue (rlc_ue_list st) 7 \<noteq> None \<and> find_ue (rlc_ue_list st') 7 = None \<and>
    find_ue (rlc_ue_list st) 9 \<noteq> None \<and> find_ue (rlc_ue_list st') 9 = find_ue (rlc_ue_list st) 9"
proof -
  have "map_option (\<lambda>st. (map ue_id (rlc_ue_list st), map_option (\<lambda>st. map ue_id (rlc_ue_list st)) (rlc_call_step st (Update_id 7 8)))) demo_two_ues =
    Some ([7, 9], Some [8, 9])" by code_simp
  then obtain st st' where s: "demo_two_ues = Some st" "map ue_id (rlc_ue_list st) = [7, 9]" "rlc_call_step st (Update_id 7 8) = Some st'"
    "map ue_id (rlc_ue_list st') = [8, 9]" by auto
  have "find_ue (rlc_ue_list st) 7 \<noteq> None" "find_ue (rlc_ue_list st') 7 = None" "find_ue (rlc_ue_list st) 9 \<noteq> None"
    using s(2,4) by (auto simp: find_ue_def find_None_iff)
  moreover have "find_ue (rlc_ue_list st') 9 = find_ue (rlc_ue_list st) 9" using rlc_call_isolation [OF s(3)] by simp
  ultimately show ?thesis using s by blast
qed

section \<open>A bearer from end to end\<close>

text \<open>
  C5: Two nodes add the same data radio bearer in unacknowledged mode for a UE. Then, whatever the order of SDUs
  (of 1 to 16000 bytes) from PDCP, grants of MAC (not of two bytes) whose PDUs reach the other node, and calls for other UEs at either node, and
  with independent clocks: the SDUs that the receiving node hands up on this bearer, followed by those that
  are still queued, are the accepted SDUs in order and unchanged; the calls for the bearer always return;
  and enough grants of at least five bytes deliver everything.
\<close>

theorem rlc_um_bearer:
  assumes "rlc_reachable A0" "rlc_reachable B0" and "nr_rlc_add_drb A0 i d cfg = Some A" "nr_rlc_add_drb B0 i d cfg = Some B"
    and "rlc_Config cfg = Some (Config_um_bi um)" "servedRadioBearer cfg = Some (Served_drb d)"
    and "ue_drb (ue_or_new (rlc_ue_list A0) i) ! nat (d - 1) = None" "ue_drb (ue_or_new (rlc_ue_list B0) i) ! nat (d - 1) = None"
    and "deliverable A i" "deliverable B i" and "c = nat (logicalChannelIdentity cfg)"
    and "\<forall>ev\<in>set evs. bearer_event_ok i ev" and "bearer_run i d c (A, B) evs = Some ((A', B'), acc)"
  shows "(\<exists>queued. drb_sdus B' i d @ queued = drb_sdus B i d @ acc) \<and>
    (\<forall>ev. own_event ev \<and> bearer_event_ok i ev \<longrightarrow> bearer_step i d c (A', B') ev \<noteq> None) \<and>
    (\<exists>n. \<forall>bufs. n \<le> length bufs \<and> (\<forall>buf\<in>set bufs. 5 \<le> length buf) \<longrightarrow>
       (\<exists>A2 B2. bearer_run i d c (A', B') (map Bearer_grant bufs) = Some ((A2, B2), []) \<and> drb_sdus B2 i d = drb_sdus B i d @ acc))"
proof -
  obtain n tx rx where l: "api_linked i d c n A B tx rx" "in_flight i d (A, B) tx = drb_sdus B i d"
    unfolding assms(11) by (rule new_bearer_linked [OF rlc_reachable_wf [OF assms(1)] rlc_reachable_wf [OF assms(2)] assms(3-10)])
  obtain tx' rx' where l': "api_linked i d c n A' B' tx' rx'" "in_flight i d (A', B') tx' = drb_sdus B i d @ acc"
    using bearer_run_linked [OF l(1) assms(12,13)] l(2) by auto
  have "drb_sdus B' i d @ map sdu_data (um_tx_list tx') = drb_sdus B i d @ acc" using l'(2) by (simp add: in_flight_def)
  moreover have "bearer_step i d c (A', B') ev \<noteq> None" if "own_event ev" "bearer_event_ok i ev" for ev
    by (rule bearer_own_step [OF l'(1) that(2,1)]) simp
  moreover have "\<exists>A2 B2. bearer_run i d c (A', B') (map Bearer_grant bufs) = Some ((A2, B2), []) \<and> drb_sdus B2 i d = drb_sdus B i d @ acc"
    if "nat (um_tx_size tx') \<le> length bufs" "\<forall>buf\<in>set bufs. 5 \<le> length buf" for bufs
    using bearer_drain [OF l'(1) that(2,1)] l'(2) by simp
  ultimately show ?thesis by blast
qed

definition demo_node :: nr_rlc_state where
  "demo_node = new_nr_rlc_ue_manager Mode_ue"

definition demo_bearer_events :: "bearer_event list" where
  "demo_bearer_events = [Bearer_sdu 0 [1, 2, 3], Sender_call (Activate_srb0 9), Receiver_call Ms_tick, Bearer_grant (replicate 20 0), Bearer_sdu 1 [4]]"

theorem rlc_um_bearer_witness:
  "\<exists>A B A' B' queued. nr_rlc_add_drb demo_node 7 1 demo_um_config = Some A \<and> nr_rlc_add_drb demo_node 7 1 demo_um_config = Some B \<and>
    bearer_run 7 1 4 (A, B) demo_bearer_events = Some ((A', B'), [[1, 2, 3], [4]]) \<and> drb_sdus B' 7 1 @ queued = [[1, 2, 3], [4]]"
proof -
  have "Option.bind (nr_rlc_add_drb demo_node 7 1 demo_um_config) (\<lambda>A.
      map_option (\<lambda>((A', B'), acc). (rlc_mode A, rlc_upcalls A, acc, drb_sdus B' 7 1)) (bearer_run 7 1 4 (A, A) demo_bearer_events)) =
    Some (Mode_ue, [], [[1, 2, 3], [4]], [[1, 2, 3]])" by code_simp
  then obtain A A' B' where a: "nr_rlc_add_drb demo_node 7 1 demo_um_config = Some A" "rlc_mode A = Mode_ue" "rlc_upcalls A = []"
    "bearer_run 7 1 4 (A, A) demo_bearer_events = Some ((A', B'), [[1, 2, 3], [4]])"
    by (auto split: Option.bind_splits)
  have r: "rlc_reachable demo_node" unfolding demo_node_def by (rule rlc_reachable.init)
  have "\<exists>queued. drb_sdus B' 7 1 @ queued = drb_sdus A 7 1 @ [[1, 2, 3], [4]]"
    by (rule rlc_um_bearer [OF r r a(1) a(1) _ _ _ _ _ _ _ _ a(4), THEN conjunct1])
       (use a in \<open>simp_all add: demo_um_config_def demo_node_def new_nr_rlc_ue_manager_def ue_or_new_def zero_ue_def max_drbs_per_ue_def deliverable_def
          demo_bearer_events_def sdu_size_ok_def NR_SDU_MAX_def\<close>)
  then show ?thesis using a by (auto simp: drb_sdus_def)
qed

section \<open>SRB 3\<close>

definition demo_srb_config :: "int \<Rightarrow> NR_RLC_BearerConfig" where
  "demo_srb_config s = \<lparr>logicalChannelIdentity = s, servedRadioBearer = Some (Served_srb s), rlc_Config = None\<rparr>"

definition srb_ack_calls :: "nat \<Rightarrow> rlc_call list" where
  "srb_ack_calls s = [Add_srb 7 (int s) (demo_srb_config (int s)), Srb_recv_sdu 7 s [1, 2, 3], Mac_data_req 7 s (replicate 20 0)]"

text \<open>
  C39: A message is sent on SRB 3 of a UE and the peer acknowledges it: the process ends, because
  \<^verbatim>\<open>successful_delivery\<close> looks for the entity among SRB 1 and 2 and the DRBs only. The same calls on SRB 2 return.
\<close>

theorem rlc_srb3_ack_exits:
  "\<exists>st st2 st2'. run_calls (new_nr_rlc_ue_manager Mono_gnb) (srb_ack_calls 3) = Some st \<and> nr_mac_rlc_data_ind st 7 [(3, [0, 1, 0])] = None \<and>
     run_calls (new_nr_rlc_ue_manager Mono_gnb) (srb_ack_calls 2) = Some st2 \<and> nr_mac_rlc_data_ind st2 7 [(2, [0, 1, 0])] = Some st2'"
proof -
  have "map_option (\<lambda>st. Option.is_none (nr_mac_rlc_data_ind st 7 [(3, [0, 1, 0])])) (run_calls (new_nr_rlc_ue_manager Mono_gnb) (srb_ack_calls 3)) = Some True"
    by code_simp
  moreover have "map_option (\<lambda>st. Option.is_none (nr_mac_rlc_data_ind st 7 [(2, [0, 1, 0])])) (run_calls (new_nr_rlc_ue_manager Mono_gnb) (srb_ack_calls 2)) = Some False"
    by code_simp
  ultimately show ?thesis by (auto simp: Option.is_none_def)
qed

end
