(* ===== verification/Sdap.thy ===== *)
theory Sdap
  imports Prelude
begin

text \<open>
  The SDAP layer (\<^verbatim>\<open>nr_sdap_entity.c\<close>, \<^verbatim>\<open>nr_sdap.c\<close>): entities with their table of QoS flow to bearer rules,
  the one byte header, transmission, reception with reflective mapping, configuration and the list of
  entities. What leaves the layer (to PDCP, to GTP-U, to the socket of a PDU session, and the removal
  of an interface) is recorded as output. \<open>None\<close> stands for an assertion that fails, an exit, or an
  access to a null pointer or beyond an array. Whether PDCP takes an SDU is an argument.
\<close>

unbundle bit_operations_syntax

section \<open>Data\<close>

abbreviation SDAP_UL_TX :: int where "SDAP_UL_TX \<equiv> 1"
abbreviation SDAP_UL_RX :: int where "SDAP_UL_RX \<equiv> 2"
abbreviation SDAP_DL_TX :: int where "SDAP_DL_TX \<equiv> 4"
abbreviation SDAP_DL_RX :: int where "SDAP_DL_RX \<equiv> 8"
abbreviation NO_SDAP_HEADER :: int where "NO_SDAP_HEADER \<equiv> 0"
abbreviation SDAP_MAX_QFI :: nat where "SDAP_MAX_QFI \<equiv> 64"
abbreviation MAX_DRBS_PER_UE :: int where "MAX_DRBS_PER_UE \<equiv> 32"

datatype sdap_output =
    To_pdcp u64 int "u8 list"
  | To_gtp u64 int "int option" "u8 list"
  | To_socket int "u8 list"
  | Close_interface string

record qfi2drb_t =
  q_drb_id :: int
  q_role :: int

record nr_sdap_entity =
  sd_ue_id :: u64
  default_drb :: int
  sd_is_gnb :: bool
  enable_sdap :: bool
  sd_pdusession_id :: int
  pdusession_sock :: int
  pdusession_if_name :: "string option"
  stop_thread :: bool
  sd_qfi :: nat
  qfi2drb_table :: "qfi2drb_t list"

text \<open>The arrays of a configuration as the lists of their counted elements.\<close>

record sdap_config_t =
  cf_pdusession_id :: int
  cf_drb_id :: int
  cf_role :: int
  cf_defaultDRB :: bool
  mappedQFIs2Add :: "int list"
  mappedQFIs2Release :: "int list"

text \<open>The information element SDAP-Config.\<close>

record NR_SDAP_Config =
  pdu_Session :: int
  sdap_HeaderDL_present :: bool
  sdap_HeaderUL_present :: bool
  defaultDRB :: bool
  mappedQoS_FlowsToAdd :: "int list option"
  mappedQoS_FlowsToRelease :: "int list option"

definition get_sdap_role :: "bool \<Rightarrow> NR_SDAP_Config \<Rightarrow> int" where
  "get_sdap_role is_gnb cfg =
     (let role_ul = (if is_gnb then SDAP_UL_RX else SDAP_UL_TX);
          role_dl = (if is_gnb then SDAP_DL_TX else SDAP_DL_RX);
          role = NO_SDAP_HEADER;
          role = (if sdap_HeaderUL_present cfg then role OR role_ul else role)
      in if sdap_HeaderDL_present cfg then role OR role_dl else role)"

definition has_role :: "qfi2drb_t \<Rightarrow> int \<Rightarrow> bool" where
  "has_role q r \<longleftrightarrow> q_role q AND r \<noteq> 0"

text \<open>The header: the bit fields \<^verbatim>\<open>QFI:6\<close>, \<^verbatim>\<open>RQI:1\<close> (or \<^verbatim>\<open>R\<close>) and \<^verbatim>\<open>RDI:1\<close> (or \<^verbatim>\<open>DC\<close>) from the lowest bit on.\<close>

definition sdap_hdr :: "nat \<Rightarrow> bool \<Rightarrow> bool \<Rightarrow> u8" where
  "sdap_hdr qfi b6 b7 = word_of_nat (qfi mod 64) OR (of_bool b6 * 0x40) OR (of_bool b7 * 0x80)"

definition hdr_QFI :: "u8 \<Rightarrow> nat" where
  "hdr_QFI w = unat (w AND 0x3F)"

section \<open>Mapping of QoS flows\<close>

definition nr_sdap_qfi2drb :: "nr_sdap_entity \<Rightarrow> nat \<Rightarrow> int option" where
  "nr_sdap_qfi2drb e qfi =
     (if qfi \<ge> SDAP_MAX_QFI then None
      else let drb_id = q_drb_id (qfi2drb_table e ! qfi)
           in Some (if drb_id \<noteq> 0 then drb_id else if default_drb e \<noteq> 0 then default_drb e else 0))"

definition nr_sdap_qfi2drb_map_add :: "nr_sdap_entity \<Rightarrow> nat \<Rightarrow> int \<Rightarrow> int \<Rightarrow> nr_sdap_entity" where
  "nr_sdap_qfi2drb_map_add e qfi drb_id role = e\<lparr>qfi2drb_table := (qfi2drb_table e)[qfi := \<lparr>q_drb_id = drb_id, q_role = role\<rparr>]\<rparr>"

definition nr_sdap_qfi2drb_map_del :: "nr_sdap_entity \<Rightarrow> nat \<Rightarrow> nr_sdap_entity option" where
  "nr_sdap_qfi2drb_map_del e qfi =
     (if qfi \<ge> SDAP_MAX_QFI then None
      else Some (e\<lparr>qfi2drb_table := (qfi2drb_table e)[qfi := \<lparr>q_drb_id = 0, q_role = NO_SDAP_HEADER\<rparr>]\<rparr>))"

text \<open>Control PDUs (end markers).\<close>

definition nr_sdap_construct_ctrl_pdu :: "nat \<Rightarrow> u8" where
  "nr_sdap_construct_ctrl_pdu qfi = sdap_hdr qfi False False"

datatype map_type = SDAP_CTRL_PDU_MAP_DEF_DRB | SDAP_CTRL_PDU_MAP_RULE_DRB

definition nr_sdap_map_ctrl_pdu :: "nr_sdap_entity \<Rightarrow> map_type \<Rightarrow> nat \<Rightarrow> int option" where
  "nr_sdap_map_ctrl_pdu e mt dl_qfi =
     (case mt of SDAP_CTRL_PDU_MAP_DEF_DRB \<Rightarrow> Some (default_drb e) | SDAP_CTRL_PDU_MAP_RULE_DRB \<Rightarrow> nr_sdap_qfi2drb e dl_qfi)"

definition nr_sdap_submit_ctrl_pdu :: "u64 \<Rightarrow> int \<Rightarrow> u8 \<Rightarrow> sdap_output list" where
  "nr_sdap_submit_ctrl_pdu ue_id drb pdu = (if drb \<noteq> 0 then [To_pdcp ue_id drb [pdu]] else [])"

text \<open>The three calls that send an end marker.\<close>

definition send_end_marker :: "nr_sdap_entity \<Rightarrow> u64 \<Rightarrow> map_type \<Rightarrow> nat \<Rightarrow> sdap_output list option" where
  "send_end_marker e ue_id mt qfi =
     map_option (\<lambda>drb. nr_sdap_submit_ctrl_pdu ue_id drb (nr_sdap_construct_ctrl_pdu qfi)) (nr_sdap_map_ctrl_pdu e mt qfi)"

section \<open>Transmission\<close>

text \<open>\<open>pdcp\<close> is the result of \<^verbatim>\<open>nr_pdcp_data_req_drb\<close>; the first argument of \<open>To_pdcp\<close> is the UE of the context.\<close>

definition nr_sdap_tx_entity ::
    "(u64 \<Rightarrow> int \<Rightarrow> u8 list \<Rightarrow> bool) \<Rightarrow> nr_sdap_entity \<Rightarrow> u64 \<Rightarrow> u8 list option \<Rightarrow> nat \<Rightarrow> bool \<Rightarrow> (bool \<times> sdap_output list) option" where
  "nr_sdap_tx_entity pdcp e ue_id sdu_buffer qfi rqi =
     (case sdu_buffer of
        None \<Rightarrow> None
      | Some sdu \<Rightarrow>
          Option.bind (nr_sdap_qfi2drb e qfi) (\<lambda>drb_id.
            if drb_id = 0 then Some (False, [])
            else let q = qfi2drb_table e ! qfi; sdap_ul_tx = has_role q SDAP_UL_TX; sdap_dl_tx = has_role q SDAP_DL_TX
                 in if \<not> sdap_ul_tx \<and> \<not> sdap_dl_tx then Some (pdcp ue_id drb_id sdu, [To_pdcp ue_id drb_id sdu])
                    else if sdu = [] \<or> length sdu > 8999 then Some (False, [])
                    else let hdr = (if sdap_dl_tx then sdap_hdr qfi rqi False else sdap_hdr qfi False rqi)
                         in Some (pdcp ue_id drb_id (hdr # sdu), [To_pdcp ue_id drb_id (hdr # sdu)])))"

section \<open>Reception\<close>

definition reflective_mapping :: "nr_sdap_entity \<Rightarrow> int \<Rightarrow> u64 \<Rightarrow> nat \<Rightarrow> (nr_sdap_entity \<times> sdap_output list) option" where
  "reflective_mapping e pdcp_entity ue_id qfi =
     Option.bind (if q_drb_id (qfi2drb_table e ! qfi) = 0 \<and> default_drb e \<noteq> 0
                  then send_end_marker e ue_id SDAP_CTRL_PDU_MAP_DEF_DRB qfi else Some []) (\<lambda>out1.
     Option.bind (if pdcp_entity \<noteq> q_drb_id (qfi2drb_table e ! qfi)
                  then send_end_marker e ue_id SDAP_CTRL_PDU_MAP_RULE_DRB qfi else Some []) (\<lambda>out2.
       Some (e\<lparr>qfi2drb_table := (qfi2drb_table e)[qfi := (qfi2drb_table e ! qfi)\<lparr>q_drb_id := pdcp_entity\<rparr>]\<rparr>, out1 @ out2)))"

definition nr_sdap_rx_gnb :: "bool \<Rightarrow> int option \<Rightarrow> int \<Rightarrow> u64 \<Rightarrow> u8 list \<Rightarrow> sdap_output list option" where
  "nr_sdap_rx_gnb sdap_ul_rx qfi pdusession_id ue_id buf =
     (if sdap_ul_rx then (if qfi = None then None else Some [To_gtp ue_id pdusession_id qfi (drop 1 buf)])
      else if qfi \<noteq> None then None
      else Some [To_gtp ue_id pdusession_id None buf])"

definition nr_sdap_rx_ue :: "nr_sdap_entity \<Rightarrow> bool \<Rightarrow> int \<Rightarrow> u64 \<Rightarrow> u8 list \<Rightarrow> (nr_sdap_entity \<times> sdap_output list) option" where
  "nr_sdap_rx_ue e sdap_dl_rx pdcp_entity ue_id buf =
     (if sdap_dl_rx
      then Option.bind (if bit (hd buf) 7 then reflective_mapping e pdcp_entity ue_id (hdr_QFI (hd buf)) else Some (e, [])) (\<lambda>(e, out).
             Some (e, out @ [To_socket (pdusession_sock e) (drop 1 buf)]))
      else Some (e, [To_socket (pdusession_sock e) buf]))"

definition nr_sdap_rx_entity ::
    "nr_sdap_entity \<Rightarrow> int \<Rightarrow> bool \<Rightarrow> int \<Rightarrow> u64 \<Rightarrow> u8 list \<Rightarrow> (nr_sdap_entity \<times> sdap_output list) option" where
  "nr_sdap_rx_entity e pdcp_entity is_gnb pdusession_id ue_id buf =
     (let deliver = (\<lambda>sdap_ul_rx sdap_dl_rx qfi.
            if is_gnb then map_option (\<lambda>out. (e, out)) (nr_sdap_rx_gnb sdap_ul_rx qfi pdusession_id ue_id buf)
            else nr_sdap_rx_ue e sdap_dl_rx pdcp_entity ue_id buf)
      in if \<not> enable_sdap e then deliver False False None
         else if buf = [] then None
         else let qfi = hdr_QFI (hd buf); mapping = qfi2drb_table e ! qfi
              in if q_drb_id mapping = 0 then Some (e, [])
                 else deliver (has_role mapping SDAP_UL_RX) (has_role mapping SDAP_DL_RX) (Some (int qfi)))"

section \<open>Configuration\<close>

text \<open>A QFI of the configuration becomes a \<^verbatim>\<open>uint8_t\<close>.\<close>

definition qfi_u8 :: "int \<Rightarrow> nat" where
  "qfi_u8 q = nat (q mod 256)"

fun nr_sdap_ue_control_pdu_config :: "nr_sdap_entity \<Rightarrow> u64 \<Rightarrow> int \<Rightarrow> int list \<Rightarrow> sdap_output list option" where
  "nr_sdap_ue_control_pdu_config e ue_id drb_id [] = Some []"
| "nr_sdap_ue_control_pdu_config e ue_id drb_id (x # xs) =
     (let qfi = qfi_u8 x
      in if qfi \<ge> SDAP_MAX_QFI then None
         else let q = qfi2drb_table e ! qfi
              in Option.bind (if default_drb e \<noteq> 0 \<and> q_drb_id q = 0
                              then send_end_marker e ue_id SDAP_CTRL_PDU_MAP_DEF_DRB qfi else Some []) (\<lambda>out1.
                 Option.bind (if q_drb_id q \<noteq> drb_id \<and> has_role q SDAP_UL_TX
                              then send_end_marker e ue_id SDAP_CTRL_PDU_MAP_RULE_DRB qfi else Some []) (\<lambda>out2.
                 map_option (\<lambda>out. out1 @ out2 @ out) (nr_sdap_ue_control_pdu_config e ue_id drb_id xs))))"

definition nr_sdap_add_qos_flows_to_drb :: "nr_sdap_entity \<Rightarrow> sdap_config_t \<Rightarrow> nr_sdap_entity" where
  "nr_sdap_add_qos_flows_to_drb e cf =
     foldl (\<lambda>e x. if qfi_u8 x < SDAP_MAX_QFI \<and> cf_drb_id cf > 0 \<and> cf_drb_id cf \<le> MAX_DRBS_PER_UE
                  then nr_sdap_qfi2drb_map_add e (qfi_u8 x) (cf_drb_id cf) (cf_role cf mod 256) else e) e (mappedQFIs2Add cf)"

fun nr_sdap_rm_qos_flows_from_drb :: "nr_sdap_entity \<Rightarrow> int list \<Rightarrow> nr_sdap_entity option" where
  "nr_sdap_rm_qos_flows_from_drb e [] = Some e"
| "nr_sdap_rm_qos_flows_from_drb e (x # xs) =
     Option.bind (nr_sdap_qfi2drb_map_del e (qfi_u8 x)) (\<lambda>e. nr_sdap_rm_qos_flows_from_drb e xs)"

definition nr_sdap_qfi2drb_map_update :: "nr_sdap_entity \<Rightarrow> sdap_config_t \<Rightarrow> (nr_sdap_entity \<times> sdap_output list) option" where
  "nr_sdap_qfi2drb_map_update e cf =
     (if \<not> enable_sdap e \<and> \<not> list_all (\<lambda>q. q_drb_id q \<noteq> 0 \<longrightarrow> q_drb_id q = cf_drb_id cf) (qfi2drb_table e) then None
      else Option.bind (if \<not> sd_is_gnb e then nr_sdap_ue_control_pdu_config e (sd_ue_id e) (cf_drb_id cf) (mappedQFIs2Add cf)
                        else Some []) (\<lambda>out.
           map_option (\<lambda>e. (e, out)) (nr_sdap_rm_qos_flows_from_drb (nr_sdap_add_qos_flows_to_drb e cf) (mappedQFIs2Release cf))))"

definition nr_sdap_get_config :: "bool \<Rightarrow> NR_SDAP_Config \<Rightarrow> int \<Rightarrow> sdap_config_t option" where
  "nr_sdap_get_config is_gnb cfg drb_id =
     (let flows = (\<lambda>l. case l of None \<Rightarrow> Some []
                       | Some xs \<Rightarrow> let count = length xs mod 256 in if count \<le> SDAP_MAX_QFI then Some (take count xs) else None)
      in Option.bind (flows (mappedQoS_FlowsToAdd cfg)) (\<lambda>add.
         Option.bind (flows (mappedQoS_FlowsToRelease cfg)) (\<lambda>rel.
           Some \<lparr>cf_pdusession_id = pdu_Session cfg, cf_drb_id = drb_id, cf_role = get_sdap_role is_gnb cfg,
                 cf_defaultDRB = defaultDRB cfg, mappedQFIs2Add = add, mappedQFIs2Release = rel\<rparr>)))"

section \<open>The list of entities\<close>

type_synonym sdap_info = "nr_sdap_entity list"

definition is_entity :: "u64 \<Rightarrow> int \<Rightarrow> nr_sdap_entity \<Rightarrow> bool" where
  "is_entity ue_id pdusession_id e \<longleftrightarrow> sd_ue_id e = ue_id \<and> sd_pdusession_id e = pdusession_id"

definition nr_sdap_get_entity :: "sdap_info \<Rightarrow> u64 \<Rightarrow> int \<Rightarrow> nr_sdap_entity option" where
  "nr_sdap_get_entity l ue_id pdusession_id = find (is_entity ue_id pdusession_id) l"

text \<open>An update of the entity that \<^verbatim>\<open>nr_sdap_get_entity\<close> gives.\<close>

fun put_entity :: "sdap_info \<Rightarrow> u64 \<Rightarrow> int \<Rightarrow> nr_sdap_entity \<Rightarrow> sdap_info" where
  "put_entity [] ue_id pdusession_id e' = []"
| "put_entity (e # l) ue_id pdusession_id e' =
     (if is_entity ue_id pdusession_id e then e' # l else e # put_entity l ue_id pdusession_id e')"

definition on_entity ::
    "sdap_info \<Rightarrow> u64 \<Rightarrow> int \<Rightarrow> (nr_sdap_entity \<Rightarrow> (nr_sdap_entity \<times> sdap_output list) option) \<Rightarrow>
     (sdap_info \<times> sdap_output list) option" where
  "on_entity l ue_id pdusession_id f =
     (case nr_sdap_get_entity l ue_id pdusession_id of
        None \<Rightarrow> Some (l, [])
      | Some e \<Rightarrow> map_option (\<lambda>(e', out). (put_entity l ue_id pdusession_id e', out)) (f e))"

definition zero_sdap_entity :: nr_sdap_entity where
  "zero_sdap_entity =
     \<lparr>sd_ue_id = 0, default_drb = 0, sd_is_gnb = False, enable_sdap = False, sd_pdusession_id = 0, pdusession_sock = -1,
      pdusession_if_name = None, stop_thread = False, sd_qfi = 0,
      qfi2drb_table = replicate SDAP_MAX_QFI \<lparr>q_drb_id = 0, q_role = 0\<rparr>\<rparr>"

text \<open>Without a core network (\<open>nos1\<close>) the gNB opens an interface; its socket and name come from the caller.\<close>

definition nr_sdap_add_entity :: "(int \<times> string) option \<Rightarrow> sdap_info \<Rightarrow> bool \<Rightarrow> u64 \<Rightarrow> sdap_config_t \<Rightarrow> sdap_info option" where
  "nr_sdap_add_entity nos1 l is_gnb ue_id cf =
     (let e = zero_sdap_entity\<lparr>sd_ue_id := ue_id, sd_pdusession_id := cf_pdusession_id cf, sd_is_gnb := is_gnb,
                enable_sdap := (cf_role cf \<noteq> NO_SDAP_HEADER), default_drb := (if cf_defaultDRB cf then cf_drb_id cf else 0)\<rparr>
      in if \<not> enable_sdap e \<and> length (mappedQFIs2Add cf) > 1 then None
         else let e = nr_sdap_add_qos_flows_to_drb e cf;
                  e = (case nos1 of Some (sock, name) \<Rightarrow> if is_gnb then e\<lparr>pdusession_sock := sock, pdusession_if_name := Some name\<rparr> else e
                                  | None \<Rightarrow> e)
              in Some (e # l))"

definition nr_sdap_addmod_entity ::
    "(int \<times> string) option \<Rightarrow> sdap_info \<Rightarrow> bool \<Rightarrow> u64 \<Rightarrow> sdap_config_t \<Rightarrow> (sdap_info \<times> sdap_output list) option" where
  "nr_sdap_addmod_entity nos1 l is_gnb ue_id cf =
     (case nr_sdap_get_entity l ue_id (cf_pdusession_id cf) of
        Some _ \<Rightarrow> on_entity l ue_id (cf_pdusession_id cf) (\<lambda>e. nr_sdap_qfi2drb_map_update e cf)
      | None \<Rightarrow> map_option (\<lambda>l. (l, [])) (nr_sdap_add_entity nos1 l is_gnb ue_id cf))"

definition nr_sdap_release_drb :: "sdap_info \<Rightarrow> u64 \<Rightarrow> int \<Rightarrow> int \<Rightarrow> sdap_info" where
  "nr_sdap_release_drb l ue_id drb_id pdusession_id =
     (case nr_sdap_get_entity l ue_id pdusession_id of
        None \<Rightarrow> l
      | Some e \<Rightarrow> put_entity l ue_id pdusession_id
          (e\<lparr>qfi2drb_table := map (\<lambda>q. if q_drb_id q = drb_id then q\<lparr>q_drb_id := 0\<rparr> else q) (qfi2drb_table e)\<rparr>))"

definition update_config :: "nr_sdap_entity \<Rightarrow> int \<Rightarrow> int \<Rightarrow> nat list \<Rightarrow> sdap_config_t" where
  "update_config e pdusession_id drb_id qfis =
     \<lparr>cf_pdusession_id = pdusession_id, cf_drb_id = drb_id,
      cf_role = (if enable_sdap e then if sd_is_gnb e then SDAP_UL_RX OR SDAP_DL_TX else SDAP_UL_TX OR SDAP_DL_RX else NO_SDAP_HEADER),
      cf_defaultDRB = (default_drb e = drb_id), mappedQFIs2Add = map int qfis,
      mappedQFIs2Release = map int (filter (\<lambda>q. q_drb_id (qfi2drb_table e ! q) = drb_id \<and> q \<notin> set qfis) [0..<SDAP_MAX_QFI])\<rparr>"

definition nr_sdap_entity_update_qos_flows ::
    "sdap_info \<Rightarrow> u64 \<Rightarrow> int \<Rightarrow> int \<Rightarrow> nat list \<Rightarrow> (sdap_info \<times> sdap_output list) option" where
  "nr_sdap_entity_update_qos_flows l ue_id pdusession_id drb_id qfis =
     on_entity l ue_id pdusession_id (\<lambda>e.
       if length qfis > SDAP_MAX_QFI then None else nr_sdap_qfi2drb_map_update e (update_config e pdusession_id drb_id qfis))"

definition nr_reconfigure_sdap_entity ::
    "sdap_info \<Rightarrow> NR_SDAP_Config \<Rightarrow> u64 \<Rightarrow> int \<Rightarrow> int \<Rightarrow> (sdap_info \<times> sdap_output list) option" where
  "nr_reconfigure_sdap_entity l cfg ue_id pdusession_id drb_id =
     on_entity l ue_id pdusession_id (\<lambda>e. Option.bind (nr_sdap_get_config False cfg drb_id) (nr_sdap_qfi2drb_map_update e))"

definition set_qfi :: "sdap_info \<Rightarrow> nat \<Rightarrow> int \<Rightarrow> u64 \<Rightarrow> sdap_info option" where
  "set_qfi l qfi pduid ue_id =
     (case nr_sdap_get_entity l ue_id pduid of None \<Rightarrow> None | Some e \<Rightarrow> Some (put_entity l ue_id pduid (e\<lparr>sd_qfi := qfi\<rparr>)))"

text \<open>The interface of a PDU session.\<close>

definition start_sdap_tun_ue :: "sdap_info \<Rightarrow> u64 \<Rightarrow> int \<Rightarrow> int \<Rightarrow> string \<Rightarrow> sdap_info option" where
  "start_sdap_tun_ue l ue_id pdu_session_id sock ifname =
     (case nr_sdap_get_entity l ue_id pdu_session_id of
        None \<Rightarrow> None
      | Some e \<Rightarrow> if sd_is_gnb e then None
                  else Some (put_entity l ue_id pdu_session_id
                         (e\<lparr>pdusession_sock := sock, pdusession_if_name := Some ifname, stop_thread := False\<rparr>)))"

definition remove_ip_if :: "nr_sdap_entity \<Rightarrow> sdap_output list option" where
  "remove_ip_if e = (if pdusession_sock e = -1 then Some [] else map_option (\<lambda>n. [Close_interface n]) (pdusession_if_name e))"

section \<open>Deletion\<close>

text \<open>
  The search walks over at most \<open>bound\<close> entities (\<^verbatim>\<open>SDAP_MAX_NUM_OF_ENTITIES\<close>, which depends on the build).
  The guard of the empty list only holds for PDU sessions out of range.
\<close>

definition nr_sdap_delete_entity :: "nat \<Rightarrow> sdap_info \<Rightarrow> u64 \<Rightarrow> int \<Rightarrow> (bool \<times> sdap_info \<times> sdap_output list) option" where
  "nr_sdap_delete_entity bound l ue_id pdusession_id =
     (if l = [] then if pdusession_id < 0 \<or> pdusession_id > 256 then Some (False, l, []) else None
      else let before = takeWhile (\<lambda>e. \<not> is_entity ue_id pdusession_id e) l
           in if length before \<le> bound \<and> length before < length l
              then map_option (\<lambda>out. (True, before @ drop (length before + 1) l, out)) (remove_ip_if (l ! length before))
              else Some (False, l, []))"

fun nr_sdap_delete_ue_entities :: "sdap_info \<Rightarrow> u64 \<Rightarrow> (bool \<times> sdap_info \<times> sdap_output list) option" where
  "nr_sdap_delete_ue_entities [] ue_id = Some (False, [], [])"
| "nr_sdap_delete_ue_entities (e # l) ue_id =
     (if sd_ue_id e = ue_id
      then Option.bind (remove_ip_if e) (\<lambda>out1.
           map_option (\<lambda>(_, l', out). (True, l', out1 @ out)) (nr_sdap_delete_ue_entities l ue_id))
      else map_option (\<lambda>(r, l', out). (r, e # l', out)) (nr_sdap_delete_ue_entities l ue_id))"

section \<open>The interface of the layer\<close>

definition sdap_data_req ::
    "(u64 \<Rightarrow> int \<Rightarrow> u8 list \<Rightarrow> bool) \<Rightarrow> sdap_info \<Rightarrow> u64 \<Rightarrow> u64 \<Rightarrow> u8 list option \<Rightarrow> nat \<Rightarrow> bool \<Rightarrow> int \<Rightarrow>
     (bool \<times> sdap_output list) option" where
  "sdap_data_req pdcp l ctxt_ue ue_id sdu_buffer qfi rqi pdusession_id =
     (case nr_sdap_get_entity l ue_id pdusession_id of
        None \<Rightarrow> Some (False, [])
      | Some e \<Rightarrow> nr_sdap_tx_entity pdcp e ctxt_ue sdu_buffer qfi rqi)"

definition sdap_data_ind ::
    "sdap_info \<Rightarrow> int \<Rightarrow> bool \<Rightarrow> int \<Rightarrow> u64 \<Rightarrow> u8 list \<Rightarrow> (sdap_info \<times> sdap_output list) option" where
  "sdap_data_ind l pdcp_entity is_gnb pdusession_id ue_id buf =
     on_entity l ue_id pdusession_id (\<lambda>e. nr_sdap_rx_entity e pdcp_entity is_gnb pdusession_id ue_id buf)"

text \<open>What the thread of an interface does with a packet that it has read.\<close>

definition sdap_tun_read :: "(u64 \<Rightarrow> int \<Rightarrow> u8 list \<Rightarrow> bool) \<Rightarrow> nr_sdap_entity \<Rightarrow> u8 list \<Rightarrow> (bool \<times> sdap_output list) option" where
  "sdap_tun_read pdcp e packet = nr_sdap_tx_entity pdcp e (sd_ue_id e) (Some packet) (sd_qfi e) (\<not> sd_is_gnb e)"

end
