(* ===== verification/Pdcp_Manager.thy ===== *)
theory Pdcp_Manager
  imports Pdcp Sdap Rlc_Config
begin

text \<open>
  The configuration of PDCP bearers (\<^verbatim>\<open>nr_pdcp_configuration.h\<close>, \<^verbatim>\<open>asn1_utils.c\<close> of \<^verbatim>\<open>nr_pdcp\<close>, which has the same macro as the
  file of RLC) and the table of PDCP entities of all UEs (\<^verbatim>\<open>nr_pdcp_ue_manager.c\<close>). A pointer to a UE is its position in the
  list; an entity that is not freed when its UE is removed is recorded as leaked. A result \<open>None\<close> is the end of
  the process, the access of a null pointer or an access outside an array.
\<close>

section \<open>Configuration\<close>

definition VALUES_SN_SIZE :: "int list" where
  "VALUES_SN_SIZE = [12, 18]"

definition VALUES_T_REORDERING :: "int list" where
  "VALUES_T_REORDERING =
    [0, 1, 2, 4, 5, 8, 10, 15, 20, 30, 40, 50, 60, 80, 100, 120, 140, 160, 180, 200, 220, 240, 260, 280, 300, 500, 750, 1000,
     1250, 1500, 1750, 2000, 2250, 2500, 2750, 3000, -1]"

definition VALUES_DISCARD_TIMER :: "int list" where
  "VALUES_DISCARD_TIMER = [10, 20, 30, 40, 50, 60, 75, 100, 150, 200, 250, 300, 500, 750, 1500, -1]"

record NR_PDCP_Config_drb =
  pdcp_SN_SizeUL :: "int option"
  pdcp_SN_SizeDL :: "int option"
  discardTimer :: "int option"
  integrityProtection :: bool

record NR_PDCP_Config =
  pc_drb :: "NR_PDCP_Config_drb option"
  pc_t_Reordering :: "int option"
  cipheringDisabled :: bool

record NR_SRB_ToAddMod =
  srb_Identity :: int
  srb_pdcp_Config :: "NR_PDCP_Config option"

text \<open>An optional value of t-Reordering; its absence means infinity.\<close>

definition decode_t_reordering_opt :: "int option \<Rightarrow> int option" where
  "decode_t_reordering_opt t = (case t of None \<Rightarrow> Some (-1) | Some v \<Rightarrow> decode_value VALUES_T_REORDERING v)"

section \<open>UEs\<close>

record nr_pdcp_ue =
  pu_id :: u64
  pu_srb :: "nr_pdcp_entity option list"
  pu_drb :: "nr_pdcp_entity option list"

definition zero_pdcp_ue :: "u64 \<Rightarrow> nr_pdcp_ue" where
  "zero_pdcp_ue i = \<lparr>pu_id = i, pu_srb = replicate 3 None, pu_drb = replicate (nat MAX_DRBS_PER_UE) None\<rparr>"

fun pdcp_ue_position :: "nr_pdcp_ue list \<Rightarrow> u64 \<Rightarrow> nat" where
  "pdcp_ue_position [] i = 0"
| "pdcp_ue_position (u # l) i = (if pu_id u = i then 0 else Suc (pdcp_ue_position l i))"

definition nr_pdcp_manager_get_ue :: "nr_pdcp_ue list \<Rightarrow> u64 \<Rightarrow> nr_pdcp_ue list \<times> nat" where
  "nr_pdcp_manager_get_ue l i =
     (let k = pdcp_ue_position l i in (if k < length l then l else l @ [zero_pdcp_ue i], k))"

text \<open>Two SRBs and five DRBs are deleted; the second result are the other entities of the UE.\<close>

definition nr_pdcp_manager_remove_ue :: "nr_pdcp_ue list \<Rightarrow> u64 \<Rightarrow> nr_pdcp_ue list \<times> nr_pdcp_entity list" where
  "nr_pdcp_manager_remove_ue l i =
     (let k = pdcp_ue_position l i
      in if k = length l then (l, [])
         else (take k l @ drop (Suc k) l, List.map_filter id (drop 2 (pu_srb (l ! k)) @ drop 5 (pu_drb (l ! k)))))"

definition nr_pdcp_ue_add_srb_pdcp_entity :: "nr_pdcp_ue \<Rightarrow> int \<Rightarrow> nr_pdcp_entity \<Rightarrow> nr_pdcp_ue option" where
  "nr_pdcp_ue_add_srb_pdcp_entity ue srb_id entity =
     (if srb_id < 1 \<or> srb_id > 2 then None
      else let k = nat (srb_id - 1)
           in if pu_srb ue ! k \<noteq> None then None else Some (ue\<lparr>pu_srb := (pu_srb ue)[k := Some entity]\<rparr>))"

definition nr_pdcp_ue_add_drb_pdcp_entity :: "nr_pdcp_ue \<Rightarrow> int \<Rightarrow> nr_pdcp_entity \<Rightarrow> nr_pdcp_ue option" where
  "nr_pdcp_ue_add_drb_pdcp_entity ue drb_id entity =
     (if drb_id < 1 \<or> drb_id > MAX_DRBS_PER_UE then None
      else let k = nat (drb_id - 1)
           in if pu_drb ue ! k \<noteq> None then None else Some (ue\<lparr>pu_drb := (pu_drb ue)[k := Some entity]\<rparr>))"

definition nr_pdcp_get_first_ue_id :: "nr_pdcp_ue list \<Rightarrow> u64 option" where
  "nr_pdcp_get_first_ue_id l = (case l of [] \<Rightarrow> None | u # _ \<Rightarrow> Some (pu_id u))"

definition nr_pdcp_manager_get_ue_count :: "nr_pdcp_ue list \<Rightarrow> int" where
  "nr_pdcp_manager_get_ue_count l = int (length l)"

section \<open>Finding UEs\<close>

definition find_pdcp_ue :: "nr_pdcp_ue list \<Rightarrow> u64 \<Rightarrow> nr_pdcp_ue option" where
  "find_pdcp_ue l i = List.find (\<lambda>u. pu_id u = i) l"

lemma pdcp_position_le: "pdcp_ue_position l i \<le> length l"
  by (induction l) auto

lemma pdcp_position_id: "pdcp_ue_position l i < length l \<Longrightarrow> pu_id (l ! pdcp_ue_position l i) = i"
  by (induction l) auto

lemma find_pdcp_position:
  "find_pdcp_ue l i = (let k = pdcp_ue_position l i in if k < length l then Some (l ! k) else None)"
  by (induction l) (auto simp: find_pdcp_ue_def Let_def)

lemma pdcp_position_append:
  "pdcp_ue_position (l @ l') i = (if pdcp_ue_position l i < length l then pdcp_ue_position l i else length l + pdcp_ue_position l' i)"
  by (induction l) auto

lemma find_pdcp_append: "find_pdcp_ue (l @ l') i = (case find_pdcp_ue l i of None \<Rightarrow> find_pdcp_ue l' i | Some u \<Rightarrow> Some u)"
  by (induction l) (auto simp: find_pdcp_ue_def)

lemma find_pdcp_id: "find_pdcp_ue l i = Some u \<Longrightarrow> pu_id u = i \<and> u \<in> set l"
  by (induction l) (auto simp: find_pdcp_ue_def split: if_splits)

text \<open>The UE that a call works on: the one in the table or a new one.\<close>

definition pdcp_ue_or_new :: "nr_pdcp_ue list \<Rightarrow> u64 \<Rightarrow> nr_pdcp_ue" where
  "pdcp_ue_or_new l i = (case find_pdcp_ue l i of None \<Rightarrow> zero_pdcp_ue i | Some u \<Rightarrow> u)"

lemma get_pdcp_ue:
  assumes "nr_pdcp_manager_get_ue l i = (l', k)"
  shows "k < length l'" and "l' ! k = pdcp_ue_or_new l i" and "pu_id (l' ! k) = i" and "k = pdcp_ue_position l' i"
proof -
  have "pdcp_ue_position l i = length l" if "\<not> pdcp_ue_position l i < length l" using that pdcp_position_le [of l i] by simp
  then show "k < length l'" "l' ! k = pdcp_ue_or_new l i" "pu_id (l' ! k) = i" "k = pdcp_ue_position l' i"
    using assms pdcp_position_id [of l i]
    by (auto simp: nr_pdcp_manager_get_ue_def Let_def pdcp_ue_or_new_def find_pdcp_position zero_pdcp_ue_def nth_append pdcp_position_append split: if_splits)
qed

lemma find_pdcp_update:
  assumes "pu_id u = i"
  shows "find_pdcp_ue ((fst (nr_pdcp_manager_get_ue l i))[snd (nr_pdcp_manager_get_ue l i) := u]) j =
    (if j = i then Some u else find_pdcp_ue l j)"
proof (induction l)
  case Nil
  then show ?case using assms by (simp add: nr_pdcp_manager_get_ue_def find_pdcp_ue_def)
next
  case (Cons v l)
  then show ?case using assms by (auto simp: nr_pdcp_manager_get_ue_def find_pdcp_ue_def Let_def split: if_splits)
qed

lemma ids_pdcp_update:
  assumes "pu_id u = i" and "distinct (map pu_id l)"
  shows "distinct (map pu_id ((fst (nr_pdcp_manager_get_ue l i))[snd (nr_pdcp_manager_get_ue l i) := u]))"
proof -
  let ?k = "pdcp_ue_position l i"
  have "i \<notin> set (map pu_id l)" if "\<not> ?k < length l" using that by (induction l) (auto split: if_splits)
  moreover have "map pu_id (l[?k := u]) = map pu_id l" if "?k < length l"
    using assms(1) pdcp_position_id [OF that] by (simp add: map_update list_update_same_conv that)
  moreover have "(l @ [zero_pdcp_ue i])[?k := u] = l @ [u]" if "\<not> ?k < length l"
    using that pdcp_position_le [of l i] by (simp add: list_update_append)
  ultimately show ?thesis using assms by (simp add: nr_pdcp_manager_get_ue_def Let_def)
qed

lemma find_pdcp_remove:
  "j \<noteq> i \<Longrightarrow> find_pdcp_ue (fst (nr_pdcp_manager_remove_ue l i)) j = find_pdcp_ue l j"
  by (induction l) (auto simp: nr_pdcp_manager_remove_ue_def find_pdcp_ue_def Let_def split: if_splits)

lemma remove_pdcp_subset: "set (fst (nr_pdcp_manager_remove_ue l i)) \<subseteq> set l"
  by (auto simp: nr_pdcp_manager_remove_ue_def Let_def dest: in_set_takeD in_set_dropD)

lemma remove_pdcp_distinct: "distinct (map pu_id l) \<Longrightarrow> distinct (map pu_id (fst (nr_pdcp_manager_remove_ue l i)))"
  by (induction l) (auto simp: nr_pdcp_manager_remove_ue_def Let_def split: if_splits dest: in_set_takeD in_set_dropD)

end
