(* ===== verification/Work_Queue.thy ===== *)
theory Work_Queue
  imports Prelude
begin

text \<open>
  The two queues between RLC and PDCP (\<^verbatim>\<open>rlc_data_req_queue\<close> and \<^verbatim>\<open>pdcp_data_ind_queue\<close> of \<^verbatim>\<open>nr_pdcp_oai_api.c\<close>) and the
  threads that empty them. Both are rings of fixed size with a start and a length under a mutex. The thread
  looks at the first item while it holds the mutex, works on it without the mutex, and removes it under the
  mutex again, so that items may be added in between. The size is an argument.
\<close>

section \<open>The ring\<close>

record 'a ring =
  ring_q :: "nat \<Rightarrow> 'a option"
  ring_start :: nat
  ring_length :: nat

text \<open>The state of the thread: before the removal it has taken the item at an index, and then has worked on it.\<close>

datatype consumer = Idle | Taken nat | Worked

record 'a work_queue =
  wq_ring :: "'a ring"
  wq_thread :: consumer

definition new_work_queue :: "'a work_queue" where
  "new_work_queue = \<lparr>wq_ring = \<lparr>ring_q = (\<lambda>_. None), ring_start = 0, ring_length = 0\<rparr>, wq_thread = Idle\<rparr>"

text \<open>
  The result \<open>None\<close> is a wait: for space here, for an item below. A step is possible whenever its condition
  holds; waiting on and signalling the condition variable is not modelled, so a lost wake-up cannot be expressed.
\<close>

definition ring_enqueue :: "nat \<Rightarrow> 'a ring \<Rightarrow> 'a \<Rightarrow> 'a ring option" where
  "ring_enqueue sz r x =
     (if ring_length r = sz then None
      else let i = (ring_start r + ring_length r) mod sz
           in Some (r\<lparr>ring_length := ring_length r + 1, ring_q := (ring_q r)(i \<mapsto> x)\<rparr>))"

definition queue_put :: "nat \<Rightarrow> 'a work_queue \<Rightarrow> 'a \<Rightarrow> 'a work_queue option" where
  "queue_put sz s x = map_option (\<lambda>r. s\<lparr>wq_ring := r\<rparr>) (ring_enqueue sz (wq_ring s) x)"

definition queue_take :: "'a work_queue \<Rightarrow> 'a work_queue option" where
  "queue_take s =
     (if wq_thread s \<noteq> Idle \<or> ring_length (wq_ring s) = 0 then None else Some (s\<lparr>wq_thread := Taken (ring_start (wq_ring s))\<rparr>))"

text \<open>The item that the thread works on, and the state after the work.\<close>

definition queue_item :: "'a work_queue \<Rightarrow> 'a option" where
  "queue_item s = (case wq_thread s of Taken i \<Rightarrow> ring_q (wq_ring s) i | _ \<Rightarrow> None)"

definition queue_worked :: "'a work_queue \<Rightarrow> 'a work_queue" where
  "queue_worked s = s\<lparr>wq_thread := Worked\<rparr>"

definition queue_remove :: "nat \<Rightarrow> 'a work_queue \<Rightarrow> 'a work_queue option" where
  "queue_remove sz s =
     (if wq_thread s \<noteq> Worked then None
      else Some (s\<lparr>wq_thread := Idle,
        wq_ring := (wq_ring s)\<lparr>ring_length := ring_length (wq_ring s) - 1, ring_start := (ring_start (wq_ring s) + 1) mod sz\<rparr>\<rparr>))"

section \<open>The contract\<close>

text \<open>
  A queue that is emptied by one thread, seen from outside: \<open>todo\<close> are the items on which the thread has not
  worked yet, in order.
\<close>

locale one_worker =
  fixes good :: "'s \<Rightarrow> bool" and todo :: "'s \<Rightarrow> 'a list" and put :: "'s \<Rightarrow> 'a \<Rightarrow> 's option"
    and take_next :: "'s \<Rightarrow> 's option" and item :: "'s \<Rightarrow> 'a option" and worked :: "'s \<Rightarrow> 's" and remove :: "'s \<Rightarrow> 's option"
  assumes put_law: "good s \<Longrightarrow> put s x = Some s' \<Longrightarrow> good s' \<and> todo s' = todo s @ [x]"
    and take_law: "good s \<Longrightarrow> take_next s = Some s' \<Longrightarrow> good s' \<and> todo s' = todo s"
    and item_law: "good s \<Longrightarrow> item s = Some x \<Longrightarrow> good (worked s) \<and> todo s = x # todo (worked s)"
    and remove_law: "good s \<Longrightarrow> remove s = Some s' \<Longrightarrow> good s' \<and> todo s' = todo s"
    and progress: "good s \<Longrightarrow> todo s \<noteq> [] \<Longrightarrow> take_next s \<noteq> None \<or> item s \<noteq> None \<or> remove s \<noteq> None"
begin

text \<open>Any number of items are put into the queue while the thread works; \<open>(added, done)\<close> is what was put and worked on.\<close>

inductive served :: "'s \<Rightarrow> 'a list \<Rightarrow> 'a list \<Rightarrow> 's \<Rightarrow> bool" for s0 where
  start: "served s0 [] [] s0"
| put: "served s0 xs ys s \<Longrightarrow> put s x = Some s' \<Longrightarrow> served s0 (xs @ [x]) ys s'"
| take_next: "served s0 xs ys s \<Longrightarrow> take_next s = Some s' \<Longrightarrow> served s0 xs ys s'"
| work: "served s0 xs ys s \<Longrightarrow> item s = Some y \<Longrightarrow> served s0 xs (ys @ [y]) (worked s)"
| remove: "served s0 xs ys s \<Longrightarrow> remove s = Some s' \<Longrightarrow> served s0 xs ys s'"

lemma in_order_once:
  assumes "served s0 xs ys s" and "good s0"
  shows "good s \<and> ys @ todo s = todo s0 @ xs"
  using assms
proof induction
  case (put xs ys s x s')
  then show ?case using put_law by fastforce
next
  case (take_next xs ys s s')
  then show ?case using take_law by fastforce
next
  case (work xs ys s y)
  then show ?case using item_law by fastforce
next
  case (remove xs ys s s')
  then show ?case using remove_law by fastforce
qed simp

end

section \<open>The rings satisfy it\<close>

definition ring_items :: "nat \<Rightarrow> 'a ring \<Rightarrow> 'a option list" where
  "ring_items sz r = map (\<lambda>k. ring_q r ((ring_start r + k) mod sz)) [0..<ring_length r]"

definition ring_ok :: "nat \<Rightarrow> 'a ring \<Rightarrow> bool" where
  "ring_ok sz r \<longleftrightarrow> 0 < sz \<and> ring_start r < sz \<and> ring_length r \<le> sz \<and> None \<notin> set (ring_items sz r)"

definition wq_ok :: "nat \<Rightarrow> 'a work_queue \<Rightarrow> bool" where
  "wq_ok sz s \<longleftrightarrow> ring_ok sz (wq_ring s) \<and>
     (case wq_thread s of Idle \<Rightarrow> True | Taken i \<Rightarrow> i = ring_start (wq_ring s) \<and> ring_length (wq_ring s) > 0 | Worked \<Rightarrow> ring_length (wq_ring s) > 0)"

definition queue_todo :: "nat \<Rightarrow> 'a work_queue \<Rightarrow> 'a list" where
  "queue_todo sz s =
     map the ((if wq_thread s = Worked then tl else id) (ring_items sz (wq_ring s)))"

lemma ring_items_nth: "k < ring_length r \<Longrightarrow> ring_items sz r ! k = ring_q r ((ring_start r + k) mod sz)"
  by (simp add: ring_items_def)

lemma ring_distinct_slots:
  assumes "i < sz" "k < n" "n < sz"
  shows "(i + k) mod sz \<noteq> (i + n) mod (sz :: nat)"
proof
  assume "(i + k) mod sz = (i + n) mod sz"
  then have "sz dvd (n - k)" using assms mod_eq_dvd_iff_nat [of "i + k" "i + n" sz] by simp
  then show False using assms by (auto dest: dvd_imp_le)
qed

lemma ring_enqueue_items:
  assumes "ring_ok sz r" and "ring_enqueue sz r x = Some r'"
  shows "ring_ok sz r' \<and> ring_items sz r' = ring_items sz r @ [Some x] \<and> ring_start r' = ring_start r \<and> ring_length r' = ring_length r + 1"
proof -
  let ?i = "(ring_start r + ring_length r) mod sz"
  have r: "ring_start r < sz" "ring_length r < sz" "None \<notin> set (ring_items sz r)"
    and r': "r' = r\<lparr>ring_length := ring_length r + 1, ring_q := (ring_q r)(?i \<mapsto> x)\<rparr>"
    using assms by (auto simp: ring_ok_def ring_enqueue_def Let_def split: if_splits)
  have "ring_q r' ((ring_start r + k) mod sz) = ring_q r ((ring_start r + k) mod sz)" if "k < ring_length r" for k
    using ring_distinct_slots [OF r(1) that r(2)] by (simp add: r')
  then have "ring_items sz r' = ring_items sz r @ [Some x]" by (simp add: ring_items_def r')
  then show ?thesis using r by (simp add: ring_ok_def r')
qed

lemma ring_items_Cons:
  assumes "ring_length r > 0" and "ring_start r < sz"
  shows "ring_items sz r = ring_q r (ring_start r) #
    ring_items sz (r\<lparr>ring_length := ring_length r - 1, ring_start := (ring_start r + 1) mod sz\<rparr>)"
proof -
  have "[0..<ring_length r] = 0 # map Suc [0..<ring_length r - 1]" using assms(1) by (simp add: map_Suc_upt upt_conv_Cons)
  then show ?thesis using assms(2) by (simp add: ring_items_def mod_simps del: upt_Suc)
qed

interpretation ring_worker: one_worker "wq_ok sz" "queue_todo sz" "queue_put sz" queue_take queue_item queue_worked "queue_remove sz" for sz
proof
  fix s s' :: "'a work_queue" and x
  let ?r = "wq_ring s"
  assume ok: "wq_ok sz s"
  have r: "ring_ok sz ?r" "ring_start ?r < sz" using ok by (auto simp: wq_ok_def ring_ok_def)
  show "wq_ok sz s' \<and> queue_todo sz s' = queue_todo sz s @ [x]" if p: "queue_put sz s x = Some s'"
  proof -
    obtain r' where r': "ring_enqueue sz ?r x = Some r'" "s' = s\<lparr>wq_ring := r'\<rparr>" using p by (auto simp: queue_put_def)
    note e = ring_enqueue_items [OF r(1) r'(1)]
    have "wq_ok sz s'" using ok e r'(2) by (auto simp: wq_ok_def split: consumer.splits)
    moreover have "wq_thread s = Worked \<Longrightarrow> ring_items sz ?r \<noteq> []" using ok by (simp add: wq_ok_def ring_items_def)
    ultimately show ?thesis using e r'(2) by (simp add: queue_todo_def)
  qed
  show "wq_ok sz s' \<and> queue_todo sz s' = queue_todo sz s" if "queue_take s = Some s'"
    using that ok by (auto simp: queue_take_def wq_ok_def queue_todo_def split: if_splits)
  show "wq_ok sz (queue_worked s) \<and> queue_todo sz s = x # queue_todo sz (queue_worked s)" if i: "queue_item s = Some x"
  proof -
    have t: "wq_thread s = Taken (ring_start ?r)" "ring_length ?r > 0" "ring_q ?r (ring_start ?r) = Some x"
      using i ok by (auto simp: queue_item_def wq_ok_def split: consumer.splits)
    show ?thesis using t ok ring_items_Cons [OF t(2) r(2)] by (simp add: wq_ok_def queue_todo_def queue_worked_def)
  qed
  show "wq_ok sz s' \<and> queue_todo sz s' = queue_todo sz s" if m: "queue_remove sz s = Some s'"
  proof -
    have t: "wq_thread s = Worked" "ring_length ?r > 0" using m ok by (auto simp: queue_remove_def wq_ok_def split: if_splits)
    let ?r' = "?r\<lparr>ring_length := ring_length ?r - 1, ring_start := (ring_start ?r + 1) mod sz\<rparr>"
    have s': "s' = s\<lparr>wq_thread := Idle, wq_ring := ?r'\<rparr>" using m t(1) by (simp add: queue_remove_def)
    note c = ring_items_Cons [OF t(2) r(2)]
    have "ring_ok sz ?r'" using r(1) c by (auto simp: ring_ok_def)
    then show ?thesis using s' c t(1) by (simp add: wq_ok_def queue_todo_def)
  qed
  show "queue_take s \<noteq> None \<or> queue_item s \<noteq> None \<or> queue_remove sz s \<noteq> None" if n: "queue_todo sz s \<noteq> []"
  proof (cases "wq_thread s")
    case Idle
    then show ?thesis using n by (simp add: queue_take_def queue_todo_def ring_items_def)
  next
    case (Taken i)
    then have "ring_length ?r > 0" "i = ring_start ?r" using ok by (auto simp: wq_ok_def)
    moreover have "ring_q ?r (ring_start ?r) \<noteq> None"
      using r(1) ring_items_Cons [OF calculation(1) r(2)] unfolding ring_ok_def by (metis list.set_intros(1))
    ultimately show ?thesis using Taken by (simp add: queue_item_def)
  qed (simp add: queue_remove_def)
qed

lemma new_work_queue_ok: "0 < sz \<Longrightarrow> wq_ok sz new_work_queue \<and> queue_todo sz new_work_queue = []"
  by (simp add: new_work_queue_def wq_ok_def queue_todo_def ring_ok_def ring_items_def)

lemma queue_put_waits: "queue_put sz s x = None \<longleftrightarrow> ring_length (wq_ring s) = sz"
  by (simp add: queue_put_def ring_enqueue_def Let_def)

section \<open>Runs of a queue\<close>

datatype 'a queue_event = Put 'a | Take | Work | Remove

text \<open>Callers put items while the thread works; the result has the items that were put and those that were worked on.\<close>

fun queue_run :: "nat \<Rightarrow> 'a work_queue \<Rightarrow> 'a queue_event list \<Rightarrow> ('a work_queue \<times> 'a list \<times> 'a list) option" where
  "queue_run sz s [] = Some (s, [], [])"
| "queue_run sz s (Put x # evs) = Option.bind (queue_put sz s x) (\<lambda>s. map_option (\<lambda>(s, added, worked). (s, x # added, worked)) (queue_run sz s evs))"
| "queue_run sz s (Take # evs) = Option.bind (queue_take s) (\<lambda>s. queue_run sz s evs)"
| "queue_run sz s (Work # evs) =
     Option.bind (queue_item s) (\<lambda>x. map_option (\<lambda>(s, added, worked). (s, added, x # worked)) (queue_run sz (queue_worked s) evs))"
| "queue_run sz s (Remove # evs) = Option.bind (queue_remove sz s) (\<lambda>s. queue_run sz s evs)"

lemma queue_run_in_order:
  assumes "queue_run sz s0 evs = Some (s, added, worked)" and "ring_worker.served sz s1 xs ys s0"
  shows "ring_worker.served sz s1 (xs @ added) (ys @ worked) s"
  using assms
proof (induction sz s0 evs arbitrary: added worked xs ys rule: queue_run.induct)
  case (2 sz s0 x evs)
  then obtain s' a where p: "queue_put sz s0 x = Some s'" "queue_run sz s' evs = Some (s, a, worked)" "added = x # a" by (auto split: Option.bind_splits)
  show ?case using "2.IH" [OF p(1,2) ring_worker.served.put [OF "2.prems"(2) p(1)]] p(3) by simp
next
  case (3 sz s0 evs)
  then obtain s' where p: "queue_take s0 = Some s'" "queue_run sz s' evs = Some (s, added, worked)" by (auto split: Option.bind_splits)
  show ?case by (rule "3.IH" [OF p ring_worker.served.take_next [OF "3.prems"(2) p(1)]])
next
  case (4 sz s0 evs)
  then obtain x w where p: "queue_item s0 = Some x" "queue_run sz (queue_worked s0) evs = Some (s, added, w)" "worked = x # w"
    by (auto split: Option.bind_splits)
  show ?case using "4.IH" [OF p(1,2) ring_worker.served.work [OF "4.prems"(2) p(1)]] p(3) by simp
next
  case (5 sz s0 evs)
  then obtain s' where p: "queue_remove sz s0 = Some s'" "queue_run sz s' evs = Some (s, added, worked)" by (auto split: Option.bind_splits)
  show ?case by (rule "5.IH" [OF p ring_worker.served.remove [OF "5.prems"(2) p(1)]])
qed simp

end
