(* ===== verification/Pdcp_Api.thy ===== *)
theory Pdcp_Api
  imports Pdcp_Manager Work_Queue
begin

text \<open>
  The interface of PDCP to RLC, SDAP, RRC and F1 (\<^verbatim>\<open>nr_pdcp_oai_api.c\<close>, \<^verbatim>\<open>nr_pdcp_timer_thread.c\<close>). The state is the table of UEs,
  the two queues with their threads, the callers that are about to put a PDU into the queue to RLC, the clock
  of the timer thread, and what PDCP has handed to the layers above and to GTP-U. The manager lock is held
  over each operation on the table. The cryptographic library, the kind of the node and the table from UE
  identifiers of the CU to those of the DU (\<^verbatim>\<open>f1ap_ids.c\<close>) are arguments. Log messages and traces are left out.
\<close>

section \<open>State\<close>

record f1_ue_data =
  secondary_ue :: u32
  du_assoc_id :: int

record pdcp_node =
  nd_crypto :: crypto_env
  nd_is_cu :: bool
  nd_use_tun :: bool
  nd_cu2du :: "u32 \<Rightarrow> f1_ue_data option"

datatype pdcp_upcall =
    Sdap_data_ind int bool int u64 "u8 list"
  | Sdap_release_drb u64 int int
  | F1_ul_rrc_message u64 u32 int int "u8 list"
  | Rrc_dcch_data_ind u64 int "u8 list" nr_pdcp_integrity_data
  | Gtp_send_nru u64 int "u8 list"

record protocol_ctxt =
  ctx_module_id :: int
  ctx_enb_flag :: bool
  ctx_instance :: int
  ctx_ue :: u64
  ctx_eNB_index :: int
  ctx_brOption :: bool

definition plain_ctxt :: "bool \<Rightarrow> u64 \<Rightarrow> protocol_ctxt" where
  "plain_ctxt enb_flag i =
     \<lparr>ctx_module_id = 0, ctx_enb_flag = enb_flag, ctx_instance = 0, ctx_ue = i, ctx_eNB_index = 0, ctx_brOption = False\<rparr>"

record rlc_data_req_item =
  rq_ctxt :: protocol_ctxt
  rq_srb_flag :: bool
  rq_rb_id :: int
  rq_mui :: int
  rq_sdu :: "u8 list"

record pdcp_data_ind_item =
  di_ctxt :: protocol_ctxt
  di_srb_flag :: bool
  di_rb_id :: int
  di_sdu :: "u8 list"

definition RLC_DATA_REQ_QUEUE_SIZE :: nat where "RLC_DATA_REQ_QUEUE_SIZE = 10000"

definition PDCP_DATA_IND_QUEUE_SIZE :: nat where "PDCP_DATA_IND_QUEUE_SIZE = 10000"

record nr_pdcp_state =
  pdcp_ue_list :: "nr_pdcp_ue list"
  pdcp_leaked :: "nr_pdcp_entity list"
  req_callers :: "rlc_data_req_item list"
  req_queue :: "rlc_data_req_item work_queue"
  ind_queue :: "pdcp_data_ind_item work_queue"
  timer_thread_curtime :: u64
  thread_curtime :: u64
  pdcp_upcalls :: "pdcp_upcall list"

definition new_nr_pdcp_state :: nr_pdcp_state where
  "new_nr_pdcp_state =
     \<lparr>pdcp_ue_list = [], pdcp_leaked = [], req_callers = [], req_queue = new_work_queue, ind_queue = new_work_queue,
      timer_thread_curtime = 0, thread_curtime = 0, pdcp_upcalls = []\<rparr>"

definition nr_pdcp_layer_init :: "nr_pdcp_state option \<Rightarrow> nr_pdcp_state" where
  "nr_pdcp_layer_init st = (case st of Some st \<Rightarrow> st | None \<Rightarrow> new_nr_pdcp_state)"

section \<open>The queues\<close>

text \<open>A caller of \<^verbatim>\<open>enqueue_rlc_data_req\<close> goes on when there is room.\<close>

definition enqueue_rlc_data_req :: "nr_pdcp_state \<Rightarrow> nat \<Rightarrow> nr_pdcp_state option" where
  "enqueue_rlc_data_req st k =
     (if k < length (req_callers st)
      then map_option (\<lambda>q. st\<lparr>req_queue := q, req_callers := take k (req_callers st) @ drop (Suc k) (req_callers st)\<rparr>)
             (queue_put RLC_DATA_REQ_QUEUE_SIZE (req_queue st) (req_callers st ! k))
      else None)"

definition call_rlc :: "nr_pdcp_state \<Rightarrow> rlc_data_req_item \<Rightarrow> nr_pdcp_state" where
  "call_rlc st x = st\<lparr>req_callers := req_callers st @ [x]\<rparr>"

definition rlc_data_req_thread_take :: "nr_pdcp_state \<Rightarrow> nr_pdcp_state option" where
  "rlc_data_req_thread_take st = map_option (\<lambda>q. st\<lparr>req_queue := q\<rparr>) (queue_take (req_queue st))"

text \<open>The arguments of the call of \<^verbatim>\<open>nr_rlc_data_req\<close>; RLC reads the identifier as a signed integer.\<close>

definition rlc_data_req_thread_call :: "nr_pdcp_state \<Rightarrow> (nr_pdcp_state \<times> int \<times> bool \<times> int \<times> int \<times> u8 list) option" where
  "rlc_data_req_thread_call st =
     map_option (\<lambda>x. (st\<lparr>req_queue := queue_worked (req_queue st)\<rparr>,
         sint (ucast (ctx_ue (rq_ctxt x)) :: u32), rq_srb_flag x, rq_rb_id x, rq_mui x, rq_sdu x))
       (queue_item (req_queue st))"

definition rlc_data_req_thread_remove :: "nr_pdcp_state \<Rightarrow> nr_pdcp_state option" where
  "rlc_data_req_thread_remove st = map_option (\<lambda>q. st\<lparr>req_queue := q\<rparr>) (queue_remove RLC_DATA_REQ_QUEUE_SIZE (req_queue st))"

definition enqueue_pdcp_data_ind :: "nr_pdcp_state \<Rightarrow> pdcp_data_ind_item \<Rightarrow> nr_pdcp_state option" where
  "enqueue_pdcp_data_ind st x = map_option (\<lambda>q. st\<lparr>ind_queue := q\<rparr>) (queue_put PDCP_DATA_IND_QUEUE_SIZE (ind_queue st) x)"

definition nr_pdcp_data_ind :: "nr_pdcp_state \<Rightarrow> protocol_ctxt \<Rightarrow> bool \<Rightarrow> int \<Rightarrow> u8 list \<Rightarrow> nr_pdcp_state option" where
  "nr_pdcp_data_ind st ctxt srb_flag rb_id buf =
     enqueue_pdcp_data_ind st \<lparr>di_ctxt = ctxt, di_srb_flag = srb_flag, di_rb_id = rb_id, di_sdu = buf\<rparr>"

definition cu_f1u_data_req :: "nr_pdcp_state \<Rightarrow> protocol_ctxt \<Rightarrow> bool \<Rightarrow> int \<Rightarrow> u8 list \<Rightarrow> nr_pdcp_state option" where
  "cu_f1u_data_req st ctxt srb_flag rb_id buf = nr_pdcp_data_ind st (ctxt\<lparr>ctx_instance := 0\<rparr>) srb_flag rb_id buf"

section \<open>Radio bearers of a UE\<close>

definition nr_pdcp_get_rb :: "nr_pdcp_ue \<Rightarrow> int \<Rightarrow> bool \<Rightarrow> nr_pdcp_entity option" where
  "nr_pdcp_get_rb ue rb_id srb_flag =
     (if srb_flag then if rb_id < 1 \<or> rb_id > 2 then None else pu_srb ue ! nat (rb_id - 1)
      else if rb_id < 1 \<or> rb_id > MAX_DRBS_PER_UE then None else pu_drb ue ! nat (rb_id - 1))"

definition put_rb :: "nr_pdcp_ue \<Rightarrow> int \<Rightarrow> bool \<Rightarrow> nr_pdcp_entity option \<Rightarrow> nr_pdcp_ue" where
  "put_rb ue rb_id srb_flag e =
     (if srb_flag then ue\<lparr>pu_srb := (pu_srb ue)[nat (rb_id - 1) := e]\<rparr> else ue\<lparr>pu_drb := (pu_drb ue)[nat (rb_id - 1) := e]\<rparr>)"

section \<open>Callbacks of the entities\<close>

definition deliver_sdu_drb :: "pdcp_node \<Rightarrow> nr_pdcp_ue \<Rightarrow> int \<Rightarrow> nr_pdcp_entity \<Rightarrow> nr_pdcp_sdu \<Rightarrow> pdcp_upcall" where
  "deliver_sdu_drb nd ue rb_id e sdu =
     (if nd_use_tun nd then Sdap_data_ind (pdcp_rb_id e) False (pdcp_pdusession_id e) (pu_id ue) (sdu_buffer sdu)
      else Sdap_data_ind rb_id (pdcp_is_gnb e) (pdcp_pdusession_id e) (pu_id ue) (sdu_buffer sdu))"

definition cu_get_f1_ue_data :: "pdcp_node \<Rightarrow> u64 \<Rightarrow> f1_ue_data option" where
  "cu_get_f1_ue_data nd i = nd_cu2du nd (ucast i)"

definition deliver_sdu_srb :: "pdcp_node \<Rightarrow> nr_pdcp_ue \<Rightarrow> int \<Rightarrow> nr_pdcp_entity \<Rightarrow> nr_pdcp_sdu \<Rightarrow> pdcp_upcall option" where
  "deliver_sdu_srb nd ue srb_id e sdu =
     (if pdcp_is_gnb e
      then map_option (\<lambda>d. F1_ul_rrc_message (pu_id ue) (secondary_ue d) (du_assoc_id d) srb_id (sdu_buffer sdu)) (cu_get_f1_ue_data nd (pu_id ue))
      else Some (Rrc_dcch_data_ind (pu_id ue) srb_id (sdu_buffer sdu) (sdu_msg_integrity sdu)))"

fun deliver_all_up :: "pdcp_node \<Rightarrow> nr_pdcp_ue \<Rightarrow> int \<Rightarrow> bool \<Rightarrow> nr_pdcp_entity \<Rightarrow> nr_pdcp_sdu list \<Rightarrow> pdcp_upcall list option" where
  "deliver_all_up nd ue rb_id srb_flag e [] = Some []"
| "deliver_all_up nd ue rb_id srb_flag e (s # l) =
     Option.bind (if srb_flag then deliver_sdu_srb nd ue rb_id e s else Some (deliver_sdu_drb nd ue rb_id e s))
       (\<lambda>u. map_option (Cons u) (deliver_all_up nd ue rb_id srb_flag e l))"

definition pdcp_new_upcalls :: "pdcp_node \<Rightarrow> nr_pdcp_ue \<Rightarrow> int \<Rightarrow> bool \<Rightarrow> nr_pdcp_entity \<Rightarrow> nr_pdcp_entity \<Rightarrow> pdcp_upcall list option" where
  "pdcp_new_upcalls nd ue rb_id srb_flag e e' =
     deliver_all_up nd ue rb_id srb_flag e (drop (length (pdcp_delivered e)) (pdcp_delivered e'))"

text \<open>An operation of the entity of a bearer with its deliveries; \<open>y\<close> is the answer when there is none.\<close>

definition on_ue_rb ::
    "pdcp_node \<Rightarrow> nr_pdcp_ue \<Rightarrow> int \<Rightarrow> bool \<Rightarrow> 'a \<Rightarrow> (nr_pdcp_entity \<Rightarrow> (nr_pdcp_entity \<times> 'a) option) \<Rightarrow>
     (nr_pdcp_ue \<times> pdcp_upcall list \<times> 'a) option" where
  "on_ue_rb nd ue rb_id srb_flag y f =
     (case nr_pdcp_get_rb ue rb_id srb_flag of
        None \<Rightarrow> Some (ue, [], y)
      | Some e \<Rightarrow>
          Option.bind (f e) (\<lambda>(e', x).
            map_option (\<lambda>ups. (put_rb ue rb_id srb_flag (Some e'), ups, x)) (pdcp_new_upcalls nd ue rb_id srb_flag e e')))"

text \<open>An operation on a UE of the table, which is made if it is not there.\<close>

definition with_pdcp_ue ::
    "nr_pdcp_state \<Rightarrow> u64 \<Rightarrow> (nr_pdcp_ue \<Rightarrow> (nr_pdcp_ue \<times> pdcp_upcall list \<times> 'a) option) \<Rightarrow> (nr_pdcp_state \<times> 'a) option" where
  "with_pdcp_ue st i f =
     (let (l, k) = nr_pdcp_manager_get_ue (pdcp_ue_list st) i
      in map_option (\<lambda>(ue, ups, x). (st\<lparr>pdcp_ue_list := l[k := ue], pdcp_upcalls := pdcp_upcalls st @ ups\<rparr>, x)) (f (l ! k)))"

definition on_pdcp_rb ::
    "pdcp_node \<Rightarrow> nr_pdcp_state \<Rightarrow> u64 \<Rightarrow> int \<Rightarrow> bool \<Rightarrow> 'a \<Rightarrow> (nr_pdcp_entity \<Rightarrow> (nr_pdcp_entity \<times> 'a) option) \<Rightarrow> (nr_pdcp_state \<times> 'a) option" where
  "on_pdcp_rb nd st i rb_id srb_flag y f = with_pdcp_ue st i (\<lambda>ue. on_ue_rb nd ue rb_id srb_flag y f)"

section \<open>Reception\<close>

definition do_pdcp_data_ind :: "pdcp_node \<Rightarrow> nr_pdcp_state \<Rightarrow> protocol_ctxt \<Rightarrow> bool \<Rightarrow> int \<Rightarrow> u8 list \<Rightarrow> nr_pdcp_state option" where
  "do_pdcp_data_ind nd st ctxt srb_flag rb_id buf =
     (if ctx_module_id ctxt \<noteq> 0 \<or> ctx_instance ctxt \<noteq> 0 \<or> ctx_eNB_index ctxt \<noteq> 0 \<or> ctx_brOption ctxt then None
      else map_option fst (on_pdcp_rb nd st (ctx_ue ctxt) rb_id srb_flag ()
             (\<lambda>e. map_option (\<lambda>e. (e, ())) (nr_pdcp_entity_recv_pdu (nd_crypto nd) e buf))))"

definition pdcp_data_ind_thread_take :: "nr_pdcp_state \<Rightarrow> nr_pdcp_state option" where
  "pdcp_data_ind_thread_take st = map_option (\<lambda>q. st\<lparr>ind_queue := q\<rparr>) (queue_take (ind_queue st))"

definition pdcp_data_ind_thread_call :: "pdcp_node \<Rightarrow> nr_pdcp_state \<Rightarrow> nr_pdcp_state option" where
  "pdcp_data_ind_thread_call nd st =
     Option.bind (queue_item (ind_queue st)) (\<lambda>x.
       do_pdcp_data_ind nd (st\<lparr>ind_queue := queue_worked (ind_queue st)\<rparr>) (di_ctxt x) (di_srb_flag x) (di_rb_id x) (di_sdu x))"

definition pdcp_data_ind_thread_remove :: "nr_pdcp_state \<Rightarrow> nr_pdcp_state option" where
  "pdcp_data_ind_thread_remove st = map_option (\<lambda>q. st\<lparr>ind_queue := q\<rparr>) (queue_remove PDCP_DATA_IND_QUEUE_SIZE (ind_queue st))"

section \<open>Transmission\<close>

definition deliver_pdu_drb_ue :: "nr_pdcp_state \<Rightarrow> u64 \<Rightarrow> int \<Rightarrow> u8 list \<Rightarrow> int \<Rightarrow> nr_pdcp_state" where
  "deliver_pdu_drb_ue st i rb_id buf sdu_id =
     call_rlc st \<lparr>rq_ctxt = plain_ctxt False i, rq_srb_flag = False, rq_rb_id = rb_id, rq_mui = sdu_id, rq_sdu = buf\<rparr>"

definition deliver_pdu_drb_gnb :: "pdcp_node \<Rightarrow> nr_pdcp_state \<Rightarrow> u64 \<Rightarrow> int \<Rightarrow> u8 list \<Rightarrow> int \<Rightarrow> nr_pdcp_state option" where
  "deliver_pdu_drb_gnb nd st i rb_id buf sdu_id =
     map_option (\<lambda>d.
         if nd_is_cu nd then st\<lparr>pdcp_upcalls := pdcp_upcalls st @ [Gtp_send_nru i rb_id buf]\<rparr>
         else call_rlc st \<lparr>rq_ctxt = plain_ctxt True (ucast (secondary_ue d)), rq_srb_flag = False, rq_rb_id = rb_id, rq_mui = sdu_id, rq_sdu = buf\<rparr>)
       (cu_get_f1_ue_data nd i)"

text \<open>The constructor of the entity of a DRB sets one of the two.\<close>

definition deliver_pdu_drb :: "pdcp_node \<Rightarrow> nr_pdcp_state \<Rightarrow> bool \<Rightarrow> u64 \<Rightarrow> int \<Rightarrow> u8 list \<Rightarrow> int \<Rightarrow> nr_pdcp_state option" where
  "deliver_pdu_drb nd st is_gnb i rb_id buf sdu_id =
     (if is_gnb then deliver_pdu_drb_gnb nd st i rb_id buf sdu_id else Some (deliver_pdu_drb_ue st i rb_id buf sdu_id))"

definition deliver_pdu_srb_rlc :: "nr_pdcp_state \<Rightarrow> u64 \<Rightarrow> int \<Rightarrow> u8 list \<Rightarrow> int \<Rightarrow> nr_pdcp_state option" where
  "deliver_pdu_srb_rlc st i srb_id buf sdu_id =
     Some (call_rlc st \<lparr>rq_ctxt = plain_ctxt True i, rq_srb_flag = True, rq_rb_id = srb_id, rq_mui = sdu_id, rq_sdu = buf\<rparr>)"

text \<open>The entity and the PDU that it makes of an SDU, with the direction of the node.\<close>

definition process_for_rb :: "pdcp_node \<Rightarrow> nr_pdcp_entity \<Rightarrow> u8 list \<Rightarrow> (nr_pdcp_entity \<times> (bool \<times> u8 list) option) option" where
  "process_for_rb nd e sdu =
     map_option (\<lambda>(e', pdu). (e', map_option (Pair (pdcp_is_gnb e)) pdu))
       (nr_pdcp_entity_process_sdu (nd_crypto nd) e sdu (nr_max_pdcp_pdu_size (int (length sdu))))"

definition nr_pdcp_data_req_drb :: "pdcp_node \<Rightarrow> nr_pdcp_state \<Rightarrow> protocol_ctxt \<Rightarrow> bool \<Rightarrow> int \<Rightarrow> int \<Rightarrow> u8 list \<Rightarrow> (nr_pdcp_state \<times> bool) option" where
  "nr_pdcp_data_req_drb nd st ctxt srb_flag rb_id mui sdu =
     (if srb_flag \<or> ctx_module_id ctxt \<noteq> 0 \<or> ctx_instance ctxt \<noteq> 0 \<or> ctx_eNB_index ctxt \<noteq> 0 then None
      else Option.bind (on_pdcp_rb nd st (ctx_ue ctxt) rb_id False None (\<lambda>e. process_for_rb nd e sdu)) (\<lambda>(st, r).
        case r of
          None \<Rightarrow> Some (st, False)
        | Some (is_gnb, pdu) \<Rightarrow> map_option (\<lambda>st. (st, True)) (deliver_pdu_drb nd st is_gnb (ctx_ue ctxt) rb_id pdu mui)))"

text \<open>For SRBs the caller gives the function that takes the PDU.\<close>

definition nr_pdcp_data_req_srb ::
    "pdcp_node \<Rightarrow> (nr_pdcp_state \<Rightarrow> u64 \<Rightarrow> int \<Rightarrow> u8 list \<Rightarrow> int \<Rightarrow> nr_pdcp_state option) \<Rightarrow> nr_pdcp_state \<Rightarrow> u64 \<Rightarrow> int \<Rightarrow> int \<Rightarrow> u8 list \<Rightarrow>
     (nr_pdcp_state \<times> bool) option" where
  "nr_pdcp_data_req_srb nd deliver_pdu_cb st i rb_id mui sdu =
     Option.bind (on_pdcp_rb nd st i rb_id True None (\<lambda>e. process_for_rb nd e sdu)) (\<lambda>(st, r).
        case r of
          None \<Rightarrow> Some (st, False)
        | Some (_, pdu) \<Rightarrow> map_option (\<lambda>st. (st, True)) (deliver_pdu_cb st i rb_id pdu mui))"

section \<open>Configuration\<close>

definition add_srb :: "nr_pdcp_state \<Rightarrow> bool \<Rightarrow> u64 \<Rightarrow> NR_SRB_ToAddMod \<Rightarrow> nr_pdcp_security \<Rightarrow> nr_pdcp_state option" where
  "add_srb st is_gnb i s security_parameters =
     Option.bind (decode_t_reordering_opt (Option.bind (srb_pdcp_Config s) pc_t_Reordering)) (\<lambda>t_Reordering.
       map_option fst (with_pdcp_ue st i (\<lambda>ue.
         if nr_pdcp_get_rb ue (srb_Identity s) True \<noteq> None then Some (ue, [], ())
         else Option.bind (new_nr_pdcp_entity NR_PDCP_SRB is_gnb (srb_Identity s) 0 False False SHORT_SN_SIZE t_Reordering (-1) security_parameters) (\<lambda>e.
                map_option (\<lambda>ue. (ue, [], ())) (nr_pdcp_ue_add_srb_pdcp_entity ue (srb_Identity s) e)))))"

fun nr_pdcp_add_srbs :: "nr_pdcp_state \<Rightarrow> bool \<Rightarrow> u64 \<Rightarrow> NR_SRB_ToAddMod list \<Rightarrow> nr_pdcp_security \<Rightarrow> nr_pdcp_state option" where
  "nr_pdcp_add_srbs st is_gnb i [] par = Some st"
| "nr_pdcp_add_srbs st is_gnb i (s # l) par = Option.bind (add_srb st is_gnb i s par) (\<lambda>st. nr_pdcp_add_srbs st is_gnb i l par)"

text \<open>The decoded parameters of a DRB: sizes of the sequence numbers in both directions, discard timer, t-Reordering and security.\<close>

definition drb_parameters ::
    "NR_PDCP_Config \<Rightarrow> NR_PDCP_Config_drb \<Rightarrow> nr_pdcp_security \<Rightarrow> (int \<times> int \<times> int \<times> int \<times> nr_pdcp_security) option" where
  "drb_parameters pdcp drb par =
     Option.bind (Option.bind (pdcp_SN_SizeUL drb) (decode_value VALUES_SN_SIZE)) (\<lambda>ul.
     Option.bind (Option.bind (pdcp_SN_SizeDL drb) (decode_value VALUES_SN_SIZE)) (\<lambda>dl.
     Option.bind (Option.bind (discardTimer drb) (decode_value VALUES_DISCARD_TIMER)) (\<lambda>discard.
     map_option (\<lambda>t. (ul, dl, discard, t,
         par\<lparr>ciphering_algorithm := if cipheringDisabled pdcp then 0 else ciphering_algorithm par,
             integrity_algorithm := if integrityProtection drb then integrity_algorithm par else 0\<rparr>))
       (decode_t_reordering_opt (pc_t_Reordering pdcp)))))"

definition nr_pdcp_add_drb :: "nr_pdcp_state \<Rightarrow> bool \<Rightarrow> u64 \<Rightarrow> NR_PDCP_Config \<Rightarrow> sdap_config_t \<Rightarrow> nr_pdcp_security \<Rightarrow> nr_pdcp_state option" where
  "nr_pdcp_add_drb st is_gnb i pdcp sdap security_parameters =
     (case pc_drb pdcp of
        None \<Rightarrow> Some st
      | Some drb \<Rightarrow>
          Option.bind (drb_parameters pdcp drb security_parameters) (\<lambda>(sn_ul, sn_dl, discard, t_reord, par).
            map_option fst (with_pdcp_ue st i (\<lambda>ue.
              if nr_pdcp_get_rb ue (cf_drb_id sdap) False \<noteq> None then Some (ue, [], ())
              else if sn_ul \<noteq> sn_dl then None
              else Option.bind (new_nr_pdcp_entity NR_PDCP_DRB_AM is_gnb (cf_drb_id sdap) (cf_pdusession_id sdap)
                       (cf_role sdap AND (SDAP_UL_RX OR SDAP_DL_RX) \<noteq> 0) (cf_role sdap AND (SDAP_UL_TX OR SDAP_DL_TX) \<noteq> 0)
                       sn_dl t_reord discard par) (\<lambda>e.
                     map_option (\<lambda>ue. (ue, [], ())) (nr_pdcp_ue_add_drb_pdcp_entity ue (cf_drb_id sdap) e))))))"

definition nr_pdcp_remove_UE :: "nr_pdcp_state \<Rightarrow> u64 \<Rightarrow> nr_pdcp_state" where
  "nr_pdcp_remove_UE st i =
     (let (l, leaked) = nr_pdcp_manager_remove_ue (pdcp_ue_list st) i in st\<lparr>pdcp_ue_list := l, pdcp_leaked := pdcp_leaked st @ leaked\<rparr>)"

definition nr_pdcp_config_set_security :: "pdcp_node \<Rightarrow> nr_pdcp_state \<Rightarrow> u64 \<Rightarrow> int \<Rightarrow> bool \<Rightarrow> nr_pdcp_security \<Rightarrow> nr_pdcp_state option" where
  "nr_pdcp_config_set_security nd st i rb_id is_srb par =
     map_option fst (on_pdcp_rb nd st i rb_id is_srb () (\<lambda>e. map_option (\<lambda>e. (e, ())) (nr_pdcp_entity_set_security e par)))"

definition nr_pdcp_check_integrity_srb :: "pdcp_node \<Rightarrow> nr_pdcp_state \<Rightarrow> u64 \<Rightarrow> int \<Rightarrow> u8 list \<Rightarrow> nr_pdcp_integrity_data \<Rightarrow> (nr_pdcp_state \<times> bool) option" where
  "nr_pdcp_check_integrity_srb nd st i srb_id msg mi =
     on_pdcp_rb nd st i srb_id True False (\<lambda>e. map_option (Pair e) (nr_pdcp_entity_check_integrity (nd_crypto nd) e msg mi))"

definition nr_pdcp_suspend_srb :: "pdcp_node \<Rightarrow> nr_pdcp_state \<Rightarrow> u64 \<Rightarrow> int \<Rightarrow> nr_pdcp_state option" where
  "nr_pdcp_suspend_srb nd st i srb_id = map_option fst (on_pdcp_rb nd st i srb_id True () (\<lambda>e. Some (nr_pdcp_entity_suspend e, ())))"

definition nr_pdcp_suspend_drb :: "pdcp_node \<Rightarrow> nr_pdcp_state \<Rightarrow> u64 \<Rightarrow> int \<Rightarrow> nr_pdcp_state option" where
  "nr_pdcp_suspend_drb nd st i drb_id = map_option fst (on_pdcp_rb nd st i drb_id False () (\<lambda>e. Some (nr_pdcp_entity_suspend e, ())))"

definition nr_pdcp_reconfigure_srb :: "pdcp_node \<Rightarrow> nr_pdcp_state \<Rightarrow> u64 \<Rightarrow> int \<Rightarrow> int \<Rightarrow> nr_pdcp_state option" where
  "nr_pdcp_reconfigure_srb nd st i srb_id t_Reordering =
     map_option fst (on_pdcp_rb nd st i srb_id True ()
       (\<lambda>e. map_option (\<lambda>t. (e\<lparr>t_reordering := t\<rparr>, ())) (decode_value VALUES_T_REORDERING t_Reordering)))"

text \<open>\<open>None\<close> where a value is wrong or the two sizes of a new sequence number differ.\<close>

definition reconfigure_drb :: "NR_PDCP_Config_drb \<Rightarrow> nr_pdcp_entity \<Rightarrow> nr_pdcp_entity option" where
  "reconfigure_drb c e =
     Option.bind (case discardTimer c of None \<Rightarrow> Some e | Some v \<Rightarrow> map_option (\<lambda>t. e\<lparr>discard_timer := t\<rparr>) (decode_value VALUES_DISCARD_TIMER v)) (\<lambda>e.
     Option.bind (case pdcp_SN_SizeUL c of None \<Rightarrow> Some e | Some v \<Rightarrow> map_option (\<lambda>n. e\<lparr>sn_size := n\<rparr>) (decode_value VALUES_SN_SIZE v)) (\<lambda>e.
       case pdcp_SN_SizeDL c of
         None \<Rightarrow> Some e
       | Some v \<Rightarrow> Option.bind (decode_value VALUES_SN_SIZE v) (\<lambda>n.
           if pdcp_SN_SizeUL c \<noteq> None \<and> n \<noteq> sn_size e then None else Some (e\<lparr>sn_size := n\<rparr>))))"

definition nr_pdcp_reconfigure_drb :: "pdcp_node \<Rightarrow> nr_pdcp_state \<Rightarrow> u64 \<Rightarrow> int \<Rightarrow> NR_PDCP_Config option \<Rightarrow> nr_pdcp_state option" where
  "nr_pdcp_reconfigure_drb nd st i drb_id config =
     map_option fst (on_pdcp_rb nd st i drb_id False () (\<lambda>e.
       map_option (\<lambda>e. (e, ()))
         (case config of
            None \<Rightarrow> Some e
          | Some c \<Rightarrow> Option.bind (decode_t_reordering_opt (pc_t_Reordering c)) (\<lambda>t.
              case pc_drb c of None \<Rightarrow> Some (e\<lparr>t_reordering := t\<rparr>) | Some d \<Rightarrow> reconfigure_drb d (e\<lparr>t_reordering := t\<rparr>)))))"

definition nr_pdcp_release_srb :: "nr_pdcp_state \<Rightarrow> u64 \<Rightarrow> int \<Rightarrow> nr_pdcp_state option" where
  "nr_pdcp_release_srb st i srb_id =
     map_option fst (with_pdcp_ue st i (\<lambda>ue. if srb_id < 1 \<or> srb_id > 3 then None else Some (put_rb ue srb_id True None, [], ())))"

definition nr_pdcp_release_drb :: "pdcp_node \<Rightarrow> nr_pdcp_state \<Rightarrow> u64 \<Rightarrow> int \<Rightarrow> nr_pdcp_state option" where
  "nr_pdcp_release_drb nd st i drb_id =
     map_option fst (with_pdcp_ue st i (\<lambda>ue.
       if drb_id < 1 \<or> drb_id > MAX_DRBS_PER_UE then None
       else case pu_drb ue ! nat (drb_id - 1) of
              None \<Rightarrow> Some (ue, [], ())
            | Some e \<Rightarrow>
                map_option (\<lambda>ups. (put_rb ue drb_id False None, Sdap_release_drb i drb_id (pdcp_pdusession_id e) # ups, ()))
                  (pdcp_new_upcalls nd ue drb_id False e (nr_pdcp_entity_release e))))"

definition nr_pdcp_reestablishment :: "pdcp_node \<Rightarrow> nr_pdcp_state \<Rightarrow> u64 \<Rightarrow> int \<Rightarrow> bool \<Rightarrow> nr_pdcp_security \<Rightarrow> nr_pdcp_state option" where
  "nr_pdcp_reestablishment nd st i rb_id srb_flag par =
     map_option fst (on_pdcp_rb nd st i rb_id srb_flag () (\<lambda>e. map_option (\<lambda>e. (e, ())) (reestablish_entity e par)))"

definition nr_pdcp_count_update :: "pdcp_node \<Rightarrow> nr_pdcp_state \<Rightarrow> u64 \<Rightarrow> int \<Rightarrow> u32 \<times> u32 \<Rightarrow> u32 \<times> u32 \<Rightarrow> int \<Rightarrow> nr_pdcp_state option" where
  "nr_pdcp_count_update nd st i drb_id dl_count ul_count n =
     map_option fst (on_pdcp_rb nd st i drb_id False ()
       (\<lambda>e. Some (nr_pdcp_entity_set_count_ul (nr_pdcp_entity_set_count_dl e dl_count n) ul_count n, ())))"

section \<open>Enquiries\<close>

definition nr_pdcp_get_drb_count_values :: "pdcp_node \<Rightarrow> nr_pdcp_state \<Rightarrow> u64 \<Rightarrow> int \<Rightarrow> (nr_pdcp_state \<times> ((u32 \<times> u32) \<times> (u32 \<times> u32)) option) option" where
  "nr_pdcp_get_drb_count_values nd st i rb_id =
     on_pdcp_rb nd st i rb_id False None (\<lambda>e. Some (e, Some (nr_pdcp_entity_get_count_ul e, nr_pdcp_entity_get_count_dl e)))"

definition nr_pdcp_get_statistics :: "pdcp_node \<Rightarrow> nr_pdcp_state \<Rightarrow> u64 \<Rightarrow> bool \<Rightarrow> int \<Rightarrow> (nr_pdcp_state \<times> nr_pdcp_statistics option) option" where
  "nr_pdcp_get_statistics nd st i srb_flag rb_id = on_pdcp_rb nd st i rb_id srb_flag None (\<lambda>e. Some (e, Some (pdcp_stats e)))"

definition nr_pdcp_get_num_ues :: "nr_pdcp_state \<Rightarrow> nat \<Rightarrow> u64 list \<times> int" where
  "nr_pdcp_get_num_ues st len =
     (map pu_id (take len (pdcp_ue_list st)), nr_pdcp_manager_get_ue_count (pdcp_ue_list st))"

definition nr_pdcp_get_drb_ids_for_pdusession :: "nr_pdcp_state \<Rightarrow> u64 \<Rightarrow> int \<Rightarrow> (nr_pdcp_state \<times> int list) option" where
  "nr_pdcp_get_drb_ids_for_pdusession st i pdusession_id =
     with_pdcp_ue st i (\<lambda>ue. Some (ue, [],
       map pdcp_rb_id (filter (\<lambda>e. pdcp_pdusession_id e = pdusession_id) (List.map_filter id (take (nat MAX_DRBS_PER_UE) (pu_drb ue))))))"

section \<open>The timer thread\<close>

definition nr_pdcp_ms_tick :: "nr_pdcp_state \<Rightarrow> nr_pdcp_state" where
  "nr_pdcp_ms_tick st = st\<lparr>timer_thread_curtime := timer_thread_curtime st + 1\<rparr>"

fun timer_rbs :: "pdcp_node \<Rightarrow> nr_pdcp_ue \<Rightarrow> bool \<Rightarrow> int list \<Rightarrow> u64 \<Rightarrow> (nr_pdcp_ue \<times> pdcp_upcall list) option" where
  "timer_rbs nd ue srb_flag [] now = Some (ue, [])"
| "timer_rbs nd ue srb_flag (rb_id # l) now =
     Option.bind (on_ue_rb nd ue rb_id srb_flag () (\<lambda>e. Some (nr_pdcp_entity_set_time e now, ()))) (\<lambda>(ue, ups, _).
       map_option (\<lambda>(ue, ups'). (ue, ups @ ups')) (timer_rbs nd ue srb_flag l now))"

definition timer_ue :: "pdcp_node \<Rightarrow> nr_pdcp_ue \<Rightarrow> u64 \<Rightarrow> (nr_pdcp_ue \<times> pdcp_upcall list) option" where
  "timer_ue nd ue now =
     Option.bind (timer_rbs nd ue True [1, 2] now) (\<lambda>(ue, ups).
       map_option (\<lambda>(ue, ups'). (ue, ups @ ups')) (timer_rbs nd ue False [1, 2, 3, 4, 5] now))"

fun timer_ues :: "pdcp_node \<Rightarrow> nr_pdcp_ue list \<Rightarrow> u64 \<Rightarrow> (nr_pdcp_ue list \<times> pdcp_upcall list) option" where
  "timer_ues nd [] now = Some ([], [])"
| "timer_ues nd (ue # l) now =
     Option.bind (timer_ue nd ue now) (\<lambda>(ue, ups). map_option (\<lambda>(l, ups'). (ue # l, ups @ ups')) (timer_ues nd l now))"

text \<open>
  One round of the thread, which waits (no change) while the time it has seen is the current one. Reading the
  current time, under its own mutex, and setting the clocks of the entities, under the manager lock, is one step.
\<close>

definition nr_pdcp_timer_thread :: "pdcp_node \<Rightarrow> nr_pdcp_state \<Rightarrow> nr_pdcp_state option" where
  "nr_pdcp_timer_thread nd st =
     (if thread_curtime st = timer_thread_curtime st then Some st
      else map_option (\<lambda>(l, ups). st\<lparr>thread_curtime := timer_thread_curtime st, pdcp_ue_list := l, pdcp_upcalls := pdcp_upcalls st @ ups\<rparr>)
             (timer_ues nd (pdcp_ue_list st) (timer_thread_curtime st)))"

end
