(* ===== verification/Pdcp_Api_Isolation.thy ===== *)
theory Pdcp_Api_Isolation
  imports Pdcp_Api
begin

text \<open>
  A call of the PDCP interface for one UE touches the context of that UE only, and hands nothing to other
  layers in the name of another one.
\<close>

section \<open>Calls\<close>

datatype pdcp_call =
    Do_data_ind protocol_ctxt bool int "u8 list"
  | Data_req_drb protocol_ctxt bool int int "u8 list"
  | Data_req_srb u64 int int "u8 list"
  | Add_srbs bool u64 "NR_SRB_ToAddMod list" nr_pdcp_security
  | Add_pdcp_drb bool u64 NR_PDCP_Config sdap_config_t nr_pdcp_security
  | Remove_UE u64
  | Set_security u64 int bool nr_pdcp_security
  | Check_integrity u64 int "u8 list" nr_pdcp_integrity_data
  | Suspend_srb u64 int
  | Suspend_drb u64 int
  | Reconfigure_srb u64 int int
  | Reconfigure_drb u64 int "NR_PDCP_Config option"
  | Release_srb u64 int
  | Release_drb u64 int
  | Reestablish u64 int bool nr_pdcp_security
  | Count_update u64 int "u32 \<times> u32" "u32 \<times> u32" int
  | Get_counts u64 int
  | Get_pdcp_statistics u64 bool int
  | Get_drb_ids u64 int

fun pdcp_call_step :: "pdcp_node \<Rightarrow> nr_pdcp_state \<Rightarrow> pdcp_call \<Rightarrow> nr_pdcp_state option" where
  "pdcp_call_step nd st (Do_data_ind ctxt srb rb buf) = do_pdcp_data_ind nd st ctxt srb rb buf"
| "pdcp_call_step nd st (Data_req_drb ctxt srb rb mui sdu) = map_option fst (nr_pdcp_data_req_drb nd st ctxt srb rb mui sdu)"
| "pdcp_call_step nd st (Data_req_srb i rb mui sdu) = map_option fst (nr_pdcp_data_req_srb nd deliver_pdu_srb_rlc st i rb mui sdu)"
| "pdcp_call_step nd st (Add_srbs g i l par) = nr_pdcp_add_srbs st g i l par"
| "pdcp_call_step nd st (Add_pdcp_drb g i c s par) = nr_pdcp_add_drb st g i c s par"
| "pdcp_call_step nd st (Remove_UE i) = Some (nr_pdcp_remove_UE st i)"
| "pdcp_call_step nd st (Set_security i rb srb par) = nr_pdcp_config_set_security nd st i rb srb par"
| "pdcp_call_step nd st (Check_integrity i rb msg mi) = map_option fst (nr_pdcp_check_integrity_srb nd st i rb msg mi)"
| "pdcp_call_step nd st (Suspend_srb i rb) = nr_pdcp_suspend_srb nd st i rb"
| "pdcp_call_step nd st (Suspend_drb i rb) = nr_pdcp_suspend_drb nd st i rb"
| "pdcp_call_step nd st (Reconfigure_srb i rb t) = nr_pdcp_reconfigure_srb nd st i rb t"
| "pdcp_call_step nd st (Reconfigure_drb i rb c) = nr_pdcp_reconfigure_drb nd st i rb c"
| "pdcp_call_step nd st (Release_srb i rb) = nr_pdcp_release_srb st i rb"
| "pdcp_call_step nd st (Release_drb i rb) = nr_pdcp_release_drb nd st i rb"
| "pdcp_call_step nd st (Reestablish i rb srb par) = nr_pdcp_reestablishment nd st i rb srb par"
| "pdcp_call_step nd st (Count_update i rb dl ul n) = nr_pdcp_count_update nd st i rb dl ul n"
| "pdcp_call_step nd st (Get_counts i rb) = map_option fst (nr_pdcp_get_drb_count_values nd st i rb)"
| "pdcp_call_step nd st (Get_pdcp_statistics i srb rb) = map_option fst (nr_pdcp_get_statistics nd st i srb rb)"
| "pdcp_call_step nd st (Get_drb_ids i s) = map_option fst (nr_pdcp_get_drb_ids_for_pdusession st i s)"

fun pdcp_call_ue :: "pdcp_call \<Rightarrow> u64" where
  "pdcp_call_ue (Do_data_ind ctxt srb rb buf) = ctx_ue ctxt"
| "pdcp_call_ue (Data_req_drb ctxt srb rb mui sdu) = ctx_ue ctxt"
| "pdcp_call_ue (Data_req_srb i rb mui sdu) = i"
| "pdcp_call_ue (Add_srbs g i l par) = i"
| "pdcp_call_ue (Add_pdcp_drb g i c s par) = i"
| "pdcp_call_ue (Remove_UE i) = i"
| "pdcp_call_ue (Set_security i rb srb par) = i"
| "pdcp_call_ue (Check_integrity i rb msg mi) = i"
| "pdcp_call_ue (Suspend_srb i rb) = i"
| "pdcp_call_ue (Suspend_drb i rb) = i"
| "pdcp_call_ue (Reconfigure_srb i rb t) = i"
| "pdcp_call_ue (Reconfigure_drb i rb c) = i"
| "pdcp_call_ue (Release_srb i rb) = i"
| "pdcp_call_ue (Release_drb i rb) = i"
| "pdcp_call_ue (Reestablish i rb srb par) = i"
| "pdcp_call_ue (Count_update i rb dl ul n) = i"
| "pdcp_call_ue (Get_counts i rb) = i"
| "pdcp_call_ue (Get_pdcp_statistics i srb rb) = i"
| "pdcp_call_ue (Get_drb_ids i s) = i"

section \<open>Confinement\<close>

fun pdcp_upcall_ue :: "pdcp_upcall \<Rightarrow> u64" where
  "pdcp_upcall_ue (Sdap_data_ind rb g s i b) = i"
| "pdcp_upcall_ue (Sdap_release_drb i rb s) = i"
| "pdcp_upcall_ue (F1_ul_rrc_message i du a srb b) = i"
| "pdcp_upcall_ue (Rrc_dcch_data_ind i srb b mi) = i"
| "pdcp_upcall_ue (Gtp_send_nru i rb b) = i"

text \<open>The identifier by which RLC knows a UE of PDCP: the same at a UE, that of the DU at a gNB.\<close>

definition rlc_identity :: "rlc_data_req_item \<Rightarrow> int" where
  "rlc_identity x = sint (ucast (ctx_ue (rq_ctxt x)) :: u32)"

definition rlc_names :: "pdcp_node \<Rightarrow> u64 \<Rightarrow> int set" where
  "rlc_names nd i = insert (sint (ucast i :: u32)) (case cu_get_f1_ue_data nd i of None \<Rightarrow> {} | Some d \<Rightarrow> {sint (secondary_ue d)})"

definition pdcp_confined :: "pdcp_node \<Rightarrow> u64 \<Rightarrow> nr_pdcp_state \<Rightarrow> nr_pdcp_state \<Rightarrow> bool" where
  "pdcp_confined nd i st st' \<longleftrightarrow>
     (\<forall>j. j \<noteq> i \<longrightarrow> find_pdcp_ue (pdcp_ue_list st') j = find_pdcp_ue (pdcp_ue_list st) j) \<and>
     (\<exists>ups. pdcp_upcalls st' = pdcp_upcalls st @ ups \<and> (\<forall>up\<in>set ups. pdcp_upcall_ue up = i)) \<and>
     (\<exists>xs. req_callers st' = req_callers st @ xs \<and> (\<forall>x\<in>set xs. rlc_identity x \<in> rlc_names nd i)) \<and>
     req_queue st' = req_queue st \<and> ind_queue st' = ind_queue st \<and>
     timer_thread_curtime st' = timer_thread_curtime st \<and> thread_curtime st' = thread_curtime st"

lemma pdcp_confined_refl: "pdcp_confined nd i st st"
  by (simp add: pdcp_confined_def)

lemma pdcp_confined_trans:
  assumes "pdcp_confined nd i st st1" and "pdcp_confined nd i st1 st2"
  shows "pdcp_confined nd i st st2"
proof -
  obtain u1 u2 where u: "pdcp_upcalls st1 = pdcp_upcalls st @ u1" "\<forall>up\<in>set u1. pdcp_upcall_ue up = i"
    "pdcp_upcalls st2 = pdcp_upcalls st1 @ u2" "\<forall>up\<in>set u2. pdcp_upcall_ue up = i" using assms unfolding pdcp_confined_def by blast
  obtain x1 x2 where x: "req_callers st1 = req_callers st @ x1" "\<forall>x\<in>set x1. rlc_identity x \<in> rlc_names nd i"
    "req_callers st2 = req_callers st1 @ x2" "\<forall>x\<in>set x2. rlc_identity x \<in> rlc_names nd i" using assms unfolding pdcp_confined_def by blast
  have "\<exists>ups. pdcp_upcalls st2 = pdcp_upcalls st @ ups \<and> (\<forall>up\<in>set ups. pdcp_upcall_ue up = i)"
    using u by (intro exI [of _ "u1 @ u2"]) auto
  moreover have "\<exists>xs. req_callers st2 = req_callers st @ xs \<and> (\<forall>x\<in>set xs. rlc_identity x \<in> rlc_names nd i)"
    using x by (intro exI [of _ "x1 @ x2"]) auto
  ultimately show ?thesis using assms unfolding pdcp_confined_def by simp
qed

definition keeps_ue :: "(nr_pdcp_ue \<Rightarrow> (nr_pdcp_ue \<times> pdcp_upcall list \<times> 'a) option) \<Rightarrow> bool" where
  "keeps_ue f \<longleftrightarrow> (\<forall>ue ue' ups x. f ue = Some (ue', ups, x) \<longrightarrow> pu_id ue' = pu_id ue \<and> (\<forall>up\<in>set ups. pdcp_upcall_ue up = pu_id ue))"

lemma with_pdcp_ue_confined:
  assumes "with_pdcp_ue st i f = Some (st', x)" and "keeps_ue f"
  shows "pdcp_confined nd i st st'"
proof -
  obtain l k where g: "nr_pdcp_manager_get_ue (pdcp_ue_list st) i = (l, k)" by (cases "nr_pdcp_manager_get_ue (pdcp_ue_list st) i")
  obtain ue ups where f: "f (l ! k) = Some (ue, ups, x)" "st' = st\<lparr>pdcp_ue_list := l[k := ue], pdcp_upcalls := pdcp_upcalls st @ ups\<rparr>"
    using assms(1) by (auto simp: with_pdcp_ue_def g)
  have "pu_id ue = i" "\<forall>up\<in>set ups. pdcp_upcall_ue up = i"
    using assms(2) f(1) get_pdcp_ue(3) [OF g] unfolding keeps_ue_def by metis+
  then show ?thesis using find_pdcp_update [of ue i "pdcp_ue_list st"] g f(2) by (simp add: pdcp_confined_def)
qed

lemma put_rb_id [simp]: "pu_id (put_rb ue rb_id srb e) = pu_id ue"
  by (simp add: put_rb_def)

lemma deliver_all_up_ue: "deliver_all_up nd ue rb_id srb e l = Some ups \<Longrightarrow> up \<in> set ups \<Longrightarrow> pdcp_upcall_ue up = pu_id ue"
proof (induction l arbitrary: ups)
  case (Cons s l)
  then show ?case by (auto simp: deliver_sdu_srb_def deliver_sdu_drb_def split: if_splits Option.bind_splits)
qed simp

lemma pdcp_new_upcalls_ue: "pdcp_new_upcalls nd ue rb_id srb e e' = Some ups \<Longrightarrow> up \<in> set ups \<Longrightarrow> pdcp_upcall_ue up = pu_id ue"
  by (simp add: pdcp_new_upcalls_def deliver_all_up_ue)

lemma keeps_on_ue_rb: "keeps_ue (\<lambda>ue. on_ue_rb nd ue rb_id srb y f)"
  by (auto simp: keeps_ue_def on_ue_rb_def split: option.splits Option.bind_splits dest: pdcp_new_upcalls_ue)

lemma on_pdcp_rb_confined: "on_pdcp_rb nd st i rb_id srb y f = Some (st', x) \<Longrightarrow> pdcp_confined nd' i st st'"
  unfolding on_pdcp_rb_def by (rule with_pdcp_ue_confined [OF _ keeps_on_ue_rb])

lemma add_entity_id:
  "nr_pdcp_ue_add_srb_pdcp_entity ue k e = Some ue' \<Longrightarrow> pu_id ue' = pu_id ue"
  "nr_pdcp_ue_add_drb_pdcp_entity ue k e = Some ue' \<Longrightarrow> pu_id ue' = pu_id ue"
  by (auto simp: nr_pdcp_ue_add_srb_pdcp_entity_def nr_pdcp_ue_add_drb_pdcp_entity_def Let_def split: if_splits)

lemma pdcp_add_srb_confined: "add_srb st g i s par = Some st' \<Longrightarrow> pdcp_confined nd i st st'"
  by (auto simp: add_srb_def split: Option.bind_splits elim!: with_pdcp_ue_confined)
     (auto simp: keeps_ue_def split: if_splits Option.bind_splits dest: add_entity_id)

lemma add_srbs_confined: "nr_pdcp_add_srbs st g i l par = Some st' \<Longrightarrow> pdcp_confined nd i st st'"
proof (induction l arbitrary: st)
  case (Cons s l)
  then show ?case by (auto split: Option.bind_splits intro: pdcp_confined_trans pdcp_add_srb_confined)
qed (simp add: pdcp_confined_refl)

lemma pdcp_add_drb_confined: "nr_pdcp_add_drb st g i c s par = Some st' \<Longrightarrow> pdcp_confined nd i st st'"
  by (auto simp: nr_pdcp_add_drb_def pdcp_confined_refl split: option.splits Option.bind_splits elim!: with_pdcp_ue_confined)
     (auto simp: keeps_ue_def split: if_splits Option.bind_splits dest: add_entity_id)

lemma release_srb_confined: "nr_pdcp_release_srb st i rb = Some st' \<Longrightarrow> pdcp_confined nd i st st'"
  by (auto simp: nr_pdcp_release_srb_def elim!: with_pdcp_ue_confined) (auto simp: keeps_ue_def split: if_splits)

lemma release_drb_elim:
  assumes "nr_pdcp_release_drb nd st i rb = Some st'"
  obtains f where "with_pdcp_ue st i f = Some (st', ())" and "keeps_ue f"
    and "\<And>ue ue' ups x. f ue = Some (ue', ups, x) \<Longrightarrow> ue' = ue \<or> 1 \<le> rb \<and> rb \<le> 32 \<and> ue' = put_rb ue rb False None"
proof -
  obtain l k where g: "nr_pdcp_manager_get_ue (pdcp_ue_list st) i = (l, k)" by (cases "nr_pdcp_manager_get_ue (pdcp_ue_list st) i")
  note u = get_pdcp_ue [OF g]
  let ?f = "\<lambda>ue. if pu_id ue \<noteq> i \<or> rb < 1 \<or> rb > MAX_DRBS_PER_UE then None
       else case pu_drb ue ! nat (rb - 1) of
              None \<Rightarrow> Some (ue, [], ())
            | Some e \<Rightarrow>
                map_option (\<lambda>ups. (put_rb ue rb False None, Sdap_release_drb i rb (pdcp_pdusession_id e) # ups, ()))
                  (pdcp_new_upcalls nd ue rb False e (nr_pdcp_entity_release e))"
  show thesis
  proof (rule that [of ?f])
    show "with_pdcp_ue st i ?f = Some (st', ())" using assms u(3) by (auto simp: nr_pdcp_release_drb_def with_pdcp_ue_def g)
    show "keeps_ue ?f" by (auto simp: keeps_ue_def split: if_splits option.splits dest: pdcp_new_upcalls_ue)
  qed (auto split: if_splits option.splits)
qed

lemma release_drb_confined: "nr_pdcp_release_drb nd st i rb = Some st' \<Longrightarrow> pdcp_confined nd i st st'"
  by (erule release_drb_elim) (rule with_pdcp_ue_confined)

lemma call_rlc_confined: "rlc_identity x \<in> rlc_names nd i \<Longrightarrow> pdcp_confined nd i st (call_rlc st x)"
  by (simp add: call_rlc_def pdcp_confined_def)

lemma deliver_pdu_drb_confined: "deliver_pdu_drb nd st g i rb buf mui = Some st' \<Longrightarrow> pdcp_confined nd i st st'"
proof -
  have u: "pdcp_confined nd i st (st\<lparr>pdcp_upcalls := pdcp_upcalls st @ [Gtp_send_nru i rb buf]\<rparr>)" by (simp add: pdcp_confined_def)
  have s: "ucast (ucast (w :: u32) :: u64) = w" for w by transfer (simp add: take_bit_take_bit)
  show "deliver_pdu_drb nd st g i rb buf mui = Some st' \<Longrightarrow> pdcp_confined nd i st st'"
    by (auto simp: deliver_pdu_drb_def deliver_pdu_drb_ue_def deliver_pdu_drb_gnb_def u s rlc_identity_def rlc_names_def plain_ctxt_def
        split: if_splits option.splits intro!: call_rlc_confined)
qed

lemma data_req_drb_confined:
  assumes "nr_pdcp_data_req_drb nd st ctxt srb rb mui sdu = Some (st', ok)"
  shows "pdcp_confined nd (ctx_ue ctxt) st st'"
proof -
  obtain st1 r where s: "on_pdcp_rb nd st (ctx_ue ctxt) rb False None (\<lambda>e. process_for_rb nd e sdu) = Some (st1, r)"
    "(case r of None \<Rightarrow> Some (st1, False)
      | Some (g, pdu) \<Rightarrow> map_option (\<lambda>st. (st, True)) (deliver_pdu_drb nd st1 g (ctx_ue ctxt) rb pdu mui)) = Some (st', ok)"
    using assms by (auto simp: nr_pdcp_data_req_drb_def split: if_splits Option.bind_splits)
  note c = on_pdcp_rb_confined [OF s(1)]
  show ?thesis using s(2) c by (auto split: option.splits intro: pdcp_confined_trans deliver_pdu_drb_confined)
qed

lemma data_req_srb_confined:
  assumes "nr_pdcp_data_req_srb nd deliver_pdu_srb_rlc st i rb mui sdu = Some (st', ok)"
  shows "pdcp_confined nd i st st'"
proof -
  obtain st1 r where s: "on_pdcp_rb nd st i rb True None (\<lambda>e. process_for_rb nd e sdu) = Some (st1, r)"
    "(case r of None \<Rightarrow> Some (st1, False)
      | Some (_, pdu) \<Rightarrow> map_option (\<lambda>st. (st, True)) (deliver_pdu_srb_rlc st1 i rb pdu mui)) = Some (st', ok)"
    using assms by (auto simp: nr_pdcp_data_req_srb_def split: Option.bind_splits)
  have "rlc_identity \<lparr>rq_ctxt = plain_ctxt True i, rq_srb_flag = True, rq_rb_id = rb, rq_mui = mui, rq_sdu = pdu\<rparr> \<in> rlc_names nd i" for pdu
    by (simp add: rlc_identity_def rlc_names_def plain_ctxt_def)
  then show ?thesis using s(2) on_pdcp_rb_confined [OF s(1), of nd]
    by (auto simp: deliver_pdu_srb_rlc_def split: option.splits intro: pdcp_confined_trans call_rlc_confined)
qed

lemma pdcp_remove_confined: "pdcp_confined nd i st (nr_pdcp_remove_UE st i)"
  by (simp add: pdcp_confined_def nr_pdcp_remove_UE_def case_prod_unfold Let_def find_pdcp_remove)

lemma pdcp_call_confined:
  assumes "pdcp_call_step nd st cl = Some st'"
  shows "pdcp_confined nd (pdcp_call_ue cl) st st'"
  using assms
  by (cases cl)
     (auto simp: do_pdcp_data_ind_def nr_pdcp_config_set_security_def nr_pdcp_check_integrity_srb_def nr_pdcp_suspend_srb_def nr_pdcp_suspend_drb_def
        nr_pdcp_reconfigure_srb_def nr_pdcp_reconfigure_drb_def nr_pdcp_reestablishment_def nr_pdcp_count_update_def nr_pdcp_get_drb_count_values_def
        nr_pdcp_get_statistics_def pdcp_remove_confined split: if_splits
        intro: on_pdcp_rb_confined data_req_drb_confined data_req_srb_confined add_srbs_confined pdcp_add_drb_confined release_srb_confined release_drb_confined,
      auto simp: nr_pdcp_get_drb_ids_for_pdusession_def keeps_ue_def elim!: with_pdcp_ue_confined)

end
