(* ===== verification/Pdcp_Api_Invariant.thy ===== *)
theory Pdcp_Api_Invariant
  imports Pdcp_Api_Isolation Pdcp_Security
begin

text \<open>
  The tables of PDCP are well-formed in every state that calls reach: each entity has the kind and the
  identifier of its place. The timer thread works on a part of the bearers only.
\<close>

section \<open>Entities\<close>

text \<open>What no operation of an entity changes.\<close>

definition entity_key :: "nr_pdcp_entity \<Rightarrow> nr_pdcp_entity_type \<times> int \<times> bool \<times> int \<times> bool \<times> bool" where
  "entity_key e = (pdcp_type e, pdcp_rb_id e, pdcp_is_gnb e, pdcp_pdusession_id e, has_sdap_rx e, has_sdap_tx e)"

lemma key_static:
  assumes "pdcp_static e' = pdcp_static e"
  shows "entity_key e' = entity_key e"
proof -
  have "entity_key (pdcp_static x) = entity_key x" for x by (simp add: entity_key_def pdcp_static_def)
  then show ?thesis using assms by metis
qed

lemma key_update [simp]:
  "entity_key (e\<lparr>t_reordering := t\<rparr>) = entity_key e" "entity_key (e\<lparr>discard_timer := t\<rparr>) = entity_key e"
  "entity_key (e\<lparr>sn_size := t\<rparr>) = entity_key e" "entity_key (e\<lparr>tx_next := c\<rparr>) = entity_key e"
  "entity_key (e\<lparr>rx_next := c\<rparr>) = entity_key e" "entity_key (e\<lparr>rx_deliv := c\<rparr>) = entity_key e"
  "entity_key (e\<lparr>t_reordering_start := s\<rparr>) = entity_key e" "entity_key (e\<lparr>entity_suspended := b\<rparr>) = entity_key e"
  "entity_key (e\<lparr>pdcp_stats := st\<rparr>) = entity_key e" "entity_key (e\<lparr>pdcp_rx_list := l\<rparr>) = entity_key e"
  "entity_key (e\<lparr>pdcp_rx_size := z\<rparr>) = entity_key e" "entity_key (deliver_sdus e out rest) = entity_key e"
  by (simp_all add: entity_key_def deliver_sdus_def Let_def)

lemma set_security_key: "nr_pdcp_entity_set_security e par = Some e' \<Longrightarrow> entity_key e' = entity_key e"
  by (erule set_security_state) (simp add: entity_key_def)

lemma recv_key: "nr_pdcp_entity_recv_pdu env e b = Some e' \<Longrightarrow> entity_key e' = entity_key e"
  by (rule key_static [OF rx_effect_static [OF recv_pdu_effect]])

lemma process_key: "nr_pdcp_entity_process_sdu env e b n = Some (e', pdu) \<Longrightarrow> entity_key e' = entity_key e"
  by (subst process_sdu_state, assumption) (simp add: entity_key_def)

lemma suspend_key: "entity_key (nr_pdcp_entity_suspend e) = entity_key e"
  by (simp add: nr_pdcp_entity_suspend_def deliver_all_sdus_def Let_def)

lemma reestablish_key: "reestablish_entity e par = Some e' \<Longrightarrow> entity_key e' = entity_key e"
  by (auto simp: reestablish_entity_def nr_pdcp_entity_reestablish_drb_am_def nr_pdcp_entity_reestablish_drb_um_def
      nr_pdcp_entity_reestablish_srb_def free_rx_list_def deliver_all_sdus_def Let_def
      split: nr_pdcp_entity_type.splits if_splits dest!: set_security_key)

lemma reconfigure_key: "reconfigure_drb c e = Some e' \<Longrightarrow> entity_key e' = entity_key e"
  by (auto simp: reconfigure_drb_def split: option.splits Option.bind_splits if_splits)

lemma count_key: "entity_key (nr_pdcp_entity_set_count_ul (nr_pdcp_entity_set_count_dl e c n) c' n') = entity_key e"
  by (simp add: nr_pdcp_entity_set_count_ul_def nr_pdcp_entity_set_count_dl_def)

lemma new_entity_key: "new_nr_pdcp_entity typ g rb ps r t n tr ds par = Some e \<Longrightarrow> entity_key e = (typ, rb, g, ps, r, t)"
  unfolding new_nr_pdcp_entity_def by (drule set_security_key) (simp add: entity_key_def)

section \<open>UEs\<close>

definition rb_wf :: "nr_pdcp_entity_type \<Rightarrow> nat \<Rightarrow> nr_pdcp_entity option \<Rightarrow> bool" where
  "rb_wf typ k eo \<longleftrightarrow> (\<forall>e. eo = Some e \<longrightarrow> pdcp_type e = typ \<and> pdcp_rb_id e = int k + 1)"

definition pdcp_ue_wf :: "nr_pdcp_ue \<Rightarrow> bool" where
  "pdcp_ue_wf ue \<longleftrightarrow> length (pu_srb ue) = 3 \<and> length (pu_drb ue) = 32 \<and> pu_srb ue ! 2 = None \<and>
     (\<forall>k<2. rb_wf NR_PDCP_SRB k (pu_srb ue ! k)) \<and> (\<forall>k<32. rb_wf NR_PDCP_DRB_AM k (pu_drb ue ! k))"

lemma zero_pdcp_ue_wf: "pdcp_ue_wf (zero_pdcp_ue i)"
  by (simp add: pdcp_ue_wf_def zero_pdcp_ue_def rb_wf_def)

lemma put_rb_wf:
  assumes "pdcp_ue_wf ue" and "1 \<le> rb_id" and "rb_id \<le> (if srb then 2 else 32)"
    and "rb_wf (if srb then NR_PDCP_SRB else NR_PDCP_DRB_AM) (nat (rb_id - 1)) eo"
  shows "pdcp_ue_wf (put_rb ue rb_id srb eo)"
  using assms by (auto simp: pdcp_ue_wf_def put_rb_def nth_list_update)

lemma get_rb_wf:
  assumes "pdcp_ue_wf ue" and "nr_pdcp_get_rb ue rb_id srb = Some e"
  shows "1 \<le> rb_id \<and> rb_id \<le> (if srb then 2 else 32) \<and> pdcp_type e = (if srb then NR_PDCP_SRB else NR_PDCP_DRB_AM) \<and> pdcp_rb_id e = rb_id"
proof -
  have r: "1 \<le> rb_id" "rb_id \<le> (if srb then 2 else 32)" using assms(2) by (auto simp: nr_pdcp_get_rb_def split: if_splits)
  define k where "k = nat (rb_id - 1)"
  have k: "k < (if srb then 2 else 32)" "rb_id = int k + 1" using r by (auto simp: k_def)
  have "rb_wf (if srb then NR_PDCP_SRB else NR_PDCP_DRB_AM) k (if srb then pu_srb ue ! k else pu_drb ue ! k)"
    using assms(1) k(1) by (auto simp: pdcp_ue_wf_def)
  moreover have "(if srb then pu_srb ue ! k else pu_drb ue ! k) = Some e"
    using assms(2) unfolding nr_pdcp_get_rb_def k_def by (auto split: if_splits)
  ultimately show ?thesis using r k(2) by (simp add: rb_wf_def)
qed

definition keeps_wf :: "(nr_pdcp_ue \<Rightarrow> (nr_pdcp_ue \<times> pdcp_upcall list \<times> 'a) option) \<Rightarrow> bool" where
  "keeps_wf f \<longleftrightarrow> (\<forall>ue ue' ups x. f ue = Some (ue', ups, x) \<longrightarrow> pdcp_ue_wf ue \<longrightarrow> pdcp_ue_wf ue')"

lemma on_ue_rb_wf:
  assumes "on_ue_rb nd ue rb_id srb y f = Some (ue', ups, x)" and "pdcp_ue_wf ue" and "\<And>e e' x. f e = Some (e', x) \<Longrightarrow> entity_key e' = entity_key e"
  shows "pdcp_ue_wf ue'"
proof (cases "nr_pdcp_get_rb ue rb_id srb")
  case None
  then show ?thesis using assms(1,2) by (simp add: on_ue_rb_def)
next
  case (Some e)
  then obtain e' where e': "f e = Some (e', x)" "ue' = put_rb ue rb_id srb (Some e')"
    using assms(1) by (auto simp: on_ue_rb_def split: Option.bind_splits)
  have k: "pdcp_type e' = pdcp_type e" "pdcp_rb_id e' = pdcp_rb_id e" using assms(3) [OF e'(1)] by (simp_all add: entity_key_def)
  show ?thesis unfolding e'(2)
    by (rule put_rb_wf [OF assms(2)]) (use get_rb_wf [OF assms(2) Some] k in \<open>auto simp: rb_wf_def\<close>)
qed

definition pdcp_wf :: "nr_pdcp_state \<Rightarrow> bool" where
  "pdcp_wf st \<longleftrightarrow> distinct (map pu_id (pdcp_ue_list st)) \<and> (\<forall>ue\<in>set (pdcp_ue_list st). pdcp_ue_wf ue)"

lemma with_pdcp_ue_wf:
  assumes "with_pdcp_ue st i f = Some (st', x)" and "pdcp_wf st" and "keeps_ue f" and "keeps_wf f"
  shows "pdcp_wf st'"
proof -
  obtain l k where g: "nr_pdcp_manager_get_ue (pdcp_ue_list st) i = (l, k)" by (cases "nr_pdcp_manager_get_ue (pdcp_ue_list st) i")
  note u = get_pdcp_ue [OF g]
  obtain ue ups where f: "f (l ! k) = Some (ue, ups, x)" "st' = st\<lparr>pdcp_ue_list := l[k := ue], pdcp_upcalls := pdcp_upcalls st @ ups\<rparr>"
    using assms(1) by (auto simp: with_pdcp_ue_def g)
  have l: "set l \<subseteq> insert (zero_pdcp_ue i) (set (pdcp_ue_list st))"
    using g by (auto simp: nr_pdcp_manager_get_ue_def Let_def split: if_splits)
  then have wf: "pdcp_ue_wf v" if "v \<in> set l" for v using that assms(2) zero_pdcp_ue_wf by (auto simp: pdcp_wf_def)
  have "pdcp_ue_wf ue" using assms(4) f(1) wf [OF nth_mem [OF u(1)]] unfolding keeps_wf_def by blast
  then have "\<forall>v\<in>set (l[k := ue]). pdcp_ue_wf v" using wf by (auto dest!: set_update_subset_insert [THEN subsetD])
  moreover have "pu_id ue = i" using assms(3) f(1) u(3) unfolding keeps_ue_def by metis
  then have "distinct (map pu_id (l[k := ue]))" using ids_pdcp_update [of ue i "pdcp_ue_list st"] assms(2) g by (simp add: pdcp_wf_def)
  ultimately show ?thesis using f(2) by (simp add: pdcp_wf_def)
qed

lemma on_pdcp_rb_wf:
  assumes "on_pdcp_rb nd st i rb_id srb y f = Some (st', x)" and "pdcp_wf st" and "\<And>e e' x. f e = Some (e', x) \<Longrightarrow> entity_key e' = entity_key e"
  shows "pdcp_wf st'"
proof -
  have "keeps_wf (\<lambda>ue. on_ue_rb nd ue rb_id srb y f)"
    unfolding keeps_wf_def by (intro allI impI) (erule on_ue_rb_wf, assumption, rule assms(3))
  then show ?thesis using assms(1) unfolding on_pdcp_rb_def by (rule with_pdcp_ue_wf [OF _ assms(2) keeps_on_ue_rb, rotated])
qed

section \<open>Calls\<close>

lemma add_entity_wf:
  assumes "pdcp_ue_wf ue"
  shows "nr_pdcp_ue_add_srb_pdcp_entity ue rb e = Some ue' \<Longrightarrow> entity_key e = (NR_PDCP_SRB, rb, r) \<Longrightarrow> pdcp_ue_wf ue'"
    and "nr_pdcp_ue_add_drb_pdcp_entity ue rb e = Some ue' \<Longrightarrow> entity_key e = (NR_PDCP_DRB_AM, rb, r) \<Longrightarrow> pdcp_ue_wf ue'"
proof -
  show "pdcp_ue_wf ue'" if a: "nr_pdcp_ue_add_srb_pdcp_entity ue rb e = Some ue'" "entity_key e = (NR_PDCP_SRB, rb, r)"
  proof -
    have u: "1 \<le> rb" "rb \<le> 2" "ue' = put_rb ue rb True (Some e)"
      using a(1) by (auto simp: nr_pdcp_ue_add_srb_pdcp_entity_def put_rb_def Let_def split: if_splits)
    show ?thesis unfolding u(3) by (rule put_rb_wf [OF assms]) (use u a(2) in \<open>auto simp: rb_wf_def entity_key_def\<close>)
  qed
  show "pdcp_ue_wf ue'" if a: "nr_pdcp_ue_add_drb_pdcp_entity ue rb e = Some ue'" "entity_key e = (NR_PDCP_DRB_AM, rb, r)"
  proof -
    have u: "1 \<le> rb" "rb \<le> 32" "ue' = put_rb ue rb False (Some e)"
      using a(1) by (auto simp: nr_pdcp_ue_add_drb_pdcp_entity_def put_rb_def Let_def split: if_splits)
    show ?thesis unfolding u(3) by (rule put_rb_wf [OF assms]) (use u a(2) in \<open>auto simp: rb_wf_def entity_key_def\<close>)
  qed
qed

lemma pdcp_add_srb_wf: "add_srb st g i s par = Some st' \<Longrightarrow> pdcp_wf st \<Longrightarrow> pdcp_wf st'"
  by (auto simp: add_srb_def split: Option.bind_splits elim!: with_pdcp_ue_wf)
     (auto simp: keeps_ue_def keeps_wf_def split: if_splits Option.bind_splits dest: add_entity_id new_entity_key intro: add_entity_wf)

lemma add_srbs_wf: "nr_pdcp_add_srbs st g i l par = Some st' \<Longrightarrow> pdcp_wf st \<Longrightarrow> pdcp_wf st'"
proof (induction l arbitrary: st)
  case (Cons s l)
  then show ?case by (auto split: Option.bind_splits intro: pdcp_add_srb_wf)
qed simp

lemma pdcp_add_drb_wf: "nr_pdcp_add_drb st g i c s par = Some st' \<Longrightarrow> pdcp_wf st \<Longrightarrow> pdcp_wf st'"
  by (auto simp: nr_pdcp_add_drb_def split: option.splits Option.bind_splits elim!: with_pdcp_ue_wf)
     (auto simp: keeps_ue_def keeps_wf_def split: if_splits Option.bind_splits dest: add_entity_id new_entity_key intro: add_entity_wf)

lemma process_for_key: "process_for_rb nd e sdu = Some (e', x) \<Longrightarrow> entity_key e' = entity_key e"
  by (auto simp: process_for_rb_def dest: process_key)

lemma deliver_pdu_table: "deliver_pdu_drb nd st g i rb buf mui = Some st' \<Longrightarrow> pdcp_ue_list st' = pdcp_ue_list st"
  by (auto simp: deliver_pdu_drb_def deliver_pdu_drb_ue_def deliver_pdu_drb_gnb_def call_rlc_def split: if_splits)

lemma data_req_wf:
  "nr_pdcp_data_req_drb nd st ctxt srb rb mui sdu = Some (st', ok) \<Longrightarrow> pdcp_wf st \<Longrightarrow> pdcp_wf st'"
  "nr_pdcp_data_req_srb nd deliver_pdu_srb_rlc st i rb mui sdu = Some (st', ok) \<Longrightarrow> pdcp_wf st \<Longrightarrow> pdcp_wf st'"
proof -
  assume wf: "pdcp_wf st"
  have o: "pdcp_wf st1" if "on_pdcp_rb nd st j rb b None (\<lambda>e. process_for_rb nd e sdu) = Some (st1, r)" for j b st1 r
    using that wf by (rule on_pdcp_rb_wf) (rule process_for_key)
  have t: "pdcp_wf st2" if "pdcp_wf st1" "pdcp_ue_list st2 = pdcp_ue_list st1" for st1 st2 using that by (simp add: pdcp_wf_def)
  show "pdcp_wf st'" if "nr_pdcp_data_req_drb nd st ctxt srb rb mui sdu = Some (st', ok)"
    using that by (auto simp: nr_pdcp_data_req_drb_def split: if_splits Option.bind_splits option.splits dest!: o intro: t [OF _ deliver_pdu_table])
  show "pdcp_wf st'" if "nr_pdcp_data_req_srb nd deliver_pdu_srb_rlc st i rb mui sdu = Some (st', ok)"
    using that by (auto simp: nr_pdcp_data_req_srb_def deliver_pdu_srb_rlc_def call_rlc_def split: Option.bind_splits option.splits dest!: o)
      (simp_all add: pdcp_wf_def)
qed

lemma pdcp_remove_wf: "pdcp_wf st \<Longrightarrow> pdcp_wf (nr_pdcp_remove_UE st i)"
  using remove_pdcp_subset [of "pdcp_ue_list st" i] remove_pdcp_distinct [of "pdcp_ue_list st" i]
  by (auto simp: pdcp_wf_def nr_pdcp_remove_UE_def case_prod_unfold Let_def)

lemma release_srb_wf: "nr_pdcp_release_srb st i rb = Some st' \<Longrightarrow> pdcp_wf st \<Longrightarrow> pdcp_wf st'"
  by (auto simp: nr_pdcp_release_srb_def elim!: with_pdcp_ue_wf)
     (auto simp: keeps_ue_def keeps_wf_def pdcp_ue_wf_def put_rb_def rb_wf_def nth_list_update split: if_splits)

lemma release_drb_wf:
  assumes "nr_pdcp_release_drb nd st i rb = Some st'" and "pdcp_wf st"
  shows "pdcp_wf st'"
proof -
  obtain f where f: "with_pdcp_ue st i f = Some (st', ())" "keeps_ue f"
    "\<And>ue ue' ups x. f ue = Some (ue', ups, x) \<Longrightarrow> ue' = ue \<or> 1 \<le> rb \<and> rb \<le> 32 \<and> ue' = put_rb ue rb False None"
    using release_drb_elim [OF assms(1)] by blast
  have n: "pdcp_ue_wf (put_rb ue rb False None)" if "pdcp_ue_wf ue" "1 \<le> rb" "rb \<le> 32" for ue
    by (rule put_rb_wf [OF that(1)]) (use that in \<open>auto simp: rb_wf_def\<close>)
  have "keeps_wf f" unfolding keeps_wf_def using f(3) n by metis
  then show ?thesis by (rule with_pdcp_ue_wf [OF f(1) assms(2) f(2)])
qed

lemma reconfigure_drb_key:
  assumes "(case config of None \<Rightarrow> Some e
      | Some c \<Rightarrow> Option.bind (decode_t_reordering_opt (pc_t_Reordering c)) (\<lambda>t.
          case pc_drb c of None \<Rightarrow> Some (e\<lparr>t_reordering := t\<rparr>) | Some d \<Rightarrow> reconfigure_drb d (e\<lparr>t_reordering := t\<rparr>))) = Some e'"
  shows "entity_key e' = entity_key e"
  using assms by (auto split: option.splits Option.bind_splits dest: reconfigure_key)

lemma pdcp_call_wf:
  assumes s: "pdcp_call_step nd st cl = Some st'" and wf: "pdcp_wf st"
  shows "pdcp_wf st'"
proof -
  have o: "pdcp_wf st'" if "on_pdcp_rb nd st i rb srb y f = Some (st', x)" "\<And>e e' x. f e = Some (e', x) \<Longrightarrow> entity_key e' = entity_key e"
    for i rb srb and y x :: 'a and f by (rule on_pdcp_rb_wf [OF that(1) wf that(2)])
  show ?thesis
  proof (cases cl)
    case (Reconfigure_drb i rb c)
    then obtain x where "on_pdcp_rb nd st i rb False () (\<lambda>e. map_option (\<lambda>e. (e, ()))
        (case c of None \<Rightarrow> Some e
         | Some c \<Rightarrow> Option.bind (decode_t_reordering_opt (pc_t_Reordering c)) (\<lambda>t.
             case pc_drb c of None \<Rightarrow> Some (e\<lparr>t_reordering := t\<rparr>) | Some d \<Rightarrow> reconfigure_drb d (e\<lparr>t_reordering := t\<rparr>)))) = Some (st', x)"
      using s by (auto simp: nr_pdcp_reconfigure_drb_def)
    then show ?thesis using wf by (rule on_pdcp_rb_wf) (auto dest: reconfigure_drb_key)
  next
    case (Get_drb_ids i p)
    then show ?thesis using s wf
      by (auto simp: nr_pdcp_get_drb_ids_for_pdusession_def elim!: with_pdcp_ue_wf) (auto simp: keeps_ue_def keeps_wf_def)
  qed (use s wf in \<open>auto simp: do_pdcp_data_ind_def nr_pdcp_config_set_security_def nr_pdcp_check_integrity_srb_def nr_pdcp_suspend_srb_def
        nr_pdcp_suspend_drb_def nr_pdcp_reconfigure_srb_def nr_pdcp_reestablishment_def nr_pdcp_count_update_def
        nr_pdcp_get_drb_count_values_def nr_pdcp_get_statistics_def pdcp_remove_wf suspend_key count_key split: if_splits
        intro: add_srbs_wf pdcp_add_drb_wf release_srb_wf release_drb_wf data_req_wf elim!: on_pdcp_rb_wf
        dest!: recv_key set_security_key reestablish_key\<close>)
qed

section \<open>What SDAP gets from a bearer\<close>

fun drb_bytes :: "u64 \<Rightarrow> int \<Rightarrow> pdcp_upcall \<Rightarrow> u8 list list" where
  "drb_bytes i d (Sdap_data_ind rb g s j b) = (if j = i \<and> rb = d then [b] else [])"
| "drb_bytes i d _ = []"

definition sdap_sdus :: "nr_pdcp_state \<Rightarrow> u64 \<Rightarrow> int \<Rightarrow> u8 list list" where
  "sdap_sdus st i d = concat (map (drb_bytes i d) (pdcp_upcalls st))"

lemma drb_bytes_other: "pdcp_upcall_ue up \<noteq> i \<Longrightarrow> drb_bytes i d up = []"
  by (cases up) auto

lemma deliver_all_up_bytes:
  assumes "deliver_all_up nd ue rb srb e l = Some ups" and "pdcp_rb_id e = rb"
  shows "concat (map (drb_bytes i d) ups) = (if \<not> srb \<and> rb = d \<and> pu_id ue = i then map sdu_buffer l else [])"
  using assms(1)
proof (induction l arbitrary: ups)
  case (Cons s l)
  obtain u us where u: "(if srb then deliver_sdu_srb nd ue rb e s else Some (deliver_sdu_drb nd ue rb e s)) = Some u"
    "deliver_all_up nd ue rb srb e l = Some us" "ups = u # us" using Cons.prems by (auto split: Option.bind_splits)
  have "drb_bytes i d u = (if \<not> srb \<and> rb = d \<and> pu_id ue = i then [sdu_buffer s] else [])"
    using u(1) assms(2) by (auto simp: deliver_sdu_srb_def deliver_sdu_drb_def split: if_splits)
  then show ?case using Cons.IH [OF u(2)] u(3) by simp
qed simp

lemma deliver_drb_always: "deliver_all_up nd ue rb False e l = Some (map (deliver_sdu_drb nd ue rb e) l)"
  by (induction l) auto

lemma get_put_rb:
  assumes "pdcp_ue_wf ue" and "1 \<le> rb" "rb \<le> (if srb then 2 else 32)"
  shows "nr_pdcp_get_rb (put_rb ue rb srb eo) rb' srb' = (if rb' = rb \<and> srb' = srb then eo else nr_pdcp_get_rb ue rb' srb')"
proof -
  have "nat (rb - 1) < length (if srb then pu_srb ue else pu_drb ue)" using assms by (auto simp: pdcp_ue_wf_def)
  moreover have "nat (rb - 1) = nat (rb' - 1) \<longleftrightarrow> rb' = rb" if "1 \<le> rb'" using that assms(2) by auto
  ultimately show ?thesis using assms by (auto simp: nr_pdcp_get_rb_def put_rb_def nth_list_update)
qed

text \<open>An operation on a bearer, seen from all bearers of the UE.\<close>

lemma on_ue_rb_none: "on_ue_rb nd ue rb srb y f = Some (ue', ups, x) \<Longrightarrow> nr_pdcp_get_rb ue rb srb = None \<Longrightarrow> ue' = ue \<and> ups = []"
  by (simp add: on_ue_rb_def)

lemma on_ue_rb_some:
  assumes o: "on_ue_rb nd ue rb srb y f = Some (ue', ups, x)" and wf: "pdcp_ue_wf ue" and g: "nr_pdcp_get_rb ue rb srb = Some e"
  obtains e' where "f e = Some (e', x)"
    and "\<And>rb' srb'. nr_pdcp_get_rb ue' rb' srb' = (if rb' = rb \<and> srb' = srb then Some e' else nr_pdcp_get_rb ue rb' srb')"
    and "\<And>i d. concat (map (drb_bytes i d) ups) =
      (if \<not> srb \<and> rb = d \<and> pu_id ue = i then map sdu_buffer (drop (length (pdcp_delivered e)) (pdcp_delivered e')) else [])"
proof -
  note w = get_rb_wf [OF wf g]
  obtain e' where e': "f e = Some (e', x)" "pdcp_new_upcalls nd ue rb srb e e' = Some ups" "ue' = put_rb ue rb srb (Some e')"
    using o g by (auto simp: on_ue_rb_def split: Option.bind_splits)
  show thesis
  proof (rule that [OF e'(1)])
    show "nr_pdcp_get_rb ue' rb' srb' = (if rb' = rb \<and> srb' = srb then Some e' else nr_pdcp_get_rb ue rb' srb')" for rb' srb'
      unfolding e'(3) using w by (intro get_put_rb [OF wf]) auto
    show "concat (map (drb_bytes i d) ups) =
      (if \<not> srb \<and> rb = d \<and> pu_id ue = i then map sdu_buffer (drop (length (pdcp_delivered e)) (pdcp_delivered e')) else [])" for i d
      using deliver_all_up_bytes e'(2) w unfolding pdcp_new_upcalls_def by blast
  qed
qed

section \<open>The timer thread\<close>

lemma set_time_key: "entity_key (nr_pdcp_entity_set_time e now) = entity_key e"
  by (rule key_static [OF static_frame(7)])

text \<open>The bytes that a bearer delivers when its clock is set.\<close>

definition time_bytes :: "nr_pdcp_entity option \<Rightarrow> u64 \<Rightarrow> u8 list list" where
  "time_bytes eo now =
     (case eo of None \<Rightarrow> [] | Some e \<Rightarrow> map sdu_buffer (drop (length (pdcp_delivered e)) (pdcp_delivered (nr_pdcp_entity_set_time e now))))"

lemma timer_rbs_effect:
  assumes "timer_rbs nd ue srb l now = Some (ue', ups)" and "pdcp_ue_wf ue" and "distinct l"
  shows "pdcp_ue_wf ue' \<and> pu_id ue' = pu_id ue \<and> (\<forall>up\<in>set ups. pdcp_upcall_ue up = pu_id ue) \<and>
    (\<forall>rb srb'. nr_pdcp_get_rb ue' rb srb' =
       (if srb' = srb \<and> rb \<in> set l then map_option (\<lambda>e. nr_pdcp_entity_set_time e now) (nr_pdcp_get_rb ue rb srb') else nr_pdcp_get_rb ue rb srb')) \<and>
    concat (map (drb_bytes (pu_id ue) d) ups) = (if \<not> srb \<and> d \<in> set l then time_bytes (nr_pdcp_get_rb ue d False) now else [])"
  using assms
proof (induction l arbitrary: ue ups)
  case (Cons rb l)
  let ?f = "\<lambda>e. Some (nr_pdcp_entity_set_time e now, ())"
  obtain ue1 ups1 ups2 where s: "on_ue_rb nd ue rb srb () ?f = Some (ue1, ups1, ())" "timer_rbs nd ue1 srb l now = Some (ue', ups2)" "ups = ups1 @ ups2"
    using Cons.prems(1) by (auto split: Option.bind_splits)
  have w1: "pdcp_ue_wf ue1" by (rule on_ue_rb_wf [OF s(1) Cons.prems(2)]) (auto simp: set_time_key)
  have i1: "pu_id ue1 = pu_id ue" "\<forall>up\<in>set ups1. pdcp_upcall_ue up = pu_id ue"
    using keeps_on_ue_rb [of nd rb srb "()" ?f] s(1) unfolding keeps_ue_def by blast+
  have g1: "nr_pdcp_get_rb ue1 rb' srb' =
      (if srb' = srb \<and> rb' = rb then map_option (\<lambda>e. nr_pdcp_entity_set_time e now) (nr_pdcp_get_rb ue rb' srb') else nr_pdcp_get_rb ue rb' srb') \<and>
    concat (map (drb_bytes (pu_id ue) d) ups1) = (if \<not> srb \<and> d = rb then time_bytes (nr_pdcp_get_rb ue d False) now else [])" for rb' srb'
  proof (cases "nr_pdcp_get_rb ue rb srb")
    case None
    then show ?thesis using on_ue_rb_none [OF s(1)] by (auto simp: time_bytes_def)
  next
    case (Some e)
    show ?thesis by (rule on_ue_rb_some [OF s(1) Cons.prems(2) Some]) (use Some in \<open>auto simp: time_bytes_def\<close>)
  qed
  note ih = Cons.IH [OF s(2) w1]
  show ?case using ih Cons.prems(3) i1 g1 s(3) by auto
qed auto

lemma timer_ue_effect:
  assumes "timer_ue nd ue now = Some (ue', ups)" and "pdcp_ue_wf ue"
  shows "pdcp_ue_wf ue' \<and> pu_id ue' = pu_id ue \<and> (\<forall>up\<in>set ups. pdcp_upcall_ue up = pu_id ue) \<and>
    (\<forall>rb. nr_pdcp_get_rb ue' rb False = (if rb \<le> 5 then map_option (\<lambda>e. nr_pdcp_entity_set_time e now) (nr_pdcp_get_rb ue rb False) else nr_pdcp_get_rb ue rb False)) \<and>
    concat (map (drb_bytes (pu_id ue) d) ups) = (if d \<le> 5 then time_bytes (nr_pdcp_get_rb ue d False) now else [])"
proof -
  obtain ue1 ups1 ups2 where s: "timer_rbs nd ue True [1, 2] now = Some (ue1, ups1)" "timer_rbs nd ue1 False [1, 2, 3, 4, 5] now = Some (ue', ups2)"
    "ups = ups1 @ ups2" using assms(1) by (auto simp: timer_ue_def split: Option.bind_splits)
  note t1 = timer_rbs_effect [OF s(1) assms(2), of d, simplified]
  have w1: "pdcp_ue_wf ue1" using t1 by blast
  note t2 = timer_rbs_effect [OF s(2) w1, of d]
  have r: "rb \<in> set [1, 2, 3, 4, 5] \<longleftrightarrow> rb \<le> 5" if "nr_pdcp_get_rb ue rb False \<noteq> None" for rb :: int
    using that by (auto simp: nr_pdcp_get_rb_def split: if_splits)
  have "nr_pdcp_get_rb ue' rb False = (if rb \<le> 5 then map_option (\<lambda>e. nr_pdcp_entity_set_time e now) (nr_pdcp_get_rb ue rb False) else nr_pdcp_get_rb ue rb False)" for rb
    using t1 t2 r [of rb] by (cases "nr_pdcp_get_rb ue rb False") auto
  moreover have "concat (map (drb_bytes (pu_id ue) d) ups2) = (if d \<le> 5 then time_bytes (nr_pdcp_get_rb ue d False) now else [])"
    using t1 t2 r [of d] by (cases "nr_pdcp_get_rb ue d False") (auto simp: time_bytes_def)
  ultimately show ?thesis using t1 t2 s(3) by auto
qed

lemma timer_ues_effect:
  assumes "timer_ues nd l now = Some (l', ups)" and "\<forall>ue\<in>set l. pdcp_ue_wf ue" and "distinct (map pu_id l)"
  shows "map pu_id l' = map pu_id l \<and> (\<forall>ue\<in>set l'. pdcp_ue_wf ue) \<and> (\<forall>up\<in>set ups. pdcp_upcall_ue up \<in> pu_id ` set l) \<and>
    (\<forall>i ue. find_pdcp_ue l i = Some ue \<longrightarrow> (\<exists>ue'. find_pdcp_ue l' i = Some ue' \<and>
       (\<forall>rb. nr_pdcp_get_rb ue' rb False = (if rb \<le> 5 then map_option (\<lambda>e. nr_pdcp_entity_set_time e now) (nr_pdcp_get_rb ue rb False) else nr_pdcp_get_rb ue rb False)) \<and>
       concat (map (drb_bytes i d) ups) = (if d \<le> 5 then time_bytes (nr_pdcp_get_rb ue d False) now else [])))"
  using assms
proof (induction l arbitrary: l' ups)
  case (Cons u l)
  obtain u' ups1 l1 ups2 where s: "timer_ue nd u now = Some (u', ups1)" "timer_ues nd l now = Some (l1, ups2)" "l' = u' # l1" "ups = ups1 @ ups2"
    using Cons.prems(1) by (auto split: Option.bind_splits)
  have wu: "pdcp_ue_wf u" using Cons.prems(2) by simp
  note t = timer_ue_effect [OF s(1) wu, of d]
  note ih = Cons.IH [OF s(2)]
  have z1: "concat (map (drb_bytes i d) ups1) = []" if "pu_id u \<noteq> i" for i using t that by (auto simp: drb_bytes_other)
  have z2: "concat (map (drb_bytes i d) ups2) = []" if "i \<notin> pu_id ` set l" for i
  proof -
    have "\<forall>up\<in>set ups2. pdcp_upcall_ue up \<noteq> i" using ih Cons.prems(2,3) that by fastforce
    then show ?thesis by (simp add: drb_bytes_other)
  qed
  have m: "i \<in> pu_id ` set l" if "find_pdcp_ue l i = Some ue" for i ue using find_pdcp_id [OF that] by auto
  have "\<exists>ue'. find_pdcp_ue l' i = Some ue' \<and>
       (\<forall>rb. nr_pdcp_get_rb ue' rb False = (if rb \<le> 5 then map_option (\<lambda>e. nr_pdcp_entity_set_time e now) (nr_pdcp_get_rb ue rb False) else nr_pdcp_get_rb ue rb False)) \<and>
       concat (map (drb_bytes i d) ups) = (if d \<le> 5 then time_bytes (nr_pdcp_get_rb ue d False) now else [])"
    if f: "find_pdcp_ue (u # l) i = Some ue" for i ue
  proof (cases "pu_id u = i")
    case True
    then have "ue = u" "find_pdcp_ue l' i = Some u'" using f t s(3) by (simp_all add: find_pdcp_ue_def)
    then show ?thesis using t z2 [of i] True Cons.prems(3) s(4) by auto
  next
    case False
    have e: "find_pdcp_ue l i = Some ue" "find_pdcp_ue l' i = find_pdcp_ue l1 i" using False f t s(3) by (simp_all add: find_pdcp_ue_def)
    have c: "concat (map (drb_bytes i d) ups) = concat (map (drb_bytes i d) ups2)"
      unfolding s(4) map_append concat_append z1 [OF False] by simp
    have "\<forall>ue\<in>set l. pdcp_ue_wf ue" "distinct (map pu_id l)" using Cons.prems(2,3) by simp_all
    from ih [OF this] show ?thesis unfolding e(2) c using e(1) by blast
  qed
  then show ?case using t ih Cons.prems(2,3) s(3,4) by auto
qed (simp add: find_pdcp_ue_def)

text \<open>A round of the thread seen from a bearer: it has the time only up to DRB 5.\<close>

definition timed_bearer :: "nr_pdcp_state \<Rightarrow> nr_pdcp_state \<Rightarrow> u64 \<Rightarrow> int \<Rightarrow> bool" where
  "timed_bearer st st' i d \<longleftrightarrow> (\<forall>ue. find_pdcp_ue (pdcp_ue_list st) i = Some ue \<longrightarrow>
     (\<exists>ue'. find_pdcp_ue (pdcp_ue_list st') i = Some ue' \<and>
       nr_pdcp_get_rb ue' d False = (if d \<le> 5 then map_option (\<lambda>e. nr_pdcp_entity_set_time e (timer_thread_curtime st)) (nr_pdcp_get_rb ue d False)
         else nr_pdcp_get_rb ue d False) \<and>
       sdap_sdus st' i d = sdap_sdus st i d @ (if d \<le> 5 then time_bytes (nr_pdcp_get_rb ue d False) (timer_thread_curtime st) else [])))"

lemma timer_thread_effect:
  assumes "nr_pdcp_timer_thread nd st = Some st'" and "pdcp_wf st"
  shows "pdcp_wf st' \<and> req_callers st' = req_callers st \<and> req_queue st' = req_queue st \<and> ind_queue st' = ind_queue st \<and>
    pdcp_leaked st' = pdcp_leaked st \<and> (if thread_curtime st = timer_thread_curtime st then st' = st else timed_bearer st st' i d)"
proof (cases "thread_curtime st = timer_thread_curtime st")
  case True
  then show ?thesis using assms by (simp add: nr_pdcp_timer_thread_def)
next
  case False
  obtain l ups where s: "timer_ues nd (pdcp_ue_list st) (timer_thread_curtime st) = Some (l, ups)"
    "st' = st\<lparr>thread_curtime := timer_thread_curtime st, pdcp_ue_list := l, pdcp_upcalls := pdcp_upcalls st @ ups\<rparr>"
    using assms(1) False by (auto simp: nr_pdcp_timer_thread_def)
  have w: "\<forall>ue\<in>set (pdcp_ue_list st). pdcp_ue_wf ue" "distinct (map pu_id (pdcp_ue_list st))" using assms(2) by (simp_all add: pdcp_wf_def)
  note t = timer_ues_effect [OF s(1) w, of d]
  have "pdcp_wf st'" using t w(2) by (simp add: s(2) pdcp_wf_def)
  moreover have "timed_bearer st st' i d" unfolding timed_bearer_def
  proof (intro allI impI)
    fix ue
    assume "find_pdcp_ue (pdcp_ue_list st) i = Some ue"
    then obtain ue' where "find_pdcp_ue l i = Some ue'"
      "nr_pdcp_get_rb ue' d False = (if d \<le> 5 then map_option (\<lambda>e. nr_pdcp_entity_set_time e (timer_thread_curtime st)) (nr_pdcp_get_rb ue d False) else nr_pdcp_get_rb ue d False)"
      "concat (map (drb_bytes i d) ups) = (if d \<le> 5 then time_bytes (nr_pdcp_get_rb ue d False) (timer_thread_curtime st) else [])"
      using t by blast
    then show "\<exists>ue'. find_pdcp_ue (pdcp_ue_list st') i = Some ue' \<and>
       nr_pdcp_get_rb ue' d False = (if d \<le> 5 then map_option (\<lambda>e. nr_pdcp_entity_set_time e (timer_thread_curtime st)) (nr_pdcp_get_rb ue d False)
         else nr_pdcp_get_rb ue d False) \<and>
       sdap_sdus st' i d = sdap_sdus st i d @ (if d \<le> 5 then time_bytes (nr_pdcp_get_rb ue d False) (timer_thread_curtime st) else [])"
      by (intro exI [of _ ue']) (simp add: s(2) sdap_sdus_def)
  qed
  ultimately show ?thesis using False by (simp add: s(2))
qed

section \<open>Reachable states\<close>

text \<open>The operations of the queues and of the timer.\<close>

datatype pdcp_api_event =
    Pdcp_call pdcp_call
  | Enqueue_req nat
  | Req_take
  | Req_call
  | Req_remove
  | Data_ind protocol_ctxt bool int "u8 list"
  | Ind_take
  | Ind_call
  | Ind_remove
  | Tick
  | Timer

fun pdcp_api_step :: "pdcp_node \<Rightarrow> nr_pdcp_state \<Rightarrow> pdcp_api_event \<Rightarrow> nr_pdcp_state option" where
  "pdcp_api_step nd st (Pdcp_call cl) = pdcp_call_step nd st cl"
| "pdcp_api_step nd st (Enqueue_req k) = enqueue_rlc_data_req st k"
| "pdcp_api_step nd st Req_take = rlc_data_req_thread_take st"
| "pdcp_api_step nd st Req_call = map_option fst (rlc_data_req_thread_call st)"
| "pdcp_api_step nd st Req_remove = rlc_data_req_thread_remove st"
| "pdcp_api_step nd st (Data_ind ctxt srb rb buf) = nr_pdcp_data_ind st ctxt srb rb buf"
| "pdcp_api_step nd st Ind_take = pdcp_data_ind_thread_take st"
| "pdcp_api_step nd st Ind_call = pdcp_data_ind_thread_call nd st"
| "pdcp_api_step nd st Ind_remove = pdcp_data_ind_thread_remove st"
| "pdcp_api_step nd st Tick = Some (nr_pdcp_ms_tick st)"
| "pdcp_api_step nd st Timer = nr_pdcp_timer_thread nd st"

inductive pdcp_reachable :: "pdcp_node \<Rightarrow> nr_pdcp_state \<Rightarrow> bool" for nd where
  init: "pdcp_reachable nd new_nr_pdcp_state"
| event: "pdcp_reachable nd st \<Longrightarrow> pdcp_api_step nd st ev = Some st' \<Longrightarrow> pdcp_reachable nd st'"

lemma same_table_wf: "pdcp_ue_list st' = pdcp_ue_list st \<Longrightarrow> pdcp_wf st' = pdcp_wf st"
  by (simp add: pdcp_wf_def)

lemma pdcp_event_wf:
  assumes "pdcp_api_step nd st ev = Some st'" and "pdcp_wf st"
  shows "pdcp_wf st'"
proof (cases ev)
  case (Pdcp_call cl)
  then show ?thesis using assms pdcp_call_wf by simp
next
  case Ind_call
  then obtain x where x: "queue_item (ind_queue st) = Some x"
    "do_pdcp_data_ind nd (st\<lparr>ind_queue := queue_worked (ind_queue st)\<rparr>) (di_ctxt x) (di_srb_flag x) (di_rb_id x) (di_sdu x) = Some st'"
    using assms(1) by (auto simp: pdcp_data_ind_thread_call_def split: Option.bind_splits)
  have "pdcp_call_step nd (st\<lparr>ind_queue := queue_worked (ind_queue st)\<rparr>) (Do_data_ind (di_ctxt x) (di_srb_flag x) (di_rb_id x) (di_sdu x)) = Some st'"
    using x(2) by simp
  then show ?thesis by (rule pdcp_call_wf) (use assms(2) in \<open>simp add: pdcp_wf_def\<close>)
next
  case Timer
  then show ?thesis using assms timer_thread_effect [of nd st st'] by simp
qed (use assms in \<open>auto simp: enqueue_rlc_data_req_def rlc_data_req_thread_take_def rlc_data_req_thread_call_def rlc_data_req_thread_remove_def
       nr_pdcp_data_ind_def enqueue_pdcp_data_ind_def pdcp_data_ind_thread_take_def pdcp_data_ind_thread_remove_def nr_pdcp_ms_tick_def pdcp_wf_def
       split: if_splits\<close>)

lemma pdcp_reachable_wf: "pdcp_reachable nd st \<Longrightarrow> pdcp_wf st"
proof (induction rule: pdcp_reachable.induct)
  case init
  then show ?case by (simp add: pdcp_wf_def new_nr_pdcp_state_def)
next
  case (event st ev st')
  then show ?case using pdcp_event_wf by blast
qed

end
