(* ===== verification/Pdcp_Api_Properties.thy ===== *)
theory Pdcp_Api_Properties
  imports Pdcp_Api_Invariant
begin

text \<open>
  Properties of the PDCP interface: the queues to and from RLC, well-formed tables, isolation of UEs, and the
  bearers that the timer and the removal of a UE leave out.
\<close>

section \<open>The queues\<close>

text \<open>
  C14: Both queues between PDCP and RLC, from their initial state and for every interleaving of callers with the
  steps of the thread: what the thread has worked on, followed by what is still to do, are the items that were
  put in, each once and in order, though items are added while the thread works without the lock.
  There are never more items than the ring has slots, a caller waits only when it is full, and when there is
  something to do the thread can go on.
\<close>

theorem work_queue_in_order:
  assumes "0 < sz" and "queue_run sz new_work_queue evs = Some (s, added, worked)"
  shows "worked @ queue_todo sz s = added \<and> ring_length (wq_ring s) \<le> sz \<and> (\<forall>x. queue_put sz s x = None \<longleftrightarrow> ring_length (wq_ring s) = sz) \<and>
    (queue_todo sz s \<noteq> [] \<longrightarrow> queue_take s \<noteq> None \<or> queue_item s \<noteq> None \<or> queue_remove sz s \<noteq> None)"
proof -
  have "ring_worker.served sz new_work_queue added worked s"
    using queue_run_in_order [OF assms(2) ring_worker.served.start] by simp
  from ring_worker.in_order_once [OF this] have r: "wq_ok sz s" "worked @ queue_todo sz s = added"
    by (simp_all add: new_work_queue_ok [OF assms(1)])
  have "ring_length (wq_ring s) \<le> sz" using r(1) by (simp add: wq_ok_def ring_ok_def)
  moreover have "\<forall>x. queue_put sz s x = None \<longleftrightarrow> ring_length (wq_ring s) = sz" by (simp add: queue_put_waits)
  ultimately show ?thesis using r(2) ring_worker.progress [OF r(1)] by simp
qed

theorem work_queue_in_order_witness:
  "\<exists>s. queue_run RLC_DATA_REQ_QUEUE_SIZE new_work_queue [Put (1 :: nat), Take, Put 2, Work, Put 3, Remove] = Some (s, [1, 2, 3], [1]) \<and>
    queue_todo RLC_DATA_REQ_QUEUE_SIZE s = [2, 3]"
proof -
  have "map_option snd (queue_run RLC_DATA_REQ_QUEUE_SIZE new_work_queue [Put (1 :: nat), Take, Put 2, Work, Put 3, Remove]) = Some ([1, 2, 3], [1])"
    by code_simp
  then obtain s where s: "queue_run RLC_DATA_REQ_QUEUE_SIZE new_work_queue [Put (1 :: nat), Take, Put 2, Work, Put 3, Remove] = Some (s, [1, 2, 3], [1])"
    by (auto simp del: queue_run.simps)
  have "[1] @ queue_todo RLC_DATA_REQ_QUEUE_SIZE s = [1, 2, 3]"
    using work_queue_in_order [OF _ s] by (simp add: RLC_DATA_REQ_QUEUE_SIZE_def)
  then show ?thesis using s by simp
qed

section \<open>Tables\<close>

fun run_pdcp :: "pdcp_node \<Rightarrow> nr_pdcp_state \<Rightarrow> pdcp_api_event list \<Rightarrow> nr_pdcp_state option" where
  "run_pdcp nd st [] = Some st"
| "run_pdcp nd st (ev # evs) = Option.bind (pdcp_api_step nd st ev) (\<lambda>st. run_pdcp nd st evs)"

lemma run_pdcp_reachable: "pdcp_reachable nd st \<Longrightarrow> run_pdcp nd st evs = Some st' \<Longrightarrow> pdcp_reachable nd st'"
proof (induction evs arbitrary: st)
  case (Cons ev evs)
  then show ?case by (auto split: Option.bind_splits intro: pdcp_reachable.event)
qed simp

text \<open>
  C25: In every state that the calls, the threads of the queues and the timer reach, no two UEs have the same
  identifier, and the entity that PDCP finds for an SRB or DRB of a UE is one of the right kind that was
  made for exactly this bearer.
\<close>

theorem pdcp_tables_consistent:
  assumes "pdcp_reachable nd st"
  shows "distinct (map pu_id (pdcp_ue_list st)) \<and>
    (\<forall>ue\<in>set (pdcp_ue_list st). \<forall>rb srb e. nr_pdcp_get_rb ue rb srb = Some e \<longrightarrow>
       pdcp_type e = (if srb then NR_PDCP_SRB else NR_PDCP_DRB_AM) \<and> pdcp_rb_id e = rb)"
proof -
  have "pdcp_wf st" by (rule pdcp_reachable_wf [OF assms])
  then show ?thesis using get_rb_wf unfolding pdcp_wf_def by blast
qed

definition demo_no_security :: nr_pdcp_security where
  "demo_no_security = \<lparr>integrity_algorithm = 0, ciphering_algorithm = 0, integrity_key = replicate 16 0, ciphering_key = replicate 16 0\<rparr>"

definition demo_pdcp_config :: NR_PDCP_Config where
  "demo_pdcp_config = \<lparr>pc_drb = Some \<lparr>pdcp_SN_SizeUL = Some 0, pdcp_SN_SizeDL = Some 0, discardTimer = Some 15, integrityProtection = False\<rparr>,
     pc_t_Reordering = Some 6, cipheringDisabled = True\<rparr>"

definition demo_sdap_cf :: "int \<Rightarrow> sdap_config_t" where
  "demo_sdap_cf d = \<lparr>cf_pdusession_id = 10, cf_drb_id = d, cf_role = 0, cf_defaultDRB = True, mappedQFIs2Add = [], mappedQFIs2Release = []\<rparr>"

definition demo_nd :: pdcp_node where
  "demo_nd = \<lparr>nd_crypto = \<lparr>aes_ctr = (\<lambda>k i m. m), aes_cmac = (\<lambda>k m. replicate 16 0), junk = replicate 32 0\<rparr>,
     nd_is_cu = False, nd_use_tun = False, nd_cu2du = (\<lambda>_. None)\<rparr>"

text \<open>Two DRBs of a UE; the second PDU arrives without the first on both, and the time goes on.\<close>

definition demo_pdcp_events :: "int \<Rightarrow> int \<Rightarrow> pdcp_api_event list" where
  "demo_pdcp_events a b =
     [Pdcp_call (Add_pdcp_drb False 7 demo_pdcp_config (demo_sdap_cf a) demo_no_security),
      Pdcp_call (Add_pdcp_drb False 7 demo_pdcp_config (demo_sdap_cf b) demo_no_security), Tick, Timer,
      Data_ind (plain_ctxt False 7) False a [128, 1, 42], Data_ind (plain_ctxt False 7) False b [128, 1, 43],
      Ind_take, Ind_call, Ind_remove, Ind_take, Ind_call, Ind_remove]"

theorem pdcp_tables_consistent_witness:
  "\<exists>st ue e. run_pdcp demo_nd new_nr_pdcp_state (demo_pdcp_events 5 6) = Some st \<and> ue \<in> set (pdcp_ue_list st) \<and>
    nr_pdcp_get_rb ue 6 False = Some e \<and> pdcp_type e = NR_PDCP_DRB_AM \<and> pdcp_rb_id e = 6"
proof -
  have "map_option (\<lambda>st. map_option (\<lambda>ue. Option.is_none (nr_pdcp_get_rb ue 6 False)) (find_pdcp_ue (pdcp_ue_list st) 7))
    (run_pdcp demo_nd new_nr_pdcp_state (demo_pdcp_events 5 6)) = Some (Some False)" by code_simp
  then obtain st ue e where s: "run_pdcp demo_nd new_nr_pdcp_state (demo_pdcp_events 5 6) = Some st" "find_pdcp_ue (pdcp_ue_list st) 7 = Some ue"
    "nr_pdcp_get_rb ue 6 False = Some e" by (auto simp: Option.is_none_def)
  have r: "pdcp_reachable demo_nd st" by (rule run_pdcp_reachable [OF pdcp_reachable.init s(1)])
  have m: "ue \<in> set (pdcp_ue_list st)" using find_pdcp_id [OF s(2)] by simp
  have "pdcp_type e = NR_PDCP_DRB_AM \<and> pdcp_rb_id e = 6" using pdcp_tables_consistent [OF r] m s(3) by fastforce
  then show ?thesis using s(1,3) m by blast
qed

section \<open>Isolation\<close>

text \<open>
  C13: A call of the PDCP interface leaves the contexts of all UEs but the one it is for as they were, hands
  SDUs, messages and packets to SDAP, RRC and GTP-U only in the name of that UE, and gives PDUs to RLC only
  under an identifier that belongs to it.
\<close>

theorem pdcp_call_isolation:
  assumes "pdcp_call_step nd st cl = Some st'"
  shows "(\<forall>j. j \<noteq> pdcp_call_ue cl \<longrightarrow> find_pdcp_ue (pdcp_ue_list st') j = find_pdcp_ue (pdcp_ue_list st) j) \<and>
    (\<exists>ups. pdcp_upcalls st' = pdcp_upcalls st @ ups \<and> (\<forall>up\<in>set ups. pdcp_upcall_ue up = pdcp_call_ue cl)) \<and>
    (\<exists>xs. req_callers st' = req_callers st @ xs \<and> (\<forall>x\<in>set xs. rlc_identity x \<in> rlc_names nd (pdcp_call_ue cl)))"
  using pdcp_call_confined [OF assms] unfolding pdcp_confined_def by blast

theorem pdcp_call_isolation_witness:
  "\<exists>st st'. run_pdcp demo_nd new_nr_pdcp_state (demo_pdcp_events 5 6) = Some st \<and> pdcp_call_step demo_nd st (Release_drb 8 1) = Some st' \<and>
    find_pdcp_ue (pdcp_ue_list st') 7 = find_pdcp_ue (pdcp_ue_list st) 7"
proof -
  have "map_option (\<lambda>st. Option.is_none (pdcp_call_step demo_nd st (Release_drb 8 1))) (run_pdcp demo_nd new_nr_pdcp_state (demo_pdcp_events 5 6)) = Some False"
    by code_simp
  then obtain st st' where s: "run_pdcp demo_nd new_nr_pdcp_state (demo_pdcp_events 5 6) = Some st" "pdcp_call_step demo_nd st (Release_drb 8 1) = Some st'"
    by (auto simp: Option.is_none_def)
  then show ?thesis using pdcp_call_isolation [OF s(2)] by auto
qed

section \<open>Bearers above DRB 5\<close>

text \<open>
  C40: The timer thread and the removal of a UE know five DRBs, though a UE has up to 32. In every reachable state, a
  round of the timer thread sets the clock of an entity of DRB 1 to 5, and leaves that of a higher DRB and
  the SDUs that it holds for reordering untouched; and exactly the entities of the higher DRBs are
  not freed when their UE is removed.
\<close>

theorem pdcp_high_drbs_neglected:
  assumes "pdcp_reachable nd st" and "find_pdcp_ue (pdcp_ue_list st) i = Some ue" and "nr_pdcp_get_rb ue d False = Some e"
    and "thread_curtime st \<noteq> timer_thread_curtime st" and "nr_pdcp_timer_thread nd st = Some st'"
  shows "(\<exists>ue'. find_pdcp_ue (pdcp_ue_list st') i = Some ue' \<and>
      nr_pdcp_get_rb ue' d False = Some (if d \<le> 5 then nr_pdcp_entity_set_time e (timer_thread_curtime st) else e)) \<and>
    (5 < d \<longrightarrow> sdap_sdus st' i d = sdap_sdus st i d) \<and>
    pdcp_leaked (nr_pdcp_remove_UE st i) = pdcp_leaked st @ List.map_filter (\<lambda>rb. nr_pdcp_get_rb ue rb False) (map int [6..<33])"
proof -
  have wf: "pdcp_wf st" by (rule pdcp_reachable_wf [OF assms(1)])
  have t: "timed_bearer st st' i d" using timer_thread_effect [OF assms(5) wf, of i d] assms(4) by simp
  have u: "pdcp_ue_wf ue" using find_pdcp_id [OF assms(2)] wf by (simp add: pdcp_wf_def)
  let ?k = "pdcp_ue_position (pdcp_ue_list st) i"
  have k: "?k < length (pdcp_ue_list st)" "pdcp_ue_list st ! ?k = ue" using assms(2) by (auto simp: find_pdcp_position Let_def split: if_splits)
  have "drop 5 (pu_drb ue) = map (\<lambda>rb. nr_pdcp_get_rb ue rb False) (map int [6..<33])"
    using u by (intro nth_equalityI) (auto simp: pdcp_ue_wf_def nr_pdcp_get_rb_def nat_add_distrib simp del: upt_rec_numeral)
  moreover have "drop 2 (pu_srb ue) = [None]"
    using u by (intro nth_equalityI) (auto simp: pdcp_ue_wf_def)
  ultimately have "pdcp_leaked (nr_pdcp_remove_UE st i) = pdcp_leaked st @ List.map_filter (\<lambda>rb. nr_pdcp_get_rb ue rb False) (map int [6..<33])"
    using k by (simp add: nr_pdcp_remove_UE_def nr_pdcp_manager_remove_ue_def Let_def map_filter_def filter_map comp_def del: upt_rec_numeral)
  moreover obtain ue' where "find_pdcp_ue (pdcp_ue_list st') i = Some ue'"
    "nr_pdcp_get_rb ue' d False = (if d \<le> 5 then map_option (\<lambda>e. nr_pdcp_entity_set_time e (timer_thread_curtime st)) (nr_pdcp_get_rb ue d False)
         else nr_pdcp_get_rb ue d False)"
    "sdap_sdus st' i d = sdap_sdus st i d @ (if d \<le> 5 then time_bytes (nr_pdcp_get_rb ue d False) (timer_thread_curtime st) else [])"
    using t assms(2) unfolding timed_bearer_def by blast
  ultimately show ?thesis using assms(3) by auto
qed

theorem pdcp_high_drbs_neglected_witness:
  "\<exists>st st' ue' e. run_pdcp demo_nd new_nr_pdcp_state (demo_pdcp_events 5 6 @ [Tick]) = Some st \<and> nr_pdcp_timer_thread demo_nd st = Some st' \<and>
    find_pdcp_ue (pdcp_ue_list st') 7 = Some ue' \<and> nr_pdcp_get_rb ue' 6 False = Some e \<and> map sdu_buffer (pdcp_rx_list e) = [[43]] \<and>
    e \<in> set (pdcp_leaked (nr_pdcp_remove_UE st 7))"
proof -
  let ?r = "run_pdcp demo_nd new_nr_pdcp_state (demo_pdcp_events 5 6 @ [Tick])"
  have "map_option (\<lambda>st. (thread_curtime st, timer_thread_curtime st, Option.is_none (nr_pdcp_timer_thread demo_nd st),
      map_option (\<lambda>ue. map_option (\<lambda>e. map sdu_buffer (pdcp_rx_list e)) (nr_pdcp_get_rb ue 6 False)) (find_pdcp_ue (pdcp_ue_list st) 7))) ?r =
    Some (1, 2, False, Some (Some [[43]]))" by code_simp
  then obtain st st' ue e where s: "?r = Some st" "thread_curtime st = 1" "timer_thread_curtime st = 2" "nr_pdcp_timer_thread demo_nd st = Some st'"
    "find_pdcp_ue (pdcp_ue_list st) 7 = Some ue" "nr_pdcp_get_rb ue 6 False = Some e" "map sdu_buffer (pdcp_rx_list e) = [[43]]"
    by (auto simp: Option.is_none_def simp del: run_pdcp.simps)
  have r: "pdcp_reachable demo_nd st" by (rule run_pdcp_reachable [OF pdcp_reachable.init s(1)])
  have n: "thread_curtime st \<noteq> timer_thread_curtime st" using s(2,3) by simp
  note p = pdcp_high_drbs_neglected [OF r s(5,6) n s(4)]
  obtain ue' where "find_pdcp_ue (pdcp_ue_list st') 7 = Some ue'" "nr_pdcp_get_rb ue' 6 False = Some e" using p by auto
  moreover have "e \<in> set (pdcp_leaked (nr_pdcp_remove_UE st 7))"
    using p s(6) by (force simp: map_filter_def simp del: upt_rec_numeral)
  ultimately show ?thesis using s(1,4,7) by (intro exI conjI)
qed

end
