(* ===== verification/Sdap_Entity.thy ===== *)
theory Sdap_Entity
  imports Sdap
begin

text \<open>
  Lemmas on the SDAP layer: the header, the table of rules after a configuration, the list of entities and
  its invariant over all operations.
\<close>

section \<open>The header\<close>

lemma sdap_hdr_fields [simp]:
  "hdr_QFI (sdap_hdr qfi a b) = qfi mod 64" "bit (sdap_hdr qfi a b) 7 \<longleftrightarrow> b" "bit (sdap_hdr qfi a b) 6 \<longleftrightarrow> a"
proof -
  have "\<forall>q\<in>set [0..<64]. \<forall>a b. hdr_QFI (sdap_hdr q a b) = q \<and> (bit (sdap_hdr q a b) 7 \<longleftrightarrow> b) \<and> (bit (sdap_hdr q a b) 6 \<longleftrightarrow> a)"
    by code_simp
  then have "hdr_QFI (sdap_hdr (qfi mod 64) a b) = qfi mod 64 \<and> (bit (sdap_hdr (qfi mod 64) a b) 7 \<longleftrightarrow> b) \<and>
      (bit (sdap_hdr (qfi mod 64) a b) 6 \<longleftrightarrow> a)" by simp
  moreover have "sdap_hdr qfi a b = sdap_hdr (qfi mod 64) a b" by (simp add: sdap_hdr_def)
  ultimately show "hdr_QFI (sdap_hdr qfi a b) = qfi mod 64" "bit (sdap_hdr qfi a b) 7 \<longleftrightarrow> b" "bit (sdap_hdr qfi a b) 6 \<longleftrightarrow> a"
    by simp_all
qed

lemma hdr_QFI_less: "hdr_QFI w < 64"
proof -
  have "w AND 0x3F \<le> 0x3F" by (simp add: word_and_le1)
  then have "unat (w AND 0x3F) \<le> unat (0x3F :: u8)" by (simp add: word_le_nat_alt)
  then show ?thesis by (simp add: hdr_QFI_def)
qed

section \<open>An entity\<close>

definition sdap_ok :: "nr_sdap_entity \<Rightarrow> bool" where
  "sdap_ok e \<longleftrightarrow> length (qfi2drb_table e) = SDAP_MAX_QFI \<and>
     (\<forall>q \<in> set (qfi2drb_table e). 0 \<le> q_drb_id q \<and> q_drb_id q \<le> MAX_DRBS_PER_UE) \<and>
     (pdusession_sock e \<noteq> -1 \<longrightarrow> pdusession_if_name e \<noteq> None)"

definition same_id :: "nr_sdap_entity \<Rightarrow> nr_sdap_entity \<Rightarrow> bool" where
  "same_id e e' \<longleftrightarrow> sd_ue_id e' = sd_ue_id e \<and> sd_pdusession_id e' = sd_pdusession_id e"

lemma same_id_trans: "same_id e e' \<Longrightarrow> same_id e' e'' \<Longrightarrow> same_id e e''"
  by (simp add: same_id_def)

lemma sdap_ok_table:
  assumes "sdap_ok e" and "length t = SDAP_MAX_QFI" and "\<forall>q \<in> set t. 0 \<le> q_drb_id q \<and> q_drb_id q \<le> MAX_DRBS_PER_UE"
  shows "sdap_ok (e\<lparr>qfi2drb_table := t\<rparr>)"
  using assms by (simp add: sdap_ok_def)

lemma sdap_ok_set:
  assumes "sdap_ok e" and "0 \<le> q_drb_id x" "q_drb_id x \<le> MAX_DRBS_PER_UE"
  shows "sdap_ok (e\<lparr>qfi2drb_table := (qfi2drb_table e)[i := x]\<rparr>)"
  by (rule sdap_ok_table [OF assms(1)]) (use assms in \<open>auto simp: sdap_ok_def dest: set_update_subset_insert [THEN subsetD]\<close>)

text \<open>The rules after flows are added and removed.\<close>

lemma add_flows:
  assumes "sdap_ok e"
  shows "sdap_ok (nr_sdap_add_qos_flows_to_drb e cf)" and "same_id e (nr_sdap_add_qos_flows_to_drb e cf)"
    and "0 < cf_drb_id cf \<Longrightarrow> cf_drb_id cf \<le> MAX_DRBS_PER_UE \<Longrightarrow> q < 64 \<Longrightarrow>
      qfi2drb_table (nr_sdap_add_qos_flows_to_drb e cf) ! q =
        (if q \<in> qfi_u8 ` set (mappedQFIs2Add cf) then \<lparr>q_drb_id = cf_drb_id cf, q_role = cf_role cf mod 256\<rparr> else qfi2drb_table e ! q)"
proof -
  let ?P = "cf_drb_id cf > 0 \<and> cf_drb_id cf \<le> MAX_DRBS_PER_UE"
  define f where "f = (\<lambda>e x. if qfi_u8 x < SDAP_MAX_QFI \<and> cf_drb_id cf > 0 \<and> cf_drb_id cf \<le> MAX_DRBS_PER_UE
                  then nr_sdap_qfi2drb_map_add e (qfi_u8 x) (cf_drb_id cf) (cf_role cf mod 256) else e)"
  have step: "sdap_ok (f e x) \<and> same_id e (f e x)" if "sdap_ok e" for e x
    using that sdap_ok_set by (auto simp: f_def nr_sdap_qfi2drb_map_add_def same_id_def)
  have all: "sdap_ok (foldl f e xs) \<and> same_id e (foldl f e xs)" if "sdap_ok e" for e xs
    using that
  proof (induction xs arbitrary: e)
    case (Cons x xs)
    then show ?case using step same_id_trans by fastforce
  qed (simp add: same_id_def)
  have a: "nr_sdap_add_qos_flows_to_drb e cf = foldl f e (mappedQFIs2Add cf)" by (simp add: nr_sdap_add_qos_flows_to_drb_def f_def)
  show "sdap_ok (nr_sdap_add_qos_flows_to_drb e cf)" "same_id e (nr_sdap_add_qos_flows_to_drb e cf)"
    using all [OF assms] by (simp_all add: a)
  have "qfi2drb_table (foldl f e xs) ! q =
      (if q \<in> qfi_u8 ` set xs then \<lparr>q_drb_id = cf_drb_id cf, q_role = cf_role cf mod 256\<rparr> else qfi2drb_table e ! q)"
    if ?P "q < 64" "sdap_ok e" for xs q e
    using that(3)
  proof (induction xs arbitrary: e)
    case (Cons x xs)
    have "length (qfi2drb_table e) = 64" using Cons.prems by (simp add: sdap_ok_def)
    then have "qfi2drb_table (f e x) ! q = (if q = qfi_u8 x then \<lparr>q_drb_id = cf_drb_id cf, q_role = cf_role cf mod 256\<rparr> else qfi2drb_table e ! q)"
      using that(1,2) by (auto simp: f_def nr_sdap_qfi2drb_map_add_def nth_list_update)
    then show ?case using Cons.IH [of "f e x"] step [OF Cons.prems] by auto
  qed simp
  then show "qfi2drb_table (nr_sdap_add_qos_flows_to_drb e cf) ! q =
        (if q \<in> qfi_u8 ` set (mappedQFIs2Add cf) then \<lparr>q_drb_id = cf_drb_id cf, q_role = cf_role cf mod 256\<rparr> else qfi2drb_table e ! q)"
    if "0 < cf_drb_id cf" "cf_drb_id cf \<le> MAX_DRBS_PER_UE" "q < 64" using that assms by (simp add: a)
qed

lemma rm_flows:
  assumes "sdap_ok e" and "nr_sdap_rm_qos_flows_from_drb e xs = Some e'"
  shows "sdap_ok e' \<and> same_id e e' \<and> (\<forall>q<64. qfi2drb_table e' ! q =
    (if q \<in> qfi_u8 ` set xs then \<lparr>q_drb_id = 0, q_role = 0\<rparr> else qfi2drb_table e ! q))"
  using assms
proof (induction xs arbitrary: e)
  case (Cons x xs)
  define d where "d = e\<lparr>qfi2drb_table := (qfi2drb_table e)[qfi_u8 x := \<lparr>q_drb_id = 0, q_role = NO_SDAP_HEADER\<rparr>]\<rparr>"
  have d: "qfi_u8 x < 64" "nr_sdap_rm_qos_flows_from_drb d xs = Some e'"
    using Cons.prems(2) by (auto simp: nr_sdap_qfi2drb_map_del_def d_def split: if_splits)
  have ok: "sdap_ok d" unfolding d_def by (rule sdap_ok_set [OF Cons.prems(1)]) simp_all
  have id: "same_id e d" by (simp add: same_id_def d_def)
  have "length (qfi2drb_table e) = 64" using Cons.prems(1) by (simp add: sdap_ok_def)
  then have t: "qfi2drb_table d ! q = (if q = qfi_u8 x then \<lparr>q_drb_id = 0, q_role = 0\<rparr> else qfi2drb_table e ! q)" if "q < 64" for q
    using that by (simp add: d_def nth_list_update)
  from Cons.IH [OF ok d(2)] show ?case using same_id_trans [OF id] t by auto
qed (simp add: same_id_def)

lemma rm_flows_total: "(\<forall>x \<in> set xs. qfi_u8 x < 64) \<Longrightarrow> \<exists>e'. nr_sdap_rm_qos_flows_from_drb e xs = Some e'"
  by (induction xs arbitrary: e) (auto simp: nr_sdap_qfi2drb_map_del_def)

lemma map_update_ok:
  assumes "sdap_ok e" and "nr_sdap_qfi2drb_map_update e cf = Some (e', out)"
  shows "sdap_ok e' \<and> same_id e e'"
proof -
  have "nr_sdap_rm_qos_flows_from_drb (nr_sdap_add_qos_flows_to_drb e cf) (mappedQFIs2Release cf) = Some e'"
    using assms(2) by (auto simp: nr_sdap_qfi2drb_map_update_def split: if_splits Option.bind_splits)
  then show ?thesis using rm_flows [OF add_flows(1) [OF assms(1)]] add_flows(2) [OF assms(1)] same_id_trans by blast
qed

lemma rx_entity_ok:
  assumes "sdap_ok e" and "0 \<le> d" "d \<le> MAX_DRBS_PER_UE" and "nr_sdap_rx_entity e d g p ue buf = Some (e', out)"
  shows "sdap_ok e' \<and> same_id e e'"
proof -
  have refl: "sdap_ok e'' \<and> same_id e e''" if "reflective_mapping e d ue q = Some (e'', o')" for q e'' o'
    using that assms(1-3) sdap_ok_set [of e "(qfi2drb_table e ! q)\<lparr>q_drb_id := d\<rparr>" q]
    by (auto simp: reflective_mapping_def same_id_def split: Option.bind_splits if_splits)
  have ue: "sdap_ok e'' \<and> same_id e e''" if "nr_sdap_rx_ue e b d ue buf = Some (e'', o')" for b e'' o'
    using that assms(1) refl by (auto simp: nr_sdap_rx_ue_def same_id_def split: if_splits Option.bind_splits)
  show ?thesis using assms(4) assms(1) ue by (auto simp: nr_sdap_rx_entity_def Let_def same_id_def split: if_splits)
qed

section \<open>The list of entities\<close>

definition sdap_keys :: "sdap_info \<Rightarrow> (u64 \<times> int) list" where
  "sdap_keys l = map (\<lambda>e. (sd_ue_id e, sd_pdusession_id e)) l"

definition sdap_info_ok :: "sdap_info \<Rightarrow> bool" where
  "sdap_info_ok l \<longleftrightarrow> distinct (sdap_keys l) \<and> (\<forall>e \<in> set l. sdap_ok e)"

lemma get_entity_Some:
  "nr_sdap_get_entity l ue p = Some e \<Longrightarrow> e \<in> set l \<and> sd_ue_id e = ue \<and> sd_pdusession_id e = p"
  by (auto simp: nr_sdap_get_entity_def is_entity_def find_Some_iff in_set_conv_nth)

lemma get_entity_None: "nr_sdap_get_entity l ue p = None \<longleftrightarrow> (ue, p) \<notin> set (sdap_keys l)"
  by (auto simp: nr_sdap_get_entity_def find_None_iff is_entity_def sdap_keys_def)

lemma put_entity_keys:
  "sd_ue_id e' = ue \<Longrightarrow> sd_pdusession_id e' = p \<Longrightarrow> sdap_keys (put_entity l ue p e') = sdap_keys l"
  by (induction l) (auto simp: sdap_keys_def is_entity_def)

lemma put_entity_set: "set (put_entity l ue p e') \<subseteq> insert e' (set l)"
  by (induction l) auto

lemma get_put_entity:
  "nr_sdap_get_entity l ue p = Some e \<Longrightarrow> sd_ue_id e' = ue \<Longrightarrow> sd_pdusession_id e' = p \<Longrightarrow>
     nr_sdap_get_entity (put_entity l ue p e') ue p = Some e'"
  by (induction l) (auto simp: nr_sdap_get_entity_def is_entity_def split: if_splits)

lemma get_put_other:
  "(ue', p') \<noteq> (ue, p) \<Longrightarrow> sd_ue_id e' = ue \<Longrightarrow> sd_pdusession_id e' = p \<Longrightarrow>
     nr_sdap_get_entity (put_entity l ue p e') ue' p' = nr_sdap_get_entity l ue' p'"
  by (induction l) (auto simp: nr_sdap_get_entity_def is_entity_def)

lemma put_entity_ok:
  assumes "sdap_info_ok l" and "nr_sdap_get_entity l ue p = Some e" and "same_id e e'" and "sdap_ok e'"
  shows "sdap_info_ok (put_entity l ue p e')"
proof -
  have "sd_ue_id e' = ue" "sd_pdusession_id e' = p" using get_entity_Some [OF assms(2)] assms(3) by (simp_all add: same_id_def)
  then show ?thesis using assms(1,4) put_entity_set [of l ue p e'] by (auto simp: sdap_info_ok_def put_entity_keys)
qed

lemma on_entity_ok:
  assumes "sdap_info_ok l" and "on_entity l ue p f = Some (l', out)"
    and "\<And>e e' o'. sdap_ok e \<Longrightarrow> f e = Some (e', o') \<Longrightarrow> sdap_ok e' \<and> same_id e e'"
  shows "sdap_info_ok l'"
proof (cases "nr_sdap_get_entity l ue p")
  case None
  then show ?thesis using assms(1,2) by (simp add: on_entity_def)
next
  case (Some e)
  then obtain e' where e': "f e = Some (e', out)" "l' = put_entity l ue p e'" using assms(2) by (auto simp: on_entity_def)
  have "sdap_ok e" using get_entity_Some [OF Some] assms(1) by (simp add: sdap_info_ok_def)
  then show ?thesis using put_entity_ok [OF assms(1) Some] assms(3) [OF _ e'(1)] e'(2) by simp
qed

section \<open>Deletion\<close>

lemma remove_ip_if_total: "sdap_ok e \<Longrightarrow> \<exists>out. remove_ip_if e = Some out"
  by (auto simp: remove_ip_if_def sdap_ok_def)

lemma delete_ue_total:
  assumes "\<forall>e \<in> set l. sdap_ok e"
  shows "\<exists>out. nr_sdap_delete_ue_entities l ue = Some (ue \<in> sd_ue_id ` set l, filter (\<lambda>e. sd_ue_id e \<noteq> ue) l, out)"
  using assms
proof (induction l)
  case (Cons e l)
  then obtain out where "nr_sdap_delete_ue_entities l ue = Some (ue \<in> sd_ue_id ` set l, filter (\<lambda>e. sd_ue_id e \<noteq> ue) l, out)" by auto
  then show ?case using remove_ip_if_total [of e] Cons.prems by auto
qed simp

lemma delete_entity_total:
  assumes "sdap_info_ok l" and "l \<noteq> []" and "length l \<le> bound"
  shows "\<exists>out. nr_sdap_delete_entity bound l ue p =
    Some ((ue, p) \<in> set (sdap_keys l), filter (\<lambda>e. \<not> is_entity ue p e) l, out)"
proof -
  let ?P = "\<lambda>e. \<not> is_entity ue p e" and ?n = "length (takeWhile (\<lambda>e. \<not> is_entity ue p e) l)"
  have key: "(ue, p) \<in> set (sdap_keys l) \<longleftrightarrow> (\<exists>e\<in>set l. is_entity ue p e)" by (auto simp: sdap_keys_def is_entity_def)
  show ?thesis
  proof (cases "\<exists>e\<in>set l. is_entity ue p e")
    case False
    then have t: "takeWhile ?P l = l" "filter ?P l = l" by (simp_all add: takeWhile_eq_all_conv filter_id_conv)
    then show ?thesis using assms(2) False unfolding key nr_sdap_delete_entity_def Let_def t by simp
  next
    case True
    have "takeWhile ?P l \<noteq> l" using True by (simp add: takeWhile_eq_all_conv)
    then have n: "?n < length l" by (metis takeWhile_eq_take take_all_iff not_less)
    have e: "is_entity ue p (l ! ?n)" using nth_length_takeWhile [OF n] by simp
    have "l = take ?n l @ l ! ?n # drop (?n + 1) l" using id_take_nth_drop [OF n] by simp
    then have l: "l = takeWhile ?P l @ l ! ?n # drop (?n + 1) l" by (metis takeWhile_eq_take)
    have rest: "\<forall>e\<in>set (drop (?n + 1) l). ?P e"
    proof
      fix x assume x: "x \<in> set (drop (?n + 1) l)"
      have "distinct (sdap_keys (takeWhile ?P l @ l ! ?n # drop (?n + 1) l))" using assms(1) l by (simp add: sdap_info_ok_def)
      then show "?P x" using x e by (auto simp: sdap_keys_def is_entity_def)
    qed
    have split: "filter ?P l = filter ?P (takeWhile ?P l) @ filter ?P (drop (?n + 1) l)"
      by (subst l) (use e in simp)
    have before: "filter ?P (takeWhile ?P l) = takeWhile ?P l"
      by (simp add: filter_id_conv) (auto dest: set_takeWhileD)
    have f: "filter ?P l = takeWhile ?P l @ drop (?n + 1) l" unfolding split before filter_True [OF rest] ..
    obtain out where "remove_ip_if (l ! ?n) = Some out"
      using remove_ip_if_total [of "l ! ?n"] assms(1) n by (auto simp: sdap_info_ok_def)
    then show ?thesis using assms(2,3) n True unfolding key f by (simp add: nr_sdap_delete_entity_def Let_def)
  qed
qed

lemma sdap_info_filter: "sdap_info_ok l \<Longrightarrow> sdap_info_ok (filter P l)"
  by (auto simp: sdap_info_ok_def sdap_keys_def distinct_map inj_on_def)

section \<open>Reachable states\<close>

text \<open>
  The lists of entities that the operations of the layer reach. PDCP delivers SDUs of bearers 1 to 32; the
  list is never longer than the bound of the deletion.
\<close>

inductive sdap_reachable :: "nat \<Rightarrow> sdap_info \<Rightarrow> bool" for bound :: nat where
  init: "sdap_reachable bound []"
| addmod: "sdap_reachable bound l \<Longrightarrow> nr_sdap_addmod_entity nos1 l g ue cf = Some (l', out) \<Longrightarrow> length l' \<le> bound \<Longrightarrow> sdap_reachable bound l'"
| update: "sdap_reachable bound l \<Longrightarrow> nr_sdap_entity_update_qos_flows l ue p d qfis = Some (l', out) \<Longrightarrow> sdap_reachable bound l'"
| reconfigure: "sdap_reachable bound l \<Longrightarrow> nr_reconfigure_sdap_entity l cfg ue p d = Some (l', out) \<Longrightarrow> sdap_reachable bound l'"
| release: "sdap_reachable bound l \<Longrightarrow> sdap_reachable bound (nr_sdap_release_drb l ue d p)"
| qfi: "sdap_reachable bound l \<Longrightarrow> set_qfi l q p ue = Some l' \<Longrightarrow> sdap_reachable bound l'"
| tun: "sdap_reachable bound l \<Longrightarrow> start_sdap_tun_ue l ue p sock name = Some l' \<Longrightarrow> sdap_reachable bound l'"
| ind: "sdap_reachable bound l \<Longrightarrow> 1 \<le> d \<Longrightarrow> d \<le> MAX_DRBS_PER_UE \<Longrightarrow> sdap_data_ind l d g p ue b = Some (l', out) \<Longrightarrow> sdap_reachable bound l'"
| delete: "sdap_reachable bound l \<Longrightarrow> nr_sdap_delete_entity bound l ue p = Some (r, l', out) \<Longrightarrow> sdap_reachable bound l'"
| delete_ue: "sdap_reachable bound l \<Longrightarrow> nr_sdap_delete_ue_entities l ue = Some (r, l', out) \<Longrightarrow> sdap_reachable bound l'"

lemma sdap_keys_length: "length (sdap_keys l) = length l"
  by (simp add: sdap_keys_def)

lemma on_entity_length: "on_entity l ue p f = Some (l', out) \<Longrightarrow> length l' = length l"
proof -
  have "length (put_entity l ue p e) = length l" for e by (induction l) auto
  then show "on_entity l ue p f = Some (l', out) \<Longrightarrow> length l' = length l"
    by (auto simp: on_entity_def split: option.splits)
qed

lemma add_entity_ok:
  assumes "sdap_info_ok l" and "nr_sdap_get_entity l ue (cf_pdusession_id cf) = None" and "nr_sdap_add_entity nos1 l g ue cf = Some l'"
  shows "sdap_info_ok l'"
proof -
  define e where "e = zero_sdap_entity\<lparr>sd_ue_id := ue, sd_pdusession_id := cf_pdusession_id cf, sd_is_gnb := g,
                enable_sdap := (cf_role cf \<noteq> NO_SDAP_HEADER), default_drb := (if cf_defaultDRB cf then cf_drb_id cf else 0)\<rparr>"
  have "sdap_ok e" by (simp add: e_def zero_sdap_entity_def sdap_ok_def)
  then have a: "sdap_ok (nr_sdap_add_qos_flows_to_drb e cf)" "same_id e (nr_sdap_add_qos_flows_to_drb e cf)" using add_flows by auto
  obtain e' where e': "l' = e' # l" "sdap_ok e'" "same_id e e'"
  proof (cases nos1)
    case None
    then show thesis using assms(3) a that by (auto simp: nr_sdap_add_entity_def Let_def e_def split: if_splits)
  next
    case (Some x)
    then show thesis using assms(3) a that by (cases x) (auto simp: nr_sdap_add_entity_def Let_def e_def sdap_ok_def same_id_def split: if_splits)
  qed
  have "sd_ue_id e' = ue" "sd_pdusession_id e' = cf_pdusession_id cf" using e'(3) by (simp_all add: same_id_def e_def)
  then show ?thesis using e'(1,2) assms(1) assms(2) [unfolded get_entity_None] by (simp add: sdap_info_ok_def sdap_keys_def)
qed

lemma addmod_ok:
  assumes "sdap_info_ok l" and "nr_sdap_addmod_entity nos1 l g ue cf = Some (l', out)"
  shows "sdap_info_ok l'"
proof (cases "nr_sdap_get_entity l ue (cf_pdusession_id cf)")
  case None
  then show ?thesis using add_entity_ok [OF assms(1) None] assms(2) by (auto simp: nr_sdap_addmod_entity_def)
next
  case (Some e)
  then have "on_entity l ue (cf_pdusession_id cf) (\<lambda>e. nr_sdap_qfi2drb_map_update e cf) = Some (l', out)"
    using assms(2) by (simp add: nr_sdap_addmod_entity_def)
  then show ?thesis by (rule on_entity_ok [OF assms(1)]) (rule map_update_ok)
qed

lemma release_drb_ok: "sdap_info_ok l \<Longrightarrow> sdap_info_ok (nr_sdap_release_drb l ue d p)"
proof (cases "nr_sdap_get_entity l ue p")
  case (Some e)
  let ?e = "e\<lparr>qfi2drb_table := map (\<lambda>q. if q_drb_id q = d then q\<lparr>q_drb_id := 0\<rparr> else q) (qfi2drb_table e)\<rparr>"
  assume l: "sdap_info_ok l"
  then have "sdap_ok e" using get_entity_Some [OF Some] by (simp add: sdap_info_ok_def)
  then have "sdap_ok ?e" by (auto simp: sdap_ok_def)
  then show ?thesis using put_entity_ok [OF l Some, of ?e] Some by (simp add: nr_sdap_release_drb_def same_id_def)
qed (simp add: nr_sdap_release_drb_def)

lemma set_fields_ok:
  assumes "sdap_info_ok l"
  shows "set_qfi l q p ue = Some l' \<Longrightarrow> sdap_info_ok l'" and "start_sdap_tun_ue l ue p sock name = Some l' \<Longrightarrow> sdap_info_ok l'"
proof -
  have ok: "sdap_ok e" if "nr_sdap_get_entity l ue p = Some e" for e
    using get_entity_Some [OF that] assms by (simp add: sdap_info_ok_def)
  show "sdap_info_ok l'" if "set_qfi l q p ue = Some l'"
    using that ok put_entity_ok [OF assms] by (auto simp: set_qfi_def same_id_def sdap_ok_def split: option.splits)
  show "sdap_info_ok l'" if "start_sdap_tun_ue l ue p sock name = Some l'"
    using that ok put_entity_ok [OF assms] by (auto simp: start_sdap_tun_ue_def same_id_def sdap_ok_def split: option.splits if_splits)
qed

lemma put_entity_length: "length (put_entity l ue p e) = length l"
  by (induction l) auto

lemma sdap_reachable_ok:
  assumes "sdap_reachable bound l"
  shows "sdap_info_ok l \<and> length l \<le> bound"
  using assms
proof induction
  case init
  then show ?case by (simp add: sdap_info_ok_def sdap_keys_def)
next
  case addmod
  then show ?case using addmod_ok by blast
next
  case (update l ue p d qfis l' out)
  have "sdap_info_ok l'"
    by (rule on_entity_ok [OF conjunct1 [OF update.IH] update.hyps(2) [unfolded nr_sdap_entity_update_qos_flows_def]])
       (auto split: if_splits dest: map_update_ok)
  then show ?case using on_entity_length [OF update.hyps(2) [unfolded nr_sdap_entity_update_qos_flows_def]] update.IH by simp
next
  case (reconfigure l cfg ue p d l' out)
  have "sdap_info_ok l'"
    by (rule on_entity_ok [OF conjunct1 [OF reconfigure.IH] reconfigure.hyps(2) [unfolded nr_reconfigure_sdap_entity_def]])
       (auto split: Option.bind_splits dest: map_update_ok)
  then show ?case using on_entity_length [OF reconfigure.hyps(2) [unfolded nr_reconfigure_sdap_entity_def]] reconfigure.IH by simp
next
  case (release l ue d p)
  then show ?case using release_drb_ok [of l ue d p] by (simp add: nr_sdap_release_drb_def put_entity_length split: option.splits)
next
  case (qfi l q p ue l')
  then show ?case using set_fields_ok(1) [of l q p ue l'] by (auto simp: set_qfi_def put_entity_length split: option.splits)
next
  case (tun l ue p sock name l')
  then show ?case using set_fields_ok(2) [of l ue p sock name l'] by (auto simp: start_sdap_tun_ue_def put_entity_length split: option.splits if_splits)
next
  case (ind l d g p ue b l' out)
  have "sdap_info_ok l'"
    by (rule on_entity_ok [OF conjunct1 [OF ind.IH] ind.hyps(4) [unfolded sdap_data_ind_def]], rule rx_entity_ok) (use ind.hyps(2,3) in simp_all)
  then show ?case using on_entity_length [OF ind.hyps(4) [unfolded sdap_data_ind_def]] ind.IH by simp
next
  case (delete l ue p r l' out)
  show ?case
  proof (cases "l = []")
    case True
    then show ?thesis using delete by (auto simp: nr_sdap_delete_entity_def split: if_splits)
  next
    case False
    then have "l' = filter (\<lambda>e. \<not> is_entity ue p e) l"
      using delete_entity_total [of l bound ue p] delete by auto
    then show ?thesis using sdap_info_filter delete.IH length_filter_le le_trans by blast
  qed
next
  case (delete_ue l ue r l' out)
  then have "l' = filter (\<lambda>e. sd_ue_id e \<noteq> ue) l" using delete_ue_total [of l ue] by (auto simp: sdap_info_ok_def)
  then show ?case using sdap_info_filter delete_ue.IH length_filter_le le_trans by blast
qed

end
