(* ===== verification/Sdap_Transfer.thy ===== *)
theory Sdap_Transfer
  imports Sdap_Entity
begin

text \<open>
  Packets through two SDAP entities: what the peer of an entity reads from the header, and the order of
  packets on a bearer that keeps the order of its SDUs (the locale \<open>ordered_bearer\<close>, which PDCP over RLC
  provides).
\<close>

section \<open>One packet\<close>

definition dl_flow :: "nr_sdap_entity \<Rightarrow> nr_sdap_entity \<Rightarrow> int \<Rightarrow> nat \<Rightarrow> bool" where
  "dl_flow gnb ue drb qfi \<longleftrightarrow> qfi < 64 \<and> drb \<noteq> 0 \<and> q_drb_id (qfi2drb_table gnb ! qfi) = drb \<and> has_role (qfi2drb_table gnb ! qfi) SDAP_DL_TX \<and>
     enable_sdap ue \<and> q_drb_id (qfi2drb_table ue ! qfi) \<noteq> 0 \<and> has_role (qfi2drb_table ue ! qfi) SDAP_DL_RX"

definition ul_flow :: "nr_sdap_entity \<Rightarrow> nr_sdap_entity \<Rightarrow> int \<Rightarrow> nat \<Rightarrow> bool" where
  "ul_flow ue gnb drb qfi \<longleftrightarrow> qfi < 64 \<and> drb \<noteq> 0 \<and> q_drb_id (qfi2drb_table ue ! qfi) = drb \<and> has_role (qfi2drb_table ue ! qfi) SDAP_UL_TX \<and>
     \<not> has_role (qfi2drb_table ue ! qfi) SDAP_DL_TX \<and>
     enable_sdap gnb \<and> q_drb_id (qfi2drb_table gnb ! qfi) \<noteq> 0 \<and> has_role (qfi2drb_table gnb ! qfi) SDAP_UL_RX"

definition packet_ok :: "u8 list \<Rightarrow> bool" where
  "packet_ok sdu \<longleftrightarrow> 1 \<le> length sdu \<and> length sdu \<le> 8999"

lemma dl_packet:
  assumes "dl_flow gnb ue drb qfi" and "packet_ok sdu"
  shows "nr_sdap_tx_entity pdcp gnb i (Some sdu) qfi rqi =
      Some (pdcp i drb (sdap_hdr qfi rqi False # sdu), [To_pdcp i drb (sdap_hdr qfi rqi False # sdu)])"
    and "nr_sdap_rx_entity ue d False p i (sdap_hdr qfi rqi False # sdu) = Some (ue, [To_socket (pdusession_sock ue) sdu])"
  using assms
  by (auto simp: dl_flow_def packet_ok_def nr_sdap_tx_entity_def nr_sdap_qfi2drb_def Let_def nr_sdap_rx_entity_def nr_sdap_rx_ue_def)

lemma ul_packet:
  assumes "ul_flow ue gnb drb qfi" and "packet_ok sdu"
  shows "nr_sdap_tx_entity pdcp ue i (Some sdu) qfi rqi =
      Some (pdcp i drb (sdap_hdr qfi False rqi # sdu), [To_pdcp i drb (sdap_hdr qfi False rqi # sdu)])"
    and "nr_sdap_rx_entity gnb d True p i (sdap_hdr qfi False rqi # sdu) = Some (gnb, [To_gtp i p (Some (int qfi)) sdu])"
  using assms
  by (auto simp: ul_flow_def packet_ok_def nr_sdap_tx_entity_def nr_sdap_qfi2drb_def Let_def nr_sdap_rx_entity_def nr_sdap_rx_gnb_def)

section \<open>Sequences of packets\<close>

fun sdap_send :: "(u64 \<Rightarrow> int \<Rightarrow> u8 list \<Rightarrow> bool) \<Rightarrow> nr_sdap_entity \<Rightarrow> u64 \<Rightarrow> (nat \<times> bool \<times> u8 list) list \<Rightarrow> sdap_output list option" where
  "sdap_send pdcp e i [] = Some []"
| "sdap_send pdcp e i ((qfi, rqi, sdu) # l) =
     Option.bind (nr_sdap_tx_entity pdcp e i (Some sdu) qfi rqi) (\<lambda>(_, out). map_option (\<lambda>outs. out @ outs) (sdap_send pdcp e i l))"

fun sdap_receive :: "nr_sdap_entity \<Rightarrow> int \<Rightarrow> bool \<Rightarrow> int \<Rightarrow> u64 \<Rightarrow> u8 list list \<Rightarrow> (nr_sdap_entity \<times> sdap_output list) option" where
  "sdap_receive e d g p i [] = Some (e, [])"
| "sdap_receive e d g p i (b # bs) =
     Option.bind (nr_sdap_rx_entity e d g p i b) (\<lambda>(e, out). map_option (\<lambda>(e, outs). (e, out @ outs)) (sdap_receive e d g p i bs))"

text \<open>The SDUs that a bearer was given.\<close>

definition on_bearer :: "int \<Rightarrow> sdap_output list \<Rightarrow> u8 list list" where
  "on_bearer drb outs = List.map_filter (\<lambda>x. case x of To_pdcp _ d b \<Rightarrow> if d = drb then Some b else None | _ \<Rightarrow> None) outs"

lemma on_bearer_simps [simp]:
  "on_bearer drb [] = []" "on_bearer drb (To_pdcp i drb b # outs) = b # on_bearer drb outs"
  by (simp_all add: on_bearer_def List.map_filter_simps)

definition dl_pdu :: "nat \<times> bool \<times> u8 list \<Rightarrow> u8 list" where
  "dl_pdu x = (case x of (qfi, rqi, sdu) \<Rightarrow> sdap_hdr qfi rqi False # sdu)"

definition ul_pdu :: "nat \<times> bool \<times> u8 list \<Rightarrow> u8 list" where
  "ul_pdu x = (case x of (qfi, rqi, sdu) \<Rightarrow> sdap_hdr qfi False rqi # sdu)"

lemma dl_send:
  assumes "\<forall>(qfi, rqi, sdu) \<in> set l. dl_flow gnb ue drb qfi \<and> packet_ok sdu"
  shows "\<exists>outs. sdap_send pdcp gnb i l = Some outs \<and> on_bearer drb outs = map dl_pdu l"
  using assms
proof (induction l)
  case (Cons x l)
  obtain qfi rqi sdu where x: "x = (qfi, rqi, sdu)" by (metis prod.exhaust)
  then show ?case using Cons dl_packet(1) [of gnb ue drb qfi sdu pdcp i rqi] by (auto simp: dl_pdu_def)
qed simp

lemma ul_send:
  assumes "\<forall>(qfi, rqi, sdu) \<in> set l. ul_flow ue gnb drb qfi \<and> packet_ok sdu"
  shows "\<exists>outs. sdap_send pdcp ue i l = Some outs \<and> on_bearer drb outs = map ul_pdu l"
  using assms
proof (induction l)
  case (Cons x l)
  obtain qfi rqi sdu where x: "x = (qfi, rqi, sdu)" by (metis prod.exhaust)
  then show ?case using Cons ul_packet(1) [of ue gnb drb qfi sdu pdcp i rqi] by (auto simp: ul_pdu_def)
qed simp

lemma dl_receive:
  assumes "\<forall>(qfi, rqi, sdu) \<in> set l. dl_flow gnb ue drb qfi \<and> packet_ok sdu"
  shows "sdap_receive ue d False p i (map dl_pdu l) = Some (ue, map (\<lambda>(qfi, rqi, sdu). To_socket (pdusession_sock ue) sdu) l)"
  using assms
proof (induction l)
  case (Cons x l)
  obtain qfi rqi sdu where x: "x = (qfi, rqi, sdu)" by (metis prod.exhaust)
  then show ?case using Cons dl_packet(2) [of gnb ue drb qfi sdu d p i rqi] by (auto simp: dl_pdu_def)
qed simp

lemma ul_receive:
  assumes "\<forall>(qfi, rqi, sdu) \<in> set l. ul_flow ue gnb drb qfi \<and> packet_ok sdu"
  shows "sdap_receive gnb d True p i (map ul_pdu l) = Some (gnb, map (\<lambda>(qfi, rqi, sdu). To_gtp i p (Some (int qfi)) sdu) l)"
  using assms
proof (induction l)
  case (Cons x l)
  obtain qfi rqi sdu where x: "x = (qfi, rqi, sdu)" by (metis prod.exhaust)
  then show ?case using Cons ul_packet(2) [of ue gnb drb qfi sdu d p i rqi] by (auto simp: ul_pdu_def)
qed simp

section \<open>A bearer that keeps the order\<close>

text \<open>What SDAP needs of the layers below: the SDUs that arrive are a prefix of those sent.\<close>

locale ordered_bearer =
  fixes carries :: "u8 list list \<Rightarrow> u8 list list \<Rightarrow> bool"
  assumes carries_prefix: "carries sent got \<Longrightarrow> \<exists>k. got = take k sent"
begin

lemma downlink_in_order:
  assumes "\<forall>(qfi, rqi, sdu) \<in> set l. dl_flow gnb ue drb qfi \<and> packet_ok sdu"
    and "sdap_send pdcp gnb i l = Some outs" and "carries (on_bearer drb outs) got"
  shows "sdap_receive ue d False p i got =
    Some (ue, map (\<lambda>(qfi, rqi, sdu). To_socket (pdusession_sock ue) sdu) (take (length got) l))"
proof -
  have o: "on_bearer drb outs = map dl_pdu l" using dl_send [OF assms(1), of pdcp i] assms(2) by auto
  obtain k where "got = take k (map dl_pdu l)" using carries_prefix [OF assms(3)] o by auto
  then have got: "got = map dl_pdu (take (length got) l)" by (simp add: take_map min_def)
  have "\<forall>(qfi, rqi, sdu) \<in> set (take (length got) l). dl_flow gnb ue drb qfi \<and> packet_ok sdu"
    using assms(1) by (meson in_set_takeD)
  then show ?thesis by (subst got) (rule dl_receive)
qed

lemma uplink_in_order:
  assumes "\<forall>(qfi, rqi, sdu) \<in> set l. ul_flow ue gnb drb qfi \<and> packet_ok sdu"
    and "sdap_send pdcp ue i l = Some outs" and "carries (on_bearer drb outs) got"
  shows "sdap_receive gnb d True p i got =
    Some (gnb, map (\<lambda>(qfi, rqi, sdu). To_gtp i p (Some (int qfi)) sdu) (take (length got) l))"
proof -
  have o: "on_bearer drb outs = map ul_pdu l" using ul_send [OF assms(1), of pdcp i] assms(2) by auto
  obtain k where "got = take k (map ul_pdu l)" using carries_prefix [OF assms(3)] o by auto
  then have got: "got = map ul_pdu (take (length got) l)" by (simp add: take_map min_def)
  have "\<forall>(qfi, rqi, sdu) \<in> set (take (length got) l). ul_flow ue gnb drb qfi \<and> packet_ok sdu"
    using assms(1) by (meson in_set_takeD)
  then show ?thesis by (subst got) (rule ul_receive)
qed

end

end
