(* ===== verification/Sdap_Properties.thy ===== *)
theory Sdap_Properties
  imports Sdap_Transfer
begin

text \<open>
  Properties of the SDAP layer.
\<close>

section \<open>Concrete entities\<close>

text \<open>A gNB and a UE with a bearer of one QoS flow with headers in both directions.\<close>

definition demo_sdap_config :: NR_SDAP_Config where
  "demo_sdap_config = \<lparr>pdu_Session = 10, sdap_HeaderDL_present = True, sdap_HeaderUL_present = True, defaultDRB = True,
     mappedQoS_FlowsToAdd = Some [5], mappedQoS_FlowsToRelease = None\<rparr>"

definition demo_sdap :: "bool \<Rightarrow> sdap_info option" where
  "demo_sdap is_gnb = Option.bind (nr_sdap_get_config is_gnb demo_sdap_config 1) (\<lambda>cf.
     map_option fst (nr_sdap_addmod_entity None [] is_gnb 7 cf))"

lemma demo_sdap_reachable: "demo_sdap is_gnb = Some l \<Longrightarrow> length l \<le> 10 \<Longrightarrow> sdap_reachable 10 l"
  by (auto simp: demo_sdap_def split: Option.bind_splits intro: sdap_reachable.addmod [OF sdap_reachable.init])

section \<open>Entities\<close>

text \<open>
  C23: In every reachable state there is at most one entity per UE and PDU session, every table has a rule
  for each of the 64 flows with a bearer from 0 (none) to 32, and an open socket has an interface name;
  therefore deletion of all entities of a UE, and of one entity of a list that is not empty, returns
  and removes exactly the entities it names.
\<close>

theorem sdap_entities_consistent:
  assumes "sdap_reachable bound l"
  shows "distinct (sdap_keys l) \<and> (\<forall>e \<in> set l. sdap_ok e) \<and>
    (\<exists>out. nr_sdap_delete_ue_entities l ue = Some (ue \<in> sd_ue_id ` set l, filter (\<lambda>e. sd_ue_id e \<noteq> ue) l, out)) \<and>
    (l \<noteq> [] \<longrightarrow> (\<exists>out. nr_sdap_delete_entity bound l ue p =
       Some ((ue, p) \<in> set (sdap_keys l), filter (\<lambda>e. \<not> is_entity ue p e) l, out)))"
proof -
  have "sdap_info_ok l" "length l \<le> bound" using sdap_reachable_ok [OF assms] by auto
  then show ?thesis
    using delete_ue_total [of l ue] delete_entity_total [of l bound ue p] by (auto simp: sdap_info_ok_def)
qed

theorem sdap_entities_consistent_witness:
  "\<exists>l out. demo_sdap True = Some l \<and> sdap_keys l = [(7, 10)] \<and> nr_sdap_delete_entity 10 l 7 10 = Some (True, [], out)"
proof -
  have "map_option sdap_keys (demo_sdap True) = Some [(7, 10)]" by code_simp
  then obtain l where l: "demo_sdap True = Some l" "sdap_keys l = [(7, 10)]" by auto
  then have len: "length l = 1" using sdap_keys_length [of l] by simp
  then have "sdap_reachable 10 l" using demo_sdap_reachable l(1) by auto
  note c = sdap_entities_consistent [OF this, of 7 10]
  obtain e where e: "l = [e]" using len by (auto simp: length_Suc_conv)
  have "filter (\<lambda>e. \<not> is_entity 7 10 e) l = []" using l(2) e by (simp add: sdap_keys_def is_entity_def)
  then show ?thesis using c l e by auto
qed

text \<open>
  C22: The update of a bearer's flows from E1 replaces its rules exactly: afterwards a flow is mapped to the
  bearer if and only if it is in the list, and the rules of the flows of other bearers
  are unchanged. The entity of no other session changes.
\<close>

theorem sdap_update_replaces_rules:
  assumes "sdap_reachable bound l" and "nr_sdap_get_entity l ue p = Some e"
    and "nr_sdap_entity_update_qos_flows l ue p drb qfis = Some (l', out)" and "1 \<le> drb" and "drb \<le> MAX_DRBS_PER_UE"
    and "\<forall>q \<in> set qfis. q < 64"
  shows "\<exists>e'. nr_sdap_get_entity l' ue p = Some e' \<and>
    (\<forall>q<64. (q_drb_id (qfi2drb_table e' ! q) = drb \<longleftrightarrow> q \<in> set qfis) \<and>
       (q \<notin> set qfis \<and> q_drb_id (qfi2drb_table e ! q) \<noteq> drb \<longrightarrow> qfi2drb_table e' ! q = qfi2drb_table e ! q)) \<and>
    (\<forall>ue' p'. (ue', p') \<noteq> (ue, p) \<longrightarrow> nr_sdap_get_entity l' ue' p' = nr_sdap_get_entity l ue' p')"
proof -
  have lok: "sdap_info_ok l" using sdap_reachable_ok [OF assms(1)] by blast
  have e: "sdap_ok e" "sd_ue_id e = ue" "sd_pdusession_id e = p" using get_entity_Some [OF assms(2)] lok by (auto simp: sdap_info_ok_def)
  let ?cf = "update_config e p drb qfis"
  obtain e' where u: "nr_sdap_qfi2drb_map_update e ?cf = Some (e', out)" "l' = put_entity l ue p e'"
    using assms(2,3) by (auto simp: nr_sdap_entity_update_qos_flows_def on_entity_def split: if_splits)
  have id: "sd_ue_id e' = ue" "sd_pdusession_id e' = p" using map_update_ok [OF e(1) u(1)] e by (simp_all add: same_id_def)
  define d where "d = nr_sdap_add_qos_flows_to_drb e ?cf"
  have rm: "nr_sdap_rm_qos_flows_from_drb d (mappedQFIs2Release ?cf) = Some e'"
    using u(1) by (auto simp: nr_sdap_qfi2drb_map_update_def d_def split: if_splits Option.bind_splits)
  have small: "qfi_u8 (int q) = q" if "q < 64" for q using that by (simp add: qfi_u8_def)
  have add: "qfi_u8 ` set (mappedQFIs2Add ?cf) = set qfis"
    using assms(6) small by (force simp: update_config_def)
  have rel: "qfi_u8 ` set (mappedQFIs2Release ?cf) = {q. q < 64 \<and> q_drb_id (qfi2drb_table e ! q) = drb \<and> q \<notin> set qfis}"
    using small by (force simp: update_config_def)
  have cf: "cf_drb_id ?cf = drb" by (simp add: update_config_def)
  note a = add_flows [OF e(1), of ?cf, folded d_def, unfolded cf add]
  have "qfi2drb_table e' ! q = (if q \<in> set qfis then \<lparr>q_drb_id = drb, q_role = cf_role ?cf mod 256\<rparr>
      else if q_drb_id (qfi2drb_table e ! q) = drb then \<lparr>q_drb_id = 0, q_role = 0\<rparr> else qfi2drb_table e ! q)" if "q < 64" for q
    using rm_flows [OF a(1) rm] a(3) [of q] that assms(4,5) unfolding rel by auto
  then have "\<forall>q<64. (q_drb_id (qfi2drb_table e' ! q) = drb \<longleftrightarrow> q \<in> set qfis) \<and>
       (q \<notin> set qfis \<and> q_drb_id (qfi2drb_table e ! q) \<noteq> drb \<longrightarrow> qfi2drb_table e' ! q = qfi2drb_table e ! q)"
    using assms(4) by auto
  then show ?thesis using get_put_entity [OF assms(2) id] get_put_other [OF _ id] u(2) by blast
qed

theorem sdap_update_replaces_rules_witness:
  "\<exists>l l' e' out. demo_sdap True = Some l \<and> nr_sdap_entity_update_qos_flows l 7 10 1 [2, 3] = Some (l', out) \<and>
    nr_sdap_get_entity l' 7 10 = Some e' \<and> q_drb_id (qfi2drb_table e' ! 2) = 1 \<and> q_drb_id (qfi2drb_table e' ! 5) \<noteq> 1"
proof -
  have "map_option (\<lambda>l. (sdap_keys l, Option.is_none (nr_sdap_get_entity l 7 10),
      Option.is_none (nr_sdap_entity_update_qos_flows l 7 10 1 [2, 3]))) (demo_sdap True) = Some ([(7, 10)], False, False)" by code_simp
  then obtain l e l' out where l: "demo_sdap True = Some l" "sdap_keys l = [(7, 10)]" "nr_sdap_get_entity l 7 10 = Some e"
    "nr_sdap_entity_update_qos_flows l 7 10 1 [2, 3] = Some (l', out)"
    by (auto simp: Option.is_none_def)
  then have "sdap_reachable 10 l" using demo_sdap_reachable [OF l(1)] sdap_keys_length [of l] by simp
  from sdap_update_replaces_rules [OF this l(3,4)] obtain e' where "nr_sdap_get_entity l' 7 10 = Some e'"
    "q_drb_id (qfi2drb_table e' ! 2) = 1" "q_drb_id (qfi2drb_table e' ! 5) \<noteq> 1" by auto
  then show ?thesis using l by blast
qed

section \<open>Errors\<close>

text \<open>
  A gNB entity configured with headers in the downlink only stops the program with an assertion for
  every uplink packet whose first byte, which is no header, happens to name a mapped flow in its low six
  bits.
\<close>

theorem sdap_uplink_without_header_aborts:
  assumes "enable_sdap e" and "buf \<noteq> []" and "q_drb_id (qfi2drb_table e ! hdr_QFI (hd buf)) \<noteq> 0"
    and "q_role (qfi2drb_table e ! hdr_QFI (hd buf)) = get_sdap_role True cfg" and "\<not> sdap_HeaderUL_present cfg"
  shows "nr_sdap_rx_entity e d True p ue buf = None"
proof -
  have "\<not> has_role (qfi2drb_table e ! hdr_QFI (hd buf)) SDAP_UL_RX"
    using assms(4,5) by (simp add: has_role_def get_sdap_role_def)
  then show ?thesis using assms(1-3) by (simp add: nr_sdap_rx_entity_def nr_sdap_rx_gnb_def Let_def)
qed

theorem sdap_uplink_without_header_aborts_witness:
  "\<exists>l. Option.bind (nr_sdap_get_config True (demo_sdap_config\<lparr>sdap_HeaderUL_present := False\<rparr>) 1)
      (\<lambda>cf. map_option fst (nr_sdap_addmod_entity None [] True 7 cf)) = Some l \<and> sdap_data_ind l 1 True 10 7 [0x45, 0] = None"
proof -
  let ?cfg = "demo_sdap_config\<lparr>sdap_HeaderUL_present := False\<rparr>"
  let ?l = "Option.bind (nr_sdap_get_config True ?cfg 1) (\<lambda>cf. map_option fst (nr_sdap_addmod_entity None [] True 7 cf))"
  have "map_option (\<lambda>l. map_option (\<lambda>e. (enable_sdap e, q_drb_id (qfi2drb_table e ! 5), q_role (qfi2drb_table e ! 5)))
      (nr_sdap_get_entity l 7 10)) ?l = Some (Some (True, 1, 4))" by code_simp
  then obtain l e where l: "?l = Some l" "nr_sdap_get_entity l 7 10 = Some e" "enable_sdap e"
    "q_drb_id (qfi2drb_table e ! 5) = 1" "q_role (qfi2drb_table e ! 5) = 4" by auto
  have h: "hdr_QFI (hd [0x45, 0 :: u8]) = 5" by code_simp
  have r: "get_sdap_role True ?cfg = 4" by code_simp
  have "nr_sdap_rx_entity e 1 True 10 7 [0x45, 0] = None"
    by (rule sdap_uplink_without_header_aborts [of e _ ?cfg]) (use l h r in \<open>simp_all add: demo_sdap_config_def\<close>)
  then show ?thesis using l(1,2) by (auto simp: sdap_data_ind_def on_entity_def)
qed

text \<open>
  A packet of a flow without a rule goes to the default bearer without a header, also when the bearer is
  configured with headers: the role is read from the flow's own empty rule.
\<close>

theorem sdap_default_bearer_without_header:
  assumes "qfi < 64" and "qfi2drb_table e ! qfi = \<lparr>q_drb_id = 0, q_role = 0\<rparr>" and "default_drb e \<noteq> 0"
  shows "nr_sdap_tx_entity pdcp e ue (Some sdu) qfi rqi = Some (pdcp ue (default_drb e) sdu, [To_pdcp ue (default_drb e) sdu])"
  using assms by (simp add: nr_sdap_tx_entity_def nr_sdap_qfi2drb_def has_role_def Let_def)

theorem sdap_default_bearer_without_header_witness:
  "\<exists>l out. demo_sdap False = Some l \<and> sdap_data_req (\<lambda>_ _ _. True) l 7 7 (Some [0x45, 0]) 9 True 10 = Some (True, [To_pdcp 7 1 [0x45, 0]])"
proof -
  have "map_option (\<lambda>l. map_option (\<lambda>e. (qfi2drb_table e ! 9, default_drb e)) (nr_sdap_get_entity l 7 10)) (demo_sdap False) =
      Some (Some (\<lparr>q_drb_id = 0, q_role = 0\<rparr>, 1))" by code_simp
  then obtain l e where l: "demo_sdap False = Some l" "nr_sdap_get_entity l 7 10 = Some e"
    "qfi2drb_table e ! 9 = \<lparr>q_drb_id = 0, q_role = 0\<rparr>" "default_drb e = 1" by auto
  then show ?thesis using sdap_default_bearer_without_header [of 9 e "\<lambda>_ _ _. True" 7 "[0x45, 0]" True] by (auto simp: sdap_data_req_def)
qed

end
