(* ===== verification/Pdcp_Over_Rlc.thy ===== *)
theory Pdcp_Over_Rlc
  imports Pdcp_Transfer Rlc_Um_Transfer Rlc_Tm
begin

text \<open>
  PDCP on top of RLC. The sending PDCP entity hands its PDUs to the transmitting RLC entity
  (\<^verbatim>\<open>deliver_pdu\<close> leads to \<^verbatim>\<open>recv_sdu\<close>), and what the receiving RLC entity delivers is received by
  the PDCP peer (\<^verbatim>\<open>deliver_sdu\<close> leads to \<^verbatim>\<open>recv_pdu\<close>). The lemmas hold for every kind of RLC
  entity that satisfies the contract of a link.
\<close>

context rlc_link
begin

lemma pdcp_prefix:
  assumes link: "linked tx rx" "delivered rx = []" "pending tx = []" "\<And>ev. ev \<in> set evs \<Longrightarrow> event_ok ev"
      "link_run ops (tx, rx) evs = Some ((tx', rx'), pdus)"
    and pdcp: "crypto_ok env" "pdcp_synced p q" "pdcp_send env p sdus m = Some (p', pdus)"
      "\<forall>sdu \<in> set sdus. length sdu > (if has_sdap_tx p then 1 else 0)"
  shows "linked tx' rx'" and "length pdus = length sdus" and "delivered rx' @ pending tx' = pdus"
    and "\<exists>q'. pdcp_receive env q (delivered rx') = Some q' \<and>
      delivered_bytes q' = delivered_bytes q @ take (length (delivered rx')) sdus"
proof -
  have r: "linked tx' rx'" "delivered rx' @ pending tx' = pdus"
    using run_safe [OF link(1,4)] link(2,3,5) by fastforce+
  then have pre: "delivered rx' = take (length (delivered rx')) pdus" by (metis append_eq_conv_conj)
  note s = synced_send [OF pdcp]
  show "linked tx' rx'" "delivered rx' @ pending tx' = pdus" by (fact r)+
  show "length pdus = length sdus" using s by blast
  show "\<exists>q'. pdcp_receive env q (delivered rx') = Some q' \<and> delivered_bytes q' = delivered_bytes q @ take (length (delivered rx')) sdus"
    using s pre by metis
qed

lemma pdcp_complete:
  assumes link: "linked tx rx" "delivered rx = []" "pending tx = []" "\<And>ev. ev \<in> set evs \<Longrightarrow> event_ok ev"
      "link_run ops (tx, rx) evs = Some ((tx', rx'), pdus)"
    and pdcp: "crypto_ok env" "pdcp_synced p q" "pdcp_send env p sdus m = Some (p', pdus)"
      "\<forall>sdu \<in> set sdus. length sdu > (if has_sdap_tx p then 1 else 0)"
    and grants: "\<And>b. b \<in> set bs \<Longrightarrow> grant_ok (length b) \<and> grant_useful (length b)" "backlog tx' \<le> length bs"
  shows "\<exists>tx2 rx2 q'. link_run ops (tx', rx') (map Tx_grant bs) = Some ((tx2, rx2), []) \<and>
    pdcp_receive env q (delivered rx2) = Some q' \<and> delivered_bytes q' = delivered_bytes q @ sdus"
proof -
  note p = pdcp_prefix [OF link pdcp]
  obtain tx2 rx2 where d: "link_run ops (tx', rx') (map Tx_grant bs) = Some ((tx2, rx2), [])"
    "delivered rx2 = delivered rx' @ pending tx'" using run_drain [OF p(1) grants] by blast
  have "delivered rx2 = take (length sdus) pdus" using d(2) p(2,3) by simp
  moreover obtain q' where "pdcp_receive env q (take (length sdus) pdus) = Some q'" "delivered_bytes q' = delivered_bytes q @ sdus"
    using synced_send [OF pdcp] by (metis take_all_iff order_refl)
  ultimately show ?thesis using d(1) by auto
qed

end

end
