(* ===== verification/User_Plane.thy ===== *)
theory User_Plane
  imports Sdap_Properties Pdcp_Over_Rlc Pdcp_Properties Rlc_Properties
begin

text \<open>
  The stack of a data radio bearer: SDAP over PDCP over RLC in unacknowledged mode. A bearer run is what
  happens below SDAP (\<open>um_bearer_run\<close>); it keeps the order of the SDUs, so the lemmas of the locale
  \<open>ordered_bearer\<close> hold for the whole stack.
\<close>

section \<open>A bearer\<close>

text \<open>
  The sending PDCP entity has turned the SDUs \<open>sent\<close> into PDUs, which have entered the transmitting RLC
  entity in a run of the link; \<open>rx\<close> and \<open>q\<close> are the receiving RLC entity after the run and the receiving PDCP
  entity before it.
\<close>

inductive um_bearer_run :: "crypto_env \<Rightarrow> nat \<Rightarrow> nr_pdcp_entity \<Rightarrow> u8 list list \<Rightarrow> nr_rlc_entity_um \<Rightarrow> nr_rlc_entity_um \<Rightarrow> bool"
  for env n q sent where
  "\<lbrakk>new_nr_rlc_entity_um a1 b1 c1 n = Some tx; new_nr_rlc_entity_um a2 b2 c2 n = Some rx; NR_SDU_MAX \<le> a2;
    \<forall>ev \<in> set evs. um_event_ok n ev; link_run um_ops (tx, rx) evs = Some ((tx', rx'), pdus);
    crypto_ok env; pdcp_synced p q; delivered_bytes q = []; pdcp_send env p sent m = Some (p', pdus);
    \<forall>sdu \<in> set sent. length sdu > (if has_sdap_tx p then 1 else 0)\<rbrakk>
   \<Longrightarrow> um_bearer_run env n q sent tx' rx'"

definition um_bearer_got :: "crypto_env \<Rightarrow> nr_pdcp_entity \<Rightarrow> nr_rlc_entity_um \<Rightarrow> u8 list list option" where
  "um_bearer_got env q rx = map_option delivered_bytes (pdcp_receive env q (um_delivered rx))"

definition um_carries :: "u8 list list \<Rightarrow> u8 list list \<Rightarrow> bool" where
  "um_carries sent got \<longleftrightarrow> (\<exists>env n q tx rx. um_bearer_run env n q sent tx rx \<and> um_bearer_got env q rx = Some got)"

lemma um_new_empty:
  assumes "new_nr_rlc_entity_um a b c n = Some e"
  shows "um_delivered e = []" "map sdu_data (um_tx_list e) = []"
  using assms by (auto simp: new_nr_rlc_entity_um_def split: if_splits)

lemma um_bearer_prefix:
  assumes "um_bearer_run env n q sent tx rx"
  shows "um_bearer_got env q rx = Some (take (length (um_delivered rx)) sent)"
  using assms
proof cases
  case (1 a1 b1 c1 tx0 a2 b2 c2 rx0 evs pdus p m p')
  have ev: "\<And>ev. ev \<in> set evs \<Longrightarrow> um_link.event_ok n ev" using 1(4) by (simp add: um_event_ok_link)
  show ?thesis
    using um_link.pdcp_prefix(4) [OF um_linked_new [OF 1(1-3)] um_new_empty(1) [OF 1(2)] um_new_empty(2) [OF 1(1)] ev 1(5-7,9,10)] 1(8)
    by (auto simp: um_bearer_got_def)
qed

interpretation um_bearer: ordered_bearer um_carries
  by unfold_locales (auto simp: um_carries_def um_bearer_prefix)

text \<open>Further grants extend a run, and enough of them empty the queue.\<close>

lemma link_run_append:
  "link_run ops c evs = Some (c', acc) \<Longrightarrow> link_run ops c' evs' = Some (c'', acc') \<Longrightarrow> link_run ops c (evs @ evs') = Some (c'', acc @ acc')"
proof (induction evs arbitrary: c acc)
  case (Cons ev evs)
  then obtain c1 a1 where "link_step ops c ev = Some c1" "link_run ops c1 evs = Some (c', a1)" "acc = newly_accepted ops (fst c) ev @ a1"
    by (auto split: Option.bind_splits)
  then show ?case using Cons.IH [of c1 a1] Cons.prems(2) by simp
qed simp

lemma um_bearer_drain:
  assumes "um_bearer_run env n q sent tx rx" and "\<forall>b \<in> set bs. 5 \<le> length b" and "um_tx_size tx \<le> int (length bs)"
  shows "\<exists>tx2 rx2. link_run um_ops (tx, rx) (map Tx_grant bs) = Some ((tx2, rx2), []) \<and>
    um_bearer_run env n q sent tx2 rx2 \<and> um_bearer_got env q rx2 = Some sent"
  using assms(1)
proof cases
  case (1 a1 b1 c1 tx0 a2 b2 c2 rx0 evs pdus p m p')
  have ev: "\<And>ev. ev \<in> set evs \<Longrightarrow> um_link.event_ok n ev" using 1(4) by (simp add: um_event_ok_link)
  have g: "\<And>b. b \<in> set bs \<Longrightarrow> (n = 6 \<or> length b \<noteq> 2) \<and> 5 \<le> length b" using assms(2) by fastforce
  obtain tx2 rx2 q' where d: "link_run um_ops (tx, rx) (map Tx_grant bs) = Some ((tx2, rx2), [])"
    "pdcp_receive env q (um_delivered rx2) = Some q'" "delivered_bytes q' = sent"
    using um_link.pdcp_complete [OF um_linked_new [OF 1(1-3)] um_new_empty(1) [OF 1(2)] um_new_empty(2) [OF 1(1)] ev 1(5-7,9,10), of bs]
      g assms(3) 1(8) by fastforce
  have "\<forall>ev \<in> set (evs @ map Tx_grant bs). um_event_ok n ev" using 1(4) g by (auto simp: um_event_ok_def)
  moreover have "link_run um_ops (tx0, rx0) (evs @ map Tx_grant bs) = Some ((tx2, rx2), pdus)"
    using link_run_append [OF 1(5) d(1)] by simp
  ultimately have "um_bearer_run env n q sent tx2 rx2" by (rule um_bearer_run.intros [OF 1(1-3) _ _ 1(6-10)])
  then show ?thesis using d by (auto simp: um_bearer_got_def)
qed

section \<open>The stack in both directions\<close>

text \<open>The flows of both directions (\<open>dl\<close>: from the gNB to the UE) and what the receiver hands to its upper layer.\<close>

definition sdap_flow :: "bool \<Rightarrow> nr_sdap_entity \<Rightarrow> nr_sdap_entity \<Rightarrow> int \<Rightarrow> nat \<Rightarrow> bool" where
  "sdap_flow dl e e' drb qfi = (if dl then dl_flow e e' drb qfi else ul_flow e e' drb qfi)"

definition upper_output :: "bool \<Rightarrow> nr_sdap_entity \<Rightarrow> int \<Rightarrow> u64 \<Rightarrow> nat \<times> bool \<times> u8 list \<Rightarrow> sdap_output" where
  "upper_output dl e p i x =
     (case x of (qfi, rqi, sdu) \<Rightarrow> if dl then To_socket (pdusession_sock e) sdu else To_gtp i p (Some (int qfi)) sdu)"

lemma stack_in_order:
  assumes "\<forall>(qfi, rqi, sdu) \<in> set l. sdap_flow dl e e' drb qfi \<and> packet_ok sdu"
    and "sdap_send pdcp e i l = Some outs" and "um_carries (on_bearer drb outs) got"
  shows "sdap_receive e' d (\<not> dl) p i got = Some (e', map (upper_output dl e' p i) (take (length got) l))"
proof (cases dl)
  case True
  then show ?thesis using um_bearer.downlink_in_order [of l e e' drb, OF _ assms(2,3)] assms(1)
    by (simp add: sdap_flow_def upper_output_def [abs_def])
next
  case False
  then show ?thesis using um_bearer.uplink_in_order [of l e e' drb, OF _ assms(2,3)] assms(1)
    by (simp add: sdap_flow_def upper_output_def [abs_def])
qed

lemma stack_sent:
  assumes "\<forall>(qfi, rqi, sdu) \<in> set l. sdap_flow dl e e' drb qfi \<and> packet_ok sdu" and "sdap_send pdcp e i l = Some outs"
  shows "length (on_bearer drb outs) = length l"
proof (cases dl)
  case True
  then show ?thesis using dl_send [of l e e' drb pdcp i] assms by (auto simp: sdap_flow_def)
next
  case False
  then show ?thesis using ul_send [of l e e' drb pdcp i] assms by (auto simp: sdap_flow_def)
qed

text \<open>
  C3: The user plane of a bearer in unacknowledged mode, SDAP over PDCP over RLC, downlink and uplink. For
  packets of flows that both SDAP entities map with headers, whatever the order of packets, grants (but of
  two bytes when RLC sequence numbers have 12 bits) and clock ticks, with PDCP PDUs of at most 16000 bytes, the packets that the receiving SDAP entity hands to its upper layer (the interface of
  the UE, or GTP-U with the QFI of each packet) are at any time the first ones that were sent, in order and with
  their exact bytes; and as many further grants of at least five bytes as there are queued bytes deliver all of them.
\<close>

theorem sdap_over_pdcp_over_um:
  assumes "\<forall>(qfi, rqi, sdu) \<in> set l. sdap_flow dl e e' drb qfi \<and> packet_ok sdu"
    and "sdap_send pdcp e i l = Some outs" and "um_bearer_run env n q (on_bearer drb outs) tx rx"
    and "\<forall>b \<in> set bs. 5 \<le> length b" and "um_tx_size tx \<le> int (length bs)"
  shows "(\<exists>got. um_bearer_got env q rx = Some got \<and>
      sdap_receive e' d (\<not> dl) p i got = Some (e', map (upper_output dl e' p i) (take (length got) l))) \<and>
    (\<exists>tx2 rx2 got. link_run um_ops (tx, rx) (map Tx_grant bs) = Some ((tx2, rx2), []) \<and> um_bearer_got env q rx2 = Some got \<and>
      sdap_receive e' d (\<not> dl) p i got = Some (e', map (upper_output dl e' p i) l))"
proof -
  note r = stack_in_order [OF assms(1,2), of _ d p]
  obtain tx2 rx2 where d: "link_run um_ops (tx, rx) (map Tx_grant bs) = Some ((tx2, rx2), [])"
    "um_bearer_run env n q (on_bearer drb outs) tx2 rx2" "um_bearer_got env q rx2 = Some (on_bearer drb outs)"
    using um_bearer_drain [OF assms(3-5)] by blast
  have "um_carries (on_bearer drb outs) (on_bearer drb outs)" unfolding um_carries_def using d(2,3) by blast
  from r [OF this] have "sdap_receive e' d (\<not> dl) p i (on_bearer drb outs) = Some (e', map (upper_output dl e' p i) l)"
    using stack_sent [OF assms(1,2)] by simp
  moreover have "um_carries (on_bearer drb outs) (take (length (um_delivered rx)) (on_bearer drb outs))"
    unfolding um_carries_def using um_bearer_prefix [OF assms(3)] assms(3) by blast
  ultimately show ?thesis using r um_bearer_prefix [OF assms(3)] d(1,3) by blast
qed


definition demo_flow_config :: NR_SDAP_Config where
  "demo_flow_config = demo_sdap_config\<lparr>mappedQoS_FlowsToAdd := Some [1]\<rparr>"

definition demo_flow_sdap :: "bool \<Rightarrow> nr_sdap_entity option" where
  "demo_flow_sdap is_gnb = Option.bind (nr_sdap_get_config is_gnb demo_flow_config 1) (\<lambda>cf.
     Option.bind (nr_sdap_addmod_entity None [] is_gnb 7 cf) (\<lambda>r. nr_sdap_get_entity (fst r) 7 10))"

lemma demo_flow_entities:
  obtains gnb ue where "demo_flow_sdap True = Some gnb" and "demo_flow_sdap False = Some ue" and "sdap_flow True gnb ue 1 1"
proof -
  have "Option.bind (demo_flow_sdap True) (\<lambda>gnb. map_option (\<lambda>ue. sdap_flow True gnb ue 1 1) (demo_flow_sdap False)) = Some True"
    by code_simp
  then show ?thesis using that by (auto simp: bind_eq_Some_conv)
qed

lemma demo_synced: "pdcp_synced (demo_pdcp typ True demo_security) (demo_pdcp typ False demo_security)"
  by (simp add: pdcp_synced_def demo_peers demo_pdcp_start)

lemma demo_link_run:
  obtains pdu tx p' where "link_run um_ops (demo_tx, demo_tx) [Sdu_arrival 1 pdu] = Some ((tx, demo_tx), [pdu])" and "um_tx_size tx = 9"
    and "pdcp_send demo_crypto (demo_pdcp NR_PDCP_DRB_UM True demo_security) [[1, 2, 3]] 20 = Some (p', [pdu])"
    and "\<forall>ev \<in> set [Sdu_arrival 1 pdu]. um_event_ok 12 ev"
proof -
  let ?p = "demo_pdcp NR_PDCP_DRB_UM True demo_security"
  obtain pdu where pdu: "nr_pdcp_entity_process_sdu demo_crypto ?p [1, 2, 3] 20 = Some (count_tx_pdu ?p 3, Some pdu)" "length pdu = 9"
    by (rule demo_built)
  let ?tx = "the (nr_rlc_entity_um_recv_sdu demo_tx pdu 1)"
  show ?thesis
  proof (rule that [of pdu ?tx "count_tx_pdu ?p 3"])
    show "link_run um_ops (demo_tx, demo_tx) [Sdu_arrival 1 pdu] = Some ((?tx, demo_tx), [pdu])" "um_tx_size ?tx = 9"
      using pdu(2)
      by (simp_all add: link_step_def um_ops_def newly_accepted_def nr_rlc_entity_um_available_tx_space_def demo_tx_def
        new_nr_rlc_entity_um_def nr_rlc_entity_um_recv_sdu_def NR_SDU_MAX_def nr_rlc_new_sdu_def Let_def)
    show "pdcp_send demo_crypto ?p [[1, 2, 3]] 20 = Some (count_tx_pdu ?p 3, [pdu])" using pdu(1) by simp
    show "\<forall>ev \<in> set [Sdu_arrival 1 pdu]. um_event_ok 12 ev" using pdu(2) by (auto simp: um_event_ok_def sdu_size_ok_def NR_SDU_MAX_def)
  qed
qed

lemma demo_um_run:
  obtains tx rx where "um_bearer_run demo_crypto 12 (demo_pdcp NR_PDCP_DRB_UM False demo_security) [[1, 2, 3]] tx rx" and "um_tx_size tx = 9"
proof -
  obtain pdu tx p' where r: "link_run um_ops (demo_tx, demo_tx) [Sdu_arrival 1 pdu] = Some ((tx, demo_tx), [pdu])" "um_tx_size tx = 9"
    "pdcp_send demo_crypto (demo_pdcp NR_PDCP_DRB_UM True demo_security) [[1, 2, 3]] 20 = Some (p', [pdu])"
    "\<forall>ev \<in> set [Sdu_arrival 1 pdu]. um_event_ok 12 ev" by (rule demo_link_run)
  have "um_bearer_run demo_crypto 12 (demo_pdcp NR_PDCP_DRB_UM False demo_security) [[1, 2, 3]] tx demo_tx"
    by (rule um_bearer_run.intros [OF demo_new demo_new _ r(4,1) demo_crypto_ok demo_synced _ r(3)])
      (simp_all add: NR_SDU_MAX_def demo_pdcp_start delivered_bytes_def)
  then show ?thesis using that r(2) by blast
qed

theorem sdap_over_pdcp_over_um_witness:
  "\<exists>gnb ue tx rx bs c got. demo_flow_sdap True = Some gnb \<and> demo_flow_sdap False = Some ue \<and>
     link_run um_ops (tx, rx) (map Tx_grant bs) = Some (c, []) \<and>
     um_bearer_got demo_crypto (demo_pdcp NR_PDCP_DRB_UM False demo_security) (snd c) = Some got \<and>
     sdap_receive ue 1 False 10 7 got = Some (ue, [To_socket (pdusession_sock ue) [2, 3]])"
proof -
  obtain gnb ue where f: "demo_flow_sdap True = Some gnb" "demo_flow_sdap False = Some ue" "sdap_flow True gnb ue 1 1"
    by (rule demo_flow_entities)
  obtain tx rx where r: "um_bearer_run demo_crypto 12 (demo_pdcp NR_PDCP_DRB_UM False demo_security) [[1, 2, 3]] tx rx" "um_tx_size tx = 9"
    by (rule demo_um_run)
  let ?l = "[(1 :: nat, False, [2, 3 :: u8])]"
  have h: "sdap_hdr 1 False False = 1" by code_simp
  have l: "\<forall>(qfi, rqi, sdu) \<in> set ?l. sdap_flow True gnb ue 1 qfi \<and> packet_ok sdu" using f(3) by (simp add: packet_ok_def)
  obtain outs where o: "sdap_send (\<lambda>_ _ _. True) gnb 7 ?l = Some outs" "on_bearer 1 outs = [[1, 2, 3]]"
    using dl_send [of ?l gnb ue 1 "\<lambda>_ _ _. True" 7] l h by (auto simp: sdap_flow_def dl_pdu_def)
  show ?thesis
    using sdap_over_pdcp_over_um [OF l o(1), of demo_crypto 12 "demo_pdcp NR_PDCP_DRB_UM False demo_security" tx rx "replicate 9 (replicate 5 0)" 1 10] r f(1,2)
    unfolding o(2) by (simp add: upper_output_def del: link_run.simps map_replicate) (metis snd_conv)
qed

end
