(* ===== verification/Spec2Isabelle.thy ===== *)
theory Spec2Isabelle
  imports Dl_Scheduler_Properties Slice_Control_Properties Rlc_Properties Pdcp_Properties Rlc_Am_Status_Properties Rlc_Api_Properties Pdcp_Api_Properties User_Plane
begin

text \<open>
  Verification of parts of the 5G base station and RIC of this repository (OpenAirInterface with
  FlexRIC, extended by slice control).

  \<^bold>\<open>The program.\<close> A RIC application (xApp) reads slice policies from JSON files and sends them as E2SM-RC
  control messages to the gNB. The gNB's E2 agent parses a message, checks the ratios and
  installs the policies in the MAC, whose downlink scheduler gives each slice a budget of resource
  blocks in every slot. The scheduled transport blocks carry the PDUs of the RLC entities, which
  in turn segment and reassemble the PDUs of the PDCP entities; these number, cipher and
  protect the packets of the SDAP entities, which map the QoS flows of a PDU session to bearers.

  \<^bold>\<open>Theories and sources.\<close>
  \<^item> \<open>Prelude\<close>: C integer types as words, truncating division, single precision rounding, loops with
    break and return, generic lemmas.
  \<^item> \<open>Mac_Primitives\<close>, \<open>Transport_Block\<close>: resource block search, PDCCH marking, MCS adaptation and
    beams (\<^verbatim>\<open>gNB_scheduler_primitives.c\<close>), transport block sizes and the number of resource blocks
    (\<^verbatim>\<open>nr_compute_tbs_common.c\<close>, \<^verbatim>\<open>nr_mac_common.c\<close>).
  \<^item> \<open>Dl_Candidate\<close>, \<open>Slice_Scheduler\<close>: downlink candidates, the macro \<^verbatim>\<open>COMMIT_ALLOC\<close>, the policies of
    \<^verbatim>\<open>gNB_scheduler_dlsch_default_policies.c\<close> and the allocation stage of \<^verbatim>\<open>gNB_scheduler_dlsch.c\<close>. The
    state of a slot is one record; every policy function maps it to the next state. \<open>Slice_Safety\<close>
    and \<open>Slice_Quota\<close> hold the invariants, \<open>Dl_Scheduler_Properties\<close> the properties: no resource
    block is given twice, and no slice exceeds its budget.
  \<^item> \<open>C_String\<close>, \<open>Rc_Message\<close>, \<open>Rc_Slice_Control\<close>, \<open>Slice_Xapp\<close>: byte arrays, the message tree of
    E2SM-RC with comparison, copy and release, the control handler of the gNB
    (\<^verbatim>\<open>rc_ctrl_service_style_2.c\<close>, \<^verbatim>\<open>ran_func_rc.c\<close>) and the xApp (\<^verbatim>\<open>xapp_rc_slice_ctrl.c\<close>). A result
    is a value, an error or an abort. \<open>Slice_Control_Properties\<close>: what the xApp sends is what
    the MAC installs, and a rejected message installs nothing.
  \<^item> \<open>Rlc_Pdu\<close>, \<open>Rlc_Um\<close>, \<open>Rlc_Tm\<close>: the RLC entities in unacknowledged and transparent mode
    (\<^verbatim>\<open>nr_rlc_entity_um.c\<close>, \<^verbatim>\<open>nr_rlc_entity_tm.c\<close>, \<^verbatim>\<open>nr_rlc_pdu.c\<close>, \<^verbatim>\<open>nr_rlc_sdu.c\<close>); delivered data units
    are recorded in the entity. \<open>Rlc_Link\<close> states the contract of two entities joined by a link
    that loses nothing, as the locale \<open>rlc_link\<close>, and proves, through an abstract queue, that they keep the order.
    \<open>Rlc_Um_Codec\<close>, \<open>Rlc_Um_Reception\<close>, \<open>Rlc_Um_Transfer\<close> discharge the contract for the
    unacknowledged mode; \<open>Rlc_Um_Robust\<close> shows that no bytes from the air make an entity fail.
    \<open>Rlc_Properties\<close> holds the properties.
  \<^item> \<open>Rlc_Rx_Manager\<close>, \<open>Rlc_Am\<close>, \<open>Rlc_Am_Status\<close>, \<open>Rlc_Am_Report\<close>, \<open>Rlc_Am_Entity\<close>: the RLC entity in
    acknowledged mode (\<^verbatim>\<open>nr_rlc_rx_manager.c\<close>, \<^verbatim>\<open>nr_rlc_entity_am.c\<close>, \<^verbatim>\<open>nr_rlc_sdu.c\<close>): the ring of received
    PDUs, reception and reassembly, decoding and processing of STATUS PDUs, their generation and
    size, transmission, retransmission and polling, timers, discard and re-establishment. SDUs
    live in a heap with the reference and free counts of the code; \<open>sh_freed\<close> marks a freed one.
    \<open>Rlc_Am_Codec\<close>: the header of a data PDU. \<open>Rlc_Am_Books\<close>, \<open>Rlc_Am_Tx\<close>: the books of the
    transmitter (reference counts, \<^verbatim>\<open>tx_size\<close>, buffer status) are kept by every operation.
    \<open>Rlc_Am_Window\<close>, \<open>Rlc_Am_Reception\<close>: the receive window as a ring of slots, its invariant and
    when reception ends. \<open>Rlc_Am_Safety\<close>: both halves together, over the states that calls reach
    (\<open>am_reachable\<close>). \<open>Rlc_Am_Delivery\<close>: exact reassembly. \<open>Rlc_Am_Stall\<close>: a run that never returns.
    \<open>Rlc_Am_Size\<close>: announced and real size of a STATUS PDU. \<open>Rlc_Am_Missing\<close>: the walk over the
    received PDUs misses nothing. \<open>Rlc_Am_Status_Codec\<close>: the bits of a STATUS PDU and what the peer
    decodes. \<open>Rlc_Am_Status_Sound\<close>: a report acknowledges nothing that is missing.
    \<open>Rlc_Am_Properties\<close>, \<open>Rlc_Am_Status_Properties\<close>: the properties.
  \<^item> \<open>Rlc_Config\<close>, \<open>Rlc_Manager\<close>, \<open>Rlc_Api\<close>: the configuration of bearers (\<^verbatim>\<open>asn1_utils.c\<close>, \<^verbatim>\<open>nr_rlc_configuration.h\<close>), the
    table of UEs with entities of the three modes (\<^verbatim>\<open>nr_rlc_ue_manager.c\<close>) and the interface of RLC to MAC,
    PDCP, RRC and F1 with the callbacks of the entities (\<^verbatim>\<open>nr_rlc_oai_api.c\<close>). What RLC hands to other layers is
    recorded in the state; the manager lock is held over a call, so calls do not interleave.
    \<open>Rlc_Api_Isolation\<close>: a call (\<open>rlc_call\<close>) changes only the UEs that it names. \<open>Rlc_Api_Invariant\<close>: the tables
    are well-formed in the states that calls reach. \<open>Rlc_Api_Link\<close>: a bearer in unacknowledged mode between
    two nodes, by the link contract of its entities. \<open>Rlc_Api_Properties\<close>: the properties.
  \<^item> \<open>Snow3g_Tables\<close>, \<open>Snow3g\<close>: the stream cipher of \<^verbatim>\<open>snow3g.c\<close>. \<open>Snow3g_Correct\<close> and \<open>Snow3g_Integrity\<close>
    show that its optimisations (doubled register, multiplication tables) compute the
    reference algorithm.
  \<^item> \<open>Pdcp\<close>: the PDCP entity (\<^verbatim>\<open>nr_pdcp_entity.c\<close>, \<^verbatim>\<open>nr_pdcp_sdu.c\<close>) and its security functions. \<open>Pdcp_Count\<close>:
    COUNT arithmetic and the header. \<open>Pdcp_Reception\<close>: the invariant of the receiver and its timer.
    \<open>Pdcp_Transfer\<close>, \<open>Pdcp_Security\<close>: peers, authenticity, totality. \<open>Pdcp_Properties\<close>: the
    properties. \<open>Pdcp_Over_Rlc\<close>: PDCP on top of any RLC link, inside the locale \<open>rlc_link\<close>.
  \<^item> \<open>Work_Queue\<close>, \<open>Pdcp_Manager\<close>, \<open>Pdcp_Api\<close>: the queues between PDCP and RLC with the threads that empty them, as a
    ring with the contract \<open>one_worker\<close>; the table of UEs with PDCP entities (\<^verbatim>\<open>nr_pdcp_ue_manager.c\<close>, \<^verbatim>\<open>nr_pdcp_configuration.h\<close>)
    and the interface of PDCP to RLC, SDAP, RRC and F1 (\<^verbatim>\<open>nr_pdcp_oai_api.c\<close>, \<^verbatim>\<open>nr_pdcp_timer_thread.c\<close>). A thread takes an item, works
    on it and removes it in three steps, between which other calls may come; a call is one step under the
    manager lock. \<open>Pdcp_Api_Isolation\<close>: a call touches one UE only. \<open>Pdcp_Api_Invariant\<close>: well-formed tables
    over reachable states, and what a round of the timer thread does. \<open>Pdcp_Api_Properties\<close>: the properties.
  \<^item> \<open>Sdap\<close>: the SDAP entities (\<^verbatim>\<open>nr_sdap_entity.c\<close>, \<^verbatim>\<open>nr_sdap.c\<close>); what leaves the layer is recorded as
    output. \<open>Sdap_Entity\<close>: the invariant of entities and of their list over reachable states.
    \<open>Sdap_Transfer\<close>: packets between two entities over a bearer that keeps the order (locale
    \<open>ordered_bearer\<close>). \<open>Sdap_Properties\<close>: the properties. \<open>User_Plane\<close>: PDCP over RLC as such a bearer, and
    the property of the whole stack.
  \<^item> This theory: the property that spans PDCP and RLC.

  \<^bold>\<open>Parameters.\<close> Code outside of the sources is an argument of the definitions: AES in counter mode and CMAC of
  OpenSSL, of which \<open>crypto_ok\<close> states what is used. Some code of the repository is an argument as well, so
  that the theorems hold for whatever it does: the allocation of CCEs and of PUCCH and the time domain
  allocation of a candidate (\<open>mac_env\<close>), and the RIC API that the xApp calls. For SDAP, whether PDCP takes an SDU, the socket and name of an interface, and the
  greatest number of entities (it depends on the build) are arguments. For PDCP the kind of the node and the
  table of UE identifiers of F1 are arguments. Contents of memory that is not initialised is an argument too.

  \<^bold>\<open>Bounds and termination.\<close> All functions are total. Loops are structural recursions or come with a measure;
  loops whose end depends on their arguments (rounding a number of resource blocks, skipping
  delivered sequence numbers, freeing delivered SDUs, walking over the received PDUs for a report) are
  partial functions into options, and it is proved when they return. The result \<open>None\<close> stands
  for a failed assertion, an exit, an access out of bounds or a loop without end, never for a choice
  of fuel: the decoder of the NACKs of a STATUS PDU counts down from the number of bits of the PDU,
  and every round reads at least one. The link theorems allow data units of 1 to 16000 bytes (the limit in
  the code) and exclude grants of two bytes with 12 bit sequence numbers, for which the code loses
  a data unit. The order of PDCP delivery is shown up to the last COUNT before the wrap-around. The states
  of the theorems on single entities are those that the calls listed at \<open>um_reachable\<close>, \<open>am_reachable\<close> and
  \<open>pdcp_event\<close> reach; among these calls there is no reconfiguration of an acknowledged mode entity, none that
  changes the length of sequence numbers, and no suspension or re-establishment of PDCP.

  \<^bold>\<open>Not modelled.\<close> The physical layer and radio drivers; RRC, NGAP, F1AP and all generated ASN.1 code; LTE;
  the RIC server and its libraries apart from the control message data; the collection of
  candidates and the construction of DCI and MAC PDUs around the scheduling stage; the E1 handlers that
  configure PDCP at a CU-UP; waiting time statistics and logs;
  memory management other than that of the SDUs in acknowledged mode; sockets and the threads that read them. The rest of \<^verbatim>\<open>nr_dl_schedule\<close> and the
  acknowledgements of an acknowledged mode link are the next candidates.
\<close>

section \<open>The user plane: PDCP over RLC\<close>

text \<open>
  C4: PDCP over RLC in unacknowledged mode, between two new RLC entities and two PDCP peers. Whatever the
  order of PDU arrivals (of 1 to 16000 bytes), transmission grants (but of two bytes when RLC sequence numbers
  have 12 bits) and clock ticks, what has arrived at the upper layer
  of the receiver at any time is a prefix of the sequence of SDUs that were sent,
  byte by byte; and as many further grants of at least five bytes as there are queued bytes deliver all of them.
\<close>

theorem pdcp_over_um:
  assumes "new_nr_rlc_entity_um a1 b1 c1 n = Some tx" and "new_nr_rlc_entity_um a2 b2 c2 n = Some rx"
    and "NR_SDU_MAX \<le> a2" and "\<forall>ev \<in> set evs. um_event_ok n ev"
    and "link_run um_ops (tx, rx) evs = Some ((tx', rx'), pdus)"
    and "crypto_ok env" and "pdcp_synced p q" and "pdcp_send env p sdus m = Some (p', pdus)"
    and "\<forall>sdu \<in> set sdus. length sdu > (if has_sdap_tx p then 1 else 0)"
    and "\<forall>b \<in> set bs. 5 \<le> length b" and "um_tx_size tx' \<le> int (length bs)"
  shows "(\<exists>q'. pdcp_receive env q (um_delivered rx') = Some q' \<and>
      delivered_bytes q' = delivered_bytes q @ take (length (um_delivered rx')) sdus) \<and>
    (\<exists>tx2 rx2 q'. link_run um_ops (tx', rx') (map Tx_grant bs) = Some ((tx2, rx2), []) \<and>
      pdcp_receive env q (um_delivered rx2) = Some q' \<and> delivered_bytes q' = delivered_bytes q @ sdus)"
proof -
  have e: "um_delivered rx = []" "map sdu_data (um_tx_list tx) = []"
    using assms(1,2) by (auto simp: new_nr_rlc_entity_um_def split: if_splits)
  have ev: "\<And>ev. ev \<in> set evs \<Longrightarrow> um_link.event_ok n ev" using assms(4) by (simp add: um_event_ok_link)
  have g: "\<And>b. b \<in> set bs \<Longrightarrow> (n = 6 \<or> length b \<noteq> 2) \<and> 5 \<le> length b" using assms(10) by fastforce
  note l = um_linked_new [OF assms(1-3)]
  show ?thesis
    using um_link.pdcp_prefix(4) [OF l e ev assms(5-9)] um_link.pdcp_complete [OF l e ev assms(5-9) g] assms(11) by simp
qed

theorem pdcp_over_um_witness:
  "\<exists>evs bs tx' rx' tx2 rx2 pdus q'. link_run um_ops (demo_tx, demo_tx) evs = Some ((tx', rx'), pdus) \<and>
     link_run um_ops (tx', rx') (map Tx_grant bs) = Some ((tx2, rx2), []) \<and>
     pdcp_receive demo_crypto (demo_pdcp NR_PDCP_DRB_UM False demo_security) (um_delivered rx2) = Some q' \<and>
     delivered_bytes q' = [[1, 2, 3]]"
proof -
  obtain pdu tx p' where r: "link_run um_ops (demo_tx, demo_tx) [Sdu_arrival 1 pdu] = Some ((tx, demo_tx), [pdu])" "um_tx_size tx = 9"
    "pdcp_send demo_crypto (demo_pdcp NR_PDCP_DRB_UM True demo_security) [[1, 2, 3]] 20 = Some (p', [pdu])"
    "\<forall>ev \<in> set [Sdu_arrival 1 pdu]. um_event_ok 12 ev" by (rule demo_link_run)
  show ?thesis
    using pdcp_over_um [OF demo_new demo_new _ r(4,1) demo_crypto_ok demo_synced r(3), of "replicate 9 (replicate 5 0)"] r(1,2)
    by (simp add: NR_SDU_MAX_def demo_pdcp_start del: link_run.simps map_replicate) (metis append_Nil delivered_bytes_def demo_pdcp_start(5) list.map(1))
qed

end
